(* ===== verification/Emdros_Prelude.thy ===== *)
theory Emdros_Prelude
  imports Main
begin

text \<open>
  The prelude of the Emdros development: the errors the C++ code raises, the result
  type that carries them, the loops that thread a result through a list, the constants
  and integer types of \<^verbatim>\<open>include/emdf.h\<close>, and the generic lemmas on lists and integers the
  components share.
\<close>

section \<open>Shared collections\<close>

named_theorems res_simps \<open>rewriting of results and monadic loops\<close>
named_theorems mse_simps \<open>unfolding of the operations on monad set elements\<close>

section \<open>Errors and results\<close>

text \<open>
  \<^item> \<open>EmdrosException\<close> is what \<open>ASSERT_THROW\<close> throws (\<^verbatim>\<open>include/debug.h\<close>);
  \<^item> \<open>BadMonadsException\<close> is thrown by the constructor of a monad set element;
  \<^item> \<open>NullDeref\<close> stands for reading through a null, dangling or past-the-end pointer: the
    C++ has undefined behaviour there, the model stops with an error;
  \<^item> \<open>UndefinedValue\<close> stands for a value C++ does not define though nothing is dereferenced, such
    as a number read from a union that holds a pointer: no exception is thrown, a real machine goes
    on with some value, and the model stops because it cannot say with which;
  \<^item> \<open>DivByZero\<close> stands for an integer division by zero;
  \<^item> \<open>OutOfFuel\<close> marks a pointer walk that does not end.
\<close>

datatype emdros_error =
    EmdrosException
  | BadMonadsException
  | NullDeref
  | UndefinedValue
  | DivByZero
  | OutOfFuel

type_synonym 'a res = "emdros_error + 'a"

primrec bind_res :: "'a res \<Rightarrow> ('a \<Rightarrow> 'b res) \<Rightarrow> 'b res" where
  "bind_res (Inl e) f = Inl e"
| "bind_res (Inr x) f = f x"

text \<open>\<open>ASSERT_THROW_X(COND, EXCEP, STR)\<close> of \<^verbatim>\<open>include/debug.h\<close>.\<close>

definition ASSERT_THROW_X :: "bool \<Rightarrow> emdros_error \<Rightarrow> unit res" where
  "ASSERT_THROW_X c e = (if c then Inr () else Inl e)"

definition ASSERT_THROW :: "bool \<Rightarrow> unit res" where
  "ASSERT_THROW c = ASSERT_THROW_X c EmdrosException"

text \<open>A loop \<open>while (it.hasNext()) s = f(s, it.next())\<close> whose body may throw.\<close>

primrec foldM_res :: "('s \<Rightarrow> 'a \<Rightarrow> 's res) \<Rightarrow> 's \<Rightarrow> 'a list \<Rightarrow> 's res" where
  "foldM_res f s [] = Inr s"
| "foldM_res f s (x # xs) = bind_res (f s x) (\<lambda>s'. foldM_res f s' xs)"

definition returns :: "'a res \<Rightarrow> ('a \<Rightarrow> bool) \<Rightarrow> bool" where
  "returns r P = (case r of Inl e \<Rightarrow> False | Inr x \<Rightarrow> P x)"

section \<open>Integer types and constants\<close>

text \<open>
  A monad is an \<open>emdros_i32\<close>. Monads are modelled as \<^typ>\<open>int\<close>; every set the
  code builds keeps its monads between \<open>0\<close> and \<open>MAX_MONAD\<close>, so the additions and
  subtractions of the code stay inside 32 bits (\<open>i32_range\<close> states the width where a
  theorem is about it).
\<close>

type_synonym monad_m = int

definition MAX_MONAD :: monad_m where
  "MAX_MONAD = 2100000000"

definition i32_range :: "int \<Rightarrow> bool" where
  "i32_range x \<longleftrightarrow> - (2 ^ 31) \<le> x \<and> x < 2 ^ 31"

text \<open>The value a 32-bit signed variable holds after a computation (wrap-around).\<close>

definition i32 :: "int \<Rightarrow> int" where
  "i32 x = (x + 2 ^ 31) mod 2 ^ 32 - 2 ^ 31"

section \<open>Lemmas on results\<close>

lemma bind_res_Inr_iff [res_simps]:
  "bind_res m f = Inr y \<longleftrightarrow> (\<exists>x. m = Inr x \<and> f x = Inr y)"
  by (cases m) auto

lemma bind_res_assoc: "bind_res (bind_res m f) g = bind_res m (\<lambda>x. bind_res (f x) g)"
  by (cases m) auto

lemma returns_Inr [simp]: "returns (Inr x) P = P x"
  by (simp add: returns_def)

lemma returns_Inl [simp]: "returns (Inl e) P = False"
  by (simp add: returns_def)

lemma returns_iff: "returns r P \<longleftrightarrow> (\<exists>x. r = Inr x \<and> P x)"
  by (cases r) auto

lemma returns_bind:
  "returns r P \<Longrightarrow> (\<And>x. P x \<Longrightarrow> returns (f x) Q) \<Longrightarrow> returns (bind_res r f) Q"
  by (cases r) auto

lemma returns_mono: "returns r P \<Longrightarrow> (\<And>x. P x \<Longrightarrow> Q x) \<Longrightarrow> returns r Q"
  by (cases r) auto

lemma ASSERT_THROW_True [simp]: "c \<Longrightarrow> ASSERT_THROW c = Inr ()"
  by (simp add: ASSERT_THROW_def ASSERT_THROW_X_def)

lemma ASSERT_THROW_False [simp]: "\<not> c \<Longrightarrow> ASSERT_THROW c = Inl EmdrosException"
  by (simp add: ASSERT_THROW_def ASSERT_THROW_X_def)

text \<open>
  The rule for a throwing loop: a relation between the concrete state and an abstract
  accumulator that each step keeps, without throwing, holds at the end.
\<close>

lemma foldM_res_refines:
  assumes "R s a"
    and "\<And>s a x. R s a \<Longrightarrow> x \<in> set xs \<Longrightarrow> returns (f s x) (\<lambda>s'. R s' (g a x))"
  shows "returns (foldM_res f s xs) (\<lambda>s'. R s' (foldl g a xs))"
  using assms
proof (induction xs arbitrary: s a)
  case Nil
  then show ?case by simp
next
  case (Cons x xs)
  have "returns (f s x) (\<lambda>s'. R s' (g a x))"
    using Cons.prems by simp
  then show ?case
    using Cons.IH Cons.prems(2) by (auto intro!: returns_bind)
qed

lemma foldM_res_append: "foldM_res f s (xs @ ys) = bind_res (foldM_res f s xs) (\<lambda>t. foldM_res f t ys)"
  by (induction xs arbitrary: s) (auto simp: bind_res_assoc)

lemma foldl_union_image: "foldl (\<lambda>A x. A \<union> f x) A xs = A \<union> (\<Union>x\<in>set xs. f x)"
  by (induction xs arbitrary: A) auto

lemma foldl_diff_image: "foldl (\<lambda>A x. A - f x) A xs = A - (\<Union>x\<in>set xs. f x)"
  by (induction xs arbitrary: A) auto

section \<open>Lemmas on constants and lists\<close>

lemma MAX_MONAD_nonneg [simp]: "0 \<le> MAX_MONAD"
  by (simp add: MAX_MONAD_def)

lemma MAX_MONAD_i32: "i32_range (MAX_MONAD + 1)"
  by (simp add: MAX_MONAD_def i32_range_def)

lemma i32_id [simp]: "i32_range x \<Longrightarrow> i32 x = x"
  by (simp add: i32_def i32_range_def)

lemma i32_bounds: "i32_range (i32 x)"
  using pos_mod_bound[of "2 ^ 32" "x + 2 ^ 31"] pos_mod_sign[of "2 ^ 32" "x + 2 ^ 31"]
  by (simp add: i32_range_def i32_def)

lemma i32_monad [simp]: "0 \<le> x \<Longrightarrow> x \<le> MAX_MONAD \<Longrightarrow> i32 x = x"
  by (simp add: i32_range_def MAX_MONAD_def)

lemma mem_shift_image: "(x :: int) \<in> (\<lambda>y. y + c) ` A \<longleftrightarrow> x - c \<in> A"
  by (auto intro: image_eqI[of _ _ "x - c"])

lemma sorted_wrt_snoc:
  "sorted_wrt P (xs @ [y]) \<longleftrightarrow> sorted_wrt P xs \<and> (\<forall>x\<in>set xs. P x y)"
  by (auto simp: sorted_wrt_append)

lemma list_last_cases:
  obtains (Nil) "xs = []" | (snoc) ys y where "xs = ys @ [y]"
  by (cases xs rule: rev_cases) auto

end
