(* ===== verification/MonadSetElement.thy ===== *)
theory MonadSetElement
  imports Emdros_Prelude
begin

text \<open>
  The class \<open>MonadSetElement\<close> of \<^verbatim>\<open>include/monads.h\<close>: a stretch of monads from
  \<open>first_m\<close> to \<open>last_m\<close>, both included, with its constructors, comparisons and updates.
  The stretch is read as the set of its monads by \<open>mse_set\<close>.
\<close>

section \<open>The class and its operations\<close>

datatype mse = MSE (first_m: monad_m) (last_m: monad_m)

definition MonadSetElement_range :: "monad_m \<Rightarrow> monad_m \<Rightarrow> mse res" where
  "MonadSetElement_range f l = (if f \<le> l then Inr (MSE f l) else Inl BadMonadsException)"

definition MonadSetElement_singleton :: "monad_m \<Rightarrow> mse" where
  "MonadSetElement_singleton m = MSE m m"

definition mse_subsumes :: "mse \<Rightarrow> mse \<Rightarrow> bool" where
  "mse_subsumes a b \<longleftrightarrow> first_m a \<le> first_m b \<and> last_m b \<le> last_m a"

definition mse_subsume :: "mse \<Rightarrow> mse \<Rightarrow> mse" where
  "mse_subsume a b =
     (let a1 = (if first_m a > first_m b then MSE (first_m b) (last_m a) else a)
      in if last_m a1 < last_m b then MSE (first_m a1) (last_m b) else a1)"

definition mse_truncate :: "mse \<Rightarrow> monad_m \<Rightarrow> monad_m \<Rightarrow> mse" where
  "mse_truncate a other_first other_last =
     (if first_m a < other_first then MSE (first_m a) (other_first - 1)
      else if last_m a > other_last then MSE (other_last + 1) (last_m a)
      else a)"

definition mse_adjacent :: "mse \<Rightarrow> mse \<Rightarrow> bool" where
  "mse_adjacent a b \<longleftrightarrow> last_m a + 1 = first_m b \<or> last_m b + 1 = first_m a"

definition mse_overlap :: "mse \<Rightarrow> mse \<Rightarrow> bool" where
  "mse_overlap a b \<longleftrightarrow> last_m a \<ge> first_m b \<and> first_m a \<le> last_m b"

definition mse_past :: "mse \<Rightarrow> mse \<Rightarrow> bool" where
  "mse_past a b \<longleftrightarrow> first_m a > last_m b + 1"

definition mse_equals :: "mse \<Rightarrow> mse \<Rightarrow> bool" where
  "mse_equals a b \<longleftrightarrow> first_m a = first_m b \<and> last_m a = last_m b"

definition mse_offset :: "mse \<Rightarrow> monad_m \<Rightarrow> mse" where
  "mse_offset a m = MSE (first_m a + m) (last_m a + m)"

definition mse_less :: "mse \<Rightarrow> mse \<Rightarrow> bool" where
  "mse_less a b =
     (if first_m a < first_m b then True
      else if first_m a > first_m b then False
      else if last_m a < last_m b then True
      else False)"

definition mse_isBefore :: "mse \<Rightarrow> mse \<Rightarrow> bool" where
  "mse_isBefore a b = mse_less a b"

definition mse_isBefore_monad :: "mse \<Rightarrow> monad_m \<Rightarrow> bool" where
  "mse_isBefore_monad a m \<longleftrightarrow> last_m a < m"

text \<open>\<open>operator<\<close> is a linear order; the library's order classes then apply to elements.\<close>

instantiation mse :: linorder
begin

definition less_mse_def: "(a :: mse) < b \<longleftrightarrow> mse_less a b"

definition less_eq_mse_def: "(a :: mse) \<le> b \<longleftrightarrow> a = b \<or> mse_less a b"

instance
  by standard (auto simp: less_mse_def less_eq_mse_def mse_less_def mse.expand split: if_splits)

end

section \<open>Abstraction\<close>

definition mse_set :: "mse \<Rightarrow> monad_m set" where
  "mse_set a = {first_m a..last_m a}"

text \<open>The class invariant of the header, with the bounds of the monads Emdros uses.\<close>

definition mse_ok :: "mse \<Rightarrow> bool" where
  "mse_ok a \<longleftrightarrow> 0 \<le> first_m a \<and> first_m a \<le> last_m a \<and> last_m a \<le> MAX_MONAD"

declare mse_adjacent_def [mse_simps] mse_overlap_def [mse_simps] mse_past_def [mse_simps]
  mse_subsumes_def [mse_simps] mse_isBefore_monad_def [mse_simps]

section \<open>Lemmas\<close>

lemma mse_equals_eq [simp]: "mse_equals a b \<longleftrightarrow> a = b"
  by (auto simp: mse_equals_def mse.expand)

lemma first_m_subsume [simp]: "first_m (mse_subsume a b) = min (first_m a) (first_m b)"
  by (auto simp: mse_subsume_def Let_def)

lemma last_m_subsume [simp]: "last_m (mse_subsume a b) = max (last_m a) (last_m b)"
  by (auto simp: mse_subsume_def Let_def)

lemma mse_ok_subsume [intro]: "mse_ok a \<Longrightarrow> mse_ok b \<Longrightarrow> mse_ok (mse_subsume a b)"
  by (auto simp: mse_ok_def)

lemma mse_set_subsume:
  "mse_ok a \<Longrightarrow> mse_ok b \<Longrightarrow> mse_overlap a b \<or> mse_adjacent a b \<Longrightarrow>
   mse_set (mse_subsume a b) = mse_set a \<union> mse_set b"
  by (auto simp: mse_ok_def mse_set_def mse_simps)

lemma mse_ok_nonempty: "mse_ok a \<Longrightarrow> mse_set a \<noteq> {}"
  by (auto simp: mse_ok_def mse_set_def)

lemma finite_mse_set [simp]: "finite (mse_set a)"
  by (simp add: mse_set_def)

lemma mse_overlap_iff:
  "mse_ok a \<Longrightarrow> mse_ok b \<Longrightarrow> mse_overlap a b \<longleftrightarrow> mse_set a \<inter> mse_set b \<noteq> {}"
  by (auto simp: mse_ok_def mse_set_def mse_simps)

lemma mse_subsumes_iff:
  "mse_ok b \<Longrightarrow> mse_subsumes a b \<longleftrightarrow> mse_set b \<subseteq> mse_set a"
  by (auto simp: mse_ok_def mse_set_def mse_simps)

lemma mse_offset_ends [simp]:
  "first_m (mse_offset a m) = first_m a + m" "last_m (mse_offset a m) = last_m a + m"
  by (simp_all add: mse_offset_def)

lemma mse_set_offset: "mse_set (mse_offset a m) = (\<lambda>x. x + m) ` mse_set a"
  by (simp add: mse_set_def mse_offset_def)

lemma range_ok [simp]: "f \<le> l \<Longrightarrow> MonadSetElement_range f l = Inr (MSE f l)"
  by (simp add: MonadSetElement_range_def)

end
