(* ===== verification/SetOfMonads.thy ===== *)
theory SetOfMonads
  imports MonadSetElement
begin

text \<open>
  The class \<open>SetOfMonads\<close> of \<^verbatim>\<open>include/monads.h\<close> and \<^verbatim>\<open>EMdF/monads.cpp\<close>: a set of monads
  kept as an ordered list of maximal stretches, with the first and the last monad cached.
  The list is the \<open>LVlist\<close> of \<^verbatim>\<open>include/llist.h\<close>, read as a HOL list (theory \<open>LVlist\<close> proves
  that the linked nodes implement it); an iterator is the part of the list from its
  position on, and a loop that also changes the list keeps the part before its position.
\<close>

section \<open>Iterators\<close>

text \<open>
  \<open>current\<close> past the end reads through a null pointer; \<open>next\<close> there throws.
\<close>

definition it_hasNext :: "'a list \<Rightarrow> bool" where
  "it_hasNext it \<longleftrightarrow> it \<noteq> []"

definition it_current :: "'a list \<Rightarrow> 'a res" where
  "it_current it = (case it of [] \<Rightarrow> Inl NullDeref | x # _ \<Rightarrow> Inr x)"

definition it_next :: "'a list \<Rightarrow> ('a \<times> 'a list) res" where
  "it_next it = (case it of [] \<Rightarrow> Inl EmdrosException | x # xs \<Rightarrow> Inr (x, xs))"

section \<open>State, constructors and accessors\<close>

record SetOfMonads =
  monad_ms :: "mse list"
  m_first :: monad_m
  m_last :: monad_m

definition SetOfMonads_empty :: SetOfMonads where
  "SetOfMonads_empty = \<lparr>monad_ms = [], m_first = MAX_MONAD, m_last = 0\<rparr>"

definition SetOfMonads_singleton :: "monad_m \<Rightarrow> SetOfMonads" where
  "SetOfMonads_singleton m =
     \<lparr>monad_ms = [MonadSetElement_singleton m], m_first = m, m_last = m\<rparr>"

definition SetOfMonads_range :: "monad_m \<Rightarrow> monad_m \<Rightarrow> SetOfMonads res" where
  "SetOfMonads_range f l =
     bind_res (MonadSetElement_range f l)
       (\<lambda>e. Inr \<lparr>monad_ms = [e], m_first = f, m_last = l\<rparr>)"

definition SetOfMonads_isEmpty :: "SetOfMonads \<Rightarrow> bool" where
  "SetOfMonads_isEmpty s \<longleftrightarrow> monad_ms s = []"

definition SetOfMonads_size :: "SetOfMonads \<Rightarrow> int" where
  "SetOfMonads_size s = int (length (monad_ms s))"

definition SetOfMonads_hasOnlyOneMSE :: "SetOfMonads \<Rightarrow> bool" where
  "SetOfMonads_hasOnlyOneMSE s = (case monad_ms s of [] \<Rightarrow> False | _ # t \<Rightarrow> t = [])"

definition SetOfMonads_const_iterator :: "SetOfMonads \<Rightarrow> mse list" where
  "SetOfMonads_const_iterator s = monad_ms s"

definition SetOfMonads_clear :: "SetOfMonads \<Rightarrow> SetOfMonads" where
  "SetOfMonads_clear s = s\<lparr>monad_ms := [], m_first := MAX_MONAD, m_last := 0\<rparr>"

section \<open>Adding stretches\<close>

text \<open>
  The careful insertion of \<open>addMSE\<close>: \<open>pre\<close> is the list before \<open>cur\<close>, the second
  argument the list from \<open>cur\<close> on. An element that touches \<open>current_mse\<close> is erased and
  subsumed; the loop stops at the first element past it.
\<close>

fun addMSE_insert :: "mse list \<Rightarrow> mse list \<Rightarrow> mse \<Rightarrow> mse list" where
  "addMSE_insert pre [] current_mse = pre @ [current_mse]"
| "addMSE_insert pre (itmse # rest) current_mse =
     (if mse_overlap current_mse itmse \<or> mse_adjacent current_mse itmse
      then addMSE_insert pre rest (mse_subsume current_mse itmse)
      else if mse_past itmse current_mse then pre @ current_mse # itmse # rest
      else addMSE_insert (pre @ [itmse]) rest current_mse)"

definition SetOfMonads_addMSE :: "SetOfMonads \<Rightarrow> mse \<Rightarrow> SetOfMonads" where
  "SetOfMonads_addMSE s e =
     (let ms = monad_ms s;
          ms' = (if SetOfMonads_isEmpty s then ms @ [e]
                 else if first_m e > m_last s + 1 then ms @ [e]
                 else if first_m e \<ge> first_m (last ms)
                      then butlast ms @ [mse_subsume (last ms) e]
                 else if last_m e = m_first s - 1 then mse_subsume (hd ms) e # tl ms
                 else addMSE_insert [] ms e)
      in s\<lparr>monad_ms := ms',
           m_first := (if first_m e < m_first s then first_m e else m_first s),
           m_last := (if last_m e > m_last s then last_m e else m_last s)\<rparr>)"

definition SetOfMonads_add :: "SetOfMonads \<Rightarrow> monad_m \<Rightarrow> SetOfMonads" where
  "SetOfMonads_add s m = SetOfMonads_addMSE s (MonadSetElement_singleton m)"

definition SetOfMonads_add_range :: "SetOfMonads \<Rightarrow> monad_m \<Rightarrow> monad_m \<Rightarrow> SetOfMonads res" where
  "SetOfMonads_add_range s f l =
     bind_res (MonadSetElement_range f l) (\<lambda>e. Inr (SetOfMonads_addMSE s e))"

text \<open>The constructor from an array of first/last pairs.\<close>

fun SetOfMonads_from_array :: "(monad_m \<times> monad_m) list \<Rightarrow> SetOfMonads res" where
  "SetOfMonads_from_array ps =
     foldM_res (\<lambda>s (f, l). SetOfMonads_add_range s f l) SetOfMonads_empty ps"

section \<open>Copying\<close>

primrec copyOther_loop :: "mse list \<Rightarrow> mse list \<Rightarrow> mse list" where
  "copyOther_loop ms [] = ms"
| "copyOther_loop ms (x # ci) = copyOther_loop (ms @ [x]) ci"

definition SetOfMonads_copyOther :: "SetOfMonads \<Rightarrow> SetOfMonads \<Rightarrow> SetOfMonads" where
  "SetOfMonads_copyOther s other =
     s\<lparr>monad_ms := copyOther_loop (monad_ms s) (monad_ms other),
       m_first := m_first other, m_last := m_last other\<rparr>"

definition SetOfMonads_copy :: "SetOfMonads \<Rightarrow> SetOfMonads" where
  "SetOfMonads_copy other =
     SetOfMonads_copyOther \<lparr>monad_ms = [], m_first = 0, m_last = 0\<rparr> other"

text \<open>
  \<open>operator=\<close> reads and writes two objects that may be the same one, so it works on a
  store of objects.
\<close>

definition SetOfMonads_assign ::
  "('a \<Rightarrow> SetOfMonads) \<Rightarrow> 'a \<Rightarrow> 'a \<Rightarrow> ('a \<Rightarrow> SetOfMonads)" where
  "SetOfMonads_assign st this other =
     (let st1 = (if \<not> SetOfMonads_isEmpty (st this)
                 then st(this := SetOfMonads_clear (st this)) else st)
      in st1(this := SetOfMonads_copyOther (st1 this) (st1 other)))"

section \<open>Listing and comparing\<close>

primrec operator_eq_loop :: "mse list \<Rightarrow> mse list \<Rightarrow> bool" where
  "operator_eq_loop [] them = (them = [])"
| "operator_eq_loop (u # us) them =
     (case them of [] \<Rightarrow> False
      | t # ts \<Rightarrow> if \<not> mse_equals u t then False else operator_eq_loop us ts)"

definition SetOfMonads_operator_eq :: "SetOfMonads \<Rightarrow> SetOfMonads \<Rightarrow> bool" where
  "SetOfMonads_operator_eq s other =
     (if SetOfMonads_isEmpty s then SetOfMonads_isEmpty other
      else if m_first s \<noteq> m_first other \<or> m_last s \<noteq> m_last other then False
      else operator_eq_loop (monad_ms s) (monad_ms other))"

primrec getMonad_mList_loop :: "monad_m list \<Rightarrow> mse list \<Rightarrow> monad_m list" where
  "getMonad_mList_loop out [] = out"
| "getMonad_mList_loop out (e # i) = getMonad_mList_loop (out @ [first_m e..last_m e]) i"

definition SetOfMonads_getMonad_mList :: "SetOfMonads \<Rightarrow> monad_m list" where
  "SetOfMonads_getMonad_mList s = getMonad_mList_loop [] (monad_ms s)"

primrec getCardinality_loop :: "int \<Rightarrow> mse list \<Rightarrow> int" where
  "getCardinality_loop c [] = c"
| "getCardinality_loop c (e # ci) = getCardinality_loop (c + (1 + last_m e - first_m e)) ci"

definition SetOfMonads_getCardinality :: "SetOfMonads \<Rightarrow> int" where
  "SetOfMonads_getCardinality s = getCardinality_loop 0 (monad_ms s)"

section \<open>Inclusion, membership and overlap\<close>

fun part_of_loop :: "mse list \<Rightarrow> mse list \<Rightarrow> bool" where
  "part_of_loop [] B = True"
| "part_of_loop (a # A) [] = False"
| "part_of_loop (a # A) (b # B) =
     (if last_m a < first_m b then False
      else if first_m a > last_m b then part_of_loop (a # A) B
      else if first_m a \<ge> first_m b \<and> last_m a \<le> last_m b then part_of_loop A (b # B)
      else if first_m a < first_m b \<and> last_m a > last_m b then False
      else if first_m a < first_m b then False
      else False)"

definition SetOfMonads_part_of :: "SetOfMonads \<Rightarrow> SetOfMonads \<Rightarrow> bool res" where
  "SetOfMonads_part_of s other =
     (if m_first s \<ge> m_first other \<and> m_last s \<le> m_last other
      then if SetOfMonads_hasOnlyOneMSE other then Inr True
           else bind_res (it_current (monad_ms s)) (\<lambda>_.
                bind_res (it_current (monad_ms other)) (\<lambda>_.
                  Inr (part_of_loop (monad_ms s) (monad_ms other))))
      else Inr False)"

primrec isMemberOf_loop :: "monad_m \<Rightarrow> mse list \<Rightarrow> bool" where
  "isMemberOf_loop m [] = False"
| "isMemberOf_loop m (e # i) =
     (if m \<ge> first_m e \<and> m \<le> last_m e then True
      else if m < first_m e then False
      else isMemberOf_loop m i)"

definition SetOfMonads_isMemberOf :: "SetOfMonads \<Rightarrow> monad_m \<Rightarrow> bool" where
  "SetOfMonads_isMemberOf s m = isMemberOf_loop m (monad_ms s)"

definition SetOfMonads_starts_in :: "SetOfMonads \<Rightarrow> SetOfMonads \<Rightarrow> bool" where
  "SetOfMonads_starts_in s other = SetOfMonads_isMemberOf other (m_first s)"

text \<open>Membership with a hint: the hint iterator is passed in and handed back.\<close>

primrec advance_hint :: "monad_m \<Rightarrow> mse list \<Rightarrow> mse list" where
  "advance_hint m [] = []"
| "advance_hint m (e # i) = (if mse_isBefore_monad e m then advance_hint m i else e # i)"

definition SetOfMonads_isMemberOf_hint ::
  "SetOfMonads \<Rightarrow> monad_m \<Rightarrow> mse list \<Rightarrow> (bool \<times> mse list) res" where
  "SetOfMonads_isMemberOf_hint s m hint =
     (if m > m_last s then Inr (False, [])
      else bind_res (it_current hint) (\<lambda>e.
        let h1 = (if first_m e > m then monad_ms s else hint);
            h2 = advance_hint m h1
        in case h2 of [] \<Rightarrow> Inr (False, [])
           | e2 # _ \<Rightarrow> Inr (first_m e2 \<le> m, h2)))"

primrec hasMonadsInRange_loop :: "mse \<Rightarrow> mse list \<Rightarrow> bool" where
  "hasMonadsInRange_loop other [] = False"
| "hasMonadsInRange_loop other (e # i) =
     (if mse_overlap e other then True
      else if last_m other < first_m e then False
      else hasMonadsInRange_loop other i)"

definition SetOfMonads_hasMonadsInRange :: "SetOfMonads \<Rightarrow> monad_m \<Rightarrow> monad_m \<Rightarrow> bool res" where
  "SetOfMonads_hasMonadsInRange s f l =
     bind_res (MonadSetElement_range f l)
       (\<lambda>other. Inr (hasMonadsInRange_loop other (monad_ms s)))"

fun overlap_loop :: "mse list \<Rightarrow> mse list \<Rightarrow> bool" where
  "overlap_loop (a # A) (b # B) =
     (if last_m a < first_m b then overlap_loop A (b # B)
      else if first_m a > last_m b then overlap_loop (a # A) B
      else True)"
| "overlap_loop A B = False"

definition SetOfMonads_overlap :: "SetOfMonads \<Rightarrow> SetOfMonads \<Rightarrow> bool" where
  "SetOfMonads_overlap Aset Bset =
     (if SetOfMonads_isEmpty Aset \<or> SetOfMonads_isEmpty Bset then False
      else overlap_loop (monad_ms Aset) (monad_ms Bset))"

section \<open>Gaps\<close>

primrec hasLargerGap_loop :: "monad_m \<Rightarrow> monad_m \<Rightarrow> mse list \<Rightarrow> bool" where
  "hasLargerGap_loop than_this prev_monad [] = False"
| "hasLargerGap_loop than_this prev_monad (e # ci) =
     (if first_m e - prev_monad > than_this then True
      else hasLargerGap_loop than_this (last_m e) ci)"

definition SetOfMonads_hasLargerGap :: "SetOfMonads \<Rightarrow> monad_m \<Rightarrow> bool" where
  "SetOfMonads_hasLargerGap s than_this =
     (if SetOfMonads_isEmpty s then False
      else if m_last s - m_first s < than_this then False
      else if SetOfMonads_hasOnlyOneMSE s then False
      else case monad_ms s of [] \<Rightarrow> False
           | e # ci \<Rightarrow> hasLargerGap_loop than_this (last_m e) ci)"

text \<open>\<open>gapExists\<close> hands back its result and the output parameter \<open>m\<close>.\<close>

primrec gapExists_loop :: "monad_m \<Rightarrow> monad_m \<Rightarrow> mse list \<Rightarrow> (bool \<times> monad_m) res" where
  "gapExists_loop Sm m [] = Inr (False, m)"
| "gapExists_loop Sm m (e # ci) =
     (if Sm = last_m e + 1 then bind_res (it_current ci) (\<lambda>e2. Inr (True, first_m e2 - 1))
      else if Sm < last_m e then Inr (False, m)
      else gapExists_loop Sm m ci)"

definition SetOfMonads_gapExists ::
  "SetOfMonads \<Rightarrow> monad_m \<Rightarrow> monad_m \<Rightarrow> (bool \<times> monad_m) res" where
  "SetOfMonads_gapExists s Sm m =
     (if Sm < m_first s \<or> Sm > m_last s then Inr (False, m)
      else gapExists_loop Sm m (monad_ms s))"

primrec fillGaps_loop ::
  "monad_m \<Rightarrow> SetOfMonads \<Rightarrow> monad_m \<Rightarrow> mse list \<Rightarrow> SetOfMonads res" where
  "fillGaps_loop min_gap result prev_last [] = Inr result"
| "fillGaps_loop min_gap result prev_last (e # ci) =
     (if first_m e - prev_last - 1 \<ge> min_gap
      then fillGaps_loop min_gap (SetOfMonads_addMSE result e) (last_m e) ci
      else bind_res (SetOfMonads_add_range result prev_last (last_m e))
             (\<lambda>r. fillGaps_loop min_gap r (last_m e) ci))"

definition SetOfMonads_fillGaps :: "SetOfMonads \<Rightarrow> monad_m \<Rightarrow> SetOfMonads res" where
  "SetOfMonads_fillGaps s min_gap =
     (case monad_ms s of [] \<Rightarrow> Inr SetOfMonads_empty
      | e # ci \<Rightarrow>
          fillGaps_loop min_gap (SetOfMonads_addMSE SetOfMonads_empty e) (last_m e) ci)"

primrec getGaps_loop :: "SetOfMonads \<Rightarrow> monad_m \<Rightarrow> mse list \<Rightarrow> SetOfMonads res" where
  "getGaps_loop result prev_last [] = Inr result"
| "getGaps_loop result prev_last (e # ci) =
     bind_res (SetOfMonads_add_range result (prev_last + 1) (first_m e - 1))
       (\<lambda>r. getGaps_loop r (last_m e) ci)"

definition SetOfMonads_getGaps :: "SetOfMonads \<Rightarrow> SetOfMonads res" where
  "SetOfMonads_getGaps s =
     (case monad_ms s of [] \<Rightarrow> Inr SetOfMonads_empty
      | e # ci \<Rightarrow> getGaps_loop SetOfMonads_empty (last_m e) ci)"

section \<open>Set algebra\<close>

definition SetOfMonads_unionWith :: "SetOfMonads \<Rightarrow> SetOfMonads \<Rightarrow> SetOfMonads" where
  "SetOfMonads_unionWith s other = foldl SetOfMonads_addMSE s (monad_ms other)"

text \<open>
  The loop of \<open>removeMSE\<close>, with the list split at the iterator \<open>A\<close>; the six cases carry
  the numbers of the comment in the source.
\<close>

fun removeMSE_loop :: "monad_m \<Rightarrow> monad_m \<Rightarrow> mse list \<Rightarrow> mse list \<Rightarrow> mse list res" where
  "removeMSE_loop B_first B_last pre [] = Inr pre"
| "removeMSE_loop B_first B_last pre (a # rest) =
     (if last_m a < B_first then removeMSE_loop B_first B_last (pre @ [a]) rest \<comment> \<open>1\<close>
      else if first_m a > B_last then Inr (pre @ a # rest) \<comment> \<open>5\<close>
      else if first_m a \<ge> B_first \<and> last_m a \<le> B_last
           then removeMSE_loop B_first B_last pre rest \<comment> \<open>3\<close>
      else if first_m a < B_first \<and> last_m a > B_last
           then bind_res (MonadSetElement_range (B_last + 1) (last_m a))
                  (\<lambda>n. Inr (pre @ mse_truncate a B_first B_last # n # rest)) \<comment> \<open>6\<close>
      else if first_m a < B_first
           then removeMSE_loop B_first B_last (pre @ [mse_truncate a B_first B_last]) rest \<comment> \<open>2\<close>
      else removeMSE_loop B_first B_last (pre @ [mse_truncate a B_first B_last]) rest) \<comment> \<open>4\<close>"

definition SetOfMonads_removeMSE_range ::
  "SetOfMonads \<Rightarrow> monad_m \<Rightarrow> monad_m \<Rightarrow> SetOfMonads res" where
  "SetOfMonads_removeMSE_range s B_first B_last =
     (if SetOfMonads_isEmpty s then Inr s
      else bind_res (removeMSE_loop B_first B_last [] (monad_ms s)) (\<lambda>ms.
        Inr (if ms = [] then s\<lparr>monad_ms := ms, m_first := MAX_MONAD, m_last := 0\<rparr>
             else s\<lparr>monad_ms := ms, m_first := first_m (hd ms), m_last := last_m (last ms)\<rparr>)))"

definition SetOfMonads_removeMSE :: "SetOfMonads \<Rightarrow> mse \<Rightarrow> SetOfMonads res" where
  "SetOfMonads_removeMSE s B = SetOfMonads_removeMSE_range s (first_m B) (last_m B)"

definition SetOfMonads_difference :: "SetOfMonads \<Rightarrow> SetOfMonads \<Rightarrow> SetOfMonads res" where
  "SetOfMonads_difference s other = foldM_res SetOfMonads_removeMSE s (monad_ms other)"

fun intersect_loop :: "mse list \<Rightarrow> mse list \<Rightarrow> SetOfMonads \<Rightarrow> SetOfMonads res" where
  "intersect_loop (a # A) (b # B) result =
     (if last_m a < first_m b then intersect_loop A (b # B) result \<comment> \<open>1\<close>
      else if first_m a > last_m b then intersect_loop (a # A) B result \<comment> \<open>5\<close>
      else if first_m a \<ge> first_m b \<and> last_m a \<le> last_m b
           then intersect_loop A (b # B) (SetOfMonads_addMSE result a) \<comment> \<open>3\<close>
      else if first_m a < first_m b \<and> last_m a > last_m b
           then intersect_loop (a # A) B (SetOfMonads_addMSE result b) \<comment> \<open>6\<close>
      else if first_m a < first_m b
           then bind_res (SetOfMonads_add_range result (first_m b) (last_m a))
                  (\<lambda>r. intersect_loop A (b # B) r) \<comment> \<open>2\<close>
      else bind_res (SetOfMonads_add_range result (first_m a) (last_m b))
             (\<lambda>r. intersect_loop (a # A) B r)) \<comment> \<open>4\<close>"
| "intersect_loop A B result = Inr result"

definition SetOfMonads_intersect :: "SetOfMonads \<Rightarrow> SetOfMonads \<Rightarrow> SetOfMonads res" where
  "SetOfMonads_intersect Aset Bset =
     (if SetOfMonads_isEmpty Aset \<or> SetOfMonads_isEmpty Bset then Inr SetOfMonads_empty
      else intersect_loop (monad_ms Aset) (monad_ms Bset) SetOfMonads_empty)"

section \<open>Shifting and inserting ranges\<close>

definition SetOfMonads_offset :: "SetOfMonads \<Rightarrow> monad_m \<Rightarrow> SetOfMonads" where
  "SetOfMonads_offset s m =
     s\<lparr>monad_ms := map (\<lambda>e. mse_offset e m) (monad_ms s),
       m_first := m_first s + m, m_last := m_last s + m\<rparr>"

definition fillInsertRange_step ::
  "monad_m \<Rightarrow> monad_m \<Rightarrow> monad_m \<Rightarrow> SetOfMonads \<Rightarrow> mse \<Rightarrow> SetOfMonads res" where
  "fillInsertRange_step firstm lastm monads_to_add result a =
     (if last_m a < firstm then Inr (SetOfMonads_addMSE result a) \<comment> \<open>1\<close>
      else if first_m a > lastm
           then SetOfMonads_add_range result (first_m a + monads_to_add)
                  (last_m a + monads_to_add) \<comment> \<open>5\<close>
      else if first_m a \<ge> firstm \<and> last_m a \<le> lastm
           then SetOfMonads_add_range result firstm (last_m a + monads_to_add) \<comment> \<open>3\<close>
      else if first_m a < firstm \<and> last_m a > lastm
           then SetOfMonads_add_range result (first_m a) (last_m a + monads_to_add) \<comment> \<open>6\<close>
      else if first_m a < firstm
           then SetOfMonads_add_range result (first_m a) (last_m a + monads_to_add) \<comment> \<open>2\<close>
      else SetOfMonads_add_range result firstm (last_m a + monads_to_add)) \<comment> \<open>4\<close>"

definition SetOfMonads_fillInsertRange ::
  "SetOfMonads \<Rightarrow> monad_m \<Rightarrow> monad_m \<Rightarrow> SetOfMonads res" where
  "SetOfMonads_fillInsertRange s firstm lastm =
     bind_res (ASSERT_THROW_X (lastm \<ge> firstm) BadMonadsException) (\<lambda>_.
       let monads_to_add = lastm - firstm + 1
       in if m_last s < firstm then Inr (SetOfMonads_copy s)
          else if m_first s \<ge> lastm
               then Inr (SetOfMonads_offset (SetOfMonads_copy s) monads_to_add)
          else bind_res (it_current (monad_ms s)) (\<lambda>_.
               bind_res (foldM_res (fillInsertRange_step firstm lastm monads_to_add)
                           SetOfMonads_empty (monad_ms s)) (\<lambda>result.
                 SetOfMonads_add_range result firstm lastm)))"

section \<open>The iterator over single monads\<close>

record SOMConstMonadIterator =
  m_hint :: "mse list"
  m_cur_monad :: monad_m

definition SOMConstMonadIterator_new :: "SetOfMonads \<Rightarrow> SOMConstMonadIterator" where
  "SOMConstMonadIterator_new s =
     \<lparr>m_hint = SetOfMonads_const_iterator s,
      m_cur_monad = (if monad_ms s \<noteq> [] then m_first s else MAX_MONAD)\<rparr>"

definition SOMConstMonadIterator_hasNext :: "SOMConstMonadIterator \<Rightarrow> bool" where
  "SOMConstMonadIterator_hasNext i = it_hasNext (m_hint i)"

definition SOMConstMonadIterator_current :: "SOMConstMonadIterator \<Rightarrow> monad_m res" where
  "SOMConstMonadIterator_current i =
     bind_res (ASSERT_THROW (SOMConstMonadIterator_hasNext i)) (\<lambda>_. Inr (m_cur_monad i))"

definition SOMConstMonadIterator_next ::
  "SOMConstMonadIterator \<Rightarrow> (monad_m \<times> SOMConstMonadIterator) res" where
  "SOMConstMonadIterator_next i =
     bind_res (ASSERT_THROW (SOMConstMonadIterator_hasNext i)) (\<lambda>_.
     bind_res (it_current (m_hint i)) (\<lambda>e.
       let cur = m_cur_monad i + 1
       in if cur > last_m e
          then bind_res (it_next (m_hint i)) (\<lambda>(_, rest).
                 Inr (m_cur_monad i,
                   \<lparr>m_hint = rest,
                    m_cur_monad = (case rest of [] \<Rightarrow> MAX_MONAD | e2 # _ \<Rightarrow> first_m e2)\<rparr>))
          else Inr (m_cur_monad i, i\<lparr>m_cur_monad := cur\<rparr>)))"

text \<open>
  The loop \<open>while (it.hasNext()) out.push_back(it.next())\<close> of the iterator's clients.
\<close>

fun SOMConstMonadIterator_collect :: "nat \<Rightarrow> SOMConstMonadIterator \<Rightarrow> monad_m list res" where
  "SOMConstMonadIterator_collect 0 i =
     (if SOMConstMonadIterator_hasNext i then Inl OutOfFuel else Inr [])"
| "SOMConstMonadIterator_collect (Suc n) i =
     (if SOMConstMonadIterator_hasNext i
      then bind_res (SOMConstMonadIterator_next i) (\<lambda>(m, i').
           bind_res (SOMConstMonadIterator_collect n i') (\<lambda>ms. Inr (m # ms)))
      else Inr [])"

end
