(* ===== verification/Stretches.thy ===== *)
theory Stretches
  imports MonadSetElement
begin

text \<open>
  Lists of monad set elements: the invariant stated in the class comment of \<open>SetOfMonads\<close>
  in \<^verbatim>\<open>EMdF/monads.cpp\<close> (in ascending order, at least one absent monad between two
  neighbours), the set of monads a list stands for, the uniqueness of that
  representation, gaps, and the effect of shifting and of inserting a range. Both
  implementations of sets of monads share these facts.
\<close>

section \<open>Well-formed lists of stretches\<close>

definition gap_before :: "mse \<Rightarrow> mse \<Rightarrow> bool" where
  "gap_before a b \<longleftrightarrow> last_m a + 1 < first_m b"

definition mses_wf :: "mse list \<Rightarrow> bool" where
  "mses_wf xs \<longleftrightarrow> (\<forall>x\<in>set xs. mse_ok x) \<and> sorted_wrt gap_before xs"

definition mses_set :: "mse list \<Rightarrow> monad_m set" where
  "mses_set xs = (\<Union>x\<in>set xs. mse_set x)"

definition bounds_ok :: "mse list \<Rightarrow> monad_m \<Rightarrow> monad_m \<Rightarrow> bool" where
  "bounds_ok xs f l =
     (if xs = [] then f = MAX_MONAD \<and> l = 0 else f = first_m (hd xs) \<and> l = last_m (last xs))"

lemma mses_wf_Nil [simp]: "mses_wf []"
  by (simp add: mses_wf_def)

lemma mses_wf_Cons [simp]:
  "mses_wf (a # xs) \<longleftrightarrow> mse_ok a \<and> mses_wf xs \<and> (\<forall>b\<in>set xs. gap_before a b)"
  by (auto simp: mses_wf_def)

lemma mses_wf_append [simp]:
  "mses_wf (xs @ ys) \<longleftrightarrow>
     mses_wf xs \<and> mses_wf ys \<and> (\<forall>a\<in>set xs. \<forall>b\<in>set ys. gap_before a b)"
  by (auto simp: mses_wf_def sorted_wrt_append)

lemma mses_set_simps [simp]:
  "mses_set [] = {}"
  "mses_set (a # xs) = mse_set a \<union> mses_set xs"
  "mses_set (xs @ ys) = mses_set xs \<union> mses_set ys"
  by (auto simp: mses_set_def)

lemma finite_mses_set [simp]: "finite (mses_set xs)"
  by (simp add: mses_set_def)

lemma mses_set_eq_empty: "mses_wf xs \<Longrightarrow> mses_set xs = {} \<longleftrightarrow> xs = []"
  by (cases xs) (auto dest: mse_ok_nonempty)

lemma mem_mses_set: "x \<in> mses_set xs \<longleftrightarrow> (\<exists>e\<in>set xs. first_m e \<le> x \<and> x \<le> last_m e)"
  by (auto simp: mses_set_def mse_set_def)

lemma mses_set_after:
  "\<forall>b\<in>set xs. gap_before a b \<Longrightarrow> x \<in> mses_set xs \<Longrightarrow> last_m a + 1 < x"
  by (force simp: mem_mses_set gap_before_def)

lemma mse_set_Min: "mse_ok a \<Longrightarrow> first_m a \<in> mse_set a"
  by (auto simp: mse_ok_def mse_set_def)

lemma mse_set_Max: "mse_ok a \<Longrightarrow> last_m a \<in> mse_set a"
  by (auto simp: mse_ok_def mse_set_def)

text \<open>The bounds of a well-formed, non-empty list.\<close>

lemma mses_first_le: "mses_wf xs \<Longrightarrow> x \<in> mses_set xs \<Longrightarrow> first_m (hd xs) \<le> x"
  by (cases xs) (auto simp: mse_set_def mse_ok_def dest: mses_set_after)

lemma mses_le_last: "mses_wf xs \<Longrightarrow> x \<in> mses_set xs \<Longrightarrow> x \<le> last_m (last xs)"
  by (cases xs rule: rev_cases)
    (force simp: mse_set_def mse_ok_def mem_mses_set gap_before_def)+

lemma mses_first_in: "mses_wf xs \<Longrightarrow> xs \<noteq> [] \<Longrightarrow> first_m (hd xs) \<in> mses_set xs"
  by (cases xs) (auto simp: mse_set_Min)

lemma mses_last_in: "mses_wf xs \<Longrightarrow> xs \<noteq> [] \<Longrightarrow> last_m (last xs) \<in> mses_set xs"
  by (cases xs rule: rev_cases) (auto simp: mse_set_Max)

lemma mses_in_range: "mses_wf xs \<Longrightarrow> x \<in> mses_set xs \<Longrightarrow> 0 \<le> x \<and> x \<le> MAX_MONAD"
  by (force simp: mses_wf_def mem_mses_set mse_ok_def)

section \<open>Uniqueness of the representation\<close>

lemma mses_first_eq_Min: "mses_wf xs \<Longrightarrow> xs \<noteq> [] \<Longrightarrow> first_m (hd xs) = Min (mses_set xs)"
  by (rule Min_eqI[symmetric]) (auto simp: mses_first_le mses_first_in)

lemma mses_last_eq_Max: "mses_wf xs \<Longrightarrow> xs \<noteq> [] \<Longrightarrow> last_m (last xs) = Max (mses_set xs)"
  by (rule Max_eqI[symmetric]) (auto simp: mses_le_last mses_last_in)

lemma mses_not_after_hd: "mses_wf (a # xs) \<Longrightarrow> last_m a + 1 \<notin> mses_set (a # xs)"
  by (auto simp: mse_set_def dest: mses_set_after)

lemma mses_hd_last_le:
  assumes wf: "mses_wf (a # xs)" "mses_wf (b # ys)"
    and eq: "mses_set (a # xs) = mses_set (b # ys)" and first: "first_m a = first_m b"
  shows "last_m a \<le> last_m b"
proof (rule ccontr)
  assume "\<not> last_m a \<le> last_m b"
  moreover have "mse_ok b" using wf by simp
  ultimately have "last_m b + 1 \<in> mse_set a"
    using first by (auto simp: mse_ok_def mse_set_def)
  then show False using mses_not_after_hd[OF wf(2)] eq by auto
qed

lemma mses_hd_unique:
  assumes wf: "mses_wf (a # xs)" "mses_wf (b # ys)"
    and eq: "mses_set (a # xs) = mses_set (b # ys)"
  shows "a = b"
proof -
  have first: "first_m a = first_m b"
    using mses_first_eq_Min[OF wf(1)] mses_first_eq_Min[OF wf(2)] eq by simp
  have "last_m a = last_m b"
    using mses_hd_last_le[OF wf eq first] mses_hd_last_le[OF wf(2,1) eq[symmetric] first[symmetric]]
    by simp
  with first show ?thesis by (simp add: mse.expand)
qed

lemma mses_tl_set: "mses_wf (a # xs) \<Longrightarrow> mses_set xs = mses_set (a # xs) - mse_set a"
  by (auto simp: mse_set_def dest: mses_set_after)

lemma mses_unique:
  "mses_wf xs \<Longrightarrow> mses_wf ys \<Longrightarrow> mses_set xs = mses_set ys \<Longrightarrow> xs = ys"
proof (induction xs arbitrary: ys)
  case Nil
  then show ?case by (metis mses_set_eq_empty)
next
  case (Cons a xs)
  then obtain b ys' where ys: "ys = b # ys'"
    by (metis list.distinct(1) mses_set_eq_empty neq_Nil_conv)
  with Cons.prems have ab: "a = b" by (metis mses_hd_unique)
  then have "mses_set xs = mses_set ys'"
    using Cons.prems ys mses_tl_set by metis
  with Cons ys ab show ?case by simp
qed

section \<open>Adding at the ends\<close>

lemma mse_set_MinMax: "mse_ok e \<Longrightarrow> Min (mse_set e) = first_m e \<and> Max (mse_set e) = last_m e"
  by (auto simp: mse_ok_def mse_set_def intro: Min_eqI Max_eqI)

lemma bounds_ok_iff:
  "mses_wf xs \<Longrightarrow> xs \<noteq> [] \<Longrightarrow>
   bounds_ok xs f l \<longleftrightarrow> f = Min (mses_set xs) \<and> l = Max (mses_set xs)"
  by (simp add: bounds_ok_def mses_first_eq_Min mses_last_eq_Max)

text \<open>The cached bounds after adding a stretch, wherever it was inserted.\<close>

lemma bounds_ok_add:
  assumes wf: "mses_wf xs" "bounds_ok xs f l" "mses_wf ys" and ok: "mse_ok e"
    and set: "mses_set ys = mses_set xs \<union> mse_set e"
  shows "bounds_ok ys (if first_m e < f then first_m e else f) (if last_m e > l then last_m e else l)"
proof -
  have ys: "ys \<noteq> []"
    using set mse_ok_nonempty[OF ok] by auto
  show ?thesis
  proof (cases "xs = []")
    case True
    then show ?thesis
      using wf ok ys set mse_set_MinMax[OF ok]
      by (auto simp: bounds_ok_iff) (auto simp: bounds_ok_def mse_ok_def)
  next
    case False
    then have "Min (mses_set ys) = min f (first_m e)" "Max (mses_set ys) = max l (last_m e)"
      using wf ok set mse_set_MinMax[OF ok] mse_ok_nonempty[OF ok]
      by (auto simp: bounds_ok_iff Min_Un Max_Un mses_set_eq_empty)
    then show ?thesis
      using wf ys by (auto simp: bounds_ok_iff)
  qed
qed

lemma mses_wf_subsume_last:
  assumes "mses_wf (xs @ [a])" "mse_ok e" "first_m a \<le> first_m e" "first_m e \<le> last_m a + 1"
  shows "mses_wf (xs @ [mse_subsume a e]) \<and>
         mses_set (xs @ [mse_subsume a e]) = mses_set (xs @ [a]) \<union> mse_set e"
proof -
  have "mse_overlap a e \<or> mse_adjacent a e"
    using assms by (auto simp: mse_simps mse_ok_def)
  then show ?thesis
    using assms mse_set_subsume[of a e] by (auto simp: gap_before_def)
qed

lemma mses_wf_subsume_first:
  assumes "mses_wf (a # xs)" "mse_ok e" "last_m e = first_m a - 1"
  shows "mses_wf (mse_subsume a e # xs) \<and>
         mses_set (mse_subsume a e # xs) = mses_set (a # xs) \<union> mse_set e"
proof -
  have "mse_overlap a e \<or> mse_adjacent a e" "last_m e \<le> last_m a"
    using assms by (auto simp: mse_simps mse_ok_def)
  then show ?thesis
    using assms mse_set_subsume[of a e] by (auto simp: gap_before_def)
qed

lemma mses_wf_push_back:
  assumes "mses_wf xs" "mse_ok e" "xs = [] \<or> first_m e > last_m (last xs) + 1"
  shows "mses_wf (xs @ [e])"
  using assms
  by (cases xs rule: rev_cases) (auto simp: gap_before_def mse_ok_def)

lemma mse_ok_MSE [simp]: "mse_ok (MSE f l) \<longleftrightarrow> 0 \<le> f \<and> f \<le> l \<and> l \<le> MAX_MONAD"
  by (simp add: mse_ok_def)

lemma mse_set_MSE [simp]: "mse_set (MSE f l) = {f..l}"
  by (simp add: mse_set_def)

section \<open>Order of the monads, disjoint stretches\<close>

lemma sorted_stretches:
  "mses_wf xs \<Longrightarrow> sorted_wrt (<) (concat (map (\<lambda>e. [first_m e..last_m e]) xs)) \<and>
     set (concat (map (\<lambda>e. [first_m e..last_m e]) xs)) = mses_set xs"
proof (induction xs)
  case Nil
  then show ?case by simp
next
  case (Cons a xs)
  have "\<forall>y\<in>mses_set xs. last_m a < y"
    using Cons.prems by (auto dest: mses_set_after)
  moreover have "sorted_wrt (<) [first_m a..last_m a]"
    by (rule sorted_wrt_upto)
  ultimately show ?case
    using Cons by (auto simp: sorted_wrt_append mse_set_def)
qed

lemma mses_disjoint_before:
  "mses_wf (b # B) \<Longrightarrow> last_m a < first_m b \<Longrightarrow> mse_set a \<inter> mses_set (b # B) = {}"
  using mses_first_le[of "b # B"] by (fastforce simp: mse_set_def)

lemma mses_disjoint_after:
  "mses_wf (a # A) \<Longrightarrow> last_m b < first_m a \<Longrightarrow> mses_set (a # A) \<inter> mse_set b = {}"
  using mses_first_le[of "a # A"] by (fastforce simp: mse_set_def)

section \<open>Gaps\<close>

text \<open>A gap is a maximal stretch of absent monads bounded on both sides by present ones.\<close>

definition gap_of :: "monad_m set \<Rightarrow> monad_m \<Rightarrow> monad_m \<Rightarrow> bool" where
  "gap_of S f l \<longleftrightarrow> f \<le> l \<and> f - 1 \<in> S \<and> l + 1 \<in> S \<and> {f..l} \<inter> S = {}"

lemma gap_of_empty [simp]: "\<not> gap_of {} f l"
  by (simp add: gap_of_def)

lemma gap_of_single [simp]: "\<not> gap_of (mse_set a) f l"
  by (auto simp: gap_of_def mse_set_def)

lemma gap_of_first:
  assumes wf: "mses_wf (a # b # xs)"
  shows "gap_of (mses_set (a # b # xs)) (last_m a + 1) (first_m b - 1)"
proof -
  have "last_m a + 1 < first_m b" "last_m a \<in> mse_set a" "first_m b \<in> mse_set b"
    using wf by (auto simp: gap_before_def mse_set_Min mse_set_Max)
  moreover have "{last_m a + 1..first_m b - 1} \<inter> mses_set (b # xs) = {}"
    using mses_first_le[of "b # xs"] wf by fastforce
  moreover have "{last_m a + 1..first_m b - 1} \<inter> mse_set a = {}"
    by (auto simp: mse_set_def)
  ultimately show ?thesis by (auto simp: gap_of_def)
qed

lemma gap_of_later:
  assumes wf: "mses_wf (a # b # xs)" and gap: "gap_of (mses_set (b # xs)) f l"
  shows "gap_of (mses_set (a # b # xs)) f l"
proof -
  have "first_m b \<le> f - 1"
    using gap mses_first_le[of "b # xs" "f - 1"] wf by (auto simp: gap_of_def)
  then have "{f..l} \<inter> mse_set a = {}"
    using wf by (auto simp: gap_before_def mse_set_def)
  with gap show ?thesis by (auto simp: gap_of_def)
qed

lemma gap_of_cases:
  assumes wf: "mses_wf (a # b # xs)" and gap: "gap_of (mses_set (a # b # xs)) f l"
  shows "(f = last_m a + 1 \<and> l = first_m b - 1) \<or> gap_of (mses_set (b # xs)) f l"
proof -
  have ab: "last_m a + 1 < first_m b" and wfb: "mses_wf (b # xs)" and ok: "mse_ok a"
    using wf by (auto simp: gap_before_def)
  have fl: "f \<le> l" "f - 1 \<in> mses_set (a # b # xs)" "l + 1 \<in> mses_set (a # b # xs)"
    "{f..l} \<inter> mses_set (a # b # xs) = {}"
    using gap by (auto simp: gap_of_def)
  have f: "f \<notin> mse_set a" using fl by auto
  show ?thesis
  proof (cases "f - 1 \<in> mse_set a")
    case True
    then have fa: "f = last_m a + 1" using f by (auto simp: mse_set_def)
    then have "l + 1 \<notin> mse_set a" using fl(1) by (auto simp: mse_set_def)
    then have "first_m b \<le> l + 1" using fl(3) mses_first_le[OF wfb] by auto
    moreover have "first_m b \<notin> {f..l}" using fl(4) mses_first_in[OF wfb] by auto
    ultimately show ?thesis using fa ab by auto
  next
    case False
    then have fb: "f - 1 \<in> mses_set (b # xs)" using fl(2) by auto
    then have "first_m b \<le> f - 1" using mses_first_le[OF wfb fb] by simp
    then have "l + 1 \<notin> mse_set a" using fl(1) ab by (auto simp: mse_set_def)
    then show ?thesis using fl fb by (auto simp: gap_of_def)
  qed
qed

lemma gap_of_Cons2:
  "mses_wf (a # b # xs) \<Longrightarrow>
   gap_of (mses_set (a # b # xs)) f l \<longleftrightarrow>
     (f = last_m a + 1 \<and> l = first_m b - 1) \<or> gap_of (mses_set (b # xs)) f l"
  using gap_of_cases gap_of_first gap_of_later by blast

lemma ex2_eq_disj:
  "(\<exists>f l. (f = c \<and> l = d \<or> G f l) \<and> P f l) \<longleftrightarrow> P c d \<or> (\<exists>f l. G f l \<and> P f l)"
  by blast

text \<open>The monads of the gaps smaller than a bound.\<close>

definition small_gaps :: "monad_m set \<Rightarrow> monad_m \<Rightarrow> monad_m set" where
  "small_gaps S g = {x. \<exists>f l. gap_of S f l \<and> f \<le> x \<and> x \<le> l \<and> l - f + 1 < g}"

lemma small_gaps_single [simp]: "small_gaps (mse_set a) g = {}"
  by (simp add: small_gaps_def)

lemma small_gaps_Cons2:
  "mses_wf (a # b # xs) \<Longrightarrow>
   small_gaps (mses_set (a # b # xs)) g =
     (if first_m b - last_m a - 1 < g then {last_m a + 1..first_m b - 1} else {}) \<union>
     small_gaps (mses_set (b # xs)) g"
  unfolding small_gaps_def gap_of_Cons2 ex2_eq_disj by auto

section \<open>Shifting and inserting a range\<close>

lemma mses_offset_set: "mses_set (map (\<lambda>e. mse_offset e m) xs) = (\<lambda>x. x + m) ` mses_set xs"
  by (induction xs) (auto simp: mse_set_offset)

lemma mses_offset_wf:
  "mses_wf xs \<Longrightarrow> \<forall>x\<in>mses_set xs. 0 \<le> x + m \<and> x + m \<le> MAX_MONAD \<Longrightarrow>
   mses_wf (map (\<lambda>e. mse_offset e m) xs)"
proof (induction xs)
  case (Cons a xs)
  then have "mse_ok (mse_offset a m)"
    using mse_set_Min[of a] mse_set_Max[of a] by (auto simp: mse_ok_def mse_offset_def)
  then show ?case using Cons by (auto simp: gap_before_def mse_offset_def)
qed simp

text \<open>
  What inserting the range \<open>f..l\<close> makes of the monads of \<open>S\<close>: those before \<open>f\<close> stay,
  those from \<open>f\<close> on move up by the length of the range, and between \<open>f\<close> and a monad of
  \<open>S\<close> inside the range the gaps are filled before moving.
\<close>

definition fill_image :: "monad_m \<Rightarrow> monad_m \<Rightarrow> monad_m set \<Rightarrow> monad_m set" where
  "fill_image f l S =
     {x \<in> S. x < f} \<union>
     (\<lambda>x. x + (l - f + 1)) ` ({x \<in> S. f \<le> x} \<union> {x. \<exists>y\<in>S. f \<le> x \<and> x \<le> y \<and> y \<le> l})"

lemma fill_image_Un: "fill_image f l (S \<union> T) = fill_image f l S \<union> fill_image f l T"
  unfolding fill_image_def by blast

lemma fill_image_empty [simp]: "fill_image f l {} = {}"
  by (simp add: fill_image_def)

lemma mem_fill_image:
  "x \<in> fill_image f l S \<longleftrightarrow>
     (x \<in> S \<and> x < f) \<or> (x - (l - f + 1) \<in> S \<and> l < x) \<or>
     (\<exists>y\<in>S. l < x \<and> x - (l - f + 1) \<le> y \<and> y \<le> l)"
  unfolding fill_image_def by (auto simp: mem_shift_image)


section \<open>Single stretches inside a list\<close>

lemma mses_not_after:
  assumes "mses_wf xs" "a \<in> set xs"
  shows "last_m a + 1 \<notin> mses_set xs"
proof -
  obtain ps qs where xs: "xs = ps @ a # qs" using assms(2) by (meson split_list)
  have "last_m a + 1 \<notin> mses_set ps"
    using assms xs by (force simp: mem_mses_set gap_before_def mse_ok_def)
  moreover have "last_m a + 1 \<notin> mses_set (a # qs)"
    using assms xs by (intro mses_not_after_hd) simp
  ultimately show ?thesis using xs by simp
qed

text \<open>A contiguous range inside a set of monads lies inside one stretch.\<close>

lemma range_in_one_stretch:
  assumes wf: "mses_wf xs" and r: "first_m r \<le> last_m r"
  shows "mse_set r \<subseteq> mses_set xs \<longleftrightarrow> (\<exists>a\<in>set xs. mse_subsumes a r)"
proof
  assume sub: "mse_set r \<subseteq> mses_set xs"
  then have "first_m r \<in> mses_set xs" using r by (auto simp: mse_set_def)
  then obtain a where a: "a \<in> set xs" "first_m a \<le> first_m r" "first_m r \<le> last_m a"
    by (auto simp: mem_mses_set)
  have "last_m a + 1 \<notin> mse_set r" using mses_not_after[OF wf a(1)] sub by blast
  then have "last_m r \<le> last_m a" using a by (auto simp: mse_set_def)
  with a show "\<exists>a\<in>set xs. mse_subsumes a r" by (auto simp: mse_simps)
qed (auto simp: mse_simps mses_set_def mse_set_def)

lemma gap_of_mid:
  "mses_wf (us @ p # q # rs) \<Longrightarrow> gap_of (mses_set (us @ p # q # rs)) (last_m p + 1) (first_m q - 1)"
proof (induction us)
  case Nil
  then show ?case using gap_of_first by simp
next
  case (Cons u us)
  then have gap: "gap_of (mses_set (us @ p # q # rs)) (last_m p + 1) (first_m q - 1)" by simp
  obtain v vs where "us @ p # q # rs = v # vs" by (cases us) auto
  then show ?case using gap_of_later[of u v vs] Cons.prems gap by simp
qed

lemma gap_of_start:
  assumes "gap_of (mses_set xs) f l"
  shows "\<exists>a\<in>set xs. f = last_m a + 1"
proof -
  have "f - 1 \<in> mses_set xs" "f \<notin> mses_set xs" using assms by (auto simp: gap_of_def)
  then obtain a where "a \<in> set xs" "first_m a \<le> f - 1" "f - 1 \<le> last_m a" "\<not> f \<le> last_m a"
    by (force simp: mem_mses_set)
  then show ?thesis by force
qed

end
