(* ===== verification/MonadSetSpec.thy ===== *)
theory MonadSetSpec
  imports Stretches
begin

text \<open>
  The contract of a set of monads, as a locale: an empty set, adding and removing a
  stretch, and the list of stretches an iterator visits. \<open>SetOfMonads\<close> and
  \<open>FastSetOfMonads\<close> both provide it; the loops that only use the contract (union,
  difference, intersection, filling gaps, copying from one representation into another) are
  proved correct here once.
\<close>

locale monad_set =
  fixes mempty :: 's
    and add :: "'s \<Rightarrow> mse \<Rightarrow> 's res"
    and remove :: "'s \<Rightarrow> mse \<Rightarrow> 's res"
    and stretches :: "'s \<Rightarrow> mse list"
    and invar :: "'s \<Rightarrow> bool"
  assumes invar_empty: "invar mempty"
    and stretches_empty: "stretches mempty = []"
    and stretches_wf: "invar s \<Longrightarrow> mses_wf (stretches s)"
    and stretches_inj: "invar s \<Longrightarrow> invar t \<Longrightarrow> stretches s = stretches t \<Longrightarrow> s = t"
    and add_law: "invar s \<Longrightarrow> mse_ok e \<Longrightarrow> returns (add s e)
          (\<lambda>t. invar t \<and> mses_set (stretches t) = mses_set (stretches s) \<union> mse_set e)"
    and remove_law: "invar s \<Longrightarrow> mse_ok e \<Longrightarrow> returns (remove s e)
          (\<lambda>t. invar t \<and> mses_set (stretches t) = mses_set (stretches s) - mse_set e)"
begin

lemma set_inj:
  "invar s \<Longrightarrow> invar t \<Longrightarrow> mses_set (stretches s) = mses_set (stretches t) \<Longrightarrow> s = t"
  by (blast intro: stretches_inj mses_unique stretches_wf)

lemma add_range_law:
  "invar s \<Longrightarrow> 0 \<le> u \<Longrightarrow> u \<le> v \<Longrightarrow> v \<le> MAX_MONAD \<Longrightarrow>
   returns (bind_res (MonadSetElement_range u v) (add s))
     (\<lambda>t. invar t \<and> mses_set (stretches t) = mses_set (stretches s) \<union> {u..v})"
  using add_law[of s "MSE u v"] by simp

lemma add_all:
  assumes "invar s" "\<forall>e\<in>set xs. mse_ok e"
  shows "returns (foldM_res add s xs)
           (\<lambda>t. invar t \<and> mses_set (stretches t) = mses_set (stretches s) \<union> mses_set xs)"
proof -
  have "returns (foldM_res add s xs)
     (\<lambda>t. invar t \<and> mses_set (stretches t) = foldl (\<lambda>A e. A \<union> mse_set e) (mses_set (stretches s)) xs)"
    by (rule foldM_res_refines[where R = "\<lambda>t A. invar t \<and> mses_set (stretches t) = A"])
      (use assms add_law in \<open>auto elim!: returns_mono\<close>)
  then show ?thesis by (simp add: foldl_union_image mses_set_def)
qed

lemma remove_all:
  assumes "invar s" "\<forall>e\<in>set xs. mse_ok e"
  shows "returns (foldM_res remove s xs)
           (\<lambda>t. invar t \<and> mses_set (stretches t) = mses_set (stretches s) - mses_set xs)"
proof -
  have "returns (foldM_res remove s xs)
     (\<lambda>t. invar t \<and> mses_set (stretches t) = foldl (\<lambda>A e. A - mse_set e) (mses_set (stretches s)) xs)"
    by (rule foldM_res_refines[where R = "\<lambda>t A. invar t \<and> mses_set (stretches t) = A"])
      (use assms remove_law in \<open>auto elim!: returns_mono\<close>)
  then show ?thesis by (simp add: foldl_diff_image mses_set_def)
qed

text \<open>Rebuilding a set from the stretches of another one gives those stretches.\<close>

lemma add_all_copy:
  assumes "mses_wf xs"
  shows "returns (foldM_res add mempty xs) (\<lambda>t. invar t \<and> stretches t = xs)"
proof -
  have "returns (foldM_res add mempty xs) (\<lambda>t. invar t \<and> mses_set (stretches t) = mses_set xs)"
    using add_all[OF invar_empty, of xs] assms by (simp add: stretches_empty mses_wf_def)
  then show ?thesis
    using mses_unique[OF stretches_wf assms] by (auto elim!: returns_mono)
qed

text \<open>
  The intersection loop of both classes: any function with the loop's equations computes
  the intersection of the two lists and adds it to the result.
\<close>

lemma intersect_spec:
  assumes L_Nil: "\<And>B r. L [] B r = Inr r" "\<And>A r. L A [] r = Inr r"
    and L_Cons: "\<And>a A b B r. L (a # A) (b # B) r =
      (if last_m a < first_m b then L A (b # B) r
       else if first_m a > last_m b then L (a # A) B r
       else if first_m a \<ge> first_m b \<and> last_m a \<le> last_m b then bind_res (add r a) (L A (b # B))
       else if first_m a < first_m b \<and> last_m a > last_m b then bind_res (add r b) (L (a # A) B)
       else if first_m a < first_m b
            then bind_res (bind_res (MonadSetElement_range (first_m b) (last_m a)) (add r)) (L A (b # B))
       else bind_res (bind_res (MonadSetElement_range (first_m a) (last_m b)) (add r)) (L (a # A) B))"
    and "mses_wf A" "mses_wf B" "invar r"
  shows "returns (L A B r) (\<lambda>t. invar t \<and>
           mses_set (stretches t) = mses_set (stretches r) \<union> (mses_set A \<inter> mses_set B))"
  using assms(4-6)
proof (induction "length A + length B" arbitrary: A B r rule: less_induct)
  case (less A B r)
  show ?case
  proof (cases "A = [] \<or> B = []")
    case True
    then show ?thesis using less.prems by (auto simp: L_Nil)
  next
    case False
    then obtain a A' b B' where AB: "A = a # A'" "B = b # B'" by (metis neq_Nil_conv)
    have wfA: "mses_wf (a # A')" and wfB: "mses_wf (b # B')" and r: "invar r"
      using less.prems AB by auto
    have wf: "mses_wf A'" "mses_wf B'" "mse_ok a" "mse_ok b" using wfA wfB by auto
    have nextA: "returns (L A' (b # B') s) (\<lambda>t. invar t \<and>
        mses_set (stretches t) = mses_set (stretches s) \<union> (mses_set A' \<inter> mses_set (b # B')))"
      if "invar s" for s using less.hyps[of A' "b # B'" s] AB wf wfB that by simp
    have nextB: "returns (L (a # A') B' s) (\<lambda>t. invar t \<and>
        mses_set (stretches t) = mses_set (stretches s) \<union> (mses_set (a # A') \<inter> mses_set B'))"
      if "invar s" for s using less.hyps[of "a # A'" B' s] AB wf wfA that by simp
    have stepA: "returns (bind_res m (L A' (b # B'))) (\<lambda>t. invar t \<and> mses_set (stretches t) =
        mses_set (stretches r) \<union> (mses_set (a # A') \<inter> mses_set (b # B')))"
      if "returns m (\<lambda>t. invar t \<and> mses_set (stretches t) = mses_set (stretches r) \<union> X)"
        "mse_set a \<inter> mses_set (b # B') = X" for m X
      by (rule returns_bind[OF that(1)]) (rule returns_mono[OF nextA], use that(2) in auto)
    have stepB: "returns (bind_res m (L (a # A') B')) (\<lambda>t. invar t \<and> mses_set (stretches t) =
        mses_set (stretches r) \<union> (mses_set (a # A') \<inter> mses_set (b # B')))"
      if "returns m (\<lambda>t. invar t \<and> mses_set (stretches t) = mses_set (stretches r) \<union> X)"
        "mses_set (a # A') \<inter> mse_set b = X" for m X
      by (rule returns_bind[OF that(1)]) (rule returns_mono[OF nextB], use that(2) in auto)
    have A: "x \<in> mses_set A' \<Longrightarrow> last_m a + 1 < x" and B: "x \<in> mses_set B' \<Longrightarrow> last_m b + 1 < x" for x
      using wfA wfB by (auto dest: mses_set_after)
    consider (c1) "last_m a < first_m b" | (c5) "first_m a > last_m b" "\<not> last_m a < first_m b"
      | (c3) "first_m a \<ge> first_m b" "last_m a \<le> last_m b"
      | (c6) "first_m a < first_m b" "last_m a > last_m b"
      | (c2) "first_m a < first_m b" "first_m b \<le> last_m a" "last_m a \<le> last_m b"
      | (c4) "first_m b \<le> first_m a" "first_m a \<le> last_m b" "last_m a > last_m b"
      using wf by (auto simp: mse_ok_def) linarith
    then show ?thesis
    proof cases
      case c1
      then show ?thesis
        using stepA[of "Inr r" "{}"] mses_disjoint_before[OF wfB c1] r
        by (simp add: AB L_Cons del: mses_set_simps)
    next
      case c5
      then show ?thesis
        using stepB[of "Inr r" "{}"] mses_disjoint_after[OF wfA c5(1)] r
        by (simp add: AB L_Cons del: mses_set_simps)
    next
      case c3
      then have "mse_set a \<inter> mses_set (b # B') = mse_set a" by (auto simp: mse_set_def)
      from stepA[OF add_law[OF r wf(3)] this] show ?thesis
        using c3 wf by (simp add: AB L_Cons mse_ok_def)
    next
      case c6
      then have "mses_set (a # A') \<inter> mse_set b = mse_set b" by (auto simp: mse_set_def)
      from stepB[OF add_law[OF r wf(4)] this] show ?thesis
        using c6 wf by (simp add: AB L_Cons mse_ok_def)
    next
      case c2
      then have "mse_set a \<inter> mses_set (b # B') = {first_m b..last_m a}"
        by (auto simp: mse_set_def) (fastforce dest: B)
      from stepA[OF add_range_law[OF r] this] show ?thesis
        using c2 wf by (simp add: AB L_Cons mse_ok_def)
    next
      case c4
      then have "mses_set (a # A') \<inter> mse_set b = {first_m a..last_m b}"
        by (auto simp: mse_set_def) (fastforce dest: A)
      from stepB[OF add_range_law[OF r] this] show ?thesis
        using c4 wf by (simp add: AB L_Cons mse_ok_def)
    qed
  qed
qed

text \<open>The loop of \<open>fillGaps\<close>, in the same way.\<close>

lemma fillGaps_spec:
  assumes F_Nil: "\<And>r p. F r p [] = Inr r"
    and F_Cons: "\<And>r p e ci. F r p (e # ci) =
      bind_res (if first_m e - p - 1 \<ge> g then add r e
                else bind_res (MonadSetElement_range p (last_m e)) (add r))
        (\<lambda>r'. F r' (last_m e) ci)"
    and "mses_wf (a # xs)" "invar r" "mse_set a \<subseteq> mses_set (stretches r)"
  shows "returns (F r (last_m a) xs) (\<lambda>t. invar t \<and> mses_set (stretches t) =
           mses_set (stretches r) \<union> mses_set xs \<union> small_gaps (mses_set (a # xs)) g)"
  using assms(3-5)
proof (induction xs arbitrary: a r)
  case Nil
  then show ?case by (simp add: F_Nil)
next
  case (Cons b xs)
  have ok: "mse_ok a" "mse_ok b" and ab: "last_m a + 1 < first_m b" and wfb: "mses_wf (b # xs)"
    using Cons.prems by (auto simp: gap_before_def)
  have la: "last_m a \<in> mses_set (stretches r)" using Cons.prems ok by (auto simp: mse_set_Max)
  let ?new = "if first_m b - last_m a - 1 < g then {last_m a + 1..first_m b - 1} else {}"
  have "{last_m a..last_m b} = {last_m a} \<union> {last_m a + 1..first_m b - 1} \<union> mse_set b"
    using ok ab by (auto simp: mse_set_def mse_ok_def)
  then have step: "returns (if first_m b - last_m a - 1 \<ge> g then add r b
         else bind_res (MonadSetElement_range (last_m a) (last_m b)) (add r))
       (\<lambda>t. invar t \<and> mses_set (stretches t) = mses_set (stretches r) \<union> ?new \<union> mse_set b)"
    using add_law[OF Cons.prems(2) ok(2)] add_range_law[OF Cons.prems(2), of "last_m a" "last_m b"]
      ok ab la by (auto simp: mse_ok_def elim!: returns_mono)
  have rest: "returns (F t (last_m b) xs) (\<lambda>u. invar u \<and> mses_set (stretches u) =
          mses_set (stretches r) \<union> mses_set (b # xs) \<union> small_gaps (mses_set (a # b # xs)) g)"
    if "invar t" "mses_set (stretches t) = mses_set (stretches r) \<union> ?new \<union> mse_set b" for t
  proof (rule returns_mono[OF Cons.IH[OF wfb that(1)]])
    show "mse_set b \<subseteq> mses_set (stretches t)" using that(2) by blast
  qed (simp only: that(2) small_gaps_Cons2[OF Cons.prems(1)] mses_set_simps(2)[of b xs] Un_ac)
  show ?case
    unfolding F_Cons by (rule returns_bind[OF step]) (rule rest, simp_all)
qed

end

end
