(* ===== verification/SetOfMonads_Props.thy ===== *)
theory SetOfMonads_Props
  imports SetOfMonads MonadSetSpec
begin

text \<open>
  Correctness of \<open>SetOfMonads\<close>: the invariant of the class, and for each operation that it
  keeps the invariant and computes the set operation its documentation names. The class
  provides the contract \<open>monad_set\<close>; union, difference, intersection and the filling of gaps
  come from there.
\<close>

section \<open>Invariant and abstraction\<close>

definition som_set :: "SetOfMonads \<Rightarrow> monad_m set" where
  "som_set s = mses_set (monad_ms s)"

definition som_wf :: "SetOfMonads \<Rightarrow> bool" where
  "som_wf s \<longleftrightarrow> mses_wf (monad_ms s) \<and> bounds_ok (monad_ms s) (m_first s) (m_last s)"

section \<open>Adding a stretch\<close>

lemma addMSE_insert_correct:
  assumes "mses_wf (pre @ rest)" "mse_ok cm" "\<forall>p\<in>set pre. gap_before p cm"
  shows "mses_wf (addMSE_insert pre rest cm) \<and>
         mses_set (addMSE_insert pre rest cm) = mses_set (pre @ rest) \<union> mse_set cm"
  using assms
proof (induction rest arbitrary: pre cm)
  case Nil
  then show ?case by auto
next
  case (Cons it rest)
  let ?touch = "mse_overlap cm it \<or> mse_adjacent cm it"
  have ok: "mse_ok it" using Cons.prems by auto
  consider (touch) "?touch" | (past) "\<not> ?touch" "mse_past it cm"
    | (skip) "\<not> ?touch" "\<not> mse_past it cm" by blast
  then show ?case
  proof cases
    case touch
    have "\<forall>p\<in>set pre. gap_before p (mse_subsume cm it)"
      using Cons.prems by (auto simp: gap_before_def)
    then show ?thesis
      using touch Cons.IH[of pre "mse_subsume cm it"] Cons.prems mse_set_subsume[OF _ ok touch]
      by auto
  next
    case past
    have "\<forall>r\<in>set rest. gap_before cm r"
      using past Cons.prems by (force simp: gap_before_def mse_simps mse_ok_def)
    then show ?thesis
      using past Cons.prems by (auto simp: gap_before_def mse_simps)
  next
    case skip
    then have "gap_before it cm"
      using ok Cons.prems(2) by (auto simp: gap_before_def mse_simps mse_ok_def)
    then show ?thesis
      using skip Cons.IH[of "pre @ [it]" cm] Cons.prems by auto
  qed
qed


lemma addMSE_list_correct:
  assumes "som_wf s" "mse_ok e"
  shows "mses_wf (monad_ms (SetOfMonads_addMSE s e)) \<and>
         mses_set (monad_ms (SetOfMonads_addMSE s e)) = som_set s \<union> mse_set e"
proof -
  let ?ms = "monad_ms s"
  have wf: "mses_wf ?ms" and b: "bounds_ok ?ms (m_first s) (m_last s)"
    using assms by (auto simp: som_wf_def)
  consider (append) "?ms = [] \<or> first_m e > m_last s + 1"
    | (extend) "?ms \<noteq> []" "\<not> first_m e > m_last s + 1" "first_m e \<ge> first_m (last ?ms)"
    | (front) "?ms \<noteq> []" "\<not> first_m e > m_last s + 1" "\<not> first_m e \<ge> first_m (last ?ms)"
        "last_m e = m_first s - 1"
    | (insert) "?ms \<noteq> []" "\<not> first_m e > m_last s + 1" "\<not> first_m e \<ge> first_m (last ?ms)"
        "last_m e \<noteq> m_first s - 1"
    by blast
  then show ?thesis
  proof cases
    case append
    then have eq: "monad_ms (SetOfMonads_addMSE s e) = ?ms @ [e]"
      by (auto simp: SetOfMonads_addMSE_def SetOfMonads_isEmpty_def Let_def)
    have "?ms = [] \<or> first_m e > last_m (last ?ms) + 1"
      using append b by (auto simp: bounds_ok_def split: if_splits)
    then show ?thesis
      using mses_wf_push_back[OF wf assms(2)] unfolding eq by (simp add: som_set_def)
  next
    case extend
    then have eq: "monad_ms (SetOfMonads_addMSE s e) = butlast ?ms @ [mse_subsume (last ?ms) e]"
      by (simp add: SetOfMonads_addMSE_def SetOfMonads_isEmpty_def Let_def)
    show ?thesis
      using extend wf b assms mses_wf_subsume_last[of "butlast ?ms" "last ?ms" e]
      unfolding eq by (simp add: bounds_ok_def som_set_def)
  next
    case front
    then have eq: "monad_ms (SetOfMonads_addMSE s e) = mse_subsume (hd ?ms) e # tl ?ms"
      by (simp add: SetOfMonads_addMSE_def SetOfMonads_isEmpty_def Let_def)
    show ?thesis
      using front wf b assms mses_wf_subsume_first[of "hd ?ms" "tl ?ms" e]
      unfolding eq by (simp add: bounds_ok_def som_set_def)
  next
    case insert
    then have eq: "monad_ms (SetOfMonads_addMSE s e) = addMSE_insert [] ?ms e"
      by (simp add: SetOfMonads_addMSE_def SetOfMonads_isEmpty_def Let_def)
    show ?thesis
      using addMSE_insert_correct[of "[]" ?ms e] wf assms unfolding eq by (simp add: som_set_def)
  qed
qed

lemma som_wf_addMSE [intro]:
  assumes "som_wf s" "mse_ok e"
  shows "som_wf (SetOfMonads_addMSE s e)"
  using addMSE_list_correct[OF assms] assms bounds_ok_add[of "monad_ms s" "m_first s" "m_last s"]
  by (auto simp: som_wf_def som_set_def SetOfMonads_addMSE_def Let_def)

lemma som_set_addMSE [simp]:
  "som_wf s \<Longrightarrow> mse_ok e \<Longrightarrow> som_set (SetOfMonads_addMSE s e) = som_set s \<union> mse_set e"
  using addMSE_list_correct by (simp add: som_set_def)

lemma som_wf_empty [simp]: "som_wf SetOfMonads_empty"
  by (simp add: som_wf_def SetOfMonads_empty_def bounds_ok_def)

lemma som_set_empty [simp]: "som_set SetOfMonads_empty = {}"
  by (simp add: som_set_def SetOfMonads_empty_def)

lemma som_unique: "som_wf s \<Longrightarrow> som_wf t \<Longrightarrow> som_set s = som_set t \<Longrightarrow> s = t"
  using mses_unique[of "monad_ms s" "monad_ms t"]
  by (cases s; cases t) (auto simp: som_wf_def som_set_def bounds_ok_def split: if_splits)

lemma add_range_returns:
  assumes "som_wf s" "0 \<le> f" "f \<le> l" "l \<le> MAX_MONAD"
  shows "returns (SetOfMonads_add_range s f l) (\<lambda>r. som_wf r \<and> som_set r = som_set s \<union> {f..l})"
  using assms by (auto simp: SetOfMonads_add_range_def)

lemma add_range_throws: "f > l \<Longrightarrow> SetOfMonads_add_range s f l = Inl BadMonadsException"
  by (simp add: SetOfMonads_add_range_def MonadSetElement_range_def)


section \<open>Removing a stretch, difference\<close>

lemma removeMSE_loop_correct:
  assumes "mses_wf (pre @ rest)" "mses_set pre \<inter> {f..l} = {}" "f \<le> l"
  shows "returns (removeMSE_loop f l pre rest)
           (\<lambda>ms. mses_wf ms \<and> mses_set ms = mses_set (pre @ rest) - {f..l})"
  using assms
proof (induction f l pre rest rule: removeMSE_loop.induct)
  case (1 f l pre)
  then show ?case by auto
next
  case (2 f l pre a rest)
  note wf = "2.prems"(1) and disj = "2.prems"(2) and fl = "2.prems"(3)
  have wfa: "mses_wf (a # rest)" and ok: "mse_ok a" using wf by auto
  have rest: "x \<in> mses_set rest \<Longrightarrow> last_m a + 1 < x" for x
    using wfa by (auto dest: mses_set_after)
  consider (c1) "last_m a < f" | (c5) "first_m a > l" | (c3) "first_m a \<ge> f" "last_m a \<le> l"
    | (c6) "first_m a < f" "last_m a > l" | (c2) "first_m a < f" "f \<le> last_m a" "last_m a \<le> l"
    | (c4) "f \<le> first_m a" "first_m a \<le> l" "last_m a > l"
    using ok by (auto simp: mse_ok_def) linarith
  then show ?case
  proof cases
    case c1
    have "mses_set (pre @ [a]) \<inter> {f..l} = {}" using disj c1 by (auto simp: mse_set_def)
    then show ?thesis using c1 "2.IH"(1) wf fl by simp
  next
    case c5
    have "mses_set (a # rest) \<inter> {f..l} = {}" using c5 mses_first_le[OF wfa] by fastforce
    then have "mses_set (pre @ a # rest) - {f..l} = mses_set (pre @ a # rest)" using disj by auto
    moreover have "\<not> last_m a < f" using c5 ok fl by (auto simp: mse_ok_def)
    ultimately show ?thesis using c5 wf by simp
  next
    case c3
    have "mse_set a - {f..l} = {}" using c3 by (auto simp: mse_set_def)
    then have "mses_set (pre @ a # rest) - {f..l} = mses_set (pre @ rest) - {f..l}" by auto
    then show ?thesis using c3 "2.IH"(2) wf disj fl ok by (auto simp: mse_ok_def)
  next
    case c6
    let ?t = "MSE (first_m a) (f - 1)" and ?n = "MSE (l + 1) (last_m a)"
    have "mse_set a - {f..l} = mse_set ?t \<union> mse_set ?n"
      using c6 fl by (auto simp: mse_set_def)
    moreover have "mses_set rest \<inter> {f..l} = {}" using c6 rest by fastforce
    ultimately have "mses_set (pre @ ?t # ?n # rest) = mses_set (pre @ a # rest) - {f..l}"
      using disj by auto
    moreover have "mses_wf (pre @ ?t # ?n # rest)"
      using wf c6 ok fl by (auto simp: gap_before_def mse_ok_def)
    ultimately show ?thesis
      using c6 fl by (auto simp: mse_truncate_def)
  next
    case c2
    let ?t = "MSE (first_m a) (f - 1)"
    have tr: "mse_truncate a f l = ?t" using c2 by (simp add: mse_truncate_def)
    have "mse_set a - {f..l} = mse_set ?t" using c2 by (auto simp: mse_set_def)
    then have "mses_set ((pre @ [?t]) @ rest) - {f..l} = mses_set (pre @ a # rest) - {f..l}"
      by auto
    moreover have "mses_wf ((pre @ [?t]) @ rest)"
      using wf c2 ok fl by (auto simp: gap_before_def mse_ok_def)
    moreover have "mses_set (pre @ [?t]) \<inter> {f..l} = {}" using disj by auto
    ultimately show ?thesis using c2 "2.IH"(3) tr fl by auto
  next
    case c4
    let ?t = "MSE (l + 1) (last_m a)"
    have tr: "mse_truncate a f l = ?t" using c4 by (simp add: mse_truncate_def)
    have "mse_set a - {f..l} = mse_set ?t" using c4 by (auto simp: mse_set_def)
    then have "mses_set ((pre @ [?t]) @ rest) - {f..l} = mses_set (pre @ a # rest) - {f..l}"
      by auto
    moreover have "mses_wf ((pre @ [?t]) @ rest)"
      using wf c4 ok fl by (auto simp: gap_before_def mse_ok_def)
    moreover have "mses_set (pre @ [?t]) \<inter> {f..l} = {}" using disj by auto
    ultimately show ?thesis using c4 "2.IH"(4) tr fl by auto
  qed
qed


lemma removeMSE_range_returns:
  assumes "som_wf s" "f \<le> l"
  shows "returns (SetOfMonads_removeMSE_range s f l)
           (\<lambda>r. som_wf r \<and> som_set r = som_set s - {f..l})"
proof (cases "monad_ms s = []")
  case True
  then show ?thesis
    using assms by (simp add: SetOfMonads_removeMSE_range_def SetOfMonads_isEmpty_def som_set_def)
next
  case False
  obtain ms where "removeMSE_loop f l [] (monad_ms s) = Inr ms" "mses_wf ms"
    "mses_set ms = som_set s - {f..l}"
    using removeMSE_loop_correct[of "[]" "monad_ms s" f l] assms
    by (auto simp: returns_iff som_wf_def som_set_def)
  then show ?thesis
    using False
    by (auto simp: SetOfMonads_removeMSE_range_def SetOfMonads_isEmpty_def som_wf_def som_set_def
        bounds_ok_def)
qed

section \<open>The contract\<close>

interpretation sm: monad_set SetOfMonads_empty "\<lambda>s e. Inr (SetOfMonads_addMSE s e)"
  SetOfMonads_removeMSE monad_ms som_wf
proof unfold_locales
  show "s = t" if "som_wf s" "som_wf t" "monad_ms s = monad_ms t" for s t
    using som_unique[of s t] that by (simp add: som_set_def)
  show "returns (SetOfMonads_removeMSE s e)
      (\<lambda>t. som_wf t \<and> mses_set (monad_ms t) = mses_set (monad_ms s) - mse_set e)"
    if "som_wf s" "mse_ok e" for s e
    using removeMSE_range_returns[of s "first_m e" "last_m e"] that
    by (simp add: SetOfMonads_removeMSE_def som_set_def mse_ok_def mse_set_def)
  show "returns (Inr (SetOfMonads_addMSE s e))
      (\<lambda>t. som_wf t \<and> mses_set (monad_ms t) = mses_set (monad_ms s) \<union> mse_set e)"
    if "som_wf s" "mse_ok e" for s e
    using som_wf_addMSE[OF that] addMSE_list_correct[OF that] by (simp add: som_set_def)
  show "monad_ms SetOfMonads_empty = []" by (simp add: SetOfMonads_empty_def)
qed (simp, simp add: som_wf_def)

section \<open>Equality, listing and cardinality\<close>

lemma operator_eq_loop_iff [simp]: "operator_eq_loop us them \<longleftrightarrow> us = them"
  by (induction us arbitrary: them) (auto split: list.splits)

lemma operator_eq_iff:
  assumes "som_wf s" "som_wf t"
  shows "SetOfMonads_operator_eq s t \<longleftrightarrow> som_set s = som_set t"
proof -
  have "SetOfMonads_operator_eq s t \<longleftrightarrow> monad_ms s = monad_ms t"
    using assms
    by (auto simp: SetOfMonads_operator_eq_def SetOfMonads_isEmpty_def som_wf_def bounds_ok_def
        split: if_splits)
  also have "\<dots> \<longleftrightarrow> som_set s = som_set t"
    using assms mses_unique by (auto simp: som_wf_def som_set_def)
  finally show ?thesis .
qed

lemma getMonad_mList_loop_eq:
  "getMonad_mList_loop out xs = out @ concat (map (\<lambda>e. [first_m e..last_m e]) xs)"
  by (induction xs arbitrary: out) auto

lemma getMonad_mList_eq:
  "som_wf s \<Longrightarrow> SetOfMonads_getMonad_mList s = sorted_list_of_set (som_set s)"
  using sorted_stretches[of "monad_ms s"]
    sorted_list_of_set.idem_if_sorted_distinct[of "SetOfMonads_getMonad_mList s"]
  by (auto simp: SetOfMonads_getMonad_mList_def getMonad_mList_loop_eq som_wf_def som_set_def
      strict_sorted_iff simp del: set_concat)

lemma getCardinality_loop_eq:
  "mses_wf xs \<Longrightarrow> getCardinality_loop c xs = c + int (card (mses_set xs))"
proof (induction xs arbitrary: c)
  case Nil
  then show ?case by simp
next
  case (Cons a xs)
  have "mse_set a \<inter> mses_set xs = {}"
    using Cons.prems by (auto simp: mse_set_def dest: mses_set_after)
  then have "card (mses_set (a # xs)) = card (mse_set a) + card (mses_set xs)"
    by (simp add: card_Un_disjoint)
  moreover have "int (card (mse_set a)) = 1 + last_m a - first_m a"
    using Cons.prems by (simp add: mse_set_def mse_ok_def)
  ultimately show ?case using Cons by simp
qed

section \<open>Inclusion and overlap\<close>

lemma part_of_loop_iff:
  "mses_wf A \<Longrightarrow> mses_wf B \<Longrightarrow> part_of_loop A B \<longleftrightarrow> mses_set A \<subseteq> mses_set B"
proof (induction A B rule: part_of_loop.induct)
  case (1 B)
  then show ?case by simp
next
  case (2 a A)
  then show ?case by (auto dest: mse_ok_nonempty)
next
  case (3 a A b B)
  note wf = "3.prems"
  have ends: "first_m a \<in> mse_set a" "last_m a \<in> mse_set a" "mse_ok a" "mse_ok b"
    using wf by (auto simp: mse_set_Min mse_set_Max)
  consider (before) "last_m a < first_m b" | (after) "first_m a > last_m b"
    | (inside) "first_m a \<ge> first_m b" "last_m a \<le> last_m b"
    | (starts) "first_m a < first_m b" "\<not> last_m a < first_m b"
    | (sticks) "first_m a \<ge> first_m b" "first_m a \<le> last_m b" "last_m a > last_m b"
    by linarith
  then show ?case
  proof cases
    case before
    then show ?thesis
      using mses_disjoint_before[OF wf(2) before] ends by auto
  next
    case after
    then have "mses_set (a # A) \<inter> mse_set b = {}"
      by (rule mses_disjoint_after[OF wf(1)])
    then have "mses_set (a # A) \<subseteq> mses_set (b # B) \<longleftrightarrow> mses_set (a # A) \<subseteq> mses_set B"
      by auto
    then show ?thesis
      using after "3.IH"(1) wf ends by (auto simp: mse_ok_def)
  next
    case inside
    then have "mse_set a \<subseteq> mses_set (b # B)" by (auto simp: mse_set_def)
    then show ?thesis
      using inside "3.IH"(2) wf ends by (auto simp: mse_ok_def)
  next
    case starts
    then have "first_m a \<notin> mses_set (b # B)"
      using mses_first_le[OF wf(2), of "first_m a"] by auto
    then show ?thesis using starts ends by (auto simp: mse_ok_def)
  next
    case sticks
    then have "last_m b + 1 \<in> mse_set a" by (auto simp: mse_set_def)
    then show ?thesis
      using sticks mses_not_after_hd[OF wf(2)] ends by (auto simp: mse_ok_def)
  qed
qed

lemma overlap_loop_iff:
  "mses_wf A \<Longrightarrow> mses_wf B \<Longrightarrow> overlap_loop A B \<longleftrightarrow> mses_set A \<inter> mses_set B \<noteq> {}"
proof (induction A B rule: overlap_loop.induct)
  case (1 a A b B)
  note wf = "1.prems"
  consider (before) "last_m a < first_m b" | (after) "first_m a > last_m b"
    | (meet) "\<not> last_m a < first_m b" "\<not> first_m a > last_m b"
    by linarith
  then show ?case
  proof cases
    case before
    then show ?thesis using "1.IH"(1) wf mses_disjoint_before[OF wf(2) before] by auto
  next
    case after
    moreover have "\<not> last_m a < first_m b" using after wf by (auto simp: mse_ok_def)
    ultimately show ?thesis using "1.IH"(2) wf mses_disjoint_after[OF wf(1), of b] by auto
  next
    case meet
    then have "mse_set a \<inter> mse_set b \<noteq> {}"
      using wf mse_overlap_iff[of a b] by (auto simp: mse_simps)
    with meet show ?thesis by auto
  qed
qed auto

section \<open>Membership\<close>

lemma isMemberOf_loop_iff: "mses_wf xs \<Longrightarrow> isMemberOf_loop m xs \<longleftrightarrow> m \<in> mses_set xs"
proof (induction xs)
  case (Cons a xs)
  then show ?case
    using mses_first_le[OF Cons.prems, of m] by (auto simp: mse_set_def)
qed simp

lemma hasMonadsInRange_loop_iff:
  "mses_wf xs \<Longrightarrow> first_m r \<le> last_m r \<Longrightarrow>
   hasMonadsInRange_loop r xs \<longleftrightarrow> mses_set xs \<inter> mse_set r \<noteq> {}"
proof (induction xs)
  case (Cons a xs)
  then have IH: "hasMonadsInRange_loop r xs \<longleftrightarrow> mses_set xs \<inter> mse_set r \<noteq> {}" and ok: "mse_ok a"
    by auto
  have meet: "mse_overlap a r \<longleftrightarrow> mse_set a \<inter> mse_set r \<noteq> {}"
    using ok Cons.prems by (auto simp: mse_simps mse_set_def mse_ok_def)
  show ?case
    using IH meet mses_disjoint_after[OF Cons.prems(1), of r] by auto
qed simp

lemma advance_hint_suffix: "\<exists>ps. xs = ps @ advance_hint m xs \<and> (\<forall>p\<in>set ps. last_m p < m)"
proof (induction xs)
  case (Cons a xs)
  then obtain ps where ps: "xs = ps @ advance_hint m xs" "\<forall>p\<in>set ps. last_m p < m" by blast
  show ?case
  proof (cases "last_m a < m")
    case True
    with ps have "a # xs = (a # ps) @ advance_hint m (a # xs)" "\<forall>p\<in>set (a # ps). last_m p < m"
      by (auto simp: mse_simps)
    then show ?thesis by blast
  qed (auto simp: mse_simps)
qed simp

lemma advance_hint_hd: "advance_hint m xs = e # es \<Longrightarrow> m \<le> last_m e"
  by (induction xs) (auto simp: mse_simps split: if_splits)

lemma advance_hint_member:
  assumes "mses_wf xs" "advance_hint m xs = e # es"
  shows "first_m e \<le> m \<longleftrightarrow> m \<in> mses_set xs"
proof -
  obtain ps where ps: "xs = ps @ e # es" "\<forall>p\<in>set ps. last_m p < m"
    using advance_hint_suffix[of xs m] assms by auto
  have "m \<notin> mses_set ps" using ps by (force simp: mem_mses_set)
  moreover have "mses_wf (e # es)" using ps assms by simp
  ultimately show ?thesis
    using ps advance_hint_hd[OF assms(2)] mses_first_le[of "e # es" m] by (auto simp: mse_set_def)
qed


section \<open>Gaps\<close>

lemma hasLargerGap_loop_iff:
  "mses_wf (a # xs) \<Longrightarrow>
   hasLargerGap_loop t (last_m a) xs \<longleftrightarrow> (\<exists>f l. gap_of (mses_set (a # xs)) f l \<and> t \<le> l - f + 1)"
proof (induction xs arbitrary: a)
  case (Cons b xs)
  have "(\<exists>f l. gap_of (mses_set (a # b # xs)) f l \<and> t \<le> l - f + 1) \<longleftrightarrow>
        t \<le> (first_m b - 1) - (last_m a + 1) + 1 \<or>
        (\<exists>f l. gap_of (mses_set (b # xs)) f l \<and> t \<le> l - f + 1)"
    unfolding gap_of_Cons2[OF Cons.prems] ex2_eq_disj by simp
  then show ?case
    using Cons.IH[of b] Cons.prems by auto
qed simp

lemma gap_size_le:
  assumes "som_wf s" "gap_of (som_set s) f l"
  shows "l - f + 1 < m_last s - m_first s"
proof -
  have ne: "monad_ms s \<noteq> []" and wf: "mses_wf (monad_ms s)"
    using assms by (auto simp: som_set_def som_wf_def gap_of_def)
  have "m_first s \<le> f - 1" "l + 1 \<le> m_last s"
    using assms ne mses_first_le[OF wf, of "f - 1"] mses_le_last[OF wf, of "l + 1"]
    by (auto simp: som_wf_def bounds_ok_def som_set_def gap_of_def)
  then show ?thesis using assms by (auto simp: gap_of_def)
qed

lemma gapExists_loop_correct:
  assumes "mses_wf xs" "xs \<noteq> []" "first_m (hd xs) \<le> Sm" "Sm \<le> last_m (last xs)"
  shows "returns (gapExists_loop Sm m xs) (\<lambda>(b, m').
           if b then gap_of (mses_set xs) Sm m' else m' = m \<and> (\<forall>l. \<not> gap_of (mses_set xs) Sm l))"
  using assms
proof (induction xs)
  case (Cons a xs)
  show ?case
  proof (cases xs)
    case Nil
    then show ?thesis using Cons.prems by auto
  next
    case xs: (Cons b ys)
    have wf: "mses_wf (a # b # ys)" using Cons.prems xs by simp
    then have ok: "mse_ok a" and ab: "last_m a + 1 < first_m b" by (auto simp: gap_before_def)
    consider (gap) "Sm = last_m a + 1" | (inside) "Sm \<le> last_m a" | (later) "last_m a + 1 < Sm"
      by linarith
    then show ?thesis
    proof cases
      case gap
      then show ?thesis using xs wf gap_of_first by (auto simp: it_current_def)
    next
      case inside
      then have no: "\<forall>l. \<not> gap_of (mses_set (a # xs)) Sm l"
        using Cons.prems by (auto simp: gap_of_def mse_set_def)
      then show ?thesis
        using inside xs ab wf by (auto simp: gap_before_def mse_ok_def)
    next
      case later
      have "\<not> Sm < last_m a" using later by simp
      show ?thesis
      proof (cases "Sm < first_m b")
        case True
        then have none: "\<forall>l. \<not> gap_of (mses_set (b # ys)) Sm l"
          using mses_first_le[of "b # ys" "Sm - 1"] wf by (auto simp: gap_of_def)
        then have "\<forall>l. \<not> gap_of (mses_set (a # xs)) Sm l"
          using later gap_of_Cons2[OF wf] xs by auto
        moreover have "mse_ok b" using wf by simp
        ultimately show ?thesis
          using later True xs by (auto simp: mse_ok_def)
      next
        case False
        have "gap_of (mses_set (a # xs)) Sm l \<longleftrightarrow> gap_of (mses_set xs) Sm l" for l
          using later gap_of_Cons2[OF wf] xs by simp
        moreover have "gapExists_loop Sm m (a # xs) = gapExists_loop Sm m xs"
          using later by simp
        moreover have "first_m (hd xs) \<le> Sm" "Sm \<le> last_m (last xs)" "mses_wf xs" "xs \<noteq> []"
          using False Cons.prems xs by auto
        ultimately show ?thesis using Cons.IH by presburger
      qed
    qed
  qed
qed simp


text \<open>Filling the gaps smaller than a bound, and listing all gaps.\<close>

lemma fillGaps_loop_correct:
  assumes "mses_wf (a # xs)" "som_wf r" "mse_set a \<subseteq> som_set r"
  shows "returns (fillGaps_loop g r (last_m a) xs) (\<lambda>t. som_wf t \<and>
           som_set t = som_set r \<union> mses_set xs \<union> small_gaps (mses_set (a # xs)) g)"
  unfolding som_set_def
  by (rule sm.fillGaps_spec[where F = "fillGaps_loop g" and g = g])
    (use assms in \<open>simp_all add: SetOfMonads_add_range_def som_set_def\<close>)

lemma getGaps_loop_correct:
  assumes "mses_wf (a # xs)" "som_wf r"
  shows "returns (getGaps_loop r (last_m a) xs) (\<lambda>t. som_wf t \<and>
           som_set t = som_set r \<union> ({first_m a..last_m (last (a # xs))} - mses_set (a # xs)))"
  using assms
proof (induction xs arbitrary: a r)
  case Nil
  then show ?case by (simp add: mse_set_def)
next
  case (Cons b xs)
  have ok: "mse_ok a" "mse_ok b" and ab: "last_m a + 1 < first_m b" and wfb: "mses_wf (b # xs)"
    using Cons.prems by (auto simp: gap_before_def)
  let ?L = "last_m (last (b # xs))"
  have L: "first_m b \<le> ?L"
    using mses_le_last[OF wfb mses_first_in[OF wfb]] by simp
  obtain t where t: "SetOfMonads_add_range r (last_m a + 1) (first_m b - 1) = Inr t" "som_wf t"
    "som_set t = som_set r \<union> {last_m a + 1..first_m b - 1}"
    using add_range_returns[OF Cons.prems(2), of "last_m a + 1" "first_m b - 1"] ok ab
    by (auto simp: returns_iff mse_ok_def)
  have "{first_m a..?L} - mses_set (a # b # xs) =
        {last_m a + 1..first_m b - 1} \<union> ({first_m b..?L} - mses_set (b # xs))"
    using ab L ok mses_first_le[OF wfb] by (fastforce simp: mse_set_def mse_ok_def)
  then show ?case
    using Cons.IH[OF wfb t(2)] t by (auto simp: Un_ac simp del: mses_wf_Cons elim!: returns_mono)
qed

section \<open>Intersection\<close>

lemma intersect_loop_correct:
  assumes "mses_wf A" "mses_wf B" "som_wf r"
  shows "returns (intersect_loop A B r)
           (\<lambda>t. som_wf t \<and> som_set t = som_set r \<union> (mses_set A \<inter> mses_set B))"
  unfolding som_set_def
proof (rule sm.intersect_spec[where L = intersect_loop])
  show "intersect_loop A [] r = Inr r" for A r by (cases A) simp_all
qed (use assms in \<open>simp_all add: SetOfMonads_add_range_def\<close>)

section \<open>Copying, shifting\<close>

lemma copyOther_loop_eq [simp]: "copyOther_loop ms xs = ms @ xs"
  by (induction xs arbitrary: ms) auto

lemma SetOfMonads_copy_eq [simp]: "SetOfMonads_copy s = s"
  by (simp add: SetOfMonads_copy_def SetOfMonads_copyOther_def)

lemma offset_correct:
  assumes "som_wf s" "som_set s \<noteq> {}" "0 \<le> m_first s + m" "m_last s + m \<le> MAX_MONAD"
  shows "som_wf (SetOfMonads_offset s m) \<and>
         som_set (SetOfMonads_offset s m) = (\<lambda>x. x + m) ` som_set s"
proof -
  have ne: "monad_ms s \<noteq> []" and wf: "mses_wf (monad_ms s)"
    and b: "m_first s = first_m (hd (monad_ms s))" "m_last s = last_m (last (monad_ms s))"
    using assms by (auto simp: som_wf_def som_set_def bounds_ok_def split: if_splits)
  have "\<forall>x\<in>mses_set (monad_ms s). 0 \<le> x + m \<and> x + m \<le> MAX_MONAD"
    using assms b mses_first_le[OF wf] mses_le_last[OF wf] by fastforce
  then show ?thesis
    using ne b mses_offset_wf[OF wf]
    by (simp add: som_wf_def som_set_def SetOfMonads_offset_def bounds_ok_def mses_offset_set
        hd_map last_map)
qed


section \<open>Fill-inserting a range\<close>

lemma fillInsertRange_step_correct:
  assumes r: "som_wf r" and a: "mse_ok a" "last_m a + (l - f + 1) \<le> MAX_MONAD"
    and fl: "0 \<le> f" "f \<le> l"
  shows "returns (fillInsertRange_step f l (l - f + 1) r a) (\<lambda>t. som_wf t \<and>
           som_set t \<union> {f..l} = (som_set r \<union> fill_image f l (mse_set a)) \<union> {f..l})"
proof -
  let ?n = "l - f + 1"
  have ok: "0 \<le> first_m a" "first_m a \<le> last_m a" "last_m a \<le> MAX_MONAD"
    using a by (auto simp: mse_ok_def)
  have add: "returns (SetOfMonads_add_range r u v) (\<lambda>t. som_wf t \<and>
       som_set t \<union> {f..l} = (som_set r \<union> fill_image f l (mse_set a)) \<union> {f..l})"
    if "0 \<le> u" "u \<le> v" "v \<le> MAX_MONAD" "{u..v} \<union> {f..l} = fill_image f l (mse_set a) \<union> {f..l}" for u v
    using add_range_returns[OF r that(1-3)] that(4) by (auto elim!: returns_mono)
  consider (c1) "last_m a < f" | (c5) "first_m a > l" "f \<le> last_m a"
    | (c26) "first_m a < f" "f \<le> last_m a"
    | (c34) "f \<le> first_m a" "first_m a \<le> l"
    using ok by linarith
  then show ?thesis
  proof cases
    case c1
    then have "fill_image f l (mse_set a) = mse_set a"
      using fl by (auto simp: mem_fill_image mse_set_def)
    then show ?thesis using c1 r a by (auto simp: fillInsertRange_step_def)
  next
    case c5
    then have "{first_m a + ?n..last_m a + ?n} \<union> {f..l} = fill_image f l (mse_set a) \<union> {f..l}"
      using fl by (auto simp: mem_fill_image mse_set_def)
    then show ?thesis
      using c5 add[of "first_m a + ?n" "last_m a + ?n"] ok a fl by (simp add: fillInsertRange_step_def)
  next
    case c26
    then have "{first_m a..last_m a + ?n} \<union> {f..l} = fill_image f l (mse_set a) \<union> {f..l}"
      using fl by (auto simp: mem_fill_image mse_set_def)
    then show ?thesis
      using c26 add[of "first_m a" "last_m a + ?n"] ok a fl by (simp add: fillInsertRange_step_def)
  next
    case c34
    have "x \<in> fill_image f l (mse_set a)" if "l < x" "x \<le> last_m a + ?n" for x
    proof (cases "x - ?n < first_m a")
      case True
      then show ?thesis using c34 ok that by (auto simp: mem_fill_image mse_set_def intro!: bexI[of _ "first_m a"])
    next
      case False
      then show ?thesis using that by (auto simp: mem_fill_image mse_set_def)
    qed
    then have "{f..last_m a + ?n} \<union> {f..l} = fill_image f l (mse_set a) \<union> {f..l}"
      using fl c34 ok by (auto simp: mem_fill_image mse_set_def)
    then show ?thesis
      using c34 add[of f "last_m a + ?n"] ok a fl by (auto simp: fillInsertRange_step_def)
  qed
qed

lemma fillInsertRange_fold:
  assumes wf: "mses_wf xs" and fl: "0 \<le> f" "f \<le> l"
    and bound: "\<forall>a\<in>set xs. last_m a + (l - f + 1) \<le> MAX_MONAD"
  shows "returns (foldM_res (fillInsertRange_step f l (l - f + 1)) SetOfMonads_empty xs)
           (\<lambda>t. som_wf t \<and> som_set t \<union> {f..l} = fill_image f l (mses_set xs) \<union> {f..l})"
proof -
  let ?R = "\<lambda>s A. som_wf s \<and> som_set s \<union> {f..l} = A \<union> {f..l}"
  have "returns (foldM_res (fillInsertRange_step f l (l - f + 1)) SetOfMonads_empty xs)
          (\<lambda>t. ?R t (foldl (\<lambda>A a. A \<union> fill_image f l (mse_set a)) {} xs))"
  proof (rule foldM_res_refines[where R = ?R])
    fix s A a
    assume "?R s A" "a \<in> set xs"
    then show "returns (fillInsertRange_step f l (l - f + 1) s a)
                 (\<lambda>s'. ?R s' (A \<union> fill_image f l (mse_set a)))"
      using fillInsertRange_step_correct[of s a l f] wf fl bound
      by (auto simp: mses_wf_def elim!: returns_mono)
  qed simp
  moreover have "foldl (\<lambda>A a. A \<union> fill_image f l (mse_set a)) {} xs = fill_image f l (mses_set xs)"
    unfolding foldl_union_image by (induction xs) (auto simp: fill_image_Un)
  ultimately show ?thesis by simp
qed

section \<open>The iterator over single monads\<close>

definition smi_ok :: "SOMConstMonadIterator \<Rightarrow> bool" where
  "smi_ok i = (case m_hint i of [] \<Rightarrow> True
     | e # _ \<Rightarrow> mses_wf (m_hint i) \<and> first_m e \<le> m_cur_monad i \<and> m_cur_monad i \<le> last_m e)"

definition smi_left :: "SOMConstMonadIterator \<Rightarrow> monad_m list" where
  "smi_left i = (case m_hint i of [] \<Rightarrow> []
     | e # es \<Rightarrow> [m_cur_monad i..last_m e] @ concat (map (\<lambda>e. [first_m e..last_m e]) es))"

lemma smi_next_correct:
  assumes ok: "smi_ok i" and more: "SOMConstMonadIterator_hasNext i"
  shows "returns (SOMConstMonadIterator_next i)
           (\<lambda>(m, i'). smi_ok i' \<and> smi_left i = m # smi_left i')"
proof -
  obtain e es where h: "m_hint i = e # es"
    using more by (cases "m_hint i") (auto simp: SOMConstMonadIterator_hasNext_def it_hasNext_def)
  have cur: "first_m e \<le> m_cur_monad i" "m_cur_monad i \<le> last_m e" and wf: "mses_wf (e # es)"
    using ok h by (auto simp: smi_ok_def)
  show ?thesis
  proof (cases "m_cur_monad i = last_m e")
    case True
    then show ?thesis
      using more h wf
      by (cases es) (auto simp: SOMConstMonadIterator_next_def it_current_def it_next_def smi_ok_def
          smi_left_def mse_ok_def upto_rec1)
  next
    case False
    then show ?thesis
      using more h wf cur
      by (auto simp: SOMConstMonadIterator_next_def it_current_def smi_ok_def smi_left_def
          upto_rec1[of "m_cur_monad i" "last_m e"])
  qed
qed

lemma smi_collect:
  "smi_ok i \<Longrightarrow> length (smi_left i) \<le> n \<Longrightarrow> SOMConstMonadIterator_collect n i = Inr (smi_left i)"
proof (induction n arbitrary: i)
  case 0
  then show ?case
    using smi_next_correct[of i]
    by (cases "m_hint i") (auto simp: smi_left_def smi_ok_def SOMConstMonadIterator_hasNext_def it_hasNext_def
        returns_iff)
next
  case (Suc n)
  show ?case
  proof (cases "SOMConstMonadIterator_hasNext i")
    case True
    then show ?thesis
      using smi_next_correct[OF Suc.prems(1) True] Suc by (auto simp: returns_iff)
  next
    case False
    then show ?thesis
      by (cases "m_hint i") (auto simp: smi_left_def SOMConstMonadIterator_hasNext_def it_hasNext_def)
  qed
qed

end
