(* ===== verification/StdMap.thy ===== *)
theory StdMap
  imports Emdros_Prelude
begin

text \<open>
  What the sources use of \<open>std::map\<close> with integer keys: the entries in ascending order of
  their keys. An iterator into the map is the map split at its position, the entries before
  it and the entries from it on; the end iterator has no entries from it on. Stepping
  before the first entry or reading at the end is an error of the model.
\<close>

type_synonym 'v stdmap = "(int \<times> 'v) list"
type_synonym 'v mapit = "'v stdmap \<times> 'v stdmap"

fun map_insert :: "int \<Rightarrow> 'v \<Rightarrow> 'v stdmap \<Rightarrow> 'v stdmap" where
  "map_insert k v [] = [(k, v)]"
| "map_insert k v ((k', v') # m) =
     (if k < k' then (k, v) # (k', v') # m
      else if k = k' then (k', v') # m
      else (k', v') # map_insert k v m)"

definition map_begin :: "'v stdmap \<Rightarrow> 'v mapit" where
  "map_begin m = ([], m)"

text \<open>The first entry whose key is greater than \<open>k\<close>.\<close>

definition map_upper_bound :: "'v stdmap \<Rightarrow> int \<Rightarrow> 'v mapit" where
  "map_upper_bound m k = (takeWhile (\<lambda>e. fst e \<le> k) m, dropWhile (\<lambda>e. fst e \<le> k) m)"

fun mapit_prev :: "'v mapit \<Rightarrow> 'v mapit res" where
  "mapit_prev (pre, post) =
     (if pre = [] then Inl NullDeref else Inr (butlast pre, last pre # post))"

fun mapit_at_begin :: "'v mapit \<Rightarrow> bool" where
  "mapit_at_begin (pre, post) \<longleftrightarrow> pre = []"

fun mapit_deref :: "'v mapit \<Rightarrow> 'v res" where
  "mapit_deref (pre, post) = (case post of [] \<Rightarrow> Inl NullDeref | e # _ \<Rightarrow> Inr (snd e))"

text \<open>\<open>if (it != begin) --it;\<close>\<close>

fun mapit_back_one :: "'v mapit \<Rightarrow> 'v mapit" where
  "mapit_back_one (pre, post) =
     (if pre = [] then (pre, post) else (butlast pre, last pre # post))"

text \<open>\<open>rbegin()->second\<close>.\<close>

definition map_rbegin :: "'v stdmap \<Rightarrow> 'v res" where
  "map_rbegin m = (if m = [] then Inl NullDeref else Inr (snd (last m)))"

text \<open>
  Insertion while an iterator to the head of \<open>post\<close> is held: the new entry goes before or
  behind it, by its key, and an entry whose key is taken is dropped.
\<close>

fun map_insert_keeping :: "int \<Rightarrow> 'v \<Rightarrow> 'v mapit \<Rightarrow> 'v mapit" where
  "map_insert_keeping k v (pre, post) =
     (if k \<in> set (map fst (pre @ post)) then (pre, post)
      else case post of [] \<Rightarrow> (map_insert k v pre, [])
           | e # _ \<Rightarrow> if k < fst e then (map_insert k v pre, post) else (pre, map_insert k v post))"

section \<open>Lemmas\<close>

lemma map_insert_split:
  "\<forall>x\<in>set ps. fst x < k \<Longrightarrow> \<forall>x\<in>set qs. k < fst x \<Longrightarrow>
   map_insert k v (ps @ qs) = ps @ (k, v) # qs"
proof (induction ps)
  case Nil
  then show ?case by (cases qs) auto
qed auto

lemma map_insert_snoc: "\<forall>x\<in>set ps. fst x < k \<Longrightarrow> map_insert k v ps = ps @ [(k, v)]"
  using map_insert_split[of ps k "[]"] by simp

lemma takeWhile_split:
  "\<forall>x\<in>set ps. P x \<Longrightarrow> qs = [] \<or> \<not> P (hd qs) \<Longrightarrow> takeWhile P (ps @ qs) = ps \<and> dropWhile P (ps @ qs) = qs"
  by (induction ps) (cases qs; auto)+

lemma map_upper_bound_split:
  "\<forall>x\<in>set ps. fst x \<le> k \<Longrightarrow> qs = [] \<or> k < fst (hd qs) \<Longrightarrow> map_upper_bound (ps @ qs) k = (ps, qs)"
  unfolding map_upper_bound_def using takeWhile_split[of ps "\<lambda>e. fst e \<le> k" qs] by auto

end
