(* ===== verification/FastSetOfMonads.thy ===== *)
theory FastSetOfMonads
  imports SetOfMonads StdMap
begin

text \<open>
  The class \<open>FastSetOfMonads\<close> of \<^verbatim>\<open>include/monads.h\<close> and \<^verbatim>\<open>EMdF/monads.cpp\<close>: the stretches
  are kept in a \<open>std::map\<close> keyed by their first monad, so that membership and overlap use
  \<open>upper_bound\<close> instead of a walk over the whole list.
\<close>

section \<open>State and iterator\<close>

record FastSetOfMonads =
  fmonad_ms :: "mse stdmap"
  fm_first :: monad_m
  fm_last :: monad_m

definition FastSOMConstIterator_new :: "FastSetOfMonads \<Rightarrow> mse stdmap" where
  "FastSOMConstIterator_new f = fmonad_ms f"

definition FastSOMConstIterator_hasNext :: "mse stdmap \<Rightarrow> bool" where
  "FastSOMConstIterator_hasNext it \<longleftrightarrow> it \<noteq> []"

definition FastSOMConstIterator_next :: "mse stdmap \<Rightarrow> (mse \<times> mse stdmap) res" where
  "FastSOMConstIterator_next it =
     (case it of [] \<Rightarrow> Inl EmdrosException | e # rest \<Rightarrow> Inr (snd e, rest))"

definition FastSOMConstIterator_current :: "mse stdmap \<Rightarrow> mse res" where
  "FastSOMConstIterator_current it =
     (case it of [] \<Rightarrow> Inl EmdrosException | e # _ \<Rightarrow> Inr (snd e))"

definition FastSetOfMonads_empty :: FastSetOfMonads where
  "FastSetOfMonads_empty = \<lparr>fmonad_ms = [], fm_first = MAX_MONAD, fm_last = 0\<rparr>"

definition FastSetOfMonads_from_SetOfMonads :: "SetOfMonads \<Rightarrow> FastSetOfMonads" where
  "FastSetOfMonads_from_SetOfMonads s =
     \<lparr>fmonad_ms = foldl (\<lambda>m e. map_insert (first_m e) e m) [] (monad_ms s),
      fm_first = m_first s, fm_last = m_last s\<rparr>"

definition FastSetOfMonads_assign :: "FastSetOfMonads \<Rightarrow> FastSetOfMonads \<Rightarrow> FastSetOfMonads" where
  "FastSetOfMonads_assign f other =
     f\<lparr>fm_first := fm_first other, fm_last := fm_last other, fmonad_ms := fmonad_ms other\<rparr>"

definition FastSetOfMonads_clear :: "FastSetOfMonads \<Rightarrow> FastSetOfMonads" where
  "FastSetOfMonads_clear f = f\<lparr>fmonad_ms := [], fm_first := MAX_MONAD, fm_last := 0\<rparr>"

definition FastSetOfMonads_isEmpty :: "FastSetOfMonads \<Rightarrow> bool" where
  "FastSetOfMonads_isEmpty f \<longleftrightarrow> fmonad_ms f = []"

definition FastSetOfMonads_hasOnlyOneMSE :: "FastSetOfMonads \<Rightarrow> bool" where
  "FastSetOfMonads_hasOnlyOneMSE f =
     (let ci = FastSOMConstIterator_new f
      in if FastSOMConstIterator_hasNext ci
         then if FastSOMConstIterator_hasNext (tl ci) then False else True
         else False)"

section \<open>Adding stretches\<close>

text \<open>
  The careful insertion: the map split at \<open>cur\<close> and the stretch built so far. The loop
  hands back the map at its end and the stretch to insert.
\<close>

fun fast_addMSE_loop :: "mse stdmap \<Rightarrow> mse stdmap \<Rightarrow> mse \<Rightarrow> mse stdmap \<times> mse" where
  "fast_addMSE_loop pre [] current_mse = (pre, current_mse)"
| "fast_addMSE_loop pre (e # rest) current_mse =
     (if mse_overlap current_mse (snd e) \<or> mse_adjacent current_mse (snd e)
      then fast_addMSE_loop pre rest (mse_subsume current_mse (snd e))
      else if mse_past (snd e) current_mse then (pre @ e # rest, current_mse)
      else fast_addMSE_loop (pre @ [e]) rest current_mse)"

definition fast_addMSE_map :: "FastSetOfMonads \<Rightarrow> mse \<Rightarrow> mse stdmap" where
  "fast_addMSE_map f e =
     (let m = fmonad_ms f
      in if FastSetOfMonads_isEmpty f then map_insert (first_m e) e m
         else if first_m e > fm_last f + 1 then map_insert (first_m e) e m
         else if first_m e \<ge> first_m (snd (last m))
              then let n = mse_subsume (snd (last m)) e
                   in map_insert (first_m n) n (butlast m)
         else if last_m e = fm_first f - 1
              then let n = mse_subsume (snd (hd m)) e
                   in map_insert (first_m n) n (tl m)
         else if last_m e < fm_first f - 1 then map_insert (first_m e) e m
         else let (pre, post) = mapit_back_one (map_upper_bound m (first_m e - 1));
                  (m', c) = fast_addMSE_loop pre post e
              in map_insert (first_m c) c m')"

text \<open>The check at the end of \<open>addMSE\<close>, and of other operations.\<close>

definition fast_bounds_check :: "FastSetOfMonads \<Rightarrow> FastSetOfMonads res" where
  "fast_bounds_check f =
     bind_res (mapit_deref (map_begin (fmonad_ms f))) (\<lambda>b.
     bind_res (map_rbegin (fmonad_ms f)) (\<lambda>r.
     bind_res (ASSERT_THROW (fm_first f = first_m b \<and> fm_last f = last_m r)) (\<lambda>_. Inr f)))"

definition FastSetOfMonads_addMSE :: "FastSetOfMonads \<Rightarrow> mse \<Rightarrow> FastSetOfMonads res" where
  "FastSetOfMonads_addMSE f e =
     fast_bounds_check
       (f\<lparr>fmonad_ms := fast_addMSE_map f e,
          fm_first := (if first_m e < fm_first f then first_m e else fm_first f),
          fm_last := (if last_m e > fm_last f then last_m e else fm_last f)\<rparr>)"

definition FastSetOfMonads_add_range ::
  "FastSetOfMonads \<Rightarrow> monad_m \<Rightarrow> monad_m \<Rightarrow> FastSetOfMonads res" where
  "FastSetOfMonads_add_range f fst_m lst_m =
     bind_res (MonadSetElement_range fst_m lst_m) (FastSetOfMonads_addMSE f)"

definition FastSetOfMonads_add :: "FastSetOfMonads \<Rightarrow> monad_m \<Rightarrow> FastSetOfMonads res" where
  "FastSetOfMonads_add f m = FastSetOfMonads_add_range f m m"

text \<open>The conversion constructor \<open>SetOfMonads(const FastSetOfMonads&)\<close>.\<close>

definition SetOfMonads_from_FastSetOfMonads :: "FastSetOfMonads \<Rightarrow> SetOfMonads" where
  "SetOfMonads_from_FastSetOfMonads f =
     foldl (\<lambda>s e. SetOfMonads_addMSE s (snd e)) SetOfMonads_empty (FastSOMConstIterator_new f)"

section \<open>Set algebra\<close>

definition FastSetOfMonads_unionWith_SetOfMonads ::
  "FastSetOfMonads \<Rightarrow> SetOfMonads \<Rightarrow> FastSetOfMonads res" where
  "FastSetOfMonads_unionWith_SetOfMonads f other =
     foldM_res FastSetOfMonads_addMSE f (monad_ms other)"

definition FastSetOfMonads_unionWith ::
  "FastSetOfMonads \<Rightarrow> FastSetOfMonads \<Rightarrow> FastSetOfMonads res" where
  "FastSetOfMonads_unionWith f other =
     foldM_res (\<lambda>s e. FastSetOfMonads_addMSE s (snd e)) f (FastSOMConstIterator_new other)"

fun fast_intersect_loop :: "mse stdmap \<Rightarrow> mse stdmap \<Rightarrow> FastSetOfMonads \<Rightarrow> FastSetOfMonads res" where
  "fast_intersect_loop (x # A) (y # B) result =
     (let a = snd x; b = snd y
      in if last_m a < first_m b then fast_intersect_loop A (y # B) result
         else if first_m a > last_m b then fast_intersect_loop (x # A) B result
         else if first_m a \<ge> first_m b \<and> last_m a \<le> last_m b
              then bind_res (FastSetOfMonads_addMSE result a)
                     (\<lambda>r. fast_intersect_loop A (y # B) r)
         else if first_m a < first_m b \<and> last_m a > last_m b
              then bind_res (FastSetOfMonads_addMSE result b)
                     (\<lambda>r. fast_intersect_loop (x # A) B r)
         else if first_m a < first_m b
              then bind_res (FastSetOfMonads_add_range result (first_m b) (last_m a))
                     (\<lambda>r. fast_intersect_loop A (y # B) r)
         else bind_res (FastSetOfMonads_add_range result (first_m a) (last_m b))
                (\<lambda>r. fast_intersect_loop (x # A) B r))"
| "fast_intersect_loop A B result = Inr result"

definition FastSetOfMonads_intersect ::
  "FastSetOfMonads \<Rightarrow> FastSetOfMonads \<Rightarrow> FastSetOfMonads res" where
  "FastSetOfMonads_intersect Aset Bset =
     (if FastSetOfMonads_isEmpty Aset \<or> FastSetOfMonads_isEmpty Bset then Inr FastSetOfMonads_empty
      else fast_intersect_loop (fmonad_ms Aset) (fmonad_ms Bset) FastSetOfMonads_empty)"

text \<open>
  The loop of \<open>removeMSE\<close>. After an erasure (case 3) the iterator is looked up again and
  stepped back, so the walk is not structural: it runs on fuel.
\<close>

fun fast_removeMSE_loop ::
  "nat \<Rightarrow> monad_m \<Rightarrow> monad_m \<Rightarrow> mse stdmap \<Rightarrow> mse stdmap \<Rightarrow> mse stdmap res" where
  "fast_removeMSE_loop n B_first B_last pre [] = Inr pre"
| "fast_removeMSE_loop 0 B_first B_last pre (x # rest) = Inl OutOfFuel"
| "fast_removeMSE_loop (Suc n) B_first B_last pre (x # rest) =
     (let a = snd x
      in if last_m a < B_first
         then fast_removeMSE_loop n B_first B_last (pre @ [x]) rest \<comment> \<open>1\<close>
         else if first_m a > B_last then Inr (pre @ x # rest) \<comment> \<open>5\<close>
         else if first_m a \<ge> B_first \<and> last_m a \<le> B_last
         then let (pre', post') = mapit_back_one (map_upper_bound (pre @ rest) B_first)
              in fast_removeMSE_loop n B_first B_last pre' post' \<comment> \<open>3\<close>
         else if first_m a < B_first \<and> last_m a > B_last
         then let t = mse_truncate a B_first B_last;
                  m' = map_insert (first_m t) t (pre @ rest)
              in bind_res (MonadSetElement_range (B_last + 1) (last_m a))
                   (\<lambda>t2. Inr (map_insert (first_m t2) t2 m')) \<comment> \<open>6\<close>
         else let t = mse_truncate a B_first B_last;
                  (pre', post') = map_insert_keeping (first_m t) t (pre, rest)
              in fast_removeMSE_loop n B_first B_last pre' post') \<comment> \<open>2 and 4\<close>"

definition FastSetOfMonads_removeMSE :: "FastSetOfMonads \<Rightarrow> mse \<Rightarrow> FastSetOfMonads res" where
  "FastSetOfMonads_removeMSE f mse_to_remove =
     (let B_first = first_m mse_to_remove; B_last = last_m mse_to_remove;
          m = fmonad_ms f
      in if FastSetOfMonads_isEmpty f then Inr f
         else let (pre, post) = mapit_back_one (map_upper_bound m B_first)
              in bind_res (fast_removeMSE_loop (2 * length m) B_first B_last pre post) (\<lambda>m'.
                   if m' = [] then Inr (f\<lparr>fmonad_ms := m', fm_first := MAX_MONAD, fm_last := 0\<rparr>)
                   else fast_bounds_check
                          (f\<lparr>fmonad_ms := m', fm_first := first_m (snd (hd m')),
                             fm_last := last_m (snd (last m'))\<rparr>)))"

definition FastSetOfMonads_difference ::
  "FastSetOfMonads \<Rightarrow> FastSetOfMonads \<Rightarrow> FastSetOfMonads res" where
  "FastSetOfMonads_difference f other =
     foldM_res (\<lambda>s e. FastSetOfMonads_removeMSE s (snd e)) f (FastSOMConstIterator_new other)"

section \<open>Membership, overlap and inclusion\<close>

definition FastSetOfMonads_isMemberOf :: "FastSetOfMonads \<Rightarrow> monad_m \<Rightarrow> bool res" where
  "FastSetOfMonads_isMemberOf f m =
     (if FastSetOfMonads_isEmpty f then Inr False
      else let ci = map_upper_bound (fmonad_ms f) (m - 1)
           in if snd ci = []
              then bind_res (map_rbegin (fmonad_ms f)) (\<lambda>r.
                   bind_res (MonadSetElement_range m m) (\<lambda>e. Inr (mse_overlap r e)))
              else bind_res (mapit_deref ci) (\<lambda>c.
                if first_m c > m
                then if mapit_at_begin ci then Inr False
                     else bind_res (mapit_prev ci) (\<lambda>ci'.
                          bind_res (mapit_deref ci') (\<lambda>p.
                            Inr (if first_m p \<le> m \<and> m \<le> last_m p then True else False)))
                else if last_m c < m then Inr False
                else Inr True))"

definition FastSetOfMonads_hasMonadsInRange ::
  "FastSetOfMonads \<Rightarrow> monad_m \<Rightarrow> monad_m \<Rightarrow> bool res" where
  "FastSetOfMonads_hasMonadsInRange f fst_m lst_m =
     (if FastSetOfMonads_isEmpty f then Inr False
      else if fm_first f > lst_m then Inr False
      else if fm_last f < fst_m then Inr False
      else let ci = map_upper_bound (fmonad_ms f) (fst_m - 1)
           in bind_res (MonadSetElement_range fst_m lst_m) (\<lambda>other.
                if snd ci = []
                then bind_res (map_rbegin (fmonad_ms f)) (\<lambda>r. Inr (mse_overlap r other))
                else bind_res (mapit_deref ci) (\<lambda>c.
                  if first_m c > lst_m
                  then bind_res (mapit_prev ci) (\<lambda>ci'.
                       bind_res (mapit_deref ci') (\<lambda>p.
                         Inr (if mse_overlap p other then True else False)))
                  else if first_m c \<le> fst_m then Inr (mse_overlap c other)
                  else Inr True)))"

primrec fast_overlap_loop :: "FastSetOfMonads \<Rightarrow> mse list \<Rightarrow> bool res" where
  "fast_overlap_loop Bset [] = Inr False"
| "fast_overlap_loop Bset (a # A) =
     bind_res (FastSetOfMonads_hasMonadsInRange Bset (first_m a) (last_m a))
       (\<lambda>b. if b then Inr True else fast_overlap_loop Bset A)"

definition FastSetOfMonads_overlap :: "SetOfMonads \<Rightarrow> FastSetOfMonads \<Rightarrow> bool res" where
  "FastSetOfMonads_overlap Aset Bset =
     (if SetOfMonads_isEmpty Aset \<or> FastSetOfMonads_isEmpty Bset then Inr False
      else fast_overlap_loop Bset (monad_ms Aset))"

text \<open>The search at the end of \<open>subsumesRange\<close>, and the whole method.\<close>

definition fast_subsumesRange_search :: "FastSetOfMonads \<Rightarrow> mse \<Rightarrow> bool res" where
  "fast_subsumesRange_search f rng =
     (let ci = map_upper_bound (fmonad_ms f) (first_m rng - 1)
      in if snd ci = []
         then bind_res (map_rbegin (fmonad_ms f)) (\<lambda>r. Inr (mse_subsumes r rng))
         else bind_res (mapit_deref ci) (\<lambda>c.
           if first_m c > last_m rng
           then bind_res (mapit_prev ci) (\<lambda>ci'.
                bind_res (mapit_deref ci') (\<lambda>p. Inr (mse_subsumes p rng)))
           else Inr (mse_subsumes c rng)))"

definition FastSetOfMonads_subsumesRange :: "FastSetOfMonads \<Rightarrow> mse \<Rightarrow> bool res" where
  "FastSetOfMonads_subsumesRange f rng =
     (if FastSetOfMonads_isEmpty f then Inr False
      else if fm_first f \<le> first_m rng \<and> last_m rng \<le> fm_last f
      then if FastSetOfMonads_hasOnlyOneMSE f then Inr True else fast_subsumesRange_search f rng
      else if fm_first f > last_m rng then Inr False
      else if fm_last f < first_m rng then Inr False
      else fast_subsumesRange_search f rng)"

primrec fast_part_of_loop :: "FastSetOfMonads \<Rightarrow> mse list \<Rightarrow> bool res" where
  "fast_part_of_loop other [] = Inr True"
| "fast_part_of_loop other (a # A) =
     bind_res (FastSetOfMonads_subsumesRange other a)
       (\<lambda>b. if \<not> b then Inr False else fast_part_of_loop other A)"

definition SetOfMonads_part_of_Fast :: "SetOfMonads \<Rightarrow> FastSetOfMonads \<Rightarrow> bool res" where
  "SetOfMonads_part_of_Fast s other =
     (if m_first s \<ge> fm_first other \<and> m_last s \<le> fm_last other
      then if FastSetOfMonads_hasOnlyOneMSE other then Inr True
           else fast_part_of_loop other (monad_ms s)
      else Inr False)"

definition FastSetOfMonads_gapExists ::
  "FastSetOfMonads \<Rightarrow> monad_m \<Rightarrow> monad_m \<Rightarrow> (bool \<times> monad_m) res" where
  "FastSetOfMonads_gapExists f Sm m =
     (if Sm < fm_first f \<or> Sm > fm_last f then Inr (False, m)
      else if FastSetOfMonads_hasOnlyOneMSE f then Inr (False, m)
      else let ci = map_upper_bound (fmonad_ms f) Sm
           in if snd ci = [] then Inr (False, m)
              else bind_res (mapit_deref ci) (\<lambda>c.
                if first_m c > Sm
                then bind_res (mapit_prev ci) (\<lambda>ci'.
                     bind_res (mapit_deref ci') (\<lambda>p. Inr (last_m p + 1 = Sm, first_m c - 1)))
                else if first_m c = Sm then Inr (False, m)
                else if last_m c \<ge> Sm then Inr (False, m)
                else if last_m c + 1 = Sm
                then (case tl (snd ci) of [] \<Rightarrow> Inr (False, m)
                      | e # _ \<Rightarrow> Inr (True, first_m (snd e) - 1))
                else Inr (False, m)))"

section \<open>Listing, comparing, gaps, shifting\<close>

definition FastSetOfMonads_getCardinality :: "FastSetOfMonads \<Rightarrow> int" where
  "FastSetOfMonads_getCardinality f =
     foldl (\<lambda>c e. c + (1 + last_m (snd e) - first_m (snd e))) 0 (FastSOMConstIterator_new f)"

definition FastSetOfMonads_getMonad_mVector :: "FastSetOfMonads \<Rightarrow> monad_m list" where
  "FastSetOfMonads_getMonad_mVector f =
     foldl (\<lambda>out e. out @ [first_m (snd e)..last_m (snd e)]) [] (FastSOMConstIterator_new f)"

fun fast_operator_eq_loop :: "mse stdmap \<Rightarrow> mse stdmap \<Rightarrow> bool" where
  "fast_operator_eq_loop (u # us) (t # ts) =
     (if \<not> mse_equals (snd u) (snd t) then False else fast_operator_eq_loop us ts)"
| "fast_operator_eq_loop us ts = (us = [] \<and> ts = [])"

definition FastSetOfMonads_operator_eq :: "FastSetOfMonads \<Rightarrow> FastSetOfMonads \<Rightarrow> bool" where
  "FastSetOfMonads_operator_eq f other =
     (if FastSetOfMonads_isEmpty f then FastSetOfMonads_isEmpty other
      else if fm_first f \<noteq> fm_first other \<or> fm_last f \<noteq> fm_last other then False
      else fast_operator_eq_loop (FastSOMConstIterator_new f) (FastSOMConstIterator_new other))"

primrec fast_hasLargerGap_loop :: "monad_m \<Rightarrow> monad_m \<Rightarrow> mse stdmap \<Rightarrow> bool" where
  "fast_hasLargerGap_loop than_this prev_monad [] = False"
| "fast_hasLargerGap_loop than_this prev_monad (e # ci) =
     (if first_m (snd e) - prev_monad > than_this then True
      else fast_hasLargerGap_loop than_this (last_m (snd e)) ci)"

definition FastSetOfMonads_hasLargerGap :: "FastSetOfMonads \<Rightarrow> monad_m \<Rightarrow> bool" where
  "FastSetOfMonads_hasLargerGap f than_this =
     (if FastSetOfMonads_isEmpty f then False
      else if fm_last f - fm_first f < than_this then False
      else if FastSetOfMonads_hasOnlyOneMSE f then False
      else case FastSOMConstIterator_new f of [] \<Rightarrow> False
           | e # ci \<Rightarrow> fast_hasLargerGap_loop than_this (last_m (snd e)) ci)"

primrec fast_fillGaps_loop ::
  "monad_m \<Rightarrow> FastSetOfMonads \<Rightarrow> monad_m \<Rightarrow> mse stdmap \<Rightarrow> FastSetOfMonads res" where
  "fast_fillGaps_loop min_gap result prev_last [] = Inr result"
| "fast_fillGaps_loop min_gap result prev_last (x # ci) =
     (let e = snd x
      in bind_res (if first_m e - prev_last - 1 \<ge> min_gap then FastSetOfMonads_addMSE result e
                   else FastSetOfMonads_add_range result prev_last (last_m e))
           (\<lambda>r. fast_fillGaps_loop min_gap r (last_m e) ci))"

definition FastSetOfMonads_fillGaps :: "FastSetOfMonads \<Rightarrow> monad_m \<Rightarrow> FastSetOfMonads res" where
  "FastSetOfMonads_fillGaps f min_gap =
     (case fmonad_ms f of [] \<Rightarrow> Inr FastSetOfMonads_empty
      | x # ci \<Rightarrow>
          bind_res (FastSetOfMonads_addMSE FastSetOfMonads_empty (snd x))
            (\<lambda>r. fast_fillGaps_loop min_gap r (last_m (snd x)) ci))"

definition FastSetOfMonads_offset :: "FastSetOfMonads \<Rightarrow> monad_m \<Rightarrow> FastSetOfMonads res" where
  "FastSetOfMonads_offset f m =
     bind_res (foldM_res (\<lambda>s e. FastSetOfMonads_addMSE s (mse_offset (snd e) m))
                 FastSetOfMonads_empty (FastSOMConstIterator_new f))
       (\<lambda>fsom. Inr (FastSetOfMonads_assign f fsom))"

text \<open>
  \<open>removeMonadsBefore\<close>: \<open>it->second.first_m = monad\<close> changes the stretch stored under a key
  and not the key.
\<close>

definition mse_set_first :: "mse \<Rightarrow> monad_m \<Rightarrow> mse" where
  "mse_set_first e m = MSE m (last_m e)"

definition FastSetOfMonads_removeMonadsBefore ::
  "FastSetOfMonads \<Rightarrow> monad_m \<Rightarrow> FastSetOfMonads res" where
  "FastSetOfMonads_removeMonadsBefore f monad =
     (if FastSetOfMonads_isEmpty f \<or> fm_last f < monad then Inr FastSetOfMonads_empty
      else if fm_first f \<le> monad - 1
      then let (pre, post) = map_upper_bound (fmonad_ms f) (monad - 1)
           in case post of
                [] \<Rightarrow>
                  bind_res (map_rbegin (fmonad_ms f)) (\<lambda>r.
                  bind_res (FastSetOfMonads_add_range (FastSetOfMonads_clear f) monad (last_m r))
                    (\<lambda>g. fast_bounds_check (g\<lparr>fm_first := monad, fm_last := last_m r\<rparr>)))
              | x # rest \<Rightarrow>
                  if first_m (snd x) > monad
                  then bind_res (mapit_prev (pre, post)) (\<lambda>(pre', post').
                       case post' of [] \<Rightarrow> Inl NullDeref
                       | y # _ \<Rightarrow>
                           if first_m (snd y) > monad then Inl EmdrosException
                           else if last_m (snd y) < monad
                           then fast_bounds_check
                                  (f\<lparr>fmonad_ms := post, fm_first := first_m (snd (hd post)),
                                     fm_last := last_m (snd (last post))\<rparr>)
                           else fast_bounds_check
                                  (f\<lparr>fmonad_ms := (fst y, mse_set_first (snd y) monad) # post,
                                     fm_first := monad\<rparr>))
                  else if last_m (snd x) < monad
                  then fast_bounds_check
                         (f\<lparr>fmonad_ms := post, fm_first := first_m (snd x)\<rparr>)
                  else fast_bounds_check
                         (f\<lparr>fmonad_ms := (fst x, mse_set_first (snd x) monad) # rest,
                            fm_first := monad\<rparr>)
      else fast_bounds_check f)"

end
