(* ===== verification/FastSetOfMonads_Props.thy ===== *)
theory FastSetOfMonads_Props
  imports SetOfMonads_Props FastSetOfMonads
begin

text \<open>
  Correctness of \<open>FastSetOfMonads\<close>: the invariant (the stretches of the map form a
  well-formed list, each stored under its first monad, and the cached bounds are right) and,
  for each operation, that it keeps the invariant, throws nothing, and computes the
  same set as the list implementation.
\<close>

section \<open>Invariant and abstraction\<close>

definition keyed :: "mse list \<Rightarrow> mse stdmap" where
  "keyed xs = map (\<lambda>e. (first_m e, e)) xs"

definition fsom_list :: "FastSetOfMonads \<Rightarrow> mse list" where
  "fsom_list f = map snd (fmonad_ms f)"

definition fsom_set :: "FastSetOfMonads \<Rightarrow> monad_m set" where
  "fsom_set f = mses_set (fsom_list f)"

definition fsom_wf :: "FastSetOfMonads \<Rightarrow> bool" where
  "fsom_wf f \<longleftrightarrow> mses_wf (fsom_list f) \<and> fmonad_ms f = keyed (fsom_list f) \<and>
     bounds_ok (fsom_list f) (fm_first f) (fm_last f)"

lemma keyed_simps [simp]:
  "keyed [] = []" "keyed (a # xs) = (first_m a, a) # keyed xs" "keyed (xs @ ys) = keyed xs @ keyed ys"
  "keyed xs = [] \<longleftrightarrow> xs = []" "map snd (keyed xs) = xs" "length (keyed xs) = length xs"
  by (simp_all add: keyed_def comp_def)

lemma keyed_ends [simp]:
  "xs \<noteq> [] \<Longrightarrow> hd (keyed xs) = (first_m (hd xs), hd xs)"
  "xs \<noteq> [] \<Longrightarrow> last (keyed xs) = (first_m (last xs), last xs)"
  "tl (keyed xs) = keyed (tl xs)" "butlast (keyed xs) = keyed (butlast xs)"
  by (simp_all add: keyed_def hd_map last_map map_tl map_butlast)

lemma set_keyed [simp]: "set (keyed xs) = (\<lambda>e. (first_m e, e)) ` set xs"
  by (simp add: keyed_def)

lemma gap_before_first: "mse_ok a \<Longrightarrow> gap_before a b \<Longrightarrow> first_m a < first_m b"
  by (simp add: gap_before_def mse_ok_def)

text \<open>Inserting a stretch between the ones before and the ones after it.\<close>

lemma map_insert_keyed:
  assumes "mses_wf (ps @ e # qs)"
  shows "map_insert (first_m e) e (keyed (ps @ qs)) = keyed (ps @ e # qs)"
proof -
  have "\<forall>x\<in>set (keyed ps). fst x < first_m e" "\<forall>x\<in>set (keyed qs). first_m e < fst x"
    using assms by (auto simp: mses_wf_def sorted_wrt_append intro: gap_before_first)
  then show ?thesis by (simp add: map_insert_split)
qed

text \<open>Where \<open>upper_bound\<close> splits a well-formed map.\<close>

lemma upper_bound_keyed:
  assumes "mses_wf xs"
  obtains ps qs where "xs = ps @ qs" "map_upper_bound (keyed xs) k = (keyed ps, keyed qs)"
    "\<forall>p\<in>set ps. first_m p \<le> k" "\<forall>q\<in>set qs. k < first_m q"
proof -
  let ?P = "\<lambda>e. first_m e \<le> k"
  let ?ps = "takeWhile ?P xs" and ?qs = "dropWhile ?P xs"
  have split: "xs = ?ps @ ?qs" by simp
  have hd: "?qs = [] \<or> k < first_m (hd ?qs)"
    using hd_dropWhile[of ?P xs] by force
  have wf: "mses_wf ?qs" using assms split by (metis mses_wf_append)
  have qs: "\<forall>q\<in>set ?qs. k < first_m q"
  proof (cases ?qs)
    case Nil
    show ?thesis unfolding Nil by simp
  next
    case (Cons q qs)
    then show ?thesis
      using wf hd gap_before_first[of q] by force
  qed
  have "map_upper_bound (keyed ?ps @ keyed ?qs) k = (keyed ?ps, keyed ?qs)"
  proof (rule map_upper_bound_split)
    show "\<forall>x\<in>set (keyed ?ps). fst x \<le> k" by (auto dest: set_takeWhileD)
    show "keyed ?qs = [] \<or> k < fst (hd (keyed ?qs))"
      using hd keyed_ends(1)[of ?qs] keyed_simps(4)[of ?qs] by (metis fst_conv)
  qed
  then have "map_upper_bound (keyed xs) k = (keyed ?ps, keyed ?qs)"
    using split by (metis keyed_simps(3))
  moreover have "\<forall>p\<in>set ?ps. first_m p \<le> k" by (auto dest: set_takeWhileD)
  ultimately show thesis using split qs that by blast
qed

lemma fsom_wfI:
  "mses_wf xs \<Longrightarrow> bounds_ok xs (fm_first f) (fm_last f) \<Longrightarrow> fmonad_ms f = keyed xs \<Longrightarrow>
   fsom_wf f \<and> fsom_list f = xs"
  by (simp add: fsom_wf_def fsom_list_def)

lemma fsom_wfE:
  assumes "fsom_wf f"
  obtains xs where "fmonad_ms f = keyed xs" "fsom_list f = xs" "mses_wf xs"
    "bounds_ok xs (fm_first f) (fm_last f)"
  using assms by (auto simp: fsom_wf_def)

text \<open>The check of the cached bounds passes on a well-formed, non-empty map.\<close>

lemma fast_bounds_check_ok:
  "fmonad_ms f = keyed xs \<Longrightarrow> xs \<noteq> [] \<Longrightarrow> bounds_ok xs (fm_first f) (fm_last f) \<Longrightarrow>
   fast_bounds_check f = Inr f"
  by (cases xs) (auto simp: fast_bounds_check_def map_begin_def map_rbegin_def bounds_ok_def)

section \<open>Adding a stretch\<close>

lemma fast_addMSE_loop_keyed:
  assumes "mses_wf (pre @ rest)" "mse_ok cm" "\<forall>p\<in>set pre. gap_before p cm"
  shows "\<exists>ps qs c. fast_addMSE_loop (keyed pre) (keyed rest) cm = (keyed (ps @ qs), c) \<and>
           addMSE_insert pre rest cm = ps @ c # qs"
  using assms
proof (induction rest arbitrary: pre cm)
  case Nil
  have "fast_addMSE_loop (keyed pre) (keyed []) cm = (keyed (pre @ []), cm)"
    "addMSE_insert pre [] cm = pre @ cm # []" by simp_all
  then show ?case by blast
next
  case (Cons it rest)
  let ?touch = "mse_overlap cm it \<or> mse_adjacent cm it"
  have ok: "mse_ok it" using Cons.prems by auto
  consider (touch) "?touch" | (past) "\<not> ?touch" "mse_past it cm"
    | (skip) "\<not> ?touch" "\<not> mse_past it cm" by blast
  then show ?case
  proof cases
    case touch
    have "\<forall>p\<in>set pre. gap_before p (mse_subsume cm it)"
      using Cons.prems by (auto simp: gap_before_def)
    then show ?thesis
      using touch Cons.IH[of pre "mse_subsume cm it"] Cons.prems ok by auto
  next
    case past
    then have "fast_addMSE_loop (keyed pre) (keyed (it # rest)) cm = (keyed (pre @ it # rest), cm)"
      "addMSE_insert pre (it # rest) cm = pre @ cm # it # rest" by auto
    then show ?thesis by blast
  next
    case skip
    then have "gap_before it cm"
      using ok Cons.prems(2) by (auto simp: gap_before_def mse_simps mse_ok_def)
    then show ?thesis
      using skip Cons.IH[of "pre @ [it]" cm] Cons.prems by auto
  qed
qed

text \<open>The careful branch: start one entry before \<open>upper_bound\<close>, then as in the list.\<close>

lemma fast_addMSE_careful:
  assumes wf: "mses_wf xs" and ok: "mse_ok e"
    and split: "mapit_back_one (map_upper_bound (keyed xs) (first_m e - 1)) = (pre, post)"
    and loop: "fast_addMSE_loop pre post e = (m, c)"
  shows "\<exists>ys. map_insert (first_m c) c m = keyed ys \<and> mses_wf ys \<and>
           mses_set ys = mses_set xs \<union> mse_set e"
proof -
  obtain ps qs where xs: "xs = ps @ qs" and ub: "map_upper_bound (keyed xs) (first_m e - 1) = (keyed ps, keyed qs)"
    and ps: "\<forall>p\<in>set ps. first_m p \<le> first_m e - 1"
    using upper_bound_keyed[OF wf] by blast
  define us where "us = butlast ps"
  define vs where "vs = (if ps = [] then qs else last ps # qs)"
  have parts: "xs = us @ vs" "pre = keyed us" "post = keyed vs"
    using xs ub split by (auto simp: us_def vs_def split: if_splits)
  have "\<forall>p\<in>set us. gap_before p e"
  proof (cases ps rule: rev_cases)
    case (snoc zs z)
    then have "\<forall>p\<in>set us. gap_before p z" "first_m z \<le> first_m e - 1"
      using wf xs ps by (auto simp: us_def)
    then show ?thesis by (auto simp: gap_before_def)
  qed (simp add: us_def)
  moreover have "mses_wf (us @ vs)" using wf parts by simp
  ultimately obtain as bs where "fast_addMSE_loop pre post e = (keyed (as @ bs), c)"
    "addMSE_insert us vs e = as @ c # bs"
    "mses_wf (as @ c # bs)" "mses_set (as @ c # bs) = mses_set (us @ vs) \<union> mse_set e"
    using fast_addMSE_loop_keyed[of us vs e] addMSE_insert_correct[of us vs e] ok parts loop
    by (metis Pair_inject)
  then show ?thesis
    using map_insert_keyed[of as c bs] parts loop by (intro exI[of _ "as @ c # bs"]) simp
qed


lemma map_insert_last:
  assumes "mses_wf (xs @ [e])"
  shows "map_insert (first_m e) e (keyed xs) = keyed (xs @ [e])"
  using map_insert_keyed[of xs e "[]"] assms by simp

lemma map_insert_first:
  assumes "mses_wf (e # xs)"
  shows "map_insert (first_m e) e (keyed xs) = keyed (e # xs)"
  using map_insert_keyed[of "[]" e xs] assms by simp

lemma fast_addMSE_map_correct:
  assumes f: "fsom_wf f" and ok: "mse_ok e"
  shows "\<exists>ys. fast_addMSE_map f e = keyed ys \<and> mses_wf ys \<and> mses_set ys = fsom_set f \<union> mse_set e"
proof -
  obtain xs where m: "fmonad_ms f = keyed xs" and l: "fsom_list f = xs" and wf: "mses_wf xs"
    and b: "bounds_ok xs (fm_first f) (fm_last f)" using f by (rule fsom_wfE)
  note defs = fast_addMSE_map_def FastSetOfMonads_isEmpty_def fsom_set_def m l Let_def
  consider (snoc) "xs = [] \<or> first_m e > fm_last f + 1"
    | (extend) "xs \<noteq> []" "\<not> first_m e > fm_last f + 1" "first_m e \<ge> first_m (last xs)"
    | (front) "xs \<noteq> []" "\<not> first_m e > fm_last f + 1" "\<not> first_m e \<ge> first_m (last xs)"
        "last_m e = fm_first f - 1"
    | (before) "xs \<noteq> []" "\<not> first_m e > fm_last f + 1" "\<not> first_m e \<ge> first_m (last xs)"
        "last_m e < fm_first f - 1"
    | (careful) "xs \<noteq> []" "\<not> first_m e > fm_last f + 1" "\<not> first_m e \<ge> first_m (last xs)"
        "last_m e > fm_first f - 1"
    by linarith
  then show ?thesis
  proof cases
    case snoc
    then have "xs = [] \<or> first_m e > last_m (last xs) + 1"
      using b by (auto simp: bounds_ok_def split: if_splits)
    then have "mses_wf (xs @ [e])" using mses_wf_push_back[OF wf ok] by simp
    then show ?thesis
      using snoc map_insert_last[of xs e]
      by (intro exI[of _ "xs @ [e]"]) (auto simp: defs)
  next
    case extend
    then have "mses_wf (butlast xs @ [mse_subsume (last xs) e]) \<and>
       mses_set (butlast xs @ [mse_subsume (last xs) e]) = mses_set xs \<union> mse_set e"
      using mses_wf_subsume_last[of "butlast xs" "last xs" e] wf ok b by (simp add: bounds_ok_def)
    moreover from this have "map_insert (first_m (mse_subsume (last xs) e)) (mse_subsume (last xs) e)
       (keyed (butlast xs)) = keyed (butlast xs @ [mse_subsume (last xs) e])"
      using map_insert_last by blast
    ultimately show ?thesis
      using extend by (intro exI[of _ "butlast xs @ [mse_subsume (last xs) e]"]) (simp add: defs)
  next
    case front
    then have "mses_wf (mse_subsume (hd xs) e # tl xs) \<and>
       mses_set (mse_subsume (hd xs) e # tl xs) = mses_set xs \<union> mse_set e"
      using mses_wf_subsume_first[of "hd xs" "tl xs" e] wf ok b by (simp add: bounds_ok_def)
    moreover from this have "map_insert (first_m (mse_subsume (hd xs) e)) (mse_subsume (hd xs) e)
       (keyed (tl xs)) = keyed (mse_subsume (hd xs) e # tl xs)"
      using map_insert_first by blast
    ultimately show ?thesis
      using front by (intro exI[of _ "mse_subsume (hd xs) e # tl xs"]) (simp add: defs)
  next
    case before
    then have "\<forall>q\<in>set xs. gap_before e q"
      using wf b by (cases xs) (force simp: gap_before_def bounds_ok_def mse_ok_def)+
    then have "mses_wf (e # xs)" using wf ok by simp
    then show ?thesis
      using before map_insert_first[of e xs]
      by (intro exI[of _ "e # xs"]) (auto simp: defs)
  next
    case careful
    obtain pre post mm c where
      "mapit_back_one (map_upper_bound (keyed xs) (first_m e - 1)) = (pre, post)"
      "fast_addMSE_loop pre post e = (mm, c)"
      by (metis surj_pair)
    then show ?thesis
      using careful fast_addMSE_careful[OF wf ok, of pre post mm c] by (simp add: defs)
  qed
qed

lemma fast_addMSE_returns:
  assumes "fsom_wf f" "mse_ok e"
  shows "returns (FastSetOfMonads_addMSE f e)
           (\<lambda>g. fsom_wf g \<and> fsom_set g = fsom_set f \<union> mse_set e)"
proof -
  obtain ys where ys: "fast_addMSE_map f e = keyed ys" "mses_wf ys"
    "mses_set ys = fsom_set f \<union> mse_set e"
    using fast_addMSE_map_correct[OF assms] by blast
  have ne: "ys \<noteq> []" using ys mse_ok_nonempty[OF assms(2)] by auto
  let ?g = "f\<lparr>fmonad_ms := fast_addMSE_map f e,
          fm_first := (if first_m e < fm_first f then first_m e else fm_first f),
          fm_last := (if last_m e > fm_last f then last_m e else fm_last f)\<rparr>"
  have b: "bounds_ok ys (fm_first ?g) (fm_last ?g)"
    using bounds_ok_add[of "fsom_list f" "fm_first f" "fm_last f" ys e] assms ys
    by (simp add: fsom_wf_def fsom_set_def)
  then have "FastSetOfMonads_addMSE f e = Inr ?g"
    unfolding FastSetOfMonads_addMSE_def
    using ys(1) ne by (intro fast_bounds_check_ok[of _ ys]) simp_all
  then show ?thesis
    using fsom_wfI[OF ys(2) b] ys by (simp add: fsom_set_def)
qed

lemma fast_add_range_returns:
  assumes "fsom_wf f" "0 \<le> u" "u \<le> v" "v \<le> MAX_MONAD"
  shows "returns (FastSetOfMonads_add_range f u v)
           (\<lambda>g. fsom_wf g \<and> fsom_set g = fsom_set f \<union> {u..v})"
  using fast_addMSE_returns[of f "MSE u v"] assms by (simp add: FastSetOfMonads_add_range_def)

lemma fsom_wf_empty [simp]: "fsom_wf FastSetOfMonads_empty"
  by (simp add: fsom_wf_def FastSetOfMonads_empty_def fsom_list_def bounds_ok_def)

lemma fsom_set_empty [simp]: "fsom_set FastSetOfMonads_empty = {}"
  by (simp add: fsom_set_def FastSetOfMonads_empty_def fsom_list_def)

lemma fsom_unique: "fsom_wf f \<Longrightarrow> fsom_wf g \<Longrightarrow> fsom_set f = fsom_set g \<Longrightarrow> f = g"
  using mses_unique[of "fsom_list f" "fsom_list g"]
  by (cases f; cases g) (auto simp: fsom_wf_def fsom_set_def bounds_ok_def split: if_splits)


section \<open>Removing a stretch\<close>

lemma back_one_keyed:
  "mapit_back_one (keyed ps, keyed qs) =
     (if ps = [] then ([], keyed qs) else (keyed (butlast ps), keyed (last ps # qs)))"
  by simp

text \<open>After an erasure the iterator comes back to the entry before the erased one.\<close>

lemma upper_bound_again:
  assumes "\<forall>p\<in>set pre. first_m p \<le> k" "\<forall>q\<in>set rest. k < first_m q"
  shows "map_upper_bound (keyed pre @ keyed rest) k = (keyed pre, keyed rest)"
  by (rule map_upper_bound_split) (use assms in \<open>cases rest; auto\<close>)+

lemma map_insert_keeping_keyed:
  assumes "mses_wf (pre @ e # rs)"
  shows "map_insert_keeping (first_m e) e (keyed pre, keyed rs) = (keyed (pre @ [e]), keyed rs)"
proof -
  have lt: "\<forall>p\<in>set pre. first_m p < first_m e" "\<forall>q\<in>set rs. first_m e < first_m q"
    using assms by (auto simp: mses_wf_def sorted_wrt_append intro: gap_before_first)
  have "map_insert (first_m e) e (keyed pre) = keyed (pre @ [e])"
    using map_insert_last[of pre e] assms by simp
  then show ?thesis using lt by (cases rs) (auto simp: keyed_def)
qed

lemma fast_removeMSE_stop:
  "rs \<noteq> [] \<longrightarrow> 0 < n \<and> l < first_m (hd rs) \<and> f \<le> last_m (hd rs) \<Longrightarrow>
   fast_removeMSE_loop n f l (keyed pre) (keyed rs) = Inr (keyed (pre @ rs))"
  by (cases rs; cases n) auto

text \<open>
  Each entry costs one step, an erased entry two; the entries before the iterator end
  before the removed range, or the walk is past it.
\<close>

lemma fast_removeMSE_loop_correct:
  assumes "mses_wf (pre @ rest)" "f \<le> l" "\<forall>p\<in>set pre. last_m p < f"
    "2 * length rest \<le> n"
  shows "returns (fast_removeMSE_loop n f l (keyed pre) (keyed rest)) (\<lambda>m. \<exists>ys. m = keyed ys \<and>
           mses_wf ys \<and> mses_set ys = mses_set (pre @ rest) - {f..l})"
  using assms
proof (induction "length rest" arbitrary: pre rest n rule: less_induct)
  case (less rest pre n)
  have pre: "mses_set pre \<inter> {f..l} = {}"
    using less.prems(3) by (force simp: mem_mses_set)
  show ?case
  proof (cases rest)
    case Nil
    then show ?thesis using less.prems pre by (intro returns_iff[THEN iffD2] exI[of _ "keyed pre"]) auto
  next
    case (Cons a rs)
    obtain n' where n: "n = Suc n'" "2 * length rs + 1 \<le> n'"
      using less.prems(4) Cons by (cases n) auto
    have wf: "mses_wf (pre @ a # rs)" and fl: "f \<le> l" using less.prems Cons by auto
    have wfa: "mses_wf (a # rs)" and ok: "mse_ok a" using wf by auto
    have rs: "x \<in> mses_set rs \<Longrightarrow> last_m a + 1 < x" for x
      using wfa by (auto dest: mses_set_after)
    have IH: "returns (fast_removeMSE_loop n' f l (keyed pre') (keyed rs)) (\<lambda>m. \<exists>ys. m = keyed ys \<and>
           mses_wf ys \<and> mses_set ys = mses_set (pre' @ rs) - {f..l})"
      if "mses_wf (pre' @ rs)" "\<forall>p\<in>set pre'. last_m p < f" for pre'
      using less.hyps[of rs pre' n'] that Cons n fl by simp
    consider (c1) "last_m a < f" | (c5) "first_m a > l" | (c3) "first_m a \<ge> f" "last_m a \<le> l"
      | (c6) "first_m a < f" "last_m a > l" | (c2) "first_m a < f" "f \<le> last_m a" "last_m a \<le> l"
      | (c4) "f \<le> first_m a" "first_m a \<le> l" "last_m a > l"
      using ok by (auto simp: mse_ok_def) linarith
    then show ?thesis
    proof cases
      case c1
      then show ?thesis
        using IH[of "pre @ [a]"] wf less.prems(3) n Cons by (simp add: Let_def)
    next
      case c5
      have "mses_set (a # rs) \<inter> {f..l} = {}" using c5 mses_first_le[OF wfa] by fastforce
      then have "mses_set (pre @ a # rs) - {f..l} = mses_set (pre @ a # rs)" using pre by auto
      moreover have "\<not> last_m a < f" using c5 ok fl by (auto simp: mse_ok_def)
      ultimately show ?thesis
        using c5 wf n Cons by (auto simp: Let_def intro!: exI[of _ "pre @ a # rs"])
    next
      case c3
      have a: "mse_set a - {f..l} = {}" using c3 by (auto simp: mse_set_def)
      then have set: "mses_set (pre @ a # rs) - {f..l} = mses_set (pre @ rs) - {f..l}" by auto
      have "\<forall>q\<in>set rs. f < first_m q"
        using wf c3 ok by (force simp: gap_before_def mse_ok_def)
      moreover have "\<forall>p\<in>set pre. first_m p \<le> f"
        using wf less.prems(3) by (force simp: mse_ok_def mses_wf_def)
      ultimately have ub: "map_upper_bound (keyed pre @ keyed rs) f = (keyed pre, keyed rs)"
        by (intro upper_bound_again)
      have again: "fast_removeMSE_loop n f l (keyed pre) (keyed rest) =
          (let (pre', post') = mapit_back_one (keyed pre, keyed rs)
           in fast_removeMSE_loop n' f l pre' post')"
        using c3 ok n Cons fl ub by (auto simp: Let_def mse_ok_def)
      have more: "fast_removeMSE_loop n f l (keyed pre) (keyed rest) =
          (if pre = [] then fast_removeMSE_loop n' f l [] (keyed rs)
           else fast_removeMSE_loop (n' - 1) f l (keyed pre) (keyed rs))"
        using again less.prems(3) n(2) by (cases pre rule: rev_cases; cases n') (auto simp: Let_def)
      show ?thesis
      proof (cases "pre = []")
        case True
        then show ?thesis using IH[of "[]"] more set wf by (simp add: Cons)
      next
        case False
        have "returns (fast_removeMSE_loop (n' - 1) f l (keyed pre) (keyed rs)) (\<lambda>m. \<exists>ys. m = keyed ys \<and>
             mses_wf ys \<and> mses_set ys = mses_set (pre @ rs) - {f..l})"
          using less.hyps[of rs pre "n' - 1"] wf less.prems(3) Cons n fl by simp
        with False more set show ?thesis by (simp add: Cons)
      qed
    next
      case c6
      let ?t = "MSE (first_m a) (f - 1)" and ?n = "MSE (l + 1) (last_m a)"
      have "mse_set a - {f..l} = mse_set ?t \<union> mse_set ?n" using c6 fl by (auto simp: mse_set_def)
      moreover have "mses_set rs \<inter> {f..l} = {}" using c6 rs by fastforce
      ultimately have set: "mses_set (pre @ ?t # ?n # rs) = mses_set (pre @ a # rs) - {f..l}"
        using pre by auto
      have ys: "mses_wf (pre @ ?t # ?n # rs)"
        using wf c6 ok fl by (auto simp: gap_before_def mse_ok_def)
      have "map_insert (first_m ?t) ?t (keyed (pre @ rs)) = keyed (pre @ ?t # rs)"
        by (rule map_insert_keyed) (use ys in auto)
      moreover have "map_insert (first_m ?n) ?n (keyed ((pre @ [?t]) @ rs)) = keyed ((pre @ [?t]) @ ?n # rs)"
        by (rule map_insert_keyed) (use ys in auto)
      ultimately have "fast_removeMSE_loop n f l (keyed pre) (keyed rest) = Inr (keyed (pre @ ?t # ?n # rs))"
        using c6 n Cons fl by (simp add: Let_def mse_truncate_def)
      then show ?thesis using ys set Cons by (auto intro!: exI[of _ "pre @ ?t # ?n # rs"])
    next
      case c2
      let ?t = "MSE (first_m a) (f - 1)"
      have tr: "mse_truncate a f l = ?t" using c2 by (simp add: mse_truncate_def)
      have "mse_set a - {f..l} = mse_set ?t" using c2 by (auto simp: mse_set_def)
      then have set: "mses_set ((pre @ [?t]) @ rs) - {f..l} = mses_set (pre @ a # rs) - {f..l}"
        by auto
      have ys: "mses_wf ((pre @ [?t]) @ rs)"
        using wf c2 ok fl by (auto simp: gap_before_def mse_ok_def)
      have "map_insert_keeping (first_m ?t) ?t (keyed pre, keyed rs) = (keyed (pre @ [?t]), keyed rs)"
        by (rule map_insert_keeping_keyed) (use ys in simp)
      then have "fast_removeMSE_loop n f l (keyed pre) (keyed rest) =
          fast_removeMSE_loop n' f l (keyed (pre @ [?t])) (keyed rs)"
        using c2 n Cons tr fl by (simp add: Let_def del: map_insert_keeping.simps)
      then show ?thesis
        using IH[of "pre @ [?t]"] ys set less.prems(3) Cons by simp
    next
      case c4
      let ?t = "MSE (l + 1) (last_m a)"
      have tr: "mse_truncate a f l = ?t" using c4 by (simp add: mse_truncate_def)
      have "mse_set a - {f..l} = mse_set ?t" using c4 by (auto simp: mse_set_def)
      moreover have "mses_set rs \<inter> {f..l} = {}" using c4 rs by fastforce
      ultimately have set: "mses_set ((pre @ [?t]) @ rs) = mses_set (pre @ a # rs) - {f..l}"
        using pre by auto
      have ys: "mses_wf ((pre @ [?t]) @ rs)"
        using wf c4 ok fl by (auto simp: gap_before_def mse_ok_def)
      have "map_insert_keeping (first_m ?t) ?t (keyed pre, keyed rs) = (keyed (pre @ [?t]), keyed rs)"
        by (rule map_insert_keeping_keyed) (use ys in simp)
      then have "fast_removeMSE_loop n f l (keyed pre) (keyed rest) =
          fast_removeMSE_loop n' f l (keyed (pre @ [?t])) (keyed rs)"
        using c4 n Cons tr fl by (simp add: Let_def del: map_insert_keeping.simps)
      also have "\<dots> = Inr (keyed (pre @ ?t # rs))"
      proof -
        have "rs \<noteq> [] \<longrightarrow> 0 < n' \<and> l < first_m (hd rs) \<and> f \<le> last_m (hd rs)"
          using c4 wfa n(2) by (cases rs) (auto simp: gap_before_def mse_ok_def)
        from fast_removeMSE_stop[OF this, of "pre @ [?t]"] show ?thesis by simp
      qed
      finally show ?thesis using ys set Cons by (auto intro!: exI[of _ "pre @ ?t # rs"])
    qed
  qed
qed


lemma fast_removeMSE_returns:
  assumes f: "fsom_wf f" and e: "mse_ok e"
  shows "returns (FastSetOfMonads_removeMSE f e)
           (\<lambda>g. fsom_wf g \<and> fsom_set g = fsom_set f - mse_set e)"
proof -
  obtain xs where m: "fmonad_ms f = keyed xs" and l: "fsom_list f = xs" and wf: "mses_wf xs"
    using f by (rule fsom_wfE)
  show ?thesis
  proof (cases "xs = []")
    case True
    then show ?thesis
      using f m l by (simp add: FastSetOfMonads_removeMSE_def FastSetOfMonads_isEmpty_def fsom_set_def)
  next
    case False
    obtain ps qs where xs: "xs = ps @ qs"
      and ub: "map_upper_bound (keyed xs) (first_m e) = (keyed ps, keyed qs)"
      and ps: "\<forall>p\<in>set ps. first_m p \<le> first_m e"
      using upper_bound_keyed[OF wf] by blast
    define us where "us = butlast ps"
    define vs where "vs = (if ps = [] then qs else last ps # qs)"
    have parts: "xs = us @ vs" "mapit_back_one (keyed ps, keyed qs) = (keyed us, keyed vs)"
      using xs by (auto simp: us_def vs_def)
    have us: "\<forall>p\<in>set us. last_m p < first_m e"
      using wf xs ps by (cases ps rule: rev_cases) (auto simp: us_def gap_before_def)
    have "2 * length vs \<le> 2 * length xs" using parts by simp
    from fast_removeMSE_loop_correct[of us vs "first_m e" "last_m e" "2 * length xs", OF _ _ us this] obtain ys where
      loop: "fast_removeMSE_loop (2 * length xs) (first_m e) (last_m e) (keyed us) (keyed vs) = Inr (keyed ys)"
      and ys: "mses_wf ys" "mses_set ys = mses_set xs - mse_set e"
      using wf e parts by (auto simp: returns_iff mse_ok_def mse_set_def)
    let ?g = "f\<lparr>fmonad_ms := keyed ys, fm_first := first_m (hd ys), fm_last := last_m (last ys)\<rparr>"
    have chk: "ys \<noteq> [] \<Longrightarrow> fast_bounds_check ?g = Inr ?g"
      by (rule fast_bounds_check_ok[of _ ys]) (simp_all add: bounds_ok_def)
    show ?thesis
    proof (cases "ys = []")
      case True
      then show ?thesis
        using False m l ub parts loop ys
        by (auto simp: FastSetOfMonads_removeMSE_def FastSetOfMonads_isEmpty_def fsom_set_def
            fsom_wf_def fsom_list_def bounds_ok_def Let_def simp del: mapit_back_one.simps)
    next
      case ne: False
      then have "FastSetOfMonads_removeMSE f e = Inr ?g"
        using False m ub parts loop chk
        by (auto simp: FastSetOfMonads_removeMSE_def FastSetOfMonads_isEmpty_def Let_def
            simp del: mapit_back_one.simps)
      then show ?thesis
        using fsom_wfI[of ys ?g] ys ne l by (simp add: fsom_set_def bounds_ok_def)
    qed
  qed
qed

section \<open>The contract\<close>

interpretation fsm: monad_set FastSetOfMonads_empty FastSetOfMonads_addMSE
  FastSetOfMonads_removeMSE fsom_list fsom_wf
proof unfold_locales
  show "s = t" if "fsom_wf s" "fsom_wf t" "fsom_list s = fsom_list t" for s t
    using fsom_unique[of s t] that by (simp add: fsom_set_def)
  show "returns (FastSetOfMonads_addMSE s e)
      (\<lambda>t. fsom_wf t \<and> mses_set (fsom_list t) = mses_set (fsom_list s) \<union> mse_set e)"
    if "fsom_wf s" "mse_ok e" for s e
    using fast_addMSE_returns[OF that] by (simp add: fsom_set_def)
  show "returns (FastSetOfMonads_removeMSE s e)
      (\<lambda>t. fsom_wf t \<and> mses_set (fsom_list t) = mses_set (fsom_list s) - mse_set e)"
    if "fsom_wf s" "mse_ok e" for s e
    using fast_removeMSE_returns[OF that] by (simp add: fsom_set_def)
  show "fsom_list FastSetOfMonads_empty = []"
    by (simp add: FastSetOfMonads_empty_def fsom_list_def)
qed (simp, simp add: fsom_wf_def)

section \<open>Set algebra\<close>

lemma foldM_res_map: "foldM_res (\<lambda>s e. f s (g e)) s xs = foldM_res f s (map g xs)"
  by (induction xs arbitrary: s) auto

lemma fast_intersect_loop_correct:
  assumes "mses_wf A" "mses_wf B" "fsom_wf r"
  shows "returns (fast_intersect_loop (keyed A) (keyed B) r)
           (\<lambda>t. fsom_wf t \<and> fsom_set t = fsom_set r \<union> (mses_set A \<inter> mses_set B))"
  unfolding fsom_set_def
proof (rule fsm.intersect_spec[where L = "\<lambda>A B. fast_intersect_loop (keyed A) (keyed B)"])
  show "fast_intersect_loop (keyed A) (keyed []) r = Inr r" for A r by (cases A) simp_all
qed (use assms in \<open>simp_all add: FastSetOfMonads_add_range_def Let_def\<close>)

lemma fast_fillGaps_loop_correct:
  assumes "mses_wf (a # xs)" "fsom_wf r" "mse_set a \<subseteq> fsom_set r"
  shows "returns (fast_fillGaps_loop g r (last_m a) (keyed xs)) (\<lambda>t. fsom_wf t \<and>
           fsom_set t = fsom_set r \<union> mses_set xs \<union> small_gaps (mses_set (a # xs)) g)"
  unfolding fsom_set_def
  by (rule fsm.fillGaps_spec[where F = "\<lambda>r p xs. fast_fillGaps_loop g r p (keyed xs)" and g = g])
    (use assms in \<open>simp_all add: FastSetOfMonads_add_range_def fsom_set_def Let_def\<close>)


section \<open>Membership, overlap and inclusion\<close>

lemma fast_hasOnlyOneMSE_iff:
  "fmonad_ms f = keyed xs \<Longrightarrow> FastSetOfMonads_hasOnlyOneMSE f \<longleftrightarrow> (\<exists>a. xs = [a])"
  by (cases xs) (auto simp: FastSetOfMonads_hasOnlyOneMSE_def FastSOMConstIterator_new_def
      FastSOMConstIterator_hasNext_def Let_def)

lemma mses_not_in: "\<forall>q\<in>set qs. k < first_m q \<Longrightarrow> x \<le> k \<Longrightarrow> x \<notin> mses_set qs"
  by (force simp: mem_mses_set)

text \<open>
  A monad of a well-formed list split by \<open>upper_bound(m)\<close> is in the last stretch before
  the split or nowhere.
\<close>

lemma mem_split:
  assumes wf: "mses_wf (ps @ qs)" and ps: "\<forall>p\<in>set ps. first_m p \<le> m" and qs: "\<forall>q\<in>set qs. m < first_m q"
  shows "m \<in> mses_set (ps @ qs) \<longleftrightarrow> ps \<noteq> [] \<and> m \<le> last_m (last ps)"
proof (cases ps rule: rev_cases)
  case Nil
  then show ?thesis using mses_not_in[OF qs] by simp
next
  case (snoc us u)
  have "\<forall>p\<in>set us. last_m p < m"
    using wf ps snoc by (force simp: gap_before_def)
  then have "m \<notin> mses_set us" by (force simp: mem_mses_set)
  then show ?thesis
    using snoc ps mses_not_in[OF qs, of m] by (auto simp: mse_set_def)
qed

lemma fast_isMemberOf_correct:
  assumes "fsom_wf f"
  shows "FastSetOfMonads_isMemberOf f m = Inr (m \<in> fsom_set f)"
proof -
  obtain xs where m: "fmonad_ms f = keyed xs" and l: "fsom_list f = xs" and wf: "mses_wf xs"
    using assms by (rule fsom_wfE)
  note defs = FastSetOfMonads_isMemberOf_def FastSetOfMonads_isEmpty_def fsom_set_def m l Let_def
  obtain ps qs where xs: "xs = ps @ qs"
    and ub: "map_upper_bound (keyed xs) (m - 1) = (keyed ps, keyed qs)"
    and ps: "\<forall>p\<in>set ps. first_m p \<le> m - 1" and qs: "\<forall>q\<in>set qs. m - 1 < first_m q"
    using upper_bound_keyed[OF wf] by blast
  have psm: "\<forall>p\<in>set ps. first_m p \<le> m" using ps by auto
  show ?thesis
  proof (cases "qs \<noteq> [] \<and> first_m (hd qs) = m")
    case True
    then obtain q qs' where q: "qs = q # qs'" "first_m q = m" by (cases qs) auto
    have "mse_ok q" using wf xs q by simp
    then show ?thesis
      using ub xs q by (auto simp: defs mse_set_def mse_ok_def)
  next
    case False
    have qs': "\<forall>q\<in>set qs. m < first_m q"
    proof (cases qs)
      case (Cons q rs)
      then have "m < first_m q" using False qs by force
      moreover have "\<forall>r\<in>set rs. first_m q < first_m r"
        using wf xs Cons by (auto intro: gap_before_first)
      ultimately show ?thesis using Cons by force
    qed simp
    have mem: "m \<in> mses_set xs \<longleftrightarrow> ps \<noteq> [] \<and> m \<le> last_m (last ps)"
      using mem_split[of ps qs m] wf xs psm qs' by simp
    show ?thesis
    proof (cases qs)
      case Nil
      then show ?thesis
        using ub xs mem psm by (cases ps rule: rev_cases) (auto simp: defs map_rbegin_def mse_simps)
    next
      case (Cons q rs)
      then show ?thesis
        using ub xs mem psm qs' by (cases ps rule: rev_cases) (auto simp: defs)
    qed
  qed
qed

lemma fast_hasMonadsInRange_correct:
  assumes "fsom_wf f" "u \<le> v"
  shows "FastSetOfMonads_hasMonadsInRange f u v = Inr (fsom_set f \<inter> {u..v} \<noteq> {})"
proof -
  obtain xs where m: "fmonad_ms f = keyed xs" and l: "fsom_list f = xs" and wf: "mses_wf xs"
    and b: "bounds_ok xs (fm_first f) (fm_last f)" using assms(1) by (rule fsom_wfE)
  note defs = FastSetOfMonads_hasMonadsInRange_def FastSetOfMonads_isEmpty_def fsom_set_def m l Let_def
  show ?thesis
  proof (cases "xs = [] \<or> fm_first f > v \<or> fm_last f < u")
    case True
    then have "mses_set xs \<inter> {u..v} = {}"
      using b wf mses_first_le[OF wf] mses_le_last[OF wf]
      by (auto simp: bounds_ok_def split: if_splits) fastforce+
    with True show ?thesis by (auto simp: defs)
  next
    case False
    then have ne: "xs \<noteq> []" and fv: "first_m (hd xs) \<le> v" and lu: "u \<le> last_m (last xs)"
      using b by (auto simp: bounds_ok_def)
    obtain ps qs where xs: "xs = ps @ qs"
      and ub: "map_upper_bound (keyed xs) (u - 1) = (keyed ps, keyed qs)"
      and ps: "\<forall>p\<in>set ps. first_m p \<le> u - 1" and qs: "\<forall>q\<in>set qs. u - 1 < first_m q"
      using upper_bound_keyed[OF wf] by blast
    have okp: "\<forall>p\<in>set xs. mse_ok p" using wf by (simp add: mses_wf_def)
    show ?thesis
    proof (cases qs)
      case Nil
      then obtain us p where p: "ps = us @ [p]" using ne xs by (cases ps rule: rev_cases) auto
      then have "u \<in> mses_set xs" "mse_overlap p (MSE u v)"
        using Nil xs lu ps assms(2) by (auto simp: mse_set_def mse_simps)
      then show ?thesis using False ub xs Nil p assms(2) by (auto simp: defs map_rbegin_def)
    next
      case (Cons q rs)
      show ?thesis
      proof (cases "first_m q \<le> v")
        case True
        have "mse_ok q" using okp xs Cons by simp
        then have "first_m q \<in> mses_set xs \<inter> {u..v}" "mse_overlap q (MSE u v)"
          using True xs Cons qs by (auto simp: mse_set_def mse_ok_def mse_simps)
        then show ?thesis using False True ub xs Cons assms(2) by (auto simp: defs)
      next
        case gt: False
        then obtain us p where p: "ps = us @ [p]" using fv xs Cons by (cases ps rule: rev_cases) auto
        have qs': "\<forall>q'\<in>set qs. v < first_m q'"
          using gt wf xs Cons gap_before_first by (force simp: mses_wf_def sorted_wrt_append)
        have us: "\<forall>r\<in>set us. last_m r < u"
          using wf xs p ps by (force simp: gap_before_def)
        have "mses_set us \<inter> {u..v} = {}" "mses_set qs \<inter> {u..v} = {}"
          using us qs' by (force simp: mem_mses_set)+
        then have "mses_set xs \<inter> {u..v} \<noteq> {} \<longleftrightarrow> mse_set p \<inter> {u..v} \<noteq> {}"
          using xs p by auto
        also have "\<dots> \<longleftrightarrow> mse_overlap p (MSE u v)"
          using okp xs p assms(2) by (auto simp: mse_set_def mse_simps mse_ok_def)
        finally show ?thesis
          using False gt ub xs Cons p assms(2) by (auto simp: defs)
      qed
    qed
  qed
qed


text \<open>The stretch \<open>subsumesRange\<close> looks at is the only one that can contain the range.\<close>

lemma subsumes_candidate:
  assumes wf: "mses_wf (ps @ qs)" and r: "first_m r \<le> last_m r"
    and ps: "\<forall>p\<in>set ps. first_m p < first_m r" and qs: "\<forall>q\<in>set qs. first_m r \<le> first_m q"
  shows "(\<exists>a\<in>set (ps @ qs). mse_subsumes a r) \<longleftrightarrow>
         (if qs \<noteq> [] \<and> first_m (hd qs) \<le> last_m r then mse_subsumes (hd qs) r
          else ps \<noteq> [] \<and> mse_subsumes (last ps) r)"
proof -
  have in_ps: "a = last ps" if mem: "a \<in> set ps" and sub: "mse_subsumes a r" for a
  proof (rule ccontr)
    assume "a \<noteq> last ps"
    then obtain us p where us: "ps = us @ [p]" "a \<in> set us"
      using mem by (cases ps rule: rev_cases) auto
    then have "last_m a + 1 < first_m p" "first_m p < first_m r" using wf ps by (auto simp: gap_before_def)
    then show False using sub r by (auto simp: mse_simps)
  qed
  have in_qs: "a = hd qs \<and> first_m a = first_m r" if "a \<in> set qs" "mse_subsumes a r" for a
  proof (cases qs)
    case (Cons q rs)
    have "first_m a = first_m r" using that qs by (auto simp: mse_simps)
    moreover have "a \<notin> set rs"
    proof
      assume "a \<in> set rs"
      then have "first_m q < first_m a" using wf Cons by (auto intro: gap_before_first)
      then show False using \<open>first_m a = first_m r\<close> qs Cons by auto
    qed
    ultimately show ?thesis using that Cons by auto
  qed (use that in simp)
  have excl: "\<not> first_m (hd qs) \<le> last_m r" if "ps \<noteq> []" "mse_subsumes (last ps) r" "qs \<noteq> []"
  proof -
    have "gap_before (last ps) (hd qs)" using wf that by simp
    then show ?thesis using that by (auto simp: gap_before_def mse_simps)
  qed
  show ?thesis
  proof
    assume "\<exists>a\<in>set (ps @ qs). mse_subsumes a r"
    then obtain a where a: "a \<in> set ps \<or> a \<in> set qs" "mse_subsumes a r" by auto
    from a(1) show "if qs \<noteq> [] \<and> first_m (hd qs) \<le> last_m r then mse_subsumes (hd qs) r
          else ps \<noteq> [] \<and> mse_subsumes (last ps) r"
    proof
      assume mem: "a \<in> set ps"
      then have "ps \<noteq> []" "mse_subsumes (last ps) r" using in_ps[OF mem a(2)] a(2) by auto
      then show ?thesis using excl by auto
    next
      assume "a \<in> set qs"
      then show ?thesis using in_qs a(2) r by auto
    qed
  next
    assume "if qs \<noteq> [] \<and> first_m (hd qs) \<le> last_m r then mse_subsumes (hd qs) r
          else ps \<noteq> [] \<and> mse_subsumes (last ps) r"
    then show "\<exists>a\<in>set (ps @ qs). mse_subsumes a r"
      by (auto split: if_splits intro: bexI[of _ "hd qs"] bexI[of _ "last ps"])
  qed
qed

lemma fast_subsumesRange_correct:
  assumes f: "fsom_wf f" and r: "first_m r \<le> last_m r"
  shows "FastSetOfMonads_subsumesRange f r = Inr (mse_set r \<subseteq> fsom_set f)"
proof -
  obtain xs where m: "fmonad_ms f = keyed xs" and l: "fsom_list f = xs" and wf: "mses_wf xs"
    and b: "bounds_ok xs (fm_first f) (fm_last f)" using f by (rule fsom_wfE)
  obtain ps qs where xs: "xs = ps @ qs"
    and ub: "map_upper_bound (keyed xs) (first_m r - 1) = (keyed ps, keyed qs)"
    and ps: "\<forall>p\<in>set ps. first_m p \<le> first_m r - 1" and qs: "\<forall>q\<in>set qs. first_m r - 1 < first_m q"
    using upper_bound_keyed[OF wf] by blast
  define ans where "ans \<longleftrightarrow> (\<exists>a\<in>set xs. mse_subsumes a r)"
  have ans: "mse_set r \<subseteq> fsom_set f \<longleftrightarrow> ans"
    unfolding ans_def fsom_set_def l by (rule range_in_one_stretch[OF wf r])
  have ps': "\<forall>p\<in>set ps. first_m p < first_m r" and qs': "\<forall>q\<in>set qs. first_m r \<le> first_m q"
    using ps qs by (meson zle_diff1_eq, force)
  have cand: "ans \<longleftrightarrow>
         (if qs \<noteq> [] \<and> first_m (hd qs) \<le> last_m r then mse_subsumes (hd qs) r
          else ps \<noteq> [] \<and> mse_subsumes (last ps) r)"
    unfolding ans_def xs by (rule subsumes_candidate[OF _ r ps' qs']) (use wf xs in simp)
  note defs = FastSetOfMonads_subsumesRange_def FastSetOfMonads_isEmpty_def m
    fast_hasOnlyOneMSE_iff[OF m]
  show ?thesis
  proof (cases "xs = [] \<or> fm_first f > last_m r \<or> fm_last f < first_m r")
    case True
    then have "\<not> ans"
      using b wf mses_first_le[OF wf] mses_le_last[OF wf] r
      by (auto simp: ans_def mse_simps bounds_ok_def mem_mses_set split: if_splits) force+
    then show ?thesis
      using True r b by (auto simp: defs ans bounds_ok_def split: if_splits)
  next
    case False
    then have ne: "xs \<noteq> []" and fv: "first_m (hd xs) \<le> last_m r"
      using b by (auto simp: bounds_ok_def)
    have psne: "ps \<noteq> []" if "\<not> (qs \<noteq> [] \<and> first_m (hd qs) \<le> last_m r)"
      using that fv ne xs by (cases ps) auto
    have search: "fast_subsumesRange_search f r = Inr ans"
    proof (cases "qs \<noteq> [] \<and> first_m (hd qs) \<le> last_m r")
      case True
      then show ?thesis
        using cand ub by (cases qs) (auto simp: fast_subsumesRange_search_def m)
    next
      case no: False
      then obtain us p where p: "ps = us @ [p]" using psne by (cases ps rule: rev_cases) auto
      have "ans = mse_subsumes p r" using cand no p by auto
      then show ?thesis
        using ub no p xs by (cases qs) (auto simp: fast_subsumesRange_search_def m map_rbegin_def)
    qed
    have one: "ans" if "xs = [a]" "fm_first f \<le> first_m r" "last_m r \<le> fm_last f" for a
      using that b by (auto simp: ans_def bounds_ok_def mse_simps)
    show ?thesis
      using False ne one search unfolding ans by (auto simp: defs)
  qed
qed


lemma fast_part_of_loop_correct:
  "fsom_wf f \<Longrightarrow> \<forall>a\<in>set xs. mse_ok a \<Longrightarrow>
   fast_part_of_loop f xs = Inr (mses_set xs \<subseteq> fsom_set f)"
  by (induction xs) (auto simp: fast_subsumesRange_correct mse_ok_def)

lemma part_of_Fast_correct:
  assumes s: "som_wf s" and f: "fsom_wf f"
  shows "SetOfMonads_part_of_Fast s f = Inr (som_set s \<subseteq> fsom_set f)"
proof -
  obtain xs where m: "fmonad_ms f = keyed xs" and l: "fsom_list f = xs" and wf: "mses_wf xs"
    and b: "bounds_ok xs (fm_first f) (fm_last f)" using f by (rule fsom_wfE)
  have wfs: "mses_wf (monad_ms s)" and bs: "bounds_ok (monad_ms s) (m_first s) (m_last s)"
    using s by (auto simp: som_wf_def)
  have sne: "monad_ms s \<noteq> [] \<Longrightarrow> m_first s \<in> som_set s \<and> m_last s \<in> som_set s"
    using bs mses_first_in[OF wfs] mses_last_in[OF wfs] by (auto simp: bounds_ok_def som_set_def)
  have loop: "fast_part_of_loop f (monad_ms s) = Inr (som_set s \<subseteq> fsom_set f)"
    using fast_part_of_loop_correct[OF f] wfs by (simp add: som_set_def mses_wf_def)
  show ?thesis
  proof (cases "m_first s \<ge> fm_first f \<and> m_last s \<le> fm_last f")
    case inside: True
    have "som_set s \<subseteq> fsom_set f" if one: "xs = [a]" for a
      using mses_first_le[OF wfs] mses_le_last[OF wfs] bs b inside one l
      by (cases "monad_ms s = []") (force simp: som_set_def fsom_set_def bounds_ok_def mse_set_def)+
    then show ?thesis
      using inside loop by (auto simp: SetOfMonads_part_of_Fast_def fast_hasOnlyOneMSE_iff[OF m])
  next
    case out: False
    have "monad_ms s \<noteq> [] \<and> \<not> som_set s \<subseteq> fsom_set f"
    proof (cases "monad_ms s = []")
      case True
      have "xs \<noteq> [] \<Longrightarrow> mse_ok (hd xs) \<and> mse_ok (last xs)" using wf by (auto simp: mses_wf_def)
      then have "fm_first f \<le> MAX_MONAD \<and> 0 \<le> fm_last f"
        using b by (cases "xs = []") (auto simp: bounds_ok_def mse_ok_def)
      then show ?thesis using True bs out by (simp add: bounds_ok_def)
    next
      case False
      then show ?thesis
        using sne out mses_first_le[OF wf] mses_le_last[OF wf] b l
        by (cases "xs = []") (force simp: fsom_set_def bounds_ok_def)+
    qed
    then show ?thesis using out by (auto simp: SetOfMonads_part_of_Fast_def)
  qed
qed

lemma fast_overlap_correct:
  assumes "som_wf s" "fsom_wf f"
  shows "FastSetOfMonads_overlap s f = Inr (som_set s \<inter> fsom_set f \<noteq> {})"
proof -
  have loop: "fast_overlap_loop f xs = Inr (mses_set xs \<inter> fsom_set f \<noteq> {})"
    if "\<forall>a\<in>set xs. mse_ok a" for xs
    using that assms(2)
    by (induction xs) (auto simp: fast_hasMonadsInRange_correct mse_ok_def mse_set_def)
  show ?thesis
    using loop[of "monad_ms s"] assms
    by (auto simp: FastSetOfMonads_overlap_def SetOfMonads_isEmpty_def FastSetOfMonads_isEmpty_def
        som_set_def fsom_set_def fsom_list_def som_wf_def mses_wf_def)
qed

section \<open>Listing, comparing, gaps, shifting\<close>

lemma foldl_map_snd: "foldl (\<lambda>a e. g a (snd e)) a m = foldl g a (map snd m)"
  by (induction m arbitrary: a) auto

lemma foldl_getCardinality: "foldl (\<lambda>c e. c + (1 + last_m e - first_m e)) c xs = getCardinality_loop c xs"
  by (induction xs arbitrary: c) auto

lemma foldl_getMonad_mList: "foldl (\<lambda>out e. out @ [first_m e..last_m e]) out xs = getMonad_mList_loop out xs"
  by (induction xs arbitrary: out) auto

lemma fast_operator_eq_loop_iff: "fast_operator_eq_loop us ts \<longleftrightarrow> map snd us = map snd ts"
  by (induction us ts rule: fast_operator_eq_loop.induct) auto

lemma fast_operator_eq_iff:
  assumes "fsom_wf f" "fsom_wf g"
  shows "FastSetOfMonads_operator_eq f g \<longleftrightarrow> fsom_set f = fsom_set g"
proof -
  have "FastSetOfMonads_operator_eq f g \<longleftrightarrow> fsom_list f = fsom_list g"
    using assms
    by (auto simp: FastSetOfMonads_operator_eq_def FastSetOfMonads_isEmpty_def fsom_wf_def bounds_ok_def
        fast_operator_eq_loop_iff FastSOMConstIterator_new_def fsom_list_def split: if_splits)
  also have "\<dots> \<longleftrightarrow> fsom_set f = fsom_set g"
    using assms mses_unique by (auto simp: fsom_wf_def fsom_set_def)
  finally show ?thesis .
qed

lemma fast_hasLargerGap_loop_eq: "fast_hasLargerGap_loop t p (keyed xs) = hasLargerGap_loop t p xs"
  by (induction xs arbitrary: p) auto

lemma fast_gapExists_correct:
  assumes f: "fsom_wf f"
  shows "returns (FastSetOfMonads_gapExists f Sm m) (\<lambda>(b, m').
           (b \<longleftrightarrow> (\<exists>l. gap_of (fsom_set f) Sm l)) \<and> (b \<longrightarrow> gap_of (fsom_set f) Sm m'))"
proof -
  obtain xs where mm: "fmonad_ms f = keyed xs" and l: "fsom_list f = xs" and wf: "mses_wf xs"
    and b: "bounds_ok xs (fm_first f) (fm_last f)" using f by (rule fsom_wfE)
  have S: "fsom_set f = mses_set xs" by (simp add: fsom_set_def l)
  note defs = FastSetOfMonads_gapExists_def fast_hasOnlyOneMSE_iff[OF mm] mm S Let_def
  show ?thesis
  proof (cases "Sm < fm_first f \<or> Sm > fm_last f \<or> (\<exists>a. xs = [a])")
    case True
    then have "\<not> gap_of (mses_set xs) Sm k" for k
      using b mses_first_le[OF wf, of "Sm - 1"] mses_le_last[OF wf, of "k + 1"]
      by (cases "xs = []") (auto simp: gap_of_def[of "mses_set xs"] bounds_ok_def simp del: gap_of_single,
          auto simp: mse_set_def)
    with True show ?thesis by (auto simp: defs)
  next
    case False
    have ne: "xs \<noteq> []"
      using False b by (auto simp: bounds_ok_def MAX_MONAD_def)
    have ends: "first_m (hd xs) \<le> Sm" "Sm \<le> last_m (last xs)" "\<not> (\<exists>a. xs = [a])"
      using False b ne by (auto simp: bounds_ok_def)
    obtain ps qs where xs: "xs = ps @ qs"
      and ub: "map_upper_bound (keyed xs) Sm = (keyed ps, keyed qs)"
      and ps: "\<forall>p\<in>set ps. first_m p \<le> Sm" and qs: "\<forall>q\<in>set qs. Sm < first_m q"
      using upper_bound_keyed[OF wf] by blast
    have "ps \<noteq> []"
    proof
      assume "ps = []"
      then have "hd xs \<in> set qs" using ne xs by simp
      then show False using qs ends(1) by auto
    qed
    then obtain us p where p: "ps = us @ [p]" by (cases ps rule: rev_cases) auto
    have start: "Sm = last_m p + 1" if gap: "gap_of (mses_set xs) Sm k" for k
    proof -
      obtain a where a: "a \<in> set xs" "Sm = last_m a + 1" using gap_of_start[OF gap] by blast
      have "mse_ok a" using a wf by (simp add: mses_wf_def)
      then have "a \<in> set ps" using a qs xs by (force simp: mse_ok_def)
      moreover have "a \<notin> set us" using a wf xs p ps by (force simp: gap_before_def)
      ultimately show ?thesis using a p by simp
    qed
    show ?thesis
    proof (cases qs)
      case Nil
      have "Sm \<in> mses_set xs" using ends ps xs Nil p by (auto simp: mse_set_def)
      then have "\<not> gap_of (mses_set xs) Sm k" for k by (auto simp: gap_of_def)
      then show ?thesis using False ends ub Nil by (auto simp: defs)
    next
      case (Cons q rs)
      have "gap_of (mses_set xs) (last_m p + 1) (first_m q - 1)"
        using gap_of_mid[of us p q rs] wf xs p Cons by simp
      then show ?thesis
        using False ends ub Cons p qs start by (auto simp: defs)
    qed
  qed
qed

section \<open>Dropping the monads before a given one\<close>

text \<open>
  The stretches and the bounds of the result are right; the keys need not be, so only the
  list part of the invariant is claimed.
\<close>

lemma fast_bounds_check_list:
  "fmonad_ms f \<noteq> [] \<Longrightarrow> bounds_ok (fsom_list f) (fm_first f) (fm_last f) \<Longrightarrow> fast_bounds_check f = Inr f"
  by (cases "fmonad_ms f") (auto simp: fast_bounds_check_def map_begin_def map_rbegin_def bounds_ok_def
      fsom_list_def last_map)

lemma mses_filter_split:
  assumes wf: "mses_wf (ps @ qs)" and ps: "\<forall>p\<in>set ps. first_m p \<le> k - 1" and qs: "\<forall>q\<in>set qs. k - 1 < first_m q"
  shows "{x \<in> mses_set (ps @ qs). k \<le> x} =
     (if ps \<noteq> [] \<and> k \<le> last_m (last ps) then {k..last_m (last ps)} else {}) \<union> mses_set qs"
proof (cases ps rule: rev_cases)
  case Nil
  then show ?thesis using qs by (force simp: mem_mses_set)
next
  case (snoc us u)
  have "\<forall>p\<in>set us. last_m p < k" using wf ps snoc by (force simp: gap_before_def)
  then have "{x \<in> mses_set us. k \<le> x} = {}" by (force simp: mem_mses_set)
  moreover have "{x \<in> mses_set qs. k \<le> x} = mses_set qs" using qs by (force simp: mem_mses_set)
  moreover have "{x \<in> mse_set u. k \<le> x} = (if k \<le> last_m u then {k..last_m u} else {})"
    using ps snoc by (auto simp: mse_set_def)
  ultimately show ?thesis using snoc by auto
qed


definition fsom_list_wf :: "FastSetOfMonads \<Rightarrow> bool" where
  "fsom_list_wf f \<longleftrightarrow> mses_wf (fsom_list f) \<and> bounds_ok (fsom_list f) (fm_first f) (fm_last f)"

lemma fsom_list_wfI: "mses_wf xs \<Longrightarrow> map snd m = xs \<Longrightarrow> bounds_ok xs u v \<Longrightarrow>
    fsom_list_wf \<lparr>fmonad_ms = m, fm_first = u, fm_last = v\<rparr>"
  by (simp add: fsom_list_wf_def fsom_list_def)

lemma returns_bounds_check:
  "fmonad_ms g \<noteq> [] \<Longrightarrow> fsom_list_wf g \<Longrightarrow> fsom_set g = S \<Longrightarrow>
   returns (fast_bounds_check g) (\<lambda>g. fsom_list_wf g \<and> fsom_set g = S)"
  by (simp add: fast_bounds_check_list fsom_list_wf_def)

lemma removeMonadsBefore_correct:
  assumes f: "fsom_wf f"
  shows "returns (FastSetOfMonads_removeMonadsBefore f monad)
           (\<lambda>g. fsom_list_wf g \<and> fsom_set g = {x \<in> fsom_set f. monad \<le> x})"
proof -
  obtain xs where m: "fmonad_ms f = keyed xs" and l: "fsom_list f = xs" and wf: "mses_wf xs"
    and b: "bounds_ok xs (fm_first f) (fm_last f)" using f by (rule fsom_wfE)
  have S: "fsom_set f = mses_set xs" by (simp add: fsom_set_def l)
  have fwf: "fsom_list_wf f" using wf b l by (simp add: fsom_list_wf_def)
  note def = FastSetOfMonads_removeMonadsBefore_def FastSetOfMonads_isEmpty_def m
  show ?thesis
  proof (cases "xs = [] \<or> fm_last f < monad")
    case True
    then have "{x \<in> mses_set xs. monad \<le> x} = {}"
      using mses_le_last[OF wf] b by (cases "xs = []") (force simp: bounds_ok_def)+
    then show ?thesis using True
      by (auto simp: def S fsom_list_wf_def FastSetOfMonads_empty_def fsom_list_def bounds_ok_def fsom_set_def)
  next
    case ne: False
    then have e: "fm_first f = first_m (hd xs)" "fm_last f = last_m (last xs)" "xs \<noteq> []"
      using b by (auto simp: bounds_ok_def)
    show ?thesis
    proof (cases "fm_first f \<le> monad - 1")
      case False
      then have "{x \<in> fsom_set f. monad \<le> x} = fsom_set f"
        using mses_first_le[OF wf] e S by fastforce
      then show ?thesis using False ne fwf m returns_bounds_check[of f "fsom_set f"] by (simp add: def)
    next
      case begins: True
      obtain ps qs where xs: "xs = ps @ qs"
        and ub: "map_upper_bound (keyed xs) (monad - 1) = (keyed ps, keyed qs)"
        and ps: "\<forall>p\<in>set ps. first_m p \<le> monad - 1" and qs: "\<forall>q\<in>set qs. monad - 1 < first_m q"
        using upper_bound_keyed[OF wf] by blast
      have "ps \<noteq> []"
      proof
        assume "ps = []"
        then have "hd xs \<in> set qs" using e xs by simp
        then show False using qs begins e by auto
      qed
      then obtain us p where p: "ps = us @ [p]" by (cases ps rule: rev_cases) auto
      have okp: "mse_ok p" "first_m p \<le> monad - 1" using wf xs p ps by auto
      have rest: "{x \<in> mses_set xs. monad \<le> x} =
          (if monad \<le> last_m p then {monad..last_m p} else {}) \<union> mses_set qs"
        using mses_filter_split[of ps qs monad] wf ps qs xs p by simp
      show ?thesis
      proof (cases qs)
        case Nil
        have "monad \<le> last_m p" using ne e xs p Nil by simp
        then have "mse_ok (MSE monad (last_m p))" using okp by (auto simp: mse_ok_def)
        then show ?thesis
          using ne begins ub Nil xs p rest okp \<open>monad \<le> last_m p\<close>
          by (simp add: def S map_rbegin_def FastSetOfMonads_clear_def FastSetOfMonads_add_range_def
              FastSetOfMonads_addMSE_def fast_addMSE_map_def FastSetOfMonads_isEmpty_def
              fast_bounds_check_def map_begin_def fsom_list_wf_def fsom_list_def bounds_ok_def
              fsom_set_def mse_set_def)
      next
        case (Cons q rs)
        have wq: "mses_wf qs" "gap_before p q" and bq: "fm_last f = last_m (last qs)"
          using wf xs p Cons e by auto
        consider (cut) "monad \<le> last_m p" | (drop) "last_m p < monad" by linarith
        then show ?thesis
        proof cases
          case cut
          then have q: "\<not> first_m q \<le> monad" using wq by (simp add: gap_before_def)
          let ?g = "f\<lparr>fmonad_ms := (first_m p, MSE monad (last_m p)) # keyed qs, fm_first := monad\<rparr>"
          have "mses_wf (MSE monad (last_m p) # qs)"
            using wf xs p cut okp by (auto simp: mse_ok_def gap_before_def)
          then have "fsom_list_wf ?g"
            using bq Cons by (simp add: fsom_list_wf_def fsom_list_def bounds_ok_def)
          then have "returns (fast_bounds_check ?g) (\<lambda>g. fsom_list_wf g \<and> fsom_set g = {x \<in> fsom_set f. monad \<le> x})"
            using cut rest S by (intro returns_bounds_check) (auto simp: fsom_set_def fsom_list_def mse_set_def)
          then show ?thesis
            using ne begins ub Cons p q cut okp
            by (simp add: def mse_set_first_def)
        next
          case drop
          let ?g = "f\<lparr>fmonad_ms := keyed qs, fm_first := first_m q\<rparr>"
          have g: "fsom_list_wf ?g"
            using wq bq Cons by (simp add: fsom_list_wf_def fsom_list_def bounds_ok_def)
          have r: "returns (fast_bounds_check ?g) (\<lambda>g. fsom_list_wf g \<and> fsom_set g = {x \<in> fsom_set f. monad \<le> x})"
            using drop rest S Cons g by (intro returns_bounds_check) (auto simp: fsom_set_def fsom_list_def)
          have same: "f\<lparr>fmonad_ms := keyed qs, fm_first := first_m q, fm_last := last_m (last qs)\<rparr> = ?g"
            using bq by (cases f) simp
          have "mse_ok q" "monad \<le> first_m q" using wq Cons qs by auto
          then have "mse_set_first q monad = q" if "\<not> monad < first_m q"
            using that by (cases q) (simp add: mse_set_first_def)
          then show ?thesis
            using ne begins ub Cons p drop okp r same \<open>mse_ok q\<close> \<open>monad \<le> first_m q\<close>
            by (auto simp: def mse_ok_def keyed_def[of rs] last_map)
        qed
      qed
    qed
  qed
qed

end
