(* ===== verification/MonadSets_Main.thy ===== *)
theory MonadSets_Main
  imports FastSetOfMonads_Props
begin

text \<open>
  The main properties of the two implementations of sets of monads. A small language of
  set expressions drives both classes through their public operations; its evaluators call
  the operations as a client does, and the properties compare them with plain sets.
\<close>

section \<open>Set expressions\<close>

datatype som_expr =
    E_empty
  | E_add som_expr monad_m monad_m
  | E_remove som_expr monad_m monad_m
  | E_union som_expr som_expr
  | E_difference som_expr som_expr
  | E_intersect som_expr som_expr
  | E_fillGaps som_expr monad_m

primrec eval_som :: "som_expr \<Rightarrow> SetOfMonads res" where
  "eval_som E_empty = Inr SetOfMonads_empty"
| "eval_som (E_add e u v) = bind_res (eval_som e) (\<lambda>s. SetOfMonads_add_range s u v)"
| "eval_som (E_remove e u v) = bind_res (eval_som e) (\<lambda>s.
     bind_res (MonadSetElement_range u v) (SetOfMonads_removeMSE s))"
| "eval_som (E_union d e) = bind_res (eval_som d) (\<lambda>s.
     bind_res (eval_som e) (\<lambda>t. Inr (SetOfMonads_unionWith s t)))"
| "eval_som (E_difference d e) = bind_res (eval_som d) (\<lambda>s.
     bind_res (eval_som e) (SetOfMonads_difference s))"
| "eval_som (E_intersect d e) = bind_res (eval_som d) (\<lambda>s.
     bind_res (eval_som e) (SetOfMonads_intersect s))"
| "eval_som (E_fillGaps e g) = bind_res (eval_som e) (\<lambda>s. SetOfMonads_fillGaps s g)"

primrec eval_fast :: "som_expr \<Rightarrow> FastSetOfMonads res" where
  "eval_fast E_empty = Inr FastSetOfMonads_empty"
| "eval_fast (E_add e u v) = bind_res (eval_fast e) (\<lambda>s. FastSetOfMonads_add_range s u v)"
| "eval_fast (E_remove e u v) = bind_res (eval_fast e) (\<lambda>s.
     bind_res (MonadSetElement_range u v) (FastSetOfMonads_removeMSE s))"
| "eval_fast (E_union d e) = bind_res (eval_fast d) (\<lambda>s.
     bind_res (eval_fast e) (FastSetOfMonads_unionWith s))"
| "eval_fast (E_difference d e) = bind_res (eval_fast d) (\<lambda>s.
     bind_res (eval_fast e) (FastSetOfMonads_difference s))"
| "eval_fast (E_intersect d e) = bind_res (eval_fast d) (\<lambda>s.
     bind_res (eval_fast e) (FastSetOfMonads_intersect s))"
| "eval_fast (E_fillGaps e g) = bind_res (eval_fast e) (\<lambda>s. FastSetOfMonads_fillGaps s g)"

text \<open>What an expression means: a set, or nothing where a range is the wrong way round.\<close>

primrec expr_set :: "som_expr \<Rightarrow> monad_m set option" where
  "expr_set E_empty = Some {}"
| "expr_set (E_add e u v) =
     Option.bind (expr_set e) (\<lambda>A. if u \<le> v then Some (A \<union> {u..v}) else None)"
| "expr_set (E_remove e u v) =
     Option.bind (expr_set e) (\<lambda>A. if u \<le> v then Some (A - {u..v}) else None)"
| "expr_set (E_union d e) =
     Option.bind (expr_set d) (\<lambda>A. Option.bind (expr_set e) (\<lambda>B. Some (A \<union> B)))"
| "expr_set (E_difference d e) =
     Option.bind (expr_set d) (\<lambda>A. Option.bind (expr_set e) (\<lambda>B. Some (A - B)))"
| "expr_set (E_intersect d e) =
     Option.bind (expr_set d) (\<lambda>A. Option.bind (expr_set e) (\<lambda>B. Some (A \<inter> B)))"
| "expr_set (E_fillGaps e g) =
     Option.bind (expr_set e) (\<lambda>A. Some (A \<union> small_gaps A g))"

text \<open>Every monad written in the expression lies between 0 and \<open>MAX_MONAD\<close>.\<close>

primrec expr_in_range :: "som_expr \<Rightarrow> bool" where
  "expr_in_range E_empty = True"
| "expr_in_range (E_add e u v) \<longleftrightarrow> expr_in_range e \<and> 0 \<le> u \<and> v \<le> MAX_MONAD"
| "expr_in_range (E_remove e u v) \<longleftrightarrow> expr_in_range e \<and> 0 \<le> u \<and> v \<le> MAX_MONAD"
| "expr_in_range (E_union d e) \<longleftrightarrow> expr_in_range d \<and> expr_in_range e"
| "expr_in_range (E_difference d e) \<longleftrightarrow> expr_in_range d \<and> expr_in_range e"
| "expr_in_range (E_intersect d e) \<longleftrightarrow> expr_in_range d \<and> expr_in_range e"
| "expr_in_range (E_fillGaps e g) \<longleftrightarrow> expr_in_range e"

section \<open>The operations of the list implementation\<close>

lemma foldM_res_pure: "foldM_res (\<lambda>s x. Inr (f s x)) s xs = Inr (foldl f s xs)"
  by (induction xs arbitrary: s) auto

lemma som_wf_stretches_ok: "som_wf s \<Longrightarrow> \<forall>e\<in>set (monad_ms s). mse_ok e"
  by (simp add: som_wf_def mses_wf_def)

lemma fsom_wf_stretches_ok: "fsom_wf f \<Longrightarrow> \<forall>e\<in>set (fsom_list f). mse_ok e"
  by (simp add: fsom_wf_def mses_wf_def)

lemma unionWith_correct:
  "som_wf s \<Longrightarrow> som_wf t \<Longrightarrow>
   som_wf (SetOfMonads_unionWith s t) \<and> som_set (SetOfMonads_unionWith s t) = som_set s \<union> som_set t"
  using sm.add_all[of s "monad_ms t"] som_wf_stretches_ok[of t]
  by (simp add: SetOfMonads_unionWith_def foldM_res_pure som_set_def)

lemma difference_correct:
  "som_wf s \<Longrightarrow> som_wf t \<Longrightarrow>
   returns (SetOfMonads_difference s t) (\<lambda>r. som_wf r \<and> som_set r = som_set s - som_set t)"
  using sm.remove_all[of s "monad_ms t"] som_wf_stretches_ok[of t]
  by (simp add: SetOfMonads_difference_def som_set_def)

lemma intersect_correct:
  "som_wf s \<Longrightarrow> som_wf t \<Longrightarrow>
   returns (SetOfMonads_intersect s t) (\<lambda>r. som_wf r \<and> som_set r = som_set s \<inter> som_set t)"
  using intersect_loop_correct[of "monad_ms s" "monad_ms t" SetOfMonads_empty]
  by (auto simp: SetOfMonads_intersect_def SetOfMonads_isEmpty_def som_wf_def[of s] som_wf_def[of t] som_set_def[of s]
      som_set_def[of t])

lemma small_gaps_empty [simp]: "small_gaps {} g = {}"
  by (simp add: small_gaps_def gap_of_def)

lemma fillGaps_correct:
  assumes "som_wf s"
  shows "returns (SetOfMonads_fillGaps s g) (\<lambda>r. som_wf r \<and> som_set r = som_set s \<union> small_gaps (som_set s) g)"
proof (cases "monad_ms s")
  case Nil
  then show ?thesis by (simp add: SetOfMonads_fillGaps_def som_set_def[of s])
next
  case (Cons a xs)
  then have wf: "mses_wf (a # xs)" "mse_ok a" using assms by (auto simp: som_wf_def)
  then show ?thesis
    using fillGaps_loop_correct[OF wf(1), of "SetOfMonads_addMSE SetOfMonads_empty a" g] Cons
    by (simp add: SetOfMonads_fillGaps_def som_set_def[of s] som_wf_addMSE)
qed

section \<open>The operations of the map implementation\<close>

lemma fast_add_range_throws: "u > v \<Longrightarrow> FastSetOfMonads_add_range f u v = Inl BadMonadsException"
  by (simp add: FastSetOfMonads_add_range_def MonadSetElement_range_def)

lemma fast_unionWith_correct:
  "fsom_wf f \<Longrightarrow> fsom_wf g \<Longrightarrow>
   returns (FastSetOfMonads_unionWith f g) (\<lambda>r. fsom_wf r \<and> fsom_set r = fsom_set f \<union> fsom_set g)"
  using fsm.add_all[of f "fsom_list g"] fsom_wf_stretches_ok[of g]
  by (simp add: FastSetOfMonads_unionWith_def FastSOMConstIterator_new_def foldM_res_map fsom_set_def
      fsom_list_def[of g])

lemma fast_unionWith_SetOfMonads_correct:
  "fsom_wf f \<Longrightarrow> som_wf s \<Longrightarrow>
   returns (FastSetOfMonads_unionWith_SetOfMonads f s)
     (\<lambda>r. fsom_wf r \<and> fsom_set r = fsom_set f \<union> som_set s)"
  using fsm.add_all[of f "monad_ms s"] som_wf_stretches_ok[of s]
  by (simp add: FastSetOfMonads_unionWith_SetOfMonads_def fsom_set_def som_set_def)

lemma fast_difference_correct:
  "fsom_wf f \<Longrightarrow> fsom_wf g \<Longrightarrow>
   returns (FastSetOfMonads_difference f g) (\<lambda>r. fsom_wf r \<and> fsom_set r = fsom_set f - fsom_set g)"
  using fsm.remove_all[of f "fsom_list g"] fsom_wf_stretches_ok[of g]
  by (simp add: FastSetOfMonads_difference_def FastSOMConstIterator_new_def foldM_res_map fsom_set_def
      fsom_list_def[of g])

lemma fast_intersect_correct:
  assumes f: "fsom_wf f" and g: "fsom_wf g"
  shows "returns (FastSetOfMonads_intersect f g) (\<lambda>r. fsom_wf r \<and> fsom_set r = fsom_set f \<inter> fsom_set g)"
proof -
  obtain xs ys where "fmonad_ms f = keyed xs" "fsom_list f = xs" "mses_wf xs"
    and "fmonad_ms g = keyed ys" "fsom_list g = ys" "mses_wf ys"
    using f g by (meson fsom_wfE)
  then show ?thesis
    using fast_intersect_loop_correct[of xs ys FastSetOfMonads_empty]
    by (auto simp: FastSetOfMonads_intersect_def FastSetOfMonads_isEmpty_def FastSOMConstIterator_new_def
        fsom_set_def[of f] fsom_set_def[of g])
qed

lemma fast_fillGaps_correct:
  assumes f: "fsom_wf f"
  shows "returns (FastSetOfMonads_fillGaps f k)
           (\<lambda>r. fsom_wf r \<and> fsom_set r = fsom_set f \<union> small_gaps (fsom_set f) k)"
proof -
  obtain xs where m: "fmonad_ms f = keyed xs" and S: "fsom_set f = mses_set xs" and wf: "mses_wf xs"
    using f by (metis fsom_wfE fsom_set_def)
  show ?thesis
  proof (cases xs)
    case Nil
    then show ?thesis by (simp add: FastSetOfMonads_fillGaps_def S m)
  next
    case (Cons a ys)
    have step: "returns (fast_fillGaps_loop k r (last_m a) (keyed ys))
       (\<lambda>t. fsom_wf t \<and> fsom_set t = mses_set (a # ys) \<union> small_gaps (mses_set (a # ys)) k)"
      if "fsom_wf r \<and> fsom_set r = fsom_set FastSetOfMonads_empty \<union> mse_set a" for r
      using fast_fillGaps_loop_correct[of a ys r k] wf Cons that by simp
    have "mse_ok a" using wf Cons by simp
    from returns_bind[OF fast_addMSE_returns[OF fsom_wf_empty this] step]
    show ?thesis using Cons by (simp add: FastSetOfMonads_fillGaps_def S m)
  qed
qed

lemma fast_conversion:
  assumes "fsom_wf f"
  shows "som_wf (SetOfMonads_from_FastSetOfMonads f) \<and>
         monad_ms (SetOfMonads_from_FastSetOfMonads f) = fsom_list f"
proof -
  have "returns (foldM_res (\<lambda>s e. Inr (SetOfMonads_addMSE s e)) SetOfMonads_empty (fsom_list f))
          (\<lambda>t. som_wf t \<and> monad_ms t = fsom_list f)"
    using sm.add_all_copy[of "fsom_list f"] assms by (simp add: fsom_wf_def)
  then show ?thesis
    by (simp add: foldM_res_pure SetOfMonads_from_FastSetOfMonads_def FastSOMConstIterator_new_def
        foldl_map_snd fsom_list_def[of f])
qed

section \<open>Evaluating expressions\<close>

text \<open>A result meets an optional meaning: a value related to it, or the exception.\<close>

definition meets :: "('s \<Rightarrow> 'a \<Rightarrow> bool) \<Rightarrow> 's res \<Rightarrow> 'a option \<Rightarrow> bool" where
  "meets R r m = (case m of None \<Rightarrow> r = Inl BadMonadsException | Some a \<Rightarrow> returns r (\<lambda>s. R s a))"

lemma meets_simps [simp]:
  "meets R r None \<longleftrightarrow> r = Inl BadMonadsException" "meets R r (Some a) \<longleftrightarrow> returns r (\<lambda>s. R s a)"
  by (simp_all add: meets_def)

lemma meets_bind:
  assumes "meets R r m" "\<And>s a. R s a \<Longrightarrow> meets Q (f s) (g a)"
  shows "meets Q (bind_res r f) (Option.bind m g)"
  using assms by (cases m; cases r) auto

definition som_is :: "SetOfMonads \<Rightarrow> monad_m set \<Rightarrow> bool" where
  "som_is s A \<longleftrightarrow> som_wf s \<and> som_set s = A"

definition fsom_is :: "FastSetOfMonads \<Rightarrow> monad_m set \<Rightarrow> bool" where
  "fsom_is f A \<longleftrightarrow> fsom_wf f \<and> fsom_set f = A"

lemma eval_som_meets: "expr_in_range e \<Longrightarrow> meets som_is (eval_som e) (expr_set e)"
proof (induction e)
  case (E_add e u v)
  then show ?case
    by (auto intro!: meets_bind simp: som_is_def add_range_throws add_range_returns)
next
  case (E_remove e u v)
  have "meets som_is (bind_res (MonadSetElement_range u v) (SetOfMonads_removeMSE s))
          (if u \<le> v then Some (A - {u..v}) else None)" if "som_is s A" for s A
    using that sm.remove_law[of s "MSE u v"] E_remove.prems
    by (auto simp: som_is_def som_set_def MonadSetElement_range_def)
  then show ?case using E_remove by (auto intro!: meets_bind)
qed (auto intro!: meets_bind simp: som_is_def unionWith_correct difference_correct intersect_correct
      fillGaps_correct)

lemma eval_fast_meets: "expr_in_range e \<Longrightarrow> meets fsom_is (eval_fast e) (expr_set e)"
proof (induction e)
  case (E_add e u v)
  then show ?case
    by (auto intro!: meets_bind simp: fsom_is_def fast_add_range_returns fast_add_range_throws)
next
  case (E_remove e u v)
  have "meets fsom_is (bind_res (MonadSetElement_range u v) (FastSetOfMonads_removeMSE s))
          (if u \<le> v then Some (A - {u..v}) else None)" if "fsom_is s A" for s A
    using that fsm.remove_law[of s "MSE u v"] E_remove.prems
    by (auto simp: fsom_is_def fsom_set_def MonadSetElement_range_def)
  then show ?case using E_remove by (auto intro!: meets_bind)
qed (auto intro!: meets_bind simp: fsom_is_def fast_unionWith_correct fast_difference_correct
      fast_intersect_correct fast_fillGaps_correct)

section \<open>Inclusion, overlap, membership\<close>

lemma som_bounds:
  assumes "som_wf s" "monad_ms s \<noteq> []"
  shows "m_first s \<in> som_set s" "m_last s \<in> som_set s"
    "x \<in> som_set s \<Longrightarrow> m_first s \<le> x \<and> x \<le> m_last s"
  using assms mses_first_in[of "monad_ms s"] mses_last_in[of "monad_ms s"]
    mses_first_le[of "monad_ms s"] mses_le_last[of "monad_ms s"]
  by (auto simp: som_wf_def som_set_def bounds_ok_def)

lemma som_set_eq_empty: "som_wf s \<Longrightarrow> som_set s = {} \<longleftrightarrow> monad_ms s = []"
  by (simp add: som_wf_def som_set_def mses_set_eq_empty)

lemma som_in_range: "som_wf s \<Longrightarrow> x \<in> som_set s \<Longrightarrow> 0 \<le> x \<and> x \<le> MAX_MONAD"
  using mses_in_range by (auto simp: som_wf_def som_set_def)

lemma hasOnlyOneMSE_iff: "SetOfMonads_hasOnlyOneMSE s \<longleftrightarrow> length (monad_ms s) = 1"
  by (auto simp: SetOfMonads_hasOnlyOneMSE_def length_Suc_conv split: list.splits)

lemma one_stretch_set:
  assumes "som_wf t" "length (monad_ms t) = 1"
  shows "som_set t = {m_first t..m_last t}"
  using assms by (auto simp: som_wf_def som_set_def bounds_ok_def mse_set_def length_Suc_conv)

lemma part_of_nonempty:
  assumes s: "som_wf s" "monad_ms s \<noteq> []" and t: "som_wf t"
  shows "SetOfMonads_part_of s t = Inr (som_set s \<subseteq> som_set t)"
proof -
  have out: "\<not> som_set s \<subseteq> som_set t" if "\<not> (m_first s \<ge> m_first t \<and> m_last s \<le> m_last t)"
  proof
    assume sub: "som_set s \<subseteq> som_set t"
    then have "monad_ms t \<noteq> []" using som_bounds(1)[OF s] by (auto simp: som_set_def[of t])
    then show False using that sub som_bounds(1,2)[OF s] som_bounds(3)[OF t] by blast
  qed
  have ne: "monad_ms t \<noteq> []" if "m_first s \<ge> m_first t" "m_last s \<le> m_last t"
  proof
    assume "monad_ms t = []"
    then have "m_first s \<ge> MAX_MONAD" "m_last s \<le> 0" using that t by (auto simp: som_wf_def bounds_ok_def)
    then show False
      using som_bounds(3)[OF s som_bounds(1)[OF s]] by (simp add: MAX_MONAD_def)
  qed
  have one: "som_set s \<subseteq> som_set t" if "m_first s \<ge> m_first t" "m_last s \<le> m_last t" "length (monad_ms t) = 1"
    using that one_stretch_set[OF t] som_bounds(3)[OF s] by fastforce
  have "part_of_loop (monad_ms s) (monad_ms t) \<longleftrightarrow> som_set s \<subseteq> som_set t"
    using s t by (simp add: part_of_loop_iff som_wf_def som_set_def)
  then show ?thesis
    using out ne one s by (auto simp: SetOfMonads_part_of_def hasOnlyOneMSE_iff it_current_def split: list.splits)
qed

lemma part_of_empty:
  assumes "som_wf s" "monad_ms s = []" "som_wf t"
  shows "SetOfMonads_part_of s t = (if length (monad_ms t) = 1 then Inr True else Inl NullDeref)"
proof -
  have "m_first t \<le> MAX_MONAD \<and> 0 \<le> m_last t"
    using assms som_in_range[OF assms(3) som_bounds(1)] som_in_range[OF assms(3) som_bounds(2)]
    by (cases "monad_ms t = []") (auto simp: som_wf_def bounds_ok_def)
  then show ?thesis
    using assms by (auto simp: SetOfMonads_part_of_def som_wf_def bounds_ok_def hasOnlyOneMSE_iff it_current_def)
qed

lemma overlap_correct:
  "som_wf s \<Longrightarrow> som_wf t \<Longrightarrow> SetOfMonads_overlap s t \<longleftrightarrow> som_set s \<inter> som_set t \<noteq> {}"
  by (auto simp: SetOfMonads_overlap_def SetOfMonads_isEmpty_def overlap_loop_iff som_wf_def som_set_def)

lemma hint_prefix_before:
  assumes "mses_wf (ps @ e # es)" "first_m e \<le> m" shows "m \<notin> mses_set ps"
  using assms by (force simp: mem_mses_set gap_before_def)

lemma advance_hint_nonempty:
  assumes "e \<in> set xs" "m \<le> last_m e" shows "advance_hint m xs \<noteq> []"
  using assms by (induction xs) (auto simp: mse_isBefore_monad_def)

lemma isMemberOf_hint_correct:
  assumes s: "som_wf s" and hint: "monad_ms s = ps @ hint"
  shows "if m > m_last s then SetOfMonads_isMemberOf_hint s m hint = Inr (False, [])
         else if hint = [] then SetOfMonads_isMemberOf_hint s m hint = Inl NullDeref
         else returns (SetOfMonads_isMemberOf_hint s m hint)
                (\<lambda>(b, h). b = (m \<in> som_set s) \<and> h \<noteq> [] \<and> (\<exists>qs. monad_ms s = qs @ h))"
proof (cases "m > m_last s \<or> hint = []")
  case True
  then show ?thesis by (auto simp: SetOfMonads_isMemberOf_hint_def it_current_def)
next
  case False
  then obtain e es where h: "hint = e # es" and m: "m \<le> m_last s" by (cases hint) auto
  have wf: "mses_wf (monad_ms s)" and ne: "monad_ms s \<noteq> []" and last: "m_last s = last_m (last (monad_ms s))"
    using s h hint by (auto simp: som_wf_def bounds_ok_def)
  define h1 where "h1 = (if first_m e > m then monad_ms s else hint)"
  have lh: "last (monad_ms s) \<in> set h1" using h hint by (auto simp: h1_def last_append)
  then have "advance_hint m h1 \<noteq> []" using advance_hint_nonempty m last by metis
  then obtain e2 es2 where h2: "advance_hint m h1 = e2 # es2" by (cases "advance_hint m h1") auto
  have "\<exists>us. monad_ms s = us @ h1 \<and> m \<notin> mses_set us"
  proof (cases "first_m e > m")
    case True
    then show ?thesis by (intro exI[of _ "[]"]) (simp add: h1_def)
  next
    case False
    then show ?thesis
      using hint wf h hint_prefix_before[of ps e es m] by (intro exI[of _ ps]) (simp add: h1_def)
  qed
  then obtain us where us: "monad_ms s = us @ h1" and notin: "m \<notin> mses_set us" by blast
  have "mses_wf h1" using wf us by simp
  then have "first_m e2 \<le> m \<longleftrightarrow> m \<in> som_set s"
    using advance_hint_member[OF _ h2] us notin by (simp add: som_set_def)
  moreover have "\<exists>qs. monad_ms s = qs @ e2 # es2"
    using advance_hint_suffix[of h1 m] us h2 by (metis append.assoc)
  moreover have "SetOfMonads_isMemberOf_hint s m hint = Inr (first_m e2 \<le> m, e2 # es2)"
    using m h h2 unfolding SetOfMonads_isMemberOf_hint_def h1_def
    by (simp add: it_current_def Let_def del: advance_hint.simps)
  ultimately show ?thesis using m h by simp
qed

section \<open>Gaps\<close>

lemma gapExists_correct:
  assumes s: "som_wf s"
  shows "returns (SetOfMonads_gapExists s Sm m) (\<lambda>(b, m').
           if b then gap_of (som_set s) Sm m' else m' = m \<and> (\<forall>l. \<not> gap_of (som_set s) Sm l))"
proof (cases "Sm < m_first s \<or> Sm > m_last s")
  case True
  have "\<not> gap_of (som_set s) Sm l" for l
    using True som_bounds(3)[OF s, of "Sm - 1"] som_bounds(3)[OF s, of "l + 1"] som_set_eq_empty[OF s]
    by (cases "monad_ms s = []") (auto simp: gap_of_def)
  with True show ?thesis by (simp add: SetOfMonads_gapExists_def)
next
  case False
  then have "monad_ms s \<noteq> []" using s by (auto simp: som_wf_def bounds_ok_def MAX_MONAD_def)
  then show ?thesis
    using False gapExists_loop_correct[of "monad_ms s" Sm m] s
    by (simp add: SetOfMonads_gapExists_def som_wf_def bounds_ok_def som_set_def cong: if_cong)
qed

lemma hasLargerGap_correct:
  assumes s: "som_wf s"
  shows "SetOfMonads_hasLargerGap s t \<longleftrightarrow> (\<exists>f l. gap_of (som_set s) f l \<and> t \<le> l - f + 1)"
proof (cases "monad_ms s")
  case Nil
  then show ?thesis by (simp add: SetOfMonads_hasLargerGap_def SetOfMonads_isEmpty_def som_set_def)
next
  case (Cons a xs)
  have loop: "hasLargerGap_loop t (last_m a) xs \<longleftrightarrow> (\<exists>f l. gap_of (som_set s) f l \<and> t \<le> l - f + 1)"
    using hasLargerGap_loop_iff[of a xs t] s Cons by (simp add: som_wf_def som_set_def)
  have small: "\<not> (\<exists>f l. gap_of (som_set s) f l \<and> t \<le> l - f + 1)" if "m_last s - m_first s < t"
    using that gap_size_le[OF s] by fastforce
  show ?thesis
    using loop small Cons
    by (auto simp: SetOfMonads_hasLargerGap_def SetOfMonads_isEmpty_def SetOfMonads_hasOnlyOneMSE_def)
qed

lemma getGaps_correct:
  assumes s: "som_wf s"
  shows "returns (SetOfMonads_getGaps s) (\<lambda>r. som_wf r \<and>
           som_set r = {x. m_first s \<le> x \<and> x \<le> m_last s \<and> x \<notin> som_set s})"
proof (cases "monad_ms s")
  case Nil
  then show ?thesis using s by (auto simp: SetOfMonads_getGaps_def som_wf_def[of s] bounds_ok_def MAX_MONAD_def)
next
  case (Cons a xs)
  then show ?thesis
    using getGaps_loop_correct[of a xs SetOfMonads_empty] s
    by (auto simp: SetOfMonads_getGaps_def som_wf_def[of s] som_set_def[of s] bounds_ok_def mse_set_def
        elim!: returns_mono split: if_splits)
qed

section \<open>Operations both classes compute alike\<close>

definition som_of :: "FastSetOfMonads \<Rightarrow> SetOfMonads" where
  "som_of f = \<lparr>monad_ms = fsom_list f, m_first = fm_first f, m_last = fm_last f\<rparr>"

lemma som_of_wf: "fsom_wf f \<Longrightarrow> som_wf (som_of f) \<and> som_set (som_of f) = fsom_set f"
  by (simp add: som_of_def som_wf_def som_set_def fsom_wf_def fsom_set_def)

lemma fast_hasLargerGap_eq:
  "fsom_wf f \<Longrightarrow> FastSetOfMonads_hasLargerGap f t = SetOfMonads_hasLargerGap (som_of f) t"
proof -
  assume "fsom_wf f"
  then obtain xs where m: "fmonad_ms f = keyed xs" and "fsom_list f = xs" by (rule fsom_wfE)
  then show ?thesis
    using fast_hasOnlyOneMSE_iff[OF m]
    by (cases xs) (auto simp: FastSetOfMonads_hasLargerGap_def SetOfMonads_hasLargerGap_def som_of_def
        SetOfMonads_isEmpty_def FastSetOfMonads_isEmpty_def fast_hasLargerGap_loop_eq
        SetOfMonads_hasOnlyOneMSE_def FastSOMConstIterator_new_def)
qed

lemma fast_getCardinality_eq: "FastSetOfMonads_getCardinality f = SetOfMonads_getCardinality (som_of f)"
  by (simp add: FastSetOfMonads_getCardinality_def SetOfMonads_getCardinality_def som_of_def
      FastSOMConstIterator_new_def fsom_list_def foldl_getCardinality foldl_map_snd[where g = "\<lambda>c e. c + (1 + last_m e - first_m e)"])

lemma fast_getMonad_mVector_eq: "FastSetOfMonads_getMonad_mVector f = SetOfMonads_getMonad_mList (som_of f)"
  by (simp add: FastSetOfMonads_getMonad_mVector_def SetOfMonads_getMonad_mList_def som_of_def
      FastSOMConstIterator_new_def fsom_list_def foldl_getMonad_mList foldl_map_snd[where g = "\<lambda>out e. out @ [first_m e..last_m e]"])

section \<open>Shifting and inserting a range\<close>

lemma fillInsertRange_correct:
  assumes s: "som_wf s" and fl: "0 \<le> f" "f \<le> l" "l \<le> MAX_MONAD"
    and room: "\<forall>x\<in>som_set s. x + (l - f + 1) \<le> MAX_MONAD"
    and meets: "f \<le> m_last s" "m_first s < l"
  shows "returns (SetOfMonads_fillInsertRange s f l) (\<lambda>r. som_wf r \<and>
           som_set r = fill_image f l (som_set s) \<union> {f..l})"
proof -
  have ne: "monad_ms s \<noteq> []" using s meets fl by (auto simp: som_wf_def bounds_ok_def MAX_MONAD_def)
  have wf: "mses_wf (monad_ms s)" using s by (simp add: som_wf_def)
  have "\<forall>a\<in>set (monad_ms s). last_m a + (l - f + 1) \<le> MAX_MONAD"
  proof
    fix a assume a: "a \<in> set (monad_ms s)"
    then have "last_m a \<in> som_set s" using wf by (auto simp: som_set_def mem_mses_set mses_wf_def mse_ok_def)
    then show "last_m a + (l - f + 1) \<le> MAX_MONAD" using room by blast
  qed
  note fold = fillInsertRange_fold[OF wf fl(1,2) this]
  have "returns (SetOfMonads_add_range t f l) (\<lambda>r. som_wf r \<and> som_set r = fill_image f l (som_set s) \<union> {f..l})"
    if "som_wf t \<and> som_set t \<union> {f..l} = fill_image f l (mses_set (monad_ms s)) \<union> {f..l}" for t
    using add_range_returns[of t f l] that fl by (simp add: som_set_def[of s])
  from returns_bind[OF fold this] have body: "returns (bind_res
      (foldM_res (fillInsertRange_step f l (l - f + 1)) SetOfMonads_empty (monad_ms s))
      (\<lambda>t. SetOfMonads_add_range t f l)) (\<lambda>r. som_wf r \<and> som_set r = fill_image f l (som_set s) \<union> {f..l})" .
  obtain e where "it_current (monad_ms s) = Inr e" using ne by (cases "monad_ms s") (auto simp: it_current_def)
  then show ?thesis
    using body meets fl by (simp add: SetOfMonads_fillInsertRange_def ASSERT_THROW_X_def)
qed

end
