(* ===== verification/MonadSets_Props.thy ===== *)
theory MonadSets_Props
  imports MonadSets_Main
begin

text \<open>
  The properties of the sets of monads, over the definitions that model
  \<^verbatim>\<open>EMdF/monads.cpp\<close> and \<^verbatim>\<open>include/monads.h\<close>, each with a concrete instance of its
  hypotheses.
\<close>

section \<open>Concrete sets for the instances\<close>

definition demo_som :: SetOfMonads where
  "demo_som = \<lparr>monad_ms = [MSE 1 3, MSE 7 9, MSE 20 30], m_first = 1, m_last = 30\<rparr>"

definition demo_som2 :: SetOfMonads where
  "demo_som2 = \<lparr>monad_ms = [MSE 2 3, MSE 21 22], m_first = 2, m_last = 22\<rparr>"

definition demo_fast :: FastSetOfMonads where
  "demo_fast = \<lparr>fmonad_ms = [(1, MSE 1 10), (20, MSE 20 30)], fm_first = 1, fm_last = 30\<rparr>"

definition demo_expr :: som_expr where
  "demo_expr = E_remove (E_fillGaps (E_union (E_add E_empty 1 3) (E_add E_empty 7 9)) 4) 2 5"

lemma demo_som_wf: "som_wf demo_som"
  by (simp add: demo_som_def som_wf_def bounds_ok_def mse_ok_def gap_before_def MAX_MONAD_def)

lemma demo_som2_wf: "som_wf demo_som2"
  by (simp add: demo_som2_def som_wf_def bounds_ok_def mse_ok_def gap_before_def MAX_MONAD_def)

lemma demo_fast_wf: "fsom_wf demo_fast"
  by (simp add: demo_fast_def fsom_wf_def fsom_list_def bounds_ok_def mse_ok_def gap_before_def
      MAX_MONAD_def)

lemma demo_expr_in_range: "expr_in_range demo_expr"
  by (simp add: demo_expr_def MAX_MONAD_def)

section \<open>The algebra of both classes\<close>

text \<open>
  C18: Evaluating a set expression with \<open>SetOfMonads\<close> (adding and removing ranges, union,
  difference, intersection, filling gaps, in any nesting) returns a well-formed set with
  exactly the monads the expression means; it throws \<open>BadMonadsException\<close> exactly when a
  range in it is the wrong way round, and nothing else goes wrong.
\<close>

theorem som_expr_correct:
  "expr_in_range e \<Longrightarrow>
   (case expr_set e of
      None \<Rightarrow> eval_som e = Inl BadMonadsException
    | Some A \<Rightarrow> returns (eval_som e) (\<lambda>s. som_wf s \<and> som_set s = A))"
  using eval_som_meets[of e] by (simp add: meets_def som_is_def cong: option.case_cong)

theorem som_expr_correct_witness:
  "expr_in_range demo_expr \<and>
   (case expr_set demo_expr of
      None \<Rightarrow> eval_som demo_expr = Inl BadMonadsException
    | Some A \<Rightarrow> returns (eval_som demo_expr) (\<lambda>s. som_wf s \<and> som_set s = A))"
  using som_expr_correct[OF demo_expr_in_range] demo_expr_in_range by simp

text \<open>
  C19: \<open>FastSetOfMonads\<close> agrees with \<open>SetOfMonads\<close>: for the same expression both throw the
  same exception, or converting the fast result with \<open>SetOfMonads(const FastSetOfMonads&)\<close>
  gives the very object, stretches and cached bounds, that the list class computes.
\<close>

theorem fast_agrees:
  "expr_in_range e \<Longrightarrow>
   eval_som e = (case eval_fast e of Inl x \<Rightarrow> Inl x
                 | Inr f \<Rightarrow> Inr (SetOfMonads_from_FastSetOfMonads f))"
proof -
  assume e: "expr_in_range e"
  show ?thesis
  proof (cases "expr_set e")
    case None
    then show ?thesis using eval_som_meets[OF e] eval_fast_meets[OF e] by simp
  next
    case (Some A)
    then obtain s f where s: "eval_som e = Inr s" "som_is s A" and f: "eval_fast e = Inr f" "fsom_is f A"
      using eval_som_meets[OF e] eval_fast_meets[OF e] by (auto simp: returns_iff)
    moreover have "SetOfMonads_from_FastSetOfMonads f = s"
      using f s fast_conversion[of f]
      by (intro som_unique) (auto simp: som_is_def fsom_is_def som_set_def fsom_set_def)
    ultimately show ?thesis by simp
  qed
qed

theorem fast_agrees_witness:
  "expr_in_range demo_expr \<and>
   eval_som demo_expr = (case eval_fast demo_expr of Inl x \<Rightarrow> Inl x
                 | Inr f \<Rightarrow> Inr (SetOfMonads_from_FastSetOfMonads f))"
  using fast_agrees[OF demo_expr_in_range] demo_expr_in_range by simp

text \<open>
  C20: \<open>addMSE\<close> of both classes keeps the invariant (ascending stretches, at least one
  absent monad between two neighbours, right cached bounds) and adds exactly the monads of
  the stretch; the check at the end of the fast version never fires.
\<close>

theorem addMSE_correct:
  "mse_ok e \<Longrightarrow>
   (som_wf s \<longrightarrow> som_wf (SetOfMonads_addMSE s e) \<and>
      som_set (SetOfMonads_addMSE s e) = som_set s \<union> mse_set e) \<and>
   (fsom_wf f \<longrightarrow> returns (FastSetOfMonads_addMSE f e)
      (\<lambda>g. fsom_wf g \<and> fsom_set g = fsom_set f \<union> mse_set e))"
  using som_wf_addMSE som_set_addMSE fast_addMSE_returns by blast

theorem addMSE_correct_witness:
  "mse_ok (MSE 3 7) \<and> som_wf (SetOfMonads_addMSE demo_som (MSE 3 7)) \<and>
   som_set (SetOfMonads_addMSE demo_som (MSE 3 7)) = som_set demo_som \<union> mse_set (MSE 3 7) \<and>
   returns (FastSetOfMonads_addMSE demo_fast (MSE 3 7))
      (\<lambda>g. fsom_wf g \<and> fsom_set g = fsom_set demo_fast \<union> mse_set (MSE 3 7))"
  using addMSE_correct[of "MSE 3 7" demo_som demo_fast] demo_som_wf demo_fast_wf
  by (simp add: MAX_MONAD_def mse_ok_def)

text \<open>
  C21: \<open>removeMSE\<close> of both classes keeps the invariant and removes exactly the monads of the
  stretch; the loop of the fast version, which steps back after each erasure, ends.
\<close>

theorem removeMSE_correct:
  "mse_ok e \<Longrightarrow>
   (som_wf s \<longrightarrow> returns (SetOfMonads_removeMSE s e)
      (\<lambda>t. som_wf t \<and> som_set t = som_set s - mse_set e)) \<and>
   (fsom_wf f \<longrightarrow> returns (FastSetOfMonads_removeMSE f e)
      (\<lambda>g. fsom_wf g \<and> fsom_set g = fsom_set f - mse_set e))"
  using sm.remove_law[of s e] fast_removeMSE_returns[of f e] by (simp add: som_set_def)

theorem removeMSE_correct_witness:
  "mse_ok (MSE 2 25) \<and> returns (SetOfMonads_removeMSE demo_som (MSE 2 25))
      (\<lambda>t. som_wf t \<and> som_set t = som_set demo_som - mse_set (MSE 2 25)) \<and>
   returns (FastSetOfMonads_removeMSE demo_fast (MSE 2 25))
      (\<lambda>g. fsom_wf g \<and> fsom_set g = fsom_set demo_fast - mse_set (MSE 2 25))"
  using removeMSE_correct[of "MSE 2 25" demo_som demo_fast] demo_som_wf demo_fast_wf
  by (simp add: MAX_MONAD_def mse_ok_def)

section \<open>Comparison and lookup\<close>

text \<open>
  C22: \<open>operator==\<close> of both classes decides equality of the sets of monads: the
  representation of a set is unique.
\<close>

theorem operator_eq_correct:
  "(som_wf s \<and> som_wf t \<longrightarrow> SetOfMonads_operator_eq s t = (som_set s = som_set t)) \<and>
   (fsom_wf f \<and> fsom_wf g \<longrightarrow> FastSetOfMonads_operator_eq f g = (fsom_set f = fsom_set g))"
  using operator_eq_iff fast_operator_eq_iff by blast

theorem operator_eq_correct_witness:
  "SetOfMonads_operator_eq demo_som demo_som2 = (som_set demo_som = som_set demo_som2) \<and>
   FastSetOfMonads_operator_eq demo_fast FastSetOfMonads_empty =
     (fsom_set demo_fast = fsom_set FastSetOfMonads_empty)"
  using operator_eq_correct[of demo_som demo_som2 demo_fast FastSetOfMonads_empty]
    demo_som_wf demo_som2_wf demo_fast_wf by simp

text \<open>
  C23: What \<open>part_of\<close> computes on well-formed sets: inclusion, except that an empty set
  asked whether it is part of a set that does not have exactly one stretch reads through
  the end of its own list.
\<close>

theorem part_of_exact:
  "som_wf s \<Longrightarrow> som_wf t \<Longrightarrow>
   SetOfMonads_part_of s t =
     (if som_set s = {} \<and> length (monad_ms t) \<noteq> 1 then Inl NullDeref
      else Inr (som_set s \<subseteq> som_set t))"
  by (cases "monad_ms s = []") (simp_all add: part_of_nonempty part_of_empty som_set_eq_empty, simp add: som_set_def)

theorem part_of_exact_witness:
  "SetOfMonads_part_of SetOfMonads_empty demo_som =
     (if som_set SetOfMonads_empty = {} \<and> length (monad_ms demo_som) \<noteq> 1 then Inl NullDeref
      else Inr (som_set SetOfMonads_empty \<subseteq> som_set demo_som)) \<and>
   SetOfMonads_part_of demo_som2 demo_som =
     (if som_set demo_som2 = {} \<and> length (monad_ms demo_som) \<noteq> 1 then Inl NullDeref
      else Inr (som_set demo_som2 \<subseteq> som_set demo_som))"
  using part_of_exact[OF som_wf_empty demo_som_wf] part_of_exact[OF demo_som2_wf demo_som_wf] by simp

text \<open>
  C24: The lookups of \<open>SetOfMonads\<close>: membership, overlap of two sets, \<open>hasMonadsInRange\<close>,
  \<open>getMonad_mList\<close> (the ascending list of the members) and \<open>getCardinality\<close> (their number).
\<close>

theorem som_lookups:
  "som_wf s \<Longrightarrow> som_wf t \<Longrightarrow>
   SetOfMonads_isMemberOf s m = (m \<in> som_set s) \<and>
   SetOfMonads_overlap s t = (som_set s \<inter> som_set t \<noteq> {}) \<and>
   SetOfMonads_hasMonadsInRange s u v =
     (if u \<le> v then Inr (som_set s \<inter> {u..v} \<noteq> {}) else Inl BadMonadsException) \<and>
   SetOfMonads_getMonad_mList s = sorted_list_of_set (som_set s) \<and>
   SetOfMonads_getCardinality s = int (card (som_set s))"
  by (simp add: SetOfMonads_isMemberOf_def isMemberOf_loop_iff overlap_correct getMonad_mList_eq
      SetOfMonads_getCardinality_def getCardinality_loop_eq SetOfMonads_hasMonadsInRange_def
      hasMonadsInRange_loop_iff MonadSetElement_range_def som_wf_def som_set_def mse_set_def)

theorem som_lookups_witness:
  "SetOfMonads_isMemberOf demo_som 8 = (8 \<in> som_set demo_som) \<and>
   SetOfMonads_overlap demo_som demo_som2 = (som_set demo_som \<inter> som_set demo_som2 \<noteq> {}) \<and>
   SetOfMonads_hasMonadsInRange demo_som 4 6 =
     (if (4::int) \<le> 6 then Inr (som_set demo_som \<inter> {4..6} \<noteq> {}) else Inl BadMonadsException) \<and>
   SetOfMonads_getMonad_mList demo_som = sorted_list_of_set (som_set demo_som) \<and>
   SetOfMonads_getCardinality demo_som = int (card (som_set demo_som))"
  using som_lookups[OF demo_som_wf demo_som2_wf, of 8 4 6] by simp

text \<open>
  The lookups of \<open>FastSetOfMonads\<close>, which search the map by key instead of walking the
  list, give the same answers: membership, \<open>hasMonadsInRange\<close>, \<open>subsumesRange\<close>, overlap
  with a list set, and whether a list set is part of it.
\<close>

theorem fast_lookups:
  "fsom_wf f \<Longrightarrow> som_wf s \<Longrightarrow> mse_ok r \<Longrightarrow>
   FastSetOfMonads_isMemberOf f m = Inr (m \<in> fsom_set f) \<and>
   FastSetOfMonads_hasMonadsInRange f (first_m r) (last_m r) = Inr (fsom_set f \<inter> mse_set r \<noteq> {}) \<and>
   FastSetOfMonads_subsumesRange f r = Inr (mse_set r \<subseteq> fsom_set f) \<and>
   FastSetOfMonads_overlap s f = Inr (som_set s \<inter> fsom_set f \<noteq> {}) \<and>
   SetOfMonads_part_of_Fast s f = Inr (som_set s \<subseteq> fsom_set f)"
  using fast_isMemberOf_correct fast_hasMonadsInRange_correct[of f "first_m r" "last_m r"]
    fast_subsumesRange_correct[of f r] fast_overlap_correct[of s f] part_of_Fast_correct[of s f]
  by (simp add: mse_ok_def mse_set_def)

theorem fast_lookups_witness:
  "FastSetOfMonads_isMemberOf demo_fast 15 = Inr (15 \<in> fsom_set demo_fast) \<and>
   FastSetOfMonads_hasMonadsInRange demo_fast 8 15 = Inr (fsom_set demo_fast \<inter> mse_set (MSE 8 15) \<noteq> {}) \<and>
   FastSetOfMonads_subsumesRange demo_fast (MSE 8 15) = Inr (mse_set (MSE 8 15) \<subseteq> fsom_set demo_fast) \<and>
   FastSetOfMonads_overlap demo_som demo_fast = Inr (som_set demo_som \<inter> fsom_set demo_fast \<noteq> {}) \<and>
   SetOfMonads_part_of_Fast demo_som demo_fast = Inr (som_set demo_som \<subseteq> fsom_set demo_fast)"
  using fast_lookups[OF demo_fast_wf demo_som_wf, of "MSE 8 15" 15] by (simp add: mse_ok_def MAX_MONAD_def)

text \<open>
  Membership with a hint: with any iterator over the set as the hint, the
  answer is right and the iterator handed back is again one over the set and not at its
  end, as long as the monad is not past the last one. Past the last monad the iterator is
  moved to the end, and using it again for a monad of the set reads through the end.
\<close>

theorem isMemberOf_hint_exact:
  "som_wf s \<Longrightarrow> monad_ms s = ps @ hint \<Longrightarrow>
   (if m > m_last s then SetOfMonads_isMemberOf_hint s m hint = Inr (False, [])
    else if hint = [] then SetOfMonads_isMemberOf_hint s m hint = Inl NullDeref
    else returns (SetOfMonads_isMemberOf_hint s m hint)
           (\<lambda>(b, h). b = (m \<in> som_set s) \<and> h \<noteq> [] \<and> (\<exists>qs. monad_ms s = qs @ h)))"
  by (rule isMemberOf_hint_correct)

theorem isMemberOf_hint_exact_witness:
  "returns (SetOfMonads_isMemberOf_hint demo_som 2 [MSE 20 30])
     (\<lambda>(b, h). b = (2 \<in> som_set demo_som) \<and> h \<noteq> [] \<and> (\<exists>qs. monad_ms demo_som = qs @ h)) \<and>
   SetOfMonads_isMemberOf_hint demo_som 31 [MSE 20 30] = Inr (False, []) \<and>
   SetOfMonads_isMemberOf_hint demo_som 2 [] = Inl NullDeref"
  using isMemberOf_hint_exact[OF demo_som_wf, of "[MSE 1 3, MSE 7 9]" "[MSE 20 30]" 2]
    isMemberOf_hint_exact[OF demo_som_wf, of "[MSE 1 3, MSE 7 9]" "[MSE 20 30]" 31]
    isMemberOf_hint_exact[OF demo_som_wf, of "[MSE 1 3, MSE 7 9, MSE 20 30]" "[]" 2]
  by (simp add: demo_som_def)

text \<open>
  C25: The iterator over single monads visits every monad of the set exactly once, in
  ascending order, and then reports that there is no next one.
\<close>

theorem monad_iterator_complete:
  "som_wf s \<Longrightarrow> SOMConstMonadIterator_collect (card (som_set s)) (SOMConstMonadIterator_new s) =
     Inr (sorted_list_of_set (som_set s))"
proof -
  assume s: "som_wf s"
  let ?i = "SOMConstMonadIterator_new s"
  have ok: "smi_ok ?i \<and> smi_left ?i = SetOfMonads_getMonad_mList s"
    using s by (cases "monad_ms s") (auto simp: SOMConstMonadIterator_new_def SetOfMonads_const_iterator_def
        smi_ok_def smi_left_def som_wf_def bounds_ok_def mse_ok_def SetOfMonads_getMonad_mList_def
        getMonad_mList_loop_eq)
  have "finite (som_set s)" by (simp add: som_set_def)
  then show ?thesis
    using smi_collect[of ?i "card (som_set s)"] ok getMonad_mList_eq[OF s] by simp
qed

theorem monad_iterator_complete_witness:
  "SOMConstMonadIterator_collect (card (som_set demo_som)) (SOMConstMonadIterator_new demo_som) =
     Inr (sorted_list_of_set (som_set demo_som))"
  by (rule monad_iterator_complete[OF demo_som_wf])

section \<open>Gaps\<close>

text \<open>
  \<open>gapExists\<close> and \<open>hasLargerGap\<close> of both classes. A gap is a maximal stretch of absent
  monads between two present ones; \<open>gapExists\<close> finds the end of the gap that starts at a
  given monad, and \<open>hasLargerGap(n)\<close> tells whether some gap has at least \<open>n\<close> monads (not,
  as the name says, more than \<open>n\<close>).
\<close>

theorem gap_queries:
  "som_wf s \<Longrightarrow> fsom_wf f \<Longrightarrow>
   returns (SetOfMonads_gapExists s Sm m) (\<lambda>(b, m').
     if b then gap_of (som_set s) Sm m' else m' = m \<and> (\<forall>l. \<not> gap_of (som_set s) Sm l)) \<and>
   returns (FastSetOfMonads_gapExists f Sm m) (\<lambda>(b, m').
     (b \<longleftrightarrow> (\<exists>l. gap_of (fsom_set f) Sm l)) \<and> (b \<longrightarrow> gap_of (fsom_set f) Sm m')) \<and>
   SetOfMonads_hasLargerGap s n = (\<exists>u v. gap_of (som_set s) u v \<and> n \<le> v - u + 1) \<and>
   FastSetOfMonads_hasLargerGap f n = (\<exists>u v. gap_of (fsom_set f) u v \<and> n \<le> v - u + 1)"
  using gapExists_correct[of s Sm m] fast_gapExists_correct[of f Sm m]
  by (simp add: hasLargerGap_correct fast_hasLargerGap_eq som_of_wf)

theorem gap_queries_witness:
  "returns (SetOfMonads_gapExists demo_som 4 0) (\<lambda>(b, m').
     if b then gap_of (som_set demo_som) 4 m' else m' = 0 \<and> (\<forall>l. \<not> gap_of (som_set demo_som) 4 l)) \<and>
   returns (FastSetOfMonads_gapExists demo_fast 4 0) (\<lambda>(b, m').
     (b \<longleftrightarrow> (\<exists>l. gap_of (fsom_set demo_fast) 4 l)) \<and> (b \<longrightarrow> gap_of (fsom_set demo_fast) 4 m')) \<and>
   SetOfMonads_hasLargerGap demo_som 9 = (\<exists>u v. gap_of (som_set demo_som) u v \<and> 9 \<le> v - u + 1) \<and>
   FastSetOfMonads_hasLargerGap demo_fast 9 = (\<exists>u v. gap_of (fsom_set demo_fast) u v \<and> 9 \<le> v - u + 1)"
  by (rule gap_queries[OF demo_som_wf demo_fast_wf])

text \<open>
  \<open>getGaps\<close> returns the monads between the first and the last one that are absent,
  as a well-formed set; together with \<open>fillGaps\<close> of a large enough bound it makes a solid
  stretch.
\<close>

theorem getGaps_exact:
  "som_wf s \<Longrightarrow>
   returns (SetOfMonads_getGaps s) (\<lambda>r. som_wf r \<and>
     som_set r = {x. m_first s \<le> x \<and> x \<le> m_last s \<and> x \<notin> som_set s}) \<and>
   returns (SetOfMonads_fillGaps s g) (\<lambda>r. som_wf r \<and> som_set r = som_set s \<union> small_gaps (som_set s) g)"
  using getGaps_correct fillGaps_correct by blast

theorem getGaps_exact_witness:
  "returns (SetOfMonads_getGaps demo_som) (\<lambda>r. som_wf r \<and>
     som_set r = {x. m_first demo_som \<le> x \<and> x \<le> m_last demo_som \<and> x \<notin> som_set demo_som}) \<and>
   returns (SetOfMonads_fillGaps demo_som 4)
     (\<lambda>r. som_wf r \<and> som_set r = som_set demo_som \<union> small_gaps (som_set demo_som) 4)"
  by (rule getGaps_exact[OF demo_som_wf])

section \<open>Shifting, inserting, cutting\<close>

text \<open>
  \<open>fillInsertRange(first, last)\<close>, branch by branch: it throws when the range is the
  wrong way round, returns the set unchanged when it ends before the range, only shifts a
  set that starts at or after \<open>last\<close> (the range is not inserted then), and otherwise
  returns the monads before \<open>first\<close>, the ones from \<open>first\<close> on shifted by the length of the
  range with the space before each monad of the range filled, and the range itself.
\<close>

theorem fillInsertRange_exact:
  "som_wf s \<Longrightarrow> 0 \<le> f \<Longrightarrow> l \<le> MAX_MONAD \<Longrightarrow>
   \<forall>x\<in>som_set s. x + (l - f + 1) \<le> MAX_MONAD \<Longrightarrow> som_set s \<noteq> {} \<Longrightarrow>
   (if l < f then SetOfMonads_fillInsertRange s f l = Inl BadMonadsException
    else returns (SetOfMonads_fillInsertRange s f l) (\<lambda>r. som_wf r \<and>
      som_set r =
        (if m_last s < f then som_set s
         else if l \<le> m_first s then (\<lambda>x. x + (l - f + 1)) ` som_set s
         else fill_image f l (som_set s) \<union> {f..l})))"
proof -
  assume s: "som_wf s" "som_set s \<noteq> {}" and f: "0 \<le> f" and l: "l \<le> MAX_MONAD"
    and room: "\<forall>x\<in>som_set s. x + (l - f + 1) \<le> MAX_MONAD"
  have ne: "monad_ms s \<noteq> []" using s som_set_eq_empty by blast
  consider (bad) "l < f" | (after) "f \<le> l" "m_last s < f"
    | (shift) "f \<le> l" "\<not> m_last s < f" "l \<le> m_first s" | (fill) "f \<le> l" "\<not> m_last s < f" "\<not> l \<le> m_first s"
    by linarith
  then show ?thesis
  proof cases
    case shift
    have "0 \<le> m_first s" "m_last s + (l - f + 1) \<le> MAX_MONAD"
      using som_in_range[OF s(1) som_bounds(1)[OF s(1) ne]] room som_bounds(2)[OF s(1) ne] by auto
    then show ?thesis
      using shift offset_correct[of s "l - f + 1"] s by (simp add: SetOfMonads_fillInsertRange_def ASSERT_THROW_X_def)
  next
    case fill
    then show ?thesis using fillInsertRange_correct[OF s(1) f fill(1) l room] by simp
  qed (use s in \<open>simp_all add: SetOfMonads_fillInsertRange_def ASSERT_THROW_X_def\<close>)
qed

theorem fillInsertRange_exact_witness:
  "returns (SetOfMonads_fillInsertRange demo_som 2 8) (\<lambda>r. som_wf r \<and>
      som_set r =
        (if m_last demo_som < 2 then som_set demo_som
         else if 8 \<le> m_first demo_som then (\<lambda>x. x + (8 - 2 + 1)) ` som_set demo_som
         else fill_image 2 8 (som_set demo_som) \<union> {2..8}))"
proof -
  have "\<forall>x\<in>som_set demo_som. x + (8 - 2 + 1) \<le> MAX_MONAD" "som_set demo_som \<noteq> {}"
    by (auto simp: demo_som_def som_set_def mse_set_def MAX_MONAD_def)
  then show ?thesis using fillInsertRange_exact[OF demo_som_wf, of 2 8] by (simp add: MAX_MONAD_def)
qed

text \<open>
  \<open>offset(m)\<close> of a non-empty set shifts every monad by \<open>m\<close> and keeps the invariant;
  of the empty set it moves the cached bounds, so the set that results from adding a
  stretch that ends before \<open>m\<close> has a wrong last monad.
\<close>

theorem offset_exact:
  "som_wf s \<Longrightarrow> 0 \<le> m_first s + m \<Longrightarrow>
   (if som_set s = {}
    then \<forall>e. mse_ok e \<and> last_m e < m \<longrightarrow>
           (let t = SetOfMonads_addMSE (SetOfMonads_offset s m) e
            in som_set t = mse_set e \<and> m_last t = m \<and> \<not> som_wf t)
    else m_last s + m \<le> MAX_MONAD \<longrightarrow> som_wf (SetOfMonads_offset s m) \<and>
           som_set (SetOfMonads_offset s m) = (\<lambda>x. x + m) ` som_set s)"
proof -
  assume s: "som_wf s" and m: "0 \<le> m_first s + m"
  have "let t = SetOfMonads_addMSE (SetOfMonads_offset s m) e
        in som_set t = mse_set e \<and> m_last t = m \<and> \<not> som_wf t"
    if "som_set s = {}" "mse_ok e" "last_m e < m" for e
    using that s som_set_eq_empty[OF s]
    by (simp add: SetOfMonads_offset_def SetOfMonads_addMSE_def SetOfMonads_isEmpty_def som_wf_def
        bounds_ok_def som_set_def mse_ok_def Let_def)
  then show ?thesis using offset_correct[OF s _ m] by simp
qed

theorem offset_exact_witness:
  "(let t = SetOfMonads_addMSE (SetOfMonads_offset SetOfMonads_empty 100) (MSE 1 2)
    in som_set t = mse_set (MSE 1 2) \<and> m_last t = 100 \<and> \<not> som_wf t) \<and>
   som_wf (SetOfMonads_offset demo_som 100) \<and>
   som_set (SetOfMonads_offset demo_som 100) = (\<lambda>x. x + 100) ` som_set demo_som"
proof
  have "mse_ok (MSE 1 2) \<and> last_m (MSE 1 2) < 100" "0 \<le> m_first SetOfMonads_empty + 100"
    by (simp_all add: SetOfMonads_empty_def MAX_MONAD_def mse_ok_def)
  then show "let t = SetOfMonads_addMSE (SetOfMonads_offset SetOfMonads_empty 100) (MSE 1 2)
    in som_set t = mse_set (MSE 1 2) \<and> m_last t = 100 \<and> \<not> som_wf t"
    using offset_exact[OF som_wf_empty, of 100] unfolding som_set_empty if_P[OF refl] by blast
  have "som_set demo_som \<noteq> {}" "m_first demo_som = 1" "m_last demo_som = 30"
    by (auto simp: demo_som_def som_set_def mse_set_def)
  then show "som_wf (SetOfMonads_offset demo_som 100) \<and>
   som_set (SetOfMonads_offset demo_som 100) = (\<lambda>x. x + 100) ` som_set demo_som"
    using offset_exact[OF demo_som_wf, of 100] by (simp add: MAX_MONAD_def)
qed

text \<open>
  \<open>removeMonadsBefore\<close> returns exactly the monads from the given one on, in
  well-formed stretches with right bounds. The map key of a stretch that was cut stays the
  old one, though: on the set 1-10, 20-30, cutting at 5 and then adding 1-2 makes
  \<open>insert\<close> drop the new stretch and the check at the end of \<open>addMSE\<close> throws.
\<close>

theorem removeMonadsBefore_exact:
  "(fsom_wf f \<longrightarrow> returns (FastSetOfMonads_removeMonadsBefore f m)
     (\<lambda>g. fsom_list_wf g \<and> fsom_set g = {x \<in> fsom_set f. m \<le> x})) \<and>
   bind_res (FastSetOfMonads_removeMonadsBefore demo_fast 5) (\<lambda>g. FastSetOfMonads_add_range g 1 2) =
     Inl EmdrosException"
proof
  show "fsom_wf f \<longrightarrow> returns (FastSetOfMonads_removeMonadsBefore f m)
     (\<lambda>g. fsom_list_wf g \<and> fsom_set g = {x \<in> fsom_set f. m \<le> x})"
    using removeMonadsBefore_correct by blast
  show "bind_res (FastSetOfMonads_removeMonadsBefore demo_fast 5) (\<lambda>g. FastSetOfMonads_add_range g 1 2) =
     Inl EmdrosException"
    by code_simp
qed

theorem removeMonadsBefore_exact_witness:
  "returns (FastSetOfMonads_removeMonadsBefore demo_fast 5)
     (\<lambda>g. fsom_list_wf g \<and> fsom_set g = {x \<in> fsom_set demo_fast. 5 \<le> x})"
  using removeMonadsBefore_exact[of demo_fast 5] demo_fast_wf by simp

text \<open>
  \<open>operator=\<close> on a store of sets: assigning one object to another makes it equal to
  it and changes no third one; assigning a set to itself makes it empty.
\<close>

theorem assign_exact:
  "(a \<noteq> b \<longrightarrow> SetOfMonads_assign st a b = st(a := st b)) \<and>
   (som_wf (st a) \<longrightarrow> SetOfMonads_assign st a a = st(a := SetOfMonads_empty))"
proof -
  have "SetOfMonads_copyOther s t = t" if "monad_ms s = []" for s t :: SetOfMonads
    using that by (simp add: SetOfMonads_copyOther_def)
  then show ?thesis
    by (auto simp: SetOfMonads_assign_def SetOfMonads_isEmpty_def SetOfMonads_clear_def SetOfMonads_empty_def
        som_wf_def bounds_ok_def Let_def fun_eq_iff)
qed

theorem assign_exact_witness:
  "SetOfMonads_assign ((\<lambda>_. demo_som)(1 := demo_som2)) (0::nat) 1 =
     ((\<lambda>_. demo_som)(1 := demo_som2))(0 := ((\<lambda>_. demo_som)(1 := demo_som2)) 1) \<and>
   SetOfMonads_assign (\<lambda>_. demo_som) (0::nat) 0 = (\<lambda>_. demo_som)(0 := SetOfMonads_empty)"
  using assign_exact[of "0::nat" 1 "(\<lambda>_. demo_som)(1 := demo_som2)"]
    assign_exact[of "0::nat" 0 "\<lambda>_. demo_som"] demo_som_wf by simp

end
