(* ===== verification/Decimal.thy ===== *)
theory Decimal
  imports Emdros_Prelude
begin

text \<open>
  Characters and decimal numbers as the C++ code sees them: a \<open>char\<close> as a signed byte, the
  decimal text an \<open>ostream\<close> writes for an integer, and the value of a run of digits.
\<close>

definition schar :: "char \<Rightarrow> int" where
  "schar c = (let n = of_char c in if n \<ge> 128 then n - 256 else n)"

definition char_plus :: "int \<Rightarrow> char \<Rightarrow> char" where
  "char_plus d c = char_of (d + of_char c)"

fun dec_nat :: "nat \<Rightarrow> string" where
  "dec_nat n = (if n < 10 then [char_plus (int n) CHR ''0'']
                else dec_nat (n div 10) @ [char_plus (int (n mod 10)) CHR ''0''])"

declare dec_nat.simps [simp del]

definition dec_int :: "int \<Rightarrow> string" where
  "dec_int x = (if x < 0 then CHR ''-'' # dec_nat (nat (- x)) else dec_nat (nat x))"

definition is_digit :: "char \<Rightarrow> bool" where
  "is_digit c \<longleftrightarrow> 48 \<le> schar c \<and> schar c \<le> 57"

definition digit_val :: "char \<Rightarrow> int" where
  "digit_val c = schar c - schar CHR ''0''"

section \<open>Lemmas\<close>

lemma schar_char_plus [simp]: "0 \<le> d \<Longrightarrow> d < 80 \<Longrightarrow> schar (char_plus d CHR ''0'') = 48 + d"
  by (simp add: schar_def char_plus_def)

lemma schar_zero [simp]: "schar CHR ''0'' = 48"
  by (simp add: schar_def)

lemma schar_eq_iff [simp]: "schar c = schar d \<longleftrightarrow> c = d"
proof
  assume "schar c = schar d"
  moreover have "0 \<le> (of_char e :: int) \<and> of_char e < (256 :: int)" for e :: char
    by (metis of_char_mod_256 pos_mod_bound pos_mod_sign zero_less_numeral)
  ultimately have "(of_char c :: int) = of_char d"
    unfolding schar_def Let_def by (smt (verit))
  then show "c = d" by simp
qed simp

lemma dec_nat_nonempty [simp]: "dec_nat n \<noteq> []"
  by (subst dec_nat.simps) simp

lemma dec_nat_digits: "c \<in> set (dec_nat n) \<Longrightarrow> is_digit c"
proof (induction n rule: dec_nat.induct)
  case (1 n)
  then show ?case by (subst (asm) (2) dec_nat.simps) (auto simp: is_digit_def split: if_splits)
qed

text \<open>Reading the digits back, most significant first, gives the number.\<close>

lemma dec_nat_value: "foldl (\<lambda>v c. v * 10 + digit_val c) 0 (dec_nat n) = int n"
proof (induction n rule: dec_nat.induct)
  case (1 n)
  have "int (n div 10) * 10 + int (n mod 10) = int n" by presburger
  with 1 show ?case
    by (subst dec_nat.simps) (auto simp: digit_val_def)
qed

end
