(* ===== verification/MonadStrings.thy ===== *)
theory MonadStrings
  imports SetOfMonads Decimal "HOL-Library.Word"
begin

unbundle bit_operations_syntax

text \<open>
  The texts of a set of monads in \<^verbatim>\<open>EMdF/monads.cpp\<close>: the canonical form that
  \<open>toString\<close> writes and \<open>fromString\<close> reads, and the two compact forms, digits of six bits
  each with \<open>y\<close> and \<open>z\<close> as separators, that are stored in the database.
\<close>

section \<open>The canonical form\<close>

definition mse_putme :: "mse \<Rightarrow> string" where
  "mse_putme e = (if first_m e = last_m e then dec_int (first_m e)
                  else dec_int (first_m e) @ ''-'' @ dec_int (last_m e))"

primrec putme_loop :: "string \<Rightarrow> mse list \<Rightarrow> string" where
  "putme_loop s [] = s"
| "putme_loop s (e # i) =
     (let s1 = s @ mse_putme e
      in putme_loop (if it_hasNext i then s1 @ '', '' else s1) i)"

definition SetOfMonads_putme :: "string \<Rightarrow> SetOfMonads \<Rightarrow> string" where
  "SetOfMonads_putme s som = putme_loop (s @ '' { '') (monad_ms som) @ '' } ''"

definition SetOfMonads_toString :: "SetOfMonads \<Rightarrow> string" where
  "SetOfMonads_toString som = SetOfMonads_putme [] som"

datatype eFSState = kNone | kFirst | kLast | kFinished

record fromString_state =
  fs_state :: eFSState
  fs_first :: monad_m
  fs_last :: monad_m
  fs_som :: SetOfMonads

text \<open>One character: \<open>add\<close> may throw when a range is the wrong way round.\<close>

definition fromString_add :: "fromString_state \<Rightarrow> SetOfMonads res" where
  "fromString_add st =
     (if fs_state st = kLast
      then if fs_first st \<noteq> -1 \<and> fs_last st \<noteq> -1
           then SetOfMonads_add_range (fs_som st) (fs_first st) (fs_last st)
           else Inr (fs_som st)
      else if fs_state st = kFirst
      then if fs_first st \<noteq> -1 then Inr (SetOfMonads_add (fs_som st) (fs_first st))
           else Inr (fs_som st)
      else Inr (fs_som st))"

definition push_digit :: "monad_m \<Rightarrow> char \<Rightarrow> monad_m" where
  "push_digit v c = (if v = -1 then digit_val c else i32 (v * 10 + digit_val c))"

definition fromString_step :: "fromString_state \<Rightarrow> char \<Rightarrow> fromString_state res" where
  "fromString_step st c =
     (if c = CHR ''{'' then Inr (st\<lparr>fs_state := kFirst\<rparr>)
      else if c = CHR ''-'' then Inr (st\<lparr>fs_state := kLast\<rparr>)
      else if c = CHR '','' \<or> c = CHR ''}''
      then bind_res (fromString_add st) (\<lambda>som.
             let st1 = st\<lparr>fs_som := som\<rparr>
             in Inr (if c = CHR '','' then st1\<lparr>fs_first := -1, fs_last := -1, fs_state := kFirst\<rparr>
                     else st1\<lparr>fs_state := kFinished\<rparr>))
      else if is_digit c
      then Inr (if fs_state st = kFirst then st\<lparr>fs_first := push_digit (fs_first st) c\<rparr>
                else if fs_state st = kLast then st\<lparr>fs_last := push_digit (fs_last st) c\<rparr>
                else st)
      else Inr st)"

definition SetOfMonads_fromString :: "SetOfMonads \<Rightarrow> string \<Rightarrow> SetOfMonads res" where
  "SetOfMonads_fromString som instr =
     bind_res (foldM_res fromString_step
         \<lparr>fs_state = kNone, fs_first = -1, fs_last = -1, fs_som = SetOfMonads_clear som\<rparr> instr)
       (\<lambda>st. Inr (fs_som st))"

section \<open>The compact forms\<close>

definition num2string :: "string \<Rightarrow> monad_m \<Rightarrow> string" where
  "num2string result m =
     (let m0 = m AND 0x3F;
          m1 = drop_bit 6 m AND 0x3F;
          m2 = drop_bit 12 m AND 0x3F;
          m3 = drop_bit 18 m AND 0x3F;
          m4 = drop_bit 24 m AND 0x3F;
          m5 = drop_bit 30 m AND 0x3F;
          step = (\<lambda>(r, begun) d. if d > 0 \<or> begun then (r @ [char_plus d CHR ''0''], True) else (r, begun))
      in fst (foldl step (result, False) [m5, m4, m3, m2, m1, m0]))"

text \<open>The loop of \<open>toCompactString\<close>, with the text so far and the previous monad.\<close>

primrec toCompactString_loop :: "string \<Rightarrow> monad_m \<Rightarrow> mse list \<Rightarrow> string" where
  "toCompactString_loop result prev [] = result"
| "toCompactString_loop result prev (e # ci) =
     (let r1 = num2string result (first_m e - prev);
          (r2, prev2) = (if last_m e \<noteq> first_m e
                         then (num2string (r1 @ ''z'') (last_m e - first_m e), last_m e)
                         else (r1, first_m e));
          r3 = (if it_hasNext ci then r2 @ ''y'' else r2)
      in toCompactString_loop r3 prev2 ci)"

definition SetOfMonads_toCompactString :: "SetOfMonads \<Rightarrow> string" where
  "SetOfMonads_toCompactString s = toCompactString_loop [] 0 (monad_ms s)"

primrec toCompactStringFM_loop :: "string \<Rightarrow> monad_m \<Rightarrow> bool \<Rightarrow> mse list \<Rightarrow> string" where
  "toCompactStringFM_loop result prev bIsNotFirst [] = result"
| "toCompactStringFM_loop result prev bIsNotFirst (e # ci) =
     (let r1 = (if bIsNotFirst then num2string result (first_m e - prev) else result);
          (r2, prev2) = (if last_m e \<noteq> first_m e
                         then (num2string (if bIsNotFirst then r1 @ ''z'' else r1)
                                 (last_m e - first_m e), last_m e)
                         else (r1, first_m e))
      in if it_hasNext ci then toCompactStringFM_loop (r2 @ ''y'') prev2 True ci
         else toCompactStringFM_loop r2 prev2 bIsNotFirst ci)"

definition SetOfMonads_toCompactStringFM :: "SetOfMonads \<Rightarrow> string" where
  "SetOfMonads_toCompactStringFM s =
     (if SetOfMonads_isEmpty s then ''zz''
      else toCompactStringFM_loop [] (m_first s) False (monad_ms s))"

text \<open>Reading the compact form: the local variables of \<open>fromCompactString\<close> and its loop.\<close>

record compact_state =
  cs_prev :: monad_m
  cs_first :: monad_m
  cs_cur :: monad_m
  cs_sep :: char
  cs_som :: SetOfMonads

definition fromCompactString_step :: "compact_state \<Rightarrow> char \<Rightarrow> compact_state res" where
  "fromCompactString_step st c =
     (if c = CHR ''y''
      then if cs_sep st = CHR ''y''
           then let f = i32 (cs_cur st + cs_prev st)
                in Inr \<lparr>cs_prev = f, cs_first = f, cs_cur = 0, cs_sep = c,
                        cs_som = SetOfMonads_add (cs_som st) f\<rparr>
           else if cs_sep st = CHR ''z''
           then let l = i32 (cs_cur st + cs_prev st)
                in bind_res (SetOfMonads_add_range (cs_som st) (cs_first st) l)
                     (\<lambda>som. Inr \<lparr>cs_prev = l, cs_first = cs_first st, cs_cur = 0, cs_sep = c, cs_som = som\<rparr>)
           else Inr (st\<lparr>cs_sep := c\<rparr>)
      else if c = CHR ''z''
      then let f = i32 (cs_cur st + cs_prev st)
           in Inr (st\<lparr>cs_first := f, cs_prev := f, cs_cur := 0, cs_sep := c\<rparr>)
      else Inr (st\<lparr>cs_cur := i32 (push_bit 6 (cs_cur st) + (schar c - schar CHR ''0''))\<rparr>))"

definition fromCompactString_finish :: "compact_state \<Rightarrow> SetOfMonads res" where
  "fromCompactString_finish st =
     (if cs_sep st = CHR ''y'' then Inr (SetOfMonads_add (cs_som st) (i32 (cs_cur st + cs_prev st)))
      else if cs_sep st = CHR ''z''
      then SetOfMonads_add_range (cs_som st) (cs_first st) (i32 (cs_cur st + cs_prev st))
      else Inr (cs_som st))"

definition SetOfMonads_fromCompactString :: "SetOfMonads \<Rightarrow> string \<Rightarrow> SetOfMonads res" where
  "SetOfMonads_fromCompactString som inStr =
     (if inStr = [] then Inr som
      else bind_res (foldM_res fromCompactString_step
             \<lparr>cs_prev = 0, cs_first = 0, cs_cur = 0, cs_sep = CHR ''y'', cs_som = som\<rparr> inStr)
             fromCompactString_finish)"

text \<open>
  The reader of the form with a separate first monad has two inner loops: the first one
  consumes the separator that ends a number, the second one leaves it (\<open>--i\<close>). Both hand
  back the number, the last character read and the rest of the text.
\<close>

definition is_sep :: "char \<Rightarrow> bool" where
  "is_sep c \<longleftrightarrow> c = CHR ''z'' \<or> c = CHR ''y''"

definition or_sextet :: "monad_m \<Rightarrow> char \<Rightarrow> monad_m" where
  "or_sextet v c = i32 (push_bit 6 v) OR (schar c - schar CHR ''0'')"

fun read_first :: "monad_m \<Rightarrow> char \<Rightarrow> string \<Rightarrow> monad_m \<times> char \<times> string" where
  "read_first v c [] = (v, c, [])"
| "read_first v c (d # s) =
     (if is_sep d then (v, d, s)
      else if s = [] then (or_sextet v d, d, s)
      else read_first (or_sextet v d) d s)"

fun read_last :: "monad_m \<Rightarrow> char \<Rightarrow> string \<Rightarrow> monad_m \<times> char \<times> string" where
  "read_last v c [] = (v, c, [])"
| "read_last v c (d # s) =
     (if is_sep d then (v, d, d # s)
      else if s = [] then (or_sextet v d, d, s)
      else read_last (or_sextet v d) d s)"

lemma read_first_shorter: "s \<noteq> [] \<Longrightarrow> read_first v c s = (w, d, t) \<Longrightarrow> length t < length s"
  by (induction v c s rule: read_first.induct) (auto split: if_splits simp: less_Suc_eq)

lemma read_last_shorter:
  "s \<noteq> [] \<Longrightarrow> read_last v c s = (w, d, t) \<Longrightarrow> length t \<le> length s \<and> length (tl t) < length s"
  by (induction v c s rule: read_last.induct) (auto split: if_splits)

function fromCompactStringFM_loop ::
  "SetOfMonads \<Rightarrow> monad_m \<Rightarrow> monad_m \<Rightarrow> char \<Rightarrow> bool \<Rightarrow> string \<Rightarrow> SetOfMonads res" where
  "fromCompactStringFM_loop som prev first c bIsNotFirst s =
     (if s = [] then Inr som
      else let (v, c1, s1) = (if bIsNotFirst then read_first 0 c s else (first, c, s));
               f = i32 (v + prev)
           in if s1 = [] then Inr (SetOfMonads_add som f)
              else if c1 = CHR ''z'' \<or> \<not> bIsNotFirst
              then let (w, c2, s2) = read_last 0 c1 s1;
                       l = i32 (w + f)
                   in bind_res (SetOfMonads_add_range som f l)
                        (\<lambda>som1. fromCompactStringFM_loop som1 l f (if s2 = [] then c2 else hd s2) True (tl s2))
              else fromCompactStringFM_loop (if c1 = CHR ''y'' then SetOfMonads_add som f else som)
                     f f c1 True s1)"
  by pat_completeness auto
termination
proof (relation "measure (\<lambda>(som, prev, first, c, b, s). length s)", goal_cases)
  case 1
  show ?case by simp
next
  case (2 som prev first c b s x v y c1 s1 f z w u c2 s2 l som1)
  then have "length s1 \<le> length s"
    using read_first_shorter[of s 0 c v c1 s1] by (auto split: if_splits)
  then show ?case using 2 read_last_shorter[of s1 0 c1 w c2 s2] by auto
next
  case (3 som prev first c b s x v y c1 s1 f)
  then show ?case using read_first_shorter[of s 0 c v c1 s1] by (auto split: if_splits)
qed

declare fromCompactStringFM_loop.simps [simp del]

definition SetOfMonads_fromCompactStringFM ::
  "SetOfMonads \<Rightarrow> string \<Rightarrow> monad_m \<Rightarrow> SetOfMonads res" where
  "SetOfMonads_fromCompactStringFM som inStr first_monad =
     (if inStr = ''zz'' then Inr som
      else if inStr = [] then Inr (SetOfMonads_add som first_monad)
      else fromCompactStringFM_loop som first_monad 0 (hd inStr) False inStr)"

end
