(* ===== verification/MonadStrings_Props.thy ===== *)
theory MonadStrings_Props
  imports MonadStrings SetOfMonads_Props
begin

text \<open>
  The texts of a set of monads can be read back: \<open>fromString\<close> after \<open>toString\<close>,
  \<open>fromCompactString\<close> after \<open>toCompactString\<close> (with the one exception), and the form
  with a separate first monad.
\<close>

section \<open>Shared facts\<close>

text \<open>The value of digits in base \<open>b\<close> grows with every digit.\<close>

lemma foldl_base_ge:
  assumes "\<forall>d\<in>set ds. 0 \<le> d" "0 \<le> v" "1 \<le> b"
  shows "(v :: int) \<le> foldl (\<lambda>v d. v * b + d) v ds"
  using assms(1,2)
proof (induction ds arbitrary: v)
  case (Cons d ds)
  have "v * 1 \<le> v * b" using Cons.prems(2) assms(3) by (intro mult_left_mono) auto
  then have "v \<le> v * b + d" using Cons.prems by simp
  also have "\<dots> \<le> foldl (\<lambda>v d. v * b + d) (v * b + d) ds"
    using Cons.prems \<open>v \<le> v * b + d\<close> by (intro Cons.IH) auto
  finally show ?case by simp
qed simp

lemma copy_from_stretches:
  assumes "som_wf s" shows "foldl SetOfMonads_addMSE SetOfMonads_empty (monad_ms s) = s"
proof -
  have pure: "foldM_res (\<lambda>s e. Inr (SetOfMonads_addMSE s e)) t xs = Inr (foldl SetOfMonads_addMSE t xs)" for t xs
    by (induction xs arbitrary: t) auto
  have "returns (foldM_res (\<lambda>s e. Inr (SetOfMonads_addMSE s e)) SetOfMonads_empty (monad_ms s))
          (\<lambda>t. som_wf t \<and> monad_ms t = monad_ms s)"
    using sm.add_all_copy assms by (simp add: som_wf_def)
  then show ?thesis using assms sm.stretches_inj by (simp add: pure)
qed

lemma add_singleton: "SetOfMonads_add s m = SetOfMonads_addMSE s (MSE m m)"
  by (simp add: SetOfMonads_add_def MonadSetElement_singleton_def)

section \<open>Six-bit digits\<close>

definition sextets :: "int \<Rightarrow> int list" where
  "sextets m = map (\<lambda>k. m div 2 ^ k mod 64) [30, 24, 18, 12, 6, 0]"

definition sextet_string :: "int \<Rightarrow> string" where
  "sextet_string m = map (\<lambda>d. char_plus d CHR ''0'') (dropWhile (\<lambda>d. d = 0) (sextets m))"

lemma num2string_fold:
  "\<forall>d\<in>set ds. 0 \<le> d \<Longrightarrow>
   fst (foldl (\<lambda>(r, begun) d. if d > 0 \<or> begun then (r @ [char_plus d CHR ''0''], True) else (r, begun))
     (r, b) ds) =
   r @ map (\<lambda>d. char_plus d CHR ''0'') (if b then ds else dropWhile (\<lambda>d. d = 0) ds)"
  by (induction ds arbitrary: r b) auto

lemma and_63: "(x :: int) AND 0x3F = x mod 64"
  using take_bit_eq_mask[of 6 x] by (simp add: take_bit_eq_mod mask_numeral and.commute)

lemma num2string_eq: "num2string r m = r @ sextet_string m"
proof -
  have "\<forall>d\<in>set (sextets m). 0 \<le> d" by (simp add: sextets_def)
  from num2string_fold[OF this, of r False] show ?thesis
    by (simp add: num2string_def sextet_string_def sextets_def and_63 drop_bit_eq_div Let_def)
qed

lemma sextet_digits: "d \<in> set (dropWhile P (sextets m)) \<Longrightarrow> 0 \<le> d \<and> d < 64"
  using set_dropWhileD[of d P "sextets m"] by (auto simp: sextets_def)

lemma foldl_dropWhile_zero: "foldl (\<lambda>v d. v * b + d) 0 (dropWhile (\<lambda>d. d = 0) ds) = foldl (\<lambda>v d. v * b + d) (0::int) ds"
  by (induction ds) auto

lemma horner6:
  fixes m :: int
  assumes "m = a1 * 64 + d0" "d5 = a5" "a4 = a5 * 64 + d4" "a3 = a4 * 64 + d3" "a2 = a3 * 64 + d2" "a1 = a2 * 64 + d1"
  shows "((((d5 * 64 + d4) * 64 + d3) * 64 + d2) * 64 + d1) * 64 + d0 = m"
  using assms by simp

lemma sextets_value:
  assumes "0 \<le> m" "m < 2 ^ 36"
  shows "foldl (\<lambda>v d. v * 64 + d) 0 (dropWhile (\<lambda>d. d = 0) (sextets m)) = m"
proof -
  have step: "m div 2 ^ k = m div 2 ^ (k + 6) * 64 + m div 2 ^ k mod 64" for k
    by (simp add: power_add zdiv_zmult2_eq)
  have "m div 2 ^ 30 < 64" using assms by simp
  then have top: "m div 2 ^ 30 mod 64 = m div 2 ^ 30"
    using assms by (intro mod_pos_pos_trivial) (auto simp: pos_imp_zdiv_nonneg_iff)
  have sums: "(24 :: nat) + 6 = 30" "(18 :: nat) + 6 = 24" "(12 :: nat) + 6 = 18" "(6 :: nat) + 6 = 12" by simp_all
  have "m = m div 2 ^ 6 * 64 + m div 2 ^ 0 mod 64" by simp
  then show ?thesis
    using top step[of 24, unfolded sums] step[of 18, unfolded sums] step[of 12, unfolded sums]
      step[of 6, unfolded sums]
    unfolding foldl_dropWhile_zero sextets_def list.map foldl_Cons foldl_Nil mult_zero_left add_0_left
    by (intro horner6)
qed

lemma sextet_string_Nil: "0 \<le> m \<Longrightarrow> m \<le> MAX_MONAD \<Longrightarrow> sextet_string m = [] \<longleftrightarrow> m = 0"
proof
  assume m: "0 \<le> m" "m \<le> MAX_MONAD" "sextet_string m = []"
  have "foldl (\<lambda>v d. v * 64 + d) 0 (dropWhile (\<lambda>d. d = 0) (sextets m)) = m"
    using m by (intro sextets_value) (auto simp: MAX_MONAD_def)
  moreover have "dropWhile (\<lambda>d. d = 0) (sextets m) = []" using m(3) unfolding sextet_string_def by simp
  ultimately show "m = 0" by simp
qed (simp add: sextet_string_def sextets_def)

definition sextet_char :: "int \<Rightarrow> char" where
  "sextet_char d = char_plus d CHR ''0''"

lemma sextet_char_plain:
  assumes "0 \<le> d" "d < 64"
  shows "sextet_char d \<noteq> CHR ''y''" "sextet_char d \<noteq> CHR ''z''" "schar (sextet_char d) = 48 + d"
proof -
  show v: "schar (sextet_char d) = 48 + d" using assms by (simp add: sextet_char_def)
  have "schar CHR ''y'' = 121" "schar CHR ''z'' = 122" by (simp_all add: schar_def)
  then show "sextet_char d \<noteq> CHR ''y''" "sextet_char d \<noteq> CHR ''z''" using v assms by auto
qed

lemma sextet_char_not_sep: "0 \<le> d \<Longrightarrow> d < 64 \<Longrightarrow> \<not> is_sep (sextet_char d)"
  by (simp add: is_sep_def sextet_char_plain)

text \<open>Every number up to \<open>MAX_MONAD\<close> is a list of plain digits with that value.\<close>

lemma sextet_string_digits:
  assumes "0 \<le> m" "m \<le> MAX_MONAD"
  obtains ds where "sextet_string m = map sextet_char ds" "\<forall>d\<in>set ds. 0 \<le> d \<and> d < 64"
    "foldl (\<lambda>v d. v * 64 + d) 0 ds = m" "foldl (\<lambda>v d. v * 64 + d) 0 ds \<le> MAX_MONAD"
proof
  let ?ds = "dropWhile (\<lambda>d. d = 0) (sextets m)"
  show "sextet_string m = map sextet_char ?ds" by (simp add: sextet_string_def sextet_char_def[abs_def])
  show "\<forall>d\<in>set ?ds. 0 \<le> d \<and> d < 64" using sextet_digits by blast
  show v: "foldl (\<lambda>v d. v * 64 + d) 0 ?ds = m"
    using assms by (intro sextets_value) (auto simp: MAX_MONAD_def)
  show "foldl (\<lambda>v d. v * 64 + d) 0 ?ds \<le> MAX_MONAD" using v assms by simp
qed

section \<open>Reading the compact form\<close>

lemma compact_digits_fold:
  "\<forall>d\<in>set ds. 0 \<le> d \<and> d < 64 \<Longrightarrow> 0 \<le> cs_cur st \<Longrightarrow>
   foldl (\<lambda>v d. v * 64 + d) (cs_cur st) ds \<le> MAX_MONAD \<Longrightarrow>
   foldM_res fromCompactString_step st (map sextet_char ds) =
     Inr (st\<lparr>cs_cur := foldl (\<lambda>v d. v * 64 + d) (cs_cur st) ds\<rparr>)"
proof (induction ds arbitrary: st)
  case (Cons d ds)
  let ?v = "cs_cur st * 64 + d"
  have d: "0 \<le> d" "d < 64" and v: "0 \<le> ?v" using Cons.prems by auto
  have "?v \<le> foldl (\<lambda>v d. v * 64 + d) ?v ds" using Cons.prems v by (intro foldl_base_ge) auto
  then have "i32 ?v = ?v" using Cons.prems v by simp
  then have "fromCompactString_step st (sextet_char d) = Inr (st\<lparr>cs_cur := ?v\<rparr>)"
    using sextet_char_plain[OF d] by (simp add: fromCompactString_step_def push_bit_eq_mult)
  then show ?case using Cons.IH[of "st\<lparr>cs_cur := ?v\<rparr>"] Cons.prems v by simp
qed simp

lemma compact_number:
  assumes "0 \<le> m" "m \<le> MAX_MONAD" "cs_cur st = 0"
  shows "foldM_res fromCompactString_step st (sextet_string m @ r) =
         foldM_res fromCompactString_step (st\<lparr>cs_cur := m\<rparr>) r"
proof -
  obtain ds where "sextet_string m = map sextet_char ds" "\<forall>d\<in>set ds. 0 \<le> d \<and> d < 64"
    "foldl (\<lambda>v d. v * 64 + d) 0 ds = m" "foldl (\<lambda>v d. v * 64 + d) 0 ds \<le> MAX_MONAD"
    using sextet_string_digits[OF assms(1,2)] by blast
  then show ?thesis using compact_digits_fold[of ds st] assms by (simp add: foldM_res_append)
qed

primrec compact_text :: "monad_m \<Rightarrow> mse list \<Rightarrow> string" where
  "compact_text p [] = []"
| "compact_text p (e # xs) = sextet_string (first_m e - p) @
     (if last_m e \<noteq> first_m e then CHR ''z'' # sextet_string (last_m e - first_m e) else []) @
     (if xs \<noteq> [] then CHR ''y'' # compact_text (last_m e) xs else [])"

lemma toCompactString_text: "toCompactString_loop r p xs = r @ compact_text p xs"
proof (induction xs arbitrary: r p)
  case (Cons e xs)
  then show ?case by (cases xs) (auto simp: num2string_eq it_hasNext_def Let_def)
qed simp

lemma compact_step_y:
  "cs_sep st = CHR ''y'' \<Longrightarrow> fromCompactString_step st CHR ''y'' =
     (let f = i32 (cs_cur st + cs_prev st)
      in Inr \<lparr>cs_prev = f, cs_first = f, cs_cur = 0, cs_sep = CHR ''y'', cs_som = SetOfMonads_add (cs_som st) f\<rparr>)"
  "cs_sep st = CHR ''z'' \<Longrightarrow> fromCompactString_step st CHR ''y'' =
     (let l = i32 (cs_cur st + cs_prev st)
      in bind_res (SetOfMonads_add_range (cs_som st) (cs_first st) l)
           (\<lambda>som. Inr \<lparr>cs_prev = l, cs_first = cs_first st, cs_cur = 0, cs_sep = CHR ''y'', cs_som = som\<rparr>))"
  by (simp_all add: fromCompactString_step_def)

lemma compact_step_z:
  "fromCompactString_step st CHR ''z'' =
     (let f = i32 (cs_cur st + cs_prev st)
      in Inr (st\<lparr>cs_first := f, cs_prev := f, cs_cur := 0, cs_sep := CHR ''z''\<rparr>))"
  by (simp add: fromCompactString_step_def)

text \<open>The text of one stretch leaves the reader with its bounds.\<close>

definition after_stretch :: "compact_state \<Rightarrow> mse \<Rightarrow> compact_state" where
  "after_stretch st e =
     (if last_m e = first_m e then st\<lparr>cs_cur := first_m e - cs_prev st\<rparr>
      else st\<lparr>cs_first := first_m e, cs_prev := first_m e, cs_sep := CHR ''z'', cs_cur := last_m e - first_m e\<rparr>)"

lemma compact_stretch:
  assumes "mse_ok e" "0 \<le> cs_prev st" "cs_prev st \<le> first_m e" "cs_cur st = 0" "cs_sep st = CHR ''y''"
  shows "foldM_res fromCompactString_step st (sextet_string (first_m e - cs_prev st) @
     (if last_m e \<noteq> first_m e then CHR ''z'' # sextet_string (last_m e - first_m e) else []) @ r) =
     foldM_res fromCompactString_step (after_stretch st e) r"
proof -
  have e: "0 \<le> first_m e" "first_m e \<le> last_m e" "last_m e \<le> MAX_MONAD"
    using assms by (auto simp: mse_ok_def)
  have n: "foldM_res fromCompactString_step st (sextet_string (first_m e - cs_prev st) @ t) =
           foldM_res fromCompactString_step (st\<lparr>cs_cur := first_m e - cs_prev st\<rparr>) t" for t
    using assms e by (intro compact_number) auto
  let ?z = "st\<lparr>cs_first := first_m e, cs_prev := first_m e, cs_cur := 0, cs_sep := CHR ''z''\<rparr>"
  have z: "foldM_res fromCompactString_step ?z (sextet_string (last_m e - first_m e) @ r) =
           foldM_res fromCompactString_step (?z\<lparr>cs_cur := last_m e - first_m e\<rparr>) r"
    using assms e by (intro compact_number) auto
  have "fromCompactString_step (st\<lparr>cs_cur := first_m e - cs_prev st\<rparr>) CHR ''z'' = Inr ?z"
    using e by (simp add: compact_step_z Let_def)
  then show ?thesis using n z by (simp add: after_stretch_def)
qed

lemma after_stretch_finish:
  assumes "mse_ok e" "cs_sep st = CHR ''y''"
  shows "fromCompactString_finish (after_stretch st e) = Inr (SetOfMonads_addMSE (cs_som st) e)"
  using assms by (cases e) (auto simp: fromCompactString_finish_def after_stretch_def add_singleton
      SetOfMonads_add_range_def mse_ok_def)

lemma after_stretch_y:
  assumes "mse_ok e" "cs_sep st = CHR ''y''"
  shows "fromCompactString_step (after_stretch st e) CHR ''y'' =
     Inr \<lparr>cs_prev = last_m e, cs_first = first_m e, cs_cur = 0, cs_sep = CHR ''y'',
          cs_som = SetOfMonads_addMSE (cs_som st) e\<rparr>"
proof (cases "last_m e = first_m e")
  case True
  then show ?thesis using assms
    by (cases e) (simp add: after_stretch_def compact_step_y(1) add_singleton mse_ok_def)
next
  case False
  then show ?thesis using assms
    by (cases e) (simp add: after_stretch_def compact_step_y(2) SetOfMonads_add_range_def mse_ok_def)
qed

lemma fromCompactString_text:
  assumes "mses_wf (e # xs)" "0 \<le> cs_prev st" "cs_prev st \<le> first_m e" "cs_cur st = 0" "cs_sep st = CHR ''y''"
  shows "bind_res (foldM_res fromCompactString_step st (compact_text (cs_prev st) (e # xs))) fromCompactString_finish =
         Inr (foldl SetOfMonads_addMSE (cs_som st) (e # xs))"
  using assms
proof (induction xs arbitrary: e st)
  case Nil
  then have "mse_ok e" by simp
  then show ?case
    using compact_stretch[of e st "[]"] Nil by (simp add: after_stretch_finish)
next
  case (Cons a xs)
  then have e: "mse_ok e" "mses_wf (a # xs)" "last_m e \<le> first_m a" by (auto simp: gap_before_def)
  let ?st = "\<lparr>cs_prev = last_m e, cs_first = first_m e, cs_cur = 0, cs_sep = CHR ''y'',
              cs_som = SetOfMonads_addMSE (cs_som st) e\<rparr>"
  have "foldM_res fromCompactString_step st (compact_text (cs_prev st) (e # a # xs)) =
        foldM_res fromCompactString_step ?st (compact_text (last_m e) (a # xs))"
    using compact_stretch[of e st "CHR ''y'' # compact_text (last_m e) (a # xs)"] Cons.prems e
    by (simp add: after_stretch_y del: compact_text.simps(2)[of _ a])
  then show ?case using Cons.IH[OF e(2), of ?st] e by (simp add: mse_ok_def)
qed

lemma compact_text_Nil:
  "mses_wf xs \<Longrightarrow> compact_text 0 xs = [] \<longleftrightarrow> xs = [] \<or> xs = [MSE 0 0]"
  by (cases xs) (auto simp: sextet_string_Nil mse_ok_def mse.expand)

lemma fromCompactString_toCompactString:
  assumes "som_wf s"
  shows "SetOfMonads_fromCompactString SetOfMonads_empty (SetOfMonads_toCompactString s) =
         Inr (if monad_ms s = [MSE 0 0] then SetOfMonads_empty else s)"
proof -
  have wf: "mses_wf (monad_ms s)" using assms by (simp add: som_wf_def)
  have enc: "SetOfMonads_toCompactString s = compact_text 0 (monad_ms s)"
    by (simp add: SetOfMonads_toCompactString_def toCompactString_text)
  show ?thesis
  proof (cases "compact_text 0 (monad_ms s) = []")
    case True
    then show ?thesis
      using assms wf sm.set_inj[OF assms som_wf_empty]
      by (auto simp: enc SetOfMonads_fromCompactString_def compact_text_Nil sm.stretches_empty)
  next
    case False
    then obtain e xs where xs: "monad_ms s = e # xs" by (cases "monad_ms s") auto
    then show ?thesis
      using fromCompactString_text[of e xs "\<lparr>cs_prev = 0, cs_first = 0, cs_cur = 0, cs_sep = CHR ''y'', cs_som = SetOfMonads_empty\<rparr>"]
        False wf copy_from_stretches[OF assms] compact_text_Nil[OF wf]
      by (auto simp: enc SetOfMonads_fromCompactString_def mse_ok_def simp del: compact_text.simps)
  qed
qed

section \<open>The compact form with a separate first monad\<close>

lemma or_sextet_digit:
  assumes "0 \<le> d" "d < 64" "0 \<le> v" "v * 64 + d \<le> MAX_MONAD"
  shows "or_sextet v (sextet_char d) = v * 64 + d"
proof -
  have "i32 (push_bit 6 v) = push_bit 6 v" using assms by (simp add: push_bit_eq_mult)
  moreover have "push_bit 6 v AND d = 0"
  proof (rule bit_eqI)
    have d: "d = take_bit 6 d" using assms by (simp add: take_bit_eq_mod)
    show "bit (push_bit 6 v AND d) n = bit 0 n" for n
      by (subst d) (simp add: bit_simps)
  qed
  then have "push_bit 6 v OR d = push_bit 6 v + d" by (rule disjunctive_add_eq_or[symmetric])
  ultimately show ?thesis
    using assms sextet_char_plain[of d] by (simp add: or_sextet_def push_bit_eq_mult)
qed

text \<open>What both inner loops do on a number followed by a separator or by the end.\<close>

lemma read_first_digits:
  assumes "\<forall>d\<in>set ds. 0 \<le> d \<and> d < 64" "0 \<le> v" "foldl (\<lambda>v d. v * 64 + d) v ds \<le> MAX_MONAD"
    "r = [] \<or> is_sep (hd r)" "ds \<noteq> [] \<or> r \<noteq> []"
  shows "\<exists>c'. read_first v c (map sextet_char ds @ r) = (foldl (\<lambda>v d. v * 64 + d) v ds, c', tl r) \<and>
           (r \<noteq> [] \<longrightarrow> c' = hd r)"
  using assms
proof (induction ds arbitrary: v c)
  case Nil
  then show ?case by (cases r) auto
next
  case (Cons d ds)
  let ?v = "v * 64 + d"
  have d: "0 \<le> d" "d < 64" and v: "0 \<le> ?v" using Cons.prems by auto
  have "?v \<le> foldl (\<lambda>v d. v * 64 + d) ?v ds" using Cons.prems v by (intro foldl_base_ge) auto
  then have "or_sextet v (sextet_char d) = ?v" using Cons.prems d by (intro or_sextet_digit) auto
  then show ?case
    using Cons.IH[of ?v "sextet_char d"] Cons.prems v sextet_char_not_sep[OF d]
    by (cases "ds = [] \<and> r = []") auto
qed

lemma read_last_digits:
  assumes "\<forall>d\<in>set ds. 0 \<le> d \<and> d < 64" "0 \<le> v" "foldl (\<lambda>v d. v * 64 + d) v ds \<le> MAX_MONAD"
    "r = [] \<or> is_sep (hd r)"
  shows "\<exists>c'. read_last v c (map sextet_char ds @ r) = (foldl (\<lambda>v d. v * 64 + d) v ds, c', r)"
  using assms
proof (induction ds arbitrary: v c)
  case Nil
  then show ?case by (cases r) auto
next
  case (Cons d ds)
  let ?v = "v * 64 + d"
  have d: "0 \<le> d" "d < 64" and v: "0 \<le> ?v" using Cons.prems by auto
  have "?v \<le> foldl (\<lambda>v d. v * 64 + d) ?v ds" using Cons.prems v by (intro foldl_base_ge) auto
  then have "or_sextet v (sextet_char d) = ?v" using Cons.prems d by (intro or_sextet_digit) auto
  then show ?case
    using Cons.IH[of ?v "sextet_char d"] Cons.prems v sextet_char_not_sep[OF d]
    by (cases "ds = [] \<and> r = []") auto
qed

lemma read_first_number:
  assumes "0 < m" "m \<le> MAX_MONAD" "r = [] \<or> is_sep (hd r)"
  obtains c' where "read_first 0 c (sextet_string m @ r) = (m, c', tl r)" "r \<noteq> [] \<longrightarrow> c' = hd r"
proof -
  obtain ds where ds: "sextet_string m = map sextet_char ds" "\<forall>d\<in>set ds. 0 \<le> d \<and> d < 64"
    "foldl (\<lambda>v d. v * 64 + d) 0 ds = m" "foldl (\<lambda>v d. v * 64 + d) 0 ds \<le> MAX_MONAD"
    using sextet_string_digits[of m] assms by (metis order_less_imp_le)
  have "ds \<noteq> []" using ds(3) assms(1) by auto
  then show thesis using read_first_digits[OF ds(2) _ ds(4) assms(3), of c] ds that by auto
qed

lemma read_last_number:
  assumes "0 \<le> m" "m \<le> MAX_MONAD" "r = [] \<or> is_sep (hd r)"
  obtains c' where "read_last 0 c (sextet_string m @ r) = (m, c', r)"
proof -
  obtain ds where ds: "sextet_string m = map sextet_char ds" "\<forall>d\<in>set ds. 0 \<le> d \<and> d < 64"
    "foldl (\<lambda>v d. v * 64 + d) 0 ds = m" "foldl (\<lambda>v d. v * 64 + d) 0 ds \<le> MAX_MONAD"
    using sextet_string_digits[OF assms(1,2)] by blast
  then show thesis using read_last_digits[OF ds(2) _ ds(4) assms(3), of c] that by auto
qed

lemma compact_text_nonempty:
  assumes "mse_ok a" "0 \<le> p" "p < first_m a" shows "compact_text p (a # xs) \<noteq> []"
  using assms sextet_string_Nil[of "first_m a - p"] by (simp add: mse_ok_def)

lemma FM_loop_Nil [simp]: "fromCompactStringFM_loop som p f c b [] = Inr som"
  by (simp add: fromCompactStringFM_loop.simps)

text \<open>The tail of the text after a stretch: nothing, or a separator and the next stretches.\<close>

definition tail_text :: "monad_m \<Rightarrow> mse list \<Rightarrow> string" where
  "tail_text p xs = (if xs \<noteq> [] then CHR ''y'' # compact_text p xs else [])"

lemma tail_text_sep: "tail_text p xs = [] \<or> is_sep (hd (tail_text p xs))"
  by (simp add: tail_text_def is_sep_def)

lemma FM_last_part:
  assumes e: "mse_ok e" and c: "c1 = CHR ''z'' \<or> \<not> b" and s: "s \<noteq> []" "s1 \<noteq> []"
    and rd: "(if b then read_first 0 c s else (f0, c, s)) = (v, c1, s1)" and v: "v + p = first_m e"
    and s1: "s1 = sextet_string (last_m e - first_m e) @ tail_text (last_m e) xs"
    and IH: "\<And>som f c. xs \<noteq> [] \<Longrightarrow> fromCompactStringFM_loop som (last_m e) f c True (compact_text (last_m e) xs) =
          Inr (foldl SetOfMonads_addMSE som xs)"
  shows "fromCompactStringFM_loop som p f0 c b s = Inr (foldl SetOfMonads_addMSE som (e # xs))"
proof -
  have bounds: "0 \<le> first_m e" "first_m e \<le> last_m e" "last_m e \<le> MAX_MONAD" using e by (auto simp: mse_ok_def)
  then obtain c' where rl: "read_last 0 c1 s1 = (last_m e - first_m e, c', tail_text (last_m e) xs)"
    using read_last_number[OF _ _ tail_text_sep, of "last_m e - first_m e" c1 "last_m e" xs]
    unfolding s1 by (metis diff_ge_0_iff_ge dual_order.trans le_add_same_cancel1 diff_le_eq)
  have step: "fromCompactStringFM_loop som p f0 c b s =
      bind_res (SetOfMonads_add_range som (first_m e) (last_m e)) (\<lambda>som1. fromCompactStringFM_loop som1 (last_m e) (first_m e)
        (if tail_text (last_m e) xs = [] then c' else hd (tail_text (last_m e) xs)) True (tl (tail_text (last_m e) xs)))"
    using s c bounds rd rl v by (subst fromCompactStringFM_loop.simps) (simp add: Let_def)
  show ?thesis
    unfolding step using IH bounds by (cases e) (simp add: SetOfMonads_add_range_def tail_text_def)
qed

lemma fromFM_text:
  assumes "mses_wf zs" "zs \<noteq> []" "0 \<le> p" "p < first_m (hd zs)"
  shows "fromCompactStringFM_loop som p f0 c True (compact_text p zs) =
         Inr (foldl SetOfMonads_addMSE som zs)"
  using assms
proof (induction zs arbitrary: p som f0 c)
  case (Cons e xs)
  then have e: "mse_ok e" "0 \<le> first_m e" "first_m e \<le> last_m e" "last_m e \<le> MAX_MONAD" and p: "0 \<le> p" "p < first_m e"
    by (auto simp: mse_ok_def)
  have after: "xs \<noteq> [] \<Longrightarrow> last_m e < first_m (hd xs)"
    using Cons.prems by (cases xs) (auto simp: gap_before_def)
  have IH: "fromCompactStringFM_loop t (last_m e) f d True (compact_text (last_m e) xs) =
      Inr (foldl SetOfMonads_addMSE t xs)" if "xs \<noteq> []" for t f d
    using Cons.IH[OF _ that] Cons.prems e after[OF that] by simp
  define r where "r = (if last_m e \<noteq> first_m e then CHR ''z'' # sextet_string (last_m e - first_m e) else []) @
     tail_text (last_m e) xs"
  have form: "compact_text p (e # xs) = sextet_string (first_m e - p) @ r" by (simp add: r_def tail_text_def)
  have ne: "compact_text p (e # xs) \<noteq> []" by (rule compact_text_nonempty[OF e(1) p])
  have "r = [] \<or> is_sep (hd r)" using tail_text_sep by (auto simp: r_def is_sep_def)
  then obtain c' where rd: "read_first 0 c (compact_text p (e # xs)) = (first_m e - p, c', tl r)" "r \<noteq> [] \<longrightarrow> c' = hd r"
    using read_first_number[of "first_m e - p" r c] p e unfolding form by auto
  show ?case
  proof (cases "last_m e = first_m e")
    case False
    have "sextet_string (last_m e - first_m e) \<noteq> []" using False e sextet_string_Nil by force
    then show ?thesis
      using False rd IH by (intro FM_last_part[OF e(1) _ ne _ _ _ _ IH]) (auto simp: r_def)
  next
    case True
    show ?thesis
    proof (cases xs)
      case Nil
      then show ?thesis using ne rd True e
        by (subst fromCompactStringFM_loop.simps) (cases e, simp add: r_def tail_text_def add_singleton)
    next
      case (Cons a ys)
      have "mse_ok a" using Cons.prems Cons by simp
      then have "compact_text (last_m e) xs \<noteq> []"
        using after Cons e compact_text_nonempty[of a "last_m e" ys] by (simp del: compact_text.simps)
      then show ?thesis using ne rd True e IH Cons
        by (subst fromCompactStringFM_loop.simps)
          (cases e, simp add: r_def tail_text_def add_singleton del: compact_text.simps)
    qed
  qed
qed simp

lemma toCompactStringFM_text:
  "toCompactStringFM_loop r p True xs = r @ compact_text p xs"
proof (induction xs arbitrary: r p)
  case (Cons e xs)
  then show ?case by (cases "xs = []") (simp_all add: num2string_eq it_hasNext_def)
qed simp

lemma toCompactStringFM_first:
  "toCompactStringFM_loop [] p False (e # xs) =
     (if last_m e \<noteq> first_m e then sextet_string (last_m e - first_m e) else []) @ tail_text (last_m e) xs"
  by (cases xs) (auto simp: num2string_eq it_hasNext_def Let_def toCompactStringFM_text tail_text_def)

lemma fromCompactStringFM_toCompactStringFM:
  assumes "som_wf s"
  shows "SetOfMonads_fromCompactStringFM SetOfMonads_empty (SetOfMonads_toCompactStringFM s) (m_first s) = Inr s"
proof (cases "monad_ms s")
  case Nil
  then have "s = SetOfMonads_empty" using assms sm.stretches_inj[OF assms som_wf_empty] by (simp add: sm.stretches_empty)
  then show ?thesis
    using Nil by (simp add: SetOfMonads_toCompactStringFM_def SetOfMonads_isEmpty_def SetOfMonads_fromCompactStringFM_def)
next
  case (Cons e xs)
  have wf: "mses_wf (e # xs)" and b: "m_first s = first_m e" using assms Cons by (auto simp: som_wf_def bounds_ok_def)
  then have e: "mse_ok e" "0 \<le> first_m e" "first_m e \<le> last_m e" "last_m e \<le> MAX_MONAD" by (auto simp: mse_ok_def)
  define t where "t = sextet_string (last_m e - first_m e) @ tail_text (last_m e) xs"
  have "sextet_string 0 = []" using sextet_string_Nil[of 0] by simp
  then have enc: "SetOfMonads_toCompactStringFM s = t"
    using Cons toCompactStringFM_first[of "m_first s" e xs]
    by (auto simp: SetOfMonads_toCompactStringFM_def SetOfMonads_isEmpty_def t_def)
  have copy: "foldl SetOfMonads_addMSE SetOfMonads_empty (e # xs) = s" using copy_from_stretches[OF assms] Cons by simp
  have IH: "fromCompactStringFM_loop t (last_m e) f d True (compact_text (last_m e) xs) =
      Inr (foldl SetOfMonads_addMSE t xs)" if "xs \<noteq> []" for t f d
    using fromFM_text[of xs "last_m e" t f d] wf e that by (cases xs) (auto simp: gap_before_def)
  have "t \<noteq> ''zz''"
  proof (cases "last_m e = first_m e")
    case True
    then show ?thesis using \<open>sextet_string 0 = []\<close> by (simp add: t_def tail_text_def)
  next
    case False
    obtain ds where ds: "sextet_string (last_m e - first_m e) = map sextet_char ds" "\<forall>d\<in>set ds. 0 \<le> d \<and> d < 64"
      by (rule sextet_string_digits[of "last_m e - first_m e"]) (use e in auto)
    have "sextet_string (last_m e - first_m e) \<noteq> []" using False e sextet_string_Nil by force
    then obtain d ds' where "ds = d # ds'" using ds by (cases ds) auto
    then have "sextet_string (last_m e - first_m e) = sextet_char d # map sextet_char ds'" "0 \<le> d" "d < 64"
      using ds by auto
    then show ?thesis using sextet_char_plain(2)[of d] by (simp add: t_def)
  qed
  show ?thesis
  proof (cases "t = []")
    case True
    then have "xs = []" "last_m e = first_m e"
      using e sextet_string_Nil[of "last_m e - first_m e"] by (auto simp: t_def tail_text_def split: if_splits)
    then show ?thesis
      using True copy enc b by (cases e) (simp add: SetOfMonads_fromCompactStringFM_def add_singleton)
  next
    case False
    have "fromCompactStringFM_loop SetOfMonads_empty (m_first s) 0 (hd t) False t =
        Inr (foldl SetOfMonads_addMSE SetOfMonads_empty (e # xs))"
      using False b by (intro FM_last_part[OF e(1) _ _ _ _ _ t_def IH]) auto
    then show ?thesis
      using False copy enc \<open>t \<noteq> ''zz''\<close> by (simp add: SetOfMonads_fromCompactStringFM_def)
  qed
qed

section \<open>The canonical form\<close>

lemma digit_plain:
  assumes "is_digit c"
  shows "c \<noteq> CHR ''{''" "c \<noteq> CHR ''-''" "c \<noteq> CHR '',''" "c \<noteq> CHR ''}''" "0 \<le> digit_val c" "digit_val c < 10"
  using assms by (auto simp: is_digit_def digit_val_def schar_def)

lemma fromString_digits:
  "\<forall>c\<in>set cs. is_digit c \<Longrightarrow> fs_state st = kFirst \<Longrightarrow>
     foldM_res fromString_step st cs = Inr (st\<lparr>fs_first := foldl push_digit (fs_first st) cs\<rparr>)"
  "\<forall>c\<in>set cs. is_digit c \<Longrightarrow> fs_state st = kLast \<Longrightarrow>
     foldM_res fromString_step st cs = Inr (st\<lparr>fs_last := foldl push_digit (fs_last st) cs\<rparr>)"
  by (induction cs arbitrary: st) (auto simp: fromString_step_def digit_plain)

lemma push_digits_value:
  "\<forall>c\<in>set cs. is_digit c \<Longrightarrow> 0 \<le> v \<Longrightarrow> foldl (\<lambda>v c. v * 10 + digit_val c) v cs \<le> MAX_MONAD \<Longrightarrow>
   foldl push_digit v cs = foldl (\<lambda>v c. v * 10 + digit_val c) v cs"
proof (induction cs arbitrary: v)
  case (Cons c cs)
  let ?v = "v * 10 + digit_val c"
  have v: "0 \<le> ?v" using Cons.prems digit_plain[of c] by simp
  have "?v \<le> foldl (\<lambda>v d. v * 10 + d) ?v (map digit_val cs)"
    using Cons.prems v digit_plain by (intro foldl_base_ge) auto
  then have "push_digit v c = ?v" using Cons.prems v by (simp add: push_digit_def foldl_map)
  then show ?case using Cons v by simp
qed simp

lemma dec_int_read:
  assumes "0 \<le> x" "x \<le> MAX_MONAD"
  shows "foldl push_digit (-1) (dec_int x) = x" "\<forall>c\<in>set (dec_int x). is_digit c"
proof -
  show digits: "\<forall>c\<in>set (dec_int x). is_digit c" using assms dec_nat_digits by (auto simp: dec_int_def)
  have val: "foldl (\<lambda>v c. v * 10 + digit_val c) 0 (dec_int x) = x"
    using assms dec_nat_value[of "nat x"] by (simp add: dec_int_def)
  obtain c cs where c: "dec_int x = c # cs" using assms by (cases "dec_int x") (auto simp: dec_int_def)
  then show "foldl push_digit (-1) (dec_int x) = x"
    using val digits assms digit_plain(5)[of c] push_digits_value[of cs "digit_val c"] by (simp add: push_digit_def)
qed

text \<open>Reading one stretch, from the state after \<open>{\<close> or a comma.\<close>

definition fs_start :: "SetOfMonads \<Rightarrow> fromString_state" where
  "fs_start s = \<lparr>fs_state = kFirst, fs_first = -1, fs_last = -1, fs_som = s\<rparr>"

definition fs_done :: "SetOfMonads \<Rightarrow> mse \<Rightarrow> fromString_state" where
  "fs_done s e = (if first_m e = last_m e then \<lparr>fs_state = kFirst, fs_first = first_m e, fs_last = -1, fs_som = s\<rparr>
     else \<lparr>fs_state = kLast, fs_first = first_m e, fs_last = last_m e, fs_som = s\<rparr>)"

lemma fromString_stretch:
  assumes "mse_ok e"
  shows "foldM_res fromString_step (fs_start s) (mse_putme e @ r) = foldM_res fromString_step (fs_done s e) r"
proof -
  have f: "0 \<le> first_m e" "first_m e \<le> MAX_MONAD" and l: "0 \<le> last_m e" "last_m e \<le> MAX_MONAD"
    using assms by (auto simp: mse_ok_def)
  show ?thesis
    using dec_int_read[OF f] dec_int_read[OF l]
    by (simp add: mse_putme_def foldM_res_append fromString_digits fs_start_def fs_done_def fromString_step_def)
qed

lemma fromString_add_done:
  "mse_ok e \<Longrightarrow> fromString_add (fs_done s e) = Inr (SetOfMonads_addMSE s e)"
  by (cases e) (auto simp: fromString_add_def fs_done_def mse_ok_def add_singleton SetOfMonads_add_range_def)

lemma putme_loop_acc: "putme_loop s xs = s @ putme_loop [] xs"
proof (induction xs arbitrary: s)
  case (Cons e xs)
  show ?case by (simp add: Cons[of "s @ _"] Cons[of "mse_putme e"] Cons[of "mse_putme e @ _"] Let_def)
qed simp

lemma fromString_stretches:
  assumes "mses_wf zs" "zs \<noteq> []"
  shows "returns (foldM_res fromString_step (fs_start s) (putme_loop [] zs @ '' } ''))
           (\<lambda>st. fs_som st = foldl SetOfMonads_addMSE s zs)"
  using assms
proof (induction zs arbitrary: s)
  case (Cons e xs)
  have e: "mse_ok e" using Cons.prems by simp
  have blank: "fromString_step st CHR '' '' = Inr st" for st
    by (simp add: fromString_step_def is_digit_def schar_def)
  show ?case
  proof (cases "xs = []")
    case True
    then show ?thesis
      using fromString_stretch[OF e, of s "'' } ''"] fromString_add_done[OF e]
      by (simp add: it_hasNext_def blank fromString_step_def[of _ "CHR ''}''"])
  next
    case False
    have "putme_loop [] (e # xs) @ '' } '' = mse_putme e @ '', '' @ putme_loop [] xs @ '' } ''"
      using False putme_loop_acc[of "mse_putme e @ '', ''" xs] by (simp add: it_hasNext_def)
    moreover have "foldM_res fromString_step (fs_done s e) ('', '' @ r) =
        foldM_res fromString_step (fs_start (SetOfMonads_addMSE s e)) r" for r
      using fromString_add_done[OF e]
      by (simp add: blank fromString_step_def[of _ "CHR '',''"] fs_start_def fs_done_def)
    ultimately show ?thesis
      using Cons False fromString_stretch[OF e, of s] by simp
  qed
qed simp

lemma fromString_toString:
  assumes "som_wf s"
  shows "SetOfMonads_fromString t (SetOfMonads_toString s) = Inr s"
proof -
  have blank: "fromString_step st CHR '' '' = Inr st" for st
    by (simp add: fromString_step_def is_digit_def schar_def)
  let ?st = "\<lparr>fs_state = kFirst, fs_first = -1, fs_last = -1, fs_som = SetOfMonads_clear t\<rparr>"
  have clr: "SetOfMonads_clear t = SetOfMonads_empty"
    by (simp add: SetOfMonads_clear_def SetOfMonads_empty_def)
  have begun: "SetOfMonads_fromString t (SetOfMonads_toString s) =
      bind_res (foldM_res fromString_step (fs_start SetOfMonads_empty) (putme_loop [] (monad_ms s) @ '' } ''))
        (\<lambda>st. Inr (fs_som st))"
    by (simp add: SetOfMonads_fromString_def SetOfMonads_toString_def SetOfMonads_putme_def
        putme_loop_acc[of "'' { ''"] blank fromString_step_def[of _ "CHR ''{''"] clr fs_start_def)
  show ?thesis
  proof (cases "monad_ms s = []")
    case True
    then have "s = SetOfMonads_empty"
      using sm.stretches_inj[OF assms som_wf_empty] by (simp add: sm.stretches_empty)
    then show ?thesis unfolding begun
      using True by (simp add: blank fromString_step_def[of _ "CHR ''}''"] fs_start_def fromString_add_def)
  next
    case False
    then show ?thesis
      using fromString_stretches[of "monad_ms s" SetOfMonads_empty] copy_from_stretches[OF assms] assms
      unfolding begun by (auto simp: som_wf_def returns_iff)
  qed
qed

section \<open>Properties\<close>

text \<open>
  C27: Reading back what \<open>toString\<close> writes gives the same set, whatever the receiving set
  held before.
\<close>

theorem toString_roundtrip:
  "som_wf s \<Longrightarrow> SetOfMonads_fromString t (SetOfMonads_toString s) = Inr s"
  by (rule fromString_toString)

theorem toString_roundtrip_witness:
  "SetOfMonads_fromString \<lparr>monad_ms = [MSE 5 5], m_first = 5, m_last = 5\<rparr>
     (SetOfMonads_toString \<lparr>monad_ms = [MSE 1 3, MSE 7 7], m_first = 1, m_last = 7\<rparr>) =
   Inr \<lparr>monad_ms = [MSE 1 3, MSE 7 7], m_first = 1, m_last = 7\<rparr>"
  by (rule toString_roundtrip)
    (simp add: som_wf_def bounds_ok_def mse_ok_def gap_before_def MAX_MONAD_def)

text \<open>
  C26: The compact string stored in the database can be read back for every set but one:
  the set of the single monad 0 is written as the empty text, which is read as the empty
  set.
\<close>

theorem compact_roundtrip:
  "som_wf s \<Longrightarrow>
   SetOfMonads_fromCompactString SetOfMonads_empty (SetOfMonads_toCompactString s) =
     Inr (if som_set s = {0} then SetOfMonads_empty else s)"
proof -
  assume s: "som_wf s"
  have one: "som_wf \<lparr>monad_ms = [MSE 0 0], m_first = 0, m_last = 0\<rparr>"
    by (simp add: som_wf_def bounds_ok_def mse_ok_def)
  have "som_set s = {0} \<longleftrightarrow> monad_ms s = [MSE 0 0]"
    using som_unique[OF s one] by (auto simp: som_set_def mse_set_def)
  then show ?thesis using fromCompactString_toCompactString[OF s] by simp
qed

theorem compact_roundtrip_witness:
  "SetOfMonads_fromCompactString SetOfMonads_empty
     (SetOfMonads_toCompactString \<lparr>monad_ms = [MSE 0 0], m_first = 0, m_last = 0\<rparr>) =
   Inr (if som_set \<lparr>monad_ms = [MSE 0 0], m_first = 0, m_last = 0\<rparr> = {0} then SetOfMonads_empty
        else \<lparr>monad_ms = [MSE 0 0], m_first = 0, m_last = 0\<rparr>)"
  by (rule compact_roundtrip) (simp add: som_wf_def bounds_ok_def mse_ok_def)

text \<open>
  The compact string with a separate first monad can be read back for every set,
  given its first monad.
\<close>

theorem compact_FM_roundtrip:
  "som_wf s \<Longrightarrow>
   SetOfMonads_fromCompactStringFM SetOfMonads_empty (SetOfMonads_toCompactStringFM s) (m_first s) = Inr s"
  by (rule fromCompactStringFM_toCompactStringFM)

theorem compact_FM_roundtrip_witness:
  "SetOfMonads_fromCompactStringFM SetOfMonads_empty
     (SetOfMonads_toCompactStringFM \<lparr>monad_ms = [MSE 4 4, MSE 100 200], m_first = 4, m_last = 200\<rparr>) 4 =
   Inr \<lparr>monad_ms = [MSE 4 4, MSE 100 200], m_first = 4, m_last = 200\<rparr>"
  using compact_FM_roundtrip[of "\<lparr>monad_ms = [MSE 4 4, MSE 100 200], m_first = 4, m_last = 200\<rparr>"]
  by (simp add: som_wf_def bounds_ok_def mse_ok_def gap_before_def MAX_MONAD_def)

end
