(* ===== verification/LVlist.thy ===== *)
theory LVlist
  imports Emdros_Prelude
begin

text \<open>
  The value-based linked list \<open>LVlist\<close> of \<^verbatim>\<open>include/llist.h\<close> with its nodes and iterators, on
  an explicit heap: an address is a number, 0 is the null pointer, \<open>new\<close> hands out an
  address that was never used before, \<open>delete\<close> makes it invalid, and reading or writing
  through an invalid address is an error. A walk along the \<open>next\<close> pointers may not end on a
  cyclic structure, so the loops carry fuel; the walk over a well-formed list needs no more
  steps than addresses were handed out.
\<close>

section \<open>Heap\<close>

type_synonym addr = nat

record 'a lvnode =
  lv_next :: addr
  lv_content :: 'a

record 'a lvheap =
  hp :: "addr \<Rightarrow> 'a lvnode option"
  hfree :: addr

definition heap_empty :: "'a lvheap" where
  "heap_empty = \<lparr>hp = \<lambda>_. None, hfree = 1\<rparr>"

definition get_node :: "'a lvheap \<Rightarrow> addr \<Rightarrow> 'a lvnode res" where
  "get_node h a = (case hp h a of None \<Rightarrow> Inl NullDeref | Some n \<Rightarrow> Inr n)"

definition new_node :: "'a lvheap \<Rightarrow> 'a \<Rightarrow> addr \<Rightarrow> addr \<times> 'a lvheap" where
  "new_node h x n =
     (hfree h, h\<lparr>hp := (hp h)(hfree h \<mapsto> \<lparr>lv_next = n, lv_content = x\<rparr>), hfree := Suc (hfree h)\<rparr>)"

definition delete_node :: "'a lvheap \<Rightarrow> addr \<Rightarrow> 'a lvheap res" where
  "delete_node h a = bind_res (get_node h a) (\<lambda>_. Inr (h\<lparr>hp := (hp h)(a := None)\<rparr>))"

definition LVnode_getNext :: "'a lvheap \<Rightarrow> addr \<Rightarrow> addr res" where
  "LVnode_getNext h a = bind_res (get_node h a) (\<lambda>n. Inr (lv_next n))"

definition LVnode_getContent :: "'a lvheap \<Rightarrow> addr \<Rightarrow> 'a res" where
  "LVnode_getContent h a = bind_res (get_node h a) (\<lambda>n. Inr (lv_content n))"

definition LVnode_setNext :: "'a lvheap \<Rightarrow> addr \<Rightarrow> addr \<Rightarrow> 'a lvheap res" where
  "LVnode_setNext h a m =
     bind_res (get_node h a) (\<lambda>n. Inr (h\<lparr>hp := (hp h)(a \<mapsto> n\<lparr>lv_next := m\<rparr>)\<rparr>))"

definition LVnode_setContent :: "'a lvheap \<Rightarrow> addr \<Rightarrow> 'a \<Rightarrow> 'a lvheap res" where
  "LVnode_setContent h a x =
     bind_res (get_node h a) (\<lambda>n. Inr (h\<lparr>hp := (hp h)(a \<mapsto> n\<lparr>lv_content := x\<rparr>)\<rparr>))"

section \<open>Lists\<close>

record lvlist =
  m_pRoot :: addr
  m_pTail :: addr

definition LVlist_new :: lvlist where
  "LVlist_new = \<lparr>m_pRoot = 0, m_pTail = 0\<rparr>"

definition LVlist_empty :: "lvlist \<Rightarrow> bool" where
  "LVlist_empty l \<longleftrightarrow> m_pRoot l = 0"

definition LVlist_lengthIs1 :: "'a lvheap \<Rightarrow> lvlist \<Rightarrow> bool res" where
  "LVlist_lengthIs1 h l =
     (if m_pRoot l = 0 then Inr False
      else bind_res (LVnode_getNext h (m_pRoot l)) (\<lambda>n. Inr (n = 0)))"

definition LVlist_front :: "'a lvheap \<Rightarrow> lvlist \<Rightarrow> 'a res" where
  "LVlist_front h l =
     bind_res (ASSERT_THROW (m_pRoot l \<noteq> 0)) (\<lambda>_. LVnode_getContent h (m_pRoot l))"

definition LVlist_back :: "'a lvheap \<Rightarrow> lvlist \<Rightarrow> 'a res" where
  "LVlist_back h l =
     bind_res (ASSERT_THROW (m_pTail l \<noteq> 0)) (\<lambda>_. LVnode_getContent h (m_pTail l))"

definition LVlist_push_back :: "'a lvheap \<Rightarrow> lvlist \<Rightarrow> 'a \<Rightarrow> ('a lvheap \<times> lvlist) res" where
  "LVlist_push_back h l p =
     (let (newcomer, h1) = new_node h p 0
      in if m_pRoot l = 0 then Inr (h1, \<lparr>m_pRoot = newcomer, m_pTail = newcomer\<rparr>)
         else bind_res (LVnode_setNext h1 (m_pTail l) newcomer)
                (\<lambda>h2. Inr (h2, l\<lparr>m_pTail := newcomer\<rparr>)))"

definition LVlist_prepend :: "'a lvheap \<Rightarrow> lvlist \<Rightarrow> 'a \<Rightarrow> ('a lvheap \<times> lvlist) res" where
  "LVlist_prepend h l p =
     (let (newcomer, h1) = new_node h p 0
      in if m_pRoot l = 0 then Inr (h1, \<lparr>m_pRoot = newcomer, m_pTail = newcomer\<rparr>)
         else bind_res (LVnode_setNext h1 newcomer (m_pRoot l))
                (\<lambda>h2. Inr (h2, l\<lparr>m_pRoot := newcomer\<rparr>)))"

text \<open>
  The two splicing operations work on two list objects, this one and the other one (two
  different objects), and hand back both.
\<close>

definition LVlist_prependWithMe ::
  "'a lvheap \<Rightarrow> lvlist \<Rightarrow> lvlist \<Rightarrow> ('a lvheap \<times> lvlist \<times> lvlist) res" where
  "LVlist_prependWithMe h this pOther =
     (if m_pRoot this \<noteq> 0
      then bind_res
             (if m_pRoot pOther = 0
              then Inr (h, pOther\<lparr>m_pRoot := m_pRoot this, m_pTail := m_pTail this\<rparr>)
              else bind_res (LVnode_setNext h (m_pTail this) (m_pRoot pOther))
                     (\<lambda>h1. Inr (h1, pOther\<lparr>m_pRoot := m_pRoot this\<rparr>)))
             (\<lambda>(h1, other1). Inr (h1, \<lparr>m_pRoot = 0, m_pTail = 0\<rparr>, other1))
      else Inr (h, this, pOther))"

definition LVlist_extendWithMe ::
  "'a lvheap \<Rightarrow> lvlist \<Rightarrow> lvlist \<Rightarrow> ('a lvheap \<times> lvlist \<times> lvlist) res" where
  "LVlist_extendWithMe h this pOther =
     (if m_pRoot this \<noteq> 0
      then bind_res
             (if m_pRoot pOther = 0
              then Inr (h, pOther\<lparr>m_pRoot := m_pRoot this, m_pTail := m_pTail this\<rparr>)
              else bind_res (LVnode_setNext h (m_pTail pOther) (m_pRoot this))
                     (\<lambda>h1. Inr (h1, pOther\<lparr>m_pTail := m_pTail this\<rparr>)))
             (\<lambda>(h1, other1). Inr (h1, \<lparr>m_pRoot = 0, m_pTail = 0\<rparr>, other1))
      else Inr (h, this, pOther))"

section \<open>Iterators\<close>

text \<open>\<open>m_pMother\<close> tells whether the pointer to the list is set.\<close>

record lviter =
  m_pMother :: bool
  m_pIter :: addr

definition LVlistIterator_new :: "lvlist option \<Rightarrow> lviter" where
  "LVlistIterator_new l = (case l of Some l \<Rightarrow> \<lparr>m_pMother = True, m_pIter = m_pRoot l\<rparr>
     | None \<Rightarrow> \<lparr>m_pMother = False, m_pIter = 0\<rparr>)"

definition LVlistIterator_hasNext :: "lviter \<Rightarrow> bool" where
  "LVlistIterator_hasNext it = (if \<not> m_pMother it then False else m_pIter it \<noteq> 0)"

definition LVlistIterator_next :: "'a lvheap \<Rightarrow> lviter \<Rightarrow> ('a \<times> lviter) res" where
  "LVlistIterator_next h it =
     bind_res (ASSERT_THROW (LVlistIterator_hasNext it)) (\<lambda>_.
     bind_res (get_node h (m_pIter it)) (\<lambda>n. Inr (lv_content n, it\<lparr>m_pIter := lv_next n\<rparr>)))"

definition LVlistIterator_current :: "'a lvheap \<Rightarrow> lviter \<Rightarrow> 'a res" where
  "LVlistIterator_current h it =
     bind_res (ASSERT_THROW (m_pMother it)) (\<lambda>_. LVnode_getContent h (m_pIter it))"

section \<open>Operations at an iterator\<close>

text \<open>\<open>while (pIterator != target) { pIteratorMinus1 = pIterator; pIterator = pIterator->getNext(); }\<close>\<close>

fun find_previous :: "nat \<Rightarrow> 'a lvheap \<Rightarrow> addr \<Rightarrow> addr \<Rightarrow> addr \<Rightarrow> addr res" where
  "find_previous 0 h target p prev = Inl OutOfFuel"
| "find_previous (Suc n) h target p prev =
     (if p = target then Inr prev
      else bind_res (LVnode_getNext h p) (\<lambda>q. find_previous n h target q p))"

definition LVlist_insertBefore ::
  "'a lvheap \<Rightarrow> lvlist \<Rightarrow> lviter \<Rightarrow> 'a \<Rightarrow> ('a lvheap \<times> lvlist \<times> lviter) res" where
  "LVlist_insertBefore h l it p =
     (let (newcomer, h1) = new_node h p 0;
          nxt = m_pIter it
      in bind_res (LVnode_setNext h1 newcomer nxt) (\<lambda>h2.
         bind_res
           (if nxt = 0
            then if m_pRoot l = 0 then Inr (h2, \<lparr>m_pRoot = newcomer, m_pTail = newcomer\<rparr>)
                 else bind_res (LVnode_setNext h2 (m_pTail l) newcomer)
                        (\<lambda>h3. Inr (h3, l\<lparr>m_pTail := newcomer\<rparr>))
            else if nxt = m_pRoot l then Inr (h2, l\<lparr>m_pRoot := newcomer\<rparr>)
            else bind_res (find_previous (hfree h2) h2 nxt (m_pRoot l) 0) (\<lambda>prev.
                 bind_res (LVnode_setNext h2 prev newcomer) (\<lambda>h3. Inr (h3, l))))
           (\<lambda>(h3, l3). Inr (h3, l3, \<lparr>m_pMother = True, m_pIter = newcomer\<rparr>))))"

definition LVlist_insertAfter_node ::
  "'a lvheap \<Rightarrow> lvlist \<Rightarrow> addr \<Rightarrow> 'a \<Rightarrow> ('a lvheap \<times> lvlist \<times> addr) res" where
  "LVlist_insertAfter_node h l pIterator p =
     (let (newcomer, h1) = new_node h p 0
      in bind_res (LVnode_getNext h1 pIterator) (\<lambda>nxt.
         bind_res (LVnode_setNext h1 newcomer nxt) (\<lambda>h2.
         bind_res (LVnode_setNext h2 pIterator newcomer) (\<lambda>h3.
           Inr (h3, if pIterator = m_pTail l then l\<lparr>m_pTail := newcomer\<rparr> else l, newcomer)))))"

definition LVlist_insertAfter ::
  "'a lvheap \<Rightarrow> lvlist \<Rightarrow> lviter \<Rightarrow> 'a \<Rightarrow> ('a lvheap \<times> lvlist \<times> lviter) res" where
  "LVlist_insertAfter h l it p =
     bind_res (LVlist_insertAfter_node h l (m_pIter it) p)
       (\<lambda>(h1, l1, n). Inr (h1, l1, \<lparr>m_pMother = True, m_pIter = n\<rparr>))"

definition LVlist_erase ::
  "'a lvheap \<Rightarrow> lvlist \<Rightarrow> lviter \<Rightarrow> ('a lvheap \<times> lvlist \<times> lviter) res" where
  "LVlist_erase h l to_remove =
     bind_res (ASSERT_THROW (m_pRoot l \<noteq> 0)) (\<lambda>_.
     let node = m_pIter to_remove
     in bind_res (ASSERT_THROW (node \<noteq> 0)) (\<lambda>_.
        bind_res (LVnode_getNext h node) (\<lambda>after.
        bind_res
          (if node = m_pRoot l
           then bind_res (LVlist_lengthIs1 h l) (\<lambda>one.
                bind_res (delete_node h node) (\<lambda>h1.
                  Inr (h1, if one then \<lparr>m_pRoot = 0, m_pTail = 0\<rparr> else l\<lparr>m_pRoot := after\<rparr>)))
           else bind_res (find_previous (hfree h) h node (m_pRoot l) 0) (\<lambda>prev.
                bind_res (LVnode_setNext h prev after) (\<lambda>h1.
                bind_res (delete_node h1 node) (\<lambda>h2.
                  Inr (h2, if m_pTail l = node then l\<lparr>m_pTail := prev\<rparr> else l)))))
          (\<lambda>(h1, l1). Inr (h1, l1, \<lparr>m_pMother = True, m_pIter = after\<rparr>)))))"

fun clear_loop :: "nat \<Rightarrow> 'a lvheap \<Rightarrow> addr \<Rightarrow> 'a lvheap res" where
  "clear_loop 0 h current = (if current = 0 then Inr h else Inl OutOfFuel)"
| "clear_loop (Suc n) h current =
     (if current = 0 then Inr h
      else bind_res (LVnode_getNext h current) (\<lambda>nxt.
           bind_res (delete_node h current) (\<lambda>h1. clear_loop n h1 nxt)))"

definition LVlist_clear :: "'a lvheap \<Rightarrow> lvlist \<Rightarrow> ('a lvheap \<times> lvlist) res" where
  "LVlist_clear h l =
     bind_res (clear_loop (hfree h) h (m_pRoot l)) (\<lambda>h1. Inr (h1, \<lparr>m_pRoot = 0, m_pTail = 0\<rparr>))"

fun size_loop :: "nat \<Rightarrow> 'a lvheap \<Rightarrow> int \<Rightarrow> addr \<Rightarrow> int res" where
  "size_loop 0 h result current = (if current = 0 then Inr result else Inl OutOfFuel)"
| "size_loop (Suc n) h result current =
     (if current = 0 then Inr result
      else bind_res (LVnode_getNext h current) (\<lambda>nxt. size_loop n h (result + 1) nxt))"

definition LVlist_size :: "'a lvheap \<Rightarrow> lvlist \<Rightarrow> int res" where
  "LVlist_size h l = size_loop (hfree h) h 0 (m_pRoot l)"

text \<open>
  A client's loop \<open>while (ci.hasNext()) l.push_back(ci.next())\<close>, as in
  \<open>SetOfMonads::copyOther\<close>.
\<close>

fun push_back_all :: "nat \<Rightarrow> 'a lvheap \<Rightarrow> lvlist \<Rightarrow> lviter \<Rightarrow> ('a lvheap \<times> lvlist) res" where
  "push_back_all 0 h l ci = (if LVlistIterator_hasNext ci then Inl OutOfFuel else Inr (h, l))"
| "push_back_all (Suc n) h l ci =
     (if LVlistIterator_hasNext ci
      then bind_res (LVlistIterator_next h ci) (\<lambda>(x, ci1).
           bind_res (LVlist_push_back h l x) (\<lambda>(h1, l1). push_back_all n h1 l1 ci1))
      else Inr (h, l))"

end
