(* ===== verification/LVlist_Props.thy ===== *)
theory LVlist_Props
  imports LVlist
begin

text \<open>
  Correctness of the linked list: a list object represents a sequence of nodes, each
  operation performs the sequence operation it stands for, leaves every other node of the
  heap alone, and follows no invalid pointer; the walks end within the fuel.
\<close>

section \<open>List segments\<close>

primrec lseg :: "'a lvheap \<Rightarrow> addr \<Rightarrow> (addr \<times> 'a) list \<Rightarrow> addr \<Rightarrow> bool" where
  "lseg h p [] q \<longleftrightarrow> p = q"
| "lseg h p (n # ns) q \<longleftrightarrow> p = fst n \<and> p \<noteq> 0 \<and>
     (\<exists>r. hp h p = Some \<lparr>lv_next = r, lv_content = snd n\<rparr> \<and> lseg h r ns q)"

definition heap_ok :: "'a lvheap \<Rightarrow> bool" where
  "heap_ok h \<longleftrightarrow> 0 < hfree h \<and> hp h 0 = None \<and> (\<forall>a \<ge> hfree h. hp h a = None)"

definition tail_of :: "(addr \<times> 'a) list \<Rightarrow> addr" where
  "tail_of ns = (if ns = [] then 0 else fst (last ns))"

definition head_of :: "(addr \<times> 'a) list \<Rightarrow> addr" where
  "head_of ns = (if ns = [] then 0 else fst (hd ns))"

definition lv_rep :: "'a lvheap \<Rightarrow> lvlist \<Rightarrow> (addr \<times> 'a) list \<Rightarrow> bool" where
  "lv_rep h l ns \<longleftrightarrow> heap_ok h \<and> lseg h (m_pRoot l) ns 0 \<and> distinct (map fst ns) \<and> m_pTail l = tail_of ns"

definition same_except :: "addr set \<Rightarrow> 'a lvheap \<Rightarrow> 'a lvheap \<Rightarrow> bool" where
  "same_except A h h' \<longleftrightarrow> (\<forall>b. b \<notin> A \<longrightarrow> hp h' b = hp h b)"

lemma lseg_append: "lseg h p (xs @ ys) q \<longleftrightarrow> (\<exists>r. lseg h p xs r \<and> lseg h r ys q)"
  by (induction xs arbitrary: p) auto

lemma lseg_frame: "lseg h p ns q \<Longrightarrow> \<forall>a\<in>fst ` set ns. hp h' a = hp h a \<Longrightarrow> lseg h' p ns q"
  by (induction ns arbitrary: p) auto

lemma lseg_same_except:
  "lseg h p ns q \<Longrightarrow> same_except A h h' \<Longrightarrow> A \<inter> fst ` set ns = {} \<Longrightarrow> lseg h' p ns q"
  by (rule lseg_frame) (auto simp: same_except_def)

lemma lseg_live: "lseg h p ns q \<Longrightarrow> a \<in> fst ` set ns \<Longrightarrow> hp h a \<noteq> None \<and> a \<noteq> 0"
  by (induction ns arbitrary: p) auto

lemma lseg_root_in: "lseg h p ns q \<Longrightarrow> ns \<noteq> [] \<Longrightarrow> p \<in> fst ` set ns"
  by (cases ns) auto

lemma lseg_head: "lseg h p ns 0 \<Longrightarrow> p = head_of ns"
  by (cases ns) (auto simp: head_of_def)

lemma lseg_below: "heap_ok h \<Longrightarrow> lseg h p ns q \<Longrightarrow> a \<in> fst ` set ns \<Longrightarrow> 0 < a \<and> a < hfree h"
  using lseg_live[of h p ns q a] unfolding heap_ok_def by (metis gr0I linorder_not_le)

lemma lseg_length:
  assumes "heap_ok h" "lseg h p ns q" "distinct (map fst ns)" shows "length ns < hfree h"
proof -
  have "set (map fst ns) \<subseteq> {1..<hfree h}" using lseg_below[OF assms(1,2)] by fastforce
  then have "card (set (map fst ns)) \<le> hfree h - 1" using card_mono[of "{1..<hfree h}"] by fastforce
  then show ?thesis
    using assms(1,3) distinct_card[of "map fst ns"] unfolding heap_ok_def by auto
qed

lemma tail_of_simps [simp]:
  "tail_of [] = 0" "tail_of (xs @ [n]) = fst n" "ys \<noteq> [] \<Longrightarrow> tail_of (xs @ ys) = tail_of ys"
  "tail_of (n # ns) = (if ns = [] then fst n else tail_of ns)"
  by (simp_all add: tail_of_def)

lemma head_of_simps [simp]: "head_of [] = 0" "head_of (n # ns) = fst n"
  by (simp_all add: head_of_def)

lemma same_except_tail:
  assumes "same_except {n, tail_of ns} h h'" "heap_ok h" "heap_ok h'"
  shows "same_except (insert n (fst ` set ns)) h h'"
proof (cases "ns = []")
  case True
  have "hp h 0 = None" "hp h' 0 = None" using assms(2,3) by (auto simp: heap_ok_def)
  moreover have "hp h' b = hp h b" if "b \<noteq> n" "b \<noteq> 0" for b
    using assms(1) True that by (auto simp: same_except_def)
  ultimately have "hp h' b = hp h b" if "b \<noteq> n" for b using that by (cases "b = 0") simp_all
  then show ?thesis using True by (simp add: same_except_def)
next
  case False
  then have "tail_of ns \<in> fst ` set ns" by (auto simp: tail_of_def)
  then show ?thesis using assms(1) by (auto simp: same_except_def)
qed

section \<open>Primitive heap steps\<close>

lemma new_node_ok:
  assumes "heap_ok h"
  shows "heap_ok (snd (new_node h x n))" "fst (new_node h x n) = hfree h"
    "hp (snd (new_node h x n)) (hfree h) = Some \<lparr>lv_next = n, lv_content = x\<rparr>"
    "same_except {hfree h} h (snd (new_node h x n))" "hfree (snd (new_node h x n)) = Suc (hfree h)"
  using assms by (auto simp: new_node_def heap_ok_def same_except_def)

lemma getNext_ok [simp]: "hp h a = Some \<lparr>lv_next = r, lv_content = x\<rparr> \<Longrightarrow> LVnode_getNext h a = Inr r"
  by (simp add: LVnode_getNext_def get_node_def)

lemma getContent_ok [simp]: "hp h a = Some \<lparr>lv_next = r, lv_content = x\<rparr> \<Longrightarrow> LVnode_getContent h a = Inr x"
  by (simp add: LVnode_getContent_def get_node_def)

definition upd_next :: "'a lvheap \<Rightarrow> addr \<Rightarrow> 'a \<Rightarrow> addr \<Rightarrow> 'a lvheap" where
  "upd_next h a x m = h\<lparr>hp := (hp h)(a \<mapsto> \<lparr>lv_next = m, lv_content = x\<rparr>)\<rparr>"

lemma setNext_ok: "hp h a = Some \<lparr>lv_next = r, lv_content = x\<rparr> \<Longrightarrow> LVnode_setNext h a m = Inr (upd_next h a x m)"
  by (simp add: LVnode_setNext_def get_node_def upd_next_def)

lemma upd_next_simps [simp]:
  "hp (upd_next h a x m) b = (if b = a then Some \<lparr>lv_next = m, lv_content = x\<rparr> else hp h b)"
  "hfree (upd_next h a x m) = hfree h"
  by (simp_all add: upd_next_def)

lemma upd_next_heap_ok: "heap_ok h \<Longrightarrow> hp h a \<noteq> None \<Longrightarrow> heap_ok (upd_next h a x m)"
  by (cases "a = 0") (auto simp: heap_ok_def)

lemma delete_ok: "hp h a = Some n \<Longrightarrow> delete_node h a = Inr (h\<lparr>hp := (hp h)(a := None)\<rparr>)"
  by (simp add: delete_node_def get_node_def)

text \<open>Where the last node of a segment points can be changed.\<close>

lemma lseg_last:
  assumes "lseg h p (us @ [(a, x)]) q"
  shows "hp h a = Some \<lparr>lv_next = q, lv_content = x\<rparr>" "lseg h p us a" "a \<noteq> 0"
  using assms by (auto simp: lseg_append)

lemma lseg_redirect:
  assumes "lseg h p (us @ [(a, x)]) q" "a \<notin> fst ` set us"
  shows "lseg (upd_next h a x m) p (us @ [(a, x)]) m"
proof -
  have "lseg (upd_next h a x m) p us a"
    using lseg_last(2)[OF assms(1)] assms(2) by (rule_tac lseg_frame) auto
  then show ?thesis using lseg_last(3)[OF assms(1)] by (auto simp: lseg_append)
qed

lemma upd_next_frame: "lseg h p ns q \<Longrightarrow> a \<notin> fst ` set ns \<Longrightarrow> lseg (upd_next h a x m) p ns q"
  by (rule lseg_frame) auto

section \<open>Adding at the ends\<close>

lemma lv_rep_fresh: "lv_rep h l ns \<Longrightarrow> hfree h \<notin> fst ` set ns"
  using lseg_below by (fastforce simp: lv_rep_def)

lemma root_null_iff: "lv_rep h l ns \<Longrightarrow> m_pRoot l = 0 \<longleftrightarrow> ns = []"
  by (cases ns) (auto simp: lv_rep_def)

lemma push_back_ok:
  assumes rep: "lv_rep h l ns"
  shows "returns (LVlist_push_back h l x) (\<lambda>(h', l'). lv_rep h' l' (ns @ [(hfree h, x)]) \<and>
     same_except {hfree h, tail_of ns} h h')"
proof -
  let ?n = "hfree h" and ?h1 = "snd (new_node h x 0)"
  have ok: "heap_ok h" and seg: "lseg h (m_pRoot l) ns 0" and d: "distinct (map fst ns)" and t: "m_pTail l = tail_of ns"
    using rep by (auto simp: lv_rep_def)
  note n = new_node_ok[OF ok, of x 0]
  have fresh: "?n \<notin> fst ` set ns" by (rule lv_rep_fresh[OF rep])
  have pos: "0 < ?n" using ok by (simp add: heap_ok_def)
  have def: "LVlist_push_back h l x = (if m_pRoot l = 0 then Inr (?h1, \<lparr>m_pRoot = ?n, m_pTail = ?n\<rparr>)
      else bind_res (LVnode_setNext ?h1 (m_pTail l) ?n) (\<lambda>h2. Inr (h2, l\<lparr>m_pTail := ?n\<rparr>)))"
    by (simp add: LVlist_push_back_def case_prod_beta n(2))
  show ?thesis
  proof (cases ns rule: rev_cases)
    case Nil
    then show ?thesis using def n pos root_null_iff[OF rep] by (simp add: lv_rep_def same_except_def)
  next
    case (snoc us u)
    obtain a y where u: "u = (a, y)" by fastforce
    have seg1: "lseg ?h1 (m_pRoot l) (us @ [(a, y)]) 0"
      using lseg_same_except[OF seg n(4)] fresh snoc u by simp
    have a: "a \<noteq> ?n" "a \<notin> fst ` set us" using fresh d snoc u by auto
    let ?h2 = "upd_next ?h1 a y ?n"
    have "LVnode_setNext ?h1 a ?n = Inr ?h2" using lseg_last(1)[OF seg1] by (rule setNext_ok)
    moreover have "heap_ok ?h2" using lseg_last(1)[OF seg1] by (intro upd_next_heap_ok[OF n(1)]) simp
    moreover have "lseg ?h2 (m_pRoot l) (us @ [(a, y)]) ?n" by (rule lseg_redirect[OF seg1 a(2)])
    moreover have "lseg ?h2 ?n [(?n, x)] 0" using n(3) a pos by simp
    ultimately show ?thesis
      using def root_null_iff[OF rep] snoc u t d fresh n(4) lseg_append[of ?h2 "m_pRoot l" "us @ [(a, y)]" "[(?n, x)]" 0]
      by (auto simp: lv_rep_def same_except_def)
  qed
qed

lemma prepend_ok:
  assumes rep: "lv_rep h l ns"
  shows "returns (LVlist_prepend h l x) (\<lambda>(h', l'). lv_rep h' l' ((hfree h, x) # ns) \<and>
     same_except {hfree h} h h')"
proof -
  let ?n = "hfree h" and ?h1 = "snd (new_node h x 0)"
  have ok: "heap_ok h" and seg: "lseg h (m_pRoot l) ns 0" and d: "distinct (map fst ns)" and t: "m_pTail l = tail_of ns"
    using rep by (auto simp: lv_rep_def)
  note n = new_node_ok[OF ok, of x 0]
  have fresh: "?n \<notin> fst ` set ns" by (rule lv_rep_fresh[OF rep])
  have pos: "0 < ?n" using ok by (simp add: heap_ok_def)
  have seg1: "lseg ?h1 (m_pRoot l) ns 0" using lseg_same_except[OF seg n(4)] fresh by simp
  let ?h2 = "upd_next ?h1 ?n x (m_pRoot l)"
  have "lseg ?h2 (m_pRoot l) ns 0" by (rule upd_next_frame[OF seg1 fresh])
  moreover have "heap_ok ?h2" using n by (intro upd_next_heap_ok) auto
  ultimately show ?thesis
    using n(2) n(4) n(1,3) pos root_null_iff[OF rep] fresh d t setNext_ok[OF n(3), of "m_pRoot l"]
    by (cases "ns = []") (auto simp: LVlist_prepend_def lv_rep_def same_except_def case_prod_beta)
qed

section \<open>Splicing two lists\<close>

lemma splice_segments:
  assumes ns: "lseg h p (us @ [(a, x)]) 0" and ms: "lseg h q ms 0"
    and d: "distinct (map fst ((us @ [(a, x)]) @ ms))"
  shows "lseg (upd_next h a x q) p ((us @ [(a, x)]) @ ms) 0"
proof -
  have "a \<notin> fst ` set us" "a \<notin> fst ` set ms" using d by auto
  then show ?thesis
    using lseg_redirect[OF ns, of q] upd_next_frame[OF ms, of a x q] lseg_append by metis
qed

lemma lv_rep_empty [simp]: "lv_rep h \<lparr>m_pRoot = 0, m_pTail = 0\<rparr> [] \<longleftrightarrow> heap_ok h"
  by (simp add: lv_rep_def)

lemma prependWithMe_ok:
  assumes rep: "lv_rep h this ns" "lv_rep h other ms" and dis: "fst ` set ns \<inter> fst ` set ms = {}"
  shows "returns (LVlist_prependWithMe h this other) (\<lambda>(h', this', other').
     lv_rep h' this' [] \<and> lv_rep h' other' (ns @ ms) \<and> same_except (fst ` set ns) h h')"
proof (cases ns rule: rev_cases)
  case Nil
  then show ?thesis
    using rep root_null_iff[OF rep(1)] by (auto simp: LVlist_prependWithMe_def same_except_def lv_rep_def)
next
  case (snoc us u)
  obtain a x where u: "u = (a, x)" by fastforce
  have h: "heap_ok h" "lseg h (m_pRoot this) (us @ [(a, x)]) 0" "m_pTail this = a"
    "lseg h (m_pRoot other) ms 0" "m_pTail other = tail_of ms" "distinct (map fst ((us @ [(a, x)]) @ ms))"
    using rep dis snoc u by (auto simp: lv_rep_def)
  note a = lseg_last(1)[OF h(2)]
  have "heap_ok (upd_next h a x (m_pRoot other))" using a by (intro upd_next_heap_ok[OF h(1)]) simp
  then show ?thesis
    using root_null_iff[OF rep(1)] root_null_iff[OF rep(2)] snoc u h setNext_ok[OF a] splice_segments[OF h(2,4,6)]
    by (cases "ms = []") (auto simp: LVlist_prependWithMe_def lv_rep_def same_except_def)
qed

lemma extendWithMe_ok:
  assumes rep: "lv_rep h this ns" "lv_rep h other ms" and dis: "fst ` set ns \<inter> fst ` set ms = {}"
  shows "returns (LVlist_extendWithMe h this other) (\<lambda>(h', this', other').
     lv_rep h' this' [] \<and> lv_rep h' other' (ms @ ns) \<and> same_except (fst ` set ms) h h')"
proof (cases "ns = []")
  case True
  then show ?thesis
    using rep root_null_iff[OF rep(1)] by (auto simp: LVlist_extendWithMe_def same_except_def lv_rep_def)
next
  case ne: False
  show ?thesis
  proof (cases ms rule: rev_cases)
    case Nil
    then show ?thesis
      using ne rep root_null_iff[OF rep(1)] root_null_iff[OF rep(2)]
      by (auto simp: LVlist_extendWithMe_def same_except_def lv_rep_def)
  next
    case (snoc us u)
    obtain a x where u: "u = (a, x)" by fastforce
    have h: "heap_ok h" "lseg h (m_pRoot other) (us @ [(a, x)]) 0" "m_pTail other = a"
      "lseg h (m_pRoot this) ns 0" "m_pTail this = tail_of ns" "distinct (map fst ((us @ [(a, x)]) @ ns))"
      using rep dis snoc u by (auto simp: lv_rep_def)
    note a = lseg_last(1)[OF h(2)]
    have "heap_ok (upd_next h a x (m_pRoot this))" using a by (intro upd_next_heap_ok[OF h(1)]) simp
    then show ?thesis
      using root_null_iff[OF rep(1)] root_null_iff[OF rep(2)] snoc u h ne setNext_ok[OF a] splice_segments[OF h(2,4,6)]
      by (auto simp: LVlist_extendWithMe_def lv_rep_def same_except_def)
  qed
qed

section \<open>Operations at an iterator\<close>

lemma find_previous_ok:
  "lseg h p ns t \<Longrightarrow> t \<notin> fst ` set ns \<Longrightarrow> length ns < n \<Longrightarrow>
   find_previous n h t p prev = Inr (if ns = [] then prev else tail_of ns)"
proof (induction ns arbitrary: p prev n)
  case Nil
  then show ?case by (cases n) auto
next
  case (Cons u ns)
  then obtain m where n: "n = Suc m" by (cases n) auto
  obtain r where r: "p = fst u" "hp h p = Some \<lparr>lv_next = r, lv_content = snd u\<rparr>" "lseg h r ns t"
    using Cons.prems by auto
  then show ?case using Cons.IH[OF r(3), of m p] Cons.prems n by auto
qed

lemma insertBefore_ok:
  assumes rep: "lv_rep h l (us @ vs)" and it: "m_pIter it = head_of vs"
  shows "returns (LVlist_insertBefore h l it x) (\<lambda>(h', l', it').
     lv_rep h' l' (us @ (hfree h, x) # vs) \<and> m_pMother it' \<and> m_pIter it' = hfree h \<and>
     same_except {hfree h, tail_of us} h h')"
proof -
  let ?n = "hfree h" and ?h1 = "snd (new_node h x 0)"
  let ?h2 = "upd_next ?h1 ?n x (head_of vs)"
  have ok: "heap_ok h" and seg: "lseg h (m_pRoot l) (us @ vs) 0" and d: "distinct (map fst (us @ vs))"
    and t: "m_pTail l = tail_of (us @ vs)"
    using rep by (auto simp: lv_rep_def)
  note n = new_node_ok[OF ok, of x 0]
  have fresh: "?n \<notin> fst ` set (us @ vs)" by (rule lv_rep_fresh[OF rep])
  have pos: "0 < ?n" using ok by (simp add: heap_ok_def)
  have seg2: "lseg ?h2 (m_pRoot l) (us @ vs) 0"
    using upd_next_frame[OF lseg_same_except[OF seg n(4)]] fresh by simp
  then have segu: "lseg ?h2 (m_pRoot l) us (head_of vs)" and segv: "lseg ?h2 (head_of vs) vs 0"
    using lseg_head by (auto simp: lseg_append)
  have ok2: "heap_ok ?h2" using n by (intro upd_next_heap_ok) auto
  have hv: "head_of vs \<notin> fst ` set us"
    using d lseg_live[OF segu] by (cases vs) auto
  have setN: "LVnode_setNext ?h1 ?n (head_of vs) = Inr ?h2" by (rule setNext_ok[OF n(3)])
  have new: "lseg ?h2 ?n ((?n, x) # vs) 0" using segv pos by simp
  have same2: "same_except {?n} h ?h2" using n(4) by (simp add: same_except_def)
  have def: "LVlist_insertBefore h l it x = bind_res
      (if head_of vs = 0
       then if m_pRoot l = 0 then Inr (?h2, \<lparr>m_pRoot = ?n, m_pTail = ?n\<rparr>)
            else bind_res (LVnode_setNext ?h2 (m_pTail l) ?n) (\<lambda>h3. Inr (h3, l\<lparr>m_pTail := ?n\<rparr>))
       else if head_of vs = m_pRoot l then Inr (?h2, l\<lparr>m_pRoot := ?n\<rparr>)
       else bind_res (find_previous (hfree ?h2) ?h2 (head_of vs) (m_pRoot l) 0) (\<lambda>prev.
            bind_res (LVnode_setNext ?h2 prev ?n) (\<lambda>h3. Inr (h3, l))))
      (\<lambda>(h3, l3). Inr (h3, l3, \<lparr>m_pMother = True, m_pIter = ?n\<rparr>))"
    unfolding LVlist_insertBefore_def Let_def case_prod_beta n(2) it setN by simp
  show ?thesis
  proof (cases us rule: rev_cases)
    case Nil
    have root: "m_pRoot l = head_of vs" using Nil segu by simp
    have rep2: "lv_rep ?h2 l' ((?n, x) # vs)" if "m_pRoot l' = ?n" "m_pTail l' = tail_of ((?n, x) # vs)" for l'
      using that new ok2 d fresh Nil by (simp only: lv_rep_def) auto
    show ?thesis
    proof (cases vs)
      case v: Nil
      then have "LVlist_insertBefore h l it x =
          Inr (?h2, \<lparr>m_pRoot = ?n, m_pTail = ?n\<rparr>, \<lparr>m_pMother = True, m_pIter = ?n\<rparr>)"
        unfolding def using root by simp
      then show ?thesis using rep2[of "\<lparr>m_pRoot = ?n, m_pTail = ?n\<rparr>"] v Nil same2 by (simp add: same_except_def)
    next
      case (Cons v vs')
      then have "head_of vs \<noteq> 0" using segv by simp
      then have "LVlist_insertBefore h l it x =
          Inr (?h2, l\<lparr>m_pRoot := ?n\<rparr>, \<lparr>m_pMother = True, m_pIter = ?n\<rparr>)"
        unfolding def using root by simp
      then show ?thesis using rep2[of "l\<lparr>m_pRoot := ?n\<rparr>"] t Nil Cons same2 by (simp add: same_except_def)
    qed
  next
    case (snoc ws w)
    obtain a y where w: "w = (a, y)" by fastforce
    have sega: "lseg ?h2 (m_pRoot l) (ws @ [(a, y)]) (head_of vs)" using segu snoc w by simp
    have a: "a \<noteq> ?n" "a \<notin> fst ` set ws" "a \<notin> fst ` set vs" "?n \<notin> fst ` set vs" using fresh d snoc w by auto
    let ?h3 = "upd_next ?h2 a y ?n"
    have setA: "LVnode_setNext ?h2 a ?n = Inr ?h3" using lseg_last(1)[OF sega] by (rule setNext_ok)
    have ok3: "heap_ok ?h3" using lseg_last(1)[OF sega] by (intro upd_next_heap_ok[OF ok2]) simp
    have "lseg ?h3 ?n ((?n, x) # vs) 0" by (rule upd_next_frame[OF new]) (use a in auto)
    moreover have "lseg ?h3 (m_pRoot l) us ?n" using lseg_redirect[OF sega a(2), of ?n] unfolding snoc w .
    ultimately have rep3: "lseg ?h3 (m_pRoot l) (us @ (?n, x) # vs) 0" unfolding lseg_append by blast
    have rep4: "lv_rep ?h3 l' (us @ (?n, x) # vs)" if "m_pRoot l' = m_pRoot l" "m_pTail l' = tail_of ((?n, x) # vs)" for l'
      using that rep3 ok3 d fresh by (simp only: lv_rep_def) auto
    have same3: "same_except {?n, tail_of us} h ?h3"
      using same2 snoc w by (simp add: same_except_def)
    have "m_pRoot l \<in> fst ` set us" using lseg_root_in[OF segu] snoc by simp
    then have root: "m_pRoot l \<noteq> 0" "head_of vs \<noteq> m_pRoot l"
      using lseg_live[OF segu, of "m_pRoot l"] hv by metis+
    show ?thesis
    proof (cases vs)
      case Nil
      then have "LVlist_insertBefore h l it x =
          Inr (?h3, l\<lparr>m_pTail := ?n\<rparr>, \<lparr>m_pMother = True, m_pIter = ?n\<rparr>)"
        unfolding def using root setA t snoc w by simp
      then show ?thesis using rep4[of "l\<lparr>m_pTail := ?n\<rparr>"] Nil same3 by simp
    next
      case (Cons v vs')
      then have "head_of vs \<noteq> 0" using segv by simp
      moreover have "find_previous (hfree ?h2) ?h2 (head_of vs) (m_pRoot l) 0 = Inr a"
        using find_previous_ok[OF segu hv, of "hfree ?h2" 0] lseg_length[OF ok seg d] n(5) snoc w by simp
      ultimately have "LVlist_insertBefore h l it x = Inr (?h3, l, \<lparr>m_pMother = True, m_pIter = ?n\<rparr>)"
        unfolding def using root setA by simp
      then show ?thesis using rep4[of l] t Cons same3 by simp
    qed
  qed
qed

lemma insertAfter_node_ok:
  assumes rep: "lv_rep h l (us @ (a, y) # vs)"
  shows "returns (LVlist_insertAfter_node h l a x) (\<lambda>(h', l', n).
     lv_rep h' l' (us @ (a, y) # (hfree h, x) # vs) \<and> n = hfree h \<and> same_except {hfree h, a} h h')"
proof -
  let ?n = "hfree h" and ?h1 = "snd (new_node h x 0)"
  let ?ns = "us @ (a, y) # vs"
  have ok: "heap_ok h" and seg: "lseg h (m_pRoot l) ?ns 0" and d: "distinct (map fst ?ns)" and t: "m_pTail l = tail_of ?ns"
    using rep by (auto simp: lv_rep_def)
  note n = new_node_ok[OF ok, of x 0]
  have fresh: "?n \<notin> fst ` set ?ns" by (rule lv_rep_fresh[OF rep])
  have pos: "0 < ?n" using ok by (simp add: heap_ok_def)
  have seg1: "lseg ?h1 (m_pRoot l) ?ns 0" using lseg_same_except[OF seg n(4)] fresh by simp
  then have sega: "lseg ?h1 (m_pRoot l) (us @ [(a, y)]) (head_of vs)" and segv: "lseg ?h1 (head_of vs) vs 0"
    using lseg_head by (fastforce simp: lseg_append)+
  note a1 = lseg_last(1)[OF sega]
  let ?h2 = "upd_next ?h1 ?n x (head_of vs)" and ?h3 = "upd_next (upd_next ?h1 ?n x (head_of vs)) a y ?n"
  have ne: "a \<noteq> ?n" "a \<notin> fst ` set us" "a \<notin> fst ` set vs" "?n \<notin> fst ` set vs" "?n \<notin> fst ` set (us @ [(a, y)])"
    using fresh d by auto
  have a2: "hp ?h2 a = Some \<lparr>lv_next = head_of vs, lv_content = y\<rparr>" using a1 ne by simp
  have "LVlist_insertAfter_node h l a x = Inr (?h3, if a = m_pTail l then l\<lparr>m_pTail := ?n\<rparr> else l, ?n)"
    unfolding LVlist_insertAfter_node_def Let_def case_prod_beta n(2) getNext_ok[OF a1]
    by (simp add: setNext_ok[OF n(3)] setNext_ok[OF a2])
  moreover have "heap_ok ?h3" using a1 n ne by (intro upd_next_heap_ok) auto
  moreover have "lseg ?h3 (m_pRoot l) ((us @ [(a, y)]) @ (?n, x) # vs) 0"
  proof (subst lseg_append, intro exI conjI)
    show "lseg ?h3 (m_pRoot l) (us @ [(a, y)]) ?n"
      by (rule lseg_redirect[OF upd_next_frame[OF sega ne(5)] ne(2)])
    show "lseg ?h3 ?n ((?n, x) # vs) 0"
      using upd_next_frame[OF upd_next_frame[OF segv ne(4)] ne(3)] ne pos by simp
  qed
  then have "lseg ?h3 (m_pRoot l) (us @ (a, y) # (?n, x) # vs) 0" by simp
  moreover have "a = m_pTail l \<longleftrightarrow> vs = []"
    using t ne by (cases vs rule: rev_cases) auto
  ultimately show ?thesis
    using d fresh t n(4) by (auto simp: lv_rep_def same_except_def simp del: lseg.simps)
qed

lemma insertAfter_ok:
  assumes "lv_rep h l (us @ (a, y) # vs)" "m_pIter it = a"
  shows "returns (LVlist_insertAfter h l it x) (\<lambda>(h', l', it').
     lv_rep h' l' (us @ (a, y) # (hfree h, x) # vs) \<and> m_pMother it' \<and> m_pIter it' = hfree h \<and>
     same_except {hfree h, a} h h')"
  unfolding LVlist_insertAfter_def assms(2)
  by (rule returns_bind[OF insertAfter_node_ok[OF assms(1)]]) auto

text \<open>The same for an iterator at any place, past the end included.\<close>

lemma insertAfter_cases:
  assumes rep: "lv_rep h l (us @ vs)" and it: "m_pIter it = head_of vs"
  shows "case vs of [] \<Rightarrow> LVlist_insertAfter h l it x = Inl NullDeref
    | v # ws \<Rightarrow> returns (LVlist_insertAfter h l it x) (\<lambda>(h', l', it').
        lv_rep h' l' (us @ v # (hfree h, x) # ws) \<and> m_pMother it' \<and> m_pIter it' = hfree h \<and>
        same_except {hfree h, fst v} h h')"
proof (cases vs)
  case Nil
  have "hp h 0 = None" "hfree h \<noteq> 0" using rep by (auto simp: lv_rep_def heap_ok_def)
  then show ?thesis
    using Nil it
    by (simp add: LVlist_insertAfter_def LVlist_insertAfter_node_def new_node_def LVnode_getNext_def get_node_def)
next
  case (Cons v ws)
  then show ?thesis using insertAfter_ok[of h l us "fst v" "snd v" ws it x] rep it by simp
qed

section \<open>Removing\<close>

lemma heap_ok_delete: "heap_ok h \<Longrightarrow> heap_ok (h\<lparr>hp := (hp h)(a := None)\<rparr>)"
  by (simp add: heap_ok_def)

lemma lseg_delete: "lseg h p ns q \<Longrightarrow> a \<notin> fst ` set ns \<Longrightarrow> lseg (h\<lparr>hp := (hp h)(a := None)\<rparr>) p ns q"
  by (rule lseg_frame) auto

lemma erase_ok:
  assumes rep: "lv_rep h l (us @ (a, y) # vs)" and it: "m_pIter it = a"
  shows "returns (LVlist_erase h l it) (\<lambda>(h', l', it').
     lv_rep h' l' (us @ vs) \<and> m_pMother it' \<and> m_pIter it' = head_of vs \<and> hp h' a = None \<and>
     same_except {a, tail_of us} h h')"
proof -
  let ?ns = "us @ (a, y) # vs"
  have ok: "heap_ok h" and seg: "lseg h (m_pRoot l) ?ns 0" and d: "distinct (map fst ?ns)" and t: "m_pTail l = tail_of ?ns"
    using rep by (auto simp: lv_rep_def)
  have segu: "lseg h (m_pRoot l) us a" and segav: "lseg h a ((a, y) # vs) 0"
    using seg by (auto simp: lseg_append)
  have segv: "lseg h (head_of vs) vs 0" and nodea: "hp h a = Some \<lparr>lv_next = head_of vs, lv_content = y\<rparr>" and a0: "a \<noteq> 0"
    using segav lseg_head by auto
  have ne: "a \<notin> fst ` set us" "a \<notin> fst ` set vs" using d by auto
  have root: "m_pRoot l \<noteq> 0" using root_null_iff[OF rep] by simp
  show ?thesis
  proof (cases us rule: rev_cases)
    case Nil
    let ?h1 = "h\<lparr>hp := (hp h)(a := None)\<rparr>"
    have ra: "m_pRoot l = a" using segu Nil by simp
    have one: "LVlist_lengthIs1 h l = Inr (vs = [])"
      using root nodea segv ra by (cases vs) (auto simp: LVlist_lengthIs1_def)
    have "LVlist_erase h l it = Inr (?h1, if vs = [] then \<lparr>m_pRoot = 0, m_pTail = 0\<rparr> else l\<lparr>m_pRoot := head_of vs\<rparr>,
        \<lparr>m_pMother = True, m_pIter = head_of vs\<rparr>)"
      using root a0 it ra one nodea delete_ok[OF nodea] by (simp add: LVlist_erase_def)
    then show ?thesis
      using Nil heap_ok_delete[OF ok] lseg_delete[OF segv ne(2)] d t
      by (auto simp: lv_rep_def same_except_def)
  next
    case (snoc ws w)
    obtain b z where w: "w = (b, z)" by fastforce
    have segb: "lseg h (m_pRoot l) (ws @ [(b, z)]) a" using segu snoc w by simp
    have b: "b \<notin> fst ` set ws" "b \<noteq> a" "b \<notin> fst ` set vs" using d snoc w by auto
    let ?h1 = "upd_next h b z (head_of vs)"
    let ?h2 = "?h1\<lparr>hp := (hp ?h1)(a := None)\<rparr>"
    have ra: "a \<noteq> m_pRoot l" using lseg_root_in[OF segu] snoc ne by auto
    have prev: "find_previous (hfree h) h a (m_pRoot l) 0 = Inr b"
      using find_previous_ok[OF segu ne(1), of "hfree h" 0] lseg_length[OF ok seg d] snoc w by simp
    have set_b: "LVnode_setNext h b (head_of vs) = Inr ?h1" by (rule setNext_ok[OF lseg_last(1)[OF segb]])
    have a1: "hp ?h1 a = Some \<lparr>lv_next = head_of vs, lv_content = y\<rparr>" using nodea b by simp
    have res: "LVlist_erase h l it = Inr (?h2, if m_pTail l = a then l\<lparr>m_pTail := b\<rparr> else l,
        \<lparr>m_pMother = True, m_pIter = head_of vs\<rparr>)"
      using root a0 it ra prev nodea set_b delete_ok[OF a1] by (simp add: LVlist_erase_def)
    have "lseg ?h1 (m_pRoot l) us (head_of vs)" using lseg_redirect[OF segb b(1)] snoc w by simp
    then have "lseg ?h2 (m_pRoot l) us (head_of vs)" by (rule lseg_delete[OF _ ne(1)])
    moreover have "lseg ?h2 (head_of vs) vs 0" by (rule lseg_delete[OF upd_next_frame[OF segv b(3)] ne(2)])
    ultimately have "lseg ?h2 (m_pRoot l) (us @ vs) 0" unfolding lseg_append by blast
    moreover have "heap_ok ?h2"
      using lseg_last(1)[OF segb] by (intro heap_ok_delete upd_next_heap_ok[OF ok]) simp
    moreover have "m_pTail l = a \<longleftrightarrow> vs = []" using t ne by (cases vs rule: rev_cases) auto
    ultimately have "lv_rep ?h2 (if m_pTail l = a then l\<lparr>m_pTail := b\<rparr> else l) (us @ vs)"
      using d t snoc w by (cases "vs = []") (auto simp: lv_rep_def)
    moreover have "same_except {a, tail_of us} h ?h2" using snoc w by (simp add: same_except_def)
    ultimately show ?thesis unfolding res by simp
  qed
qed

lemma clear_loop_ok:
  "lseg h p ns 0 \<Longrightarrow> distinct (map fst ns) \<Longrightarrow> length ns \<le> n \<Longrightarrow>
   returns (clear_loop n h p) (\<lambda>h'. same_except (fst ` set ns) h h' \<and> hfree h' = hfree h \<and>
     (\<forall>a\<in>fst ` set ns. hp h' a = None))"
proof (induction ns arbitrary: p n h)
  case Nil
  then show ?case by (cases n) (auto simp: same_except_def)
next
  case (Cons u ns)
  then obtain m where n: "n = Suc m" by (cases n) auto
  obtain r where r: "p = fst u" "p \<noteq> 0" "hp h p = Some \<lparr>lv_next = r, lv_content = snd u\<rparr>" "lseg h r ns 0"
    using Cons.prems by auto
  let ?h1 = "h\<lparr>hp := (hp h)(p := None)\<rparr>"
  have p: "p \<notin> fst ` set ns" using Cons.prems r by simp
  have "returns (clear_loop m ?h1 r) (\<lambda>h'. same_except (fst ` set ns) ?h1 h' \<and> hfree h' = hfree ?h1 \<and>
     (\<forall>a\<in>fst ` set ns. hp h' a = None))"
    using Cons.IH[OF lseg_delete[OF r(4) p]] Cons.prems n by simp
  then show ?case
    using r n p delete_ok[OF r(3)] by (auto simp: same_except_def elim!: returns_mono)
qed

lemma clear_ok:
  assumes rep: "lv_rep h l ns"
  shows "returns (LVlist_clear h l) (\<lambda>(h', l'). lv_rep h' l' [] \<and> same_except (fst ` set ns) h h' \<and>
     (\<forall>a\<in>fst ` set ns. hp h' a = None))"
proof -
  have ok: "heap_ok h" and seg: "lseg h (m_pRoot l) ns 0" and d: "distinct (map fst ns)"
    using rep by (auto simp: lv_rep_def)
  have "heap_ok h'" if "same_except (fst ` set ns) h h'" "hfree h' = hfree h" "\<forall>a\<in>fst ` set ns. hp h' a = None" for h'
    using that ok unfolding heap_ok_def same_except_def by metis
  then show ?thesis
    using clear_loop_ok[OF seg d, of "hfree h"] lseg_length[OF ok seg d]
    by (auto simp: LVlist_clear_def returns_iff)
qed

section \<open>Observing\<close>

lemma size_loop_ok:
  "lseg h p ns 0 \<Longrightarrow> length ns \<le> n \<Longrightarrow> size_loop n h k p = Inr (k + int (length ns))"
proof (induction ns arbitrary: p n k)
  case Nil
  then show ?case by (cases n) auto
next
  case (Cons u ns)
  then show ?case by (cases n) auto
qed

lemma observe_ok:
  assumes rep: "lv_rep h l ns"
  shows "LVlist_size h l = Inr (int (length ns))" "LVlist_empty l \<longleftrightarrow> ns = []"
    "LVlist_lengthIs1 h l = Inr (length ns = 1)"
    "LVlist_front h l = (if ns = [] then Inl EmdrosException else Inr (snd (hd ns)))"
    "LVlist_back h l = (if ns = [] then Inl EmdrosException else Inr (snd (last ns)))"
proof -
  have ok: "heap_ok h" and seg: "lseg h (m_pRoot l) ns 0" and d: "distinct (map fst ns)" and t: "m_pTail l = tail_of ns"
    using rep by (auto simp: lv_rep_def)
  show "LVlist_size h l = Inr (int (length ns))"
    using size_loop_ok[OF seg, of "hfree h" 0] lseg_length[OF ok seg d] by (simp add: LVlist_size_def)
  show "LVlist_empty l \<longleftrightarrow> ns = []" using root_null_iff[OF rep] by (simp add: LVlist_empty_def)
  show "LVlist_lengthIs1 h l = Inr (length ns = 1)"
    using seg by (cases ns; cases "tl ns") (auto simp: LVlist_lengthIs1_def)
  show "LVlist_front h l = (if ns = [] then Inl EmdrosException else Inr (snd (hd ns)))"
    using seg by (cases ns) (auto simp: LVlist_front_def)
  show "LVlist_back h l = (if ns = [] then Inl EmdrosException else Inr (snd (last ns)))"
  proof (cases ns rule: rev_cases)
    case Nil
    then show ?thesis using t by (simp add: LVlist_back_def)
  next
    case (snoc us u)
    then show ?thesis
      using t lseg_last[of h "m_pRoot l" us "fst u" "snd u" 0] seg by (simp add: LVlist_back_def)
  qed
qed

text \<open>An iterator over a list stands before the nodes it still visits.\<close>

definition it_rep :: "'a lvheap \<Rightarrow> lviter \<Rightarrow> (addr \<times> 'a) list \<Rightarrow> bool" where
  "it_rep h it ns \<longleftrightarrow> m_pMother it \<and> lseg h (m_pIter it) ns 0"

lemma iterator_ok:
  "lv_rep h l ns \<Longrightarrow> it_rep h (LVlistIterator_new (Some l)) ns"
  "it_rep h it ns \<Longrightarrow> LVlistIterator_hasNext it \<longleftrightarrow> ns \<noteq> []"
  "it_rep h it (n # ns) \<Longrightarrow> LVlistIterator_current h it = Inr (snd n)"
  "it_rep h it (n # ns) \<Longrightarrow> returns (LVlistIterator_next h it) (\<lambda>(x, it'). x = snd n \<and> it_rep h it' ns)"
  "it_rep h it [] \<Longrightarrow> heap_ok h \<Longrightarrow> LVlistIterator_current h it = Inl NullDeref \<and> LVlistIterator_next h it = Inl EmdrosException"
proof -
  show "it_rep h (LVlistIterator_new (Some l)) ns" if "lv_rep h l ns"
    using that by (simp add: it_rep_def lv_rep_def LVlistIterator_new_def)
  show hn: "LVlistIterator_hasNext it \<longleftrightarrow> ns \<noteq> []" if "it_rep h it ns" for ns
    using that by (cases ns) (auto simp: it_rep_def LVlistIterator_hasNext_def)
  show "LVlistIterator_current h it = Inr (snd n)" if "it_rep h it (n # ns)"
    using that by (auto simp: it_rep_def LVlistIterator_current_def)
  show "returns (LVlistIterator_next h it) (\<lambda>(x, it'). x = snd n \<and> it_rep h it' ns)" if "it_rep h it (n # ns)"
    using that hn[OF that] by (auto simp: it_rep_def LVlistIterator_next_def get_node_def)
  show "LVlistIterator_current h it = Inl NullDeref \<and> LVlistIterator_next h it = Inl EmdrosException"
    if "it_rep h it []" "heap_ok h"
    using that hn[OF that(1)]
    by (auto simp: it_rep_def heap_ok_def LVlistIterator_current_def LVlistIterator_next_def LVnode_getContent_def
        get_node_def)
qed

section \<open>The interface a client loop uses\<close>

text \<open>
  What \<open>SetOfMonads::copyOther\<close> and its like rely on: pushing at the back of one list, and
  an iterator over another one whose nodes are not among the first one's. \<open>list_is h l F xs\<close>
  says that \<open>l\<close> holds \<open>xs\<close> in the nodes \<open>F\<close>.
\<close>

locale back_insertion =
  fixes push_back :: "'h \<Rightarrow> 'l \<Rightarrow> 'a \<Rightarrow> ('h \<times> 'l) res"
    and has_next :: "'i \<Rightarrow> bool"
    and get_next :: "'h \<Rightarrow> 'i \<Rightarrow> ('a \<times> 'i) res"
    and list_is :: "'h \<Rightarrow> 'l \<Rightarrow> 'n set \<Rightarrow> 'a list \<Rightarrow> bool"
    and iter_is :: "'h \<Rightarrow> 'i \<Rightarrow> 'n set \<Rightarrow> 'a list \<Rightarrow> bool"
  assumes push_back_law: "list_is h l F xs \<Longrightarrow> returns (push_back h l x) (\<lambda>(h', l'). \<exists>F'.
        list_is h' l' F' (xs @ [x]) \<and>
        (\<forall>i G ys. iter_is h i G ys \<and> G \<inter> F = {} \<longrightarrow> iter_is h' i G ys \<and> G \<inter> F' = {}))"
    and has_next_law: "iter_is h i G ys \<Longrightarrow> has_next i \<longleftrightarrow> ys \<noteq> []"
    and get_next_law: "iter_is h i G (y # ys) \<Longrightarrow>
        returns (get_next h i) (\<lambda>(x, i'). x = y \<and> (\<exists>G'\<subseteq>G. iter_is h i' G' ys))"
begin

lemma copy_loop:
  assumes C0: "\<And>h l i. C 0 h l i = (if has_next i then Inl OutOfFuel else Inr (h, l))"
    and CS: "\<And>n h l i. C (Suc n) h l i =
      (if has_next i
       then bind_res (get_next h i) (\<lambda>(x, i1). bind_res (push_back h l x) (\<lambda>(h1, l1). C n h1 l1 i1))
       else Inr (h, l))"
    and "list_is h l F xs" "iter_is h i G ys" "G \<inter> F = {}" "length ys \<le> n"
  shows "returns (C n h l i) (\<lambda>(h', l'). \<exists>F'. list_is h' l' F' (xs @ ys))"
  using assms(3-)
proof (induction ys arbitrary: n h l i F G xs)
  case Nil
  then show ?case using has_next_law[of h i G "[]"] by (cases n) (auto simp: C0 CS)
next
  case (Cons y ys)
  then obtain m where n: "n = Suc m" by (cases n) auto
  obtain i1 G1 where i1: "get_next h i = Inr (y, i1)" "iter_is h i1 G1 ys" "G1 \<subseteq> G"
    using get_next_law[OF Cons.prems(2)] by (auto simp: returns_iff)
  obtain h1 l1 F1 where h1: "push_back h l y = Inr (h1, l1)" "list_is h1 l1 F1 (xs @ [y])"
      "\<forall>i G ys. iter_is h i G ys \<and> G \<inter> F = {} \<longrightarrow> iter_is h1 i G ys \<and> G \<inter> F1 = {}"
    using push_back_law[OF Cons.prems(1), of y] by (auto simp: returns_iff)
  have "iter_is h1 i1 G1 ys" "G1 \<inter> F1 = {}" using h1(3) i1 Cons.prems(3) by blast+
  from Cons.IH[OF h1(2) this] show ?case
    using has_next_law[OF Cons.prems(2)] i1(1) h1(1) Cons.prems(4) n by (simp add: CS)
qed

end

definition lv_list_is :: "'a lvheap \<Rightarrow> lvlist \<Rightarrow> addr set \<Rightarrow> 'a list \<Rightarrow> bool" where
  "lv_list_is h l F xs \<longleftrightarrow> (\<exists>ns. lv_rep h l ns \<and> F = fst ` set ns \<and> xs = map snd ns)"

definition lv_iter_is :: "'a lvheap \<Rightarrow> lviter \<Rightarrow> addr set \<Rightarrow> 'a list \<Rightarrow> bool" where
  "lv_iter_is h i G ys \<longleftrightarrow> heap_ok h \<and> (\<exists>ns. it_rep h i ns \<and> G = fst ` set ns \<and> ys = map snd ns)"

interpretation lv: back_insertion LVlist_push_back LVlistIterator_hasNext LVlistIterator_next
  lv_list_is lv_iter_is
proof unfold_locales
  fix h :: "'a lvheap" and l F xs x
  assume "lv_list_is h l F xs"
  then obtain ns where ns: "lv_rep h l ns" "F = fst ` set ns" "xs = map snd ns" by (auto simp: lv_list_is_def)
  let ?F' = "insert (hfree h) F"
  have keep: "lv_iter_is h' i G ys \<and> G \<inter> ?F' = {}"
    if h': "heap_ok h'" "same_except ?F' h h'" and i: "lv_iter_is h i G ys" "G \<inter> F = {}" for h' i G ys
  proof -
    obtain ms where ms: "heap_ok h" "it_rep h i ms" "G = fst ` set ms" "ys = map snd ms"
      using i(1) by (auto simp: lv_iter_is_def)
    have "hfree h \<notin> G" using lseg_below[OF ms(1), of "m_pIter i" ms 0 "hfree h"] ms by (auto simp: it_rep_def)
    then show ?thesis
      using ms h' i(2) lseg_same_except[of h "m_pIter i" ms 0 ?F' h'] by (auto simp: lv_iter_is_def it_rep_def)
  qed
  show "returns (LVlist_push_back h l x) (\<lambda>(h', l'). \<exists>F'. lv_list_is h' l' F' (xs @ [x]) \<and>
        (\<forall>i G ys. lv_iter_is h i G ys \<and> G \<inter> F = {} \<longrightarrow> lv_iter_is h' i G ys \<and> G \<inter> F' = {}))"
  proof (rule returns_mono[OF push_back_ok[OF ns(1), of x]], clarify, intro exI[of _ ?F'] conjI allI impI)
    fix h' l'
    assume r0: "lv_rep h' l' (ns @ [(hfree h, x)])" "same_except {hfree h, tail_of ns} h h'"
    have r: "lv_rep h' l' (ns @ [(hfree h, x)])" "same_except (insert (hfree h) (fst ` set ns)) h h'"
      using r0 same_except_tail[OF r0(2)] ns(1) by (auto simp: lv_rep_def)
    show "lv_list_is h' l' ?F' (xs @ [x])"
      unfolding lv_list_is_def using r(1) ns by (intro exI[of _ "ns @ [(hfree h, x)]"]) auto
    show "lv_iter_is h' i G ys" "G \<inter> ?F' = {}" if "lv_iter_is h i G ys \<and> G \<inter> F = {}" for i G ys
      using keep[of h' i G ys] r ns that by (auto simp: lv_rep_def)
  qed
next
  fix h :: "'a lvheap" and i G ys
  assume "lv_iter_is h i G ys"
  then show "LVlistIterator_hasNext i = (ys \<noteq> [])" by (auto simp: lv_iter_is_def iterator_ok(2))
next
  fix h :: "'a lvheap" and i G y ys
  assume "lv_iter_is h i G (y # ys)"
  then obtain n ns where n: "heap_ok h" "it_rep h i (n # ns)" "G = fst ` set (n # ns)" "y = snd n" "ys = map snd ns"
    by (auto simp: lv_iter_is_def Cons_eq_map_conv)
  have "\<exists>G'\<subseteq>G. lv_iter_is h i' G' ys" if "it_rep h i' ns" for i'
    unfolding lv_iter_is_def using that n by (intro exI[of _ "fst ` set ns"]) auto
  then show "returns (LVlistIterator_next h i) (\<lambda>(x, i'). x = y \<and> (\<exists>G'\<subseteq>G. lv_iter_is h i' G' ys))"
    using iterator_ok(4)[OF n(2)] n(4) by (auto elim!: returns_mono)
qed

lemma push_back_all_ok:
  assumes "lv_rep h l ns"
  shows "returns (push_back_all (length ns) h LVlist_new (LVlistIterator_new (Some l)))
           (\<lambda>(h', l'). \<exists>ms. lv_rep h' l' ms \<and> map snd ms = map snd ns)"
proof -
  have "lv_list_is h LVlist_new {} []"
    using assms unfolding lv_list_is_def LVlist_new_def by (intro exI[of _ "[]"]) (auto simp: lv_rep_def)
  moreover have "lv_iter_is h (LVlistIterator_new (Some l)) (fst ` set ns) (map snd ns)"
    using assms iterator_ok(1)[OF assms] by (auto simp: lv_iter_is_def lv_rep_def)
  ultimately have "returns (push_back_all (length ns) h LVlist_new (LVlistIterator_new (Some l)))
      (\<lambda>(h', l'). \<exists>F'. lv_list_is h' l' F' ([] @ map snd ns))"
    by (rule lv.copy_loop[where C = push_back_all, rotated 2]) auto
  then show ?thesis by (auto simp: lv_list_is_def elim!: returns_mono)
qed

section \<open>Properties\<close>

definition demo_heap :: "int lvheap" where
  "demo_heap = \<lparr>hp = [1 \<mapsto> \<lparr>lv_next = 2, lv_content = 10\<rparr>, 2 \<mapsto> \<lparr>lv_next = 0, lv_content = 20\<rparr>,
      3 \<mapsto> \<lparr>lv_next = 0, lv_content = 30\<rparr>], hfree = 4\<rparr>"

definition demo_list :: lvlist where
  "demo_list = \<lparr>m_pRoot = 1, m_pTail = 2\<rparr>"

lemma demo_list_rep: "lv_rep demo_heap demo_list ([(1, 10)] @ (2, 20) # [])"
  by (simp add: demo_heap_def demo_list_def lv_rep_def heap_ok_def)

lemma demo_list3_rep: "lv_rep demo_heap \<lparr>m_pRoot = 3, m_pTail = 3\<rparr> [(3, 30)]"
  by (simp add: demo_heap_def lv_rep_def heap_ok_def)

text \<open>
  C28: Inserting into an \<open>LVlist\<close>, an empty one included: at the back, at the front, before
  and after the place an iterator stands at. The iterator may be past the end, where
  \<open>insertBefore\<close> appends and \<open>insertAfter\<close> follows the null pointer; anywhere else every
  operation ends, puts one new node in its place in the sequence, keeps the head and the tail
  pointer of the list and returns an iterator to the new node where the code does. The only
  node that changes beside the new one is its predecessor (\<open>tail_of []\<close> is the null pointer,
  where nothing lives).
\<close>

theorem LVlist_insertion:
  "lv_rep h l (us @ vs) \<Longrightarrow> m_pIter it = head_of vs \<Longrightarrow>
   returns (LVlist_push_back h l x) (\<lambda>(h', l').
     lv_rep h' l' (us @ vs @ [(hfree h, x)]) \<and> same_except {hfree h, tail_of (us @ vs)} h h') \<and>
   returns (LVlist_prepend h l x) (\<lambda>(h', l').
     lv_rep h' l' ((hfree h, x) # us @ vs) \<and> same_except {hfree h} h h') \<and>
   returns (LVlist_insertBefore h l it x) (\<lambda>(h', l', it').
     lv_rep h' l' (us @ (hfree h, x) # vs) \<and> m_pMother it' \<and> m_pIter it' = hfree h \<and>
     same_except {hfree h, tail_of us} h h') \<and>
   (case vs of
      [] \<Rightarrow> LVlist_insertAfter h l it x = Inl NullDeref
    | v # ws \<Rightarrow> returns (LVlist_insertAfter h l it x) (\<lambda>(h', l', it').
        lv_rep h' l' (us @ v # (hfree h, x) # ws) \<and> m_pMother it' \<and> m_pIter it' = hfree h \<and>
        same_except {hfree h, fst v} h h'))"
  using push_back_ok[of h l "us @ vs" x] prepend_ok[of h l "us @ vs" x]
    insertBefore_ok[of h l us vs it x] insertAfter_cases[of h l us vs it x]
  by simp

theorem LVlist_insertion_witness:
  "(returns (LVlist_push_back heap_empty LVlist_new (5 :: int)) (\<lambda>(h', l').
      lv_rep h' l' [(1, 5)] \<and> same_except {1, 0} heap_empty h') \<and>
    returns (LVlist_prepend heap_empty LVlist_new (5 :: int)) (\<lambda>(h', l').
      lv_rep h' l' [(1, 5)] \<and> same_except {1} heap_empty h') \<and>
    returns (LVlist_insertBefore heap_empty LVlist_new \<lparr>m_pMother = True, m_pIter = 0\<rparr> (5 :: int)) (\<lambda>(h', l', it').
      lv_rep h' l' [(1, 5)] \<and> m_pMother it' \<and> m_pIter it' = 1 \<and> same_except {1, 0} heap_empty h') \<and>
    LVlist_insertAfter heap_empty LVlist_new \<lparr>m_pMother = True, m_pIter = 0\<rparr> (5 :: int) = Inl NullDeref) \<and>
   returns (LVlist_push_back demo_heap demo_list 5) (\<lambda>(h', l').
     lv_rep h' l' [(1, 10), (2, 20), (4, 5)] \<and> same_except {4, 2} demo_heap h') \<and>
   returns (LVlist_prepend demo_heap demo_list 5) (\<lambda>(h', l').
     lv_rep h' l' [(4, 5), (1, 10), (2, 20)] \<and> same_except {4} demo_heap h') \<and>
   returns (LVlist_insertBefore demo_heap demo_list \<lparr>m_pMother = True, m_pIter = 2\<rparr> 5) (\<lambda>(h', l', it').
     lv_rep h' l' [(1, 10), (4, 5), (2, 20)] \<and> m_pMother it' \<and> m_pIter it' = 4 \<and>
     same_except {4, 1} demo_heap h') \<and>
   returns (LVlist_insertAfter demo_heap demo_list \<lparr>m_pMother = True, m_pIter = 2\<rparr> 5) (\<lambda>(h', l', it').
     lv_rep h' l' [(1, 10), (2, 20), (4, 5)] \<and> m_pMother it' \<and> m_pIter it' = 4 \<and>
     same_except {4, 2} demo_heap h')"
proof -
  have empty: "lv_rep heap_empty LVlist_new ([] @ [])"
    by (simp add: heap_empty_def LVlist_new_def lv_rep_def heap_ok_def)
  have [simp]: "hfree demo_heap = 4" "hfree (heap_empty :: int lvheap) = 1"
    by (simp_all add: demo_heap_def heap_empty_def)
  show ?thesis
    using LVlist_insertion[OF empty, of "\<lparr>m_pMother = True, m_pIter = 0\<rparr>" "5 :: int"]
      LVlist_insertion[OF demo_list_rep, of "\<lparr>m_pMother = True, m_pIter = 2\<rparr>" 5]
    by (simp del: lseg.simps)
qed

text \<open>
  C29: Removing from an \<open>LVlist\<close>: \<open>erase\<close> takes the node out of the sequence, frees it
  and returns an iterator to the node after it, and \<open>clear\<close> empties the list and
  frees every node of it; \<open>erase\<close> changes no other node than the predecessor of the erased
  one, and \<open>clear\<close> touches no node of another list.
\<close>

theorem LVlist_removal:
  "lv_rep h l (us @ (a, y) # vs) \<Longrightarrow> m_pIter it = a \<Longrightarrow>
   returns (LVlist_erase h l it) (\<lambda>(h', l', it').
     lv_rep h' l' (us @ vs) \<and> m_pIter it' = head_of vs \<and> hp h' a = None \<and>
     same_except {a, tail_of us} h h') \<and>
   returns (LVlist_clear h l) (\<lambda>(h', l'). lv_rep h' l' [] \<and>
     (\<forall>b\<in>fst ` set (us @ (a, y) # vs). hp h' b = None) \<and>
     same_except (fst ` set (us @ (a, y) # vs)) h h')"
  using erase_ok[of h l us a y vs it] clear_ok[of h l "us @ (a, y) # vs"]
  by (auto elim!: returns_mono)

theorem LVlist_removal_witness:
  "returns (LVlist_erase demo_heap demo_list \<lparr>m_pMother = True, m_pIter = 2\<rparr>) (\<lambda>(h', l', it').
     lv_rep h' l' ([(1, 10)] @ []) \<and> m_pIter it' = head_of ([] :: (addr \<times> int) list) \<and> hp h' 2 = None \<and>
     same_except {2, tail_of [(1, 10 :: int)]} demo_heap h') \<and>
   returns (LVlist_clear demo_heap demo_list) (\<lambda>(h', l'). lv_rep h' l' [] \<and>
     (\<forall>b\<in>fst ` set ([(1, 10 :: int)] @ (2, 20) # []). hp h' b = None) \<and>
     same_except (fst ` set ([(1, 10 :: int)] @ (2, 20) # [])) demo_heap h')"
  by (rule LVlist_removal[OF demo_list_rep]) simp

text \<open>
  C30: Moving nodes between two \<open>LVlist\<close>s without copying: \<open>prependWithMe\<close> and
  \<open>extendWithMe\<close> join two lists whose nodes are different and leave the first one empty;
  iterating over a list and pushing each value at the back of a new one, as
  \<open>SetOfMonads::copyOther\<close> does, makes a copy.
\<close>

theorem LVlist_splicing:
  "lv_rep h this ns \<Longrightarrow> lv_rep h other ms \<Longrightarrow> fst ` set ns \<inter> fst ` set ms = {} \<Longrightarrow>
   returns (LVlist_prependWithMe h this other) (\<lambda>(h', this', other').
     lv_rep h' this' [] \<and> lv_rep h' other' (ns @ ms)) \<and>
   returns (LVlist_extendWithMe h this other) (\<lambda>(h', this', other').
     lv_rep h' this' [] \<and> lv_rep h' other' (ms @ ns)) \<and>
   returns (push_back_all (length ns) h LVlist_new (LVlistIterator_new (Some this)))
     (\<lambda>(h', l'). \<exists>ks. lv_rep h' l' ks \<and> map snd ks = map snd ns)"
  using prependWithMe_ok[of h this ns other ms] extendWithMe_ok[of h this ns other ms] push_back_all_ok[of h this ns]
  by (auto simp: case_prod_beta elim!: returns_mono)

theorem LVlist_splicing_witness:
  "returns (LVlist_prependWithMe demo_heap demo_list \<lparr>m_pRoot = 3, m_pTail = 3\<rparr>) (\<lambda>(h', this', other').
     lv_rep h' this' [] \<and> lv_rep h' other' (([(1, 10)] @ (2, 20) # []) @ [(3, 30)])) \<and>
   returns (LVlist_extendWithMe demo_heap demo_list \<lparr>m_pRoot = 3, m_pTail = 3\<rparr>) (\<lambda>(h', this', other').
     lv_rep h' this' [] \<and> lv_rep h' other' ([(3, 30)] @ [(1, 10)] @ (2, 20) # [])) \<and>
   returns (push_back_all (length ([(1 :: addr, 10 :: int)] @ (2, 20) # [])) demo_heap LVlist_new
       (LVlistIterator_new (Some demo_list)))
     (\<lambda>(h', l'). \<exists>ks. lv_rep h' l' ks \<and> map snd ks = map snd ([(1 :: addr, 10 :: int)] @ (2, 20) # []))"
  by (rule LVlist_splicing[OF demo_list_rep demo_list3_rep]) simp

end
