(* ===== verification/Llist.thy ===== *)
theory Llist
  imports LVlist_Props
begin

text \<open>
  The pointer-based list \<open>Llist\<close> of \<^verbatim>\<open>include/llist.h\<close>: the same node structure as
  \<open>LVlist\<close>, with pointers to objects the list does not own as its contents. The heap holds
  the nodes and, apart from them, the objects; \<open>erase\<close> and \<open>clear\<close> can delete the objects
  too when they are asked to. Each operation of the node structure is textually the one of
  \<open>LVlist\<close> over pointers, and is modelled by it.
\<close>

record 'a llheap =
  ll_nodes :: "addr lvheap"
  ll_objs :: "addr \<Rightarrow> 'a option"

definition on_nodes :: "(addr lvheap \<Rightarrow> (addr lvheap \<times> 'b) res) \<Rightarrow> 'a llheap \<Rightarrow> ('a llheap \<times> 'b) res" where
  "on_nodes f h = bind_res (f (ll_nodes h)) (\<lambda>(n, r). Inr (h\<lparr>ll_nodes := n\<rparr>, r))"

text \<open>\<open>delete p\<close> of an object: deleting null is allowed, deleting twice is an error.\<close>

definition delete_obj :: "'a llheap \<Rightarrow> addr \<Rightarrow> 'a llheap res" where
  "delete_obj h p =
     (if p = 0 then Inr h
      else case ll_objs h p of None \<Rightarrow> Inl NullDeref
           | Some _ \<Rightarrow> Inr (h\<lparr>ll_objs := (ll_objs h)(p := None)\<rparr>))"

definition Llist_push_back :: "'a llheap \<Rightarrow> lvlist \<Rightarrow> addr \<Rightarrow> ('a llheap \<times> lvlist) res" where
  "Llist_push_back h l p = on_nodes (\<lambda>n. LVlist_push_back n l p) h"

definition Llist_prepend :: "'a llheap \<Rightarrow> lvlist \<Rightarrow> addr \<Rightarrow> ('a llheap \<times> lvlist) res" where
  "Llist_prepend h l p = on_nodes (\<lambda>n. LVlist_prepend n l p) h"

definition Llist_prependWithMe ::
  "'a llheap \<Rightarrow> lvlist \<Rightarrow> lvlist \<Rightarrow> ('a llheap \<times> lvlist \<times> lvlist) res" where
  "Llist_prependWithMe h this pOther = on_nodes (\<lambda>n. LVlist_prependWithMe n this pOther) h"

definition Llist_extendWithMe ::
  "'a llheap \<Rightarrow> lvlist \<Rightarrow> lvlist \<Rightarrow> ('a llheap \<times> lvlist \<times> lvlist) res" where
  "Llist_extendWithMe h this pOther = on_nodes (\<lambda>n. LVlist_extendWithMe n this pOther) h"

definition Llist_insertAfter :: "'a llheap \<Rightarrow> lvlist \<Rightarrow> addr \<Rightarrow> addr \<Rightarrow> ('a llheap \<times> lvlist \<times> addr) res" where
  "Llist_insertAfter h l pIterator p = on_nodes (\<lambda>n. LVlist_insertAfter_node n l pIterator p) h"

definition Llist_insertBefore ::
  "'a llheap \<Rightarrow> lvlist \<Rightarrow> lviter \<Rightarrow> addr \<Rightarrow> ('a llheap \<times> lvlist \<times> lviter) res" where
  "Llist_insertBefore h l it p = on_nodes (\<lambda>n. LVlist_insertBefore n l it p) h"

text \<open>
  \<open>erase\<close>: the content is deleted, when asked for, after the node is out of the chain and
  before the node itself is deleted.
\<close>

definition Llist_erase ::
  "'a llheap \<Rightarrow> lvlist \<Rightarrow> lviter \<Rightarrow> bool \<Rightarrow> ('a llheap \<times> lvlist \<times> lviter) res" where
  "Llist_erase h l to_remove bDeleteElement =
     bind_res (ASSERT_THROW (m_pRoot l \<noteq> 0)) (\<lambda>_.
     let node = m_pIter to_remove; n = ll_nodes h
     in bind_res (ASSERT_THROW (node \<noteq> 0)) (\<lambda>_.
        bind_res (LVnode_getNext n node) (\<lambda>after.
        bind_res
          (if node = m_pRoot l
           then bind_res (LVlist_lengthIs1 n l) (\<lambda>one.
                  Inr (n, if one then \<lparr>m_pRoot = 0, m_pTail = 0\<rparr> else l\<lparr>m_pRoot := after\<rparr>))
           else bind_res (find_previous (hfree n) n node (m_pRoot l) 0) (\<lambda>prev.
                bind_res (LVnode_setNext n prev after) (\<lambda>n1.
                  Inr (n1, if m_pTail l = node then l\<lparr>m_pTail := prev\<rparr> else l))))
          (\<lambda>(n1, l1).
             bind_res (if bDeleteElement
                       then bind_res (LVnode_getContent n1 node) (delete_obj h) else Inr h) (\<lambda>h1.
             bind_res (delete_node n1 node) (\<lambda>n2.
               Inr (h1\<lparr>ll_nodes := n2\<rparr>, l1, \<lparr>m_pMother = True, m_pIter = after\<rparr>)))))))"

fun Llist_clear_loop :: "nat \<Rightarrow> 'a llheap \<Rightarrow> bool \<Rightarrow> addr \<Rightarrow> 'a llheap res" where
  "Llist_clear_loop 0 h bDeleteContents current = (if current = 0 then Inr h else Inl OutOfFuel)"
| "Llist_clear_loop (Suc n) h bDeleteContents current =
     (if current = 0 then Inr h
      else bind_res (LVnode_getNext (ll_nodes h) current) (\<lambda>nxt.
           bind_res (if bDeleteContents
                     then bind_res (LVnode_getContent (ll_nodes h) current) (delete_obj h) else Inr h) (\<lambda>h1.
           bind_res (delete_node (ll_nodes h1) current) (\<lambda>n1.
             Llist_clear_loop n (h1\<lparr>ll_nodes := n1\<rparr>) bDeleteContents nxt))))"

definition Llist_clear :: "'a llheap \<Rightarrow> lvlist \<Rightarrow> bool \<Rightarrow> ('a llheap \<times> lvlist) res" where
  "Llist_clear h l bDeleteContents =
     bind_res (Llist_clear_loop (hfree (ll_nodes h)) h bDeleteContents (m_pRoot l))
       (\<lambda>h1. Inr (h1, \<lparr>m_pRoot = 0, m_pTail = 0\<rparr>))"

definition Llist_lengthIs1 :: "'a llheap \<Rightarrow> lvlist \<Rightarrow> bool res" where
  "Llist_lengthIs1 h l = LVlist_lengthIs1 (ll_nodes h) l"

definition Llist_size :: "'a llheap \<Rightarrow> lvlist \<Rightarrow> int res" where
  "Llist_size h l = LVlist_size (ll_nodes h) l"

text \<open>\<open>back()\<close> reads through the tail pointer without a check.\<close>

definition Llist_back :: "'a llheap \<Rightarrow> lvlist \<Rightarrow> addr res" where
  "Llist_back h l = LVnode_getContent (ll_nodes h) (m_pTail l)"

definition LlistIterator_new :: "lvlist option \<Rightarrow> lviter" where
  "LlistIterator_new l = LVlistIterator_new l"

definition LlistIterator_hasNext :: "lviter \<Rightarrow> bool" where
  "LlistIterator_hasNext it = (if \<not> m_pMother it then False else m_pIter it \<noteq> 0)"

definition LlistIterator_next :: "'a llheap \<Rightarrow> lviter \<Rightarrow> (addr \<times> lviter) res" where
  "LlistIterator_next h it = LVlistIterator_next (ll_nodes h) it"

definition LlistIterator_current :: "'a llheap \<Rightarrow> lviter \<Rightarrow> addr res" where
  "LlistIterator_current h it = LVlistIterator_current (ll_nodes h) it"

section \<open>Deleting the contents\<close>

text \<open>Erasing the node and deleting the content afterwards is the same as the code's order.\<close>

lemma erase_step:
  assumes rep: "lv_rep (ll_nodes h) l (us @ (a, p) # vs)" and it: "m_pIter it = a"
    and obj: "b \<longrightarrow> p \<noteq> 0 \<and> ll_objs h p \<noteq> None"
  shows "Llist_erase h l it b = bind_res (LVlist_erase (ll_nodes h) l it) (\<lambda>(n, l', it').
     Inr (h\<lparr>ll_objs := (if b then (ll_objs h)(p := None) else ll_objs h), ll_nodes := n\<rparr>, l', it'))"
proof -
  have node: "hp (ll_nodes h) a = Some \<lparr>lv_next = head_of vs, lv_content = p\<rparr>" "a \<noteq> 0"
    using rep lseg_head by (auto simp: lv_rep_def lseg_append)
  have del: "(if b then delete_obj h p else Inr h) =
      Inr (h\<lparr>ll_objs := (if b then (ll_objs h)(p := None) else ll_objs h)\<rparr>)"
    using obj by (auto simp: delete_obj_def)
  let ?n = "ll_nodes h"
  have ok: "heap_ok ?n" and seg: "lseg ?n (m_pRoot l) (us @ (a, p) # vs) 0" and d: "distinct (map fst (us @ (a, p) # vs))"
    using rep by (auto simp: lv_rep_def)
  have segu: "lseg ?n (m_pRoot l) us a" using seg by (auto simp: lseg_append)
  have root: "m_pRoot l \<noteq> 0" using root_null_iff[OF rep] by simp
  show ?thesis
  proof (cases us rule: rev_cases)
    case Nil
    then have "m_pRoot l = a" using segu by simp
    then show ?thesis
      using root node it del observe_ok(3)[OF rep] delete_ok[OF node(1)]
      by (cases b) (simp_all add: Llist_erase_def LVlist_erase_def Let_def)
  next
    case (snoc ws w)
    obtain c z where w: "w = (c, z)" by fastforce
    have a: "a \<notin> fst ` set us" "c \<noteq> a" using d snoc w by auto
    have "a \<noteq> m_pRoot l" using lseg_root_in[OF segu] snoc a by auto
    moreover have "find_previous (hfree ?n) ?n a (m_pRoot l) 0 = Inr c"
      using find_previous_ok[OF segu a(1), of "hfree ?n" 0] lseg_length[OF ok seg d] snoc w by simp
    moreover have "LVnode_setNext ?n c (head_of vs) = Inr (upd_next ?n c z (head_of vs))"
      using segu snoc w by (intro setNext_ok[OF lseg_last(1)[of _ "m_pRoot l" ws]]) simp
    moreover have n1: "hp (upd_next ?n c z (head_of vs)) a = Some \<lparr>lv_next = head_of vs, lv_content = p\<rparr>"
      using node a by simp
    ultimately show ?thesis
      using root node it del delete_ok[OF n1]
      by (cases b) (simp_all add: Llist_erase_def LVlist_erase_def Let_def)
  qed
qed

lemma Llist_clear_loop_ok:
  "lseg (ll_nodes h) q ns 0 \<Longrightarrow> distinct (map fst ns) \<Longrightarrow> length ns \<le> n \<Longrightarrow>
   b \<longrightarrow> distinct (map snd ns) \<and> (\<forall>p\<in>snd ` set ns. p \<noteq> 0 \<and> ll_objs h p \<noteq> None) \<Longrightarrow>
   returns (Llist_clear_loop n h b q) (\<lambda>h'. same_except (fst ` set ns) (ll_nodes h) (ll_nodes h') \<and>
     hfree (ll_nodes h') = hfree (ll_nodes h) \<and> (\<forall>a\<in>fst ` set ns. hp (ll_nodes h') a = None) \<and>
     ll_objs h' = (\<lambda>p. if b \<and> p \<in> snd ` set ns then None else ll_objs h p))"
proof (induction ns arbitrary: q n h)
  case Nil
  then show ?case by (cases n) (auto simp: same_except_def)
next
  case (Cons u ns)
  then obtain m where n: "n = Suc m" by (cases n) auto
  obtain r where r: "q = fst u" "q \<noteq> 0" "hp (ll_nodes h) q = Some \<lparr>lv_next = r, lv_content = snd u\<rparr>"
      "lseg (ll_nodes h) r ns 0"
    using Cons.prems by auto
  define h1 where "h1 = h\<lparr>ll_objs := (if b then (ll_objs h)(snd u := None) else ll_objs h)\<rparr>"
  define h2 where "h2 = h1\<lparr>ll_nodes := (ll_nodes h)\<lparr>hp := (hp (ll_nodes h))(q := None)\<rparr>\<rparr>"
  have q: "q \<notin> fst ` set ns" using Cons.prems r by simp
  have "Llist_clear_loop n h b q = Llist_clear_loop m h2 b r"
    using r Cons.prems(4) delete_ok[OF r(3)]
    by (cases b) (auto simp: n h1_def h2_def delete_obj_def)
  moreover have "returns (Llist_clear_loop m h2 b r) (\<lambda>h'. same_except (fst ` set ns) (ll_nodes h2) (ll_nodes h') \<and>
     hfree (ll_nodes h') = hfree (ll_nodes h2) \<and> (\<forall>a\<in>fst ` set ns. hp (ll_nodes h') a = None) \<and>
     ll_objs h' = (\<lambda>p. if b \<and> p \<in> snd ` set ns then None else ll_objs h2 p))"
  proof (rule Cons.IH)
    show "lseg (ll_nodes h2) r ns 0" using lseg_delete[OF r(4) q] by (simp add: h2_def)
    show "b \<longrightarrow> distinct (map snd ns) \<and> (\<forall>p\<in>snd ` set ns. p \<noteq> 0 \<and> ll_objs h2 p \<noteq> None)"
    proof (intro impI conjI ballI)
      fix p assume "b" "p \<in> snd ` set ns"
      moreover have "snd u \<notin> snd ` set ns" using Cons.prems(4) \<open>b\<close> by simp
      ultimately have "p \<noteq> snd u" "p \<noteq> 0 \<and> ll_objs h p \<noteq> None" using Cons.prems(4) by (metis, auto)
      then show "p \<noteq> 0" "ll_objs h2 p \<noteq> None" by (simp_all add: h1_def h2_def)
    qed (use Cons.prems(4) in auto)
  qed (use Cons.prems n in auto)
  moreover have "(\<lambda>p. if b \<and> p \<in> snd ` set ns then None else ll_objs h2 p) =
      (\<lambda>p. if b \<and> p \<in> snd ` set (u # ns) then None else ll_objs h p)"
    by (rule ext) (simp add: h1_def h2_def)
  moreover have "hp (ll_nodes h2) = (hp (ll_nodes h))(q := None)" "hfree (ll_nodes h2) = hfree (ll_nodes h)"
    by (simp_all add: h2_def)
  ultimately show ?case
    using r(1) q by (auto simp: same_except_def simp del: image_set elim!: returns_mono)
qed

text \<open>
  C31: \<open>Llist::erase\<close> and \<open>Llist::clear\<close> take the node, or all nodes, out of the list and free
  them in the node heap, where \<open>erase\<close> changes no other node than the predecessor of the erased
  one and \<open>clear\<close> touches no node of another list; when asked to, they delete exactly the
  objects those nodes point to, each once, provided the list does not hold a pointer twice;
  otherwise no object is touched.
\<close>

theorem Llist_deletion:
  "lv_rep (ll_nodes h) l (us @ (a, p) # vs) \<Longrightarrow> m_pIter it = a \<Longrightarrow>
   b \<longrightarrow> distinct (map snd (us @ (a, p) # vs)) \<and> (\<forall>q\<in>snd ` set (us @ (a, p) # vs). q \<noteq> 0 \<and> ll_objs h q \<noteq> None) \<Longrightarrow>
   returns (Llist_erase h l it b) (\<lambda>(h', l', it').
     lv_rep (ll_nodes h') l' (us @ vs) \<and> m_pMother it' \<and> m_pIter it' = head_of vs \<and>
     hp (ll_nodes h') a = None \<and> same_except {a, tail_of us} (ll_nodes h) (ll_nodes h') \<and>
     ll_objs h' = (\<lambda>q. if b \<and> q = p then None else ll_objs h q)) \<and>
   returns (Llist_clear h l b) (\<lambda>(h', l'). lv_rep (ll_nodes h') l' [] \<and>
     (\<forall>c\<in>fst ` set (us @ (a, p) # vs). hp (ll_nodes h') c = None) \<and>
     same_except (fst ` set (us @ (a, p) # vs)) (ll_nodes h) (ll_nodes h') \<and>
     ll_objs h' = (\<lambda>q. if b \<and> q \<in> snd ` set (us @ (a, p) # vs) then None else ll_objs h q))"
proof
  let ?ns = "us @ (a, p) # vs"
  assume rep: "lv_rep (ll_nodes h) l ?ns" and it: "m_pIter it = a"
    and objs: "b \<longrightarrow> distinct (map snd ?ns) \<and> (\<forall>q\<in>snd ` set ?ns. q \<noteq> 0 \<and> ll_objs h q \<noteq> None)"
  have "Llist_erase h l it b = bind_res (LVlist_erase (ll_nodes h) l it) (\<lambda>(n, l', it').
     Inr (h\<lparr>ll_objs := (if b then (ll_objs h)(p := None) else ll_objs h), ll_nodes := n\<rparr>, l', it'))"
    using objs by (intro erase_step[OF rep it]) auto
  then show "returns (Llist_erase h l it b) (\<lambda>(h', l', it').
     lv_rep (ll_nodes h') l' (us @ vs) \<and> m_pMother it' \<and> m_pIter it' = head_of vs \<and>
     hp (ll_nodes h') a = None \<and> same_except {a, tail_of us} (ll_nodes h) (ll_nodes h') \<and>
     ll_objs h' = (\<lambda>q. if b \<and> q = p then None else ll_objs h q))"
    using erase_ok[OF rep it] by (auto simp: returns_iff fun_eq_iff)
  have ok: "heap_ok (ll_nodes h)" and seg: "lseg (ll_nodes h) (m_pRoot l) ?ns 0" and d: "distinct (map fst ?ns)"
    using rep by (auto simp: lv_rep_def)
  have heap: "heap_ok n'" if "same_except (fst ` set ?ns) (ll_nodes h) n'" "hfree n' = hfree (ll_nodes h)"
      "\<forall>a\<in>fst ` set ?ns. hp n' a = None" for n'
    using that ok unfolding heap_ok_def same_except_def by metis
  show "returns (Llist_clear h l b) (\<lambda>(h', l'). lv_rep (ll_nodes h') l' [] \<and>
     (\<forall>c\<in>fst ` set ?ns. hp (ll_nodes h') c = None) \<and>
     same_except (fst ` set ?ns) (ll_nodes h) (ll_nodes h') \<and>
     ll_objs h' = (\<lambda>q. if b \<and> q \<in> snd ` set ?ns then None else ll_objs h q))"
    unfolding Llist_clear_def
    by (rule returns_bind[OF Llist_clear_loop_ok[OF seg d _ objs]])
      (use lseg_length[OF ok seg d] heap in \<open>auto simp: lv_rep_def\<close>)
qed

theorem Llist_deletion_witness:
  "let n = \<lparr>hp = [1 \<mapsto> \<lparr>lv_next = 2, lv_content = 7\<rparr>, 2 \<mapsto> \<lparr>lv_next = 0, lv_content = 8\<rparr>], hfree = 3\<rparr>;
       h = \<lparr>ll_nodes = n, ll_objs = [7 \<mapsto> True, 8 \<mapsto> False]\<rparr>; l = \<lparr>m_pRoot = 1, m_pTail = 2\<rparr>
   in returns (Llist_erase h l \<lparr>m_pMother = True, m_pIter = 2\<rparr> True) (\<lambda>(h', l', it').
        lv_rep (ll_nodes h') l' ([(1, 7)] @ []) \<and> m_pMother it' \<and> m_pIter it' = head_of ([] :: (addr \<times> addr) list) \<and>
        hp (ll_nodes h') 2 = None \<and> same_except {2, tail_of [(1, 7 :: addr)]} (ll_nodes h) (ll_nodes h') \<and>
        ll_objs h' = (\<lambda>q. if True \<and> q = 8 then None else ll_objs h q)) \<and>
      returns (Llist_clear h l True) (\<lambda>(h', l'). lv_rep (ll_nodes h') l' [] \<and>
        (\<forall>c\<in>fst ` set ([(1, 7 :: addr)] @ (2, 8) # []). hp (ll_nodes h') c = None) \<and>
        same_except (fst ` set ([(1, 7 :: addr)] @ (2, 8) # [])) (ll_nodes h) (ll_nodes h') \<and>
        ll_objs h' = (\<lambda>q. if True \<and> q \<in> snd ` set ([(1 :: addr, 7)] @ (2, 8) # []) then None else ll_objs h q))"
  unfolding Let_def
  by (rule Llist_deletion) (auto simp: lv_rep_def heap_ok_def)

end
