(* ===== verification/Containers.thy ===== *)
theory Containers
  imports Decimal "HOL-Library.Word"
begin

unbundle bit_operations_syntax

text \<open>
  The small containers of Emdros: the string hash table of \<^verbatim>\<open>include/emdf_hash.h\<close> with the
  hash function of \<^verbatim>\<open>EMdF/emdfdb.cpp\<close>, the vector without duplicates of
  \<^verbatim>\<open>include/smart_vector.h\<close>, the chunked array of \<^verbatim>\<open>include/bpa.h\<close>, and the search in the table of
  primes of \<^verbatim>\<open>EMdF/emdf_primes.cpp\<close>.
\<close>

section \<open>Hashing\<close>

text \<open>A character is sign-extended to 32 bits before it is mixed in.\<close>

primrec hash_djb2_loop :: "32 word \<Rightarrow> string \<Rightarrow> 32 word" where
  "hash_djb2_loop hash [] = hash"
| "hash_djb2_loop hash (c # cs) =
     hash_djb2_loop ((push_bit 5 hash + hash) XOR word_of_int (schar c)) cs"

text \<open>The remainder of a non-negative number, as \<open>%\<close> of \<open>long\<close>s computes it.\<close>

definition hash_djb2 :: "string \<Rightarrow> int \<Rightarrow> int res" where
  "hash_djb2 instr hashtable_size =
     (if hashtable_size = 0 then Inl DivByZero
      else Inr (uint (hash_djb2_loop 5381 instr) mod \<bar>hashtable_size\<bar>))"

section \<open>The string hash table\<close>

text \<open>A bucket is a chain of nodes, first node first.\<close>

record 'v EmdrosStringHashTable =
  m_hash_table_size :: int
  m_no_of_keys :: int
  m_table :: "(string \<times> 'v) list list"

definition EmdrosStringHashTable_new :: "int \<Rightarrow> 'v EmdrosStringHashTable" where
  "EmdrosStringHashTable_new initial_hash_table_size =
     \<lparr>m_hash_table_size = initial_hash_table_size, m_no_of_keys = 0,
      m_table = replicate (nat initial_hash_table_size) []\<rparr>"

definition get_bucket :: "'v EmdrosStringHashTable \<Rightarrow> int \<Rightarrow> (string \<times> 'v) list res" where
  "get_bucket t i = (if 0 \<le> i \<and> nat i < length (m_table t) then Inr (m_table t ! nat i) else Inl NullDeref)"

primrec chain_has :: "string \<Rightarrow> (string \<times> 'v) list \<Rightarrow> bool" where
  "chain_has key [] = False"
| "chain_has key (n # ns) = (if fst n = key then True else chain_has key ns)"

definition EmdrosStringHashTable_addEntry ::
  "'v EmdrosStringHashTable \<Rightarrow> string \<Rightarrow> 'v \<Rightarrow> (bool \<times> 'v EmdrosStringHashTable) res" where
  "EmdrosStringHashTable_addEntry t key value =
     bind_res (hash_djb2 key (m_hash_table_size t)) (\<lambda>hash_index.
     bind_res (get_bucket t hash_index) (\<lambda>pNode.
       if pNode = []
       then Inr (True, t\<lparr>m_table := (m_table t)[nat hash_index := [(key, value)]],
                         m_no_of_keys := m_no_of_keys t + 1\<rparr>)
       else if chain_has key pNode then Inr (False, t)
       else Inr (True, t\<lparr>m_table := (m_table t)[nat hash_index := (key, value) # pNode],
                         m_no_of_keys := m_no_of_keys t + 1\<rparr>)))"

primrec chain_find :: "string \<Rightarrow> (string \<times> 'v) list \<Rightarrow> 'v option" where
  "chain_find key [] = None"
| "chain_find key (n # ns) = (if fst n = key then Some (snd n) else chain_find key ns)"

definition EmdrosStringHashTable_entryExists ::
  "'v EmdrosStringHashTable \<Rightarrow> string \<Rightarrow> 'v option res" where
  "EmdrosStringHashTable_entryExists t key =
     bind_res (hash_djb2 key (m_hash_table_size t)) (\<lambda>hash_index.
     bind_res (get_bucket t hash_index) (\<lambda>pNode. Inr (chain_find key pNode)))"

text \<open>\<open>clear\<close> frees every chain; it does not touch the number of keys.\<close>

definition EmdrosStringHashTable_clear :: "'v EmdrosStringHashTable \<Rightarrow> 'v EmdrosStringHashTable" where
  "EmdrosStringHashTable_clear t = t\<lparr>m_table := map (\<lambda>_. []) (m_table t)\<rparr>"

text \<open>The visitor is an operation on its own state that may change the value it is given.\<close>

fun visit_chain :: "('s \<Rightarrow> 'v \<Rightarrow> 's \<times> 'v) \<Rightarrow> 's \<Rightarrow> (string \<times> 'v) list \<Rightarrow> 's \<times> (string \<times> 'v) list" where
  "visit_chain visitor s [] = (s, [])"
| "visit_chain visitor s (n # ns) =
     (let (s1, v) = visitor s (snd n); (s2, ns2) = visit_chain visitor s1 ns
      in (s2, (fst n, v) # ns2))"

fun visit_buckets ::
  "('s \<Rightarrow> 'v \<Rightarrow> 's \<times> 'v) \<Rightarrow> 's \<Rightarrow> (string \<times> 'v) list list \<Rightarrow> 's \<times> (string \<times> 'v) list list" where
  "visit_buckets visitor s [] = (s, [])"
| "visit_buckets visitor s (b # bs) =
     (let (s1, b1) = visit_chain visitor s b; (s2, bs2) = visit_buckets visitor s1 bs
      in (s2, b1 # bs2))"

definition EmdrosStringHashTable_visitAllEntries ::
  "('s \<Rightarrow> 'v \<Rightarrow> 's \<times> 'v) \<Rightarrow> 's \<Rightarrow> 'v EmdrosStringHashTable \<Rightarrow> 's \<times> 'v EmdrosStringHashTable" where
  "EmdrosStringHashTable_visitAllEntries visitor s t =
     (let (s1, bs) = visit_buckets visitor s (m_table t) in (s1, t\<lparr>m_table := bs\<rparr>))"

section \<open>The vector without duplicates\<close>

text \<open>Indices are \<open>short int\<close>s.\<close>

definition i16 :: "int \<Rightarrow> int" where
  "i16 x = (x + 2 ^ 15) mod 2 ^ 16 - 2 ^ 15"

definition no_element :: int where
  "no_element = -1"

primrec sv_search :: "('a \<Rightarrow> 'a \<Rightarrow> bool) \<Rightarrow> 'a \<Rightarrow> int \<Rightarrow> 'a list \<Rightarrow> bool \<times> int" where
  "sv_search p v index [] = (False, index)"
| "sv_search p v index (c # ci) = (if p c v then (True, index) else sv_search p v (i16 (index + 1)) ci)"

definition SmartVector_addValue ::
  "'a list \<Rightarrow> 'a \<Rightarrow> ('a \<Rightarrow> 'a \<Rightarrow> bool) \<Rightarrow> int \<times> bool \<times> 'a list" where
  "SmartVector_addValue m_vec v p =
     (case sv_search p v 0 m_vec of
        (True, index) \<Rightarrow> (index, False, m_vec)
      | (False, index) \<Rightarrow> (index, True, m_vec @ [v]))"

definition SmartVector_getIndex :: "'a list \<Rightarrow> 'a \<Rightarrow> ('a \<Rightarrow> 'a \<Rightarrow> bool) \<Rightarrow> int" where
  "SmartVector_getIndex m_vec v p =
     (case sv_search p v 0 m_vec of (True, index) \<Rightarrow> index | (False, _) \<Rightarrow> no_element)"

definition SmartVector_get :: "'a list \<Rightarrow> int \<Rightarrow> 'a res" where
  "SmartVector_get m_vec index =
     (if 0 \<le> index \<and> nat index < length m_vec then Inr (m_vec ! nat index) else Inl NullDeref)"

definition SmartVector_setValue :: "'a list \<Rightarrow> 'a \<Rightarrow> int \<Rightarrow> 'a list res" where
  "SmartVector_setValue m_vec v index =
     (if 0 \<le> index \<and> nat index < length m_vec then Inr (m_vec[nat index := v]) else Inl NullDeref)"

definition SmartVector_size :: "'a list \<Rightarrow> int" where
  "SmartVector_size m_vec = i16 (int (length m_vec))"

section \<open>The chunked array\<close>

text \<open>The memory of a chunk, as \<open>malloc\<close> returns it, holds nothing that may be read.\<close>

record 'a BPAChunk =
  bc_chunk_size :: nat
  bc_load :: nat
  bc_data :: "'a option list"

definition BPAChunk_new :: "nat \<Rightarrow> 'a BPAChunk" where
  "BPAChunk_new chunk_size =
     \<lparr>bc_chunk_size = chunk_size, bc_load = 0, bc_data = replicate chunk_size None\<rparr>"

definition BPAChunk_get :: "'a BPAChunk \<Rightarrow> nat \<Rightarrow> 'a res" where
  "BPAChunk_get c i =
     (if i < length (bc_data c)
      then case bc_data c ! i of None \<Rightarrow> Inl NullDeref | Some x \<Rightarrow> Inr x else Inl NullDeref)"

definition BPAChunk_isFull :: "'a BPAChunk \<Rightarrow> bool" where
  "BPAChunk_isFull c \<longleftrightarrow> bc_load c = bc_chunk_size c"

definition BPAChunk_append :: "'a BPAChunk \<Rightarrow> 'a \<Rightarrow> bool \<times> 'a BPAChunk" where
  "BPAChunk_append c item =
     (if BPAChunk_isFull c then (False, c)
      else (True, c\<lparr>bc_data := (bc_data c)[bc_load c := Some item], bc_load := bc_load c + 1\<rparr>))"

definition BPAChunk_assign_item :: "'a BPAChunk \<Rightarrow> nat \<Rightarrow> 'a \<Rightarrow> bool \<times> 'a BPAChunk" where
  "BPAChunk_assign_item c i p =
     (if i \<ge> bc_chunk_size c then (False, c) else (True, c\<lparr>bc_data := (bc_data c)[i := Some p]\<rparr>))"

record 'a BigPointerArray =
  ba_chunk_size :: nat
  ba_load :: nat
  ba_chunks :: "'a BPAChunk list"

definition BigPointerArray_new :: "nat \<Rightarrow> 'a BigPointerArray" where
  "BigPointerArray_new chunk_size =
     \<lparr>ba_chunk_size = 0, ba_load = 0, ba_chunks = [BPAChunk_new chunk_size]\<rparr>"

definition BigPointerArray_append :: "'a BigPointerArray \<Rightarrow> 'a \<Rightarrow> (nat \<times> 'a BigPointerArray) res" where
  "BigPointerArray_append b p =
     (if ba_chunks b = [] then Inl NullDeref
      else let cs = (if BPAChunk_isFull (last (ba_chunks b))
                     then ba_chunks b @ [BPAChunk_new (ba_chunk_size b)] else ba_chunks b)
           in Inr (ba_load b,
                b\<lparr>ba_chunks := butlast cs @ [snd (BPAChunk_append (last cs) p)], ba_load := ba_load b + 1\<rparr>))"

definition bpa_div :: "'a BigPointerArray \<Rightarrow> nat \<Rightarrow> (nat \<times> nat) res" where
  "bpa_div b index = (if ba_chunk_size b = 0 then Inl DivByZero
     else Inr (index div ba_chunk_size b, index mod ba_chunk_size b))"

text \<open>\<open>operator[]\<close> returns a null pointer, \<open>None\<close>, out of bounds.\<close>

definition BigPointerArray_get :: "'a BigPointerArray \<Rightarrow> nat \<Rightarrow> 'a option res" where
  "BigPointerArray_get b index =
     (if index \<ge> ba_load b then Inr None
      else if index < ba_chunk_size b
      then if ba_chunks b = [] then Inl NullDeref
           else bind_res (BPAChunk_get (hd (ba_chunks b)) index) (\<lambda>x. Inr (Some x))
      else bind_res (bpa_div b index) (\<lambda>(chunk_number, chunk_index).
             if chunk_number < length (ba_chunks b)
             then bind_res (BPAChunk_get (ba_chunks b ! chunk_number) chunk_index) (\<lambda>x. Inr (Some x))
             else Inl NullDeref))"

definition BigPointerArray_assign_item ::
  "'a BigPointerArray \<Rightarrow> nat \<Rightarrow> 'a \<Rightarrow> (bool \<times> 'a BigPointerArray) res" where
  "BigPointerArray_assign_item b index p =
     (if index \<ge> ba_load b then Inr (False, b)
      else bind_res (if index < ba_chunk_size b then Inr (0, index) else bpa_div b index)
        (\<lambda>(chunk_number, chunk_index).
           if chunk_number < length (ba_chunks b)
           then let (r, c) = BPAChunk_assign_item (ba_chunks b ! chunk_number) chunk_index p
                in Inr (r, b\<lparr>ba_chunks := (ba_chunks b)[chunk_number := c]\<rparr>)
           else Inl NullDeref))"

section \<open>The table of primes\<close>

definition g_arr_prime_list :: "int list" where
  "g_arr_prime_list = [7, 11, 19, 31, 43, 67, 103, 139, 191, 251, 331, 419, 547, 691, 883, 1123, 1423, 1783,
     2239, 2803, 3511, 4423, 5543, 6967, 8719, 10903, 13687, 17111, 21391, 26807, 33527,
     41911, 52463, 65587, 82003, 102523, 128203, 160387, 200491, 250619, 313343, 391679,
     489623, 612043, 765091, 956371, 1195483, 1494359, 1867951, 2334959, 2918719,
     3648419, 4560547, 5700691, 7125887, 8907391, 11134307, 13917907, 17397427, 21746807,
     27183511, 33979471, 42474343, 53092931, 66366179, 82957783, 103697267, 129621587,
     162026999, 202533791, 253167239]"

definition nNumberOfPrimes :: int where
  "nNumberOfPrimes = 71"

text \<open>The search loop; the last value read into \<open>a\<close> is not used after it.\<close>

function prime_search :: "int \<Rightarrow> int \<Rightarrow> int \<Rightarrow> int" where
  "prime_search n low high =
     (if low < high
      then let mid = low + (high - low) div 2; a = g_arr_prime_list ! nat mid
           in if a \<ge> n then prime_search n low mid else prime_search n (mid + 1) high
      else low)"
  by pat_completeness auto
termination
  by (relation "measure (\<lambda>(n, low, high). nat (high - low))") auto

declare prime_search.simps [simp del]

definition prime_list_get_next_higher_prime :: "int \<Rightarrow> int" where
  "prime_list_get_next_higher_prime n =
     (let low = prime_search n 0 (nNumberOfPrimes - 1)
      in if low > nNumberOfPrimes - 1 \<or> g_arr_prime_list ! nat low < n then n * 2 + 1
         else g_arr_prime_list ! nat low)"

end
