(* ===== verification/Containers_Props.thy ===== *)
theory Containers_Props
  imports Containers
begin

text \<open>
  The containers do what their comments promise: the hash table is a finite map that keeps
  the first value of a key, the vector never holds two equal values, the search in the
  table of primes finds the least entry that is large enough; and the chunked array does not:
  its constructor forgets its chunk size.
\<close>

section \<open>The interface of a dictionary\<close>

locale string_dictionary =
  fixes add :: "'t \<Rightarrow> string \<Rightarrow> 'v \<Rightarrow> (bool \<times> 't) res"
    and find :: "'t \<Rightarrow> string \<Rightarrow> 'v option res"
    and clear :: "'t \<Rightarrow> 't"
    and invar :: "'t \<Rightarrow> bool"
    and dict :: "'t \<Rightarrow> string \<Rightarrow> 'v option"
  assumes add_law: "invar t \<Longrightarrow> returns (add t k v) (\<lambda>(b, t'). invar t' \<and> b = (dict t k = None) \<and>
        dict t' = (if dict t k = None then (dict t)(k \<mapsto> v) else dict t))"
    and find_law: "invar t \<Longrightarrow> find t k = Inr (dict t k)"
    and clear_law: "invar t \<Longrightarrow> invar (clear t) \<and> dict (clear t) = (\<lambda>_. None)"
begin

text \<open>Adding entries one after the other: the first value of a key stays.\<close>

lemma add_all:
  "invar t \<Longrightarrow> returns (foldM_res (\<lambda>t (k, v). bind_res (add t k v) (\<lambda>(_, t'). Inr t')) t kvs)
     (\<lambda>t'. invar t' \<and> dict t' = map_of kvs ++ dict t)"
proof (induction kvs arbitrary: t)
  case (Cons e kvs)
  obtain k v where e: "e = (k, v)" by fastforce
  obtain b t1 where t1: "add t k v = Inr (b, t1)" "invar t1"
      "dict t1 = (if dict t k = None then (dict t)(k \<mapsto> v) else dict t)"
    using add_law[OF Cons.prems, of k v] by (auto simp: returns_iff)
  have "map_of kvs ++ dict t1 = map_of (e # kvs) ++ dict t"
    using t1(3) e by (auto simp: map_add_def fun_eq_iff split: option.splits)
  then show ?case
    using returns_mono[OF Cons.IH[OF t1(2)], of "\<lambda>t'. invar t' \<and> dict t' = map_of (e # kvs) ++ dict t"] t1(1) e
    by (simp del: map_of.simps)
qed simp

end

section \<open>The hash table\<close>

definition key_index :: "'v EmdrosStringHashTable \<Rightarrow> string \<Rightarrow> nat" where
  "key_index t k = nat (uint (hash_djb2_loop 5381 k) mod m_hash_table_size t)"

definition ht_ok :: "'v EmdrosStringHashTable \<Rightarrow> bool" where
  "ht_ok t \<longleftrightarrow> 0 < m_hash_table_size t \<and> length (m_table t) = nat (m_hash_table_size t) \<and>
     (\<forall>i < length (m_table t). distinct (map fst (m_table t ! i)) \<and>
        (\<forall>e\<in>set (m_table t ! i). key_index t (fst e) = i))"

definition ht_map :: "'v EmdrosStringHashTable \<Rightarrow> string \<Rightarrow> 'v option" where
  "ht_map t k = map_of (m_table t ! key_index t k) k"

definition ht_count :: "'v EmdrosStringHashTable \<Rightarrow> int" where
  "ht_count t = int (sum_list (map length (m_table t)))"

lemma chain_find_eq: "chain_find k ns = map_of ns k"
  by (induction ns) auto

lemma chain_has_eq: "chain_has k ns \<longleftrightarrow> map_of ns k \<noteq> None"
  by (induction ns) auto

lemma key_index_less: "ht_ok t \<Longrightarrow> key_index t k < length (m_table t)"
  by (simp add: ht_ok_def key_index_def nat_less_iff)

lemma ht_bucket:
  assumes "ht_ok t"
  shows "hash_djb2 k (m_hash_table_size t) = Inr (int (key_index t k))"
    "get_bucket t (int (key_index t k)) = Inr (m_table t ! key_index t k)"
  using assms key_index_less[OF assms, of k] by (auto simp: hash_djb2_def key_index_def ht_ok_def get_bucket_def)

lemma ht_new_ok: "0 < n \<Longrightarrow> ht_ok (EmdrosStringHashTable_new n) \<and> ht_map (EmdrosStringHashTable_new n) = (\<lambda>_. None)"
  by (auto simp: ht_ok_def EmdrosStringHashTable_new_def ht_map_def key_index_def nat_less_iff fun_eq_iff)

lemma ht_replace:
  assumes t: "ht_ok t" and new: "map_of (m_table t ! key_index t k) k = None"
    and t': "t' = t\<lparr>m_table := (m_table t)[key_index t k := (k, v) # m_table t ! key_index t k], m_no_of_keys := n\<rparr>"
  shows "ht_ok t' \<and> ht_map t' = (ht_map t)(k \<mapsto> v)"
proof -
  have idx: "key_index t' = key_index t" "key_index t k < length (m_table t)"
    using key_index_less[OF t] t' by (auto simp: key_index_def fun_eq_iff)
  have "k \<notin> fst ` set (m_table t ! key_index t k)" using new by (simp add: map_of_eq_None_iff)
  then show ?thesis
    using t idx t' by (auto simp: ht_ok_def ht_map_def fun_eq_iff nth_list_update)
qed

lemma addEntry_eq:
  assumes "ht_ok t"
  shows "EmdrosStringHashTable_addEntry t k v =
    Inr (if ht_map t k = None
      then (True, t\<lparr>m_table := (m_table t)[key_index t k := (k, v) # m_table t ! key_index t k],
                    m_no_of_keys := m_no_of_keys t + 1\<rparr>)
      else (False, t))"
  using ht_bucket[OF assms, of k]
  by (auto simp: EmdrosStringHashTable_addEntry_def ht_map_def chain_has_eq)

interpretation ht: string_dictionary EmdrosStringHashTable_addEntry EmdrosStringHashTable_entryExists
  EmdrosStringHashTable_clear ht_ok ht_map
proof unfold_locales
  fix t :: "'v EmdrosStringHashTable" and k v
  assume t: "ht_ok t"
  show "returns (EmdrosStringHashTable_addEntry t k v) (\<lambda>(b, t'). ht_ok t' \<and> b = (ht_map t k = None) \<and>
        ht_map t' = (if ht_map t k = None then (ht_map t)(k \<mapsto> v) else ht_map t))"
    using ht_replace[OF t, where n = "m_no_of_keys t + 1" and k = k and v = v] t by (auto simp: addEntry_eq[OF t] ht_map_def)
  show "EmdrosStringHashTable_entryExists t k = Inr (ht_map t k)"
    using ht_bucket[OF t, of k] by (simp add: EmdrosStringHashTable_entryExists_def chain_find_eq ht_map_def)
  show "ht_ok (EmdrosStringHashTable_clear t) \<and> ht_map (EmdrosStringHashTable_clear t) = (\<lambda>_. None)"
    using t key_index_less[OF t]
    by (auto simp: EmdrosStringHashTable_clear_def ht_ok_def ht_map_def key_index_def fun_eq_iff)
qed

lemma visit_chain_fst: "fst (visit_chain visitor s ns) = foldl (\<lambda>s v. fst (visitor s v)) s (map snd ns)"
  by (induction ns arbitrary: s) (auto simp: case_prod_beta Let_def)

lemma visit_buckets_fst:
  "fst (visit_buckets visitor s bs) = foldl (\<lambda>s v. fst (visitor s v)) s (map snd (concat bs))"
  by (induction bs arbitrary: s) (auto simp: case_prod_beta Let_def visit_chain_fst)

section \<open>Properties\<close>

text \<open>
  C32: The hash table is a map that keeps the first value of a key: after adding any list
  of entries to a new table of positive size, \<open>entryExists\<close> finds exactly the keys added,
  with the value added first; \<open>clear\<close> makes every key absent again, but the table goes on
  counting the old keys.
\<close>

theorem hash_table_correct:
  "0 < n \<Longrightarrow>
   returns (foldM_res (\<lambda>t (k, v). bind_res (EmdrosStringHashTable_addEntry t k v) (\<lambda>(_, t'). Inr t'))
       (EmdrosStringHashTable_new n) kvs)
     (\<lambda>t. ht_ok t \<and> (\<forall>k. EmdrosStringHashTable_entryExists t k = Inr (map_of kvs k) \<and>
        EmdrosStringHashTable_entryExists (EmdrosStringHashTable_clear t) k = Inr None) \<and>
        m_no_of_keys (EmdrosStringHashTable_clear t) = m_no_of_keys t)"
proof -
  assume n: "0 < n"
  have "ht_ok t \<and> (\<forall>k. EmdrosStringHashTable_entryExists t k = Inr (map_of kvs k) \<and>
        EmdrosStringHashTable_entryExists (EmdrosStringHashTable_clear t) k = Inr None) \<and>
        m_no_of_keys (EmdrosStringHashTable_clear t) = m_no_of_keys t"
    if "ht_ok t \<and> ht_map t = map_of kvs ++ ht_map (EmdrosStringHashTable_new n)" for t
  proof -
    have "ht_map t = map_of kvs" using that by (simp add: map_add_def conjunct2[OF ht_new_ok[OF n]])
    then show ?thesis
      using that ht.find_law[of t] ht.clear_law[of t] ht.find_law[of "EmdrosStringHashTable_clear t"]
      by (simp add: EmdrosStringHashTable_clear_def)
  qed
  from returns_mono[OF ht.add_all[OF conjunct1[OF ht_new_ok[OF n]]] this] show ?thesis .
qed

theorem hash_table_correct_witness:
  "0 < (7 :: int) \<and>
   returns (foldM_res (\<lambda>t (k, v). bind_res (EmdrosStringHashTable_addEntry t k v) (\<lambda>(_, t'). Inr t'))
       (EmdrosStringHashTable_new 7) [(''a'', 1 :: int), (''b'', 2), (''a'', 3)])
     (\<lambda>t. ht_ok t \<and> (\<forall>k. EmdrosStringHashTable_entryExists t k = Inr (map_of [(''a'', 1), (''b'', 2), (''a'', 3)] k) \<and>
        EmdrosStringHashTable_entryExists (EmdrosStringHashTable_clear t) k = Inr None) \<and>
        m_no_of_keys (EmdrosStringHashTable_clear t) = m_no_of_keys t)"
  using hash_table_correct[of 7 "[(''a'', 1 :: int), (''b'', 2), (''a'', 3)]"] by simp

text \<open>
  Visiting all entries calls the visitor once for each entry of the table, with its
  value, bucket by bucket.
\<close>

theorem hash_table_visit:
  "fst (EmdrosStringHashTable_visitAllEntries visitor s t) =
     foldl (\<lambda>s v. fst (visitor s v)) s (map snd (concat (m_table t)))"
  by (simp add: EmdrosStringHashTable_visitAllEntries_def case_prod_beta Let_def visit_buckets_fst)

section \<open>The vector without duplicates\<close>

lemma i16_id: "0 \<le> x \<Longrightarrow> x < 2 ^ 15 \<Longrightarrow> i16 x = x"
  by (simp add: i16_def)

lemma sv_search_correct:
  "0 \<le> k \<Longrightarrow> k + int (length xs) < 2 ^ 15 \<Longrightarrow>
   sv_search p v k xs = (if \<exists>c\<in>set xs. p c v then (True, k + int (length (takeWhile (\<lambda>c. \<not> p c v) xs)))
     else (False, k + int (length xs)))"
proof (induction xs arbitrary: k)
  case (Cons c xs)
  then have "i16 (k + 1) = k + 1" by (intro i16_id) auto
  then show ?case using Cons by auto
qed simp

text \<open>
  \<open>SmartVector::addValue\<close> returns the index of the first value that compares equal, or
  appends the value and returns its new index, as long as the indices fit a \<open>short int\<close>;
  \<open>getIndex\<close> agrees with it; and a vector built by \<open>addValue\<close> never holds two values that
  compare equal.
\<close>

theorem smart_vector_correct:
  "length xs < 2 ^ 15 \<Longrightarrow>
   (case SmartVector_addValue xs v p of (i, added, ys) \<Rightarrow>
      added = (\<forall>c\<in>set xs. \<not> p c v) \<and> ys = (if added then xs @ [v] else xs) \<and>
      0 \<le> i \<and> nat i < length ys \<and> (if added then ys ! nat i = v else p (ys ! nat i) v) \<and>
      (\<forall>j < nat i. \<not> p (ys ! j) v) \<and>
      SmartVector_getIndex xs v p = (if added then no_element else i) \<and>
      (sorted_wrt (\<lambda>c d. \<not> p c d) xs \<longrightarrow> sorted_wrt (\<lambda>c d. \<not> p c d) ys))"
proof -
  assume len: "length xs < 2 ^ 15"
  let ?k = "length (takeWhile (\<lambda>c. \<not> p c v) xs)"
  have search: "sv_search p v 0 xs =
      (if \<exists>c\<in>set xs. p c v then (True, int ?k) else (False, int (length xs)))"
    using sv_search_correct[of 0 xs p v] len by simp
  have before: "\<not> p (xs ! j) v" if "j < ?k" for j
    using that by (metis nth_mem set_takeWhileD takeWhile_nth)
  have short: "?k < length xs" if "\<exists>c\<in>set xs. p c v"
    using that by (induction xs) auto
  then have "p (xs ! ?k) v" if "\<exists>c\<in>set xs. p c v"
    using that nth_length_takeWhile[of "\<lambda>c. \<not> p c v" xs] by auto
  then show ?thesis
    using before short by (auto simp: SmartVector_addValue_def SmartVector_getIndex_def search sorted_wrt_append nth_append)
qed

theorem smart_vector_correct_witness:
  "length [3, 4 :: int] < 2 ^ 15 \<and>
   (case SmartVector_addValue [3, 4 :: int] 4 (=) of (i, added, ys) \<Rightarrow>
      added = (\<forall>c\<in>set [3, 4 :: int]. \<not> c = 4) \<and> ys = (if added then [3, 4] @ [4] else [3, 4]) \<and>
      0 \<le> i \<and> nat i < length ys \<and> (if added then ys ! nat i = 4 else ys ! nat i = 4) \<and>
      (\<forall>j < nat i. \<not> ys ! j = 4) \<and>
      SmartVector_getIndex [3, 4 :: int] 4 (=) = (if added then no_element else i) \<and>
      (sorted_wrt (\<lambda>c d. \<not> c = d) [3, 4 :: int] \<longrightarrow> sorted_wrt (\<lambda>c d. \<not> c = d) ys))"
  using smart_vector_correct[of "[3, 4 :: int]" "(=)" 4] by simp

section \<open>The chunked array\<close>

text \<open>
  The constructor of \<open>BigPointerArray\<close> sets the chunk size of the array to 0 instead of
  to its argument: whatever the argument, reading or replacing an item that was just
  appended divides by zero, and once the first chunk is full a further item is counted
  but not stored.
\<close>

theorem bpa_constructor_broken:
  "bind_res (BigPointerArray_append (BigPointerArray_new n) p) (\<lambda>(i, b). BigPointerArray_get b i) = Inl DivByZero \<and>
   bind_res (BigPointerArray_append (BigPointerArray_new n) p) (\<lambda>(i, b). BigPointerArray_assign_item b i q) =
     Inl DivByZero \<and>
   bind_res (BigPointerArray_append (BigPointerArray_new 0) p) (\<lambda>(i, b). Inr (ba_load b, map bc_data (ba_chunks b))) =
     Inr (1, [[], []])"
  by (simp add: BigPointerArray_new_def BigPointerArray_append_def BigPointerArray_get_def
      BigPointerArray_assign_item_def bpa_div_def BPAChunk_isFull_def BPAChunk_new_def BPAChunk_append_def Let_def)

section \<open>The table of primes\<close>

lemma prime_list_sorted: "sorted g_arr_prime_list" "length g_arr_prime_list = 71"
  unfolding g_arr_prime_list_def by (simp_all only: sorted2 sorted1 list.size) simp_all

text \<open>The search keeps: below \<open>low\<close> everything is too small, at \<open>high\<close> large enough or last.\<close>

lemma prime_search_correct:
  assumes "0 \<le> low" "low \<le> high" "high \<le> 70" "\<forall>j < nat low. g_arr_prime_list ! j < n"
    "high = 70 \<or> n \<le> g_arr_prime_list ! nat high"
  shows "let r = prime_search n low high in low \<le> r \<and> r \<le> high \<and> (\<forall>j < nat r. g_arr_prime_list ! j < n) \<and>
     (r = 70 \<or> n \<le> g_arr_prime_list ! nat r)"
  using assms
proof (induction n low high rule: prime_search.induct)
  case (1 n low high)
  show ?case
  proof (cases "low < high")
    case False
    then have "prime_search n low high = low" by (subst prime_search.simps) simp
    then show ?thesis using False "1.prems" by auto
  next
    case True
    let ?m = "low + (high - low) div 2"
    have m: "low \<le> ?m" "?m < high" using True by auto
    show ?thesis
    proof (cases "g_arr_prime_list ! nat ?m \<ge> n")
      case ge: True
      have "prime_search n low high = prime_search n low ?m"
        using True ge by (subst prime_search.simps) (simp add: Let_def)
      then show ?thesis using "1.IH"(1)[OF True refl refl ge] "1.prems" m ge by (auto simp: Let_def)
    next
      case lt: False
      have "g_arr_prime_list ! j < n" if "j < nat (?m + 1)" for j
      proof -
        have "g_arr_prime_list ! j \<le> g_arr_prime_list ! nat ?m"
          using that m "1.prems" prime_list_sorted by (intro sorted_nth_mono) auto
        then show ?thesis using lt by simp
      qed
      moreover have "prime_search n low high = prime_search n (?m + 1) high"
        using True lt by (subst prime_search.simps) (simp add: Let_def)
      ultimately show ?thesis using "1.IH"(2)[OF True refl refl lt] "1.prems" m by (simp add: Let_def) linarith
    qed
  qed
qed

text \<open>
  The next higher prime of a number is the least entry of the table that is not
  smaller, found by bisection; for a number above the whole table it is twice the number
  plus one.
\<close>

theorem next_higher_prime_correct:
  "if \<exists>q\<in>set g_arr_prime_list. n \<le> q
   then prime_list_get_next_higher_prime n \<in> set g_arr_prime_list \<and> n \<le> prime_list_get_next_higher_prime n \<and>
        (\<forall>q\<in>set g_arr_prime_list. n \<le> q \<longrightarrow> prime_list_get_next_higher_prime n \<le> q)
   else prime_list_get_next_higher_prime n = n * 2 + 1"
proof -
  define r where "r = prime_search n 0 70"
  have r: "0 \<le> r" "r \<le> 70" "\<forall>j < nat r. g_arr_prime_list ! j < n" "r = 70 \<or> n \<le> g_arr_prime_list ! nat r"
    using prime_search_correct[of 0 70 n] by (auto simp: r_def Let_def)
  have res: "prime_list_get_next_higher_prime n = (if g_arr_prime_list ! nat r < n then n * 2 + 1 else g_arr_prime_list ! nat r)"
    using r by (simp add: prime_list_get_next_higher_prime_def nNumberOfPrimes_def r_def Let_def)
  have mem: "g_arr_prime_list ! nat r \<in> set g_arr_prime_list" using r prime_list_sorted(2) by simp
  have least: "g_arr_prime_list ! nat r \<le> q" if "q \<in> set g_arr_prime_list" "n \<le> q" for q
  proof -
    obtain j where j: "j < length g_arr_prime_list" "q = g_arr_prime_list ! j" using \<open>q \<in> _\<close> by (metis in_set_conv_nth)
    have "nat r \<le> j" using r(3) j that(2) by (meson linorder_not_le)
    then show ?thesis using j prime_list_sorted by (simp add: sorted_nth_mono)
  qed
  have high: "q \<le> g_arr_prime_list ! 70" if q: "q \<in> set g_arr_prime_list" for q
  proof -
    obtain j where j: "j < length g_arr_prime_list" "q = g_arr_prime_list ! j" using q by (metis in_set_conv_nth)
    then have "j \<le> 70" using prime_list_sorted(2) by linarith
    then show ?thesis using j(2) prime_list_sorted by (simp add: sorted_nth_mono)
  qed
  show ?thesis
  proof (cases "g_arr_prime_list ! nat r < n")
    case True
    then have "r = 70" using r by auto
    then have top: "g_arr_prime_list ! 70 < n" using True by simp
    have "\<not> (\<exists>q\<in>set g_arr_prime_list. n \<le> q)"
    proof
      assume "\<exists>q\<in>set g_arr_prime_list. n \<le> q"
      then obtain q where "q \<in> set g_arr_prime_list" "n \<le> q" by blast
      then show False using high[of q] top by simp
    qed
    then show ?thesis using True res by simp
  next
    case False
    then have "prime_list_get_next_higher_prime n = g_arr_prime_list ! nat r" using res by simp
    then show ?thesis using False mem least by (metis linorder_not_le)
  qed
qed

theorem next_higher_prime_correct_witness:
  "if \<exists>q\<in>set g_arr_prime_list. 100 \<le> q
   then prime_list_get_next_higher_prime 100 \<in> set g_arr_prime_list \<and> 100 \<le> prime_list_get_next_higher_prime 100 \<and>
        (\<forall>q\<in>set g_arr_prime_list. 100 \<le> q \<longrightarrow> prime_list_get_next_higher_prime 100 \<le> q)
   else prime_list_get_next_higher_prime 100 = 100 * 2 + 1"
  by (rule next_higher_prime_correct)

end
