(* ===== verification/StringFunc.thy ===== *)
theory StringFunc
  imports Decimal "HOL-Library.Word"
begin

unbundle bit_operations_syntax

text \<open>
  The string functions of \<^verbatim>\<open>EMdF/string_func.cpp\<close> and \<^verbatim>\<open>include/string_func.h\<close>. A
  \<open>std::string\<close> is a list of characters, a position is a natural number, and
  \<open>std::string::npos\<close> is \<^term>\<open>None\<close>. A \<open>char\<close> is signed (\<open>schar\<close>), an \<open>unsigned char\<close> is its
  code (\<open>uchar\<close>); \<open>long\<close> and \<open>long long\<close> have 64 bits.
\<close>

section \<open>Parts of the standard library\<close>

definition uchar :: "char \<Rightarrow> int" where
  "uchar c = of_char c"

text \<open>Storing an integer in a \<open>char\<close> keeps its low eight bits.\<close>

definition to_char :: "int \<Rightarrow> char" where
  "to_char x = char_of x"

definition i64 :: "int \<Rightarrow> int" where
  "i64 x = (x + 2 ^ 63) mod 2 ^ 64 - 2 ^ 63"

definition u32 :: "int \<Rightarrow> int" where
  "u32 x = x mod 2 ^ 32"

definition str_find :: "string \<Rightarrow> string \<Rightarrow> nat \<Rightarrow> nat option" where
  "str_find s t pos = List.find (\<lambda>i. take (length t) (drop i s) = t) [pos..<length s + 1]"

definition str_substr :: "string \<Rightarrow> nat \<Rightarrow> nat \<Rightarrow> string" where
  "str_substr s pos n = take n (drop pos s)"

definition find_first_not_of :: "string \<Rightarrow> string \<Rightarrow> nat option" where
  "find_first_not_of s cs = List.find (\<lambda>i. s ! i \<notin> set cs) [0..<length s]"

definition find_last_not_of :: "string \<Rightarrow> string \<Rightarrow> nat option" where
  "find_last_not_of s cs = List.find (\<lambda>i. s ! i \<notin> set cs) (rev [0..<length s])"

text \<open>\<open>s[i]\<close>: the position after the last character holds the null character.\<close>

definition str_at :: "string \<Rightarrow> nat \<Rightarrow> char res" where
  "str_at s i = (if i < length s then Inr (s ! i) else if i = length s then Inr CHR 0x00 else Inl NullDeref)"

section \<open>Case\<close>

definition char_toupper :: "char \<Rightarrow> char" where
  "char_toupper c = (if schar CHR ''a'' \<le> schar c \<and> schar c \<le> schar CHR ''z'' then to_char (schar c - 32) else c)"

definition str_toupper :: "string \<Rightarrow> string" where
  "str_toupper s = map char_toupper s"

definition char_tolower :: "char \<Rightarrow> char" where
  "char_tolower c = (if schar CHR ''A'' \<le> schar c \<and> schar c \<le> schar CHR ''Z'' then to_char (schar c + 32) else c)"

definition str_tolower :: "string \<Rightarrow> string" where
  "str_tolower s = map char_tolower s"

text \<open>The comparison loops; the second pair of arguments is the whole strings.\<close>

definition cmp_sizes :: "string \<Rightarrow> string \<Rightarrow> int" where
  "cmp_sizes s t = (if length t = length s then 0 else if length s < length t then -1 else 1)"

fun strcmp_nocase_loop :: "string \<Rightarrow> string \<Rightarrow> string \<Rightarrow> string \<Rightarrow> int" where
  "strcmp_nocase_loop s t (p # ps) (q # qs) =
     (let tolop = char_tolower p; toloq = char_tolower q
      in if tolop \<noteq> toloq then if schar tolop < schar toloq then -1 else 1
         else strcmp_nocase_loop s t ps qs)"
| "strcmp_nocase_loop s t ps qs = cmp_sizes s t"

definition strcmp_nocase :: "string \<Rightarrow> string \<Rightarrow> int" where
  "strcmp_nocase str1 str2 = strcmp_nocase_loop str1 str2 str1 str2"

fun strcmp_case_loop :: "string \<Rightarrow> string \<Rightarrow> string \<Rightarrow> string \<Rightarrow> int" where
  "strcmp_case_loop s t (p # ps) (q # qs) =
     (if uchar p \<noteq> uchar q then if uchar p < uchar q then -1 else 1 else strcmp_case_loop s t ps qs)"
| "strcmp_case_loop s t ps qs = cmp_sizes s t"

definition strcmp_case :: "string \<Rightarrow> string \<Rightarrow> int" where
  "strcmp_case str1 str2 = strcmp_case_loop str1 str2 str1 str2"

section \<open>Booleans\<close>

definition bool2string :: "bool \<Rightarrow> string" where
  "bool2string b = (if b then ''1'' else ''0'')"

definition string2bool :: "string \<Rightarrow> bool" where
  "string2bool s \<longleftrightarrow> s = ''1''"

definition bool_alpha2string :: "bool \<Rightarrow> string" where
  "bool_alpha2string b = (if b then ''true'' else ''false'')"

definition string2bool_alpha :: "string \<Rightarrow> bool" where
  "string2bool_alpha s \<longleftrightarrow> s = ''true''"

definition is_self :: "string \<Rightarrow> bool" where
  "is_self s = (case s of
     [c1, c2, c3, c4] \<Rightarrow>
       (if c1 = CHR ''s'' \<or> c1 = CHR ''S''
        then if c2 = CHR ''e'' \<or> c1 = CHR ''E''
        then if c3 = CHR ''l'' \<or> c1 = CHR ''L''
        then if c4 = CHR ''f'' \<or> c1 = CHR ''F'' then True else False
        else False else False else False)
   | _ \<Rightarrow> False)"

section \<open>Decimal numbers\<close>

text \<open>Division of the language rounds towards zero.\<close>

definition div10 :: "int \<Rightarrow> int" where
  "div10 v = (if v < 0 then - ((- v) div 10) else v div 10)"

definition digit_table :: string where
  "digit_table = ''9876543210123456789''"

text \<open>The \<open>do ... while (v)\<close> loop that writes the digits from the end of the buffer.\<close>

function digits_backwards :: "int \<Rightarrow> string \<Rightarrow> string" where
  "digits_backwards v buf =
     (let w = div10 v; buf1 = digit_table ! nat (9 + (v - w * 10)) # buf
      in if w \<noteq> 0 then digits_backwards w buf1 else buf1)"
  by pat_completeness auto
termination
proof (relation "measure (\<lambda>(v, buf). nat \<bar>v\<bar>)")
  fix v w buf1 buf assume "w = div10 v" "w \<noteq> 0"
  then show "((w, buf1), v, buf) \<in> measure (\<lambda>(v, buf). nat \<bar>v\<bar>)"
    unfolding div10_def by (auto split: if_splits)
qed simp

declare digits_backwards.simps [simp del]

definition longlong2szNonReversing :: "int \<Rightarrow> string" where
  "longlong2szNonReversing l =
     (let s = digits_backwards l [] in if l < 0 then CHR ''-'' # s else s)"

definition longlong2string :: "int \<Rightarrow> string" where
  "longlong2string l = longlong2szNonReversing l"

definition long2string :: "int \<Rightarrow> string" where
  "long2string l = longlong2string l"

text \<open>\<open>longlong2sz\<close> writes the digits the other way and then swaps the ends inwards.\<close>

function digits_forwards :: "int \<Rightarrow> string \<Rightarrow> string" where
  "digits_forwards v buf =
     (let w = div10 v; buf1 = buf @ [digit_table ! nat (9 + (v - w * 10))]
      in if w \<noteq> 0 then digits_forwards w buf1 else buf1)"
  by pat_completeness auto
termination
proof (relation "measure (\<lambda>(v, buf). nat \<bar>v\<bar>)")
  fix v w buf1 buf assume "w = div10 v" "w \<noteq> 0"
  then show "((w, buf1), v, buf) \<in> measure (\<lambda>(v, buf). nat \<bar>v\<bar>)"
    unfolding div10_def by (auto split: if_splits)
qed simp

declare digits_forwards.simps [simp del]

function swap_ends :: "string \<Rightarrow> nat \<Rightarrow> nat \<Rightarrow> string" where
  "swap_ends s q p = (if q < p then swap_ends (s[p := s ! q, q := s ! p]) (q + 1) (p - 1) else s)"
  by pat_completeness auto
termination
  by (relation "measure (\<lambda>(s, q, p). p - q)") auto

declare swap_ends.simps [simp del]

definition longlong2sz :: "int \<Rightarrow> string" where
  "longlong2sz l =
     (let s = digits_forwards l []; t = (if l < 0 then s @ ''-'' else s)
      in swap_ends t 0 (length t - 1))"

definition is_whitespace :: "char \<Rightarrow> bool" where
  "is_whitespace c \<longleftrightarrow> c = CHR '' '' \<or> c = CHR 0x0A \<or> c = CHR 0x09 \<or> c = CHR 0x0D"

text \<open>
  The digits as far as they go. The C++ adds them up in a signed 64-bit integer, whose overflow it
  leaves undefined; the model wraps around, as the machine does. That concerns texts of numbers above
  the greatest 64-bit integer, and the digits of the least one.
\<close>

primrec sz_digits :: "int \<Rightarrow> string \<Rightarrow> int" where
  "sz_digits result [] = result"
| "sz_digits result (p # ps) =
     (let c = schar p - schar CHR ''0''
      in if c < 0 \<or> c > 9 then result else sz_digits (i64 (i64 (result * 10) + c)) ps)"

text \<open>A C string ends before its first null character.\<close>

definition sz2longlong :: "string \<Rightarrow> int" where
  "sz2longlong s =
     (let p = dropWhile is_whitespace (takeWhile (\<lambda>c. c \<noteq> CHR 0x00) s)
      in case p of [] \<Rightarrow> 0
         | c # cs \<Rightarrow>
             if c = CHR ''-'' then i64 (- sz_digits 0 cs)
             else if c = CHR ''+'' then sz_digits 0 cs
             else sz_digits 0 p)"

definition string2longlong :: "string \<Rightarrow> int" where
  "string2longlong s = sz2longlong s"

definition string2long :: "string \<Rightarrow> int" where
  "string2long s = sz2longlong s"

definition string2int :: "string \<Rightarrow> int" where
  "string2int s = i32 (sz2longlong s)"

definition decode_format_string :: "string \<Rightarrow> char \<times> int" where
  "decode_format_string format =
     (case format of [] \<Rightarrow> (CHR ''@'', -1)
      | c # cs \<Rightarrow> (c, if cs = [] then -1 else i32 (string2long cs)))"

definition longlong2string_format :: "int \<Rightarrow> string \<Rightarrow> string" where
  "longlong2string_format l format =
     (let (cPad, nMinLength) = decode_format_string format;
          tmp_result = longlong2szNonReversing l
      in if nMinLength > -1
         then let numPad = nMinLength - int (length tmp_result)
              in if numPad > 0 then replicate (nat numPad) cPad @ tmp_result else tmp_result
         else tmp_result)"

section \<open>Hexadecimal and octal\<close>

definition hex_digits :: string where
  "hex_digits = ''0123456789abcdef''"

definition char2hex :: "int \<Rightarrow> string" where
  "char2hex c = [hex_digits ! nat (drop_bit 4 c AND 0x0F), hex_digits ! nat (c AND 0x0F)]"

definition hex_value :: "char \<Rightarrow> int" where
  "hex_value a =
     (if a \<in> set ''abcdef'' then uchar a - uchar CHR ''W''
      else if a \<in> set ''ABCDEF'' then uchar a - uchar CHR ''7''
      else if a \<in> set ''0123456789'' then uchar a - uchar CHR ''0''
      else 0)"

definition hex2char :: "char \<Rightarrow> char \<Rightarrow> char" where
  "hex2char a b = to_char (hex_value a * 16 + hex_value b)"

definition is_hex :: "string \<Rightarrow> bool" where
  "is_hex s \<longleftrightarrow> s \<noteq> [] \<and> find_first_not_of s ''0123456789abcdefABCDEF'' = None"

text \<open>\<open>hex2long\<close>: the flag tells whether a digit other than a leading zero was met.\<close>

definition hex2long_step :: "bool \<times> int \<Rightarrow> char \<Rightarrow> bool \<times> int" where
  "hex2long_step st c =
     (let met = (if c \<noteq> CHR ''0'' then True else fst st)
      in if met
         then let tmp = (if schar CHR ''a'' \<le> schar c \<and> schar c \<le> schar CHR ''f'' then schar c - (schar CHR ''a'' - 10)
                         else if schar CHR ''A'' \<le> schar c \<and> schar c \<le> schar CHR ''F'' then schar c - (schar CHR ''A'' - 10)
                         else if schar CHR ''0'' \<le> schar c \<and> schar c \<le> schar CHR ''9'' then schar c - schar CHR ''0''
                         else 0)
              in (met, i64 (push_bit 4 (snd st)) OR tmp)
         else (met, snd st))"

definition hex2long :: "string \<Rightarrow> int" where
  "hex2long s = snd (foldl hex2long_step (False, 0) s)"

definition ulong2hex :: "int \<Rightarrow> string" where
  "ulong2hex n = char2hex (drop_bit 24 n AND 0xFF) @ char2hex (drop_bit 16 n AND 0xFF) @
     char2hex (drop_bit 8 n AND 0xFF) @ char2hex (n AND 0xFF)"

definition codepoint2slashu :: "string \<Rightarrow> int \<Rightarrow> string" where
  "codepoint2slashu result c =
     result @ [CHR 0x5C, CHR ''u''] @
     (if c > 0x000FFFFF then [hex_digits ! nat (drop_bit 20 c AND 0x0F)] else []) @
     (if c > 0x0000FFFF then [hex_digits ! nat (drop_bit 16 c AND 0x0F)] else []) @
     [hex_digits ! nat (drop_bit 12 c AND 0x0F), hex_digits ! nat (drop_bit 8 c AND 0x0F),
      hex_digits ! nat (drop_bit 4 c AND 0x0F), hex_digits ! nat (c AND 0x0F)]"

primrec octal2char_loop :: "int \<Rightarrow> string \<Rightarrow> int" where
  "octal2char_loop result [] = result"
| "octal2char_loop result (c # cs) =
     octal2char_loop
       (u32 (push_bit 3 result +
          (if schar CHR ''0'' \<le> schar c \<and> schar c \<le> schar CHR ''7'' then schar c - schar CHR ''0'' else 0))) cs"

definition octal2char :: "string \<Rightarrow> char" where
  "octal2char s = to_char (octal2char_loop 0 (takeWhile (\<lambda>c. c \<noteq> CHR 0x00) s))"

definition char2octal :: "int \<Rightarrow> string" where
  "char2octal c = [''0123'' ! nat (drop_bit 6 c AND 0x03), ''01234567'' ! nat (drop_bit 3 c AND 0x07),
     ''01234567'' ! nat (c AND 0x07)]"

section \<open>Escapes\<close>

definition needs_hex :: "char \<Rightarrow> bool" where
  "needs_hex c \<longleftrightarrow> uchar c < 0x20 \<or> uchar c \<ge> 0x80"

definition encode_char :: "char \<Rightarrow> string" where
  "encode_char c =
     (if needs_hex c then [CHR 0x5C, CHR ''x''] @ char2hex (uchar c)
      else if c = CHR 0x5C then [CHR 0x5C, CHR 0x5C]
      else if c = CHR 0x22 then [CHR 0x5C, CHR 0x22]
      else [c])"

definition encodeSTRINGstring :: "string \<Rightarrow> string" where
  "encodeSTRINGstring s = foldl (\<lambda>result c. result @ encode_char c) [] s"

text \<open>The one-letter escapes.\<close>

definition simple_escape :: "char \<Rightarrow> char option" where
  "simple_escape c =
     map_of [(CHR ''n'', CHR 0x0A), (CHR ''t'', CHR 0x09), (CHR ''v'', CHR 0x0B), (CHR ''b'', CHR 0x08),
             (CHR ''a'', CHR 0x07), (CHR ''r'', CHR 0x0D), (CHR ''f'', CHR 0x0C), (CHR 0x5C, CHR 0x5C),
             (CHR ''?'', CHR ''?''), (CHR 0x27, CHR 0x27), (CHR 0x22, CHR 0x22)] c"

text \<open>
  The test \<open>i < size-3\<close> of the loop, with the characters after position \<open>i\<close>: unsigned
  arithmetic makes it true when the whole string is shorter than three characters.
\<close>

definition room_for_two :: "nat \<Rightarrow> string \<Rightarrow> bool" where
  "room_for_two sz rest = (if sz < 3 then True else length rest \<ge> 3)"

fun parse_C_loop :: "nat \<Rightarrow> string \<Rightarrow> string \<Rightarrow> string res" where
  "parse_C_loop sz result [] = Inr result"
| "parse_C_loop sz result [c] = Inr (result @ [c])"
| "parse_C_loop sz result (c # c2 # s) =
     (if c = CHR 0x5C
      then case simple_escape c2 of
             Some e \<Rightarrow> parse_C_loop sz (result @ [e]) s
           | None \<Rightarrow>
               if c2 = CHR ''x''
               then if room_for_two sz s
                    then case s of
                           a # b # s3 \<Rightarrow>
                             if is_hex [a, b] then parse_C_loop sz (result @ [hex2char a b]) s3
                             else parse_C_loop sz (result @ [c2]) s
                         | _ \<Rightarrow> Inl NullDeref
                    else parse_C_loop sz (result @ [c2]) s
               else if c2 \<in> set ''0123''
               then if room_for_two sz s
                    then case s of
                           a # b # s3 \<Rightarrow>
                             if is_digit a \<and> is_digit b
                             then parse_C_loop sz (result @ [octal2char [c2, a, b]]) s3
                             else parse_C_loop sz (result @ [c2]) s
                         | _ \<Rightarrow> parse_C_loop sz (result @ [c2]) s
                    else parse_C_loop sz (result @ [c2]) s
               else parse_C_loop sz (result @ [c2]) s
      else parse_C_loop sz (result @ [c]) (c2 # s))"

definition parse_C_backslashes :: "string \<Rightarrow> string res" where
  "parse_C_backslashes s = parse_C_loop (length s) [] s"

definition xml_entity :: "char \<Rightarrow> string" where
  "xml_entity c =
     (if c = CHR ''&'' then ''&amp;'' else if c = CHR 0x22 then ''&quot;''
      else if c = CHR ''<'' then ''&lt;'' else if c = CHR ''>'' then ''&gt;'' else [c])"

definition escapeXMLEntities :: "string \<Rightarrow> string" where
  "escapeXMLEntities s = foldl (\<lambda>result c. result @ xml_entity c) [] s"

section \<open>Predicates, replacing and removing\<close>

definition is_other_than_whitespace :: "string \<Rightarrow> bool" where
  "is_other_than_whitespace s \<longleftrightarrow>
     find_first_not_of s [CHR '' '', CHR 0x09, CHR 0x0A, CHR 0x0D, CHR 0x0B] \<noteq> None"

definition has_double_quote :: "string \<Rightarrow> bool" where
  "has_double_quote s \<longleftrightarrow> str_find s [CHR 0x22] 0 \<noteq> None"

definition non_digit :: string where
  "non_digit = ''_abcdefghijklmnopqrstuvwxyzABCDEFGHIJKLMNOPQRSTUVWXYZ''"

definition is_identifier :: "string \<Rightarrow> bool" where
  "is_identifier s =
     (case s of [] \<Rightarrow> False
      | c # _ \<Rightarrow> if str_find non_digit [c] 0 = None then False
                else if find_first_not_of s (non_digit @ ''0123456789'') \<noteq> None then False
                else True)"

definition string_is_number :: "string \<Rightarrow> bool" where
  "string_is_number s \<longleftrightarrow> length s > 0 \<and> find_first_not_of s ''0123456789'' = None"

text \<open>
  \<open>while ((i = s.find(in, i)) != npos) s[i] = out;\<close> does not end when a character is replaced
  by itself; the model has fuel for one step per character.
\<close>

fun replace_chars_loop :: "nat \<Rightarrow> string \<Rightarrow> nat \<Rightarrow> char \<Rightarrow> char \<Rightarrow> string res" where
  "replace_chars_loop 0 s i a b = Inl OutOfFuel"
| "replace_chars_loop (Suc n) s i a b =
     (case str_find s [a] i of None \<Rightarrow> Inr s | Some j \<Rightarrow> replace_chars_loop n (s[j := b]) j a b)"

definition replace_chars :: "string \<Rightarrow> char \<Rightarrow> char \<Rightarrow> string res" where
  "replace_chars s a b = replace_chars_loop (Suc (length s)) s 0 a b"

definition reverse_string :: "string \<Rightarrow> string" where
  "reverse_string s = map (\<lambda>i. s ! i) (rev [0..<length s])"

definition remove_char :: "string \<Rightarrow> char \<Rightarrow> string" where
  "remove_char s c = foldl (\<lambda>out d. if d \<noteq> c then out @ [d] else out) [] s"

definition remove_chars_in_string :: "string \<Rightarrow> string \<Rightarrow> string" where
  "remove_chars_in_string s cs =
     foldl (\<lambda>out d. if str_find cs [d] 0 \<noteq> None then out else out @ [d]) [] s"

definition string_ends_with :: "string \<Rightarrow> string \<Rightarrow> bool" where
  "string_ends_with s e =
     (if length e > length s then False else str_substr s (length s - length e) (length e) = e)"

definition remove_from_substring_and_out :: "string \<Rightarrow> string \<Rightarrow> string" where
  "remove_from_substring_and_out s t =
     (case str_find s t 0 of None \<Rightarrow> s | Some pos \<Rightarrow> if pos = 0 then [] else str_substr s 0 pos)"

definition strip_chars :: "string \<Rightarrow> string \<Rightarrow> string" where
  "strip_chars s cs =
     (case find_first_not_of s cs of None \<Rightarrow> []
      | Some i \<Rightarrow> case find_last_not_of s cs of None \<Rightarrow> drop i s
                 | Some e \<Rightarrow> str_substr s i ((e - i) + 1))"

text \<open>The loops of \<open>strip\<close> over the five white-space characters.\<close>

definition is_strip_space :: "char \<Rightarrow> bool" where
  "is_strip_space c \<longleftrightarrow> c \<in> {CHR '' '', CHR 0x0A, CHR 0x0D, CHR 0x09, CHR 0x0B}"

function strip_left :: "string \<Rightarrow> nat \<Rightarrow> nat" where
  "strip_left s p = (if p < length s \<and> is_strip_space (s ! p) then strip_left s (p + 1) else p)"
  by pat_completeness auto
termination
  by (relation "measure (\<lambda>(s, p). length s - p)") auto

declare strip_left.simps [simp del]

fun strip_right :: "string \<Rightarrow> nat \<Rightarrow> nat \<Rightarrow> nat" where
  "strip_right s p 0 = 0"
| "strip_right s p (Suc q) = (if Suc q > p \<and> is_strip_space (s ! Suc q) then strip_right s p q else Suc q)"

definition strip :: "string \<Rightarrow> string" where
  "strip s =
     (if length s = 0 then s
      else let p = strip_left s 0
           in if p = length s then []
              else let q = strip_right s p (length s - 1)
                   in if p = 0 \<and> q = length s - 1 then s else str_substr s p ((q - p) + 1))"

section \<open>Splitting and replacing substrings\<close>

text \<open>
  The loops of \<open>split_string_on_string\<close> and \<open>replace_substring\<close>. Every turn moves
  \<open>nbegin\<close> past an occurrence of the substring, so there are at most as many turns as
  characters; with an empty separator the splitting loop does not end.
\<close>

fun split_on_loop :: "nat \<Rightarrow> string \<Rightarrow> string \<Rightarrow> string list \<Rightarrow> nat \<Rightarrow> string list res" where
  "split_on_loop 0 s t out nbegin = Inl OutOfFuel"
| "split_on_loop (Suc n) s t out nbegin =
     (if nbegin \<noteq> length s
      then case str_find s t nbegin of
             None \<Rightarrow> Inr (out @ [str_substr s nbegin (length s - nbegin)])
           | Some nend \<Rightarrow>
               split_on_loop n s t (out @ [str_substr s nbegin (nend - nbegin)]) (nend + length t)
      else Inr out)"

definition split_string_on_string :: "string \<Rightarrow> string \<Rightarrow> string list res" where
  "split_string_on_string s t =
     (case str_find s t 0 of None \<Rightarrow> Inr [s]
      | Some i \<Rightarrow>
          let nbegin = (if i = 0 then length t else 0)
          in case str_find s t (nbegin + length t) of
               None \<Rightarrow> Inr [str_substr s nbegin (length s - nbegin)]
             | Some nend \<Rightarrow>
                 split_on_loop (Suc (length s)) s t [str_substr s nbegin (nend - nbegin)] (nend + length t))"

fun replace_substring_loop :: "nat \<Rightarrow> string \<Rightarrow> string \<Rightarrow> string \<Rightarrow> string \<Rightarrow> nat \<Rightarrow> string res" where
  "replace_substring_loop 0 s t r result nbegin = Inl OutOfFuel"
| "replace_substring_loop (Suc n) s t r result nbegin =
     (if nbegin \<noteq> length s
      then case str_find s t nbegin of
             None \<Rightarrow> Inr (result @ drop nbegin s)
           | Some nend \<Rightarrow>
               replace_substring_loop n s t r (result @ str_substr s nbegin (nend - nbegin) @ r) (nend + length t)
      else Inr result)"

definition replace_substring :: "string \<Rightarrow> string \<Rightarrow> string \<Rightarrow> string res" where
  "replace_substring s t r =
     (if str_find s t 0 = None \<or> t = [] then Inr s
      else if s = t then Inr r
      else case str_find s t 0 of
             None \<Rightarrow> Inr s
           | Some i \<Rightarrow>
               let (nbegin, result) = (if i = 0 then (length t, r) else (i, str_substr s 0 i))
               in case str_find s t nbegin of
                    None \<Rightarrow> Inr (result @ drop nbegin s)
                  | Some nend \<Rightarrow>
                      replace_substring_loop (Suc (length s)) s t r
                        (result @ str_substr s nbegin (nend - nbegin) @ r) (nend + length t))"

section \<open>Names of character sets and backends\<close>

datatype eCharsets =
    kCSASCII | kCSISO_8859_1 | kCSISO_8859_8 | kCSUTF8 | kCSISO_8859_2 | kCSISO_8859_3
  | kCSISO_8859_4 | kCSISO_8859_5 | kCSISO_8859_6 | kCSISO_8859_7 | kCSISO_8859_9
  | kCSISO_8859_10 | kCSISO_8859_13 | kCSISO_8859_14 | kCSISO_8859_15 | kCSISO_8859_16

datatype eBackendKind = kBackendNone | kPostgreSQL | kMySQL | kSQLite2 | kSQLite3 | kBPT

definition nocase_one_of :: "string \<Rightarrow> string list \<Rightarrow> bool" where
  "nocase_one_of inp names \<longleftrightarrow> list_ex (\<lambda>n. strcmp_nocase inp n = 0) names"

definition iso_8859 :: "string \<Rightarrow> string list" where
  "iso_8859 n = [''iso_8859-'' @ n, ''iso_8859_'' @ n, ''iso-8859_'' @ n, ''iso-8859-'' @ n]"

definition string2charset :: "string \<Rightarrow> eCharsets option" where
  "string2charset inp =
     (if nocase_one_of inp [''ascii''] then Some kCSASCII
      else if nocase_one_of inp [''utf8'', ''utf-8''] then Some kCSUTF8
      else if nocase_one_of inp (iso_8859 ''1'') then Some kCSISO_8859_1
      else if nocase_one_of inp (iso_8859 ''2'') then Some kCSISO_8859_2
      else if nocase_one_of inp (iso_8859 ''3'') then Some kCSISO_8859_3
      else if nocase_one_of inp (iso_8859 ''4'') then Some kCSISO_8859_4
      else if nocase_one_of inp (iso_8859 ''5'') then Some kCSISO_8859_5
      else if nocase_one_of inp (iso_8859 ''6'') then Some kCSISO_8859_6
      else if nocase_one_of inp (iso_8859 ''7'') then Some kCSISO_8859_7
      else if nocase_one_of inp (iso_8859 ''8'') then Some kCSISO_8859_8
      else if nocase_one_of inp (iso_8859 ''9'') then Some kCSISO_8859_9
      else if nocase_one_of inp (iso_8859 ''10'') then Some kCSISO_8859_10
      else if nocase_one_of inp (iso_8859 ''13'') then Some kCSISO_8859_13
      else if nocase_one_of inp (iso_8859 ''14'') then Some kCSISO_8859_14
      else if nocase_one_of inp (iso_8859 ''15'') then Some kCSISO_8859_15
      else if nocase_one_of inp (iso_8859 ''16'') then Some kCSISO_8859_16
      else None)"

fun charset2string :: "eCharsets \<Rightarrow> string" where
  "charset2string kCSASCII = ''ascii''"
| "charset2string kCSISO_8859_1 = ''iso-8859-1''"
| "charset2string kCSISO_8859_8 = ''iso-8859-8''"
| "charset2string kCSUTF8 = ''utf8''"
| "charset2string kCSISO_8859_2 = ''iso-8859-2''"
| "charset2string kCSISO_8859_3 = ''iso-8859-3''"
| "charset2string kCSISO_8859_4 = ''iso-8859-4''"
| "charset2string kCSISO_8859_5 = ''iso-8859-5''"
| "charset2string kCSISO_8859_6 = ''iso-8859-6''"
| "charset2string kCSISO_8859_7 = ''iso-8859-7''"
| "charset2string kCSISO_8859_9 = ''iso-8859-9''"
| "charset2string kCSISO_8859_10 = ''iso-8859-10''"
| "charset2string kCSISO_8859_13 = ''iso-8859-13''"
| "charset2string kCSISO_8859_14 = ''iso-8859-14''"
| "charset2string kCSISO_8859_15 = ''iso-8859-15''"
| "charset2string kCSISO_8859_16 = ''iso-8859-16''"

definition string2backend_kind :: "string \<Rightarrow> eBackendKind option" where
  "string2backend_kind inp =
     (if nocase_one_of inp [''pg'', ''p'', ''postgresql'', ''postgres''] then Some kPostgreSQL
      else if nocase_one_of inp [''my'', ''m'', ''mysql''] then Some kMySQL
      else if nocase_one_of inp [''3'', ''lt3'', ''sqlite3'', ''s3''] then Some kSQLite3
      else if nocase_one_of inp [''b'', ''bpt''] then Some kBPT
      else None)"

fun backend_kind2string :: "eBackendKind \<Rightarrow> string res" where
  "backend_kind2string kPostgreSQL = Inr ''PostgreSQL''"
| "backend_kind2string kMySQL = Inr ''MySQL''"
| "backend_kind2string kSQLite3 = Inr ''SQLite3''"
| "backend_kind2string kBPT = Inr ''bpt''"
| "backend_kind2string kBackendNone = Inr ''BackendNone''"
| "backend_kind2string kSQLite2 = Inl EmdrosException"

section \<open>Identifiers\<close>

text \<open>
  \<open>convert_to_identifier\<close>. The array of reserved words is generated by the build from the
  lexer of MQL, so it is a parameter.
\<close>

definition identifier_char :: "char \<Rightarrow> bool" where
  "identifier_char c \<longleftrightarrow>
     (schar CHR ''A'' \<le> schar c \<and> schar c \<le> schar CHR ''Z'') \<or>
     (schar CHR ''a'' \<le> schar c \<and> schar c \<le> schar CHR ''z'') \<or>
     (schar CHR ''0'' \<le> schar c \<and> schar c \<le> schar CHR ''9'') \<or> c = CHR ''_''"

definition convert_to_identifier :: "string list \<Rightarrow> string \<Rightarrow> string" where
  "convert_to_identifier emdros_reserved_words s =
     (let result = foldl (\<lambda>r c. r @ (if identifier_char c then [c] else ''_'')) [] s;
          result1 = (case result of [] \<Rightarrow> result
                     | first_char # _ \<Rightarrow>
                         if schar CHR ''0'' \<le> schar first_char \<and> schar first_char \<le> schar CHR ''9''
                         then ''_'' @ result else result)
      in if list_ex (\<lambda>w. strcmp_nocase result1 w = 0) emdros_reserved_words
         then result1 @ ''_'' else result1)"

section \<open>Compact numbers of seven bits\<close>

definition long2compact_string7bits :: "int \<Rightarrow> string" where
  "long2compact_string7bits n =
     (let m0 = n AND 0x7F; m1 = drop_bit 7 n AND 0x7F; m2 = drop_bit 14 n AND 0x7F;
          m3 = drop_bit 21 n AND 0x7F; m4 = drop_bit 28 n AND 0x7F;
          step = (\<lambda>(r, begun) d. if d > 0 \<or> begun then (r @ [to_char (d + 48)], True) else (r, begun))
      in fst (foldl step ([], False) [m4, m3, m2, m1]) @ [to_char (m0 + 48)])"

definition compact_string7bits2long :: "string \<Rightarrow> int" where
  "compact_string7bits2long s =
     foldl (\<lambda>output c. i64 (push_bit 7 output) OR (schar c - schar CHR ''0'')) 0 s"

definition IntegerList2compact_string7bits :: "int list \<Rightarrow> string" where
  "IntegerList2compact_string7bits l =
     foldl (\<lambda>result n. result @ long2compact_string7bits n) '' '' l @ '' ''"

text \<open>
  The reader: the text without its first and last character; a number ends at a blank or at
  the end. A text of one character makes the loop run past the end.
\<close>

fun read_integers :: "int \<Rightarrow> string \<Rightarrow> int list" where
  "read_integers cur [] = []"
| "read_integers cur (c # s) =
     (let v = (if c = CHR '' '' then cur else i64 (push_bit 7 cur) OR (schar c - schar CHR ''0''))
      in if c = CHR '' '' \<or> s = [] then v # read_integers 0 s else read_integers v s)"

definition compact_string7bits2IntegerList :: "string \<Rightarrow> int list res" where
  "compact_string7bits2IntegerList s =
     (if s = [] then Inr [] else if length s = 1 then Inl NullDeref
      else Inr (read_integers 0 (tl (butlast s))))"

section \<open>UTF-8\<close>

definition long2utf8 :: "int \<Rightarrow> string" where
  "long2utf8 c =
     (if c < 0x80 then [to_char (c AND 0xFF)]
      else if c < 0x800
      then [to_char (0xC0 + (drop_bit 6 c AND 0x1F)), to_char (0x80 + (c AND 0x3F))]
      else if c < 0x10000
      then [to_char (0xE0 + (drop_bit 12 c AND 0x0F)), to_char (0x80 + (drop_bit 6 c AND 0x3F)),
            to_char (0x80 + (c AND 0x3F))]
      else [to_char (0xF0 + (drop_bit 18 c AND 0x07)), to_char (0x80 + (drop_bit 12 c AND 0x3F)),
            to_char (0x80 + (drop_bit 6 c AND 0x3F)), to_char (0x80 + (c AND 0x3F))])"

definition emdrosUtf8Trans :: "int list" where
  "emdrosUtf8Trans =
     [0x00, 0x01, 0x02, 0x03, 0x04, 0x05, 0x06, 0x07, 0x08, 0x09, 0x0a, 0x0b, 0x0c, 0x0d, 0x0e, 0x0f,
      0x10, 0x11, 0x12, 0x13, 0x14, 0x15, 0x16, 0x17, 0x18, 0x19, 0x1a, 0x1b, 0x1c, 0x1d, 0x1e, 0x1f,
      0x00, 0x01, 0x02, 0x03, 0x04, 0x05, 0x06, 0x07, 0x08, 0x09, 0x0a, 0x0b, 0x0c, 0x0d, 0x0e, 0x0f,
      0x00, 0x01, 0x02, 0x03, 0x04, 0x05, 0x06, 0x07, 0x00, 0x01, 0x02, 0x03, 0x00, 0x01, 0x00, 0x00]"

text \<open>The loop over continuation bytes; the null character after the string ends it.\<close>

fun utf8_continue :: "int \<Rightarrow> string \<Rightarrow> int \<times> nat" where
  "utf8_continue c [] = (c, 0)"
| "utf8_continue c (b # bs) =
     (if schar b AND 0xC0 = 0x80
      then let (r, n) = utf8_continue (u32 (push_bit 6 c + (0x3F AND schar b))) bs in (r, Suc n)
      else (c, 0))"

definition readOneUTF8Char :: "string \<Rightarrow> nat \<Rightarrow> (int \<times> nat) res" where
  "readOneUTF8Char s index =
     (if index \<ge> length s then Inr (0, index)
      else let c = u32 (schar (s ! index))
           in if c \<ge> 0xC0
              then let k = (c - 0xC0) AND 0xFF
                   in if nat k < length emdrosUtf8Trans
                      then let (d, n) = utf8_continue (emdrosUtf8Trans ! nat k) (drop (Suc index) s);
                               e = (if d < 0x80 \<or> d AND 0xFFFFF800 = 0xD800 \<or> d AND 0xFFFFFFFE = 0xFFFE
                                    then 0xFFFD else d)
                           in Inr (e, Suc index + n)
                      else Inl NullDeref
              else Inr (c, Suc index))"

text \<open>\<open>escape_UTF8_string_with_slashu\<close>, with one step per character of fuel.\<close>

fun escape_UTF8_loop :: "nat \<Rightarrow> string \<Rightarrow> string \<Rightarrow> nat \<Rightarrow> string res" where
  "escape_UTF8_loop 0 s result index = Inl OutOfFuel"
| "escape_UTF8_loop (Suc n) s result index =
     (if index < length s
      then bind_res (readOneUTF8Char s index) (\<lambda>(c, index1).
             escape_UTF8_loop n s (if c < 0x80 then result @ [to_char c] else codepoint2slashu result c) index1)
      else Inr result)"

definition escape_UTF8_string_with_slashu :: "string \<Rightarrow> string res" where
  "escape_UTF8_string_with_slashu s = escape_UTF8_loop (Suc (length s)) s [] 0"

end
