(* ===== verification/StringNumbers_Props.thy ===== *)
theory StringNumbers_Props
  imports StringFunc
begin

text \<open>
  Properties of the conversions and comparisons of \<^verbatim>\<open>EMdF/string_func.cpp\<close>: decimal numbers,
  the two orders on strings, the names of character sets and backends, and UTF-8.
\<close>

unbundle bit_operations_syntax

section \<open>Decimal numbers\<close>

lemma i64_mod: "i64 x mod 2 ^ 64 = x mod 2 ^ 64"
  unfolding i64_def by (simp add: mod_diff_left_eq)

lemma i64_eqI: "x mod 2 ^ 64 = y mod 2 ^ 64 \<Longrightarrow> i64 x = i64 y"
  unfolding i64_def by (metis mod_add_left_eq)

lemma i64_id [simp]: "- (2 ^ 63) \<le> x \<Longrightarrow> x < 2 ^ 63 \<Longrightarrow> i64 x = x"
  by (simp add: i64_def)

lemma i64_i64 [simp]: "i64 (i64 x) = i64 x"
  by (rule i64_eqI) (rule i64_mod)

lemma i64_step: "i64 (i64 (i64 x * 10) + c) = i64 (x * 10 + c)"
  by (rule i64_eqI) (metis i64_mod mod_add_left_eq mod_mult_left_eq)

lemma i64_minus: "i64 (- i64 x) = i64 (- x)"
  by (rule i64_eqI) (metis i64_mod mod_minus_eq)

lemma digit_table_nth:
  assumes "-9 \<le> d" "d \<le> 9" shows "digit_table ! nat (9 + d) = char_plus \<bar>d\<bar> CHR ''0''"
proof -
  have "d \<in> {-9, -8, -7, -6, -5, -4, -3, -2, -1, 0, 1, 2, 3, 4, 5, 6, 7, 8, 9}"
    using assms by (simp only: insert_iff empty_iff) presburger
  then show ?thesis by (auto simp: digit_table_def char_plus_def char_of_def)
qed

lemma div10_digit: "digit_table ! nat (9 + (v - div10 v * 10)) = char_plus (\<bar>v\<bar> mod 10) CHR ''0''"
proof -
  have "\<bar>v - div10 v * 10\<bar> = \<bar>v\<bar> mod 10" "-9 \<le> v - div10 v * 10" "v - div10 v * 10 \<le> 9"
    unfolding div10_def by (auto simp: abs_if minus_div_mult_eq_mod split: if_splits) presburger+
  then show ?thesis by (simp add: digit_table_nth)
qed

lemma div10_abs: "\<bar>div10 v\<bar> = \<bar>v\<bar> div 10" and div10_zero: "div10 v = 0 \<longleftrightarrow> \<bar>v\<bar> < 10"
  unfolding div10_def by (auto simp: abs_if)

lemma div10_steps:
  "div10 v = 0 \<Longrightarrow> dec_nat (nat \<bar>v\<bar>) = [char_plus (\<bar>v\<bar> mod 10) CHR ''0'']"
  "div10 v \<noteq> 0 \<Longrightarrow> dec_nat (nat \<bar>v\<bar>) = dec_nat (nat \<bar>div10 v\<bar>) @ [char_plus (\<bar>v\<bar> mod 10) CHR ''0'']"
proof -
  have d: "int (nat \<bar>v\<bar> mod 10) = \<bar>v\<bar> mod 10" "nat (\<bar>v\<bar> div 10) = nat \<bar>v\<bar> div 10"
    by (simp_all add: zmod_int nat_div_distrib)
  show "div10 v = 0 \<Longrightarrow> dec_nat (nat \<bar>v\<bar>) = [char_plus (\<bar>v\<bar> mod 10) CHR ''0'']"
    by (subst dec_nat.simps) (auto simp: div10_zero)
  show "div10 v \<noteq> 0 \<Longrightarrow> dec_nat (nat \<bar>v\<bar>) = dec_nat (nat \<bar>div10 v\<bar>) @ [char_plus (\<bar>v\<bar> mod 10) CHR ''0'']"
    by (subst dec_nat.simps) (auto simp: div10_zero div10_abs d)
qed

lemma digits_backwards_dec: "digits_backwards v buf = dec_nat (nat \<bar>v\<bar>) @ buf"
proof (induction v buf rule: digits_backwards.induct)
  case (1 v buf)
  then show ?case
    by (subst digits_backwards.simps, simp only: Let_def div10_digit) (simp add: div10_steps)
qed

lemma digits_forwards_dec: "digits_forwards v buf = buf @ rev (dec_nat (nat \<bar>v\<bar>))"
proof (induction v buf rule: digits_forwards.induct)
  case (1 v buf)
  then show ?case
    by (subst digits_forwards.simps, simp only: Let_def div10_digit) (simp add: div10_steps)
qed

lemma swap_ends_nth:
  "p < length s \<Longrightarrow> length (swap_ends s q p) = length s \<and>
    (\<forall>i<length s. swap_ends s q p ! i = (if q \<le> i \<and> i \<le> p then s ! (q + p - i) else s ! i))"
proof (induction s q p rule: swap_ends.induct)
  case (1 s q p)
  show ?case
  proof (cases "q < p")
    case True
    have IH: "length (swap_ends (s[p := s ! q, q := s ! p]) (q + 1) (p - 1)) = length s \<and>
      (\<forall>i<length s. swap_ends (s[p := s ! q, q := s ! p]) (q + 1) (p - 1) ! i =
        (if q + 1 \<le> i \<and> i \<le> p - 1 then s[p := s ! q, q := s ! p] ! (q + 1 + (p - 1) - i)
         else s[p := s ! q, q := s ! p] ! i))"
      using 1 True by simp
    show ?thesis
    proof (intro conjI allI impI)
      fix i assume "i < length s"
      moreover have "i = q \<or> i = p \<or> (q + 1 \<le> i \<and> i \<le> p - 1) \<or> i < q \<or> p < i" by arith
      ultimately show "swap_ends s q p ! i = (if q \<le> i \<and> i \<le> p then s ! (q + p - i) else s ! i)"
        using IH True "1.prems" by (subst swap_ends.simps) (auto simp: nth_list_update)
    qed (use IH True in \<open>subst swap_ends.simps, simp\<close>)
  next
    case False
    then show ?thesis by (subst (1 2) swap_ends.simps) (auto intro: arg_cong[of _ _ "(!) s"])
  qed
qed

lemma swap_ends_rev: "s \<noteq> [] \<Longrightarrow> swap_ends s 0 (length s - 1) = rev s"
  using swap_ends_nth[of "length s - 1" s 0] by (intro nth_equalityI) (auto simp: rev_nth)

lemma longlong2szNonReversing_dec: "longlong2szNonReversing l = dec_int l"
  by (simp add: longlong2szNonReversing_def digits_backwards_dec dec_int_def Let_def)

lemma longlong2sz_dec: "longlong2sz l = dec_int l"
  by (simp add: longlong2sz_def digits_forwards_dec swap_ends_rev dec_int_def Let_def
      del: One_nat_def)

lemma dec_nat_length: "n < 10 ^ k \<Longrightarrow> length (dec_nat n) \<le> max 1 k"
proof (induction n arbitrary: k rule: dec_nat.induct)
  case (1 n)
  show ?case
  proof (cases "n < 10")
    case True then show ?thesis by (subst dec_nat.simps) simp
  next
    case False
    then obtain j where k: "k = Suc j" "j \<noteq> 0" using "1.prems"
      by (metis One_nat_def not0_implies_Suc power_0 power_Suc0_right less_one not_gr_zero zero_less_numeral le_less_trans linorder_not_le zero_le order_less_le_trans one_less_numeral_iff semiring_norm(76))
    then have "n div 10 < 10 ^ j" using "1.prems" by (simp add: less_mult_imp_div_less mult.commute)
    then show ?thesis using 1(1)[OF False, of j] k False by (subst dec_nat.simps) simp
  qed
qed

lemma sz_digits_value:
  "\<forall>c\<in>set ds. is_digit c \<Longrightarrow> sz_digits (i64 x) ds = i64 (foldl (\<lambda>v c. v * 10 + digit_val c) x ds)"
proof (induction ds arbitrary: x)
  case (Cons c ds)
  then show ?case
    by (auto simp: is_digit_def digit_val_def Let_def i64_step)
qed simp

lemma digit_not_space: "is_digit c \<Longrightarrow> \<not> is_whitespace c \<and> c \<noteq> CHR ''-'' \<and> c \<noteq> CHR ''+'' \<and> c \<noteq> CHR 0x00"
  by (auto simp: is_digit_def is_whitespace_def schar_def)

lemma sz2longlong_dec: "sz2longlong (dec_int l) = i64 l"
proof -
  have v: "sz_digits 0 (dec_nat n) = i64 (int n)" for n
    using sz_digits_value[of "dec_nat n" 0] by (auto simp: dec_nat_value dest: dec_nat_digits)
  obtain c cs where c: "dec_nat (nat l) = c # cs" by (cases "dec_nat (nat l)") auto
  have "is_digit c" using dec_nat_digits[of c "nat l"] by (simp add: c)
  have nz: "takeWhile (\<lambda>c. c \<noteq> CHR 0x00) (dec_nat n) = dec_nat n" for n
    by (rule takeWhile_eq_all_conv[THEN iffD2]) (use dec_nat_digits digit_not_space in blast)
  show ?thesis
  proof (cases "l < 0")
    case True
    then show ?thesis
      by (simp add: sz2longlong_def dec_int_def nz v Let_def is_whitespace_def i64_minus)
  next
    case False
    have tw: "takeWhile (\<lambda>c. c \<noteq> CHR 0x00) cs = cs" using nz[of "nat l"] by (simp add: c split: if_splits)
    have "sz2longlong (dec_int l) = sz_digits 0 (c # cs)"
      using False digit_not_space[OF \<open>is_digit c\<close>]
      by (simp add: sz2longlong_def dec_int_def Let_def c tw del: sz_digits.simps)
    then show ?thesis using v[of "nat l"] False by (simp add: c del: sz_digits.simps)
  qed
qed

text \<open>
  C33: the two ways of writing a 64-bit integer (backwards into a buffer, and forwards with a
  final reversal) both give its decimal text, which needs at most 20 characters and so fits,
  with its terminator, in the buffer of 30; \<open>string2longlong\<close> reads every 64-bit integer back
  from it, and \<open>string2int\<close> every 32-bit integer. The least 64-bit integer is read back too, through
  an overflow of its digits that C++ leaves undefined and that wraps around in the model.
\<close>

theorem decimal_roundtrip:
  assumes "- (2 ^ 63) \<le> l" "l < 2 ^ 63"
  shows "longlong2string l = dec_int l \<and> longlong2sz l = longlong2string l \<and>
    length (longlong2string l) \<le> 20 \<and> string2longlong (longlong2string l) = l \<and>
    string2long (long2string l) = l \<and> (i32_range l \<longrightarrow> string2int (longlong2string l) = l)"
proof -
  have "nat l < 10 ^ 19" "nat (- l) < 10 ^ 19" using assms by simp_all
  then have "length (longlong2string l) \<le> 20"
    using dec_nat_length[of "nat l" 19] dec_nat_length[of "nat (- l)" 19]
    by (simp add: longlong2string_def longlong2szNonReversing_dec dec_int_def)
  then show ?thesis
    using assms by (simp add: longlong2string_def longlong2szNonReversing_dec long2string_def longlong2sz_dec
        string2longlong_def string2long_def string2int_def sz2longlong_dec)
qed

theorem decimal_roundtrip_witness:
  "string2longlong (longlong2string (-9223372036854775808)) = -9223372036854775808 \<and>
   string2int (longlong2string (-42)) = -42"
proof -
  have "string2longlong (longlong2string (-9223372036854775808)) = -9223372036854775808"
    by (rule decimal_roundtrip[THEN conjunct2, THEN conjunct2, THEN conjunct2, THEN conjunct1]) simp_all
  moreover have "i32_range (-42)" by (simp add: i32_range_def)
  moreover have "i32_range (-42) \<longrightarrow> string2int (longlong2string (-42)) = -42"
    by (rule decimal_roundtrip[THEN conjunct2, THEN conjunct2, THEN conjunct2, THEN conjunct2, THEN conjunct2])
      simp_all
  ultimately show ?thesis by blast
qed

section \<open>Comparisons\<close>

definition cmp_keys :: "int list \<Rightarrow> int list \<Rightarrow> int" where
  "cmp_keys xs ys = (if xs = ys then 0 else if ord_class.lexordp xs ys then -1 else 1)"

lemma cmp_keys_simps [simp]:
  "cmp_keys (x # xs) (y # ys) = (if x \<noteq> y then if x < y then -1 else 1 else cmp_keys xs ys)"
  "cmp_keys [] ys = (if ys = [] then 0 else -1)" "cmp_keys xs [] = (if xs = [] then 0 else 1)"
  by (cases ys; auto simp: cmp_keys_def)+

lemma cmp_keys_swap: "cmp_keys ys xs = - cmp_keys xs ys"
  using lexordp_linear[of xs ys] lexordp_antisym[of xs ys] by (auto simp: cmp_keys_def)

lemma cmp_keys_0 [simp]: "cmp_keys xs ys = 0 \<longleftrightarrow> xs = ys"
  by (simp add: cmp_keys_def)

lemma strcmp_nocase_loop_keys:
  "length s + length qs = length t + length ps \<Longrightarrow>
   strcmp_nocase_loop s t ps qs = cmp_keys (map (schar \<circ> char_tolower) ps) (map (schar \<circ> char_tolower) qs)"
  by (induction s t ps qs rule: strcmp_nocase_loop.induct) (auto simp: cmp_sizes_def Let_def)

lemma strcmp_case_loop_keys:
  "length s + length qs = length t + length ps \<Longrightarrow>
   strcmp_case_loop s t ps qs = cmp_keys (map uchar ps) (map uchar qs)"
  by (induction s t ps qs rule: strcmp_case_loop.induct) (auto simp: cmp_sizes_def)

lemma strcmp_nocase_keys: "strcmp_nocase s t = cmp_keys (map schar (str_tolower s)) (map schar (str_tolower t))"
  by (simp add: strcmp_nocase_def strcmp_nocase_loop_keys str_tolower_def)

lemma strcmp_case_keys: "strcmp_case s t = cmp_keys (map uchar s) (map uchar t)"
  by (simp add: strcmp_case_def strcmp_case_loop_keys)

lemma map_schar_eq [simp]: "map schar s = map schar t \<longleftrightarrow> s = t"
  by (rule inj_map_eq_map) (simp add: inj_def)

lemma map_uchar_eq [simp]: "map uchar s = map uchar t \<longleftrightarrow> s = t"
  by (rule inj_map_eq_map) (simp add: inj_def uchar_def)

lemma strcmp_nocase_0: "strcmp_nocase s t = 0 \<longleftrightarrow> str_tolower s = str_tolower t"
  by (simp add: strcmp_nocase_keys)

lemma of_char_bounds: "0 \<le> (of_char c :: int)" "of_char c < (256 :: int)"
  by (metis of_char_mod_256 pos_mod_bound pos_mod_sign zero_less_numeral)+

lemma to_char_schar [simp]: "to_char (schar c) = c"
proof -
  have "(of_char (to_char (schar c)) :: int) = of_char c"
    using of_char_bounds[of c] by (auto simp: to_char_def schar_def Let_def)
  then show ?thesis by simp
qed

lemma schar_to_char: "-128 \<le> x \<Longrightarrow> x < 128 \<Longrightarrow> schar (to_char x) = x"
proof (cases "x < 0")
  case True
  moreover assume "-128 \<le> x"
  ultimately have "x mod 256 = x + 256" using mod_add_self2[of x 256] mod_pos_pos_trivial[of "x + 256" 256] by simp
  with \<open>-128 \<le> x\<close> show ?thesis by (simp add: schar_def to_char_def Let_def)
qed (simp add: schar_def to_char_def Let_def)

lemma schar_AZ [simp]: "schar CHR ''A'' = 65" "schar CHR ''Z'' = 90" "schar CHR ''a'' = 97" "schar CHR ''z'' = 122"
  by (simp_all add: schar_def)

lemma schar_tolower: "schar (char_tolower c) = (if 65 \<le> schar c \<and> schar c \<le> 90 then schar c + 32 else schar c)"
  by (auto simp: char_tolower_def schar_to_char)

lemma char_tolower_idem [simp]: "char_tolower (char_tolower c) = char_tolower c"
proof -
  have "schar (char_tolower (char_tolower c)) = schar (char_tolower c)"
    unfolding schar_tolower[of "char_tolower c"] by (simp add: schar_tolower)
  then show ?thesis by simp
qed

lemma schar_toupper: "schar (char_toupper c) = (if 97 \<le> schar c \<and> schar c \<le> 122 then schar c - 32 else schar c)"
  by (auto simp: char_toupper_def schar_to_char)

lemma tolower_toupper [simp]: "char_tolower (char_toupper c) = char_tolower c"
proof -
  have "schar (char_tolower (char_toupper c)) = schar (char_tolower c)"
    unfolding schar_tolower[of "char_toupper c"] schar_toupper by (simp add: schar_tolower)
  then show ?thesis by (metis to_char_schar)
qed

text \<open>The characters of the names below.\<close>

lemma tolower_chars: "list_all (\<lambda>c. char_tolower c = c) ''abcdefghijklmnopqrstuvwxyz0123456789-_''"
  by code_simp

lemma str_tolower_idem [simp]: "str_tolower (str_tolower s) = str_tolower s"
  by (simp add: str_tolower_def)

text \<open>
  \<open>strcmp_nocase\<close> compares its arguments lexicographically, letters of either case alike
  and the characters as signed bytes, \<open>strcmp_case\<close> compares them lexicographically as unsigned
  bytes; both give 0 exactly on equal texts and change sign when the arguments are exchanged.
\<close>

theorem string_comparison:
  "strcmp_nocase s t = cmp_keys (map schar (str_tolower s)) (map schar (str_tolower t)) \<and>
   strcmp_case s t = cmp_keys (map uchar s) (map uchar t) \<and>
   (strcmp_nocase s t = 0 \<longleftrightarrow> str_tolower s = str_tolower t) \<and> (strcmp_case s t = 0 \<longleftrightarrow> s = t) \<and>
   strcmp_nocase t s = - strcmp_nocase s t \<and> strcmp_case t s = - strcmp_case s t"
  using cmp_keys_swap[of "map schar (str_tolower t)" "map schar (str_tolower s)"]
    cmp_keys_swap[of "map uchar t" "map uchar s"]
  by (simp add: strcmp_nocase_keys strcmp_case_keys)

lemma nocase_one_of_tolower: "nocase_one_of (str_tolower s) names = nocase_one_of s names"
  by (simp add: nocase_one_of_def strcmp_nocase_0)

text \<open>
  The names of character sets and backends are recognised in either case, and every name
  the program writes for one is read back as the same one; the only backend with no name is the
  retired SQLite 2 (an exception), and the name of \<open>kBackendNone\<close> is not accepted.
\<close>

theorem names_roundtrip:
  "string2charset (str_tolower s) = string2charset s \<and>
   string2backend_kind (str_tolower s) = string2backend_kind s \<and>
   string2charset (str_toupper (charset2string c)) = Some c \<and> string2charset (charset2string c) = Some c \<and>
   (case backend_kind2string k of Inl e \<Rightarrow> k = kSQLite2
    | Inr n \<Rightarrow> string2backend_kind n = (if k = kBackendNone then None else Some k))"
proof (intro conjI)
  show "string2charset (str_tolower s) = string2charset s"
    by (simp only: string2charset_def nocase_one_of_tolower)
  show "string2backend_kind (str_tolower s) = string2backend_kind s"
    by (simp only: string2backend_kind_def nocase_one_of_tolower)
  show c: "string2charset (charset2string c) = Some c"
    by (cases c) (simp_all add: string2charset_def nocase_one_of_def strcmp_nocase_0 iso_8859_def str_tolower_def
        tolower_chars[simplified list.pred_inject])
  have "str_tolower (str_toupper n) = str_tolower n" for n by (simp add: str_tolower_def str_toupper_def)
  then have "string2charset (str_toupper n) = string2charset n" for n
    by (simp only: string2charset_def nocase_one_of_def strcmp_nocase_0)
  with c show "string2charset (str_toupper (charset2string c)) = Some c" by simp
  show "case backend_kind2string k of Inl e \<Rightarrow> k = kSQLite2
    | Inr n \<Rightarrow> string2backend_kind n = (if k = kBackendNone then None else Some k)"
    by (cases k; simp only:; code_simp)
qed

section \<open>UTF-8\<close>

lemma and_low:
  "(x :: int) AND 0x3F = x mod 64" "x AND 0x1F = x mod 32" "x AND 0x0F = x mod 16" "x AND 0x07 = x mod 8"
  "x AND 0xFF = x mod 256"
  using take_bit_eq_mask[of 6 x] take_bit_eq_mask[of 5 x] take_bit_eq_mask[of 4 x] take_bit_eq_mask[of 3 x]
    take_bit_eq_mask[of 8 x]
  by (simp_all add: take_bit_eq_mod mask_eq_exp_minus_1)


definition valid_code :: "int \<Rightarrow> bool" where
  "valid_code c \<longleftrightarrow> 0 \<le> c \<and> c < 0x110000 \<and> \<not> (0xD800 \<le> c \<and> c \<le> 0xDFFF) \<and> c \<noteq> 0xFFFE \<and> c \<noteq> 0xFFFF"

text \<open>A byte that continues a character.\<close>

definition continuation :: "char \<Rightarrow> bool" where
  "continuation b \<longleftrightarrow> schar b AND 0xC0 = 0x80"

lemma continuation_bytes: "list_all (\<lambda>x. (x AND 0xC0 = 0x80) = (x < -64)) [-128..127 :: int]"
  by code_simp

lemma schar_bounds: "-128 \<le> schar c" "schar c \<le> 127"
  using of_char_bounds[of c] by (auto simp: schar_def Let_def)

lemma continuation_iff: "continuation b \<longleftrightarrow> schar b < -64"
  unfolding continuation_def
  by (rule continuation_bytes[unfolded list_all_iff set_upto, THEN bspec]) (use schar_bounds[of b] in simp)

lemma and_high: "0 \<le> c \<Longrightarrow> c < 2 ^ 32 \<Longrightarrow> c AND 0xFFFFF800 = c div 2 ^ 11 * 2 ^ 11"
  "0 \<le> c \<Longrightarrow> c < 2 ^ 32 \<Longrightarrow> c AND 0xFFFFFFFE = c div 2 * 2" for c :: int
proof -
  have g: "c AND push_bit n (mask (32 - n)) = push_bit n (drop_bit n c)" if "0 \<le> c" "c < 2 ^ 32" "n \<le> 32" for n
  proof -
    have "take_bit 32 c = c" using that by (simp add: take_bit_int_eq_self)
    then have "bit c m \<Longrightarrow> m < 32" for m by (metis bit_take_bit_iff)
    then show ?thesis by (intro bit_eqI) (auto simp: bit_simps intro: diff_less_mono)
  qed
  assume c: "0 \<le> c" "c < 2 ^ 32"
  show "c AND 0xFFFFF800 = c div 2 ^ 11 * 2 ^ 11" "c AND 0xFFFFFFFE = c div 2 * 2"
    using g[OF c, of 11] g[OF c, of 1] by (simp_all add: push_bit_eq_mult drop_bit_eq_div mask_eq_exp_minus_1)
qed


lemma to_char_cong: "x mod 256 = y mod 256 \<Longrightarrow> to_char x = to_char y"
  by (metis char_of_mod_256 to_char_def)

lemma to_char_cont:
  assumes "0 \<le> y" "y < 64"
  shows "schar (to_char (0x80 + y)) = y - 128"
proof -
  have "(0x80 + y) mod 256 = (y - 128) mod 256" using mod_add_self2[of "y - 128" 256] by simp
  then have "to_char (0x80 + y) = to_char (y - 128)" by (rule to_char_cong)
  then show ?thesis using assms by (simp add: schar_to_char)
qed

lemma u32_id [simp]: "0 \<le> x \<Longrightarrow> x < 2 ^ 32 \<Longrightarrow> u32 x = x"
  by (simp add: u32_def)

lemma utf8_continue_byte:
  assumes "0 \<le> y" "y < 64" "0 \<le> c" "c < 2 ^ 20"
  shows "utf8_continue c (to_char (0x80 + y) # bs) =
    (case utf8_continue (c * 64 + y) bs of (r, n) \<Rightarrow> (r, Suc n))"
proof -
  have "(y - 128) mod 64 = y" using mod_mult_self2[of y 64 "-2"] assms by simp
  then have "0x3F AND (y - 128) = y" by (subst and.commute) (simp only: and_low)
  moreover have "continuation (to_char (0x80 + y))"
    using assms by (simp add: continuation_iff to_char_cont)
  ultimately show ?thesis
    using assms by (simp add: to_char_cont push_bit_eq_mult continuation_def)
qed

lemma utf8_continue_stop: "bs = [] \<or> \<not> continuation (hd bs) \<Longrightarrow> utf8_continue c bs = (c, 0)"
  by (cases bs) (auto simp: continuation_def)


lemma lead_byte:
  assumes "0 \<le> y" "y < 64"
  shows "u32 (schar (to_char (0xC0 + y))) = 2 ^ 32 - 64 + y" and "(2 ^ 32 - 64 + y - 0xC0) AND 0xFF = y"
proof -
  have "(0xC0 + y) mod 256 = (y - 64) mod 256" using mod_add_self2[of "y - 64" 256] by simp
  then have "to_char (0xC0 + y) = to_char (y - 64)" by (rule to_char_cong)
  then have "schar (to_char (0xC0 + y)) = y - 64" using assms by (simp add: schar_to_char)
  then show "u32 (schar (to_char (0xC0 + y))) = 2 ^ 32 - 64 + y"
    using assms mod_add_self2[of "y - 64" "2 ^ 32"] by (simp add: u32_def)
  show "(2 ^ 32 - 64 + y - 0xC0) AND 0xFF = y" 
    using assms mod_mult_self2[of y 256 "2 ^ 24 - 1"] by (simp add: and_low add.commute)
qed

lemma trans_length: "length emdrosUtf8Trans = 64"
  by (simp add: emdrosUtf8Trans_def)

lemma trans_table:
  "0 \<le> y \<Longrightarrow> y < 32 \<Longrightarrow> emdrosUtf8Trans ! nat y = y"
  "0 \<le> y \<Longrightarrow> y < 16 \<Longrightarrow> emdrosUtf8Trans ! nat (32 + y) = y"
  "0 \<le> y \<Longrightarrow> y < 8 \<Longrightarrow> emdrosUtf8Trans ! nat (48 + y) = y"
proof -
  have "list_all (\<lambda>y. emdrosUtf8Trans ! nat y = y) [0..31]"
    "list_all (\<lambda>y. emdrosUtf8Trans ! nat (32 + y) = y) [0..15]"
    "list_all (\<lambda>y. emdrosUtf8Trans ! nat (48 + y) = y) [0..7]" by code_simp+
  then show "0 \<le> y \<Longrightarrow> y < 32 \<Longrightarrow> emdrosUtf8Trans ! nat y = y"
    "0 \<le> y \<Longrightarrow> y < 16 \<Longrightarrow> emdrosUtf8Trans ! nat (32 + y) = y"
    "0 \<le> y \<Longrightarrow> y < 8 \<Longrightarrow> emdrosUtf8Trans ! nat (48 + y) = y"
    unfolding list_all_iff set_upto by auto
qed

lemma read_lead:
  assumes "0 \<le> y" "y < 64" "s ! i = to_char (0xC0 + y)" "i < length s"
    "utf8_continue (emdrosUtf8Trans ! nat y) (drop (Suc i) s) = (d, n)" "valid_code d" "0x80 \<le> d"
  shows "readOneUTF8Char s i = Inr (d, Suc i + n)"
proof -
  have "0 \<le> d" "d < 2 ^ 32" using assms(6) by (auto simp: valid_code_def)
  then have "\<not> (d < 0x80 \<or> d AND 0xFFFFF800 = 0xD800 \<or> d AND 0xFFFFFFFE = 0xFFFE)"
    using assms(6,7) div_mult_mod_eq[of d 2048] pos_mod_bound[of 2048 d] pos_mod_sign[of 2048 d]
      div_mult_mod_eq[of d 2] pos_mod_bound[of 2 d] pos_mod_sign[of 2 d]
    unfolding valid_code_def by (simp add: and_high) arith
  then show ?thesis using assms(1,2,4,5)
    by (simp add: readOneUTF8Char_def assms(3) lead_byte[OF assms(1,2), simplified] Let_def trans_length)
qed


lemmas drop_mod = drop_bit_eq_div and_low

lemma valid_bounds: "valid_code c \<Longrightarrow> 0 \<le> c" "valid_code c \<Longrightarrow> c < 0x110000"
  by (simp_all add: valid_code_def)

lemma utf8_continue_list:
  assumes "\<forall>z\<in>set zs. 0 \<le> z \<and> z < 64" "0 \<le> a" "(a + 1) * 64 ^ length zs \<le> 2 ^ 26"
    "post = [] \<or> \<not> continuation (hd post)"
  shows "utf8_continue a (map (\<lambda>z. to_char (0x80 + z)) zs @ post) = (foldl (\<lambda>a z. a * 64 + z) a zs, length zs)"
  using assms
proof (induction zs arbitrary: a)
  case Nil
  then show ?case by (simp add: utf8_continue_stop)
next
  case (Cons z zs)
  have "a + 1 \<le> (a + 1) * 64 ^ length zs"
    using mult_left_mono[of 1 "64 ^ length zs" "a + 1"] Cons.prems(2) by simp
  then have "a < 2 ^ 20" using Cons.prems(3) by simp
  moreover have "(a * 64 + z + 1) * 64 ^ length zs \<le> 2 ^ 26"
  proof (rule order_trans[of _ "((a + 1) * 64) * 64 ^ length zs"])
    show "(a * 64 + z + 1) * 64 ^ length zs \<le> ((a + 1) * 64) * 64 ^ length zs"
      using Cons.prems(1) by (intro mult_right_mono) auto
    show "((a + 1) * 64) * 64 ^ length zs \<le> 2 ^ 26" using Cons.prems(3) by (simp only: list.size(4) power_Suc mult.assoc add_0_right One_nat_def add_Suc_right)
  qed
  ultimately show ?case
    using Cons.IH[of "a * 64 + z"] Cons.prems by (simp add: utf8_continue_byte del: utf8_continue.simps)
qed

lemma read_multi:
  assumes "valid_code c" "0x80 \<le> c" "post = [] \<or> \<not> continuation (hd post)"
    "long2utf8 c = to_char (0xC0 + y) # map (\<lambda>z. to_char (0x80 + z)) zs"
    "0 \<le> y" "y < 64" "\<forall>z\<in>set zs. 0 \<le> z \<and> z < 64" "0 \<le> a" "(a + 1) * 64 ^ length zs \<le> 2 ^ 26"
    "emdrosUtf8Trans ! nat y = a" "foldl (\<lambda>a z. a * 64 + z) a zs = c"
  shows "readOneUTF8Char (pre @ long2utf8 c @ post) (length pre) = Inr (c, length pre + length (long2utf8 c))"
  using read_lead[of y "pre @ long2utf8 c @ post" "length pre" c "length zs"] assms
    utf8_continue_list[OF assms(7-9,3)] by (simp add: nth_append)

lemma mod_digits: "0 \<le> (x :: int) mod 64" "x mod 64 < 64" by simp_all

lemma read_code:
  assumes "valid_code c" "post = [] \<or> \<not> continuation (hd post)"
  shows "readOneUTF8Char (pre @ long2utf8 c @ post) (length pre) = Inr (c, length pre + length (long2utf8 c))"
proof -
  note c = valid_bounds[OF assms(1)]
  have "c div 4096 = c div 64 div 64" "c div 262144 = c div 64 div 64 div 64"
    by (simp_all flip: zdiv_zmult2_eq)
  then have d2: "c div 64 * 64 + c mod 64 = c"
    and d3: "(c div 4096 * 64 + c div 64 mod 64) * 64 + c mod 64 = c"
    and d4: "((c div 262144 * 64 + c div 4096 mod 64) * 64 + c div 64 mod 64) * 64 + c mod 64 = c"
    by (simp_all only: div_mult_mod_eq)
  consider "c < 0x80" | "0x80 \<le> c" "c < 0x800" | "0x800 \<le> c" "c < 0x10000" | "0x10000 \<le> c" by linarith
  then show ?thesis
  proof cases
    case 1
    then show ?thesis using c by (simp add: long2utf8_def readOneUTF8Char_def nth_append schar_to_char and_low)
  next
    case 2
    then have b: "0 \<le> c div 64" "c div 64 < 32" using c by simp_all
    show ?thesis
    proof (rule read_multi[OF assms(1) _ assms(2), of "c div 64" "[c mod 64]" "c div 64"])
      show "long2utf8 c = to_char (0xC0 + (c div 64)) # map (\<lambda>z. to_char (0x80 + z)) [c mod 64]"
        using 2 b by (simp add: long2utf8_def drop_bit_eq_div and_low)
      show "foldl (\<lambda>a z. a * 64 + z) (c div 64) [c mod 64] = c" by (simp only: foldl.simps d2)
    qed (use 2 b in \<open>simp_all add: trans_table\<close>)
  next
    case 3
    then have b: "0 \<le> c div 4096" "c div 4096 < 16" using c by simp_all
    show ?thesis
    proof (rule read_multi[OF assms(1) _ assms(2), of "32 + c div 4096" "[c div 64 mod 64, c mod 64]" "c div 4096"])
      show "long2utf8 c = to_char (0xC0 + (32 + c div 4096)) # map (\<lambda>z. to_char (0x80 + z)) [c div 64 mod 64, c mod 64]"
        using 3 b by (simp add: long2utf8_def drop_bit_eq_div and_low)
      show "foldl (\<lambda>a z. a * 64 + z) (c div 4096) [c div 64 mod 64, c mod 64] = c" by (simp only: foldl.simps d3)
    qed (use 3 b in \<open>simp_all add: trans_table\<close>)
  next
    case 4
    then have b: "0 \<le> c div 262144" "c div 262144 < 8" using c by simp_all
    show ?thesis
    proof (rule read_multi[OF assms(1) _ assms(2), of "48 + c div 262144" "[c div 4096 mod 64, c div 64 mod 64, c mod 64]" "c div 262144"])
      show "long2utf8 c = to_char (0xC0 + (48 + c div 262144)) # map (\<lambda>z. to_char (0x80 + z)) [c div 4096 mod 64, c div 64 mod 64, c mod 64]"
        using 4 b by (simp add: long2utf8_def drop_bit_eq_div and_low)
      show "foldl (\<lambda>a z. a * 64 + z) (c div 262144) [c div 4096 mod 64, c div 64 mod 64, c mod 64] = c" by (simp only: foldl.simps d4)
    qed (use 4 b in \<open>simp_all add: trans_table\<close>)
  qed
qed


text \<open>The first byte of an encoding never continues a character.\<close>

lemma long2utf8_first: "valid_code c \<Longrightarrow> \<exists>b bs. long2utf8 c = b # bs \<and> \<not> continuation b"
proof -
  assume "valid_code c"
  note c = valid_bounds[OF this]
  have *: "\<not> continuation (to_char (0xC0 + y))" if "0 \<le> y" "y < 64" for y
  proof -
    have "(0xC0 + y) mod 256 = (y - 64) mod 256" using mod_add_self2[of "y - 64" 256] by simp
    then have "to_char (0xC0 + y) = to_char (y - 64)" by (rule to_char_cong)
    then show ?thesis using that by (simp add: continuation_iff schar_to_char)
  qed
  consider "c < 0x80" | "0x80 \<le> c" "c < 0x800" | "0x800 \<le> c" "c < 0x10000" | "0x10000 \<le> c" by linarith
  then show ?thesis
  proof cases
    case 1
    then show ?thesis using c by (simp add: long2utf8_def and_low continuation_iff schar_to_char)
  next
    case 2
    then show ?thesis using *[of "c div 64 mod 32"] by (simp add: long2utf8_def drop_bit_eq_div and_low)
  next
    case 3
    then show ?thesis using *[of "32 + c div 4096 mod 16"] by (simp add: long2utf8_def drop_bit_eq_div and_low)
  next
    case 4
    then show ?thesis using *[of "48 + c div 262144 mod 8"] by (simp add: long2utf8_def drop_bit_eq_div and_low)
  qed
qed

lemma encoded_text_first:
  "list_all valid_code cs \<Longrightarrow> concat (map long2utf8 cs) = [] \<or> \<not> continuation (hd (concat (map long2utf8 cs)))"
  by (cases cs) (auto dest!: long2utf8_first)

definition slashu_char :: "int \<Rightarrow> string" where
  "slashu_char c = (if c < 0x80 then [to_char c] else codepoint2slashu [] c)"

lemma codepoint2slashu_append: "codepoint2slashu r c = r @ codepoint2slashu [] c"
  by (simp add: codepoint2slashu_def)

lemma escape_loop_correct:
  assumes "list_all valid_code cs" "length cs < n"
  shows "escape_UTF8_loop n (pre @ concat (map long2utf8 cs)) r (length pre) = Inr (r @ concat (map slashu_char cs))"
  using assms
proof (induction cs arbitrary: pre r n)
  case Nil
  then show ?case by (cases n) auto
next
  case (Cons c cs)
  obtain m where n: "n = Suc m" using Cons.prems by (cases n) auto
  obtain b bs where b: "long2utf8 c = b # bs" using long2utf8_first[of c] Cons.prems by auto
  have IH: "escape_UTF8_loop m ((pre @ long2utf8 c) @ concat (map long2utf8 cs)) (r @ slashu_char c)
      (length (pre @ long2utf8 c)) = Inr ((r @ slashu_char c) @ concat (map slashu_char cs))"
    using Cons.prems n by (intro Cons.IH) auto
  have "readOneUTF8Char (pre @ long2utf8 c @ concat (map long2utf8 cs)) (length pre) =
      Inr (c, length pre + length (long2utf8 c))"
    using Cons.prems encoded_text_first[of cs] by (intro read_code) auto
  then show ?case
    using IH by (auto simp: n b slashu_char_def[of c] codepoint2slashu_append[of r])
qed

lemma encoded_length: "list_all valid_code cs \<Longrightarrow> length cs \<le> length (concat (map long2utf8 cs))"
  by (induction cs) (auto dest!: long2utf8_first)

text \<open>
  C34: reading UTF-8. At any place of a text, the encoding \<open>long2utf8\<close> writes for a code point
  (below 0x110000, neither a surrogate nor one of the two non-characters the reader replaces) is
  read back by \<open>readOneUTF8Char\<close> with the position just after it, and
  \<open>escape_UTF8_string_with_slashu\<close> turns a whole encoded text into its escaped characters. A
  byte from 0x80 to 0xBF at the start of a character is not read as itself, as the comment says:
  it indexes the table of first bytes outside its 64 entries.
\<close>

theorem utf8_reading:
  assumes "list_all valid_code cs"
  shows "(case cs of [] \<Rightarrow> True
     | c # ds \<Rightarrow> readOneUTF8Char (pre @ concat (map long2utf8 cs)) (length pre) =
         Inr (c, length pre + length (long2utf8 c))) \<and>
    escape_UTF8_string_with_slashu (concat (map long2utf8 cs)) = Inr (concat (map slashu_char cs)) \<and>
    (continuation b \<longrightarrow> readOneUTF8Char (pre @ b # post) (length pre) = Inl NullDeref)"
proof (intro conjI impI)
  show "case cs of [] \<Rightarrow> True
     | c # ds \<Rightarrow> readOneUTF8Char (pre @ concat (map long2utf8 cs)) (length pre) =
         Inr (c, length pre + length (long2utf8 c))"
    using assms read_code[OF _ encoded_text_first] by (cases cs) auto
  show "escape_UTF8_string_with_slashu (concat (map long2utf8 cs)) = Inr (concat (map slashu_char cs))"
    using escape_loop_correct[OF assms, of "Suc (length (concat (map long2utf8 cs)))" "[]" "[]"]
      encoded_length[OF assms]
    by (simp add: escape_UTF8_string_with_slashu_def del: escape_UTF8_loop.simps)
  assume "continuation b"
  then have s: "-128 \<le> schar b" "schar b < -64" using schar_bounds by (auto simp: continuation_iff)
  then have u: "u32 (schar b) = 2 ^ 32 + schar b"
    unfolding u32_def by (subst mod_add_self1[symmetric], subst mod_pos_pos_trivial) simp_all
  have "(2 ^ 32 + schar b - 0xC0) AND 0xFF = schar b + 320"
    using s mod_mult_self2[of "schar b + 320" 256 "2 ^ 24 - 2"] by (simp add: and_low)
  moreover have "\<not> nat (schar b + 320) < 64" using s by linarith
  ultimately show "readOneUTF8Char (pre @ b # post) (length pre) = Inl NullDeref"
    using s u by (simp add: readOneUTF8Char_def nth_append Let_def trans_length)
qed

theorem utf8_reading_witness:
  "list_all valid_code [0x48, 0xE6, 0x20AC, 0x1F600] \<and>
   escape_UTF8_string_with_slashu (concat (map long2utf8 [0x48, 0xE6, 0x20AC, 0x1F600])) =
     Inr (concat (map slashu_char [0x48, 0xE6, 0x20AC, 0x1F600]))"
proof -
  have "list_all valid_code [0x48, 0xE6, 0x20AC, 0x1F600]" by (simp add: valid_code_def)
  then show ?thesis using utf8_reading[of "[0x48, 0xE6, 0x20AC, 0x1F600]"] by blast
qed

end
