(* ===== verification/StringText_Props.thy ===== *)
theory StringText_Props
  imports StringFunc
begin

text \<open>
  Properties of the functions of \<^verbatim>\<open>EMdF/string_func.cpp\<close> that rewrite texts: escapes,
  replacement of substrings, stripping and identifiers. The last section evaluates the functions
  whose behaviour differs from their description.
\<close>

unbundle bit_operations_syntax

section \<open>Hexadecimal, octal and escapes\<close>

lemma hex_byte_table:
  "list_all (\<lambda>x. case char2hex x of [a, b] \<Rightarrow>
       is_hex [a, b] \<and> hex2char a b = to_char x \<and> a \<noteq> CHR 0x5C \<and> b \<noteq> CHR 0x5C \<and> octal2char (char2octal x) = to_char x
     | _ \<Rightarrow> False) [0..255]"
  by code_simp

lemma simple_escape_table:
  "simple_escape CHR 0x5C = Some CHR 0x5C" "simple_escape CHR 0x22 = Some CHR 0x22" "simple_escape CHR ''x'' = None"
  by code_simp+


lemma uchar_bounds: "0 \<le> uchar c" "uchar c \<le> 255"
proof -
  have "0 \<le> (of_char c :: int) \<and> of_char c < (256 :: int)"
    by (metis of_char_mod_256 pos_mod_bound pos_mod_sign zero_less_numeral)
  then show "0 \<le> uchar c" "uchar c \<le> 255" by (auto simp: uchar_def)
qed

lemma to_char_uchar [simp]: "to_char (uchar c) = c"
  by (simp add: to_char_def uchar_def)

lemma hex_byte:
  assumes "0 \<le> x" "x \<le> 255"
  obtains a b where "char2hex x = [a, b]" "is_hex [a, b]" "hex2char a b = to_char x" "a \<noteq> CHR 0x5C" "b \<noteq> CHR 0x5C"
    "octal2char (char2octal x) = to_char x"
proof -
  have "case char2hex x of [a, b] \<Rightarrow>
       is_hex [a, b] \<and> hex2char a b = to_char x \<and> a \<noteq> CHR 0x5C \<and> b \<noteq> CHR 0x5C \<and> octal2char (char2octal x) = to_char x
     | _ \<Rightarrow> False"
    by (rule hex_byte_table[unfolded list_all_iff set_upto, THEN bspec]) (use assms in simp)
  then show thesis using that by (auto split: list.splits)
qed

lemma encodeSTRINGstring_concat: "encodeSTRINGstring s = concat (map encode_char s)"
proof -
  have "foldl (\<lambda>r c. r @ encode_char c) r s = r @ concat (map encode_char s)" for r
    by (induction s arbitrary: r) auto
  then show ?thesis by (simp add: encodeSTRINGstring_def)
qed

lemma parse_plain_char:
  "\<not> needs_hex c \<Longrightarrow> parse_C_loop n r (encode_char c @ rest) = parse_C_loop n (r @ [c]) rest"
  by (cases rest) (auto simp: encode_char_def simple_escape_table)

lemma parse_hex_char:
  assumes "needs_hex c" "3 \<le> n" "rest \<noteq> []"
  shows "parse_C_loop n r (encode_char c @ rest) = parse_C_loop n (r @ [c]) rest"
proof -
  obtain a b where h: "char2hex (uchar c) = [a, b]" "is_hex [a, b]" "hex2char a b = to_char (uchar c)"
    using hex_byte[OF uchar_bounds] by blast
  then show ?thesis
    using assms by (cases rest) (auto simp: encode_char_def simple_escape_table room_for_two_def)
qed

lemma parse_hex_last:
  assumes "needs_hex c" "3 \<le> n"
  shows "parse_C_loop n r (encode_char c) = Inr (r @ CHR ''x'' # char2hex (uchar c))"
proof -
  obtain a b where h: "char2hex (uchar c) = [a, b]" "a \<noteq> CHR 0x5C" "b \<noteq> CHR 0x5C"
    using hex_byte[OF uchar_bounds] by blast
  then show ?thesis
    using assms by (simp add: encode_char_def simple_escape_table room_for_two_def)
qed

text \<open>What the parser makes of an encoded text: a hexadecimal escape at the very end is not decoded.\<close>

definition decoded :: "string \<Rightarrow> string" where
  "decoded s = (if s \<noteq> [] \<and> needs_hex (last s) then butlast s @ CHR ''x'' # char2hex (uchar (last s)) else s)"

lemma encode_char_nonempty: "encode_char c \<noteq> []" "needs_hex c \<Longrightarrow> length (encode_char c) = 4"
  by (auto simp: encode_char_def char2hex_def)

lemma parse_encoded:
  "length (concat (map encode_char s)) \<le> n \<Longrightarrow>
   parse_C_loop n r (concat (map encode_char s)) = Inr (r @ decoded s)"
proof (induction s arbitrary: r)
  case Nil
  then show ?case by (simp add: decoded_def)
next
  case (Cons c s)
  have IH: "parse_C_loop n (r @ [c]) (concat (map encode_char s)) = Inr (r @ [c] @ decoded s)"
    using Cons.IH[of "r @ [c]"] Cons.prems by simp
  have d: "s \<noteq> [] \<or> \<not> needs_hex c \<Longrightarrow> decoded (c # s) = c # decoded s"
    by (auto simp: decoded_def)
  have n: "needs_hex c \<Longrightarrow> 3 \<le> n" using Cons.prems encode_char_nonempty(2)[of c] by simp
  consider "\<not> needs_hex c" | "needs_hex c" "s \<noteq> []" | "needs_hex c" "s = []" by blast
  then show ?case
  proof cases
    case 1
    then show ?thesis using IH d by (simp add: parse_plain_char)
  next
    case 2
    then have "concat (map encode_char s) \<noteq> []" using encode_char_nonempty(1) by (cases s) auto
    then show ?thesis using 2 IH d n by (simp add: parse_hex_char)
  next
    case 3
    then show ?thesis using n parse_hex_last[of c n r] by (simp add: decoded_def)
  qed
qed

text \<open>
  C35: \<open>parse_C_backslashes\<close> reads back what \<open>encodeSTRINGstring\<close> writes, for every text whose
  last character is plain; when the last character was written as a hexadecimal escape, the parser
  leaves that escape undecoded (without its backslash), because it asks for one character more than
  the two digits. Single bytes survive hexadecimal and octal, both ways of reading them.
\<close>

theorem escapes_roundtrip:
  "parse_C_backslashes (encodeSTRINGstring s) =
     Inr (if s \<noteq> [] \<and> needs_hex (last s) then butlast s @ CHR ''x'' # char2hex (uchar (last s)) else s) \<and>
   hex2char (char2hex (uchar c) ! 0) (char2hex (uchar c) ! 1) = c \<and> octal2char (char2octal (uchar c)) = c"
proof -
  obtain a b where "char2hex (uchar c) = [a, b]" "hex2char a b = to_char (uchar c)"
    "octal2char (char2octal (uchar c)) = to_char (uchar c)"
    using hex_byte[OF uchar_bounds] by blast
  then show ?thesis
    using parse_encoded[of s "length (concat (map encode_char s))" "[]"]
    by (simp add: parse_C_backslashes_def encodeSTRINGstring_concat decoded_def)
qed

section \<open>Replacing substrings\<close>

text \<open>The reference: occurrences are replaced from the left, without overlap.\<close>

function replace_all :: "string \<Rightarrow> string \<Rightarrow> string \<Rightarrow> string" where
  "replace_all t r s =
     (if s = [] \<or> t = [] then s
      else if take (length t) s = t then r @ replace_all t r (drop (length t) s)
      else hd s # replace_all t r (tl s))"
  by pat_completeness auto
termination
  by (relation "measure (\<lambda>(t, r, s). length s)") auto

declare replace_all.simps [simp del]

lemma str_find_step:
  "str_find s t n = (if n \<le> length s
     then if take (length t) (drop n s) = t then Some n else str_find s t (Suc n) else None)"
  by (simp add: str_find_def upt_conv_Cons)

lemma str_find_again: "str_find s t n = Some j \<Longrightarrow> str_find s t j = Some j"
proof -
  assume "str_find s t n = Some j"
  then have "take (length t) (drop j s) = t \<and> j \<in> set [n..<length s + 1]"
    unfolding str_find_def find_Some_iff by (metis nth_mem)
  then show ?thesis by (subst str_find_step) auto
qed

lemma replace_all_find:
  assumes "t \<noteq> []"
  shows "case str_find s t n of None \<Rightarrow> replace_all t r (drop n s) = drop n s
    | Some j \<Rightarrow> n \<le> j \<and> j + length t \<le> length s \<and>
        replace_all t r (drop n s) = take (j - n) (drop n s) @ r @ replace_all t r (drop (j + length t) s)"
proof (induction "Suc (length s) - n" arbitrary: n)
  case 0
  then show ?case by (subst str_find_step) (simp add: replace_all.simps)
next
  case (Suc k)
  then have n: "n \<le> length s" by simp
  show ?case
  proof (cases "take (length t) (drop n s) = t")
    case True
    then have l: "n + length t \<le> length s" by (metis add.commute le_diff_conv2 length_drop length_take min.cobounded1 n)
    have "drop n s \<noteq> []" using True assms by auto
    then have "replace_all t r (drop n s) = r @ replace_all t r (drop (n + length t) s)"
      by (subst replace_all.simps) (simp add: True assms add.commute)
    then show ?thesis using True n l by (subst str_find_step) simp
  next
    case False
    have IH: "case str_find s t (Suc n) of None \<Rightarrow> replace_all t r (drop (Suc n) s) = drop (Suc n) s
    | Some j \<Rightarrow> Suc n \<le> j \<and> j + length t \<le> length s \<and>
        replace_all t r (drop (Suc n) s) = take (j - Suc n) (drop (Suc n) s) @ r @ replace_all t r (drop (j + length t) s)"
      by (rule Suc(1)) (use Suc(2) in simp)
    show ?thesis
    proof (cases "n = length s")
      case True
      then show ?thesis using assms by (subst str_find_step, subst str_find_step) (simp add: replace_all.simps)
    next
      case ne: False
      then have d: "drop n s = s ! n # drop (Suc n) s" using n by (simp add: Cons_nth_drop_Suc)
      have "replace_all t r (drop n s) = s ! n # replace_all t r (drop (Suc n) s)"
        using False assms d by (subst replace_all.simps) simp
      moreover have "str_find s t n = str_find s t (Suc n)" using False n by (subst str_find_step) simp
      ultimately show ?thesis using IH
        by (auto simp: d Suc_le_eq take_Cons' split: option.splits)
    qed
  qed
qed

lemma replace_all_none: "t \<noteq> [] \<Longrightarrow> str_find s t n = None \<Longrightarrow> replace_all t r (drop n s) = drop n s"
  using replace_all_find[where t = t and s = s and n = n and r = r] by simp

lemma replace_all_some:
  assumes "t \<noteq> []" "str_find s t n = Some j"
  shows "n \<le> j" "j + length t \<le> length s"
    "replace_all t r (drop n s) = take (j - n) (drop n s) @ r @ replace_all t r (drop (j + length t) s)"
  using replace_all_find[where t = t and s = s and n = n and r = r] assms by auto

lemma replace_substring_loop_correct:
  assumes "t \<noteq> []"
  shows "nbegin \<le> length s \<Longrightarrow> length s - nbegin < n \<Longrightarrow>
    replace_substring_loop n s t r res nbegin = Inr (res @ replace_all t r (drop nbegin s))"
proof (induction n arbitrary: res nbegin)
  case (Suc n)
  show ?case
  proof (cases "str_find s t nbegin")
    case None
    then show ?thesis using replace_all_none[OF assms None, of r] Suc.prems by (auto simp: replace_all.simps)
  next
    case (Some j)
    note j = replace_all_some[OF assms Some]
    show ?thesis
    proof (cases "nbegin = length s")
      case False
      have "length s - (j + length t) < n" using j(1) assms Suc.prems(2) False
        by (metis Suc.prems(1) add_leD1 diff_less_mono2 j(2) le_neq_implies_less length_greater_0_conv less_Suc_eq_le less_add_same_cancel1 order.strict_trans1 order_less_le_trans trans_less_add1 le_eq_less_or_eq)
      then show ?thesis using Suc.IH[OF j(2), of "res @ str_substr s nbegin (j - nbegin) @ r"] False Some
        by (simp add: j(3) str_substr_def)
    qed (use j(1,2) assms in \<open>auto simp: replace_all.simps\<close>)
  qed
qed simp

text \<open>
  \<open>replace_substring\<close> always returns, and its result is the text with every occurrence of a
  non-empty substring replaced from the left without overlap; an empty substring changes nothing.
\<close>

theorem replace_substring_exact: "replace_substring s t r = Inr (replace_all t r s)"
proof (cases "str_find s t 0 = None \<or> t = []")
  case True
  then show ?thesis using replace_all_none[of t s 0 r]
    by (cases "t = []") (auto simp: replace_substring_def replace_all.simps)
next
  case False
  then obtain i where i: "str_find s t 0 = Some i" and t: "t \<noteq> []" by auto
  note f = replace_all_some[OF t i]
  have one: "replace_all t r t = r"
    using t by (subst replace_all.simps) (simp add: replace_all.simps)
  let ?nb = "if i = 0 then length t else i" and ?res = "if i = 0 then r else str_substr s 0 i"
  have nb: "?nb \<le> length s" "?res @ replace_all t r (drop ?nb s) = replace_all t r s"
    using f(2) f(3)[of r] replace_all_some(3)[OF t str_find_again[OF i], of r] by (auto simp: str_substr_def)
  have "(case str_find s t ?nb of None \<Rightarrow> Inr (?res @ drop ?nb s)
      | Some nend \<Rightarrow> replace_substring_loop (Suc (length s)) s t r
          (?res @ str_substr s ?nb (nend - ?nb) @ r) (nend + length t)) = Inr (replace_all t r s)"
  proof (cases "str_find s t ?nb")
    case None
    then show ?thesis using nb(2) replace_all_none[OF t None, of r] by simp
  next
    case (Some j)
    note g = replace_all_some[OF t Some]
    show ?thesis using replace_substring_loop_correct[OF t g(2), of "Suc (length s)"] nb(2) g(3)[of r] Some
      by (simp add: str_substr_def del: replace_substring_loop.simps)
  qed
  then show ?thesis using False i one
    by (simp add: replace_substring_def del: replace_substring_loop.simps split: if_splits)
qed

section \<open>Stripping and identifiers\<close>

lemma strip_left_props:
  "p \<le> length s \<Longrightarrow> p \<le> strip_left s p \<and> strip_left s p \<le> length s \<and>
    (\<forall>i. p \<le> i \<and> i < strip_left s p \<longrightarrow> is_strip_space (s ! i)) \<and>
    (strip_left s p < length s \<longrightarrow> \<not> is_strip_space (s ! strip_left s p))"
proof (induction s p rule: strip_left.induct)
  case (1 s p)
  show ?case
  proof (cases "p < length s \<and> is_strip_space (s ! p)")
    case True
    then have e: "strip_left s p = strip_left s (p + 1)" by (subst strip_left.simps) simp
    have "is_strip_space (s ! i)" if "p \<le> i" "i < strip_left s (p + 1)" for i
      using that 1 True by (cases "i = p") auto
    then show ?thesis using 1 True e by auto
  next
    case False
    then have "strip_left s p = p" by (subst strip_left.simps) auto
    then show ?thesis using False 1 by auto
  qed
qed

lemma strip_right_props:
  "p \<le> q \<Longrightarrow> p \<le> strip_right s p q \<and> strip_right s p q \<le> q \<and>
    (\<forall>i. strip_right s p q < i \<and> i \<le> q \<longrightarrow> is_strip_space (s ! i)) \<and>
    (p < strip_right s p q \<longrightarrow> \<not> is_strip_space (s ! strip_right s p q))"
proof (induction s p q rule: strip_right.induct)
  case (2 s p q)
  then show ?case by (auto simp: le_Suc_eq)
qed simp

definition strip_ends :: "string \<Rightarrow> string" where
  "strip_ends s = rev (dropWhile is_strip_space (rev (dropWhile is_strip_space s)))"

lemma dropWhile_prefix: "\<forall>c\<in>set a. P c \<Longrightarrow> m \<noteq> [] \<Longrightarrow> \<not> P (hd m) \<Longrightarrow> dropWhile P (a @ m) = m"
  by (induction a) (auto simp: dropWhile_eq_self_iff)

lemma strip_ends_middle:
  assumes "\<forall>c\<in>set a. is_strip_space c" "\<forall>c\<in>set b. is_strip_space c" "m \<noteq> []"
    "\<not> is_strip_space (hd m)" "\<not> is_strip_space (last m)"
  shows "strip_ends (a @ m @ b) = m"
  using assms dropWhile_prefix[of a is_strip_space "m @ b"] dropWhile_prefix[of "rev b" is_strip_space "rev m"]
  by (simp add: strip_ends_def hd_rev)

lemma strip_is_ends: "strip s = strip_ends s"
proof (cases "s = []")
  case False
  let ?p = "strip_left s 0" and ?q = "strip_right s (strip_left s 0) (length s - 1)"
  have p: "?p \<le> length s" "\<forall>i<?p. is_strip_space (s ! i)" "?p < length s \<longrightarrow> \<not> is_strip_space (s ! ?p)"
    using strip_left_props[of 0 s] by auto
  show ?thesis
  proof (cases "?p = length s")
    case True
    then have "\<forall>c\<in>set s. is_strip_space c" using p(2) by (auto simp: in_set_conv_nth)
    then show ?thesis using True False by (auto simp: strip_def strip_ends_def dest: set_dropWhileD)
  next
    case ne: False
    then have "?p \<le> length s - 1" using p(1) by simp
    note q = strip_right_props[OF this, of s]
    let ?m = "take (?q - ?p + 1) (drop ?p s)"
    have len: "?q < length s" "?p \<le> ?q" using q ne p(1) by auto
    have "drop (Suc ?q) s = drop (?q - ?p + 1) (drop ?p s)" using len by simp
    then have s: "s = take ?p s @ ?m @ drop (Suc ?q) s" by (simp only: append_take_drop_id)
    have "strip_ends (take ?p s @ ?m @ drop (Suc ?q) s) = ?m"
    proof (rule strip_ends_middle)
      show "\<forall>c\<in>set (take ?p s). is_strip_space c" using p by (auto simp: in_set_conv_nth)
      show "\<forall>c\<in>set (drop (Suc ?q) s). is_strip_space c"
        using q by (auto simp: in_set_conv_nth)
      show "?m \<noteq> []" using len by auto
      show "\<not> is_strip_space (hd ?m)" using p(3) len by (simp add: hd_drop_conv_nth)
      have "last ?m = s ! ?q" using len by (subst last_conv_nth) auto
      then show "\<not> is_strip_space (last ?m)" using q p(3) len by (cases "?p = ?q") auto
    qed
    then have "strip_ends s = ?m" by (simp only: s[symmetric])
    moreover have "strip s = ?m"
      using False ne len by (auto simp: strip_def Let_def str_substr_def)
    ultimately show ?thesis by simp
  qed
qed (simp add: strip_def strip_ends_def)


lemma identifier_table:
  "list_all (\<lambda>x. identifier_char (char_of x) = (char_of x \<in> set (non_digit @ ''0123456789'')) \<and>
     (char_of x \<in> set non_digit) = (identifier_char (char_of x) \<and> \<not> (48 \<le> schar (char_of x) \<and> schar (char_of x) \<le> 57)))
   [0..255 :: int]"
  by code_simp

lemma identifier_char_iff:
  "identifier_char c \<longleftrightarrow> c \<in> set (non_digit @ ''0123456789'')"
  "c \<in> set non_digit \<longleftrightarrow> identifier_char c \<and> \<not> (48 \<le> schar c \<and> schar c \<le> 57)"
proof -
  have "0 \<le> (of_char c :: int) \<and> of_char c < (256 :: int)"
    by (metis of_char_mod_256 pos_mod_bound pos_mod_sign zero_less_numeral)
  then have "identifier_char (char_of (of_char c :: int)) = (char_of (of_char c :: int) \<in> set (non_digit @ ''0123456789'')) \<and>
     (char_of (of_char c :: int) \<in> set non_digit) =
       (identifier_char (char_of (of_char c :: int)) \<and>
        \<not> (48 \<le> schar (char_of (of_char c :: int)) \<and> schar (char_of (of_char c :: int)) \<le> 57))"
    by (intro identifier_table[unfolded list_all_iff set_upto, THEN bspec]) auto
  then show "identifier_char c \<longleftrightarrow> c \<in> set (non_digit @ ''0123456789'')"
    "c \<in> set non_digit \<longleftrightarrow> identifier_char c \<and> \<not> (48 \<le> schar c \<and> schar c \<le> 57)"
    by (simp_all only: char_of_char)
qed

lemma find_first_not_of_None: "find_first_not_of s cs = None \<longleftrightarrow> set s \<subseteq> set cs"
  unfolding find_first_not_of_def find_None_iff by (fastforce simp: in_set_conv_nth[of _ s])

lemma str_find_char: "str_find s [c] 0 = None \<longleftrightarrow> c \<notin> set s"
proof -
  have "take 1 (drop i s) = [c] \<longleftrightarrow> i < length s \<and> s ! i = c" for i
    by (cases "i < length s") (auto simp: take_Suc_conv_app_nth Cons_nth_drop_Suc[symmetric])
  then show ?thesis by (auto simp: str_find_def find_None_iff in_set_conv_nth)
qed

lemma is_identifier_iff: "is_identifier s \<longleftrightarrow> s \<noteq> [] \<and> list_all identifier_char s \<and> hd s \<in> set non_digit"
  by (cases s) (auto simp: is_identifier_def str_find_char find_first_not_of_None list_all_iff
      identifier_char_iff(1) subset_iff)

definition to_ident_char :: "char \<Rightarrow> char" where
  "to_ident_char c = (if identifier_char c then c else CHR ''_'')"

lemma to_ident_char_ok: "identifier_char (to_ident_char c)"
  by (simp add: to_ident_char_def) (simp add: identifier_char_def)

lemma ident_fold: "foldl (\<lambda>r c. r @ (if identifier_char c then [c] else ''_'')) r s = r @ map to_ident_char s"
  by (induction s arbitrary: r) (auto simp: to_ident_char_def)

text \<open>
  \<open>strip\<close> removes the white space at both ends and nothing else. \<open>convert_to_identifier\<close>
  turns every text that is not empty into an identifier (\<open>is_identifier\<close>), whatever the
  reserved words are, and changes an identifier at most by appending an underscore, exactly when it
  is a reserved word in either case.
\<close>

theorem strip_and_identifiers:
  "strip s = rev (dropWhile is_strip_space (rev (dropWhile is_strip_space s))) \<and>
   is_identifier (convert_to_identifier words s) = (s \<noteq> [] \<or> (\<exists>w\<in>set words. strcmp_nocase [] w = 0)) \<and>
   (is_identifier s \<longrightarrow>
     convert_to_identifier words s = (if \<exists>w\<in>set words. strcmp_nocase s w = 0 then s @ ''_'' else s))"
proof (intro conjI)
  let ?m = "map to_ident_char s"
  let ?d = "\<lambda>c. 48 \<le> schar c \<and> schar c \<le> 57"
  define r where "r = (case ?m of [] \<Rightarrow> ?m | c # _ \<Rightarrow> if ?d c then ''_'' @ ?m else ?m)"
  have nine: "schar CHR ''9'' = 57" "schar CHR ''0'' = 48" by (simp_all add: schar_def)
  have conv: "convert_to_identifier words s = (if \<exists>w\<in>set words. strcmp_nocase r w = 0 then r @ ''_'' else r)"
    unfolding convert_to_identifier_def ident_fold Let_def r_def list_ex_iff nine append_Nil by simp
  have us: "identifier_char CHR ''_''" "CHR ''_'' \<in> set non_digit" by (simp_all add: identifier_char_def non_digit_def)
  have all: "list_all identifier_char r"
    by (cases s) (auto simp: r_def list_all_iff to_ident_char_ok us)
  have hd: "s \<noteq> [] \<Longrightarrow> r \<noteq> [] \<and> hd r \<in> set non_digit"
    using us by (cases s) (auto simp: r_def identifier_char_iff(2) to_ident_char_ok)
  have nil: "s = [] \<Longrightarrow> r = []" by (simp add: r_def)
  show "strip s = rev (dropWhile is_strip_space (rev (dropWhile is_strip_space s)))"
    by (simp add: strip_is_ends strip_ends_def)
  show "is_identifier (convert_to_identifier words s) = (s \<noteq> [] \<or> (\<exists>w\<in>set words. strcmp_nocase [] w = 0))"
    unfolding conv using all hd nil us by (cases "s = []") (auto simp: is_identifier_iff)
  have same: "is_identifier s \<Longrightarrow> r = s"
    unfolding is_identifier_iff r_def
    by (cases s) (auto simp: to_ident_char_def list_all_iff identifier_char_iff(2) intro: map_idI)
  show "is_identifier s \<longrightarrow>
     convert_to_identifier words s = (if \<exists>w\<in>set words. strcmp_nocase s w = 0 then s @ ''_'' else s)"
    using same by (auto simp: conv)
qed


theorem strip_and_identifiers_witness:
  "is_identifier ''GET'' \<and> convert_to_identifier [''select'', ''get''] ''GET'' = ''GET_''"
proof -
  have i: "is_identifier ''GET''" by code_simp
  have "\<exists>w\<in>set [''select'', ''get'']. strcmp_nocase ''GET'' w = 0" by code_simp
  then have "convert_to_identifier [''select'', ''get''] ''GET'' = ''GET'' @ ''_''"
    using strip_and_identifiers[of "''GET''" "[''select'', ''get'']"] i by (simp only: simp_thms if_True)
  then show ?thesis using i by simp
qed

section \<open>Departures from the descriptions\<close>

text \<open>
  Digits of seven bits from 80 on do not survive the signed \<open>char\<close>; a list of integers is written
  without separators; a separator right after the first one, or before its own length, is missed
  when splitting; a character replaced by itself is searched for ever; and \<open>is_self\<close> tests the first
  character where it means the later ones.
\<close>

lemma compact7_departures:
  "compact_string7bits2long (long2compact_string7bits 79) = 79"
  "compact_string7bits2long (long2compact_string7bits 80) = -176"
  "compact_string7bits2IntegerList (IntegerList2compact_string7bits [1, 2]) = Inr [130]"
  by code_simp+

lemma split_departures:
  "split_string_on_string ''a--b'' ''--'' = Inr [''a--b'']"
  "split_string_on_string ''ab--c'' ''--'' = Inr [''ab'', ''c'']"
  "split_string_on_string ''ab'' [] = Inl OutOfFuel"
  by code_simp+

lemma is_self_departure: "is_self ''self''" "is_self ''Self''" "\<not> is_self ''SELF''"
  by code_simp+

lemma replace_chars_itself: "c \<in> set s \<Longrightarrow> replace_chars_loop n s 0 c c = Inl OutOfFuel"
proof -
  assume "c \<in> set s"
  then obtain j where j: "str_find s [c] 0 = Some j" using str_find_char[of s c] by (cases "str_find s [c] 0") auto
  have at_j: "s ! j = c"
  proof -
    have "take (length [c]) (drop j s) = [c]"
      using j unfolding str_find_def find_Some_iff by metis
    then show ?thesis by (cases "drop j s") (auto simp: drop_eq_nths nth_via_drop)
  qed
  have "str_find s [c] i = Some j \<Longrightarrow> replace_chars_loop n s i c c = Inl OutOfFuel" for i
  proof (induction n arbitrary: i)
    case (Suc n)
    have "s[j := c] = s" using at_j list_update_id[of s j] by simp
    then show ?case using Suc str_find_again[OF j] by simp
  qed simp
  then show ?thesis using j by blast
qed

end
