(* ===== verification/EMdFValue.thy ===== *)
theory EMdFValue
  imports SetOfMonads MonadStrings StringFunc
begin

text \<open>
  Feature values, after \<^verbatim>\<open>EMdF/emdf_value.cpp\<close>, with the lists of integers of
  \<^verbatim>\<open>include/string_list.h\<close> they hold: the comparison of values by the operators of a query,
  with every assertion that throws, and the text of a value. A list of integers is the HOL list
  of its elements from the head; a comparison that reads a member of the union other than the
  one it was built with stops with \<open>NullDeref\<close>.
\<close>

section \<open>Lists of integers\<close>

definition DEFAULT_LIST_DELIMITER :: string where
  "DEFAULT_LIST_DELIMITER = '' ''"

definition ParserList_addValueBack :: "'a list \<Rightarrow> 'a \<Rightarrow> 'a list" where
  "ParserList_addValueBack l v = l @ [v]"

definition ParserList_addValueFront :: "'a list \<Rightarrow> 'a \<Rightarrow> 'a list" where
  "ParserList_addValueFront l v = v # l"

definition ParserList_isEmpty :: "'a list \<Rightarrow> bool" where
  "ParserList_isEmpty l \<longleftrightarrow> l = []"

definition ParserList_copyOther :: "'a list \<Rightarrow> 'a list \<Rightarrow> 'a list" where
  "ParserList_copyOther l other = foldl ParserList_addValueBack l other"

text \<open>
  \<open>getLength\<close> counts while the iterator has a next element but never advances it; the model
  gives it as many turns as asked for.
\<close>

fun getLength_loop :: "nat \<Rightarrow> 'a list \<Rightarrow> int \<Rightarrow> int res" where
  "getLength_loop 0 ci result = Inl OutOfFuel"
| "getLength_loop (Suc n) ci result =
     (if it_hasNext ci then getLength_loop n ci (i32 (result + 1)) else Inr result)"

definition ParserList_getLength :: "nat \<Rightarrow> 'a list \<Rightarrow> int res" where
  "ParserList_getLength n l = getLength_loop n l 0"

definition getDelimitedString :: "int list \<Rightarrow> string \<Rightarrow> string" where
  "getDelimitedString l delimiter =
     (if it_hasNext l
      then foldl (\<lambda>str v. str @ delimiter @ dec_int v) [] l @ delimiter
      else [])"

section \<open>Values and comparison operators\<close>

datatype EMdFValue =
    kEVInt int
  | kEVEnum int
  | kEVID_D int
  | kEVString string
  | kEVListOfInteger "int list"
  | kEVListOfID_D "int list"
  | kEVSetOfMonads SetOfMonads

datatype eComparisonOp =
    kEqual | kLessThan | kGreaterThan | kNotEqual | kLessThanOrEqual | kGreaterThanOrEqual
  | kTilde | kNotTilde | kIn | kHas

text \<open>The order of \<open>std::string\<close> compares characters as unsigned bytes.\<close>

definition std_string_less :: "string \<Rightarrow> string \<Rightarrow> bool" where
  "std_string_less s t \<longleftrightarrow> ord_class.lexordp (map uchar s) (map uchar t)"

fun getIntegerList :: "EMdFValue \<Rightarrow> int list res" where
  "getIntegerList (kEVListOfInteger l) = Inr l"
| "getIntegerList (kEVListOfID_D l) = Inr l"
| "getIntegerList v = Inl EmdrosException"

fun getSOM_value :: "EMdFValue \<Rightarrow> SetOfMonads res" where
  "getSOM_value (kEVSetOfMonads s) = Inr s"
| "getSOM_value v = Inl EmdrosException"

fun getString_value :: "EMdFValue \<Rightarrow> string res" where
  "getString_value (kEVString s) = Inr s"
| "getString_value v = Inl EmdrosException"

fun changeString :: "EMdFValue \<Rightarrow> string \<Rightarrow> EMdFValue res" where
  "changeString (kEVString s) newString = Inr (kEVString newString)"
| "changeString v newString = Inl EmdrosException"

text \<open>The integer of an atomic value; other kinds fall into a throwing assertion.\<close>

fun atomic_int :: "EMdFValue \<Rightarrow> int res" where
  "atomic_int (kEVInt i) = Inr i"
| "atomic_int (kEVEnum i) = Inr i"
| "atomic_int (kEVID_D i) = Inr i"
| "atomic_int v = Inl EmdrosException"

fun is_atomic :: "EMdFValue \<Rightarrow> bool" where
  "is_atomic (kEVInt i) = True"
| "is_atomic (kEVEnum i) = True"
| "is_atomic (kEVID_D i) = True"
| "is_atomic v = False"

fun is_ListOfInteger :: "EMdFValue \<Rightarrow> bool" where
  "is_ListOfInteger (kEVListOfInteger l) = True"
| "is_ListOfInteger v = False"

fun is_ListOfID_D :: "EMdFValue \<Rightarrow> bool" where
  "is_ListOfID_D (kEVListOfID_D l) = True"
| "is_ListOfID_D v = False"

text \<open>The member \<open>m_pIntegerList\<close> of the union.\<close>

fun union_list :: "EMdFValue \<Rightarrow> int list res" where
  "union_list (kEVListOfInteger l) = Inr l"
| "union_list (kEVListOfID_D l) = Inr l"
| "union_list v = Inl NullDeref"

text \<open>The two iterators of the comparison of lists; what they leave decides the rest.\<close>

fun equal_lists_loop :: "int list \<Rightarrow> int list \<Rightarrow> bool" where
  "equal_lists_loop (myint # ci) (otherint # ciother) =
     (if myint \<noteq> otherint then False else equal_lists_loop ci ciother)"
| "equal_lists_loop ci ciother \<longleftrightarrow> \<not> it_hasNext ci \<and> \<not> it_hasNext ciother"

primrec list_has_loop :: "int \<Rightarrow> int list \<Rightarrow> bool" where
  "list_has_loop other_value [] = False"
| "list_has_loop other_value (myint # ci) =
     (if myint = other_value then True else list_has_loop other_value ci)"

definition compareListOfIntegerWithOther :: "EMdFValue \<Rightarrow> EMdFValue \<Rightarrow> eComparisonOp \<Rightarrow> bool res" where
  "compareListOfIntegerWithOther me other cop =
     bind_res (ASSERT_THROW (cop = kHas \<or> cop = kIn \<or> cop = kEqual)) (\<lambda>_.
     bind_res (ASSERT_THROW (is_ListOfInteger me \<or> is_ListOfID_D me)) (\<lambda>_.
     bind_res (ASSERT_THROW (((cop = kHas \<or> cop = kIn) \<and> is_atomic other) \<or>
                             (cop = kEqual \<and> (is_ListOfInteger other \<or> is_ListOfID_D me)))) (\<lambda>_.
     bind_res (union_list me) (\<lambda>mine.
       if cop = kEqual
       then bind_res (union_list other) (\<lambda>others. Inr (equal_lists_loop mine others))
       else bind_res (atomic_int other) (\<lambda>other_value. Inr (list_has_loop other_value mine))))))"

fun compareSetOfMonads :: "EMdFValue \<Rightarrow> EMdFValue \<Rightarrow> eComparisonOp \<Rightarrow> bool res" where
  "compareSetOfMonads (kEVSetOfMonads s) (kEVSetOfMonads t) cop =
     (if cop = kEqual then Inr (SetOfMonads_operator_eq s t) else Inl EmdrosException)"
| "compareSetOfMonads (kEVSetOfMonads s) (kEVInt i) cop =
     (if cop = kHas \<or> cop = kIn then Inr (SetOfMonads_isMemberOf s (i32 i)) else Inl EmdrosException)"
| "compareSetOfMonads v w cop = Inl EmdrosException"

definition compare_ints :: "int \<Rightarrow> int \<Rightarrow> eComparisonOp \<Rightarrow> bool res" where
  "compare_ints l r cop =
     (case cop of kEqual \<Rightarrow> Inr (l = r) | kLessThan \<Rightarrow> Inr (l < r) | kGreaterThan \<Rightarrow> Inr (l > r)
      | kNotEqual \<Rightarrow> Inr (l \<noteq> r) | kLessThanOrEqual \<Rightarrow> Inr (l \<le> r) | kGreaterThanOrEqual \<Rightarrow> Inr (l \<ge> r)
      | _ \<Rightarrow> Inl EmdrosException)"

definition compareInt :: "EMdFValue \<Rightarrow> EMdFValue \<Rightarrow> eComparisonOp \<Rightarrow> bool res" where
  "compareInt me other cop =
     bind_res (atomic_int me) (\<lambda>left_value.
       if is_ListOfID_D other \<or> is_ListOfInteger other
       then bind_res (ASSERT_THROW (cop = kIn)) (\<lambda>_. compareListOfIntegerWithOther other me cop)
       else case other of
              kEVSetOfMonads s \<Rightarrow> bind_res (ASSERT_THROW (cop = kIn)) (\<lambda>_. compareSetOfMonads other me cop)
            | _ \<Rightarrow> bind_res (atomic_int other) (\<lambda>right_value. compare_ints left_value right_value cop))"

fun compareString :: "EMdFValue \<Rightarrow> EMdFValue \<Rightarrow> eComparisonOp \<Rightarrow> bool res" where
  "compareString (kEVString s) (kEVString t) cop =
     (case cop of kEqual \<Rightarrow> Inr (s = t) | kLessThan \<Rightarrow> Inr (std_string_less s t)
      | kGreaterThan \<Rightarrow> Inr (std_string_less t s) | kNotEqual \<Rightarrow> Inr (s \<noteq> t)
      | kLessThanOrEqual \<Rightarrow> Inr (\<not> std_string_less t s)
      | kGreaterThanOrEqual \<Rightarrow> Inr (\<not> std_string_less s t)
      | _ \<Rightarrow> Inl EmdrosException)"
| "compareString v w cop = Inl EmdrosException"

definition EMdFValue_compare :: "EMdFValue \<Rightarrow> EMdFValue \<Rightarrow> eComparisonOp \<Rightarrow> bool res" where
  "EMdFValue_compare me other cop =
     (case me of
        kEVInt _ \<Rightarrow> compareInt me other cop
      | kEVEnum _ \<Rightarrow> compareInt me other cop
      | kEVID_D _ \<Rightarrow> compareInt me other cop
      | kEVString _ \<Rightarrow> compareString me other cop
      | kEVListOfInteger _ \<Rightarrow> compareListOfIntegerWithOther me other cop
      | kEVListOfID_D _ \<Rightarrow> compareListOfIntegerWithOther me other cop
      | kEVSetOfMonads _ \<Rightarrow> compareSetOfMonads me other cop)"

fun EMdFValue_toString :: "EMdFValue \<Rightarrow> string" where
  "EMdFValue_toString (kEVInt i) = long2string i"
| "EMdFValue_toString (kEVEnum i) = long2string i"
| "EMdFValue_toString (kEVID_D i) = longlong2string i"
| "EMdFValue_toString (kEVString s) = s"
| "EMdFValue_toString (kEVListOfInteger l) = getDelimitedString l DEFAULT_LIST_DELIMITER"
| "EMdFValue_toString (kEVListOfID_D l) = getDelimitedString l DEFAULT_LIST_DELIMITER"
| "EMdFValue_toString (kEVSetOfMonads s) = SetOfMonads_toString s"

end
