(* ===== verification/EMdFValue_Props.thy ===== *)
theory EMdFValue_Props
  imports EMdFValue SetOfMonads_Props
begin

text \<open>
  What the comparison of feature values decides, on which kinds of values it is defined, and
  the text of lists of integers.
\<close>

section \<open>The loops\<close>

lemma list_has_loop_iff [simp]: "list_has_loop x l \<longleftrightarrow> x \<in> set l"
  by (induction l) auto

lemma equal_lists_loop_iff [simp]: "equal_lists_loop k l \<longleftrightarrow> k = l"
  by (induction k l rule: equal_lists_loop.induct) (auto simp: it_hasNext_def)

lemma copyOther_append [simp]: "ParserList_copyOther l other = l @ other"
  unfolding ParserList_copyOther_def by (induction other arbitrary: l) (simp_all add: ParserList_addValueBack_def)

text \<open>\<open>getLength\<close> returns for the empty list only: no number of turns is enough for another.\<close>

lemma getLength_never_returns: "ParserList_getLength (Suc n) l = (if l = [] then Inr 0 else Inl OutOfFuel)"
proof -
  have "l \<noteq> [] \<Longrightarrow> getLength_loop n l r = Inl OutOfFuel" for n r
    by (induction n arbitrary: r) (auto simp: it_hasNext_def)
  from this[of "Suc n" 0] show ?thesis by (auto simp: ParserList_getLength_def it_hasNext_def simp del: getLength_loop.simps(2))
      (simp add: it_hasNext_def)
qed

lemma isMemberOf_value:
  "som_wf s \<Longrightarrow> SetOfMonads_isMemberOf s m \<longleftrightarrow> m \<in> som_set s"
  by (simp add: SetOfMonads_isMemberOf_def isMemberOf_loop_iff som_wf_def som_set_def)

section \<open>On which kinds a comparison is defined\<close>

fun list_of :: "EMdFValue \<Rightarrow> int list option" where
  "list_of (kEVListOfInteger l) = Some l"
| "list_of (kEVListOfID_D l) = Some l"
| "list_of v = None"

fun int_of_value :: "EMdFValue \<Rightarrow> int option" where
  "int_of_value (kEVInt i) = Some i"
| "int_of_value (kEVEnum i) = Some i"
| "int_of_value (kEVID_D i) = Some i"
| "int_of_value v = None"

definition order_op :: "eComparisonOp \<Rightarrow> bool" where
  "order_op cop \<longleftrightarrow> cop \<notin> {kTilde, kNotTilde, kIn, kHas}"

text \<open>The meaning of the six operators of an order.\<close>

definition by_order :: "('a \<Rightarrow> 'a \<Rightarrow> bool) \<Rightarrow> eComparisonOp \<Rightarrow> 'a \<Rightarrow> 'a \<Rightarrow> bool" where
  "by_order lt cop x y \<longleftrightarrow>
     (cop = kEqual \<and> x = y) \<or> (cop = kNotEqual \<and> x \<noteq> y) \<or> (cop = kLessThan \<and> lt x y) \<or>
     (cop = kGreaterThan \<and> lt y x) \<or> (cop = kLessThanOrEqual \<and> (lt x y \<or> x = y)) \<or>
     (cop = kGreaterThanOrEqual \<and> (lt y x \<or> x = y))"

text \<open>The comparisons that mean something, and what they mean.\<close>

definition comparison_spec :: "EMdFValue \<Rightarrow> EMdFValue \<Rightarrow> eComparisonOp \<Rightarrow> bool option" where
  "comparison_spec v w cop =
     (case (v, w) of
        (kEVString s, kEVString t) \<Rightarrow> if order_op cop then Some (by_order std_string_less cop s t) else None
      | (kEVSetOfMonads s, kEVSetOfMonads t) \<Rightarrow> if cop = kEqual then Some (som_set s = som_set t) else None
      | (kEVSetOfMonads s, kEVInt i) \<Rightarrow> if cop = kHas \<or> cop = kIn then Some (i32 i \<in> som_set s) else None
      | (kEVInt i, kEVSetOfMonads s) \<Rightarrow> if cop = kIn then Some (i32 i \<in> som_set s) else None
      | _ \<Rightarrow>
        (case (int_of_value v, list_of v, int_of_value w, list_of w) of
           (Some i, _, Some j, _) \<Rightarrow> if order_op cop then Some (by_order (<) cop i j) else None
         | (Some i, _, _, Some l) \<Rightarrow> if cop = kIn then Some (i \<in> set l) else None
         | (_, Some l, Some i, _) \<Rightarrow> if cop = kHas \<or> cop = kIn then Some (i \<in> set l) else None
         | (_, Some l, _, Some k) \<Rightarrow> if cop = kEqual \<and> (is_ListOfID_D w \<longrightarrow> is_ListOfID_D v) then Some (l = k) else None
         | _ \<Rightarrow> None))"

fun value_wf :: "EMdFValue \<Rightarrow> bool" where
  "value_wf (kEVSetOfMonads s) = som_wf s"
| "value_wf v = True"

section \<open>The order of strings\<close>

lemma uchar_inj: "uchar c = uchar d \<Longrightarrow> c = d"
  by (metis uchar_def of_char_eq_iff of_nat_eq_iff)

lemma std_string_less_total: "std_string_less s t \<or> s = t \<or> std_string_less t s"
proof -
  have "map uchar s = map uchar t \<longleftrightarrow> s = t" by (simp add: inj_map_eq_map inj_def uchar_inj)
  then show ?thesis using lexordp_linear unfolding std_string_less_def by metis
qed

lemma std_string_less_irrefl: "\<not> std_string_less s s"
  by (simp add: std_string_less_def lexordp_irreflexive')

lemma std_string_less_antisym: "std_string_less s t \<Longrightarrow> \<not> std_string_less t s"
  by (auto simp: std_string_less_def dest: lexordp_antisym)

lemma string_order:
  "\<not> std_string_less t s \<longleftrightarrow> std_string_less s t \<or> s = t"
  using std_string_less_total std_string_less_irrefl std_string_less_antisym by blast

lemma compare_ints_spec:
  "compare_ints i j cop = (if order_op cop then Inr (by_order (<) cop i j) else Inl EmdrosException)"
  by (cases cop) (auto simp: compare_ints_def order_op_def by_order_def)

lemma compareString_spec:
  "compareString (kEVString s) (kEVString t) cop =
     (if order_op cop then Inr (by_order std_string_less cop s t) else Inl EmdrosException)"
  by (cases cop) (auto simp: order_op_def by_order_def string_order)

lemma compare_decided:
  assumes "value_wf v" "value_wf w"
  shows "EMdFValue_compare v w cop =
    (case comparison_spec v w cop of
       Some b \<Rightarrow> Inr b
     | None \<Rightarrow> Inl (if is_ListOfID_D v \<and> cop = kEqual then NullDeref else EmdrosException))"
proof -
  note defs = EMdFValue_compare_def compareInt_def compareListOfIntegerWithOther_def comparison_spec_def
    ASSERT_THROW_def ASSERT_THROW_X_def compare_ints_spec compareString_spec order_op_def
  show ?thesis
  proof (cases v)
    case (kEVSetOfMonads s)
    then show ?thesis using assms by (cases w) (simp_all add: defs operator_eq_iff isMemberOf_value)
  next
    case (kEVInt i)
    then show ?thesis using assms by (cases w) (simp_all add: defs isMemberOf_value)
  next
    case (kEVEnum i)
    then show ?thesis by (cases w) (simp_all add: defs)
  next
    case (kEVID_D i)
    then show ?thesis by (cases w) (simp_all add: defs)
  next
    case (kEVString t)
    then show ?thesis by (cases w) (simp_all add: defs del: compareString.simps(1))
  next
    case (kEVListOfInteger l)
    then show ?thesis by (cases w; cases cop) (simp_all add: defs)
  next
    case (kEVListOfID_D l)
    then show ?thesis by (cases w; cases cop) (simp_all add: defs)
  qed
qed

section \<open>The claims\<close>

text \<open>C36: The comparison of two feature values is decided exactly: for the kinds and operators
  that mean something it returns what they mean (the orders of integers and of strings, membership
  in lists and sets of monads, equality of lists and of sets), and for all others it ends in a
  throwing assertion (a list of integers against a list of ids among them), with one exception: comparing a list of ids for equality with a value that
  is not a list reads the wrong member of the union.\<close>

theorem value_comparison_exact:
  assumes "value_wf v" "value_wf w"
  shows "EMdFValue_compare v w cop =
    (case comparison_spec v w cop of
       Some b \<Rightarrow> Inr b
     | None \<Rightarrow> Inl (if is_ListOfID_D v \<and> cop = kEqual then NullDeref else EmdrosException))"
  using compare_decided[OF assms] .

theorem value_comparison_exact_witness:
  "EMdFValue_compare (kEVInt 3) (kEVListOfInteger [1, 3]) kIn = Inr True"
  using value_comparison_exact[of "kEVInt 3" "kEVListOfInteger [1, 3]" kIn] by (simp add: comparison_spec_def)

end
