(* ===== verification/Inst.thy ===== *)
theory Inst
  imports EMdFValue FastSetOfMonads
begin

text \<open>
  The sets of objects a query works on, after \<^verbatim>\<open>EMdF/inst_object.cpp\<close>,
  \<^verbatim>\<open>EMdF/inst.cpp\<close> and \<^verbatim>\<open>include/inst.h\<close>: objects, the skip list that orders them by first monad and
  id, its generator of pseudo-random levels, and the classes \<open>InstContents\<close> and \<open>Inst\<close> over
  it. The nodes of the skip list live in an explicit heap; a node holds as many forward pointers
  as its level asks for; the head node has one more that is never set, which the model leaves
  out. Address 0 is the null pointer.
\<close>

section \<open>Objects\<close>

type_synonym id_d_t = int

datatype inst_monads = union_is_mlast monad_m | union_is_pMonads SetOfMonads

record InstObject =
  io_id_d :: id_d_t
  io_first :: monad_m
  io_u :: inst_monads
  io_features :: "EMdFValue list option"

definition InstObject_new :: "id_d_t \<Rightarrow> monad_m \<Rightarrow> monad_m \<Rightarrow> EMdFValue list option \<Rightarrow> InstObject" where
  "InstObject_new id_d first_monad last_monad feature_value_arr =
     \<lparr>io_id_d = id_d, io_first = first_monad, io_u = union_is_mlast last_monad, io_features = feature_value_arr\<rparr>"

definition InstObject_new_som :: "id_d_t \<Rightarrow> SetOfMonads \<Rightarrow> EMdFValue list option \<Rightarrow> InstObject" where
  "InstObject_new_som id_d som feature_value_arr =
     \<lparr>io_id_d = id_d, io_first = m_first som, io_u = union_is_pMonads som, io_features = feature_value_arr\<rparr>"

definition InstObject_last :: "InstObject \<Rightarrow> monad_m" where
  "InstObject_last o1 = (case io_u o1 of union_is_mlast l \<Rightarrow> l | union_is_pMonads s \<Rightarrow> m_last s)"

text \<open>The array of features may be the null pointer; its size is not checked.\<close>

definition InstObject_getFeature :: "InstObject \<Rightarrow> nat \<Rightarrow> EMdFValue res" where
  "InstObject_getFeature o1 index =
     (case io_features o1 of
        None \<Rightarrow> Inl EmdrosException
      | Some arr \<Rightarrow> if index < length arr then Inr (arr ! index) else Inl NullDeref)"

definition InstObject_changeString :: "InstObject \<Rightarrow> nat \<Rightarrow> string \<Rightarrow> InstObject res" where
  "InstObject_changeString o1 index newString =
     (case io_features o1 of
        None \<Rightarrow> Inl EmdrosException
      | Some arr \<Rightarrow>
          if index < length arr
          then bind_res (changeString (arr ! index) newString) (\<lambda>v. Inr (o1\<lparr>io_features := Some (arr[index := v])\<rparr>))
          else Inl NullDeref)"

definition InstObject_addMse :: "InstObject \<Rightarrow> monad_m \<Rightarrow> monad_m \<Rightarrow> InstObject res" where
  "InstObject_addMse o1 first_monad last_monad =
     bind_res (case io_u o1 of
         union_is_mlast l \<Rightarrow>
           bind_res (SetOfMonads_range (io_first o1) l) (\<lambda>s. SetOfMonads_add_range s first_monad last_monad)
       | union_is_pMonads s \<Rightarrow> SetOfMonads_add_range s first_monad last_monad) (\<lambda>s.
     Inr (o1\<lparr>io_u := union_is_pMonads s,
             io_first := (if io_first o1 > first_monad then first_monad else io_first o1)\<rparr>))"

definition InstObject_somHasOnlyOneMSE :: "InstObject \<Rightarrow> bool" where
  "InstObject_somHasOnlyOneMSE o1 =
     (case io_u o1 of union_is_pMonads s \<Rightarrow> SetOfMonads_hasOnlyOneMSE s | union_is_mlast _ \<Rightarrow> True)"

text \<open>\<open>getMonads\<close> fills a set that is empty upon calling.\<close>

definition InstObject_getMonads :: "InstObject \<Rightarrow> SetOfMonads res" where
  "InstObject_getMonads o1 =
     (case io_u o1 of
        union_is_pMonads s \<Rightarrow> Inr s
      | union_is_mlast l \<Rightarrow> SetOfMonads_add_range SetOfMonads_empty (io_first o1) l)"

section \<open>The skip list\<close>

definition MAX_NUMBER_OF_LEVELS :: nat where "MAX_NUMBER_OF_LEVELS = 18"
definition MAX_LEVEL :: nat where "MAX_LEVEL = MAX_NUMBER_OF_LEVELS - 1"
definition BITS_TO_USE_FROM_RANDOM :: int where "BITS_TO_USE_FROM_RANDOM = 30"

record SkipListNode =
  sn_value :: "InstObject option"
  sn_forward :: "nat list"

record SkipList =
  sl_level :: nat
  sl_NIL :: nat
  sl_head :: nat
  sl_randomsLeft :: int
  sl_randomBits :: int
  sl_rand :: int
  sl_heap :: "nat \<Rightarrow> SkipListNode option"
  sl_next :: nat

text \<open>The generator: \<open>unsigned long\<close> has 64 bits, its low half goes into an \<open>int\<close>.\<close>

definition sl_random :: "int \<Rightarrow> int" where
  "sl_random r = (r * 1103515245 + 12345) mod 2 ^ 64"

definition NIL_object :: InstObject where
  "NIL_object = InstObject_new 0 0x7fffffff 0x7fffffff None"

definition SkipList_new :: SkipList where
  "SkipList_new =
     (let r = sl_random 278081371
      in \<lparr>sl_level = 0, sl_NIL = 1, sl_head = 2, sl_randomsLeft = BITS_TO_USE_FROM_RANDOM div 3,
          sl_randomBits = i32 r, sl_rand = r,
          sl_heap = (\<lambda>_. None)
            (1 \<mapsto> \<lparr>sn_value = Some NIL_object, sn_forward = [0]\<rparr>,
             2 \<mapsto> \<lparr>sn_value = None, sn_forward = replicate MAX_NUMBER_OF_LEVELS 1\<rparr>),
          sl_next = 3\<rparr>)"

definition sl_node :: "SkipList \<Rightarrow> nat \<Rightarrow> SkipListNode res" where
  "sl_node l p = (case sl_heap l p of None \<Rightarrow> Inl NullDeref | Some n \<Rightarrow> Inr n)"

definition sl_forward :: "SkipList \<Rightarrow> nat \<Rightarrow> nat \<Rightarrow> nat res" where
  "sl_forward l p k =
     bind_res (sl_node l p) (\<lambda>n. if k < length (sn_forward n) then Inr (sn_forward n ! k) else Inl NullDeref)"

definition sl_value :: "SkipList \<Rightarrow> nat \<Rightarrow> InstObject res" where
  "sl_value l p = bind_res (sl_node l p) (\<lambda>n. case sn_value n of None \<Rightarrow> Inl NullDeref | Some v \<Rightarrow> Inr v)"

text \<open>
  \<open>while (q = p->m_forward[k], before(q)) p = q;\<close> with the last values of \<open>p\<close> and \<open>q\<close>; a
  level has fewer nodes than addresses were given out.
\<close>

fun walk_level :: "nat \<Rightarrow> (InstObject \<Rightarrow> bool) \<Rightarrow> SkipList \<Rightarrow> nat \<Rightarrow> nat \<Rightarrow> (nat \<times> nat) res" where
  "walk_level 0 before l k p = Inl OutOfFuel"
| "walk_level (Suc n) before l k p =
     bind_res (sl_forward l p k) (\<lambda>q.
     bind_res (sl_value l q) (\<lambda>v.
       if before v then walk_level n before l k q else Inr (p, q)))"

text \<open>The loop over the levels, with the array \<open>update\<close>, lowest level first.\<close>

fun walk_down :: "(InstObject \<Rightarrow> bool) \<Rightarrow> SkipList \<Rightarrow> nat \<Rightarrow> nat \<Rightarrow> nat list \<Rightarrow> (nat list \<times> nat) res" where
  "walk_down before l 0 p update =
     bind_res (walk_level (sl_next l) before l 0 p) (\<lambda>(p, q). Inr (p # update, q))"
| "walk_down before l (Suc k) p update =
     bind_res (walk_level (sl_next l) before l (Suc k) p) (\<lambda>(p, q). walk_down before l k p (p # update))"

definition cmp_SkipListNode :: "monad_m \<Rightarrow> InstObject \<Rightarrow> InstObject \<Rightarrow> bool" where
  "cmp_SkipListNode key pValue q =
     (let node_first = io_first q
      in if node_first < key then True else if node_first > key then False
         else io_id_d q < io_id_d pValue)"

text \<open>\<open>randomLevel\<close>: the loop \<open>do ... while (!b)\<close>.\<close>

fun randomLevel_loop :: "nat \<Rightarrow> SkipList \<Rightarrow> nat \<Rightarrow> (nat \<times> SkipList) res" where
  "randomLevel_loop 0 l level = Inl OutOfFuel"
| "randomLevel_loop (Suc n) l level =
     (let b = sl_randomBits l mod 2;
          level1 = (if b = 0 then level + 1 else level);
          l1 = l\<lparr>sl_randomBits := sl_randomBits l div 2, sl_randomsLeft := sl_randomsLeft l - 1\<rparr>;
          l2 = (if sl_randomsLeft l1 = 0
                then l1\<lparr>sl_rand := sl_random (sl_rand l1), sl_randomBits := i32 (sl_random (sl_rand l1)),
                        sl_randomsLeft := BITS_TO_USE_FROM_RANDOM div 1\<rparr>
                else l1)
      in if b = 0 then randomLevel_loop n l2 level1 else Inr (level1, l2))"

definition randomLevel :: "SkipList \<Rightarrow> (nat \<times> SkipList) res" where
  "randomLevel l =
     bind_res (randomLevel_loop 64 l 0) (\<lambda>(level, l1).
       Inr (if level > MAX_LEVEL then MAX_LEVEL else level, l1))"

definition sl_set_forward :: "SkipList \<Rightarrow> nat \<Rightarrow> nat \<Rightarrow> nat \<Rightarrow> SkipList res" where
  "sl_set_forward l p k q =
     bind_res (sl_node l p) (\<lambda>n.
       if k < length (sn_forward n)
       then Inr (l\<lparr>sl_heap := (sl_heap l)(p \<mapsto> n\<lparr>sn_forward := (sn_forward n)[k := q]\<rparr>)\<rparr>)
       else Inl NullDeref)"

definition link_level :: "SkipList \<Rightarrow> nat list \<Rightarrow> nat \<Rightarrow> nat \<Rightarrow> SkipList res" where
  "link_level l update q k =
     (if k < length update
      then bind_res (sl_forward l (update ! k) k) (\<lambda>f.
           bind_res (sl_set_forward l q k f) (\<lambda>l1. sl_set_forward l1 (update ! k) k q))
      else Inl NullDeref)"

fun link_down :: "SkipList \<Rightarrow> nat list \<Rightarrow> nat \<Rightarrow> nat \<Rightarrow> SkipList res" where
  "link_down l update q 0 = link_level l update q 0"
| "link_down l update q (Suc k) = bind_res (link_level l update q (Suc k)) (\<lambda>l1. link_down l1 update q k)"

text \<open>\<open>NEW_CSKIPLISTNODE(k)\<close> has room for \<open>k + 1\<close> forward pointers; what they hold is not read.\<close>

definition new_skip_node :: "SkipList \<Rightarrow> nat \<Rightarrow> InstObject \<Rightarrow> nat \<times> SkipList" where
  "new_skip_node l k pValue =
     (sl_next l,
      l\<lparr>sl_heap := (sl_heap l)(sl_next l \<mapsto> \<lparr>sn_value = Some pValue, sn_forward = replicate (k + 1) 0\<rparr>),
        sl_next := sl_next l + 1\<rparr>)"

definition SkipList_insert :: "SkipList \<Rightarrow> monad_m \<Rightarrow> InstObject \<Rightarrow> SkipList res" where
  "SkipList_insert l key pValue =
     bind_res (walk_down (cmp_SkipListNode key pValue) l (sl_level l) (sl_head l) []) (\<lambda>(update, _).
     bind_res (randomLevel l) (\<lambda>(k0, l1).
       let (k, update1, l2) = (if k0 > sl_level l1
             then (sl_level l1 + 1, update @ [sl_head l1], l1\<lparr>sl_level := sl_level l1 + 1\<rparr>)
             else (k0, update, l1));
           (q, l3) = new_skip_node l2 k pValue
       in link_down l3 update1 q k))"

text \<open>An iterator is the address it stands at.\<close>

definition SkipList_search :: "SkipList \<Rightarrow> monad_m \<Rightarrow> nat res" where
  "SkipList_search l key =
     bind_res (walk_down (\<lambda>v. io_first v < key) l (sl_level l) (sl_head l) []) (\<lambda>(_, q). Inr q)"

definition SkipList_begin :: "SkipList \<Rightarrow> nat res" where
  "SkipList_begin l = sl_forward l (sl_head l) 0"

definition sit_hasNext :: "SkipList \<Rightarrow> nat \<Rightarrow> bool" where
  "sit_hasNext l i \<longleftrightarrow> i \<noteq> sl_NIL l"

definition sit_next :: "SkipList \<Rightarrow> nat \<Rightarrow> (InstObject \<times> nat) res" where
  "sit_next l i =
     bind_res (ASSERT_THROW (sit_hasNext l i)) (\<lambda>_.
     bind_res (sl_value l i) (\<lambda>v. bind_res (sl_forward l i 0) (\<lambda>j. Inr (v, j))))"

definition sit_current :: "SkipList \<Rightarrow> nat \<Rightarrow> InstObject res" where
  "sit_current l i = sl_value l i"

definition sit_currentKey :: "SkipList \<Rightarrow> nat \<Rightarrow> monad_m res" where
  "sit_currentKey l i = bind_res (sl_value l i) (\<lambda>v. Inr (io_first v))"

fun advance_key_loop :: "nat \<Rightarrow> SkipList \<Rightarrow> monad_m \<Rightarrow> nat \<Rightarrow> (monad_m \<times> nat) res" where
  "advance_key_loop 0 l current_monad i = Inl OutOfFuel"
| "advance_key_loop (Suc n) l current_monad i =
     bind_res (sl_forward l i 0) (\<lambda>j.
       if j \<noteq> sl_NIL l
       then bind_res (sit_currentKey l j) (\<lambda>first1.
              if first1 > current_monad then Inr (first1, j) else advance_key_loop n l current_monad j)
       else Inr (0, j))"

definition sit_advanceToNextKey :: "SkipList \<Rightarrow> nat \<Rightarrow> (monad_m \<times> nat) res" where
  "sit_advanceToNextKey l i =
     bind_res (ASSERT_THROW (i \<noteq> sl_NIL l)) (\<lambda>_.
     bind_res (sit_currentKey l i) (\<lambda>current_monad. advance_key_loop (sl_next l) l current_monad i))"

fun equal_range_loop :: "nat \<Rightarrow> SkipList \<Rightarrow> monad_m \<Rightarrow> nat \<Rightarrow> nat res" where
  "equal_range_loop 0 l key i = Inl OutOfFuel"
| "equal_range_loop (Suc n) l key i =
     (if sit_hasNext l i
      then bind_res (sit_currentKey l i) (\<lambda>k.
             if k = key then bind_res (sit_next l i) (\<lambda>(_, j). equal_range_loop n l key j) else Inr i)
      else Inr i)"

definition SkipList_equal_range :: "SkipList \<Rightarrow> monad_m \<Rightarrow> (bool \<times> nat \<times> nat) res" where
  "SkipList_equal_range l key =
     bind_res (SkipList_search l key) (\<lambda>cibegin.
       if \<not> sit_hasNext l cibegin then Inr (False, cibegin, sl_NIL l)
       else bind_res (sit_currentKey l cibegin) (\<lambda>k.
              if k \<noteq> key then Inr (False, sl_NIL l, sl_NIL l)
              else bind_res (equal_range_loop (sl_next l) l key cibegin) (\<lambda>ciend. Inr (True, cibegin, ciend))))"

fun hasObject_loop :: "nat \<Rightarrow> SkipList \<Rightarrow> monad_m \<Rightarrow> id_d_t \<Rightarrow> nat \<Rightarrow> bool res" where
  "hasObject_loop 0 l key object_id_d i = Inl OutOfFuel"
| "hasObject_loop (Suc n) l key object_id_d i =
     (if sit_hasNext l i
      then bind_res (sit_currentKey l i) (\<lambda>k.
             if k = key
             then bind_res (sit_next l i) (\<lambda>(v, j).
                    if io_id_d v = object_id_d then Inr True else hasObject_loop n l key object_id_d j)
             else Inr False)
      else Inr False)"

definition SkipList_hasObject :: "SkipList \<Rightarrow> monad_m \<Rightarrow> id_d_t \<Rightarrow> bool res" where
  "SkipList_hasObject l key object_id_d =
     bind_res (SkipList_search l key) (\<lambda>cibegin.
       if \<not> sit_hasNext l cibegin then Inr False
       else bind_res (sit_currentKey l cibegin) (\<lambda>k.
              if k \<noteq> key then Inr False
              else hasObject_loop (sl_next l) l key object_id_d cibegin))"

text \<open>\<open>purge\<close> walks over the nodes, whose destructors run, and empties the head.\<close>

fun purge_loop :: "nat \<Rightarrow> SkipList \<Rightarrow> nat \<Rightarrow> unit res" where
  "purge_loop 0 l p = Inl OutOfFuel"
| "purge_loop (Suc n) l p =
     (if p \<noteq> sl_NIL l
      then bind_res (sl_forward l p 0) (\<lambda>q. bind_res (sl_value l p) (\<lambda>_. purge_loop n l q))
      else Inr ())"

definition SkipList_purge :: "SkipList \<Rightarrow> SkipList res" where
  "SkipList_purge l =
     bind_res (sl_forward l (sl_head l) 0) (\<lambda>p.
     bind_res (purge_loop (sl_next l) l p) (\<lambda>_.
     bind_res (sl_node l (sl_head l)) (\<lambda>h.
       Inr (l\<lparr>sl_heap := (sl_heap l)(sl_head l \<mapsto>
                h\<lparr>sn_forward := replicate MAX_NUMBER_OF_LEVELS (sl_NIL l) @ drop MAX_NUMBER_OF_LEVELS (sn_forward h)\<rparr>),
              sl_level := 0\<rparr>))))"

section \<open>Inst\<close>

record InstContents =
  ic_sl :: SkipList
  ic_min_monad :: monad_m
  ic_max_monad :: monad_m
  ic_is_frozen :: bool
  ic_is_aggregate :: bool

definition InstContents_new :: InstContents where
  "InstContents_new =
     \<lparr>ic_sl = SkipList_new, ic_min_monad = MAX_MONAD, ic_max_monad = 0, ic_is_frozen = False,
      ic_is_aggregate = False\<rparr>"

definition InstContents_addObject ::
  "InstContents \<Rightarrow> InstObject \<Rightarrow> monad_m \<Rightarrow> monad_m \<Rightarrow> InstContents res" where
  "InstContents_addObject c pObj first_monad last_monad =
     bind_res (ASSERT_THROW (\<not> ic_is_frozen c)) (\<lambda>_.
     bind_res (SkipList_insert (ic_sl c) first_monad pObj) (\<lambda>sl.
       Inr (c\<lparr>ic_min_monad := (if ic_min_monad c > first_monad then first_monad else ic_min_monad c),
              ic_max_monad := (if ic_max_monad c < last_monad then last_monad else ic_max_monad c),
              ic_sl := sl\<rparr>)))"

definition InstContents_fillingIsDone :: "InstContents \<Rightarrow> InstContents" where
  "InstContents_fillingIsDone c = c\<lparr>ic_is_frozen := True\<rparr>"

definition InstContents_setIsAggregate :: "InstContents \<Rightarrow> bool \<Rightarrow> InstContents" where
  "InstContents_setIsAggregate c b = c\<lparr>ic_is_aggregate := b\<rparr>"

definition InstContents_bigUnion :: "InstContents \<Rightarrow> FastSetOfMonads res" where
  "InstContents_bigUnion c =
     (if \<not> (ic_min_monad c = MAX_MONAD \<and> ic_max_monad c = 0)
      then FastSetOfMonads_add_range FastSetOfMonads_empty (ic_min_monad c) (ic_max_monad c)
      else Inr FastSetOfMonads_empty)"

fun almostRealBigUnion_loop :: "nat \<Rightarrow> SkipList \<Rightarrow> nat \<Rightarrow> FastSetOfMonads \<Rightarrow> FastSetOfMonads res" where
  "almostRealBigUnion_loop 0 l i result = Inl OutOfFuel"
| "almostRealBigUnion_loop (Suc n) l i result =
     (if sit_hasNext l i
      then bind_res (sit_next l i) (\<lambda>(v, j).
           bind_res (FastSetOfMonads_add_range result (io_first v) (InstObject_last v)) (\<lambda>r.
             almostRealBigUnion_loop n l j r))
      else Inr result)"

definition InstContents_almostRealBigUnion :: "InstContents \<Rightarrow> FastSetOfMonads res" where
  "InstContents_almostRealBigUnion c =
     bind_res (SkipList_begin (ic_sl c)) (\<lambda>i.
       almostRealBigUnion_loop (sl_next (ic_sl c)) (ic_sl c) i FastSetOfMonads_empty)"

definition InstContents_objectsAtSm :: "InstContents \<Rightarrow> monad_m \<Rightarrow> nat res" where
  "InstContents_objectsAtSm c Sm =
     bind_res (SkipList_search (ic_sl c) Sm) (\<lambda>ci1.
     bind_res (sit_currentKey (ic_sl c) ci1) (\<lambda>k.
       Inr (if k \<noteq> Sm then sl_NIL (ic_sl c) else ci1)))"

record Inst =
  in_first_monad :: monad_m
  in_last_monad :: monad_m
  in_contents :: InstContents

definition Inst_set_current_universe :: "Inst \<Rightarrow> SetOfMonads \<Rightarrow> Inst" where
  "Inst_set_current_universe i universe = i\<lparr>in_first_monad := m_first universe, in_last_monad := m_last universe\<rparr>"

definition Inst_begin :: "Inst \<Rightarrow> nat res" where
  "Inst_begin i = SkipList_search (ic_sl (in_contents i)) (in_first_monad i)"

definition Inst_nextAtHigherKey :: "Inst \<Rightarrow> nat \<Rightarrow> nat res" where
  "Inst_nextAtHigherKey i ci =
     (let l = ic_sl (in_contents i)
      in if \<not> sit_hasNext l ci then Inr ci
         else bind_res (sit_advanceToNextKey l ci) (\<lambda>(first1, ci1).
                Inr (if first1 > in_last_monad i then sl_NIL l else ci1)))"

end
