(* ===== verification/Inst_Props.thy ===== *)
theory Inst_Props
  imports Inst FastSetOfMonads_Props SetOfMonads_Props "HOL-Library.Product_Lexorder"
begin

text \<open>
  The skip list refines an ordered list of objects: insertion, search and the iterators, for
  whatever levels the generator gives, and the generator always gives one.
\<close>

section \<open>The generator of levels\<close>

lemma sl_random_parity: "sl_random r mod 2 = (r + 1) mod 2"
proof -
  have "(2 :: int) dvd 2 ^ 64" by simp
  then have "sl_random r mod 2 = (r * 1103515245 + 12345) mod 2"
    unfolding sl_random_def by (rule mod_mod_cancel)
  also have "\<dots> = (r + 1) mod 2" by presburger
  finally show ?thesis .
qed

lemma i32_parity: "i32 r mod 2 = r mod 2"
proof -
  have "(2 :: int) dvd 2 ^ 32" by simp
  then have "(r + 2 ^ 31) mod 2 ^ 32 mod 2 = (r + 2 ^ 31) mod 2" by (rule mod_mod_cancel)
  moreover have "(r + 2 ^ 31) mod 2 = r mod 2" "(x - 2 ^ 31) mod 2 = x mod 2" for x :: int
    by (simp, presburger)+
  ultimately show ?thesis unfolding i32_def by simp
qed

definition rand_ok :: "SkipList \<Rightarrow> bool" where
  "rand_ok l \<longleftrightarrow> 1 \<le> sl_randomsLeft l \<and> sl_randomsLeft l \<le> 30"

text \<open>Only the generator's fields change.\<close>

definition same_but_random :: "SkipList \<Rightarrow> SkipList \<Rightarrow> bool" where
  "same_but_random l l' \<longleftrightarrow>
     l' = l\<lparr>sl_rand := sl_rand l', sl_randomBits := sl_randomBits l', sl_randomsLeft := sl_randomsLeft l'\<rparr>"

lemma same_but_random_simps [simp]:
  "same_but_random l l"
  "same_but_random l (l'\<lparr>sl_rand := a\<rparr>) = same_but_random l l'"
  "same_but_random l (l'\<lparr>sl_randomBits := b\<rparr>) = same_but_random l l'"
  "same_but_random l (l'\<lparr>sl_randomsLeft := c\<rparr>) = same_but_random l l'"
  by (cases l; cases l'; auto simp: same_but_random_def)+

lemma same_but_random_from [simp]:
  "same_but_random (l\<lparr>sl_rand := a\<rparr>) l' = same_but_random l l'"
  "same_but_random (l\<lparr>sl_randomBits := b\<rparr>) l' = same_but_random l l'"
  "same_but_random (l\<lparr>sl_randomsLeft := c\<rparr>) l' = same_but_random l l'"
  by (cases l; cases l'; auto simp: same_but_random_def)+

lemma same_but_random_trans: "same_but_random a b \<Longrightarrow> same_but_random b c \<Longrightarrow> same_but_random a c"
  by (cases a; cases b; cases c) (auto simp: same_but_random_def)

text \<open>
  A draw ends at the first odd bit; the bits after a refill start odd at least every second
  time, so 31 bits past the next refill are enough.
\<close>

lemma randomLevel_loop_returns:
  assumes "rand_ok l"
    "(if sl_rand l mod 2 = 0 then sl_randomsLeft l + 1 else sl_randomsLeft l + 31) \<le> int n"
  shows "returns (randomLevel_loop n l level) (\<lambda>(k, l'). rand_ok l' \<and> same_but_random l l')"
  using assms
proof (induction n arbitrary: l level)
  case 0
  then show ?case by (auto simp: rand_ok_def split: if_splits)
next
  case (Suc n)
  let ?b = "sl_randomBits l mod 2"
  let ?l1 = "l\<lparr>sl_randomBits := sl_randomBits l div 2, sl_randomsLeft := sl_randomsLeft l - 1\<rparr>"
  let ?r = "sl_random (sl_rand l)"
  let ?l2 = "?l1\<lparr>sl_rand := ?r, sl_randomBits := i32 ?r, sl_randomsLeft := 30\<rparr>"
  show ?case
  proof (cases "sl_randomsLeft l - 1 = 0")
    case False
    then have "rand_ok ?l1" using Suc.prems by (auto simp: rand_ok_def)
    moreover have "(if sl_rand ?l1 mod 2 = 0 then sl_randomsLeft ?l1 + 1 else sl_randomsLeft ?l1 + 31) \<le> int n"
      using Suc.prems by (auto split: if_splits)
    ultimately have "returns (randomLevel_loop n ?l1 level') (\<lambda>(k, l'). rand_ok l' \<and> same_but_random ?l1 l')" for level'
      by (rule Suc.IH)
    then show ?thesis using False \<open>rand_ok ?l1\<close>
      by (auto simp: Let_def BITS_TO_USE_FROM_RANDOM_def split: if_splits)
  next
    case True
    then have ok: "rand_ok ?l2" by (simp add: rand_ok_def)
    have "returns (randomLevel_loop n ?l2 level') (\<lambda>(k, l'). rand_ok l' \<and> same_but_random ?l2 l')"
      if "sl_randomBits l mod 2 = 0" for level'
    proof (cases "sl_rand l mod 2 = 0")
      case odd: False
      then have "?r mod 2 = 0" unfolding sl_random_parity by presburger
      then show ?thesis using Suc.prems(2) odd True by (intro Suc.IH ok) simp
    next
      case even: True
      then have "?r mod 2 = 1" unfolding sl_random_parity by presburger
      then have o: "i32 ?r mod 2 = 1" by (simp add: i32_parity)
      obtain m where "n = Suc m" using Suc.prems(2) even True by (cases n) auto
      then show ?thesis using o by (simp add: Let_def rand_ok_def BITS_TO_USE_FROM_RANDOM_def)
    qed
    then show ?thesis using True ok
      by (auto simp: Let_def BITS_TO_USE_FROM_RANDOM_def split: if_splits)
  qed
qed

lemma randomLevel_returns:
  assumes "rand_ok l"
  shows "returns (randomLevel l) (\<lambda>(k, l'). k \<le> MAX_LEVEL \<and> rand_ok l' \<and> same_but_random l l')"
proof -
  have "(if sl_rand l mod 2 = 0 then sl_randomsLeft l + 1 else sl_randomsLeft l + 31) \<le> int 64"
    using assms by (simp add: rand_ok_def)
  then show ?thesis
    using randomLevel_loop_returns[OF assms, of 64 0]
    by (auto simp: randomLevel_def returns_iff simp del: randomLevel_loop.simps)
qed

section \<open>The nodes\<close>

definition sl_height :: "SkipList \<Rightarrow> nat \<Rightarrow> nat" where
  "sl_height l a = (case sl_heap l a of None \<Rightarrow> 0 | Some n \<Rightarrow> length (sn_forward n))"

definition sl_obj :: "SkipList \<Rightarrow> nat \<Rightarrow> InstObject" where
  "sl_obj l a = (case sl_value l a of Inl _ \<Rightarrow> NIL_object | Inr v \<Rightarrow> v)"

definition lvl :: "SkipList \<Rightarrow> nat \<Rightarrow> nat list \<Rightarrow> nat list" where
  "lvl l k as = filter (\<lambda>a. k < sl_height l a) as"

fun links :: "SkipList \<Rightarrow> nat \<Rightarrow> nat \<Rightarrow> nat list \<Rightarrow> bool" where
  "links l k p [] \<longleftrightarrow> sl_forward l p k = Inr (sl_NIL l)"
| "links l k p (x # xs) \<longleftrightarrow> sl_forward l p k = Inr x \<and> links l k x xs"

definition obj_le :: "InstObject \<Rightarrow> InstObject \<Rightarrow> bool" where
  "obj_le v w \<longleftrightarrow> io_first v < io_first w \<or> (io_first v = io_first w \<and> io_id_d v \<le> io_id_d w)"

definition sl_rep :: "SkipList \<Rightarrow> nat list \<Rightarrow> bool" where
  "sl_rep l as \<longleftrightarrow>
     rand_ok l \<and> distinct (sl_NIL l # sl_head l # as) \<and> (\<forall>a\<in>set (sl_NIL l # sl_head l # as). a < sl_next l) \<and>
     sl_value l (sl_NIL l) = Inr NIL_object \<and>
     (\<forall>a\<in>set as. sl_value l a = Inr (sl_obj l a) \<and> io_first (sl_obj l a) < 0x7fffffff) \<and>
     sl_level l \<le> MAX_LEVEL \<and> sl_height l (sl_head l) = MAX_NUMBER_OF_LEVELS \<and>
     (\<forall>a\<in>set as. 0 < sl_height l a \<and> sl_height l a \<le> Suc (sl_level l)) \<and>
     (\<forall>k < MAX_NUMBER_OF_LEVELS. links l k (sl_head l) (lvl l k as)) \<and>
     sorted_wrt (\<lambda>a b. obj_le (sl_obj l a) (sl_obj l b)) as"

lemma obj_le_trans: "obj_le u v \<Longrightarrow> obj_le v w \<Longrightarrow> obj_le u w"
  by (auto simp: obj_le_def)

lemma lvl_append [simp]: "lvl l k (xs @ ys) = lvl l k xs @ lvl l k ys"
  and lvl_Nil [simp]: "lvl l k [] = []"
  by (simp_all add: lvl_def)

lemma links_append: "links l k p (A @ B) \<Longrightarrow> links l k (last (p # A)) B"
  by (induction A arbitrary: p) auto

lemma rep_fuel: "sl_rep l as \<Longrightarrow> length as + 2 \<le> sl_next l"
proof -
  assume "sl_rep l as"
  then have "distinct (sl_NIL l # sl_head l # as)" "set (sl_NIL l # sl_head l # as) \<subseteq> {..<sl_next l}"
    by (auto simp: sl_rep_def)
  then show ?thesis
    using card_mono[of "{..<sl_next l}" "set (sl_NIL l # sl_head l # as)"] distinct_card by fastforce
qed

lemma lvl_0: "sl_rep l as \<Longrightarrow> set ys \<subseteq> set as \<Longrightarrow> lvl l 0 ys = ys"
  by (auto simp: lvl_def sl_rep_def filter_id_conv)

section \<open>Walking\<close>

lemma walk_level_ok:
  assumes "links l k p (A @ B)" "length A < n"
    "\<forall>a\<in>set (A @ B). sl_value l a = Inr (sl_obj l a)" "sl_value l (sl_NIL l) = Inr NIL_object"
    "\<forall>a\<in>set A. before (sl_obj l a)" "\<forall>b\<in>set B. \<not> before (sl_obj l b)" "\<not> before NIL_object"
  shows "walk_level n before l k p = Inr (last (p # A), hd (B @ [sl_NIL l]))"
  using assms
proof (induction A arbitrary: p n)
  case Nil
  then show ?case by (cases n; cases B) auto
next
  case (Cons a A)
  then obtain m where "n = Suc m" by (cases n) auto
  then show ?case using Cons.IH[of a m] Cons.prems by auto
qed

text \<open>Where the walk stands above level \<open>k\<close>: at the head or at a node that reaches this level.\<close>

definition stands :: "SkipList \<Rightarrow> nat list \<Rightarrow> nat \<Rightarrow> nat \<Rightarrow> bool" where
  "stands l xs k p \<longleftrightarrow> p = sl_head l \<or> (p \<in> set xs \<and> k < sl_height l p)"

lemma stands_split:
  assumes "stands l xs k p" "links l k (sl_head l) (lvl l k (xs @ ys))"
  obtains A where "links l k p (A @ lvl l k ys)" "set A \<subseteq> set xs" "length A \<le> length xs"
    "last (p # A) = last (sl_head l # lvl l k xs)"
proof (cases "p = sl_head l")
  case True
  then show thesis using that[of "lvl l k xs"] assms(2) by (simp add: lvl_def)
next
  case False
  then obtain us vs where xs: "xs = us @ p # vs" and p: "k < sl_height l p"
    using assms(1) by (auto simp: stands_def in_set_conv_decomp)
  have e: "lvl l k (us @ p # vs) = (lvl l k us @ [p]) @ lvl l k vs" using p by (simp add: lvl_def)
  have "links l k (last (sl_head l # (lvl l k us @ [p]))) (lvl l k vs @ lvl l k ys)"
    using assms(2) unfolding xs by (intro links_append) (simp add: e del: lvl_append; simp add: lvl_def p)
  then have "links l k p (lvl l k vs @ lvl l k ys)" by simp
  moreover have "set (lvl l k vs) \<subseteq> set xs" by (auto simp: lvl_def xs)
  moreover have "length (lvl l k vs) \<le> length xs"
    using length_filter_le[of "\<lambda>a. k < sl_height l a" vs] unfolding lvl_def xs length_append length_Cons by linarith
  moreover have "last (p # lvl l k vs) = last (sl_head l # lvl l k xs)" unfolding xs e by simp
  ultimately show thesis by (rule that)
qed

lemma walk_down_ok:
  assumes rep: "sl_rep l (xs @ ys)"
    and before: "\<forall>a\<in>set xs. before (sl_obj l a)" "\<forall>b\<in>set ys. \<not> before (sl_obj l b)" "\<not> before NIL_object"
  shows "k \<le> MAX_LEVEL \<Longrightarrow> stands l xs k p \<Longrightarrow>
    walk_down before l k p upd =
      Inr (map (\<lambda>j. last (sl_head l # lvl l j xs)) [0..<Suc k] @ upd, hd (ys @ [sl_NIL l]))"
proof (induction k arbitrary: p upd)
  case 0
  have "links l 0 (sl_head l) (lvl l 0 (xs @ ys))" using rep by (simp add: sl_rep_def MAX_NUMBER_OF_LEVELS_def del: lvl_append)
  with 0 obtain A where A: "links l 0 p (A @ lvl l 0 ys)" "set A \<subseteq> set xs" "length A \<le> length xs"
    "last (p # A) = last (sl_head l # lvl l 0 xs)" by (metis stands_split)
  have "walk_level (sl_next l) before l 0 p = Inr (last (p # A), hd (lvl l 0 ys @ [sl_NIL l]))"
    using A rep before rep_fuel[OF rep] by (intro walk_level_ok) (auto simp: sl_rep_def lvl_def)
  then show ?case using A(4) lvl_0[OF rep, of ys] by simp
next
  case (Suc k)
  have "links l (Suc k) (sl_head l) (lvl l (Suc k) (xs @ ys))"
    using rep Suc.prems(1) by (simp add: sl_rep_def MAX_LEVEL_def MAX_NUMBER_OF_LEVELS_def del: lvl_append)
  with Suc.prems(2) obtain A where A: "links l (Suc k) p (A @ lvl l (Suc k) ys)" "set A \<subseteq> set xs"
    "length A \<le> length xs" "last (p # A) = last (sl_head l # lvl l (Suc k) xs)" by (metis stands_split)
  let ?p = "last (sl_head l # lvl l (Suc k) xs)"
  have "walk_level (sl_next l) before l (Suc k) p = Inr (last (p # A), hd (lvl l (Suc k) ys @ [sl_NIL l]))"
    using A rep before rep_fuel[OF rep] by (intro walk_level_ok) (auto simp: sl_rep_def lvl_def)
  moreover have "stands l xs k ?p"
  proof (cases "lvl l (Suc k) xs = []")
    case False
    then have "?p \<in> set (lvl l (Suc k) xs)" by auto
    then show ?thesis by (auto simp: stands_def lvl_def)
  qed (simp add: stands_def)
  then have "walk_down before l k ?p (?p # upd) =
      Inr (map (\<lambda>j. last (sl_head l # lvl l j xs)) [0..<Suc k] @ ?p # upd, hd (ys @ [sl_NIL l]))"
    using Suc.prems(1) by (intro Suc.IH) auto
  ultimately show ?case using A(4) by simp
qed

section \<open>Linking\<close>

text \<open>The forward pointers become \<open>F\<close>; nothing else changes.\<close>

definition relinked :: "SkipList \<Rightarrow> (nat \<Rightarrow> nat \<Rightarrow> nat res) \<Rightarrow> SkipList \<Rightarrow> bool" where
  "relinked l F l' \<longleftrightarrow>
     (\<exists>h. l' = l\<lparr>sl_heap := h\<rparr>) \<and> sl_height l' = sl_height l \<and> sl_value l' = sl_value l \<and> sl_forward l' = F"

lemma sl_forward_height: "k < sl_height l p \<Longrightarrow> \<exists>f. sl_forward l p k = Inr f"
  by (auto simp: sl_height_def sl_forward_def sl_node_def split: option.splits)

lemma set_forward_ok:
  assumes "k < sl_height l p"
  shows "returns (sl_set_forward l p k q)
    (relinked l (\<lambda>a j. if j = k \<and> a = p then Inr q else sl_forward l a j))"
  using assms
  by (auto simp: sl_set_forward_def sl_height_def sl_node_def sl_value_def sl_forward_def relinked_def
      nth_list_update fun_eq_iff split: option.splits)

lemma relinked_trans:
  "relinked l F l' \<Longrightarrow> relinked l' G l'' \<Longrightarrow> F' = G \<Longrightarrow> relinked l F' l''"
  by (auto simp: relinked_def)

lemma link_level_ok:
  assumes "k < length upd" "k < sl_height l (upd ! k)" "k < sl_height l q" "upd ! k \<noteq> q"
  shows "returns (link_level l upd q k)
    (relinked l (\<lambda>a j. if j = k \<and> a = q then sl_forward l (upd ! k) k
                       else if j = k \<and> a = upd ! k then Inr q else sl_forward l a j))"
proof -
  obtain f where f: "sl_forward l (upd ! k) k = Inr f" using sl_forward_height[OF assms(2)] by blast
  obtain l1 where l1: "sl_set_forward l q k f = Inr l1"
    "relinked l (\<lambda>a j. if j = k \<and> a = q then Inr f else sl_forward l a j) l1"
    using set_forward_ok[OF assms(3)] by (auto simp: returns_iff)
  then have "k < sl_height l1 (upd ! k)" using assms(2) by (simp add: relinked_def)
  from set_forward_ok[OF this, of q] show ?thesis
    using f l1 assms(1,4)
    by (auto simp: link_level_def fun_eq_iff relinked_def[of l "\<lambda>a j. if j = k \<and> a = q then Inr f else sl_forward l a j"]
        elim!: returns_mono intro!: relinked_trans[OF l1(2)])
qed

lemma link_down_ok:
  assumes "\<forall>j\<le>k. j < length upd \<and> j < sl_height l (upd ! j) \<and> j < sl_height l q \<and> upd ! j \<noteq> q"
  shows "returns (link_down l upd q k)
    (relinked l (\<lambda>a j. if j \<le> k \<and> a = q then sl_forward l (upd ! j) j
                       else if j \<le> k \<and> a = upd ! j then Inr q else sl_forward l a j))"
  using assms
proof (induction k arbitrary: l)
  case 0
  have "(\<lambda>a j. if j = 0 \<and> a = q then sl_forward l (upd ! 0) 0
                       else if j = 0 \<and> a = upd ! 0 then Inr q else sl_forward l a j)
      = (\<lambda>a j. if j \<le> 0 \<and> a = q then sl_forward l (upd ! j) j
                       else if j \<le> 0 \<and> a = upd ! j then Inr q else sl_forward l a j)"
    by (auto simp: fun_eq_iff)
  with link_level_ok[of 0 upd l q] 0 show ?case by simp
next
  case (Suc k)
  obtain l1 where l1: "link_level l upd q (Suc k) = Inr l1"
    "relinked l (\<lambda>a j. if j = Suc k \<and> a = q then sl_forward l (upd ! Suc k) (Suc k)
                       else if j = Suc k \<and> a = upd ! Suc k then Inr q else sl_forward l a j) l1"
    using link_level_ok[of "Suc k" upd l q] Suc.prems by (auto simp: returns_iff)
  have h: "sl_height l1 = sl_height l" and f: "sl_forward l1 a j = (if j = Suc k \<and> a = q then sl_forward l (upd ! Suc k) (Suc k)
                       else if j = Suc k \<and> a = upd ! Suc k then Inr q else sl_forward l a j)" for a j
    using l1(2) by (simp_all add: relinked_def)
  obtain l2 where l2: "link_down l1 upd q k = Inr l2"
    "relinked l1 (\<lambda>a j. if j \<le> k \<and> a = q then sl_forward l1 (upd ! j) j
                       else if j \<le> k \<and> a = upd ! j then Inr q else sl_forward l1 a j) l2"
    using Suc.IH[of l1] Suc.prems by (auto simp: returns_iff h)
  from l2(2) have "relinked l (\<lambda>a j. if j \<le> Suc k \<and> a = q then sl_forward l (upd ! j) j
                       else if j \<le> Suc k \<and> a = upd ! j then Inr q else sl_forward l a j) l2"
    by (rule relinked_trans[OF l1(2)]) (auto simp: fun_eq_iff f le_Suc_eq)
  then show ?case using l1(1) l2(1) by simp
qed

lemma links_cong:
  assumes "\<forall>a\<in>set (p # A). sl_forward l' a k = sl_forward l a k" "sl_NIL l' = sl_NIL l"
  shows "links l' k p A \<longleftrightarrow> links l k p A"
  using assms by (induction A arbitrary: p) auto

lemma links_insert:
  assumes "links l k p (A @ B)" "distinct (p # A @ B)" "q \<notin> set (p # A @ B)" "sl_NIL l' = sl_NIL l"
    "\<forall>a. sl_forward l' a k = (if a = q then sl_forward l (last (p # A)) k
       else if a = last (p # A) then Inr q else sl_forward l a k)"
  shows "links l' k p (A @ q # B)"
  using assms
proof (induction A arbitrary: p)
  case Nil
  then have "links l' k (hd B) (tl B) \<longleftrightarrow> links l k (hd B) (tl B)" if "B \<noteq> []"
    using that by (intro links_cong) (cases B; auto)+
  then show ?case using Nil by (cases B) auto
next
  case (Cons a A)
  then have "p \<noteq> last (a # A)" by (metis append_is_Nil_conv distinct.simps(2) in_set_conv_decomp last_in_set list.distinct(1) append_Cons set_append Un_iff)
  then show ?case using Cons by auto
qed

section \<open>Insertion\<close>

text \<open>The addresses of the level after the new node has been put in.\<close>

lemma sl_height_new:
  "new_skip_node l k v = (q, l') \<Longrightarrow> sl_height l' a = (if a = q then Suc k else sl_height l a)"
  "new_skip_node l k v = (q, l') \<Longrightarrow> sl_value l' a = (if a = q then Inr v else sl_value l a)"
  "new_skip_node l k v = (q, l') \<Longrightarrow> a \<noteq> q \<Longrightarrow> sl_forward l' a j = sl_forward l a j"
  by (auto simp: new_skip_node_def sl_height_def sl_value_def sl_forward_def sl_node_def)

lemma same_but_random_views:
  assumes "same_but_random l l'"
  shows "sl_height l' = sl_height l" "sl_value l' = sl_value l" "sl_forward l' = sl_forward l"
    "sl_NIL l' = sl_NIL l" "sl_head l' = sl_head l" "sl_level l' = sl_level l" "sl_next l' = sl_next l"
proof -
  obtain a b c where l': "l' = l\<lparr>sl_rand := a, sl_randomBits := b, sl_randomsLeft := c\<rparr>"
    using assms unfolding same_but_random_def by blast
  show "sl_height l' = sl_height l" "sl_value l' = sl_value l" "sl_forward l' = sl_forward l"
    "sl_NIL l' = sl_NIL l" "sl_head l' = sl_head l" "sl_level l' = sl_level l" "sl_next l' = sl_next l"
    by (auto simp: l' sl_height_def sl_value_def sl_forward_def sl_node_def fun_eq_iff)
qed

text \<open>What linking the node \<open>q\<close> of height \<open>k + 1\<close> makes of the representation.\<close>

lemma rep_insert:
  assumes rep: "sl_rep l (xs @ ys)" and ok: "rand_ok l'"
    and same: "sl_NIL l' = sl_NIL l" "sl_head l' = sl_head l" "sl_next l' = Suc q" "q = sl_next l"
    and lev: "sl_level l \<le> sl_level l'" "sl_level l' \<le> MAX_LEVEL" "k \<le> sl_level l'"
    and h: "sl_height l' = (sl_height l)(q := Suc k)"
    and v: "sl_value l' = (sl_value l)(q := Inr v)" "io_first v < 0x7fffffff"
    and f: "\<forall>a j. sl_forward l' a j =
      (if j \<le> k \<and> a = q then sl_forward l (last (sl_head l # lvl l j xs)) j
       else if j \<le> k \<and> a = last (sl_head l # lvl l j xs) then Inr q
       else if a = q then g j else sl_forward l a j)"
    and le: "\<forall>a\<in>set xs. obj_le (sl_obj l a) v" "\<forall>b\<in>set ys. obj_le v (sl_obj l b)"
  shows "sl_rep l' (xs @ q # ys)" and "map (sl_obj l') (xs @ q # ys) = map (sl_obj l) xs @ v # map (sl_obj l) ys"
proof -
  have d: "distinct (sl_NIL l # sl_head l # xs @ ys)" and below: "\<forall>a\<in>set (sl_NIL l # sl_head l # xs @ ys). a < q"
    using rep same(4) by (auto simp: sl_rep_def)
  have new: "a \<noteq> q" if "a \<in> set (sl_NIL l # sl_head l # xs @ ys)" for a using below that by blast
  have o: "sl_obj l' = (sl_obj l)(q := v)" by (auto simp: sl_obj_def v fun_eq_iff)
  have oq: "map (sl_obj l') zs = map (sl_obj l) zs" if "set zs \<subseteq> set (xs @ ys)" for zs
    using new that by (auto simp: o)
  show m: "map (sl_obj l') (xs @ q # ys) = map (sl_obj l) xs @ v # map (sl_obj l) ys"
    using oq[of xs] oq[of ys] by (simp add: o)
  have lv: "lvl l' j zs = lvl l j zs" if "set zs \<subseteq> set (xs @ ys)" for j zs
    using new that by (auto simp: lvl_def h intro!: filter_cong)
  have links: "links l' j (sl_head l') (lvl l' j (xs @ q # ys))" if j: "j < MAX_NUMBER_OF_LEVELS" for j
  proof -
    have old: "links l j (sl_head l) (lvl l j xs @ lvl l j ys)"
      using rep j by (simp add: sl_rep_def)
    have dist: "distinct (sl_head l # lvl l j xs @ lvl l j ys)" "q \<notin> set (sl_head l # lvl l j xs @ lvl l j ys)"
      using d new by (auto simp: lvl_def)
    show ?thesis
    proof (cases "j \<le> k")
      case True
      then have "links l' j (sl_head l) (lvl l j xs @ q # lvl l j ys)"
        using f dist(2) by (intro links_insert[OF old dist same(1)]) auto
      then show ?thesis using True lv[of xs] lv[of ys] same by (simp add: lvl_def h)
    next
      case False
      then have "links l' j (sl_head l) (lvl l j xs @ lvl l j ys) = links l j (sl_head l) (lvl l j xs @ lvl l j ys)"
        using f dist(2) same by (intro links_cong) auto
      then show ?thesis using old False lv[of xs] lv[of ys] same by (simp add: lvl_def h)
    qed
  qed
  have srt: "sorted_wrt (\<lambda>a b. obj_le (sl_obj l' a) (sl_obj l' b)) (xs @ q # ys)"
  proof -
    have "sorted_wrt obj_le (map (sl_obj l) (xs @ ys))"
      using rep by (simp add: sl_rep_def sorted_wrt_map del: map_append)
    then have "sorted_wrt obj_le (map (sl_obj l) xs @ v # map (sl_obj l) ys)"
      using le by (auto simp: sorted_wrt_append)
    then show ?thesis unfolding m[symmetric] by (simp only: sorted_wrt_map)
  qed
  have vals: "\<forall>a\<in>set (xs @ q # ys). sl_value l' a = Inr (sl_obj l' a) \<and> io_first (sl_obj l' a) < 0x7fffffff"
    using rep v(2) by (auto simp: sl_rep_def v(1) o)
  have hs: "\<forall>a\<in>set (xs @ q # ys). 0 < sl_height l' a \<and> sl_height l' a \<le> Suc (sl_level l')"
    using rep lev by (auto simp: sl_rep_def h dest!: bspec)
  have "distinct (sl_NIL l' # sl_head l' # xs @ q # ys)" using d new same(1,2) by auto
  moreover have "\<forall>a\<in>set (sl_NIL l' # sl_head l' # xs @ q # ys). a < sl_next l'"
    using below same by (auto simp: less_Suc_eq)
  moreover have "sl_value l' (sl_NIL l') = Inr NIL_object" "sl_height l' (sl_head l') = MAX_NUMBER_OF_LEVELS"
    using rep new same(1,2) by (auto simp: sl_rep_def v h)
  ultimately show "sl_rep l' (xs @ q # ys)"
    unfolding sl_rep_def using ok lev(2) links srt vals hs by blast
qed

text \<open>The abstract state: the objects in order, as \<open>insort_key\<close> of the library keeps them.\<close>

definition obj_key :: "InstObject \<Rightarrow> int \<times> int" where
  "obj_key v = (io_first v, io_id_d v)"

definition sl_abs :: "SkipList \<Rightarrow> InstObject list \<Rightarrow> bool" where
  "sl_abs l vs \<longleftrightarrow> (\<exists>as. sl_rep l as \<and> vs = map (sl_obj l) as)"

lemma obj_le_key: "obj_le v w \<longleftrightarrow> obj_key v \<le> obj_key w"
  by (auto simp: obj_le_def obj_key_def)

lemma cmp_key: "cmp_SkipListNode (io_first v) v u \<longleftrightarrow> obj_key u < obj_key v"
  by (auto simp: cmp_SkipListNode_def obj_key_def Let_def)

lemma insort_key_split:
  "insort_key f v vs = takeWhile (\<lambda>u. f u < f v) vs @ v # dropWhile (\<lambda>u. f u < f v) vs"
  by (induction vs) auto

lemma sorted_dropWhile_less:
  "sorted_wrt (\<lambda>a b. f a \<le> f b) as \<Longrightarrow> b \<in> set (dropWhile (\<lambda>a. f a < (c :: 'b :: linorder)) as) \<Longrightarrow> c \<le> f b"
  by (induction as) (auto split: if_splits)

lemma update_array:
  assumes "sl_rep l (xs @ ys)" "j \<le> k" "k \<le> Suc (sl_level l)"
    "upd = map (\<lambda>j. last (sl_head l # lvl l j xs)) [0..<Suc (sl_level l)]"
  shows "(if k = Suc (sl_level l) then upd @ [sl_head l] else upd) ! j = last (sl_head l # lvl l j xs)"
    and "j < length (if k = Suc (sl_level l) then upd @ [sl_head l] else upd)"
proof -
  have "lvl l (Suc (sl_level l)) xs = []"
    using assms(1) by (auto simp: sl_rep_def lvl_def filter_empty_conv not_less)
  then show "(if k = Suc (sl_level l) then upd @ [sl_head l] else upd) ! j = last (sl_head l # lvl l j xs)"
    "j < length (if k = Suc (sl_level l) then upd @ [sl_head l] else upd)"
    using assms(2-4) by (auto simp: nth_append le_Suc_eq simp del: upt_Suc)
qed

lemma update_reaches:
  assumes "sl_rep l (xs @ ys)" "j \<le> MAX_LEVEL"
  shows "j < sl_height l (last (sl_head l # lvl l j xs))" "last (sl_head l # lvl l j xs) < sl_next l"
proof -
  have "last (sl_head l # lvl l j xs) \<in> insert (sl_head l) (set (lvl l j xs))"
    by (metis last_in_set list.set(2) list.distinct(1))
  then show "j < sl_height l (last (sl_head l # lvl l j xs))" "last (sl_head l # lvl l j xs) < sl_next l"
    using assms by (auto simp: sl_rep_def lvl_def MAX_LEVEL_def MAX_NUMBER_OF_LEVELS_def)
qed

lemma SkipList_insert_rep:
  assumes rep: "sl_rep l (xs @ ys)" and v: "io_first v < 0x7fffffff"
    and b: "\<forall>a\<in>set xs. obj_key (sl_obj l a) < obj_key v" "\<forall>a\<in>set ys. obj_key v \<le> obj_key (sl_obj l a)"
  shows "returns (SkipList_insert l (io_first v) v)
    (\<lambda>l'. sl_rep l' (xs @ sl_next l # ys) \<and>
          map (sl_obj l') (xs @ sl_next l # ys) = map (sl_obj l) xs @ v # map (sl_obj l) ys)"
proof -
  define upd where "upd = map (\<lambda>j. last (sl_head l # lvl l j xs)) [0..<Suc (sl_level l)]"
  have lev: "sl_level l \<le> MAX_LEVEL" using rep by (simp add: sl_rep_def)
  have walk: "walk_down (cmp_SkipListNode (io_first v) v) l (sl_level l) (sl_head l) [] = Inr (upd, hd (ys @ [sl_NIL l]))"
    using walk_down_ok[OF rep, of "cmp_SkipListNode (io_first v) v" "sl_level l" "sl_head l" "[]"] b v lev
    by (force simp: cmp_key stands_def upd_def obj_key_def NIL_object_def InstObject_new_def)
  obtain k0 l1 where r: "randomLevel l = Inr (k0, l1)" "k0 \<le> MAX_LEVEL" "rand_ok l1" "same_but_random l l1"
    using randomLevel_returns[of l] rep by (auto simp: sl_rep_def returns_iff)
  note views = same_but_random_views[OF r(4)]
  define k where "k = (if k0 > sl_level l then Suc (sl_level l) else k0)"
  define upd1 where "upd1 = (if k = Suc (sl_level l) then upd @ [sl_head l] else upd)"
  define l2 where "l2 = (if k0 > sl_level l then l1\<lparr>sl_level := sl_level l + 1\<rparr> else l1)"
  obtain q l3 where n: "new_skip_node l2 k v = (q, l3)" by (cases "new_skip_node l2 k v")
  have k: "k \<le> Suc (sl_level l)" "k \<le> MAX_LEVEL" "k \<le> sl_level l2" "sl_level l \<le> sl_level l2" "sl_level l2 \<le> MAX_LEVEL"
    using r(2) lev views by (auto simp: k_def l2_def)
  have code: "SkipList_insert l (io_first v) v = link_down l3 upd1 q k"
  proof (cases "k0 > sl_level l")
    case True
    then show ?thesis using n by (simp add: SkipList_insert_def walk r(1) views Let_def upd1_def k_def l2_def)
  next
    case False
    then show ?thesis using n by (auto simp: SkipList_insert_def walk r(1) views Let_def upd1_def k_def l2_def)
  qed
  have q: "q = sl_next l" "sl_next l3 = Suc q" "sl_NIL l3 = sl_NIL l" "sl_head l3 = sl_head l"
    "sl_level l3 = sl_level l2" "rand_ok l3"
    using n r(3) views by (auto simp: new_skip_node_def l2_def rand_ok_def split: if_splits)
  have l2v: "sl_height l2 = sl_height l" "sl_value l2 = sl_value l" "sl_forward l2 = sl_forward l"
    using views by (auto simp: l2_def sl_height_def sl_value_def sl_forward_def sl_node_def fun_eq_iff)
  note new = sl_height_new[OF n, unfolded l2v]
  have u: "upd1 ! j = last (sl_head l # lvl l j xs)" "j < length upd1" if "j \<le> k" for j
    using update_array[OF rep that k(1) upd_def] by (simp_all add: upd1_def)
  have pre: "\<forall>j\<le>k. j < length upd1 \<and> j < sl_height l3 (upd1 ! j) \<and> j < sl_height l3 q \<and> upd1 ! j \<noteq> q"
  proof (intro allI impI)
    fix j assume j: "j \<le> k"
    then have "j \<le> MAX_LEVEL" using k(2) by simp
    with update_reaches[OF rep this] u[OF j] j
    show "j < length upd1 \<and> j < sl_height l3 (upd1 ! j) \<and> j < sl_height l3 q \<and> upd1 ! j \<noteq> q"
      by (simp add: new q(1))
  qed
  obtain l4 where l4: "link_down l3 upd1 q k = Inr l4"
    "relinked l3 (\<lambda>a j. if j \<le> k \<and> a = q then sl_forward l3 (upd1 ! j) j
                       else if j \<le> k \<and> a = upd1 ! j then Inr q else sl_forward l3 a j) l4"
    using link_down_ok[OF pre] by (auto simp: returns_iff)
  have f: "\<forall>a j. sl_forward l4 a j =
      (if j \<le> k \<and> a = q then sl_forward l (last (sl_head l # lvl l j xs)) j
       else if j \<le> k \<and> a = last (sl_head l # lvl l j xs) then Inr q
       else if a = q then sl_forward l3 q j else sl_forward l a j)"
    using l4(2) pre by (auto simp: relinked_def u new(3))
  have same: "sl_NIL l4 = sl_NIL l" "sl_head l4 = sl_head l" "sl_next l4 = Suc q" "sl_level l4 = sl_level l2" "rand_ok l4"
    "sl_height l4 = (sl_height l)(q := Suc k)" "sl_value l4 = (sl_value l)(q := Inr v)"
    using l4(2) q by (auto simp: relinked_def rand_ok_def new fun_eq_iff)
  have "sl_rep l4 (xs @ q # ys)" "map (sl_obj l4) (xs @ q # ys) = map (sl_obj l) xs @ v # map (sl_obj l) ys"
    using rep_insert[OF rep same(5,1-3) q(1) _ _ _ same(6,7) v f] same(4) k b
    by (simp_all add: obj_le_key less_imp_le)
  then show ?thesis using code l4(1) q(1) by simp
qed

lemma sl_abs_insert:
  assumes "sl_abs l vs" "io_first v < 0x7fffffff"
  shows "returns (SkipList_insert l (io_first v) v) (\<lambda>l'. sl_abs l' (insort_key obj_key v vs))"
proof -
  obtain as where rep: "sl_rep l as" and vs: "vs = map (sl_obj l) as" using assms(1) by (auto simp: sl_abs_def)
  let ?P = "\<lambda>a. obj_key (sl_obj l a) < obj_key v"
  have rep': "sl_rep l (takeWhile ?P as @ dropWhile ?P as)" using rep by simp
  have "\<forall>a\<in>set (dropWhile ?P as). obj_key v \<le> obj_key (sl_obj l a)"
    using rep by (auto simp: sl_rep_def obj_le_key intro: sorted_dropWhile_less)
  with SkipList_insert_rep[OF rep' assms(2)]
  have "returns (SkipList_insert l (io_first v) v) (\<lambda>l'. sl_rep l' (takeWhile ?P as @ sl_next l # dropWhile ?P as) \<and>
    map (sl_obj l') (takeWhile ?P as @ sl_next l # dropWhile ?P as) =
      map (sl_obj l) (takeWhile ?P as) @ v # map (sl_obj l) (dropWhile ?P as))"
    by (blast dest: set_takeWhileD)
  moreover have "insort_key obj_key v vs = map (sl_obj l) (takeWhile ?P as) @ v # map (sl_obj l) (dropWhile ?P as)"
    by (simp add: insort_key_split vs takeWhile_map dropWhile_map comp_def)
  ultimately show ?thesis
    unfolding sl_abs_def by (elim returns_mono) metis
qed

lemma sl_abs_new: "sl_abs SkipList_new []"
  by (auto simp: sl_abs_def sl_rep_def SkipList_new_def Let_def rand_ok_def BITS_TO_USE_FROM_RANDOM_def
      sl_value_def sl_node_def sl_height_def sl_forward_def lvl_def)

lemma sl_abs_sorted: "sl_abs l vs \<Longrightarrow> sorted (map obj_key vs)"
  by (auto simp: sl_abs_def sl_rep_def sorted_map obj_le_key sorted_wrt_map)

section \<open>Iterators and lookups\<close>

text \<open>The iterator at \<open>i\<close> has the objects \<open>us\<close> before it.\<close>

definition sit_at :: "SkipList \<Rightarrow> nat \<Rightarrow> InstObject list \<Rightarrow> bool" where
  "sit_at l i us \<longleftrightarrow> (\<exists>xs ys. sl_rep l (xs @ ys) \<and> i = hd (ys @ [sl_NIL l]) \<and> us = map (sl_obj l) ys)"

lemma sit_atI: "sl_rep l (xs @ ys) \<Longrightarrow> i = hd (ys @ [sl_NIL l]) \<Longrightarrow> us = map (sl_obj l) ys \<Longrightarrow> sit_at l i us"
  unfolding sit_at_def by blast

lemma sit_at_hasNext: "sit_at l i us \<Longrightarrow> sit_hasNext l i \<longleftrightarrow> us \<noteq> []"
proof -
  assume "sit_at l i us"
  then obtain xs ys where *: "sl_rep l (xs @ ys)" "i = hd (ys @ [sl_NIL l])" "us = map (sl_obj l) ys"
    by (auto simp: sit_at_def)
  then have "sl_NIL l \<notin> set ys" by (simp add: sl_rep_def)
  then show ?thesis using * by (cases ys) (auto simp: sit_hasNext_def)
qed

lemma sit_at_NIL: "sl_abs l vs \<Longrightarrow> sit_at l (sl_NIL l) []"
  by (auto simp: sl_abs_def sit_at_def)

lemma sit_at_fuel: "sit_at l i us \<Longrightarrow> length us + 2 \<le> sl_next l"
  by (auto simp: sit_at_def dest!: rep_fuel)

lemma rep_links_0:
  assumes "sl_rep l (xs @ y # ys)"
  shows "sl_forward l y 0 = Inr (hd (ys @ [sl_NIL l]))"
proof -
  have "links l 0 (sl_head l) ((xs @ [y]) @ ys)"
    using assms lvl_0[OF assms subset_refl] by (auto simp: sl_rep_def MAX_NUMBER_OF_LEVELS_def dest: spec[of _ 0])
  from links_append[OF this] show ?thesis by (cases ys) auto
qed

lemma sit_at_forward: "sit_at l i (u # us) \<Longrightarrow> \<exists>j. sl_forward l i 0 = Inr j \<and> sit_at l j us"
proof -
  assume "sit_at l i (u # us)"
  then obtain xs ys where *: "sl_rep l (xs @ i # ys)" "us = map (sl_obj l) ys"
    by (auto simp: sit_at_def Cons_eq_map_conv)
  then show ?thesis using rep_links_0[OF *(1)] sit_atI[of l "xs @ [i]" ys] by auto
qed

lemma sit_at_value: "sit_at l i (u # us) \<Longrightarrow> sl_value l i = Inr u"
  by (auto simp: sit_at_def sl_rep_def Cons_eq_map_conv)

lemma sit_at_next: "sit_at l i (u # us) \<Longrightarrow> \<exists>j. sit_next l i = Inr (u, j) \<and> sit_at l j us"
  using sit_at_forward[of l i u us] sit_at_value[of l i u us] sit_at_hasNext[of l i "u # us"]
  by (auto simp: sit_next_def)

definition head_key :: "InstObject list \<Rightarrow> monad_m" where
  "head_key us = (case us of [] \<Rightarrow> 0x7fffffff | u # _ \<Rightarrow> io_first u)"

lemma sit_at_key: "sit_at l i us \<Longrightarrow> sit_currentKey l i = Inr (head_key us)"
proof (cases us)
  case Nil
  assume "sit_at l i us"
  then show ?thesis using Nil
    by (auto simp: sit_at_def sl_rep_def sit_currentKey_def head_key_def NIL_object_def InstObject_new_def)
qed (auto simp: sit_currentKey_def head_key_def dest: sit_at_value)

lemma sit_at_begin: "sl_abs l vs \<Longrightarrow> returns (SkipList_begin l) (\<lambda>i. sit_at l i vs)"
proof -
  assume "sl_abs l vs"
  then obtain as where rep: "sl_rep l as" "vs = map (sl_obj l) as" by (auto simp: sl_abs_def)
  then have "links l 0 (sl_head l) as"
    using lvl_0[OF rep(1) subset_refl] by (auto simp: sl_rep_def MAX_NUMBER_OF_LEVELS_def dest: spec[of _ 0])
  then have "sl_forward l (sl_head l) 0 = Inr (hd (as @ [sl_NIL l]))" by (cases as) auto
  then show ?thesis using rep by (auto simp: SkipList_begin_def intro: sit_atI[of l "[]" as])
qed

lemma sit_at_search:
  assumes "sl_abs l vs" "key \<le> 0x7fffffff"
  shows "returns (SkipList_search l key) (\<lambda>i. sit_at l i (dropWhile (\<lambda>u. io_first u < key) vs))"
proof -
  obtain as where rep: "sl_rep l as" "vs = map (sl_obj l) as" using assms(1) by (auto simp: sl_abs_def)
  let ?P = "\<lambda>a. io_first (sl_obj l a) < key"
  have s: "sorted_wrt (\<lambda>a b. io_first (sl_obj l a) \<le> io_first (sl_obj l b)) as"
    using rep(1) by (auto simp: sl_rep_def obj_le_def elim: sorted_wrt_mono_rel[rotated])
  have r: "sl_rep l (takeWhile ?P as @ dropWhile ?P as)" using rep(1) by simp
  have d: "\<forall>b\<in>set (dropWhile ?P as). \<not> io_first (sl_obj l b) < key"
    using sorted_dropWhile_less[OF s] by fastforce
  have t: "\<forall>a\<in>set (takeWhile ?P as). io_first (sl_obj l a) < key" by (blast dest: set_takeWhileD)
  have n: "\<not> io_first NIL_object < key" using assms(2) by (simp add: NIL_object_def InstObject_new_def)
  have lev: "sl_level l \<le> MAX_LEVEL" using rep(1) by (simp add: sl_rep_def)
  have st: "stands l (takeWhile ?P as) (sl_level l) (sl_head l)" by (simp add: stands_def)
  note walk_down_ok[where before = "\<lambda>v. io_first v < key", OF r t d n lev st, of "[]"]
  then have "SkipList_search l key = Inr (hd (dropWhile ?P as @ [sl_NIL l]))" by (simp add: SkipList_search_def)
  then show ?thesis
    using rep sit_atI[of l "takeWhile ?P as" "dropWhile ?P as"] by (simp add: dropWhile_map comp_def)
qed

text \<open>The loops over one key and to the next key.\<close>

lemma equal_range_loop_ok:
  "sit_at l i us \<Longrightarrow> key < 0x7fffffff \<Longrightarrow> length us < n \<Longrightarrow>
   returns (equal_range_loop n l key i) (\<lambda>j. sit_at l j (dropWhile (\<lambda>u. io_first u = key) us))"
proof (induction us arbitrary: i n)
  case Nil
  then show ?case by (cases n) (auto simp: sit_at_hasNext)
next
  case (Cons u us)
  then obtain m where n: "n = Suc m" by (cases n) auto
  obtain j where "sit_next l i = Inr (u, j)" "sit_at l j us" using sit_at_next[OF Cons.prems(1)] by blast
  then show ?case
    using Cons.IH[of j m] Cons.prems sit_at_hasNext[OF Cons.prems(1)] sit_at_key[OF Cons.prems(1)]
    by (simp add: n head_key_def)
qed

lemma hasObject_loop_ok:
  "sit_at l i us \<Longrightarrow> length us < n \<Longrightarrow>
   hasObject_loop n l key d i = Inr (\<exists>u\<in>set (takeWhile (\<lambda>u. io_first u = key) us). io_id_d u = d)"
proof (induction us arbitrary: i n)
  case Nil
  then show ?case by (cases n) (auto simp: sit_at_hasNext)
next
  case (Cons u us)
  then obtain m where n: "n = Suc m" by (cases n) auto
  obtain j where "sit_next l i = Inr (u, j)" "sit_at l j us" using sit_at_next[OF Cons.prems(1)] by blast
  then show ?case
    using Cons.IH[of j m] Cons.prems sit_at_hasNext[OF Cons.prems(1)] sit_at_key[OF Cons.prems(1)]
    by (auto simp: n head_key_def)
qed

definition next_key :: "InstObject list \<Rightarrow> monad_m" where
  "next_key us = (case us of [] \<Rightarrow> 0 | u # _ \<Rightarrow> io_first u)"

lemma advance_key_loop_ok:
  "sit_at l i (u # us) \<Longrightarrow> length us < n \<Longrightarrow>
   returns (advance_key_loop n l m i)
     (\<lambda>(k, j). sit_at l j (dropWhile (\<lambda>w. io_first w \<le> m) us) \<and> k = next_key (dropWhile (\<lambda>w. io_first w \<le> m) us))"
proof (induction us arbitrary: i n u)
  case Nil
  then obtain p where n: "n = Suc p" by (cases n) auto
  obtain j where "sl_forward l i 0 = Inr j" "sit_at l j []" using sit_at_forward[OF Nil.prems(1)] by blast
  then show ?case using sit_at_hasNext[of l j "[]"] by (simp add: n sit_hasNext_def next_key_def)
next
  case (Cons w us)
  then obtain p where n: "n = Suc p" by (cases n) auto
  obtain j where j: "sl_forward l i 0 = Inr j" "sit_at l j (w # us)" using sit_at_forward[OF Cons.prems(1)] by blast
  then show ?case
    using Cons.IH[of j w p] Cons.prems sit_at_hasNext[OF j(2)] sit_at_key[OF j(2)]
    by (simp add: n head_key_def next_key_def sit_hasNext_def)
qed

lemma advance_ok:
  assumes "sit_at l i (u # us)"
  shows "returns (sit_advanceToNextKey l i)
    (\<lambda>(k, j). sit_at l j (dropWhile (\<lambda>w. io_first w \<le> io_first u) us) \<and>
              k = next_key (dropWhile (\<lambda>w. io_first w \<le> io_first u) us))"
  using advance_key_loop_ok[OF assms, of "sl_next l" "io_first u"] sit_at_fuel[OF assms] sit_at_hasNext[OF assms]
    sit_at_key[OF assms]
  by (simp add: sit_advanceToNextKey_def head_key_def sit_hasNext_def)

lemma purge_loop_ok: "sit_at l i us \<Longrightarrow> length us < n \<Longrightarrow> purge_loop n l i = Inr ()"
proof (induction us arbitrary: i n)
  case Nil
  then show ?case using sit_at_hasNext[OF Nil.prems(1)] by (cases n) (auto simp: sit_hasNext_def)
next
  case (Cons u us)
  then obtain m where n: "n = Suc m" by (cases n) auto
  obtain j where "sl_forward l i 0 = Inr j" "sit_at l j us" using sit_at_forward[OF Cons.prems(1)] by blast
  then show ?case using Cons.IH[of j m] Cons.prems sit_at_hasNext[OF Cons.prems(1)] sit_at_value[OF Cons.prems(1)]
    by (simp add: n sit_hasNext_def)
qed

lemma sorted_filter_run:
  assumes "sorted (map obj_key vs)"
  shows "takeWhile (\<lambda>u. io_first u = key) (dropWhile (\<lambda>u. io_first u < key) vs) = filter (\<lambda>u. io_first u = key) vs"
  using assms
proof (induction vs)
  case (Cons v vs)
  then have le: "\<forall>u\<in>set vs. io_first v \<le> io_first u" by (auto simp: obj_key_def)
  show ?case
  proof (cases "io_first v > key")
    case True
    then have "filter (\<lambda>u. io_first u = key) vs = []" using le by (force simp: filter_empty_conv)
    then show ?thesis using True by simp
  next
    case False
    moreover have "dropWhile (\<lambda>u. io_first u < key) vs = vs" if "io_first v = key"
      using le that by (cases vs) auto
    ultimately show ?thesis using Cons by auto
  qed
qed simp

lemma run_nonempty: "takeWhile (\<lambda>u. io_first u = key) us \<noteq> [] \<longleftrightarrow> us \<noteq> [] \<and> head_key us = key"
  by (cases us) (auto simp: head_key_def)

lemma hasObject_ok:
  assumes "sl_abs l vs" "key < 0x7fffffff"
  shows "SkipList_hasObject l key d = Inr (\<exists>u\<in>set vs. io_first u = key \<and> io_id_d u = d)"
proof -
  let ?us = "dropWhile (\<lambda>u. io_first u < key) vs"
  obtain i where i: "SkipList_search l key = Inr i" "sit_at l i ?us"
    using sit_at_search[OF assms(1), of key] assms(2) by (auto simp: returns_iff)
  have run: "takeWhile (\<lambda>u. io_first u = key) ?us = filter (\<lambda>u. io_first u = key) vs"
    using sorted_filter_run sl_abs_sorted assms(1) by blast
  have "hasObject_loop (sl_next l) l key d i = Inr (\<exists>u\<in>set (filter (\<lambda>u. io_first u = key) vs). io_id_d u = d)"
    using hasObject_loop_ok[OF i(2), of "sl_next l"] sit_at_fuel[OF i(2)] run by simp
  moreover have "filter (\<lambda>u. io_first u = key) vs = []" if "?us = [] \<or> head_key ?us \<noteq> key"
    using run that by (cases ?us) (auto simp: head_key_def)
  ultimately show ?thesis
    using sit_at_hasNext[OF i(2)] sit_at_key[OF i(2)] i(1)
    by (auto simp: SkipList_hasObject_def filter_empty_conv)
qed

lemma equal_range_ok:
  assumes "sl_abs l vs" "key < 0x7fffffff"
  shows "returns (SkipList_equal_range l key)
    (\<lambda>(found, i, j). found = (\<exists>u\<in>set vs. io_first u = key) \<and>
       (found \<longrightarrow> sit_at l i (dropWhile (\<lambda>u. io_first u < key) vs) \<and>
                 sit_at l j (dropWhile (\<lambda>u. io_first u = key) (dropWhile (\<lambda>u. io_first u < key) vs))))"
proof -
  let ?us = "dropWhile (\<lambda>u. io_first u < key) vs"
  obtain i where i: "SkipList_search l key = Inr i" "sit_at l i ?us"
    using sit_at_search[OF assms(1), of key] assms(2) by (auto simp: returns_iff)
  have run: "takeWhile (\<lambda>u. io_first u = key) ?us = filter (\<lambda>u. io_first u = key) vs"
    using sorted_filter_run sl_abs_sorted assms(1) by blast
  have "(\<exists>u\<in>set vs. io_first u = key) \<longleftrightarrow> filter (\<lambda>u. io_first u = key) vs \<noteq> []"
    by (auto simp: filter_empty_conv)
  then have ex: "(\<exists>u\<in>set vs. io_first u = key) \<longleftrightarrow> ?us \<noteq> [] \<and> head_key ?us = key"
    unfolding run[symmetric] by (simp only: run_nonempty)
  show ?thesis
    using equal_range_loop_ok[OF i(2) assms(2), of "sl_next l"] sit_at_fuel[OF i(2)] sit_at_hasNext[OF i(2)]
      sit_at_key[OF i(2)] i ex
    by (auto simp: SkipList_equal_range_def returns_iff)
qed

lemma purge_ok:
  assumes "sl_abs l vs"
  shows "returns (SkipList_purge l) (\<lambda>l'. sl_abs l' [])"
proof -
  obtain i where i: "SkipList_begin l = Inr i" "sit_at l i vs" using sit_at_begin[OF assms] by (auto simp: returns_iff)
  have p: "purge_loop (sl_next l) l i = Inr ()" using purge_loop_ok[OF i(2)] sit_at_fuel[OF i(2)] by simp
  obtain as where rep: "sl_rep l as" using assms by (auto simp: sl_abs_def)
  then obtain h where h: "sl_heap l (sl_head l) = Some h" "length (sn_forward h) = MAX_NUMBER_OF_LEVELS"
    by (auto simp: sl_rep_def sl_height_def MAX_NUMBER_OF_LEVELS_def split: option.splits)
  let ?l = "l\<lparr>sl_heap := (sl_heap l)(sl_head l \<mapsto> h\<lparr>sn_forward := replicate MAX_NUMBER_OF_LEVELS (sl_NIL l)\<rparr>), sl_level := 0\<rparr>"
  have "sl_rep ?l []"
    using rep by (auto simp: sl_rep_def rand_ok_def sl_value_def sl_node_def sl_height_def sl_forward_def)
  then have "sl_abs ?l []" by (auto simp: sl_abs_def)
  moreover have "SkipList_purge l = Inr ?l"
    using i(1) p h by (simp add: SkipList_purge_def SkipList_begin_def sl_node_def)
  ultimately show ?thesis by simp
qed

section \<open>The contract of an ordered store of objects\<close>

text \<open>
  What \<open>InstContents\<close> relies on: an empty store, insertion by key and id, a cursor that starts
  at the first object, or at the first object of a key, and steps to the next.
\<close>

locale object_store =
  fixes new :: 's
    and ins :: "'s \<Rightarrow> monad_m \<Rightarrow> InstObject \<Rightarrow> 's res"
    and beg :: "'s \<Rightarrow> 'c res"
    and search :: "'s \<Rightarrow> monad_m \<Rightarrow> 'c res"
    and has_next :: "'s \<Rightarrow> 'c \<Rightarrow> bool"
    and step :: "'s \<Rightarrow> 'c \<Rightarrow> (InstObject \<times> 'c) res"
    and repr :: "'s \<Rightarrow> InstObject list \<Rightarrow> bool"
    and at :: "'s \<Rightarrow> 'c \<Rightarrow> InstObject list \<Rightarrow> bool"
  assumes new_law: "repr new []"
    and ins_law: "repr l vs \<Longrightarrow> io_first v < 0x7fffffff \<Longrightarrow>
      returns (ins l (io_first v) v) (\<lambda>l'. repr l' (insort_key obj_key v vs))"
    and beg_law: "repr l vs \<Longrightarrow> returns (beg l) (\<lambda>i. at l i vs)"
    and search_law: "repr l vs \<Longrightarrow> key \<le> 0x7fffffff \<Longrightarrow>
      returns (search l key) (\<lambda>i. at l i (dropWhile (\<lambda>u. io_first u < key) vs))"
    and has_next_law: "at l i us \<Longrightarrow> has_next l i \<longleftrightarrow> us \<noteq> []"
    and step_law: "at l i (u # us) \<Longrightarrow> \<exists>j. step l i = Inr (u, j) \<and> at l j us"
begin

lemma insert_all:
  assumes "repr l ws" "\<forall>v\<in>set vs. io_first v < 0x7fffffff"
  shows "returns (foldM_res (\<lambda>l v. ins l (io_first v) v) l vs)
    (\<lambda>l'. repr l' (foldl (\<lambda>a v. insort_key obj_key v a) ws vs))"
  by (rule foldM_res_refines[where R = repr]) (use assms ins_law in auto)

lemma insert_all_new:
  assumes "\<forall>v\<in>set vs. io_first v < 0x7fffffff"
  shows "returns (foldM_res (\<lambda>l v. ins l (io_first v) v) new vs) (\<lambda>l. repr l (sort_key obj_key (rev vs)))"
  using insert_all[OF new_law assms] by (simp add: sort_key_def foldr_conv_foldl)

lemma search_finds:
  assumes "repr l vs" "sorted (map obj_key vs)" "key < 0x7fffffff"
  shows "returns (search l key) (\<lambda>i. \<exists>us. at l i us \<and> takeWhile (\<lambda>u. io_first u = key) us = filter (\<lambda>u. io_first u = key) vs)"
  using search_law[OF assms(1), of key] assms(3) sorted_filter_run[OF assms(2)] by (auto elim!: returns_mono)

text \<open>A loop that takes every object from the cursor and folds over them.\<close>

lemma drain:
  assumes loop: "\<And>n i r. f (Suc n) i r = (if has_next l i
      then bind_res (step l i) (\<lambda>(v, j). bind_res (g r v) (\<lambda>r. f n j r)) else Inr r)"
    and "at l i us" "length us < n"
  shows "f n i r = foldM_res g r us"
  using assms(2,3)
proof (induction us arbitrary: i n r)
  case Nil
  then show ?case using loop has_next_law[OF Nil(1)] by (cases n) auto
next
  case (Cons u us)
  then obtain m where n: "n = Suc m" by (cases n) auto
  obtain j where j: "step l i = Inr (u, j)" "at l j us" using step_law[OF Cons.prems(1)] by blast
  have "f m j = (\<lambda>r. foldM_res g r us)" using Cons.IH[OF j(2)] Cons.prems(2) n by auto
  then show ?case using j(1) has_next_law[OF Cons.prems(1)] by (simp add: n loop)
qed

end

interpretation skl: object_store SkipList_new SkipList_insert SkipList_begin SkipList_search sit_hasNext sit_next sl_abs sit_at
  by unfold_locales (use sl_abs_new sl_abs_insert sit_at_begin sit_at_search sit_at_hasNext sit_at_next in blast)+

section \<open>Objects and contents\<close>

definition InstObject_ok :: "InstObject \<Rightarrow> bool" where
  "InstObject_ok v \<longleftrightarrow> (case io_u v of
       union_is_mlast l \<Rightarrow> 0 \<le> io_first v \<and> io_first v \<le> l \<and> l \<le> MAX_MONAD
     | union_is_pMonads s \<Rightarrow> som_wf s \<and> monad_ms s \<noteq> [] \<and> io_first v = m_first s)"

definition object_set :: "InstObject \<Rightarrow> monad_m set" where
  "object_set v = (case io_u v of union_is_mlast l \<Rightarrow> {io_first v..l} | union_is_pMonads s \<Rightarrow> som_set s)"

lemma som_wf_bounds:
  assumes "som_wf s" "monad_ms s \<noteq> []"
  shows "m_first s = Min (som_set s)" "m_last s = Max (som_set s)" "m_first s \<le> m_last s"
    "0 \<le> m_first s" "m_last s \<le> MAX_MONAD" "som_set s \<noteq> {}" "finite (som_set s)"
proof -
  have m: "m_first s = Min (som_set s) \<and> m_last s = Max (som_set s)"
    using assms bounds_ok_iff[of "monad_ms s"] by (simp add: som_wf_def som_set_def)
  have ne: "som_set s \<noteq> {}" "finite (som_set s)" using assms by (auto simp: som_wf_def som_set_def mses_set_eq_empty)
  then have i: "m_first s \<in> som_set s" "m_last s \<in> som_set s" using m by auto
  then have r: "0 \<le> m_first s" "m_last s \<le> MAX_MONAD" "m_first s \<le> m_last s"
    using mses_in_range[of "monad_ms s"] assms(1) m ne by (auto simp: som_wf_def som_set_def)
  show "m_first s = Min (som_set s)" "m_last s = Max (som_set s)" "m_first s \<le> m_last s"
    "0 \<le> m_first s" "m_last s \<le> MAX_MONAD" "som_set s \<noteq> {}" "finite (som_set s)"
    using m r ne by simp_all
qed

lemma InstObject_ok_range:
  assumes "InstObject_ok v"
  shows "0 \<le> io_first v" "io_first v \<le> InstObject_last v" "InstObject_last v \<le> MAX_MONAD"
    "io_first v = Min (object_set v)" "InstObject_last v = Max (object_set v)"
proof -
  have "0 \<le> io_first v \<and> io_first v \<le> InstObject_last v \<and> InstObject_last v \<le> MAX_MONAD \<and>
    io_first v = Min (object_set v) \<and> InstObject_last v = Max (object_set v)"
  proof (cases "io_u v")
    case (union_is_mlast l)
    moreover have "Min {io_first v..l} = io_first v" "Max {io_first v..l} = l" if "io_first v \<le> l"
      using that by (auto intro: Min_eqI Max_eqI)
    ultimately show ?thesis using assms by (auto simp: InstObject_ok_def InstObject_last_def object_set_def)
  next
    case (union_is_pMonads s)
    then show ?thesis using assms som_wf_bounds[of s] by (auto simp: InstObject_ok_def InstObject_last_def object_set_def)
  qed
  then show "0 \<le> io_first v" "io_first v \<le> InstObject_last v" "InstObject_last v \<le> MAX_MONAD"
    "io_first v = Min (object_set v)" "InstObject_last v = Max (object_set v)" by auto
qed

lemma addMse_ok:
  assumes "InstObject_ok v" "0 \<le> f" "f \<le> l" "l \<le> MAX_MONAD"
  shows "returns (InstObject_addMse v f l) (\<lambda>w. InstObject_ok w \<and> object_set w = object_set v \<union> {f..l} \<and>
    io_id_d w = io_id_d v \<and> io_features w = io_features v)"
proof -
  obtain s where s: "som_wf s" "som_set s = object_set v" "monad_ms s \<noteq> []" "m_first s = io_first v"
    and code: "InstObject_addMse v f l = bind_res (SetOfMonads_add_range s f l) (\<lambda>s.
     Inr (v\<lparr>io_u := union_is_pMonads s, io_first := (if io_first v > f then f else io_first v)\<rparr>))"
  proof (cases "io_u v")
    case (union_is_mlast k)
    define t where "t = \<lparr>monad_ms = [MSE (io_first v) k], m_first = io_first v, m_last = k\<rparr>"
    have "SetOfMonads_range (io_first v) k = Inr t" "som_wf t" "som_set t = {io_first v..k}"
      "monad_ms t \<noteq> []" "m_first t = io_first v"
      using assms(1) union_is_mlast
      by (auto simp: t_def SetOfMonads_range_def MonadSetElement_range_def InstObject_ok_def som_wf_def som_set_def bounds_ok_def)
    then show thesis using that[of t] union_is_mlast by (simp add: InstObject_addMse_def object_set_def)
  next
    case (union_is_pMonads t)
    then show thesis using that[of t] assms(1) by (auto simp: InstObject_addMse_def object_set_def InstObject_ok_def)
  qed
  obtain t where t: "SetOfMonads_add_range s f l = Inr t" "som_wf t" "som_set t = som_set s \<union> {f..l}"
    using add_range_returns[of s f l] s(1) assms(2-4) by (auto simp: returns_iff)
  have ne: "monad_ms t \<noteq> []" using t(3) assms(3) by (auto simp: som_set_def)
  have "Min {f..l} = f" using assms(3) by (auto intro: Min_eqI)
  then have "m_first t = min (io_first v) f"
    using som_wf_bounds[OF t(2) ne] som_wf_bounds[OF s(1,3)] s(4) t(3) assms(3) by (simp add: Min_Un)
  then show ?thesis using t s ne by (auto simp: code InstObject_ok_def object_set_def min_def)
qed

text \<open>The state of \<open>InstContents\<close>: the objects in order and the extent of their monads.\<close>

definition ic_abs :: "InstContents \<Rightarrow> InstObject list \<Rightarrow> bool" where
  "ic_abs c vs \<longleftrightarrow> sl_abs (ic_sl c) vs \<and> (\<forall>v\<in>set vs. InstObject_ok v) \<and>
     ic_min_monad c = Min (insert MAX_MONAD (io_first ` set vs)) \<and>
     ic_max_monad c = Max (insert 0 (InstObject_last ` set vs))"

lemma ic_abs_new: "ic_abs InstContents_new []"
  by (simp add: ic_abs_def InstContents_new_def sl_abs_new)

lemma min_step: "min a b = (if b > a then a else b)" and max_step: "max a b = (if b < a then a else b)" for a b :: int
  by (simp_all add: min_def max_def)

lemma Min_step: "finite A \<Longrightarrow> A \<noteq> {} \<Longrightarrow> Min (insert a A) = (if Min A > a then a else Min A)" for a :: int
  by (simp only: Min_insert min_step simp_thms)

lemma Max_step: "finite A \<Longrightarrow> A \<noteq> {} \<Longrightarrow> Max (insert a A) = (if Max A < a then a else Max A)" for a :: int
  by (simp only: Max_insert max_step simp_thms)

lemma ic_abs_addObject:
  assumes "ic_abs c vs" "\<not> ic_is_frozen c" "InstObject_ok v"
  shows "returns (InstContents_addObject c v (io_first v) (InstObject_last v))
    (\<lambda>c'. ic_abs c' (insort_key obj_key v vs) \<and> \<not> ic_is_frozen c')"
proof -
  have "io_first v < 0x7fffffff" using InstObject_ok_range[OF assms(3)] by (simp add: MAX_MONAD_def)
  then obtain sl where "SkipList_insert (ic_sl c) (io_first v) v = Inr sl" "sl_abs sl (insort_key obj_key v vs)"
    using sl_abs_insert[of "ic_sl c" vs v] assms(1) by (auto simp: ic_abs_def returns_iff)
  moreover have "Min (insert MAX_MONAD (io_first ` set (insort_key obj_key v vs))) =
      (if ic_min_monad c > io_first v then io_first v else ic_min_monad c)"
    using assms(1) Min_step[of "insert MAX_MONAD (io_first ` set vs)" "io_first v"]
    by (simp only: set_insort_key ic_abs_def image_insert insert_commute[of MAX_MONAD]) simp
  moreover have "Max (insert 0 (InstObject_last ` set (insort_key obj_key v vs))) =
      (if ic_max_monad c < InstObject_last v then InstObject_last v else ic_max_monad c)"
    using assms(1) Max_step[of "insert 0 (InstObject_last ` set vs)" "InstObject_last v"]
    by (simp only: set_insort_key ic_abs_def image_insert insert_commute[of 0]) simp
  ultimately show ?thesis
    using assms by (auto simp: InstContents_addObject_def ic_abs_def set_insort_key)
qed

lemma bigUnion_ok:
  assumes "ic_abs c vs"
  shows "returns (InstContents_bigUnion c)
    (\<lambda>f. fsom_wf f \<and> fsom_set f = (if vs = [] then {} else {Min (io_first ` set vs)..Max (InstObject_last ` set vs)}))"
proof (cases "vs = []")
  case True
  then show ?thesis using assms by (simp add: InstContents_bigUnion_def ic_abs_def)
next
  case False
  note ok = InstObject_ok_range
  obtain v where v: "v \<in> set vs" using False by (cases vs) auto
  have "InstObject_ok v" using assms v by (simp add: ic_abs_def)
  note v' = this InstObject_ok_range(1-3)[OF this]
  have l: "Min (io_first ` set vs) \<le> io_first v" "InstObject_last v \<le> Max (InstObject_last ` set vs)" using v by auto
  have "Min (io_first ` set vs) \<in> io_first ` set vs" "Max (InstObject_last ` set vs) \<in> InstObject_last ` set vs"
    using False by (auto intro: Min_in Max_in)
  then have b: "0 \<le> Min (io_first ` set vs)" "Max (InstObject_last ` set vs) \<le> MAX_MONAD"
    using assms ok by (auto simp: ic_abs_def)
  have ne: "io_first ` set vs \<noteq> {}" "InstObject_last ` set vs \<noteq> {}" using v by auto
  have mn: "ic_min_monad c = Min (io_first ` set vs)"
  proof -
    have "\<not> MAX_MONAD < Min (io_first ` set vs)" using b l v' by linarith
    then show ?thesis
      using Min_step[OF finite_imageI[OF finite_set] ne(1), of MAX_MONAD] assms by (simp only: ic_abs_def if_False)
  qed
  have mx: "ic_max_monad c = Max (InstObject_last ` set vs)"
  proof -
    have "\<not> Max (InstObject_last ` set vs) < 0" using b l v' by linarith
    then show ?thesis
      using Max_step[OF finite_imageI[OF finite_set] ne(2), of 0] assms by (simp only: ic_abs_def if_False)
  qed
  have "\<not> (ic_min_monad c = MAX_MONAD \<and> ic_max_monad c = 0)"
    using l v' mn mx by (auto simp: MAX_MONAD_def)
  then show ?thesis
    using fast_add_range_returns[of FastSetOfMonads_empty "ic_min_monad c" "ic_max_monad c"] mn mx b l v' False
    by (simp add: InstContents_bigUnion_def)
qed

lemma almostRealBigUnion_ok:
  assumes "ic_abs c vs"
  shows "returns (InstContents_almostRealBigUnion c)
    (\<lambda>f. fsom_wf f \<and> fsom_set f = (\<Union>v\<in>set vs. {io_first v..InstObject_last v}))"
proof -
  let ?g = "\<lambda>r v. FastSetOfMonads_add_range r (io_first v) (InstObject_last v)"
  obtain i where i: "SkipList_begin (ic_sl c) = Inr i" "sit_at (ic_sl c) i vs"
    using sit_at_begin[of "ic_sl c" vs] assms by (auto simp: ic_abs_def returns_iff)
  have "almostRealBigUnion_loop (sl_next (ic_sl c)) (ic_sl c) i FastSetOfMonads_empty = foldM_res ?g FastSetOfMonads_empty vs"
    by (rule skl.drain[OF _ i(2)]) (use sit_at_fuel[OF i(2)] in \<open>simp_all add: case_prod_beta\<close>)
  moreover have "returns (foldM_res ?g FastSetOfMonads_empty vs)
     (\<lambda>t. fsom_wf t \<and> fsom_set t = foldl (\<lambda>A v. A \<union> {io_first v..InstObject_last v}) {} vs)"
    by (rule foldM_res_refines[where R = "\<lambda>t A. fsom_wf t \<and> fsom_set t = A"])
      (use assms fast_add_range_returns InstObject_ok_range in \<open>auto simp: ic_abs_def elim!: returns_mono\<close>)
  ultimately show ?thesis using i(1) by (simp add: InstContents_almostRealBigUnion_def foldl_union_image)
qed

lemma objectsAtSm_ok:
  assumes "ic_abs c vs" "Sm < 0x7fffffff"
  shows "returns (InstContents_objectsAtSm c Sm)
    (\<lambda>i. \<exists>us. sit_at (ic_sl c) i us \<and> takeWhile (\<lambda>u. io_first u = Sm) us = filter (\<lambda>u. io_first u = Sm) vs \<and>
               (sit_hasNext (ic_sl c) i \<longleftrightarrow> filter (\<lambda>u. io_first u = Sm) vs \<noteq> []))"
proof -
  have a: "sl_abs (ic_sl c) vs" using assms(1) by (simp add: ic_abs_def)
  obtain i us where i: "SkipList_search (ic_sl c) Sm = Inr i" "sit_at (ic_sl c) i us"
    and run: "takeWhile (\<lambda>u. io_first u = Sm) us = filter (\<lambda>u. io_first u = Sm) vs"
    using skl.search_finds[OF a sl_abs_sorted[OF a] assms(2)] by (auto simp: returns_iff)
  have ex: "filter (\<lambda>u. io_first u = Sm) vs \<noteq> [] \<longleftrightarrow> head_key us = Sm"
    using run_nonempty[of Sm us] assms(2) unfolding run by (auto simp: head_key_def)
  show ?thesis
  proof (cases "head_key us = Sm")
    case True
    then have "us \<noteq> []" using assms(2) by (auto simp: head_key_def)
    then show ?thesis using True i run ex sit_at_hasNext[OF i(2)]
      by (auto simp: InstContents_objectsAtSm_def sit_at_key[OF i(2)])
  next
    case False
    then show ?thesis using i run ex sit_at_NIL[OF a] sit_at_hasNext[OF sit_at_NIL[OF a]]
      by (auto simp: InstContents_objectsAtSm_def sit_at_key[OF i(2)] intro!: exI[of _ "[]"])
  qed
qed

lemma nextAtHigherKey_ok:
  assumes "sit_at (ic_sl (in_contents i)) ci (u # us)" "r = dropWhile (\<lambda>w. io_first w \<le> io_first u) us" "0 \<le> in_last_monad i"
  shows "returns (Inst_nextAtHigherKey i ci)
    (\<lambda>cj. sit_at (ic_sl (in_contents i)) cj (if r \<noteq> [] \<and> head_key r \<le> in_last_monad i then r else []))"
proof -
  let ?l = "ic_sl (in_contents i)"
  have "sit_at ?l (sl_NIL ?l) []" using assms(1) by (auto simp: sit_at_def)
  moreover have "next_key r = (if r = [] then 0 else head_key r)" by (cases r) (auto simp: next_key_def head_key_def)
  ultimately show ?thesis
    using advance_ok[OF assms(1), folded assms(2)] sit_at_hasNext[OF assms(1)] assms(3)
    by (auto simp: Inst_nextAtHigherKey_def Let_def returns_iff)
qed

section \<open>The claims\<close>

definition demo_object :: "id_d_t \<Rightarrow> monad_m \<Rightarrow> monad_m \<Rightarrow> InstObject" where
  "demo_object d f l = InstObject_new d f l None"

lemma demo_object_simps [simp]:
  "io_first (demo_object d f l) = f" "io_id_d (demo_object d f l) = d"
  "InstObject_ok (demo_object d f l) \<longleftrightarrow> 0 \<le> f \<and> f \<le> l \<and> l \<le> MAX_MONAD" "InstObject_last (demo_object d f l) = l"
  by (simp_all add: demo_object_def InstObject_new_def InstObject_ok_def InstObject_last_def)

text \<open>C37: The skip list refines the sorted list of its objects: a new one stands for the empty
  list; inserting an object, whatever level the generator draws for its node, always returns and
  is \<open>insort_key\<close> by first monad and id, so that equal keys keep the newest first; purging
  returns and empties it.\<close>

theorem skip_list_refines_sorted_list:
  assumes "sl_abs l vs" "io_first v < 0x7fffffff"
  shows "sl_abs SkipList_new [] \<and>
    returns (SkipList_insert l (io_first v) v) (\<lambda>l'. sl_abs l' (insort_key obj_key v vs)) \<and>
    sorted (map obj_key vs) \<and> returns (SkipList_purge l) (\<lambda>l'. sl_abs l' [])"
  using sl_abs_new sl_abs_insert[OF assms] sl_abs_sorted[OF assms(1)] purge_ok[OF assms(1)] by blast

theorem skip_list_refines_sorted_list_witness:
  "returns (SkipList_insert SkipList_new 5 (demo_object 7 5 9)) (\<lambda>l'. sl_abs l' [demo_object 7 5 9])"
  using skip_list_refines_sorted_list[OF sl_abs_new, of "demo_object 7 5 9"] by simp

text \<open>C38: The lookups of the skip list, over the sorted list it stands for, for every key below
  the sentinel's: \<open>search\<close> stops at the first object whose key is not smaller; \<open>equal_range\<close>
  finds the key exactly when an object has it and gives the two ends of its run; \<open>hasObject\<close>
  decides whether an object with this key and id is there. All of them return.\<close>

theorem skip_list_lookups:
  assumes "sl_abs l vs" "key < 0x7fffffff"
  shows "returns (SkipList_search l key) (\<lambda>i. sit_at l i (dropWhile (\<lambda>u. io_first u < key) vs)) \<and>
    returns (SkipList_equal_range l key)
      (\<lambda>(found, i, j). found = (\<exists>u\<in>set vs. io_first u = key) \<and>
       (found \<longrightarrow> sit_at l i (dropWhile (\<lambda>u. io_first u < key) vs) \<and>
                 sit_at l j (dropWhile (\<lambda>u. io_first u = key) (dropWhile (\<lambda>u. io_first u < key) vs)))) \<and>
    SkipList_hasObject l key d = Inr (\<exists>u\<in>set vs. io_first u = key \<and> io_id_d u = d)"
  using skl.search_law[OF assms(1), of key] equal_range_ok[OF assms] hasObject_ok[OF assms] assms(2) by simp

theorem skip_list_lookups_witness: "SkipList_hasObject SkipList_new 3 1 = Inr False"
  using skip_list_lookups[OF sl_abs_new, of 3 1] by simp

text \<open>C39: Drawing a level ends: the linear congruential generator's lowest bit alternates, so a
  run of zero bits longer than two refills cannot happen, 64 bits are always enough, and the
  level is at most the highest one. Nothing but the generator's state changes.\<close>

theorem randomLevel_terminates_bounded:
  assumes "rand_ok l"
  shows "returns (randomLevel l) (\<lambda>(k, l'). k \<le> MAX_LEVEL \<and> rand_ok l' \<and> same_but_random l l')"
  by (rule randomLevel_returns[OF assms])

theorem randomLevel_terminates_bounded_witness:
  "returns (randomLevel SkipList_new) (\<lambda>(k, l'). k \<le> MAX_LEVEL \<and> rand_ok l' \<and> same_but_random SkipList_new l')"
  by (rule randomLevel_terminates_bounded) (simp add: rand_ok_def SkipList_new_def Let_def BITS_TO_USE_FROM_RANDOM_def)

text \<open>C40: Filling an \<open>InstContents\<close> with objects, in whatever order, returns, and gives the
  objects sorted by first monad and id; \<open>bigUnion\<close> is then the stretch from the smallest first
  to the largest last monad, \<open>almostRealBigUnion\<close> the union of the objects' stretches, and
  after \<open>fillingIsDone\<close> adding an object is an assertion failure.\<close>

theorem inst_contents_filled:
  assumes "\<forall>v\<in>set vs. InstObject_ok v" "vs \<noteq> []"
  shows "returns (foldM_res (\<lambda>c v. InstContents_addObject c v (io_first v) (InstObject_last v)) InstContents_new vs)
    (\<lambda>c. ic_abs c (sort_key obj_key (rev vs)) \<and>
      returns (InstContents_bigUnion c)
        (\<lambda>f. fsom_wf f \<and> fsom_set f = {Min (io_first ` set vs)..Max (InstObject_last ` set vs)}) \<and>
      returns (InstContents_almostRealBigUnion c)
        (\<lambda>f. fsom_wf f \<and> fsom_set f = (\<Union>v\<in>set vs. {io_first v..InstObject_last v})) \<and>
      InstContents_addObject (InstContents_fillingIsDone c) w m n = Inl EmdrosException)"
proof -
  have "returns (foldM_res (\<lambda>c v. InstContents_addObject c v (io_first v) (InstObject_last v)) InstContents_new vs)
     (\<lambda>c. ic_abs c (foldl (\<lambda>a v. insort_key obj_key v a) [] vs) \<and> \<not> ic_is_frozen c)"
    by (rule foldM_res_refines[where R = "\<lambda>c vs. ic_abs c vs \<and> \<not> ic_is_frozen c"])
      (use assms ic_abs_addObject ic_abs_new in \<open>auto simp: InstContents_new_def\<close>)
  then have "returns (foldM_res (\<lambda>c v. InstContents_addObject c v (io_first v) (InstObject_last v)) InstContents_new vs)
     (\<lambda>c. ic_abs c (sort_key obj_key (rev vs)))"
    by (auto elim!: returns_mono simp: sort_key_def foldr_conv_foldl)
  then show ?thesis
  proof (rule returns_mono)
    fix c assume c: "ic_abs c (sort_key obj_key (rev vs))"
    have "sort_key obj_key (rev vs) \<noteq> []" 
      using assms(2) length_sort[of obj_key "rev vs"] by (metis length_0_conv length_rev)
    then show "ic_abs c (sort_key obj_key (rev vs)) \<and>
      returns (InstContents_bigUnion c)
        (\<lambda>f. fsom_wf f \<and> fsom_set f = {Min (io_first ` set vs)..Max (InstObject_last ` set vs)}) \<and>
      returns (InstContents_almostRealBigUnion c)
        (\<lambda>f. fsom_wf f \<and> fsom_set f = (\<Union>v\<in>set vs. {io_first v..InstObject_last v})) \<and>
      InstContents_addObject (InstContents_fillingIsDone c) w m n = Inl EmdrosException"
      using c bigUnion_ok[OF c] almostRealBigUnion_ok[OF c]
      by (simp add: InstContents_addObject_def InstContents_fillingIsDone_def)
  qed
qed

theorem inst_contents_filled_witness:
  "returns (foldM_res (\<lambda>c v. InstContents_addObject c v (io_first v) (InstObject_last v)) InstContents_new
      [demo_object 2 5 9, demo_object 1 3 4])
    (\<lambda>c. ic_abs c [demo_object 1 3 4, demo_object 2 5 9])"
  by (rule returns_mono[OF inst_contents_filled[of "[demo_object 2 5 9, demo_object 1 3 4]" "demo_object 0 0 0" 0 0]])
    (auto simp: MAX_MONAD_def obj_key_def)

text \<open>Looking up a starting monad in a filled \<open>InstContents\<close>: \<open>objectsAtSm\<close> returns an
  iterator whose next objects are exactly those that start there, in order, and that has nothing
  left when there are none.\<close>

theorem inst_objectsAtSm_exact:
  assumes "ic_abs c vs" "Sm < 0x7fffffff"
  shows "returns (InstContents_objectsAtSm c Sm)
    (\<lambda>i. \<exists>us. sit_at (ic_sl c) i us \<and> takeWhile (\<lambda>u. io_first u = Sm) us = filter (\<lambda>u. io_first u = Sm) vs \<and>
               (sit_hasNext (ic_sl c) i \<longleftrightarrow> filter (\<lambda>u. io_first u = Sm) vs \<noteq> []))"
  by (rule objectsAtSm_ok[OF assms])

theorem inst_objectsAtSm_exact_witness:
  "returns (InstContents_objectsAtSm InstContents_new 4) (\<lambda>i. \<not> sit_hasNext (ic_sl InstContents_new) i)"
  using inst_objectsAtSm_exact[OF ic_abs_new, of 4] by (auto elim!: returns_mono)

text \<open>An object keeps its first and last monad in step with its set of monads: adding a
  stretch returns, adds exactly its monads, keeps id and features, and the stored first monad
  stays the least one.\<close>

theorem inst_object_addMse_invariant:
  assumes "InstObject_ok v" "0 \<le> f" "f \<le> l" "l \<le> MAX_MONAD"
  shows "returns (InstObject_addMse v f l)
    (\<lambda>w. InstObject_ok w \<and> object_set w = object_set v \<union> {f..l} \<and> io_id_d w = io_id_d v \<and>
         io_features w = io_features v \<and> io_first w = Min (object_set w) \<and> InstObject_last w = Max (object_set w))"
  using addMse_ok[OF assms] by (auto elim!: returns_mono dest: InstObject_ok_range(4,5))

theorem inst_object_addMse_invariant_witness:
  "returns (InstObject_addMse (demo_object 1 3 4) 1 2) (\<lambda>w. io_first w = Min {1..4})"
proof -
  have "object_set (demo_object 1 3 4) \<union> {1..2} = {1..4}"
    by (auto simp: object_set_def demo_object_def InstObject_new_def)
  then show ?thesis
    by (intro returns_mono[OF inst_object_addMse_invariant[of "demo_object 1 3 4" 1 2]]) (auto simp: MAX_MONAD_def)
qed

end
