(* ===== verification/Sheaf.thy ===== *)
theory Sheaf
  imports Inst StdMap
begin

text \<open>
  The results of topographic queries, after \<^verbatim>\<open>MQL/mql_sheaf.cpp\<close> and
  \<^verbatim>\<open>include/mql_sheaf.h\<close>: matched objects with their packed kind, monads and values, straws,
  lists of straws, sheaves, and flat sheaves. A list of straws is the HOL list of its straws; the
  code's pointers to fresh copies become values, and each copy the code makes is a call of the
  copy constructor's model, with the dereferences and assertions that can fail there.
\<close>

section \<open>Object blocks as the sheaf sees them\<close>

datatype eRetrieval = kNoRetrieve | kRetrieve | kRetrieveFocus

text \<open>The part of \<open>ObjectBlockBase\<close> (\<^verbatim>\<open>include/mql_query.h\<close>) that matched objects ask for.\<close>

record ObjectBlockBase =
  obb_node_number :: int
  obb_retrieval :: eRetrieval
  obb_object_type_name :: string
  obb_object_type_id :: id_d_t
  obb_NoOfGET_features :: nat
  obb_Feature_retrieval_vec :: "string list"
  obb_mark :: string

definition isFocus :: "ObjectBlockBase \<Rightarrow> bool" where
  "isFocus b \<longleftrightarrow> obb_retrieval b = kRetrieveFocus"

definition isToBeRetrieved :: "ObjectBlockBase \<Rightarrow> bool" where
  "isToBeRetrieved b \<longleftrightarrow> obb_retrieval b \<noteq> kNoRetrieve"

definition getFeatureRetrievalFeature :: "ObjectBlockBase \<Rightarrow> nat \<Rightarrow> string res" where
  "getFeatureRetrievalFeature b index =
     bind_res (ASSERT_THROW (index < length (obb_Feature_retrieval_vec b))) (\<lambda>_.
       Inr (obb_Feature_retrieval_vec b ! index))"

section \<open>Matched objects, straws and sheaves\<close>

datatype mo_u = U_first monad_m | U_pMonad_ms SetOfMonads

text \<open>A pointer in the vector of values may be null, and so may the vector.\<close>

datatype mo_values = V_vec "EMdFValue option list option" | V_inst InstObject

datatype MatchedObject =
    MatchedObject (mo_last: monad_m) (mo_u: mo_u) (mo_id_d: id_d_t) (mo_pObjectBlock: "ObjectBlockBase option")
      (mo_values: mo_values) (mo_sheaf: "Sheaf option")
and Straw = Straw (straw_last: monad_m) (straw_list: "MatchedObject list")
and Sheaf = Sheaf (m_plist: "Straw list option")

type_synonym ListOfStraws = "Straw list"

datatype eMOKind = kMOKNIL_mo | kMOKEMPTY_mo | kMOKID_M | kMOKID_D

definition MatchedObject_empty :: "monad_m \<Rightarrow> MatchedObject" where
  "MatchedObject_empty SmMinus1 = MatchedObject SmMinus1 (U_first SmMinus1) (-1) None (V_vec None) None"

text \<open>The last monad and the union, for a set of monads.\<close>

definition pack_monads :: "SetOfMonads \<Rightarrow> monad_m \<times> mo_u" where
  "pack_monads monads =
     (if SetOfMonads_hasOnlyOneMSE monads then (m_last monads, U_first (m_first monads))
      else (-1 * m_last monads, U_pMonad_ms monads))"

definition MatchedObject_id_d ::
  "id_d_t \<Rightarrow> SetOfMonads \<Rightarrow> Sheaf option \<Rightarrow> ObjectBlockBase option \<Rightarrow> MatchedObject" where
  "MatchedObject_id_d id_d monads sheaf pObjectBlock =
     (let (l, u) = pack_monads monads in MatchedObject l u id_d pObjectBlock (V_vec None) sheaf)"

definition MatchedObject_id_d_range ::
  "id_d_t \<Rightarrow> monad_m \<Rightarrow> monad_m \<Rightarrow> Sheaf option \<Rightarrow> ObjectBlockBase option \<Rightarrow> MatchedObject" where
  "MatchedObject_id_d_range id_d first_monad last_monad sheaf pObjectBlock =
     MatchedObject last_monad (U_first first_monad) id_d pObjectBlock (V_vec None) sheaf"

definition MatchedObject_id_m ::
  "SetOfMonads \<Rightarrow> ObjectBlockBase option \<Rightarrow> bool \<Rightarrow> bool \<Rightarrow> Sheaf option \<Rightarrow> MatchedObject" where
  "MatchedObject_id_m monads pOBB bRetrieve bFocus sheaf =
     (let (l, u) = pack_monads monads
      in MatchedObject l u (if bFocus then -4 else if bRetrieve then -3 else -2) pOBB (V_vec None) sheaf)"

definition MatchedObject_inst :: "InstObject \<Rightarrow> ObjectBlockBase option \<Rightarrow> MatchedObject res" where
  "MatchedObject_inst pInstObj pObjectBlock =
     bind_res (if InstObject_somHasOnlyOneMSE pInstObj
               then Inr (InstObject_last pInstObj, U_first (io_first pInstObj))
               else bind_res (InstObject_getMonads pInstObj) (\<lambda>monads.
                      Inr (-1 * InstObject_last pInstObj, U_pMonad_ms monads))) (\<lambda>(l, u).
       Inr (MatchedObject l u (-1 * io_id_d pInstObj - 5) pObjectBlock (V_inst pInstObj) None))"

subsection \<open>Kind, identity, monads\<close>

definition NIL :: id_d_t where "NIL = 0"

definition getID_D :: "MatchedObject \<Rightarrow> id_d_t" where
  "getID_D mo = (if mo_id_d mo \<ge> 0 then mo_id_d mo
                 else if mo_id_d mo \<le> -5 then -1 * (mo_id_d mo + 5) else NIL)"

definition getKind :: "MatchedObject \<Rightarrow> eMOKind" where
  "getKind mo = (if mo_id_d mo \<ge> 0 then kMOKID_D else if mo_id_d mo = -1 then kMOKEMPTY_mo
                 else if mo_id_d mo \<le> -5 then kMOKID_D else if mo_id_d mo \<le> -2 then kMOKID_M else kMOKID_D)"

definition isID_M :: "MatchedObject \<Rightarrow> bool" where
  "isID_M mo \<longleftrightarrow> mo_id_d mo \<le> -2 \<and> mo_id_d mo \<ge> -4"

definition isInstObject :: "MatchedObject \<Rightarrow> bool" where
  "isInstObject mo \<longleftrightarrow> mo_id_d mo \<le> -5"

definition isID_D :: "MatchedObject \<Rightarrow> bool" where
  "isID_D mo \<longleftrightarrow> mo_id_d mo \<ge> 0 \<or> mo_id_d mo \<le> -5"

definition isEMPTY_mo :: "MatchedObject \<Rightarrow> bool" where
  "isEMPTY_mo mo \<longleftrightarrow> mo_id_d mo = -1"

definition mo_block :: "MatchedObject \<Rightarrow> ObjectBlockBase res" where
  "mo_block mo = (case mo_pObjectBlock mo of None \<Rightarrow> Inl NullDeref | Some b \<Rightarrow> Inr b)"

definition getFocus :: "MatchedObject \<Rightarrow> bool res" where
  "getFocus mo = (if isID_D mo then bind_res (mo_block mo) (\<lambda>b. Inr (isFocus b)) else Inr (mo_id_d mo = -4))"

definition getRetrieve :: "MatchedObject \<Rightarrow> bool res" where
  "getRetrieve mo =
     (if isID_D mo then bind_res (mo_block mo) (\<lambda>b. Inr (isToBeRetrieved b)) else Inr (mo_id_d mo \<le> -3))"

definition getMarksString :: "MatchedObject \<Rightarrow> string res" where
  "getMarksString mo =
     (if mo_id_d mo \<ge> 0 \<or> mo_id_d mo \<le> -2 then bind_res (mo_block mo) (\<lambda>b. Inr (obb_mark b)) else Inr [])"

definition getMonads :: "MatchedObject \<Rightarrow> SetOfMonads res" where
  "getMonads mo =
     (if mo_last mo \<ge> 0
      then (case mo_u mo of U_first f \<Rightarrow> SetOfMonads_range f (mo_last mo) | U_pMonad_ms s \<Rightarrow> Inl NullDeref)
      else (case mo_u mo of U_first f \<Rightarrow> Inl NullDeref | U_pMonad_ms s \<Rightarrow> Inr s))"

definition mo_getFirst :: "MatchedObject \<Rightarrow> monad_m res" where
  "mo_getFirst mo =
     (if mo_last mo \<ge> 0
      then (case mo_u mo of U_first f \<Rightarrow> Inr f | U_pMonad_ms s \<Rightarrow> Inl NullDeref)
      else (case mo_u mo of U_first f \<Rightarrow> Inl NullDeref | U_pMonad_ms s \<Rightarrow> Inr (m_first s)))"

definition mo_getLast :: "MatchedObject \<Rightarrow> monad_m" where
  "mo_getLast mo = (if mo_last mo \<ge> 0 then mo_last mo else mo_last mo * -1)"

definition sheafIsEmpty :: "MatchedObject \<Rightarrow> bool" where
  "sheafIsEmpty mo =
     (case mo_sheaf mo of None \<Rightarrow> True
      | Some s \<Rightarrow> (case m_plist s of None \<Rightarrow> True | Some los \<Rightarrow> los = []))"

definition OBJECT_TYPE_POW_M :: id_d_t where "OBJECT_TYPE_POW_M = -1"

definition getObjectTypeName :: "MatchedObject \<Rightarrow> string res" where
  "getObjectTypeName mo =
     (if mo_id_d mo < 0 \<and> mo_id_d mo \<ge> -4 then Inr ''pow_m''
      else bind_res (mo_block mo) (\<lambda>b. Inr (obb_object_type_name b)))"

definition getObjectTypeId :: "MatchedObject \<Rightarrow> id_d_t res" where
  "getObjectTypeId mo =
     (if mo_id_d mo < 0 \<and> mo_id_d mo \<ge> -4 then Inr OBJECT_TYPE_POW_M
      else bind_res (mo_block mo) (\<lambda>b. Inr (obb_object_type_id b)))"

subsection \<open>Values\<close>

definition mo_set_values :: "MatchedObject \<Rightarrow> mo_values \<Rightarrow> MatchedObject" where
  "mo_set_values mo v = MatchedObject (mo_last mo) (mo_u mo) (mo_id_d mo) (mo_pObjectBlock mo) v (mo_sheaf mo)"

definition value_vec :: "MatchedObject \<Rightarrow> EMdFValue option list option res" where
  "value_vec mo = (case mo_values mo of V_vec v \<Rightarrow> Inr v | V_inst i \<Rightarrow> Inl NullDeref)"

definition value_inst :: "MatchedObject \<Rightarrow> InstObject res" where
  "value_inst mo = (case mo_values mo of V_vec v \<Rightarrow> Inl NullDeref | V_inst i \<Rightarrow> Inr i)"

text \<open>\<open>getFeatureValueArrSize\<close> is the length of the array the object was built with.\<close>

definition feature_arr_size :: "InstObject \<Rightarrow> nat" where
  "feature_arr_size i = (case io_features i of None \<Rightarrow> 0 | Some arr \<Rightarrow> length arr)"

definition getNoOfEMdFValues :: "MatchedObject \<Rightarrow> nat res" where
  "getNoOfEMdFValues mo =
     (if isInstObject mo then bind_res (value_inst mo) (\<lambda>i. Inr (feature_arr_size i))
      else bind_res (value_vec mo) (\<lambda>v. Inr (case v of None \<Rightarrow> 0 | Some vec \<Rightarrow> length vec)))"

text \<open>The null pointer is returned for an index out of range.\<close>

definition mo_getEMdFValue :: "MatchedObject \<Rightarrow> int \<Rightarrow> EMdFValue option res" where
  "mo_getEMdFValue mo index =
     (if isInstObject mo
      then bind_res (value_inst mo) (\<lambda>i.
             if index < 0 \<or> index \<ge> int (feature_arr_size i) then Inr None
             else bind_res (InstObject_getFeature i (nat index)) (\<lambda>v. Inr (Some v)))
      else bind_res (value_vec mo) (\<lambda>v.
             case v of None \<Rightarrow> Inr None
             | Some vec \<Rightarrow> if index < 0 \<or> index \<ge> int (length vec) then Inr None else Inr (vec ! nat index)))"

fun find_feature_loop :: "ObjectBlockBase \<Rightarrow> string \<Rightarrow> nat \<Rightarrow> nat \<Rightarrow> int res" where
  "find_feature_loop b feature_name i 0 = Inr (-1)"
| "find_feature_loop b feature_name i (Suc left) =
     bind_res (getFeatureRetrievalFeature b i) (\<lambda>v_feature_name.
       if strcmp_nocase feature_name v_feature_name = 0 then Inr (int i)
       else find_feature_loop b feature_name (i + 1) left)"

definition getEMdFValueIndex :: "MatchedObject \<Rightarrow> string \<Rightarrow> int res" where
  "getEMdFValueIndex mo feature_name =
     bind_res (getNoOfEMdFValues mo) (\<lambda>size1.
       if size1 = 0 then Inr (-1)
       else bind_res (mo_block mo) (\<lambda>b. find_feature_loop b feature_name 0 size1))"

definition mo_getEMdFValue_name :: "MatchedObject \<Rightarrow> string \<Rightarrow> EMdFValue option res" where
  "mo_getEMdFValue_name mo feature_name =
     bind_res (getEMdFValueIndex mo feature_name) (mo_getEMdFValue mo)"

definition getFeatureAsLong :: "MatchedObject \<Rightarrow> int \<Rightarrow> int res" where
  "getFeatureAsLong mo index =
     bind_res (mo_getEMdFValue mo index) (\<lambda>pValue.
       case pValue of
         None \<Rightarrow> Inl EmdrosException
       | Some v \<Rightarrow> (case v of kEVInt i \<Rightarrow> Inr i | kEVEnum i \<Rightarrow> Inr i | kEVID_D i \<Rightarrow> Inr i | _ \<Rightarrow> Inl EmdrosException))"

definition addEMdFValue :: "MatchedObject \<Rightarrow> nat \<Rightarrow> EMdFValue option \<Rightarrow> MatchedObject res" where
  "addEMdFValue mo feature_index pValue =
     (if isInstObject mo then Inl EmdrosException
      else bind_res (value_vec mo) (\<lambda>v.
           bind_res (case v of
               Some vec \<Rightarrow> Inr vec
             | None \<Rightarrow> (case mo_pObjectBlock mo of
                 None \<Rightarrow> Inl EmdrosException
               | Some b \<Rightarrow> Inr (replicate (length (obb_Feature_retrieval_vec b)) None))) (\<lambda>vec.
             if feature_index < length vec
             then Inr (mo_set_values mo (V_vec (Some (vec[feature_index := pValue]))))
             else Inl NullDeref)))"

section \<open>Copying\<close>

text \<open>The loop over the other object's vector, which dereferences each pointer.\<close>

fun copy_values :: "MatchedObject \<Rightarrow> nat \<Rightarrow> EMdFValue option list \<Rightarrow> MatchedObject res" where
  "copy_values mo i [] = Inr mo"
| "copy_values mo i (None # vec) = Inl NullDeref"
| "copy_values mo i (Some v # vec) = bind_res (addEMdFValue mo i (Some v)) (\<lambda>mo1. copy_values mo1 (i + 1) vec)"

definition copy_fields ::
  "monad_m \<Rightarrow> mo_u \<Rightarrow> id_d_t \<Rightarrow> ObjectBlockBase option \<Rightarrow> mo_values \<Rightarrow> Sheaf option \<Rightarrow> MatchedObject res" where
  "copy_fields l u d b v sheaf =
     bind_res (if l \<ge> 0 then (case u of U_first f \<Rightarrow> Inr u | U_pMonad_ms s \<Rightarrow> Inl NullDeref)
               else (case u of U_first f \<Rightarrow> Inl NullDeref | U_pMonad_ms s \<Rightarrow> Inr u)) (\<lambda>u1.
       let b1 = (if d \<ge> 0 \<or> d \<le> -2 then b else None)
       in if d \<le> -5
          then (case v of V_inst i \<Rightarrow> Inr (MatchedObject l u1 d b1 v sheaf) | V_vec _ \<Rightarrow> Inl NullDeref)
          else (case v of
                  V_inst i \<Rightarrow> Inl NullDeref
                | V_vec None \<Rightarrow> Inr (MatchedObject l u1 d b1 (V_vec None) sheaf)
                | V_vec (Some vec) \<Rightarrow> copy_values (MatchedObject l u1 d b1 (V_vec None) sheaf) 0 vec))"

text \<open>The vector of blocks that a sheaf owns is left out, and with it the assertion that a copied sheaf has none.\<close>

fun copyMO :: "MatchedObject \<Rightarrow> MatchedObject res"
and copyMOs :: "MatchedObject list \<Rightarrow> MatchedObject list res"
and Straw_copyOther :: "Straw \<Rightarrow> Straw res"
and ListOfStraws_copyOther :: "Straw list \<Rightarrow> Straw list res"
and Sheaf_copyOther :: "Sheaf \<Rightarrow> Sheaf res" where
  "copyMO (MatchedObject l u d b v None) = copy_fields l u d b v None"
| "copyMO (MatchedObject l u d b v (Some s)) =
     bind_res (Sheaf_copyOther s) (\<lambda>s1. copy_fields l u d b v (Some s1))"
| "copyMOs [] = Inr []"
| "copyMOs (mo # mos) = bind_res (copyMO mo) (\<lambda>mo1. bind_res (copyMOs mos) (\<lambda>mos1. Inr (mo1 # mos1)))"
| "Straw_copyOther (Straw l mos) = bind_res (copyMOs mos) (\<lambda>mos1. Inr (Straw l mos1))"
| "ListOfStraws_copyOther [] = Inr []"
| "ListOfStraws_copyOther (s # ss) =
     bind_res (Straw_copyOther s) (\<lambda>s1. bind_res (ListOfStraws_copyOther ss) (\<lambda>ss1. Inr (s1 # ss1)))"
| "Sheaf_copyOther (Sheaf None) = Inr (Sheaf None)"
| "Sheaf_copyOther (Sheaf (Some los)) = bind_res (ListOfStraws_copyOther los) (\<lambda>los1. Inr (Sheaf (Some los1)))"

section \<open>Straws and lists of straws\<close>

definition Straw_new :: Straw where "Straw_new = Straw 0 []"

definition Straw_updateLast :: "Straw \<Rightarrow> MatchedObject \<Rightarrow> Straw" where
  "Straw_updateLast s mo =
     (let mo_last1 = mo_getLast mo in if mo_last1 > straw_last s then Straw mo_last1 (straw_list s) else s)"

definition Straw_append :: "Straw \<Rightarrow> MatchedObject \<Rightarrow> Straw" where
  "Straw_append s mo = Straw_updateLast (Straw (straw_last s) (straw_list s @ [mo])) mo"

definition Straw_isEmpty :: "Straw \<Rightarrow> bool" where
  "Straw_isEmpty s \<longleftrightarrow> straw_list s = []"

text \<open>The other straw's objects go before the own ones; the last monad stays the own one.\<close>

definition Straw_prependAndTakeOver :: "Straw \<Rightarrow> Straw \<Rightarrow> Straw" where
  "Straw_prependAndTakeOver s other = Straw (straw_last s) (straw_list other @ straw_list s)"

fun prepend_rest :: "MatchedObject list \<Rightarrow> MatchedObject list \<Rightarrow> MatchedObject list \<Rightarrow> MatchedObject list res" where
  "prepend_rest before [] after = Inr (before @ after)"
| "prepend_rest before (pMO # ci) after =
     bind_res (copyMO pMO) (\<lambda>mo. prepend_rest (before @ [mo]) ci after)"

definition Straw_prepend :: "Straw \<Rightarrow> Straw \<Rightarrow> Straw res" where
  "Straw_prepend s other =
     (case straw_list other of
        [] \<Rightarrow> Inr s
      | pMO # ci \<Rightarrow>
          bind_res (copyMO pMO) (\<lambda>mo.
          bind_res (prepend_rest [mo] ci (straw_list s)) (\<lambda>l. Inr (Straw (straw_last s) l))))"

definition LOS_append :: "ListOfStraws \<Rightarrow> Straw \<Rightarrow> ListOfStraws" where
  "LOS_append los straw = los @ [straw]"

definition appendAndSubsume :: "ListOfStraws \<Rightarrow> ListOfStraws \<Rightarrow> ListOfStraws" where
  "appendAndSubsume los pOther = los @ pOther"

definition appendACopy :: "ListOfStraws \<Rightarrow> ListOfStraws \<Rightarrow> ListOfStraws res" where
  "appendACopy los pOther = foldM_res (\<lambda>l s. bind_res (Straw_copyOther s) (\<lambda>s1. Inr (l @ [s1]))) los pOther"

definition filter_straw :: "MatchedObject list \<Rightarrow> Straw res" where
  "filter_straw mos =
     foldM_res (\<lambda>s mo. bind_res (getRetrieve mo) (\<lambda>r.
       if r then bind_res (copyMO mo) (\<lambda>mo1. Inr (Straw_append s mo1)) else Inr s)) Straw_new mos"

definition appendAndSubsumeWhileFiltering :: "ListOfStraws \<Rightarrow> ListOfStraws \<Rightarrow> (ListOfStraws \<times> int) res" where
  "appendAndSubsumeWhileFiltering los pOther =
     foldM_res (\<lambda>(l, straw_count) pOtherStraw.
       bind_res (filter_straw (straw_list pOtherStraw)) (\<lambda>pNewStraw.
         Inr (if Straw_isEmpty pNewStraw then (l, straw_count) else (LOS_append l pNewStraw, straw_count + 1))))
       (los, 0) pOther"

fun counting_loop ::
  "ListOfStraws \<Rightarrow> ListOfStraws \<Rightarrow> int \<Rightarrow> int \<Rightarrow> int \<Rightarrow> int \<Rightarrow> (ListOfStraws \<times> int) res" where
  "counting_loop los [] start_index count straw_count straw_index = Inr (los, straw_count)"
| "counting_loop los (pOtherStraw # other_ci) start_index count straw_count straw_index =
     bind_res (Straw_copyOther pOtherStraw) (\<lambda>pNewStraw.
       let b = (straw_index \<ge> start_index \<and> straw_count \<le> count);
           los1 = (if b then LOS_append los pNewStraw else los);
           straw_count1 = (if b then straw_count + 1 else straw_count)
       in if straw_index + 1 > start_index + count then Inr (los1, straw_count1)
          else counting_loop los1 other_ci start_index count straw_count1 (straw_index + 1))"

definition appendAndSubsumeWhileCounting ::
  "ListOfStraws \<Rightarrow> ListOfStraws \<Rightarrow> int \<Rightarrow> int \<Rightarrow> (ListOfStraws \<times> int) res" where
  "appendAndSubsumeWhileCounting los pOther start_index count = counting_loop los pOther start_index count 0 0"

fun prepend_all :: "Straw \<Rightarrow> ListOfStraws \<Rightarrow> ListOfStraws res" where
  "prepend_all mys [] = Inr []"
| "prepend_all mys (s # ci) =
     bind_res (Straw_prepend s mys) (\<lambda>s1. bind_res (prepend_all mys ci) (\<lambda>ss. Inr (s1 # ss)))"

definition LOS_join :: "ListOfStraws \<Rightarrow> Straw \<Rightarrow> ListOfStraws res" where
  "LOS_join los mys =
     (case los of
        [] \<Rightarrow> bind_res (Straw_copyOther mys) (\<lambda>s. Inr [s])
      | [s] \<Rightarrow> bind_res (Straw_prepend s mys) (\<lambda>s1. Inr [s1])
      | _ \<Rightarrow> prepend_all mys los)"

definition LOS_joinAndTakeOver :: "ListOfStraws \<Rightarrow> Straw \<Rightarrow> ListOfStraws res" where
  "LOS_joinAndTakeOver los s =
     (case los of
        [] \<Rightarrow> Inr [s]
      | [t] \<Rightarrow> Inr [Straw_prependAndTakeOver t s]
      | _ \<Rightarrow> prepend_all s los)"

section \<open>Sheaves\<close>

definition Sheaf_new :: "bool \<Rightarrow> Sheaf" where
  "Sheaf_new isFail = (if isFail then Sheaf None else Sheaf (Some []))"

definition Sheaf_of :: "ListOfStraws \<Rightarrow> Sheaf" where
  "Sheaf_of plist = Sheaf (Some plist)"

definition Sheaf_isFail :: "Sheaf \<Rightarrow> bool" where
  "Sheaf_isFail s \<longleftrightarrow> m_plist s = None"

definition Sheaf_appendAndSubsume :: "Sheaf \<Rightarrow> Sheaf \<Rightarrow> Sheaf res" where
  "Sheaf_appendAndSubsume s pOther =
     (case (m_plist s, m_plist pOther) of
        (Some los, Some los1) \<Rightarrow> Inr (Sheaf (Some (appendAndSubsume los los1)))
      | _ \<Rightarrow> Inl NullDeref)"

text \<open>The conditions under which one matched object is counted.\<close>

definition count_focus :: "bool \<Rightarrow> MatchedObject \<Rightarrow> bool res" where
  "count_focus bUseOnlyFocusObjects mo = (if bUseOnlyFocusObjects then getFocus mo else Inr True)"

definition count_type :: "string \<Rightarrow> bool \<Rightarrow> MatchedObject \<Rightarrow> bool res" where
  "count_type object_type_name bUseOnlyFocusObjects mo =
     bind_res (count_focus bUseOnlyFocusObjects mo) (\<lambda>bDoIt.
       if bDoIt \<and> object_type_name \<noteq> []
       then bind_res (getObjectTypeName mo) (\<lambda>n. Inr (object_type_name = n)) else Inr bDoIt)"

text \<open>Both counts walk the same way; they differ in the condition.\<close>

fun countObjects_mo :: "(MatchedObject \<Rightarrow> bool res) \<Rightarrow> MatchedObject \<Rightarrow> int res"
and countObjects_mos :: "(MatchedObject \<Rightarrow> bool res) \<Rightarrow> MatchedObject list \<Rightarrow> int \<Rightarrow> int res"
and countObjects_straws :: "(MatchedObject \<Rightarrow> bool res) \<Rightarrow> Straw list \<Rightarrow> int \<Rightarrow> int res"
and countObjects_sheaf :: "(MatchedObject \<Rightarrow> bool res) \<Rightarrow> Sheaf \<Rightarrow> int res" where
  "countObjects_mo f (MatchedObject l u d b v None) =
     bind_res (f (MatchedObject l u d b v None)) (\<lambda>bDoIt. Inr (if bDoIt then 1 else 0))"
| "countObjects_mo f (MatchedObject l u d b v (Some s)) =
     bind_res (f (MatchedObject l u d b v (Some s))) (\<lambda>bDoIt.
     bind_res (countObjects_sheaf f s) (\<lambda>n. Inr ((if bDoIt then 1 else 0) + n)))"
| "countObjects_mos f [] result = Inr result"
| "countObjects_mos f (mo # ci) result = bind_res (countObjects_mo f mo) (\<lambda>n. countObjects_mos f ci (result + n))"
| "countObjects_straws f [] result = Inr result"
| "countObjects_straws f (Straw l mos # ci) result =
     bind_res (countObjects_mos f mos 0) (\<lambda>n. countObjects_straws f ci (result + n))"
| "countObjects_sheaf f (Sheaf None) = Inr 0"
| "countObjects_sheaf f (Sheaf (Some los)) = countObjects_straws f los 0"

definition Sheaf_countObjects :: "bool \<Rightarrow> Sheaf \<Rightarrow> int res" where
  "Sheaf_countObjects bUseOnlyFocusObjects s = countObjects_sheaf (count_focus bUseOnlyFocusObjects) s"

definition Sheaf_countObjectsFromObjectType :: "string \<Rightarrow> bool \<Rightarrow> Sheaf \<Rightarrow> int res" where
  "Sheaf_countObjectsFromObjectType object_type_name bUseOnlyFocusObjects s =
     countObjects_sheaf (count_type object_type_name bUseOnlyFocusObjects) s"

fun countStraws_mo :: "MatchedObject \<Rightarrow> int"
and countStraws_mos :: "MatchedObject list \<Rightarrow> int \<Rightarrow> int"
and countStraws_straws :: "Straw list \<Rightarrow> int \<Rightarrow> int"
and Sheaf_countStraws :: "Sheaf \<Rightarrow> int" where
  "countStraws_mo (MatchedObject l u d b v None) = 0"
| "countStraws_mo (MatchedObject l u d b v (Some s)) = Sheaf_countStraws s"
| "countStraws_mos [] result = result"
| "countStraws_mos (mo # ci) result = countStraws_mos ci (result + countStraws_mo mo)"
| "countStraws_straws [] result = result"
| "countStraws_straws (Straw l mos # ci) result = countStraws_straws ci (result + countStraws_mos mos 1)"
| "Sheaf_countStraws (Sheaf None) = 0"
| "Sheaf_countStraws (Sheaf (Some los)) = countStraws_straws los 0"

definition mo_addSOM :: "bool \<Rightarrow> SetOfMonads \<Rightarrow> MatchedObject \<Rightarrow> SetOfMonads res" where
  "mo_addSOM bUseOnlyFocusObjects som mo =
     bind_res (count_focus bUseOnlyFocusObjects mo) (\<lambda>bDoIt.
       if bDoIt then bind_res (getMonads mo) (\<lambda>s. Inr (SetOfMonads_unionWith som s)) else Inr som)"

fun getSOM_mo :: "bool \<Rightarrow> SetOfMonads \<Rightarrow> MatchedObject \<Rightarrow> SetOfMonads res"
and getSOM_mos :: "bool \<Rightarrow> SetOfMonads \<Rightarrow> MatchedObject list \<Rightarrow> SetOfMonads res"
and getSOM_straws :: "bool \<Rightarrow> SetOfMonads \<Rightarrow> Straw list \<Rightarrow> SetOfMonads res"
and Sheaf_getSOM :: "bool \<Rightarrow> SetOfMonads \<Rightarrow> Sheaf \<Rightarrow> SetOfMonads res" where
  "getSOM_mo f som (MatchedObject l u d b v None) = mo_addSOM f som (MatchedObject l u d b v None)"
| "getSOM_mo f som (MatchedObject l u d b v (Some s)) =
     bind_res (mo_addSOM f som (MatchedObject l u d b v (Some s))) (\<lambda>som1. Sheaf_getSOM f som1 s)"
| "getSOM_mos f som [] = Inr som"
| "getSOM_mos f som (mo # ci) = bind_res (getSOM_mo f som mo) (\<lambda>som1. getSOM_mos f som1 ci)"
| "getSOM_straws f som [] = Inr som"
| "getSOM_straws f som (Straw l mos # ci) = bind_res (getSOM_mos f som mos) (\<lambda>som1. getSOM_straws f som1 ci)"
| "Sheaf_getSOM f som (Sheaf None) = Inr som"
| "Sheaf_getSOM f som (Sheaf (Some los)) = getSOM_straws f som los"

section \<open>Flat sheaves\<close>

text \<open>A flat straw is its object type's name and the objects in order of their addition.\<close>

record FlatSheaf =
  fs_map :: "(string \<times> MatchedObject list) stdmap"
  fs_bDoAll :: bool
  fs_bIsFail :: bool

text \<open>\<open>m_map[key] = value\<close> replaces an entry that is there.\<close>

fun map_assign :: "int \<Rightarrow> 'v \<Rightarrow> 'v stdmap \<Rightarrow> 'v stdmap" where
  "map_assign k v [] = [(k, v)]"
| "map_assign k v ((k', v') # m) =
     (if k < k' then (k, v) # (k', v') # m
      else if k = k' then (k, v) # m
      else (k', v') # map_assign k v m)"

definition FlatSheaf_all :: FlatSheaf where
  "FlatSheaf_all = \<lparr>fs_map = [], fs_bDoAll = True, fs_bIsFail = False\<rparr>"

definition addEmptyFlatStraw :: "FlatSheaf \<Rightarrow> id_d_t \<Rightarrow> string \<Rightarrow> FlatSheaf" where
  "addEmptyFlatStraw fs object_type_id object_type_name =
     fs\<lparr>fs_map := map_assign object_type_id (object_type_name, []) (fs_map fs)\<rparr>"

definition FlatSheaf_some :: "(id_d_t \<times> string) list \<Rightarrow> FlatSheaf" where
  "FlatSheaf_some object_types =
     foldl (\<lambda>fs (i, n). addEmptyFlatStraw fs i n) \<lparr>fs_map = [], fs_bDoAll = False, fs_bIsFail = False\<rparr> object_types"

text \<open>The object is stored by its pointer; \<open>flatten\<close> takes its inner sheaf away afterwards.\<close>

definition mo_without_sheaf :: "MatchedObject \<Rightarrow> MatchedObject" where
  "mo_without_sheaf mo = MatchedObject (mo_last mo) (mo_u mo) (mo_id_d mo) (mo_pObjectBlock mo) (mo_values mo) None"

definition FlatSheaf_addMO :: "FlatSheaf \<Rightarrow> MatchedObject \<Rightarrow> FlatSheaf res" where
  "FlatSheaf_addMO fs pMO =
     bind_res (getObjectTypeId pMO) (\<lambda>object_type_id.
     bind_res (case map_of (fs_map fs) object_type_id of
         Some _ \<Rightarrow> Inr fs
       | None \<Rightarrow> if fs_bDoAll fs
                 then bind_res (getObjectTypeName pMO) (\<lambda>n. Inr (addEmptyFlatStraw fs object_type_id n))
                 else Inr fs) (\<lambda>fs1.
       Inr (case map_of (fs_map fs1) object_type_id of
              None \<Rightarrow> fs1
            | Some (n, mos) \<Rightarrow>
                fs1\<lparr>fs_map := map_assign object_type_id (n, mos @ [mo_without_sheaf pMO]) (fs_map fs1)\<rparr>)))"

fun flatten_mo :: "FlatSheaf \<Rightarrow> MatchedObject \<Rightarrow> FlatSheaf res"
and flatten_mos :: "FlatSheaf \<Rightarrow> MatchedObject list \<Rightarrow> FlatSheaf res"
and flatten_straws :: "FlatSheaf \<Rightarrow> Straw list \<Rightarrow> FlatSheaf res"
and Sheaf_flatten :: "FlatSheaf \<Rightarrow> Sheaf \<Rightarrow> FlatSheaf res" where
  "flatten_mo fs (MatchedObject l u d b v None) = FlatSheaf_addMO fs (MatchedObject l u d b v None)"
| "flatten_mo fs (MatchedObject l u d b v (Some s)) =
     bind_res (FlatSheaf_addMO fs (MatchedObject l u d b v (Some s))) (\<lambda>fs1. Sheaf_flatten fs1 s)"
| "flatten_mos fs [] = Inr fs"
| "flatten_mos fs (mo # ci) = bind_res (flatten_mo fs mo) (\<lambda>fs1. flatten_mos fs1 ci)"
| "flatten_straws fs [] = Inr fs"
| "flatten_straws fs (Straw l mos # ci) = bind_res (flatten_mos fs mos) (\<lambda>fs1. flatten_straws fs1 ci)"
| "Sheaf_flatten fs (Sheaf None) = Inr (fs\<lparr>fs_bIsFail := True\<rparr>)"
| "Sheaf_flatten fs (Sheaf (Some los)) = flatten_straws fs los"

definition mql_flatten_sheaf :: "(id_d_t \<times> string) list \<Rightarrow> Sheaf option \<Rightarrow> FlatSheaf option res" where
  "mql_flatten_sheaf object_types ppSheaf =
     (case ppSheaf of
        None \<Rightarrow> Inr None
      | Some s \<Rightarrow>
          bind_res (Sheaf_flatten (if object_types = [] then FlatSheaf_all else FlatSheaf_some object_types) s)
            (\<lambda>fs. Inr (Some fs)))"

end
