(* ===== verification/Sheaf_Props.thy ===== *)
theory Sheaf_Props
  imports Sheaf MonadSets_Main
begin

text \<open>
  Sheaves: copies are equal to what was copied, the operations on lists of straws are the list
  operations they stand for, and every traversal is a fold over one list, the matched objects in
  preorder.
\<close>

section \<open>Well-formed matched objects\<close>

definition fields_ok :: "monad_m \<Rightarrow> mo_u \<Rightarrow> id_d_t \<Rightarrow> ObjectBlockBase option \<Rightarrow> mo_values \<Rightarrow> bool" where
  "fields_ok l u d b v \<longleftrightarrow>
     (case u of U_first f \<Rightarrow> 0 \<le> f \<and> f \<le> l \<and> l \<le> MAX_MONAD
      | U_pMonad_ms s \<Rightarrow> l < 0 \<and> som_wf s \<and> monad_ms s \<noteq> [] \<and> m_last s = - l) \<and>
     (b = None \<longleftrightarrow> d = -1) \<and>
     (case v of V_inst i \<Rightarrow> d \<le> -5
      | V_vec w \<Rightarrow> d > -5 \<and> (\<forall>vec. w = Some vec \<longrightarrow> vec \<noteq> [] \<and> None \<notin> set vec \<and>
          (\<exists>bb. b = Some bb \<and> length vec = length (obb_Feature_retrieval_vec bb))))"

fun mo_wf :: "MatchedObject \<Rightarrow> bool"
and mos_wf :: "MatchedObject list \<Rightarrow> bool"
and straw_wf :: "Straw \<Rightarrow> bool"
and straws_wf :: "Straw list \<Rightarrow> bool"
and sheaf_wf :: "Sheaf \<Rightarrow> bool" where
  "mo_wf (MatchedObject l u d b v None) \<longleftrightarrow> fields_ok l u d b v"
| "mo_wf (MatchedObject l u d b v (Some s)) \<longleftrightarrow> fields_ok l u d b v \<and> sheaf_wf s"
| "mos_wf [] \<longleftrightarrow> True"
| "mos_wf (mo # mos) \<longleftrightarrow> mo_wf mo \<and> mos_wf mos"
| "straw_wf (Straw l mos) \<longleftrightarrow> mos_wf mos"
| "straws_wf [] \<longleftrightarrow> True"
| "straws_wf (s # ss) \<longleftrightarrow> straw_wf s \<and> straws_wf ss"
| "sheaf_wf (Sheaf None) \<longleftrightarrow> True"
| "sheaf_wf (Sheaf (Some los)) \<longleftrightarrow> straws_wf los"

lemma mos_wf_all: "mos_wf mos \<longleftrightarrow> (\<forall>mo\<in>set mos. mo_wf mo)"
  by (induction mos) auto

lemma straws_wf_all: "straws_wf ss \<longleftrightarrow> (\<forall>s\<in>set ss. straw_wf s)"
  by (induction ss) auto

lemma straw_wf_list: "straw_wf s \<longleftrightarrow> (\<forall>mo\<in>set (straw_list s). mo_wf mo)"
  by (cases s) (simp add: mos_wf_all)

lemma mo_wf_fields: "mo_wf mo \<Longrightarrow> fields_ok (mo_last mo) (mo_u mo) (mo_id_d mo) (mo_pObjectBlock mo) (mo_values mo)"
  by (cases mo; cases "mo_sheaf mo") auto

section \<open>Copies\<close>

text \<open>The copy of the vector grows from the left over an array of null pointers.\<close>

lemma copy_values_ok:
  assumes "None \<notin> set vec" "-5 < d" "length dn = i"
    "if i = 0 then v = V_vec None \<and> (\<exists>bb. b = Some bb \<and> length vec = length (obb_Feature_retrieval_vec bb))
     else v = V_vec (Some (dn @ replicate (length vec) None))"
  shows "copy_values (MatchedObject l u d b v s) i vec =
    Inr (MatchedObject l u d b (if vec = [] then v else V_vec (Some (dn @ vec))) s)"
  using assms
proof (induction vec arbitrary: dn i v)
  case Nil
  then show ?case by simp
next
  case (Cons a vec)
  then obtain x where a: "a = Some x" by (cases a) auto
  let ?w = "V_vec (Some ((dn @ [Some x]) @ replicate (length vec) None))"
  have "addEMdFValue (MatchedObject l u d b v s) i (Some x) = Inr (MatchedObject l u d b ?w s)"
  proof (cases "i = 0")
    case True
    then obtain bb where bb: "b = Some bb" "Suc (length vec) = length (obb_Feature_retrieval_vec bb)" "v = V_vec None"
      using Cons.prems(4) by auto
    then have "replicate (length (obb_Feature_retrieval_vec bb)) (None :: EMdFValue option) = None # replicate (length vec) None"
      "0 < length (obb_Feature_retrieval_vec bb)"
      by (metis replicate_Suc, linarith)
    then show ?thesis using True Cons.prems(2,3) bb
      by (simp add: addEMdFValue_def isInstObject_def value_vec_def mo_set_values_def)
  next
    case False
    then have "v = V_vec (Some (dn @ None # replicate (length vec) None))" using Cons.prems(4) by simp
    then show ?thesis using False Cons.prems(2,3)
      by (simp add: addEMdFValue_def isInstObject_def value_vec_def mo_set_values_def list_update_append)
  qed
  moreover have "copy_values (MatchedObject l u d b ?w s) (i + 1) vec =
    Inr (MatchedObject l u d b (if vec = [] then ?w else V_vec (Some ((dn @ [Some x]) @ vec))) s)"
    by (rule Cons.IH) (use Cons.prems in auto)
  ultimately show ?case by (simp add: a)
qed

lemma copy_fields_ok: "fields_ok l u d b v \<Longrightarrow> copy_fields l u d b v s = Inr (MatchedObject l u d b v s)"
  by (auto simp: copy_fields_def fields_ok_def Let_def copy_values_ok[where dn = "[]"]
      split: mo_u.splits mo_values.splits option.splits)

lemma copy_ok:
  "mo_wf mo \<Longrightarrow> copyMO mo = Inr mo"
  "mos_wf mos \<Longrightarrow> copyMOs mos = Inr mos"
  "straw_wf s \<Longrightarrow> Straw_copyOther s = Inr s"
  "straws_wf ss \<Longrightarrow> ListOfStraws_copyOther ss = Inr ss"
  "sheaf_wf sh \<Longrightarrow> Sheaf_copyOther sh = Inr sh"
  by (induction mo and mos and s and ss and sh rule: copyMO_copyMOs_Straw_copyOther_ListOfStraws_copyOther_Sheaf_copyOther.induct)
    (auto simp: copy_fields_ok)

section \<open>Lists of straws\<close>

lemma Straw_append_list [simp]:
  "straw_list (Straw_append s mo) = straw_list s @ [mo]"
  "straw_last (Straw_append s mo) = max (straw_last s) (mo_getLast mo)"
  by (auto simp: Straw_append_def Straw_updateLast_def Let_def)

lemma appendACopy_ok: "straws_wf other \<Longrightarrow> appendACopy los other = Inr (los @ other)"
  unfolding appendACopy_def by (induction other arbitrary: los) (auto simp: copy_ok)

lemma prepend_rest_ok: "mos_wf ci \<Longrightarrow> prepend_rest before ci after = Inr (before @ ci @ after)"
  by (induction ci arbitrary: before) (auto simp: copy_ok)

lemma Straw_prepend_ok: "straw_wf other \<Longrightarrow> Straw_prepend s other = Inr (Straw_prependAndTakeOver s other)"
  by (cases s; cases other)
    (auto simp: Straw_prepend_def Straw_prependAndTakeOver_def prepend_rest_ok copy_ok split: list.splits)

lemma prepend_all_ok:
  "straw_wf mys \<Longrightarrow> prepend_all mys los = Inr (map (\<lambda>s. Straw_prependAndTakeOver s mys) los)"
  by (induction los) (auto simp: Straw_prepend_ok)

lemma LOS_join_ok:
  assumes "straw_wf mys"
  shows "LOS_join los mys = Inr (if los = [] then [mys] else map (\<lambda>s. Straw_prependAndTakeOver s mys) los)"
    and "LOS_joinAndTakeOver los mys = LOS_join los mys"
  using assms
  by (auto simp: LOS_join_def LOS_joinAndTakeOver_def prepend_all_ok Straw_prepend_ok copy_ok split: list.splits)

text \<open>Which objects are retrieved, when the block pointers are there.\<close>

definition retrieved :: "MatchedObject \<Rightarrow> bool" where
  "retrieved mo \<longleftrightarrow> (if isID_D mo then isToBeRetrieved (the (mo_pObjectBlock mo)) else mo_id_d mo \<le> -3)"

definition focused :: "MatchedObject \<Rightarrow> bool" where
  "focused mo \<longleftrightarrow> (if isID_D mo then isFocus (the (mo_pObjectBlock mo)) else mo_id_d mo = -4)"

lemma mo_wf_block: "mo_wf mo \<Longrightarrow> mo_id_d mo \<noteq> -1 \<Longrightarrow> mo_block mo = Inr (the (mo_pObjectBlock mo))"
  by (drule mo_wf_fields) (auto simp: fields_ok_def mo_block_def)

lemma getRetrieve_ok: "mo_wf mo \<Longrightarrow> getRetrieve mo = Inr (retrieved mo)"
  and getFocus_ok: "mo_wf mo \<Longrightarrow> getFocus mo = Inr (focused mo)"
  by (auto simp: getRetrieve_def getFocus_def retrieved_def focused_def isID_D_def mo_wf_block)

definition straw_of :: "MatchedObject list \<Rightarrow> Straw" where
  "straw_of mos = Straw (fold (\<lambda>mo l. max l (mo_getLast mo)) mos 0) mos"

lemma filter_straw_ok:
  assumes "mos_wf mos"
  shows "filter_straw mos = Inr (straw_of (filter retrieved mos))"
proof -
  have "foldM_res (\<lambda>s mo. bind_res (getRetrieve mo) (\<lambda>r.
       if r then bind_res (copyMO mo) (\<lambda>mo1. Inr (Straw_append s mo1)) else Inr s)) s mos =
     Inr (Straw (fold (\<lambda>mo l. max l (mo_getLast mo)) (filter retrieved mos) (straw_last s)) (straw_list s @ filter retrieved mos))"
    for s using assms
  proof (induction mos arbitrary: s)
    case (Cons mo mos)
    then show ?case by (cases s) (auto simp: getRetrieve_ok copy_ok)
  qed (cases s; simp)
  from this[of Straw_new] show ?thesis by (simp add: filter_straw_def Straw_new_def straw_of_def)
qed

definition kept_straws :: "ListOfStraws \<Rightarrow> ListOfStraws" where
  "kept_straws other =
     map (\<lambda>s. straw_of (filter retrieved (straw_list s))) (filter (\<lambda>s. \<exists>mo\<in>set (straw_list s). retrieved mo) other)"

lemma filtering_ok:
  assumes "straws_wf other"
  shows "appendAndSubsumeWhileFiltering los other = Inr (los @ kept_straws other, int (length (kept_straws other)))"
proof -
  have "foldM_res (\<lambda>(l, straw_count) pOtherStraw.
       bind_res (filter_straw (straw_list pOtherStraw)) (\<lambda>pNewStraw.
         Inr (if Straw_isEmpty pNewStraw then (l, straw_count) else (LOS_append l pNewStraw, straw_count + 1))))
       (los, n) other = Inr (los @ kept_straws other, n + int (length (kept_straws other)))" for n
    using assms
  proof (induction other arbitrary: los n)
    case (Cons s other)
    have "filter_straw (straw_list s) = Inr (straw_of (filter retrieved (straw_list s)))"
      using Cons.prems by (intro filter_straw_ok) (auto simp: straw_wf_list mos_wf_all)
    then show ?case using Cons
      by (auto simp: kept_straws_def Straw_isEmpty_def straw_of_def LOS_append_def filter_empty_conv)
  qed (simp add: kept_straws_def)
  from this[of 0] show ?thesis by (simp add: appendAndSubsumeWhileFiltering_def)
qed

text \<open>\<open>WhileCounting\<close> takes one straw more than its count.\<close>

lemma counting_loop_ok:
  assumes "straws_wf other" "0 \<le> i" "i \<le> start + count" "0 \<le> start" "0 \<le> count" "c = max 0 (i - start)"
  shows "counting_loop los other start count c i =
    (let new = take (nat (start + count + 1 - max i start)) (drop (nat (start - i)) other)
     in Inr (los @ new, c + int (length new)))"
  using assms
proof (induction other arbitrary: los c i)
  case Nil
  then show ?case by (simp add: Let_def)
next
  case (Cons s other)
  have cp: "Straw_copyOther s = Inr s" using Cons.prems(1) by (simp add: copy_ok)
  show ?case
  proof (cases "i = start + count")
    case True
    then show ?thesis using Cons.prems cp by (simp add: Let_def LOS_append_def max_def)
  next
    case False
    then have lt: "i < start + count" using Cons.prems by simp
    show ?thesis
    proof (cases "i < start")
      case True
      have "nat (start - i) = Suc (nat (start - (i + 1)))" using True by simp
      moreover have "counting_loop los other start count 0 (i + 1) =
        (let new = take (nat (start + count + 1 - max (i + 1) start)) (drop (nat (start - (i + 1))) other)
         in Inr (los @ new, 0 + int (length new)))"
        using Cons.prems True lt by (intro Cons.IH) auto
      moreover have "max (i + 1) start = start" "max i start = start" using True by auto
      ultimately show ?thesis using True lt cp Cons.prems(6) by (simp add: Let_def)
    next
      case ge: False
      have e: "nat (start + count + 1 - i) = Suc (nat (start + count + 1 - (i + 1)))" using lt by simp
      have "counting_loop (los @ [s]) other start count (c + 1) (i + 1) =
        (let new = take (nat (start + count + 1 - max (i + 1) start)) (drop (nat (start - (i + 1))) other)
         in Inr ((los @ [s]) @ new, (c + 1) + int (length new)))"
        using Cons.prems ge lt by (intro Cons.IH) auto
      moreover have "max (i + 1) start = i + 1" "max i start = i" "nat (start - i) = 0" "nat (start - (i + 1)) = 0"
        using ge by auto
      ultimately show ?thesis using ge lt cp Cons.prems(6) e by (simp add: Let_def LOS_append_def)
    qed
  qed
qed

lemma counting_ok:
  assumes "straws_wf other" "0 \<le> start" "0 \<le> count"
  shows "appendAndSubsumeWhileCounting los other start count =
    (let new = take (nat count + 1) (drop (nat start) other) in Inr (los @ new, int (length new)))"
proof -
  have "nat (start + count + 1 - start) = nat count + 1" using assms by simp
  then show ?thesis
    using counting_loop_ok[of other 0 start count 0 los] assms
    by (simp add: appendAndSubsumeWhileCounting_def max_def Let_def)
qed

section \<open>Traversals\<close>

text \<open>The matched objects of a sheaf in preorder, and its straws.\<close>

fun mo_list :: "MatchedObject \<Rightarrow> MatchedObject list"
and mos_list :: "MatchedObject list \<Rightarrow> MatchedObject list"
and straws_list :: "Straw list \<Rightarrow> MatchedObject list"
and sheaf_list :: "Sheaf \<Rightarrow> MatchedObject list" where
  "mo_list (MatchedObject l u d b v None) = [MatchedObject l u d b v None]"
| "mo_list (MatchedObject l u d b v (Some s)) = MatchedObject l u d b v (Some s) # sheaf_list s"
| "mos_list [] = []"
| "mos_list (mo # mos) = mo_list mo @ mos_list mos"
| "straws_list [] = []"
| "straws_list (Straw l mos # ss) = mos_list mos @ straws_list ss"
| "sheaf_list (Sheaf None) = []"
| "sheaf_list (Sheaf (Some los)) = straws_list los"

text \<open>The straws a sheaf holds itself.\<close>

definition sheaf_straws :: "Sheaf \<Rightarrow> Straw list" where
  "sheaf_straws s = (case m_plist s of None \<Rightarrow> [] | Some los \<Rightarrow> los)"

text \<open>Some sheaf in the tree, at any depth, is failed.\<close>

definition has_failed :: "Sheaf \<Rightarrow> bool" where
  "has_failed s \<longleftrightarrow> m_plist s = None \<or> (\<exists>mo\<in>set (sheaf_list s). mo_sheaf mo = Some (Sheaf None))"

lemma traversal_wf:
  "mo_wf mo \<Longrightarrow> x \<in> set (mo_list mo) \<Longrightarrow> mo_wf x"
  "mos_wf mos \<Longrightarrow> x \<in> set (mos_list mos) \<Longrightarrow> mo_wf x"
  "straws_wf ss \<Longrightarrow> x \<in> set (straws_list ss) \<Longrightarrow> mo_wf x"
  "sheaf_wf s \<Longrightarrow> x \<in> set (sheaf_list s) \<Longrightarrow> mo_wf x"
  by (induction mo and mos and ss and s rule: mo_list_mos_list_straws_list_sheaf_list.induct) auto

lemma countObjects_ok:
  assumes "\<And>mo. mo_wf mo \<Longrightarrow> f mo = Inr (P mo)"
  shows "mo_wf mo \<Longrightarrow> countObjects_mo f mo = Inr (int (length (filter P (mo_list mo))))"
    "mos_wf mos \<Longrightarrow> countObjects_mos f mos n = Inr (n + int (length (filter P (mos_list mos))))"
    "straws_wf ss \<Longrightarrow> countObjects_straws f ss n = Inr (n + int (length (filter P (straws_list ss))))"
    "sheaf_wf s \<Longrightarrow> countObjects_sheaf f s = Inr (int (length (filter P (sheaf_list s))))"
  by (induction mo and mos and ss and s arbitrary: and n and n and rule: mo_list_mos_list_straws_list_sheaf_list.induct)
    (auto simp: assms)

lemma countStraws_ok:
  "countStraws_mo mo = sum_list (map (\<lambda>x. case mo_sheaf x of None \<Rightarrow> 0 | Some s \<Rightarrow> int (length (sheaf_straws s))) (mo_list mo))"
  "countStraws_mos mos n = n + sum_list (map (\<lambda>x. case mo_sheaf x of None \<Rightarrow> 0 | Some s \<Rightarrow> int (length (sheaf_straws s))) (mos_list mos))"
  "countStraws_straws ss n = n + int (length ss) +
     sum_list (map (\<lambda>x. case mo_sheaf x of None \<Rightarrow> 0 | Some s \<Rightarrow> int (length (sheaf_straws s))) (straws_list ss))"
  "Sheaf_countStraws s = int (length (sheaf_straws s)) +
     sum_list (map (\<lambda>x. case mo_sheaf x of None \<Rightarrow> 0 | Some s \<Rightarrow> int (length (sheaf_straws s))) (sheaf_list s))"
  by (induction mo and mos and ss and s arbitrary: and n and n and rule: mo_list_mos_list_straws_list_sheaf_list.induct)
    (auto simp: sheaf_straws_def)

lemma bind_res_Inr [simp]: "bind_res m Inr = m"
  by (cases m) auto

lemma sheaf_not_failed: "s \<noteq> Sheaf None \<longleftrightarrow> (\<exists>y. m_plist s = Some y)"
  by (cases s; cases "m_plist s") auto

lemma getSOM_fold:
  "getSOM_mo f som mo = foldM_res (mo_addSOM f) som (mo_list mo)"
  "getSOM_mos f som mos = foldM_res (mo_addSOM f) som (mos_list mos)"
  "getSOM_straws f som ss = foldM_res (mo_addSOM f) som (straws_list ss)"
  "Sheaf_getSOM f som s = foldM_res (mo_addSOM f) som (sheaf_list s)"
  by (induction mo and mos and ss and s arbitrary: som and som and som and som rule: mo_list_mos_list_straws_list_sheaf_list.induct)
    (auto simp: foldM_res_append)

definition mo_set :: "MatchedObject \<Rightarrow> monad_m set" where
  "mo_set mo = (case mo_u mo of U_first f \<Rightarrow> {f..mo_last mo} | U_pMonad_ms s \<Rightarrow> som_set s)"

lemma getMonads_ok:
  assumes "mo_wf mo"
  shows "returns (getMonads mo) (\<lambda>s. som_wf s \<and> som_set s = mo_set mo)"
proof -
  have ok: "fields_ok (mo_last mo) (mo_u mo) (mo_id_d mo) (mo_pObjectBlock mo) (mo_values mo)"
    using assms by (rule mo_wf_fields)
  show ?thesis
  proof (cases "mo_u mo")
    case (U_first f)
    then have "0 \<le> f" "f \<le> mo_last mo" "mo_last mo \<le> MAX_MONAD" using ok by (auto simp: fields_ok_def)
    then show ?thesis using U_first
      by (simp add: getMonads_def mo_set_def SetOfMonads_range_def MonadSetElement_range_def som_wf_def som_set_def bounds_ok_def)
  next
    case (U_pMonad_ms s)
    then show ?thesis using ok by (simp add: getMonads_def mo_set_def fields_ok_def)
  qed
qed

lemma Sheaf_getSOM_ok:
  assumes "sheaf_wf s" "som_wf som"
  shows "returns (Sheaf_getSOM f som s)
    (\<lambda>r. som_wf r \<and> som_set r = som_set som \<union> (\<Union>mo\<in>set (filter (\<lambda>mo. f \<longrightarrow> focused mo) (sheaf_list s)). mo_set mo))"
proof -
  let ?g = "\<lambda>A mo. if f \<longrightarrow> focused mo then A \<union> mo_set mo else A"
  have "returns (foldM_res (mo_addSOM f) som (sheaf_list s)) (\<lambda>r. som_wf r \<and> som_set r = foldl ?g (som_set som) (sheaf_list s))"
  proof (rule foldM_res_refines[where R = "\<lambda>r A. som_wf r \<and> som_set r = A"])
    fix r A mo assume r: "som_wf r \<and> som_set r = A" and "mo \<in> set (sheaf_list s)"
    then have wf: "mo_wf mo" using traversal_wf(4)[OF assms(1)] by blast
    then obtain t where "getMonads mo = Inr t" "som_wf t" "som_set t = mo_set mo"
      using getMonads_ok[OF wf] by (auto simp: returns_iff)
    then show "returns (mo_addSOM f r mo) (\<lambda>r'. som_wf r' \<and> som_set r' = ?g A mo)"
      using r unionWith_correct[of r t] by (auto simp: mo_addSOM_def count_focus_def getFocus_ok[OF wf])
  qed (use assms in auto)
  moreover have "foldl ?g A xs = A \<union> (\<Union>mo\<in>set (filter (\<lambda>mo. f \<longrightarrow> focused mo) xs). mo_set mo)" for A xs
    by (induction xs arbitrary: A) auto
  ultimately show ?thesis by (simp add: getSOM_fold)
qed

section \<open>Flattening\<close>

definition type_id :: "MatchedObject \<Rightarrow> id_d_t" where
  "type_id mo = (if mo_id_d mo < 0 \<and> mo_id_d mo \<ge> -4 then OBJECT_TYPE_POW_M else obb_object_type_id (the (mo_pObjectBlock mo)))"

definition type_name :: "MatchedObject \<Rightarrow> string" where
  "type_name mo = (if mo_id_d mo < 0 \<and> mo_id_d mo \<ge> -4 then ''pow_m'' else obb_object_type_name (the (mo_pObjectBlock mo)))"

lemma getObjectType_ok:
  "mo_wf mo \<Longrightarrow> getObjectTypeId mo = Inr (type_id mo)"
  "mo_wf mo \<Longrightarrow> getObjectTypeName mo = Inr (type_name mo)"
  by (auto simp: getObjectTypeId_def getObjectTypeName_def type_id_def type_name_def mo_wf_block)

lemma map_of_assign [simp]: "map_of (map_assign k v m) = (map_of m)(k \<mapsto> v)"
  by (induction k v m rule: map_assign.induct) (auto simp: fun_eq_iff)

lemma flatten_fold:
  "(\<forall>x\<in>set (mo_list mo). mo_sheaf x \<noteq> Some (Sheaf None)) \<Longrightarrow> flatten_mo fs mo = foldM_res FlatSheaf_addMO fs (mo_list mo)"
  "(\<forall>x\<in>set (mos_list mos). mo_sheaf x \<noteq> Some (Sheaf None)) \<Longrightarrow> flatten_mos fs mos = foldM_res FlatSheaf_addMO fs (mos_list mos)"
  "(\<forall>x\<in>set (straws_list ss). mo_sheaf x \<noteq> Some (Sheaf None)) \<Longrightarrow> flatten_straws fs ss = foldM_res FlatSheaf_addMO fs (straws_list ss)"
  "m_plist s \<noteq> None \<Longrightarrow> (\<forall>x\<in>set (sheaf_list s). mo_sheaf x \<noteq> Some (Sheaf None)) \<Longrightarrow> Sheaf_flatten fs s = foldM_res FlatSheaf_addMO fs (sheaf_list s)"
  by (induction mo and mos and ss and s arbitrary: fs and fs and fs and fs rule: mo_list_mos_list_straws_list_sheaf_list.induct)
    (auto simp: foldM_res_append sheaf_not_failed)

text \<open>What a flat sheaf holds of one object type.\<close>

definition flat_objects :: "FlatSheaf \<Rightarrow> id_d_t \<Rightarrow> MatchedObject list option" where
  "flat_objects fs t = map_option snd (map_of (fs_map fs) t)"

definition flat_step :: "bool \<Rightarrow> (id_d_t \<Rightarrow> MatchedObject list option) \<Rightarrow> MatchedObject \<Rightarrow> id_d_t \<Rightarrow> MatchedObject list option" where
  "flat_step all F mo = (case F (type_id mo) of
       Some mos \<Rightarrow> F(type_id mo \<mapsto> mos @ [mo_without_sheaf mo])
     | None \<Rightarrow> if all then F(type_id mo \<mapsto> [mo_without_sheaf mo]) else F)"

lemma addMO_ok:
  assumes "mo_wf mo"
  shows "returns (FlatSheaf_addMO fs mo) (\<lambda>fs'. flat_objects fs' = flat_step (fs_bDoAll fs) (flat_objects fs) mo \<and>
    fs_bDoAll fs' = fs_bDoAll fs \<and> fs_bIsFail fs' = fs_bIsFail fs)"
  using assms
  by (auto simp: FlatSheaf_addMO_def getObjectType_ok flat_objects_def flat_step_def addEmptyFlatStraw_def fun_eq_iff
      split: option.splits prod.splits)

lemma flat_fold:
  "foldl (flat_step all) F mos t =
    (let ms = map mo_without_sheaf (filter (\<lambda>mo. type_id mo = t) mos)
     in case F t of Some xs \<Rightarrow> Some (xs @ ms) | None \<Rightarrow> if all \<and> ms \<noteq> [] then Some ms else None)"
proof (induction mos arbitrary: F)
  case Nil
  then show ?case by (auto simp: Let_def split: option.splits)
next
  case (Cons mo mos)
  show ?case unfolding foldl_Cons Cons.IH
    by (cases "type_id mo = t") (auto simp: Let_def flat_step_def split: option.splits)
qed

lemma flatten_objects:
  assumes "sheaf_wf s" "\<not> has_failed s"
  shows "returns (Sheaf_flatten fs s) (\<lambda>fs'. flat_objects fs' = foldl (flat_step (fs_bDoAll fs)) (flat_objects fs) (sheaf_list s) \<and>
    fs_bIsFail fs' = fs_bIsFail fs)"
proof -
  have f: "Sheaf_flatten fs s = foldM_res FlatSheaf_addMO fs (sheaf_list s)"
    using assms(2) by (intro flatten_fold) (auto simp: has_failed_def)
  have "returns (foldM_res FlatSheaf_addMO fs (sheaf_list s))
    (\<lambda>fs'. flat_objects fs' = foldl (flat_step (fs_bDoAll fs)) (flat_objects fs) (sheaf_list s) \<and>
       fs_bDoAll fs' = fs_bDoAll fs \<and> fs_bIsFail fs' = fs_bIsFail fs)"
  proof (rule foldM_res_refines[where R = "\<lambda>fs' F. flat_objects fs' = F \<and> fs_bDoAll fs' = fs_bDoAll fs \<and> fs_bIsFail fs' = fs_bIsFail fs"])
    fix g F mo assume g: "flat_objects g = F \<and> fs_bDoAll g = fs_bDoAll fs \<and> fs_bIsFail g = fs_bIsFail fs"
      and "mo \<in> set (sheaf_list s)"
    then have "mo_wf mo" using traversal_wf(4)[OF assms(1)] by blast
    from addMO_ok[OF this, of g] show "returns (FlatSheaf_addMO g mo) (\<lambda>fs'. flat_objects fs' = flat_step (fs_bDoAll fs) F mo \<and>
       fs_bDoAll fs' = fs_bDoAll fs \<and> fs_bIsFail fs' = fs_bIsFail fs)"
      using g by simp
  qed simp
  then show ?thesis unfolding f by (rule returns_mono) blast
qed

lemma FlatSheaf_some_objects:
  "flat_objects (FlatSheaf_some types) t = (if t \<in> fst ` set types then Some [] else None)"
  "fs_bDoAll (FlatSheaf_some types) = False" "fs_bIsFail (FlatSheaf_some types) = False"
proof -
  have "flat_objects (foldl (\<lambda>fs (i, n). addEmptyFlatStraw fs i n) fs types) t = (if t \<in> fst ` set types then Some [] else flat_objects fs t) \<and>
    fs_bDoAll (foldl (\<lambda>fs (i, n). addEmptyFlatStraw fs i n) fs types) = fs_bDoAll fs \<and>
    fs_bIsFail (foldl (\<lambda>fs (i, n). addEmptyFlatStraw fs i n) fs types) = fs_bIsFail fs" for fs
  proof (induction types arbitrary: fs)
    case (Cons p types)
    obtain i n where p: "p = (i, n)" by (cases p)
    have "flat_objects (addEmptyFlatStraw fs i n) t = (if t = i then Some [] else flat_objects fs t)"
      "fs_bDoAll (addEmptyFlatStraw fs i n) = fs_bDoAll fs" "fs_bIsFail (addEmptyFlatStraw fs i n) = fs_bIsFail fs"
      by (simp_all add: addEmptyFlatStraw_def flat_objects_def)
    with Cons.IH[of "addEmptyFlatStraw fs i n"] show ?case by (auto simp: p)
  qed simp
  then show "flat_objects (FlatSheaf_some types) t = (if t \<in> fst ` set types then Some [] else None)"
    "fs_bDoAll (FlatSheaf_some types) = False" "fs_bIsFail (FlatSheaf_some types) = False"
    by (simp_all add: FlatSheaf_some_def flat_objects_def)
qed

section \<open>The claims\<close>

definition demo_block :: ObjectBlockBase where
  "demo_block = \<lparr>obb_node_number = 1, obb_retrieval = kRetrieve, obb_object_type_name = ''word'', obb_object_type_id = 7,
     obb_NoOfGET_features = 0, obb_Feature_retrieval_vec = [], obb_mark = []\<rparr>"

definition demo_mo :: "id_d_t \<Rightarrow> monad_m \<Rightarrow> MatchedObject" where
  "demo_mo d m = MatchedObject_id_d_range d m m None (Some demo_block)"

definition demo_sheaf :: Sheaf where
  "demo_sheaf = Sheaf_of [Straw 2 [demo_mo 10 1, demo_mo 11 2], Straw 3 [demo_mo 12 3]]"

lemma demo_sheaf_wf: "sheaf_wf demo_sheaf" "\<not> has_failed demo_sheaf"
  by (simp_all add: demo_sheaf_def Sheaf_of_def demo_mo_def MatchedObject_id_d_range_def fields_ok_def MAX_MONAD_def has_failed_def)

text \<open>C6: The operations on lists of straws are the list operations they stand for, on well-formed
  straws: a copy equals its original; joining a straw puts its objects before those of every straw
  and is the same whether or not the straw is taken over; filtering keeps exactly the objects to be
  retrieved and the straws that still have one, and counts them; \<open>WhileCounting\<close> keeps the straws
  from the start index on, one more than its count. None of them fails.\<close>

theorem list_of_straws_operations:
  assumes "straws_wf los" "straws_wf other" "straw_wf mys" "0 \<le> start" "0 \<le> count"
  shows "ListOfStraws_copyOther los = Inr los \<and> appendACopy los other = Inr (los @ other) \<and>
    LOS_join los mys = Inr (if los = [] then [mys] else map (\<lambda>s. Straw (straw_last s) (straw_list mys @ straw_list s)) los) \<and>
    LOS_joinAndTakeOver los mys = LOS_join los mys \<and>
    appendAndSubsumeWhileFiltering los other = Inr (los @ kept_straws other, int (length (kept_straws other))) \<and>
    appendAndSubsumeWhileCounting los other start count =
      Inr (los @ take (nat count + 1) (drop (nat start) other), int (length (take (nat count + 1) (drop (nat start) other))))"
  using copy_ok(4)[OF assms(1)] appendACopy_ok[OF assms(2), of los] LOS_join_ok[OF assms(3), of los]
    filtering_ok[OF assms(2), of los] counting_ok[OF assms(2,4,5), of los]
  by (simp add: Let_def Straw_prependAndTakeOver_def[abs_def])

theorem list_of_straws_operations_witness:
  "appendAndSubsumeWhileCounting [] [Straw 1 [demo_mo 1 1], Straw 2 [demo_mo 2 2], Straw 3 [demo_mo 3 3]] 1 1 =
    Inr ([Straw 2 [demo_mo 2 2], Straw 3 [demo_mo 3 3]], 2)"
  using list_of_straws_operations[of "[]" "[Straw 1 [demo_mo 1 1], Straw 2 [demo_mo 2 2], Straw 3 [demo_mo 3 3]]" "Straw 0 []" 1 1]
  by (simp add: demo_mo_def MatchedObject_id_d_range_def fields_ok_def MAX_MONAD_def)

text \<open>C7: The recursive traversals of a well-formed sheaf agree with one list, its matched objects
  in preorder: the number of objects counted (all, in focus, or of one type), the number of straws
  at every depth, and the set of monads gathered, which is the union of the objects' sets.\<close>

theorem sheaf_traversals:
  assumes "sheaf_wf s" "som_wf som" "name \<noteq> []"
  shows "Sheaf_countObjects f s = Inr (int (length (filter (\<lambda>mo. f \<longrightarrow> focused mo) (sheaf_list s)))) \<and>
    Sheaf_countObjectsFromObjectType name f s =
      Inr (int (length (filter (\<lambda>mo. (f \<longrightarrow> focused mo) \<and> type_name mo = name) (sheaf_list s)))) \<and>
    Sheaf_countStraws s = int (length (sheaf_straws s)) +
      sum_list (map (\<lambda>x. case mo_sheaf x of None \<Rightarrow> 0 | Some s \<Rightarrow> int (length (sheaf_straws s))) (sheaf_list s)) \<and>
    returns (Sheaf_getSOM f som s)
      (\<lambda>r. som_wf r \<and> som_set r = som_set som \<union> (\<Union>mo\<in>set (filter (\<lambda>mo. f \<longrightarrow> focused mo) (sheaf_list s)). mo_set mo))"
proof -
  have "count_focus f mo = Inr (f \<longrightarrow> focused mo)" if "mo_wf mo" for mo
    using that by (auto simp: count_focus_def getFocus_ok)
  moreover from this have "count_type name f mo = Inr ((f \<longrightarrow> focused mo) \<and> type_name mo = name)" if "mo_wf mo" for mo
    using that assms(3) by (auto simp: count_type_def getObjectType_ok)
  ultimately show ?thesis
    using countObjects_ok(4)[where f = "count_focus f", OF _ assms(1)] countObjects_ok(4)[where f = "count_type name f", OF _ assms(1)]
      countStraws_ok(4)[of s] Sheaf_getSOM_ok[OF assms(1,2)]
    by (simp add: Sheaf_countObjects_def Sheaf_countObjectsFromObjectType_def)
qed

theorem sheaf_traversals_witness: "Sheaf_countObjects False demo_sheaf = Inr 3"
  using sheaf_traversals[OF demo_sheaf_wf(1) som_wf_empty, of "''word''" False]
  by (simp add: demo_sheaf_def Sheaf_of_def demo_mo_def MatchedObject_id_d_range_def)

text \<open>A word with an inner sheaf that holds a gap, then another word.\<close>

definition demo_gap_mo :: MatchedObject where
  "demo_gap_mo = MatchedObject_id_m \<lparr>monad_ms = [MSE 2 2], m_first = 2, m_last = 2\<rparr> (Some demo_block) True False None"

definition demo_gap_sheaf :: Sheaf where
  "demo_gap_sheaf = Sheaf_of [Straw 3 [MatchedObject_id_d_range 10 1 3 (Some (Sheaf_of [Straw 2 [demo_gap_mo]])) (Some demo_block)],
     Straw 4 [demo_mo 11 4]]"

lemma demo_gap_sheaf_wf: "sheaf_wf demo_gap_sheaf" "\<not> has_failed demo_gap_sheaf"
  by (simp_all add: demo_gap_sheaf_def demo_gap_mo_def Sheaf_of_def demo_mo_def MatchedObject_id_d_range_def
      MatchedObject_id_m_def pack_monads_def SetOfMonads_hasOnlyOneMSE_def fields_ok_def MAX_MONAD_def has_failed_def)

text \<open>C8: Flattening a sheaf without failed sheaves returns, for all object types or for those
  listed, and the flat sheaf has for each object type exactly the matched objects of that type in
  preorder, without their inner sheaves; types not asked for, and without a list types that do
  not occur, have no flat straw. The matched objects of gaps (and the empty ones), whose object type
  is \<^verbatim>\<open>pow_m\<close>, count like any others: flattening for all object types gives them a flat straw
  of their own, in preorder, where the documentation of \<open>mql_flatten_sheaf\<close> in \<^verbatim>\<open>mql_sheaf.cpp\<close> says
  "all the object types available in the full sheaf, minus pow_m".\<close>

theorem flat_sheaf_groups_by_type:
  assumes "sheaf_wf s" "\<not> has_failed s"
  shows "returns (mql_flatten_sheaf types (Some s))
    (\<lambda>r. \<exists>fs. r = Some fs \<and> \<not> fs_bIsFail fs \<and>
       (\<forall>t. flat_objects fs t =
         (let ms = map mo_without_sheaf (filter (\<lambda>mo. type_id mo = t) (sheaf_list s))
          in if (if types = [] then ms \<noteq> [] else t \<in> fst ` set types) then Some ms else None)) \<and>
       (types = [] \<and> (\<exists>mo\<in>set (sheaf_list s). - 4 \<le> mo_id_d mo \<and> mo_id_d mo < 0) \<longrightarrow>
          flat_objects fs OBJECT_TYPE_POW_M =
            Some (map mo_without_sheaf (filter (\<lambda>mo. type_id mo = OBJECT_TYPE_POW_M) (sheaf_list s)))))"
proof -
  have gap: "filter (\<lambda>mo. type_id mo = OBJECT_TYPE_POW_M) (sheaf_list s) \<noteq> []"
    if "mo \<in> set (sheaf_list s)" "- 4 \<le> mo_id_d mo" "mo_id_d mo < 0" for mo
    using that by (auto simp: filter_empty_conv type_id_def)
  show ?thesis
  proof (cases "types = []")
    case True
    have "flat_objects FlatSheaf_all = (\<lambda>_. None)" by (simp add: FlatSheaf_all_def flat_objects_def fun_eq_iff)
    then show ?thesis using True flatten_objects[OF assms, of FlatSheaf_all] gap
      by (auto simp: mql_flatten_sheaf_def returns_iff flat_fold Let_def FlatSheaf_all_def)
  next
    case False
    then show ?thesis using flatten_objects[OF assms, of "FlatSheaf_some types"]
      by (auto simp: mql_flatten_sheaf_def returns_iff flat_fold Let_def FlatSheaf_some_objects)
  qed
qed

theorem flat_sheaf_groups_by_type_witness:
  "returns (mql_flatten_sheaf [] (Some demo_gap_sheaf)) (\<lambda>r. \<exists>fs. r = Some fs \<and>
      flat_objects fs 7 = Some [MatchedObject_id_d_range 10 1 3 None (Some demo_block), demo_mo 11 4] \<and> flat_objects fs OBJECT_TYPE_POW_M = Some [demo_gap_mo] \<and>
      flat_objects fs 8 = None) \<and>
   returns (mql_flatten_sheaf [(8, ''phrase''), (7, ''word'')] (Some demo_gap_sheaf)) (\<lambda>r. \<exists>fs. r = Some fs \<and>
      flat_objects fs 7 = Some [MatchedObject_id_d_range 10 1 3 None (Some demo_block), demo_mo 11 4] \<and> flat_objects fs OBJECT_TYPE_POW_M = None \<and>
      flat_objects fs 8 = Some [])"
proof -
  have list: "sheaf_list demo_gap_sheaf = [MatchedObject_id_d_range 10 1 3 (Some (Sheaf_of [Straw 2 [demo_gap_mo]])) (Some demo_block),
      demo_gap_mo, demo_mo 11 4]"
    by (simp add: demo_gap_sheaf_def Sheaf_of_def demo_gap_mo_def demo_mo_def MatchedObject_id_d_range_def MatchedObject_id_m_def
        pack_monads_def SetOfMonads_hasOnlyOneMSE_def)
  have types: "type_id (MatchedObject_id_d_range d m n f (Some demo_block)) = 7" "type_id (demo_mo d m) = 7" if "0 \<le> d" for d m n f
    using that by (simp_all add: MatchedObject_id_d_range_def demo_mo_def type_id_def demo_block_def)
  have gap: "type_id demo_gap_mo = OBJECT_TYPE_POW_M" "mo_without_sheaf demo_gap_mo = demo_gap_mo" "mo_without_sheaf (demo_mo d m) = demo_mo d m"
    "mo_id_d demo_gap_mo = -3" for d m
    by (simp_all add: demo_gap_mo_def MatchedObject_id_m_def type_id_def mo_without_sheaf_def demo_mo_def MatchedObject_id_d_range_def
        pack_monads_def SetOfMonads_hasOnlyOneMSE_def)
  have first: "mo_without_sheaf (MatchedObject_id_d_range 10 1 3 f b) = MatchedObject_id_d_range 10 1 3 None b" for f b
    by (simp add: MatchedObject_id_d_range_def mo_without_sheaf_def)
  show ?thesis
    using flat_sheaf_groups_by_type[OF demo_gap_sheaf_wf, of "[]"]
      flat_sheaf_groups_by_type[OF demo_gap_sheaf_wf, of "[(8, ''phrase''), (7, ''word'')]"]
    by (auto simp: Let_def list types gap first OBJECT_TYPE_POW_M_def elim!: returns_mono)
qed

end
