(* ===== verification/FeatureConstraints.thy ===== *)
theory FeatureConstraints
  imports Sheaf
begin

text \<open>
  The feature constraints of object blocks and how a query decides them, after the functions
  \<open>R_feature_comparison\<close> to \<open>R_features\<close> of \<^verbatim>\<open>MQL/mql_R.cpp\<close>, \<open>FeatureComparison::compare\<close> of
  \<^verbatim>\<open>MQL/mql_query.cpp\<close> and \<^verbatim>\<open>MQL/mql_object.cpp\<close>, with the execution environment they read. The
  regular-expression library is a parameter: \<open>ee_pcre_exec\<close> is its matcher, on the pattern
  compiled when the query was checked. So is the database, which \<open>ee_getInst\<close> asks for the objects
  of a block within a set of monads. Blocks and block strings are referred to by their node
  numbers.
\<close>

section \<open>The execution environment\<close>

text \<open>
  A callback answers on what it has been shown so far: whether to go on, and at the start
  whether the sheaf is to be stored.
\<close>

record MQLResultCallback =
  cb_startSheaf :: "bool \<times> bool"
  cb_nextLOS :: "ListOfStraws list \<Rightarrow> bool"

record MQLExecEnv =
  ee_all_m_1 :: SetOfMonads
  ee_bContinueExecution :: bool
  ee_pCallback :: "MQLResultCallback option"
  ee_shown :: "ListOfStraws list"
  ee_endSheaf :: "bool list"
  ee_ORUStraw :: "int \<Rightarrow> Straw option"
  ee_MQLObject :: "int \<Rightarrow> EMdFValue option list"
  ee_pcre_exec :: "string \<Rightarrow> string \<Rightarrow> int"
  ee_getInst :: "int \<Rightarrow> SetOfMonads \<Rightarrow> Inst res"

section \<open>The local symbol table of an object block\<close>

text \<open>\<open>retrieveFeatureValues\<close> overwrites each value of the table, as many as it has.\<close>

fun retrieve_loop :: "InstObject \<Rightarrow> nat \<Rightarrow> nat \<Rightarrow> EMdFValue option list res" where
  "retrieve_loop pOther index 0 = Inr []"
| "retrieve_loop pOther index (Suc left) =
     bind_res (InstObject_getFeature pOther index) (\<lambda>v.
     bind_res (retrieve_loop pOther (index + 1) left) (\<lambda>vs. Inr (Some v # vs)))"

definition retrieveFeatureValues :: "MQLExecEnv \<Rightarrow> int \<Rightarrow> InstObject \<Rightarrow> MQLExecEnv res" where
  "retrieveFeatureValues ee nn pOther =
     bind_res (retrieve_loop pOther 0 (length (ee_MQLObject ee nn))) (\<lambda>vs.
       Inr (ee\<lparr>ee_MQLObject := (ee_MQLObject ee)(nn := vs)\<rparr>))"

definition getFeatureValue :: "MQLExecEnv \<Rightarrow> int \<Rightarrow> int \<Rightarrow> EMdFValue option res" where
  "getFeatureValue ee nn index =
     (if 0 \<le> index \<and> nat index < length (ee_MQLObject ee nn) then Inr (ee_MQLObject ee nn ! nat index)
      else Inl NullDeref)"

definition deref :: "'a option \<Rightarrow> 'a res" where
  "deref p = (case p of None \<Rightarrow> Inl NullDeref | Some x \<Rightarrow> Inr x)"

section \<open>Feature comparisons\<close>

record ObjectReferenceUsage =
  oru_ORDIsParent :: bool
  oru_ControllingObjectBlock :: int
  oru_FeatureIndexInMQLObject :: int
  oru_MatchedObjectIndex :: int
  oru_FeatureIndexInMatchedObject :: int
  oru_OutputFeatureTypeId :: id_d_t
  oru_object_reference :: string
  oru_feature_name :: string

text \<open>An enumeration constant with the type id of its enumeration, once the database has been asked.\<close>

datatype Value = kValEnumConst int id_d_t | kValInteger int | kValString string | kValObjectReferenceUsage ObjectReferenceUsage

record FeatureComparison =
  fc_feature_index :: int
  fc_comparison_op :: eComparisonOp
  fc_value :: "Value option"
  fc_in_enum_list :: "int list option"
  fc_in_integer_list :: "int list option"
  fc_pcre :: string
  fc_output_type :: id_d_t
  fc_feature_name :: string

type_synonym NonParentORDSolution = "MatchedObject list"

definition solution_nth :: "NonParentORDSolution option \<Rightarrow> int \<Rightarrow> MatchedObject res" where
  "solution_nth sol index =
     bind_res (deref sol) (\<lambda>vec. if 0 \<le> index \<and> nat index < length vec then Inr (vec ! nat index) else Inl NullDeref)"

definition getEMdFValueFromObjectReferenceUsage ::
  "MQLExecEnv \<Rightarrow> ObjectReferenceUsage \<Rightarrow> NonParentORDSolution option \<Rightarrow> EMdFValue option res" where
  "getEMdFValueFromObjectReferenceUsage ee oru sol =
     (if oru_ORDIsParent oru
      then getFeatureValue ee (oru_ControllingObjectBlock oru) (oru_FeatureIndexInMQLObject oru)
      else bind_res (solution_nth sol (oru_MatchedObjectIndex oru)) (\<lambda>mo.
             mo_getEMdFValue mo (oru_FeatureIndexInMatchedObject oru)))"

definition compareObjectReferenceUsage ::
  "MQLExecEnv \<Rightarrow> EMdFValue \<Rightarrow> ObjectReferenceUsage \<Rightarrow> NonParentORDSolution option \<Rightarrow> eComparisonOp \<Rightarrow> bool res" where
  "compareObjectReferenceUsage ee left_value oru sol cop =
     bind_res (getEMdFValueFromObjectReferenceUsage ee oru sol) (\<lambda>pRightValue.
       case pRightValue of None \<Rightarrow> Inl EmdrosException | Some r \<Rightarrow> EMdFValue_compare left_value r cop)"

definition compare_with_Value ::
  "MQLExecEnv \<Rightarrow> EMdFValue \<Rightarrow> Value \<Rightarrow> NonParentORDSolution option \<Rightarrow> eComparisonOp \<Rightarrow> bool res" where
  "compare_with_Value ee left_value v sol cop =
     (case v of
        kValEnumConst i enum_id \<Rightarrow> EMdFValue_compare left_value (kEVEnum i) cop
      | kValInteger i \<Rightarrow> EMdFValue_compare left_value (kEVInt i) cop
      | kValString s \<Rightarrow> EMdFValue_compare left_value (kEVString s) cop
      | kValObjectReferenceUsage oru \<Rightarrow> compareObjectReferenceUsage ee left_value oru sol cop)"

definition Value_getAsString :: "MQLExecEnv \<Rightarrow> Value \<Rightarrow> NonParentORDSolution option \<Rightarrow> string res" where
  "Value_getAsString ee v sol =
     (case v of
        kValEnumConst i enum_id \<Rightarrow> Inr (long2string i)
      | kValInteger i \<Rightarrow> Inr (long2string i)
      | kValString s \<Rightarrow> Inr s
      | kValObjectReferenceUsage oru \<Rightarrow>
          bind_res (getEMdFValueFromObjectReferenceUsage ee oru sol) (\<lambda>p.
          bind_res (deref p) (\<lambda>r. Inr (EMdFValue_toString r))))"

definition compare_with_list :: "EMdFValue \<Rightarrow> int list \<Rightarrow> bool res" where
  "compare_with_list left_value l =
     (if ParserList_isEmpty l then bind_res (getIntegerList left_value) (\<lambda>k. Inr (ParserList_isEmpty k))
      else EMdFValue_compare left_value (kEVListOfInteger (foldl ParserList_addValueBack [] l)) kEqual)"

text \<open>
  The member \<open>m_int\<close> of the union, read whatever the kind: nothing is checked and nothing is thrown.
  Where the union holds something else the value is not defined.
\<close>

definition value_getEnum :: "EMdFValue \<Rightarrow> int res" where
  "value_getEnum v = (case v of kEVInt i \<Rightarrow> Inr i | kEVEnum i \<Rightarrow> Inr i | _ \<Rightarrow> Inl UndefinedValue)"

definition in_integer_list :: "EMdFValue \<Rightarrow> int list \<Rightarrow> bool" where
  "in_integer_list left_value l \<longleftrightarrow>
     str_find (getDelimitedString l DEFAULT_LIST_DELIMITER)
       (DEFAULT_LIST_DELIMITER @ EMdFValue_toString left_value @ DEFAULT_LIST_DELIMITER) 0 \<noteq> None"

definition compare_pcre :: "MQLExecEnv \<Rightarrow> EMdFValue \<Rightarrow> FeatureComparison \<Rightarrow> NonParentORDSolution option \<Rightarrow> int res" where
  "compare_pcre ee left_value fc sol =
     bind_res (deref (fc_value fc)) (\<lambda>v.
     bind_res (Value_getAsString ee v sol) (\<lambda>right_value.
     bind_res (getString_value left_value) (\<lambda>left_value_str.
       Inr (ee_pcre_exec ee (fc_pcre fc) left_value_str))))"

text \<open>
  The constants of an explicit list of enumeration constants are in the comparison's own cache,
  which \<open>kIn\<close> searches.
\<close>

definition FeatureComparison_compare ::
  "MQLExecEnv \<Rightarrow> FeatureComparison \<Rightarrow> EMdFValue \<Rightarrow> NonParentORDSolution option \<Rightarrow> bool res" where
  "FeatureComparison_compare ee fc left_value sol =
     (let cop = fc_comparison_op fc in
      case cop of
        kEqual \<Rightarrow>
          (case (fc_in_enum_list fc, fc_in_integer_list fc, fc_value fc) of
             (Some l, _, _) \<Rightarrow> compare_with_list left_value l
           | (None, Some l, _) \<Rightarrow> compare_with_list left_value l
           | (None, None, Some v) \<Rightarrow> compare_with_Value ee left_value v sol cop
           | (None, None, None) \<Rightarrow> Inl EmdrosException)
      | kIn \<Rightarrow>
          (case (fc_in_enum_list fc, fc_in_integer_list fc) of
             (Some l, _) \<Rightarrow> bind_res (value_getEnum left_value) (\<lambda>e. Inr (e \<in> set l))
           | (None, Some l) \<Rightarrow> Inr (in_integer_list left_value l)
           | (None, None) \<Rightarrow>
               bind_res (deref (fc_value fc)) (\<lambda>v.
                 case v of kValObjectReferenceUsage oru \<Rightarrow> compareObjectReferenceUsage ee left_value oru sol cop
                 | _ \<Rightarrow> Inl EmdrosException))
      | kTilde \<Rightarrow> bind_res (compare_pcre ee left_value fc sol) (\<lambda>pcre_result. Inr (\<not> pcre_result \<le> 0))
      | kNotTilde \<Rightarrow> bind_res (compare_pcre ee left_value fc sol) (\<lambda>pcre_result. Inr (pcre_result \<le> 0))
      | _ \<Rightarrow> bind_res (deref (fc_value fc)) (\<lambda>v. compare_with_Value ee left_value v sol cop))"

section \<open>Boolean constraints\<close>

datatype FFeatures = FFeatures_fterm FTerm | FFeatures_or FFeatures FTerm
and FTerm = FTerm_ffactor FFactor | FTerm_and FTerm FFactor
and FFactor = FFactor_not FFactor | FFactor_paren FFeatures | FFactor_comparison FeatureComparison

definition R_feature_comparison ::
  "FeatureComparison \<Rightarrow> MQLExecEnv \<Rightarrow> int \<Rightarrow> NonParentORDSolution option \<Rightarrow> bool res" where
  "R_feature_comparison fc ee pObj sol =
     bind_res (getFeatureValue ee pObj (fc_feature_index fc)) (\<lambda>p.
     bind_res (deref p) (\<lambda>left_value. FeatureComparison_compare ee fc left_value sol))"

primrec R_ffeatures :: "FFeatures \<Rightarrow> MQLExecEnv \<Rightarrow> int \<Rightarrow> NonParentORDSolution option \<Rightarrow> bool res"
and R_fterm :: "FTerm \<Rightarrow> MQLExecEnv \<Rightarrow> int \<Rightarrow> NonParentORDSolution option \<Rightarrow> bool res"
and R_ffactor :: "FFactor \<Rightarrow> MQLExecEnv \<Rightarrow> int \<Rightarrow> NonParentORDSolution option \<Rightarrow> bool res" where
  "R_ffeatures (FFeatures_fterm t) = R_fterm t"
| "R_ffeatures (FFeatures_or f t) = (\<lambda>ee pObj sol.
     bind_res (R_ffeatures f ee pObj sol) (\<lambda>bFFeatures. if bFFeatures then Inr True else R_fterm t ee pObj sol))"
| "R_fterm (FTerm_ffactor f) = R_ffactor f"
| "R_fterm (FTerm_and t f) = (\<lambda>ee pObj sol.
     bind_res (R_fterm t ee pObj sol) (\<lambda>bFTerm. if \<not> bFTerm then Inr False else R_ffactor f ee pObj sol))"
| "R_ffactor (FFactor_not f) = (\<lambda>ee pObj sol. bind_res (R_ffactor f ee pObj sol) (\<lambda>b. Inr (\<not> b)))"
| "R_ffactor (FFactor_paren f) = R_ffeatures f"
| "R_ffactor (FFactor_comparison fc) = R_feature_comparison fc"

section \<open>References to objects that are not parents\<close>

text \<open>The constraints of a block with what checking the query found out about its references.\<close>

record FeatureConstraint =
  ffc_ffeatures :: FFeatures
  ffc_hasNonParentORUs :: bool
  ffc_BlockString2List :: "int list"
  ffc_OBBs :: "int list"
  ffc_node_number :: int
  ffc_block_string2_parent :: int

definition copy_nonempty :: "NonParentORDSolution list \<Rightarrow> NonParentORDSolution list" where
  "copy_nonempty l = filter (\<lambda>s. s \<noteq> []) l"

definition R_add_two_lists :: "NonParentORDSolution list \<Rightarrow> NonParentORDSolution list \<Rightarrow> NonParentORDSolution list" where
  "R_add_two_lists pList1 pList2 =
     (if pList2 = [] then copy_nonempty pList1
      else if pList1 = [] then copy_nonempty pList2
      else foldl (\<lambda>r pL1. foldl (\<lambda>r pL2.
             if pL2 \<noteq> [] then (if pL1 \<noteq> [] then r @ [[] @ pL1 @ pL2] else r @ [pL2]) else r) r pList2) [] pList1)"

definition own_solution :: "FeatureConstraint \<Rightarrow> MatchedObject \<Rightarrow> NonParentORDSolution list res" where
  "own_solution ffc pMO =
     bind_res (mo_block pMO) (\<lambda>b. Inr (if obb_node_number b \<in> set (ffc_OBBs ffc) then [[pMO]] else []))"

fun R_harvest_mo_for_list :: "FeatureConstraint \<Rightarrow> MatchedObject \<Rightarrow> NonParentORDSolution list res"
and harvest_mos :: "FeatureConstraint \<Rightarrow> NonParentORDSolution list \<Rightarrow> MatchedObject list \<Rightarrow> NonParentORDSolution list \<Rightarrow>
  NonParentORDSolution list res"
and harvest_straws :: "FeatureConstraint \<Rightarrow> NonParentORDSolution list \<Rightarrow> Straw list \<Rightarrow> NonParentORDSolution list \<Rightarrow>
  NonParentORDSolution list res"
and harvest_sheaf :: "FeatureConstraint \<Rightarrow> NonParentORDSolution list \<Rightarrow> Sheaf \<Rightarrow> NonParentORDSolution list res" where
  "R_harvest_mo_for_list ffc (MatchedObject l u d b v None) = own_solution ffc (MatchedObject l u d b v None)"
| "R_harvest_mo_for_list ffc (MatchedObject l u d b v (Some s)) =
     bind_res (own_solution ffc (MatchedObject l u d b v (Some s))) (\<lambda>pMO_list. harvest_sheaf ffc pMO_list s)"
| "harvest_mos ffc pMO_list [] pResultList = Inr pResultList"
| "harvest_mos ffc pMO_list (pMO2 # straw_ci) pResultList =
     bind_res (R_harvest_mo_for_list ffc pMO2) (\<lambda>pInner_MO_list.
       harvest_mos ffc pMO_list straw_ci (pResultList @ R_add_two_lists pMO_list pInner_MO_list))"
| "harvest_straws ffc pMO_list [] pResultList = Inr pResultList"
| "harvest_straws ffc pMO_list (Straw l mos # sheaf_ci) pResultList =
     bind_res (harvest_mos ffc pMO_list mos pResultList) (harvest_straws ffc pMO_list sheaf_ci)"
| "harvest_sheaf ffc pMO_list (Sheaf None) = Inr pMO_list"
| "harvest_sheaf ffc pMO_list (Sheaf (Some los)) =
     (if los = [] then Inr pMO_list else harvest_straws ffc pMO_list los [])"

definition R_build_solution_list :: "MQLExecEnv \<Rightarrow> FeatureConstraint \<Rightarrow> NonParentORDSolution list res" where
  "R_build_solution_list ee ffc =
     foldM_res (\<lambda>pResultList bs2.
       bind_res (deref (ee_ORUStraw ee bs2)) (\<lambda>pStraw.
         foldM_res (\<lambda>r pMO. bind_res (R_harvest_mo_for_list ffc pMO) (\<lambda>l. Inr (R_add_two_lists r l)))
           pResultList (straw_list pStraw)))
       [] (ffc_BlockString2List ffc)"

fun any_solution :: "FFeatures \<Rightarrow> MQLExecEnv \<Rightarrow> int \<Rightarrow> NonParentORDSolution list \<Rightarrow> bool res" where
  "any_solution f ee pObj [] = Inr False"
| "any_solution f ee pObj (sol # it) =
     bind_res (R_ffeatures f ee pObj (Some sol)) (\<lambda>b. if b then Inr True else any_solution f ee pObj it)"

definition R_features :: "MQLExecEnv \<Rightarrow> int \<Rightarrow> FeatureConstraint option \<Rightarrow> bool res" where
  "R_features ee pObj pFFeatures =
     (case pFFeatures of
        None \<Rightarrow> Inr True
      | Some ffc \<Rightarrow>
          if ffc_hasNonParentORUs ffc
          then bind_res (R_build_solution_list ee ffc) (any_solution (ffc_ffeatures ffc) ee pObj)
          else R_ffeatures (ffc_ffeatures ffc) ee pObj None)"

end
