(* ===== verification/Topograph.thy ===== *)
theory Topograph
  imports FeatureConstraints
begin

text \<open>
  The engine of topographic queries, after \<^verbatim>\<open>MQL/mql_R.cpp\<close>, with the iterators over starting
  monads, \<open>getSMI\<close> and \<open>MonadSetRelationClause::exec\<close> of \<^verbatim>\<open>MQL/mql_query.cpp\<close> and \<open>R_restrict\<close> of
  \<^verbatim>\<open>MQL/mql_utility.cpp\<close>. The syntax tree is a datatype per class; each function \<open>R_x\<close> of the code is
  one primitive recursion on the tree, whose clauses hand the results for the subtrees to a
  definition with the body of the function. All functions thread the execution environment.
\<close>

section \<open>Parts of the syntax tree\<close>

datatype eMonadSetRelationOperation = kMSROPartOf | kMSROOverlap | kMSROStartsIn
datatype eUniverseOrSubstrate = kMSNUniverse | kMSNSubstrate

record MonadSetRelationClause =
  msrc_operation :: eMonadSetRelationOperation
  msrc_our_monad_set :: string
  msrc_universe_or_substrate :: eUniverseOrSubstrate
  msrc_feature_type_id :: id_d_t

datatype eObjectRangeType = kORTMultipleRange | kORTSingleRange | kORTSingleMonad
datatype eFirstLast = kNoFirstLast | kFirst | kLast | kFirstAndLast

text \<open>Where a feature's value is found and where it goes in the matched object, and its name for people.\<close>

record Feature =
  ft_feature_index_inst :: int
  ft_list_index :: nat
  ft_name :: string

text \<open>
  The features in the local symbol table of an object block (\<open>m_object\<close>) are given by their names;
  the values are in the execution environment.
\<close>

record ObjectBlockInfo =
  ob_base :: ObjectBlockBase
  ob_pOBB :: "ObjectBlockBase option"
  ob_first_last :: eFirstLast
  ob_feature_constraints :: "FeatureConstraint option"
  ob_MSRC :: MonadSetRelationClause
  ob_inst :: "Inst option"
  ob_Feature_retrieval_vec :: "Feature list"
  ob_bIsNOTEXIST :: bool
  ob_bIsAfterNonNOTEXIST :: bool
  ob_bBlockStringHasOnlyNOTEXIST :: bool
  ob_largest_object_length :: monad_m
  ob_object_reference_lower :: string
  ob_objectRangeType :: eObjectRangeType
  ob_object :: "string list"
  ob_bIsFirstInBlockString :: bool
  ob_bIsLastInBlockString :: bool
  ob_block_string2_parent :: int

record GapBlockInfo =
  gb_retrieval :: eRetrieval
  gb_pOBB :: "ObjectBlockBase option"
  gb_marks :: string

record Power =
  pw_limit_low :: int
  pw_limit_high :: int

record UsingRange =
  ur_start :: int
  ur_end :: int

text \<open>
  A string of blocks has a number among the nodes of the query, the number of the string it is
  nested in, and whether it had a \<^verbatim>\<open>!\<close>. A \<^verbatim>\<open>*\<close> has its set as ranges and, after checking, as a set of monads.
\<close>

record BlockString2Info =
  bs2_node_number :: int
  bs2_parent :: int
  bs2_bIsExclamation :: bool

type_synonym MQLMonadSetElement = "(monad_m \<times> monad_m) list"

datatype Blocks = Blocks_string BlockString "UsingRange option" | Blocks_unordered ObjectBlockString
and BlockString = BlockString_bs2 BlockString2 | BlockString_or BlockString2 BlockString
and BlockString2 = BlockString2_bs1 BlockString2Info BlockString1 | BlockString2_seq BlockString2Info BlockString1 BlockString2
and BlockString1 = BlockString1_bs0 BlockString0 | BlockString1_star BlockString0 MQLMonadSetElement SetOfMonads
and BlockString0 = BlockString0_block Block | BlockString0_string BlockString
and Block = kOptGapBlock GapBlock | kGapBlock GapBlock | kPowerBlock Power | kObjectBlock ObjectBlock
  | kObjectBlockNOTEXIST ObjectBlock
and GapBlock = GapBlock GapBlockInfo "Blocks option"
and ObjectBlock = ObjectBlock ObjectBlockInfo "Blocks option"
and ObjectBlockString = ObjectBlockString_one ObjectBlock | ObjectBlockString_more ObjectBlockString ObjectBlock

section \<open>Restricting and relating sets of monads\<close>

definition MYMIN :: "int \<Rightarrow> int \<Rightarrow> int" where "MYMIN a b = (if a < b then a else b)"
definition MYMAX :: "int \<Rightarrow> int \<Rightarrow> int" where "MYMAX a b = (if a > b then a else b)"

definition R_restrict :: "SetOfMonads \<Rightarrow> monad_m \<Rightarrow> SetOfMonads res" where
  "R_restrict SOM monad =
     (let SOM_first = m_first SOM; mm1 = monad - 1
      in if SOM_first \<le> mm1 then SetOfMonads_removeMSE_range SOM SOM_first mm1 else Inr SOM)"

definition MonadSetRelationClause_exec ::
  "MonadSetRelationClause \<Rightarrow> SetOfMonads \<Rightarrow> SetOfMonads \<Rightarrow> SetOfMonads \<Rightarrow> bool res" where
  "MonadSetRelationClause_exec c object_som universe substrate =
     (let som = (case msrc_universe_or_substrate c of kMSNSubstrate \<Rightarrow> substrate | kMSNUniverse \<Rightarrow> universe)
      in case msrc_operation c of
           kMSROPartOf \<Rightarrow> SetOfMonads_part_of object_som som
         | kMSROOverlap \<Rightarrow> Inr (SetOfMonads_overlap object_som som)
         | kMSROStartsIn \<Rightarrow> Inr (SetOfMonads_starts_in object_som som))"

section \<open>Iterators over starting monads\<close>

datatype StartMonadIterator =
    InstStartMonadIterator (smi_Su: SetOfMonads) Inst nat
  | MonadSetStartMonadIterator (smi_Su: SetOfMonads) SOMConstMonadIterator

fun smi_hasNext :: "StartMonadIterator \<Rightarrow> bool" where
  "smi_hasNext (InstStartMonadIterator Su i ci) = sit_hasNext (ic_sl (in_contents i)) ci"
| "smi_hasNext (MonadSetStartMonadIterator Su ci) = SOMConstMonadIterator_hasNext ci"

fun smi_next :: "StartMonadIterator \<Rightarrow> (monad_m \<times> StartMonadIterator) res" where
  "smi_next (InstStartMonadIterator Su i ci) =
     bind_res (sit_current (ic_sl (in_contents i)) ci) (\<lambda>pInstObj.
     bind_res (Inst_nextAtHigherKey i ci) (\<lambda>ci1.
       Inr (io_first pInstObj, InstStartMonadIterator Su i ci1)))"
| "smi_next (MonadSetStartMonadIterator Su ci) =
     bind_res (SOMConstMonadIterator_next ci) (\<lambda>(m, ci1). Inr (m, MonadSetStartMonadIterator Su ci1))"

text \<open>The loops of the constructors, which step to the first monad not before \<open>Sm\<close>.\<close>

fun inst_smi_loop :: "nat \<Rightarrow> Inst \<Rightarrow> monad_m \<Rightarrow> nat \<Rightarrow> nat res" where
  "inst_smi_loop 0 i Sm ci = Inl OutOfFuel"
| "inst_smi_loop (Suc n) i Sm ci =
     (if sit_hasNext (ic_sl (in_contents i)) ci
      then bind_res (sit_current (ic_sl (in_contents i)) ci) (\<lambda>pInstObj.
             if io_first pInstObj \<ge> Sm then Inr ci
             else bind_res (Inst_nextAtHigherKey i ci) (inst_smi_loop n i Sm))
      else Inr ci)"

definition InstStartMonadIterator_new :: "Inst \<Rightarrow> SetOfMonads \<Rightarrow> SetOfMonads \<Rightarrow> monad_m \<Rightarrow> StartMonadIterator res" where
  "InstStartMonadIterator_new pInst U Su Sm =
     (let i = Inst_set_current_universe pInst U
      in bind_res (Inst_begin i) (\<lambda>ci.
         bind_res (inst_smi_loop (sl_next (ic_sl (in_contents i))) i Sm ci) (\<lambda>ci1.
           Inr (InstStartMonadIterator Su i ci1))))"

fun som_smi_loop :: "nat \<Rightarrow> monad_m \<Rightarrow> SOMConstMonadIterator \<Rightarrow> SOMConstMonadIterator res" where
  "som_smi_loop 0 Sm ci = Inl OutOfFuel"
| "som_smi_loop (Suc n) Sm ci =
     (if SOMConstMonadIterator_hasNext ci
      then bind_res (SOMConstMonadIterator_current ci) (\<lambda>current.
             if current \<ge> Sm then Inr ci
             else bind_res (SOMConstMonadIterator_next ci) (\<lambda>(_, ci1). som_smi_loop n Sm ci1))
      else Inr ci)"

text \<open>A set of monads has as many steps as its stretches are long.\<close>

definition som_steps :: "mse list \<Rightarrow> nat" where
  "som_steps ms = Suc (sum_list (map (\<lambda>e. nat (last_m e + 1 - first_m e)) ms))"

definition MonadSetStartMonadIterator_new :: "SetOfMonads \<Rightarrow> monad_m \<Rightarrow> bool \<Rightarrow> StartMonadIterator res" where
  "MonadSetStartMonadIterator_new Su Sm isGaps =
     bind_res (if isGaps then SetOfMonads_getGaps Su else Inr Su) (\<lambda>m_Su.
     bind_res (som_smi_loop (som_steps (monad_ms m_Su)) Sm (SOMConstMonadIterator_new m_Su)) (\<lambda>ci.
       Inr (MonadSetStartMonadIterator m_Su ci)))"

definition smi_fuel :: "StartMonadIterator \<Rightarrow> nat" where
  "smi_fuel smi =
     (case smi of
        InstStartMonadIterator Su i ci \<Rightarrow> sl_next (ic_sl (in_contents i))
      | MonadSetStartMonadIterator Su ci \<Rightarrow> som_steps (m_hint ci))"

text \<open>The loops \<open>while (go && pSMI->hasNext())\<close>; the body says whether it breaks out.\<close>

fun smi_loop ::
  "nat \<Rightarrow> ('s \<Rightarrow> bool) \<Rightarrow> ('s \<Rightarrow> monad_m \<Rightarrow> ('s \<times> bool) res) \<Rightarrow> StartMonadIterator \<Rightarrow> 's \<Rightarrow> 's res" where
  "smi_loop 0 go body pSMI s = Inl OutOfFuel"
| "smi_loop (Suc n) go body pSMI s =
     (if go s \<and> smi_hasNext pSMI
      then bind_res (smi_next pSMI) (\<lambda>(Sm, pSMI1).
           bind_res (body s Sm) (\<lambda>(s1, brk). if brk then Inr s1 else smi_loop n go body pSMI1 s1))
      else Inr s)"

section \<open>Starting monads of blocks\<close>

definition R_inst :: "MQLExecEnv \<Rightarrow> SetOfMonads \<Rightarrow> ObjectBlockInfo \<Rightarrow> Inst res" where
  "R_inst ee Su ob =
     (case ob_inst ob of
        Some i \<Rightarrow> Inr i
      | None \<Rightarrow>
          bind_res (if msrc_universe_or_substrate (ob_MSRC ob) = kMSNUniverse
                    then SetOfMonads_range (m_first Su) (m_last Su) else Inr Su)
            (ee_getInst ee (obb_node_number (ob_base ob))))"

definition hull :: "SetOfMonads \<Rightarrow> SetOfMonads res" where
  "hull s = (if SetOfMonads_isEmpty s then Inr s else SetOfMonads_range (m_first s) (m_last s))"

text \<open>The bounds for relations that stay within the substrate, \<open>part_of\<close> and \<open>starts_in\<close>.\<close>

definition smi_bounds_inside :: "MQLExecEnv \<Rightarrow> ObjectBlockInfo \<Rightarrow> SetOfMonads \<Rightarrow> monad_m \<Rightarrow> monad_m \<times> monad_m" where
  "smi_bounds_inside ee ob Su Sm =
     (if strcmp_nocase (msrc_our_monad_set (ob_MSRC ob)) ''monads'' \<noteq> 0 then (1, MAX_MONAD)
      else (MYMAX (m_first (ee_all_m_1 ee)) Sm,
            if SetOfMonads_isEmpty Su then m_last (ee_all_m_1 ee)
            else MYMIN (m_last (ee_all_m_1 ee)) (m_last Su)))"

definition smi_bounds_overlap :: "MQLExecEnv \<Rightarrow> ObjectBlockInfo \<Rightarrow> SetOfMonads \<Rightarrow> monad_m \<Rightarrow> monad_m \<times> monad_m" where
  "smi_bounds_overlap ee ob Su Sm =
     (if strcmp_nocase (msrc_our_monad_set (ob_MSRC ob)) ''monads'' \<noteq> 0 then (1, MAX_MONAD)
      else (MYMAX 1 (Sm - ob_largest_object_length ob),
            if SetOfMonads_isEmpty Su then m_last (ee_all_m_1 ee)
            else MYMIN (m_last (ee_all_m_1 ee)) (m_last Su)))"

definition smi_Suping :: "MQLExecEnv \<Rightarrow> ObjectBlockInfo \<Rightarrow> SetOfMonads \<Rightarrow> monad_m \<Rightarrow> (SetOfMonads \<times> monad_m) res" where
  "smi_Suping ee ob Su Sm =
     (if msrc_operation (ob_MSRC ob) = kMSROOverlap
      then let (lower, upper) = smi_bounds_overlap ee ob Su Sm
           in bind_res (if SetOfMonads_isEmpty Su then SetOfMonads_add_range Su lower upper
                        else bind_res (SetOfMonads_add_range Su lower (m_first Su)) (\<lambda>s.
                               SetOfMonads_add_range s (m_last s) upper)) (\<lambda>Suping. Inr (Suping, lower))
      else let (lower, upper) = smi_bounds_inside ee ob Su Sm
           in bind_res (if SetOfMonads_isEmpty Su then Inr Su
                        else bind_res (SetOfMonads_range lower upper) (SetOfMonads_intersect Su)) (\<lambda>Suping.
              Inr (Suping, lower)))"

definition ObjectBlock_getSMI ::
  "ObjectBlockInfo \<Rightarrow> MQLExecEnv \<Rightarrow> SetOfMonads \<Rightarrow> SetOfMonads \<Rightarrow> monad_m \<Rightarrow> bool \<Rightarrow> StartMonadIterator res" where
  "ObjectBlock_getSMI ob ee U Su Sm bCameFromBlockString =
     bind_res (smi_Suping ee ob Su Sm) (\<lambda>(Suping, lower_bound_Sm).
     bind_res (hull Suping) (\<lambda>Uping.
       if ob_bIsNOTEXIST ob
       then if ob_bBlockStringHasOnlyNOTEXIST ob \<and> bCameFromBlockString
            then bind_res (SetOfMonads_add_range SetOfMonads_empty lower_bound_Sm lower_bound_Sm) (\<lambda>s.
                   MonadSetStartMonadIterator_new s lower_bound_Sm False)
            else MonadSetStartMonadIterator_new Suping lower_bound_Sm False
       else bind_res (R_inst ee Uping ob) (\<lambda>pInst.
              InstStartMonadIterator_new pInst Uping Suping lower_bound_Sm)))"

type_synonym smi_fun = "MQLExecEnv \<Rightarrow> SetOfMonads \<Rightarrow> SetOfMonads \<Rightarrow> monad_m \<Rightarrow> StartMonadIterator res"

fun ob_info :: "ObjectBlock \<Rightarrow> ObjectBlockInfo" where
  "ob_info (ObjectBlock ob opt_blocks) = ob"

fun Block_getSMI :: "Block \<Rightarrow> bool \<Rightarrow> smi_fun" where
  "Block_getSMI (kOptGapBlock g) b ee U Su Sm = MonadSetStartMonadIterator_new U Sm False"
| "Block_getSMI (kGapBlock g) b ee U Su Sm = MonadSetStartMonadIterator_new Su Sm True"
| "Block_getSMI (kPowerBlock p) b ee U Su Sm = Inl EmdrosException"
| "Block_getSMI (kObjectBlock ob) b ee U Su Sm = ObjectBlock_getSMI (ob_info ob) ee U Su Sm b"
| "Block_getSMI (kObjectBlockNOTEXIST ob) b ee U Su Sm = ObjectBlock_getSMI (ob_info ob) ee U Su Sm b"

text \<open>The union of the substrates of both alternatives, from the least monad on.\<close>

definition or_getSMI :: "smi_fun \<Rightarrow> smi_fun \<Rightarrow> smi_fun" where
  "or_getSMI f g ee U Su Sm =
     bind_res (f ee U Su Sm) (\<lambda>pBS2_SMI.
     bind_res (g ee U Su Sm) (\<lambda>pBS_SMI.
       let new_Su = smi_Su pBS2_SMI;
           new_Sm = (if \<not> SetOfMonads_isEmpty new_Su then MYMIN (m_first new_Su) Sm else Sm);
           new_Su1 = SetOfMonads_unionWith new_Su (smi_Su pBS_SMI);
           new_Sm1 = (if \<not> SetOfMonads_isEmpty new_Su1 then MYMIN (m_first new_Su1) new_Sm else new_Sm)
       in MonadSetStartMonadIterator_new new_Su1 new_Sm1 False))"

primrec BlockString_getSMI :: "BlockString \<Rightarrow> smi_fun"
and BlockString2_getSMI :: "BlockString2 \<Rightarrow> smi_fun"
and BlockString1_getSMI :: "BlockString1 \<Rightarrow> smi_fun"
and BlockString0_getSMI :: "BlockString0 \<Rightarrow> smi_fun" where
  "BlockString_getSMI (BlockString_bs2 b2) = BlockString2_getSMI b2"
| "BlockString_getSMI (BlockString_or b2 b) = or_getSMI (BlockString2_getSMI b2) (BlockString_getSMI b)"
| "BlockString2_getSMI (BlockString2_bs1 n b1) = BlockString1_getSMI b1"
| "BlockString2_getSMI (BlockString2_seq n b1 b2) = BlockString1_getSMI b1"
| "BlockString1_getSMI (BlockString1_bs0 b0) = BlockString0_getSMI b0"
| "BlockString1_getSMI (BlockString1_star b0 mse som) = (\<lambda>ee U Su Sm.
     if SetOfMonads_isMemberOf som 0 then MonadSetStartMonadIterator_new Su Sm False
     else BlockString0_getSMI b0 ee U Su Sm)"
| "BlockString0_getSMI (BlockString0_block b) = Block_getSMI b True"
| "BlockString0_getSMI (BlockString0_string b) = BlockString_getSMI b"

end
