(* ===== verification/TopographR.thy ===== *)
theory TopographR
  imports Topograph
begin

text \<open>
  The functions \<open>R_x\<close> of \<^verbatim>\<open>MQL/mql_R.cpp\<close> that match the blocks of a query.
\<close>

type_synonym runner =
  "MQLExecEnv \<Rightarrow> SetOfMonads \<Rightarrow> SetOfMonads \<Rightarrow> monad_m \<Rightarrow> monad_m \<Rightarrow> (ListOfStraws \<times> MQLExecEnv) res"

type_synonym blocks_runner =
  "MQLExecEnv \<Rightarrow> SetOfMonads \<Rightarrow> SetOfMonads \<Rightarrow> bool \<Rightarrow> monad_m \<Rightarrow> (Sheaf \<times> MQLExecEnv) res"

section \<open>Strings of blocks\<close>

definition R_or :: "runner \<Rightarrow> runner \<Rightarrow> runner" where
  "R_or r2 r ee U Su Sm max_range =
     bind_res (r2 ee U Su Sm max_range) (\<lambda>(pBlockString2LOS, ee1).
     bind_res (r ee1 U Su Sm max_range) (\<lambda>(pBlockStringLOS, ee2).
       Inr (if pBlockString2LOS = [] then pBlockStringLOS
            else if pBlockStringLOS = [] then pBlockString2LOS
            else appendAndSubsume pBlockString2LOS pBlockStringLOS, ee2)))"

text \<open>The straws of the second part, each with the first part's straw in front.\<close>

fun prepend_each :: "Straw \<Rightarrow> ListOfStraws \<Rightarrow> ListOfStraws \<Rightarrow> ListOfStraws res" where
  "prepend_each pBS1Straw [] pResultLOS = Inr pResultLOS"
| "prepend_each pBS1Straw (pBS2Straw # ci) pResultLOS =
     (if \<not> Straw_isEmpty pBS2Straw
      then bind_res (Straw_prepend pBS2Straw pBS1Straw) (\<lambda>s. prepend_each pBS1Straw ci (LOS_append pResultLOS s))
      else prepend_each pBS1Straw ci pResultLOS)"

definition setORUStraw :: "MQLExecEnv \<Rightarrow> int \<Rightarrow> Straw \<Rightarrow> MQLExecEnv" where
  "setORUStraw ee nn s = ee\<lparr>ee_ORUStraw := (ee_ORUStraw ee)(nn := Some s)\<rparr>"

definition R_block_string2_non_power_block :: "int \<Rightarrow> runner \<Rightarrow> runner \<Rightarrow> runner" where
  "R_block_string2_non_power_block nn r1 r2 ee U Su Sm max_range =
     bind_res (r1 ee U Su Sm max_range) (\<lambda>(pBS1LOS, ee1).
       foldM_res (\<lambda>(pResultLOS, ee2) pBS1Straw.
         bind_res (r2 (setORUStraw ee2 nn pBS1Straw) U Su (straw_last pBS1Straw + 1) max_range) (\<lambda>(pBS2LOS, ee3).
         bind_res (prepend_each pBS1Straw pBS2LOS pResultLOS) (\<lambda>l. Inr (l, ee3)))) ([], ee1) pBS1LOS)"

text \<open>The sums of the power block are computed in 32 bits.\<close>

definition power_step ::
  "runner \<Rightarrow> SetOfMonads \<Rightarrow> SetOfMonads \<Rightarrow> monad_m \<Rightarrow> monad_m \<Rightarrow> Straw \<Rightarrow>
   ListOfStraws \<times> MQLExecEnv \<Rightarrow> monad_m \<Rightarrow> ((ListOfStraws \<times> MQLExecEnv) \<times> bool) res" where
  "power_step r2 U Su max_range upperLimit pBS1Straw = (\<lambda>(pResultLOS, ee) Smping.
     if Smping > upperLimit then Inr ((pResultLOS, ee), True)
     else bind_res (r2 ee U Su Smping max_range) (\<lambda>(pBS2LOS, ee1).
          bind_res (prepend_each pBS1Straw pBS2LOS pResultLOS) (\<lambda>l. Inr ((l, ee1), False))))"

definition power_straw ::
  "int \<Rightarrow> Power \<Rightarrow> smi_fun \<Rightarrow> runner \<Rightarrow> SetOfMonads \<Rightarrow> SetOfMonads \<Rightarrow> monad_m \<Rightarrow>
   ListOfStraws \<times> MQLExecEnv \<Rightarrow> Straw \<Rightarrow> (ListOfStraws \<times> MQLExecEnv) res" where
  "power_straw nn pPower smi r2 U Su max_range = (\<lambda>(pResultLOS, ee) pBS1Straw.
     let limit_high = MYMIN (pw_limit_high pPower) max_range;
         limit_low = MYMIN (pw_limit_low pPower) limit_high;
         ee1 = setORUStraw ee nn pBS1Straw;
         strawlastPlus1 = straw_last pBS1Straw + 1;
         strawlastPlus1PlusLimitLow = i32 (strawlastPlus1 + limit_low)
     in bind_res (R_restrict U strawlastPlus1PlusLimitLow) (\<lambda>Uping.
        bind_res (R_restrict Su strawlastPlus1PlusLimitLow) (\<lambda>Suping.
          if \<not> SetOfMonads_isEmpty Uping \<and> \<not> SetOfMonads_isEmpty Suping
          then let Supinglast = m_last Suping;
                   upperLimit = (if limit_high = MAX_MONAD then Supinglast
                                 else MYMIN (i32 (strawlastPlus1 + limit_high)) Supinglast)
               in bind_res (smi ee1 U Su strawlastPlus1PlusLimitLow) (\<lambda>pSMI.
                    smi_loop (smi_fuel pSMI) (\<lambda>_. True) (power_step r2 U Su max_range upperLimit pBS1Straw)
                      pSMI (pResultLOS, ee1))
          else Inr (pResultLOS, ee1))))"

definition R_block_string2_power_block :: "int \<Rightarrow> Power \<Rightarrow> runner \<Rightarrow> smi_fun \<Rightarrow> runner \<Rightarrow> runner" where
  "R_block_string2_power_block nn pPower r1 smi r2 ee U Su Sm max_range =
     bind_res (r1 ee U Su Sm max_range) (\<lambda>(pBS1LOS, ee1).
       foldM_res (power_straw nn pPower smi r2 U Su max_range) ([], ee1) pBS1LOS)"

text \<open>The power block that comes next, if one does, and what comes after it.\<close>

fun firstBlockPower :: "BlockString1 \<Rightarrow> Power option" where
  "firstBlockPower (BlockString1_bs0 (BlockString0_block (kPowerBlock p))) = Some p"
| "firstBlockPower (BlockString1_star (BlockString0_block (kPowerBlock p)) mse som) = Some p"
| "firstBlockPower b1 = None"

fun getBlockString1 :: "BlockString2 \<Rightarrow> BlockString1" where
  "getBlockString1 (BlockString2_bs1 n b1) = b1"
| "getBlockString1 (BlockString2_seq n b1 b2) = b1"

fun afterNext_getSMI :: "BlockString2 \<Rightarrow> smi_fun" where
  "afterNext_getSMI (BlockString2_bs1 n b1) ee U Su Sm = Inl EmdrosException"
| "afterNext_getSMI (BlockString2_seq n b1 b2) ee U Su Sm = BlockString2_getSMI b2 ee U Su Sm"

text \<open>\<open>block STAR { set }\<close>: the straws of \<open>count\<close> repetitions in a row, from those of one fewer.\<close>

definition star_step ::
  "runner \<Rightarrow> SetOfMonads \<Rightarrow> SetOfMonads \<Rightarrow> monad_m \<Rightarrow> MQLExecEnv \<Rightarrow> ListOfStraws \<Rightarrow> (ListOfStraws \<times> MQLExecEnv) res" where
  "star_step r0 U Su max_range ee pLOS =
     foldM_res (\<lambda>(pLOS4, ee1) pStraw.
       bind_res (r0 ee1 U Su (straw_last pStraw + 1) max_range) (\<lambda>(pLOS3, ee2).
         if pLOS3 = [] then Inr (pLOS4, ee2)
         else bind_res (LOS_join pLOS3 pStraw) (\<lambda>l. Inr (appendAndSubsume pLOS4 l, ee2)))) ([], ee) pLOS"

text \<open>
  The loop \<open>while (bContinue)\<close>: it stops when no straw can be prolonged or the iterator over the
  star's set is used up; what is left of the set above the count shrinks.
\<close>

function star_loop ::
  "runner \<Rightarrow> SetOfMonads \<Rightarrow> SetOfMonads \<Rightarrow> SetOfMonads \<Rightarrow> monad_m \<Rightarrow> MQLExecEnv \<Rightarrow> monad_m \<Rightarrow> mse list \<Rightarrow>
   ListOfStraws \<Rightarrow> ListOfStraws \<Rightarrow> (ListOfStraws \<times> MQLExecEnv) res" where
  "star_loop r0 som U Su max_range ee count som_it pLOS pResultLOS =
     (case star_step r0 U Su max_range ee pLOS of
        Inl e \<Rightarrow> Inl e
      | Inr (pLOS4, ee1) \<Rightarrow>
          if pLOS4 = [] then Inr (pResultLOS, ee1)
          else (case SetOfMonads_isMemberOf_hint som count som_it of
                  Inl e \<Rightarrow> Inl e
                | Inr (b, som_it1) \<Rightarrow>
                    (case (if b then appendACopy pResultLOS pLOS4 else Inr pResultLOS) of
                       Inl e \<Rightarrow> Inl e
                     | Inr pResultLOS1 \<Rightarrow>
                         if som_it1 = [] then Inr (pResultLOS1, ee1)
                         else star_loop r0 som U Su max_range ee1 (count + 1) som_it1 pLOS4 pResultLOS1)))"
  by pat_completeness auto

termination star_loop
proof (relation "measure (\<lambda>(r0, som, U, Su, max_range, ee, count, som_it, pLOS, pResultLOS). nat (m_last som + 1 - count))",
    goal_cases)
  case (2 r0 som U Su max_range ee count som_it pLOS pResultLOS x pLOS4 ee1 y b som_it1 pResultLOS1)
  then have "count \<le> m_last som" by (auto simp: SetOfMonads_isMemberOf_hint_def split: if_splits)
  then show ?case by simp
qed simp

definition empty_straw :: "monad_m \<Rightarrow> Straw" where
  "empty_straw Sm = Straw_append Straw_new (MatchedObject_empty (Sm - 1))"

definition R_star :: "SetOfMonads \<Rightarrow> runner \<Rightarrow> runner" where
  "R_star som r0 ee U Su Sm max_range =
     bind_res (r0 ee U Su Sm max_range) (\<lambda>(pLOS, ee1).
       if pLOS = [] then Inr (if SetOfMonads_isMemberOf som 0 then [empty_straw Sm] else [], ee1)
       else bind_res (SetOfMonads_isMemberOf_hint som 0 (SetOfMonads_const_iterator som)) (\<lambda>(has0, som_it).
            let pResultLOS = (if has0 then [empty_straw Sm] else [])
            in bind_res (SetOfMonads_isMemberOf_hint som 1 som_it) (\<lambda>(has1, som_it1).
               bind_res (if has1 then appendACopy pResultLOS pLOS else Inr pResultLOS) (\<lambda>pResultLOS1.
                 if m_last som \<ge> 2
                 then star_loop r0 som U Su max_range ee1 2 som_it1 pLOS pResultLOS1
                 else Inr (pResultLOS1, ee1)))))"

section \<open>Gaps\<close>

definition R_retrieval_gap_retrieval :: "eRetrieval \<Rightarrow> bool" where
  "R_retrieval_gap_retrieval gap_retrieval = (if gap_retrieval = kRetrieve \<or> gap_retrieval = kRetrieveFocus then False else True)"

text \<open>\<open>R_opt_blocks\<close>: no inner blocks, no sheaf.\<close>

definition R_opt_blocks :: "blocks_runner option \<Rightarrow> MQLExecEnv \<Rightarrow> SetOfMonads \<Rightarrow> SetOfMonads \<Rightarrow> (Sheaf option \<times> MQLExecEnv) res" where
  "R_opt_blocks r ee U Su =
     (case r of None \<Rightarrow> Inr (None, ee)
      | Some f \<Rightarrow> bind_res (f ee U Su False MAX_MONAD) (\<lambda>(s, ee1). Inr (Some s, ee1)))"

definition inner_failed :: "Sheaf option \<Rightarrow> bool" where
  "inner_failed s = (case s of None \<Rightarrow> False | Some s \<Rightarrow> Sheaf_isFail s)"

definition R_gap :: "GapBlockInfo \<Rightarrow> blocks_runner option \<Rightarrow> eMOKind \<Rightarrow> MQLExecEnv \<Rightarrow> SetOfMonads \<Rightarrow> monad_m \<Rightarrow>
  (MatchedObject option \<times> MQLExecEnv) res" where
  "R_gap g inner mo_kind ee Su Sm =
     bind_res (SetOfMonads_gapExists Su Sm 0) (\<lambda>(found, m).
       if found
       then let bNoRetrieve = R_retrieval_gap_retrieval (gb_retrieval g)
            in bind_res (SetOfMonads_range Sm m) (\<lambda>somn.
               bind_res (R_opt_blocks inner ee somn somn) (\<lambda>(pInner, ee1).
                 if inner_failed pInner then Inr (None, ee1)
                 else Inr (Some (MatchedObject_id_m somn (gb_pOBB g) (\<not> bNoRetrieve) (gb_retrieval g = kRetrieveFocus) pInner), ee1)))
       else (case mo_kind of
               kMOKEMPTY_mo \<Rightarrow> Inr (Some (MatchedObject_empty (Sm - 1)), ee)
             | kMOKNIL_mo \<Rightarrow> Inr (None, ee)
             | _ \<Rightarrow> Inl EmdrosException))"

definition one_straw :: "MatchedObject option \<Rightarrow> ListOfStraws" where
  "one_straw pMO = (case pMO of None \<Rightarrow> [] | Some mo \<Rightarrow> LOS_append [] (Straw_append Straw_new mo))"

section \<open>Object blocks\<close>

definition first_last_ok :: "eFirstLast \<Rightarrow> InstObject \<Rightarrow> SetOfMonads \<Rightarrow> bool" where
  "first_last_ok fl o1 Su =
     (case fl of kNoFirstLast \<Rightarrow> True
      | kFirst \<Rightarrow> io_first o1 = m_first Su
      | kLast \<Rightarrow> InstObject_last o1 = m_last Su
      | kFirstAndLast \<Rightarrow> io_first o1 = m_first Su \<and> InstObject_last o1 = m_last Su)"

definition add_features :: "ObjectBlockInfo \<Rightarrow> MQLExecEnv \<Rightarrow> MatchedObject \<Rightarrow> MatchedObject res" where
  "add_features ob ee pMo =
     foldM_res (\<lambda>mo f.
       bind_res (getFeatureValue ee (obb_node_number (ob_base ob)) (ft_feature_index_inst f)) (\<lambda>p.
         case p of None \<Rightarrow> Inl EmdrosException | Some v \<Rightarrow> addEMdFValue mo (ft_list_index f) (Some v)))
       pMo (ob_Feature_retrieval_vec ob)"

text \<open>One object at the starting monad.\<close>

definition match_object ::
  "ObjectBlockInfo \<Rightarrow> blocks_runner option \<Rightarrow> SetOfMonads \<Rightarrow> SetOfMonads \<Rightarrow> MQLExecEnv \<Rightarrow> InstObject \<Rightarrow> ListOfStraws \<Rightarrow>
   (ListOfStraws \<times> MQLExecEnv) res" where
  "match_object ob inner U Su ee o1 pResultLOS =
     (if \<not> first_last_ok (ob_first_last ob) o1 Su then Inr (pResultLOS, ee)
      else bind_res (InstObject_getMonads o1) (\<lambda>som.
           bind_res (MonadSetRelationClause_exec (ob_MSRC ob) som U Su) (\<lambda>bDoObject.
             if \<not> bDoObject then Inr (pResultLOS, ee)
             else bind_res (retrieveFeatureValues ee (obb_node_number (ob_base ob)) o1) (\<lambda>ee1.
                  bind_res (R_features ee1 (obb_node_number (ob_base ob)) (ob_feature_constraints ob)) (\<lambda>b.
                    if \<not> b then Inr (pResultLOS, ee1)
                    else bind_res (case inner of None \<Rightarrow> Inr (None, ee1)
                           | Some _ \<Rightarrow> bind_res (SetOfMonads_range (io_first o1) (InstObject_last o1)) (\<lambda>Uping.
                                         R_opt_blocks inner ee1 Uping som)) (\<lambda>(pInner, ee2).
                         if inner_failed pInner then Inr (pResultLOS, ee2)
                         else bind_res (ASSERT_THROW (ob_pOBB ob \<noteq> None)) (\<lambda>_.
                              bind_res (add_features ob ee2 (MatchedObject_id_d (io_id_d o1) som pInner (ob_pOBB ob))) (\<lambda>pMo.
                                Inr (LOS_append pResultLOS (Straw_append Straw_new pMo), ee2)))))))))"

fun object_loop ::
  "nat \<Rightarrow> (MQLExecEnv \<Rightarrow> InstObject \<Rightarrow> ListOfStraws \<Rightarrow> (ListOfStraws \<times> MQLExecEnv) res) \<Rightarrow> SkipList \<Rightarrow> monad_m \<Rightarrow> nat \<Rightarrow>
   MQLExecEnv \<Rightarrow> ListOfStraws \<Rightarrow> (ListOfStraws \<times> MQLExecEnv) res" where
  "object_loop 0 f l Sm ci ee pResultLOS = Inl OutOfFuel"
| "object_loop (Suc n) f l Sm ci ee pResultLOS =
     (if sit_hasNext l ci
      then bind_res (sit_next l ci) (\<lambda>(o1, ci1).
             if io_first o1 \<noteq> Sm then Inr (pResultLOS, ee)
             else bind_res (f ee o1 pResultLOS) (\<lambda>(los, ee1). object_loop n f l Sm ci1 ee1 los))
      else Inr (pResultLOS, ee))"

definition R_object_block ::
  "ObjectBlockInfo \<Rightarrow> blocks_runner option \<Rightarrow> MQLExecEnv \<Rightarrow> SetOfMonads \<Rightarrow> SetOfMonads \<Rightarrow> monad_m \<Rightarrow> ListOfStraws \<Rightarrow>
   (ListOfStraws \<times> MQLExecEnv) res" where
  "R_object_block ob inner ee U Su Sm pResultLOS =
     bind_res (deref (ob_inst ob)) (\<lambda>i.
     bind_res (InstContents_objectsAtSm (in_contents i) Sm) (\<lambda>ci.
       object_loop (sl_next (ic_sl (in_contents i))) (match_object ob inner U Su) (ic_sl (in_contents i)) Sm ci ee pResultLOS))"

definition R_NOTEXIST_object_block ::
  "ObjectBlockInfo \<Rightarrow> blocks_runner option \<Rightarrow> MQLExecEnv \<Rightarrow> SetOfMonads \<Rightarrow> SetOfMonads \<Rightarrow> monad_m \<Rightarrow> (bool \<times> MQLExecEnv) res" where
  "R_NOTEXIST_object_block ob inner ee U Su Sm =
     bind_res (R_object_block ob inner ee U Su Sm []) (\<lambda>(resultLOS, ee1). Inr (resultLOS \<noteq> [], ee1))"

definition R_block_NOTEXIST ::
  "ObjectBlockInfo \<Rightarrow> blocks_runner option \<Rightarrow> MQLExecEnv \<Rightarrow> SetOfMonads \<Rightarrow> SetOfMonads \<Rightarrow> monad_m \<Rightarrow> (ListOfStraws \<times> MQLExecEnv) res" where
  "R_block_NOTEXIST ob inner ee U Su Sm =
     bind_res (if ob_bIsAfterNonNOTEXIST ob
               then bind_res (R_restrict U Sm) (\<lambda>Uping. bind_res (R_restrict Su Sm) (\<lambda>Suping. Inr (Uping, Suping, Sm)))
               else Inr (U, Su, m_first U)) (\<lambda>(Uping, Suping, Smping).
     bind_res (ObjectBlock_getSMI ob ee Uping Suping Smping False) (\<lambda>pSMI.
     bind_res (smi_loop (smi_fuel pSMI) (\<lambda>_. True) (\<lambda>(bSuccess, ee1) m.
         bind_res (R_NOTEXIST_object_block ob inner ee1 Uping Suping m) (\<lambda>(bItWasThere, ee2).
           Inr (if bItWasThere then ((False, ee2), True) else ((bSuccess, ee2), False))))
       pSMI (True, ee)) (\<lambda>(bSuccess, ee3).
       Inr (if bSuccess then [empty_straw Sm] else [], ee3))))"

section \<open>Blocks\<close>

definition endSheaf :: "MQLExecEnv \<Rightarrow> bool \<Rightarrow> MQLExecEnv" where
  "endSheaf ee bFailed = ee\<lparr>ee_endSheaf := ee_endSheaf ee @ [bFailed]\<rparr>"

text \<open>
  The cases of a \<open>USING RANGE\<close>. Filtering has deleted the list \<open>pLOS\<close>; the cases that still use it,
  by appending from it or by deleting it again, have no defined result.
\<close>

definition using_range :: "UsingRange \<Rightarrow> ListOfStraws \<Rightarrow> int \<Rightarrow> ((ListOfStraws option \<times> int) \<times> bool) res" where
  "using_range ur pLOS count =
     bind_res (appendAndSubsumeWhileFiltering [] pLOS) (\<lambda>(pIntermediateLOS, LOS_size).
       if LOS_size = 0 then Inr ((None, count), False)
       else if count > ur_end ur then Inr ((None, count + LOS_size), True)
       else if count + LOS_size < ur_start ur then Inr ((None, count + LOS_size), False)
       else if count \<ge> ur_start ur \<and> count + LOS_size \<le> ur_end ur then Inl NullDeref
       else if count < ur_start ur \<and> count + LOS_size \<le> ur_end ur then Inl NullDeref
       else if count < ur_start ur \<and> count + LOS_size > ur_end ur
       then bind_res (appendAndSubsumeWhileCounting [] pIntermediateLOS (ur_start ur - count) (ur_end ur - ur_start ur + 1))
              (\<lambda>_. Inl NullDeref)
       else Inl EmdrosException)"

record BlocksState =
  bl_ee :: MQLExecEnv
  bl_pResultLOS :: ListOfStraws
  bl_bSuccess :: bool
  bl_count :: int

text \<open>What is done with the straws of one starting monad.\<close>

definition deliver :: "bool \<Rightarrow> bool \<Rightarrow> BlocksState \<Rightarrow> ListOfStraws \<Rightarrow> BlocksState res" where
  "deliver bIsTheTopograph bStore s pIntermediateLOS =
     (case (if bIsTheTopograph then ee_pCallback (bl_ee s) else None) of
        Some cb \<Rightarrow>
          let shown = ee_shown (bl_ee s) @ [pIntermediateLOS];
              ee1 = (bl_ee s)\<lparr>ee_shown := shown, ee_bContinueExecution := cb_nextLOS cb shown\<rparr>
          in if bStore
             then bind_res (appendAndSubsumeWhileFiltering (bl_pResultLOS s) pIntermediateLOS) (\<lambda>(l, _).
                    Inr (s\<lparr>bl_ee := ee1, bl_pResultLOS := l\<rparr>))
             else Inr (s\<lparr>bl_ee := ee1\<rparr>)
      | None \<Rightarrow>
          bind_res (appendAndSubsumeWhileFiltering (bl_pResultLOS s) pIntermediateLOS) (\<lambda>(l, _).
            Inr (s\<lparr>bl_pResultLOS := l\<rparr>)))"

definition blocks_step ::
  "UsingRange option \<Rightarrow> runner \<Rightarrow> bool \<Rightarrow> bool \<Rightarrow> SetOfMonads \<Rightarrow> SetOfMonads \<Rightarrow> monad_m \<Rightarrow> BlocksState \<Rightarrow> monad_m \<Rightarrow>
   (BlocksState \<times> bool) res" where
  "blocks_step ur r bTop bStore U Su max_range s Sm =
     bind_res (r (bl_ee s) U Su Sm max_range) (\<lambda>(pLOS, ee1).
       let s1 = s\<lparr>bl_ee := ee1\<rparr>
       in if pLOS = [] then Inr (s1, False)
          else let s2 = s1\<lparr>bl_bSuccess := True\<rparr>
               in (case ur of
                     None \<Rightarrow> bind_res (deliver bTop bStore s2 pLOS) (\<lambda>s3. Inr (s3, False))
                   | Some u \<Rightarrow>
                       bind_res (using_range u pLOS (bl_count s2)) (\<lambda>((los, count), brk).
                         let s3 = s2\<lparr>bl_count := count\<rparr>
                         in case los of None \<Rightarrow> Inr (s3, brk)
                            | Some l \<Rightarrow> bind_res (deliver bTop bStore s3 l) (\<lambda>s4. Inr (s4, brk)))))"

definition blocks_finish :: "bool \<Rightarrow> MQLExecEnv \<Rightarrow> ListOfStraws \<Rightarrow> bool \<Rightarrow> Sheaf \<times> MQLExecEnv" where
  "blocks_finish bIsTheTopograph ee pResultLOS bSuccess =
     (if bIsTheTopograph \<and> ee_pCallback ee \<noteq> None
      then if \<not> ee_bContinueExecution ee then (Sheaf_new True, endSheaf ee True)
           else if bSuccess then (Sheaf_new False, endSheaf ee False)
           else (Sheaf_new True, endSheaf ee True)
      else if \<not> ee_bContinueExecution ee then (Sheaf_new True, ee)
           else if bSuccess then (Sheaf_of pResultLOS, ee)
           else (Sheaf_new True, ee))"

definition R_blocks_string :: "UsingRange option \<Rightarrow> smi_fun \<Rightarrow> runner \<Rightarrow> blocks_runner" where
  "R_blocks_string ur smi r ee U Su bIsTheTopograph max_range =
     (let (ee1, bStore) = (case (if bIsTheTopograph then ee_pCallback ee else None) of
            Some cb \<Rightarrow> (ee\<lparr>ee_bContinueExecution := fst (cb_startSheaf cb)\<rparr>, snd (cb_startSheaf cb))
          | None \<Rightarrow> (ee, True))
      in if bIsTheTopograph \<and> ee_pCallback ee \<noteq> None \<and> \<not> ee_bContinueExecution ee1
         then Inr (Sheaf_new True, endSheaf ee1 True)
         else bind_res (smi ee1 U Su (m_first Su)) (\<lambda>pSMI.
              bind_res (smi_loop (smi_fuel pSMI) (\<lambda>s. ee_bContinueExecution (bl_ee s))
                  (blocks_step ur r bIsTheTopograph bStore U Su max_range) pSMI
                  \<lparr>bl_ee = ee1, bl_pResultLOS = [], bl_bSuccess = False, bl_count = 0\<rparr>) (\<lambda>s.
                Inr (blocks_finish bIsTheTopograph (bl_ee s) (bl_pResultLOS s) (bl_bSuccess s)))))"

text \<open>
  An unordered group: the object blocks from the last to the first, each with its iterator and the
  function that matches it.
\<close>

type_synonym group_member =
  "smi_fun \<times> (MQLExecEnv \<Rightarrow> SetOfMonads \<Rightarrow> SetOfMonads \<Rightarrow> monad_m \<Rightarrow> ListOfStraws \<Rightarrow> (ListOfStraws \<times> MQLExecEnv) res)"

definition R_group_member :: "SetOfMonads \<Rightarrow> SetOfMonads \<Rightarrow> ListOfStraws list \<times> MQLExecEnv \<Rightarrow> group_member \<Rightarrow>
  (ListOfStraws list \<times> MQLExecEnv) res" where
  "R_group_member U Su = (\<lambda>(los_list, ee) (smi, f).
     bind_res (smi ee U Su (m_first Su)) (\<lambda>pSMI.
     bind_res (smi_loop (smi_fuel pSMI) (\<lambda>(_, ee1). ee_bContinueExecution ee1) (\<lambda>(pOBLOS, ee1) Sm.
         bind_res (f ee1 U Su Sm []) (\<lambda>(pLocalOBLOS, ee2).
           Inr (if pLocalOBLOS \<noteq> [] then ((appendAndSubsume pOBLOS pLocalOBLOS, ee2), False) else ((pOBLOS, ee2), False))))
       pSMI ([], ee)) (\<lambda>(pOBLOS, ee3). Inr (los_list @ [pOBLOS], ee3))))"

definition R_blocks_unordered :: "group_member list \<Rightarrow> blocks_runner" where
  "R_blocks_unordered members ee U Su bIsTheTopograph max_range =
     bind_res (foldM_res (R_group_member U Su) ([], ee) members) (\<lambda>(los_list, ee1).
       Inr (blocks_finish bIsTheTopograph ee1 (foldl appendAndSubsume [] (rev los_list)) (\<forall>l\<in>set los_list. l \<noteq> [])))"

primrec R_blocks :: "Blocks \<Rightarrow> blocks_runner"
and R_block_string :: "BlockString \<Rightarrow> runner"
and R_block_string2 :: "BlockString2 \<Rightarrow> runner \<times> runner option"
and R_block_string1 :: "BlockString1 \<Rightarrow> runner"
and R_block_string0 :: "BlockString0 \<Rightarrow> runner"
and R_block :: "Block \<Rightarrow> MQLExecEnv \<Rightarrow> SetOfMonads \<Rightarrow> SetOfMonads \<Rightarrow> monad_m \<Rightarrow> (ListOfStraws \<times> MQLExecEnv) res"
and R_gap_block :: "GapBlock \<Rightarrow> eMOKind \<Rightarrow> MQLExecEnv \<Rightarrow> SetOfMonads \<Rightarrow> monad_m \<Rightarrow> (MatchedObject option \<times> MQLExecEnv) res"
and R_object :: "ObjectBlock \<Rightarrow> ObjectBlockInfo \<times> blocks_runner option"
and R_object_block_string :: "ObjectBlockString \<Rightarrow> group_member list" where
  "R_blocks (Blocks_string bs ur) = R_blocks_string ur (BlockString_getSMI bs) (R_block_string bs)"
| "R_blocks (Blocks_unordered obs) = R_blocks_unordered (R_object_block_string obs)"
| "R_block_string (BlockString_bs2 b2) = fst (R_block_string2 b2)"
| "R_block_string (BlockString_or b2 bs) = R_or (fst (R_block_string2 b2)) (R_block_string bs)"
| "R_block_string2 (BlockString2_bs1 n b1) = (R_block_string1 b1, None)"
| "R_block_string2 (BlockString2_seq n b1 b2) =
     (case firstBlockPower (getBlockString1 b2) of
        Some pPower \<Rightarrow>
          (\<lambda>ee U Su Sm max_range.
             R_block_string2_power_block (bs2_node_number n) pPower (R_block_string1 b1) (afterNext_getSMI b2)
               (case snd (R_block_string2 b2) of None \<Rightarrow> (\<lambda>_ _ _ _ _. Inl EmdrosException) | Some r \<Rightarrow> r)
               ee U Su Sm max_range)
      | None \<Rightarrow> R_block_string2_non_power_block (bs2_node_number n) (R_block_string1 b1) (fst (R_block_string2 b2)),
      Some (fst (R_block_string2 b2)))"
| "R_block_string1 (BlockString1_bs0 b0) = R_block_string0 b0"
| "R_block_string1 (BlockString1_star b0 mse som) = R_star som (R_block_string0 b0)"
| "R_block_string0 (BlockString0_block b) = (\<lambda>ee U Su Sm max_range. R_block b ee U Su Sm)"
| "R_block_string0 (BlockString0_string bs) = R_block_string bs"
| "R_block (kOptGapBlock g) = (\<lambda>ee U Su Sm.
     bind_res (R_gap_block g kMOKEMPTY_mo ee Su Sm) (\<lambda>(pMO, ee1). Inr (one_straw pMO, ee1)))"
| "R_block (kGapBlock g) = (\<lambda>ee U Su Sm.
     bind_res (R_gap_block g kMOKNIL_mo ee Su Sm) (\<lambda>(pMO, ee1). Inr (one_straw pMO, ee1)))"
| "R_block (kPowerBlock p) = (\<lambda>ee U Su Sm. Inl EmdrosException)"
| "R_block (kObjectBlock ob) = (\<lambda>ee U Su Sm. R_object_block (fst (R_object ob)) (snd (R_object ob)) ee U Su Sm [])"
| "R_block (kObjectBlockNOTEXIST ob) = (\<lambda>ee U Su Sm. R_block_NOTEXIST (fst (R_object ob)) (snd (R_object ob)) ee U Su Sm)"
| "R_gap_block (GapBlock g opt_blocks) = R_gap g (map_option R_blocks opt_blocks)"
| "R_object (ObjectBlock ob opt_blocks) = (ob, map_option R_blocks opt_blocks)"
| "R_object_block_string (ObjectBlockString_one ob) =
     [(\<lambda>ee U Su Sm. ObjectBlock_getSMI (fst (R_object ob)) ee U Su Sm True,
       R_object_block (fst (R_object ob)) (snd (R_object ob)))]"
| "R_object_block_string (ObjectBlockString_more obs ob) =
     (\<lambda>ee U Su Sm. ObjectBlock_getSMI (fst (R_object ob)) ee U Su Sm True,
       R_object_block (fst (R_object ob)) (snd (R_object ob))) # R_object_block_string obs"

definition R_topograph :: "MQLExecEnv \<Rightarrow> SetOfMonads \<Rightarrow> SetOfMonads \<Rightarrow> monad_m \<Rightarrow> Blocks \<Rightarrow> (Sheaf \<times> MQLExecEnv) res" where
  "R_topograph ee U Su max_range pBlocks = R_blocks pBlocks ee U Su True max_range"

end
