(* ===== verification/StartMonads_Props.thy ===== *)
theory StartMonads_Props
  imports Topograph Inst_Props MonadSets_Main
begin

text \<open>
  The iterators over starting monads of \<^verbatim>\<open>MQL/mql_query.cpp\<close>: every loop over one ends and is a
  fold over a list of monads that is known beforehand, the monads of a set from a given one on or
  the monads at which the objects of an Inst start.
\<close>

section \<open>What an iterator has before it\<close>

text \<open>The monads at which some object of a sorted list starts.\<close>

definition keys :: "InstObject list \<Rightarrow> monad_m list" where
  "keys us = remdups_adj (map io_first us)"

text \<open>Only the first key is not compared with the last monad of the universe.\<close>

definition cut_keys :: "monad_m \<Rightarrow> monad_m list \<Rightarrow> monad_m list" where
  "cut_keys l ks = (case ks of [] \<Rightarrow> [] | k # ks \<Rightarrow> k # takeWhile (\<lambda>x. x \<le> l) ks)"

definition smi_at :: "StartMonadIterator \<Rightarrow> monad_m list \<Rightarrow> bool" where
  "smi_at smi ms =
     (case smi of
        InstStartMonadIterator Su i ci \<Rightarrow>
          0 \<le> in_last_monad i \<and> (\<exists>us. sit_at (ic_sl (in_contents i)) ci us \<and> ms = cut_keys (in_last_monad i) (keys us))
      | MonadSetStartMonadIterator Su ci \<Rightarrow> smi_ok ci \<and> ms = smi_left ci)"

text \<open>The loop over the monads of a list.\<close>

fun smi_run :: "('s \<Rightarrow> bool) \<Rightarrow> ('s \<Rightarrow> monad_m \<Rightarrow> ('s \<times> bool) res) \<Rightarrow> monad_m list \<Rightarrow> 's \<Rightarrow> 's res" where
  "smi_run go body [] s = Inr s"
| "smi_run go body (m # ms) s =
     (if go s then bind_res (body s m) (\<lambda>(s1, brk). if brk then Inr s1 else smi_run go body ms s1) else Inr s)"

lemma sit_at_sorted: "sit_at l i us \<Longrightarrow> sorted (map io_first us)"
proof -
  assume "sit_at l i us"
  then obtain xs ys where "sl_rep l (xs @ ys)" "us = map (sl_obj l) ys" by (auto simp: sit_at_def)
  then have "sorted (map obj_key us)"
    using sl_abs_sorted[of l "map (sl_obj l) (xs @ ys)"] by (fastforce simp: sl_abs_def sorted_append)
  then show ?thesis by (induction us) (auto simp: obj_key_def)
qed

lemma keys_Nil [simp]: "keys us = [] \<longleftrightarrow> us = []" "keys [] = []"
  by (simp_all add: keys_def)

lemma keys_Cons:
  "sorted (map io_first (u # us)) \<Longrightarrow> keys (u # us) = io_first u # keys (dropWhile (\<lambda>w. io_first w \<le> io_first u) us)"
  unfolding keys_def
proof (induction us)
  case (Cons w us)
  then have "sorted (map io_first (u # us))" "io_first u \<le> io_first w" by auto
  then show ?case using Cons.IH by (auto simp: remdups_adj_Cons split: list.splits)
qed simp

lemma set_keys [simp]: "set (keys us) = io_first ` set us"
  by (simp add: keys_def)

lemma keys_length: "length (keys us) \<le> length us"
  using remdups_adj_length[of "map io_first us"] by (simp add: keys_def)

lemma sit_at_keys: "sit_at l i us \<Longrightarrow> sorted (keys us)"
  by (simp add: keys_def sit_at_sorted)

section \<open>Loops are folds\<close>

lemma cut_keys_Nil [simp]: "cut_keys l (keys us) = [] \<longleftrightarrow> us = []" "cut_keys l [] = []"
proof -
  show "cut_keys l (keys us) = [] \<longleftrightarrow> us = []"
    using keys_Nil(1)[of us] by (cases "keys us") (simp_all add: cut_keys_def)
qed (simp add: cut_keys_def)

lemma smi_at_hasNext: "smi_at smi ms \<Longrightarrow> smi_hasNext smi \<longleftrightarrow> ms \<noteq> []"
  by (cases smi)
    (auto simp: smi_at_def sit_at_hasNext smi_left_def smi_ok_def mse_ok_def
      SOMConstMonadIterator_hasNext_def it_hasNext_def split: list.splits)

lemma smi_at_next: "smi_at smi (m # ms) \<Longrightarrow> returns (smi_next smi) (\<lambda>(k, smi1). k = m \<and> smi_Su smi1 = smi_Su smi \<and> smi_at smi1 ms)"
proof (cases smi)
  case (InstStartMonadIterator Su i ci)
  let ?l = "ic_sl (in_contents i)"
  assume "smi_at smi (m # ms)"
  then obtain u us where last: "0 \<le> in_last_monad i" and at: "sit_at ?l ci (u # us)" 
    and ms: "m # ms = cut_keys (in_last_monad i) (keys (u # us))"
    by (auto simp: smi_at_def InstStartMonadIterator) (metis cut_keys_Nil(1) list.exhaust list.distinct(1))
  define r where "r = dropWhile (\<lambda>w. io_first w \<le> io_first u) us"
  have m: "m = io_first u" "ms = takeWhile (\<lambda>x. x \<le> in_last_monad i) (keys r)"
    using ms sit_at_sorted[OF at] by (auto simp: keys_Cons cut_keys_def r_def)
  obtain cj where cj: "Inst_nextAtHigherKey i ci = Inr cj"
    "sit_at ?l cj (if r \<noteq> [] \<and> head_key r \<le> in_last_monad i then r else [])"
    using nextAtHigherKey_ok[OF at r_def last] by (auto simp: returns_iff)
  have "ms = cut_keys (in_last_monad i) (keys (if r \<noteq> [] \<and> head_key r \<le> in_last_monad i then r else []))"
  proof (cases r)
    case (Cons w r')
    have "sorted (map io_first r)" using sit_at_sorted[OF at] unfolding r_def
      by (metis (no_types, lifting) list.simps(9) sorted_wrt.simps(2) sorted_map sorted_wrt_dropWhile)
    then show ?thesis using Cons by (auto simp: m keys_Cons cut_keys_def head_key_def)
  qed (simp add: m cut_keys_def)
  then show ?thesis using cj at last
    by (auto simp: InstStartMonadIterator smi_at_def m sit_current_def sit_at_value)
next
  case (MonadSetStartMonadIterator Su ci)
  assume a: "smi_at smi (m # ms)"
  then have "SOMConstMonadIterator_hasNext ci" using smi_at_hasNext[OF a] by (simp add: MonadSetStartMonadIterator)
  then show ?thesis using a smi_next_correct[of ci]
    by (auto simp: MonadSetStartMonadIterator smi_at_def returns_iff)
qed

lemma smi_loop_run: "smi_at smi ms \<Longrightarrow> length ms < n \<Longrightarrow> smi_loop n go body smi s = smi_run go body ms s"
proof (induction ms arbitrary: n smi s)
  case Nil
  then show ?case using smi_at_hasNext[OF Nil.prems(1)] by (cases n) auto
next
  case (Cons m ms)
  then obtain k where n: "n = Suc k" by (cases n) auto
  obtain smi1 where smi1: "smi_next smi = Inr (m, smi1)" "smi_at smi1 ms"
    using smi_at_next[OF Cons.prems(1)] by (auto simp: returns_iff)
  have "smi_loop k go body smi1 t = smi_run go body ms t" for t
    using Cons.IH[OF smi1(2)] Cons.prems(2) n by simp
  then show ?case using smi1(1) smi_at_hasNext[OF Cons.prems(1)] by (simp add: n cong: if_cong)
qed

lemma som_steps_left: "smi_ok ci \<Longrightarrow> length (smi_left ci) < som_steps (m_hint ci)"
proof (cases "m_hint ci")
  case (Cons e es)
  assume "smi_ok ci"
  then have "first_m e \<le> m_cur_monad ci" using Cons by (simp add: smi_ok_def)
  moreover have "length (concat (map (\<lambda>e. [first_m e..last_m e]) es)) = sum_list (map (\<lambda>e. nat (last_m e + 1 - first_m e)) es)"
    by (simp add: length_concat comp_def algebra_simps)
  ultimately show ?thesis using Cons by (simp add: smi_left_def som_steps_def)
qed (simp add: smi_left_def som_steps_def)

lemma smi_fuel_enough: "smi_at smi ms \<Longrightarrow> length ms < smi_fuel smi"
proof (cases smi)
  case (InstStartMonadIterator Su i ci)
  assume "smi_at smi ms"
  then obtain us where us: "sit_at (ic_sl (in_contents i)) ci us" "ms = cut_keys (in_last_monad i) (keys us)"
    by (auto simp: smi_at_def InstStartMonadIterator)
  have "length (cut_keys l ks) \<le> length ks" for l ks by (auto simp: cut_keys_def length_takeWhile_le split: list.splits)
  then have "length ms \<le> length us" using us(2) keys_length[of us] le_trans by blast
  then show ?thesis using sit_at_fuel[OF us(1)] by (simp add: smi_fuel_def InstStartMonadIterator)
qed (auto simp: smi_at_def smi_fuel_def som_steps_left)

theorem smi_loop_fold:
  "smi_at smi ms \<Longrightarrow> smi_loop (smi_fuel smi) go body smi s = smi_run go body ms s"
  by (rule smi_loop_run[OF _ smi_fuel_enough])

section \<open>Constructors\<close>

lemma som_smi_loop_ok:
  "smi_ok ci \<Longrightarrow> length (smi_left ci) < n \<Longrightarrow>
   returns (som_smi_loop n Sm ci) (\<lambda>ci1. smi_ok ci1 \<and> smi_left ci1 = dropWhile (\<lambda>m. m < Sm) (smi_left ci))"
proof (induction n arbitrary: ci)
  case (Suc n)
  show ?case
  proof (cases "SOMConstMonadIterator_hasNext ci")
    case True
    obtain m ci1 where n: "SOMConstMonadIterator_next ci = Inr (m, ci1)" "smi_ok ci1" "smi_left ci = m # smi_left ci1"
      using smi_next_correct[OF Suc.prems(1) True] by (auto simp: returns_iff)
    have "m = m_cur_monad ci" using n(1) True
      by (auto simp: SOMConstMonadIterator_next_def res_simps Let_def split: if_splits)
    then show ?thesis using Suc n True by (auto simp: SOMConstMonadIterator_current_def)
  next
    case False
    then have "smi_left ci = []" by (cases "m_hint ci") (auto simp: smi_left_def SOMConstMonadIterator_hasNext_def it_hasNext_def)
    then show ?thesis using False Suc.prems by simp
  qed
qed simp

text \<open>The monads of a set from \<open>Sm\<close> on.\<close>

definition monads_from :: "SetOfMonads \<Rightarrow> monad_m \<Rightarrow> monad_m list" where
  "monads_from s Sm = filter (\<lambda>m. Sm \<le> m) (sorted_list_of_set (som_set s))"

lemma sorted_dropWhile_filter: "sorted ms \<Longrightarrow> dropWhile (\<lambda>m. m < k) ms = filter (\<lambda>m. k \<le> m) ms" for k :: int
proof (induction ms)
  case (Cons a ms)
  then have "filter (\<lambda>m. k \<le> m) ms = ms" if "k \<le> a" using that by (intro filter_True) auto
  then show ?case using Cons by auto
qed simp

lemma new_iterator_ok:
  "som_wf s \<Longrightarrow> smi_ok (SOMConstMonadIterator_new s) \<and> smi_left (SOMConstMonadIterator_new s) = sorted_list_of_set (som_set s)"
  using getMonad_mList_eq[of s]
  by (cases "monad_ms s") (auto simp: SOMConstMonadIterator_new_def SetOfMonads_const_iterator_def
        smi_ok_def smi_left_def som_wf_def bounds_ok_def mse_ok_def SetOfMonads_getMonad_mList_def
        getMonad_mList_loop_eq)

lemma MonadSetSMI_ok:
  assumes "som_wf s"
  shows "returns (MonadSetStartMonadIterator_new s Sm False) (\<lambda>smi. smi_Su smi = s \<and> smi_at smi (monads_from s Sm))"
    "returns (MonadSetStartMonadIterator_new s Sm True) (\<lambda>smi. \<exists>g. smi_Su smi = g \<and> som_wf g \<and>
       som_set g = {x. m_first s \<le> x \<and> x \<le> m_last s \<and> x \<notin> som_set s} \<and> smi_at smi (monads_from g Sm))"
proof -
  have *: "returns (bind_res (som_smi_loop (som_steps (monad_ms t)) Sm (SOMConstMonadIterator_new t))
      (\<lambda>ci. Inr (MonadSetStartMonadIterator t ci))) (\<lambda>smi. smi_Su smi = t \<and> smi_at smi (monads_from t Sm))" if "som_wf t" for t
  proof (rule returns_bind[OF som_smi_loop_ok])
    show "smi_ok (SOMConstMonadIterator_new t)" using new_iterator_ok[OF that] by simp
    from som_steps_left[OF this] show "length (smi_left (SOMConstMonadIterator_new t)) < som_steps (monad_ms t)"
      by (simp add: SOMConstMonadIterator_new_def SetOfMonads_const_iterator_def)
  qed (use new_iterator_ok[OF that] in \<open>simp add: smi_at_def monads_from_def sorted_dropWhile_filter\<close>)
  show "returns (MonadSetStartMonadIterator_new s Sm False) (\<lambda>smi. smi_Su smi = s \<and> smi_at smi (monads_from s Sm))"
    using *[OF assms] by (simp add: MonadSetStartMonadIterator_new_def)
  show "returns (MonadSetStartMonadIterator_new s Sm True) (\<lambda>smi. \<exists>g. smi_Su smi = g \<and> som_wf g \<and>
       som_set g = {x. m_first s \<le> x \<and> x \<le> m_last s \<and> x \<notin> som_set s} \<and> smi_at smi (monads_from g Sm))"
    unfolding MonadSetStartMonadIterator_new_def if_True
    by (rule returns_bind[OF getGaps_correct[OF assms]]) (use * in \<open>blast intro: returns_mono\<close>)
qed

text \<open>The starting monads of the objects within a universe, from \<open>Sm\<close> on.\<close>

definition inst_starts :: "InstObject list \<Rightarrow> monad_m \<Rightarrow> monad_m \<Rightarrow> monad_m \<Rightarrow> monad_m list" where
  "inst_starts vs f l Sm = filter (\<lambda>m. Sm \<le> m) (cut_keys l (filter (\<lambda>m. f \<le> m) (keys vs)))"

lemma keys_dropWhile:
  "sorted (map io_first vs) \<Longrightarrow> keys (dropWhile (\<lambda>u. io_first u < f) vs) = filter (\<lambda>m. f \<le> m) (keys vs)"
proof (induction vs)
  case (Cons u vs)
  have s: "sorted (keys (u # vs))" "sorted (keys vs)" using Cons.prems by (simp_all add: keys_def sorted_remdups_adj)
  show ?case
  proof (cases "io_first u < f")
    case True
    have "filter (\<lambda>m. f \<le> m) (keys (u # vs)) = filter (\<lambda>m. f \<le> m) (keys vs)"
      using True by (auto simp: keys_def remdups_adj_Cons split: list.splits)
    then show ?thesis using True Cons by simp
  next
    case False
    then have "\<forall>m\<in>set (keys (u # vs)). f \<le> m" using Cons.prems by auto
    then show ?thesis using False by (simp add: filter_id_conv[THEN iffD2] del: set_keys)
  qed
qed simp

lemma cut_keys_sorted: "sorted ks \<Longrightarrow> sorted (cut_keys l ks)"
  by (auto simp: cut_keys_def sorted_takeWhile dest: set_takeWhileD split: list.splits)

lemma inst_smi_loop_ok:
  "sit_at (ic_sl (in_contents i)) ci us \<Longrightarrow> 0 \<le> in_last_monad i \<Longrightarrow> length us < n \<Longrightarrow>
   returns (inst_smi_loop n i Sm ci) (\<lambda>cj. smi_at (InstStartMonadIterator Su i cj)
     (dropWhile (\<lambda>m. m < Sm) (cut_keys (in_last_monad i) (keys us))))"
proof (induction n arbitrary: ci us)
  case (Suc n)
  let ?l = "ic_sl (in_contents i)"
  have at: "smi_at (InstStartMonadIterator Su i ci) (cut_keys (in_last_monad i) (keys us))"
    using Suc.prems by (auto simp: smi_at_def)
  show ?case
  proof (cases us)
    case Nil
    then show ?thesis using Suc.prems sit_at_hasNext[OF Suc.prems(1)] at by simp
  next
    case (Cons u vs)
    define r where "r = dropWhile (\<lambda>w. io_first w \<le> io_first u) vs"
    define q where "q = (if r \<noteq> [] \<and> head_key r \<le> in_last_monad i then r else [])"
    obtain cj where cj: "Inst_nextAtHigherKey i ci = Inr cj" "sit_at ?l cj q"
      using nextAtHigherKey_ok[OF Suc.prems(1)[unfolded Cons] r_def Suc.prems(2)] unfolding q_def by (auto simp: returns_iff)
    have k: "cut_keys (in_last_monad i) (keys us) = io_first u # takeWhile (\<lambda>x. x \<le> in_last_monad i) (keys r)"
      using sit_at_sorted[OF Suc.prems(1)] Cons by (simp add: keys_Cons cut_keys_def r_def)
    have q: "takeWhile (\<lambda>x. x \<le> in_last_monad i) (keys r) = cut_keys (in_last_monad i) (keys q)"
    proof (cases r)
      case r: (Cons w r')
      have "sorted (map io_first r)" using sit_at_sorted[OF Suc.prems(1)] Cons unfolding r_def
        by (metis (no_types, lifting) list.simps(9) sorted_wrt.simps(2) sorted_map sorted_wrt_dropWhile)
      then show ?thesis using r by (auto simp: q_def keys_Cons cut_keys_def head_key_def)
    qed (simp add: q_def)
    have "length q \<le> length vs" by (auto simp: q_def r_def length_dropWhile_le)
    then have "returns (inst_smi_loop n i Sm cj) (\<lambda>cj. smi_at (InstStartMonadIterator Su i cj)
     (dropWhile (\<lambda>m. m < Sm) (cut_keys (in_last_monad i) (keys q))))"
      using Suc.IH[OF cj(2) Suc.prems(2)] Suc.prems(3) Cons by simp
    then show ?thesis
      using sit_at_hasNext[OF Suc.prems(1)] sit_at_value[OF Suc.prems(1)[unfolded Cons]] cj(1) at k q Cons
      by (simp add: sit_current_def)
  qed
qed simp

lemma InstSMI_ok:
  assumes "sl_abs (ic_sl (in_contents i)) vs" "som_wf U" "monad_ms U \<noteq> []"
  shows "returns (InstStartMonadIterator_new i U Su Sm)
    (\<lambda>smi. smi_Su smi = Su \<and> smi_at smi (inst_starts vs (m_first U) (m_last U) Sm))"
proof -
  define j where "j = Inst_set_current_universe i U"
  have j: "in_contents j = in_contents i" "in_first_monad j = m_first U" "in_last_monad j = m_last U"
    by (simp_all add: j_def Inst_set_current_universe_def)
  have b: "m_first U < 0x7fffffff" "0 \<le> m_last U" using som_wf_bounds(3-5)[OF assms(2,3)] by (simp_all add: MAX_MONAD_def)
  have s: "sorted (map io_first vs)" using sit_at_begin[OF assms(1)] sit_at_sorted by (auto simp: returns_iff)
  obtain ci where ci: "Inst_begin j = Inr ci" "sit_at (ic_sl (in_contents j)) ci (dropWhile (\<lambda>u. io_first u < m_first U) vs)"
    using sit_at_search[OF assms(1), of "m_first U"] b by (auto simp: Inst_begin_def j returns_iff)
  have "sorted (cut_keys (m_last U) (filter (\<lambda>m. m_first U \<le> m) (keys vs)))"
    using s by (intro cut_keys_sorted) (simp add: keys_def sorted_remdups_adj sorted_wrt_filter)
  then have e: "dropWhile (\<lambda>m. m < Sm) (cut_keys (m_last U) (keys (dropWhile (\<lambda>u. io_first u < m_first U) vs))) =
      inst_starts vs (m_first U) (m_last U) Sm"
    by (simp add: keys_dropWhile[OF s] sorted_dropWhile_filter inst_starts_def)
  have "length (dropWhile (\<lambda>u. io_first u < m_first U) vs) < sl_next (ic_sl (in_contents j))"
    using sit_at_fuel[OF ci(2)] by simp
  from inst_smi_loop_ok[OF ci(2) _ this, of Sm Su] show ?thesis
    using ci(1) b e by (auto simp: InstStartMonadIterator_new_def Let_def j(3) returns_iff simp flip: j_def)
qed

end
