(* ===== verification/FeatureConstraints_Props.thy ===== *)
theory FeatureConstraints_Props
  imports FeatureConstraints EMdFValue_Props StringNumbers_Props
begin

text \<open>
  Feature constraints: what a well-typed constraint means, and that the engine decides it without
  an error. Types are the kinds of the values in the tables of the object blocks in scope, one
  list of kinds for each block.
\<close>

section \<open>Membership by searching a text\<close>

lemma str_find_iff: "str_find s t 0 \<noteq> None \<longleftrightarrow> (\<exists>a b. s = a @ t @ b)"
proof
  assume "str_find s t 0 \<noteq> None"
  then obtain i where "take (length t) (drop i s) = t" by (auto simp: str_find_def find_Some_iff2 find_None_iff)
  then have "s = take i s @ t @ drop (length t) (drop i s)" by (metis append_take_drop_id)
  then show "\<exists>a b. s = a @ t @ b" by blast
next
  assume "\<exists>a b. s = a @ t @ b"
  then obtain a b where "s = a @ t @ b" by blast
  then have "take (length t) (drop (length a) s) = t" "length a < length s + 1" by simp_all
  then show "str_find s t 0 \<noteq> None" unfolding str_find_def find_None_iff by (metis atLeastLessThan_iff set_upt zero_le)
qed

lemma dec_int_no_space: "CHR '' '' \<notin> set (dec_int i)"
  using dec_nat_digits digit_not_space by (auto simp: dec_int_def is_whitespace_def split: if_splits)

lemma dec_int_inj: "dec_int i = dec_int j \<longleftrightarrow> i = j"
proof -
  have n: "dec_nat a = dec_nat b \<Longrightarrow> a = b" for a b by (metis dec_nat_value of_nat_eq_iff)
  have "hd (dec_nat a) \<noteq> CHR ''-''" for a
    using dec_nat_digits[of "hd (dec_nat a)" a] digit_not_space by auto
  then have "dec_nat a \<noteq> CHR ''-'' # w" for a w by (metis list.sel(1))
  moreover have "CHR ''-'' # w \<noteq> dec_nat a" for a w using calculation by metis
  ultimately show ?thesis using n[of "nat i" "nat j"] n[of "nat (- i)" "nat (- j)"] by (auto simp: dec_int_def)
qed

lemma cut_at_space:
  "CHR '' '' \<notin> set v \<Longrightarrow> CHR '' '' \<notin> set w \<Longrightarrow> v @ CHR '' '' # r = w @ CHR '' '' # q \<longleftrightarrow> v = w \<and> r = q"
proof (induction v arbitrary: w)
  case Nil
  then show ?case by (cases w) auto
next
  case (Cons a v)
  then show ?case by (cases w) auto
qed

lemma in_delimited:
  assumes "\<And>v. CHR '' '' \<notin> set (f v)" "CHR '' '' \<notin> set w"
  shows "(\<exists>a b. concat (map (\<lambda>v. CHR '' '' # f v) l) @ '' '' = a @ CHR '' '' # w @ CHR '' '' # b) \<longleftrightarrow> w \<in> f ` set l"
proof (induction l)
  case Nil
  show ?case by (auto simp: Cons_eq_append_conv)
next
  case (Cons v l)
  obtain r where r: "concat (map (\<lambda>v. CHR '' '' # f v) l) @ '' '' = CHR '' '' # r" by (cases l) auto
  have "(\<exists>a b. CHR '' '' # f v @ CHR '' '' # r = a @ CHR '' '' # w @ CHR '' '' # b) \<longleftrightarrow>
    (\<exists>b. f v @ CHR '' '' # r = w @ CHR '' '' # b) \<or> (\<exists>a b. f v @ CHR '' '' # r = a @ CHR '' '' # w @ CHR '' '' # b)"
    by (auto simp: Cons_eq_append_conv)
  also have "(\<exists>b. f v @ CHR '' '' # r = w @ CHR '' '' # b) \<longleftrightarrow> w = f v"
    using cut_at_space[OF assms(1)[of v] assms(2)] by auto
  also have "(\<exists>a b. f v @ CHR '' '' # r = a @ CHR '' '' # w @ CHR '' '' # b) \<longleftrightarrow>
    (\<exists>a b. CHR '' '' # r = a @ CHR '' '' # w @ CHR '' '' # b)"
  proof
    assume "\<exists>a b. f v @ CHR '' '' # r = a @ CHR '' '' # w @ CHR '' '' # b"
    then obtain a b where ab: "f v @ CHR '' '' # r = a @ CHR '' '' # w @ CHR '' '' # b" by blast
    then obtain us where "(f v = a @ us \<and> us @ CHR '' '' # r = CHR '' '' # w @ CHR '' '' # b) \<or> 
        (f v @ us = a \<and> CHR '' '' # r = us @ CHR '' '' # w @ CHR '' '' # b)"
      by (auto simp: append_eq_append_conv2)
    moreover have "us = []" if "f v = a @ us" "us @ CHR '' '' # r = CHR '' '' # w @ CHR '' '' # b"
      using that assms(1)[of v] by (cases us) auto
    ultimately show "\<exists>a b. CHR '' '' # r = a @ CHR '' '' # w @ CHR '' '' # b" by (metis append_Nil)
  qed (metis append.assoc)
  finally show ?case using Cons.IH r by auto
qed

lemma getDelimitedString_eq:
  "getDelimitedString l '' '' = (if l = [] then [] else concat (map (\<lambda>v. CHR '' '' # dec_int v) l) @ '' '')"
proof -
  have "foldl (\<lambda>str v. str @ '' '' @ dec_int v) s l = s @ concat (map (\<lambda>v. CHR '' '' # dec_int v) l)" for s
    by (induction l arbitrary: s) simp_all
  then show ?thesis by (simp add: getDelimitedString_def it_hasNext_def)
qed

text \<open>Searching for the delimited text of an integer finds exactly the integers of the list.\<close>

lemma in_integer_list_iff:
  assumes "int_of_value v = Some i"
  shows "in_integer_list v l \<longleftrightarrow> i \<in> set l"
proof -
  have t: "EMdFValue_toString v = dec_int i"
    using assms by (cases v) (simp_all add: long2string_def longlong2string_def longlong2szNonReversing_dec)
  show ?thesis
  proof (cases "l = []")
    case True
    then show ?thesis unfolding in_integer_list_def str_find_iff by (simp add: t DEFAULT_LIST_DELIMITER_def getDelimitedString_eq)
  next
    case False
    then show ?thesis using in_delimited[of dec_int "dec_int i" l] dec_int_no_space
      unfolding in_integer_list_def str_find_iff by (auto simp: t DEFAULT_LIST_DELIMITER_def getDelimitedString_eq dec_int_inj)
  qed
qed

section \<open>Types of values and constraints\<close>

datatype vkind = K_int | K_enum | K_id_d | K_string | K_ints | K_ids | K_monads

fun kind_of :: "EMdFValue \<Rightarrow> vkind" where
  "kind_of (kEVInt _) = K_int"
| "kind_of (kEVEnum _) = K_enum"
| "kind_of (kEVID_D _) = K_id_d"
| "kind_of (kEVString _) = K_string"
| "kind_of (kEVListOfInteger _) = K_ints"
| "kind_of (kEVListOfID_D _) = K_ids"
| "kind_of (kEVSetOfMonads _) = K_monads"

definition intlike :: "vkind \<Rightarrow> bool" where "intlike k \<longleftrightarrow> k = K_int \<or> k = K_enum \<or> k = K_id_d"
definition listlike :: "vkind \<Rightarrow> bool" where "listlike k \<longleftrightarrow> k = K_ints \<or> k = K_ids"

text \<open>The kinds between which an operator is defined.\<close>

definition comparable :: "vkind \<Rightarrow> vkind \<Rightarrow> eComparisonOp \<Rightarrow> bool" where
  "comparable k k' cop \<longleftrightarrow>
     (if intlike k \<and> intlike k' \<or> k = K_string \<and> k' = K_string then order_op cop
      else if intlike k \<and> listlike k' \<or> k = K_int \<and> k' = K_monads then cop = kIn
      else if listlike k \<and> intlike k' \<or> k = K_monads \<and> k' = K_int then cop = kHas \<or> cop = kIn
      else if listlike k \<and> listlike k' then cop = kEqual \<and> (k' = K_ids \<longrightarrow> k = K_ids)
      else k = K_monads \<and> k' = K_monads \<and> cop = kEqual)"

lemma comparable_iff: "comparable (kind_of v) (kind_of w) cop \<longleftrightarrow> comparison_spec v w cop \<noteq> None"
  by (cases v; cases w) (simp_all add: comparable_def comparison_spec_def intlike_def listlike_def)

lemma kind_of_int: "intlike (kind_of v) \<Longrightarrow> \<exists>i. int_of_value v = Some i"
  by (cases v) (auto simp: intlike_def)

lemma kind_of_list: "listlike (kind_of v) \<Longrightarrow> \<exists>l. list_of v = Some l \<and> getIntegerList v = Inr l"
  by (cases v) (auto simp: listlike_def)

text \<open>The blocks in scope, with the kinds of the values in their tables.\<close>

type_synonym tyenv = "int \<rightharpoonup> vkind list"

fun value_kind :: "tyenv \<Rightarrow> Value \<Rightarrow> vkind option" where
  "value_kind \<Gamma> (kValEnumConst _ _) = Some K_enum"
| "value_kind \<Gamma> (kValInteger _) = Some K_int"
| "value_kind \<Gamma> (kValString _) = Some K_string"
| "value_kind \<Gamma> (kValObjectReferenceUsage oru) =
     (case \<Gamma> (oru_ControllingObjectBlock oru) of
        None \<Rightarrow> None
      | Some ks \<Rightarrow>
          let i = oru_FeatureIndexInMQLObject oru
          in if oru_ORDIsParent oru \<and> 0 \<le> i \<and> nat i < length ks then Some (ks ! nat i) else None)"

definition value_typed :: "tyenv \<Rightarrow> Value option \<Rightarrow> vkind \<Rightarrow> eComparisonOp \<Rightarrow> bool" where
  "value_typed \<Gamma> p k cop =
     (case p of None \<Rightarrow> False
      | Some v \<Rightarrow> (case value_kind \<Gamma> v of None \<Rightarrow> False | Some k' \<Rightarrow> comparable k k' cop))"

definition fc_list :: "FeatureComparison \<Rightarrow> int list option" where
  "fc_list fc = (case fc_in_enum_list fc of Some l \<Rightarrow> Some l | None \<Rightarrow> fc_in_integer_list fc)"

definition is_reference :: "Value option \<Rightarrow> bool" where
  "is_reference p = (case p of Some (kValObjectReferenceUsage _) \<Rightarrow> True | _ \<Rightarrow> False)"

definition fc_typed :: "tyenv \<Rightarrow> int \<Rightarrow> FeatureComparison \<Rightarrow> bool" where
  "fc_typed \<Gamma> nn fc =
     (case \<Gamma> nn of None \<Rightarrow> False
      | Some ks \<Rightarrow>
          0 \<le> fc_feature_index fc \<and> nat (fc_feature_index fc) < length ks \<and>
          (let k = ks ! nat (fc_feature_index fc); cop = fc_comparison_op fc
           in if cop = kTilde \<or> cop = kNotTilde
              then k = K_string \<and> (\<exists>v k'. fc_value fc = Some v \<and> value_kind \<Gamma> v = Some k')
              else if cop = kEqual \<and> fc_list fc \<noteq> None then listlike k
              else if cop = kIn \<and> fc_list fc \<noteq> None then intlike k \<and> (fc_in_enum_list fc \<noteq> None \<longrightarrow> k \<noteq> K_id_d)
              else value_typed \<Gamma> (fc_value fc) k cop \<and> (cop = kIn \<longrightarrow> is_reference (fc_value fc))))"

section \<open>What a constraint means\<close>

fun value_denotes :: "MQLExecEnv \<Rightarrow> Value \<Rightarrow> EMdFValue" where
  "value_denotes ee (kValEnumConst i t) = kEVEnum i"
| "value_denotes ee (kValInteger i) = kEVInt i"
| "value_denotes ee (kValString s) = kEVString s"
| "value_denotes ee (kValObjectReferenceUsage oru) =
     the (ee_MQLObject ee (oru_ControllingObjectBlock oru) ! nat (oru_FeatureIndexInMQLObject oru))"

definition fc_sat :: "FeatureComparison \<Rightarrow> MQLExecEnv \<Rightarrow> int \<Rightarrow> bool" where
  "fc_sat fc ee nn =
     (let v = the (ee_MQLObject ee nn ! nat (fc_feature_index fc)); cop = fc_comparison_op fc
      in if cop = kTilde then \<exists>s. v = kEVString s \<and> 0 < ee_pcre_exec ee (fc_pcre fc) s
         else if cop = kNotTilde then \<exists>s. v = kEVString s \<and> \<not> 0 < ee_pcre_exec ee (fc_pcre fc) s
         else if cop = kEqual \<and> fc_list fc \<noteq> None then list_of v = fc_list fc
         else if cop = kIn \<and> fc_list fc \<noteq> None then \<exists>i\<in>set (the (fc_list fc)). int_of_value v = Some i
         else comparison_spec v (value_denotes ee (the (fc_value fc))) cop = Some True)"

primrec ff_typed :: "FFeatures \<Rightarrow> tyenv \<Rightarrow> int \<Rightarrow> bool"
and ft_typed :: "FTerm \<Rightarrow> tyenv \<Rightarrow> int \<Rightarrow> bool"
and fa_typed :: "FFactor \<Rightarrow> tyenv \<Rightarrow> int \<Rightarrow> bool" where
  "ff_typed (FFeatures_fterm t) \<Gamma> nn = ft_typed t \<Gamma> nn"
| "ff_typed (FFeatures_or f t) \<Gamma> nn = (ff_typed f \<Gamma> nn \<and> ft_typed t \<Gamma> nn)"
| "ft_typed (FTerm_ffactor f) \<Gamma> nn = fa_typed f \<Gamma> nn"
| "ft_typed (FTerm_and t f) \<Gamma> nn = (ft_typed t \<Gamma> nn \<and> fa_typed f \<Gamma> nn)"
| "fa_typed (FFactor_not f) \<Gamma> nn = fa_typed f \<Gamma> nn"
| "fa_typed (FFactor_paren f) \<Gamma> nn = ff_typed f \<Gamma> nn"
| "fa_typed (FFactor_comparison fc) \<Gamma> nn = fc_typed \<Gamma> nn fc"

primrec ff_sat :: "FFeatures \<Rightarrow> MQLExecEnv \<Rightarrow> int \<Rightarrow> bool"
and ft_sat :: "FTerm \<Rightarrow> MQLExecEnv \<Rightarrow> int \<Rightarrow> bool"
and fa_sat :: "FFactor \<Rightarrow> MQLExecEnv \<Rightarrow> int \<Rightarrow> bool" where
  "ff_sat (FFeatures_fterm t) ee nn = ft_sat t ee nn"
| "ff_sat (FFeatures_or f t) ee nn = (ff_sat f ee nn \<or> ft_sat t ee nn)"
| "ft_sat (FTerm_ffactor f) ee nn = fa_sat f ee nn"
| "ft_sat (FTerm_and t f) ee nn = (ft_sat t ee nn \<and> fa_sat f ee nn)"
| "fa_sat (FFactor_not f) ee nn = (\<not> fa_sat f ee nn)"
| "fa_sat (FFactor_paren f) ee nn = ff_sat f ee nn"
| "fa_sat (FFactor_comparison fc) ee nn = fc_sat fc ee nn"

section \<open>The engine decides well-typed constraints\<close>

definition has_kind :: "EMdFValue option \<Rightarrow> vkind \<Rightarrow> bool" where
  "has_kind p k \<longleftrightarrow> (\<exists>v. p = Some v \<and> kind_of v = k \<and> value_wf v)"

definition env_typed :: "tyenv \<Rightarrow> MQLExecEnv \<Rightarrow> bool" where
  "env_typed \<Gamma> ee \<longleftrightarrow> (\<forall>nn ks. \<Gamma> nn = Some ks \<longrightarrow> list_all2 has_kind (ee_MQLObject ee nn) ks)"

lemma env_typed_nth:
  assumes "env_typed \<Gamma> ee" "\<Gamma> nn = Some ks" "0 \<le> i" "nat i < length ks"
  obtains v where "getFeatureValue ee nn i = Inr (Some v)" "ee_MQLObject ee nn ! nat i = Some v"
    "kind_of v = ks ! nat i" "value_wf v"
proof -
  have "list_all2 has_kind (ee_MQLObject ee nn) ks" using assms(1,2) by (simp add: env_typed_def)
  then have "length (ee_MQLObject ee nn) = length ks" "has_kind (ee_MQLObject ee nn ! nat i) (ks ! nat i)"
    using assms(4) by (auto simp: list_all2_conv_all_nth)
  then show thesis using that assms(3,4) by (auto simp: has_kind_def getFeatureValue_def)
qed

lemma reference_denotes:
  assumes "env_typed \<Gamma> ee" "value_kind \<Gamma> (kValObjectReferenceUsage oru) = Some k"
  shows "getEMdFValueFromObjectReferenceUsage ee oru sol = Inr (Some (value_denotes ee (kValObjectReferenceUsage oru)))"
    "kind_of (value_denotes ee (kValObjectReferenceUsage oru)) = k" "value_wf (value_denotes ee (kValObjectReferenceUsage oru))"
proof -
  obtain ks where ks: "\<Gamma> (oru_ControllingObjectBlock oru) = Some ks" "oru_ORDIsParent oru"
    "0 \<le> oru_FeatureIndexInMQLObject oru" "nat (oru_FeatureIndexInMQLObject oru) < length ks"
    "k = ks ! nat (oru_FeatureIndexInMQLObject oru)"
    using assms(2) by (auto simp: Let_def split: option.splits if_splits)
  obtain v where v: "getFeatureValue ee (oru_ControllingObjectBlock oru) (oru_FeatureIndexInMQLObject oru) = Inr (Some v)"
    "ee_MQLObject ee (oru_ControllingObjectBlock oru) ! nat (oru_FeatureIndexInMQLObject oru) = Some v"
    "kind_of v = ks ! nat (oru_FeatureIndexInMQLObject oru)" "value_wf v"
    using env_typed_nth[OF assms(1) ks(1,3,4)] .
  show
    "getEMdFValueFromObjectReferenceUsage ee oru sol = Inr (Some (value_denotes ee (kValObjectReferenceUsage oru)))"
    "kind_of (value_denotes ee (kValObjectReferenceUsage oru)) = k" "value_wf (value_denotes ee (kValObjectReferenceUsage oru))"
    using ks(2,5) v by (simp_all add: getEMdFValueFromObjectReferenceUsage_def)
qed

lemma value_denotes_kind:
  assumes "env_typed \<Gamma> ee" "value_kind \<Gamma> w = Some k"
  shows "kind_of (value_denotes ee w) = k \<and> value_wf (value_denotes ee w)"
  using assms reference_denotes[OF assms(1)] by (cases w) auto

lemma compare_with_Value_denotes:
  assumes "env_typed \<Gamma> ee" "value_kind \<Gamma> w = Some k"
  shows "compare_with_Value ee v w sol cop = EMdFValue_compare v (value_denotes ee w) cop"
  using assms reference_denotes(1)[OF assms(1)]
  by (cases w) (auto simp: compare_with_Value_def compareObjectReferenceUsage_def simp del: value_kind.simps(4) value_denotes.simps(4))

lemma Value_getAsString_returns:
  "env_typed \<Gamma> ee \<Longrightarrow> value_kind \<Gamma> w = Some k \<Longrightarrow> \<exists>t. Value_getAsString ee w sol = Inr t"
  using reference_denotes(1)[of \<Gamma> ee]
  by (cases w) (auto simp: Value_getAsString_def deref_def simp del: value_kind.simps(4) value_denotes.simps(4))

lemma compare_comparable:
  "value_wf v \<Longrightarrow> value_wf w \<Longrightarrow> comparable (kind_of v) (kind_of w) cop \<Longrightarrow>
   EMdFValue_compare v w cop = Inr (comparison_spec v w cop = Some True)"
  using compare_decided[of v w cop] by (auto simp: comparable_iff split: option.splits)

lemma compare_with_list_spec:
  "value_wf v \<Longrightarrow> listlike (kind_of v) \<Longrightarrow> compare_with_list v l = Inr (list_of v = Some l)"
proof -
  assume v: "value_wf v" "listlike (kind_of v)"
  have f: "foldl ParserList_addValueBack [] l = l" by (induction l rule: rev_induct) (simp_all add: ParserList_addValueBack_def)
  from v show ?thesis
    using compare_decided[of v "kEVListOfInteger l" kEqual]
    by (cases v) (auto simp: compare_with_list_def f ParserList_isEmpty_def listlike_def comparison_spec_def)
qed

lemma FeatureComparison_compare_sat:
  assumes "env_typed \<Gamma> ee" "fc_typed \<Gamma> nn fc" "ee_MQLObject ee nn ! nat (fc_feature_index fc) = Some v"
    "\<Gamma> nn = Some ks" "kind_of v = ks ! nat (fc_feature_index fc)" "value_wf v"
  shows "FeatureComparison_compare ee fc v sol = Inr (fc_sat fc ee nn)"
proof -
  let ?cop = "fc_comparison_op fc"
  have val: "\<exists>w. fc_value fc = Some w \<and> compare_with_Value ee v w sol ?cop = Inr (comparison_spec v (value_denotes ee w) ?cop = Some True)"
    if vt: "value_typed \<Gamma> (fc_value fc) (kind_of v) ?cop"
  proof -
    obtain w k where w: "fc_value fc = Some w" "value_kind \<Gamma> w = Some k" "comparable (kind_of v) k ?cop"
      using vt by (auto simp: value_typed_def split: option.splits)
    then show ?thesis using compare_with_Value_denotes[OF assms(1) w(2)] value_denotes_kind[OF assms(1) w(2)]
      compare_comparable[OF assms(6)] by auto
  qed
  note t = assms(2)[unfolded fc_typed_def assms(4) option.case Let_def assms(5)[symmetric]]
  have tilde: "compare_pcre ee v fc sol = Inr (ee_pcre_exec ee (fc_pcre fc) s)"
    if c: "?cop = kTilde \<or> ?cop = kNotTilde" "v = kEVString s" for s
  proof -
    obtain w k where w: "fc_value fc = Some w" "value_kind \<Gamma> w = Some k" using t c by auto
    obtain u where "Value_getAsString ee w sol = Inr u" using Value_getAsString_returns[OF assms(1) w(2)] by blast
    then show ?thesis using w c by (simp add: compare_pcre_def deref_def)
  qed
  have str: "\<exists>s. v = kEVString s" if "?cop = kTilde \<or> ?cop = kNotTilde" using t that by (cases v) auto
  have ref: "compareObjectReferenceUsage ee v oru sol kIn = Inr (fc_sat fc ee nn)"
    if "?cop = kIn" "fc_list fc = None" "fc_value fc = Some (kValObjectReferenceUsage oru)" for oru
    using t that val assms(3) by (auto simp: compare_with_Value_def fc_sat_def simp del: value_denotes.simps)
  show ?thesis
  proof (cases ?cop)
    case kEqual
    then show ?thesis using t val compare_with_list_spec[OF assms(6)] assms(3)
      by (auto simp: FeatureComparison_compare_def fc_sat_def fc_list_def split: option.splits)
  next
    case kIn
    then have i: "\<exists>i. int_of_value v = Some i" if "fc_list fc \<noteq> None" using t that kind_of_int by auto
    have e: "value_getEnum v = Inr i" if "int_of_value v = Some i" "fc_in_enum_list fc = Some l" for i l
      using that t kIn by (cases v) (auto simp: value_getEnum_def fc_list_def)
    show ?thesis
    proof (cases "fc_list fc")
      case None
      then show ?thesis using t kIn ref[OF kIn None]
        by (auto simp: FeatureComparison_compare_def fc_list_def is_reference_def deref_def split: option.splits Value.splits)
    next
      case (Some l)
      then show ?thesis using i e kIn assms(3) in_integer_list_iff[of v]
        by (auto simp: FeatureComparison_compare_def fc_sat_def fc_list_def split: option.splits)
    qed
  next
    case kTilde
    then show ?thesis using str tilde assms(3) by (fastforce simp: FeatureComparison_compare_def fc_sat_def)
  next
    case kNotTilde
    then show ?thesis using str tilde assms(3) by (fastforce simp: FeatureComparison_compare_def fc_sat_def)
  qed (use t val assms(3) in \<open>auto simp: FeatureComparison_compare_def fc_sat_def deref_def\<close>)
qed

lemma R_feature_comparison_sat:
  assumes "env_typed \<Gamma> ee" "fc_typed \<Gamma> nn fc"
  shows "R_feature_comparison fc ee nn sol = Inr (fc_sat fc ee nn)"
proof -
  obtain ks where ks: "\<Gamma> nn = Some ks" "0 \<le> fc_feature_index fc" "nat (fc_feature_index fc) < length ks"
    using assms(2) by (auto simp: fc_typed_def split: option.splits)
  from env_typed_nth[OF assms(1) this] obtain v where v: "getFeatureValue ee nn (fc_feature_index fc) = Inr (Some v)"
    "ee_MQLObject ee nn ! nat (fc_feature_index fc) = Some v" "kind_of v = ks ! nat (fc_feature_index fc)" "value_wf v" .
  show ?thesis using FeatureComparison_compare_sat[OF assms v(2) ks(1) v(3,4)] v(1)
    by (simp add: R_feature_comparison_def deref_def)
qed

lemma R_ffeatures_sat:
  assumes "env_typed \<Gamma> ee"
  shows "ff_typed f \<Gamma> nn \<Longrightarrow> R_ffeatures f ee nn sol = Inr (ff_sat f ee nn)"
    "ft_typed t \<Gamma> nn \<Longrightarrow> R_fterm t ee nn sol = Inr (ft_sat t ee nn)"
    "fa_typed a \<Gamma> nn \<Longrightarrow> R_ffactor a ee nn sol = Inr (fa_sat a ee nn)"
  by (induction f and t and a) (auto simp: R_feature_comparison_sat[OF assms])

text \<open>Only the tables of the blocks in scope matter.\<close>

lemma fc_sat_cong:
  assumes "fc_typed \<Gamma> nn fc" "\<forall>n\<in>dom \<Gamma>. ee_MQLObject ee n = ee_MQLObject ee' n" "ee_pcre_exec ee = ee_pcre_exec ee'"
  shows "fc_sat fc ee nn = fc_sat fc ee' nn"
proof -
  have "value_denotes ee w = value_denotes ee' w" if "value_kind \<Gamma> w = Some k" for w k
    using that assms(2) by (cases w) (auto simp: domI split: option.splits)
  moreover have "ee_MQLObject ee nn = ee_MQLObject ee' nn" using assms(1,2) by (auto simp: fc_typed_def split: option.splits)
  ultimately show ?thesis using assms(1,3)
    by (auto simp: fc_sat_def fc_typed_def Let_def value_typed_def split: option.splits if_splits)
qed

lemma ff_sat_cong:
  assumes "\<forall>n\<in>dom \<Gamma>. ee_MQLObject ee n = ee_MQLObject ee' n" "ee_pcre_exec ee = ee_pcre_exec ee'"
  shows "ff_typed f \<Gamma> nn \<Longrightarrow> ff_sat f ee nn = ff_sat f ee' nn"
    "ft_typed t \<Gamma> nn \<Longrightarrow> ft_sat t ee nn = ft_sat t ee' nn"
    "fa_typed a \<Gamma> nn \<Longrightarrow> fa_sat a ee nn = fa_sat a ee' nn"
  by (induction f and t and a) (auto simp: fc_sat_cong[OF _ assms])

end
