(* ===== verification/TopographSem.thy ===== *)
theory TopographSem
  imports TopographR StartMonads_Props FeatureConstraints_Props Sheaf_Props
begin

text \<open>
  What a topographic query means, apart from how \<^verbatim>\<open>MQL/mql_R.cpp\<close> computes it: a block string
  denotes, at each monad, a list of straws, by list comprehension over the straws of its parts; a
  block within another denotes a list of straws or fails. There is no state here: the tables of the
  object blocks that enclose a block are in the environment that is handed down. The second half
  says which queries are well-formed.
\<close>

section \<open>Objects\<close>

definition solid :: "monad_m \<Rightarrow> monad_m \<Rightarrow> SetOfMonads" where
  "solid f l = \<lparr>monad_ms = [MSE f l], m_first = f, m_last = l\<rparr>"

definition object_monads :: "InstObject \<Rightarrow> SetOfMonads" where
  "object_monads v = (case io_u v of union_is_mlast l \<Rightarrow> solid (io_first v) l | union_is_pMonads s \<Rightarrow> s)"

text \<open>The objects of an Inst, in the order of the bottom level of its skip list.\<close>

fun walk_objects :: "nat \<Rightarrow> SkipList \<Rightarrow> nat \<Rightarrow> InstObject list" where
  "walk_objects 0 l i = []"
| "walk_objects (Suc n) l i =
     (if sit_hasNext l i then (case sit_next l i of Inl e \<Rightarrow> [] | Inr (v, j) \<Rightarrow> v # walk_objects n l j) else [])"

definition inst_objects :: "Inst \<Rightarrow> InstObject list" where
  "inst_objects i =
     (let l = ic_sl (in_contents i)
      in case SkipList_begin l of Inl e \<Rightarrow> [] | Inr a \<Rightarrow> walk_objects (sl_next l) l a)"

definition ob_objects :: "ObjectBlockInfo \<Rightarrow> InstObject list" where
  "ob_objects ob = (case ob_inst ob of None \<Rightarrow> [] | Some i \<Rightarrow> inst_objects i)"

section \<open>Starting monads\<close>

type_synonym starts = "MQLExecEnv \<Rightarrow> SetOfMonads \<Rightarrow> SetOfMonads \<Rightarrow> monad_m \<Rightarrow> monad_m set \<times> monad_m list"

definition ob_starts :: "ObjectBlockInfo \<Rightarrow> MQLExecEnv \<Rightarrow> SetOfMonads \<Rightarrow> monad_m \<Rightarrow> bool \<Rightarrow> monad_m set \<times> monad_m list" where
  "ob_starts ob ee Su Sm b =
     (let (lower, upper) = smi_bounds_inside ee ob Su Sm; S = som_set Su \<inter> {lower..upper}
      in if ob_bIsNOTEXIST ob
         then if ob_bBlockStringHasOnlyNOTEXIST ob \<and> b then ({lower}, [lower]) else (S, sorted_list_of_set S)
         else (S, inst_starts (ob_objects ob) (Min S) (Max S) lower))"

fun Block_starts :: "Block \<Rightarrow> starts" where
  "Block_starts (kOptGapBlock g) ee U Su Sm = (som_set U, monads_from U Sm)"
| "Block_starts (kGapBlock g) ee U Su Sm =
     (let G = {m_first Su..m_last Su} - som_set Su in (G, filter (\<lambda>m. Sm \<le> m) (sorted_list_of_set G)))"
| "Block_starts (kPowerBlock p) ee U Su Sm = ({}, [])"
| "Block_starts (kObjectBlock ob) ee U Su Sm = ob_starts (ob_info ob) ee Su Sm True"
| "Block_starts (kObjectBlockNOTEXIST ob) ee U Su Sm = ob_starts (ob_info ob) ee Su Sm True"

definition or_starts :: "starts \<Rightarrow> starts \<Rightarrow> starts" where
  "or_starts f g ee U Su Sm =
     (let S = fst (f ee U Su Sm) \<union> fst (g ee U Su Sm) in (S, sorted_list_of_set S))"

primrec BlockString_starts :: "BlockString \<Rightarrow> starts"
and BlockString2_starts :: "BlockString2 \<Rightarrow> starts"
and BlockString1_starts :: "BlockString1 \<Rightarrow> starts"
and BlockString0_starts :: "BlockString0 \<Rightarrow> starts" where
  "BlockString_starts (BlockString_bs2 b2) = BlockString2_starts b2"
| "BlockString_starts (BlockString_or b2 b) = or_starts (BlockString2_starts b2) (BlockString_starts b)"
| "BlockString2_starts (BlockString2_bs1 n b1) = BlockString1_starts b1"
| "BlockString2_starts (BlockString2_seq n b1 b2) = BlockString1_starts b1"
| "BlockString1_starts (BlockString1_bs0 b0) = BlockString0_starts b0"
| "BlockString1_starts (BlockString1_star b0 mse som) = (\<lambda>ee U Su Sm.
     if 0 \<in> som_set som then (som_set Su, monads_from Su Sm) else BlockString0_starts b0 ee U Su Sm)"
| "BlockString0_starts (BlockString0_block b) = Block_starts b"
| "BlockString0_starts (BlockString0_string b) = BlockString_starts b"

section \<open>Matching\<close>

text \<open>What a block string denotes: straws at a monad. What blocks denote: straws, or failure.\<close>

type_synonym string_sem = "MQLExecEnv \<Rightarrow> SetOfMonads \<Rightarrow> SetOfMonads \<Rightarrow> monad_m \<Rightarrow> monad_m \<Rightarrow> Straw list"
type_synonym blocks_sem = "MQLExecEnv \<Rightarrow> SetOfMonads \<Rightarrow> SetOfMonads \<Rightarrow> monad_m \<Rightarrow> Straw list option"

text \<open>A straw that goes on where another ended.\<close>

definition straw_join :: "Straw \<Rightarrow> Straw \<Rightarrow> Straw" where
  "straw_join s t = Straw (straw_last t) (straw_list s @ straw_list t)"

definition nothing :: "monad_m \<Rightarrow> Straw" where
  "nothing Sm = straw_of [MatchedObject_empty (Sm - 1)]"

definition sem_seq :: "string_sem \<Rightarrow> string_sem \<Rightarrow> string_sem" where
  "sem_seq f g ee U Su Sm mr = [straw_join s t. s \<leftarrow> f ee U Su Sm mr, t \<leftarrow> g ee U Su (straw_last s + 1) mr]"

definition power_monads :: "Power \<Rightarrow> starts \<Rightarrow> MQLExecEnv \<Rightarrow> SetOfMonads \<Rightarrow> SetOfMonads \<Rightarrow> monad_m \<Rightarrow> monad_m \<Rightarrow> monad_m list" where
  "power_monads p st ee U Su m mr =
     (let high = MYMIN (pw_limit_high p) mr; low = MYMIN (pw_limit_low p) high
      in if m + low \<le> m_last U \<and> m + low \<le> m_last Su
         then takeWhile (\<lambda>k. k \<le> (if high = MAX_MONAD then m_last Su else MYMIN (m + high) (m_last Su)))
                (snd (st ee U Su (m + low)))
         else [])"

definition sem_power :: "Power \<Rightarrow> string_sem \<Rightarrow> starts \<Rightarrow> string_sem \<Rightarrow> string_sem" where
  "sem_power p f st g ee U Su Sm mr =
     [straw_join s t. s \<leftarrow> f ee U Su Sm mr, m \<leftarrow> power_monads p st ee U Su (straw_last s + 1) mr, t \<leftarrow> g ee U Su m mr]"

fun sem_repeat :: "string_sem \<Rightarrow> nat \<Rightarrow> string_sem" where
  "sem_repeat f 0 ee U Su Sm mr = f ee U Su Sm mr"
| "sem_repeat f (Suc n) ee U Su Sm mr =
     [straw_join s t. s \<leftarrow> sem_repeat f n ee U Su Sm mr, t \<leftarrow> f ee U Su (straw_last s + 1) mr]"

text \<open>The numbers of repetitions, zero apart, in ascending order.\<close>

definition star_counts :: "SetOfMonads \<Rightarrow> monad_m \<Rightarrow> monad_m list" where
  "star_counts som n = filter (\<lambda>k. n \<le> k) (sorted_list_of_set (som_set som))"

definition sem_star :: "SetOfMonads \<Rightarrow> string_sem \<Rightarrow> string_sem" where
  "sem_star som f ee U Su Sm mr =
     (if 0 \<in> som_set som then [nothing Sm] else []) @
     concat (map (\<lambda>k. sem_repeat f (nat (k - 1)) ee U Su Sm mr) (star_counts som 1))"

text \<open>A gap of the substrate that starts at the monad.\<close>

definition gap_at :: "SetOfMonads \<Rightarrow> monad_m \<Rightarrow> monad_m option" where
  "gap_at Su Sm = (case SetOfMonads_gapExists Su Sm 0 of Inr (found, l) \<Rightarrow> if found then Some l else None | Inl e \<Rightarrow> None)"

definition inner_sem :: "blocks_sem option \<Rightarrow> MQLExecEnv \<Rightarrow> SetOfMonads \<Rightarrow> SetOfMonads \<Rightarrow> Sheaf option option" where
  "inner_sem inner ee U Su =
     (case inner of None \<Rightarrow> Some None
      | Some f \<Rightarrow> (case f ee U Su MAX_MONAD of None \<Rightarrow> None | Some los \<Rightarrow> Some (Some (Sheaf (Some los)))))"

definition sem_gap :: "bool \<Rightarrow> GapBlockInfo \<Rightarrow> blocks_sem option \<Rightarrow> MQLExecEnv \<Rightarrow> SetOfMonads \<Rightarrow> monad_m \<Rightarrow> Straw list" where
  "sem_gap optional g inner ee Su Sm =
     (case gap_at Su Sm of
        None \<Rightarrow> if optional then [nothing Sm] else []
      | Some l \<Rightarrow>
          (case inner_sem inner ee (solid Sm l) (solid Sm l) of
             None \<Rightarrow> []
           | Some sheaf \<Rightarrow> [straw_of [MatchedObject_id_m (solid Sm l) (gb_pOBB g) (gb_retrieval g \<noteq> kNoRetrieve)
                                     (gb_retrieval g = kRetrieveFocus) sheaf]]))"

definition ob_nn :: "ObjectBlockInfo \<Rightarrow> int" where
  "ob_nn ob = obb_node_number (ob_base ob)"

text \<open>The environment in which the values of an object are in its block's table.\<close>

definition bind_object :: "MQLExecEnv \<Rightarrow> int \<Rightarrow> InstObject \<Rightarrow> MQLExecEnv" where
  "bind_object ee nn v =
     ee\<lparr>ee_MQLObject := (ee_MQLObject ee)(nn := map Some (take (length (ee_MQLObject ee nn))
       (case io_features v of None \<Rightarrow> [] | Some arr \<Rightarrow> arr)))\<rparr>"

definition related :: "MonadSetRelationClause \<Rightarrow> InstObject \<Rightarrow> SetOfMonads \<Rightarrow> SetOfMonads \<Rightarrow> bool" where
  "related c v U Su =
     (let S = som_set (case msrc_universe_or_substrate c of kMSNUniverse \<Rightarrow> U | kMSNSubstrate \<Rightarrow> Su)
      in case msrc_operation c of
           kMSROPartOf \<Rightarrow> object_set v \<subseteq> S
         | kMSROOverlap \<Rightarrow> object_set v \<inter> S \<noteq> {}
         | kMSROStartsIn \<Rightarrow> io_first v \<in> S)"

definition constraint_sat :: "FeatureConstraint option \<Rightarrow> MQLExecEnv \<Rightarrow> int \<Rightarrow> bool" where
  "constraint_sat c ee nn = (case c of None \<Rightarrow> True | Some c \<Rightarrow> ff_sat (ffc_ffeatures c) ee nn)"

definition retrieved_values :: "ObjectBlockInfo \<Rightarrow> MQLExecEnv \<Rightarrow> mo_values" where
  "retrieved_values ob ee =
     V_vec (if ob_Feature_retrieval_vec ob = [] then None
            else Some (map (\<lambda>f. ee_MQLObject ee (ob_nn ob) ! nat (ft_feature_index_inst f)) (ob_Feature_retrieval_vec ob)))"

definition matched :: "ObjectBlockInfo \<Rightarrow> MQLExecEnv \<Rightarrow> InstObject \<Rightarrow> Sheaf option \<Rightarrow> MatchedObject" where
  "matched ob ee v sheaf =
     mo_set_values (MatchedObject_id_d (io_id_d v) (object_monads v) sheaf (ob_pOBB ob)) (retrieved_values ob ee)"

text \<open>The straw, if any, for one object.\<close>

definition sem_match :: "ObjectBlockInfo \<Rightarrow> blocks_sem option \<Rightarrow> MQLExecEnv \<Rightarrow> SetOfMonads \<Rightarrow> SetOfMonads \<Rightarrow> InstObject \<Rightarrow> Straw list" where
  "sem_match ob inner ee U Su v =
     (let ee1 = bind_object ee (ob_nn ob) v
      in if first_last_ok (ob_first_last ob) v Su \<and> related (ob_MSRC ob) v U Su \<and>
            constraint_sat (ob_feature_constraints ob) ee1 (ob_nn ob)
         then (case inner_sem inner ee1 (solid (io_first v) (InstObject_last v)) (object_monads v) of
                 None \<Rightarrow> [] | Some sheaf \<Rightarrow> [straw_of [matched ob ee1 v sheaf]])
         else [])"

definition sem_object :: "ObjectBlockInfo \<Rightarrow> blocks_sem option \<Rightarrow> MQLExecEnv \<Rightarrow> SetOfMonads \<Rightarrow> SetOfMonads \<Rightarrow> monad_m \<Rightarrow> Straw list" where
  "sem_object ob inner ee U Su Sm =
     concat (map (sem_match ob inner ee U Su) (filter (\<lambda>v. io_first v = Sm) (ob_objects ob)))"

text \<open>The part of a set from a monad on.\<close>

definition restricted :: "SetOfMonads \<Rightarrow> monad_m \<Rightarrow> SetOfMonads" where
  "restricted s m = (case R_restrict s m of Inl e \<Rightarrow> s | Inr t \<Rightarrow> t)"

definition sem_NOTEXIST :: "ObjectBlockInfo \<Rightarrow> blocks_sem option \<Rightarrow> MQLExecEnv \<Rightarrow> SetOfMonads \<Rightarrow> SetOfMonads \<Rightarrow> monad_m \<Rightarrow> Straw list" where
  "sem_NOTEXIST ob inner ee U Su Sm =
     (let (U1, Su1, m) = (if ob_bIsAfterNonNOTEXIST ob then (restricted U Sm, restricted Su Sm, Sm) else (U, Su, m_first U))
      in if \<forall>k\<in>set (snd (ob_starts ob ee Su1 m False)). sem_object ob inner ee U1 Su1 k = [] then [nothing Sm] else [])"

definition sem_blocks_string :: "starts \<Rightarrow> string_sem \<Rightarrow> blocks_sem" where
  "sem_blocks_string st f ee U Su mr =
     (let los = concat (map (\<lambda>m. f ee U Su m mr) (snd (st ee U Su (m_first Su))))
      in if los = [] then None else Some (kept_straws los))"

text \<open>All object blocks of an unordered group must match; the straws are in the order of the blocks.\<close>

definition sem_member :: "ObjectBlockInfo \<Rightarrow> blocks_sem option \<Rightarrow> MQLExecEnv \<Rightarrow> SetOfMonads \<Rightarrow> SetOfMonads \<Rightarrow> Straw list" where
  "sem_member ob inner ee U Su =
     concat (map (sem_object ob inner ee U Su) (snd (ob_starts ob ee Su (m_first Su) True)))"

definition sem_unordered :: "(MQLExecEnv \<Rightarrow> SetOfMonads \<Rightarrow> SetOfMonads \<Rightarrow> Straw list list) \<Rightarrow> blocks_sem" where
  "sem_unordered ms ee U Su mr = (let los = ms ee U Su in if [] \<in> set los then None else Some (concat los))"

fun afterNext_starts :: "BlockString2 \<Rightarrow> starts" where
  "afterNext_starts (BlockString2_bs1 n b1) = (\<lambda>ee U Su Sm. ({}, []))"
| "afterNext_starts (BlockString2_seq n b1 b2) = BlockString2_starts b2"

text \<open>
  The second component for \<open>block_string2\<close> is what follows its first block, which is needed where
  that first block is a power block.
\<close>

primrec Blocks_sem :: "Blocks \<Rightarrow> blocks_sem"
and BlockString_sem :: "BlockString \<Rightarrow> string_sem"
and BlockString2_sem :: "BlockString2 \<Rightarrow> string_sem \<times> string_sem"
and BlockString1_sem :: "BlockString1 \<Rightarrow> string_sem"
and BlockString0_sem :: "BlockString0 \<Rightarrow> string_sem"
and Block_sem :: "Block \<Rightarrow> MQLExecEnv \<Rightarrow> SetOfMonads \<Rightarrow> SetOfMonads \<Rightarrow> monad_m \<Rightarrow> Straw list"
and GapBlock_sem :: "GapBlock \<Rightarrow> bool \<Rightarrow> MQLExecEnv \<Rightarrow> SetOfMonads \<Rightarrow> monad_m \<Rightarrow> Straw list"
and ObjectBlock_sem :: "ObjectBlock \<Rightarrow> blocks_sem option"
and ObjectBlockString_sem :: "ObjectBlockString \<Rightarrow> MQLExecEnv \<Rightarrow> SetOfMonads \<Rightarrow> SetOfMonads \<Rightarrow> Straw list list" where
  "Blocks_sem (Blocks_string bs ur) = sem_blocks_string (BlockString_starts bs) (BlockString_sem bs)"
| "Blocks_sem (Blocks_unordered obs) = sem_unordered (ObjectBlockString_sem obs)"
| "BlockString_sem (BlockString_bs2 b2) = fst (BlockString2_sem b2)"
| "BlockString_sem (BlockString_or b2 bs) =
     (\<lambda>ee U Su Sm mr. fst (BlockString2_sem b2) ee U Su Sm mr @ BlockString_sem bs ee U Su Sm mr)"
| "BlockString2_sem (BlockString2_bs1 n b1) = (BlockString1_sem b1, \<lambda>_ _ _ _ _. [])"
| "BlockString2_sem (BlockString2_seq n b1 b2) =
     (case firstBlockPower (getBlockString1 b2) of
        Some p \<Rightarrow> sem_power p (BlockString1_sem b1) (afterNext_starts b2) (snd (BlockString2_sem b2))
      | None \<Rightarrow> sem_seq (BlockString1_sem b1) (fst (BlockString2_sem b2)),
      fst (BlockString2_sem b2))"
| "BlockString1_sem (BlockString1_bs0 b0) = BlockString0_sem b0"
| "BlockString1_sem (BlockString1_star b0 mse som) = sem_star som (BlockString0_sem b0)"
| "BlockString0_sem (BlockString0_block b) = (\<lambda>ee U Su Sm mr. Block_sem b ee U Su Sm)"
| "BlockString0_sem (BlockString0_string bs) = BlockString_sem bs"
| "Block_sem (kOptGapBlock g) = (\<lambda>ee U Su Sm. GapBlock_sem g True ee Su Sm)"
| "Block_sem (kGapBlock g) = (\<lambda>ee U Su Sm. GapBlock_sem g False ee Su Sm)"
| "Block_sem (kPowerBlock p) = (\<lambda>ee U Su Sm. [])"
| "Block_sem (kObjectBlock ob) = sem_object (ob_info ob) (ObjectBlock_sem ob)"
| "Block_sem (kObjectBlockNOTEXIST ob) = sem_NOTEXIST (ob_info ob) (ObjectBlock_sem ob)"
| "GapBlock_sem (GapBlock g opt_blocks) = (\<lambda>b. sem_gap b g (map_option Blocks_sem opt_blocks))"
| "ObjectBlock_sem (ObjectBlock ob opt_blocks) = map_option Blocks_sem opt_blocks"
| "ObjectBlockString_sem (ObjectBlockString_one ob) =
     (\<lambda>ee U Su. [sem_member (ob_info ob) (ObjectBlock_sem ob) ee U Su])"
| "ObjectBlockString_sem (ObjectBlockString_more obs ob) =
     (\<lambda>ee U Su. ObjectBlockString_sem obs ee U Su @ [sem_member (ob_info ob) (ObjectBlock_sem ob) ee U Su])"

section \<open>Well-formed queries\<close>

text \<open>
  The kinds of values each block's table holds are given by \<open>K\<close>; \<open>\<Gamma>\<close> has the blocks that enclose
  the one at hand.
\<close>

type_synonym schema = "int \<Rightarrow> vkind list"

text \<open>The monads of a substrate or an object, within those of the database.\<close>

definition monads_ok :: "MQLExecEnv \<Rightarrow> SetOfMonads \<Rightarrow> bool" where
  "monads_ok ee s \<longleftrightarrow> som_wf s \<and> monad_ms s \<noteq> [] \<and> 1 \<le> m_first s \<and>
     m_first (ee_all_m_1 ee) \<le> m_first s \<and> m_last s \<le> m_last (ee_all_m_1 ee)"

definition object_ok :: "MQLExecEnv \<Rightarrow> vkind list \<Rightarrow> InstObject \<Rightarrow> bool" where
  "object_ok ee ks v \<longleftrightarrow> InstObject_ok v \<and> 0 \<le> io_id_d v \<and> monads_ok ee (object_monads v) \<and>
     (\<exists>arr. io_features v = Some arr \<and> length ks \<le> length arr \<and>
        (\<forall>i<length ks. kind_of (arr ! i) = ks ! i \<and> value_wf (arr ! i)))"

definition inst_ok :: "MQLExecEnv \<Rightarrow> vkind list \<Rightarrow> Inst \<Rightarrow> bool" where
  "inst_ok ee ks i \<longleftrightarrow> (\<exists>vs. ic_abs (in_contents i) vs \<and> (\<forall>v\<in>set vs. object_ok ee ks v))"

definition constraint_ok :: "tyenv \<Rightarrow> int \<Rightarrow> FeatureConstraint option \<Rightarrow> bool" where
  "constraint_ok \<Gamma> nn c =
     (case c of None \<Rightarrow> True | Some c \<Rightarrow> \<not> ffc_hasNonParentORUs c \<and> ff_typed (ffc_ffeatures c) \<Gamma> nn)"

definition retrieval_ok :: "vkind list \<Rightarrow> ObjectBlockInfo \<Rightarrow> bool" where
  "retrieval_ok ks ob \<longleftrightarrow>
     map ft_list_index (ob_Feature_retrieval_vec ob) = [0..<length (ob_Feature_retrieval_vec ob)] \<and>
     (\<forall>f\<in>set (ob_Feature_retrieval_vec ob). 0 \<le> ft_feature_index_inst f \<and> nat (ft_feature_index_inst f) < length ks) \<and>
     (\<exists>b. ob_pOBB ob = Some b \<and> length (obb_Feature_retrieval_vec b) = length (ob_Feature_retrieval_vec ob))"

definition ob_ok :: "schema \<Rightarrow> MQLExecEnv \<Rightarrow> tyenv \<Rightarrow> ObjectBlockInfo \<Rightarrow> bool" where
  "ob_ok K ee \<Gamma> ob \<longleftrightarrow>
     (let nn = ob_nn ob
      in \<Gamma> nn = None \<and> length (ee_MQLObject ee nn) = length (K nn) \<and>
         (\<exists>i. ob_inst ob = Some i \<and> inst_ok ee (K nn) i) \<and>
         msrc_operation (ob_MSRC ob) \<noteq> kMSROOverlap \<and>
         constraint_ok (\<Gamma>(nn \<mapsto> K nn)) nn (ob_feature_constraints ob) \<and> retrieval_ok (K nn) ob)"

text \<open>The sums that the limits of a power block enter stay within 32 bits.\<close>

definition limit_ok :: "int \<Rightarrow> bool" where
  "limit_ok n \<longleftrightarrow> 0 \<le> n \<and> (i32_range (MAX_MONAD + 1 + n) \<or> n = MAX_MONAD)"

definition power_ok :: "Power \<Rightarrow> bool" where
  "power_ok p \<longleftrightarrow> limit_ok (pw_limit_high p) \<and> 0 \<le> pw_limit_low p \<and> i32_range (MAX_MONAD + 1 + pw_limit_low p)"

primrec Blocks_ok :: "Blocks \<Rightarrow> schema \<Rightarrow> MQLExecEnv \<Rightarrow> tyenv \<Rightarrow> bool"
and BlockString_ok :: "BlockString \<Rightarrow> schema \<Rightarrow> MQLExecEnv \<Rightarrow> tyenv \<Rightarrow> bool"
and BlockString2_ok :: "BlockString2 \<Rightarrow> schema \<Rightarrow> MQLExecEnv \<Rightarrow> tyenv \<Rightarrow> bool \<times> bool"
and BlockString1_ok :: "BlockString1 \<Rightarrow> schema \<Rightarrow> MQLExecEnv \<Rightarrow> tyenv \<Rightarrow> bool"
and BlockString0_ok :: "BlockString0 \<Rightarrow> schema \<Rightarrow> MQLExecEnv \<Rightarrow> tyenv \<Rightarrow> bool"
and Block_ok :: "Block \<Rightarrow> schema \<Rightarrow> MQLExecEnv \<Rightarrow> tyenv \<Rightarrow> bool"
and GapBlock_ok :: "GapBlock \<Rightarrow> schema \<Rightarrow> MQLExecEnv \<Rightarrow> tyenv \<Rightarrow> bool"
and ObjectBlock_ok :: "ObjectBlock \<Rightarrow> schema \<Rightarrow> MQLExecEnv \<Rightarrow> tyenv \<Rightarrow> bool"
and ObjectBlockString_ok :: "ObjectBlockString \<Rightarrow> schema \<Rightarrow> MQLExecEnv \<Rightarrow> tyenv \<Rightarrow> bool" where
  "Blocks_ok (Blocks_string bs ur) K ee \<Gamma> = (ur = None \<and> BlockString_ok bs K ee \<Gamma>)"
| "Blocks_ok (Blocks_unordered obs) K ee \<Gamma> = ObjectBlockString_ok obs K ee \<Gamma>"
| "BlockString_ok (BlockString_bs2 b2) K ee \<Gamma> = fst (BlockString2_ok b2 K ee \<Gamma>)"
| "BlockString_ok (BlockString_or b2 bs) K ee \<Gamma> = (fst (BlockString2_ok b2 K ee \<Gamma>) \<and> BlockString_ok bs K ee \<Gamma>)"
| "BlockString2_ok (BlockString2_bs1 n b1) K ee \<Gamma> = (BlockString1_ok b1 K ee \<Gamma>, False)"
| "BlockString2_ok (BlockString2_seq n b1 b2) K ee \<Gamma> =
     (BlockString1_ok b1 K ee \<Gamma> \<and>
        (case firstBlockPower (getBlockString1 b2) of
           Some p \<Rightarrow> power_ok p \<and> snd (BlockString2_ok b2 K ee \<Gamma>)
         | None \<Rightarrow> fst (BlockString2_ok b2 K ee \<Gamma>)),
      fst (BlockString2_ok b2 K ee \<Gamma>))"
| "BlockString1_ok (BlockString1_bs0 b0) K ee \<Gamma> = BlockString0_ok b0 K ee \<Gamma>"
| "BlockString1_ok (BlockString1_star b0 mse som) K ee \<Gamma> = (BlockString0_ok b0 K ee \<Gamma> \<and> som_wf som \<and> monad_ms som \<noteq> [])"
| "BlockString0_ok (BlockString0_block b) K ee \<Gamma> = Block_ok b K ee \<Gamma>"
| "BlockString0_ok (BlockString0_string bs) K ee \<Gamma> = BlockString_ok bs K ee \<Gamma>"
| "Block_ok (kOptGapBlock g) K ee \<Gamma> = GapBlock_ok g K ee \<Gamma>"
| "Block_ok (kGapBlock g) K ee \<Gamma> = GapBlock_ok g K ee \<Gamma>"
| "Block_ok (kPowerBlock p) K ee \<Gamma> = False"
| "Block_ok (kObjectBlock ob) K ee \<Gamma> = (ObjectBlock_ok ob K ee \<Gamma> \<and> \<not> ob_bIsNOTEXIST (ob_info ob))"
| "Block_ok (kObjectBlockNOTEXIST ob) K ee \<Gamma> = (ObjectBlock_ok ob K ee \<Gamma> \<and> ob_bIsNOTEXIST (ob_info ob))"
| "GapBlock_ok (GapBlock g opt_blocks) K ee \<Gamma> =
     (gb_pOBB g \<noteq> None \<and> pred_option (\<lambda>f. f K ee \<Gamma>) (map_option Blocks_ok opt_blocks))"
| "ObjectBlock_ok (ObjectBlock ob opt_blocks) K ee \<Gamma> =
     (ob_ok K ee \<Gamma> ob \<and> pred_option (\<lambda>f. f K ee (\<Gamma>(ob_nn ob \<mapsto> K (ob_nn ob)))) (map_option Blocks_ok opt_blocks))"
| "ObjectBlockString_ok (ObjectBlockString_one ob) K ee \<Gamma> = (ObjectBlock_ok ob K ee \<Gamma> \<and> \<not> ob_bIsNOTEXIST (ob_info ob))"
| "ObjectBlockString_ok (ObjectBlockString_more obs ob) K ee \<Gamma> =
     (ObjectBlockString_ok obs K ee \<Gamma> \<and> ObjectBlock_ok ob K ee \<Gamma> \<and> \<not> ob_bIsNOTEXIST (ob_info ob))"

end
