(* ===== verification/TopographStrings_Props.thy ===== *)
theory TopographStrings_Props
  imports TopographSem
begin

text \<open>
  The engine computes the reference semantics, first half: a calculus for functions that thread the
  execution environment, and the functions of \<^verbatim>\<open>MQL/mql_R.cpp\<close> that put strings of blocks together
  (alternatives, sequences, power blocks, repetition).
\<close>

section \<open>Threading the environment\<close>

text \<open>
  The engine overwrites the tables of object blocks and the straws that references are resolved in.
  What a function computes may only depend on the tables of the blocks in scope, and it must leave
  these alone.
\<close>

definition agree :: "tyenv \<Rightarrow> MQLExecEnv \<Rightarrow> MQLExecEnv \<Rightarrow> bool" where
  "agree \<Gamma> ee e \<longleftrightarrow> ee = e\<lparr>ee_MQLObject := ee_MQLObject ee, ee_ORUStraw := ee_ORUStraw ee\<rparr> \<and>
     (\<forall>n\<in>dom \<Gamma>. ee_MQLObject ee n = ee_MQLObject e n) \<and>
     (\<forall>n. length (ee_MQLObject ee n) = length (ee_MQLObject e n))"

definition yields :: "tyenv \<Rightarrow> MQLExecEnv \<Rightarrow> (MQLExecEnv \<Rightarrow> ('a \<times> MQLExecEnv) res) \<Rightarrow> 'a \<Rightarrow> bool" where
  "yields \<Gamma> e m x \<longleftrightarrow> (\<forall>ee. agree \<Gamma> ee e \<longrightarrow> returns (m ee) (\<lambda>(y, ee1). y = x \<and> agree \<Gamma> ee1 e))"

lemma agree_fields:
  assumes "agree \<Gamma> ee e"
  shows "ee_all_m_1 ee = ee_all_m_1 e" "ee_bContinueExecution ee = ee_bContinueExecution e"
    "ee_pCallback ee = ee_pCallback e" "ee_pcre_exec ee = ee_pcre_exec e" "ee_getInst ee = ee_getInst e"
    "ee_shown ee = ee_shown e" "ee_endSheaf ee = ee_endSheaf e"
    "n \<in> dom \<Gamma> \<Longrightarrow> ee_MQLObject ee n = ee_MQLObject e n" "length (ee_MQLObject ee n) = length (ee_MQLObject e n)"
proof -
  obtain mo oru where ee: "ee = e\<lparr>ee_MQLObject := mo, ee_ORUStraw := oru\<rparr>" using assms by (auto simp: agree_def)
  show "ee_all_m_1 ee = ee_all_m_1 e" "ee_bContinueExecution ee = ee_bContinueExecution e"
    "ee_pCallback ee = ee_pCallback e" "ee_pcre_exec ee = ee_pcre_exec e" "ee_getInst ee = ee_getInst e"
    "ee_shown ee = ee_shown e" "ee_endSheaf ee = ee_endSheaf e" by (simp_all add: ee)
  show "n \<in> dom \<Gamma> \<Longrightarrow> ee_MQLObject ee n = ee_MQLObject e n" "length (ee_MQLObject ee n) = length (ee_MQLObject e n)"
    using assms by (simp_all add: agree_def)
qed

lemma agree_refl [simp]: "agree \<Gamma> e e"
  by (simp add: agree_def)

lemma agree_setORUStraw [simp]: "agree \<Gamma> (setORUStraw ee nn s) e \<longleftrightarrow> agree \<Gamma> ee e"
  by (cases ee; cases e) (auto simp: agree_def setORUStraw_def)

lemma yields_return: "yields \<Gamma> e (\<lambda>ee. Inr (x, ee)) x"
  by (simp add: yields_def)

lemma yields_returns: "yields \<Gamma> e m x \<Longrightarrow> agree \<Gamma> ee e \<Longrightarrow> \<exists>ee1. m ee = Inr (x, ee1) \<and> agree \<Gamma> ee1 e"
  by (auto simp: yields_def returns_iff)

lemma yields_bind:
  assumes "yields \<Gamma> e m x" "yields \<Gamma> e (k x) y"
  shows "yields \<Gamma> e (\<lambda>ee. bind_res (m ee) (\<lambda>(a, ee1). k a ee1)) y"
  unfolding yields_def
proof (intro allI impI)
  fix ee assume "agree \<Gamma> ee e"
  then obtain ee1 where "m ee = Inr (x, ee1)" "agree \<Gamma> ee1 e" using yields_returns[OF assms(1)] by blast
  then show "returns (bind_res (m ee) (\<lambda>(a, ee1). k a ee1)) (\<lambda>(z, ee1). z = y \<and> agree \<Gamma> ee1 e)"
    using assms(2) by (simp add: yields_def)
qed

lemma yields_setORUStraw: "yields \<Gamma> e m x \<Longrightarrow> yields \<Gamma> e (\<lambda>ee. m (setORUStraw ee nn s)) x"
  by (simp add: yields_def)

lemma yields_fold:
  assumes "\<And>x acc. x \<in> set xs \<Longrightarrow> yields \<Gamma> e (\<lambda>ee. F (acc, ee) x) (acc @ h x)"
  shows "yields \<Gamma> e (\<lambda>ee. foldM_res F (acc, ee) xs) (acc @ concat (map h xs))"
  using assms
proof (induction xs arbitrary: acc)
  case (Cons x xs)
  have "yields \<Gamma> e (\<lambda>ee. bind_res (F (acc, ee) x) (\<lambda>(a, ee1). foldM_res F (a, ee1) xs)) ((acc @ h x) @ concat (map h xs))"
  proof (rule yields_bind[OF Cons.prems])
    show "yields \<Gamma> e (\<lambda>ee. foldM_res F (acc @ h x, ee) xs) ((acc @ h x) @ concat (map h xs))"
      by (rule Cons.IH) (use Cons.prems in simp)
  qed simp
  moreover have "bind_res (F (acc, ee) x) (\<lambda>(a, ee1). foldM_res F (a, ee1) xs) = foldM_res F (acc, ee) (x # xs)" for ee
    by (cases "F (acc, ee) x") auto
  ultimately show ?case by simp
qed (simp add: yields_return)

lemma yields_run:
  assumes "\<And>m acc. m \<in> set ms \<Longrightarrow> yields \<Gamma> e (\<lambda>ee. bind_res (body (acc, ee) m) (\<lambda>((a, ee1), b). Inr ((a, b), ee1))) (acc @ h m, False)"
    "\<And>acc ee. agree \<Gamma> ee e \<Longrightarrow> go (acc, ee)"
  shows "yields \<Gamma> e (\<lambda>ee. smi_run go body ms (acc, ee)) (acc @ concat (map h ms))"
  unfolding yields_def
proof (intro allI impI)
  fix ee assume "agree \<Gamma> ee e"
  with assms show "returns (smi_run go body ms (acc, ee)) (\<lambda>(y, ee1). y = acc @ concat (map h ms) \<and> agree \<Gamma> ee1 e)"
  proof (induction ms arbitrary: acc ee)
    case (Cons m ms)
    obtain ee1 where "bind_res (body (acc, ee) m) (\<lambda>((a, ee1), b). Inr ((a, b), ee1)) = Inr ((acc @ h m, False), ee1)"
      "agree \<Gamma> ee1 e"
      using yields_returns[OF Cons.prems(1)[of m acc] Cons.prems(3)] by auto
    then have "body (acc, ee) m = Inr ((acc @ h m, ee1), False)" "agree \<Gamma> ee1 e" by (auto simp: res_simps)
    then show ?case using Cons.IH[of ee1 "acc @ h m"] Cons.prems by (auto simp: comp_def)
  qed simp
qed

section \<open>Contexts\<close>

text \<open>Tables may change their values but not their lengths.\<close>

definition ctx :: "MQLExecEnv \<Rightarrow> tyenv \<Rightarrow> MQLExecEnv \<Rightarrow> bool" where
  "ctx e0 \<Gamma> e \<longleftrightarrow> ee_all_m_1 e = ee_all_m_1 e0 \<and> (\<forall>n. length (ee_MQLObject e n) = length (ee_MQLObject e0 n)) \<and>
     env_typed \<Gamma> e \<and> ee_bContinueExecution e"

definition extent_ok :: "MQLExecEnv \<Rightarrow> SetOfMonads \<Rightarrow> SetOfMonads \<Rightarrow> bool" where
  "extent_ok e U Su \<longleftrightarrow> monads_ok e Su \<and> som_wf U \<and> monad_ms U \<noteq> [] \<and> m_first U = m_first Su \<and> m_last U = m_last Su"

definition straw_ok :: "Straw \<Rightarrow> bool" where
  "straw_ok s \<longleftrightarrow> straw_wf s \<and> straw_list s \<noteq> [] \<and> 0 \<le> straw_last s \<and> straw_last s \<le> MAX_MONAD"

definition straws_ok :: "Straw list \<Rightarrow> bool" where
  "straws_ok los \<longleftrightarrow> (\<forall>s\<in>set los. straw_ok s)"

definition monad_ok :: "monad_m \<Rightarrow> bool" where
  "monad_ok Sm \<longleftrightarrow> 1 \<le> Sm \<and> Sm \<le> MAX_MONAD + 1"

definition runs :: "MQLExecEnv \<Rightarrow> tyenv \<Rightarrow> runner \<Rightarrow> string_sem \<Rightarrow> bool" where
  "runs e0 \<Gamma> r f \<longleftrightarrow> (\<forall>e U Su Sm mr. ctx e0 \<Gamma> e \<longrightarrow> extent_ok e U Su \<longrightarrow> limit_ok mr \<longrightarrow> monad_ok Sm \<longrightarrow>
     yields \<Gamma> e (\<lambda>ee. r ee U Su Sm mr) (f e U Su Sm mr) \<and> straws_ok (f e U Su Sm mr))"

definition starts_at :: "MQLExecEnv \<Rightarrow> tyenv \<Rightarrow> smi_fun \<Rightarrow> starts \<Rightarrow> bool" where
  "starts_at e0 \<Gamma> smi st \<longleftrightarrow> (\<forall>e U Su Sm ee. ctx e0 \<Gamma> e \<longrightarrow> extent_ok e U Su \<longrightarrow> 1 \<le> Sm \<longrightarrow> Sm \<le> m_last Su \<longrightarrow> agree \<Gamma> ee e \<longrightarrow>
     returns (smi ee U Su Sm) (\<lambda>i. smi_at i (snd (st e U Su Sm)) \<and> som_wf (smi_Su i) \<and> som_set (smi_Su i) = fst (st e U Su Sm)) \<and>
     (\<forall>m\<in>fst (st e U Su Sm) \<union> set (snd (st e U Su Sm)). monad_ok m))"

lemma runsD:
  "runs e0 \<Gamma> r f \<Longrightarrow> ctx e0 \<Gamma> e \<Longrightarrow> extent_ok e U Su \<Longrightarrow> limit_ok mr \<Longrightarrow> monad_ok Sm \<Longrightarrow>
   yields \<Gamma> e (\<lambda>ee. r ee U Su Sm mr) (f e U Su Sm mr) \<and> straws_ok (f e U Su Sm mr)"
  by (simp add: runs_def)

lemma starts_atD:
  "starts_at e0 \<Gamma> smi st \<Longrightarrow> ctx e0 \<Gamma> e \<Longrightarrow> extent_ok e U Su \<Longrightarrow> 1 \<le> Sm \<Longrightarrow> Sm \<le> m_last Su \<Longrightarrow> agree \<Gamma> ee e \<Longrightarrow>
   returns (smi ee U Su Sm) (\<lambda>i. smi_at i (snd (st e U Su Sm)) \<and> som_wf (smi_Su i) \<and> som_set (smi_Su i) = fst (st e U Su Sm)) \<and>
   (\<forall>m\<in>fst (st e U Su Sm) \<union> set (snd (st e U Su Sm)). monad_ok m)"
  by (simp add: starts_at_def)

lemma straws_ok_append [simp]: "straws_ok (a @ b) \<longleftrightarrow> straws_ok a \<and> straws_ok b" "straws_ok []"
  by (auto simp: straws_ok_def)

lemma straws_ok_concat [simp]: "straws_ok (concat ls) \<longleftrightarrow> (\<forall>l\<in>set ls. straws_ok l)"
  by (auto simp: straws_ok_def)

lemma straws_ok_Cons [simp]: "straws_ok (s # a) \<longleftrightarrow> straw_ok s \<and> straws_ok a"
  by (auto simp: straws_ok_def)

lemma straws_ok_wf: "straws_ok los \<Longrightarrow> straws_wf los"
  by (auto simp: straws_ok_def straws_wf_all straw_ok_def)

lemma straw_join_ok: "straw_ok s \<Longrightarrow> straw_ok t \<Longrightarrow> straw_ok (straw_join s t)"
  by (cases s; cases t) (auto simp: straw_ok_def straw_join_def mos_wf_all)

lemma straw_ok_next: "straw_ok s \<Longrightarrow> monad_ok (straw_last s + 1)"
  by (simp add: straw_ok_def monad_ok_def)

section \<open>Alternatives and sequences\<close>

lemma runs_or:
  assumes "runs e0 \<Gamma> r2 f" "runs e0 \<Gamma> r g"
  shows "runs e0 \<Gamma> (R_or r2 r) (\<lambda>ee U Su Sm mr. f ee U Su Sm mr @ g ee U Su Sm mr)"
  unfolding runs_def
proof (intro allI impI)
  fix e U Su Sm mr assume c: "ctx e0 \<Gamma> e" "extent_ok e U Su" "limit_ok mr" "monad_ok Sm"
  let ?f = "f e U Su Sm mr" and ?g = "g e U Su Sm mr"
  have *: "yields \<Gamma> e (\<lambda>ee. r2 ee U Su Sm mr) ?f" "yields \<Gamma> e (\<lambda>ee. r ee U Su Sm mr) ?g" "straws_ok ?f" "straws_ok ?g"
    using assms c by (auto simp: runs_def)
  have "yields \<Gamma> e (\<lambda>ee. R_or r2 r ee U Su Sm mr) (if ?f = [] then ?g else if ?g = [] then ?f else ?f @ ?g)"
    unfolding R_or_def appendAndSubsume_def by (rule yields_bind[OF *(1)], rule yields_bind[OF *(2)], rule yields_return)
  then show "yields \<Gamma> e (\<lambda>ee. R_or r2 r ee U Su Sm mr) (?f @ ?g) \<and> straws_ok (?f @ ?g)" using *(3,4) by (auto split: if_splits)
qed

lemma prepend_each_ok:
  "straw_ok s \<Longrightarrow> straws_ok los \<Longrightarrow> prepend_each s los acc = Inr (acc @ map (straw_join s) los)"
proof (induction los arbitrary: acc)
  case (Cons t los)
  have "Straw_prepend t s = Inr (straw_join s t)" using Straw_prepend_ok[of s t] Cons.prems
    by (simp add: straw_ok_def straw_join_def Straw_prependAndTakeOver_def)
  then show ?case using Cons by (simp add: LOS_append_def Straw_isEmpty_def straw_ok_def)
qed simp

lemma runs_seq:
  assumes "runs e0 \<Gamma> r1 f" "runs e0 \<Gamma> r2 g"
  shows "runs e0 \<Gamma> (R_block_string2_non_power_block nn r1 r2) (sem_seq f g)"
  unfolding runs_def
proof (intro allI impI)
  fix e U Su Sm mr assume c: "ctx e0 \<Gamma> e" "extent_ok e U Su" "limit_ok mr" "monad_ok Sm"
  let ?g = "\<lambda>s. g e U Su (straw_last s + 1) mr"
  have f: "yields \<Gamma> e (\<lambda>ee. r1 ee U Su Sm mr) (f e U Su Sm mr)" "straws_ok (f e U Su Sm mr)"
    using assms(1) c by (auto simp: runs_def)
  have g: "yields \<Gamma> e (\<lambda>ee. r2 ee U Su (straw_last s + 1) mr) (?g s)" "straws_ok (?g s)" "straw_ok s"
    if "s \<in> set (f e U Su Sm mr)" for s
  proof -
    show "straw_ok s" using f(2) that by (simp add: straws_ok_def)
    from runsD[OF assms(2) c(1-3) straw_ok_next[OF this]]
    show "yields \<Gamma> e (\<lambda>ee. r2 ee U Su (straw_last s + 1) mr) (?g s)" "straws_ok (?g s)" by blast+
  qed
  have "yields \<Gamma> e (\<lambda>ee. R_block_string2_non_power_block nn r1 r2 ee U Su Sm mr) ([] @ concat (map (\<lambda>s. map (straw_join s) (?g s)) (f e U Su Sm mr)))"
    unfolding R_block_string2_non_power_block_def
  proof (rule yields_bind[OF f(1) yields_fold])
    fix s acc assume s: "s \<in> set (f e U Su Sm mr)"
    have "yields \<Gamma> e (\<lambda>ee. bind_res (r2 (setORUStraw ee nn s) U Su (straw_last s + 1) mr)
        (\<lambda>(l, ee3). bind_res (prepend_each s l acc) (\<lambda>l. Inr (l, ee3)))) (acc @ map (straw_join s) (?g s))"
      by (rule yields_bind[OF yields_setORUStraw[OF g(1)[OF s]]])
        (simp add: prepend_each_ok[OF g(3)[OF s] g(2)[OF s]] yields_return)
    then show "yields \<Gamma> e (\<lambda>ee. (\<lambda>(pResultLOS, ee2) pBS1Straw. bind_res (r2 (setORUStraw ee2 nn pBS1Straw) U Su (straw_last pBS1Straw + 1) mr)
        (\<lambda>(pBS2LOS, ee3). bind_res (prepend_each pBS1Straw pBS2LOS pResultLOS) (\<lambda>l. Inr (l, ee3)))) (acc, ee) s)
       (acc @ map (straw_join s) (?g s))" by simp
  qed
  then show "yields \<Gamma> e (\<lambda>ee. R_block_string2_non_power_block nn r1 r2 ee U Su Sm mr) (sem_seq f g e U Su Sm mr) \<and> straws_ok (sem_seq f g e U Su Sm mr)"
    using g straw_join_ok by (auto simp: sem_seq_def straws_ok_def)
qed

section \<open>Power blocks\<close>

lemma R_restrict_ok:
  assumes "som_wf s"
  shows "returns (R_restrict s m) (\<lambda>t. som_wf t \<and> som_set t = {x \<in> som_set s. m \<le> x})"
proof -
  have lb: "\<forall>x\<in>som_set s. m_first s \<le> x" using som_wf_bounds[OF assms] by (cases "monad_ms s = []") (auto simp: som_set_def)
  show ?thesis
  proof (cases "m_first s \<le> m - 1")
    case True
    have "0 \<le> m_first s" using som_wf_bounds(4)[OF assms] assms by (cases "monad_ms s = []") (simp_all add: som_wf_def bounds_ok_def)
    then have "returns (SetOfMonads_removeMSE_range s (m_first s) (m - 1)) (\<lambda>t. som_wf t \<and> som_set t = som_set s - {m_first s..m - 1})"
      using removeMSE_range_returns[OF assms, of "m_first s" "m - 1"] True by simp
    moreover have "som_set s - {m_first s..m - 1} = {x \<in> som_set s. m \<le> x}" using lb by auto
    ultimately show ?thesis using True by (simp add: R_restrict_def Let_def)
  next
    case False
    then show ?thesis using lb assms by (auto simp: R_restrict_def Let_def)
  qed
qed

lemma som_wf_nonempty: "som_wf t \<Longrightarrow> monad_ms t \<noteq> [] \<longleftrightarrow> som_set t \<noteq> {}"
  using som_wf_bounds(6)[of t] by (auto simp: som_set_def)

lemma restrict_nonempty:
  assumes "som_wf s" "monad_ms s \<noteq> []" "som_wf t" "som_set t = {x \<in> som_set s. m \<le> x}"
  shows "monad_ms t = [] \<longleftrightarrow> m_last s < m" "m \<le> m_last s \<Longrightarrow> m_last t = m_last s"
proof -
  note b = som_wf_bounds[OF assms(1,2)]
  have l: "m_last s \<in> som_set s" "\<forall>x\<in>som_set s. x \<le> m_last s" using b(2,6,7) by auto
  then show e: "monad_ms t = [] \<longleftrightarrow> m_last s < m"
    using som_wf_nonempty[OF assms(3)] assms(4) by fastforce
  assume m: "m \<le> m_last s"
  then have "monad_ms t \<noteq> []" using e by simp
  then have "m_last t = Max (som_set t)" using som_wf_bounds(2)[OF assms(3)] by simp
  also have "\<dots> = m_last s" using l m b(7) by (intro Max_eqI) (auto simp: assms(4))
  finally show "m_last t = m_last s" .
qed

lemma extent_okD:
  assumes "extent_ok e U Su"
  shows "som_wf U" "monad_ms U \<noteq> []" "som_wf Su" "monad_ms Su \<noteq> []" "1 \<le> m_first Su" "m_last Su \<le> MAX_MONAD"
    "m_first Su \<le> m_last Su" "m_first U = m_first Su" "m_last U = m_last Su"
    "m_first (ee_all_m_1 e) \<le> m_first Su" "m_last Su \<le> m_last (ee_all_m_1 e)"
  using assms som_wf_bounds(3,5)[of Su] by (auto simp: extent_ok_def monads_ok_def)

lemma yields_run_while:
  assumes "\<And>m acc. m \<in> set ms \<Longrightarrow> P m \<Longrightarrow>
      yields \<Gamma> e (\<lambda>ee. bind_res (body (acc, ee) m) (\<lambda>((a, ee1), b). Inr ((a, b), ee1))) (acc @ h m, False)"
    "\<And>m acc ee. m \<in> set ms \<Longrightarrow> \<not> P m \<Longrightarrow> body (acc, ee) m = Inr ((acc, ee), True)"
  shows "yields \<Gamma> e (\<lambda>ee. smi_run (\<lambda>_. True) body ms (acc, ee)) (acc @ concat (map h (takeWhile P ms)))"
  unfolding yields_def
proof (intro allI impI)
  fix ee assume "agree \<Gamma> ee e"
  with assms show "returns (smi_run (\<lambda>_. True) body ms (acc, ee))
    (\<lambda>(y, ee1). y = acc @ concat (map h (takeWhile P ms)) \<and> agree \<Gamma> ee1 e)"
  proof (induction ms arbitrary: acc ee)
    case (Cons m ms)
    show ?case
    proof (cases "P m")
      case True
      obtain ee1 where "bind_res (body (acc, ee) m) (\<lambda>((a, ee1), b). Inr ((a, b), ee1)) = Inr ((acc @ h m, False), ee1)"
        "agree \<Gamma> ee1 e"
        using yields_returns[OF Cons.prems(1)[of m acc] Cons.prems(3)] True by auto
      then have "body (acc, ee) m = Inr ((acc @ h m, ee1), False)" "agree \<Gamma> ee1 e" by (auto simp: res_simps)
      then show ?thesis using Cons.IH[of ee1 "acc @ h m"] Cons.prems(1,2) True by (auto simp: comp_def)
    qed (use Cons.prems in simp)
  qed simp
qed

lemma power_bounds:
  assumes "power_ok p" "limit_ok mr" "monad_ok m"
  defines "high \<equiv> MYMIN (pw_limit_high p) mr"
  defines "low \<equiv> MYMIN (pw_limit_low p) high"
  shows "i32 (m + low) = m + low" "high \<noteq> MAX_MONAD \<Longrightarrow> i32 (m + high) = m + high" "0 \<le> low"
proof -
  have h: "limit_ok high" using assms by (simp add: power_ok_def MYMIN_def)
  then show "0 \<le> low" using assms(1) by (simp add: low_def MYMIN_def power_ok_def limit_ok_def)
  then show "i32 (m + low) = m + low"
    using assms(1,3) by (intro i32_id) (auto simp: low_def MYMIN_def power_ok_def i32_range_def monad_ok_def MAX_MONAD_def split: if_splits)
  show "i32 (m + high) = m + high" if "high \<noteq> MAX_MONAD"
    using h that assms(3) by (intro i32_id) (auto simp: limit_ok_def i32_range_def monad_ok_def MAX_MONAD_def)
qed

lemma power_straw_ok:
  assumes st: "starts_at e0 \<Gamma> smi st" and g: "runs e0 \<Gamma> r2 g" and p: "power_ok p"
    and c: "ctx e0 \<Gamma> e" "extent_ok e U Su" "limit_ok mr" and s: "straw_ok s"
  defines "h \<equiv> \<lambda>m. map (straw_join s) (g e U Su m mr)"
  shows "yields \<Gamma> e (\<lambda>ee. power_straw nn p smi r2 U Su mr (acc, ee) s)
      (acc @ concat (map h (power_monads p st e U Su (straw_last s + 1) mr)))"
    "\<forall>m\<in>set (power_monads p st e U Su (straw_last s + 1) mr). monad_ok m"
proof -
  define m high low where d: "m = straw_last s + 1" "high = MYMIN (pw_limit_high p) mr" "low = MYMIN (pw_limit_low p) high"
  note x = extent_okD[OF c(2)]
  have m: "monad_ok m" using straw_ok_next[OF s] by (simp add: d)
  note b = power_bounds[OF p c(3) m, folded d(2), folded d(3)]
  have from1: "1 \<le> m + low" using m b(3) by (simp add: monad_ok_def)
  obtain Up where Up: "R_restrict U (m + low) = Inr Up" "som_wf Up" "som_set Up = {x \<in> som_set U. m + low \<le> x}"
    using R_restrict_ok[OF x(1), of "m + low"] by (auto simp: returns_iff)
  obtain Sp where Sp: "R_restrict Su (m + low) = Inr Sp" "som_wf Sp" "som_set Sp = {x \<in> som_set Su. m + low \<le> x}"
    using R_restrict_ok[OF x(3), of "m + low"] by (auto simp: returns_iff)
  note ne = restrict_nonempty[OF x(1,2) Up(2,3)] restrict_nonempty[OF x(3,4) Sp(2,3)]
  let ?up = "if high = MAX_MONAD then m_last Sp else MYMIN (i32 (m + high)) (m_last Sp)"
  let ?ks = "snd (st e U Su (m + low))"
  have pm: "power_monads p st e U Su m mr = (if m + low \<le> m_last Su then takeWhile (\<lambda>k. k \<le> ?up) ?ks else [])"
    using ne(4) b(2) x(9) by (auto simp: power_monads_def Let_def simp flip: d)
  have mk: "monad_ok k" if "k \<in> set ?ks" "m + low \<le> m_last Su" for k
    using starts_atD[OF st c(1,2) from1 that(2) agree_refl] that(1) by blast
  show "\<forall>m\<in>set (power_monads p st e U Su (straw_last s + 1) mr). monad_ok m"
    using mk by (auto simp: pm simp flip: d(1) dest: set_takeWhileD)
  have "yields \<Gamma> e (\<lambda>ee. power_straw nn p smi r2 U Su mr (acc, ee) s) (acc @ concat (map h (power_monads p st e U Su m mr)))"
  proof (cases "m + low \<le> m_last Su")
    case True
    have body: "yields \<Gamma> e (\<lambda>ee. bind_res (power_step r2 U Su mr ?up s (a, ee) k) (\<lambda>((a, ee1), b). Inr ((a, b), ee1))) (a @ h k, False)"
      if k: "k \<in> set ?ks" "k \<le> ?up" for k a
    proof -
      have gk: "yields \<Gamma> e (\<lambda>ee. r2 ee U Su k mr) (g e U Su k mr)" "straws_ok (g e U Su k mr)"
        using runsD[OF g c mk[OF k(1) True]] by blast+
      have "yields \<Gamma> e (\<lambda>ee. bind_res (r2 ee U Su k mr) (\<lambda>(l, ee1). bind_res (prepend_each s l a) (\<lambda>l. Inr ((l, False), ee1))))
        (a @ h k, False)"
        by (rule yields_bind[OF gk(1)]) (simp add: prepend_each_ok[OF s gk(2)] h_def yields_return)
      moreover have "\<not> k > ?up" using k(2) by linarith
      ultimately show ?thesis by (simp add: power_step_def bind_res_assoc case_prod_unfold)
    qed
    have stop: "power_step r2 U Su mr ?up s (a, ee) k = Inr ((a, ee), True)" if "\<not> k \<le> ?up" for a ee k
      using that by (simp add: power_step_def)
    note loop = yields_run_while[where P = "\<lambda>k. k \<le> ?up" and body = "power_step r2 U Su mr ?up s" and ms = ?ks and h = h and acc = acc, OF body stop]
    show ?thesis
      unfolding yields_def
    proof (intro allI impI)
      fix ee assume ee: "agree \<Gamma> ee e"
      obtain i where i: "smi (setORUStraw ee nn s) U Su (m + low) = Inr i" "smi_at i ?ks"
        using starts_atD[OF st c(1,2) from1 True agree_setORUStraw[of \<Gamma> ee nn s e, THEN iffD2, OF ee]] by (auto simp: returns_iff)
      have "power_straw nn p smi r2 U Su mr (acc, ee) s = smi_run (\<lambda>_. True) (power_step r2 U Su mr ?up s) ?ks (acc, setORUStraw ee nn s)"
        using True x(9) ne b(1) Up(1) Sp(1) i(1)
        by (simp add: smi_loop_fold[OF i(2)] power_straw_def Let_def SetOfMonads_isEmpty_def it_hasNext_def flip: d)
      then show "returns (power_straw nn p smi r2 U Su mr (acc, ee) s)
         (\<lambda>(y, ee1). y = acc @ concat (map h (power_monads p st e U Su m mr)) \<and> agree \<Gamma> ee1 e)"
        using loop[unfolded yields_def] ee agree_setORUStraw[of \<Gamma> ee nn s e] True by (simp add: pm)
    qed
  next
    case False
    then have "power_straw nn p smi r2 U Su mr (acc, ee) s = Inr (acc, setORUStraw ee nn s)" for ee
      using ne(3) b(1) Up(1) Sp(1) by (simp add: power_straw_def Let_def SetOfMonads_isEmpty_def flip: d)
    then show ?thesis using False by (simp add: pm yields_def)
  qed
  then show "yields \<Gamma> e (\<lambda>ee. power_straw nn p smi r2 U Su mr (acc, ee) s)
      (acc @ concat (map h (power_monads p st e U Su (straw_last s + 1) mr)))" by (simp add: d(1))
qed

lemma runs_power:
  assumes "runs e0 \<Gamma> r1 f" "starts_at e0 \<Gamma> smi st" "runs e0 \<Gamma> r2 g" "power_ok p"
  shows "runs e0 \<Gamma> (R_block_string2_power_block nn p r1 smi r2) (sem_power p f st g)"
  unfolding runs_def
proof (intro allI impI)
  fix e U Su Sm mr assume c: "ctx e0 \<Gamma> e" "extent_ok e U Su" "limit_ok mr" "monad_ok Sm"
  have f: "yields \<Gamma> e (\<lambda>ee. r1 ee U Su Sm mr) (f e U Su Sm mr)" "straws_ok (f e U Su Sm mr)"
    using runsD[OF assms(1) c] by blast+
  then have s: "straw_ok s" if "s \<in> set (f e U Su Sm mr)" for s using that by (simp add: straws_ok_def)
  note ps = power_straw_ok[OF assms(2-4) c(1-3) s]
  have "yields \<Gamma> e (\<lambda>ee. R_block_string2_power_block nn p r1 smi r2 ee U Su Sm mr) ([] @ concat (map (\<lambda>s.
     concat (map (\<lambda>m. map (straw_join s) (g e U Su m mr)) (power_monads p st e U Su (straw_last s + 1) mr))) (f e U Su Sm mr)))"
    unfolding R_block_string2_power_block_def by (rule yields_bind[OF f(1) yields_fold]) (rule ps(1))
  moreover have "straws_ok (g e U Su m mr)" if "s \<in> set (f e U Su Sm mr)" "m \<in> set (power_monads p st e U Su (straw_last s + 1) mr)" for s m
    using runsD[OF assms(3) c(1-3)] ps(2) that by blast
  ultimately show "yields \<Gamma> e (\<lambda>ee. R_block_string2_power_block nn p r1 smi r2 ee U Su Sm mr) (sem_power p f st g e U Su Sm mr) \<and>
      straws_ok (sem_power p f st g e U Su Sm mr)"
    using s straw_join_ok by (auto simp: sem_power_def straws_ok_def)
qed

section \<open>Repetition\<close>

lemma straw_single: "Straw_append Straw_new mo = straw_of [mo]"
  by (simp add: Straw_append_def Straw_updateLast_def Straw_new_def straw_of_def Let_def max_def)

lemma empty_straw_nothing: "empty_straw Sm = nothing Sm"
  by (simp add: empty_straw_def nothing_def straw_single)

lemma straw_of_single: "mo_wf mo \<Longrightarrow> mo_getLast mo \<le> MAX_MONAD \<Longrightarrow> straw_ok (straw_of [mo])"
  by (simp add: straw_ok_def straw_of_def)

lemma nothing_ok: "monad_ok Sm \<Longrightarrow> straw_ok (nothing Sm)"
  by (auto simp: nothing_def monad_ok_def MatchedObject_empty_def fields_ok_def mo_getLast_def intro!: straw_of_single)

lemma sem_repeat_empty: "sem_repeat f n ee U Su Sm mr = [] \<Longrightarrow> n \<le> k \<Longrightarrow> sem_repeat f k ee U Su Sm mr = []"
proof (induction k)
  case (Suc k)
  then show ?case by (cases "n = Suc k") auto
qed simp

lemma sem_repeat_ok:
  assumes "runs e0 \<Gamma> r f" "ctx e0 \<Gamma> e" "extent_ok e U Su" "limit_ok mr" "monad_ok Sm"
  shows "straws_ok (sem_repeat f n e U Su Sm mr)"
proof (induction n)
  case 0
  then show ?case using runsD[OF assms] by simp
next
  case (Suc n)
  have "straws_ok (f e U Su (straw_last s + 1) mr)" if "straw_ok s" for s
    using runsD[OF assms(1-4) straw_ok_next[OF that]] by blast
  then show ?case using Suc straw_join_ok by (auto simp: straws_ok_def)
qed

lemma star_step_ok:
  assumes "runs e0 \<Gamma> r f" "ctx e0 \<Gamma> e" "extent_ok e U Su" "limit_ok mr" "monad_ok Sm"
  shows "yields \<Gamma> e (\<lambda>ee. star_step r U Su mr ee (sem_repeat f n e U Su Sm mr)) (sem_repeat f (Suc n) e U Su Sm mr)"
proof -
  let ?g = "\<lambda>s. f e U Su (straw_last s + 1) mr"
  have "yields \<Gamma> e (\<lambda>ee. star_step r U Su mr ee (sem_repeat f n e U Su Sm mr))
     ([] @ concat (map (\<lambda>s. map (straw_join s) (?g s)) (sem_repeat f n e U Su Sm mr)))"
    unfolding star_step_def
  proof (rule yields_fold)
    fix s acc assume "s \<in> set (sem_repeat f n e U Su Sm mr)"
    then have s: "straw_ok s" using sem_repeat_ok[OF assms] by (simp add: straws_ok_def)
    then have g: "yields \<Gamma> e (\<lambda>ee. r ee U Su (straw_last s + 1) mr) (?g s)"
      using runsD[OF assms(1-4) straw_ok_next[OF s]] by blast
    have j: "LOS_join los s = Inr (map (straw_join s) los)" if "los \<noteq> []" for los
      using LOS_join_ok(1)[of s los] s that by (simp add: straw_ok_def straw_join_def Straw_prependAndTakeOver_def)
    have "yields \<Gamma> e (\<lambda>ee. bind_res (r ee U Su (straw_last s + 1) mr) (\<lambda>(l, ee2).
         if l = [] then Inr (acc, ee2) else bind_res (LOS_join l s) (\<lambda>l. Inr (appendAndSubsume acc l, ee2))))
       (acc @ map (straw_join s) (?g s))"
      by (rule yields_bind[OF g]) (cases "?g s = []"; simp add: j appendAndSubsume_def yields_return)
    then show "yields \<Gamma> e (\<lambda>ee. (\<lambda>(pLOS4, ee1) pStraw. bind_res (r ee1 U Su (straw_last pStraw + 1) mr) (\<lambda>(pLOS3, ee2).
         if pLOS3 = [] then Inr (pLOS4, ee2)
         else bind_res (LOS_join pLOS3 pStraw) (\<lambda>l. Inr (appendAndSubsume pLOS4 l, ee2)))) (acc, ee) s)
       (acc @ map (straw_join s) (?g s))" by simp
  qed
  then show ?thesis by simp
qed

lemma filter_from_step:
  "sorted ks \<Longrightarrow> distinct ks \<Longrightarrow> filter (\<lambda>k. n \<le> k) ks = (if n \<in> set ks then [n] else []) @ filter (\<lambda>k. n + 1 \<le> k) ks"
  for n :: int
proof (induction ks)
  case (Cons k ks)
  have "filter (\<lambda>x. n \<le> x) ks = filter (\<lambda>x. n + 1 \<le> x) ks" if "n \<notin> set ks"
    by (rule filter_cong[OF refl]) (use that in \<open>auto simp: order_le_less\<close>)
  then show ?case using Cons by (cases "k = n") auto
qed simp

lemma star_counts_step:
  assumes "som_wf som"
  shows "star_counts som n = (if n \<in> som_set som then [n] else []) @ star_counts som (n + 1)"
proof -
  have "finite (som_set som)" by (simp add: som_set_def)
  then show ?thesis using filter_from_step[of "sorted_list_of_set (som_set som)" n] by (simp add: star_counts_def)
qed

lemma star_counts_past:
  assumes "som_wf som" "monad_ms som \<noteq> []" "m_last som < n"
  shows "star_counts som n = []"
proof -
  have "finite (som_set som)" "\<forall>x\<in>som_set som. x < n" using som_wf_bounds(2,6,7)[OF assms(1,2)] assms(3) by (auto simp: Max_less_iff)
  then show ?thesis by (auto simp: star_counts_def filter_empty_conv)
qed

declare star_loop.simps [simp del]

lemma star_loop_ok:
  assumes r: "runs e0 \<Gamma> r f" "ctx e0 \<Gamma> e" "extent_ok e U Su" "limit_ok mr" "monad_ok Sm"
    and som: "som_wf som" "monad_ms som \<noteq> []"
  shows "1 \<le> n \<Longrightarrow> hint \<noteq> [] \<Longrightarrow> \<exists>ps. monad_ms som = ps @ hint \<Longrightarrow> agree \<Gamma> ee e \<Longrightarrow>
   returns (star_loop r som U Su mr ee (int n + 1) hint (sem_repeat f (n - 1) e U Su Sm mr) acc)
     (\<lambda>(y, ee1). y = acc @ concat (map (\<lambda>k. sem_repeat f (nat (k - 1)) e U Su Sm mr) (star_counts som (int n + 1))) \<and>
       agree \<Gamma> ee1 e)"
proof (induction "nat (m_last som + 1 - int n)" arbitrary: n hint ee acc rule: less_induct)
  case less
  let ?rep = "\<lambda>n. sem_repeat f n e U Su Sm mr"
  let ?h = "\<lambda>k. ?rep (nat (k - 1))"
  obtain ee1 where st: "star_step r U Su mr ee (?rep (n - 1)) = Inr (?rep n, ee1)" "agree \<Gamma> ee1 e"
    using yields_returns[OF star_step_ok[OF r, of "n - 1"] less.prems(4)] less.prems(1) by auto
  show ?case
  proof (cases "?rep n = []")
    case True
    have "?h k = []" if "k \<in> set (star_counts som (int n + 1))" for k
      using that sem_repeat_empty[OF True, of "nat (k - 1)"] by (auto simp: star_counts_def)
    then have "concat (map ?h (star_counts som (int n + 1))) = []" by simp
    then show ?thesis using st True by (subst star_loop.simps) simp
  next
    case False
    show ?thesis
    proof (cases "int n + 1 > m_last som")
      case True
      have "SetOfMonads_isMemberOf_hint som (int n + 1) hint = Inr (False, [])"
        using isMemberOf_hint_correct[OF som(1)] less.prems(3) True by fastforce
      then show ?thesis using st False star_counts_past[OF som True] by (subst star_loop.simps) simp
    next
      case inside: False
      obtain h where h: "SetOfMonads_isMemberOf_hint som (int n + 1) hint = Inr (int n + 1 \<in> som_set som, h)"
        "h \<noteq> []" "\<exists>ps. monad_ms som = ps @ h"
      proof -
        obtain ps where ps: "monad_ms som = ps @ hint" using less.prems(3) by blast
        show thesis using that isMemberOf_hint_correct[OF som(1) ps, of "int n + 1"] inside less.prems(2)
          by (auto simp: returns_iff)
      qed
      let ?acc = "acc @ (if int n + 1 \<in> som_set som then ?rep n else [])"
      have cp: "appendACopy acc (?rep n) = Inr (acc @ ?rep n)" by (rule appendACopy_ok[OF straws_ok_wf[OF sem_repeat_ok[OF r]]])
      have "star_loop r som U Su mr ee (int n + 1) hint (?rep (n - 1)) acc =
          star_loop r som U Su mr ee1 (int (Suc n) + 1) h (?rep (Suc n - 1)) ?acc"
        using st(1) False h(1,2) cp by (subst star_loop.simps) (simp add: add.commute)
      moreover have "returns (star_loop r som U Su mr ee1 (int (Suc n) + 1) h (?rep (Suc n - 1)) ?acc)
          (\<lambda>(y, ee2). y = ?acc @ concat (map ?h (star_counts som (int (Suc n) + 1))) \<and> agree \<Gamma> ee2 e)"
        by (rule less.hyps) (use inside h(2,3) st(2) in auto)
      moreover have "?acc @ concat (map ?h (star_counts som (int (Suc n) + 1))) = acc @ concat (map ?h (star_counts som (int n + 1)))"
        using star_counts_step[OF som(1), of "int n + 1"] by (simp add: add.commute)
      ultimately show ?thesis by simp
    qed
  qed
qed

lemma runs_star:
  assumes "runs e0 \<Gamma> r f" and som: "som_wf som" "monad_ms som \<noteq> []"
  shows "runs e0 \<Gamma> (R_star som r) (sem_star som f)"
  unfolding runs_def
proof (intro allI impI)
  fix e U Su Sm mr assume c: "ctx e0 \<Gamma> e" "extent_ok e U Su" "limit_ok mr" "monad_ok Sm"
  let ?rep = "\<lambda>n. sem_repeat f n e U Su Sm mr"
  let ?h = "\<lambda>k. ?rep (nat (k - 1))"
  let ?zero = "if 0 \<in> som_set som then [nothing Sm] else []"
  have f: "yields \<Gamma> e (\<lambda>ee. r ee U Su Sm mr) (?rep 0)" using runsD[OF assms(1) c] by simp
  have ok: "straws_ok (?rep n)" for n by (rule sem_repeat_ok[OF assms(1) c])
  have last0: "0 \<le> m_last som" using som_wf_bounds(3,4)[OF som] by simp
  obtain h0 where h0: "SetOfMonads_isMemberOf_hint som 0 (SetOfMonads_const_iterator som) = Inr (0 \<in> som_set som, h0)"
    "h0 \<noteq> []" "\<exists>ps. monad_ms som = ps @ h0"
    using isMemberOf_hint_correct[OF som(1), of "[]" "monad_ms som" 0] last0 som(2)
    by (auto simp: returns_iff SetOfMonads_const_iterator_def)
  have "yields \<Gamma> e (\<lambda>ee. R_star som r ee U Su Sm mr) (?zero @ concat (map ?h (star_counts som 1)))"
    unfolding yields_def
  proof (intro allI impI)
    fix ee assume "agree \<Gamma> ee e"
    then obtain ee1 where e1: "r ee U Su Sm mr = Inr (?rep 0, ee1)" "agree \<Gamma> ee1 e" using yields_returns[OF f] by blast
    show "returns (R_star som r ee U Su Sm mr) (\<lambda>(y, ee1). y = ?zero @ concat (map ?h (star_counts som 1)) \<and> agree \<Gamma> ee1 e)"
    proof (cases "?rep 0 = []")
      case True
      have "?h k = []" for k by (rule sem_repeat_empty[OF True]) simp
      then have "concat (map ?h (star_counts som 1)) = []" by simp
      then show ?thesis using e1 True isMemberOf_value[OF som(1)] by (simp add: R_star_def empty_straw_nothing)
    next
      case False
      show ?thesis
      proof (cases "1 > m_last som")
        case True
        have "SetOfMonads_isMemberOf_hint som 1 h0 = Inr (False, [])"
          using isMemberOf_hint_correct[OF som(1)] h0(3) True by fastforce
        then show ?thesis using e1 False h0(1) star_counts_past[OF som True] True by (simp add: R_star_def Let_def empty_straw_nothing)
      next
        case inside: False
        obtain h1 where h1: "SetOfMonads_isMemberOf_hint som 1 h0 = Inr (1 \<in> som_set som, h1)" "h1 \<noteq> []" "\<exists>ps. monad_ms som = ps @ h1"
        proof -
          obtain ps where ps: "monad_ms som = ps @ h0" using h0(3) by blast
          show thesis using that isMemberOf_hint_correct[OF som(1) ps, of 1] inside h0(2) by (auto simp: returns_iff)
        qed
        let ?acc = "?zero @ (if 1 \<in> som_set som then ?rep 0 else [])"
        have cp: "appendACopy los (?rep 0) = Inr (los @ ?rep 0)" for los by (rule appendACopy_ok[OF straws_ok_wf[OF ok]])
        have code: "R_star som r ee U Su Sm mr =
            (if 2 \<le> m_last som then star_loop r som U Su mr ee1 2 h1 (?rep 0) ?acc else Inr (?acc, ee1))"
          using e1(1) False h0(1) h1(1) cp[simplified] by (simp add: R_star_def Let_def empty_straw_nothing)
        have s: "star_counts som 1 = (if 1 \<in> som_set som then [1] else []) @ star_counts som 2"
          using star_counts_step[OF som(1), of 1] by simp
        show ?thesis
        proof (cases "2 \<le> m_last som")
          case True
          have "returns (star_loop r som U Su mr ee1 (int 1 + 1) h1 (?rep (1 - 1)) ?acc)
             (\<lambda>(y, ee1). y = ?acc @ concat (map ?h (star_counts som (int 1 + 1))) \<and> agree \<Gamma> ee1 e)"
            by (rule star_loop_ok[OF assms(1) c som _ h1(2,3) e1(2)]) simp
          moreover have "?acc @ concat (map ?h (star_counts som (int 1 + 1))) = ?zero @ concat (map ?h (star_counts som 1))"
            using s by simp
          moreover have "int 1 + 1 = 2" "(1 :: nat) - 1 = 0" by simp_all
          ultimately show ?thesis using True by (simp only: code if_True)
        next
          case False
          then show ?thesis using star_counts_past[OF som, of 2] s e1(2) by (simp add: code)
        qed
      qed
    qed
  qed
  then show "yields \<Gamma> e (\<lambda>ee. R_star som r ee U Su Sm mr) (sem_star som f e U Su Sm mr) \<and> straws_ok (sem_star som f e U Su Sm mr)"
    using ok nothing_ok[OF c(4)] by (auto simp: sem_star_def)
qed

end
