(* ===== verification/TopographBlocks_Props.thy ===== *)
theory TopographBlocks_Props
  imports TopographStrings_Props
begin

text \<open>
  The engine computes the reference semantics, second half: gaps, object blocks and blocks, and the
  induction over the syntax tree that puts everything together.
\<close>

section \<open>Monads\<close>

lemma solid_ok:
  assumes "0 \<le> f" "f \<le> l" "l \<le> MAX_MONAD"
  shows "SetOfMonads_range f l = Inr (solid f l)" "som_wf (solid f l)" "monad_ms (solid f l) \<noteq> []" "som_set (solid f l) = {f..l}"
    "m_first (solid f l) = f" "m_last (solid f l) = l"
  using assms by (auto simp: solid_def SetOfMonads_range_def MonadSetElement_range_def som_wf_def som_set_def bounds_ok_def mse_ok_def mse_set_def)

lemma object_monads_ok:
  assumes "InstObject_ok v"
  shows "InstObject_getMonads v = Inr (object_monads v)" "som_wf (object_monads v)" "monad_ms (object_monads v) \<noteq> []"
    "som_set (object_monads v) = object_set v" "m_first (object_monads v) = io_first v" "m_last (object_monads v) = InstObject_last v"
proof -
  note r = InstObject_ok_range[OF assms]
  show "InstObject_getMonads v = Inr (object_monads v)"
  proof (cases "io_u v")
    case (union_is_mlast l)
    then have l: "0 \<le> io_first v" "io_first v \<le> l" "l \<le> MAX_MONAD" using r by (simp_all add: InstObject_last_def)
    obtain t where t: "SetOfMonads_add_range SetOfMonads_empty (io_first v) l = Inr t" "som_wf t" "som_set t = {io_first v..l}"
      using add_range_returns[OF som_wf_empty l] by (auto simp: returns_iff)
    have "t = solid (io_first v) l" using sm.set_inj[OF t(2) solid_ok(2)[OF l]] t(3) solid_ok(4)[OF l] by (simp add: som_set_def)
    then show ?thesis using t(1) union_is_mlast by (simp add: InstObject_getMonads_def object_monads_def)
  qed (simp add: InstObject_getMonads_def object_monads_def)
  show "som_wf (object_monads v)" "monad_ms (object_monads v) \<noteq> []"
    "som_set (object_monads v) = object_set v" "m_first (object_monads v) = io_first v" "m_last (object_monads v) = InstObject_last v"
  proof -
    have "som_wf (object_monads v) \<and> monad_ms (object_monads v) \<noteq> [] \<and>
      som_set (object_monads v) = object_set v \<and> m_first (object_monads v) = io_first v \<and> m_last (object_monads v) = InstObject_last v"
    proof (cases "io_u v")
      case (union_is_mlast l)
      then have "0 \<le> io_first v" "io_first v \<le> l" "l \<le> MAX_MONAD" using r by (simp_all add: InstObject_last_def)
      then show ?thesis using solid_ok union_is_mlast by (simp add: object_monads_def object_set_def InstObject_last_def)
    next
      case (union_is_pMonads t)
      then show ?thesis using assms by (simp add: object_monads_def InstObject_ok_def object_set_def InstObject_last_def)
    qed
    then show "som_wf (object_monads v)" "monad_ms (object_monads v) \<noteq> []"
      "som_set (object_monads v) = object_set v" "m_first (object_monads v) = io_first v" "m_last (object_monads v) = InstObject_last v"
      by auto
  qed
qed

lemma MonadSetRelationClause_exec_related:
  assumes "InstObject_ok v" "som_wf U" "som_wf Su"
  shows "MonadSetRelationClause_exec c (object_monads v) U Su = Inr (related c v U Su)"
proof -
  note o = object_monads_ok[OF assms(1)]
  define T where "T = (case msrc_universe_or_substrate c of kMSNSubstrate \<Rightarrow> Su | kMSNUniverse \<Rightarrow> U)"
  have T: "som_wf T" "(case msrc_universe_or_substrate c of kMSNUniverse \<Rightarrow> U | kMSNSubstrate \<Rightarrow> Su) = T"
    using assms by (auto simp: T_def split: eUniverseOrSubstrate.splits)
  show ?thesis
    using part_of_nonempty[OF o(2,3) T(1)] overlap_correct[OF o(2) T(1)] isMemberOf_value[OF T(1)] o
    by (simp add: MonadSetRelationClause_exec_def related_def Let_def T_def[symmetric] T(2) SetOfMonads_starts_in_def
        split: eMonadSetRelationOperation.splits)
qed

section \<open>Inner blocks\<close>

definition blocks_run :: "MQLExecEnv \<Rightarrow> tyenv \<Rightarrow> blocks_runner \<Rightarrow> blocks_sem \<Rightarrow> bool" where
  "blocks_run e0 \<Gamma> r f \<longleftrightarrow> (\<forall>e U Su mr b. ctx e0 \<Gamma> e \<longrightarrow> extent_ok e U Su \<longrightarrow> limit_ok mr \<longrightarrow> (b \<longrightarrow> ee_pCallback e = None) \<longrightarrow>
     yields \<Gamma> e (\<lambda>ee. r ee U Su b mr) (Sheaf (f e U Su mr)) \<and> sheaf_wf (Sheaf (f e U Su mr)))"

lemma blocks_runD:
  "blocks_run e0 \<Gamma> r f \<Longrightarrow> ctx e0 \<Gamma> e \<Longrightarrow> extent_ok e U Su \<Longrightarrow> limit_ok mr \<Longrightarrow> (b \<longrightarrow> ee_pCallback e = None) \<Longrightarrow>
   yields \<Gamma> e (\<lambda>ee. r ee U Su b mr) (Sheaf (f e U Su mr)) \<and> sheaf_wf (Sheaf (f e U Su mr))"
  by (simp add: blocks_run_def)

lemma limit_ok_MAX [simp]: "limit_ok MAX_MONAD"
  by (simp add: limit_ok_def)

lemma opt_blocks_ok:
  assumes "rel_option (blocks_run e0 \<Gamma>) r f" "ctx e0 \<Gamma> e" "extent_ok e U Su"
  obtains y where "yields \<Gamma> e (\<lambda>ee. R_opt_blocks r ee U Su) y" "inner_failed y \<longleftrightarrow> inner_sem f e U Su = None"
    "inner_sem f e U Su = None \<or> inner_sem f e U Su = Some y" "pred_option sheaf_wf y"
proof (cases r)
  case None
  then have "f = None" using assms(1) by simp
  then show thesis using that[of None] None
    by (simp add: R_opt_blocks_def yields_return inner_failed_def inner_sem_def)
next
  case (Some r')
  then obtain f' where f': "f = Some f'" "blocks_run e0 \<Gamma> r' f'" using assms(1) by (cases f) auto
  let ?y = "Sheaf (f' e U Su MAX_MONAD)"
  have y: "yields \<Gamma> e (\<lambda>ee. r' ee U Su False MAX_MONAD) ?y" "sheaf_wf ?y"
    using blocks_runD[OF f'(2) assms(2,3) limit_ok_MAX, of False] by simp_all
  have "yields \<Gamma> e (\<lambda>ee. R_opt_blocks r ee U Su) (Some ?y)"
    unfolding R_opt_blocks_def Some option.case by (rule yields_bind[OF y(1)]) (rule yields_return)
  then show thesis using that[of "Some ?y"] y(2) f'(1)
    by (cases "f' e U Su MAX_MONAD") (simp_all add: inner_failed_def Sheaf_isFail_def inner_sem_def)
qed

section \<open>Gaps\<close>

lemma gap_at_iff:
  assumes "som_wf Su"
  obtains (found) l where "gap_at Su Sm = Some l" "SetOfMonads_gapExists Su Sm 0 = Inr (True, l)" "gap_of (som_set Su) Sm l"
  | (none) "gap_at Su Sm = None" "SetOfMonads_gapExists Su Sm 0 = Inr (False, 0)"
  using gapExists_correct[OF assms, of Sm 0] that by (auto simp: gap_at_def returns_iff split: if_splits)

lemma gap_extent:
  assumes "monads_ok e Su" "gap_of (som_set Su) Sm l"
  shows "extent_ok e (solid Sm l) (solid Sm l)" "0 \<le> Sm" "Sm \<le> l" "l \<le> MAX_MONAD"
proof -
  have w: "som_wf Su" "monad_ms Su \<noteq> []" "1 \<le> m_first Su" "m_first (ee_all_m_1 e) \<le> m_first Su" "m_last Su \<le> m_last (ee_all_m_1 e)"
    using assms(1) by (auto simp: monads_ok_def)
  note b = som_wf_bounds[OF w(1,2)]
  have i: "Sm - 1 \<in> som_set Su" "l + 1 \<in> som_set Su" "Sm \<le> l" using assms(2) by (auto simp: gap_of_def)
  then have "m_first Su \<le> Sm - 1" "l + 1 \<le> m_last Su" "Sm \<le> l" using b(1,2) Min_le[OF b(7) i(1)] Max_ge[OF b(7) i(2)] by simp_all
  then have r: "0 \<le> Sm" "Sm \<le> l" "l \<le> MAX_MONAD" "m_first Su < Sm" "l < m_last Su" using w(3) b(5) by auto
  then show "0 \<le> Sm" "Sm \<le> l" "l \<le> MAX_MONAD" by auto
  show "extent_ok e (solid Sm l) (solid Sm l)"
    using solid_ok[OF r(1-3)] w r by (auto simp: extent_ok_def monads_ok_def)
qed

lemma solid_one [simp]: "SetOfMonads_hasOnlyOneMSE (solid f l)"
  by (simp add: SetOfMonads_hasOnlyOneMSE_def solid_def)

lemma gap_object_ok:
  assumes "0 \<le> f" "f \<le> l" "l \<le> MAX_MONAD" "p \<noteq> None" "pred_option sheaf_wf s"
  shows "straw_ok (straw_of [MatchedObject_id_m (solid f l) p r q s])"
proof (rule straw_of_single)
  have d: "MatchedObject_id_m (solid f l) p r q s = MatchedObject l (U_first f) (if q then -4 else if r then -3 else -2) p (V_vec None) s"
    by (simp add: MatchedObject_id_m_def pack_monads_def) (simp add: solid_def)
  show "mo_wf (MatchedObject_id_m (solid f l) p r q s)"
    unfolding d using assms by (cases s) (simp_all add: fields_ok_def)
  show "mo_getLast (MatchedObject_id_m (solid f l) p r q s) \<le> MAX_MONAD" using assms by (simp add: d mo_getLast_def)
qed

lemma one_straw_Some [simp]: "one_straw (Some mo) = [straw_of [mo]]" "one_straw None = []"
  by (simp_all add: one_straw_def LOS_append_def straw_single)

lemma gap_runs:
  assumes "rel_option (blocks_run e0 \<Gamma>) r f" "gb_pOBB g \<noteq> None" "ctx e0 \<Gamma> e" "extent_ok e U Su" "monad_ok Sm"
    and k: "k = (if b then kMOKEMPTY_mo else kMOKNIL_mo)"
  shows "yields \<Gamma> e (\<lambda>ee. bind_res (R_gap g r k ee Su Sm) (\<lambda>(pMO, ee1). Inr (one_straw pMO, ee1))) (sem_gap b g f e Su Sm) \<and>
    straws_ok (sem_gap b g f e Su Sm)"
proof -
  note x = extent_okD[OF assms(4)]
  have w: "monads_ok e Su" using assms(4) by (simp add: extent_ok_def)
  consider (found) l where "gap_at Su Sm = Some l" "SetOfMonads_gapExists Su Sm 0 = Inr (True, l)" "gap_of (som_set Su) Sm l"
    | (none) "gap_at Su Sm = None" "SetOfMonads_gapExists Su Sm 0 = Inr (False, 0)"
    by (rule gap_at_iff[OF x(3), of Sm])
  then show ?thesis
  proof cases
    case (found l)
    note ge = gap_extent[OF w found(3)]
    obtain y where y: "yields \<Gamma> e (\<lambda>ee. R_opt_blocks r ee (solid Sm l) (solid Sm l)) y"
      "inner_failed y \<longleftrightarrow> inner_sem f e (solid Sm l) (solid Sm l) = None"
      "inner_sem f e (solid Sm l) (solid Sm l) = None \<or> inner_sem f e (solid Sm l) (solid Sm l) = Some y" "pred_option sheaf_wf y"
      using opt_blocks_ok[OF assms(1,3) ge(1)] by blast
    let ?mo = "MatchedObject_id_m (solid Sm l) (gb_pOBB g) (gb_retrieval g \<noteq> kNoRetrieve) (gb_retrieval g = kRetrieveFocus) y"
    have r: "(\<not> R_retrieval_gap_retrieval (gb_retrieval g)) = (gb_retrieval g \<noteq> kNoRetrieve)"
      by (cases "gb_retrieval g") (simp_all add: R_retrieval_gap_retrieval_def)
    have code: "R_gap g r k ee Su Sm = bind_res (R_opt_blocks r ee (solid Sm l) (solid Sm l)) (\<lambda>(pInner, ee1).
        if inner_failed pInner then Inr (None, ee1)
        else Inr (Some (MatchedObject_id_m (solid Sm l) (gb_pOBB g) (gb_retrieval g \<noteq> kNoRetrieve) (gb_retrieval g = kRetrieveFocus) pInner), ee1))" for ee
      unfolding R_gap_def Let_def r by (simp add: found(2) solid_ok(1)[OF ge(2-4)])
    have yg: "yields \<Gamma> e (\<lambda>ee. R_gap g r k ee Su Sm) (if inner_failed y then None else Some ?mo)"
      unfolding code by (rule yields_bind[OF y(1)]) (simp add: yields_return)
    have "yields \<Gamma> e (\<lambda>ee. bind_res (R_gap g r k ee Su Sm) (\<lambda>(pMO, ee1). Inr (one_straw pMO, ee1)))
       (one_straw (if inner_failed y then None else Some ?mo))"
      by (rule yields_bind[OF yg]) (rule yields_return)
    moreover have "sem_gap b g f e Su Sm = one_straw (if inner_failed y then None else Some ?mo)"
      using y(2,3) found(1) by (elim disjE) (simp_all add: sem_gap_def)
    ultimately show ?thesis using gap_object_ok[OF ge(2-4) assms(2) y(4)] by (simp del: one_straw_Some) simp
  next
    case none
    have "yields \<Gamma> e (\<lambda>ee. bind_res (R_gap g r k ee Su Sm) (\<lambda>(pMO, ee1). Inr (one_straw pMO, ee1))) (if b then [nothing Sm] else [])"
      using none(2) k by (simp add: R_gap_def yields_return nothing_def)
    then show ?thesis using none(1) nothing_ok[OF assms(5)] by (simp add: sem_gap_def)
  qed
qed

section \<open>Objects\<close>

lemma retrieve_loop_ok:
  "io_features v = Some arr \<Longrightarrow> k + n \<le> length arr \<Longrightarrow> retrieve_loop v k n = Inr (map Some (take n (drop k arr)))"
proof (induction n arbitrary: k)
  case (Suc n)
  then have "drop k arr = arr ! k # drop (k + 1) arr" using Cons_nth_drop_Suc[of k arr] by simp
  then show ?case using Suc by (simp add: InstObject_getFeature_def)
qed simp

lemma object_features:
  assumes "object_ok e ks v"
  obtains arr where "io_features v = Some arr" "length ks \<le> length arr" "\<forall>i<length ks. kind_of (arr ! i) = ks ! i \<and> value_wf (arr ! i)"
proof -
  have "\<exists>arr. io_features v = Some arr \<and> length ks \<le> length arr \<and> (\<forall>i<length ks. kind_of (arr ! i) = ks ! i \<and> value_wf (arr ! i))"
    using assms by (simp add: object_ok_def)
  then show thesis using that by (elim exE conjE)
qed

lemma monads_ok_cong: "ee_all_m_1 e = ee_all_m_1 e' \<Longrightarrow> monads_ok e s = monads_ok e' s"
  by (simp add: monads_ok_def)

lemma retrieveFeatureValues_bind:
  assumes "object_ok e ks v" "length (ee_MQLObject ee nn) = length ks"
  shows "retrieveFeatureValues ee nn v = Inr (bind_object ee nn v)"
proof -
  obtain arr where "io_features v = Some arr" "length ks \<le> length arr" by (rule object_features[OF assms(1)])
  then show ?thesis using retrieve_loop_ok[of v arr 0 "length ks"] assms(2)
    by (simp add: retrieveFeatureValues_def bind_object_def)
qed

lemma agree_bind:
  assumes "agree \<Gamma> ee e" "\<Gamma> nn = None" "object_ok e' ks v" "length (ee_MQLObject e nn) = length ks"
  shows "agree (\<Gamma>(nn \<mapsto> ks)) (bind_object ee nn v) (bind_object e nn v)"
proof -
  obtain mo oru where ee: "ee = e\<lparr>ee_MQLObject := mo, ee_ORUStraw := oru\<rparr>" using assms(1) by (auto simp: agree_def)
  have "mo n = ee_MQLObject e n" if "n \<in> dom \<Gamma>" for n using agree_fields(8)[OF assms(1) that] by (simp add: ee)
  moreover have "length (mo n) = length (ee_MQLObject e n)" for n using agree_fields(9)[OF assms(1), of n] by (simp add: ee)
  ultimately show ?thesis using assms(2) by (auto simp: agree_def bind_object_def ee)
qed

lemma agree_unbind:
  assumes "agree (\<Gamma>(nn \<mapsto> ks)) ee (bind_object e nn v)" "\<Gamma> nn = None" "object_ok e' ks v" "length (ee_MQLObject e nn) = length ks"
  shows "agree \<Gamma> ee e"
proof -
  obtain arr where arr: "io_features v = Some arr" "length ks \<le> length arr" by (rule object_features[OF assms(3)])
  obtain mo oru where ee: "ee = (bind_object e nn v)\<lparr>ee_MQLObject := mo, ee_ORUStraw := oru\<rparr>" using assms(1) by (auto simp: agree_def)
  have "mo n = ee_MQLObject e n" if "n \<in> dom \<Gamma>" for n
    using agree_fields(8)[OF assms(1), of n] that assms(2) by (auto simp: ee bind_object_def)
  moreover have "length (mo n) = length (ee_MQLObject e n)" for n
    using agree_fields(9)[OF assms(1), of n] arr assms(4) by (auto simp: ee bind_object_def split: if_splits)
  ultimately show ?thesis by (auto simp: agree_def ee bind_object_def)
qed

lemma ctx_bind:
  assumes "ctx e0 \<Gamma> e" "object_ok e0 ks v" "length (ee_MQLObject e0 nn) = length ks"
  shows "ctx e0 (\<Gamma>(nn \<mapsto> ks)) (bind_object e nn v)"
proof -
  obtain arr where arr: "io_features v = Some arr" "length ks \<le> length arr"
    "\<forall>i<length ks. kind_of (arr ! i) = ks ! i \<and> value_wf (arr ! i)" by (rule object_features[OF assms(2)])
  have "length (ee_MQLObject e nn) = length ks" using assms(1,3) by (simp add: ctx_def)
  moreover from this have "list_all2 has_kind (map Some (take (length (ee_MQLObject e nn)) arr)) ks"
    using arr by (simp add: list_all2_conv_all_nth has_kind_def)
  ultimately show ?thesis using assms(1) arr(1,2)
    by (auto simp: ctx_def bind_object_def env_typed_def)
qed

lemma add_features_copy:
  assumes "\<And>f. f \<in> set fs \<Longrightarrow> getFeatureValue ee nn (ft_feature_index_inst f) = Inr (Some (g f))"
    "map ft_list_index fs = [i..<i + length fs]"
  shows "foldM_res (\<lambda>mo f. bind_res (getFeatureValue ee nn (ft_feature_index_inst f)) (\<lambda>p.
         case p of None \<Rightarrow> Inl EmdrosException | Some v \<Rightarrow> addEMdFValue mo (ft_list_index f) (Some v))) mo fs =
       copy_values mo i (map (\<lambda>f. Some (g f)) fs)"
  using assms
proof (induction fs arbitrary: i mo)
  case (Cons f fs)
  have "ft_list_index f = i" "map ft_list_index fs = [i + 1..<(i + 1) + length fs]"
    using Cons.prems(2) upt_rec[of i "i + length (f # fs)"] by (auto simp del: upt_Suc)
  then show ?case using Cons.prems(1)[of f] Cons.IH[of "i + 1"] Cons.prems(1) by simp
qed simp

lemma add_features_ok:
  assumes "retrieval_ok ks ob" "list_all2 has_kind (ee_MQLObject ee (ob_nn ob)) ks" "0 \<le> d"
  shows "add_features ob ee (MatchedObject_id_d d s sheaf (ob_pOBB ob)) =
     Inr (mo_set_values (MatchedObject_id_d d s sheaf (ob_pOBB ob)) (retrieved_values ob ee))"
proof -
  let ?fs = "ob_Feature_retrieval_vec ob" and ?tab = "ee_MQLObject ee (ob_nn ob)"
  let ?g = "\<lambda>f. the (?tab ! nat (ft_feature_index_inst f))"
  obtain b where b: "ob_pOBB ob = Some b" "length (obb_Feature_retrieval_vec b) = length ?fs"
    using assms(1) by (auto simp: retrieval_ok_def)
  have g: "getFeatureValue ee (ob_nn ob) (ft_feature_index_inst f) = Inr (Some (?g f))" "?tab ! nat (ft_feature_index_inst f) = Some (?g f)"
    if "f \<in> set ?fs" for f
  proof -
    have "0 \<le> ft_feature_index_inst f" "nat (ft_feature_index_inst f) < length ks" using assms(1) that by (auto simp: retrieval_ok_def)
    moreover have "length ?tab = length ks" "\<forall>i<length ks. \<exists>v. ?tab ! i = Some v"
      using assms(2) by (auto simp: list_all2_conv_all_nth has_kind_def)
    ultimately show "getFeatureValue ee (ob_nn ob) (ft_feature_index_inst f) = Inr (Some (?g f))" "?tab ! nat (ft_feature_index_inst f) = Some (?g f)"
      by (auto simp: getFeatureValue_def)
  qed
  obtain l u where m: "MatchedObject_id_d d s sheaf (ob_pOBB ob) = MatchedObject l u d (Some b) (V_vec None) sheaf"
    by (cases "pack_monads s") (simp add: MatchedObject_id_d_def b(1))
  have i: "map ft_list_index ?fs = [0..<0 + length ?fs]" using assms(1) by (simp add: retrieval_ok_def)
  have "add_features ob ee (MatchedObject_id_d d s sheaf (ob_pOBB ob)) =
      copy_values (MatchedObject l u d (Some b) (V_vec None) sheaf) 0 (map (\<lambda>f. Some (?g f)) ?fs)"
    unfolding add_features_def m ob_nn_def[symmetric] by (rule add_features_copy[OF g(1) i])
  also have "\<dots> = Inr (MatchedObject l u d (Some b) (if map (\<lambda>f. Some (?g f)) ?fs = [] then V_vec None else V_vec (Some ([] @ map (\<lambda>f. Some (?g f)) ?fs))) sheaf)"
    by (rule copy_values_ok) (use assms(3) b(2) in auto)
  also have "map (\<lambda>f. Some (?g f)) ?fs = map (\<lambda>f. ?tab ! nat (ft_feature_index_inst f)) ?fs" using g(2) by simp
  finally show ?thesis by (simp add: m retrieved_values_def mo_set_values_def)
qed

lemma matched_ok:
  assumes "retrieval_ok ks ob" "list_all2 has_kind (ee_MQLObject ee (ob_nn ob)) ks" "object_ok e ks v" "pred_option sheaf_wf sheaf"
  shows "straw_ok (straw_of [matched ob ee v sheaf])"
proof -
  let ?fs = "ob_Feature_retrieval_vec ob" and ?tab = "ee_MQLObject ee (ob_nn ob)"
  have v: "InstObject_ok v" "0 \<le> io_id_d v" "monads_ok e (object_monads v)" using assms(3) by (auto simp: object_ok_def)
  note o = object_monads_ok[OF v(1)] and r = InstObject_ok_range[OF v(1)]
  have f1: "1 \<le> io_first v" using v(3) o(5) by (simp add: monads_ok_def)
  obtain b where b: "ob_pOBB ob = Some b" "length (obb_Feature_retrieval_vec b) = length ?fs"
    using assms(1) by (auto simp: retrieval_ok_def)
  have tab: "\<forall>i<length ks. ?tab ! i \<noteq> None" using assms(2) by (auto simp: list_all2_conv_all_nth has_kind_def)
  have "?tab ! nat (ft_feature_index_inst f) \<noteq> None" if "f \<in> set ?fs" for f
    using assms(1) that tab unfolding retrieval_ok_def by blast
  then have nn: "None \<notin> set (map (\<lambda>f. ?tab ! nat (ft_feature_index_inst f)) ?fs)" by (metis (no_types, lifting) imageE list.set_map)
  obtain l u where lu: "pack_monads (object_monads v) = (l, u)" by fastforce
  then have m: "matched ob ee v sheaf = MatchedObject l u (io_id_d v) (Some b) (retrieved_values ob ee) sheaf"
    by (simp add: matched_def MatchedObject_id_d_def mo_set_values_def b(1))
  have l: "l = InstObject_last v \<and> u = U_first (io_first v) \<or> l = - InstObject_last v \<and> u = U_pMonad_ms (object_monads v)"
    using lu o by (auto simp: pack_monads_def split: if_splits)
  then have "fields_ok l u (io_id_d v) (Some b) (retrieved_values ob ee)"
    using f1 r(1-3) o v(2) nn b(2) by (auto simp: fields_ok_def retrieved_values_def)
  then have "mo_wf (matched ob ee v sheaf)" unfolding m using assms(4) by (cases sheaf) simp_all
  moreover have "mo_getLast (matched ob ee v sheaf) \<le> MAX_MONAD" using l f1 r by (auto simp: m mo_getLast_def)
  ultimately show ?thesis by (rule straw_of_single)
qed

lemma R_features_ok:
  assumes "constraint_ok \<Gamma> nn c" "env_typed \<Gamma> e" "agree \<Gamma> ee e"
  shows "R_features ee nn c = Inr (constraint_sat c e nn)"
proof (cases c)
  case (Some ffc)
  have a: "\<forall>n\<in>dom \<Gamma>. ee_MQLObject ee n = ee_MQLObject e n" "ee_pcre_exec ee = ee_pcre_exec e"
    using agree_fields[OF assms(3)] by auto
  have t: "env_typed \<Gamma> ee" using assms(2) a(1) by (auto simp: env_typed_def domI)
  have "ff_typed (ffc_ffeatures ffc) \<Gamma> nn" "\<not> ffc_hasNonParentORUs ffc" using assms(1) Some by (auto simp: constraint_ok_def)
  then show ?thesis using R_ffeatures_sat(1)[OF t] ff_sat_cong(1)[OF a] Some by (simp add: R_features_def constraint_sat_def)
qed (simp add: R_features_def constraint_sat_def)

definition block_ok :: "schema \<Rightarrow> MQLExecEnv \<Rightarrow> tyenv \<Rightarrow> ObjectBlockInfo \<Rightarrow> blocks_runner option \<Rightarrow> blocks_sem option \<Rightarrow> bool" where
  "block_ok K e0 \<Gamma> ob r f \<longleftrightarrow> ob_ok K e0 \<Gamma> ob \<and> rel_option (blocks_run e0 (\<Gamma>(ob_nn ob \<mapsto> K (ob_nn ob)))) r f"

lemma match_object_ok:
  assumes ob: "block_ok K e0 \<Gamma> ob r f" and c: "ctx e0 \<Gamma> e" and wf: "som_wf U" "som_wf Su"
    and v: "object_ok e0 (K (ob_nn ob)) v"
  shows "yields \<Gamma> e (\<lambda>ee. match_object ob r U Su ee v acc) (acc @ sem_match ob f e U Su v)"
    "straws_ok (sem_match ob f e U Su v)"
proof -
  define nn ks e1 where d: "nn = ob_nn ob" "ks = K nn" "e1 = bind_object e nn v"
  let ?G = "\<Gamma>(nn \<mapsto> ks)"
  have inner: "rel_option (blocks_run e0 ?G) r f" using ob by (simp add: block_ok_def d)
  have o: "\<Gamma> nn = None" "length (ee_MQLObject e0 nn) = length ks" "constraint_ok ?G nn (ob_feature_constraints ob)" "retrieval_ok ks ob"
    using ob by (simp_all add: block_ok_def ob_ok_def Let_def d)
  have len: "length (ee_MQLObject e nn) = length ks" using c o(2) by (simp add: ctx_def)
  have v': "object_ok e0 ks v" "InstObject_ok v" "monads_ok e0 (object_monads v)" using v by (auto simp: object_ok_def d)
  note m = object_monads_ok[OF v'(2)] and range = InstObject_ok_range[OF v'(2)]
  have c1: "ctx e0 ?G e1" unfolding d(3) by (rule ctx_bind[OF c v'(1) o(2)])
  then have typed: "env_typed ?G e1" by (simp add: ctx_def)
  have tab: "list_all2 has_kind (ee_MQLObject ee nn) ks" if "agree ?G ee e1" for ee
    using typed agree_fields(8)[OF that, of nn] by (simp add: env_typed_def)
  have ext: "extent_ok e1 (solid (io_first v) (InstObject_last v)) (object_monads v)"
    using v'(3) m range solid_ok[OF range(1-3)] c1 by (simp add: extent_ok_def monads_ok_def ctx_def)
  obtain y where y: "yields ?G e1 (\<lambda>ee. R_opt_blocks r ee (solid (io_first v) (InstObject_last v)) (object_monads v)) y"
      "inner_failed y \<longleftrightarrow> inner_sem f e1 (solid (io_first v) (InstObject_last v)) (object_monads v) = None"
      "inner_sem f e1 (solid (io_first v) (InstObject_last v)) (object_monads v) = None \<or>
       inner_sem f e1 (solid (io_first v) (InstObject_last v)) (object_monads v) = Some y" "pred_option sheaf_wf y"
    by (rule opt_blocks_ok[OF inner c1 ext])
  have inn: "(case r of None \<Rightarrow> Inr (None, ee) | Some _ \<Rightarrow> bind_res (SetOfMonads_range (io_first v) (InstObject_last v))
      (\<lambda>Uping. R_opt_blocks r ee Uping (object_monads v))) = R_opt_blocks r ee (solid (io_first v) (InstObject_last v)) (object_monads v)" for ee
    by (cases r) (simp_all add: R_opt_blocks_def solid_ok(1)[OF range(1-3)])
  let ?pre = "first_last_ok (ob_first_last ob) v Su \<and> related (ob_MSRC ob) v U Su"
  have sem: "sem_match ob f e U Su v = (if ?pre \<and> constraint_sat (ob_feature_constraints ob) e1 nn \<and> \<not> inner_failed y
      then [straw_of [matched ob e1 v y]] else [])"
    using y(2,3) by (elim disjE) (simp_all add: sem_match_def Let_def d)
  have tab1: "list_all2 has_kind (ee_MQLObject e1 (ob_nn ob)) ks" using tab[OF agree_refl] by (simp add: d(1))
  show "straws_ok (sem_match ob f e U Su v)"
    using matched_ok[OF o(4) tab1 v'(1) y(4)] by (simp add: sem)
  show "yields \<Gamma> e (\<lambda>ee. match_object ob r U Su ee v acc) (acc @ sem_match ob f e U Su v)"
    unfolding yields_def
  proof (intro allI impI)
    fix ee assume a: "agree \<Gamma> ee e"
    have len': "length (ee_MQLObject ee nn) = length ks" using agree_fields(9)[OF a, of nn] len by simp
    define ee1 where "ee1 = bind_object ee nn v"
    have a1: "agree ?G ee1 e1" unfolding ee1_def d(3) by (rule agree_bind[OF a o(1) v'(1) len])
    have ret: "retrieveFeatureValues ee nn v = Inr ee1" unfolding ee1_def by (rule retrieveFeatureValues_bind[OF v'(1) len'])
    have unb: "agree \<Gamma> ee2 e" if "agree ?G ee2 e1" for ee2
      using agree_unbind[OF that[unfolded d(3)] o(1) v'(1) len] .
    have cond: "R_features ee1 nn (ob_feature_constraints ob) = Inr (constraint_sat (ob_feature_constraints ob) e1 nn)"
      by (rule R_features_ok[OF o(3) typed a1])
    show "returns (match_object ob r U Su ee v acc) (\<lambda>(z, ee1). z = acc @ sem_match ob f e U Su v \<and> agree \<Gamma> ee1 e)"
    proof (cases "?pre \<and> constraint_sat (ob_feature_constraints ob) e1 nn")
      case False
      then show ?thesis
        using m(1) MonadSetRelationClause_exec_related[OF v'(2) wf] ret cond a unb[OF a1]
        by (auto simp: match_object_def sem d(1) ob_nn_def)
    next
      case True
      obtain ee2 where e2: "R_opt_blocks r ee1 (solid (io_first v) (InstObject_last v)) (object_monads v) = Inr (y, ee2)" "agree ?G ee2 e1"
        using yields_returns[OF y(1) a1] by blast
      obtain p where p: "ob_pOBB ob = Some p" using o(4) by (auto simp: retrieval_ok_def)
      have id0: "0 \<le> io_id_d v" using v'(1) by (simp add: object_ok_def)
      have add: "add_features ob ee2 (MatchedObject_id_d (io_id_d v) (object_monads v) y (Some p)) = Inr (matched ob ee2 v y)"
        using add_features_ok[OF o(4) tab[OF e2(2), unfolded d(1)] id0, of "object_monads v" y] p by (simp add: matched_def)
      have mt: "matched ob ee2 v y = matched ob e1 v y"
        using agree_fields(8)[OF e2(2), of nn] by (simp add: matched_def retrieved_values_def d(1))
      show ?thesis
        using m(1) MonadSetRelationClause_exec_related[OF v'(2) wf] ret cond True unb[OF e2(2)] e2(1) p add mt
        by (simp add: match_object_def inn sem ob_nn_def[symmetric] d(1)[symmetric] straw_single LOS_append_def)
    qed
  qed
qed

section \<open>The objects at a monad\<close>

lemma walk_objects_ok: "sit_at l i us \<Longrightarrow> length us < n \<Longrightarrow> walk_objects n l i = us"
proof (induction us arbitrary: i n)
  case Nil
  then show ?case using sit_at_hasNext[OF Nil.prems(1)] by (cases n) auto
next
  case (Cons u us)
  then obtain k where n: "n = Suc k" by (cases n) auto
  obtain j where "sit_next l i = Inr (u, j)" "sit_at l j us" using sit_at_next[OF Cons.prems(1)] by blast
  then show ?case using Cons.IH[of j k] Cons.prems sit_at_hasNext[OF Cons.prems(1)] by (simp add: n)
qed

lemma inst_objects_ok:
  assumes "sl_abs (ic_sl (in_contents i)) vs"
  shows "inst_objects i = vs"
proof -
  obtain a where a: "SkipList_begin (ic_sl (in_contents i)) = Inr a" "sit_at (ic_sl (in_contents i)) a vs"
    using sit_at_begin[OF assms] by (auto simp: returns_iff)
  then show ?thesis using walk_objects_ok[OF a(2)] sit_at_fuel[OF a(2)] by (simp add: inst_objects_def Let_def)
qed

lemma ob_okD:
  assumes "ob_ok K e0 \<Gamma> ob"
  obtains i where "ob_inst ob = Some i" "ic_abs (in_contents i) (ob_objects ob)" "sl_abs (ic_sl (in_contents i)) (ob_objects ob)"
    "\<forall>v\<in>set (ob_objects ob). object_ok e0 (K (ob_nn ob)) v"
proof -
  obtain i vs where i: "ob_inst ob = Some i" "ic_abs (in_contents i) vs" "\<forall>v\<in>set vs. object_ok e0 (K (ob_nn ob)) v"
    using assms by (auto simp: ob_ok_def Let_def inst_ok_def)
  have "sl_abs (ic_sl (in_contents i)) vs" using i(2) by (simp add: ic_abs_def)
  then have "ob_objects ob = vs" using inst_objects_ok i(1) by (simp add: ob_objects_def)
  then show thesis using that[OF i(1)] i(2,3) by (simp add: ic_abs_def)
qed

lemma object_loop_ok:
  assumes "sit_at l ci us" "length us < n"
    and F: "\<And>v acc. v \<in> set (takeWhile (\<lambda>v. io_first v = Sm) us) \<Longrightarrow> yields \<Gamma> e (\<lambda>ee. F ee v acc) (acc @ h v)"
  shows "yields \<Gamma> e (\<lambda>ee. object_loop n F l Sm ci ee acc) (acc @ concat (map h (takeWhile (\<lambda>v. io_first v = Sm) us)))"
  using assms
proof (induction us arbitrary: n ci acc)
  case Nil
  then show ?case using sit_at_hasNext[OF Nil.prems(1)] by (cases n) (auto simp: yields_return)
next
  case (Cons u us)
  then obtain k where n: "n = Suc k" by (cases n) auto
  obtain j where j: "sit_next l ci = Inr (u, j)" "sit_at l j us" using sit_at_next[OF Cons.prems(1)] by blast
  show ?case
  proof (cases "io_first u = Sm")
    case True
    have "yields \<Gamma> e (\<lambda>ee. bind_res (F ee u acc) (\<lambda>(los, ee1). object_loop k F l Sm j ee1 los))
       ((acc @ h u) @ concat (map h (takeWhile (\<lambda>v. io_first v = Sm) us)))"
    proof (rule yields_bind[OF Cons.prems(3)])
      show "yields \<Gamma> e (\<lambda>ee. object_loop k F l Sm j ee (acc @ h u)) ((acc @ h u) @ concat (map h (takeWhile (\<lambda>v. io_first v = Sm) us)))"
        by (rule Cons.IH[OF j(2)]) (use Cons.prems(2,3) n True in auto)
    qed (simp add: True)
    then show ?thesis using True j(1) sit_at_hasNext[OF Cons.prems(1)] by (simp add: n)
  next
    case False
    then show ?thesis using j(1) sit_at_hasNext[OF Cons.prems(1)] by (simp add: n yields_return)
  qed
qed

lemma R_object_block_ok:
  assumes ob: "block_ok K e0 \<Gamma> ob r f" and c: "ctx e0 \<Gamma> e" and wf: "som_wf U" "som_wf Su" and Sm: "monad_ok Sm"
  shows "yields \<Gamma> e (\<lambda>ee. R_object_block ob r ee U Su Sm acc) (acc @ sem_object ob f e U Su Sm)"
    "straws_ok (sem_object ob f e U Su Sm)"
proof -
  have okob: "ob_ok K e0 \<Gamma> ob" using ob by (simp add: block_ok_def)
  obtain i where i: "ob_inst ob = Some i" "ic_abs (in_contents i) (ob_objects ob)" "sl_abs (ic_sl (in_contents i)) (ob_objects ob)"
    "\<forall>v\<in>set (ob_objects ob). object_ok e0 (K (ob_nn ob)) v" by (rule ob_okD[OF okob])
  let ?l = "ic_sl (in_contents i)"
  have "Sm < 0x7fffffff" using Sm by (simp add: monad_ok_def MAX_MONAD_def)
  then obtain ci us where ci: "InstContents_objectsAtSm (in_contents i) Sm = Inr ci" "sit_at ?l ci us"
    "takeWhile (\<lambda>v. io_first v = Sm) us = filter (\<lambda>v. io_first v = Sm) (ob_objects ob)"
    using objectsAtSm_ok[OF i(2), of Sm] by (auto simp: returns_iff)
  have mo: "yields \<Gamma> e (\<lambda>ee. match_object ob r U Su ee v acc) (acc @ sem_match ob f e U Su v)" "straws_ok (sem_match ob f e U Su v)"
    if "v \<in> set (ob_objects ob)" for v acc using match_object_ok[OF ob c wf] i(4) that by blast+
  have "yields \<Gamma> e (\<lambda>ee. object_loop (sl_next ?l) (match_object ob r U Su) ?l Sm ci ee acc)
     (acc @ concat (map (sem_match ob f e U Su) (takeWhile (\<lambda>v. io_first v = Sm) us)))"
    by (rule object_loop_ok[OF ci(2)]) (use sit_at_fuel[OF ci(2)] mo(1) ci(3) in auto)
  then show "yields \<Gamma> e (\<lambda>ee. R_object_block ob r ee U Su Sm acc) (acc @ sem_object ob f e U Su Sm)"
    using ci(1,3) i(1) by (simp add: R_object_block_def deref_def sem_object_def)
  show "straws_ok (sem_object ob f e U Su Sm)" using mo(2) by (auto simp: sem_object_def)
qed

section \<open>Starting monads of object blocks\<close>

lemma hull_ok:
  assumes "som_wf t"
  shows "hull t = Inr (if monad_ms t = [] then t else solid (m_first t) (m_last t))"
  using som_wf_bounds[OF assms] solid_ok(1)[of "m_first t" "m_last t"] by (auto simp: hull_def SetOfMonads_isEmpty_def)

lemma set_cut_keys: "set (cut_keys l ks) \<subseteq> set ks"
  by (auto simp: cut_keys_def dest: set_takeWhileD split: list.splits)

lemma inst_starts_subset: "set (inst_starts vs f l Sm) \<subseteq> io_first ` set vs"
  using set_cut_keys[of l "filter (\<lambda>m. f \<le> m) (keys vs)"] by (auto simp: inst_starts_def)

lemma monads_from_below:
  assumes "som_wf s" "\<forall>x\<in>som_set s. Sm \<le> x"
  shows "monads_from s Sm = sorted_list_of_set (som_set s)"
proof -
  have "finite (som_set s)" by (simp add: som_set_def)
  then show ?thesis using assms(2) by (simp add: monads_from_def filter_id_conv)
qed

lemma bounds_inside:
  assumes "1 \<le> Sm" "som_wf Su" "monad_ms Su \<noteq> []" "1 \<le> m_first Su" "Sm \<le> m_last Su"
    "m_first (ee_all_m_1 ee) \<le> m_last Su" "m_last Su \<le> m_last (ee_all_m_1 ee)" "smi_bounds_inside ee ob Su Sm = (lower, upper)"
  shows "1 \<le> lower" "lower \<le> upper" "upper \<le> MAX_MONAD" "lower \<le> m_last Su" "m_last Su \<le> upper"
proof -
  have l: "m_last Su \<le> MAX_MONAD" "1 \<le> m_last Su" using som_wf_bounds(3,5)[OF assms(2,3)] assms(4) by auto
  show "1 \<le> lower" "lower \<le> upper" "upper \<le> MAX_MONAD" "lower \<le> m_last Su" "m_last Su \<le> upper"
    using assms l by (auto simp: smi_bounds_inside_def SetOfMonads_isEmpty_def MYMAX_def MYMIN_def split: if_splits)
qed

lemma som_set_ok:
  assumes "som_wf s" "monad_ms s \<noteq> [] \<longrightarrow> 1 \<le> m_first s" "x \<in> som_set s"
  shows "monad_ok x"
proof -
  have ne: "monad_ms s \<noteq> []" using assms(3) by (auto simp: som_set_def)
  note b = som_wf_bounds[OF assms(1) ne]
  have "m_first s \<le> x" "x \<le> m_last s" using b(1,2) Min_le[OF b(7) assms(3)] Max_ge[OF b(7) assms(3)] by simp_all
  then show ?thesis using assms(2) ne b(5) by (simp add: monad_ok_def)
qed

lemma ob_smi_ok:
  assumes ob: "ob_ok K e0 \<Gamma> ob" and a: "agree \<Gamma> ee e" and Sm: "1 \<le> Sm" and Su: "som_wf Su"
    and ne: "monad_ms Su \<noteq> [] \<longrightarrow> 1 \<le> m_first Su \<and> Sm \<le> m_last Su \<and> m_first (ee_all_m_1 e) \<le> m_last Su \<and> m_last Su \<le> m_last (ee_all_m_1 e)"
    and b: "ob_bIsNOTEXIST ob \<and> \<not> b \<or> monad_ms Su \<noteq> []"
  shows "returns (ObjectBlock_getSMI ob ee U Su Sm b) (\<lambda>i. smi_at i (snd (ob_starts ob e Su Sm b)) \<and>
      som_wf (smi_Su i) \<and> som_set (smi_Su i) = fst (ob_starts ob e Su Sm b))"
    "\<forall>m\<in>fst (ob_starts ob e Su Sm b) \<union> set (snd (ob_starts ob e Su Sm b)). monad_ok m"
proof -
  obtain lower upper where lu: "smi_bounds_inside e ob Su Sm = (lower, upper)" by fastforce
  moreover have "smi_bounds_inside ee ob Su Sm = smi_bounds_inside e ob Su Sm"
    unfolding smi_bounds_inside_def agree_fields(1)[OF a] by simp
  ultimately have lu': "smi_bounds_inside ee ob Su Sm = (lower, upper)" by simp
  define S where "S = som_set Su \<inter> {lower..upper}"
  have bnd: "1 \<le> lower" "lower \<le> upper" "upper \<le> MAX_MONAD" "lower \<le> m_last Su" "m_last Su \<le> upper" if "monad_ms Su \<noteq> []"
    using bounds_inside[OF Sm Su that _ _ _ _ lu] ne that by auto
  have noov: "msrc_operation (ob_MSRC ob) \<noteq> kMSROOverlap" using ob by (simp add: ob_ok_def Let_def)
  obtain t where t: "smi_Suping ee ob Su Sm = Inr (t, lower)" "som_wf t" "som_set t = S"
  proof (cases "monad_ms Su = []")
    case True
    then have "S = {}" "som_set Su = {}" by (simp_all add: S_def som_set_def)
    then show thesis using that[of Su] noov lu' Su True by (simp add: smi_Suping_def SetOfMonads_isEmpty_def)
  next
    case False
    note bd = bnd[OF False]
    have s: "SetOfMonads_range lower upper = Inr (solid lower upper)" "som_wf (solid lower upper)" "som_set (solid lower upper) = {lower..upper}"
      using solid_ok[of lower upper] bd by simp_all
    obtain r where "SetOfMonads_intersect Su (solid lower upper) = Inr r" "som_wf r" "som_set r = S"
      using intersect_correct[OF Su s(2)] s(3) by (auto simp: returns_iff S_def)
    then show thesis using that noov lu' s(1) False by (simp add: smi_Suping_def SetOfMonads_isEmpty_def)
  qed
  have starts: "ob_starts ob e Su Sm b =
     (if ob_bIsNOTEXIST ob then if ob_bBlockStringHasOnlyNOTEXIST ob \<and> b then ({lower}, [lower]) else (S, sorted_list_of_set S)
      else (S, inst_starts (ob_objects ob) (Min S) (Max S) lower))" by (simp add: ob_starts_def lu S_def Let_def)
  have fin: "finite S" by (simp add: S_def)
  have okS: "monad_ok x" if "x \<in> S" for x using that som_set_ok[OF Su] ne by (auto simp: S_def)
  obtain i where i: "ob_inst ob = Some i" "sl_abs (ic_sl (in_contents i)) (ob_objects ob)"
    "\<forall>v\<in>set (ob_objects ob). object_ok e0 (K (ob_nn ob)) v" by (rule ob_okD[OF ob])
  show "\<forall>m\<in>fst (ob_starts ob e Su Sm b) \<union> set (snd (ob_starts ob e Su Sm b)). monad_ok m"
  proof (cases "ob_bIsNOTEXIST ob")
    case True
    have "monad_ok lower" if b using bnd b that True by (auto simp: monad_ok_def)
    then show ?thesis using True okS fin by (simp add: starts)
  next
    case False
    have "monad_ok (io_first v)" if "v \<in> set (ob_objects ob)" for v
    proof -
      have "object_ok e0 (K (ob_nn ob)) v" using i(3) that by blast
      then have "InstObject_ok v" "1 \<le> io_first v" using object_monads_ok(5)[of v] by (auto simp: object_ok_def monads_ok_def)
      then show ?thesis using InstObject_ok_range(2,3)[of v] by (simp add: monad_ok_def)
    qed
    then have "\<forall>m\<in>set (inst_starts (ob_objects ob) (Min S) (Max S) lower). monad_ok m"
      using inst_starts_subset[of "ob_objects ob" "Min S" "Max S" lower] by blast
    then show ?thesis using False okS by (auto simp: starts)
  qed
  show "returns (ObjectBlock_getSMI ob ee U Su Sm b) (\<lambda>i. smi_at i (snd (ob_starts ob e Su Sm b)) \<and>
      som_wf (smi_Su i) \<and> som_set (smi_Su i) = fst (ob_starts ob e Su Sm b))"
  proof (cases "ob_bIsNOTEXIST ob")
    case True
    show ?thesis
    proof (cases "ob_bBlockStringHasOnlyNOTEXIST ob \<and> b")
      case only: True
      then have l: "0 \<le> lower" "lower \<le> lower" "lower \<le> MAX_MONAD" using bnd b True by auto
      obtain u where u: "SetOfMonads_add_range SetOfMonads_empty lower lower = Inr u" "som_wf u" "som_set u = {lower}"
        using add_range_returns[OF som_wf_empty l] by (auto simp: returns_iff)
      have "monads_from u lower = [lower]" using u(3) by (simp add: monads_from_def)
      moreover have "ObjectBlock_getSMI ob ee U Su Sm b = MonadSetStartMonadIterator_new u lower False"
        unfolding ObjectBlock_getSMI_def using True only t(1) hull_ok[OF t(2)] u(1) by simp
      moreover have "ob_starts ob e Su Sm b = ({lower}, [lower])" unfolding starts using True only by simp
      ultimately show ?thesis using MonadSetSMI_ok(1)[OF u(2), of lower] u(2,3)
        by simp (erule returns_mono, simp)
    next
      case False
      have "monads_from t lower = sorted_list_of_set S" using monads_from_below[OF t(2), of lower] t(3) by (simp add: S_def)
      moreover have "ObjectBlock_getSMI ob ee U Su Sm b = MonadSetStartMonadIterator_new t lower False"
        unfolding ObjectBlock_getSMI_def using True False t(1) hull_ok[OF t(2)] by auto
      moreover have "ob_starts ob e Su Sm b = (S, sorted_list_of_set S)" unfolding starts using True False by auto
      ultimately show ?thesis using MonadSetSMI_ok(1)[OF t(2), of lower] t(2,3)
        by simp (erule returns_mono, simp)
    qed
  next
    case False
    then have ne': "monad_ms Su \<noteq> []" using b by blast
    have "m_last Su \<in> som_set Su" using som_wf_bounds(2,6,7)[OF Su ne'] by simp
    then have "m_last Su \<in> S" using bnd[OF ne'] by (simp add: S_def)
    then have tne: "monad_ms t \<noteq> []" using t(2,3) som_wf_nonempty by blast
    note tb = som_wf_bounds[OF t(2) tne]
    have h: "hull t = Inr (solid (Min S) (Max S))" using hull_ok[OF t(2)] tne tb t(3) by simp
    have s: "som_wf (solid (Min S) (Max S))" "monad_ms (solid (Min S) (Max S)) \<noteq> []"
      "m_first (solid (Min S) (Max S)) = Min S" "m_last (solid (Min S) (Max S)) = Max S"
      using solid_ok[of "Min S" "Max S"] tb t(3) by simp_all
    have "R_inst ee (solid (Min S) (Max S)) ob = Inr i" by (simp add: R_inst_def i(1))
    then have "ObjectBlock_getSMI ob ee U Su Sm b = InstStartMonadIterator_new i (solid (Min S) (Max S)) t lower"
      unfolding ObjectBlock_getSMI_def using False t(1) h by simp
    then show ?thesis using InstSMI_ok[OF i(2) s(1,2), of t lower] False t(2,3)
      by (simp add: starts s(3,4)) (erule returns_mono, simp)
  qed
qed

section \<open>Objects that must not exist\<close>

lemma restricted_ok:
  assumes "som_wf s"
  shows "R_restrict s m = Inr (restricted s m)" "som_wf (restricted s m)" "som_set (restricted s m) = {x \<in> som_set s. m \<le> x}"
proof -
  obtain t where "R_restrict s m = Inr t" "som_wf t" "som_set t = {x \<in> som_set s. m \<le> x}"
    using R_restrict_ok[OF assms, of m] by (auto simp: returns_iff)
  then show "R_restrict s m = Inr (restricted s m)" "som_wf (restricted s m)" "som_set (restricted s m) = {x \<in> som_set s. m \<le> x}"
    by (simp_all add: restricted_def)
qed

lemma yields_none:
  assumes "\<And>m. m \<in> set ms \<Longrightarrow> yields \<Gamma> e (\<lambda>ee. N ee m) (there m)"
  shows "agree \<Gamma> ee e \<Longrightarrow> returns (smi_run (\<lambda>_. True) (\<lambda>(ok, ee1) m. bind_res (N ee1 m) (\<lambda>(b, ee2).
           Inr (if b then ((False, ee2), True) else ((ok, ee2), False)))) ms (True, ee))
     (\<lambda>(ok, ee1). ok = (\<forall>m\<in>set ms. \<not> there m) \<and> agree \<Gamma> ee1 e)"
  using assms
proof (induction ms arbitrary: ee)
  case (Cons m ms)
  obtain ee1 where "N ee m = Inr (there m, ee1)" "agree \<Gamma> ee1 e" using yields_returns[OF Cons.prems(2)[of m] Cons.prems(1)] by auto
  then show ?case using Cons.IH[of ee1] Cons.prems(2) by simp
qed simp

lemma R_block_NOTEXIST_ok:
  assumes ob: "block_ok K e0 \<Gamma> ob r f" and N: "ob_bIsNOTEXIST ob" and c: "ctx e0 \<Gamma> e" and x: "extent_ok e U Su" and Sm: "monad_ok Sm"
  shows "yields \<Gamma> e (\<lambda>ee. R_block_NOTEXIST ob r ee U Su Sm) (sem_NOTEXIST ob f e U Su Sm)"
    "straws_ok (sem_NOTEXIST ob f e U Su Sm)"
proof -
  note xd = extent_okD[OF x]
  have okob: "ob_ok K e0 \<Gamma> ob" using ob by (simp add: block_ok_def)
  define U1 Su1 m where d: "U1 = (if ob_bIsAfterNonNOTEXIST ob then restricted U Sm else U)"
    "Su1 = (if ob_bIsAfterNonNOTEXIST ob then restricted Su Sm else Su)" "m = (if ob_bIsAfterNonNOTEXIST ob then Sm else m_first U)"
  have wf: "som_wf U1" "som_wf Su1" "1 \<le> m" using restricted_ok(2)[OF xd(1)] restricted_ok(2)[OF xd(3)] xd(1,3,5,8) Sm by (simp_all add: d monad_ok_def)
  have ne: "1 \<le> m_first Su1 \<and> m \<le> m_last Su1 \<and> m_first (ee_all_m_1 e) \<le> m_last Su1 \<and> m_last Su1 \<le> m_last (ee_all_m_1 e)"
    if "monad_ms Su1 \<noteq> []"
  proof (cases "ob_bIsAfterNonNOTEXIST ob")
    case True
    note t = restricted_ok(2,3)[OF xd(3), of Sm]
    have "m_last (restricted Su Sm) = m_last Su" "Sm \<le> m_last Su"
      using restrict_nonempty[OF xd(3,4) t] that True by (auto simp: d)
    moreover have "m_first (restricted Su Sm) \<in> som_set (restricted Su Sm)"
      using som_wf_bounds(1,6,7)[OF t(1)] that True by (simp add: d)
    ultimately show ?thesis using True xd t(2) Sm by (auto simp: d monad_ok_def)
  qed (use xd in \<open>simp add: d\<close>)
  let ?ks = "snd (ob_starts ob e Su1 m False)"
  have Rx: "(if ob_bIsAfterNonNOTEXIST ob
       then bind_res (R_restrict U Sm) (\<lambda>Uping. bind_res (R_restrict Su Sm) (\<lambda>Suping. Inr (Uping, Suping, Sm)))
       else Inr (U, Su, m_first U)) = Inr (U1, Su1, m)"
    using restricted_ok(1)[OF xd(1), of Sm] restricted_ok(1)[OF xd(3), of Sm] by (simp add: d)
  have sem: "sem_NOTEXIST ob f e U Su Sm = (if \<forall>k\<in>set ?ks. \<not> sem_object ob f e U1 Su1 k \<noteq> [] then [nothing Sm] else [])"
    by (simp add: sem_NOTEXIST_def d)
  show "straws_ok (sem_NOTEXIST ob f e U Su Sm)" using nothing_ok[OF Sm] by (simp add: sem)
  have body: "yields \<Gamma> e (\<lambda>ee. R_NOTEXIST_object_block ob r ee U1 Su1 k) (sem_object ob f e U1 Su1 k \<noteq> [])" if "k \<in> set ?ks" for k
  proof -
    have "monad_ok k" using ob_smi_ok(2)[OF okob agree_refl[of \<Gamma> e] wf(3,2)] ne N that by blast
    from R_object_block_ok(1)[OF ob c wf(1,2) this, of "[]"] show ?thesis
      unfolding R_NOTEXIST_object_block_def append_Nil by (rule yields_bind) (rule yields_return)
  qed
  show "yields \<Gamma> e (\<lambda>ee. R_block_NOTEXIST ob r ee U Su Sm) (sem_NOTEXIST ob f e U Su Sm)"
    unfolding yields_def
  proof (intro allI impI)
    fix ee assume a: "agree \<Gamma> ee e"
    obtain i where i: "ObjectBlock_getSMI ob ee U1 Su1 m False = Inr i" "smi_at i ?ks"
      using ob_smi_ok(1)[OF okob a wf(3,2), of False U1] ne N by (auto simp: returns_iff)
    obtain ee1 where "smi_run (\<lambda>_. True) (\<lambda>(ok, ee1) m. bind_res (R_NOTEXIST_object_block ob r ee1 U1 Su1 m) (\<lambda>(b, ee2).
           Inr (if b then ((False, ee2), True) else ((ok, ee2), False)))) ?ks (True, ee) =
         Inr (\<forall>k\<in>set ?ks. \<not> sem_object ob f e U1 Su1 k \<noteq> [], ee1)" "agree \<Gamma> ee1 e"
      using yields_none[where N = "\<lambda>ee. R_NOTEXIST_object_block ob r ee U1 Su1", OF body a] by (auto simp: returns_iff)
    then show "returns (R_block_NOTEXIST ob r ee U Su Sm) (\<lambda>(y, ee1). y = sem_NOTEXIST ob f e U Su Sm \<and> agree \<Gamma> ee1 e)"
      unfolding R_block_NOTEXIST_def Rx sem by (simp add: i(1) smi_loop_fold[OF i(2)] empty_straw_nothing)
  qed
qed

end
