(* ===== verification/TopographMain_Props.thy ===== *)
theory TopographMain_Props
  imports TopographBlocks_Props
begin

text \<open>
  The engine computes the reference semantics: the iterators of all block strings, the loops of
  \<open>R_blocks\<close>, and the induction over the syntax tree.
\<close>

section \<open>Starting monads of block strings\<close>

lemma ObjectBlock_ok_info: "ObjectBlock_ok ob K e0 \<Gamma> \<Longrightarrow> ob_ok K e0 \<Gamma> (ob_info ob)"
  by (cases ob) simp

lemma starts_at_object:
  assumes "ob_ok K e0 \<Gamma> ob"
  shows "starts_at e0 \<Gamma> (\<lambda>ee U Su Sm. ObjectBlock_getSMI ob ee U Su Sm True) (\<lambda>ee U Su Sm. ob_starts ob ee Su Sm True)"
  unfolding starts_at_def
proof (intro allI impI)
  fix e U Su Sm ee assume c: "ctx e0 \<Gamma> e" "extent_ok e U Su" "1 \<le> Sm" "Sm \<le> m_last Su" "agree \<Gamma> ee e"
  note x = extent_okD[OF c(2)]
  have "monad_ms Su \<noteq> [] \<longrightarrow> 1 \<le> m_first Su \<and> Sm \<le> m_last Su \<and> m_first (ee_all_m_1 e) \<le> m_last Su \<and> m_last Su \<le> m_last (ee_all_m_1 e)"
    using x c(4) by linarith
  note smi = ob_smi_ok[OF assms c(5,3) x(3) this disjI2[OF x(4)]]
  show "returns (ObjectBlock_getSMI ob ee U Su Sm True) (\<lambda>i. smi_at i (snd (ob_starts ob e Su Sm True)) \<and>
      som_wf (smi_Su i) \<and> som_set (smi_Su i) = fst (ob_starts ob e Su Sm True)) \<and>
     (\<forall>m\<in>fst (ob_starts ob e Su Sm True) \<union> set (snd (ob_starts ob e Su Sm True)). monad_ok m)"
    by (intro conjI smi)
qed

lemma set_monads_from: "som_wf s \<Longrightarrow> set (monads_from s Sm) \<subseteq> som_set s"
  by (auto simp: monads_from_def som_set_def)

lemma starts_at_set:
  assumes "\<And>e U Su. extent_ok e U Su \<Longrightarrow> T U Su = U \<or> T U Su = Su"
  shows "starts_at e0 \<Gamma> (\<lambda>ee U Su Sm. MonadSetStartMonadIterator_new (T U Su) Sm False)
    (\<lambda>ee U Su Sm. (som_set (T U Su), monads_from (T U Su) Sm))"
  unfolding starts_at_def
proof (intro allI impI)
  fix e U Su Sm ee assume x: "extent_ok e U Su"
  note xd = extent_okD[OF x]
  have t: "som_wf (T U Su)" "1 \<le> m_first (T U Su)" using assms[OF x] xd(1,3,5,8) by auto
  have "\<forall>m\<in>som_set (T U Su) \<union> set (monads_from (T U Su) Sm). monad_ok m"
    using set_monads_from[OF t(1), of Sm] som_set_ok[OF t(1)] t(2) by blast
  with MonadSetSMI_ok(1)[OF t(1), of Sm] t(1)
  show "returns (MonadSetStartMonadIterator_new (T U Su) Sm False)
      (\<lambda>i. smi_at i (snd (som_set (T U Su), monads_from (T U Su) Sm)) \<and> som_wf (smi_Su i) \<and>
        som_set (smi_Su i) = fst (som_set (T U Su), monads_from (T U Su) Sm)) \<and>
     (\<forall>m\<in>fst (som_set (T U Su), monads_from (T U Su) Sm) \<union> set (snd (som_set (T U Su), monads_from (T U Su) Sm)). monad_ok m)"
    by (auto elim!: returns_mono)
qed

lemma starts_at_gap:
  "starts_at e0 \<Gamma> (\<lambda>ee U Su Sm. MonadSetStartMonadIterator_new Su Sm True) (Block_starts (kGapBlock g))"
  unfolding starts_at_def
proof (intro allI impI)
  fix e U Su Sm ee assume x: "extent_ok e U Su"
  note xd = extent_okD[OF x]
  let ?G = "{m_first Su..m_last Su} - som_set Su"
  have "?G = {x. m_first Su \<le> x \<and> x \<le> m_last Su \<and> x \<notin> som_set Su}" by auto
  then have "returns (MonadSetStartMonadIterator_new Su Sm True)
     (\<lambda>i. smi_at i (filter (\<lambda>m. Sm \<le> m) (sorted_list_of_set ?G)) \<and> som_wf (smi_Su i) \<and> som_set (smi_Su i) = ?G)"
    using MonadSetSMI_ok(2)[OF xd(3), of Sm] by (auto simp: monads_from_def elim!: returns_mono)
  then show "returns (MonadSetStartMonadIterator_new Su Sm True)
      (\<lambda>i. smi_at i (snd (Block_starts (kGapBlock g) e U Su Sm)) \<and> som_wf (smi_Su i) \<and>
        som_set (smi_Su i) = fst (Block_starts (kGapBlock g) e U Su Sm)) \<and>
     (\<forall>m\<in>fst (Block_starts (kGapBlock g) e U Su Sm) \<union> set (snd (Block_starts (kGapBlock g) e U Su Sm)). monad_ok m)"
    using xd(5,6) by (auto simp: Let_def monad_ok_def)
qed

lemma starts_at_or:
  assumes "starts_at e0 \<Gamma> f st" "starts_at e0 \<Gamma> g st'"
  shows "starts_at e0 \<Gamma> (or_getSMI f g) (or_starts st st')"
  unfolding starts_at_def
proof (intro allI impI)
  fix e U Su Sm ee assume c: "ctx e0 \<Gamma> e" "extent_ok e U Su" "1 \<le> Sm" "Sm \<le> m_last Su" "agree \<Gamma> ee e"
  obtain i where i: "f ee U Su Sm = Inr i" "som_wf (smi_Su i)" "som_set (smi_Su i) = fst (st e U Su Sm)"
    using starts_atD[OF assms(1) c] by (auto simp: returns_iff)
  obtain j where j: "g ee U Su Sm = Inr j" "som_wf (smi_Su j)" "som_set (smi_Su j) = fst (st' e U Su Sm)"
    using starts_atD[OF assms(2) c] by (auto simp: returns_iff)
  define A where "A = SetOfMonads_unionWith (smi_Su i) (smi_Su j)"
  have A: "som_wf A" "som_set A = fst (or_starts st st' e U Su Sm)"
    using unionWith_correct[OF i(2) j(2)] i(3) j(3) by (simp_all add: A_def or_starts_def Let_def)
  define n where "n = (if \<not> SetOfMonads_isEmpty (smi_Su i) then MYMIN (m_first (smi_Su i)) Sm else Sm)"
  define k where "k = (if \<not> SetOfMonads_isEmpty A then MYMIN (m_first A) n else n)"
  have "k \<le> m" if "m \<in> som_set A" for m
  proof -
    have ne: "monad_ms A \<noteq> []" using that by (auto simp: som_set_def)
    note b = som_wf_bounds[OF A(1) ne]
    have "m_first A \<le> m" using b(1) Min_le[OF b(7) that] by simp
    then show ?thesis using ne by (auto simp: k_def SetOfMonads_isEmpty_def MYMIN_def)
  qed
  then have mf: "monads_from A k = snd (or_starts st st' e U Su Sm)"
    using monads_from_below[OF A(1)] A(2) by (simp add: or_starts_def Let_def)
  have code: "or_getSMI f g ee U Su Sm = MonadSetStartMonadIterator_new A k False"
    by (simp add: or_getSMI_def i(1) j(1) Let_def A_def n_def k_def)
  have "\<forall>m\<in>som_set A. monad_ok m"
    using starts_atD[OF assms(1) c] starts_atD[OF assms(2) c] A(2) by (auto simp: or_starts_def Let_def)
  then have "\<forall>m\<in>som_set A \<union> set (monads_from A k). monad_ok m" using set_monads_from[OF A(1), of k] by blast
  with MonadSetSMI_ok(1)[OF A(1), of k]
  show "returns (or_getSMI f g ee U Su Sm) (\<lambda>i. smi_at i (snd (or_starts st st' e U Su Sm)) \<and> som_wf (smi_Su i) \<and>
        som_set (smi_Su i) = fst (or_starts st st' e U Su Sm)) \<and>
     (\<forall>m\<in>fst (or_starts st st' e U Su Sm) \<union> set (snd (or_starts st st' e U Su Sm)). monad_ok m)"
    unfolding code mf[symmetric] A(2)[symmetric] using A(1) by (auto elim!: returns_mono)
qed

lemma starts_at_star:
  assumes "som_wf som" "starts_at e0 \<Gamma> f st"
  shows "starts_at e0 \<Gamma> (\<lambda>ee U Su Sm. if SetOfMonads_isMemberOf som 0 then MonadSetStartMonadIterator_new Su Sm False else f ee U Su Sm)
    (\<lambda>ee U Su Sm. if 0 \<in> som_set som then (som_set Su, monads_from Su Sm) else st ee U Su Sm)"
proof (cases "0 \<in> som_set som")
  case True
  then show ?thesis using starts_at_set[of "\<lambda>U Su. Su"] by (simp add: isMemberOf_value[OF assms(1)])
qed (use assms(2) in \<open>simp add: isMemberOf_value[OF assms(1)]\<close>)

lemma block_starts_at:
  "Block_ok b K e0 \<Gamma> \<Longrightarrow> starts_at e0 \<Gamma> (Block_getSMI b True) (Block_starts b)"
proof (cases b)
  case (kOptGapBlock g)
  moreover have "Block_starts b = (\<lambda>ee U Su Sm. (som_set U, monads_from U Sm))"
    "Block_getSMI b True = (\<lambda>ee U Su Sm. MonadSetStartMonadIterator_new U Sm False)"
    using kOptGapBlock by (auto simp: fun_eq_iff)
  ultimately show ?thesis using starts_at_set[of "\<lambda>U Su. U"] by simp
next
  case (kGapBlock g)
  moreover have "Block_getSMI b True = (\<lambda>ee U Su Sm. MonadSetStartMonadIterator_new Su Sm True)"
    using kGapBlock by (auto simp: fun_eq_iff)
  ultimately show ?thesis using starts_at_gap by simp
next
  case (kObjectBlock ob)
  moreover have "Block_starts b = (\<lambda>ee U Su Sm. ob_starts (ob_info ob) ee Su Sm True)"
    "Block_getSMI b True = (\<lambda>ee U Su Sm. ObjectBlock_getSMI (ob_info ob) ee U Su Sm True)"
    using kObjectBlock by (auto simp: fun_eq_iff)
  ultimately show "Block_ok b K e0 \<Gamma> \<Longrightarrow> ?thesis" using starts_at_object[OF ObjectBlock_ok_info[of ob K e0 \<Gamma>]] by simp
next
  case (kObjectBlockNOTEXIST ob)
  moreover have "Block_starts b = (\<lambda>ee U Su Sm. ob_starts (ob_info ob) ee Su Sm True)"
    "Block_getSMI b True = (\<lambda>ee U Su Sm. ObjectBlock_getSMI (ob_info ob) ee U Su Sm True)"
    using kObjectBlockNOTEXIST by (auto simp: fun_eq_iff)
  ultimately show "Block_ok b K e0 \<Gamma> \<Longrightarrow> ?thesis" using starts_at_object[OF ObjectBlock_ok_info[of ob K e0 \<Gamma>]] by simp
qed simp

text \<open>Only the strings of blocks matter here; the other types of the tree are trivial.\<close>

lemma getSMI_starts:
  fixes bl :: Blocks and bk :: Block and gb :: GapBlock and ob :: ObjectBlock and obs :: ObjectBlockString
  shows "bl = bl"
  "BlockString_ok bs K e0 \<Gamma> \<Longrightarrow> starts_at e0 \<Gamma> (BlockString_getSMI bs) (BlockString_starts bs)"
  "fst (BlockString2_ok b2 K e0 \<Gamma>) \<Longrightarrow> starts_at e0 \<Gamma> (BlockString2_getSMI b2) (BlockString2_starts b2)"
  "BlockString1_ok b1 K e0 \<Gamma> \<Longrightarrow> starts_at e0 \<Gamma> (BlockString1_getSMI b1) (BlockString1_starts b1)"
  "BlockString0_ok b0 K e0 \<Gamma> \<Longrightarrow> starts_at e0 \<Gamma> (BlockString0_getSMI b0) (BlockString0_starts b0)"
  "bk = bk" "gb = gb" "ob = ob" "obs = obs"
  by (induction bl and bs and b2 and b1 and b0 and bk and gb and ob and obs)
    (simp_all add: starts_at_or starts_at_star block_starts_at)

section \<open>Blocks\<close>

lemma kept_straws_append [simp]: "kept_straws (a @ b) = kept_straws a @ kept_straws b" "kept_straws [] = []"
  by (simp_all add: kept_straws_def)

lemma kept_straws_wf: "straws_wf los \<Longrightarrow> straws_wf (kept_straws los)"
  by (auto simp: straws_wf_all kept_straws_def straw_of_def mos_wf_all straw_wf_list)

lemma blocks_loop_ok:
  assumes "\<And>m. m \<in> set ks \<Longrightarrow> yields \<Gamma> e (\<lambda>ee. r ee U Su m mr) (h m) \<and> straws_ok (h m)"
    and "ee_bContinueExecution e" "b \<longrightarrow> ee_pCallback e = None"
  shows "agree \<Gamma> (bl_ee s) e \<Longrightarrow>
    returns (smi_run (\<lambda>s. ee_bContinueExecution (bl_ee s)) (blocks_step None r b store U Su mr) ks s)
      (\<lambda>t. agree \<Gamma> (bl_ee t) e \<and> bl_pResultLOS t = bl_pResultLOS s @ kept_straws (concat (map h ks)) \<and>
        bl_bSuccess t = (bl_bSuccess s \<or> concat (map h ks) \<noteq> []))"
  using assms(1)
proof (induction ks arbitrary: s)
  case (Cons m ks)
  have m: "yields \<Gamma> e (\<lambda>ee. r ee U Su m mr) (h m)" and ok: "straws_ok (h m)" using Cons.prems(2)[of m] by auto
  obtain ee1 where e1: "r (bl_ee s) U Su m mr = Inr (h m, ee1)" "agree \<Gamma> ee1 e"
    using yields_returns[OF m Cons.prems(1)] by blast
  have go: "ee_bContinueExecution (bl_ee s)" using agree_fields(2)[OF Cons.prems(1)] assms(2) by simp
  have cb: "(if b then ee_pCallback ee1 else None) = None" using agree_fields(3)[OF e1(2)] assms(3) by simp
  define s1 where "s1 = s\<lparr>bl_ee := ee1, bl_bSuccess := bl_bSuccess s \<or> h m \<noteq> [], bl_pResultLOS := bl_pResultLOS s @ kept_straws (h m)\<rparr>"
  have "blocks_step None r b store U Su mr s m = Inr (s1, False)"
    using e1(1) cb filtering_ok[OF straws_ok_wf[OF ok]]
    by (cases s) (auto simp: blocks_step_def Let_def deliver_def s1_def)
  moreover have "agree \<Gamma> (bl_ee s1) e" using e1(2) by (simp add: s1_def)
  note Cons.IH[OF this Cons.prems(2)]
  ultimately show ?case using go by (auto simp: s1_def elim!: returns_mono)
qed simp

lemma blocks_finish_ok:
  assumes "ee_bContinueExecution ee" "b \<longrightarrow> ee_pCallback ee = None"
  shows "blocks_finish b ee los success = (Sheaf (if success then Some los else None), ee)"
  using assms by (auto simp: blocks_finish_def Sheaf_of_def Sheaf_new_def)

lemma blocks_run_string:
  assumes "runs e0 \<Gamma> r f" "starts_at e0 \<Gamma> smi st"
  shows "blocks_run e0 \<Gamma> (R_blocks_string None smi r) (sem_blocks_string st f)"
  unfolding blocks_run_def
proof (intro allI impI)
  fix e U Su mr b assume c: "ctx e0 \<Gamma> e" "extent_ok e U Su" "limit_ok mr" "b \<longrightarrow> ee_pCallback e = None"
  note x = extent_okD[OF c(2)]
  let ?ks = "snd (st e U Su (m_first Su))" and ?h = "\<lambda>m. f e U Su m mr"
  have go: "ee_bContinueExecution e" using c(1) by (simp add: ctx_def)
  have ks: "yields \<Gamma> e (\<lambda>ee. r ee U Su m mr) (?h m) \<and> straws_ok (?h m)" if "m \<in> set ?ks" for m
    using runsD[OF assms(1) c(1-3)] starts_atD[OF assms(2) c(1,2) x(5,7) agree_refl] that by blast
  have sem: "sem_blocks_string st f e U Su mr =
      (if concat (map ?h ?ks) \<noteq> [] then Some (kept_straws (concat (map ?h ?ks))) else None)"
    unfolding sem_blocks_string_def Let_def by simp
  have "straws_wf (concat (map ?h ?ks))" using ks by (intro straws_ok_wf) simp
  then have "sheaf_wf (Sheaf (sem_blocks_string st f e U Su mr))" using kept_straws_wf by (simp add: sem)
  moreover have "yields \<Gamma> e (\<lambda>ee. R_blocks_string None smi r ee U Su b mr) (Sheaf (sem_blocks_string st f e U Su mr))"
    unfolding yields_def
  proof (intro allI impI)
    fix ee assume a: "agree \<Gamma> ee e"
    obtain i where i: "smi ee U Su (m_first Su) = Inr i" "smi_at i ?ks"
      using starts_atD[OF assms(2) c(1,2) x(5,7) a] by (auto simp: returns_iff)
    have cb: "(if b then ee_pCallback ee else None) = None" "\<not> (b \<and> ee_pCallback ee \<noteq> None)"
      using agree_fields(3)[OF a] c(4) by auto
    let ?s = "\<lparr>bl_ee = ee, bl_pResultLOS = [], bl_bSuccess = False, bl_count = 0\<rparr>"
    obtain t where t: "smi_run (\<lambda>s. ee_bContinueExecution (bl_ee s)) (blocks_step None r b True U Su mr) ?ks ?s = Inr t"
      "agree \<Gamma> (bl_ee t) e" "bl_pResultLOS t = kept_straws (concat (map ?h ?ks))" "bl_bSuccess t \<longleftrightarrow> concat (map ?h ?ks) \<noteq> []"
      using blocks_loop_ok[where h = ?h and ks = ?ks and r = r and s = ?s and store = True and U = U and Su = Su and mr = mr, OF ks go c(4)] a by (auto simp: returns_iff)
    have "blocks_finish b (bl_ee t) (bl_pResultLOS t) (bl_bSuccess t) = (Sheaf (sem_blocks_string st f e U Su mr), bl_ee t)"
      using blocks_finish_ok[of "bl_ee t" b] agree_fields(2,3)[OF t(2)] go c(4) t(3,4) by (simp add: sem)
    moreover have "R_blocks_string None smi r ee U Su b mr = Inr (blocks_finish b (bl_ee t) (bl_pResultLOS t) (bl_bSuccess t))"
      unfolding R_blocks_string_def cb(1) using cb(2) i(1) t(1)
      by (cases b) (simp_all add: smi_loop_fold[OF i(2)])
    ultimately show "returns (R_blocks_string None smi r ee U Su b mr)
        (\<lambda>(y, ee1). y = Sheaf (sem_blocks_string st f e U Su mr) \<and> agree \<Gamma> ee1 e)" using t(2) by simp
  qed
  ultimately show "yields \<Gamma> e (\<lambda>ee. R_blocks_string None smi r ee U Su b mr) (Sheaf (sem_blocks_string st f e U Su mr)) \<and>
      sheaf_wf (Sheaf (sem_blocks_string st f e U Su mr))" by blast
qed

section \<open>Unordered groups\<close>

lemma group_member_ok:
  assumes "block_ok K e0 \<Gamma> ob r f" "ctx e0 \<Gamma> e" "extent_ok e U Su"
  shows "yields \<Gamma> e (\<lambda>ee. R_group_member U Su (acc, ee) (\<lambda>ee U Su Sm. ObjectBlock_getSMI ob ee U Su Sm True, R_object_block ob r))
      (acc @ [sem_member ob f e U Su])" "straws_ok (sem_member ob f e U Su)"
proof -
  note x = extent_okD[OF assms(3)]
  have okob: "ob_ok K e0 \<Gamma> ob" using assms(1) by (simp add: block_ok_def)
  let ?ks = "snd (ob_starts ob e Su (m_first Su) True)" and ?h = "\<lambda>m. sem_object ob f e U Su m"
  note st = starts_atD[OF starts_at_object[OF okob] assms(2,3) x(5,7)]
  have b: "yields \<Gamma> e (\<lambda>ee. R_object_block ob r ee U Su m acc) (acc @ ?h m)" "straws_ok (?h m)" if "m \<in> set ?ks" for m acc
    using R_object_block_ok[OF assms(1,2) x(1,3)] st[OF agree_refl] that by auto
  show "straws_ok (sem_member ob f e U Su)" using b(2) by (auto simp: sem_member_def)
  let ?body = "\<lambda>(pOBLOS, ee1) Sm. bind_res (R_object_block ob r ee1 U Su Sm []) (\<lambda>(pLocalOBLOS, ee2).
           Inr (if pLocalOBLOS \<noteq> [] then ((appendAndSubsume pOBLOS pLocalOBLOS, ee2), False) else ((pOBLOS, ee2), False)))"
  have "yields \<Gamma> e (\<lambda>ee. smi_run (\<lambda>(_, ee1). ee_bContinueExecution ee1) ?body ?ks ([], ee)) ([] @ concat (map ?h ?ks))"
  proof (rule yields_run)
    fix m acc assume m: "m \<in> set ?ks"
    have "yields \<Gamma> e (\<lambda>ee. bind_res (R_object_block ob r ee U Su m []) (\<lambda>(l, ee1). Inr ((acc @ l, False), ee1))) (acc @ ?h m, False)"
      by (rule yields_bind[OF b(1)[OF m, of "[]", simplified]]) (rule yields_return)
    moreover have "bind_res (R_object_block ob r ee U Su m []) (\<lambda>(l, ee1). Inr ((acc @ l, False), ee1)) =
        bind_res (?body (acc, ee) m) (\<lambda>((a, ee1), b). Inr ((a, b), ee1))" for ee
      by (cases "R_object_block ob r ee U Su m []") (auto simp: appendAndSubsume_def)
    ultimately show "yields \<Gamma> e (\<lambda>ee. bind_res (?body (acc, ee) m) (\<lambda>((a, ee1), b). Inr ((a, b), ee1))) (acc @ ?h m, False)"
      by simp
  next
    fix acc :: ListOfStraws and ee assume "agree \<Gamma> ee e"
    then show "(\<lambda>(_, ee1). ee_bContinueExecution ee1) (acc, ee)" using assms(2) agree_fields(2) by (fastforce simp: ctx_def)
  qed
  note run = this[simplified append_Nil]
  show "yields \<Gamma> e (\<lambda>ee. R_group_member U Su (acc, ee) (\<lambda>ee U Su Sm. ObjectBlock_getSMI ob ee U Su Sm True, R_object_block ob r))
      (acc @ [sem_member ob f e U Su])"
    unfolding yields_def
  proof (intro allI impI)
    fix ee assume a: "agree \<Gamma> ee e"
    obtain i where i: "ObjectBlock_getSMI ob ee U Su (m_first Su) True = Inr i" "smi_at i ?ks" using st[OF a] by (auto simp: returns_iff)
    obtain ee1 where "smi_run (\<lambda>(_, ee1). ee_bContinueExecution ee1) ?body ?ks ([], ee) = Inr (concat (map ?h ?ks), ee1)" "agree \<Gamma> ee1 e"
      using yields_returns[OF run a] by auto
    then show "returns (R_group_member U Su (acc, ee) (\<lambda>ee U Su Sm. ObjectBlock_getSMI ob ee U Su Sm True, R_object_block ob r))
        (\<lambda>(y, ee1). y = acc @ [sem_member ob f e U Su] \<and> agree \<Gamma> ee1 e)"
      using i(1) by (simp add: R_group_member_def sem_member_def smi_loop_fold[OF i(2)])
  qed
qed

definition members_run :: "MQLExecEnv \<Rightarrow> tyenv \<Rightarrow> group_member list \<Rightarrow> (MQLExecEnv \<Rightarrow> SetOfMonads \<Rightarrow> SetOfMonads \<Rightarrow> Straw list list) \<Rightarrow> bool" where
  "members_run e0 \<Gamma> ms g \<longleftrightarrow> (\<forall>e U Su acc. ctx e0 \<Gamma> e \<longrightarrow> extent_ok e U Su \<longrightarrow>
     yields \<Gamma> e (\<lambda>ee. foldM_res (R_group_member U Su) (acc, ee) ms) (acc @ rev (g e U Su)) \<and> (\<forall>l\<in>set (g e U Su). straws_ok l))"

lemma members_run_Cons:
  assumes "block_ok K e0 \<Gamma> ob r f" "members_run e0 \<Gamma> ms g"
  shows "members_run e0 \<Gamma> ((\<lambda>ee U Su Sm. ObjectBlock_getSMI ob ee U Su Sm True, R_object_block ob r) # ms)
    (\<lambda>ee U Su. g ee U Su @ [sem_member ob f ee U Su])"
  unfolding members_run_def
proof (intro allI impI)
  fix e U Su acc assume c: "ctx e0 \<Gamma> e" "extent_ok e U Su"
  note m = group_member_ok[OF assms(1) c]
  let ?m = "(\<lambda>ee U Su Sm. ObjectBlock_getSMI ob ee U Su Sm True, R_object_block ob r)"
  have g: "yields \<Gamma> e (\<lambda>ee. foldM_res (R_group_member U Su) (acc, ee) ms) (acc @ rev (g e U Su))" "\<forall>l\<in>set (g e U Su). straws_ok l" for acc
    using assms(2) c by (simp_all add: members_run_def)
  have "yields \<Gamma> e (\<lambda>ee. bind_res (R_group_member U Su (acc, ee) ?m) (\<lambda>(a, ee1). foldM_res (R_group_member U Su) (a, ee1) ms))
     ((acc @ [sem_member ob f e U Su]) @ rev (g e U Su))"
    by (rule yields_bind[OF m(1) g(1)])
  moreover have "foldM_res (R_group_member U Su) (acc, ee) (?m # ms) =
      bind_res (R_group_member U Su (acc, ee) ?m) (\<lambda>(a, ee1). foldM_res (R_group_member U Su) (a, ee1) ms)" for ee
    by (cases "R_group_member U Su (acc, ee) ?m") auto
  ultimately show "yields \<Gamma> e (\<lambda>ee. foldM_res (R_group_member U Su) (acc, ee) (?m # ms))
        (acc @ rev (g e U Su @ [sem_member ob f e U Su])) \<and> (\<forall>l\<in>set (g e U Su @ [sem_member ob f e U Su]). straws_ok l)"
    using g(2) m(2) by (simp del: foldM_res.simps)
qed

lemma members_run_Nil: "members_run e0 \<Gamma> [] (\<lambda>ee U Su. [])"
  by (simp add: members_run_def yields_return)

lemma blocks_run_unordered:
  assumes "members_run e0 \<Gamma> ms g"
  shows "blocks_run e0 \<Gamma> (R_blocks_unordered ms) (sem_unordered g)"
  unfolding blocks_run_def
proof (intro allI impI)
  fix e U Su mr b assume c: "ctx e0 \<Gamma> e" "extent_ok e U Su" "limit_ok mr" "b \<longrightarrow> ee_pCallback e = None"
  have g: "yields \<Gamma> e (\<lambda>ee. foldM_res (R_group_member U Su) ([], ee) ms) (rev (g e U Su))" "\<forall>l\<in>set (g e U Su). straws_ok l"
    using assms[unfolded members_run_def, rule_format, OF c(1,2), of "[]"] by simp_all
  have fl: "foldl appendAndSubsume a ls = a @ concat ls" for a ls by (induction ls arbitrary: a) (simp_all add: appendAndSubsume_def)
  have sem: "sem_unordered g e U Su mr = (if \<forall>l\<in>set (g e U Su). l \<noteq> [] then Some (concat (g e U Su)) else None)"
    by (auto simp: sem_unordered_def Let_def)
  have wf: "sheaf_wf (Sheaf (sem_unordered g e U Su mr))" using straws_ok_wf[of "concat (g e U Su)"] g(2) by (simp add: sem)
  have "yields \<Gamma> e (\<lambda>ee. R_blocks_unordered ms ee U Su b mr) (Sheaf (sem_unordered g e U Su mr))"
    unfolding yields_def
  proof (intro allI impI)
    fix ee assume "agree \<Gamma> ee e"
    then obtain ee1 where e1: "foldM_res (R_group_member U Su) ([], ee) ms = Inr (rev (g e U Su), ee1)" "agree \<Gamma> ee1 e"
      using yields_returns[OF g(1)] by blast
    have "blocks_finish b ee1 (concat (g e U Su)) (\<forall>l\<in>set (g e U Su). l \<noteq> []) = (Sheaf (sem_unordered g e U Su mr), ee1)"
      using blocks_finish_ok[of ee1 b] agree_fields(2,3)[OF e1(2)] c(1,4) by (simp add: sem ctx_def)
    then show "returns (R_blocks_unordered ms ee U Su b mr) (\<lambda>(y, ee1). y = Sheaf (sem_unordered g e U Su mr) \<and> agree \<Gamma> ee1 e)"
      using e1 by (simp add: R_blocks_unordered_def fl)
  qed
  with wf show "yields \<Gamma> e (\<lambda>ee. R_blocks_unordered ms ee U Su b mr) (Sheaf (sem_unordered g e U Su mr)) \<and>
      sheaf_wf (Sheaf (sem_unordered g e U Su mr))" by blast
qed

section \<open>The whole tree\<close>

definition gap_run :: "MQLExecEnv \<Rightarrow> tyenv \<Rightarrow> GapBlock \<Rightarrow> bool" where
  "gap_run e0 \<Gamma> g \<longleftrightarrow> (\<forall>e U Su Sm b. ctx e0 \<Gamma> e \<longrightarrow> extent_ok e U Su \<longrightarrow> monad_ok Sm \<longrightarrow>
     yields \<Gamma> e (\<lambda>ee. bind_res (R_gap_block g (if b then kMOKEMPTY_mo else kMOKNIL_mo) ee Su Sm)
       (\<lambda>(pMO, ee1). Inr (one_straw pMO, ee1))) (GapBlock_sem g b e Su Sm) \<and> straws_ok (GapBlock_sem g b e Su Sm))"

lemma gap_runD:
  "gap_run e0 \<Gamma> g \<Longrightarrow> ctx e0 \<Gamma> e \<Longrightarrow> extent_ok e U Su \<Longrightarrow> monad_ok Sm \<Longrightarrow>
   yields \<Gamma> e (\<lambda>ee. bind_res (R_gap_block g (if b then kMOKEMPTY_mo else kMOKNIL_mo) ee Su Sm)
     (\<lambda>(pMO, ee1). Inr (one_straw pMO, ee1))) (GapBlock_sem g b e Su Sm) \<and> straws_ok (GapBlock_sem g b e Su Sm)"
  by (simp add: gap_run_def)

definition tail_runs :: "MQLExecEnv \<Rightarrow> tyenv \<Rightarrow> BlockString2 \<Rightarrow> bool" where
  "tail_runs e0 \<Gamma> b2 \<longleftrightarrow> (\<exists>r. snd (R_block_string2 b2) = Some r \<and> runs e0 \<Gamma> r (snd (BlockString2_sem b2)) \<and>
     starts_at e0 \<Gamma> (afterNext_getSMI b2) (afterNext_starts b2))"

lemma gap_run_block:
  assumes "gap_run e0 \<Gamma> g"
  shows "runs e0 \<Gamma> (\<lambda>ee U Su Sm mr. R_block (kOptGapBlock g) ee U Su Sm) (\<lambda>ee U Su Sm mr. Block_sem (kOptGapBlock g) ee U Su Sm)"
    "runs e0 \<Gamma> (\<lambda>ee U Su Sm mr. R_block (kGapBlock g) ee U Su Sm) (\<lambda>ee U Su Sm mr. Block_sem (kGapBlock g) ee U Su Sm)"
proof -
  show "runs e0 \<Gamma> (\<lambda>ee U Su Sm mr. R_block (kOptGapBlock g) ee U Su Sm) (\<lambda>ee U Su Sm mr. Block_sem (kOptGapBlock g) ee U Su Sm)"
    using gap_runD[OF assms, where b = True] by (simp add: runs_def)
  show "runs e0 \<Gamma> (\<lambda>ee U Su Sm mr. R_block (kGapBlock g) ee U Su Sm) (\<lambda>ee U Su Sm mr. Block_sem (kGapBlock g) ee U Su Sm)"
    using gap_runD[OF assms, where b = False] by (simp add: runs_def)
qed

lemma object_run_block:
  assumes "block_ok K e0 \<Gamma> (ob_info ob) (snd (R_object ob)) (ObjectBlock_sem ob)" "fst (R_object ob) = ob_info ob"
  shows "runs e0 \<Gamma> (\<lambda>ee U Su Sm mr. R_block (kObjectBlock ob) ee U Su Sm) (\<lambda>ee U Su Sm mr. Block_sem (kObjectBlock ob) ee U Su Sm)"
    "ob_bIsNOTEXIST (ob_info ob) \<Longrightarrow>
     runs e0 \<Gamma> (\<lambda>ee U Su Sm mr. R_block (kObjectBlockNOTEXIST ob) ee U Su Sm) (\<lambda>ee U Su Sm mr. Block_sem (kObjectBlockNOTEXIST ob) ee U Su Sm)"
proof -
  show "runs e0 \<Gamma> (\<lambda>ee U Su Sm mr. R_block (kObjectBlock ob) ee U Su Sm) (\<lambda>ee U Su Sm mr. Block_sem (kObjectBlock ob) ee U Su Sm)"
    unfolding runs_def
  proof (intro allI impI)
    fix e U Su Sm mr assume c: "ctx e0 \<Gamma> e" "extent_ok e U Su" "monad_ok Sm"
    note x = extent_okD[OF c(2)]
    show "yields \<Gamma> e (\<lambda>ee. R_block (kObjectBlock ob) ee U Su Sm) (Block_sem (kObjectBlock ob) e U Su Sm) \<and>
        straws_ok (Block_sem (kObjectBlock ob) e U Su Sm)"
      using R_object_block_ok(1)[OF assms(1) c(1) x(1,3) c(3), of "[]"] R_object_block_ok(2)[OF assms(1) c(1) x(1,3) c(3)] assms(2) by simp
  qed
  assume N: "ob_bIsNOTEXIST (ob_info ob)"
  show "runs e0 \<Gamma> (\<lambda>ee U Su Sm mr. R_block (kObjectBlockNOTEXIST ob) ee U Su Sm) (\<lambda>ee U Su Sm mr. Block_sem (kObjectBlockNOTEXIST ob) ee U Su Sm)"
    using R_block_NOTEXIST_ok[OF assms(1) N] assms(2) by (simp add: runs_def)
qed

lemma R_object_info: "fst (R_object ob) = ob_info ob"
  by (cases ob) simp

lemma rel_option_map_same: "(\<And>x. x \<in> set_option p \<Longrightarrow> P (f x) (g x)) \<Longrightarrow> rel_option P (map_option f p) (map_option g p)"
  by (cases p) auto

lemma engine_runs:
  "Blocks_ok bl K e0 \<Gamma> \<Longrightarrow> blocks_run e0 \<Gamma> (R_blocks bl) (Blocks_sem bl)"
  "BlockString_ok bs K e0 \<Gamma> \<Longrightarrow> runs e0 \<Gamma> (R_block_string bs) (BlockString_sem bs)"
  "(fst (BlockString2_ok b2 K e0 \<Gamma>) \<longrightarrow> runs e0 \<Gamma> (fst (R_block_string2 b2)) (fst (BlockString2_sem b2))) \<and>
   (snd (BlockString2_ok b2 K e0 \<Gamma>) \<longrightarrow> tail_runs e0 \<Gamma> b2)"
  "BlockString1_ok b1 K e0 \<Gamma> \<Longrightarrow> runs e0 \<Gamma> (R_block_string1 b1) (BlockString1_sem b1)"
  "BlockString0_ok b0 K e0 \<Gamma> \<Longrightarrow> runs e0 \<Gamma> (R_block_string0 b0) (BlockString0_sem b0)"
  "Block_ok bk K e0 \<Gamma> \<Longrightarrow> runs e0 \<Gamma> (\<lambda>ee U Su Sm mr. R_block bk ee U Su Sm) (\<lambda>ee U Su Sm mr. Block_sem bk ee U Su Sm)"
  "GapBlock_ok gb K e0 \<Gamma> \<Longrightarrow> gap_run e0 \<Gamma> gb"
  "ObjectBlock_ok ob K e0 \<Gamma> \<Longrightarrow> block_ok K e0 \<Gamma> (ob_info ob) (snd (R_object ob)) (ObjectBlock_sem ob)"
  "ObjectBlockString_ok obs K e0 \<Gamma> \<Longrightarrow> members_run e0 \<Gamma> (R_object_block_string obs) (ObjectBlockString_sem obs)"
proof (induction bl and bs and b2 and b1 and b0 and bk and gb and ob and obs arbitrary: \<Gamma> and \<Gamma> and \<Gamma> and \<Gamma> and \<Gamma> and \<Gamma> and \<Gamma> and \<Gamma> and \<Gamma>)
  case (Blocks_string bs ur)
  then show ?case using getSMI_starts(2)[of bs K e0 \<Gamma>] by (simp add: blocks_run_string)
next
  case (Blocks_unordered obs)
  then show ?case by (simp add: blocks_run_unordered)
next
  case (BlockString_or b2 bs)
  then show ?case by (simp add: runs_or)
next
  case (BlockString2_seq n b1 b2)
  have tail: "tail_runs e0 \<Gamma> (BlockString2_seq n b1 b2)" if "fst (BlockString2_ok b2 K e0 \<Gamma>)"
  proof -
    have "afterNext_getSMI (BlockString2_seq n b1 b2) = BlockString2_getSMI b2" by (simp add: fun_eq_iff)
    then show ?thesis using BlockString2_seq(2)[of \<Gamma>] that getSMI_starts(3)[OF that] by (simp add: tail_runs_def)
  qed
  have "runs e0 \<Gamma> (fst (R_block_string2 (BlockString2_seq n b1 b2))) (fst (BlockString2_sem (BlockString2_seq n b1 b2)))"
    if ok: "fst (BlockString2_ok (BlockString2_seq n b1 b2) K e0 \<Gamma>)"
  proof (cases "firstBlockPower (getBlockString1 b2)")
    case None
    then show ?thesis using ok BlockString2_seq by (simp add: runs_seq)
  next
    case (Some p)
    then have p: "power_ok p" "tail_runs e0 \<Gamma> b2" "runs e0 \<Gamma> (R_block_string1 b1) (BlockString1_sem b1)"
      using ok BlockString2_seq by auto
    then obtain r where r: "snd (R_block_string2 b2) = Some r" "runs e0 \<Gamma> r (snd (BlockString2_sem b2))"
      "starts_at e0 \<Gamma> (afterNext_getSMI b2) (afterNext_starts b2)" by (auto simp: tail_runs_def)
    have "(\<lambda>ee U Su Sm mr. R_block_string2_power_block (bs2_node_number n) p (R_block_string1 b1) (afterNext_getSMI b2) r ee U Su Sm mr) =
        R_block_string2_power_block (bs2_node_number n) p (R_block_string1 b1) (afterNext_getSMI b2) r" by (simp add: fun_eq_iff)
    then show ?thesis using runs_power[OF p(3) r(3,2) p(1), of "bs2_node_number n"] Some r(1) by simp
  qed
  with tail show ?case by simp
next
  case (BlockString1_star b0 mse som)
  then show ?case by (simp add: runs_star)
next
  case (kOptGapBlock g)
  then show ?case using gap_run_block(1) by simp
next
  case (kGapBlock g)
  then show ?case using gap_run_block(2) by simp
next
  case (kObjectBlock ob)
  then have "ObjectBlock_ok ob K e0 \<Gamma>" by simp
  then show ?case by (rule object_run_block(1)[OF kObjectBlock(1) R_object_info])
next
  case (kObjectBlockNOTEXIST ob)
  then have "ObjectBlock_ok ob K e0 \<Gamma>" "ob_bIsNOTEXIST (ob_info ob)" by simp_all
  then show ?case by (rule object_run_block(2)[OF kObjectBlockNOTEXIST(1) R_object_info])
next
  case (GapBlock g opt)
  have "rel_option (blocks_run e0 \<Gamma>) (map_option R_blocks opt) (map_option Blocks_sem opt)"
    by (rule rel_option_map_same) (use GapBlock in \<open>auto simp: option.pred_set option.set_map\<close>)
  then show ?case using gap_runs[OF _ _ _ _ _ refl] GapBlock(2) by (auto simp: gap_run_def)
next
  case (ObjectBlock i opt)
  have "rel_option (blocks_run e0 (\<Gamma>(ob_nn i \<mapsto> K (ob_nn i)))) (map_option R_blocks opt) (map_option Blocks_sem opt)"
    by (rule rel_option_map_same) (use ObjectBlock in \<open>auto simp: option.pred_set option.set_map\<close>)
  then show ?case using ObjectBlock(2) by (simp add: block_ok_def)
next
  case (ObjectBlockString_one ob)
  then show ?case using members_run_Cons[OF _ members_run_Nil, of K e0 \<Gamma> "ob_info ob"] by (simp add: R_object_info)
next
  case (ObjectBlockString_more obs ob)
  then show ?case using members_run_Cons[of K e0 \<Gamma> "ob_info ob"] by (simp add: R_object_info)
qed simp_all

end
