(* ===== verification/TopographCallback_Props.thy ===== *)
theory TopographCallback_Props
  imports TopographMain_Props
begin

text \<open>
  Topographs that are run with a callback: what the callback is shown, in which order, and when it
  stops the query. The reference semantics does not look at the parts of the environment that a
  callback changes, so each starting monad is matched as if there were no callback.
\<close>

section \<open>What the reference semantics reads\<close>

definition same_reads :: "MQLExecEnv \<Rightarrow> MQLExecEnv \<Rightarrow> bool" where
  "same_reads e e' \<longleftrightarrow> ee_all_m_1 e = ee_all_m_1 e' \<and> ee_MQLObject e = ee_MQLObject e' \<and> ee_pcre_exec e = ee_pcre_exec e'"

definition indep :: "(MQLExecEnv \<Rightarrow> 'a) \<Rightarrow> bool" where
  "indep f \<longleftrightarrow> (\<forall>e e'. same_reads e e' \<longrightarrow> f e = f e')"

lemma indepD: "indep f \<Longrightarrow> same_reads e e' \<Longrightarrow> f e = f e'"
  by (simp add: indep_def)

lemma same_reads_bind: "same_reads e e' \<Longrightarrow> same_reads (bind_object e nn v) (bind_object e' nn v)"
  by (simp add: same_reads_def bind_object_def)

lemma indep_const [simp]: "indep (\<lambda>_. x)"
  by (simp add: indep_def)

lemma indep_ob_starts [simp]: "indep (ob_starts ob)"
proof -
  have "ob_starts ob e Su Sm b = ob_starts ob e' Su Sm b" if "same_reads e e'" for e e' Su Sm b
    using that by (simp add: same_reads_def ob_starts_def smi_bounds_inside_def)
  then show ?thesis by (auto simp: indep_def fun_eq_iff)
qed

lemma indep_Block_starts [simp]: "indep (Block_starts b)"
proof -
  have "Block_starts b e U Su Sm = Block_starts b e' U Su Sm" if "same_reads e e'" for e e' U Su Sm
    by (cases b) (simp_all add: indepD[OF indep_ob_starts that])
  then show ?thesis by (auto simp: indep_def fun_eq_iff)
qed

lemma indep_starts:
  fixes bl :: Blocks and bk :: Block and gb :: GapBlock and ob :: ObjectBlock and obs :: ObjectBlockString
  shows "bl = bl" "indep (BlockString_starts bs)" "indep (BlockString2_starts b2)" "indep (BlockString1_starts b1)"
    "indep (BlockString0_starts b0)" "bk = bk" "gb = gb" "ob = ob" "obs = obs"
  by (induction bl and bs and b2 and b1 and b0 and bk and gb and ob and obs)
    (auto simp: indep_def fun_eq_iff or_starts_def indepD[OF indep_Block_starts])

lemma indep_afterNext [simp]: "indep (afterNext_starts b2)"
  by (cases b2) (auto simp: indep_def fun_eq_iff indepD[OF indep_starts(3)])

lemma indepI: "(\<And>e e'. same_reads e e' \<Longrightarrow> f e = f e') \<Longrightarrow> indep f"
  by (simp add: indep_def)

lemma indep_seq: "indep f \<Longrightarrow> indep g \<Longrightarrow> indep (sem_seq f g)"
proof (rule indepI)
  fix e e' assume "indep f" "indep g" and s: "same_reads e e'"
  then have "f e = f e'" "g e = g e'" by (simp_all add: indep_def)
  note eq = this
  show "sem_seq f g e = sem_seq f g e'" by (intro ext) (simp only: eq sem_seq_def)
qed

lemma indep_power: "indep f \<Longrightarrow> indep st \<Longrightarrow> indep g \<Longrightarrow> indep (sem_power p f st g)"
proof (rule indepI)
  fix e e' assume "indep f" "indep st" "indep g" and s: "same_reads e e'"
  then have "f e = f e'" "st e = st e'" "g e = g e'" by (simp_all add: indep_def)
  note eq = this
  show "sem_power p f st g e = sem_power p f st g e'" by (intro ext) (simp only: eq sem_power_def power_monads_def)
qed

lemma sem_repeat_env: "f e = f e' \<Longrightarrow> sem_repeat f n e = sem_repeat f n e'"
proof (induction n)
  case (Suc n)
  note eq = Suc.IH[OF Suc.prems] Suc.prems
  show ?case by (intro ext) (simp only: sem_repeat.simps eq)
qed (auto simp: fun_eq_iff)

lemma indep_star: "indep f \<Longrightarrow> indep (sem_star som f)"
proof (rule indepI)
  fix e e' assume "indep f" and s: "same_reads e e'"
  then have "f e = f e'" by (simp add: indep_def)
  then have "sem_repeat f n e = sem_repeat f n e'" for n by (rule sem_repeat_env)
  note eq = this
  show "sem_star som f e = sem_star som f e'" by (intro ext) (simp only: eq sem_star_def)
qed

lemma inner_sem_indep:
  "pred_option indep inner \<Longrightarrow> same_reads e e' \<Longrightarrow> inner_sem inner e = inner_sem inner e'"
  by (cases inner) (simp_all add: inner_sem_def fun_eq_iff indep_def)

lemma indep_gap: "pred_option indep inner \<Longrightarrow> indep (sem_gap b g inner)"
proof (rule indepI)
  fix e e' assume "pred_option indep inner" and s: "same_reads e e'"
  note eq = inner_sem_indep[OF this]
  show "sem_gap b g inner e = sem_gap b g inner e'" by (intro ext) (simp only: eq sem_gap_def)
qed

lemma fc_sat_reads: "same_reads e e' \<Longrightarrow> fc_sat fc e nn = fc_sat fc e' nn"
proof -
  assume *: "same_reads e e'"
  then have "value_denotes e v = value_denotes e' v" for v by (cases v) (auto simp: same_reads_def)
  then show ?thesis using * by (simp add: fc_sat_def same_reads_def)
qed

lemma ff_sat_reads:
  "same_reads e e' \<Longrightarrow> ff_sat f e nn = ff_sat f e' nn"
  "same_reads e e' \<Longrightarrow> ft_sat t e nn = ft_sat t e' nn"
  "same_reads e e' \<Longrightarrow> fa_sat a e nn = fa_sat a e' nn"
  by (induction f and t and a) (auto simp: fc_sat_reads)

lemma sem_match_indep:
  assumes "pred_option indep inner" "same_reads e e'"
  shows "sem_match ob inner e U Su v = sem_match ob inner e' U Su v"
proof -
  note s = same_reads_bind[OF assms(2), of "ob_nn ob" v]
  have "constraint_sat c (bind_object e (ob_nn ob) v) (ob_nn ob) = constraint_sat c (bind_object e' (ob_nn ob) v) (ob_nn ob)" for c
    by (cases c) (simp_all add: constraint_sat_def ff_sat_reads(1)[OF s])
  moreover have "matched ob (bind_object e (ob_nn ob) v) v x = matched ob (bind_object e' (ob_nn ob) v) v x" for x
    using s by (simp add: matched_def retrieved_values_def same_reads_def)
  ultimately show ?thesis by (simp only: sem_match_def Let_def inner_sem_indep[OF assms(1) s])
qed

lemma indep_object: "pred_option indep inner \<Longrightarrow> indep (sem_object ob inner)"
  by (rule indepI) (simp add: fun_eq_iff sem_object_def sem_match_indep cong: map_cong)

lemma indep_NOTEXIST: "pred_option indep inner \<Longrightarrow> indep (sem_NOTEXIST ob inner)"
proof (rule indepI)
  fix e e' assume "pred_option indep inner" and s: "same_reads e e'"
  then have "sem_object ob inner e = sem_object ob inner e'" "ob_starts ob e = ob_starts ob e'"
    using indepD[OF indep_object s] indepD[OF indep_ob_starts s] by simp_all
  note eq = this
  show "sem_NOTEXIST ob inner e = sem_NOTEXIST ob inner e'" by (intro ext) (simp only: eq sem_NOTEXIST_def)
qed

lemma indep_member: "pred_option indep inner \<Longrightarrow> indep (sem_member ob inner)"
proof (rule indepI)
  fix e e' assume "pred_option indep inner" and s: "same_reads e e'"
  then have "sem_object ob inner e = sem_object ob inner e'" "ob_starts ob e = ob_starts ob e'"
    using indepD[OF indep_object s] indepD[OF indep_ob_starts s] by simp_all
  note eq = this
  show "sem_member ob inner e = sem_member ob inner e'" by (intro ext) (simp only: eq sem_member_def)
qed

lemma indep_blocks_string: "indep st \<Longrightarrow> indep f \<Longrightarrow> indep (sem_blocks_string st f)"
proof (rule indepI)
  fix e e' assume "indep st" "indep f" and s: "same_reads e e'"
  then have "st e = st e'" "f e = f e'" by (simp_all add: indep_def)
  note eq = this
  show "sem_blocks_string st f e = sem_blocks_string st f e'" by (intro ext) (simp only: eq sem_blocks_string_def)
qed

lemma indep_unordered: "indep ms \<Longrightarrow> indep (sem_unordered ms)"
proof (rule indepI)
  fix e e' assume "indep ms" and s: "same_reads e e'"
  then have "ms e = ms e'" by (simp add: indep_def)
  note eq = this
  show "sem_unordered ms e = sem_unordered ms e'" by (intro ext) (simp only: eq sem_unordered_def)
qed

lemma sem_indep:
  "indep (Blocks_sem bl)" "indep (BlockString_sem bs)"
  "indep (fst (BlockString2_sem b2)) \<and> indep (snd (BlockString2_sem b2))"
  "indep (BlockString1_sem b1)" "indep (BlockString0_sem b0)" "indep (Block_sem bk)"
  "indep (GapBlock_sem gb b)" "pred_option indep (ObjectBlock_sem ob)" "indep (ObjectBlockString_sem obs)"
proof (induction bl and bs and b2 and b1 and b0 and bk and gb and ob and obs arbitrary: and and and and and and b)
  case (Blocks_string bs ur) then show ?case by (simp add: indep_blocks_string indep_starts(2))
next
  case (Blocks_unordered obs) then show ?case by (simp add: indep_unordered)
next
  case (BlockString_or b2 bs) then show ?case unfolding indep_def fun_eq_iff by simp
next
  case (BlockString2_seq n b1 b2)
  then show ?case by (auto simp: indep_seq indep_power split: option.splits)
next
  case (BlockString1_star b0 mse som) then show ?case by (simp add: indep_star)
next
  case (BlockString0_block b) then show ?case unfolding indep_def fun_eq_iff by simp
next
  case (kOptGapBlock g) then show ?case unfolding indep_def fun_eq_iff by simp
next
  case (kGapBlock g) then show ?case unfolding indep_def fun_eq_iff by simp
next
  case (kObjectBlock ob) then show ?case by (simp add: indep_object)
next
  case (kObjectBlockNOTEXIST ob) then show ?case by (simp add: indep_NOTEXIST)
next
  case (GapBlock g opt)
  then show ?case by (auto simp: indep_gap option.pred_set option.set_map)
next
  case (ObjectBlock i opt)
  then show ?case by (auto simp: option.pred_set option.set_map)
next
  case (ObjectBlockString_one ob)
  then show ?case using indep_member[of "ObjectBlock_sem ob"] unfolding indep_def fun_eq_iff by simp
next
  case (ObjectBlockString_more obs ob)
  then show ?case using indep_member[of "ObjectBlock_sem ob"] unfolding indep_def fun_eq_iff by simp
qed simp_all

section \<open>What the callback is shown\<close>

text \<open>The non-empty lists of straws, one starting monad after the other, until the callback says no.\<close>

fun shown_until :: "(ListOfStraws list \<Rightarrow> bool) \<Rightarrow> ListOfStraws list \<Rightarrow> ListOfStraws list \<Rightarrow> ListOfStraws list \<times> bool" where
  "shown_until nxt sh [] = (sh, True)"
| "shown_until nxt sh (l # ls) =
     (if l = [] then shown_until nxt sh ls
      else if nxt (sh @ [l]) then shown_until nxt (sh @ [l]) ls else (sh @ [l], False))"

lemma shown_until_all: "snd (shown_until nxt sh ls) \<Longrightarrow> fst (shown_until nxt sh ls) = sh @ filter (\<lambda>l. l \<noteq> []) ls"
  by (induction nxt sh ls rule: shown_until.induct) (auto split: if_splits)

lemma shown_until_prefix: "\<exists>n. fst (shown_until nxt sh ls) = sh @ take n (filter (\<lambda>l. l \<noteq> []) ls)"
proof (induction nxt sh ls rule: shown_until.induct)
  case (2 nxt sh l ls)
  consider "l = []" | "l \<noteq> []" "nxt (sh @ [l])" | "l \<noteq> []" "\<not> nxt (sh @ [l])" by blast
  then show ?case
  proof cases
    case 2
    then obtain n where "fst (shown_until nxt (sh @ [l]) ls) = (sh @ [l]) @ take n (filter (\<lambda>l. l \<noteq> []) ls)"
      using "2.IH"(2) by blast
    then show ?thesis using 2 by (intro exI[of _ "Suc n"]) simp
  next
    case 3
    then show ?thesis by (intro exI[of _ 1]) simp
  qed (use "2.IH"(1) in simp)
qed (rule exI[of _ 0], simp)

lemma shown_until_some:
  "fst (shown_until nxt sh ls) = sh \<longleftrightarrow> (\<forall>l\<in>set ls. l = [])"
proof -
  have "length sh \<le> length (fst (shown_until nxt sh ls))" for sh ls
    using shown_until_prefix[of nxt sh ls] by auto
  then have "fst (shown_until nxt (sh @ [l]) ls) \<noteq> sh" for l ls
    by (metis Suc_n_not_le_n length_append_singleton)
  then show ?thesis by (induction ls) auto
qed

section \<open>The loop with a callback\<close>

definition told :: "MQLExecEnv \<Rightarrow> ListOfStraws list \<times> bool \<Rightarrow> MQLExecEnv" where
  "told e p = e\<lparr>ee_shown := fst p, ee_bContinueExecution := snd p\<rparr>"

lemma told_fields [simp]:
  "ee_shown (told e p) = fst p" "ee_bContinueExecution (told e p) = snd p" "ee_pCallback (told e p) = ee_pCallback e"
  "ee_all_m_1 (told e p) = ee_all_m_1 e" "ee_MQLObject (told e p) = ee_MQLObject e" "ee_endSheaf (told e p) = ee_endSheaf e"
  by (simp_all add: told_def)

lemma told_same: "same_reads (told e p) e"
  by (simp add: same_reads_def told_def)

lemma agree_told: "agree \<Gamma> ee (told e p) \<Longrightarrow> agree \<Gamma> (ee\<lparr>ee_shown := sh, ee_bContinueExecution := b\<rparr>) (told e (sh, b))"
  by (cases ee; cases e) (auto simp: agree_def told_def)

lemma ctx_told: "ctx e0 \<Gamma> e \<Longrightarrow> ctx e0 \<Gamma> (told e (sh, True))"
  by (simp add: ctx_def env_typed_def)

lemma extent_told: "extent_ok e U Su \<Longrightarrow> extent_ok (told e p) U Su"
  by (simp add: extent_ok_def monads_ok_def)

lemma callback_loop_ok:
  assumes "\<And>m sh. m \<in> set ks \<Longrightarrow> yields \<Gamma> (told e (sh, True)) (\<lambda>ee. r ee U Su m mr) (h m) \<and> straws_ok (h m)"
    and "ee_pCallback e = Some cb"
  shows "agree \<Gamma> (bl_ee s) (told e (sh, True)) \<Longrightarrow>
    returns (smi_run (\<lambda>s. ee_bContinueExecution (bl_ee s)) (blocks_step None r True store U Su mr) ks s)
      (\<lambda>t. agree \<Gamma> (bl_ee t) (told e (shown_until (cb_nextLOS cb) sh (map h ks))) \<and>
        (snd (shown_until (cb_nextLOS cb) sh (map h ks)) \<longrightarrow> bl_bSuccess t = (bl_bSuccess s \<or> (\<exists>m\<in>set ks. h m \<noteq> []))))"
  using assms(1)
proof (induction ks arbitrary: s sh)
  case (Cons m ks)
  let ?t = "told e (sh, True)"
  have m: "yields \<Gamma> ?t (\<lambda>ee. r ee U Su m mr) (h m)" and ok: "straws_ok (h m)" using Cons.prems(2)[of m sh] by auto
  obtain ee1 where e1: "r (bl_ee s) U Su m mr = Inr (h m, ee1)" "agree \<Gamma> ee1 ?t"
    using yields_returns[OF m Cons.prems(1)] by blast
  have go: "ee_bContinueExecution (bl_ee s)" using agree_fields(2)[OF Cons.prems(1)] by simp
  have cb: "ee_pCallback ee1 = Some cb" "ee_shown ee1 = sh" using agree_fields(3,6)[OF e1(2)] assms(2) by simp_all
  show ?case
  proof (cases "h m = []")
    case True
    then have "blocks_step None r True store U Su mr s m = Inr (s\<lparr>bl_ee := ee1\<rparr>, False)"
      using e1(1) by (simp add: blocks_step_def Let_def)
    moreover have "agree \<Gamma> (bl_ee (s\<lparr>bl_ee := ee1\<rparr>)) ?t" using e1(2) by simp
    note Cons.IH[OF this Cons.prems(2)]
    ultimately show ?thesis using go True by simp
  next
    case False
    let ?sh = "sh @ [h m]"
    define b where "b = cb_nextLOS cb ?sh"
    obtain s1 where s1: "blocks_step None r True store U Su mr s m = Inr (s1, False)"
      "bl_ee s1 = ee1\<lparr>ee_shown := ?sh, ee_bContinueExecution := b\<rparr>" "bl_bSuccess s1"
      using e1(1) cb False filtering_ok[OF straws_ok_wf[OF ok]]
      by (cases store) (auto simp: blocks_step_def Let_def deliver_def b_def)
    have a: "agree \<Gamma> (bl_ee s1) (told e (?sh, b))" using agree_told[OF e1(2)] s1(2) by simp
    show ?thesis
    proof (cases b)
      case True
      with a have "agree \<Gamma> (bl_ee s1) (told e (?sh, True))" by simp
      note Cons.IH[OF this Cons.prems(2)]
      then show ?thesis using go s1(1,3) False True by (simp add: b_def)
    next
      case stop: False
      then have "smi_run (\<lambda>s. ee_bContinueExecution (bl_ee s)) (blocks_step None r True store U Su mr) ks s1 = Inr s1"
        using s1(2) by (cases ks) auto
      then show ?thesis using go s1(1) a stop False by (simp add: b_def)
    qed
  qed
qed simp

end
