(* ===== verification/Topograph_Props.thy ===== *)
theory Topograph_Props
  imports TopographCallback_Props
begin

text \<open>
  What is shown of the engine of topographic queries: it returns and computes the reference
  semantics, its starting monads lose no match, callbacks are served in order, and feature
  constraints are decided.
\<close>

section \<open>Starting monads lose no match\<close>

lemma filter_first_split:
  assumes "sorted (map io_first vs)" "sorted ms" "distinct ms"
  shows "concat (map (\<lambda>m. filter (\<lambda>v. io_first v = m) vs) ms) = filter (\<lambda>v. io_first v \<in> set ms) vs"
  using assms
proof (induction ms arbitrary: vs)
  case (Cons m ms)
  have lt: "\<forall>k\<in>set ms. m < k" using Cons.prems(2,3) by (auto simp: order.order_iff_strict)
  have "filter (\<lambda>v. io_first v \<in> set (m # ms)) vs =
      filter (\<lambda>v. io_first v = m) vs @ filter (\<lambda>v. io_first v \<in> set ms) vs"
    using Cons.prems(1)
  proof (induction vs)
    case (Cons v vs)
    have "filter (\<lambda>w. io_first w = m) vs = []" if "io_first v \<in> set ms"
      using that lt Cons.prems by (force simp: filter_empty_conv)
    then show ?case using Cons lt by auto
  qed simp
  then show ?case using Cons by auto
qed simp

lemma keys_distinct: "sorted (map io_first vs) \<Longrightarrow> distinct (keys vs)"
proof (induction "length vs" arbitrary: vs rule: less_induct)
  case less
  show ?case
  proof (cases vs)
    case (Cons u us)
    let ?r = "dropWhile (\<lambda>w. io_first w \<le> io_first u) us"
    have s: "sorted (map io_first us)" "sorted (map io_first ?r)"
      using less.prems Cons by (simp_all add: sorted_map sorted_wrt_dropWhile)
    have "distinct (keys ?r)" using less.hyps[OF _ s(2)] Cons by (simp add: le_imp_less_Suc length_dropWhile_le)
    moreover have "io_first u \<notin> io_first ` set ?r"
    proof
      assume "io_first u \<in> io_first ` set ?r"
      then obtain w where w: "w \<in> set ?r" "io_first w = io_first u" by auto
      then obtain h t where ht: "?r = h # t" by (cases ?r) auto
      then have "\<not> io_first h \<le> io_first u" by (metis hd_dropWhile list.distinct(1) list.sel(1))
      moreover have "io_first h \<le> io_first w" using s(2) w(1) ht by auto
      ultimately show False using w(2) by simp
    qed
    ultimately show ?thesis using Cons less.prems by (simp add: keys_Cons)
  qed simp
qed

lemma inst_starts_props:
  assumes "sorted (map io_first vs)"
  shows "sorted (inst_starts vs f l m)" "distinct (inst_starts vs f l m)"
    "\<And>v. v \<in> set vs \<Longrightarrow> f \<le> io_first v \<Longrightarrow> io_first v \<le> l \<Longrightarrow> m \<le> io_first v \<Longrightarrow> io_first v \<in> set (inst_starts vs f l m)"
proof -
  let ?ks = "filter (\<lambda>m. f \<le> m) (keys vs)"
  have ks: "sorted ?ks" "distinct ?ks"
    using keys_distinct[OF assms] assms by (simp_all add: keys_def sorted_remdups_adj sorted_wrt_filter)
  show "sorted (inst_starts vs f l m)"
    unfolding inst_starts_def using cut_keys_sorted[OF ks(1)] by (simp add: sorted_wrt_filter)
  have "distinct (cut_keys l ?ks)" using ks(2) by (cases ?ks) (auto simp: cut_keys_def distinct_takeWhile dest: set_takeWhileD)
  then show "distinct (inst_starts vs f l m)" by (simp add: inst_starts_def)
  fix v assume v: "v \<in> set vs" "f \<le> io_first v" "io_first v \<le> l" "m \<le> io_first v"
  then have "io_first v \<in> set ?ks" by simp
  moreover have "k \<in> set (takeWhile (\<lambda>x. x \<le> l) xs)" if "sorted xs" "k \<in> set xs" "k \<le> l" for xs k
    using that by (induction xs) auto
  ultimately have "io_first v \<in> set (cut_keys l ?ks)"
    using ks(1) v(3) by (cases ?ks) (auto simp: cut_keys_def)
  then show "io_first v \<in> set (inst_starts vs f l m)" using v(4) by (simp add: inst_starts_def)
qed

lemma ob_objects_sorted: "ob_ok K e0 \<Gamma> ob \<Longrightarrow> sorted (map io_first (ob_objects ob))"
proof -
  assume "ob_ok K e0 \<Gamma> ob"
  then obtain i where "ob_inst ob = Some i" "ic_abs (in_contents i) (ob_objects ob)"
    "sl_abs (ic_sl (in_contents i)) (ob_objects ob)" "\<forall>v\<in>set (ob_objects ob). object_ok e0 (K (ob_nn ob)) v" by (rule ob_okD)
  from sit_at_begin[OF this(3)] show ?thesis by (auto simp: returns_iff dest: sit_at_sorted)
qed

lemma starts_scan:
  assumes ob: "ob_ok K e0 \<Gamma> ob" "\<not> ob_bIsNOTEXIST ob" and x: "extent_ok e U Su"
    and v: "v \<in> set (ob_objects ob)" "m_first Su \<le> io_first v" "io_first v \<le> m_last Su"
  shows "io_first v \<in> set (snd (ob_starts ob e Su (m_first Su) b))"
proof -
  note xd = extent_okD[OF x]
  note bd = som_wf_bounds[OF xd(3,4)]
  have s: "sorted (map io_first (ob_objects ob))" by (rule ob_objects_sorted[OF ob(1)])
  obtain lower upper where lu: "smi_bounds_inside e ob Su (m_first Su) = (lower, upper)" by fastforce
  have b: "lower \<le> m_first Su" "m_last Su \<le> upper"
    using lu xd(4-11) by (auto simp: smi_bounds_inside_def SetOfMonads_isEmpty_def MYMAX_def MYMIN_def split: if_splits)
  have "x \<in> {lower..upper}" if "x \<in> som_set Su" for x
    using Min_le[OF bd(7) that] Max_ge[OF bd(7) that] b bd(1,2) by simp
  then have S: "som_set Su \<inter> {lower..upper} = som_set Su" by blast
  show ?thesis
    using inst_starts_props(3)[OF s v(1,2,3), of lower] b(1) v(2) ob(2)
    by (simp add: ob_starts_def lu S bd(1,2)[symmetric])
qed

lemma first_in_object: "InstObject_ok v \<Longrightarrow> io_first v \<in> object_set v"
proof -
  assume v: "InstObject_ok v"
  have "object_set v \<noteq> {}" "finite (object_set v)"
    using som_wf_bounds(6,7)[OF object_monads_ok(2,3)[OF v]] object_monads_ok(4)[OF v] by simp_all
  then show ?thesis using Min_in InstObject_ok_range(4)[OF v] by simp
qed

text \<open>A relation that keeps the objects' first monads within the substrate.\<close>

lemma sem_match_outside:
  assumes "InstObject_ok v" "extent_ok e U Su" "msrc_operation (ob_MSRC ob) \<noteq> kMSROOverlap"
    "\<not> (m_first Su \<le> io_first v \<and> io_first v \<le> m_last Su)"
  shows "sem_match ob f e U Su v = []"
proof -
  note xd = extent_okD[OF assms(2)]
  have b: "m_first Su \<le> x \<and> x \<le> m_last Su" if "x \<in> som_set Su \<or> x \<in> som_set U" for x
    using that Min_le[OF som_wf_bounds(7)] Max_ge[OF som_wf_bounds(7)] som_wf_bounds(1,2)[OF xd(1,2)] 
      som_wf_bounds(1,2)[OF xd(3,4)] xd(1-4,8,9) by metis
  have "io_first v \<in> object_set v" by (rule first_in_object[OF assms(1)])
  then have "\<not> related (ob_MSRC ob) v U Su"
    using b assms(3,4) by (cases "msrc_operation (ob_MSRC ob)") (auto simp: related_def Let_def split: eUniverseOrSubstrate.splits)
  then show ?thesis by (simp add: sem_match_def)
qed

text \<open>All objects of the block, matched one after the other.\<close>

definition scan :: "ObjectBlockInfo \<Rightarrow> blocks_sem option \<Rightarrow> MQLExecEnv \<Rightarrow> SetOfMonads \<Rightarrow> SetOfMonads \<Rightarrow> Straw list" where
  "scan ob f e U Su = concat (map (sem_match ob f e U Su) (ob_objects ob))"

lemma concat_map_concat: "concat (map f (concat xss)) = concat (map (\<lambda>xs. concat (map f xs)) xss)"
  by (induction xss) simp_all

lemma concat_map_filter_Nil: "(\<And>x. x \<in> set xs \<Longrightarrow> \<not> P x \<Longrightarrow> f x = []) \<Longrightarrow> concat (map f (filter P xs)) = concat (map f xs)"
  by (induction xs) auto

lemma starts_scan_all:
  assumes ob: "ob_ok K e0 \<Gamma> ob" "\<not> ob_bIsNOTEXIST ob" and x: "extent_ok e U Su"
  shows "concat (map (sem_object ob f e U Su) (snd (ob_starts ob e Su (m_first Su) b))) = scan ob f e U Su"
proof -
  let ?vs = "ob_objects ob" and ?ms = "snd (ob_starts ob e Su (m_first Su) b)"
  obtain i where i: "ob_inst ob = Some i" "ic_abs (in_contents i) ?vs"
    "sl_abs (ic_sl (in_contents i)) ?vs" "\<forall>v\<in>set ?vs. object_ok e0 (K (ob_nn ob)) v" by (rule ob_okD[OF ob(1)])
  have ov: "msrc_operation (ob_MSRC ob) \<noteq> kMSROOverlap" using ob(1) by (simp add: ob_ok_def Let_def)
  have out: "sem_match ob f e U Su v = []" if "v \<in> set ?vs" "io_first v \<notin> set ?ms" for v
    using sem_match_outside[OF _ x ov] starts_scan[OF ob x that(1)] that i(4) by (auto simp: object_ok_def)
  note s = ob_objects_sorted[OF ob(1)]
  have "sorted ?ms" "distinct ?ms"
    using inst_starts_props(1,2)[OF s] ob(2) by (simp_all add: ob_starts_def case_prod_unfold Let_def)
  from filter_first_split[OF s this]
  have "concat (map (sem_object ob f e U Su) ?ms) = concat (map (sem_match ob f e U Su) (filter (\<lambda>v. io_first v \<in> set ?ms) ?vs))"
    using concat_map_concat[of "sem_match ob f e U Su" "map (\<lambda>m. filter (\<lambda>v. io_first v = m) ?vs) ?ms"]
    by (simp add: sem_object_def[abs_def] comp_def)
  also have "\<dots> = scan ob f e U Su" unfolding scan_def by (rule concat_map_filter_Nil) (use out in blast)
  finally show ?thesis .
qed

section \<open>Queries of one and of two object blocks\<close>

definition object_block_string :: "ObjectBlockInfo \<Rightarrow> Blocks option \<Rightarrow> BlockString1" where
  "object_block_string ob inner = BlockString1_bs0 (BlockString0_block (kObjectBlock (ObjectBlock ob inner)))"

definition bs2_info :: "int \<Rightarrow> BlockString2Info" where
  "bs2_info nn = \<lparr>bs2_node_number = nn, bs2_parent = -1, bs2_bIsExclamation = False\<rparr>"

definition one_block :: "ObjectBlockInfo \<Rightarrow> Blocks option \<Rightarrow> Blocks" where
  "one_block ob inner = Blocks_string (BlockString_bs2 (BlockString2_bs1 (bs2_info 0) (object_block_string ob inner))) None"

definition two_blocks :: "int \<Rightarrow> ObjectBlockInfo \<Rightarrow> Blocks option \<Rightarrow> ObjectBlockInfo \<Rightarrow> Blocks option \<Rightarrow> Blocks" where
  "two_blocks nn a a_inner b b_inner =
     Blocks_string (BlockString_bs2 (BlockString2_seq (bs2_info nn) (object_block_string a a_inner)
       (BlockString2_bs1 (bs2_info 0) (object_block_string b b_inner)))) None"

text \<open>The sheaf of a list of straws: failed without straws, and only what is to be retrieved is kept.\<close>

definition answer :: "Straw list \<Rightarrow> Sheaf" where
  "answer los = Sheaf (if los = [] then None else Some (kept_straws los))"

lemma one_block_sem:
  assumes "Blocks_ok (one_block ob inner) K e0 \<Gamma>" "extent_ok e U Su"
  shows "Sheaf (Blocks_sem (one_block ob inner) e U Su mr) = answer (scan ob (map_option Blocks_sem inner) e U Su)"
proof -
  have ob: "ob_ok K e0 \<Gamma> ob" "\<not> ob_bIsNOTEXIST ob" using assms(1) by (simp_all add: one_block_def object_block_string_def)
  show ?thesis using starts_scan_all[OF ob assms(2), of "map_option Blocks_sem inner" True]
    by (simp add: one_block_def object_block_string_def sem_blocks_string_def answer_def Let_def)
qed

lemma two_blocks_sem:
  assumes "Blocks_ok (two_blocks nn a a_inner b b_inner) K e0 \<Gamma>" "extent_ok e U Su"
  shows "Sheaf (Blocks_sem (two_blocks nn a a_inner b b_inner) e U Su mr) = answer
    [straw_join s t. s \<leftarrow> scan a (map_option Blocks_sem a_inner) e U Su,
       w \<leftarrow> filter (\<lambda>w. io_first w = straw_last s + 1) (ob_objects b), t \<leftarrow> sem_match b (map_option Blocks_sem b_inner) e U Su w]"
proof -
  have ob: "ob_ok K e0 \<Gamma> a" "\<not> ob_bIsNOTEXIST a" using assms(1) by (simp_all add: two_blocks_def object_block_string_def)
  let ?ss = "map (sem_object a (map_option Blocks_sem a_inner) e U Su) (snd (ob_starts a e Su (m_first Su) True))"
  let ?g = "\<lambda>s. map (straw_join s) (sem_object b (map_option Blocks_sem b_inner) e U Su (straw_last s + 1))"
  have "concat (map (\<lambda>l. concat (map ?g l)) ?ss) = concat (map ?g (scan a (map_option Blocks_sem a_inner) e U Su))"
    using concat_map_concat[of ?g ?ss] starts_scan_all[OF ob assms(2)] by simp
  moreover have "map f (concat ls) = concat (map (map f) ls)" for f :: "Straw \<Rightarrow> Straw" and ls by (rule map_concat)
  ultimately show ?thesis
    by (simp add: two_blocks_def object_block_string_def sem_blocks_string_def answer_def Let_def sem_seq_def[abs_def]
        sem_object_def comp_def)
qed

section \<open>The claims\<close>

lemma ctx_start: "ee_bContinueExecution e \<Longrightarrow> ctx e Map.empty e"
  by (simp add: ctx_def env_typed_def)

lemma engine_returns:
  assumes "Blocks_ok t K e Map.empty" "extent_ok e U Su" "limit_ok mr" "ee_bContinueExecution e" "ee_pCallback e = None"
  shows "returns (R_topograph e U Su mr t) (\<lambda>(s, ee). s = Sheaf (Blocks_sem t e U Su mr) \<and> agree Map.empty ee e)"
    "sheaf_wf (Sheaf (Blocks_sem t e U Su mr))"
  using blocks_runD[OF engine_runs(1)[OF assms(1)] ctx_start[OF assms(4)] assms(2,3), of True] assms(5)
  by (auto simp: R_topograph_def yields_def)

text \<open>Three words at the monads 1 to 3, with the values 1, 2 and 1 of their only feature.\<close>

definition demo_word :: "id_d_t \<Rightarrow> monad_m \<Rightarrow> int \<Rightarrow> InstObject" where
  "demo_word d m n = InstObject_new d m m (Some [kEVInt n])"

definition demo_words :: "InstObject list" where
  "demo_words = [demo_word 11 1 1, demo_word 12 2 2, demo_word 13 3 1]"

definition demo_inst :: Inst where
  "demo_inst = \<lparr>in_first_monad = 1, in_last_monad = 3, in_contents =
     (case foldM_res (\<lambda>c v. InstContents_addObject c v (io_first v) (InstObject_last v)) InstContents_new demo_words of
        Inl e \<Rightarrow> InstContents_new | Inr c \<Rightarrow> c)\<rparr>"

lemma demo_word_simps [simp]:
  "io_first (demo_word d m n) = m" "io_id_d (demo_word d m n) = d" "InstObject_last (demo_word d m n) = m"
  "InstObject_ok (demo_word d m n) \<longleftrightarrow> 0 \<le> m \<and> m \<le> MAX_MONAD" "io_features (demo_word d m n) = Some [kEVInt n]"
  "object_monads (demo_word d m n) = solid m m" "object_set (demo_word d m n) = {m}"
  by (simp_all add: demo_word_def InstObject_new_def InstObject_last_def InstObject_ok_def object_monads_def object_set_def)

lemma demo_inst_abs: "ic_abs (in_contents demo_inst) demo_words"
proof -
  have ok: "\<forall>v\<in>set demo_words. InstObject_ok v" by (simp add: demo_words_def MAX_MONAD_def)
  have "returns (foldM_res (\<lambda>c v. InstContents_addObject c v (io_first v) (InstObject_last v)) InstContents_new demo_words)
     (\<lambda>c. ic_abs c (foldl (\<lambda>a v. insort_key obj_key v a) [] demo_words) \<and> \<not> ic_is_frozen c)"
  proof (rule foldM_res_refines[where R = "\<lambda>c vs. ic_abs c vs \<and> \<not> ic_is_frozen c"])
    show "ic_abs InstContents_new [] \<and> \<not> ic_is_frozen InstContents_new" using ic_abs_new by (simp add: InstContents_new_def)
  qed (use ok ic_abs_addObject in blast)
  then show ?thesis by (auto simp: returns_iff demo_inst_def demo_words_def obj_key_def)
qed

lemma demo_inst_objects [simp]: "inst_objects demo_inst = demo_words"
  using inst_objects_ok[of demo_inst demo_words] demo_inst_abs by (simp add: ic_abs_def)

text \<open>The query \<^verbatim>\<open>[word n = 1] [word n = 2]\<close>.\<close>

definition demo_base :: "int \<Rightarrow> ObjectBlockBase" where
  "demo_base nn = \<lparr>obb_node_number = nn, obb_retrieval = kRetrieve, obb_object_type_name = ''word'', obb_object_type_id = 7,
     obb_NoOfGET_features = 0, obb_Feature_retrieval_vec = [], obb_mark = []\<rparr>"

definition demo_constraint :: "int \<Rightarrow> FeatureConstraint" where
  "demo_constraint n = \<lparr>ffc_ffeatures = FFeatures_fterm (FTerm_ffactor (FFactor_comparison
      \<lparr>fc_feature_index = 0, fc_comparison_op = kEqual, fc_value = Some (kValInteger n), fc_in_enum_list = None,
       fc_in_integer_list = None, fc_pcre = [],
       fc_output_type = 0, fc_feature_name = ''surface''\<rparr>)), ffc_hasNonParentORUs = False, ffc_BlockString2List = [], ffc_OBBs = [],
      ffc_node_number = 0, ffc_block_string2_parent = 0\<rparr>"

definition demo_ob :: "int \<Rightarrow> int \<Rightarrow> ObjectBlockInfo" where
  "demo_ob nn n = \<lparr>ob_base = demo_base nn, ob_pOBB = Some (demo_base nn), ob_first_last = kNoFirstLast,
     ob_feature_constraints = Some (demo_constraint n),
     ob_MSRC = \<lparr>msrc_operation = kMSROPartOf, msrc_our_monad_set = ''monads'', msrc_universe_or_substrate = kMSNSubstrate,
       msrc_feature_type_id = 0\<rparr>,
     ob_inst = Some demo_inst, ob_Feature_retrieval_vec = [], ob_bIsNOTEXIST = False, ob_bIsAfterNonNOTEXIST = False,
     ob_bBlockStringHasOnlyNOTEXIST = False, ob_largest_object_length = 1, ob_object_reference_lower = [],
     ob_objectRangeType = kORTSingleRange, ob_object = [''surface''], ob_bIsFirstInBlockString = True, ob_bIsLastInBlockString = True,
     ob_block_string2_parent = 0\<rparr>"

definition demo_query :: Blocks where
  "demo_query = two_blocks 9 (demo_ob 1 1) None (demo_ob 2 2) None"

definition demo_kinds :: schema where
  "demo_kinds nn = [K_int]"

definition demo_env :: "MQLResultCallback option \<Rightarrow> MQLExecEnv" where
  "demo_env cb = \<lparr>ee_all_m_1 = solid 1 3, ee_bContinueExecution = True, ee_pCallback = cb, ee_shown = [], ee_endSheaf = [],
     ee_ORUStraw = (\<lambda>_. None), ee_MQLObject = (\<lambda>_. [None]), ee_pcre_exec = (\<lambda>_ _. 0), ee_getInst = (\<lambda>_ _. Inl NullDeref)\<rparr>"

lemma demo_solid: "som_wf (solid 1 3)" "som_set (solid 1 3) = {1..3}"
  using solid_ok[of 1 3] by (simp_all add: MAX_MONAD_def)

lemma demo_ob_ok: "ob_ok demo_kinds (demo_env cb) Map.empty (demo_ob nn n)"
proof -
  have "object_ok (demo_env cb) [K_int] v" if "v \<in> set demo_words" for v
    using that solid_ok[of "io_first v" "io_first v"]
    by (auto simp: object_ok_def demo_words_def monads_ok_def demo_env_def solid_def MAX_MONAD_def)
  then have "inst_ok (demo_env cb) [K_int] demo_inst" using demo_inst_abs by (auto simp: inst_ok_def)
  then show ?thesis
    by (simp add: ob_ok_def ob_nn_def demo_ob_def demo_base_def demo_kinds_def demo_env_def constraint_ok_def demo_constraint_def
        fc_typed_def value_typed_def fc_list_def is_reference_def comparable_def intlike_def order_op_def retrieval_ok_def)
qed

lemma demo_query_ok:
  "Blocks_ok demo_query demo_kinds (demo_env cb) Map.empty" "extent_ok (demo_env cb) (solid 1 3) (solid 1 3)"
  "ee_bContinueExecution (demo_env cb)" "ee_pCallback (demo_env cb) = cb"
  using demo_ob_ok[of cb 1 1] demo_ob_ok[of cb 2 2] demo_solid
  by (simp_all add: demo_query_def two_blocks_def object_block_string_def demo_ob_def extent_ok_def monads_ok_def)
    (simp_all add: solid_def demo_env_def)

text \<open>How the objects of the query match.\<close>

definition demo_match :: "int \<Rightarrow> id_d_t \<Rightarrow> monad_m \<Rightarrow> MatchedObject" where
  "demo_match nn d m = MatchedObject m (U_first m) d (Some (demo_base nn)) (V_vec None) None"

lemma demo_matches [simp]:
  "sem_match (demo_ob nn n) None (demo_env cb) (solid 1 3) (solid 1 3) (demo_word d m k) =
     (if 1 \<le> m \<and> m \<le> 3 \<and> k = n then [straw_of [demo_match nn d m]] else [])"
proof -
  have "constraint_sat (ob_feature_constraints (demo_ob nn n)) (bind_object (demo_env cb) nn (demo_word d m k)) nn \<longleftrightarrow> k = n"
    by (simp add: constraint_sat_def demo_ob_def demo_constraint_def bind_object_def demo_env_def fc_sat_def fc_list_def
        comparison_spec_def by_order_def order_op_def)
  moreover have "related (ob_MSRC (demo_ob nn n)) (demo_word d m k) (solid 1 3) (solid 1 3) \<longleftrightarrow> 1 \<le> m \<and> m \<le> 3"
    using demo_solid by (simp add: related_def demo_ob_def)
  moreover have "matched (demo_ob nn n) e (demo_word d m j) None = demo_match nn d m" for e j
    by (simp add: matched_def retrieved_values_def demo_ob_def demo_match_def MatchedObject_id_d_def mo_set_values_def
        pack_monads_def solid_def SetOfMonads_hasOnlyOneMSE_def)
  moreover have "ob_nn (demo_ob nn n) = nn" "ob_first_last (demo_ob nn n) = kNoFirstLast"
    by (simp_all add: ob_nn_def demo_ob_def demo_base_def)
  ultimately show ?thesis by (simp add: sem_match_def Let_def first_last_ok_def inner_sem_def)
qed

lemma demo_objects [simp]: "ob_objects (demo_ob nn n) = demo_words"
  by (simp add: ob_objects_def demo_ob_def)

lemma demo_match_retrieved [simp]: "0 \<le> d \<Longrightarrow> retrieved (demo_match nn d m)"
  by (simp add: demo_match_def retrieved_def isToBeRetrieved_def demo_base_def isID_D_def)

text \<open>The reference semantics of the query: the words at 1 and 2, next to each other.\<close>

lemma demo_answer: "Sheaf (Blocks_sem demo_query (demo_env cb) (solid 1 3) (solid 1 3) mr) =
    Sheaf (Some [straw_of [demo_match 1 11 1, demo_match 2 12 2]])"
proof -
  have "straw_last (straw_of [demo_match nn d m]) = m" if "0 \<le> m" for nn d m
    using that by (simp add: straw_of_def demo_match_def mo_getLast_def)
  then show ?thesis
    using two_blocks_sem[OF demo_query_ok(1)[of cb, unfolded demo_query_def] demo_query_ok(2)]
    by (simp add: demo_query_def scan_def demo_words_def answer_def kept_straws_def straw_join_def straw_of_def)
qed

text \<open>C1: The engine of topographic queries computes the reference semantics. On a well-formed
  query (well-typed constraints, no \<^verbatim>\<open>USING RANGE\<close>, no overlap relation, references to parents only,
  limits of power blocks that stay within 32 bits), a substrate within the database's monads and no
  callback, \<open>R_topograph\<close> returns, with exactly the sheaf that the query denotes. The sheaf is
  well-formed, and nothing of the environment has changed but the tables and straws it works with.\<close>

theorem R_topograph_meets_reference:
  assumes "Blocks_ok t K e Map.empty" "extent_ok e U Su" "limit_ok mr" "ee_bContinueExecution e" "ee_pCallback e = None"
  shows "\<exists>ee. R_topograph e U Su mr t = Inr (Sheaf (Blocks_sem t e U Su mr), ee) \<and>
    agree Map.empty ee e \<and> sheaf_wf (Sheaf (Blocks_sem t e U Su mr))"
  using engine_returns[OF assms] by (auto simp: returns_iff)

theorem R_topograph_meets_reference_witness:
  "\<exists>ee. R_topograph (demo_env None) (solid 1 3) (solid 1 3) MAX_MONAD demo_query =
     Inr (Sheaf (Some [straw_of [demo_match 1 11 1, demo_match 2 12 2]]), ee)"
  using R_topograph_meets_reference[OF demo_query_ok(1,2) limit_ok_MAX demo_query_ok(3), of None]
  by (auto simp: demo_query_ok demo_answer)

text \<open>C3: The starting monads lose no match. A query of one object block finds what matching all
  objects of the block, one after the other, finds; a query of two adjacent object blocks finds the
  straws of a nested loop over the objects of both, where the second object starts on the monad
  after the last of the first. Inner blocks may be anything well-formed.\<close>

theorem object_blocks_scan:
  assumes "extent_ok e U Su" "limit_ok mr" "ee_bContinueExecution e" "ee_pCallback e = None"
    and "Blocks_ok (two_blocks nn a a_inner b b_inner) K e Map.empty"
  shows "returns (R_topograph e U Su mr (one_block a a_inner))
      (\<lambda>(s, ee). s = answer (scan a (map_option Blocks_sem a_inner) e U Su)) \<and>
    returns (R_topograph e U Su mr (two_blocks nn a a_inner b b_inner))
      (\<lambda>(s, ee). s = answer [straw_join s t. s \<leftarrow> scan a (map_option Blocks_sem a_inner) e U Su,
         w \<leftarrow> filter (\<lambda>w. io_first w = straw_last s + 1) (ob_objects b),
         t \<leftarrow> sem_match b (map_option Blocks_sem b_inner) e U Su w])"
proof
  have one: "Blocks_ok (one_block a a_inner) K e Map.empty"
    using assms(5) by (simp add: one_block_def two_blocks_def object_block_string_def)
  show "returns (R_topograph e U Su mr (one_block a a_inner))
      (\<lambda>(s, ee). s = answer (scan a (map_option Blocks_sem a_inner) e U Su))"
    using engine_returns(1)[OF one assms(1-4)] one_block_sem[OF one assms(1)] by (auto elim!: returns_mono)
  show "returns (R_topograph e U Su mr (two_blocks nn a a_inner b b_inner))
      (\<lambda>(s, ee). s = answer [straw_join s t. s \<leftarrow> scan a (map_option Blocks_sem a_inner) e U Su,
         w \<leftarrow> filter (\<lambda>w. io_first w = straw_last s + 1) (ob_objects b),
         t \<leftarrow> sem_match b (map_option Blocks_sem b_inner) e U Su w])"
    using engine_returns(1)[OF assms(5) assms(1-4)] two_blocks_sem[OF assms(5) assms(1)] by (auto elim!: returns_mono)
qed

theorem object_blocks_scan_witness:
  "returns (R_topograph (demo_env None) (solid 1 3) (solid 1 3) MAX_MONAD (one_block (demo_ob 1 1) None))
     (\<lambda>(s, ee). s = Sheaf (Some [straw_of [demo_match 1 11 1], straw_of [demo_match 1 13 3]]))"
proof -
  have "answer (scan (demo_ob 1 1) None (demo_env None) (solid 1 3) (solid 1 3)) =
      Sheaf (Some [straw_of [demo_match 1 11 1], straw_of [demo_match 1 13 3]])"
    by (simp add: scan_def demo_words_def answer_def kept_straws_def straw_of_def)
  then show ?thesis
    using object_blocks_scan[OF demo_query_ok(2) limit_ok_MAX demo_query_ok(3,4) demo_query_ok(1)[unfolded demo_query_def]]
    by simp
qed

text \<open>What a callback is told of a string of blocks, and what the query returns.\<close>

definition callback_shown :: "MQLResultCallback \<Rightarrow> MQLExecEnv \<Rightarrow> SetOfMonads \<Rightarrow> SetOfMonads \<Rightarrow> monad_m \<Rightarrow> BlockString \<Rightarrow> ListOfStraws list \<times> bool" where
  "callback_shown cb e U Su mr bs =
     shown_until (cb_nextLOS cb) (ee_shown e)
       (map (\<lambda>m. BlockString_sem bs e U Su m mr) (snd (BlockString_starts bs e U Su (m_first Su))))"

text \<open>The straws shown to a callback that never stops the query are those of the query without one.\<close>

lemma shown_is_sheaf:
  assumes "snd (callback_shown cb e U Su mr bs)" "ee_shown e = []"
  shows "answer (concat (fst (callback_shown cb e U Su mr bs))) = Sheaf (Blocks_sem (Blocks_string bs None) e U Su mr)"
proof -
  have "concat (filter (\<lambda>l. l \<noteq> []) ls) = concat ls" for ls :: "Straw list list" by (induction ls) auto
  then show ?thesis
    using shown_until_all[OF assms(1)[unfolded callback_shown_def]] assms(2)
    by (simp add: callback_shown_def answer_def sem_blocks_string_def Let_def)
qed

lemma R_blocks_string_callback:
  assumes "runs e \<Gamma> r f" "starts_at e \<Gamma> smi st" "indep f" "ctx e \<Gamma> e" "extent_ok e U Su" "limit_ok mr"
    and cb: "ee_pCallback e = Some cb" "fst (cb_startSheaf cb)"
    and p: "p = shown_until (cb_nextLOS cb) (ee_shown e) (map (\<lambda>m. f e U Su m mr) (snd (st e U Su (m_first Su))))"
  shows "returns (R_blocks_string None smi r e U Su True mr) (\<lambda>(s, ee).
    s = Sheaf (if snd p \<and> fst p \<noteq> ee_shown e then Some [] else None) \<and>
    ee_shown ee = fst p \<and> ee_endSheaf ee = ee_endSheaf e @ [\<not> (snd p \<and> fst p \<noteq> ee_shown e)])"
proof -
  note x = extent_okD[OF assms(5)]
  let ?ks = "snd (st e U Su (m_first Su))" and ?h = "\<lambda>m. f e U Su m mr"
  have go: "ee_bContinueExecution e" using assms(4) by (simp add: ctx_def)
  have e1: "e\<lparr>ee_bContinueExecution := True\<rparr> = e" using go by simp
  obtain i where i: "smi e U Su (m_first Su) = Inr i" "smi_at i ?ks" and ok: "\<forall>m\<in>set ?ks. monad_ok m"
    using starts_atD[OF assms(2,4,5) x(5,7) agree_refl] by (auto simp: returns_iff)
  have run: "yields \<Gamma> (told e (sh, True)) (\<lambda>ee. r ee U Su m mr) (?h m) \<and> straws_ok (?h m)" if "m \<in> set ?ks" for m sh
    using runsD[OF assms(1) ctx_told[OF assms(4), of sh] extent_told[OF assms(5), of "(sh, True)"] assms(6), of m] ok that
      indepD[OF assms(3) told_same, of e "(sh, True)"] by simp
  have start: "told e (ee_shown e, True) = e" using assms(4) by (simp add: told_def ctx_def)
  let ?s = "\<lparr>bl_ee = e, bl_pResultLOS = [], bl_bSuccess = False, bl_count = 0\<rparr>"
  obtain t where t: "smi_run (\<lambda>s. ee_bContinueExecution (bl_ee s)) (blocks_step None r True (snd (cb_startSheaf cb)) U Su mr) ?ks ?s = Inr t"
    "agree \<Gamma> (bl_ee t) (told e p)" "snd p \<longrightarrow> bl_bSuccess t = (\<exists>m\<in>set ?ks. ?h m \<noteq> [])"
    using callback_loop_ok[where h = ?h and s = ?s and sh = "ee_shown e" and store = "snd (cb_startSheaf cb)" and r = r and
      \<Gamma> = \<Gamma> and e = e and U = U and Su = Su and mr = mr and ks = ?ks, OF run cb(1)] start
    by (auto simp: returns_iff p)
  have "fst p \<noteq> ee_shown e \<longleftrightarrow> (\<exists>m\<in>set ?ks. ?h m \<noteq> [])" unfolding p shown_until_some by auto
  then have s: "snd p \<Longrightarrow> bl_bSuccess t \<longleftrightarrow> fst p \<noteq> ee_shown e" using t(3) by simp
  have code: "R_blocks_string None smi r e U Su True mr = Inr (blocks_finish True (bl_ee t) (bl_pResultLOS t) (bl_bSuccess t))"
    using cb i(1) t(1) go by (simp add: R_blocks_string_def smi_loop_fold[OF i(2)] e1)
  note a = agree_fields(2,3,6,7)[OF t(2)]
  show ?thesis using a cb(1) s unfolding code
    by (cases "snd p") (auto simp: blocks_finish_def endSheaf_def Sheaf_new_def)
qed

text \<open>An unordered group at the top: the callback is only told the end.\<close>

lemma R_blocks_unordered_callback:
  assumes "members_run e \<Gamma> ms g" "ctx e \<Gamma> e" "extent_ok e U Su" "ee_pCallback e = Some cb"
  shows "returns (R_blocks_unordered ms e U Su True mr) (\<lambda>(s, ee).
    s = Sheaf (map_option (\<lambda>_. []) (sem_unordered g e U Su mr)) \<and>
    ee_shown ee = ee_shown e \<and> ee_endSheaf ee = ee_endSheaf e @ [sem_unordered g e U Su mr = None])"
proof -
  have "yields \<Gamma> e (\<lambda>ee. foldM_res (R_group_member U Su) ([], ee) ms) (rev (g e U Su))"
    using assms(1)[unfolded members_run_def, rule_format, OF assms(2,3), of "[]"] by simp
  then obtain ee1 where e1: "foldM_res (R_group_member U Su) ([], e) ms = Inr (rev (g e U Su), ee1)" "agree \<Gamma> ee1 e"
    using yields_returns[OF _ agree_refl, of \<Gamma> e "\<lambda>ee. foldM_res (R_group_member U Su) ([], ee) ms"] by auto
  note a = agree_fields(2,3,6,7)[OF e1(2)]
  have go: "ee_bContinueExecution e" using assms(2) by (simp add: ctx_def)
  let ?all = "\<forall>l\<in>set (g e U Su). l \<noteq> []"
  have sem: "sem_unordered g e U Su mr = (if ?all then Some (concat (g e U Su)) else None)"
    by (auto simp: sem_unordered_def Let_def)
  have code: "R_blocks_unordered ms e U Su True mr =
      Inr (blocks_finish True ee1 (foldl appendAndSubsume [] (g e U Su)) ?all)"
    by (simp add: R_blocks_unordered_def e1(1))
  show ?thesis
    using a go assms(4) unfolding code sem by (cases ?all) (simp_all add: blocks_finish_def endSheaf_def Sheaf_new_def)
qed

text \<open>C2: A topograph with a callback, without \<^verbatim>\<open>USING RANGE\<close> (and without overlap relations and
  references to objects that are no parents); the query always comes to its end. A string of
  blocks: if \<open>startSheaf\<close> says no, nothing is shown and \<open>endSheaf\<close> is called with failure.
  Otherwise the callback is shown, in order, the straws of each starting monad that has any, up to
  and including the list at which it says no; then \<open>endSheaf\<close> is called exactly once, with success
  exactly if the callback never said no and was shown something, and the sheaf returned is empty or
  failed accordingly. So after a no the sheaf is failed although \<open>nextLOS\<close> was called, as the
  comment of \<open>endSheaf\<close> says and against the comment of \<open>nextLOS\<close> in
  \<^verbatim>\<open>mql_execution_environment.h\<close>. A callback that goes on to the end has been shown the straws of
  the sheaf that the same query returns without a callback. An unordered group: neither
  \<open>startSheaf\<close> nor \<open>nextLOS\<close> is called, whatever they would answer; nothing is shown, \<open>endSheaf\<close> is
  called once, with failure exactly if some block of the group matches nothing, and the straws are
  dropped: the sheaf returned is empty or failed.\<close>

theorem callback_is_served:
  assumes "Blocks_ok t K e Map.empty" "extent_ok e U Su" "limit_ok mr" "ee_bContinueExecution e" "ee_pCallback e = Some cb"
  shows "returns (R_topograph e U Su mr t) (\<lambda>(s, ee).
      case t of
        Blocks_string bs ur \<Rightarrow>
          if fst (cb_startSheaf cb)
          then (case callback_shown cb e U Su mr bs of (shown, go) \<Rightarrow>
                  ee_shown ee = shown \<and>
                  ee_endSheaf ee = ee_endSheaf e @ [\<not> (go \<and> shown \<noteq> ee_shown e)] \<and>
                  s = Sheaf (if go \<and> shown \<noteq> ee_shown e then Some [] else None) \<and>
                  (go \<and> ee_shown e = [] \<longrightarrow> answer (concat shown) = Sheaf (Blocks_sem (Blocks_string bs None) e U Su mr)))
          else s = Sheaf None \<and> ee_shown ee = ee_shown e \<and> ee_endSheaf ee = ee_endSheaf e @ [True]
      | Blocks_unordered obs \<Rightarrow>
          ee_shown ee = ee_shown e \<and>
          ee_endSheaf ee = ee_endSheaf e @ [\<not> (\<forall>los\<in>set (ObjectBlockString_sem obs e U Su). los \<noteq> [])] \<and>
          s = Sheaf (if \<forall>los\<in>set (ObjectBlockString_sem obs e U Su). los \<noteq> [] then Some [] else None))"
proof (cases t)
  case t: (Blocks_string bs ur)
  then have ok: "ur = None" "BlockString_ok bs K e Map.empty" using assms(1) by simp_all
  show ?thesis
  proof (cases "fst (cb_startSheaf cb)")
    case True
    note run = R_blocks_string_callback[OF engine_runs(2)[OF ok(2)] getSMI_starts(2)[OF ok(2)] sem_indep(2)
        ctx_start[OF assms(4)] assms(2,3,5) True refl, folded callback_shown_def]
    show ?thesis using run True shown_is_sheaf[of cb e U Su mr bs] assms(5) t ok(1)
      by (auto simp: R_topograph_def case_prod_unfold elim!: returns_mono)
  next
    case False
    then show ?thesis using assms(5) t by (simp add: R_topograph_def R_blocks_string_def endSheaf_def Sheaf_new_def)
  qed
next
  case t: (Blocks_unordered obs)
  then have "ObjectBlockString_ok obs K e Map.empty" using assms(1) by simp
  from R_blocks_unordered_callback[OF engine_runs(9)[OF this] ctx_start[OF assms(4)] assms(2,5), of mr] show ?thesis
    unfolding R_topograph_def t R_blocks.simps Blocks.case by (rule returns_mono) (auto simp: sem_unordered_def Let_def)
qed

definition demo_callback :: MQLResultCallback where
  "demo_callback = \<lparr>cb_startSheaf = (True, False), cb_nextLOS = (\<lambda>shown. length shown < 1)\<rparr>"

lemma one_shown:
  "\<exists>l\<in>set ls. l \<noteq> [] \<Longrightarrow>
   length (fst (shown_until (\<lambda>shown. length shown < 1) [] ls)) = 1 \<and> \<not> snd (shown_until (\<lambda>shown. length shown < 1) [] ls)"
  by (induction ls) auto

text \<open>An unordered group of the two words.\<close>

definition demo_group :: Blocks where
  "demo_group = Blocks_unordered
     (ObjectBlockString_more (ObjectBlockString_one (ObjectBlock (demo_ob 1 1) None)) (ObjectBlock (demo_ob 2 2) None))"

lemma demo_group_ok: "Blocks_ok demo_group demo_kinds (demo_env cb) Map.empty"
  using demo_ob_ok[of cb] by (simp add: demo_group_def) (simp add: demo_ob_def)

lemma demo_member: "n = 1 \<or> n = 2 \<Longrightarrow> sem_member (demo_ob nn n) None (demo_env cb) (solid 1 3) (solid 1 3) \<noteq> []"
proof -
  assume n: "n = 1 \<or> n = 2"
  have "sem_member (demo_ob nn n) None (demo_env cb) (solid 1 3) (solid 1 3) =
      scan (demo_ob nn n) None (demo_env cb) (solid 1 3) (solid 1 3)"
    unfolding sem_member_def using starts_scan_all[OF demo_ob_ok[of cb nn n] _ demo_query_ok(2)[of cb], of None True]
    by (simp add: demo_ob_def)
  then show ?thesis using n by (auto simp: scan_def demo_words_def)
qed

theorem callback_is_served_witness:
  "returns (R_topograph (demo_env (Some demo_callback)) (solid 1 3) (solid 1 3) MAX_MONAD demo_query)
     (\<lambda>(s, ee). length (ee_shown ee) = 1 \<and> ee_endSheaf ee = [True] \<and> s = Sheaf None) \<and>
   returns (R_topograph (demo_env (Some demo_callback)) (solid 1 3) (solid 1 3) MAX_MONAD demo_group)
     (\<lambda>(s, ee). ee_shown ee = [] \<and> ee_endSheaf ee = [False] \<and> s = Sheaf (Some []))"
proof
  let ?e = "demo_env (Some demo_callback)"
  note served = callback_is_served[OF _ demo_query_ok(2) limit_ok_MAX demo_query_ok(3,4)]
  obtain bs where q: "demo_query = Blocks_string bs None" by (simp add: demo_query_def two_blocks_def)
  define ls where "ls = map (\<lambda>m. BlockString_sem bs ?e (solid 1 3) (solid 1 3) m MAX_MONAD)
      (snd (BlockString_starts bs ?e (solid 1 3) (solid 1 3) (m_first (solid 1 3))))"
  have "concat ls \<noteq> []"
    using demo_answer[of "Some demo_callback" MAX_MONAD] by (auto simp: q sem_blocks_string_def ls_def Let_def split: if_splits)
  then have "length (fst (shown_until (\<lambda>shown. length shown < 1) [] ls)) = 1 \<and> \<not> snd (shown_until (\<lambda>shown. length shown < 1) [] ls)"
    by (intro one_shown) auto
  moreover have "callback_shown demo_callback ?e (solid 1 3) (solid 1 3) MAX_MONAD bs = shown_until (\<lambda>shown. length shown < 1) [] ls"
    by (simp add: callback_shown_def ls_def demo_callback_def) (simp add: demo_env_def)
  ultimately have c: "case callback_shown demo_callback ?e (solid 1 3) (solid 1 3) MAX_MONAD bs of (shown, go) \<Rightarrow>
      length shown = 1 \<and> \<not> go" by (simp add: case_prod_unfold)
  show "returns (R_topograph ?e (solid 1 3) (solid 1 3) MAX_MONAD demo_query)
     (\<lambda>(s, ee). length (ee_shown ee) = 1 \<and> ee_endSheaf ee = [True] \<and> s = Sheaf None)"
    using served[OF demo_query_ok(1)[of "Some demo_callback"]]
    unfolding q by (rule returns_mono) (use c in \<open>auto simp: demo_callback_def demo_env_def split: if_splits\<close>)
  show "returns (R_topograph ?e (solid 1 3) (solid 1 3) MAX_MONAD demo_group)
     (\<lambda>(s, ee). ee_shown ee = [] \<and> ee_endSheaf ee = [False] \<and> s = Sheaf (Some []))"
    using served[OF demo_group_ok[of "Some demo_callback"]] demo_member[of 1] demo_member[of 2] unfolding demo_group_def
    by (rule_tac returns_mono) (auto simp: demo_env_def simp del: One_nat_def)
qed

text \<open>C4: Feature constraints are decided. With tables that hold values of the kinds that the constraint
  was checked against, a well-typed constraint without references to objects that are no parents
  never fails: \<open>R_features\<close> returns its truth value, where \<open>NOT\<close>, \<open>AND\<close>, \<open>OR\<close> mean the
  connectives, comparisons the order or equality of the values they name, and \<open>IN\<close> on a list of
  constants membership in it, which the code decides by searching the list's text.\<close>

theorem feature_constraints_decided:
  assumes "env_typed \<Gamma> ee" "ff_typed (ffc_ffeatures c) \<Gamma> nn" "\<not> ffc_hasNonParentORUs c"
  shows "R_features ee nn (Some c) = Inr (ff_sat (ffc_ffeatures c) ee nn)"
  using R_ffeatures_sat(1)[OF assms(1,2)] assms(3) by (simp add: R_features_def)

definition demo_in :: FeatureConstraint where
  "demo_in = \<lparr>ffc_ffeatures = FFeatures_fterm (FTerm_ffactor (FFactor_not (FFactor_comparison
      \<lparr>fc_feature_index = 0, fc_comparison_op = kIn, fc_value = None, fc_in_enum_list = None,
       fc_in_integer_list = Some [1, 12], fc_pcre = [],
       fc_output_type = 0, fc_feature_name = ''surface''\<rparr>))), ffc_hasNonParentORUs = False, ffc_BlockString2List = [], ffc_OBBs = [],
      ffc_node_number = 0, ffc_block_string2_parent = 0\<rparr>"

theorem feature_constraints_decided_witness:
  "R_features (bind_object (demo_env None) 1 (demo_word 11 1 2)) 1 (Some demo_in) = Inr True"
proof -
  have "env_typed [1 \<mapsto> [K_int]] (bind_object (demo_env None) 1 (demo_word 11 1 2))"
    by (simp add: env_typed_def bind_object_def demo_env_def has_kind_def)
  from feature_constraints_decided[OF this, of demo_in 1] show ?thesis
    by (simp add: demo_in_def fc_typed_def fc_list_def intlike_def fc_sat_def bind_object_def demo_env_def)
qed

text \<open>C5: Every loop over an iterator of starting monads ends and runs its body once for each monad
  that is known beforehand, in ascending order, until the body breaks out or the loop's condition
  fails: the monads of a set from \<open>Sm\<close> on, the monads of its gaps from \<open>Sm\<close> on, or, for an Inst, the
  monads at which its objects start, from \<open>Sm\<close> and the universe's first monad on and up to its last,
  with which the first of them is not compared.\<close>

theorem start_iterators_exact:
  assumes "som_wf s" "sl_abs (ic_sl (in_contents i)) vs" "som_wf U" "monad_ms U \<noteq> []"
  shows "returns (MonadSetStartMonadIterator_new s Sm False)
      (\<lambda>smi. smi_loop (smi_fuel smi) go body smi t = smi_run go body (monads_from s Sm) t) \<and>
    returns (MonadSetStartMonadIterator_new s Sm True)
      (\<lambda>smi. smi_loop (smi_fuel smi) go body smi t =
        smi_run go body (filter (\<lambda>m. Sm \<le> m) (sorted_list_of_set ({m_first s..m_last s} - som_set s))) t) \<and>
    returns (InstStartMonadIterator_new i U Su Sm)
      (\<lambda>smi. smi_loop (smi_fuel smi) go body smi t = smi_run go body (inst_starts vs (m_first U) (m_last U) Sm) t)"
proof -
  have "{x. m_first s \<le> x \<and> x \<le> m_last s \<and> x \<notin> som_set s} = {m_first s..m_last s} - som_set s" by auto
  then show ?thesis
    using MonadSetSMI_ok[OF assms(1), of Sm] InstSMI_ok[OF assms(2-4), of Su Sm]
    by (auto elim!: returns_mono simp: smi_loop_fold monads_from_def)
qed

theorem start_iterators_exact_witness:
  "returns (InstStartMonadIterator_new demo_inst (solid 1 3) (solid 1 3) 2)
     (\<lambda>smi. smi_loop (smi_fuel smi) (\<lambda>_. True) (\<lambda>ms m. Inr (ms @ [m], False)) smi [] = Inr [2, 3])"
proof -
  have s: "sl_abs (ic_sl (in_contents demo_inst)) demo_words" using demo_inst_abs by (simp add: ic_abs_def)
  have "monad_ms (solid 1 3) \<noteq> []" "m_first (solid 1 3) = 1" "m_last (solid 1 3) = 3" by (simp_all add: solid_def)
  with start_iterators_exact[OF demo_solid(1) s demo_solid(1), of 2 "\<lambda>_. True" "\<lambda>ms m. Inr (ms @ [m], False)" "[]" "solid 1 3"]
  show ?thesis by (auto elim!: returns_mono simp: inst_starts_def demo_words_def keys_def cut_keys_def)
qed

text \<open>Restricting a set to the monads from a given one on, and deciding how an object lies to the
  universe or the substrate, which is inclusion, overlap or membership of its first monad. Neither
  fails on a well-formed object, so the error of \<open>part_of\<close> on empty sets does not occur here.\<close>

theorem restrict_and_relate:
  assumes "som_wf s" "InstObject_ok v" "som_wf U" "som_wf Su"
  shows "returns (R_restrict s m) (\<lambda>t. som_wf t \<and> som_set t = {x \<in> som_set s. m \<le> x}) \<and>
    returns (InstObject_getMonads v) (\<lambda>som. som_set som = object_set v \<and>
      MonadSetRelationClause_exec c som U Su = Inr
        (let S = som_set (if msrc_universe_or_substrate c = kMSNUniverse then U else Su)
         in case msrc_operation c of
              kMSROPartOf \<Rightarrow> object_set v \<subseteq> S
            | kMSROOverlap \<Rightarrow> object_set v \<inter> S \<noteq> {}
            | kMSROStartsIn \<Rightarrow> Min (object_set v) \<in> S))"
  using R_restrict_ok[OF assms(1), of m] object_monads_ok[OF assms(2)] InstObject_ok_range(4)[OF assms(2)]
    MonadSetRelationClause_exec_related[OF assms(2-4), of c]
  by (cases "msrc_universe_or_substrate c"; cases "msrc_operation c") (simp_all add: related_def Let_def)

theorem restrict_and_relate_witness: "returns (R_restrict (solid 1 3) 2) (\<lambda>t. som_set t = {2..3})"
proof -
  have "{x \<in> {1..3::int}. 2 \<le> x} = {2..3}" by auto
  moreover have "InstObject_ok (demo_word 1 1 1)" by (simp add: MAX_MONAD_def)
  note restrict_and_relate[OF demo_solid(1) this demo_solid(1) demo_solid(1), of 2 "ob_MSRC (demo_ob 1 1)", THEN conjunct1]
  ultimately show ?thesis by (auto simp: demo_solid(2) elim!: returns_mono)
qed

end
