(* ===== verification/Weed.thy ===== *)
theory Weed
  imports TopographR
begin

text \<open>
  The first check of a topographic query, the methods \<open>weed\<close> of \<^verbatim>\<open>MQL/mql_query.cpp\<close> and
  \<^verbatim>\<open>MQL/mql_helper_classes.cpp\<close>: where blocks may stand, and the numbers and flags that the
  later phases read from the tree. Each method takes the tree and returns it with its fields
  changed; \<open>bResult\<close> and \<open>bHasMetNonNOTEXISTInBlockString\<close>, which the code passes by
  reference, and the length of the execution environment's vector of nodes are a state. The texts of
  the messages are left out. PCRE's compiler is a parameter: \<open>compiles\<close> tells whether it accepts a
  pattern.
\<close>

section \<open>The state\<close>

record WeedState =
  ws_bResult :: bool
  ws_bHasMetNonNOTEXIST :: bool
  ws_nodes :: int

type_synonym 'a weeding = "WeedState \<Rightarrow> ('a \<times> WeedState) res"

definition getNextNodeNumber :: "WeedState \<Rightarrow> int \<times> WeedState" where
  "getNextNodeNumber st = (ws_nodes st, st\<lparr>ws_nodes := ws_nodes st + 1\<rparr>)"

section \<open>Feature constraints\<close>

definition FeatureComparison_weed :: "(string \<Rightarrow> bool) \<Rightarrow> FeatureComparison \<Rightarrow> bool \<Rightarrow> bool res" where
  "FeatureComparison_weed compiles fc bResult =
     (if (case fc_value fc of Some (kValObjectReferenceUsage oru) \<Rightarrow> True | _ \<Rightarrow> False) \<and> \<not> bResult then Inr bResult
      else if fc_comparison_op fc = kTilde \<or> fc_comparison_op fc = kNotTilde
      then bind_res (deref (fc_value fc)) (\<lambda>v. Inr (case v of kValString s \<Rightarrow> compiles s | _ \<Rightarrow> False))
      else Inr True)"

primrec FFeatures_weed :: "FFeatures \<Rightarrow> (string \<Rightarrow> bool) \<Rightarrow> bool \<Rightarrow> bool res"
and FTerm_weed :: "FTerm \<Rightarrow> (string \<Rightarrow> bool) \<Rightarrow> bool \<Rightarrow> bool res"
and FFactor_weed :: "FFactor \<Rightarrow> (string \<Rightarrow> bool) \<Rightarrow> bool \<Rightarrow> bool res" where
  "FFeatures_weed (FFeatures_fterm t) = FTerm_weed t"
| "FFeatures_weed (FFeatures_or f t) = (\<lambda>compiles bResult.
     bind_res (FFeatures_weed f compiles bResult) (\<lambda>b. if \<not> b then Inr b else FTerm_weed t compiles b))"
| "FTerm_weed (FTerm_ffactor f) = FFactor_weed f"
| "FTerm_weed (FTerm_and t f) = (\<lambda>compiles bResult.
     bind_res (FTerm_weed t compiles bResult) (\<lambda>b. if \<not> b then Inr b else FFactor_weed f compiles b))"
| "FFactor_weed (FFactor_not f) = FFactor_weed f"
| "FFactor_weed (FFactor_paren f) = FFeatures_weed f"
| "FFactor_weed (FFactor_comparison fc) = (\<lambda>compiles. FeatureComparison_weed compiles fc)"

definition weedFeatureConstraints :: "(string \<Rightarrow> bool) \<Rightarrow> ObjectBlockInfo \<Rightarrow> ObjectBlockInfo weeding" where
  "weedFeatureConstraints compiles ob st =
     (case ob_feature_constraints ob of
        None \<Rightarrow> Inr (ob, st)
      | Some c \<Rightarrow>
          let (nn, st1) = getNextNodeNumber st;
              c1 = c\<lparr>ffc_node_number := nn, ffc_block_string2_parent := ob_block_string2_parent ob\<rparr>
          in bind_res (FFeatures_weed (ffc_ffeatures c1) compiles (ws_bResult st1)) (\<lambda>b.
               Inr (ob\<lparr>ob_feature_constraints := Some c1\<rparr>, st1\<lparr>ws_bResult := b\<rparr>)))"

section \<open>The parts of a query\<close>

definition Power_weed :: "Power \<Rightarrow> bool" where
  "Power_weed p \<longleftrightarrow> pw_limit_low p \<le> pw_limit_high p"

definition UsingRange_weed :: "UsingRange \<Rightarrow> bool \<Rightarrow> bool" where
  "UsingRange_weed r bResult =
     (let b = (if ur_start r < 0 \<or> ur_end r < 0 then False else bResult)
      in if ur_start r > ur_end r then False else b)"

fun weedMonotonic :: "MQLMonadSetElement \<Rightarrow> bool \<Rightarrow> bool" where
  "weedMonotonic [] bResult = bResult"
| "weedMonotonic ((mse_first, mse_last) # pElem) bResult =
     (if mse_last \<ge> mse_first then weedMonotonic pElem True else False)"

fun weedPositive :: "MQLMonadSetElement \<Rightarrow> bool \<Rightarrow> bool" where
  "weedPositive [] bResult = bResult"
| "weedPositive ((mse_first, mse_last) # pElem) bResult =
     (if mse_first \<ge> 1 \<and> mse_last \<ge> 1 then weedPositive pElem True else False)"

definition MQLMonadSetElement_weed :: "MQLMonadSetElement \<Rightarrow> bool \<Rightarrow> bool \<Rightarrow> bool" where
  "MQLMonadSetElement_weed mse bWeedPositive bResult =
     (let b = (if bWeedPositive then weedPositive mse bResult else bResult)
      in if \<not> b then b else weedMonotonic mse b)"

definition monadsBuildSet :: "MQLMonadSetElement \<Rightarrow> SetOfMonads \<Rightarrow> SetOfMonads res" where
  "monadsBuildSet mse monads = foldM_res (\<lambda>s (f, l). SetOfMonads_add_range s f l) monads mse"

definition first_last_allowed :: "eFirstLast \<Rightarrow> bool \<Rightarrow> bool \<Rightarrow> bool" where
  "first_last_allowed fl is_first is_last =
     (case fl of kFirst \<Rightarrow> is_first | kLast \<Rightarrow> is_last | kFirstAndLast \<Rightarrow> is_first \<and> is_last | kNoFirstLast \<Rightarrow> True)"

fun isGapOrOptGapBlock :: "Block \<Rightarrow> bool" where
  "isGapOrOptGapBlock (kOptGapBlock g) = True"
| "isGapOrOptGapBlock (kGapBlock g) = True"
| "isGapOrOptGapBlock b = False"

fun isPowerBlock :: "Block \<Rightarrow> bool" where
  "isPowerBlock (kPowerBlock p) = True"
| "isPowerBlock b = False"

fun getBlockString0 :: "BlockString1 \<Rightarrow> BlockString0" where
  "getBlockString0 (BlockString1_bs0 b0) = b0"
| "getBlockString0 (BlockString1_star b0 mse som) = b0"

text \<open>Whether a string of level 1 is a block of a kind itself, rather than a string in brackets.\<close>

fun block_is :: "(Block \<Rightarrow> bool) \<Rightarrow> BlockString0 \<Rightarrow> bool" where
  "block_is P (BlockString0_block b) = P b"
| "block_is P (BlockString0_string bs) = False"

definition bs1_is_gap :: "BlockString1 \<Rightarrow> bool" where
  "bs1_is_gap b1 = block_is isGapOrOptGapBlock (getBlockString0 b1)"

definition bs1_is_power :: "BlockString1 \<Rightarrow> bool" where
  "bs1_is_power b1 = block_is isPowerBlock (getBlockString0 b1)"

text \<open>What may not stand under a star: \<^verbatim>\<open>NOTEXIST\<close>, or an object block with a reference.\<close>

fun star_allowed :: "BlockString0 \<Rightarrow> bool" where
  "star_allowed (BlockString0_block (kObjectBlockNOTEXIST ob)) = False"
| "star_allowed (BlockString0_block (kObjectBlock (ObjectBlock ob opt_blocks))) = (ob_object_reference_lower ob = [])"
| "star_allowed b0 = True"

primrec BlockString_firstBlockIsPower :: "BlockString \<Rightarrow> bool"
and BlockString2_firstBlockIsPower :: "BlockString2 \<Rightarrow> bool"
and BlockString1_firstBlockIsPower :: "BlockString1 \<Rightarrow> bool"
and BlockString0_firstBlockIsPower :: "BlockString0 \<Rightarrow> bool" where
  "BlockString_firstBlockIsPower (BlockString_bs2 b2) = BlockString2_firstBlockIsPower b2"
| "BlockString_firstBlockIsPower (BlockString_or b2 bs) = (BlockString2_firstBlockIsPower b2 \<or> BlockString_firstBlockIsPower bs)"
| "BlockString2_firstBlockIsPower (BlockString2_bs1 n b1) = BlockString1_firstBlockIsPower b1"
| "BlockString2_firstBlockIsPower (BlockString2_seq n b1 b2) = BlockString1_firstBlockIsPower b1"
| "BlockString1_firstBlockIsPower (BlockString1_bs0 b0) = BlockString0_firstBlockIsPower b0"
| "BlockString1_firstBlockIsPower (BlockString1_star b0 mse som) = BlockString0_firstBlockIsPower b0"
| "BlockString0_firstBlockIsPower (BlockString0_block b) = isPowerBlock b"
| "BlockString0_firstBlockIsPower (BlockString0_string bs) = BlockString_firstBlockIsPower bs"

primrec BlockString_hasOnlyNOTEXIST :: "BlockString \<Rightarrow> bool"
and BlockString2_hasOnlyNOTEXIST :: "BlockString2 \<Rightarrow> bool"
and BlockString1_hasOnlyNOTEXIST :: "BlockString1 \<Rightarrow> bool"
and BlockString0_hasOnlyNOTEXIST :: "BlockString0 \<Rightarrow> bool"
and Block_hasOnlyNOTEXIST :: "Block \<Rightarrow> bool" where
  "BlockString_hasOnlyNOTEXIST (BlockString_bs2 b2) = BlockString2_hasOnlyNOTEXIST b2"
| "BlockString_hasOnlyNOTEXIST (BlockString_or b2 bs) = (BlockString2_hasOnlyNOTEXIST b2 \<and> BlockString_hasOnlyNOTEXIST bs)"
| "BlockString2_hasOnlyNOTEXIST (BlockString2_bs1 n b1) = BlockString1_hasOnlyNOTEXIST b1"
| "BlockString2_hasOnlyNOTEXIST (BlockString2_seq n b1 b2) = (BlockString1_hasOnlyNOTEXIST b1 \<and> BlockString2_hasOnlyNOTEXIST b2)"
| "BlockString1_hasOnlyNOTEXIST (BlockString1_bs0 b0) = BlockString0_hasOnlyNOTEXIST b0"
| "BlockString1_hasOnlyNOTEXIST (BlockString1_star b0 mse som) = BlockString0_hasOnlyNOTEXIST b0"
| "BlockString0_hasOnlyNOTEXIST (BlockString0_block b) = Block_hasOnlyNOTEXIST b"
| "BlockString0_hasOnlyNOTEXIST (BlockString0_string bs) = BlockString_hasOnlyNOTEXIST bs"
| "Block_hasOnlyNOTEXIST (kOptGapBlock g) = False"
| "Block_hasOnlyNOTEXIST (kGapBlock g) = False"
| "Block_hasOnlyNOTEXIST (kPowerBlock p) = False"
| "Block_hasOnlyNOTEXIST (kObjectBlock ob) = False"
| "Block_hasOnlyNOTEXIST (kObjectBlockNOTEXIST ob) = True"

section \<open>Object blocks\<close>

text \<open>
  The steps of \<open>ObjectBlock::weed\<close> up to the constraints. The monad set relation clause has
  nothing to check, nor have the features to be retrieved.
\<close>

definition ObjectBlock_mark ::
  "ObjectBlockInfo \<Rightarrow> bool \<Rightarrow> bool \<Rightarrow> bool \<Rightarrow> int \<Rightarrow> WeedState \<Rightarrow> ObjectBlockInfo \<times> WeedState" where
  "ObjectBlock_mark ob is_first is_last only parent st =
     (let (nn, st1) = getNextNodeNumber st;
          base = (ob_base ob)\<lparr>obb_node_number := nn\<rparr>
      in (ob\<lparr>ob_base := (if ob_bIsNOTEXIST ob then base\<lparr>obb_retrieval := kNoRetrieve\<rparr> else base),
             ob_block_string2_parent := parent, ob_bBlockStringHasOnlyNOTEXIST := only,
             ob_bIsFirstInBlockString := is_first, ob_bIsLastInBlockString := is_last,
             ob_bIsAfterNonNOTEXIST := ws_bHasMetNonNOTEXIST st1\<rparr>,
          st1\<lparr>ws_bResult := first_last_allowed (ob_first_last ob) is_first is_last\<rparr>))"

text \<open>The blocks inside are weeded if there are any.\<close>

definition weed_inner :: "Blocks option \<Rightarrow> (int \<Rightarrow> Blocks weeding) option \<Rightarrow> int \<Rightarrow> Blocks option weeding" where
  "weed_inner opt_blocks inner parent st =
     (case inner of None \<Rightarrow> Inr (opt_blocks, st)
      | Some f \<Rightarrow> bind_res (f parent st) (\<lambda>(b, st1). Inr (Some b, st1)))"

definition ObjectBlock_weed_info ::
  "(string \<Rightarrow> bool) \<Rightarrow> ObjectBlockInfo \<Rightarrow> Blocks option \<Rightarrow> (int \<Rightarrow> Blocks weeding) option \<Rightarrow>
   bool \<Rightarrow> bool \<Rightarrow> bool \<Rightarrow> int \<Rightarrow> ObjectBlock weeding" where
  "ObjectBlock_weed_info compiles ob opt_blocks inner is_first is_last only parent st =
     (let (ob1, st1) = ObjectBlock_mark ob is_first is_last only parent st
      in bind_res (if ws_bResult st1 then weedFeatureConstraints compiles ob1 st1 else Inr (ob1, st1)) (\<lambda>(ob2, st2).
         bind_res (if ws_bResult st2 then weed_inner opt_blocks inner parent st2 else Inr (opt_blocks, st2)) (\<lambda>(opt1, st3).
           Inr (ObjectBlock ob2 opt1,
                if \<not> ob_bIsNOTEXIST ob2 then st3\<lparr>ws_bHasMetNonNOTEXIST := True\<rparr> else st3))))"

section \<open>Blocks and strings of blocks\<close>

definition met :: "WeedState \<Rightarrow> WeedState" where
  "met st = st\<lparr>ws_bHasMetNonNOTEXIST := True\<rparr>"

definition reject :: "bool \<Rightarrow> WeedState \<Rightarrow> WeedState" where
  "reject c st = (if c then st\<lparr>ws_bResult := False\<rparr> else st)"

definition map_weed :: "('a \<Rightarrow> 'b) \<Rightarrow> ('a \<times> WeedState) res \<Rightarrow> ('b \<times> WeedState) res" where
  "map_weed f r = bind_res r (\<lambda>(x, st). Inr (f x, st))"

definition Power_block_weed :: "Power \<Rightarrow> bool \<Rightarrow> bool \<Rightarrow> WeedState \<Rightarrow> WeedState" where
  "Power_block_weed p is_first is_last st =
     met (st\<lparr>ws_bResult := (if \<not> Power_weed p then False else \<not> is_first \<and> \<not> is_last)\<rparr>)"

text \<open>
  Where a block stands: whether it is the first or the last of its string, whether a gap or a power
  block is before it, whether its string has only \<^verbatim>\<open>NOTEXIST\<close> blocks, and the number of the string it
  is nested in.
\<close>

record Place =
  pl_is_first :: bool
  pl_is_last :: bool
  pl_bPrevIsGap :: bool
  pl_bPrevIsPower :: bool
  pl_only :: bool
  pl_parent :: int

primrec Blocks_weed :: "Blocks \<Rightarrow> (string \<Rightarrow> bool) \<Rightarrow> int \<Rightarrow> Blocks weeding"
and BlockString_weed :: "BlockString \<Rightarrow> (string \<Rightarrow> bool) \<Rightarrow> Place \<Rightarrow> BlockString weeding"
and BlockString2_weed :: "BlockString2 \<Rightarrow> (string \<Rightarrow> bool) \<Rightarrow> Place \<Rightarrow> BlockString2 weeding"
and BlockString1_weed :: "BlockString1 \<Rightarrow> (string \<Rightarrow> bool) \<Rightarrow> Place \<Rightarrow> BlockString1 weeding"
and BlockString0_weed :: "BlockString0 \<Rightarrow> (string \<Rightarrow> bool) \<Rightarrow> Place \<Rightarrow> BlockString0 weeding"
and Block_weed :: "Block \<Rightarrow> (string \<Rightarrow> bool) \<Rightarrow> Place \<Rightarrow> Block weeding"
and GapBlock_weed :: "GapBlock \<Rightarrow> (string \<Rightarrow> bool) \<Rightarrow> int \<Rightarrow> GapBlock weeding"
and ObjectBlock_weed :: "ObjectBlock \<Rightarrow> (string \<Rightarrow> bool) \<Rightarrow> bool \<Rightarrow> bool \<Rightarrow> bool \<Rightarrow> int \<Rightarrow> ObjectBlock weeding"
and ObjectBlockString_weed :: "ObjectBlockString \<Rightarrow> (string \<Rightarrow> bool) \<Rightarrow> int \<Rightarrow> ObjectBlockString weeding" where
  "Blocks_weed (Blocks_string bs ur) = (\<lambda>compiles parent st.
     bind_res (BlockString_weed bs compiles
         \<lparr>pl_is_first = True, pl_is_last = True, pl_bPrevIsGap = False, pl_bPrevIsPower = False,
          pl_only = BlockString_hasOnlyNOTEXIST bs, pl_parent = parent\<rparr> (st\<lparr>ws_bHasMetNonNOTEXIST := False\<rparr>)) (\<lambda>(bs1, st1).
       Inr (Blocks_string bs1 ur,
            st1\<lparr>ws_bResult := (if ws_bResult st1 then case ur of None \<Rightarrow> True | Some r \<Rightarrow> UsingRange_weed r True else False),
                ws_bHasMetNonNOTEXIST := ws_bHasMetNonNOTEXIST st\<rparr>)))"
| "Blocks_weed (Blocks_unordered obs) = (\<lambda>compiles parent st.
     bind_res (ObjectBlockString_weed obs compiles parent (st\<lparr>ws_bHasMetNonNOTEXIST := False\<rparr>)) (\<lambda>(obs1, st1).
       Inr (Blocks_unordered obs1, st1\<lparr>ws_bHasMetNonNOTEXIST := ws_bHasMetNonNOTEXIST st\<rparr>)))"
| "BlockString_weed (BlockString_bs2 b2) = (\<lambda>compiles pl st.
     let st1 = reject (BlockString2_firstBlockIsPower b2) st
     in if \<not> ws_bResult st1 then Inr (BlockString_bs2 b2, st1)
        else map_weed BlockString_bs2 (BlockString2_weed b2 compiles pl st1))"
| "BlockString_weed (BlockString_or b2 bs) = (\<lambda>compiles pl st.
     let st1 = reject (BlockString2_firstBlockIsPower b2) st;
         pl1 = pl\<lparr>pl_is_first := True, pl_is_last := True, pl_bPrevIsGap := False, pl_bPrevIsPower := False\<rparr>
     in if \<not> ws_bResult st1 then Inr (BlockString_or b2 bs, st1)
        else bind_res (BlockString2_weed b2 compiles pl1 st1) (\<lambda>(b2', st2).
               if ws_bResult st2 then map_weed (BlockString_or b2') (BlockString_weed bs compiles pl1 st2)
               else Inr (BlockString_or b2' bs, st2)))"
| "BlockString2_weed (BlockString2_bs1 n b1) = (\<lambda>compiles pl st.
     let (nn, st1) = getNextNodeNumber st; n1 = n\<lparr>bs2_node_number := nn, bs2_parent := pl_parent pl\<rparr>
     in bind_res (BlockString1_weed b1 compiles (pl\<lparr>pl_parent := nn\<rparr>) st1) (\<lambda>(b1', st2).
          Inr (BlockString2_bs1 n1 b1', reject (ws_bResult st2 \<and> bs1_is_power b1) st2)))"
| "BlockString2_weed (BlockString2_seq n b1 b2) = (\<lambda>compiles pl st.
     let (nn, st1) = getNextNodeNumber st; n1 = n\<lparr>bs2_node_number := nn, bs2_parent := pl_parent pl\<rparr>;
         st2 = reject (pl_bPrevIsGap pl \<and> bs1_is_gap b1) st1;
         st3 = reject (pl_bPrevIsPower pl \<and> bs1_is_power b1) st2
     in if ws_bResult st3
        then bind_res (BlockString1_weed b1 compiles (pl\<lparr>pl_is_last := False, pl_parent := nn\<rparr>) st3) (\<lambda>(b1', st4).
               if \<not> ws_bResult st4 then Inr (BlockString2_seq n1 b1' b2, st4)
               else map_weed (BlockString2_seq n1 b1') (BlockString2_weed b2 compiles
                      (pl\<lparr>pl_is_first := False, pl_bPrevIsGap := bs1_is_gap b1, pl_bPrevIsPower := bs1_is_power b1\<rparr>) st4))
        else Inr (BlockString2_seq n1 b1 b2, st3))"
| "BlockString1_weed (BlockString1_bs0 b0) = (\<lambda>compiles pl st.
     map_weed BlockString1_bs0 (BlockString0_weed b0 compiles pl st))"
| "BlockString1_weed (BlockString1_star b0 mse som) = (\<lambda>compiles pl st.
     bind_res (BlockString0_weed b0 compiles pl st) (\<lambda>(b0', st1).
       if \<not> ws_bResult st1 then Inr (BlockString1_star b0' mse som, st1)
       else let st2 = st1\<lparr>ws_bResult := MQLMonadSetElement_weed mse False (ws_bResult st1)\<rparr>
            in if \<not> ws_bResult st2 then Inr (BlockString1_star b0' mse som, st2)
               else Inr (BlockString1_star b0' mse som, reject (\<not> star_allowed b0') st2)))"
| "BlockString0_weed (BlockString0_block b) = (\<lambda>compiles pl st.
     let st1 = reject (pl_bPrevIsGap pl \<and> isGapOrOptGapBlock b) st;
         st2 = reject (ws_bResult st1 \<and> pl_bPrevIsPower pl \<and> isPowerBlock b) st1
     in if ws_bResult st2 then map_weed BlockString0_block (Block_weed b compiles pl st2)
        else Inr (BlockString0_block b, st2))"
| "BlockString0_weed (BlockString0_string bs) = (\<lambda>compiles pl st.
     map_weed BlockString0_string (BlockString_weed bs compiles (pl\<lparr>pl_bPrevIsGap := False, pl_bPrevIsPower := False\<rparr>) st))"
| "Block_weed (kOptGapBlock g) = (\<lambda>compiles pl st.
     bind_res (GapBlock_weed g compiles (pl_parent pl) st) (\<lambda>(g', st1). Inr (kOptGapBlock g', met st1)))"
| "Block_weed (kGapBlock g) = (\<lambda>compiles pl st.
     bind_res (GapBlock_weed g compiles (pl_parent pl) st) (\<lambda>(g', st1). Inr (kGapBlock g', met st1)))"
| "Block_weed (kPowerBlock p) = (\<lambda>compiles pl st.
     Inr (kPowerBlock p, Power_block_weed p (pl_is_first pl) (pl_is_last pl) st))"
| "Block_weed (kObjectBlock ob) = (\<lambda>compiles pl st.
     map_weed kObjectBlock (ObjectBlock_weed ob compiles (pl_is_first pl) (pl_is_last pl) (pl_only pl) (pl_parent pl) (met st)))"
| "Block_weed (kObjectBlockNOTEXIST ob) = (\<lambda>compiles pl st.
     map_weed kObjectBlockNOTEXIST
       (ObjectBlock_weed ob compiles (pl_is_first pl) (pl_is_last pl) (pl_only pl) (pl_parent pl) st))"
| "GapBlock_weed (GapBlock g opt_blocks) = (\<lambda>compiles parent st.
     map_weed (GapBlock g) (weed_inner opt_blocks (map_option (\<lambda>f. f compiles) (map_option Blocks_weed opt_blocks)) parent st))"
| "ObjectBlock_weed (ObjectBlock ob opt_blocks) = (\<lambda>compiles.
     ObjectBlock_weed_info compiles ob opt_blocks (map_option (\<lambda>f. f compiles) (map_option Blocks_weed opt_blocks)))"
| "ObjectBlockString_weed (ObjectBlockString_one ob) = (\<lambda>compiles parent st.
     if \<not> ws_bResult st then Inr (ObjectBlockString_one ob, st)
     else map_weed ObjectBlockString_one (ObjectBlock_weed ob compiles False False False parent st))"
| "ObjectBlockString_weed (ObjectBlockString_more obs ob) = (\<lambda>compiles parent st.
     bind_res (ObjectBlockString_weed obs compiles parent st) (\<lambda>(obs', st1).
       if \<not> ws_bResult st1 then Inr (ObjectBlockString_more obs' ob, st1)
       else map_weed (ObjectBlockString_more obs') (ObjectBlock_weed ob compiles False False False parent st1)))"

definition Topograph_weed :: "Blocks \<Rightarrow> (string \<Rightarrow> bool) \<Rightarrow> Blocks weeding" where
  "Topograph_weed t compiles st = Blocks_weed t compiles (-1) st"

end
