(* ===== verification/Weed_Props.thy ===== *)
theory Weed_Props
  imports Weed Topograph_Props
begin

text \<open>
  What weeding guarantees: which queries it accepts, that it changes nothing but the fields it is
  there to fill in, the numbering of the nodes, and the flags of the object blocks.
\<close>

section \<open>What is left alone\<close>

text \<open>A tree without the fields that weeding fills in.\<close>

definition erase_bs2 :: "BlockString2Info \<Rightarrow> BlockString2Info" where
  "erase_bs2 n = n\<lparr>bs2_node_number := 0, bs2_parent := 0\<rparr>"

definition erase_constraint :: "FeatureConstraint \<Rightarrow> FeatureConstraint" where
  "erase_constraint c = c\<lparr>ffc_node_number := 0, ffc_block_string2_parent := 0\<rparr>"

definition erase_ob :: "ObjectBlockInfo \<Rightarrow> ObjectBlockInfo" where
  "erase_ob ob = ob\<lparr>
     ob_base := (ob_base ob)\<lparr>obb_node_number := 0,
       obb_retrieval := (if ob_bIsNOTEXIST ob then kNoRetrieve else obb_retrieval (ob_base ob))\<rparr>,
     ob_feature_constraints := map_option erase_constraint (ob_feature_constraints ob),
     ob_block_string2_parent := 0, ob_bBlockStringHasOnlyNOTEXIST := False, ob_bIsFirstInBlockString := False,
     ob_bIsLastInBlockString := False, ob_bIsAfterNonNOTEXIST := False\<rparr>"

primrec Blocks_erase :: "Blocks \<Rightarrow> Blocks"
and BlockString_erase :: "BlockString \<Rightarrow> BlockString"
and BlockString2_erase :: "BlockString2 \<Rightarrow> BlockString2"
and BlockString1_erase :: "BlockString1 \<Rightarrow> BlockString1"
and BlockString0_erase :: "BlockString0 \<Rightarrow> BlockString0"
and Block_erase :: "Block \<Rightarrow> Block"
and GapBlock_erase :: "GapBlock \<Rightarrow> GapBlock"
and ObjectBlock_erase :: "ObjectBlock \<Rightarrow> ObjectBlock"
and ObjectBlockString_erase :: "ObjectBlockString \<Rightarrow> ObjectBlockString" where
  "Blocks_erase (Blocks_string bs ur) = Blocks_string (BlockString_erase bs) ur"
| "Blocks_erase (Blocks_unordered obs) = Blocks_unordered (ObjectBlockString_erase obs)"
| "BlockString_erase (BlockString_bs2 b2) = BlockString_bs2 (BlockString2_erase b2)"
| "BlockString_erase (BlockString_or b2 bs) = BlockString_or (BlockString2_erase b2) (BlockString_erase bs)"
| "BlockString2_erase (BlockString2_bs1 n b1) = BlockString2_bs1 (erase_bs2 n) (BlockString1_erase b1)"
| "BlockString2_erase (BlockString2_seq n b1 b2) =
     BlockString2_seq (erase_bs2 n) (BlockString1_erase b1) (BlockString2_erase b2)"
| "BlockString1_erase (BlockString1_bs0 b0) = BlockString1_bs0 (BlockString0_erase b0)"
| "BlockString1_erase (BlockString1_star b0 mse som) = BlockString1_star (BlockString0_erase b0) mse som"
| "BlockString0_erase (BlockString0_block b) = BlockString0_block (Block_erase b)"
| "BlockString0_erase (BlockString0_string bs) = BlockString0_string (BlockString_erase bs)"
| "Block_erase (kOptGapBlock g) = kOptGapBlock (GapBlock_erase g)"
| "Block_erase (kGapBlock g) = kGapBlock (GapBlock_erase g)"
| "Block_erase (kPowerBlock p) = kPowerBlock p"
| "Block_erase (kObjectBlock ob) = kObjectBlock (ObjectBlock_erase ob)"
| "Block_erase (kObjectBlockNOTEXIST ob) = kObjectBlockNOTEXIST (ObjectBlock_erase ob)"
| "GapBlock_erase (GapBlock g opt_blocks) = GapBlock g (map_option Blocks_erase opt_blocks)"
| "ObjectBlock_erase (ObjectBlock ob opt_blocks) = ObjectBlock (erase_ob ob) (map_option Blocks_erase opt_blocks)"
| "ObjectBlockString_erase (ObjectBlockString_one ob) = ObjectBlockString_one (ObjectBlock_erase ob)"
| "ObjectBlockString_erase (ObjectBlockString_more obs ob) =
     ObjectBlockString_more (ObjectBlockString_erase obs) (ObjectBlock_erase ob)"

lemma map_weed_Inr: "map_weed f r = Inr (y, st) \<longleftrightarrow> (\<exists>x. r = Inr (x, st) \<and> y = f x)"
  by (auto simp: map_weed_def res_simps)

lemma weed_inner_Inr:
  "weed_inner opt inner parent st = Inr (opt', st') \<longleftrightarrow>
     (case inner of None \<Rightarrow> opt' = opt \<and> st' = st | Some f \<Rightarrow> \<exists>b. f parent st = Inr (b, st') \<and> opt' = Some b)"
  by (auto simp: weed_inner_def res_simps split: option.splits)

lemmas weed_simps = map_weed_Inr weed_inner_Inr bind_res_Inr_iff

lemma erase_bs2_same [simp]: "erase_bs2 (n\<lparr>bs2_node_number := i, bs2_parent := j\<rparr>) = erase_bs2 n"
  by (simp add: erase_bs2_def)

lemma erase_mark: "ObjectBlock_mark ob f l only parent st = (ob', st') \<Longrightarrow> erase_ob ob' = erase_ob ob"
  by (auto simp: ObjectBlock_mark_def getNextNodeNumber_def erase_ob_def Let_def)

lemma erase_constraint_same [simp]:
  "erase_constraint (k\<lparr>ffc_node_number := i, ffc_block_string2_parent := j\<rparr>) = erase_constraint k"
  by (simp add: erase_constraint_def)

lemma erase_weedFeatureConstraints: "weedFeatureConstraints c ob st = Inr (ob', st') \<Longrightarrow> erase_ob ob' = erase_ob ob"
  by (auto simp: weedFeatureConstraints_def getNextNodeNumber_def erase_ob_def Let_def bind_res_Inr_iff split: option.splits)

lemma bind_res_InrE:
  assumes "bind_res m f = Inr y"
  obtains x where "m = Inr x" "f x = Inr y"
  using assms by (cases m) auto

text \<open>What an object block does, step by step.\<close>

lemma ObjectBlock_weed_steps:
  assumes "ObjectBlock_weed_info c i opt inner f l only parent st = Inr (ob', st')"
  obtains ob1 st1 ob2 st2 opt1 st3 where "ObjectBlock_mark i f l only parent st = (ob1, st1)"
    "if ws_bResult st1 then weedFeatureConstraints c ob1 st1 = Inr (ob2, st2) else ob2 = ob1 \<and> st2 = st1"
    "if ws_bResult st2 then weed_inner opt inner parent st2 = Inr (opt1, st3) else opt1 = opt \<and> st3 = st2"
    "ob' = ObjectBlock ob2 opt1" "st' = (if \<not> ob_bIsNOTEXIST ob2 then met st3 else st3)"
proof -
  obtain ob1 st1 where m: "ObjectBlock_mark i f l only parent st = (ob1, st1)" by fastforce
  from assms obtain x2 where x2: "(if ws_bResult st1 then weedFeatureConstraints c ob1 st1 else Inr (ob1, st1)) = Inr x2"
    and r: "(case x2 of (ob2, st2) \<Rightarrow>
      bind_res (if ws_bResult st2 then weed_inner opt inner parent st2 else Inr (opt, st2)) (\<lambda>(opt1, st3).
        Inr (ObjectBlock ob2 opt1, if \<not> ob_bIsNOTEXIST ob2 then st3\<lparr>ws_bHasMetNonNOTEXIST := True\<rparr> else st3))) = Inr (ob', st')"
    unfolding ObjectBlock_weed_info_def m Let_def prod.case by (rule bind_res_InrE)
  obtain ob2 st2 where p: "x2 = (ob2, st2)" by fastforce
  from r obtain x3 where x3: "(if ws_bResult st2 then weed_inner opt inner parent st2 else Inr (opt, st2)) = Inr x3"
    and e: "(case x3 of (opt1, st3) \<Rightarrow> Inr (ObjectBlock ob2 opt1, if \<not> ob_bIsNOTEXIST ob2
      then st3\<lparr>ws_bHasMetNonNOTEXIST := True\<rparr> else st3)) = (Inr (ob', st') :: (ObjectBlock \<times> WeedState) res)"
    unfolding p prod.case by (rule bind_res_InrE)
  obtain opt1 st3 where "x3 = (opt1, st3)" by fastforce
  with x2 x3 e p show thesis by (intro that[OF m, of ob2 st2 opt1 st3]) (auto simp: met_def split: if_splits)
qed

section \<open>What is accepted\<close>

primrec ff_comparisons :: "FFeatures \<Rightarrow> FeatureComparison list"
and ft_comparisons :: "FTerm \<Rightarrow> FeatureComparison list"
and fa_comparisons :: "FFactor \<Rightarrow> FeatureComparison list" where
  "ff_comparisons (FFeatures_fterm t) = ft_comparisons t"
| "ff_comparisons (FFeatures_or f t) = ff_comparisons f @ ft_comparisons t"
| "ft_comparisons (FTerm_ffactor f) = fa_comparisons f"
| "ft_comparisons (FTerm_and t f) = ft_comparisons t @ fa_comparisons f"
| "fa_comparisons (FFactor_not f) = fa_comparisons f"
| "fa_comparisons (FFactor_paren f) = ff_comparisons f"
| "fa_comparisons (FFactor_comparison fc) = [fc]"

definition ob_comparisons :: "ObjectBlockInfo \<Rightarrow> FeatureComparison list" where
  "ob_comparisons ob = (case ob_feature_constraints ob of None \<Rightarrow> [] | Some k \<Rightarrow> ff_comparisons (ffc_ffeatures k))"

text \<open>
  The strings, gap blocks and object blocks of a query, in the order they are visited; for an object
  block, whether it stands as a \<^verbatim>\<open>NOTEXIST\<close> block.
\<close>

datatype part = P_string BlockString2Info | P_object bool ObjectBlockInfo | P_gap GapBlockInfo

definition option_parts :: "part list option \<Rightarrow> part list" where
  "option_parts p = (case p of None \<Rightarrow> [] | Some l \<Rightarrow> l)"

lemma option_parts_simps [simp]: "option_parts None = []" "option_parts (Some l) = l"
  by (simp_all add: option_parts_def)

primrec Blocks_parts :: "Blocks \<Rightarrow> part list"
and BlockString_parts :: "BlockString \<Rightarrow> part list"
and BlockString2_parts :: "BlockString2 \<Rightarrow> part list"
and BlockString1_parts :: "BlockString1 \<Rightarrow> part list"
and BlockString0_parts :: "BlockString0 \<Rightarrow> part list"
and Block_parts :: "Block \<Rightarrow> part list"
and GapBlock_parts :: "GapBlock \<Rightarrow> part list"
and ObjectBlock_parts :: "ObjectBlock \<Rightarrow> bool \<Rightarrow> part list"
and ObjectBlockString_parts :: "ObjectBlockString \<Rightarrow> part list" where
  "Blocks_parts (Blocks_string bs ur) = BlockString_parts bs"
| "Blocks_parts (Blocks_unordered obs) = ObjectBlockString_parts obs"
| "BlockString_parts (BlockString_bs2 b2) = BlockString2_parts b2"
| "BlockString_parts (BlockString_or b2 bs) = BlockString2_parts b2 @ BlockString_parts bs"
| "BlockString2_parts (BlockString2_bs1 n b1) = P_string n # BlockString1_parts b1"
| "BlockString2_parts (BlockString2_seq n b1 b2) = P_string n # BlockString1_parts b1 @ BlockString2_parts b2"
| "BlockString1_parts (BlockString1_bs0 b0) = BlockString0_parts b0"
| "BlockString1_parts (BlockString1_star b0 mse som) = BlockString0_parts b0"
| "BlockString0_parts (BlockString0_block b) = Block_parts b"
| "BlockString0_parts (BlockString0_string bs) = BlockString_parts bs"
| "Block_parts (kOptGapBlock g) = GapBlock_parts g"
| "Block_parts (kGapBlock g) = GapBlock_parts g"
| "Block_parts (kPowerBlock p) = []"
| "Block_parts (kObjectBlock ob) = ObjectBlock_parts ob False"
| "Block_parts (kObjectBlockNOTEXIST ob) = ObjectBlock_parts ob True"
| "GapBlock_parts (GapBlock g opt_blocks) = P_gap g # option_parts (map_option Blocks_parts opt_blocks)"
| "ObjectBlock_parts (ObjectBlock ob opt_blocks) = (\<lambda>b. P_object b ob # option_parts (map_option Blocks_parts opt_blocks))"
| "ObjectBlockString_parts (ObjectBlockString_one ob) = ObjectBlock_parts ob False"
| "ObjectBlockString_parts (ObjectBlockString_more obs ob) = ObjectBlockString_parts obs @ ObjectBlock_parts ob False"

text \<open>The patterns of regular expressions are given as texts that compile.\<close>

definition tilde :: "FeatureComparison \<Rightarrow> bool" where
  "tilde fc \<longleftrightarrow> fc_comparison_op fc = kTilde \<or> fc_comparison_op fc = kNotTilde"

definition pattern_ok :: "(string \<Rightarrow> bool) \<Rightarrow> FeatureComparison \<Rightarrow> bool" where
  "pattern_ok c fc \<longleftrightarrow> (tilde fc \<longrightarrow> (\<exists>s. fc_value fc = Some (kValString s) \<and> c s))"

text \<open>The grammar gives the operators for regular expressions a value, and a block its kind.\<close>

definition has_value :: "FeatureComparison \<Rightarrow> bool" where
  "has_value fc \<longleftrightarrow> (tilde fc \<longrightarrow> fc_value fc \<noteq> None)"

definition parts_comparisons :: "part list \<Rightarrow> FeatureComparison list" where
  "parts_comparisons ps = concat (map (\<lambda>p. case p of P_string n \<Rightarrow> [] | P_object b ob \<Rightarrow> ob_comparisons ob | P_gap g \<Rightarrow> []) ps)"

definition patterns_ok :: "(string \<Rightarrow> bool) \<Rightarrow> part list \<Rightarrow> bool" where
  "patterns_ok c ps \<longleftrightarrow> (\<forall>fc\<in>set (parts_comparisons ps). pattern_ok c fc)"

definition parsed :: "part list \<Rightarrow> bool" where
  "parsed ps \<longleftrightarrow> (\<forall>q\<in>set ps. case q of P_string n \<Rightarrow> True
     | P_object b ob \<Rightarrow> ob_bIsNOTEXIST ob = b \<and> (\<forall>fc\<in>set (ob_comparisons ob). has_value fc)
     | P_gap g \<Rightarrow> True)"

lemma parts_simps [simp]:
  "patterns_ok c []" "patterns_ok c (ps @ qs) = (patterns_ok c ps \<and> patterns_ok c qs)"
  "patterns_ok c (P_string n # ps) = patterns_ok c ps" "patterns_ok c (P_gap g # ps) = patterns_ok c ps"
  "patterns_ok c (P_object b ob # ps) = ((\<forall>fc\<in>set (ob_comparisons ob). pattern_ok c fc) \<and> patterns_ok c ps)"
  "parsed []" "parsed (ps @ qs) = (parsed ps \<and> parsed qs)" "parsed (P_string n # ps) = parsed ps"
  "parsed (P_gap g # ps) = parsed ps"
  "parsed (P_object b ob # ps) = (ob_bIsNOTEXIST ob = b \<and> (\<forall>fc\<in>set (ob_comparisons ob). has_value fc) \<and> parsed ps)"
  by (simp_all add: patterns_ok_def parsed_def parts_comparisons_def ball_Un)

text \<open>
  Where blocks may stand: \<open>f\<close> and \<open>l\<close> tell whether this is the first and the last of its string,
  \<open>g\<close> and \<open>p\<close> whether a gap or a power block is before it.
\<close>

primrec Blocks_placed :: "Blocks \<Rightarrow> bool"
and BlockString_placed :: "BlockString \<Rightarrow> bool \<Rightarrow> bool \<Rightarrow> bool"
and BlockString2_placed :: "BlockString2 \<Rightarrow> bool \<Rightarrow> bool \<Rightarrow> bool \<Rightarrow> bool \<Rightarrow> bool"
and BlockString1_placed :: "BlockString1 \<Rightarrow> bool \<Rightarrow> bool \<Rightarrow> bool \<Rightarrow> bool \<Rightarrow> bool"
and BlockString0_placed :: "BlockString0 \<Rightarrow> bool \<Rightarrow> bool \<Rightarrow> bool \<Rightarrow> bool \<Rightarrow> bool"
and Block_placed :: "Block \<Rightarrow> bool \<Rightarrow> bool \<Rightarrow> bool"
and GapBlock_placed :: "GapBlock \<Rightarrow> bool"
and ObjectBlock_placed :: "ObjectBlock \<Rightarrow> bool \<Rightarrow> bool \<Rightarrow> bool"
and ObjectBlockString_placed :: "ObjectBlockString \<Rightarrow> bool" where
  "Blocks_placed (Blocks_string bs ur) = (BlockString_placed bs True True \<and>
     (case ur of None \<Rightarrow> True | Some r \<Rightarrow> 0 \<le> ur_start r \<and> ur_start r \<le> ur_end r))"
| "Blocks_placed (Blocks_unordered obs) = ObjectBlockString_placed obs"
| "BlockString_placed (BlockString_bs2 b2) = (\<lambda>f l.
     \<not> BlockString2_firstBlockIsPower b2 \<and> BlockString2_placed b2 f l False False)"
| "BlockString_placed (BlockString_or b2 bs) = (\<lambda>f l.
     \<not> BlockString2_firstBlockIsPower b2 \<and> BlockString2_placed b2 True True False False \<and> BlockString_placed bs True True)"
| "BlockString2_placed (BlockString2_bs1 n b1) = (\<lambda>f l g p. BlockString1_placed b1 f l g p \<and> \<not> bs1_is_power b1)"
| "BlockString2_placed (BlockString2_seq n b1 b2) = (\<lambda>f l g p.
     BlockString1_placed b1 f False g p \<and> BlockString2_placed b2 False l (bs1_is_gap b1) (bs1_is_power b1))"
| "BlockString1_placed (BlockString1_bs0 b0) = BlockString0_placed b0"
| "BlockString1_placed (BlockString1_star b0 mse som) = (\<lambda>f l g p.
     BlockString0_placed b0 f l g p \<and> (\<forall>(a, b)\<in>set mse. a \<le> b) \<and> star_allowed b0)"
| "BlockString0_placed (BlockString0_block b) = (\<lambda>f l g p.
     \<not> (g \<and> isGapOrOptGapBlock b) \<and> \<not> (p \<and> isPowerBlock b) \<and> Block_placed b f l)"
| "BlockString0_placed (BlockString0_string bs) = (\<lambda>f l g p. BlockString_placed bs f l)"
| "Block_placed (kOptGapBlock gb) = (\<lambda>f l. GapBlock_placed gb)"
| "Block_placed (kGapBlock gb) = (\<lambda>f l. GapBlock_placed gb)"
| "Block_placed (kPowerBlock pw) = (\<lambda>f l. pw_limit_low pw \<le> pw_limit_high pw \<and> \<not> f \<and> \<not> l)"
| "Block_placed (kObjectBlock ob) = ObjectBlock_placed ob"
| "Block_placed (kObjectBlockNOTEXIST ob) = ObjectBlock_placed ob"
| "GapBlock_placed (GapBlock gi opt_blocks) = pred_option (\<lambda>b. b) (map_option Blocks_placed opt_blocks)"
| "ObjectBlock_placed (ObjectBlock ob opt_blocks) = (\<lambda>f l.
     first_last_allowed (ob_first_last ob) f l \<and> pred_option (\<lambda>b. b) (map_option Blocks_placed opt_blocks))"
| "ObjectBlockString_placed (ObjectBlockString_one ob) = ObjectBlock_placed ob False False"
| "ObjectBlockString_placed (ObjectBlockString_more obs ob) =
     (ObjectBlockString_placed obs \<and> ObjectBlock_placed ob False False)"

section \<open>Numbers and flags\<close>

definition part_numbers :: "part \<Rightarrow> int list" where
  "part_numbers q = (case q of P_string n \<Rightarrow> [bs2_node_number n]
     | P_object b ob \<Rightarrow> obb_node_number (ob_base ob) #
         (case ob_feature_constraints ob of None \<Rightarrow> [] | Some k \<Rightarrow> [ffc_node_number k])
     | P_gap g \<Rightarrow> [])"

definition numbered :: "part list \<Rightarrow> int \<Rightarrow> int \<Rightarrow> bool" where
  "numbered ps a b \<longleftrightarrow> a \<le> b \<and> concat (map part_numbers ps) = [a..b - 1]"

lemma numbered_Nil [simp]: "numbered [] a a"
  by (simp add: numbered_def)

lemma numbered_gap [simp]: "numbered (P_gap g # ps) a b = numbered ps a b"
  by (simp add: numbered_def part_numbers_def)

lemma numbered_append: "numbered ps a b \<Longrightarrow> numbered qs b c \<Longrightarrow> numbered (ps @ qs) a c"
  using upto_split1[of a b "c - 1"] by (cases "b = c") (auto simp: numbered_def)

lemma numbered_string: "numbered ps (a + 1) b \<Longrightarrow> bs2_node_number n = a \<Longrightarrow> numbered (P_string n # ps) a b"
  using numbered_append[of "[P_string n]" a "a + 1" ps b] by (simp add: numbered_def part_numbers_def)

text \<open>The blocks that a string puts side by side, through its brackets and alternatives.\<close>

primrec BlockString_blocks :: "BlockString \<Rightarrow> Block list"
and BlockString2_blocks :: "BlockString2 \<Rightarrow> Block list"
and BlockString1_blocks :: "BlockString1 \<Rightarrow> Block list"
and BlockString0_blocks :: "BlockString0 \<Rightarrow> Block list" where
  "BlockString_blocks (BlockString_bs2 b2) = BlockString2_blocks b2"
| "BlockString_blocks (BlockString_or b2 bs) = BlockString2_blocks b2 @ BlockString_blocks bs"
| "BlockString2_blocks (BlockString2_bs1 n b1) = BlockString1_blocks b1"
| "BlockString2_blocks (BlockString2_seq n b1 b2) = BlockString1_blocks b1 @ BlockString2_blocks b2"
| "BlockString1_blocks (BlockString1_bs0 b0) = BlockString0_blocks b0"
| "BlockString1_blocks (BlockString1_star b0 mse som) = BlockString0_blocks b0"
| "BlockString0_blocks (BlockString0_block b) = [b]"
| "BlockString0_blocks (BlockString0_string bs) = BlockString_blocks bs"

text \<open>
  The flags of a block after weeding: \<open>m\<close> tells whether a block other than \<^verbatim>\<open>NOTEXIST\<close> came before,
  \<open>only\<close> whether there are no others at all.
\<close>

fun flagged :: "bool \<Rightarrow> bool \<Rightarrow> Block \<Rightarrow> bool" where
  "flagged m only (kObjectBlock (ObjectBlock ob opt_blocks)) =
     (ob_bIsAfterNonNOTEXIST ob \<and> ob_bBlockStringHasOnlyNOTEXIST ob = only)"
| "flagged m only (kObjectBlockNOTEXIST (ObjectBlock ob opt_blocks)) =
     (ob_bIsAfterNonNOTEXIST ob = m \<and> ob_bBlockStringHasOnlyNOTEXIST ob = only \<and>
      (ob_bIsNOTEXIST ob \<longrightarrow> obb_retrieval (ob_base ob) = kNoRetrieve))"
| "flagged m only b = True"

fun flags_from :: "bool \<Rightarrow> bool \<Rightarrow> Block list \<Rightarrow> bool" where
  "flags_from m only [] = True"
| "flags_from m only (b # bs) = (flagged m only b \<and> flags_from (m \<or> \<not> Block_hasOnlyNOTEXIST b) only bs)"

lemma flags_from_append [simp]:
  "flags_from m only (xs @ ys) = (flags_from m only xs \<and> flags_from (m \<or> (\<exists>b\<in>set xs. \<not> Block_hasOnlyNOTEXIST b)) only ys)"
  by (induction xs arbitrary: m) (auto simp: disj_assoc)

lemma hasOnly_blocks:
  "BlockString_hasOnlyNOTEXIST bs \<longleftrightarrow> (\<forall>b\<in>set (BlockString_blocks bs). Block_hasOnlyNOTEXIST b)"
  "BlockString2_hasOnlyNOTEXIST b2 \<longleftrightarrow> (\<forall>b\<in>set (BlockString2_blocks b2). Block_hasOnlyNOTEXIST b)"
  "BlockString1_hasOnlyNOTEXIST b1 \<longleftrightarrow> (\<forall>b\<in>set (BlockString1_blocks b1). Block_hasOnlyNOTEXIST b)"
  "BlockString0_hasOnlyNOTEXIST b0 \<longleftrightarrow> (\<forall>b\<in>set (BlockString0_blocks b0). Block_hasOnlyNOTEXIST b)"
proof -
  have
    "(bl :: Blocks) = bl"
    "BlockString_hasOnlyNOTEXIST bs \<longleftrightarrow> (\<forall>b\<in>set (BlockString_blocks bs). Block_hasOnlyNOTEXIST b)"
    "BlockString2_hasOnlyNOTEXIST b2 \<longleftrightarrow> (\<forall>b\<in>set (BlockString2_blocks b2). Block_hasOnlyNOTEXIST b)"
    "BlockString1_hasOnlyNOTEXIST b1 \<longleftrightarrow> (\<forall>b\<in>set (BlockString1_blocks b1). Block_hasOnlyNOTEXIST b)"
    "BlockString0_hasOnlyNOTEXIST b0 \<longleftrightarrow> (\<forall>b\<in>set (BlockString0_blocks b0). Block_hasOnlyNOTEXIST b)"
    "(bk :: Block) = bk" "(gb :: GapBlock) = gb" "(ob :: ObjectBlock) = ob" "(obs :: ObjectBlockString) = obs" for bl bk gb ob obs
    by (induction bl and bs and b2 and b1 and b0 and bk and gb and ob and obs) auto
  then show
    "BlockString_hasOnlyNOTEXIST bs \<longleftrightarrow> (\<forall>b\<in>set (BlockString_blocks bs). Block_hasOnlyNOTEXIST b)"
    "BlockString2_hasOnlyNOTEXIST b2 \<longleftrightarrow> (\<forall>b\<in>set (BlockString2_blocks b2). Block_hasOnlyNOTEXIST b)"
    "BlockString1_hasOnlyNOTEXIST b1 \<longleftrightarrow> (\<forall>b\<in>set (BlockString1_blocks b1). Block_hasOnlyNOTEXIST b)"
    "BlockString0_hasOnlyNOTEXIST b0 \<longleftrightarrow> (\<forall>b\<in>set (BlockString0_blocks b0). Block_hasOnlyNOTEXIST b)" by blast+
qed

text \<open>Every string of a query and of the blocks inside it has its flags.\<close>

primrec Blocks_flagged :: "Blocks \<Rightarrow> bool"
and BlockString_flagged :: "BlockString \<Rightarrow> bool"
and BlockString2_flagged :: "BlockString2 \<Rightarrow> bool"
and BlockString1_flagged :: "BlockString1 \<Rightarrow> bool"
and BlockString0_flagged :: "BlockString0 \<Rightarrow> bool"
and Block_flagged :: "Block \<Rightarrow> bool"
and GapBlock_flagged :: "GapBlock \<Rightarrow> bool"
and ObjectBlock_flagged :: "ObjectBlock \<Rightarrow> bool"
and ObjectBlockString_flagged :: "ObjectBlockString \<Rightarrow> bool" where
  "Blocks_flagged (Blocks_string bs ur) =
     (flags_from False (BlockString_hasOnlyNOTEXIST bs) (BlockString_blocks bs) \<and> BlockString_flagged bs)"
| "Blocks_flagged (Blocks_unordered obs) = ObjectBlockString_flagged obs"
| "BlockString_flagged (BlockString_bs2 b2) = BlockString2_flagged b2"
| "BlockString_flagged (BlockString_or b2 bs) = (BlockString2_flagged b2 \<and> BlockString_flagged bs)"
| "BlockString2_flagged (BlockString2_bs1 n b1) = BlockString1_flagged b1"
| "BlockString2_flagged (BlockString2_seq n b1 b2) = (BlockString1_flagged b1 \<and> BlockString2_flagged b2)"
| "BlockString1_flagged (BlockString1_bs0 b0) = BlockString0_flagged b0"
| "BlockString1_flagged (BlockString1_star b0 mse som) = BlockString0_flagged b0"
| "BlockString0_flagged (BlockString0_block b) = Block_flagged b"
| "BlockString0_flagged (BlockString0_string bs) = BlockString_flagged bs"
| "Block_flagged (kOptGapBlock g) = GapBlock_flagged g"
| "Block_flagged (kGapBlock g) = GapBlock_flagged g"
| "Block_flagged (kPowerBlock p) = True"
| "Block_flagged (kObjectBlock ob) = ObjectBlock_flagged ob"
| "Block_flagged (kObjectBlockNOTEXIST ob) = ObjectBlock_flagged ob"
| "GapBlock_flagged (GapBlock g opt_blocks) = pred_option (\<lambda>b. b) (map_option Blocks_flagged opt_blocks)"
| "ObjectBlock_flagged (ObjectBlock ob opt_blocks) = pred_option (\<lambda>b. b) (map_option Blocks_flagged opt_blocks)"
| "ObjectBlockString_flagged (ObjectBlockString_one ob) = ObjectBlock_flagged ob"
| "ObjectBlockString_flagged (ObjectBlockString_more obs ob) = (ObjectBlockString_flagged obs \<and> ObjectBlock_flagged ob)"

section \<open>Weeding meets its contract\<close>

text \<open>
  What each method returns: the tree but for the erased fields, whether it accepts, and if it does,
  the numbers and flags. A string's blocks also tell which flag the blocks after it get.
\<close>

definition weeds :: "('a \<Rightarrow> 'a) \<Rightarrow> ('a \<Rightarrow> part list) \<Rightarrow> ('a \<Rightarrow> bool) \<Rightarrow> 'a \<Rightarrow> bool \<Rightarrow> WeedState \<Rightarrow> ('a \<times> WeedState) \<Rightarrow> bool" where
  "weeds erase parts flgd x A st r \<longleftrightarrow>
     (case r of (x', st') \<Rightarrow> erase x' = erase x \<and> ws_bResult st' = A \<and>
        (A \<longrightarrow> numbered (parts x') (ws_nodes st) (ws_nodes st') \<and> flgd x'))"

definition marks :: "('a \<Rightarrow> Block list) \<Rightarrow> bool \<Rightarrow> WeedState \<Rightarrow> ('a \<times> WeedState) \<Rightarrow> bool" where
  "marks blocks only st r \<longleftrightarrow>
     (case r of (x', st') \<Rightarrow> ws_bResult st' \<longrightarrow> flags_from (ws_bHasMetNonNOTEXIST st) only (blocks x') \<and>
        ws_bHasMetNonNOTEXIST st' = (ws_bHasMetNonNOTEXIST st \<or> (\<exists>b\<in>set (blocks x'). \<not> Block_hasOnlyNOTEXIST b)))"

lemma FeatureComparison_weed_ok: "has_value fc \<Longrightarrow> FeatureComparison_weed c fc True = Inr (pattern_ok c fc)"
  by (auto simp: FeatureComparison_weed_def has_value_def pattern_ok_def tilde_def deref_def split: option.splits Value.splits)

lemma FFeatures_weed_ok:
  "\<forall>fc\<in>set (ff_comparisons f). has_value fc \<Longrightarrow> FFeatures_weed f c True = Inr (\<forall>fc\<in>set (ff_comparisons f). pattern_ok c fc)"
  "\<forall>fc\<in>set (ft_comparisons t). has_value fc \<Longrightarrow> FTerm_weed t c True = Inr (\<forall>fc\<in>set (ft_comparisons t). pattern_ok c fc)"
  "\<forall>fc\<in>set (fa_comparisons a). has_value fc \<Longrightarrow> FFactor_weed a c True = Inr (\<forall>fc\<in>set (fa_comparisons a). pattern_ok c fc)"
  by (induction f and t and a) (auto simp: FeatureComparison_weed_ok)

lemma weedMonotonic_ok: "weedMonotonic mse True = (\<forall>(a, b)\<in>set mse. a \<le> b)"
  by (induction mse True rule: weedMonotonic.induct) auto

lemma reject_simps [simp]:
  "ws_bResult (reject b st) = (\<not> b \<and> ws_bResult st)" "ws_nodes (reject b st) = ws_nodes st"
  "ws_bHasMetNonNOTEXIST (reject b st) = ws_bHasMetNonNOTEXIST st" "reject False st = st"
  by (simp_all add: reject_def)

lemma met_simps [simp]:
  "ws_bResult (met st) = ws_bResult st" "ws_nodes (met st) = ws_nodes st" "ws_bHasMetNonNOTEXIST (met st) = True"
  by (simp_all add: met_def)

text \<open>Weeding the constraints of an object block.\<close>

lemma weedFeatureConstraints_ok:
  assumes "\<forall>fc\<in>set (ob_comparisons ob). has_value fc" "ws_bResult st" "obb_node_number (ob_base ob) = a" "ws_nodes st = a + 1"
  shows "\<exists>ob' st'. weedFeatureConstraints c ob st = Inr (ob', st') \<and> erase_ob ob' = erase_ob ob \<and>
     ws_bResult st' = (\<forall>fc\<in>set (ob_comparisons ob). pattern_ok c fc) \<and>
     numbered [P_object b ob'] a (ws_nodes st') \<and> ws_bHasMetNonNOTEXIST st' = ws_bHasMetNonNOTEXIST st \<and>
     ob_base ob' = ob_base ob \<and> ob_bIsAfterNonNOTEXIST ob' = ob_bIsAfterNonNOTEXIST ob \<and>
     ob_bBlockStringHasOnlyNOTEXIST ob' = ob_bBlockStringHasOnlyNOTEXIST ob \<and> ob_bIsNOTEXIST ob' = ob_bIsNOTEXIST ob"
proof (cases "ob_feature_constraints ob")
  case None
  then show ?thesis using assms(2-) by (simp add: weedFeatureConstraints_def ob_comparisons_def numbered_def part_numbers_def)
next
  case (Some k)
  have u: "[a, a + 1] = [a..a + 1]" using upto_split2[of a "a+1" "a+1"] by (simp add: upto_rec1)
  with Some show ?thesis using assms FFeatures_weed_ok(1)[of "ffc_ffeatures k" c]
    by (simp add: weedFeatureConstraints_def getNextNodeNumber_def Let_def ob_comparisons_def numbered_def part_numbers_def
        erase_ob_def add.commute)
qed

lemma option_pred_True [simp]: "pred_option (\<lambda>b. b) None" "pred_option (\<lambda>b. b) (Some x) = x"
  by simp_all


lemma met_weeds [simp]: "weeds e p k x A (met st) r = weeds e p k x A st r"
  by (simp add: weeds_def)

text \<open>An object block, from the contract of the blocks inside it.\<close>

definition inner_contract :: "(string \<Rightarrow> bool) \<Rightarrow> Blocks option \<Rightarrow> bool" where
  "inner_contract c opt \<longleftrightarrow> (\<forall>b\<in>set_option opt. parsed (Blocks_parts b) \<longrightarrow> (\<forall>i st. ws_bResult st \<longrightarrow>
     (\<exists>r. Blocks_weed b c i st = Inr r \<and>
        weeds Blocks_erase Blocks_parts Blocks_flagged b (Blocks_placed b \<and> patterns_ok c (Blocks_parts b)) st r \<and>
        ws_bHasMetNonNOTEXIST (snd r) = ws_bHasMetNonNOTEXIST st)))"

lemma weed_inner_ok:
  assumes "inner_contract c opt" "parsed (option_parts (map_option Blocks_parts opt))" "ws_bResult st"
  shows "\<exists>opt' st'. weed_inner opt (map_option (\<lambda>f. f c) (map_option Blocks_weed opt)) i st = Inr (opt', st') \<and>
    map_option Blocks_erase opt' = map_option Blocks_erase opt \<and>
    ws_bResult st' = (pred_option (\<lambda>b. b) (map_option Blocks_placed opt) \<and> patterns_ok c (option_parts (map_option Blocks_parts opt))) \<and>
    (ws_bResult st' \<longrightarrow> numbered (option_parts (map_option Blocks_parts opt')) (ws_nodes st) (ws_nodes st') \<and>
       pred_option (\<lambda>b. b) (map_option Blocks_flagged opt')) \<and>
    ws_bHasMetNonNOTEXIST st' = ws_bHasMetNonNOTEXIST st"
proof (cases opt)
  case None
  then show ?thesis using assms(3) by (simp add: weed_inner_def)
next
  case (Some b)
  then obtain b' st' where "Blocks_weed b c i st = Inr (b', st')"
    "weeds Blocks_erase Blocks_parts Blocks_flagged b (Blocks_placed b \<and> patterns_ok c (Blocks_parts b)) st (b', st')"
    "ws_bHasMetNonNOTEXIST st' = ws_bHasMetNonNOTEXIST st"
    using assms unfolding inner_contract_def by fastforce
  with Some show ?thesis by (auto simp: weed_inner_def weeds_def)
qed

lemma ObjectBlock_weed_ok:
  assumes "inner_contract c opt" "parsed (ObjectBlock_parts (ObjectBlock ob opt) b)" "ws_bResult st"
  shows "\<exists>ob' st'. ObjectBlock_weed (ObjectBlock ob opt) c f l only i st = Inr (ob', st') \<and>
    weeds ObjectBlock_erase (\<lambda>x. ObjectBlock_parts x b) ObjectBlock_flagged (ObjectBlock ob opt)
      (ObjectBlock_placed (ObjectBlock ob opt) f l \<and> patterns_ok c (ObjectBlock_parts (ObjectBlock ob opt) b)) st (ob', st') \<and>
    (ws_bResult st' \<longrightarrow> ws_bHasMetNonNOTEXIST st' = (ws_bHasMetNonNOTEXIST st \<or> \<not> b) \<and>
       flagged (ws_bHasMetNonNOTEXIST st) only (kObjectBlockNOTEXIST ob'))"
proof -
  define ob1 st1 where m: "ob1 = fst (ObjectBlock_mark ob f l only i st)" "st1 = snd (ObjectBlock_mark ob f l only i st)"
  have mark: "ObjectBlock_mark ob f l only i st = (ob1, st1)" by (simp add: m)
  have k: "ob_comparisons ob1 = ob_comparisons ob" "ob_bIsNOTEXIST ob1 = b" "erase_ob ob1 = erase_ob ob"
    "obb_node_number (ob_base ob1) = ws_nodes st" "ws_nodes st1 = ws_nodes st + 1"
    "ws_bHasMetNonNOTEXIST st1 = ws_bHasMetNonNOTEXIST st" "ws_bResult st1 = first_last_allowed (ob_first_last ob) f l"
    "ob_bIsAfterNonNOTEXIST ob1 = ws_bHasMetNonNOTEXIST st" "ob_bBlockStringHasOnlyNOTEXIST ob1 = only"
    "b \<longrightarrow> obb_retrieval (ob_base ob1) = kNoRetrieve"
    using assms(2) erase_mark[OF mark]
    by (auto simp: m ObjectBlock_mark_def getNextNodeNumber_def Let_def ob_comparisons_def)
  show ?thesis
  proof (cases "ws_bResult st1")
    case False
    then show ?thesis using k by (auto simp: ObjectBlock_weed_info_def mark weeds_def)
  next
    case True
    obtain ob2 st2 where 2: "weedFeatureConstraints c ob1 st1 = Inr (ob2, st2)" "erase_ob ob2 = erase_ob ob"
      "ws_bResult st2 = (\<forall>fc\<in>set (ob_comparisons ob). pattern_ok c fc)" "numbered [P_object b ob2] (ws_nodes st) (ws_nodes st2)"
      "ws_bHasMetNonNOTEXIST st2 = ws_bHasMetNonNOTEXIST st" "ob_base ob2 = ob_base ob1"
      "ob_bIsAfterNonNOTEXIST ob2 = ws_bHasMetNonNOTEXIST st" "ob_bBlockStringHasOnlyNOTEXIST ob2 = only" "ob_bIsNOTEXIST ob2 = b"
      using weedFeatureConstraints_ok[of ob1 st1 "ws_nodes st" c b] True k assms(2) by auto
    show ?thesis
    proof (cases "ws_bResult st2")
      case False
      then show ?thesis using k 2 True by (auto simp: ObjectBlock_weed_info_def mark weeds_def)
    next
      case r: True
      obtain opt' st3 where 3: "weed_inner opt (map_option (\<lambda>f. f c) (map_option Blocks_weed opt)) i st2 = Inr (opt', st3)"
        "map_option Blocks_erase opt' = map_option Blocks_erase opt"
        "ws_bResult st3 = (pred_option (\<lambda>b. b) (map_option Blocks_placed opt) \<and> patterns_ok c (option_parts (map_option Blocks_parts opt)))"
        "ws_bResult st3 \<longrightarrow> numbered (option_parts (map_option Blocks_parts opt')) (ws_nodes st2) (ws_nodes st3) \<and>
           pred_option (\<lambda>b. b) (map_option Blocks_flagged opt')"
        "ws_bHasMetNonNOTEXIST st3 = ws_bHasMetNonNOTEXIST st2"
        using weed_inner_ok[OF assms(1) _ r, of i] assms(2) by auto
      have "numbered (P_object b ob2 # option_parts (map_option Blocks_parts opt')) (ws_nodes st) (ws_nodes st3)" if "ws_bResult st3"
        using numbered_append[OF 2(4)] 3(4) that by simp
      then show ?thesis using k 2 3 True r by (auto simp: ObjectBlock_weed_info_def mark weeds_def)
    qed
  qed
qed


text \<open>What weeding leaves alone decides where a star may stand and whether there are only \<^verbatim>\<open>NOTEXIST\<close> blocks.\<close>

lemma erase_star_allowed: "star_allowed (BlockString0_erase b0) = star_allowed b0"
  by (cases b0 rule: star_allowed.cases) (auto simp: erase_ob_def)

lemma erase_Block_only [simp]: "Block_hasOnlyNOTEXIST (Block_erase b) = Block_hasOnlyNOTEXIST b"
  by (cases b) simp_all

lemma erase_blocks:
  fixes bl :: Blocks and bk :: Block and gb :: GapBlock and ob :: ObjectBlock and obs :: ObjectBlockString
  shows "bl = bl" "BlockString_blocks (BlockString_erase bs) = map Block_erase (BlockString_blocks bs)"
    "BlockString2_blocks (BlockString2_erase b2) = map Block_erase (BlockString2_blocks b2)"
    "BlockString1_blocks (BlockString1_erase b1) = map Block_erase (BlockString1_blocks b1)"
    "BlockString0_blocks (BlockString0_erase b0) = map Block_erase (BlockString0_blocks b0)"
    "bk = bk" "gb = gb" "ob = ob" "obs = obs"
  by (induction bl and bs and b2 and b1 and b0 and bk and gb and ob and obs) auto

lemma erase_hasOnly: "BlockString_erase bs = BlockString_erase bs' \<Longrightarrow> BlockString_hasOnlyNOTEXIST bs = BlockString_hasOnlyNOTEXIST bs'"
proof -
  have "BlockString_hasOnlyNOTEXIST (BlockString_erase x) = BlockString_hasOnlyNOTEXIST x" for x
    by (simp add: hasOnly_blocks erase_blocks)
  then show "BlockString_erase bs = BlockString_erase bs' \<Longrightarrow> ?thesis" by metis
qed

lemma weeds_pair:
  "weeds e pt k x A st (x', st') \<longleftrightarrow> e x' = e x \<and> ws_bResult st' = A \<and>
     (A \<longrightarrow> numbered (pt x') (ws_nodes st) (ws_nodes st') \<and> k x')"
  by (simp add: weeds_def)

lemma marks_pair:
  "marks bks only st (x', st') \<longleftrightarrow> (ws_bResult st' \<longrightarrow> flags_from (ws_bHasMetNonNOTEXIST st) only (bks x') \<and>
     ws_bHasMetNonNOTEXIST st' = (ws_bHasMetNonNOTEXIST st \<or> (\<exists>b\<in>set (bks x'). \<not> Block_hasOnlyNOTEXIST b)))"
  by (simp add: marks_def)

lemmas contract_simps = weeds_pair marks_pair numbered_append numbered_string map_weed_def

lemma weed_contract:
  "parsed (Blocks_parts bl) \<Longrightarrow> ws_bResult st \<Longrightarrow> \<exists>bl' st'. Blocks_weed bl c i st = Inr (bl', st') \<and>
     weeds Blocks_erase Blocks_parts Blocks_flagged bl (Blocks_placed bl \<and> patterns_ok c (Blocks_parts bl)) st (bl', st') \<and>
     ws_bHasMetNonNOTEXIST st' = ws_bHasMetNonNOTEXIST st"
  "parsed (BlockString_parts bs) \<Longrightarrow> ws_bResult st \<Longrightarrow> \<not> pl_bPrevIsGap pl \<and> \<not> pl_bPrevIsPower pl \<Longrightarrow>
     \<exists>bs' st'. BlockString_weed bs c pl st = Inr (bs', st') \<and>
     weeds BlockString_erase BlockString_parts BlockString_flagged bs
       (BlockString_placed bs (pl_is_first pl) (pl_is_last pl) \<and> patterns_ok c (BlockString_parts bs)) st (bs', st') \<and>
     marks BlockString_blocks (pl_only pl) st (bs', st')"
  "parsed (BlockString2_parts b2) \<Longrightarrow> ws_bResult st \<Longrightarrow> \<exists>b2' st'. BlockString2_weed b2 c pl st = Inr (b2', st') \<and>
     weeds BlockString2_erase BlockString2_parts BlockString2_flagged b2
       (BlockString2_placed b2 (pl_is_first pl) (pl_is_last pl) (pl_bPrevIsGap pl) (pl_bPrevIsPower pl) \<and>
        patterns_ok c (BlockString2_parts b2)) st (b2', st') \<and> marks BlockString2_blocks (pl_only pl) st (b2', st')"
  "parsed (BlockString1_parts b1) \<Longrightarrow> ws_bResult st \<Longrightarrow> \<exists>b1' st'. BlockString1_weed b1 c pl st = Inr (b1', st') \<and>
     weeds BlockString1_erase BlockString1_parts BlockString1_flagged b1
       (BlockString1_placed b1 (pl_is_first pl) (pl_is_last pl) (pl_bPrevIsGap pl) (pl_bPrevIsPower pl) \<and>
        patterns_ok c (BlockString1_parts b1)) st (b1', st') \<and> marks BlockString1_blocks (pl_only pl) st (b1', st')"
  "parsed (BlockString0_parts b0) \<Longrightarrow> ws_bResult st \<Longrightarrow> \<exists>b0' st'. BlockString0_weed b0 c pl st = Inr (b0', st') \<and>
     weeds BlockString0_erase BlockString0_parts BlockString0_flagged b0
       (BlockString0_placed b0 (pl_is_first pl) (pl_is_last pl) (pl_bPrevIsGap pl) (pl_bPrevIsPower pl) \<and>
        patterns_ok c (BlockString0_parts b0)) st (b0', st') \<and> marks BlockString0_blocks (pl_only pl) st (b0', st')"
  "parsed (Block_parts bk) \<Longrightarrow> ws_bResult st \<Longrightarrow> \<exists>bk' st'. Block_weed bk c pl st = Inr (bk', st') \<and>
     weeds Block_erase Block_parts Block_flagged bk
       (Block_placed bk (pl_is_first pl) (pl_is_last pl) \<and> patterns_ok c (Block_parts bk)) st (bk', st') \<and>
     marks (\<lambda>b. [b]) (pl_only pl) st (bk', st')"
  "parsed (GapBlock_parts gb) \<Longrightarrow> ws_bResult st \<Longrightarrow> \<exists>gb' st'. GapBlock_weed gb c i st = Inr (gb', st') \<and>
     weeds GapBlock_erase GapBlock_parts GapBlock_flagged gb (GapBlock_placed gb \<and> patterns_ok c (GapBlock_parts gb)) st (gb', st')"
  "parsed (ObjectBlock_parts ob b) \<Longrightarrow> ws_bResult st \<Longrightarrow> \<exists>ob' st'. ObjectBlock_weed ob c f l only n st = Inr (ob', st') \<and>
     weeds ObjectBlock_erase (\<lambda>x. ObjectBlock_parts x b) ObjectBlock_flagged ob
       (ObjectBlock_placed ob f l \<and> patterns_ok c (ObjectBlock_parts ob b)) st (ob', st') \<and>
     (ws_bResult st' \<longrightarrow> ws_bHasMetNonNOTEXIST st' = (ws_bHasMetNonNOTEXIST st \<or> \<not> b) \<and>
        flagged (ws_bHasMetNonNOTEXIST st) only (kObjectBlockNOTEXIST ob'))"
  "parsed (ObjectBlockString_parts obs) \<Longrightarrow> ws_bResult st \<Longrightarrow> \<exists>obs' st'. ObjectBlockString_weed obs c i st = Inr (obs', st') \<and>
     weeds ObjectBlockString_erase ObjectBlockString_parts ObjectBlockString_flagged obs
       (ObjectBlockString_placed obs \<and> patterns_ok c (ObjectBlockString_parts obs)) st (obs', st')"
proof (induction bl and bs and b2 and b1 and b0 and bk and gb and ob and obs
    arbitrary: i st and pl st and pl st and pl st and pl st and pl st and i st and b f l only n st and i st)
  case (Blocks_string bs ur)
  let ?pl = "\<lparr>pl_is_first = True, pl_is_last = True, pl_bPrevIsGap = False, pl_bPrevIsPower = False,
          pl_only = BlockString_hasOnlyNOTEXIST bs, pl_parent = i\<rparr>" and ?st = "st\<lparr>ws_bHasMetNonNOTEXIST := False\<rparr>"
  obtain bs' st' where "BlockString_weed bs c ?pl ?st = Inr (bs', st')"
    "weeds BlockString_erase BlockString_parts BlockString_flagged bs
       (BlockString_placed bs True True \<and> patterns_ok c (BlockString_parts bs)) ?st (bs', st')"
    "marks BlockString_blocks (BlockString_hasOnlyNOTEXIST bs) ?st (bs', st')"
    using Blocks_string.IH[of ?st ?pl] Blocks_string.prems by auto
  then show ?case using erase_hasOnly[of bs' bs] by (auto simp: contract_simps UsingRange_weed_def Let_def split: option.splits)
next
  case (Blocks_unordered obs)
  show ?case using Blocks_unordered.IH[of "st\<lparr>ws_bHasMetNonNOTEXIST := False\<rparr>" i] Blocks_unordered.prems by (auto simp: contract_simps Let_def)
next
  case (BlockString_bs2 b2)
  show ?case using BlockString_bs2.IH[of st pl] BlockString_bs2.prems
    by (cases "BlockString2_firstBlockIsPower b2") (auto simp: contract_simps Let_def)
next
  case (BlockString_or b2 bs)
  let ?pl = "pl\<lparr>pl_is_first := True, pl_is_last := True, pl_bPrevIsGap := False, pl_bPrevIsPower := False\<rparr>"
  show ?case
  proof (cases "BlockString2_firstBlockIsPower b2")
    case True
    then show ?thesis by (simp add: contract_simps Let_def)
  next
    case False
    obtain b2' st2 where 2: "BlockString2_weed b2 c ?pl st = Inr (b2', st2)"
      "weeds BlockString2_erase BlockString2_parts BlockString2_flagged b2
         (BlockString2_placed b2 True True False False \<and> patterns_ok c (BlockString2_parts b2)) st (b2', st2)"
      "marks BlockString2_blocks (pl_only pl) st (b2', st2)"
      using BlockString_or.IH(1)[of st ?pl] BlockString_or.prems by auto
    show ?thesis
    proof (cases "ws_bResult st2")
      case False
      with 2 \<open>\<not> BlockString2_firstBlockIsPower b2\<close> show ?thesis by (auto simp: contract_simps Let_def)
    next
      case True
      with 2 False BlockString_or.IH(2)[of st2 ?pl] BlockString_or.prems show ?thesis by (auto simp: contract_simps Let_def)
    qed
  qed
next
  case (BlockString2_bs1 n b1)
  show ?case using BlockString2_bs1.IH[of "st\<lparr>ws_nodes := ws_nodes st + 1\<rparr>" "pl\<lparr>pl_parent := ws_nodes st\<rparr>"] BlockString2_bs1.prems
    by (auto simp: contract_simps getNextNodeNumber_def)
next
  case (BlockString2_seq n b1 b2)
  let ?st = "st\<lparr>ws_nodes := ws_nodes st + 1\<rparr>" and ?pl = "pl\<lparr>pl_is_last := False, pl_parent := ws_nodes st\<rparr>"
  let ?pl2 = "pl\<lparr>pl_is_first := False, pl_bPrevIsGap := bs1_is_gap b1, pl_bPrevIsPower := bs1_is_power b1\<rparr>"
  have near: "BlockString1_placed b1 f l g p \<Longrightarrow> \<not> (g \<and> bs1_is_gap b1) \<and> \<not> (p \<and> bs1_is_power b1)" for f l g p
    by (cases b1; cases "getBlockString0 b1") (auto simp: bs1_is_gap_def bs1_is_power_def)
  show ?case
  proof (cases "pl_bPrevIsGap pl \<and> bs1_is_gap b1 \<or> pl_bPrevIsPower pl \<and> bs1_is_power b1")
    case True
    then show ?thesis using near[of "pl_is_first pl" False "pl_bPrevIsGap pl" "pl_bPrevIsPower pl"]
      by (auto simp: contract_simps getNextNodeNumber_def Let_def)
  next
    case False
    obtain b1' st4 where 1: "BlockString1_weed b1 c ?pl ?st = Inr (b1', st4)"
      "weeds BlockString1_erase BlockString1_parts BlockString1_flagged b1
         (BlockString1_placed b1 (pl_is_first pl) False (pl_bPrevIsGap pl) (pl_bPrevIsPower pl) \<and>
          patterns_ok c (BlockString1_parts b1)) ?st (b1', st4)" "marks BlockString1_blocks (pl_only pl) ?st (b1', st4)"
      using BlockString2_seq.IH(1)[of ?st ?pl] BlockString2_seq.prems by auto
    show ?thesis
    proof (cases "ws_bResult st4")
      case f: False
      with 1 False BlockString2_seq.prems show ?thesis by (auto simp: contract_simps getNextNodeNumber_def Let_def)
    next
      case True
      obtain b2' st5 where 2: "BlockString2_weed b2 c ?pl2 st4 = Inr (b2', st5)"
        "weeds BlockString2_erase BlockString2_parts BlockString2_flagged b2
           (BlockString2_placed b2 False (pl_is_last pl) (bs1_is_gap b1) (bs1_is_power b1) \<and>
            patterns_ok c (BlockString2_parts b2)) st4 (b2', st5)" "marks BlockString2_blocks (pl_only pl) st4 (b2', st5)"
        using BlockString2_seq.IH(2)[of st4 ?pl2] True BlockString2_seq.prems by auto
      let ?r = "BlockString2_seq (n\<lparr>bs2_node_number := ws_nodes st, bs2_parent := pl_parent pl\<rparr>) b1' b2'"
      have no: "(pl_bPrevIsGap pl \<and> bs1_is_gap b1) = False" "(pl_bPrevIsPower pl \<and> bs1_is_power b1) = False" using False by auto
      have r: "BlockString2_weed (BlockString2_seq n b1 b2) c pl st = Inr (?r, st5)"
        using 1(1) 2(1) True BlockString2_seq.prems(2)
        by (simp add: map_weed_def getNextNodeNumber_def Let_def no)
      have A: "BlockString1_placed b1 (pl_is_first pl) False (pl_bPrevIsGap pl) (pl_bPrevIsPower pl) \<and>
          patterns_ok c (BlockString1_parts b1)" using True 1(2) by (simp add: weeds_pair)
      have "numbered (BlockString2_parts ?r) (ws_nodes st) (ws_nodes st5)" if "ws_bResult st5"
        using numbered_string[OF numbered_append[of "BlockString1_parts b1'" "ws_nodes st + 1" "ws_nodes st4"]] A 1(2) 2(2) that
        by (simp add: weeds_pair)
      moreover have "flags_from (ws_bHasMetNonNOTEXIST st) (pl_only pl) (BlockString2_blocks ?r) \<and> ws_bHasMetNonNOTEXIST st5 =
          (ws_bHasMetNonNOTEXIST st \<or> (\<exists>b\<in>set (BlockString2_blocks ?r). \<not> Block_hasOnlyNOTEXIST b))" if "ws_bResult st5"
        using 1(3) 2(3) True that by (auto simp: marks_pair)
      ultimately show ?thesis using 1(2) 2(2) A
        by (intro exI[of _ ?r] exI[of _ st5] conjI r) (simp_all add: weeds_pair marks_pair)
    qed
  qed
next
  case (BlockString1_bs0 b0)
  show ?case using BlockString1_bs0.IH[of st pl] BlockString1_bs0.prems by (auto simp: contract_simps Let_def)
next
  case (BlockString1_star b0 mse som)
  obtain b0' st1 where 1: "BlockString0_weed b0 c pl st = Inr (b0', st1)"
    "weeds BlockString0_erase BlockString0_parts BlockString0_flagged b0
       (BlockString0_placed b0 (pl_is_first pl) (pl_is_last pl) (pl_bPrevIsGap pl) (pl_bPrevIsPower pl) \<and>
        patterns_ok c (BlockString0_parts b0)) st (b0', st1)" "marks BlockString0_blocks (pl_only pl) st (b0', st1)"
    using BlockString1_star.IH[of st pl] BlockString1_star.prems by auto
  have "star_allowed b0' = star_allowed b0" using 1(2) erase_star_allowed[of b0] erase_star_allowed[of b0'] by (simp add: weeds_pair)
  moreover have "MQLMonadSetElement_weed mse False True = (\<forall>(a, b)\<in>set mse. a \<le> b)"
    by (simp add: MQLMonadSetElement_weed_def weedMonotonic_ok)
  ultimately show ?case using 1
    by (cases "ws_bResult st1"; cases "MQLMonadSetElement_weed mse False True"; cases "star_allowed b0")
      (auto simp add: contract_simps Let_def reject_def simp del: split_paired_All)
next
  case (BlockString0_block b)
  show ?case using BlockString0_block.IH[of st pl] BlockString0_block.prems by (auto simp: contract_simps Let_def)
next
  case (BlockString0_string bs)
  show ?case using BlockString0_string.IH[of st "pl\<lparr>pl_bPrevIsGap := False, pl_bPrevIsPower := False\<rparr>"] BlockString0_string.prems
    by (auto simp: contract_simps Let_def)
next
  case (kOptGapBlock g)
  show ?case using kOptGapBlock.IH[of st "pl_parent pl"] kOptGapBlock.prems by (auto simp: contract_simps Let_def)
next
  case (kGapBlock g)
  show ?case using kGapBlock.IH[of st "pl_parent pl"] kGapBlock.prems by (auto simp: contract_simps Let_def)
next
  case (kPowerBlock p)
  then show ?case by (auto simp: contract_simps Power_block_weed_def Power_weed_def)
next
  case (kObjectBlock ob)
  obtain ob' st' where 1: "ObjectBlock_weed ob c (pl_is_first pl) (pl_is_last pl) (pl_only pl) (pl_parent pl) (met st) = Inr (ob', st')"
    "weeds ObjectBlock_erase (\<lambda>x. ObjectBlock_parts x False) ObjectBlock_flagged ob
       (ObjectBlock_placed ob (pl_is_first pl) (pl_is_last pl) \<and> patterns_ok c (ObjectBlock_parts ob False)) (met st) (ob', st')"
    "ws_bResult st' \<longrightarrow> ws_bHasMetNonNOTEXIST st' \<and> flagged True (pl_only pl) (kObjectBlockNOTEXIST ob')"
    using kObjectBlock.IH[of False "met st" "pl_is_first pl" "pl_is_last pl" "pl_only pl" "pl_parent pl"] kObjectBlock.prems by auto
  then show ?case by (cases ob') (auto simp: contract_simps)
next
  case (kObjectBlockNOTEXIST ob)
  show ?case using kObjectBlockNOTEXIST.IH[of True st "pl_is_first pl" "pl_is_last pl" "pl_only pl" "pl_parent pl"] kObjectBlockNOTEXIST.prems
    by (auto simp: contract_simps Let_def)
next
  case (GapBlock g opt)
  have "inner_contract c opt" using GapBlock.IH by (auto simp: inner_contract_def)
  from weed_inner_ok[OF this, of st i] GapBlock.prems show ?case by (auto simp: contract_simps Let_def)
next
  case (ObjectBlock j opt)
  have "inner_contract c opt" using ObjectBlock.IH by (auto simp: inner_contract_def)
  from ObjectBlock_weed_ok[OF this ObjectBlock.prems] show ?case .
next
  case (ObjectBlockString_one ob)
  show ?case using ObjectBlockString_one.IH[of False st False False False i] ObjectBlockString_one.prems by (auto simp: contract_simps Let_def)
next
  case (ObjectBlockString_more obs ob)
  obtain obs' st1 where 1: "ObjectBlockString_weed obs c i st = Inr (obs', st1)"
    "weeds ObjectBlockString_erase ObjectBlockString_parts ObjectBlockString_flagged obs
       (ObjectBlockString_placed obs \<and> patterns_ok c (ObjectBlockString_parts obs)) st (obs', st1)"
    using ObjectBlockString_more.IH(1)[of st i] ObjectBlockString_more.prems by auto
  show ?case
  proof (cases "ws_bResult st1")
    case False
    with 1 show ?thesis by (auto simp: contract_simps Let_def)
  next
    case True
    with 1 ObjectBlockString_more.IH(2)[of False st1 False False False i] ObjectBlockString_more.prems show ?thesis
      by (auto simp: contract_simps Let_def)
  qed
qed

section \<open>Strings as sequences\<close>

text \<open>
  A string is well placed iff each of its items is, where it stands, next to the one before it, and
  the last one is no power block.
\<close>

fun BlockString2_items :: "BlockString2 \<Rightarrow> BlockString1 list" where
  "BlockString2_items (BlockString2_bs1 n b1) = [b1]"
| "BlockString2_items (BlockString2_seq n b1 b2) = b1 # BlockString2_items b2"

lemma items_nonempty [simp]: "BlockString2_items b2 \<noteq> []"
  by (cases b2) simp_all

definition item_placed :: "BlockString1 list \<Rightarrow> bool \<Rightarrow> bool \<Rightarrow> bool \<Rightarrow> bool \<Rightarrow> nat \<Rightarrow> bool" where
  "item_placed xs f l g p i \<longleftrightarrow>
     BlockString1_placed (xs ! i) (f \<and> i = 0) (l \<and> Suc i = length xs)
       (if i = 0 then g else bs1_is_gap (xs ! (i - 1))) (if i = 0 then p else bs1_is_power (xs ! (i - 1)))"

lemma item_placed_Suc:
  "xs \<noteq> [] \<Longrightarrow> item_placed (x # xs) f l g p (Suc j) = item_placed xs False l (bs1_is_gap x) (bs1_is_power x) j"
  by (cases j) (simp_all add: item_placed_def)

lemma BlockString2_placed_items:
  "BlockString2_placed b2 f l g p \<longleftrightarrow>
     (\<forall>i<length (BlockString2_items b2). item_placed (BlockString2_items b2) f l g p i) \<and>
     \<not> bs1_is_power (last (BlockString2_items b2))"
proof (induction b2 arbitrary: f g p rule: BlockString2_items.induct)
  case (1 n b1)
  then show ?case by (simp add: item_placed_def)
next
  case (2 n b1 b2)
  let ?xs = "BlockString2_items b2"
  have "(\<forall>i<length (b1 # ?xs). item_placed (b1 # ?xs) f l g p i) \<longleftrightarrow>
      item_placed (b1 # ?xs) f l g p 0 \<and> (\<forall>j<length ?xs. item_placed (b1 # ?xs) f l g p (Suc j))"
    by (simp add: All_less_Suc2)
  also have "item_placed (b1 # ?xs) f l g p 0 = BlockString1_placed b1 f False g p" by (simp add: item_placed_def)
  finally show ?case using 2 by (simp add: item_placed_Suc)
qed

section \<open>What weeding lets through\<close>

text \<open>An alternative starts afresh: inside brackets, its blocks count as first and last wherever the brackets stand.\<close>

lemma alternative_ignores_place:
  "BlockString1_placed (BlockString1_bs0 (BlockString0_string (BlockString_or b2 bs))) f l g p =
   BlockString1_placed (BlockString1_bs0 (BlockString0_string (BlockString_or b2 bs))) True True False False"
  by simp

text \<open>A block in brackets does not count as a gap or a power block for its neighbours.\<close>

lemma brackets_hide_gaps:
  "\<not> bs1_is_gap (BlockString1_bs0 (BlockString0_string bs))"
  "BlockString1_placed (BlockString1_bs0 (BlockString0_string bs)) f l g p =
   BlockString1_placed (BlockString1_bs0 (BlockString0_string bs)) f l False False"
  by (simp_all add: bs1_is_gap_def)

text \<open>
  The alternatives of a string share the flag that a block other than \<^verbatim>\<open>NOTEXIST\<close> came before, so
  what \<^verbatim>\<open>NOTEXIST\<close> means in one depends on whether it is written first.
\<close>

lemma alternatives_share_flag:
  assumes "flags_from False only (BlockString2_blocks b2 @ kObjectBlockNOTEXIST (ObjectBlock ob opt) # bs)"
    "\<exists>b\<in>set (BlockString2_blocks b2). \<not> Block_hasOnlyNOTEXIST b"
  shows "ob_bIsAfterNonNOTEXIST ob"
  using assms by auto

text \<open>A star on a power block passes, and the engine never reads it.\<close>

lemma star_on_power_passes:
  "BlockString1_placed (BlockString1_star (BlockString0_block (kPowerBlock p)) mse som) False False False False \<longleftrightarrow>
     (\<forall>(a, b)\<in>set mse. a \<le> b) \<and> pw_limit_low p \<le> pw_limit_high p"
  "firstBlockPower (BlockString1_star (BlockString0_block (kPowerBlock p)) mse som) = firstBlockPower (BlockString1_bs0 (BlockString0_block (kPowerBlock p)))"
  by auto

section \<open>The properties of weeding\<close>

definition weed_start :: WeedState where
  "weed_start = \<lparr>ws_bResult = True, ws_bHasMetNonNOTEXIST = False, ws_nodes = 0\<rparr>"

text \<open>C12: Weeding decides where blocks may stand. It always returns, changes only the numbers, parents and
  flags it is there to set (and makes \<^verbatim>\<open>NOTEXIST\<close> blocks unretrieved), and accepts a query iff every
  block is allowed where it stands and every pattern compiles. A string of blocks is well placed iff
  each item is, given its position and the item before it, and no power block comes last.\<close>

theorem weed_decides:
  assumes "parsed (Blocks_parts t)" "ws_bResult st"
  shows "(\<exists>t' st'. Topograph_weed t c st = Inr (t', st') \<and> Blocks_erase t' = Blocks_erase t \<and>
      (ws_bResult st' \<longleftrightarrow> Blocks_placed t \<and> patterns_ok c (Blocks_parts t))) \<and>
    (\<forall>b2 f l g p. BlockString2_placed b2 f l g p \<longleftrightarrow>
      (\<forall>i<length (BlockString2_items b2). item_placed (BlockString2_items b2) f l g p i) \<and>
      \<not> bs1_is_power (last (BlockString2_items b2)))"
  using weed_contract(1)[OF assms, of c "-1"] by (auto simp: Topograph_weed_def weeds_pair BlockString2_placed_items)

lemma demo_placed: "parsed (Blocks_parts demo_query)" "Blocks_placed demo_query" "patterns_ok c (Blocks_parts demo_query)"
  by (simp_all add: demo_query_def two_blocks_def object_block_string_def demo_ob_def demo_constraint_def
      ob_comparisons_def has_value_def pattern_ok_def tilde_def first_last_allowed_def bs1_is_power_def bs1_is_gap_def)

theorem weed_decides_witness:
  "\<exists>t' st'. Topograph_weed demo_query (\<lambda>_. True) weed_start = Inr (t', st') \<and> ws_bResult st'"
  using weed_decides[OF demo_placed(1), of weed_start "\<lambda>_. True"] demo_placed(2,3) by (auto simp: weed_start_def)

text \<open>C13: Weeding numbers the nodes and flags the blocks. If it accepts, the strings, object blocks and
  constraints of the query have consecutive numbers in the order they are visited, the next free ones,
  so that no two nodes share a number; and in every string, in the query and inside its blocks, a
  \<^verbatim>\<open>NOTEXIST\<close> block knows whether a block of another kind came before it and every block knows whether
  there are only \<^verbatim>\<open>NOTEXIST\<close> blocks.\<close>

theorem weed_numbers_and_flags:
  assumes "Topograph_weed t c st = Inr (t', st')" "parsed (Blocks_parts t)" "ws_bResult st" "ws_bResult st'"
  shows "concat (map part_numbers (Blocks_parts t')) = [ws_nodes st..ws_nodes st' - 1] \<and>
    distinct (concat (map part_numbers (Blocks_parts t'))) \<and> Blocks_flagged t'"
  using weed_contract(1)[OF assms(2,3), of c "-1"] assms(1,4) by (auto simp: Topograph_weed_def weeds_pair numbered_def)

theorem weed_numbers_and_flags_witness:
  "\<exists>t' st'. Topograph_weed demo_query (\<lambda>_. True) weed_start = Inr (t', st') \<and>
     concat (map part_numbers (Blocks_parts t')) = [0..ws_nodes st' - 1] \<and> Blocks_flagged t'"
proof -
  obtain t' st' where t: "Topograph_weed demo_query (\<lambda>_. True) weed_start = Inr (t', st')" "ws_bResult st'"
    using weed_contract(1)[OF demo_placed(1), of weed_start "\<lambda>_. True" "-1"] demo_placed(2,3)
    by (auto simp: Topograph_weed_def weeds_pair weed_start_def)
  with weed_numbers_and_flags[OF t(1) demo_placed(1) _ t(2)] show ?thesis by (auto simp: weed_start_def)
qed

end
