(* ===== verification/FeatureTypes.thy ===== *)
theory FeatureTypes
  imports Weed
begin

unbundle bit_operations_syntax

text \<open>
  The last check of a topographic query, the methods \<open>type\<close> of \<^verbatim>\<open>MQL/mql_query.cpp\<close>: comparisons
  against the types of features, gaps put between the blocks of a string inside an object that may
  have gaps, and the places of the features to be retrieved; then \<open>addOBBToVec\<close>, which makes the
  copies of the blocks that matched objects refer to. Feature types are the integers of
  \<^verbatim>\<open>include/emdf.h\<close>, taken apart as in \<^verbatim>\<open>include/emdfdb.h\<close>. A method returns whether the database
  could be asked, and \<open>bResult\<close>. The database is a parameter: \<open>column\<close> tells whether it knows the
  column type of a feature to be retrieved. The texts of the messages are left out.
\<close>

section \<open>Feature types\<close>

definition FEATURE_TYPE_TYPE_MASK :: int where "FEATURE_TYPE_TYPE_MASK = 0xFF"
definition FEATURE_TYPE_INTEGER :: int where "FEATURE_TYPE_INTEGER = 0"
definition FEATURE_TYPE_STRING :: int where "FEATURE_TYPE_STRING = 1"
definition FEATURE_TYPE_ASCII :: int where "FEATURE_TYPE_ASCII = 2"
definition FEATURE_TYPE_ID_D :: int where "FEATURE_TYPE_ID_D = 3"
definition FEATURE_TYPE_ENUM :: int where "FEATURE_TYPE_ENUM = 4"
definition FEATURE_TYPE_SET_OF_MONADS :: int where "FEATURE_TYPE_SET_OF_MONADS = 5"
definition FEATURE_TYPE_LIST_OF_INTEGER :: int where "FEATURE_TYPE_LIST_OF_INTEGER = 8"
definition FEATURE_TYPE_LIST_OF_ID_D :: int where "FEATURE_TYPE_LIST_OF_ID_D = 11"
definition FEATURE_TYPE_LIST_OF_ENUM :: int where "FEATURE_TYPE_LIST_OF_ENUM = 12"

lemmas feature_type_defs = FEATURE_TYPE_TYPE_MASK_def FEATURE_TYPE_INTEGER_def FEATURE_TYPE_STRING_def
  FEATURE_TYPE_ASCII_def FEATURE_TYPE_ID_D_def FEATURE_TYPE_ENUM_def FEATURE_TYPE_SET_OF_MONADS_def
  FEATURE_TYPE_LIST_OF_INTEGER_def FEATURE_TYPE_LIST_OF_ID_D_def FEATURE_TYPE_LIST_OF_ENUM_def

definition featureTypeIdIsINTEGER :: "id_d_t \<Rightarrow> bool" where
  "featureTypeIdIsINTEGER ft \<longleftrightarrow> ft AND FEATURE_TYPE_TYPE_MASK = FEATURE_TYPE_INTEGER"

definition featureTypeIdIsID_D :: "id_d_t \<Rightarrow> bool" where
  "featureTypeIdIsID_D ft \<longleftrightarrow> ft AND FEATURE_TYPE_TYPE_MASK = FEATURE_TYPE_ID_D"

definition featureTypeIdIsASCII :: "id_d_t \<Rightarrow> bool" where
  "featureTypeIdIsASCII ft \<longleftrightarrow> ft AND FEATURE_TYPE_TYPE_MASK = FEATURE_TYPE_ASCII"

definition featureTypeIdIsSTRING :: "id_d_t \<Rightarrow> bool" where
  "featureTypeIdIsSTRING ft \<longleftrightarrow> ft AND FEATURE_TYPE_TYPE_MASK = FEATURE_TYPE_STRING"

definition featureTypeIdIsASCIIorSTRING :: "id_d_t \<Rightarrow> bool" where
  "featureTypeIdIsASCIIorSTRING ft \<longleftrightarrow>
     (let ftmasked = ft AND FEATURE_TYPE_TYPE_MASK in ftmasked = FEATURE_TYPE_ASCII \<or> ftmasked = FEATURE_TYPE_STRING)"

definition featureTypeIdIsENUM :: "id_d_t \<Rightarrow> bool" where
  "featureTypeIdIsENUM ft \<longleftrightarrow> ft AND FEATURE_TYPE_TYPE_MASK = FEATURE_TYPE_ENUM"

definition featureTypeIdIsSOM :: "id_d_t \<Rightarrow> bool" where
  "featureTypeIdIsSOM ft \<longleftrightarrow> ft AND FEATURE_TYPE_TYPE_MASK = FEATURE_TYPE_SET_OF_MONADS"

definition featureTypeIdIsListOf :: "id_d_t \<Rightarrow> bool" where
  "featureTypeIdIsListOf ft \<longleftrightarrow>
     (let ftmasked = ft AND FEATURE_TYPE_TYPE_MASK
      in ftmasked = FEATURE_TYPE_LIST_OF_INTEGER \<or> ftmasked = FEATURE_TYPE_LIST_OF_ID_D \<or>
         ftmasked = FEATURE_TYPE_LIST_OF_ENUM)"

definition featureTypeIdIsListOfINTEGER :: "id_d_t \<Rightarrow> bool" where
  "featureTypeIdIsListOfINTEGER ft \<longleftrightarrow> ft AND FEATURE_TYPE_TYPE_MASK = FEATURE_TYPE_LIST_OF_INTEGER"

definition featureTypeIdIsListOfID_D :: "id_d_t \<Rightarrow> bool" where
  "featureTypeIdIsListOfID_D ft \<longleftrightarrow> ft AND FEATURE_TYPE_TYPE_MASK = FEATURE_TYPE_LIST_OF_ID_D"

definition featureTypeIdIsListOfENUM :: "id_d_t \<Rightarrow> bool" where
  "featureTypeIdIsListOfENUM ft \<longleftrightarrow> ft AND FEATURE_TYPE_TYPE_MASK = FEATURE_TYPE_LIST_OF_ENUM"

definition STRIP_ENUM_ID_OF_LOWER_BITS :: "id_d_t \<Rightarrow> id_d_t" where
  "STRIP_ENUM_ID_OF_LOWER_BITS x = x AND (0x7FFFFFFF - (push_bit 16 1 - 1))"

definition GET_ENUM_FEATURE_ID_FROM_LIST_OF_ENUM_FEATURE_ID :: "id_d_t \<Rightarrow> id_d_t" where
  "GET_ENUM_FEATURE_ID_FROM_LIST_OF_ENUM_FEATURE_ID x = STRIP_ENUM_ID_OF_LOWER_BITS x OR FEATURE_TYPE_ENUM"

lemmas featureTypeId_defs = featureTypeIdIsINTEGER_def featureTypeIdIsID_D_def featureTypeIdIsASCII_def
  featureTypeIdIsSTRING_def featureTypeIdIsASCIIorSTRING_def featureTypeIdIsENUM_def featureTypeIdIsSOM_def
  featureTypeIdIsListOf_def featureTypeIdIsListOfINTEGER_def featureTypeIdIsListOfID_D_def featureTypeIdIsListOfENUM_def

section \<open>Feature comparisons\<close>

definition Value_type :: "Value \<Rightarrow> bool \<Rightarrow> bool \<times> bool" where
  "Value_type v bResult =
     (case v of kValObjectReferenceUsage oru \<Rightarrow> if \<not> bResult then (False, bResult) else (True, bResult)
      | _ \<Rightarrow> (True, bResult))"

definition type_enum_const :: "id_d_t \<Rightarrow> eComparisonOp \<Rightarrow> id_d_t \<Rightarrow> bool" where
  "type_enum_const ft cop enum_id =
     (let r = (if featureTypeIdIsListOf ft then (if cop \<noteq> kHas then False else featureTypeIdIsListOfENUM ft) else True)
      in if r then STRIP_ENUM_ID_OF_LOWER_BITS ft = STRIP_ENUM_ID_OF_LOWER_BITS enum_id else r)"

definition type_integer :: "id_d_t \<Rightarrow> eComparisonOp \<Rightarrow> bool" where
  "type_integer ft cop =
     (if featureTypeIdIsListOf ft
      then (if cop \<noteq> kHas then False else featureTypeIdIsListOfINTEGER ft \<or> featureTypeIdIsListOfID_D ft)
      else if featureTypeIdIsSOM ft
      then (case cop of kTilde \<Rightarrow> False | kNotTilde \<Rightarrow> False | kIn \<Rightarrow> False | kHas \<Rightarrow> False | _ \<Rightarrow> True)
      else featureTypeIdIsINTEGER ft \<or> featureTypeIdIsID_D ft)"

definition type_string :: "id_d_t \<Rightarrow> eComparisonOp \<Rightarrow> bool" where
  "type_string ft cop =
     (if \<not> (featureTypeIdIsSTRING ft \<or> featureTypeIdIsASCII ft) then False
      else case cop of kIn \<Rightarrow> False | kHas \<Rightarrow> False | _ \<Rightarrow> True)"

definition type_reference_has :: "id_d_t \<Rightarrow> id_d_t \<Rightarrow> bool" where
  "type_reference_has ft oru_ft =
     (if featureTypeIdIsListOf ft \<and> \<not> featureTypeIdIsListOf oru_ft
      then if featureTypeIdIsListOfINTEGER ft then featureTypeIdIsINTEGER oru_ft
           else if featureTypeIdIsListOfID_D ft then featureTypeIdIsID_D oru_ft
           else if featureTypeIdIsListOfENUM ft
           then (if featureTypeIdIsENUM oru_ft
                 then STRIP_ENUM_ID_OF_LOWER_BITS ft = STRIP_ENUM_ID_OF_LOWER_BITS oru_ft else False)
           else True
      else False)"

definition type_reference_in :: "id_d_t \<Rightarrow> id_d_t \<Rightarrow> bool" where
  "type_reference_in ft oru_ft =
     (if \<not> featureTypeIdIsListOf ft \<and> featureTypeIdIsListOf oru_ft
      then if featureTypeIdIsINTEGER ft then featureTypeIdIsListOfINTEGER oru_ft
           else if featureTypeIdIsID_D ft then featureTypeIdIsListOfID_D oru_ft
           else if featureTypeIdIsSOM ft then (if \<not> featureTypeIdIsListOfINTEGER oru_ft then False else True)
           else if featureTypeIdIsENUM ft
           then (if featureTypeIdIsListOfENUM oru_ft
                 then STRIP_ENUM_ID_OF_LOWER_BITS ft = STRIP_ENUM_ID_OF_LOWER_BITS oru_ft else False)
           else True
      else False)"

definition type_reference_same :: "id_d_t \<Rightarrow> id_d_t \<Rightarrow> eComparisonOp \<Rightarrow> bool" where
  "type_reference_same ft oru_ft cop =
     (if featureTypeIdIsINTEGER ft \<and> featureTypeIdIsINTEGER oru_ft then True
      else if featureTypeIdIsID_D ft \<and> featureTypeIdIsID_D oru_ft then True
      else if featureTypeIdIsASCIIorSTRING ft \<and> featureTypeIdIsASCIIorSTRING oru_ft then True
      else if featureTypeIdIsENUM ft \<and> featureTypeIdIsENUM oru_ft
      then STRIP_ENUM_ID_OF_LOWER_BITS ft = STRIP_ENUM_ID_OF_LOWER_BITS oru_ft
      else if featureTypeIdIsListOfINTEGER ft \<and> featureTypeIdIsListOfINTEGER oru_ft then True
      else if featureTypeIdIsListOfID_D ft \<and> featureTypeIdIsListOfID_D oru_ft then True
      else if featureTypeIdIsListOfENUM ft \<and> featureTypeIdIsListOfENUM oru_ft
      then GET_ENUM_FEATURE_ID_FROM_LIST_OF_ENUM_FEATURE_ID ft = GET_ENUM_FEATURE_ID_FROM_LIST_OF_ENUM_FEATURE_ID oru_ft
      else if featureTypeIdIsSOM ft \<and> featureTypeIdIsSOM oru_ft then cop = kEqual
      else if featureTypeIdIsSOM ft \<and> featureTypeIdIsINTEGER oru_ft then False
      else False)"

definition type_reference :: "id_d_t \<Rightarrow> eComparisonOp \<Rightarrow> id_d_t \<Rightarrow> bool" where
  "type_reference ft cop oru_ft =
     (if cop = kHas then type_reference_has ft oru_ft
      else if cop = kIn then type_reference_in ft oru_ft
      else let r = type_reference_same ft oru_ft cop
           in if r \<and> featureTypeIdIsListOf oru_ft \<and> featureTypeIdIsListOf ft then cop = kEqual else r)"

definition type_value :: "id_d_t \<Rightarrow> eComparisonOp \<Rightarrow> Value \<Rightarrow> bool" where
  "type_value ft cop v =
     (case v of
        kValEnumConst i enum_id \<Rightarrow> type_enum_const ft cop enum_id
      | kValInteger i \<Rightarrow> type_integer ft cop
      | kValString s \<Rightarrow> type_string ft cop
      | kValObjectReferenceUsage oru \<Rightarrow> type_reference ft cop (oru_OutputFeatureTypeId oru))"

definition type_integer_list :: "id_d_t \<Rightarrow> eComparisonOp \<Rightarrow> int list \<Rightarrow> bool res" where
  "type_integer_list ft cop l =
     (if cop = kIn
      then Inr (if featureTypeIdIsINTEGER ft \<or> featureTypeIdIsID_D ft then True
                else if featureTypeIdIsSOM ft then True
                else False)
      else if cop = kEqual
      then Inr (if featureTypeIdIsListOfINTEGER ft \<or> featureTypeIdIsListOfID_D ft then True
                else if featureTypeIdIsListOfENUM ft then (if ParserList_isEmpty l then True else False)
                else False)
      else Inl EmdrosException)"

definition FeatureComparison_type :: "FeatureComparison \<Rightarrow> (bool \<times> bool) res" where
  "FeatureComparison_type fc =
     (let ft = fc_output_type fc; cop = fc_comparison_op fc
      in case (fc_value fc, fc_in_enum_list fc, fc_in_integer_list fc) of
           (Some v, _, _) \<Rightarrow>
             let (ok, bResult) = Value_type v True
             in if \<not> ok then Inr (False, bResult)
                else if \<not> bResult then Inr (True, bResult)
                else Inr (True, type_value ft cop v)
         | (None, Some _, _) \<Rightarrow> Inr (True, True)
         | (None, None, Some l) \<Rightarrow> bind_res (type_integer_list ft cop l) (\<lambda>b. Inr (True, b))
         | (None, None, None) \<Rightarrow> Inl EmdrosException)"

text \<open>The second part is typed if the first was, without an error.\<close>

definition type_then :: "(bool \<times> bool) res \<Rightarrow> (bool \<times> bool) res \<Rightarrow> (bool \<times> bool) res" where
  "type_then r s = bind_res r (\<lambda>(ok, bResult).
     if \<not> ok then Inr (False, bResult) else if \<not> bResult then Inr (True, bResult) else s)"

primrec FFeatures_type :: "FFeatures \<Rightarrow> (bool \<times> bool) res"
and FTerm_type :: "FTerm \<Rightarrow> (bool \<times> bool) res"
and FFactor_type :: "FFactor \<Rightarrow> (bool \<times> bool) res" where
  "FFeatures_type (FFeatures_fterm t) = FTerm_type t"
| "FFeatures_type (FFeatures_or f t) = type_then (FFeatures_type f) (FTerm_type t)"
| "FTerm_type (FTerm_ffactor f) = FFactor_type f"
| "FTerm_type (FTerm_and t f) = type_then (FTerm_type t) (FFactor_type f)"
| "FFactor_type (FFactor_not f) = FFactor_type f"
| "FFactor_type (FFactor_paren f) = FFeatures_type f"
| "FFactor_type (FFactor_comparison fc) = FeatureComparison_type fc"

section \<open>Object blocks\<close>

definition MonadSetRelationClause_type :: "MonadSetRelationClause \<Rightarrow> bool" where
  "MonadSetRelationClause_type c \<longleftrightarrow>
     (if strcmp_nocase (msrc_our_monad_set c) ''monads'' = 0 then True else featureTypeIdIsSOM (msrc_feature_type_id c))"

definition MQLObject_addFeature :: "string list \<Rightarrow> string \<Rightarrow> string list" where
  "MQLObject_addFeature infos feature_name =
     (if \<exists>ci\<in>set infos. strcmp_nocase ci feature_name = 0 then infos else infos @ [feature_name])"

text \<open>The index is a \<open>short int\<close> in the code, which is enough for the features of one object type.\<close>

fun getFeatureIndex :: "nat \<Rightarrow> string list \<Rightarrow> string \<Rightarrow> nat res" where
  "getFeatureIndex index [] feature_name = Inl EmdrosException"
| "getFeatureIndex index (fi # fi_i) feature_name =
     (if strcmp_nocase fi feature_name = 0 then Inr index else getFeatureIndex (index + 1) fi_i feature_name)"

definition symbolAddToObject :: "Feature \<Rightarrow> string list \<Rightarrow> (Feature \<times> string list) res" where
  "symbolAddToObject f pObj =
     (let pObj1 = MQLObject_addFeature pObj (ft_name f)
      in bind_res (getFeatureIndex 0 pObj1 (ft_name f)) (\<lambda>i. Inr (f\<lparr>ft_feature_index_inst := int i\<rparr>, pObj1)))"

fun symbolAddFeatures :: "nat \<Rightarrow> Feature list \<Rightarrow> string list \<Rightarrow> (Feature list \<times> string list) res" where
  "symbolAddFeatures index [] pObj = Inr ([], pObj)"
| "symbolAddFeatures index (f # fs) pObj =
     bind_res (symbolAddToObject (f\<lparr>ft_list_index := index\<rparr>) pObj) (\<lambda>(f1, pObj1).
     bind_res (symbolAddFeatures (index + 1) fs pObj1) (\<lambda>(fs1, pObj2). Inr (f1 # fs1, pObj2)))"

text \<open>What \<open>ObjectBlockBase::type\<close> returns is not looked at, only the flag it leaves.\<close>

fun ObjectBlockBase_type :: "(string \<Rightarrow> bool) \<Rightarrow> Feature list \<Rightarrow> bool \<Rightarrow> bool \<times> bool" where
  "ObjectBlockBase_type column [] bResult = (True, True)"
| "ObjectBlockBase_type column (f # fs) bResult =
     (if \<not> column (ft_name f) then (False, bResult)
      else if \<not> bResult then (True, bResult)
      else ObjectBlockBase_type column fs True)"

type_synonym 'a typed = "('a \<times> bool \<times> bool) res"

definition constraints_type :: "ObjectBlockInfo \<Rightarrow> bool \<Rightarrow> (bool \<times> bool) res" where
  "constraints_type ob bResult =
     (case ob_feature_constraints ob of None \<Rightarrow> Inr (True, bResult) | Some c \<Rightarrow> FFeatures_type (ffc_ffeatures c))"

definition inner_type :: "Blocks option \<Rightarrow> (eObjectRangeType \<Rightarrow> bool \<Rightarrow> Blocks typed) option \<Rightarrow>
  eObjectRangeType \<Rightarrow> bool \<Rightarrow> Blocks option typed" where
  "inner_type opt_blocks inner range_type bResult =
     (case inner of None \<Rightarrow> Inr (opt_blocks, True, bResult)
      | Some f \<Rightarrow> bind_res (f range_type bResult) (\<lambda>(b, r). Inr (Some b, r)))"

definition ObjectBlock_type_info :: "(string \<Rightarrow> bool) \<Rightarrow> ObjectBlockInfo \<Rightarrow> Blocks option \<Rightarrow>
  (eObjectRangeType \<Rightarrow> bool \<Rightarrow> Blocks typed) option \<Rightarrow> bool \<Rightarrow> ObjectBlock typed" where
  "ObjectBlock_type_info column ob opt_blocks inner bResult =
     (let (_, b0) = ObjectBlockBase_type column (ob_Feature_retrieval_vec ob) bResult
      in bind_res (constraints_type ob b0) (\<lambda>(ok, b1).
           if \<not> ok \<or> \<not> b1 \<and> ob_feature_constraints ob \<noteq> None then Inr (ObjectBlock ob opt_blocks, ok, b1)
           else if b1 \<and> \<not> MonadSetRelationClause_type (ob_MSRC ob) then Inr (ObjectBlock ob opt_blocks, True, False)
           else bind_res (inner_type opt_blocks inner (ob_objectRangeType ob) b1) (\<lambda>(opt1, ok1, b2).
             if inner \<noteq> None \<and> (\<not> ok1 \<or> \<not> b2) then Inr (ObjectBlock ob opt1, ok1, b2)
             else bind_res (symbolAddFeatures 0 (ob_Feature_retrieval_vec ob) (ob_object ob)) (\<lambda>(fs, names).
               Inr (ObjectBlock (ob\<lparr>ob_Feature_retrieval_vec := fs, ob_object := names\<rparr>) opt1, True, True)))))"

section \<open>Blocks and strings of blocks\<close>

text \<open>
  The gap that is put between two blocks. Weeding is over by then: every inserted string keeps the
  number 0 that the constructor of a node gives it, and its parent is never set.
\<close>

definition inserted_gap :: BlockString1 where
  "inserted_gap = BlockString1_bs0 (BlockString0_block (kOptGapBlock
     (GapBlock \<lparr>gb_retrieval = kNoRetrieve, gb_pOBB = None, gb_marks = []\<rparr> None)))"

definition inserted_string :: BlockString2Info where
  "inserted_string = \<lparr>bs2_node_number = 0, bs2_parent = 0, bs2_bIsExclamation = False\<rparr>"

fun gap_or_power :: "Block \<Rightarrow> bool" where
  "gap_or_power b \<longleftrightarrow> isGapOrOptGapBlock b \<or> isPowerBlock b"

definition insert_gap :: "eObjectRangeType \<Rightarrow> BlockString2Info \<Rightarrow> BlockString1 \<Rightarrow> BlockString2 \<Rightarrow> BlockString2" where
  "insert_gap context n b1 b2 =
     (let bPrevBlockKindBad = block_is gap_or_power (getBlockString0 b1);
          bNextBlockKindBad = block_is gap_or_power (getBlockString0 (getBlockString1 b2))
      in if \<not> bs2_bIsExclamation n \<and> context = kORTMultipleRange \<and> \<not> bPrevBlockKindBad \<and> \<not> bNextBlockKindBad
         then BlockString2_seq n b1 (BlockString2_seq inserted_string inserted_gap b2)
         else BlockString2_seq n b1 b2)"

definition typed_map :: "('a \<Rightarrow> 'b) \<Rightarrow> 'a typed \<Rightarrow> 'b typed" where
  "typed_map f r = bind_res r (\<lambda>(x, r). Inr (f x, r))"

text \<open>The methods that end with \<open>bResult = true\<close> unless there was an error.\<close>

definition typed_end :: "('a \<Rightarrow> 'b) \<Rightarrow> 'a typed \<Rightarrow> 'b typed" where
  "typed_end f r = bind_res r (\<lambda>(x, ok, b). Inr (f x, if \<not> ok then (False, b) else if \<not> b then (True, b) else (True, True)))"

primrec Blocks_type :: "Blocks \<Rightarrow> (string \<Rightarrow> bool) \<Rightarrow> eObjectRangeType \<Rightarrow> bool \<Rightarrow> Blocks typed"
and BlockString_type :: "BlockString \<Rightarrow> (string \<Rightarrow> bool) \<Rightarrow> eObjectRangeType \<Rightarrow> bool \<Rightarrow> BlockString typed"
and BlockString2_type :: "BlockString2 \<Rightarrow> (string \<Rightarrow> bool) \<Rightarrow> eObjectRangeType \<Rightarrow> bool \<Rightarrow> BlockString2 typed"
and BlockString1_type :: "BlockString1 \<Rightarrow> (string \<Rightarrow> bool) \<Rightarrow> eObjectRangeType \<Rightarrow> bool \<Rightarrow> BlockString1 typed"
and BlockString0_type :: "BlockString0 \<Rightarrow> (string \<Rightarrow> bool) \<Rightarrow> eObjectRangeType \<Rightarrow> bool \<Rightarrow> BlockString0 typed"
and Block_type :: "Block \<Rightarrow> (string \<Rightarrow> bool) \<Rightarrow> eObjectRangeType \<Rightarrow> bool \<Rightarrow> Block typed"
and GapBlock_type :: "GapBlock \<Rightarrow> (string \<Rightarrow> bool) \<Rightarrow> bool \<Rightarrow> GapBlock typed"
and ObjectBlock_type :: "ObjectBlock \<Rightarrow> (string \<Rightarrow> bool) \<Rightarrow> bool \<Rightarrow> ObjectBlock typed"
and ObjectBlockString_type :: "ObjectBlockString \<Rightarrow> (string \<Rightarrow> bool) \<Rightarrow> bool \<Rightarrow> ObjectBlockString typed" where
  "Blocks_type (Blocks_string bs ur) = (\<lambda>column context b. typed_map (\<lambda>x. Blocks_string x ur) (BlockString_type bs column context b))"
| "Blocks_type (Blocks_unordered obs) = (\<lambda>column context b. typed_map Blocks_unordered (ObjectBlockString_type obs column b))"
| "BlockString_type (BlockString_bs2 b2) = (\<lambda>column context b. typed_map BlockString_bs2 (BlockString2_type b2 column context b))"
| "BlockString_type (BlockString_or b2 bs) = (\<lambda>column context b.
     bind_res (BlockString2_type b2 column context b) (\<lambda>(b2', ok, bResult).
       if \<not> ok \<or> \<not> bResult then Inr (BlockString_or b2' bs, ok, bResult)
       else typed_map (BlockString_or b2') (BlockString_type bs column context bResult)))"
| "BlockString2_type (BlockString2_bs1 n b1) = (\<lambda>column context b.
     typed_map (BlockString2_bs1 n) (BlockString1_type b1 column context b))"
| "BlockString2_type (BlockString2_seq n b1 b2) = (\<lambda>column context b.
     bind_res (BlockString1_type b1 column context b) (\<lambda>(b1', ok, bResult).
       if \<not> ok \<or> \<not> bResult then Inr (BlockString2_seq n b1' b2, ok, bResult)
       else typed_map (insert_gap context n b1') (BlockString2_type b2 column context bResult)))"
| "BlockString1_type (BlockString1_bs0 b0) = (\<lambda>column context b.
     typed_map BlockString1_bs0 (BlockString0_type b0 column context b))"
| "BlockString1_type (BlockString1_star b0 mse som) = (\<lambda>column context b.
     typed_map (\<lambda>x. BlockString1_star x mse som) (BlockString0_type b0 column context b))"
| "BlockString0_type (BlockString0_block bk) = (\<lambda>column context b. typed_map BlockString0_block (Block_type bk column context b))"
| "BlockString0_type (BlockString0_string bs) = (\<lambda>column context b. typed_map BlockString0_string (BlockString_type bs column context b))"
| "Block_type (kOptGapBlock g) = (\<lambda>column context b. typed_end kOptGapBlock (GapBlock_type g column b))"
| "Block_type (kGapBlock g) = (\<lambda>column context b. typed_end kGapBlock (GapBlock_type g column b))"
| "Block_type (kPowerBlock p) = (\<lambda>column context b. Inr (kPowerBlock p, True, True))"
| "Block_type (kObjectBlock ob) = (\<lambda>column context b. typed_end kObjectBlock (ObjectBlock_type ob column b))"
| "Block_type (kObjectBlockNOTEXIST ob) = (\<lambda>column context b. typed_end kObjectBlockNOTEXIST (ObjectBlock_type ob column b))"
| "GapBlock_type (GapBlock g opt_blocks) = (\<lambda>column b.
     bind_res (inner_type opt_blocks (map_option (\<lambda>f. f column) (map_option Blocks_type opt_blocks)) kORTSingleRange b) (\<lambda>(opt1, ok, b1).
       if opt_blocks \<noteq> None \<and> (\<not> ok \<or> \<not> b1) then Inr (GapBlock g opt1, ok, b1) else Inr (GapBlock g opt1, True, True)))"
| "ObjectBlock_type (ObjectBlock ob opt_blocks) = (\<lambda>column.
     ObjectBlock_type_info column ob opt_blocks (map_option (\<lambda>f. f column) (map_option Blocks_type opt_blocks)))"
| "ObjectBlockString_type (ObjectBlockString_one ob) = (\<lambda>column b. typed_map ObjectBlockString_one (ObjectBlock_type ob column b))"
| "ObjectBlockString_type (ObjectBlockString_more obs ob) = (\<lambda>column b.
     bind_res (ObjectBlockString_type obs column b) (\<lambda>(obs', ok, bResult).
       if \<not> ok \<or> \<not> bResult then Inr (ObjectBlockString_more obs' ob, ok, bResult)
       else typed_map (ObjectBlockString_more obs') (ObjectBlock_type ob column bResult)))"

definition Topograph_type :: "Blocks \<Rightarrow> (string \<Rightarrow> bool) \<Rightarrow> eObjectRangeType \<Rightarrow> Blocks typed" where
  "Topograph_type t column context = Blocks_type t column context True"

section \<open>The blocks that matched objects refer to\<close>

type_synonym OBBVec = "ObjectBlockBase list"

definition GapBlock_OBB :: "GapBlockInfo \<Rightarrow> ObjectBlockBase" where
  "GapBlock_OBB g = \<lparr>obb_node_number = 0, obb_retrieval = gb_retrieval g, obb_object_type_name = ''pow_m'',
     obb_object_type_id = NIL, obb_NoOfGET_features = 0, obb_Feature_retrieval_vec = [], obb_mark = gb_marks g\<rparr>"

definition ObjectBlock_OBB :: "ObjectBlockInfo \<Rightarrow> ObjectBlockBase" where
  "ObjectBlock_OBB ob = (ob_base ob)\<lparr>obb_Feature_retrieval_vec := map ft_name (ob_Feature_retrieval_vec ob)\<rparr>"

definition inner_OBB :: "Blocks option \<Rightarrow> (OBBVec \<Rightarrow> Blocks \<times> OBBVec) option \<Rightarrow> OBBVec \<Rightarrow> Blocks option \<times> OBBVec" where
  "inner_OBB opt_blocks inner v =
     (case inner of None \<Rightarrow> (opt_blocks, v) | Some f \<Rightarrow> let (b, v1) = f v in (Some b, v1))"

primrec Blocks_addOBBToVec :: "Blocks \<Rightarrow> OBBVec \<Rightarrow> Blocks \<times> OBBVec"
and BlockString_addOBBToVec :: "BlockString \<Rightarrow> OBBVec \<Rightarrow> BlockString \<times> OBBVec"
and BlockString2_addOBBToVec :: "BlockString2 \<Rightarrow> OBBVec \<Rightarrow> BlockString2 \<times> OBBVec"
and BlockString1_addOBBToVec :: "BlockString1 \<Rightarrow> OBBVec \<Rightarrow> BlockString1 \<times> OBBVec"
and BlockString0_addOBBToVec :: "BlockString0 \<Rightarrow> OBBVec \<Rightarrow> BlockString0 \<times> OBBVec"
and Block_addOBBToVec :: "Block \<Rightarrow> OBBVec \<Rightarrow> Block \<times> OBBVec"
and GapBlock_addOBBToVec :: "GapBlock \<Rightarrow> OBBVec \<Rightarrow> GapBlock \<times> OBBVec"
and ObjectBlock_addOBBToVec :: "ObjectBlock \<Rightarrow> OBBVec \<Rightarrow> ObjectBlock \<times> OBBVec"
and ObjectBlockString_addOBBToVec :: "ObjectBlockString \<Rightarrow> OBBVec \<Rightarrow> ObjectBlockString \<times> OBBVec" where
  "Blocks_addOBBToVec (Blocks_string bs ur) = (\<lambda>v. let (bs', v1) = BlockString_addOBBToVec bs v in (Blocks_string bs' ur, v1))"
| "Blocks_addOBBToVec (Blocks_unordered obs) = (\<lambda>v. let (obs', v1) = ObjectBlockString_addOBBToVec obs v in (Blocks_unordered obs', v1))"
| "BlockString_addOBBToVec (BlockString_bs2 b2) = (\<lambda>v. let (b2', v1) = BlockString2_addOBBToVec b2 v in (BlockString_bs2 b2', v1))"
| "BlockString_addOBBToVec (BlockString_or b2 bs) = (\<lambda>v.
     let (b2', v1) = BlockString2_addOBBToVec b2 v; (bs', v2) = BlockString_addOBBToVec bs v1 in (BlockString_or b2' bs', v2))"
| "BlockString2_addOBBToVec (BlockString2_bs1 n b1) = (\<lambda>v.
     let (b1', v1) = BlockString1_addOBBToVec b1 v in (BlockString2_bs1 n b1', v1))"
| "BlockString2_addOBBToVec (BlockString2_seq n b1 b2) = (\<lambda>v.
     let (b1', v1) = BlockString1_addOBBToVec b1 v; (b2', v2) = BlockString2_addOBBToVec b2 v1 in (BlockString2_seq n b1' b2', v2))"
| "BlockString1_addOBBToVec (BlockString1_bs0 b0) = (\<lambda>v.
     let (b0', v1) = BlockString0_addOBBToVec b0 v in (BlockString1_bs0 b0', v1))"
| "BlockString1_addOBBToVec (BlockString1_star b0 mse som) = (\<lambda>v.
     let (b0', v1) = BlockString0_addOBBToVec b0 v in (BlockString1_star b0' mse som, v1))"
| "BlockString0_addOBBToVec (BlockString0_block b) = (\<lambda>v. let (b', v1) = Block_addOBBToVec b v in (BlockString0_block b', v1))"
| "BlockString0_addOBBToVec (BlockString0_string bs) = (\<lambda>v. let (bs', v1) = BlockString_addOBBToVec bs v in (BlockString0_string bs', v1))"
| "Block_addOBBToVec (kOptGapBlock g) = (\<lambda>v. let (g', v1) = GapBlock_addOBBToVec g v in (kOptGapBlock g', v1))"
| "Block_addOBBToVec (kGapBlock g) = (\<lambda>v. let (g', v1) = GapBlock_addOBBToVec g v in (kGapBlock g', v1))"
| "Block_addOBBToVec (kPowerBlock p) = (\<lambda>v. (kPowerBlock p, v))"
| "Block_addOBBToVec (kObjectBlock ob) = (\<lambda>v. let (ob', v1) = ObjectBlock_addOBBToVec ob v in (kObjectBlock ob', v1))"
| "Block_addOBBToVec (kObjectBlockNOTEXIST ob) = (\<lambda>v. let (ob', v1) = ObjectBlock_addOBBToVec ob v in (kObjectBlockNOTEXIST ob', v1))"
| "GapBlock_addOBBToVec (GapBlock g opt_blocks) = (\<lambda>v.
     let p = GapBlock_OBB g; (opt1, v1) = inner_OBB opt_blocks (map_option Blocks_addOBBToVec opt_blocks) (v @ [p])
     in (GapBlock (g\<lparr>gb_pOBB := Some p\<rparr>) opt1, v1))"
| "ObjectBlock_addOBBToVec (ObjectBlock ob opt_blocks) = (\<lambda>v.
     let p = ObjectBlock_OBB ob; (opt1, v1) = inner_OBB opt_blocks (map_option Blocks_addOBBToVec opt_blocks) (v @ [p])
     in (ObjectBlock (ob\<lparr>ob_pOBB := Some p\<rparr>) opt1, v1))"
| "ObjectBlockString_addOBBToVec (ObjectBlockString_one ob) = (\<lambda>v.
     let (ob', v1) = ObjectBlock_addOBBToVec ob v in (ObjectBlockString_one ob', v1))"
| "ObjectBlockString_addOBBToVec (ObjectBlockString_more obs ob) = (\<lambda>v.
     let (obs', v1) = ObjectBlockString_addOBBToVec obs v; (ob', v2) = ObjectBlock_addOBBToVec ob v1
     in (ObjectBlockString_more obs' ob', v2))"

end
