(* ===== verification/FeatureTypes_Props.thy ===== *)
theory FeatureTypes_Props
  imports FeatureTypes Weed_Props StringNumbers_Props
begin

text \<open>
  What type-checking establishes. For comparisons: an accepted one, outside a few combinations of
  feature, operator and value that the check lets through, is decided by the engine without an error,
  and what each of those combinations comes to. For queries: what the tree becomes, down to the gaps
  put into it, and that the features to be retrieved have their places.
\<close>

section \<open>Kinds of values and types of features\<close>

definition type_kind :: "id_d_t \<Rightarrow> vkind option" where
  "type_kind ft =
     (if featureTypeIdIsINTEGER ft then Some K_int
      else if featureTypeIdIsASCIIorSTRING ft then Some K_string
      else if featureTypeIdIsID_D ft then Some K_id_d
      else if featureTypeIdIsENUM ft then Some K_enum
      else if featureTypeIdIsSOM ft then Some K_monads
      else if featureTypeIdIsListOfID_D ft then Some K_ids
      else if featureTypeIdIsListOf ft then Some K_ints
      else None)"

text \<open>The types that features have: a known one, with an enumeration above it for enumerations.\<close>

definition type_valid :: "id_d_t \<Rightarrow> bool" where
  "type_valid ft \<longleftrightarrow> type_kind ft \<noteq> None \<and>
     (STRIP_ENUM_ID_OF_LOWER_BITS ft \<noteq> 0 \<longleftrightarrow> featureTypeIdIsENUM ft \<or> featureTypeIdIsListOfENUM ft)"

lemmas type_defs = type_kind_def featureTypeId_defs feature_type_defs Let_def

text \<open>
  The comparisons that the grammar makes: a value with any operator, but \<open>IN\<close> only with a reference,
  or else a list with \<open>=\<close> or \<open>IN\<close>.
\<close>

definition fc_parsed :: "FeatureComparison \<Rightarrow> bool" where
  "fc_parsed fc \<longleftrightarrow>
     (if fc_value fc = None then fc_list fc \<noteq> None \<and> (fc_comparison_op fc = kEqual \<or> fc_comparison_op fc = kIn)
      else fc_list fc = None \<and> (fc_comparison_op fc = kIn \<longrightarrow> is_reference (fc_value fc)))"

text \<open>What the database answered on names: the types are types, and enumerations exist.\<close>

definition fc_symbols :: "FeatureComparison \<Rightarrow> bool" where
  "fc_symbols fc \<longleftrightarrow> type_valid (fc_output_type fc) \<and>
     (fc_in_enum_list fc \<noteq> None \<longrightarrow> STRIP_ENUM_ID_OF_LOWER_BITS (fc_output_type fc) \<noteq> 0) \<and>
     (case fc_value fc of
        Some (kValEnumConst i t) \<Rightarrow> STRIP_ENUM_ID_OF_LOWER_BITS t \<noteq> 0
      | Some (kValObjectReferenceUsage oru) \<Rightarrow> type_valid (oru_OutputFeatureTypeId oru)
      | _ \<Rightarrow> True)"

text \<open>The values in the tables are of the kinds that the types say.\<close>

definition fc_scoped :: "tyenv \<Rightarrow> int \<Rightarrow> FeatureComparison \<Rightarrow> bool" where
  "fc_scoped \<Gamma> nn fc \<longleftrightarrow>
     (case \<Gamma> nn of None \<Rightarrow> False
      | Some ks \<Rightarrow> 0 \<le> fc_feature_index fc \<and> nat (fc_feature_index fc) < length ks \<and>
          type_kind (fc_output_type fc) = Some (ks ! nat (fc_feature_index fc))) \<and>
     (case fc_value fc of
        Some (kValObjectReferenceUsage oru) \<Rightarrow>
          value_kind \<Gamma> (kValObjectReferenceUsage oru) = type_kind (oru_OutputFeatureTypeId oru)
      | _ \<Rightarrow> True)"

section \<open>The gaps of the check\<close>

text \<open>What is accepted though no comparison is defined for it.\<close>

definition type_gap :: "FeatureComparison \<Rightarrow> bool" where
  "type_gap fc \<longleftrightarrow>
     (let ft = fc_output_type fc; cop = fc_comparison_op fc
      in case fc_value fc of
           Some (kValEnumConst i t) \<Rightarrow> cop = kHas \<and> featureTypeIdIsENUM ft
         | Some (kValInteger i) \<Rightarrow> cop = kHas \<and> \<not> featureTypeIdIsListOf ft \<or> featureTypeIdIsSOM ft
         | Some (kValString s) \<Rightarrow> False
         | Some (kValObjectReferenceUsage oru) \<Rightarrow> cop = kIn \<and> (featureTypeIdIsASCIIorSTRING ft \<or> featureTypeIdIsSOM ft)
         | None \<Rightarrow> fc_in_enum_list fc \<noteq> None \<and> (if cop = kIn then featureTypeIdIsListOf ft else \<not> featureTypeIdIsListOf ft))"

text \<open>A set of monads in a list of integers: an error is reported, but the comparison accepted.\<close>

definition som_in_list :: "FeatureComparison \<Rightarrow> bool" where
  "som_in_list fc \<longleftrightarrow> fc_value fc = None \<and> fc_in_enum_list fc = None \<and> fc_comparison_op fc = kIn \<and>
     featureTypeIdIsSOM (fc_output_type fc)"

definition accepted :: "(string \<Rightarrow> bool) \<Rightarrow> FeatureComparison \<Rightarrow> bool" where
  "accepted compiles fc \<longleftrightarrow> fc_parsed fc \<and> fc_symbols fc \<and> pattern_ok compiles fc \<and>
     FeatureComparison_type fc = Inr (True, True)"

lemma FeatureComparison_type_cases:
  "FeatureComparison_type fc = Inr (True, True) \<longleftrightarrow>
     (case fc_value fc of
        Some v \<Rightarrow> type_value (fc_output_type fc) (fc_comparison_op fc) v
      | None \<Rightarrow> (case fc_in_enum_list fc of Some _ \<Rightarrow> True
          | None \<Rightarrow> (case fc_in_integer_list fc of None \<Rightarrow> False
              | Some l \<Rightarrow> type_integer_list (fc_output_type fc) (fc_comparison_op fc) l = Inr True)))"
  by (auto simp: FeatureComparison_type_def Value_type_def Let_def bind_res_Inr_iff split: option.splits Value.splits)

lemma type_kind_cases:
  "type_kind ft = Some k \<Longrightarrow>
     featureTypeIdIsINTEGER ft = (k = K_int) \<and> featureTypeIdIsASCIIorSTRING ft = (k = K_string) \<and>
     featureTypeIdIsID_D ft = (k = K_id_d) \<and> featureTypeIdIsENUM ft = (k = K_enum) \<and>
     featureTypeIdIsSOM ft = (k = K_monads) \<and> featureTypeIdIsListOfID_D ft = (k = K_ids) \<and>
     featureTypeIdIsListOf ft = listlike k \<and> (featureTypeIdIsSTRING ft \<or> featureTypeIdIsASCII ft) = (k = K_string) \<and>
     (featureTypeIdIsListOfINTEGER ft \<or> featureTypeIdIsListOfENUM ft) = (k = K_ints) \<and>
     \<not> (featureTypeIdIsListOfINTEGER ft \<and> featureTypeIdIsListOfENUM ft)"
  by (auto simp: type_defs listlike_def split: if_splits)

section \<open>Accepted comparisons\<close>

lemma accepted_typed:
  assumes a: "accepted c fc" and s: "fc_scoped \<Gamma> nn fc" and g: "\<not> type_gap fc" "\<not> som_in_list fc"
  shows "fc_typed \<Gamma> nn fc"
proof -
  let ?ft = "fc_output_type fc" and ?cop = "fc_comparison_op fc"
  obtain ks where ks: "\<Gamma> nn = Some ks" "0 \<le> fc_feature_index fc" "nat (fc_feature_index fc) < length ks"
    and k: "type_kind ?ft = Some (ks ! nat (fc_feature_index fc))"
    using s by (auto simp: fc_scoped_def split: option.splits)
  define k where "k = ks ! nat (fc_feature_index fc)"
  note kc = type_kind_cases[OF k[folded k_def]]
  have ok: "fc_parsed fc" "fc_symbols fc" "pattern_ok c fc" "FeatureComparison_type fc = Inr (True, True)"
    using a by (simp_all add: accepted_def)
  note t = ok(4)[unfolded FeatureComparison_type_cases]
  have e: "STRIP_ENUM_ID_OF_LOWER_BITS ?ft \<noteq> 0 \<longleftrightarrow> k = K_enum \<or> featureTypeIdIsListOfENUM ?ft"
    using ok(2) kc by (auto simp: fc_symbols_def type_valid_def)
  show ?thesis
  proof (cases "fc_value fc")
    case None
    then have l: "fc_list fc \<noteq> None" "?cop = kEqual \<or> ?cop = kIn" using ok(1) by (simp_all add: fc_parsed_def)
    show ?thesis
    proof (cases "fc_in_enum_list fc")
      case (Some el)
      then have "k = K_enum \<or> featureTypeIdIsListOfENUM ?ft" using e ok(2) by (simp add: fc_symbols_def)
      then have "if ?cop = kIn then k = K_enum else k = K_ints"
        using g(1) None Some kc by (auto simp: type_gap_def listlike_def)
      then show ?thesis using l Some ks by (auto simp: fc_typed_def k_def listlike_def intlike_def)
    next
      case enum: None
      then obtain il where il: "fc_in_integer_list fc = Some il" using l by (auto simp: fc_list_def)
      have "if ?cop = kIn then k = K_int \<or> k = K_id_d else k = K_ints \<or> k = K_ids"
        using t None enum il l g(2) kc by (auto simp: type_integer_list_def som_in_list_def split: if_splits)
      then show ?thesis using l enum ks by (auto simp: fc_typed_def k_def listlike_def intlike_def)
    qed
  next
    case (Some v)
    then have l: "fc_list fc = None" "?cop = kIn \<Longrightarrow> is_reference (fc_value fc)" using ok(1) by (simp_all add: fc_parsed_def)
    have tl: "?cop = kTilde \<or> ?cop = kNotTilde \<Longrightarrow> \<exists>w. v = kValString w" using ok(3) Some by (auto simp: pattern_ok_def tilde_def)
    show ?thesis
    proof (cases v)
      case (kValEnumConst i et)
      then have "STRIP_ENUM_ID_OF_LOWER_BITS et \<noteq> 0" using ok(2) Some by (simp add: fc_symbols_def)
      then have "if ?cop = kHas then k = K_ints else k = K_enum \<and> order_op ?cop"
        using t Some kValEnumConst g(1) kc e l(2) tl
        by (auto simp: type_value_def type_enum_const_def type_gap_def order_op_def is_reference_def listlike_def
            split: if_splits eComparisonOp.splits)
      then show ?thesis using l ks Some kValEnumConst
        by (auto simp: fc_typed_def k_def value_typed_def comparable_def listlike_def intlike_def order_op_def split: if_splits)
    next
      case (kValInteger i)
      then have "if ?cop = kHas then listlike k else (k = K_int \<or> k = K_id_d) \<and> order_op ?cop"
        using t Some g(1) kc l(2) tl
        by (auto simp: type_value_def type_integer_def type_gap_def order_op_def is_reference_def listlike_def
            split: if_splits eComparisonOp.splits)
      then show ?thesis using l ks Some kValInteger
        by (auto simp: fc_typed_def k_def value_typed_def comparable_def listlike_def intlike_def order_op_def split: if_splits)
    next
      case (kValString w)
      then have "k = K_string \<and> ?cop \<noteq> kIn \<and> ?cop \<noteq> kHas"
        using t Some kc by (auto simp: type_value_def type_string_def split: if_splits eComparisonOp.splits)
      then show ?thesis using l ks Some kValString
        by (cases ?cop) (auto simp: fc_typed_def k_def value_typed_def comparable_def order_op_def)
    next
      case (kValObjectReferenceUsage oru)
      let ?oft = "oru_OutputFeatureTypeId oru"
      have "type_valid ?oft" using ok(2) Some kValObjectReferenceUsage by (simp add: fc_symbols_def)
      then obtain k' where k': "type_kind ?oft = Some k'" by (auto simp: type_valid_def)
      then have vk: "value_kind \<Gamma> (kValObjectReferenceUsage oru) = Some k'"
        using s Some kValObjectReferenceUsage by (simp add: fc_scoped_def del: value_kind.simps)
      note kc' = type_kind_cases[OF k']
      have r: "type_reference ?ft ?cop ?oft" using t Some kValObjectReferenceUsage by (simp add: type_value_def)
      have nt: "?cop \<noteq> kTilde" "?cop \<noteq> kNotTilde" using tl kValObjectReferenceUsage by auto
      have "comparable k k' ?cop"
      proof (cases "?cop = kHas \<or> ?cop = kIn")
        case True
        then show ?thesis using r g(1) Some kValObjectReferenceUsage kc kc'
          by (cases k; cases k') (auto simp: type_reference_def type_reference_has_def type_reference_in_def type_gap_def
            comparable_def listlike_def intlike_def split: if_splits)
      next
        case False
        then have "order_op ?cop" using nt by (cases ?cop) (auto simp: order_op_def)
        then show ?thesis using r False kc kc'
          by (cases k; cases k') (auto simp: type_reference_def type_reference_same_def Let_def
            comparable_def listlike_def intlike_def split: if_splits)
      qed
      then show ?thesis using l ks Some kValObjectReferenceUsage nt vk
        by (simp add: fc_typed_def k_def value_typed_def is_reference_def del: value_kind.simps)
    qed
  qed
qed

text \<open>What the engine makes of the gaps.\<close>

lemma gap_raises:
  assumes a: "accepted c fc" and s: "fc_scoped \<Gamma> nn fc" and e: "env_typed \<Gamma> ee" and g: "type_gap fc"
  shows "R_feature_comparison fc ee nn sol =
    Inl (if fc_value fc = None \<and> fc_comparison_op fc = kIn then UndefinedValue else EmdrosException)"
proof -
  let ?ft = "fc_output_type fc" and ?cop = "fc_comparison_op fc"
  obtain ks where ks: "\<Gamma> nn = Some ks" "0 \<le> fc_feature_index fc" "nat (fc_feature_index fc) < length ks"
    and k: "type_kind ?ft = Some (ks ! nat (fc_feature_index fc))"
    using s by (auto simp: fc_scoped_def split: option.splits)
  note kc = type_kind_cases[OF k]
  obtain v where v: "getFeatureValue ee nn (fc_feature_index fc) = Inr (Some v)"
    "kind_of v = ks ! nat (fc_feature_index fc)" "value_wf v" using env_typed_nth[OF e ks] .
  have R: "R_feature_comparison fc ee nn sol = FeatureComparison_compare ee fc v sol"
    using v(1) by (simp add: R_feature_comparison_def deref_def)
  have ok: "fc_parsed fc" "fc_symbols fc" "FeatureComparison_type fc = Inr (True, True)"
    using a by (simp_all add: accepted_def)
  note t = ok(3)[unfolded FeatureComparison_type_cases]
  have raises: "EMdFValue_compare v w cop = Inl EmdrosException"
    if "value_wf w" "\<not> comparable (kind_of v) (kind_of w) cop" "\<not> listlike (kind_of v) \<or> cop \<noteq> kEqual" for w cop
  proof -
    have "comparison_spec v w cop = None" using that(2) comparable_iff[of v w cop] by simp
    moreover have "\<not> (is_ListOfID_D v \<and> cop = kEqual)" using that(3) by (cases v) (auto simp: listlike_def)
    ultimately show ?thesis using compare_decided[OF v(3) that(1), of cop] by simp
  qed
  show ?thesis
  proof (cases "fc_value fc")
    case None
    then obtain el where el: "fc_in_enum_list fc = Some el" using g by (auto simp: type_gap_def Let_def)
    have l: "?cop = kEqual \<or> ?cop = kIn" using ok(1) None by (simp add: fc_parsed_def)
    show ?thesis
    proof (cases "?cop = kIn")
      case True
      then have "listlike (kind_of v)" using g None el kc v(2) by (simp add: type_gap_def Let_def)
      then show ?thesis using True None el R by (cases v) (auto simp: FeatureComparison_compare_def value_getEnum_def listlike_def)
    next
      case False
      then have "\<not> listlike (kind_of v)" using g None el kc v(2) by (simp add: type_gap_def Let_def)
      then show ?thesis using False l el R raises[of "kEVListOfInteger (foldl ParserList_addValueBack [] el)" kEqual]
        by (cases v) (auto simp: FeatureComparison_compare_def compare_with_list_def comparable_def listlike_def intlike_def)
    qed
  next
    case (Some w)
    then have l: "fc_list fc = None" "?cop = kIn \<Longrightarrow> is_reference (Some w)" using ok(1) by (simp_all add: fc_parsed_def)
    have "\<exists>k. value_kind \<Gamma> w = Some k"
    proof (cases w)
      case (kValObjectReferenceUsage oru)
      then have "type_valid (oru_OutputFeatureTypeId oru)" using ok(2) Some by (simp add: fc_symbols_def)
      then show ?thesis using s Some kValObjectReferenceUsage
        by (auto simp: type_valid_def fc_scoped_def simp del: value_kind.simps)
    qed simp_all
    then obtain k' where k': "value_kind \<Gamma> w = Some k'" ..
    note d = value_denotes_kind[OF e k'] and cv = compare_with_Value_denotes[OF e k', of v sol ?cop]
    have nc: "\<not> comparable (kind_of v) k' ?cop \<and> ?cop \<noteq> kTilde \<and> ?cop \<noteq> kNotTilde \<and> (\<not> listlike (kind_of v) \<or> ?cop \<noteq> kEqual)"
    proof (cases w)
      case (kValEnumConst i et)
      then show ?thesis using g Some kc v(2) k' by (simp add: type_gap_def Let_def comparable_def listlike_def intlike_def order_op_def)
    next
      case (kValInteger i)
      then have tt: "type_integer ?ft ?cop" using t Some by (simp add: type_value_def)
      show ?thesis using g Some kValInteger kc v(2) k' tt
        by (cases ?cop; cases "kind_of v")
          (auto simp: type_gap_def Let_def type_integer_def comparable_def listlike_def intlike_def order_op_def)
    next
      case (kValString u)
      then show ?thesis using g Some by (simp add: type_gap_def Let_def)
    next
      case (kValObjectReferenceUsage oru)
      let ?oft = "oru_OutputFeatureTypeId oru"
      have c: "?cop = kIn" "?cop \<noteq> kHas" using g Some kValObjectReferenceUsage by (simp_all add: type_gap_def Let_def)
      have tk: "type_kind ?oft = Some k'" using s Some kValObjectReferenceUsage k' by (simp add: fc_scoped_def del: value_kind.simps)
      have "listlike k'" using t Some kValObjectReferenceUsage c type_kind_cases[OF tk]
        by (auto simp: type_value_def type_reference_def type_reference_in_def split: if_splits)
      then show ?thesis using g c Some kValObjectReferenceUsage kc v(2)
        by (cases "kind_of v") (auto simp: type_gap_def Let_def comparable_def listlike_def intlike_def)
    qed
    then have x: "EMdFValue_compare v (value_denotes ee w) ?cop = Inl EmdrosException" using raises d by blast
    have lists: "fc_in_enum_list fc = None" "fc_in_integer_list fc = None" using l(1) by (auto simp: fc_list_def split: option.splits)
    have "FeatureComparison_compare ee fc v sol = compare_with_Value ee v w sol ?cop"
      using Some lists l(2) nc
      by (cases ?cop) (auto simp: FeatureComparison_compare_def deref_def compare_with_Value_def is_reference_def split: Value.splits)
    then show ?thesis using R cv x Some by simp
  qed
qed

text \<open>The text of a set of monads is in braces, and that of a list of integers has none.\<close>

lemma som_not_in_list: "\<not> in_integer_list (kEVSetOfMonads s) l"
proof -
  have "set a \<subseteq> set (putme_loop a xs)" for a xs
  proof (induction xs arbitrary: a)
    case (Cons e xs)
    show ?case using Cons[of "a @ mse_putme e"] Cons[of "a @ mse_putme e @ '', ''"] by (auto simp: Let_def)
  qed simp
  from this[of "'' { ''" "monad_ms s"] have brace: "CHR ''{'' \<in> set (SetOfMonads_toString s)"
    by (auto simp: SetOfMonads_toString_def SetOfMonads_putme_def)
  have "\<not> is_digit (CHR ''{'')" by code_simp
  then have "CHR ''{'' \<notin> set (dec_nat n)" for n using dec_nat_digits by metis
  then have "CHR ''{'' \<notin> set (dec_int i)" for i by (simp add: dec_int_def)
  then have "CHR ''{'' \<notin> set (getDelimitedString l DEFAULT_LIST_DELIMITER)"
    by (simp add: DEFAULT_LIST_DELIMITER_def getDelimitedString_eq)
  with brace show ?thesis unfolding in_integer_list_def str_find_iff by auto
qed

lemma som_in_list_returns:
  assumes "accepted c fc" "fc_scoped \<Gamma> nn fc" "env_typed \<Gamma> ee" "som_in_list fc"
  shows "R_feature_comparison fc ee nn sol = Inr False"
proof -
  obtain ks where ks: "\<Gamma> nn = Some ks" "0 \<le> fc_feature_index fc" "nat (fc_feature_index fc) < length ks"
    and k: "type_kind (fc_output_type fc) = Some (ks ! nat (fc_feature_index fc))"
    using assms(2) by (auto simp: fc_scoped_def split: option.splits)
  obtain v where v: "getFeatureValue ee nn (fc_feature_index fc) = Inr (Some v)" "kind_of v = ks ! nat (fc_feature_index fc)"
    using env_typed_nth[OF assms(3) ks] .
  then obtain s where "v = kEVSetOfMonads s"
    using type_kind_cases[OF k] assms(4) by (cases v) (auto simp: som_in_list_def)
  moreover obtain l where "fc_in_integer_list fc = Some l"
    using assms(1,4) by (auto simp: accepted_def FeatureComparison_type_cases som_in_list_def split: option.splits)
  ultimately show ?thesis using assms(4) v(1) som_not_in_list
    by (simp add: R_feature_comparison_def deref_def FeatureComparison_compare_def som_in_list_def)
qed

section \<open>Accepted constraints\<close>

lemma FFeatures_type_ok:
  "FFeatures_type f = Inr (True, True) \<longleftrightarrow> (\<forall>fc\<in>set (ff_comparisons f). FeatureComparison_type fc = Inr (True, True))"
  "FTerm_type t = Inr (True, True) \<longleftrightarrow> (\<forall>fc\<in>set (ft_comparisons t). FeatureComparison_type fc = Inr (True, True))"
  "FFactor_type a = Inr (True, True) \<longleftrightarrow> (\<forall>fc\<in>set (fa_comparisons a). FeatureComparison_type fc = Inr (True, True))"
  by (induction f and t and a) (auto simp: type_then_def bind_res_Inr_iff)

lemma ff_typed_comparisons:
  "ff_typed f \<Gamma> nn \<longleftrightarrow> (\<forall>fc\<in>set (ff_comparisons f). fc_typed \<Gamma> nn fc)"
  "ft_typed t \<Gamma> nn \<longleftrightarrow> (\<forall>fc\<in>set (ft_comparisons t). fc_typed \<Gamma> nn fc)"
  "fa_typed a \<Gamma> nn \<longleftrightarrow> (\<forall>fc\<in>set (fa_comparisons a). fc_typed \<Gamma> nn fc)"
  by (induction f and t and a) auto

section \<open>Features to be retrieved\<close>

lemma nocase_same [simp]: "strcmp_nocase s s = 0"
  by (simp add: strcmp_nocase_0)

lemma getFeatureIndex_found:
  "\<exists>n\<in>set names. strcmp_nocase n name = 0 \<Longrightarrow>
     \<exists>i<length names. getFeatureIndex k names name = Inr (k + i) \<and> strcmp_nocase (names ! i) name = 0"
proof (induction k names name rule: getFeatureIndex.induct)
  case (2 index fi fi_i name)
  show ?case
  proof (cases "strcmp_nocase fi name = 0")
    case False
    then obtain i where "i < length fi_i" "getFeatureIndex (index + 1) fi_i name = Inr (index + 1 + i)" "strcmp_nocase (fi_i ! i) name = 0"
      using "2.IH" "2.prems" by auto
    then show ?thesis using False by (intro exI[of _ "Suc i"]) simp
  qed auto
qed simp

lemma addFeature_extends:
  "\<exists>xs. MQLObject_addFeature names name = names @ xs"
  "\<exists>n\<in>set (MQLObject_addFeature names name). strcmp_nocase n name = 0"
  by (auto simp: MQLObject_addFeature_def)

text \<open>
  Each feature gets its place in the list, and the index of its name in the table of the block, to
  which new names are added at the end.
\<close>

definition places_features :: "nat \<Rightarrow> Feature list \<Rightarrow> string list \<Rightarrow> Feature list \<Rightarrow> string list \<Rightarrow> bool" where
  "places_features index fs names fs' names' \<longleftrightarrow>
     length fs' = length fs \<and> (\<exists>new. names' = names @ new) \<and> map ft_name fs' = map ft_name fs \<and>
     map ft_list_index fs' = [index..<index + length fs] \<and>
     (\<forall>f\<in>set fs'. \<exists>i<length names'. ft_feature_index_inst f = int i \<and> strcmp_nocase (names' ! i) (ft_name f) = 0)"

lemma symbolAddFeatures_places:
  "\<exists>fs' names'. symbolAddFeatures index fs names = Inr (fs', names') \<and> places_features index fs names fs' names'"
proof (induction index fs names rule: symbolAddFeatures.induct)
  case (2 index f fs names)
  let ?f = "f\<lparr>ft_list_index := index\<rparr>" and ?names = "MQLObject_addFeature names (ft_name f)"
  obtain i where i: "i < length ?names" "getFeatureIndex 0 ?names (ft_name f) = Inr i" "strcmp_nocase (?names ! i) (ft_name f) = 0"
    using getFeatureIndex_found[OF addFeature_extends(2)] by (metis add_0)
  let ?f1 = "?f\<lparr>ft_feature_index_inst := int i\<rparr>"
  have s: "symbolAddToObject ?f names = Inr (?f1, ?names)" using i by (simp add: symbolAddToObject_def)
  obtain new0 where n0: "?names = names @ new0" using addFeature_extends(1) by blast
  obtain fs' names' where r: "symbolAddFeatures (index + 1) fs ?names = Inr (fs', names')"
    and p: "places_features (index + 1) fs ?names fs' names'" using "2.IH" by blast
  from p obtain new where n: "names' = ?names @ new" by (auto simp: places_features_def)
  have u: "[index..<index + length (f # fs)] = index # [index + 1..<index + 1 + length fs]" by (simp add: upt_conv_Cons del: upt_Suc)
  have "\<exists>j<length names'. ft_feature_index_inst ?f1 = int j \<and> strcmp_nocase (names' ! j) (ft_name ?f1) = 0"
    using i n by (intro exI[of _ i]) (simp add: nth_append)
  then have "places_features index (f # fs) names (?f1 # fs') names'"
    using p n n0 unfolding places_features_def u by simp
  with s r show ?case by simp
qed (simp add: places_features_def)

section \<open>The object blocks of a typed query\<close>

definition objects :: "part list \<Rightarrow> (bool \<times> ObjectBlockInfo) list" where
  "objects ps = concat (map (\<lambda>p. case p of P_object b ob \<Rightarrow> [(b, ob)] | _ \<Rightarrow> []) ps)"

lemma objects_simps [simp]:
  "objects [] = []" "objects (ps @ qs) = objects ps @ objects qs" "objects (P_string n # ps) = objects ps"
  "objects (P_gap g # ps) = objects ps" "objects (P_object b ob # ps) = (b, ob) # objects ps"
  by (simp_all add: objects_def)

text \<open>
  An accepted object block differs from the one that was given by the places of its features; its
  comparisons and the set of its monads are typed.
\<close>

definition object_typed :: "bool \<times> ObjectBlockInfo \<Rightarrow> bool \<times> ObjectBlockInfo \<Rightarrow> bool" where
  "object_typed x y \<longleftrightarrow>
     (case (x, y) of ((b, ob), (b', ob')) \<Rightarrow>
        b' = b \<and>
        (\<exists>fs names. places_features 0 (ob_Feature_retrieval_vec ob) (ob_object ob) fs names \<and>
           ob' = ob\<lparr>ob_Feature_retrieval_vec := fs, ob_object := names\<rparr>) \<and>
        (\<forall>fc\<in>set (ob_comparisons ob). FeatureComparison_type fc = Inr (True, True)) \<and>
        MonadSetRelationClause_type (ob_MSRC ob))"

lemma ObjectBlockBase_type_True [simp]: "snd (ObjectBlockBase_type column fs True) = True"
  by (induction column fs True rule: ObjectBlockBase_type.induct) simp_all

lemma ObjectBlock_type_info_is:
  assumes "ObjectBlock_type_info column ob opt inner True = Inr (x', True, True)"
  shows "\<exists>fs names opt1. symbolAddFeatures 0 (ob_Feature_retrieval_vec ob) (ob_object ob) = Inr (fs, names) \<and>
     x' = ObjectBlock (ob\<lparr>ob_Feature_retrieval_vec := fs, ob_object := names\<rparr>) opt1 \<and>
     inner_type opt inner (ob_objectRangeType ob) True = Inr (opt1, True, True) \<and>
     (\<forall>fc\<in>set (ob_comparisons ob). FeatureComparison_type fc = Inr (True, True)) \<and> MonadSetRelationClause_type (ob_MSRC ob)"
proof -
  have cons: "constraints_type ob True = Inr (True, True)"
    using assms by (auto simp: ObjectBlock_type_info_def constraints_type_def Let_def case_prod_unfold bind_res_Inr_iff
      split: option.splits if_splits)
  then have c: "\<forall>fc\<in>set (ob_comparisons ob). FeatureComparison_type fc = Inr (True, True)"
    by (auto simp: constraints_type_def ob_comparisons_def FFeatures_type_ok split: option.splits)
  have m: "MonadSetRelationClause_type (ob_MSRC ob)"
    using assms cons by (auto simp: ObjectBlock_type_info_def Let_def case_prod_unfold split: if_splits)
  obtain opt1 where i: "inner_type opt inner (ob_objectRangeType ob) True = Inr (opt1, True, True)"
  proof -
    have "\<exists>opt1 ok b2. inner_type opt inner (ob_objectRangeType ob) True = Inr (opt1, ok, b2) \<and> (inner \<noteq> None \<longrightarrow> ok \<and> b2)"
      using assms cons m by (auto simp: ObjectBlock_type_info_def Let_def case_prod_unfold bind_res_Inr_iff split: if_splits)
    then show thesis using that by (cases inner) (auto simp: inner_type_def)
  qed
  obtain fs names where f: "symbolAddFeatures 0 (ob_Feature_retrieval_vec ob) (ob_object ob) = Inr (fs, names)"
    using symbolAddFeatures_places by blast
  have "x' = ObjectBlock (ob\<lparr>ob_Feature_retrieval_vec := fs, ob_object := names\<rparr>) opt1"
    using assms cons m i f by (simp add: ObjectBlock_type_info_def Let_def case_prod_unfold)
  with c m i f show ?thesis by auto
qed

lemma ObjectBlock_type_info_ok:
  assumes "ObjectBlock_type_info column ob opt inner True = Inr (x', True, True)"
  shows "\<exists>ob' opt1. x' = ObjectBlock ob' opt1 \<and> object_typed (b, ob) (b, ob') \<and>
     inner_type opt inner (ob_objectRangeType ob) True = Inr (opt1, True, True)"
proof -
  obtain fs names opt1 where f: "symbolAddFeatures 0 (ob_Feature_retrieval_vec ob) (ob_object ob) = Inr (fs, names)"
    and o: "x' = ObjectBlock (ob\<lparr>ob_Feature_retrieval_vec := fs, ob_object := names\<rparr>) opt1"
      "inner_type opt inner (ob_objectRangeType ob) True = Inr (opt1, True, True)"
      "\<forall>fc\<in>set (ob_comparisons ob). FeatureComparison_type fc = Inr (True, True)" "MonadSetRelationClause_type (ob_MSRC ob)"
    using ObjectBlock_type_info_is[OF assms] by blast
  have "places_features 0 (ob_Feature_retrieval_vec ob) (ob_object ob) fs names"
    using symbolAddFeatures_places[of 0 "ob_Feature_retrieval_vec ob" "ob_object ob"] f by simp
  with o show ?thesis by (auto simp: object_typed_def)
qed

lemma inner_type_ok:
  "inner_type opt (map_option (\<lambda>f. f column) (map_option Blocks_type opt)) k True = Inr (opt1, True, True) \<Longrightarrow>
     rel_option (\<lambda>x y. Blocks_type x column k True = Inr (y, True, True)) opt opt1"
  by (cases opt) (auto simp: inner_type_def bind_res_Inr_iff)

lemma ObjectBlock_type_ok:
  assumes "ObjectBlock_type (ObjectBlock ob opt) column True = Inr (x', True, True)"
  shows "\<exists>ob' opt1. x' = ObjectBlock ob' opt1 \<and> object_typed (b, ob) (b, ob') \<and>
     inner_type opt (map_option (\<lambda>f. f column) (map_option Blocks_type opt)) (ob_objectRangeType ob) True = Inr (opt1, True, True)"
  using ObjectBlock_type_info_ok[OF assms[unfolded ObjectBlock_type.simps]] .

lemma GapBlock_type_ok:
  assumes "GapBlock_type (GapBlock g opt) column True = Inr (x', True, True)"
  shows "\<exists>opt1. x' = GapBlock g opt1 \<and>
     inner_type opt (map_option (\<lambda>f. f column) (map_option Blocks_type opt)) kORTSingleRange True = Inr (opt1, True, True)"
  using assms by (cases opt) (auto simp: inner_type_def bind_res_Inr_iff split: if_splits)

definition types :: "('a \<Rightarrow> part list) \<Rightarrow> 'a \<Rightarrow> 'a typed \<Rightarrow> bool" where
  "types parts x r \<longleftrightarrow> (\<forall>x'. r = Inr (x', True, True) \<longrightarrow> list_all2 object_typed (objects (parts x)) (objects (parts x')))"

lemma typed_map_ok: "typed_map f r = Inr (x', True, True) \<longleftrightarrow> (\<exists>y. r = Inr (y, True, True) \<and> x' = f y)"
  by (auto simp: typed_map_def bind_res_Inr_iff)

lemma typed_end_ok: "typed_end f r = Inr (x', True, True) \<longleftrightarrow> (\<exists>y. r = Inr (y, True, True) \<and> x' = f y)"
  by (auto simp: typed_end_def bind_res_Inr_iff split: if_splits)

lemma typed_then_ok:
  "bind_res r (\<lambda>(x, ok, b). if ok \<longrightarrow> \<not> b then Inr (h x, ok, b) else k x b) = Inr (x', True, True) \<longleftrightarrow>
     (\<exists>y. r = Inr (y, True, True) \<and> k y True = Inr (x', True, True))"
  by (auto simp: bind_res_Inr_iff split: if_splits)

lemma insert_gap_objects [simp]:
  "objects (BlockString2_parts (insert_gap rng n b1 b2)) = objects (BlockString1_parts b1) @ objects (BlockString2_parts b2)"
  by (simp add: insert_gap_def Let_def inserted_gap_def)

lemmas types_simps = types_def typed_map_ok typed_end_ok typed_then_ok

lemma type_contract:
  "types Blocks_parts bl (Blocks_type bl column rng True)"
  "types BlockString_parts bs (BlockString_type bs column rng True)"
  "types BlockString2_parts b2 (BlockString2_type b2 column rng True)"
  "types BlockString1_parts b1 (BlockString1_type b1 column rng True)"
  "types BlockString0_parts b0 (BlockString0_type b0 column rng True)"
  "types Block_parts bk (Block_type bk column rng True)"
  "types GapBlock_parts gb (GapBlock_type gb column True)"
  "types (\<lambda>x. ObjectBlock_parts x b) ob (ObjectBlock_type ob column True)"
  "types ObjectBlockString_parts obs (ObjectBlockString_type obs column True)"
proof (induction bl and bs and b2 and b1 and b0 and bk and gb and ob and obs
    arbitrary: rng and rng and rng and rng and rng and rng and rng and b and rng)
  case (GapBlock g opt)
  show ?case unfolding types_def
  proof (intro allI impI)
    fix x' assume "GapBlock_type (GapBlock g opt) column True = Inr (x', True, True)"
    then obtain opt1 where o: "x' = GapBlock g opt1"
      "inner_type opt (map_option (\<lambda>f. f column) (map_option Blocks_type opt)) kORTSingleRange True = Inr (opt1, True, True)"
      using GapBlock_type_ok by blast
    with inner_type_ok[OF o(2)] GapBlock.IH
    show "list_all2 object_typed (objects (GapBlock_parts (GapBlock g opt))) (objects (GapBlock_parts x'))"
      by (cases opt; cases opt1) (auto simp: types_def)
  qed
next
  case (ObjectBlock j opt)
  show ?case unfolding types_def
  proof (intro allI impI)
    fix x' assume "ObjectBlock_type (ObjectBlock j opt) column True = Inr (x', True, True)"
    then obtain ob' opt1 where o: "x' = ObjectBlock ob' opt1" "object_typed (b, j) (b, ob')"
      "inner_type opt (map_option (\<lambda>f. f column) (map_option Blocks_type opt)) (ob_objectRangeType j) True = Inr (opt1, True, True)"
      using ObjectBlock_type_ok by blast
    with inner_type_ok[OF o(3)] ObjectBlock.IH
    show "list_all2 object_typed (objects (ObjectBlock_parts (ObjectBlock j opt) b)) (objects (ObjectBlock_parts x' b))"
      by (cases opt; cases opt1) (auto simp: types_def)
  qed
qed (auto simp: types_simps intro!: list_all2_appendI)

section \<open>Gaps between blocks\<close>

text \<open>The items of a string, each with whether an exclamation mark follows it.\<close>

fun BlockString2_links :: "BlockString2 \<Rightarrow> (bool \<times> BlockString1) list" where
  "BlockString2_links (BlockString2_bs1 n b1) = [(bs2_bIsExclamation n, b1)]"
| "BlockString2_links (BlockString2_seq n b1 b2) = (bs2_bIsExclamation n, b1) # BlockString2_links b2"

definition near :: "BlockString1 \<Rightarrow> bool" where
  "near b1 = block_is gap_or_power (getBlockString0 b1)"

text \<open>A gap between two items that are neither a gap nor a power block, unless they are joined by an exclamation mark.\<close>

fun with_gaps :: "(bool \<times> BlockString1) list \<Rightarrow> BlockString1 list" where
  "with_gaps [] = []"
| "with_gaps [(e, x)] = [x]"
| "with_gaps ((e, x) # (e', y) # zs) =
     x # (if \<not> e \<and> \<not> near x \<and> \<not> near y then [inserted_gap] else []) @ with_gaps ((e', y) # zs)"

lemma BlockString2_type_ok:
  "BlockString2_type (BlockString2_bs1 n b1) column rng True = Inr (x', True, True) \<longleftrightarrow>
     (\<exists>b1'. BlockString1_type b1 column rng True = Inr (b1', True, True) \<and> x' = BlockString2_bs1 n b1')"
  "BlockString2_type (BlockString2_seq n b1 b2) column rng True = Inr (x', True, True) \<longleftrightarrow>
     (\<exists>b1' b2'. BlockString1_type b1 column rng True = Inr (b1', True, True) \<and>
        BlockString2_type b2 column rng True = Inr (b2', True, True) \<and> x' = insert_gap rng n b1' b2')"
  by (auto simp: typed_map_ok typed_then_ok)

lemma items_first: "BlockString2_items b2 = getBlockString1 b2 # tl (BlockString2_items b2)"
  by (cases b2) simp_all

lemma insert_gap_items:
  "BlockString2_items (insert_gap rng n b1 b2) =
     b1 # (if rng = kORTMultipleRange \<and> \<not> bs2_bIsExclamation n \<and> \<not> near b1 \<and> \<not> near (getBlockString1 b2) then [inserted_gap] else []) @
     BlockString2_items b2"
  by (simp add: insert_gap_def Let_def near_def)

section \<open>The query after type-checking, written down\<close>

text \<open>
  What an accepted query becomes, as a function of the query and the range type of its context: no
  errors, no flags. The blocks of an object are in the range of that object, those of a gap are in a
  single range, and those in brackets in the range the brackets are in.
\<close>

definition names_with :: "string list \<Rightarrow> Feature list \<Rightarrow> string list" where
  "names_with names fs =
     foldl (\<lambda>ns f. if \<exists>n\<in>set ns. strcmp_nocase n (ft_name f) = 0 then ns else ns @ [ft_name f]) names fs"

definition place_of :: "string list \<Rightarrow> string \<Rightarrow> int" where
  "place_of names name = int (length (takeWhile (\<lambda>n. strcmp_nocase n name \<noteq> 0) names))"

definition placed_feature :: "string list \<Rightarrow> nat \<Rightarrow> Feature \<Rightarrow> Feature" where
  "placed_feature names i f = f\<lparr>ft_list_index := i, ft_feature_index_inst := place_of names (ft_name f)\<rparr>"

definition featured :: "ObjectBlockInfo \<Rightarrow> ObjectBlockInfo" where
  "featured ob =
     (let fs = ob_Feature_retrieval_vec ob; names = names_with (ob_object ob) fs
      in ob\<lparr>ob_Feature_retrieval_vec := map2 (placed_feature names) [0..<length fs] fs, ob_object := names\<rparr>)"

definition gap_between :: "eObjectRangeType \<Rightarrow> BlockString2Info \<Rightarrow> BlockString1 \<Rightarrow> BlockString2 \<Rightarrow> bool" where
  "gap_between rng n b1 b2 \<longleftrightarrow>
     rng = kORTMultipleRange \<and> \<not> bs2_bIsExclamation n \<and> \<not> near b1 \<and> \<not> near (getBlockString1 b2)"

primrec Blocks_gapped :: "Blocks \<Rightarrow> eObjectRangeType \<Rightarrow> Blocks"
and BlockString_gapped :: "BlockString \<Rightarrow> eObjectRangeType \<Rightarrow> BlockString"
and BlockString2_gapped :: "BlockString2 \<Rightarrow> eObjectRangeType \<Rightarrow> BlockString2"
and BlockString1_gapped :: "BlockString1 \<Rightarrow> eObjectRangeType \<Rightarrow> BlockString1"
and BlockString0_gapped :: "BlockString0 \<Rightarrow> eObjectRangeType \<Rightarrow> BlockString0"
and Block_gapped :: "Block \<Rightarrow> Block"
and GapBlock_gapped :: "GapBlock \<Rightarrow> GapBlock"
and ObjectBlock_gapped :: "ObjectBlock \<Rightarrow> ObjectBlock"
and ObjectBlockString_gapped :: "ObjectBlockString \<Rightarrow> ObjectBlockString" where
  "Blocks_gapped (Blocks_string bs ur) = (\<lambda>rng. Blocks_string (BlockString_gapped bs rng) ur)"
| "Blocks_gapped (Blocks_unordered obs) = (\<lambda>rng. Blocks_unordered (ObjectBlockString_gapped obs))"
| "BlockString_gapped (BlockString_bs2 b2) = (\<lambda>rng. BlockString_bs2 (BlockString2_gapped b2 rng))"
| "BlockString_gapped (BlockString_or b2 bs) = (\<lambda>rng. BlockString_or (BlockString2_gapped b2 rng) (BlockString_gapped bs rng))"
| "BlockString2_gapped (BlockString2_bs1 n b1) = (\<lambda>rng. BlockString2_bs1 n (BlockString1_gapped b1 rng))"
| "BlockString2_gapped (BlockString2_seq n b1 b2) = (\<lambda>rng. BlockString2_seq n (BlockString1_gapped b1 rng)
     (if gap_between rng n b1 b2 then BlockString2_seq inserted_string inserted_gap (BlockString2_gapped b2 rng)
      else BlockString2_gapped b2 rng))"
| "BlockString1_gapped (BlockString1_bs0 b0) = (\<lambda>rng. BlockString1_bs0 (BlockString0_gapped b0 rng))"
| "BlockString1_gapped (BlockString1_star b0 mse som) = (\<lambda>rng. BlockString1_star (BlockString0_gapped b0 rng) mse som)"
| "BlockString0_gapped (BlockString0_block b) = (\<lambda>rng. BlockString0_block (Block_gapped b))"
| "BlockString0_gapped (BlockString0_string bs) = (\<lambda>rng. BlockString0_string (BlockString_gapped bs rng))"
| "Block_gapped (kOptGapBlock g) = kOptGapBlock (GapBlock_gapped g)"
| "Block_gapped (kGapBlock g) = kGapBlock (GapBlock_gapped g)"
| "Block_gapped (kPowerBlock p) = kPowerBlock p"
| "Block_gapped (kObjectBlock ob) = kObjectBlock (ObjectBlock_gapped ob)"
| "Block_gapped (kObjectBlockNOTEXIST ob) = kObjectBlockNOTEXIST (ObjectBlock_gapped ob)"
| "GapBlock_gapped (GapBlock g opt_blocks) = GapBlock g (map_option (\<lambda>f. f kORTSingleRange) (map_option Blocks_gapped opt_blocks))"
| "ObjectBlock_gapped (ObjectBlock ob opt_blocks) =
     ObjectBlock (featured ob) (map_option (\<lambda>f. f (ob_objectRangeType ob)) (map_option Blocks_gapped opt_blocks))"
| "ObjectBlockString_gapped (ObjectBlockString_one ob) = ObjectBlockString_one (ObjectBlock_gapped ob)"
| "ObjectBlockString_gapped (ObjectBlockString_more obs ob) =
     ObjectBlockString_more (ObjectBlockString_gapped obs) (ObjectBlock_gapped ob)"

lemma getFeatureIndex_place:
  "\<exists>n\<in>set names. strcmp_nocase n name = 0 \<Longrightarrow> getFeatureIndex k names name = Inr (k + nat (place_of names name))"
  by (induction k names name rule: getFeatureIndex.induct) (auto simp: place_of_def)

lemma place_of_append: "\<exists>n\<in>set names. strcmp_nocase n name = 0 \<Longrightarrow> place_of (names @ xs) name = place_of names name"
  by (auto simp: place_of_def takeWhile_append1)

lemma names_with_extends: "\<exists>xs. names_with names fs = names @ xs"
proof (induction fs arbitrary: names)
  case (Cons f fs)
  show ?case using Cons[of names] Cons[of "names @ [ft_name f]"] by (auto simp: names_with_def)
qed (simp add: names_with_def)

lemma symbolAddFeatures_is:
  "symbolAddFeatures k fs names =
     Inr (map2 (placed_feature (names_with names fs)) [k..<k + length fs] fs, names_with names fs)"
proof (induction k fs names rule: symbolAddFeatures.induct)
  case (1 k names)
  then show ?case by (simp add: names_with_def)
next
  case (2 k f fs names)
  let ?names = "MQLObject_addFeature names (ft_name f)"
  have in1: "\<exists>n\<in>set ?names. strcmp_nocase n (ft_name f) = 0" by (rule addFeature_extends(2))
  have all: "names_with names (f # fs) = names_with ?names fs" by (simp add: names_with_def MQLObject_addFeature_def)
  obtain xs where xs: "names_with ?names fs = ?names @ xs" using names_with_extends by blast
  have place: "place_of (names_with ?names fs) (ft_name f) = place_of ?names (ft_name f)"
    unfolding xs by (rule place_of_append[OF in1])
  have s: "symbolAddToObject (f\<lparr>ft_list_index := k\<rparr>) names = Inr (placed_feature (names_with names (f # fs)) k f, ?names)"
    using getFeatureIndex_place[OF in1, of 0] place
    by (simp add: symbolAddToObject_def all placed_feature_def) (simp add: place_of_def Let_def)
  have "[k..<k + length (f # fs)] = k # [k + 1..<k + 1 + length fs]" by (simp add: upt_conv_Cons del: upt_Suc)
  then show ?case using s "2.IH" by (simp add: all del: upt_Suc)
qed

section \<open>Typed queries stay well placed\<close>

lemma Block_type_shape:
  "Block_type b column rng True = Inr (b', True, True) \<Longrightarrow>
     isGapOrOptGapBlock b' = isGapOrOptGapBlock b \<and> isPowerBlock b' = isPowerBlock b"
  by (cases b) (auto simp: typed_end_ok)

lemma BlockString0_type_shape:
  "BlockString0_type b0 column rng True = Inr (b0', True, True) \<Longrightarrow>
     block_is isGapOrOptGapBlock b0' = block_is isGapOrOptGapBlock b0 \<and> block_is isPowerBlock b0' = block_is isPowerBlock b0"
  by (cases b0) (auto simp: typed_map_ok dest: Block_type_shape)

lemma BlockString1_type_shape:
  "BlockString1_type b1 column rng True = Inr (b1', True, True) \<Longrightarrow>
     bs1_is_gap b1' = bs1_is_gap b1 \<and> bs1_is_power b1' = bs1_is_power b1"
  by (cases b1) (auto simp: typed_map_ok bs1_is_gap_def bs1_is_power_def dest: BlockString0_type_shape)

lemma near_iff: "near b1 \<longleftrightarrow> bs1_is_gap b1 \<or> bs1_is_power b1"
  by (cases "getBlockString0 b1") (auto simp: near_def bs1_is_gap_def bs1_is_power_def)

lemma placed_after_gap:
  "BlockString2_placed b2 f l g p \<Longrightarrow> \<not> bs1_is_gap (getBlockString1 b2) \<Longrightarrow> BlockString2_placed b2 f l True p"
proof -
  have 0: "BlockString0_placed b0 f l g p \<Longrightarrow> \<not> block_is isGapOrOptGapBlock b0 \<Longrightarrow> BlockString0_placed b0 f l True p" for b0 f l g p
    by (cases b0) auto
  have 1: "BlockString1_placed b1 f l g p \<Longrightarrow> \<not> bs1_is_gap b1 \<Longrightarrow> BlockString1_placed b1 f l True p" for b1 f l g p
    by (cases b1) (auto simp: bs1_is_gap_def intro: 0)
  show "BlockString2_placed b2 f l g p \<Longrightarrow> \<not> bs1_is_gap (getBlockString1 b2) \<Longrightarrow> BlockString2_placed b2 f l True p"
    by (cases b2) (auto intro: 1)
qed

lemma inserted_gap_placed: "BlockString1_placed inserted_gap f l False p" "bs1_is_gap inserted_gap" "\<not> bs1_is_power inserted_gap"
  by (simp_all add: inserted_gap_def bs1_is_gap_def bs1_is_power_def)

lemma insert_gap_placed:
  "BlockString2_placed (insert_gap rng n b1 b2) f l g p \<longleftrightarrow> BlockString2_placed (BlockString2_seq n b1 b2) f l g p"
proof -
  have "BlockString2_placed b2 False l True False = BlockString2_placed b2 False l False False"
    if "\<not> bs1_is_gap (getBlockString1 b2)"
  proof -
    have 0: "BlockString0_placed b0 f l True p \<Longrightarrow> BlockString0_placed b0 f l False p" for b0 f l p
      by (cases b0) auto
    have 1: "BlockString1_placed b1 f l True p \<Longrightarrow> BlockString1_placed b1 f l False p" for b1 f l p
      by (cases b1) (auto intro: 0)
    have "BlockString2_placed b2 False l True False \<Longrightarrow> BlockString2_placed b2 False l False False"
      by (cases b2) (auto intro: 1)
    then show ?thesis using placed_after_gap[OF _ that] by blast
  qed
  then show ?thesis
    by (auto simp: insert_gap_def Let_def near_def[symmetric] near_iff inserted_gap_placed)
qed

lemma insert_gap_first [simp]: "BlockString2_firstBlockIsPower (insert_gap rng n b1 b2) = BlockString1_firstBlockIsPower b1"
  by (simp add: insert_gap_def Let_def)

lemma type_first_power:
  "(bl :: Blocks) = bl"
  "BlockString_type bs column rng True = Inr (bs', True, True) \<Longrightarrow> BlockString_firstBlockIsPower bs' = BlockString_firstBlockIsPower bs"
  "BlockString2_type b2 column rng True = Inr (b2', True, True) \<Longrightarrow> BlockString2_firstBlockIsPower b2' = BlockString2_firstBlockIsPower b2"
  "BlockString1_type b1 column rng True = Inr (b1', True, True) \<Longrightarrow> BlockString1_firstBlockIsPower b1' = BlockString1_firstBlockIsPower b1"
  "BlockString0_type b0 column rng True = Inr (b0', True, True) \<Longrightarrow> BlockString0_firstBlockIsPower b0' = BlockString0_firstBlockIsPower b0"
  "(bk :: Block) = bk" "(gb :: GapBlock) = gb" "(ob :: ObjectBlock) = ob" "(obs :: ObjectBlockString) = obs"
proof (induction bl and bs and b2 and b1 and b0 and bk and gb and ob and obs arbitrary: bs' and bs' and b2' and b1' and b0')
  case (BlockString0_block b)
  then show ?case using Block_type_shape[of b column rng] by (cases b) (auto simp: typed_map_ok typed_end_ok)
qed (auto simp: typed_map_ok typed_then_ok)

lemma ObjectBlock_type_keeps:
  "ObjectBlock_type ob column True = Inr (ob', True, True) \<Longrightarrow>
     ob_first_last (ob_info ob') = ob_first_last (ob_info ob) \<and>
     ob_object_reference_lower (ob_info ob') = ob_object_reference_lower (ob_info ob)"
  by (cases ob) (auto dest!: ObjectBlock_type_ok[where b = False] simp: object_typed_def simp del: ObjectBlock_type.simps)

lemma star_allowed_info: "star_allowed (BlockString0_block (kObjectBlock ob)) = (ob_object_reference_lower (ob_info ob) = [])"
  by (cases ob) simp

lemma type_star_allowed:
  assumes "BlockString0_type b0 column rng True = Inr (b0', True, True)"
  shows "star_allowed b0' = star_allowed b0"
proof (cases b0)
  case (BlockString0_block b)
  with assms show ?thesis by (cases b) (auto simp: typed_map_ok typed_end_ok star_allowed_info simp del: star_allowed.simps(2)
      dest!: ObjectBlock_type_keeps)
next
  case (BlockString0_string bs)
  with assms show ?thesis by (auto simp: typed_map_ok)
qed

lemma type_placed:
  "Blocks_type bl column rng True = Inr (bl', True, True) \<Longrightarrow> Blocks_placed bl \<Longrightarrow> Blocks_placed bl'"
  "BlockString_type bs column rng True = Inr (bs', True, True) \<Longrightarrow> BlockString_placed bs f l \<Longrightarrow> BlockString_placed bs' f l"
  "BlockString2_type b2 column rng True = Inr (b2', True, True) \<Longrightarrow> BlockString2_placed b2 f l g p \<Longrightarrow> BlockString2_placed b2' f l g p"
  "BlockString1_type b1 column rng True = Inr (b1', True, True) \<Longrightarrow> BlockString1_placed b1 f l g p \<Longrightarrow> BlockString1_placed b1' f l g p"
  "BlockString0_type b0 column rng True = Inr (b0', True, True) \<Longrightarrow> BlockString0_placed b0 f l g p \<Longrightarrow> BlockString0_placed b0' f l g p"
  "Block_type bk column rng True = Inr (bk', True, True) \<Longrightarrow> Block_placed bk f l \<Longrightarrow> Block_placed bk' f l"
  "GapBlock_type gb column True = Inr (gb', True, True) \<Longrightarrow> GapBlock_placed gb \<Longrightarrow> GapBlock_placed gb'"
  "ObjectBlock_type ob column True = Inr (ob', True, True) \<Longrightarrow> ObjectBlock_placed ob f l \<Longrightarrow> ObjectBlock_placed ob' f l"
  "ObjectBlockString_type obs column True = Inr (obs', True, True) \<Longrightarrow> ObjectBlockString_placed obs \<Longrightarrow> ObjectBlockString_placed obs'"
proof (induction bl and bs and b2 and b1 and b0 and bk and gb and ob and obs
    arbitrary: rng bl' and rng bs' f l and rng b2' f l g p and rng b1' f l g p and rng b0' f l g p and rng bk' f l and rng gb' and rng ob' f l and rng obs')
  case (BlockString2_bs1 n b1)
  obtain b1' where b: "BlockString1_type b1 column rng True = Inr (b1', True, True)" "b2' = BlockString2_bs1 n b1'"
    using BlockString2_bs1.prems(1) unfolding BlockString2_type_ok by blast
  show ?case using BlockString2_bs1.IH[OF b(1)] BlockString2_bs1.prems(2) BlockString1_type_shape[OF b(1)] by (simp add: b(2))
next
  case (BlockString2_seq n b1 b2)
  obtain b1' c2 where c: "BlockString1_type b1 column rng True = Inr (b1', True, True)"
    "BlockString2_type b2 column rng True = Inr (c2, True, True)" "b2' = insert_gap rng n b1' c2"
    using BlockString2_seq.prems(1) unfolding BlockString2_type_ok by blast
  show ?case using BlockString2_seq.IH(1)[OF c(1), of f False g p] BlockString2_seq.IH(2)[OF c(2)] BlockString2_seq.prems(2)
    BlockString1_type_shape[OF c(1)] by (simp add: c(3) insert_gap_placed)
next
  case (BlockString1_star b0 mse som)
  obtain c0 where c: "BlockString0_type b0 column rng True = Inr (c0, True, True)" "b1' = BlockString1_star c0 mse som"
    using BlockString1_star.prems(1) by (auto simp: typed_map_ok)
  show ?case using BlockString1_star.IH[OF c(1), of f l g p] BlockString1_star.prems(2) type_star_allowed[OF c(1)] by (simp add: c(2))
next
  case (BlockString0_block b)
  obtain c where c: "Block_type b column rng True = Inr (c, True, True)" "b0' = BlockString0_block c"
    using BlockString0_block.prems(1) by (auto simp: typed_map_ok)
  show ?case using BlockString0_block.IH[OF c(1), of f l] BlockString0_block.prems(2) Block_type_shape[OF c(1)] by (simp add: c(2))
next
  case (BlockString_bs2 b2)
  obtain c where c: "BlockString2_type b2 column rng True = Inr (c, True, True)" "bs' = BlockString_bs2 c"
    using BlockString_bs2.prems(1) by (auto simp: typed_map_ok)
  show ?case using BlockString_bs2.IH[OF c(1), of f l False False] BlockString_bs2.prems(2) type_first_power(3)[OF c(1)] by (simp add: c(2))
next
  case (BlockString_or b2 bs)
  obtain c d where c: "BlockString2_type b2 column rng True = Inr (c, True, True)"
    "BlockString_type bs column rng True = Inr (d, True, True)" "bs' = BlockString_or c d"
    using BlockString_or.prems(1) by (auto simp: typed_map_ok typed_then_ok)
  show ?case using BlockString_or.IH(1)[OF c(1), of True True False False] BlockString_or.IH(2)[OF c(2), of True True]
    BlockString_or.prems(2) type_first_power(3)[OF c(1)] by (simp add: c(3))
next
  case (GapBlock g opt)
  obtain opt1 where o: "gb' = GapBlock g opt1"
    "inner_type opt (map_option (\<lambda>f. f column) (map_option Blocks_type opt)) kORTSingleRange True = Inr (opt1, True, True)"
    using GapBlock_type_ok[OF GapBlock.prems(1)] by blast
  show ?case using inner_type_ok[OF o(2)] GapBlock.IH GapBlock.prems(2) by (cases opt; cases opt1) (auto simp: o(1))
next
  case (ObjectBlock j opt)
  obtain j' opt1 where o: "ob' = ObjectBlock j' opt1"
    "inner_type opt (map_option (\<lambda>f. f column) (map_option Blocks_type opt)) (ob_objectRangeType j) True = Inr (opt1, True, True)"
    using ObjectBlock_type_ok[OF ObjectBlock.prems(1)] by blast
  have "ob_first_last j' = ob_first_last j" using ObjectBlock_type_keeps[OF ObjectBlock.prems(1)] by (simp add: o(1))
  then show ?case using inner_type_ok[OF o(2)] ObjectBlock.IH ObjectBlock.prems(2) by (cases opt; cases opt1) (auto simp: o(1))
qed (auto simp: typed_map_ok typed_end_ok typed_then_ok simp del: ObjectBlock_type.simps GapBlock_type.simps)

lemma near_typed:
  "BlockString1_type b1 column rng True = Inr (b1', True, True) \<Longrightarrow> near b1' = near b1"
  "BlockString2_type b2 column rng True = Inr (b2', True, True) \<Longrightarrow> near (getBlockString1 b2') = near (getBlockString1 b2)"
proof -
  show 1: "BlockString1_type b1 column rng True = Inr (b1', True, True) \<Longrightarrow> near b1' = near b1" for b1 b1'
    using BlockString1_type_shape[of b1 column rng b1'] by (simp add: near_iff)
  show "BlockString2_type b2 column rng True = Inr (b2', True, True) \<Longrightarrow> near (getBlockString1 b2') = near (getBlockString1 b2)"
  proof (cases b2)
    case (BlockString2_seq n c1 c2)
    assume "BlockString2_type b2 column rng True = Inr (b2', True, True)"
    then obtain c1' c2' where c: "BlockString1_type c1 column rng True = Inr (c1', True, True)" "b2' = insert_gap rng n c1' c2'"
      unfolding BlockString2_seq BlockString2_type_ok by blast
    then show ?thesis using 1[OF c(1)] by (simp add: BlockString2_seq insert_gap_def Let_def)
  qed (auto simp: typed_map_ok 1)
qed

text \<open>Type-checking turns an accepted query into the one that is written down.\<close>

lemma type_gapped:
  "Blocks_type bl column rng True = Inr (bl', True, True) \<Longrightarrow> bl' = Blocks_gapped bl rng"
  "BlockString_type bs column rng True = Inr (bs', True, True) \<Longrightarrow> bs' = BlockString_gapped bs rng"
  "BlockString2_type b2 column rng True = Inr (b2', True, True) \<Longrightarrow> b2' = BlockString2_gapped b2 rng"
  "BlockString1_type b1 column rng True = Inr (b1', True, True) \<Longrightarrow> b1' = BlockString1_gapped b1 rng"
  "BlockString0_type b0 column rng True = Inr (b0', True, True) \<Longrightarrow> b0' = BlockString0_gapped b0 rng"
  "Block_type bk column rng True = Inr (bk', True, True) \<Longrightarrow> bk' = Block_gapped bk"
  "GapBlock_type gb column True = Inr (gb', True, True) \<Longrightarrow> gb' = GapBlock_gapped gb"
  "ObjectBlock_type ob column True = Inr (ob', True, True) \<Longrightarrow> ob' = ObjectBlock_gapped ob"
  "ObjectBlockString_type obs column True = Inr (obs', True, True) \<Longrightarrow> obs' = ObjectBlockString_gapped obs"
proof (induction bl and bs and b2 and b1 and b0 and bk and gb and ob and obs
    arbitrary: rng bl' and rng bs' and rng b2' and rng b1' and rng b0' and rng bk' and rng gb' and ob' and rng obs')
  case (BlockString2_seq n b1 b2)
  obtain b1' c2 where c: "BlockString1_type b1 column rng True = Inr (b1', True, True)"
    "BlockString2_type b2 column rng True = Inr (c2, True, True)" "b2' = insert_gap rng n b1' c2"
    using BlockString2_seq.prems(1) unfolding BlockString2_type_ok by blast
  have "insert_gap rng n b1' c2 = BlockString2_seq n b1' (if gap_between rng n b1 b2
      then BlockString2_seq inserted_string inserted_gap c2 else c2)"
    using near_typed(1)[OF c(1)] near_typed(2)[OF c(2)] by (auto simp: insert_gap_def Let_def gap_between_def near_def)
  then show ?case using BlockString2_seq.IH(1)[OF c(1)] BlockString2_seq.IH(2)[OF c(2)] c(3) by simp
next
  case (GapBlock g opt)
  obtain opt1 where o: "gb' = GapBlock g opt1"
    "inner_type opt (map_option (\<lambda>f. f column) (map_option Blocks_type opt)) kORTSingleRange True = Inr (opt1, True, True)"
    using GapBlock_type_ok[OF GapBlock.prems(1)] by blast
  show ?case using inner_type_ok[OF o(2)] GapBlock.IH by (cases opt; cases opt1) (auto simp: o(1))
next
  case (ObjectBlock j opt)
  obtain fs names opt1 where o: "symbolAddFeatures 0 (ob_Feature_retrieval_vec j) (ob_object j) = Inr (fs, names)"
    "ob' = ObjectBlock (j\<lparr>ob_Feature_retrieval_vec := fs, ob_object := names\<rparr>) opt1"
    "inner_type opt (map_option (\<lambda>f. f column) (map_option Blocks_type opt)) (ob_objectRangeType j) True = Inr (opt1, True, True)"
    using ObjectBlock_type_info_is[OF ObjectBlock.prems(1)[unfolded ObjectBlock_type.simps]] by blast
  have "j\<lparr>ob_Feature_retrieval_vec := fs, ob_object := names\<rparr> = featured j"
    using o(1) by (auto simp: symbolAddFeatures_is featured_def Let_def)
  then show ?case using inner_type_ok[OF o(3)] ObjectBlock.IH by (cases opt; cases opt1) (auto simp: o(2))
qed (auto simp: typed_map_ok typed_end_ok typed_then_ok simp del: ObjectBlock_type.simps GapBlock_type.simps)

text \<open>What it means for one string: between its items there is a gap where there can be one.\<close>

lemma near_gapped [simp]: "near (BlockString1_gapped b1 rng) = near b1"
proof -
  have b: "isGapOrOptGapBlock (Block_gapped b) = isGapOrOptGapBlock b" "isPowerBlock (Block_gapped b) = isPowerBlock b" for b
    by (cases b; simp)+
  have "block_is gap_or_power (BlockString0_gapped b0 rng) = block_is gap_or_power b0" for b0
    by (cases b0) (auto simp: b)
  then show ?thesis by (cases b1) (simp_all add: near_def)
qed

lemma gapped_items:
  "BlockString2_items (BlockString2_gapped b2 rng) =
     (let xs = map (apsnd (\<lambda>b1. BlockString1_gapped b1 rng)) (BlockString2_links b2)
      in if rng = kORTMultipleRange then with_gaps xs else map snd xs)"
proof (induction b2 rule: BlockString2_links.induct)
  case (2 n b1 b2)
  obtain e y zs where l: "BlockString2_links b2 = (e, y) # zs" "getBlockString1 b2 = y" by (cases b2) auto
  show ?case using "2.IH" by (auto simp: Let_def gap_between_def l)
qed (simp add: Let_def)

section \<open>The copies of the blocks\<close>

definition obb_part :: "part \<Rightarrow> part" where
  "obb_part q = (case q of P_string n \<Rightarrow> P_string n
     | P_object b ob \<Rightarrow> P_object b (ob\<lparr>ob_pOBB := Some (ObjectBlock_OBB ob)\<rparr>)
     | P_gap g \<Rightarrow> P_gap (g\<lparr>gb_pOBB := Some (GapBlock_OBB g)\<rparr>))"

definition obbs :: "part list \<Rightarrow> ObjectBlockBase list" where
  "obbs ps = concat (map (\<lambda>q. case q of P_string n \<Rightarrow> [] | P_object b ob \<Rightarrow> [ObjectBlock_OBB ob] | P_gap g \<Rightarrow> [GapBlock_OBB g]) ps)"

lemma obbs_simps [simp]:
  "obbs [] = []" "obbs (ps @ qs) = obbs ps @ obbs qs" "obbs (P_string n # ps) = obbs ps"
  "obbs (P_object b ob # ps) = ObjectBlock_OBB ob # obbs ps" "obbs (P_gap g # ps) = GapBlock_OBB g # obbs ps"
  "obb_part (P_string n) = P_string n" "obb_part (P_object b ob) = P_object b (ob\<lparr>ob_pOBB := Some (ObjectBlock_OBB ob)\<rparr>)"
  "obb_part (P_gap g) = P_gap (g\<lparr>gb_pOBB := Some (GapBlock_OBB g)\<rparr>)"
  by (simp_all add: obbs_def obb_part_def)

text \<open>Every block gets a copy of what it is, and the copies are put in the vector in the order the blocks are visited.\<close>

definition copies :: "('a \<Rightarrow> part list) \<Rightarrow> 'a \<Rightarrow> OBBVec \<Rightarrow> 'a \<times> OBBVec \<Rightarrow> bool" where
  "copies parts x v r \<longleftrightarrow> parts (fst r) = map obb_part (parts x) \<and> snd r = v @ obbs (parts x)"

lemma addOBBToVec_contract:
  "copies Blocks_parts bl v (Blocks_addOBBToVec bl v)"
  "copies BlockString_parts bs v (BlockString_addOBBToVec bs v)"
  "copies BlockString2_parts b2 v (BlockString2_addOBBToVec b2 v)"
  "copies BlockString1_parts b1 v (BlockString1_addOBBToVec b1 v)"
  "copies BlockString0_parts b0 v (BlockString0_addOBBToVec b0 v)"
  "copies Block_parts bk v (Block_addOBBToVec bk v)"
  "copies GapBlock_parts gb v (GapBlock_addOBBToVec gb v)"
  "copies (\<lambda>x. ObjectBlock_parts x b) ob v (ObjectBlock_addOBBToVec ob v)"
  "copies ObjectBlockString_parts obs v (ObjectBlockString_addOBBToVec obs v)"
proof (induction bl and bs and b2 and b1 and b0 and bk and gb and ob and obs
    arbitrary: v and v and v and v and v and v and v and v b and v)
  case (GapBlock g opt)
  then show ?case by (cases opt) (auto simp: copies_def inner_OBB_def Let_def case_prod_unfold)
next
  case (ObjectBlock j opt)
  then show ?case by (cases opt) (auto simp: copies_def inner_OBB_def Let_def case_prod_unfold)
next
  case (ObjectBlockString_more obs ob)
  show ?case using ObjectBlockString_more.IH(1)[of v] ObjectBlockString_more.IH(2)[of False "v @ obbs (ObjectBlockString_parts obs)"]
    by (simp add: copies_def Let_def case_prod_unfold)
qed (simp_all add: copies_def Let_def case_prod_unfold)

lemma Block_addOBB_shape:
  "isGapOrOptGapBlock (fst (Block_addOBBToVec b v)) = isGapOrOptGapBlock b"
  "isPowerBlock (fst (Block_addOBBToVec b v)) = isPowerBlock b"
  by (cases b; simp add: Let_def case_prod_unfold)+

lemma BlockString1_addOBB_shape:
  "bs1_is_gap (fst (BlockString1_addOBBToVec b1 v)) = bs1_is_gap b1"
  "bs1_is_power (fst (BlockString1_addOBBToVec b1 v)) = bs1_is_power b1"
proof -
  have "block_is isGapOrOptGapBlock (fst (BlockString0_addOBBToVec b0 v)) = block_is isGapOrOptGapBlock b0"
    "block_is isPowerBlock (fst (BlockString0_addOBBToVec b0 v)) = block_is isPowerBlock b0" for b0 v
    by (cases b0; simp add: Let_def case_prod_unfold Block_addOBB_shape)+
  then show "bs1_is_gap (fst (BlockString1_addOBBToVec b1 v)) = bs1_is_gap b1"
    "bs1_is_power (fst (BlockString1_addOBBToVec b1 v)) = bs1_is_power b1"
    by (cases b1; simp add: bs1_is_gap_def bs1_is_power_def Let_def case_prod_unfold)+
qed

lemma ObjectBlock_addOBB_info:
  "ob_info (fst (ObjectBlock_addOBBToVec ob v)) = (ob_info ob)\<lparr>ob_pOBB := Some (ObjectBlock_OBB (ob_info ob))\<rparr>"
  by (cases ob) (simp add: Let_def case_prod_unfold)

lemma addOBB_star_allowed: "star_allowed (fst (BlockString0_addOBBToVec b0 v)) = star_allowed b0"
proof (cases b0)
  case (BlockString0_block b)
  then show ?thesis by (cases b) (simp_all add: Let_def case_prod_unfold star_allowed_info ObjectBlock_addOBB_info del: star_allowed.simps(2))
qed (simp add: Let_def case_prod_unfold)

lemma addOBB_first_power:
  "(bl :: Blocks) = bl"
  "BlockString_firstBlockIsPower (fst (BlockString_addOBBToVec bs v)) = BlockString_firstBlockIsPower bs"
  "BlockString2_firstBlockIsPower (fst (BlockString2_addOBBToVec b2 v)) = BlockString2_firstBlockIsPower b2"
  "BlockString1_firstBlockIsPower (fst (BlockString1_addOBBToVec b1 v)) = BlockString1_firstBlockIsPower b1"
  "BlockString0_firstBlockIsPower (fst (BlockString0_addOBBToVec b0 v)) = BlockString0_firstBlockIsPower b0"
  "(bk :: Block) = bk" "(gb :: GapBlock) = gb" "(ob :: ObjectBlock) = ob" "(obs :: ObjectBlockString) = obs"
proof (induction bl and bs and b2 and b1 and b0 and bk and gb and ob and obs arbitrary: v and v and v and v and v)
  case (BlockString0_block b)
  then show ?case by (cases b) (auto simp: Let_def case_prod_unfold)
qed (simp_all add: Let_def case_prod_unfold)

lemma addOBB_placed:
  "Blocks_placed (fst (Blocks_addOBBToVec bl v)) = Blocks_placed bl"
  "BlockString_placed (fst (BlockString_addOBBToVec bs v)) f l = BlockString_placed bs f l"
  "BlockString2_placed (fst (BlockString2_addOBBToVec b2 v)) f l g p = BlockString2_placed b2 f l g p"
  "BlockString1_placed (fst (BlockString1_addOBBToVec b1 v)) f l g p = BlockString1_placed b1 f l g p"
  "BlockString0_placed (fst (BlockString0_addOBBToVec b0 v)) f l g p = BlockString0_placed b0 f l g p"
  "Block_placed (fst (Block_addOBBToVec bk v)) f l = Block_placed bk f l"
  "GapBlock_placed (fst (GapBlock_addOBBToVec gb v)) = GapBlock_placed gb"
  "ObjectBlock_placed (fst (ObjectBlock_addOBBToVec ob v)) f l = ObjectBlock_placed ob f l"
  "ObjectBlockString_placed (fst (ObjectBlockString_addOBBToVec obs v)) = ObjectBlockString_placed obs"
proof (induction bl and bs and b2 and b1 and b0 and bk and gb and ob and obs
    arbitrary: v and v f l and v f l g p and v f l g p and v f l g p and v f l and v and v f l and v)
  case (GapBlock g opt)
  then show ?case by (cases opt) (auto simp: inner_OBB_def Let_def case_prod_unfold)
next
  case (ObjectBlock j opt)
  then show ?case by (cases opt) (auto simp: inner_OBB_def Let_def case_prod_unfold)
qed (simp_all add: Let_def case_prod_unfold addOBB_first_power Block_addOBB_shape BlockString1_addOBB_shape addOBB_star_allowed)

section \<open>The properties of type-checking\<close>

lemma fc_parsed_has_value: "fc_parsed fc \<Longrightarrow> has_value fc"
  by (auto simp: fc_parsed_def has_value_def tilde_def split: if_splits)

lemma accepted_comparisons:
  assumes "\<forall>fc\<in>set (ff_comparisons f). fc_parsed fc \<and> fc_symbols fc"
    "FFeatures_weed f compiles True = Inr True" "FFeatures_type f = Inr (True, True)"
  shows "\<forall>fc\<in>set (ff_comparisons f). accepted compiles fc"
  using assms FFeatures_weed_ok(1)[of f compiles] fc_parsed_has_value FFeatures_type_ok(1)[of f] by (auto simp: accepted_def)


definition demo_fc :: "eComparisonOp \<Rightarrow> FeatureComparison" where
  "demo_fc cop = \<lparr>fc_feature_index = 0, fc_comparison_op = cop, fc_value = Some (kValInteger 3), fc_in_enum_list = None,
     fc_in_integer_list = None, fc_pcre = [], fc_output_type = FEATURE_TYPE_INTEGER,
     fc_feature_name = ''n''\<rparr>"

text \<open>A list of the constants of an enumeration, and a set of monads, in a list.\<close>

definition demo_list_fc :: "id_d_t \<Rightarrow> int list option \<Rightarrow> int list option \<Rightarrow> FeatureComparison" where
  "demo_list_fc ft enums ints = (demo_fc kIn)\<lparr>fc_value := None, fc_in_enum_list := enums, fc_in_integer_list := ints, fc_output_type := ft\<rparr>"

abbreviation demo_ff :: "FeatureComparison \<Rightarrow> FFeatures" where
  "demo_ff fc \<equiv> FFeatures_fterm (FTerm_ffactor (FFactor_comparison fc))"

abbreviation demo_table :: "EMdFValue \<Rightarrow> MQLExecEnv" where
  "demo_table v \<equiv> demo_env None\<lparr>ee_MQLObject := \<lambda>_. [Some v]\<rparr>"

lemma demo_soundness:
  assumes "fc_parsed fc \<and> fc_symbols fc \<and> fc_scoped [1 \<mapsto> [kind_of v]] 1 fc" "value_wf v"
    "fc_comparison_op fc \<noteq> kTilde" "fc_comparison_op fc \<noteq> kNotTilde" "FeatureComparison_type fc = Inr (True, True)"
  shows "\<forall>fc'\<in>set (ff_comparisons (demo_ff fc)). fc_parsed fc' \<and> fc_symbols fc' \<and> fc_scoped [1 \<mapsto> [kind_of v]] 1 fc'"
    "env_typed [1 \<mapsto> [kind_of v]] (demo_table v)" "FFeatures_weed (demo_ff fc) (\<lambda>_. True) True = Inr True"
    "FFeatures_type (demo_ff fc) = Inr (True, True)"
  using assms fc_parsed_has_value[of fc]
  by (auto simp: env_typed_def has_kind_def FeatureComparison_weed_def has_value_def)


text \<open>C15: What type-checking makes of a query it accepts, all the way down: exactly the query that
  \<open>Blocks_gapped\<close> writes down. In every string of blocks whose range type is the multiple one, a gap
  is put between two items unless one of them is a gap or a power block or an exclamation mark
  joins them, and in no other string. The range type of a string is that of the context at the top, the one of the object
  for a string directly inside an object, the single one for a string inside a gap, and that of the
  string around it for a string in brackets. The object blocks stay what and where they were, but
  for the places of the features to be retrieved, which are their places in the list and in the table
  of the block; their comparisons and sets of monads are typed. The query stays well placed. The
  copies of the blocks that matched objects will refer to are made in the order the blocks are
  visited.\<close>

theorem type_places_gaps_and_features:
  assumes "Topograph_type t column rng = Inr (t', True, True)"
  shows "t' = Blocks_gapped t rng \<and>
    (\<forall>b2 r. BlockString2_items (BlockString2_gapped b2 r) =
       (let xs = map (apsnd (\<lambda>b1. BlockString1_gapped b1 r)) (BlockString2_links b2)
        in if r = kORTMultipleRange then with_gaps xs else map snd xs)) \<and>
    list_all2 object_typed (objects (Blocks_parts t)) (objects (Blocks_parts t')) \<and>
    (Blocks_placed t \<longrightarrow> Blocks_placed t') \<and>
    Blocks_parts (fst (Blocks_addOBBToVec t' [])) = map obb_part (Blocks_parts t') \<and>
    snd (Blocks_addOBBToVec t' []) = obbs (Blocks_parts t')"
proof -
  note t = assms[unfolded Topograph_type_def]
  have "list_all2 object_typed (objects (Blocks_parts t)) (objects (Blocks_parts t'))"
    using type_contract(1)[of t column rng] t by (simp add: types_def)
  then show ?thesis
    using type_gapped(1)[OF t] gapped_items type_placed(1)[OF t] addOBBToVec_contract(1)[of t' "[]"] by (auto simp: copies_def)
qed

lemma demo_block_typed:
  "ObjectBlock_type (ObjectBlock (demo_ob nn n) None) (\<lambda>_. True) True = Inr (ObjectBlock (demo_ob nn n) None, True, True)"
proof -
  have "FFeatures_type (ffc_ffeatures (demo_constraint n)) = Inr (True, True)"
    by (simp add: demo_constraint_def FeatureComparison_type_cases type_value_def type_integer_def type_defs)
  then have "constraints_type (demo_ob nn n) True = Inr (True, True)" by (simp add: constraints_type_def demo_ob_def)
  moreover have "MonadSetRelationClause_type (ob_MSRC (demo_ob nn n))" by (simp add: MonadSetRelationClause_type_def demo_ob_def)
  moreover have "ob_Feature_retrieval_vec (demo_ob nn n) = []" "ob_object (demo_ob nn n) = [''surface'']"
    "(demo_ob nn n)\<lparr>ob_Feature_retrieval_vec := [], ob_object := [''surface'']\<rparr> = demo_ob nn n"
    by (simp_all add: demo_ob_def)
  ultimately show ?thesis by (simp add: ObjectBlock_type_info_def inner_type_def)
qed

lemma demo_ob_flag: "ob_bIsNOTEXIST (demo_ob nn n) = False"
  by (simp add: demo_ob_def)

text \<open>A phrase of two words that may have a gap between them, in a context without gaps.\<close>

definition demo_phrase :: ObjectBlockInfo where
  "demo_phrase = (demo_ob 3 1)\<lparr>ob_objectRangeType := kORTMultipleRange\<rparr>"

abbreviation demo_item :: "int \<Rightarrow> BlockString1" where
  "demo_item n \<equiv> object_block_string (demo_ob n n) None"

lemma demo_query_gapped:
  "Blocks_gapped demo_query kORTMultipleRange = Blocks_string (BlockString_bs2
     (BlockString2_seq (bs2_info 9) (demo_item 1) (BlockString2_seq inserted_string inserted_gap
        (BlockString2_bs1 (bs2_info 0) (demo_item 2))))) None"
proof -
  have "featured (demo_ob nn n) = demo_ob nn n" for nn n by (simp add: featured_def names_with_def demo_ob_def)
  then show ?thesis
    by (simp add: demo_query_def two_blocks_def object_block_string_def gap_between_def near_def bs2_info_def)
qed

theorem type_places_gaps_and_features_witness:
  "\<exists>inner. Topograph_type (one_block demo_phrase (Some demo_query)) (\<lambda>_. True) kORTSingleRange =
       Inr (one_block demo_phrase (Some inner), True, True) \<and>
     inner = Blocks_string (BlockString_bs2 (BlockString2_seq (bs2_info 9) (demo_item 1)
       (BlockString2_seq inserted_string inserted_gap (BlockString2_bs1 (bs2_info 0) (demo_item 2))))) None"
proof -
  let ?t = "one_block demo_phrase (Some demo_query)"
  have fields: "constraints_type demo_phrase True = Inr (True, True)" "MonadSetRelationClause_type (ob_MSRC demo_phrase)"
    "ob_Feature_retrieval_vec demo_phrase = []" "featured demo_phrase = demo_phrase" "ob_objectRangeType demo_phrase = kORTMultipleRange"
    by (simp_all add: demo_phrase_def demo_ob_def demo_constraint_def constraints_type_def FeatureComparison_type_cases type_value_def
        type_integer_def type_defs MonadSetRelationClause_type_def featured_def names_with_def)
  have inner: "\<exists>q. Blocks_type demo_query (\<lambda>_. True) kORTMultipleRange True = Inr (q, True, True)"
    by (simp add: demo_query_def two_blocks_def object_block_string_def demo_block_typed demo_ob_flag
        typed_map_def typed_end_def insert_gap_def inserted_gap_def inserted_string_def bs2_info_def del: ObjectBlock_type.simps)
  then obtain t' where t: "Topograph_type ?t (\<lambda>_. True) kORTSingleRange = Inr (t', True, True)"
    using fields(1-3,5) by (auto simp: Topograph_type_def one_block_def object_block_string_def ObjectBlock_type_info_def inner_type_def
        typed_map_def typed_end_def)
  then have "t' = Blocks_gapped ?t kORTSingleRange" using type_places_gaps_and_features by blast
  then have "t' = one_block demo_phrase (Some (Blocks_gapped demo_query kORTMultipleRange))"
    using fields(4,5) by (simp add: one_block_def object_block_string_def)
  then show ?thesis using t demo_query_gapped by simp
qed

end
