(* ===== verification/Checked_Props.thy ===== *)
theory Checked_Props
  imports FeatureTypes_Props
begin

text \<open>
  Checked queries can be run: what weeding and type-checking establish, together with what the
  database answered in between, gives the conditions under which the engine meets its reference
  semantics.
\<close>

section \<open>The answers of the database\<close>

text \<open>
  Between weeding and type-checking, the database is asked about the names in each object block, and
  the answers are written into it. This phase is a parameter: a function on object blocks that leaves
  alone what weeding has looked at.
\<close>

primrec Blocks_answer :: "(ObjectBlockInfo \<Rightarrow> ObjectBlockInfo) \<Rightarrow> Blocks \<Rightarrow> Blocks"
and BlockString_answer :: "(ObjectBlockInfo \<Rightarrow> ObjectBlockInfo) \<Rightarrow> BlockString \<Rightarrow> BlockString"
and BlockString2_answer :: "(ObjectBlockInfo \<Rightarrow> ObjectBlockInfo) \<Rightarrow> BlockString2 \<Rightarrow> BlockString2"
and BlockString1_answer :: "(ObjectBlockInfo \<Rightarrow> ObjectBlockInfo) \<Rightarrow> BlockString1 \<Rightarrow> BlockString1"
and BlockString0_answer :: "(ObjectBlockInfo \<Rightarrow> ObjectBlockInfo) \<Rightarrow> BlockString0 \<Rightarrow> BlockString0"
and Block_answer :: "(ObjectBlockInfo \<Rightarrow> ObjectBlockInfo) \<Rightarrow> Block \<Rightarrow> Block"
and GapBlock_answer :: "(ObjectBlockInfo \<Rightarrow> ObjectBlockInfo) \<Rightarrow> GapBlock \<Rightarrow> GapBlock"
and ObjectBlock_answer :: "(ObjectBlockInfo \<Rightarrow> ObjectBlockInfo) \<Rightarrow> ObjectBlock \<Rightarrow> ObjectBlock"
and ObjectBlockString_answer :: "(ObjectBlockInfo \<Rightarrow> ObjectBlockInfo) \<Rightarrow> ObjectBlockString \<Rightarrow> ObjectBlockString" where
  "Blocks_answer h (Blocks_string bs ur) = Blocks_string (BlockString_answer h bs) ur"
| "Blocks_answer h (Blocks_unordered obs) = Blocks_unordered (ObjectBlockString_answer h obs)"
| "BlockString_answer h (BlockString_bs2 b2) = BlockString_bs2 (BlockString2_answer h b2)"
| "BlockString_answer h (BlockString_or b2 bs) = BlockString_or (BlockString2_answer h b2) (BlockString_answer h bs)"
| "BlockString2_answer h (BlockString2_bs1 n b1) = BlockString2_bs1 n (BlockString1_answer h b1)"
| "BlockString2_answer h (BlockString2_seq n b1 b2) = BlockString2_seq n (BlockString1_answer h b1) (BlockString2_answer h b2)"
| "BlockString1_answer h (BlockString1_bs0 b0) = BlockString1_bs0 (BlockString0_answer h b0)"
| "BlockString1_answer h (BlockString1_star b0 mse som) = BlockString1_star (BlockString0_answer h b0) mse som"
| "BlockString0_answer h (BlockString0_block b) = BlockString0_block (Block_answer h b)"
| "BlockString0_answer h (BlockString0_string bs) = BlockString0_string (BlockString_answer h bs)"
| "Block_answer h (kOptGapBlock g) = kOptGapBlock (GapBlock_answer h g)"
| "Block_answer h (kGapBlock g) = kGapBlock (GapBlock_answer h g)"
| "Block_answer h (kPowerBlock p) = kPowerBlock p"
| "Block_answer h (kObjectBlock ob) = kObjectBlock (ObjectBlock_answer h ob)"
| "Block_answer h (kObjectBlockNOTEXIST ob) = kObjectBlockNOTEXIST (ObjectBlock_answer h ob)"
| "GapBlock_answer h (GapBlock g opt_blocks) = GapBlock g (map_option (Blocks_answer h) opt_blocks)"
| "ObjectBlock_answer h (ObjectBlock ob opt_blocks) = ObjectBlock (h ob) (map_option (Blocks_answer h) opt_blocks)"
| "ObjectBlockString_answer h (ObjectBlockString_one ob) = ObjectBlockString_one (ObjectBlock_answer h ob)"
| "ObjectBlockString_answer h (ObjectBlockString_more obs ob) =
     ObjectBlockString_more (ObjectBlockString_answer h obs) (ObjectBlock_answer h ob)"

definition pattern_kept :: "FeatureComparison \<Rightarrow> FeatureComparison \<Rightarrow> bool" where
  "pattern_kept fc fc' \<longleftrightarrow> fc_comparison_op fc' = fc_comparison_op fc \<and> (tilde fc \<longrightarrow> fc_value fc' = fc_value fc)"

definition answers_only :: "(ObjectBlockInfo \<Rightarrow> ObjectBlockInfo) \<Rightarrow> bool" where
  "answers_only h \<longleftrightarrow> (\<forall>ob. ob_nn (h ob) = ob_nn ob \<and> ob_bIsNOTEXIST (h ob) = ob_bIsNOTEXIST ob \<and>
     ob_first_last (h ob) = ob_first_last ob \<and> ob_object_reference_lower (h ob) = ob_object_reference_lower ob \<and>
     list_all2 pattern_kept (ob_comparisons ob) (ob_comparisons (h ob)))"

definition answer_part :: "(ObjectBlockInfo \<Rightarrow> ObjectBlockInfo) \<Rightarrow> part \<Rightarrow> part" where
  "answer_part h q = (case q of P_object b ob \<Rightarrow> P_object b (h ob) | _ \<Rightarrow> q)"

lemma answer_part_simps [simp]:
  "answer_part h (P_string n) = P_string n" "answer_part h (P_gap g) = P_gap g" "answer_part h (P_object b ob) = P_object b (h ob)"
  by (simp_all add: answer_part_def)

lemma answer_parts:
  "Blocks_parts (Blocks_answer h bl) = map (answer_part h) (Blocks_parts bl)"
  "BlockString_parts (BlockString_answer h bs) = map (answer_part h) (BlockString_parts bs)"
  "BlockString2_parts (BlockString2_answer h b2) = map (answer_part h) (BlockString2_parts b2)"
  "BlockString1_parts (BlockString1_answer h b1) = map (answer_part h) (BlockString1_parts b1)"
  "BlockString0_parts (BlockString0_answer h b0) = map (answer_part h) (BlockString0_parts b0)"
  "Block_parts (Block_answer h bk) = map (answer_part h) (Block_parts bk)"
  "GapBlock_parts (GapBlock_answer h gb) = map (answer_part h) (GapBlock_parts gb)"
  "ObjectBlock_parts (ObjectBlock_answer h ob) b = map (answer_part h) (ObjectBlock_parts ob b)"
  "ObjectBlockString_parts (ObjectBlockString_answer h obs) = map (answer_part h) (ObjectBlockString_parts obs)"
proof (induction bl and bs and b2 and b1 and b0 and bk and gb and ob and obs
    arbitrary: and and and and and and and b and)
  case (GapBlock g opt)
  then show ?case by (cases opt) auto
next
  case (ObjectBlock j opt)
  then show ?case by (cases opt) auto
qed simp_all

lemma Block_answer_shape [simp]:
  "isGapOrOptGapBlock (Block_answer h b) = isGapOrOptGapBlock b" "isPowerBlock (Block_answer h b) = isPowerBlock b"
  by (cases b; simp)+

lemma BlockString1_answer_shape [simp]:
  "bs1_is_gap (BlockString1_answer h b1) = bs1_is_gap b1" "bs1_is_power (BlockString1_answer h b1) = bs1_is_power b1"
proof -
  have "block_is isGapOrOptGapBlock (BlockString0_answer h b0) = block_is isGapOrOptGapBlock b0"
    "block_is isPowerBlock (BlockString0_answer h b0) = block_is isPowerBlock b0" for b0
    by (cases b0; simp)+
  then show "bs1_is_gap (BlockString1_answer h b1) = bs1_is_gap b1" "bs1_is_power (BlockString1_answer h b1) = bs1_is_power b1"
    by (cases b1; simp add: bs1_is_gap_def bs1_is_power_def)+
qed

lemma answer_first_power:
  "(bl :: Blocks) = bl"
  "BlockString_firstBlockIsPower (BlockString_answer h bs) = BlockString_firstBlockIsPower bs"
  "BlockString2_firstBlockIsPower (BlockString2_answer h b2) = BlockString2_firstBlockIsPower b2"
  "BlockString1_firstBlockIsPower (BlockString1_answer h b1) = BlockString1_firstBlockIsPower b1"
  "BlockString0_firstBlockIsPower (BlockString0_answer h b0) = BlockString0_firstBlockIsPower b0"
  "(bk :: Block) = bk" "(gb :: GapBlock) = gb" "(ob :: ObjectBlock) = ob" "(obs :: ObjectBlockString) = obs"
proof (induction bl and bs and b2 and b1 and b0 and bk and gb and ob and obs)
  case (BlockString0_block b)
  then show ?case by (cases b) auto
qed simp_all

lemma ObjectBlock_answer_info [simp]: "ob_info (ObjectBlock_answer h ob) = h (ob_info ob)"
  by (cases ob) simp

lemma answer_star_allowed: "answers_only h \<Longrightarrow> star_allowed (BlockString0_answer h b0) = star_allowed b0"
proof (cases b0)
  case (BlockString0_block b)
  then show "answers_only h \<Longrightarrow> ?thesis"
    by (cases b) (simp_all add: star_allowed_info answers_only_def del: star_allowed.simps(2))
qed simp

lemma answer_placed:
  assumes "answers_only h"
  shows
  "Blocks_placed (Blocks_answer h bl) = Blocks_placed bl"
  "BlockString_placed (BlockString_answer h bs) f l = BlockString_placed bs f l"
  "BlockString2_placed (BlockString2_answer h b2) f l g p = BlockString2_placed b2 f l g p"
  "BlockString1_placed (BlockString1_answer h b1) f l g p = BlockString1_placed b1 f l g p"
  "BlockString0_placed (BlockString0_answer h b0) f l g p = BlockString0_placed b0 f l g p"
  "Block_placed (Block_answer h bk) f l = Block_placed bk f l"
  "GapBlock_placed (GapBlock_answer h gb) = GapBlock_placed gb"
  "ObjectBlock_placed (ObjectBlock_answer h ob) f l = ObjectBlock_placed ob f l"
  "ObjectBlockString_placed (ObjectBlockString_answer h obs) = ObjectBlockString_placed obs"
proof (induction bl and bs and b2 and b1 and b0 and bk and gb and ob and obs
    arbitrary: and f l and f l g p and f l g p and f l g p and f l and and f l and)
  case (GapBlock g opt)
  then show ?case by (cases opt) auto
next
  case (ObjectBlock j opt)
  then show ?case using assms by (cases opt) (auto simp: answers_only_def)
qed (simp_all add: answer_first_power answer_star_allowed[OF assms])

section \<open>What is left after each check\<close>

definition erase_part :: "part \<Rightarrow> part" where
  "erase_part q = (case q of P_string n \<Rightarrow> P_string (erase_bs2 n) | P_object b ob \<Rightarrow> P_object b (erase_ob ob) | P_gap g \<Rightarrow> P_gap g)"

lemma erase_part_simps [simp]:
  "erase_part (P_string n) = P_string (erase_bs2 n)" "erase_part (P_gap g) = P_gap g" "erase_part (P_object b ob) = P_object b (erase_ob ob)"
  by (simp_all add: erase_part_def)

lemma erase_parts:
  "Blocks_parts (Blocks_erase bl) = map erase_part (Blocks_parts bl)"
  "BlockString_parts (BlockString_erase bs) = map erase_part (BlockString_parts bs)"
  "BlockString2_parts (BlockString2_erase b2) = map erase_part (BlockString2_parts b2)"
  "BlockString1_parts (BlockString1_erase b1) = map erase_part (BlockString1_parts b1)"
  "BlockString0_parts (BlockString0_erase b0) = map erase_part (BlockString0_parts b0)"
  "Block_parts (Block_erase bk) = map erase_part (Block_parts bk)"
  "GapBlock_parts (GapBlock_erase gb) = map erase_part (GapBlock_parts gb)"
  "ObjectBlock_parts (ObjectBlock_erase ob) b = map erase_part (ObjectBlock_parts ob b)"
  "ObjectBlockString_parts (ObjectBlockString_erase obs) = map erase_part (ObjectBlockString_parts obs)"
proof (induction bl and bs and b2 and b1 and b0 and bk and gb and ob and obs
    arbitrary: and and and and and and and b and)
  case (GapBlock g opt)
  then show ?case by (cases opt) auto
next
  case (ObjectBlock j opt)
  then show ?case by (cases opt) auto
qed simp_all

lemma Block_erase_shape [simp]:
  "isGapOrOptGapBlock (Block_erase b) = isGapOrOptGapBlock b" "isPowerBlock (Block_erase b) = isPowerBlock b"
  by (cases b; simp)+

lemma BlockString1_erase_shape [simp]:
  "bs1_is_gap (BlockString1_erase b1) = bs1_is_gap b1" "bs1_is_power (BlockString1_erase b1) = bs1_is_power b1"
proof -
  have "block_is isGapOrOptGapBlock (BlockString0_erase b0) = block_is isGapOrOptGapBlock b0"
    "block_is isPowerBlock (BlockString0_erase b0) = block_is isPowerBlock b0" for b0
    by (cases b0; simp)+
  then show "bs1_is_gap (BlockString1_erase b1) = bs1_is_gap b1" "bs1_is_power (BlockString1_erase b1) = bs1_is_power b1"
    by (cases b1; simp add: bs1_is_gap_def bs1_is_power_def)+
qed

lemma erase_first_power:
  "(bl :: Blocks) = bl"
  "BlockString_firstBlockIsPower (BlockString_erase bs) = BlockString_firstBlockIsPower bs"
  "BlockString2_firstBlockIsPower (BlockString2_erase b2) = BlockString2_firstBlockIsPower b2"
  "BlockString1_firstBlockIsPower (BlockString1_erase b1) = BlockString1_firstBlockIsPower b1"
  "BlockString0_firstBlockIsPower (BlockString0_erase b0) = BlockString0_firstBlockIsPower b0"
  "(bk :: Block) = bk" "(gb :: GapBlock) = gb" "(ob :: ObjectBlock) = ob" "(obs :: ObjectBlockString) = obs"
proof (induction bl and bs and b2 and b1 and b0 and bk and gb and ob and obs)
  case (BlockString0_block b)
  then show ?case by (cases b) auto
qed simp_all

lemma erase_placed:
  "Blocks_placed (Blocks_erase bl) = Blocks_placed bl"
  "BlockString_placed (BlockString_erase bs) f l = BlockString_placed bs f l"
  "BlockString2_placed (BlockString2_erase b2) f l g p = BlockString2_placed b2 f l g p"
  "BlockString1_placed (BlockString1_erase b1) f l g p = BlockString1_placed b1 f l g p"
  "BlockString0_placed (BlockString0_erase b0) f l g p = BlockString0_placed b0 f l g p"
  "Block_placed (Block_erase bk) f l = Block_placed bk f l"
  "GapBlock_placed (GapBlock_erase gb) = GapBlock_placed gb"
  "ObjectBlock_placed (ObjectBlock_erase ob) f l = ObjectBlock_placed ob f l"
  "ObjectBlockString_placed (ObjectBlockString_erase obs) = ObjectBlockString_placed obs"
proof (induction bl and bs and b2 and b1 and b0 and bk and gb and ob and obs
    arbitrary: and f l and f l g p and f l g p and f l g p and f l and and f l and)
  case (GapBlock g opt)
  then show ?case by (cases opt) auto
next
  case (ObjectBlock j opt)
  then show ?case by (cases opt) (auto simp: erase_ob_def)
qed (simp_all add: erase_first_power erase_star_allowed)

lemma objects_map:
  assumes "\<And>n. \<exists>m. h (P_string n) = P_string m" "\<And>g. \<exists>k. h (P_gap g) = P_gap k" "\<And>b ob. h (P_object b ob) = P_object b (k ob)"
  shows "objects (map h ps) = map (apsnd k) (objects ps)"
proof (induction ps)
  case (Cons q ps)
  then show ?case using assms by (cases q) (metis (no_types, lifting) apsnd_conv list.map objects_simps(3,4,5))+
qed simp

lemma objects_maps:
  "objects (map erase_part ps) = map (apsnd erase_ob) (objects ps)"
  "objects (map (answer_part h) ps) = map (apsnd h) (objects ps)"
  "objects (map obb_part ps) = map (apsnd (\<lambda>ob. ob\<lparr>ob_pOBB := Some (ObjectBlock_OBB ob)\<rparr>)) (objects ps)"
  by (rule objects_map; simp)+

lemma patterns_objects: "patterns_ok c ps \<longleftrightarrow> (\<forall>(b, ob)\<in>set (objects ps). \<forall>fc\<in>set (ob_comparisons ob). pattern_ok c fc)"
proof (induction ps)
  case (Cons q ps)
  then show ?case by (cases q) auto
qed simp

lemma parsed_objects: "parsed ps \<Longrightarrow> (b, ob) \<in> set (objects ps) \<Longrightarrow> ob_bIsNOTEXIST ob = b"
proof (induction ps)
  case (Cons q ps)
  then show ?case by (cases q) auto
qed simp

definition object_numbers :: "part list \<Rightarrow> int list" where
  "object_numbers ps = map (\<lambda>(b, ob). ob_nn ob) (objects ps)"

lemma object_numbers_numbered: "set (object_numbers ps) \<subseteq> set (concat (map part_numbers ps)) \<and>
    (distinct (concat (map part_numbers ps)) \<longrightarrow> distinct (object_numbers ps))"
proof (induction ps)
  case (Cons q ps)
  then show ?case by (cases q) (auto simp: object_numbers_def part_numbers_def ob_nn_def)
qed (simp add: object_numbers_def)

lemma erase_ob_keeps:
  "erase_ob ob' = erase_ob ob \<Longrightarrow> ob_bIsNOTEXIST ob' = ob_bIsNOTEXIST ob \<and> ob_comparisons ob' = ob_comparisons ob"
proof -
  have c: "ob_comparisons (erase_ob o1) = ob_comparisons o1" "ob_bIsNOTEXIST (erase_ob o1) = ob_bIsNOTEXIST o1" for o1
    by (auto simp: ob_comparisons_def erase_ob_def erase_constraint_def split: option.splits)
  show "erase_ob ob' = erase_ob ob \<Longrightarrow> ob_bIsNOTEXIST ob' = ob_bIsNOTEXIST ob \<and> ob_comparisons ob' = ob_comparisons ob"
    using c by metis
qed

text \<open>After weeding: placed, with different numbers, and the patterns compile.\<close>

definition weed_state :: "(string \<Rightarrow> bool) \<Rightarrow> Blocks \<Rightarrow> bool" where
  "weed_state c t \<longleftrightarrow> Blocks_placed t \<and> distinct (object_numbers (Blocks_parts t)) \<and>
    (\<forall>(b, ob)\<in>set (objects (Blocks_parts t)). ob_bIsNOTEXIST ob = b \<and> (\<forall>fc\<in>set (ob_comparisons ob). pattern_ok c fc))"

lemma weeded:
  assumes "parsed (Blocks_parts t)" "Topograph_weed t c weed_start = Inr (t1, st1)" "ws_bResult st1"
  shows "weed_state c t1"
proof -
  have w: "weeds Blocks_erase Blocks_parts Blocks_flagged t (Blocks_placed t \<and> patterns_ok c (Blocks_parts t)) weed_start (t1, st1)"
    using weed_contract(1)[OF assms(1), of weed_start c "-1"] assms(2) by (auto simp: Topograph_weed_def weed_start_def)
  then have e: "Blocks_erase t1 = Blocks_erase t" and p: "Blocks_placed t" "patterns_ok c (Blocks_parts t)"
    and n: "distinct (concat (map part_numbers (Blocks_parts t1)))"
    using assms(3) by (auto simp: weeds_pair numbered_def)
  have "map erase_part (Blocks_parts t1) = map erase_part (Blocks_parts t)" using e by (metis erase_parts(1))
  then have o: "map (apsnd erase_ob) (objects (Blocks_parts t1)) = map (apsnd erase_ob) (objects (Blocks_parts t))"
    by (metis objects_maps(1))
  have "ob_bIsNOTEXIST ob = b \<and> (\<forall>fc\<in>set (ob_comparisons ob). pattern_ok c fc)" if "(b, ob) \<in> set (objects (Blocks_parts t1))" for b ob
  proof -
    have "(b, erase_ob ob) \<in> set (map (apsnd erase_ob) (objects (Blocks_parts t)))" using that unfolding o[symmetric] by force
    then obtain ob0 where "(b, ob0) \<in> set (objects (Blocks_parts t))" "erase_ob ob = erase_ob ob0" by auto
    with erase_ob_keeps[of ob ob0] parsed_objects[OF assms(1)] p(2) show ?thesis by (auto simp: patterns_objects)
  qed
  moreover have "Blocks_placed t1" using e p(1) erase_placed(1) by metis
  ultimately show ?thesis unfolding weed_state_def using object_numbers_numbered n by blast
qed

text \<open>What is known of an object block once all checks are through.\<close>

definition ready :: "(string \<Rightarrow> bool) \<Rightarrow> bool \<Rightarrow> ObjectBlockInfo \<Rightarrow> bool" where
  "ready c b ob \<longleftrightarrow> ob_bIsNOTEXIST ob = b \<and>
     (\<forall>fc\<in>set (ob_comparisons ob). pattern_ok c fc \<and> FeatureComparison_type fc = Inr (True, True)) \<and>
     map ft_list_index (ob_Feature_retrieval_vec ob) = [0..<length (ob_Feature_retrieval_vec ob)] \<and>
     (\<forall>f\<in>set (ob_Feature_retrieval_vec ob). 0 \<le> ft_feature_index_inst f \<and> nat (ft_feature_index_inst f) < length (ob_object ob)) \<and>
     (\<exists>p. ob_pOBB ob = Some p \<and> length (obb_Feature_retrieval_vec p) = length (ob_Feature_retrieval_vec ob))"

definition all_ready :: "(string \<Rightarrow> bool) \<Rightarrow> part list \<Rightarrow> bool" where
  "all_ready c ps \<longleftrightarrow> (\<forall>(b, ob)\<in>set (objects ps). ready c b ob) \<and> (\<forall>g. P_gap g \<in> set ps \<longrightarrow> gb_pOBB g \<noteq> None)"

lemma all_ready_simps [simp]:
  "all_ready c []" "all_ready c (ps @ qs) = (all_ready c ps \<and> all_ready c qs)" "all_ready c (P_string n # ps) = all_ready c ps"
  "all_ready c (P_object b ob # ps) = (ready c b ob \<and> all_ready c ps)"
  "all_ready c (P_gap g # ps) = (gb_pOBB g \<noteq> None \<and> all_ready c ps)"
  by (auto simp: all_ready_def)

lemma monadsBuildSet_ok:
  assumes "\<forall>(a, b)\<in>set mse. 0 \<le> a \<and> a \<le> b \<and> b \<le> MAX_MONAD" "som_wf s"
  shows "returns (monadsBuildSet mse s) (\<lambda>t. som_wf t \<and> som_set t = som_set s \<union> (\<Union>(a, b)\<in>set mse. {a..b}))"
proof -
  have "returns (monadsBuildSet mse s) (\<lambda>t. som_wf t \<and> som_set t = foldl (\<lambda>A x. A \<union> (case x of (a, b) \<Rightarrow> {a..b})) (som_set s) mse)"
    unfolding monadsBuildSet_def
    by (rule foldM_res_refines[where R = "\<lambda>t A. som_wf t \<and> som_set t = A"])
      (use assms add_range_returns in \<open>auto elim!: returns_mono\<close>)
  then show ?thesis by (simp add: foldl_union_image)
qed

lemma star_set_ok:
  assumes "\<forall>(a, b)\<in>set mse. a \<le> b" "mse \<noteq> []" "\<forall>(a, b)\<in>set mse. 0 \<le> a \<and> b \<le> MAX_MONAD"
    "monadsBuildSet mse SetOfMonads_empty = Inr som"
  shows "som_wf som \<and> monad_ms som \<noteq> []"
proof -
  have "\<forall>(a, b)\<in>set mse. 0 \<le> a \<and> a \<le> b \<and> b \<le> MAX_MONAD" using assms(1,3) by auto
  from monadsBuildSet_ok[OF this, of SetOfMonads_empty] assms(4)
  have w: "som_wf som" "som_set som = (\<Union>(a, b)\<in>set mse. {a..b})" by (simp_all add: som_wf_empty)
  obtain a b where "(a, b) \<in> set mse" using assms(2) by (cases mse) auto
  then have "a \<in> som_set som" using w(2) assms(1) by (auto intro!: bexI[of _ "(a, b)"])
  then show ?thesis using w(1) by (auto simp: som_set_def)
qed

lemma ob_comparisons_unaffected:
  "ob_comparisons (ob\<lparr>ob_Feature_retrieval_vec := fs, ob_object := names\<rparr>) = ob_comparisons ob"
  "ob_comparisons (ob\<lparr>ob_pOBB := p\<rparr>) = ob_comparisons ob"
  by (simp_all add: ob_comparisons_def)

lemma ob_nn_unaffected:
  "ob_nn (ob\<lparr>ob_Feature_retrieval_vec := fs, ob_object := names\<rparr>) = ob_nn ob" "ob_nn (ob\<lparr>ob_pOBB := p\<rparr>) = ob_nn ob"
  by (simp_all add: ob_nn_def)

lemma pattern_kept_ok: "pattern_kept fc fc' \<Longrightarrow> pattern_ok c fc \<Longrightarrow> pattern_ok c fc'"
  by (auto simp: pattern_kept_def pattern_ok_def tilde_def)

lemma answered_patterns:
  assumes "answers_only h" "\<forall>fc\<in>set (ob_comparisons ob). pattern_ok c fc"
  shows "\<forall>fc\<in>set (ob_comparisons (h ob)). pattern_ok c fc"
proof
  fix fc' assume "fc' \<in> set (ob_comparisons (h ob))"
  then obtain i where i: "i < length (ob_comparisons (h ob))" "fc' = ob_comparisons (h ob) ! i" by (auto simp: in_set_conv_nth)
  have "list_all2 pattern_kept (ob_comparisons ob) (ob_comparisons (h ob))" using assms(1) by (simp add: answers_only_def)
  then have "pattern_kept (ob_comparisons ob ! i) fc'" "i < length (ob_comparisons ob)" using i by (auto simp: list_all2_conv_all_nth)
  then show "pattern_ok c fc'" using assms(2) pattern_kept_ok by (metis nth_mem)
qed

lemma typed_ready:
  assumes "object_typed (b, ob) (b', ob')" "ob_bIsNOTEXIST ob = b" "\<forall>fc\<in>set (ob_comparisons ob). pattern_ok c fc"
  shows "b' = b \<and> ob_nn ob' = ob_nn ob \<and> ready c b (ob'\<lparr>ob_pOBB := Some (ObjectBlock_OBB ob')\<rparr>)"
proof -
  obtain fs names where o: "b' = b" "ob' = ob\<lparr>ob_Feature_retrieval_vec := fs, ob_object := names\<rparr>"
    "places_features 0 (ob_Feature_retrieval_vec ob) (ob_object ob) fs names"
    "\<forall>fc\<in>set (ob_comparisons ob). FeatureComparison_type fc = Inr (True, True)"
    using assms(1) by (auto simp: object_typed_def)
  have ix: "\<forall>f\<in>set fs. 0 \<le> ft_feature_index_inst f \<and> nat (ft_feature_index_inst f) < length names"
    using o(3) unfolding places_features_def by (metis nat_int of_nat_0_le_iff)
  have li: "map ft_list_index fs = [0..<length fs]" using o(3) by (simp add: places_features_def)
  have c: "ob_comparisons (ob'\<lparr>ob_pOBB := p\<rparr>) = ob_comparisons ob" "ob_nn ob' = ob_nn ob" for p
    by (simp_all add: o(2) ob_comparisons_unaffected ob_nn_unaffected)
  have r: "ready c b (ob'\<lparr>ob_pOBB := Some (ObjectBlock_OBB ob')\<rparr>)" unfolding ready_def c
    using ix li o(4) assms(2,3) by (simp add: o(2) ObjectBlock_OBB_def)
  show ?thesis using o(1) c(2) r by simp
qed

text \<open>The four phases one after the other.\<close>

lemma checked:
  assumes "weed_state c t1" "answers_only h" "Topograph_type (Blocks_answer h t1) column rng = Inr (t2, True, True)"
  shows "Blocks_placed (fst (Blocks_addOBBToVec t2 v)) \<and> distinct (object_numbers (Blocks_parts (fst (Blocks_addOBBToVec t2 v)))) \<and>
    all_ready c (Blocks_parts (fst (Blocks_addOBBToVec t2 v)))"
proof -
  note w = assms(1)[unfolded weed_state_def] note a = assms(2)
  note ty = assms(3)[unfolded Topograph_type_def]
  let ?o1 = "objects (Blocks_parts t1)" and ?o2 = "objects (Blocks_parts t2)"
  let ?k = "\<lambda>ob. ob\<lparr>ob_pOBB := Some (ObjectBlock_OBB ob)\<rparr>"
  have tt: "list_all2 object_typed (map (apsnd h) ?o1) ?o2"
    using type_contract(1)[of "Blocks_answer h t1" column rng] ty by (simp add: types_def answer_parts(1) objects_maps)
  have parts: "Blocks_parts (fst (Blocks_addOBBToVec t2 v)) = map obb_part (Blocks_parts t2)"
    using addOBBToVec_contract(1)[of t2 v] by (simp add: copies_def)
  have each: "fst (?o2 ! i) = fst (?o1 ! i) \<and> ob_nn (snd (?o2 ! i)) = ob_nn (snd (?o1 ! i)) \<and> ready c (fst (?o2 ! i)) (?k (snd (?o2 ! i)))"
    if "i < length ?o1" for i
  proof -
    obtain b ob where o: "?o1 ! i = (b, ob)" by (cases "?o1 ! i")
    then have "(b, ob) \<in> set ?o1" using that nth_mem by metis
    with w have "ob_bIsNOTEXIST ob = b \<and> (\<forall>fc\<in>set (ob_comparisons ob). pattern_ok c fc)" by blast
    then have 1: "ob_bIsNOTEXIST (h ob) = b" "\<forall>fc\<in>set (ob_comparisons (h ob)). pattern_ok c fc" "ob_nn (h ob) = ob_nn ob"
      using a answered_patterns[OF a] by (auto simp: answers_only_def)
    have "object_typed (b, h ob) (?o2 ! i)" using tt that o by (auto simp: list_all2_conv_all_nth)
    then show ?thesis using typed_ready[OF _ 1(1,2)] 1(3) o by (cases "?o2 ! i") auto
  qed
  have len: "length ?o2 = length ?o1" using list_all2_lengthD[OF tt] by simp
  have "object_numbers (Blocks_parts (fst (Blocks_addOBBToVec t2 v))) = object_numbers (Blocks_parts t1)"
    unfolding parts object_numbers_def objects_maps
    by (rule nth_equalityI) (use each len in \<open>auto simp: case_prod_unfold ob_nn_unaffected apsnd_def map_prod_def\<close>)
  moreover have "all_ready c (Blocks_parts (fst (Blocks_addOBBToVec t2 v)))"
    unfolding all_ready_def parts objects_maps
  proof (intro conjI allI impI)
    show "\<forall>(b, ob)\<in>set (map (apsnd ?k) ?o2). ready c b ob"
    proof
      fix y assume "y \<in> set (map (apsnd ?k) ?o2)"
      then obtain i where i: "i < length ?o2" "y = apsnd ?k (?o2 ! i)" by (auto simp: in_set_conv_nth)
      then show "case y of (b, ob) \<Rightarrow> ready c b ob" using each[of i] len by (cases "?o2 ! i") simp
    qed
    fix g assume "P_gap g \<in> set (map obb_part (Blocks_parts t2))"
    then show "gb_pOBB g \<noteq> None" by (auto simp: obb_part_def split: part.splits)
  qed
  moreover have "Blocks_placed (fst (Blocks_addOBBToVec t2 v))"
    using w type_placed(1)[OF ty] answer_placed(1)[OF a] addOBB_placed(1) by blast
  ultimately show ?thesis using w by simp
qed

section \<open>Checked queries are well-formed\<close>

text \<open>
  What the checks do not look at: the data that the database gave for each object block, which is of
  the kinds that the types say; that limits of power blocks are within 32 bits; and what the
  reference semantics leaves out (overlap, references to non-parents, \<^verbatim>\<open>USING RANGE\<close>).
\<close>

definition ob_answered :: "schema \<Rightarrow> MQLExecEnv \<Rightarrow> tyenv \<Rightarrow> ObjectBlockInfo \<Rightarrow> bool" where
  "ob_answered K ee \<Gamma> ob \<longleftrightarrow>
     (let nn = ob_nn ob
      in length (ee_MQLObject ee nn) = length (K nn) \<and> length (ob_object ob) = length (K nn) \<and>
         (\<exists>i. ob_inst ob = Some i \<and> inst_ok ee (K nn) i) \<and>
         msrc_operation (ob_MSRC ob) \<noteq> kMSROOverlap \<and>
         (\<forall>k. ob_feature_constraints ob = Some k \<longrightarrow> \<not> ffc_hasNonParentORUs k) \<and>
         (\<forall>fc\<in>set (ob_comparisons ob). fc_parsed fc \<and> fc_symbols fc \<and> fc_scoped (\<Gamma>(nn \<mapsto> K nn)) nn fc \<and>
            \<not> type_gap fc \<and> \<not> som_in_list fc))"

lemma ready_answered:
  assumes "ready c b ob" "ob_answered K ee \<Gamma> ob" "\<Gamma> (ob_nn ob) = None"
  shows "ob_ok K ee \<Gamma> ob \<and> ob_bIsNOTEXIST ob = b"
proof -
  let ?\<Gamma> = "\<Gamma>(ob_nn ob \<mapsto> K (ob_nn ob))"
  have "fc_typed ?\<Gamma> (ob_nn ob) fc" if "fc \<in> set (ob_comparisons ob)" for fc
    by (rule accepted_typed[of c])
      (use assms(1,2) that in \<open>auto simp: ready_def ob_answered_def accepted_def Let_def simp del: fun_upd_apply\<close>)
  then have "constraint_ok ?\<Gamma> (ob_nn ob) (ob_feature_constraints ob)"
    using assms(2) by (auto simp: constraint_ok_def ob_answered_def ob_comparisons_def Let_def ff_typed_comparisons simp del: fun_upd_apply split: option.splits)
  moreover have "retrieval_ok (K (ob_nn ob)) ob" using assms(1,2) by (auto simp: retrieval_ok_def ready_def ob_answered_def Let_def)
  ultimately show ?thesis using assms by (auto simp: ob_ok_def ob_answered_def ready_def Let_def simp del: fun_upd_apply)
qed

primrec Blocks_answered :: "Blocks \<Rightarrow> schema \<Rightarrow> MQLExecEnv \<Rightarrow> tyenv \<Rightarrow> bool"
and BlockString_answered :: "BlockString \<Rightarrow> schema \<Rightarrow> MQLExecEnv \<Rightarrow> tyenv \<Rightarrow> bool"
and BlockString2_answered :: "BlockString2 \<Rightarrow> schema \<Rightarrow> MQLExecEnv \<Rightarrow> tyenv \<Rightarrow> bool"
and BlockString1_answered :: "BlockString1 \<Rightarrow> schema \<Rightarrow> MQLExecEnv \<Rightarrow> tyenv \<Rightarrow> bool"
and BlockString0_answered :: "BlockString0 \<Rightarrow> schema \<Rightarrow> MQLExecEnv \<Rightarrow> tyenv \<Rightarrow> bool"
and Block_answered :: "Block \<Rightarrow> schema \<Rightarrow> MQLExecEnv \<Rightarrow> tyenv \<Rightarrow> bool"
and GapBlock_answered :: "GapBlock \<Rightarrow> schema \<Rightarrow> MQLExecEnv \<Rightarrow> tyenv \<Rightarrow> bool"
and ObjectBlock_answered :: "ObjectBlock \<Rightarrow> schema \<Rightarrow> MQLExecEnv \<Rightarrow> tyenv \<Rightarrow> bool"
and ObjectBlockString_answered :: "ObjectBlockString \<Rightarrow> schema \<Rightarrow> MQLExecEnv \<Rightarrow> tyenv \<Rightarrow> bool" where
  "Blocks_answered (Blocks_string bs ur) K ee \<Gamma> = (ur = None \<and> BlockString_answered bs K ee \<Gamma>)"
| "Blocks_answered (Blocks_unordered obs) K ee \<Gamma> = ObjectBlockString_answered obs K ee \<Gamma>"
| "BlockString_answered (BlockString_bs2 b2) K ee \<Gamma> = BlockString2_answered b2 K ee \<Gamma>"
| "BlockString_answered (BlockString_or b2 bs) K ee \<Gamma> = (BlockString2_answered b2 K ee \<Gamma> \<and> BlockString_answered bs K ee \<Gamma>)"
| "BlockString2_answered (BlockString2_bs1 n b1) K ee \<Gamma> = BlockString1_answered b1 K ee \<Gamma>"
| "BlockString2_answered (BlockString2_seq n b1 b2) K ee \<Gamma> = (BlockString1_answered b1 K ee \<Gamma> \<and> BlockString2_answered b2 K ee \<Gamma>)"
| "BlockString1_answered (BlockString1_bs0 b0) K ee \<Gamma> = BlockString0_answered b0 K ee \<Gamma>"
| "BlockString1_answered (BlockString1_star b0 mse som) K ee \<Gamma> =
     (BlockString0_answered b0 K ee \<Gamma> \<and> mse \<noteq> [] \<and> (\<forall>(a, b)\<in>set mse. 0 \<le> a \<and> b \<le> MAX_MONAD) \<and>
      monadsBuildSet mse SetOfMonads_empty = Inr som)"
| "BlockString0_answered (BlockString0_block b) K ee \<Gamma> = Block_answered b K ee \<Gamma>"
| "BlockString0_answered (BlockString0_string bs) K ee \<Gamma> = BlockString_answered bs K ee \<Gamma>"
| "Block_answered (kOptGapBlock g) K ee \<Gamma> = GapBlock_answered g K ee \<Gamma>"
| "Block_answered (kGapBlock g) K ee \<Gamma> = GapBlock_answered g K ee \<Gamma>"
| "Block_answered (kPowerBlock p) K ee \<Gamma> = power_ok p"
| "Block_answered (kObjectBlock ob) K ee \<Gamma> = ObjectBlock_answered ob K ee \<Gamma>"
| "Block_answered (kObjectBlockNOTEXIST ob) K ee \<Gamma> = ObjectBlock_answered ob K ee \<Gamma>"
| "GapBlock_answered (GapBlock g opt_blocks) K ee \<Gamma> = pred_option (\<lambda>f. f K ee \<Gamma>) (map_option Blocks_answered opt_blocks)"
| "ObjectBlock_answered (ObjectBlock ob opt_blocks) K ee \<Gamma> =
     (ob_answered K ee \<Gamma> ob \<and> pred_option (\<lambda>f. f K ee (\<Gamma>(ob_nn ob \<mapsto> K (ob_nn ob)))) (map_option Blocks_answered opt_blocks))"
| "ObjectBlockString_answered (ObjectBlockString_one ob) K ee \<Gamma> = ObjectBlock_answered ob K ee \<Gamma>"
| "ObjectBlockString_answered (ObjectBlockString_more obs ob) K ee \<Gamma> =
     (ObjectBlockString_answered obs K ee \<Gamma> \<and> ObjectBlock_answered ob K ee \<Gamma>)"

lemma power_iff: "bs1_is_power b1 \<longleftrightarrow> (\<exists>p. firstBlockPower b1 = Some p)"
  by (cases b1 rule: firstBlockPower.cases) (auto simp: bs1_is_power_def)

lemma power_answered: "firstBlockPower (getBlockString1 b2) = Some p \<Longrightarrow> BlockString2_answered b2 K ee \<Gamma> \<Longrightarrow> power_ok p"
  by (cases b2; cases "getBlockString1 b2" rule: firstBlockPower.cases) auto

lemma near_power: "BlockString2_placed b2 f l g True \<Longrightarrow> \<not> bs1_is_power (getBlockString1 b2)"
  by (cases b2; cases "getBlockString1 b2"; cases "getBlockString0 (getBlockString1 b2)") (auto simp: bs1_is_power_def)

lemma first_power: "bs1_is_power (getBlockString1 b2) \<Longrightarrow> BlockString2_firstBlockIsPower b2"
  by (cases b2; cases "getBlockString1 b2"; cases "getBlockString0 (getBlockString1 b2)") (auto simp: bs1_is_power_def)

definition fresh :: "tyenv \<Rightarrow> part list \<Rightarrow> bool" where
  "fresh \<Gamma> ps \<longleftrightarrow> distinct (object_numbers ps) \<and> (\<forall>n\<in>set (object_numbers ps). \<Gamma> n = None)"

lemma object_numbers_simps [simp]:
  "object_numbers [] = []" "object_numbers (ps @ qs) = object_numbers ps @ object_numbers qs"
  "object_numbers (P_string n # ps) = object_numbers ps" "object_numbers (P_gap g # ps) = object_numbers ps"
  "object_numbers (P_object b ob # ps) = ob_nn ob # object_numbers ps"
  by (simp_all add: object_numbers_def)

lemma fresh_append: "fresh \<Gamma> (ps @ qs) \<Longrightarrow> fresh \<Gamma> ps \<and> fresh \<Gamma> qs"
  by (simp add: fresh_def)

lemma fresh_skip [simp]: "fresh \<Gamma> (P_string n # ps) = fresh \<Gamma> ps" "fresh \<Gamma> (P_gap g # ps) = fresh \<Gamma> ps"
  by (simp_all add: fresh_def)

lemma fresh_object: "fresh \<Gamma> (P_object b ob # ps) \<Longrightarrow> \<Gamma> (ob_nn ob) = None \<and> fresh (\<Gamma>(ob_nn ob \<mapsto> ks)) ps"
  by (auto simp: fresh_def)

lemma placed_ok:
  "Blocks_placed bl \<Longrightarrow> fresh \<Gamma> (Blocks_parts bl) \<Longrightarrow> all_ready c (Blocks_parts bl) \<Longrightarrow> Blocks_answered bl K ee \<Gamma> \<Longrightarrow> Blocks_ok bl K ee \<Gamma>"
  "BlockString_placed bs f l \<Longrightarrow> fresh \<Gamma> (BlockString_parts bs) \<Longrightarrow> all_ready c (BlockString_parts bs) \<Longrightarrow>
     BlockString_answered bs K ee \<Gamma> \<Longrightarrow> BlockString_ok bs K ee \<Gamma>"
  "BlockString2_placed b2 f l g p \<Longrightarrow> fresh \<Gamma> (BlockString2_parts b2) \<Longrightarrow> all_ready c (BlockString2_parts b2) \<Longrightarrow>
     BlockString2_answered b2 K ee \<Gamma> \<Longrightarrow>
     (if bs1_is_power (getBlockString1 b2) then snd (BlockString2_ok b2 K ee \<Gamma>) else fst (BlockString2_ok b2 K ee \<Gamma>))"
  "BlockString1_placed b1 f l g p \<Longrightarrow> fresh \<Gamma> (BlockString1_parts b1) \<Longrightarrow> all_ready c (BlockString1_parts b1) \<Longrightarrow>
     BlockString1_answered b1 K ee \<Gamma> \<Longrightarrow> \<not> bs1_is_power b1 \<Longrightarrow> BlockString1_ok b1 K ee \<Gamma>"
  "BlockString0_placed b0 f l g p \<Longrightarrow> fresh \<Gamma> (BlockString0_parts b0) \<Longrightarrow> all_ready c (BlockString0_parts b0) \<Longrightarrow>
     BlockString0_answered b0 K ee \<Gamma> \<Longrightarrow> \<not> block_is isPowerBlock b0 \<Longrightarrow> BlockString0_ok b0 K ee \<Gamma>"
  "Block_placed bk f l \<Longrightarrow> fresh \<Gamma> (Block_parts bk) \<Longrightarrow> all_ready c (Block_parts bk) \<Longrightarrow> Block_answered bk K ee \<Gamma> \<Longrightarrow>
     \<not> isPowerBlock bk \<Longrightarrow> Block_ok bk K ee \<Gamma>"
  "GapBlock_placed gb \<Longrightarrow> fresh \<Gamma> (GapBlock_parts gb) \<Longrightarrow> all_ready c (GapBlock_parts gb) \<Longrightarrow> GapBlock_answered gb K ee \<Gamma> \<Longrightarrow>
     GapBlock_ok gb K ee \<Gamma>"
  "ObjectBlock_placed ob f l \<Longrightarrow> fresh \<Gamma> (ObjectBlock_parts ob b) \<Longrightarrow> all_ready c (ObjectBlock_parts ob b) \<Longrightarrow>
     ObjectBlock_answered ob K ee \<Gamma> \<Longrightarrow> ObjectBlock_ok ob K ee \<Gamma> \<and> ob_bIsNOTEXIST (ob_info ob) = b"
  "ObjectBlockString_placed obs \<Longrightarrow> fresh \<Gamma> (ObjectBlockString_parts obs) \<Longrightarrow> all_ready c (ObjectBlockString_parts obs) \<Longrightarrow>
     ObjectBlockString_answered obs K ee \<Gamma> \<Longrightarrow> ObjectBlockString_ok obs K ee \<Gamma>"
proof (induction bl and bs and b2 and b1 and b0 and bk and gb and ob and obs
    arbitrary: \<Gamma> and f l \<Gamma> and f l g p \<Gamma> and f l g p \<Gamma> and f l g p \<Gamma> and f l \<Gamma> and \<Gamma> and f l b \<Gamma> and \<Gamma>)
  case (BlockString2_seq n b1 b2)
  let ?b = "getBlockString1 b2"
  note pr = BlockString2_seq.prems
  have p: "BlockString1_placed b1 f False g p" "BlockString2_placed b2 False l (bs1_is_gap b1) (bs1_is_power b1)"
    "fresh \<Gamma> (BlockString1_parts b1)" "fresh \<Gamma> (BlockString2_parts b2)" "all_ready c (BlockString1_parts b1)"
    "all_ready c (BlockString2_parts b2)" "BlockString1_answered b1 K ee \<Gamma>" "BlockString2_answered b2 K ee \<Gamma>"
    using pr by (auto dest!: fresh_append)
  have 2: "if bs1_is_power ?b then snd (BlockString2_ok b2 K ee \<Gamma>) else fst (BlockString2_ok b2 K ee \<Gamma>)"
    using BlockString2_seq.IH(2)[OF p(2,4,6,8)] .
  show ?case
  proof (cases "bs1_is_power b1")
    case True
    then show ?thesis using 2 near_power[of b2 False l "bs1_is_gap b1"] p(2) by simp
  next
    case False
    then have 1: "BlockString1_ok b1 K ee \<Gamma>" using BlockString2_seq.IH(1)[OF p(1,3,5,7)] by simp
    show ?thesis
    proof (cases "firstBlockPower ?b")
      case None
      with 1 2 False show ?thesis by (simp add: power_iff)
    next
      case (Some pw)
      with 1 2 False power_answered[OF Some p(8)] show ?thesis by (simp add: power_iff)
    qed
  qed
next
  case (BlockString1_star b0 mse som)
  show ?case using BlockString1_star.IH[of f l g p \<Gamma>] BlockString1_star.prems star_set_ok[of mse som]
    by (simp add: bs1_is_power_def)
next
  case (GapBlock g opt)
  then show ?case by (cases opt) auto
next
  case (ObjectBlock j opt)
  let ?\<Gamma> = "\<Gamma>(ob_nn j \<mapsto> K (ob_nn j))"
  have f: "\<Gamma> (ob_nn j) = None" "fresh ?\<Gamma> (option_parts (map_option Blocks_parts opt))"
    using fresh_object[OF ObjectBlock.prems(2)[unfolded ObjectBlock_parts.simps]] by simp_all
  have "Blocks_ok x K ee ?\<Gamma>" if "opt = Some x" for x
    by (rule ObjectBlock.IH) (use ObjectBlock.prems(1,3,4) f(2) that in \<open>simp_all del: fun_upd_apply\<close>)
  moreover have "ob_ok K ee \<Gamma> j \<and> ob_bIsNOTEXIST j = b"
    by (rule ready_answered[of c]) (use ObjectBlock.prems(3,4) f(1) in simp_all)
  ultimately show ?case using ObjectBlock.prems(4) by (cases opt) simp_all
next
  case (BlockString_bs2 b2)
  then show ?case using first_power[of b2] BlockString_bs2.IH[of f l False False \<Gamma>] by (auto split: if_splits)
next
  case (BlockString_or b2 bs)
  then show ?case using first_power[of b2] BlockString_or.IH(1)[of True True False False \<Gamma>]
    by (auto split: if_splits dest!: fresh_append)
next
  case (kObjectBlock ob)
  show ?case using kObjectBlock.IH[of f l \<Gamma> False] kObjectBlock.prems by simp
next
  case (kObjectBlockNOTEXIST ob)
  show ?case using kObjectBlockNOTEXIST.IH[of f l \<Gamma> True] kObjectBlockNOTEXIST.prems by simp
next
  case (ObjectBlockString_one ob)
  show ?case using ObjectBlockString_one.IH[of False False \<Gamma> False] ObjectBlockString_one.prems by simp
next
  case (ObjectBlockString_more obs ob)
  show ?case using ObjectBlockString_more.IH(1)[of \<Gamma>] ObjectBlockString_more.IH(2)[of False False \<Gamma> False] ObjectBlockString_more.prems
    by (auto dest!: fresh_append)
qed (auto simp: bs1_is_power_def dest!: fresh_append)

section \<open>From the parser to the sheaf\<close>

lemma checked_runs:
  assumes "weed_state c t1" "answers_only h" "Topograph_type (Blocks_answer h t1) column rng = Inr (t2, True, True)"
    "t3 = fst (Blocks_addOBBToVec t2 [])" "Blocks_answered t3 K e Map.empty" "extent_ok e U Su" "limit_ok mr"
    "ee_bContinueExecution e" "ee_pCallback e = None"
  shows "\<exists>ee. R_topograph e U Su mr t3 = Inr (Sheaf (Blocks_sem t3 e U Su mr), ee) \<and> sheaf_wf (Sheaf (Blocks_sem t3 e U Su mr))"
proof -
  have "Blocks_placed t3 \<and> fresh Map.empty (Blocks_parts t3) \<and> all_ready c (Blocks_parts t3)"
    using checked[OF assms(1-3), of "[]"] by (simp add: assms(4) fresh_def)
  then have "Blocks_ok t3 K e Map.empty" using placed_ok(1) assms(5) by blast
  from engine_returns[OF this assms(6-9)] show ?thesis by (auto simp: returns_iff)
qed

text \<open>C16: Checked queries run, for queries and runs of the following kind. The query has no
  \<^verbatim>\<open>USING RANGE\<close>, no object block with the overlap relation and no constraint with a reference to an
  object that is no parent: weeding and type-checking accept all three, and the engine then uses a list
  it has deleted or hits an assertion for the first, can throw for the second, and the semantics
  leaves out the third. The run has no callback. The phase of the names is not part of this claim, so the sets of monads of
  the stars are already in the parsed tree, built from their ranges, and what the database answered
  is a function \<open>h\<close> on object blocks that leaves alone what weeding has looked at. The data loaded for
  each block (\<open>Blocks_answered\<close>) is of the kinds that the types say, its comparisons are as the grammar
  makes them, their types are those of the tables, and none of them is one of the gaps of the check;
  limits of power blocks are in range. The substrate is within the database's monads. Then: if
  weeding accepts the query and type-checking accepts the answers, the engine returns, with exactly the
  sheaf that the checked query denotes.\<close>

theorem checked_queries_run:
  assumes "parsed (Blocks_parts t)" "Topograph_weed t c weed_start = Inr (t1, st1)" "ws_bResult st1" "answers_only h"
    "Topograph_type (Blocks_answer h t1) column rng = Inr (t2, True, True)" "t3 = fst (Blocks_addOBBToVec t2 [])"
    "Blocks_answered t3 K e Map.empty" "extent_ok e U Su" "limit_ok mr" "ee_bContinueExecution e" "ee_pCallback e = None"
  shows "\<exists>ee. R_topograph e U Su mr t3 = Inr (Sheaf (Blocks_sem t3 e U Su mr), ee) \<and> sheaf_wf (Sheaf (Blocks_sem t3 e U Su mr))"
  by (rule checked_runs[OF weeded[OF assms(1-3)] assms(4-11)])

text \<open>The query of two adjacent words again: as weeding leaves it, and as it is run.\<close>

definition demo_weeded :: "int \<Rightarrow> int \<Rightarrow> int \<Rightarrow> bool \<Rightarrow> ObjectBlockInfo" where
  "demo_weeded nn n p first = (demo_ob nn n)\<lparr>ob_pOBB := Some (demo_base n),
     ob_feature_constraints := Some ((demo_constraint n)\<lparr>ffc_node_number := nn + 1, ffc_block_string2_parent := p\<rparr>),
     ob_block_string2_parent := p, ob_bIsFirstInBlockString := first, ob_bIsLastInBlockString := \<not> first, ob_bIsAfterNonNOTEXIST := True\<rparr>"

definition demo_two :: "(int \<Rightarrow> int \<Rightarrow> int \<Rightarrow> bool \<Rightarrow> ObjectBlockInfo) \<Rightarrow> Blocks" where
  "demo_two h = Blocks_string (BlockString_bs2 (BlockString2_seq ((bs2_info 0)\<lparr>bs2_parent := -1\<rparr>) (object_block_string (h 1 1 0 True) None)
     (BlockString2_bs1 ((bs2_info 3)\<lparr>bs2_parent := -1\<rparr>) (object_block_string (h 4 2 3 False) None)))) None"

lemma demo_weeds: "\<exists>st1. Topograph_weed demo_query (\<lambda>_. True) weed_start = Inr (demo_two demo_weeded, st1) \<and> ws_bResult st1"
  by (simp add: Topograph_weed_def demo_query_def two_blocks_def weed_start_def ObjectBlock_weed_info_def ObjectBlock_mark_def
      getNextNodeNumber_def object_block_string_def map_weed_def Let_def met_def reject_def bs1_is_power_def bs1_is_gap_def
      first_last_allowed_def weedFeatureConstraints_def FeatureComparison_weed_def weed_inner_def demo_two_def demo_weeded_def
      demo_ob_def demo_base_def demo_constraint_def bs2_info_def)

lemma demo_weeded_typed:
  "ObjectBlock_type (ObjectBlock (demo_weeded nn n p first) None) (\<lambda>_. True) True = Inr (ObjectBlock (demo_weeded nn n p first) None, True, True)"
proof -
  let ?o = "demo_weeded nn n p first"
  have "FFeatures_type (ffc_ffeatures (demo_constraint n)) = Inr (True, True)"
    by (simp add: demo_constraint_def FeatureComparison_type_cases type_value_def type_integer_def type_defs)
  then have "constraints_type ?o True = Inr (True, True)" by (simp add: constraints_type_def demo_weeded_def)
  moreover have "MonadSetRelationClause_type (ob_MSRC ?o)" by (simp add: MonadSetRelationClause_type_def demo_weeded_def demo_ob_def)
  moreover have "ob_Feature_retrieval_vec ?o = []" "ob_object ?o = [''surface'']"
    "?o\<lparr>ob_Feature_retrieval_vec := [], ob_object := [''surface'']\<rparr> = ?o"
    by (simp_all add: demo_weeded_def demo_ob_def)
  ultimately show ?thesis by (simp add: ObjectBlock_type_info_def inner_type_def)
qed

definition demo_run :: "int \<Rightarrow> int \<Rightarrow> int \<Rightarrow> bool \<Rightarrow> ObjectBlockInfo" where
  "demo_run nn n p first = (demo_weeded nn n p first)\<lparr>ob_pOBB := Some (demo_base nn)\<rparr>"

lemma demo_answer_id: "Blocks_answer (\<lambda>ob. ob) (demo_two h) = demo_two h" "answers_only (\<lambda>ob. ob)"
  by (simp_all add: demo_two_def object_block_string_def answers_only_def list_all2_same pattern_kept_def)

lemma demo_types: "Topograph_type (demo_two demo_weeded) (\<lambda>_. True) kORTSingleRange = Inr (demo_two demo_weeded, True, True)"
  by (simp add: Topograph_type_def demo_two_def object_block_string_def demo_weeded_typed typed_map_def typed_end_def insert_gap_def
      bs2_info_def del: ObjectBlock_type.simps)

lemma demo_copies: "fst (Blocks_addOBBToVec (demo_two demo_weeded) []) = demo_two demo_run"
proof -
  have "ObjectBlock_OBB (demo_weeded nn n p first) = demo_base nn" for nn n p first
    by (simp add: ObjectBlock_OBB_def demo_weeded_def demo_ob_def demo_base_def)
  then show ?thesis by (simp add: demo_two_def object_block_string_def demo_run_def inner_OBB_def Let_def case_prod_unfold)
qed

lemma demo_run_answered: "Blocks_answered (demo_two demo_run) demo_kinds (demo_env None) Map.empty"
proof -
  have "ob_answered demo_kinds (demo_env None) \<Gamma> (demo_run nn n p first)" for \<Gamma> nn n p first
  proof -
    have i: "\<exists>i. ob_inst (demo_run nn n p first) = Some i \<and> inst_ok (demo_env None) [K_int] i"
      using demo_ob_ok[of None nn n] by (simp add: ob_ok_def Let_def demo_run_def demo_weeded_def demo_kinds_def)
    show ?thesis
      using i by (simp add: ob_answered_def Let_def demo_kinds_def) (simp add: demo_run_def demo_weeded_def demo_ob_def demo_base_def
          demo_env_def ob_comparisons_def demo_constraint_def ob_nn_def fc_parsed_def fc_list_def fc_symbols_def fc_scoped_def
          type_valid_def type_defs STRIP_ENUM_ID_OF_LOWER_BITS_def type_gap_def som_in_list_def)
  qed
  then show ?thesis by (simp add: demo_two_def object_block_string_def)
qed

theorem checked_queries_run_witness:
  "\<exists>ee. R_topograph (demo_env None) (solid 1 3) (solid 1 3) MAX_MONAD (demo_two demo_run) =
     Inr (Sheaf (Blocks_sem (demo_two demo_run) (demo_env None) (solid 1 3) (solid 1 3) MAX_MONAD), ee)"
proof -
  obtain st1 where w: "Topograph_weed demo_query (\<lambda>_. True) weed_start = Inr (demo_two demo_weeded, st1)" "ws_bResult st1"
    using demo_weeds by blast
  show ?thesis
    using checked_queries_run[OF demo_placed(1) w demo_answer_id(2) _ demo_copies[symmetric] demo_run_answered demo_query_ok(2) limit_ok_MAX
      demo_query_ok(3), of "\<lambda>_. True" kORTSingleRange] demo_types
    by (simp add: demo_answer_id demo_query_ok(4) del: ObjectBlock_type.simps)
qed

end
