(* ===== verification/References.thy ===== *)
theory References
  imports FeatureTypes
begin

text \<open>
  Names and references, the phase of checking a topographic query between weeding and type-checking:
  \<open>symbol\<close>, \<open>symbolObjectReferences\<close> and \<open>symbolObjectReferences2\<close> of \<^verbatim>\<open>MQL/mql_query.cpp\<close>. References are
  declared, once each and before they are used; a use must not cross a barrier; and each use finds out
  where its value will be: in the table of a block around it, or in a part of the straw matched so far.
  The database is a parameter, by its answers on the names in a block, a comparison and a reference.
  Errors of the database and the texts of the messages are left out, and so are the texts that
  narrow down what is loaded (\<^verbatim>\<open>calculatePreQueryString\<close>).
\<close>

section \<open>Names\<close>

record SymbolDB =
  db_block :: "ObjectBlockInfo \<Rightarrow> bool"
  db_feature :: "FeatureComparison \<Rightarrow> bool"
  db_constants :: "FeatureComparison \<Rightarrow> bool"
  db_reference :: "ObjectReferenceUsage \<Rightarrow> int \<Rightarrow> bool"
  db_monad_set :: "MonadSetRelationClause \<Rightarrow> id_d_t \<Rightarrow> bool"

type_synonym ORDMap = "string \<rightharpoonup> int"

definition ObjectReferenceUsage_symbol :: "SymbolDB \<Rightarrow> ORDMap \<Rightarrow> ObjectReferenceUsage \<Rightarrow> bool" where
  "ObjectReferenceUsage_symbol db m oru \<longleftrightarrow>
     (case m (oru_object_reference oru) of None \<Rightarrow> False | Some nn \<Rightarrow> db_reference db oru nn)"

definition FeatureComparison_symbol :: "SymbolDB \<Rightarrow> ORDMap \<Rightarrow> FeatureComparison \<Rightarrow> bool" where
  "FeatureComparison_symbol db m fc \<longleftrightarrow>
     (if \<not> db_feature db fc then False
      else case fc_value fc of
             Some (kValObjectReferenceUsage oru) \<Rightarrow> ObjectReferenceUsage_symbol db m oru
           | _ \<Rightarrow> db_constants db fc)"

primrec FFeatures_symbol :: "FFeatures \<Rightarrow> SymbolDB \<Rightarrow> ORDMap \<Rightarrow> bool"
and FTerm_symbol :: "FTerm \<Rightarrow> SymbolDB \<Rightarrow> ORDMap \<Rightarrow> bool"
and FFactor_symbol :: "FFactor \<Rightarrow> SymbolDB \<Rightarrow> ORDMap \<Rightarrow> bool" where
  "FFeatures_symbol (FFeatures_fterm t) = FTerm_symbol t"
| "FFeatures_symbol (FFeatures_or f t) = (\<lambda>db m. if \<not> FFeatures_symbol f db m then False else FTerm_symbol t db m)"
| "FTerm_symbol (FTerm_ffactor f) = FFactor_symbol f"
| "FTerm_symbol (FTerm_and t f) = (\<lambda>db m. if \<not> FTerm_symbol t db m then False else FFactor_symbol f db m)"
| "FFactor_symbol (FFactor_not f) = FFactor_symbol f"
| "FFactor_symbol (FFactor_paren f) = FFeatures_symbol f"
| "FFactor_symbol (FFactor_comparison fc) = (\<lambda>db m. FeatureComparison_symbol db m fc)"

text \<open>The features of the comparisons get their places in the table of the block.\<close>

definition FeatureComparison_symbolAddFeatures :: "FeatureComparison \<Rightarrow> string list \<Rightarrow> (FeatureComparison \<times> string list) res" where
  "FeatureComparison_symbolAddFeatures fc pObj =
     (let pObj1 = MQLObject_addFeature pObj (fc_feature_name fc)
      in bind_res (getFeatureIndex 0 pObj1 (fc_feature_name fc)) (\<lambda>i. Inr (fc\<lparr>fc_feature_index := int i\<rparr>, pObj1)))"

definition map_changed :: "('a \<Rightarrow> 'b) \<Rightarrow> ('a \<times> 's) res \<Rightarrow> ('b \<times> 's) res" where
  "map_changed f r = bind_res r (\<lambda>(x, s). Inr (f x, s))"

primrec FFeatures_symbolAddFeatures :: "FFeatures \<Rightarrow> string list \<Rightarrow> (FFeatures \<times> string list) res"
and FTerm_symbolAddFeatures :: "FTerm \<Rightarrow> string list \<Rightarrow> (FTerm \<times> string list) res"
and FFactor_symbolAddFeatures :: "FFactor \<Rightarrow> string list \<Rightarrow> (FFactor \<times> string list) res" where
  "FFeatures_symbolAddFeatures (FFeatures_fterm t) = (\<lambda>pObj. map_changed FFeatures_fterm (FTerm_symbolAddFeatures t pObj))"
| "FFeatures_symbolAddFeatures (FFeatures_or f t) = (\<lambda>pObj. bind_res (FFeatures_symbolAddFeatures f pObj) (\<lambda>(f', pObj1).
     map_changed (FFeatures_or f') (FTerm_symbolAddFeatures t pObj1)))"
| "FTerm_symbolAddFeatures (FTerm_ffactor f) = (\<lambda>pObj. map_changed FTerm_ffactor (FFactor_symbolAddFeatures f pObj))"
| "FTerm_symbolAddFeatures (FTerm_and t f) = (\<lambda>pObj. bind_res (FTerm_symbolAddFeatures t pObj) (\<lambda>(t', pObj1).
     map_changed (FTerm_and t') (FFactor_symbolAddFeatures f pObj1)))"
| "FFactor_symbolAddFeatures (FFactor_not f) = (\<lambda>pObj. map_changed FFactor_not (FFactor_symbolAddFeatures f pObj))"
| "FFactor_symbolAddFeatures (FFactor_paren f) = (\<lambda>pObj. map_changed FFactor_paren (FFeatures_symbolAddFeatures f pObj))"
| "FFactor_symbolAddFeatures (FFactor_comparison fc) = (\<lambda>pObj.
     map_changed FFactor_comparison (FeatureComparison_symbolAddFeatures fc pObj))"

text \<open>What a method \<open>symbol\<close> returns: the tree, the references declared so far, and \<open>bResult\<close>.\<close>

type_synonym 'a symbols = "('a \<times> ORDMap \<times> bool) res"

definition inner_symbol :: "Blocks option \<Rightarrow> (ORDMap \<Rightarrow> Blocks symbols) option \<Rightarrow> ORDMap \<Rightarrow> Blocks option symbols" where
  "inner_symbol opt_blocks inner m =
     (case inner of None \<Rightarrow> Inr (opt_blocks, m, True) | Some f \<Rightarrow> map_changed Some (f m))"

definition symbol_constraints :: "SymbolDB \<Rightarrow> ORDMap \<Rightarrow> ObjectBlockInfo \<Rightarrow> bool" where
  "symbol_constraints db m ob \<longleftrightarrow>
     (case ob_feature_constraints ob of None \<Rightarrow> True | Some c \<Rightarrow> FFeatures_symbol (ffc_ffeatures c) db m)"

definition symbol_features :: "ObjectBlockInfo \<Rightarrow> ObjectBlockInfo res" where
  "symbol_features ob =
     (case ob_feature_constraints ob of
        None \<Rightarrow> Inr ob
      | Some c \<Rightarrow> bind_res (FFeatures_symbolAddFeatures (ffc_ffeatures c) (ob_object ob)) (\<lambda>(f, names).
          Inr (ob\<lparr>ob_feature_constraints := Some (c\<lparr>ffc_ffeatures := f\<rparr>), ob_object := names\<rparr>)))"

definition ObjectBlock_symbol_info :: "SymbolDB \<Rightarrow> ObjectBlockInfo \<Rightarrow> Blocks option \<Rightarrow>
  (ORDMap \<Rightarrow> Blocks symbols) option \<Rightarrow> ORDMap \<Rightarrow> ObjectBlock symbols" where
  "ObjectBlock_symbol_info db ob opt_blocks inner m =
     (let ref = ob_object_reference_lower ob; no = Inr (ObjectBlock ob opt_blocks, m, False)
      in if \<not> db_block db ob then no
         else if ref \<noteq> [] \<and> m ref \<noteq> None then no
         else let m1 = (if ref \<noteq> [] then m(ref \<mapsto> obb_node_number (ob_base ob)) else m)
              in if \<not> symbol_constraints db m1 ob then Inr (ObjectBlock ob opt_blocks, m1, False)
                 else bind_res (symbol_features ob) (\<lambda>ob1.
                   if \<not> db_monad_set db (ob_MSRC ob1) (obb_object_type_id (ob_base ob1)) then Inr (ObjectBlock ob1 opt_blocks, m1, False)
                   else map_changed (ObjectBlock ob1) (inner_symbol opt_blocks inner m1)))"

primrec Blocks_symbol :: "Blocks \<Rightarrow> SymbolDB \<Rightarrow> ORDMap \<Rightarrow> Blocks symbols"
and BlockString_symbol :: "BlockString \<Rightarrow> SymbolDB \<Rightarrow> ORDMap \<Rightarrow> BlockString symbols"
and BlockString2_symbol :: "BlockString2 \<Rightarrow> SymbolDB \<Rightarrow> ORDMap \<Rightarrow> BlockString2 symbols"
and BlockString1_symbol :: "BlockString1 \<Rightarrow> SymbolDB \<Rightarrow> ORDMap \<Rightarrow> BlockString1 symbols"
and BlockString0_symbol :: "BlockString0 \<Rightarrow> SymbolDB \<Rightarrow> ORDMap \<Rightarrow> BlockString0 symbols"
and Block_symbol :: "Block \<Rightarrow> SymbolDB \<Rightarrow> ORDMap \<Rightarrow> Block symbols"
and GapBlock_symbol :: "GapBlock \<Rightarrow> SymbolDB \<Rightarrow> ORDMap \<Rightarrow> GapBlock symbols"
and ObjectBlock_symbol :: "ObjectBlock \<Rightarrow> SymbolDB \<Rightarrow> ORDMap \<Rightarrow> ObjectBlock symbols"
and ObjectBlockString_symbol :: "ObjectBlockString \<Rightarrow> SymbolDB \<Rightarrow> ORDMap \<Rightarrow> ObjectBlockString symbols" where
  "Blocks_symbol (Blocks_string bs ur) = (\<lambda>db m. map_changed (\<lambda>x. Blocks_string x ur) (BlockString_symbol bs db m))"
| "Blocks_symbol (Blocks_unordered obs) = (\<lambda>db m. map_changed Blocks_unordered (ObjectBlockString_symbol obs db m))"
| "BlockString_symbol (BlockString_bs2 b2) = (\<lambda>db m. map_changed BlockString_bs2 (BlockString2_symbol b2 db m))"
| "BlockString_symbol (BlockString_or b2 bs) = (\<lambda>db m. bind_res (BlockString2_symbol b2 db m) (\<lambda>(b2', m1, ok).
     if \<not> ok then Inr (BlockString_or b2' bs, m1, ok)
     else map_changed (BlockString_or b2') (BlockString_symbol bs db m1)))"
| "BlockString2_symbol (BlockString2_bs1 n b1) = (\<lambda>db m. map_changed (BlockString2_bs1 n) (BlockString1_symbol b1 db m))"
| "BlockString2_symbol (BlockString2_seq n b1 b2) = (\<lambda>db m. bind_res (BlockString1_symbol b1 db m) (\<lambda>(b1', m1, ok).
     if \<not> ok then Inr (BlockString2_seq n b1' b2, m1, ok)
     else map_changed (BlockString2_seq n b1') (BlockString2_symbol b2 db m1)))"
| "BlockString1_symbol (BlockString1_bs0 b0) = (\<lambda>db m. map_changed BlockString1_bs0 (BlockString0_symbol b0 db m))"
| "BlockString1_symbol (BlockString1_star b0 mse som) = (\<lambda>db m. bind_res (monadsBuildSet mse SetOfMonads_empty) (\<lambda>som1.
     map_changed (\<lambda>x. BlockString1_star x mse som1) (BlockString0_symbol b0 db m)))"
| "BlockString0_symbol (BlockString0_block b) = (\<lambda>db m. map_changed BlockString0_block (Block_symbol b db m))"
| "BlockString0_symbol (BlockString0_string bs) = (\<lambda>db m. map_changed BlockString0_string (BlockString_symbol bs db m))"
| "Block_symbol (kOptGapBlock g) = (\<lambda>db m. map_changed kOptGapBlock (GapBlock_symbol g db m))"
| "Block_symbol (kGapBlock g) = (\<lambda>db m. map_changed kGapBlock (GapBlock_symbol g db m))"
| "Block_symbol (kPowerBlock p) = (\<lambda>db m. Inr (kPowerBlock p, m, True))"
| "Block_symbol (kObjectBlock ob) = (\<lambda>db m. map_changed kObjectBlock (ObjectBlock_symbol ob db m))"
| "Block_symbol (kObjectBlockNOTEXIST ob) = (\<lambda>db m. map_changed kObjectBlockNOTEXIST (ObjectBlock_symbol ob db m))"
| "GapBlock_symbol (GapBlock g opt_blocks) = (\<lambda>db m.
     map_changed (GapBlock g) (inner_symbol opt_blocks (map_option (\<lambda>f. f db) (map_option Blocks_symbol opt_blocks)) m))"
| "ObjectBlock_symbol (ObjectBlock ob opt_blocks) = (\<lambda>db.
     ObjectBlock_symbol_info db ob opt_blocks (map_option (\<lambda>f. f db) (map_option Blocks_symbol opt_blocks)))"
| "ObjectBlockString_symbol (ObjectBlockString_one ob) = (\<lambda>db m. map_changed ObjectBlockString_one (ObjectBlock_symbol ob db m))"
| "ObjectBlockString_symbol (ObjectBlockString_more obs ob) = (\<lambda>db m. bind_res (ObjectBlockString_symbol obs db m) (\<lambda>(obs', m1, ok).
     if \<not> ok then Inr (ObjectBlockString_more obs' ob, m1, ok)
     else map_changed (ObjectBlockString_more obs') (ObjectBlock_symbol ob db m1)))"

section \<open>The nodes of a query\<close>

text \<open>
  The vector of nodes that weeding has filled: a string with the object block it starts with, if it
  starts with one, object blocks, and constraints. Its pointers may be cast only to what they are.
\<close>

datatype QueryNode = kQNKBlockString2 BlockString2Info "ObjectBlockInfo option" | kQNKObjectBlock ObjectBlockInfo | kQNKFFeatures FeatureConstraint

fun getImmediateObjectBlock :: "BlockString1 \<Rightarrow> ObjectBlockInfo option" where
  "getImmediateObjectBlock b1 =
     (case getBlockString0 b1 of
        BlockString0_block (kObjectBlock ob) \<Rightarrow> Some (ob_info ob)
      | BlockString0_block (kObjectBlockNOTEXIST ob) \<Rightarrow> Some (ob_info ob)
      | _ \<Rightarrow> None)"

definition ob_nodes :: "ObjectBlockInfo \<Rightarrow> QueryNode list" where
  "ob_nodes ob = kQNKObjectBlock ob # (case ob_feature_constraints ob of None \<Rightarrow> [] | Some c \<Rightarrow> [kQNKFFeatures c])"

definition option_nodes :: "QueryNode list option \<Rightarrow> QueryNode list" where
  "option_nodes p = (case p of None \<Rightarrow> [] | Some l \<Rightarrow> l)"

primrec Blocks_nodes :: "Blocks \<Rightarrow> QueryNode list"
and BlockString_nodes :: "BlockString \<Rightarrow> QueryNode list"
and BlockString2_nodes :: "BlockString2 \<Rightarrow> QueryNode list"
and BlockString1_nodes :: "BlockString1 \<Rightarrow> QueryNode list"
and BlockString0_nodes :: "BlockString0 \<Rightarrow> QueryNode list"
and Block_nodes :: "Block \<Rightarrow> QueryNode list"
and GapBlock_nodes :: "GapBlock \<Rightarrow> QueryNode list"
and ObjectBlock_nodes :: "ObjectBlock \<Rightarrow> QueryNode list"
and ObjectBlockString_nodes :: "ObjectBlockString \<Rightarrow> QueryNode list" where
  "Blocks_nodes (Blocks_string bs ur) = BlockString_nodes bs"
| "Blocks_nodes (Blocks_unordered obs) = ObjectBlockString_nodes obs"
| "BlockString_nodes (BlockString_bs2 b2) = BlockString2_nodes b2"
| "BlockString_nodes (BlockString_or b2 bs) = BlockString2_nodes b2 @ BlockString_nodes bs"
| "BlockString2_nodes (BlockString2_bs1 n b1) = kQNKBlockString2 n (getImmediateObjectBlock b1) # BlockString1_nodes b1"
| "BlockString2_nodes (BlockString2_seq n b1 b2) =
     kQNKBlockString2 n (getImmediateObjectBlock b1) # BlockString1_nodes b1 @ BlockString2_nodes b2"
| "BlockString1_nodes (BlockString1_bs0 b0) = BlockString0_nodes b0"
| "BlockString1_nodes (BlockString1_star b0 mse som) = BlockString0_nodes b0"
| "BlockString0_nodes (BlockString0_block b) = Block_nodes b"
| "BlockString0_nodes (BlockString0_string bs) = BlockString_nodes bs"
| "Block_nodes (kOptGapBlock g) = GapBlock_nodes g"
| "Block_nodes (kGapBlock g) = GapBlock_nodes g"
| "Block_nodes (kPowerBlock p) = []"
| "Block_nodes (kObjectBlock ob) = ObjectBlock_nodes ob"
| "Block_nodes (kObjectBlockNOTEXIST ob) = ObjectBlock_nodes ob"
| "GapBlock_nodes (GapBlock g opt_blocks) = option_nodes (map_option Blocks_nodes opt_blocks)"
| "ObjectBlock_nodes (ObjectBlock ob opt_blocks) = ob_nodes ob @ option_nodes (map_option Blocks_nodes opt_blocks)"
| "ObjectBlockString_nodes (ObjectBlockString_one ob) = ObjectBlock_nodes ob"
| "ObjectBlockString_nodes (ObjectBlockString_more obs ob) = ObjectBlockString_nodes obs @ ObjectBlock_nodes ob"

definition getNodeFromNodeNumber :: "QueryNode list \<Rightarrow> int \<Rightarrow> QueryNode res" where
  "getNodeFromNodeNumber v nn =
     (if nn < 0 \<or> nn \<le> int (length v)
      then (if 0 \<le> nn \<and> nat nn < length v then Inr (v ! nat nn) else Inl NullDeref)
      else Inl EmdrosException)"

definition asBlockString2 :: "QueryNode \<Rightarrow> (BlockString2Info \<times> ObjectBlockInfo option) res" where
  "asBlockString2 q = (case q of kQNKBlockString2 n ob \<Rightarrow> Inr (n, ob) | _ \<Rightarrow> Inl NullDeref)"

definition asObjectBlock :: "QueryNode \<Rightarrow> ObjectBlockInfo res" where
  "asObjectBlock q = (case q of kQNKObjectBlock ob \<Rightarrow> Inr ob | _ \<Rightarrow> Inl NullDeref)"

definition hasImmediateORDChild :: "ObjectBlockInfo option \<Rightarrow> string \<Rightarrow> bool" where
  "hasImmediateORDChild pObjectBlockOrNil ORD =
     (case pObjectBlockOrNil of None \<Rightarrow> False
      | Some ob \<Rightarrow> if strcmp_nocase ORD (ob_object_reference_lower ob) = 0 then True else False)"


section \<open>References in scope\<close>

text \<open>
  The methods \<open>symbolObjectReferences\<close>: which names may be used where, and where the value of each use
  will be. The map of the names and the nodes are as the visit before left them (in the code,
  \<open>operator[]\<close> gives 0 for a name that is not in the map); the set of names in scope and the names
  that each string has inside it are a state. \<open>bResult\<close> is true when a method is called, so each
  returns what it sets. The constraints of a block are the node whose number weeding has written into
  their comparisons, and are handed down.
\<close>

record References =
  rs_ORD_set :: "string set"
  rs_ORD_children :: "int \<Rightarrow> string set"

type_synonym 'a refs = "('a \<times> References \<times> bool) res"

definition ord_node :: "ORDMap \<Rightarrow> string \<Rightarrow> int" where
  "ord_node m ORD = (case m ORD of None \<Rightarrow> 0 | Some nn \<Rightarrow> nn)"

text \<open>The loops up the strings of a block have fuel for each node of the query.\<close>

fun determineSolutionType_loop :: "nat \<Rightarrow> QueryNode list \<Rightarrow> string \<Rightarrow> int \<Rightarrow> bool res" where
  "determineSolutionType_loop fuel v ORD parent =
     (if parent = -1 then Inr False
      else case fuel of 0 \<Rightarrow> Inl OutOfFuel
      | Suc k \<Rightarrow> bind_res (getNodeFromNodeNumber v parent) (\<lambda>q. bind_res (asBlockString2 q) (\<lambda>(n, ob).
          if hasImmediateORDChild ob ORD then Inr True else determineSolutionType_loop k v ORD (bs2_parent n))))"

definition determineSolutionType :: "QueryNode list \<Rightarrow> string \<Rightarrow> int \<Rightarrow> bool res" where
  "determineSolutionType v ORD parent = determineSolutionType_loop (length v) v ORD parent"

definition addORDChild :: "(int \<Rightarrow> string set) \<Rightarrow> int \<Rightarrow> string \<Rightarrow> int \<Rightarrow> string set" where
  "addORDChild children nn ORD = children(nn := insert (str_tolower ORD) (children nn))"

definition hasORDChild :: "(int \<Rightarrow> string set) \<Rightarrow> int \<Rightarrow> string \<Rightarrow> bool" where
  "hasORDChild children nn ORD \<longleftrightarrow> str_tolower ORD \<in> children nn"

fun addORDChildren :: "nat \<Rightarrow> QueryNode list \<Rightarrow> string \<Rightarrow> int \<Rightarrow> (int \<Rightarrow> string set) \<Rightarrow> (int \<Rightarrow> string set) res" where
  "addORDChildren fuel v ORD parent children =
     (if parent = -1 then Inr children
      else case fuel of 0 \<Rightarrow> Inl OutOfFuel
      | Suc k \<Rightarrow> bind_res (getNodeFromNodeNumber v parent) (\<lambda>q. bind_res (asBlockString2 q) (\<lambda>(n, ob).
          addORDChildren k v ORD (bs2_parent n) (addORDChild children (bs2_node_number n) ORD))))"

definition addNonParentORU :: "FeatureConstraint \<Rightarrow> FeatureConstraint" where
  "addNonParentORU ffc = ffc\<lparr>ffc_hasNonParentORUs := True\<rparr>"

type_synonym 'a ffc_refs = "('a \<times> FeatureConstraint \<times> bool) res"

definition FeatureComparison_symbolObjectReferences ::
  "FeatureComparison \<Rightarrow> ORDMap \<Rightarrow> QueryNode list \<Rightarrow> string set \<Rightarrow> FeatureConstraint \<Rightarrow> FeatureComparison ffc_refs" where
  "FeatureComparison_symbolObjectReferences fc m v ORD_set pFFeaturesNode =
     (case fc_value fc of
        Some (kValObjectReferenceUsage oru) \<Rightarrow>
          let ORD = oru_object_reference oru
          in if ORD \<notin> ORD_set then Inr (fc, pFFeaturesNode, False)
             else bind_res (determineSolutionType v ORD (ffc_block_string2_parent pFFeaturesNode)) (\<lambda>bORDIsParent.
               bind_res (getNodeFromNodeNumber v (ord_node m ORD)) (\<lambda>_.
                 let oru1 = oru\<lparr>oru_ORDIsParent := bORDIsParent, oru_ControllingObjectBlock := ord_node m ORD\<rparr>
                 in Inr (fc\<lparr>fc_value := Some (kValObjectReferenceUsage oru1)\<rparr>,
                         if \<not> bORDIsParent then addNonParentORU pFFeaturesNode else pFFeaturesNode, True)))
      | _ \<Rightarrow> Inr (fc, pFFeaturesNode, True))"

primrec FFeatures_symbolObjectReferences ::
  "FFeatures \<Rightarrow> ORDMap \<Rightarrow> QueryNode list \<Rightarrow> string set \<Rightarrow> FeatureConstraint \<Rightarrow> FFeatures ffc_refs"
and FTerm_symbolObjectReferences ::
  "FTerm \<Rightarrow> ORDMap \<Rightarrow> QueryNode list \<Rightarrow> string set \<Rightarrow> FeatureConstraint \<Rightarrow> FTerm ffc_refs"
and FFactor_symbolObjectReferences ::
  "FFactor \<Rightarrow> ORDMap \<Rightarrow> QueryNode list \<Rightarrow> string set \<Rightarrow> FeatureConstraint \<Rightarrow> FFactor ffc_refs" where
  "FFeatures_symbolObjectReferences (FFeatures_fterm t) = (\<lambda>m v S c. map_changed FFeatures_fterm (FTerm_symbolObjectReferences t m v S c))"
| "FFeatures_symbolObjectReferences (FFeatures_or f t) = (\<lambda>m v S c.
     bind_res (FFeatures_symbolObjectReferences f m v S c) (\<lambda>(f', c1, ok).
       if \<not> ok then Inr (FFeatures_or f' t, c1, ok)
       else map_changed (FFeatures_or f') (FTerm_symbolObjectReferences t m v S c1)))"
| "FTerm_symbolObjectReferences (FTerm_ffactor f) = (\<lambda>m v S c. map_changed FTerm_ffactor (FFactor_symbolObjectReferences f m v S c))"
| "FTerm_symbolObjectReferences (FTerm_and t f) = (\<lambda>m v S c.
     bind_res (FTerm_symbolObjectReferences t m v S c) (\<lambda>(t', c1, ok).
       if \<not> ok then Inr (FTerm_and t' f, c1, ok)
       else map_changed (FTerm_and t') (FFactor_symbolObjectReferences f m v S c1)))"
| "FFactor_symbolObjectReferences (FFactor_not f) = (\<lambda>m v S c. map_changed FFactor_not (FFactor_symbolObjectReferences f m v S c))"
| "FFactor_symbolObjectReferences (FFactor_paren f) = (\<lambda>m v S c. map_changed FFactor_paren (FFeatures_symbolObjectReferences f m v S c))"
| "FFactor_symbolObjectReferences (FFactor_comparison fc) = (\<lambda>m v S c.
     map_changed FFactor_comparison (FeatureComparison_symbolObjectReferences fc m v S c))"

text \<open>An object block declares its name, for its own constraints too.\<close>

definition declare_reference :: "QueryNode list \<Rightarrow> ObjectBlockInfo \<Rightarrow> References \<Rightarrow> References res" where
  "declare_reference v ob rs =
     (let ORD = ob_object_reference_lower ob
      in if ORD = [] then Inr rs
         else bind_res (addORDChildren (length v) v ORD (ob_block_string2_parent ob) (rs_ORD_children rs)) (\<lambda>children.
           Inr (rs\<lparr>rs_ORD_set := insert ORD (rs_ORD_set rs), rs_ORD_children := children\<rparr>)))"

definition constraint_references :: "ORDMap \<Rightarrow> QueryNode list \<Rightarrow> string set \<Rightarrow> ObjectBlockInfo \<Rightarrow> (ObjectBlockInfo \<times> bool) res" where
  "constraint_references m v ORD_set ob =
     (case ob_feature_constraints ob of
        None \<Rightarrow> Inr (ob, True)
      | Some c \<Rightarrow> bind_res (FFeatures_symbolObjectReferences (ffc_ffeatures c) m v ORD_set c) (\<lambda>(f, c1, ok).
          Inr (ob\<lparr>ob_feature_constraints := Some (c1\<lparr>ffc_ffeatures := f\<rparr>)\<rparr>, ok)))"

definition inner_references :: "Blocks option \<Rightarrow> (References \<Rightarrow> Blocks refs) option \<Rightarrow> References \<Rightarrow> Blocks option refs" where
  "inner_references opt_blocks inner rs =
     (case inner of None \<Rightarrow> Inr (opt_blocks, rs, True) | Some f \<Rightarrow> map_changed Some (f rs))"

definition ObjectBlock_references_info :: "ORDMap \<Rightarrow> QueryNode list \<Rightarrow> ObjectBlockInfo \<Rightarrow> Blocks option \<Rightarrow>
  (References \<Rightarrow> Blocks refs) option \<Rightarrow> References \<Rightarrow> ObjectBlock refs" where
  "ObjectBlock_references_info m v ob opt_blocks inner rs =
     bind_res (declare_reference v ob rs) (\<lambda>rs1.
     bind_res (constraint_references m v (rs_ORD_set rs1) ob) (\<lambda>(ob1, ok).
       if \<not> ok then Inr (ObjectBlock ob1 opt_blocks, rs1, ok)
       else map_changed (ObjectBlock ob1) (inner_references opt_blocks inner rs1)))"

text \<open>An export barrier: what is declared inside is not in scope behind it.\<close>

definition barrier :: "string set \<Rightarrow> 'a refs \<Rightarrow> 'a refs" where
  "barrier ORD_set r = bind_res r (\<lambda>(x, rs, ok). Inr (x, rs\<lparr>rs_ORD_set := ORD_set\<rparr>, ok))"

primrec Blocks_symbolObjectReferences :: "Blocks \<Rightarrow> ORDMap \<Rightarrow> QueryNode list \<Rightarrow> References \<Rightarrow> Blocks refs"
and BlockString_symbolObjectReferences :: "BlockString \<Rightarrow> ORDMap \<Rightarrow> QueryNode list \<Rightarrow> References \<Rightarrow> BlockString refs"
and BlockString2_symbolObjectReferences :: "BlockString2 \<Rightarrow> ORDMap \<Rightarrow> QueryNode list \<Rightarrow> References \<Rightarrow> BlockString2 refs"
and BlockString1_symbolObjectReferences :: "BlockString1 \<Rightarrow> ORDMap \<Rightarrow> QueryNode list \<Rightarrow> References \<Rightarrow> BlockString1 refs"
and BlockString0_symbolObjectReferences :: "BlockString0 \<Rightarrow> ORDMap \<Rightarrow> QueryNode list \<Rightarrow> References \<Rightarrow> BlockString0 refs"
and Block_symbolObjectReferences :: "Block \<Rightarrow> ORDMap \<Rightarrow> QueryNode list \<Rightarrow> References \<Rightarrow> Block refs"
and GapBlock_symbolObjectReferences :: "GapBlock \<Rightarrow> ORDMap \<Rightarrow> QueryNode list \<Rightarrow> References \<Rightarrow> GapBlock refs"
and ObjectBlock_symbolObjectReferences :: "ObjectBlock \<Rightarrow> ORDMap \<Rightarrow> QueryNode list \<Rightarrow> References \<Rightarrow> ObjectBlock refs"
and ObjectBlockString_symbolObjectReferences ::
  "ObjectBlockString \<Rightarrow> ORDMap \<Rightarrow> QueryNode list \<Rightarrow> References \<Rightarrow> ObjectBlockString refs" where
  "Blocks_symbolObjectReferences (Blocks_string bs ur) = (\<lambda>m v rs.
     map_changed (\<lambda>x. Blocks_string x ur) (BlockString_symbolObjectReferences bs m v rs))"
| "Blocks_symbolObjectReferences (Blocks_unordered obs) = (\<lambda>m v rs.
     map_changed Blocks_unordered (ObjectBlockString_symbolObjectReferences obs m v rs))"
| "BlockString_symbolObjectReferences (BlockString_bs2 b2) = (\<lambda>m v rs.
     map_changed BlockString_bs2 (BlockString2_symbolObjectReferences b2 m v rs))"
| "BlockString_symbolObjectReferences (BlockString_or b2 bs) = (\<lambda>m v rs.
     bind_res (BlockString2_symbolObjectReferences b2 m v rs) (\<lambda>(b2', rs1, ok).
       if \<not> ok then Inr (BlockString_or b2' bs, rs1\<lparr>rs_ORD_set := rs_ORD_set rs\<rparr>, ok)
       else let BlockStrORD_set = rs_ORD_set rs1;
                BlockStringORD_set = BlockStrORD_set - {ORD \<in> BlockStrORD_set. ORD \<notin> rs_ORD_set rs}
            in bind_res (BlockString_symbolObjectReferences bs m v (rs1\<lparr>rs_ORD_set := BlockStringORD_set\<rparr>)) (\<lambda>(bs', rs2, ok2).
                 if \<not> ok2 then Inr (BlockString_or b2' bs', rs2\<lparr>rs_ORD_set := rs_ORD_set rs\<rparr>, ok2)
                 else Inr (BlockString_or b2' bs', rs2, True))))"
| "BlockString2_symbolObjectReferences (BlockString2_bs1 n b1) = (\<lambda>m v rs.
     map_changed (BlockString2_bs1 n) (BlockString1_symbolObjectReferences b1 m v rs))"
| "BlockString2_symbolObjectReferences (BlockString2_seq n b1 b2) = (\<lambda>m v rs.
     bind_res (BlockString1_symbolObjectReferences b1 m v rs) (\<lambda>(b1', rs1, ok).
       if \<not> ok then Inr (BlockString2_seq n b1' b2, rs1, ok)
       else map_changed (BlockString2_seq n b1') (BlockString2_symbolObjectReferences b2 m v rs1)))"
| "BlockString1_symbolObjectReferences (BlockString1_bs0 b0) = (\<lambda>m v rs.
     map_changed BlockString1_bs0 (BlockString0_symbolObjectReferences b0 m v rs))"
| "BlockString1_symbolObjectReferences (BlockString1_star b0 mse som) = (\<lambda>m v rs.
     map_changed (\<lambda>x. BlockString1_star x mse som) (barrier (rs_ORD_set rs) (BlockString0_symbolObjectReferences b0 m v rs)))"
| "BlockString0_symbolObjectReferences (BlockString0_block b) = (\<lambda>m v rs.
     map_changed BlockString0_block (Block_symbolObjectReferences b m v rs))"
| "BlockString0_symbolObjectReferences (BlockString0_string bs) = (\<lambda>m v rs.
     map_changed BlockString0_string (BlockString_symbolObjectReferences bs m v rs))"
| "Block_symbolObjectReferences (kOptGapBlock g) = (\<lambda>m v rs.
     map_changed kOptGapBlock (GapBlock_symbolObjectReferences g m v rs))"
| "Block_symbolObjectReferences (kGapBlock g) = (\<lambda>m v rs.
     map_changed kGapBlock (GapBlock_symbolObjectReferences g m v rs))"
| "Block_symbolObjectReferences (kPowerBlock p) = (\<lambda>m v rs. Inr (kPowerBlock p, rs, True))"
| "Block_symbolObjectReferences (kObjectBlock ob) = (\<lambda>m v rs.
     map_changed kObjectBlock (ObjectBlock_symbolObjectReferences ob m v rs))"
| "Block_symbolObjectReferences (kObjectBlockNOTEXIST ob) = (\<lambda>m v rs.
     map_changed kObjectBlockNOTEXIST (barrier (rs_ORD_set rs) (ObjectBlock_symbolObjectReferences ob m v rs)))"
| "GapBlock_symbolObjectReferences (GapBlock g opt_blocks) = (\<lambda>m v rs. map_changed (GapBlock g)
     (inner_references opt_blocks (map_option (\<lambda>f. f m v) (map_option Blocks_symbolObjectReferences opt_blocks)) rs))"
| "ObjectBlock_symbolObjectReferences (ObjectBlock ob opt_blocks) = (\<lambda>m v. ObjectBlock_references_info m v ob opt_blocks
     (map_option (\<lambda>f. f m v) (map_option Blocks_symbolObjectReferences opt_blocks)))"
| "ObjectBlockString_symbolObjectReferences (ObjectBlockString_one ob) = (\<lambda>m v rs.
     map_changed ObjectBlockString_one (barrier (rs_ORD_set rs) (ObjectBlock_symbolObjectReferences ob m v rs)))"
| "ObjectBlockString_symbolObjectReferences (ObjectBlockString_more obs ob) = (\<lambda>m v rs.
     bind_res (ObjectBlockString_symbolObjectReferences obs m v rs) (\<lambda>(obs', rs1, ok).
       if \<not> ok then Inr (ObjectBlockString_more obs' ob, rs1, ok)
       else map_changed (ObjectBlockString_more obs')
              (barrier (rs_ORD_set rs1) (ObjectBlock_symbolObjectReferences ob m v rs1))))"

definition no_references :: References where
  "no_references = \<lparr>rs_ORD_set = {}, rs_ORD_children = (\<lambda>_. {})\<rparr>"

declare determineSolutionType_loop.simps [simp del] addORDChildren.simps [simp del]


section \<open>Where the values are\<close>

text \<open>
  The methods \<open>symbolObjectReferences2\<close>. The constraints of a block, the only node among its \<open>FFeatures\<close>, have
  to find the strings that hold the blocks which their references use: strings with such a name inside,
  that are not around the constraints, and are not inside such a string. (The strings are given by
  their numbers; the vectors of the \<open>FFeatures\<close> in brackets are empty.)
\<close>

fun BS2_parents :: "nat \<Rightarrow> QueryNode list \<Rightarrow> int \<Rightarrow> int list res" where
  "BS2_parents fuel v parent =
     (if parent = -1 then Inr []
      else case fuel of 0 \<Rightarrow> Inl OutOfFuel
      | Suc k \<Rightarrow> bind_res (getNodeFromNodeNumber v parent) (\<lambda>q. bind_res (asBlockString2 q) (\<lambda>(n, ob).
          bind_res (BS2_parents k v (bs2_parent n)) (\<lambda>l. Inr (parent # l)))))"

text \<open>Whether one of the strings around a string is in a list.\<close>

fun BS2_parent_in :: "nat \<Rightarrow> QueryNode list \<Rightarrow> int list \<Rightarrow> int \<Rightarrow> bool res" where
  "BS2_parent_in fuel v BS2_set parent =
     (if parent = -1 then Inr False
      else if parent \<in> set BS2_set then Inr True
      else case fuel of 0 \<Rightarrow> Inl OutOfFuel
      | Suc k \<Rightarrow> bind_res (getNodeFromNodeNumber v parent) (\<lambda>q. bind_res (asBlockString2 q) (\<lambda>(n, ob).
          BS2_parent_in k v BS2_set (bs2_parent n))))"

definition BS2_with_child :: "QueryNode list \<Rightarrow> (int \<Rightarrow> string set) \<Rightarrow> string \<Rightarrow> int list" where
  "BS2_with_child v children ORD = map (\<lambda>(nn, q). int nn) (filter (\<lambda>(nn, q).
     case q of kQNKBlockString2 n ob \<Rightarrow> hasORDChild children (bs2_node_number n) ORD | _ \<Rightarrow> False) (enumerate 0 v))"

fun sift_outermost :: "QueryNode list \<Rightarrow> int list \<Rightarrow> int list \<Rightarrow> int list res" where
  "sift_outermost v BS2_set [] = Inr []"
| "sift_outermost v BS2_set (nn # nns) =
     bind_res (getNodeFromNodeNumber v nn) (\<lambda>q. bind_res (asBlockString2 q) (\<lambda>(n, ob).
     bind_res (BS2_parent_in (length v) v BS2_set (bs2_parent n)) (\<lambda>b.
     bind_res (sift_outermost v BS2_set nns) (\<lambda>l. Inr (if b then l else nn # l)))))"

definition BS2_list :: "QueryNode list \<Rightarrow> (int \<Rightarrow> string set) \<Rightarrow> string list \<Rightarrow> int \<Rightarrow> int list res" where
  "BS2_list v children ORDs parent =
     (let tmp_BS2_list = concat (map (BS2_with_child v children) ORDs)
      in bind_res (BS2_parents (length v) v parent) (\<lambda>BS2_parents_of_us.
         let tmp_BS2_list_2 = filter (\<lambda>nn. nn \<notin> set BS2_parents_of_us) tmp_BS2_list
         in sift_outermost v tmp_BS2_list_2 tmp_BS2_list_2))"

text \<open>The blocks that are used get their places in the solutions; each reference is told the place of its block.\<close>

fun getMatchedObjectIndex :: "int list \<Rightarrow> int \<Rightarrow> nat \<times> int list" where
  "getMatchedObjectIndex [] nn = (0, [nn])"
| "getMatchedObjectIndex (x # xs) nn =
     (if x = nn then (0, x # xs) else let (i, xs') = getMatchedObjectIndex xs nn in (i + 1, x # xs'))"

type_synonym Places = "int list \<times> (string \<rightharpoonup> nat)"

definition setMatchedObjectIndex :: "ORDMap \<Rightarrow> string \<Rightarrow> Places \<Rightarrow> Places" where
  "setMatchedObjectIndex m ORD places =
     (let (i, vec) = getMatchedObjectIndex (fst places) (ord_node m ORD) in (vec, (snd places)(ORD \<mapsto> i)))"

definition matched_places :: "ORDMap \<Rightarrow> (int \<Rightarrow> string set) \<Rightarrow> string list \<Rightarrow> int list \<Rightarrow> Places \<Rightarrow> Places" where
  "matched_places m children ORDs bs2_nns places =
     foldl (\<lambda>p nn. foldl (\<lambda>p ORD. if hasORDChild children nn ORD then setMatchedObjectIndex m ORD p else p) p ORDs) places bs2_nns"

section \<open>What is loaded for the references\<close>

text \<open>
  The tables of the object blocks, and their features to be retrieved, by the numbers of the blocks, for
  they are changed from other blocks. The database and the type of the feature are left out; the place of a
  new feature in the list, -1 in the code, is set by type-checking.
\<close>

record Retrievals =
  rt_object :: "int \<Rightarrow> string list"
  rt_Feature_retrieval_vec :: "int \<Rightarrow> Feature list"

definition new_Feature :: "string \<Rightarrow> Feature" where
  "new_Feature feature_name = \<lparr>ft_feature_index_inst = -1, ft_list_index = 0, ft_name = feature_name\<rparr>"

definition MQLObject_add :: "int \<Rightarrow> string \<Rightarrow> Retrievals \<Rightarrow> Retrievals" where
  "MQLObject_add nn feature_name rt = rt\<lparr>rt_object := (rt_object rt)(nn := MQLObject_addFeature (rt_object rt nn) feature_name)\<rparr>"

fun retrieval_index :: "Feature list \<Rightarrow> string \<Rightarrow> nat option" where
  "retrieval_index [] feature_name = None"
| "retrieval_index (pFeature # fs) feature_name =
     (if strcmp_nocase (ft_name pFeature) feature_name = 0 then Some 0 else map_option Suc (retrieval_index fs feature_name))"

definition addFeatureToBeRetrieved :: "int \<Rightarrow> string \<Rightarrow> Retrievals \<Rightarrow> nat \<times> Retrievals" where
  "addFeatureToBeRetrieved nn feature_name rt =
     (let vec = rt_Feature_retrieval_vec rt nn
      in case retrieval_index vec feature_name of
           Some i \<Rightarrow> (i, rt)
         | None \<Rightarrow> (length vec, MQLObject_add nn feature_name
             (rt\<lparr>rt_Feature_retrieval_vec := (rt_Feature_retrieval_vec rt)(nn := vec @ [new_Feature feature_name])\<rparr>)))"

definition ObjectReferenceUsage_symbolObjectReferences2 ::
  "ORDMap \<Rightarrow> QueryNode list \<Rightarrow> ObjectReferenceUsage \<Rightarrow> Retrievals \<Rightarrow> (ObjectReferenceUsage \<times> Retrievals) res" where
  "ObjectReferenceUsage_symbolObjectReferences2 m v oru rt =
     (let nn = ord_node m (oru_object_reference oru); name = oru_feature_name oru
      in bind_res (getNodeFromNodeNumber v nn) (\<lambda>q. bind_res (asObjectBlock q) (\<lambda>pObjectBlock.
         if oru_ORDIsParent oru
         then let rt1 = MQLObject_add nn name rt
              in bind_res (getFeatureIndex 0 (rt_object rt1 nn) name) (\<lambda>i.
                 let (j, rt2) = addFeatureToBeRetrieved nn name rt1
                 in Inr (oru\<lparr>oru_FeatureIndexInMQLObject := int i, oru_FeatureIndexInMatchedObject := int j\<rparr>, rt2))
         else let (j, rt2) = addFeatureToBeRetrieved nn name rt
              in Inr (oru\<lparr>oru_FeatureIndexInMatchedObject := int j\<rparr>, rt2))))"

definition told_place :: "(string \<rightharpoonup> nat) \<Rightarrow> ObjectReferenceUsage \<Rightarrow> ObjectReferenceUsage" where
  "told_place matched oru =
     (if oru_ORDIsParent oru then oru
      else case matched (oru_object_reference oru) of None \<Rightarrow> oru | Some i \<Rightarrow> oru\<lparr>oru_MatchedObjectIndex := int i\<rparr>)"

definition FeatureComparison_symbolObjectReferences2 ::
  "FeatureComparison \<Rightarrow> ORDMap \<Rightarrow> QueryNode list \<Rightarrow> (string \<rightharpoonup> nat) \<Rightarrow> Retrievals \<Rightarrow> (FeatureComparison \<times> Retrievals) res" where
  "FeatureComparison_symbolObjectReferences2 fc m v matched rt =
     (case fc_value fc of
        Some (kValObjectReferenceUsage oru) \<Rightarrow>
          map_changed (\<lambda>x. fc\<lparr>fc_value := Some (kValObjectReferenceUsage x)\<rparr>)
            (ObjectReferenceUsage_symbolObjectReferences2 m v (told_place matched oru) rt)
      | _ \<Rightarrow> Inr (fc, rt))"

primrec FFeatures_symbolObjectReferences2 ::
  "FFeatures \<Rightarrow> ORDMap \<Rightarrow> QueryNode list \<Rightarrow> (string \<rightharpoonup> nat) \<Rightarrow> Retrievals \<Rightarrow> (FFeatures \<times> Retrievals) res"
and FTerm_symbolObjectReferences2 ::
  "FTerm \<Rightarrow> ORDMap \<Rightarrow> QueryNode list \<Rightarrow> (string \<rightharpoonup> nat) \<Rightarrow> Retrievals \<Rightarrow> (FTerm \<times> Retrievals) res"
and FFactor_symbolObjectReferences2 ::
  "FFactor \<Rightarrow> ORDMap \<Rightarrow> QueryNode list \<Rightarrow> (string \<rightharpoonup> nat) \<Rightarrow> Retrievals \<Rightarrow> (FFactor \<times> Retrievals) res" where
  "FFeatures_symbolObjectReferences2 (FFeatures_fterm t) = (\<lambda>m v k rt. map_changed FFeatures_fterm (FTerm_symbolObjectReferences2 t m v k rt))"
| "FFeatures_symbolObjectReferences2 (FFeatures_or f t) = (\<lambda>m v k rt.
     bind_res (FFeatures_symbolObjectReferences2 f m v k rt) (\<lambda>(f', rt1).
       map_changed (FFeatures_or f') (FTerm_symbolObjectReferences2 t m v k rt1)))"
| "FTerm_symbolObjectReferences2 (FTerm_ffactor f) = (\<lambda>m v k rt. map_changed FTerm_ffactor (FFactor_symbolObjectReferences2 f m v k rt))"
| "FTerm_symbolObjectReferences2 (FTerm_and t f) = (\<lambda>m v k rt.
     bind_res (FTerm_symbolObjectReferences2 t m v k rt) (\<lambda>(t', rt1).
       map_changed (FTerm_and t') (FFactor_symbolObjectReferences2 f m v k rt1)))"
| "FFactor_symbolObjectReferences2 (FFactor_not f) = (\<lambda>m v k rt. map_changed FFactor_not (FFactor_symbolObjectReferences2 f m v k rt))"
| "FFactor_symbolObjectReferences2 (FFactor_paren f) = (\<lambda>m v k rt. map_changed FFactor_paren (FFeatures_symbolObjectReferences2 f m v k rt))"
| "FFactor_symbolObjectReferences2 (FFactor_comparison fc) = (\<lambda>m v k rt.
     map_changed FFactor_comparison (FeatureComparison_symbolObjectReferences2 fc m v k rt))"

text \<open>The references that the visit before has put into the vector of the constraints.\<close>

primrec FFeatures_NonParentORU_vector :: "FFeatures \<Rightarrow> ObjectReferenceUsage list"
and FTerm_NonParentORU_vector :: "FTerm \<Rightarrow> ObjectReferenceUsage list"
and FFactor_NonParentORU_vector :: "FFactor \<Rightarrow> ObjectReferenceUsage list" where
  "FFeatures_NonParentORU_vector (FFeatures_fterm t) = FTerm_NonParentORU_vector t"
| "FFeatures_NonParentORU_vector (FFeatures_or f t) = FFeatures_NonParentORU_vector f @ FTerm_NonParentORU_vector t"
| "FTerm_NonParentORU_vector (FTerm_ffactor f) = FFactor_NonParentORU_vector f"
| "FTerm_NonParentORU_vector (FTerm_and t f) = FTerm_NonParentORU_vector t @ FFactor_NonParentORU_vector f"
| "FFactor_NonParentORU_vector (FFactor_not f) = FFactor_NonParentORU_vector f"
| "FFactor_NonParentORU_vector (FFactor_paren f) = FFeatures_NonParentORU_vector f"
| "FFactor_NonParentORU_vector (FFactor_comparison fc) =
     (case fc_value fc of Some (kValObjectReferenceUsage oru) \<Rightarrow> if \<not> oru_ORDIsParent oru then [oru] else [] | _ \<Rightarrow> [])"

definition constraint_references2 ::
  "ORDMap \<Rightarrow> QueryNode list \<Rightarrow> (int \<Rightarrow> string set) \<Rightarrow> FeatureConstraint \<Rightarrow> Retrievals \<Rightarrow> (FeatureConstraint \<times> Retrievals) res" where
  "constraint_references2 m v children c rt =
     (let ORDs = map oru_object_reference (FFeatures_NonParentORU_vector (ffc_ffeatures c))
      in bind_res (BS2_list v children ORDs (ffc_block_string2_parent c)) (\<lambda>bs2_nns.
         let (vec, matched) = matched_places m children ORDs bs2_nns (ffc_OBBs c, Map.empty)
         in map_changed (\<lambda>f. c\<lparr>ffc_ffeatures := f, ffc_BlockString2List := ffc_BlockString2List c @ bs2_nns, ffc_OBBs := vec\<rparr>)
              (FFeatures_symbolObjectReferences2 (ffc_ffeatures c) m v matched rt)))"

definition inner_references2 :: "Blocks option \<Rightarrow> (Retrievals \<Rightarrow> (Blocks \<times> Retrievals) res) option \<Rightarrow> Retrievals \<Rightarrow>
  (Blocks option \<times> Retrievals) res" where
  "inner_references2 opt_blocks inner rt =
     (case inner of None \<Rightarrow> Inr (opt_blocks, rt) | Some f \<Rightarrow> map_changed Some (f rt))"

definition ObjectBlock_references2_info :: "ORDMap \<Rightarrow> QueryNode list \<Rightarrow> (int \<Rightarrow> string set) \<Rightarrow> ObjectBlockInfo \<Rightarrow> Blocks option \<Rightarrow>
  (Retrievals \<Rightarrow> (Blocks \<times> Retrievals) res) option \<Rightarrow> Retrievals \<Rightarrow> (ObjectBlock \<times> Retrievals) res" where
  "ObjectBlock_references2_info m v children ob opt_blocks inner rt =
     bind_res (case ob_feature_constraints ob of
        None \<Rightarrow> Inr (ob, rt)
      | Some c \<Rightarrow> map_changed (\<lambda>c1. ob\<lparr>ob_feature_constraints := Some c1\<rparr>) (constraint_references2 m v children c rt)) (\<lambda>(ob1, rt1).
     map_changed (ObjectBlock ob1) (inner_references2 opt_blocks inner rt1))"

primrec Blocks_symbolObjectReferences2 ::
  "Blocks \<Rightarrow> ORDMap \<Rightarrow> QueryNode list \<Rightarrow> (int \<Rightarrow> string set) \<Rightarrow> Retrievals \<Rightarrow> (Blocks \<times> Retrievals) res"
and BlockString_symbolObjectReferences2 ::
  "BlockString \<Rightarrow> ORDMap \<Rightarrow> QueryNode list \<Rightarrow> (int \<Rightarrow> string set) \<Rightarrow> Retrievals \<Rightarrow> (BlockString \<times> Retrievals) res"
and BlockString2_symbolObjectReferences2 ::
  "BlockString2 \<Rightarrow> ORDMap \<Rightarrow> QueryNode list \<Rightarrow> (int \<Rightarrow> string set) \<Rightarrow> Retrievals \<Rightarrow> (BlockString2 \<times> Retrievals) res"
and BlockString1_symbolObjectReferences2 ::
  "BlockString1 \<Rightarrow> ORDMap \<Rightarrow> QueryNode list \<Rightarrow> (int \<Rightarrow> string set) \<Rightarrow> Retrievals \<Rightarrow> (BlockString1 \<times> Retrievals) res"
and BlockString0_symbolObjectReferences2 ::
  "BlockString0 \<Rightarrow> ORDMap \<Rightarrow> QueryNode list \<Rightarrow> (int \<Rightarrow> string set) \<Rightarrow> Retrievals \<Rightarrow> (BlockString0 \<times> Retrievals) res"
and Block_symbolObjectReferences2 ::
  "Block \<Rightarrow> ORDMap \<Rightarrow> QueryNode list \<Rightarrow> (int \<Rightarrow> string set) \<Rightarrow> Retrievals \<Rightarrow> (Block \<times> Retrievals) res"
and GapBlock_symbolObjectReferences2 ::
  "GapBlock \<Rightarrow> ORDMap \<Rightarrow> QueryNode list \<Rightarrow> (int \<Rightarrow> string set) \<Rightarrow> Retrievals \<Rightarrow> (GapBlock \<times> Retrievals) res"
and ObjectBlock_symbolObjectReferences2 ::
  "ObjectBlock \<Rightarrow> ORDMap \<Rightarrow> QueryNode list \<Rightarrow> (int \<Rightarrow> string set) \<Rightarrow> Retrievals \<Rightarrow> (ObjectBlock \<times> Retrievals) res"
and ObjectBlockString_symbolObjectReferences2 ::
  "ObjectBlockString \<Rightarrow> ORDMap \<Rightarrow> QueryNode list \<Rightarrow> (int \<Rightarrow> string set) \<Rightarrow> Retrievals \<Rightarrow> (ObjectBlockString \<times> Retrievals) res" where
  "Blocks_symbolObjectReferences2 (Blocks_string bs ur) = (\<lambda>m v ch rt. map_changed (\<lambda>x. Blocks_string x ur) (BlockString_symbolObjectReferences2 bs m v ch rt))"
| "Blocks_symbolObjectReferences2 (Blocks_unordered obs) = (\<lambda>m v ch rt. map_changed Blocks_unordered (ObjectBlockString_symbolObjectReferences2 obs m v ch rt))"
| "BlockString_symbolObjectReferences2 (BlockString_bs2 b2) = (\<lambda>m v ch rt. map_changed BlockString_bs2 (BlockString2_symbolObjectReferences2 b2 m v ch rt))"
| "BlockString_symbolObjectReferences2 (BlockString_or b2 bs) = (\<lambda>m v ch rt.
     bind_res (BlockString2_symbolObjectReferences2 b2 m v ch rt) (\<lambda>(x, rt1).
       map_changed (BlockString_or x) (BlockString_symbolObjectReferences2 bs m v ch rt1)))"
| "BlockString2_symbolObjectReferences2 (BlockString2_bs1 n b1) = (\<lambda>m v ch rt. map_changed (BlockString2_bs1 n) (BlockString1_symbolObjectReferences2 b1 m v ch rt))"
| "BlockString2_symbolObjectReferences2 (BlockString2_seq n b1 b2) = (\<lambda>m v ch rt.
     bind_res (BlockString1_symbolObjectReferences2 b1 m v ch rt) (\<lambda>(x, rt1).
       map_changed (BlockString2_seq n x) (BlockString2_symbolObjectReferences2 b2 m v ch rt1)))"
| "BlockString1_symbolObjectReferences2 (BlockString1_bs0 b0) = (\<lambda>m v ch rt. map_changed BlockString1_bs0 (BlockString0_symbolObjectReferences2 b0 m v ch rt))"
| "BlockString1_symbolObjectReferences2 (BlockString1_star b0 mse som) = (\<lambda>m v ch rt. map_changed (\<lambda>x. BlockString1_star x mse som) (BlockString0_symbolObjectReferences2 b0 m v ch rt))"
| "BlockString0_symbolObjectReferences2 (BlockString0_block b) = (\<lambda>m v ch rt. map_changed BlockString0_block (Block_symbolObjectReferences2 b m v ch rt))"
| "BlockString0_symbolObjectReferences2 (BlockString0_string bs) = (\<lambda>m v ch rt. map_changed BlockString0_string (BlockString_symbolObjectReferences2 bs m v ch rt))"
| "Block_symbolObjectReferences2 (kOptGapBlock g) = (\<lambda>m v ch rt. map_changed kOptGapBlock (GapBlock_symbolObjectReferences2 g m v ch rt))"
| "Block_symbolObjectReferences2 (kGapBlock g) = (\<lambda>m v ch rt. map_changed kGapBlock (GapBlock_symbolObjectReferences2 g m v ch rt))"
| "Block_symbolObjectReferences2 (kPowerBlock p) = (\<lambda>m v ch rt. Inr (kPowerBlock p, rt))"
| "Block_symbolObjectReferences2 (kObjectBlock ob) = (\<lambda>m v ch rt. map_changed kObjectBlock (ObjectBlock_symbolObjectReferences2 ob m v ch rt))"
| "Block_symbolObjectReferences2 (kObjectBlockNOTEXIST ob) = (\<lambda>m v ch rt. map_changed kObjectBlockNOTEXIST (ObjectBlock_symbolObjectReferences2 ob m v ch rt))"
| "GapBlock_symbolObjectReferences2 (GapBlock g opt_blocks) = (\<lambda>m v ch rt. map_changed (GapBlock g)
     (inner_references2 opt_blocks (map_option (\<lambda>f. f m v ch) (map_option Blocks_symbolObjectReferences2 opt_blocks)) rt))"
| "ObjectBlock_symbolObjectReferences2 (ObjectBlock ob opt_blocks) = (\<lambda>m v ch. ObjectBlock_references2_info m v ch ob opt_blocks
     (map_option (\<lambda>f. f m v ch) (map_option Blocks_symbolObjectReferences2 opt_blocks)))"
| "ObjectBlockString_symbolObjectReferences2 (ObjectBlockString_one ob) = (\<lambda>m v ch rt. map_changed ObjectBlockString_one (ObjectBlock_symbolObjectReferences2 ob m v ch rt))"
| "ObjectBlockString_symbolObjectReferences2 (ObjectBlockString_more obs ob) = (\<lambda>m v ch rt.
     bind_res (ObjectBlockString_symbolObjectReferences2 obs m v ch rt) (\<lambda>(x, rt1).
       map_changed (ObjectBlockString_more x) (ObjectBlock_symbolObjectReferences2 ob m v ch rt1)))"

section \<open>The phase\<close>

text \<open>A query with its object blocks and star sets changed.\<close>

primrec Blocks_each :: "(ObjectBlockInfo \<Rightarrow> ObjectBlockInfo) \<Rightarrow> (SetOfMonads \<Rightarrow> SetOfMonads) \<Rightarrow> Blocks \<Rightarrow> Blocks"
and BlockString_each :: "(ObjectBlockInfo \<Rightarrow> ObjectBlockInfo) \<Rightarrow> (SetOfMonads \<Rightarrow> SetOfMonads) \<Rightarrow> BlockString \<Rightarrow> BlockString"
and BlockString2_each :: "(ObjectBlockInfo \<Rightarrow> ObjectBlockInfo) \<Rightarrow> (SetOfMonads \<Rightarrow> SetOfMonads) \<Rightarrow> BlockString2 \<Rightarrow> BlockString2"
and BlockString1_each :: "(ObjectBlockInfo \<Rightarrow> ObjectBlockInfo) \<Rightarrow> (SetOfMonads \<Rightarrow> SetOfMonads) \<Rightarrow> BlockString1 \<Rightarrow> BlockString1"
and BlockString0_each :: "(ObjectBlockInfo \<Rightarrow> ObjectBlockInfo) \<Rightarrow> (SetOfMonads \<Rightarrow> SetOfMonads) \<Rightarrow> BlockString0 \<Rightarrow> BlockString0"
and Block_each :: "(ObjectBlockInfo \<Rightarrow> ObjectBlockInfo) \<Rightarrow> (SetOfMonads \<Rightarrow> SetOfMonads) \<Rightarrow> Block \<Rightarrow> Block"
and GapBlock_each :: "(ObjectBlockInfo \<Rightarrow> ObjectBlockInfo) \<Rightarrow> (SetOfMonads \<Rightarrow> SetOfMonads) \<Rightarrow> GapBlock \<Rightarrow> GapBlock"
and ObjectBlock_each :: "(ObjectBlockInfo \<Rightarrow> ObjectBlockInfo) \<Rightarrow> (SetOfMonads \<Rightarrow> SetOfMonads) \<Rightarrow> ObjectBlock \<Rightarrow> ObjectBlock"
and ObjectBlockString_each ::
  "(ObjectBlockInfo \<Rightarrow> ObjectBlockInfo) \<Rightarrow> (SetOfMonads \<Rightarrow> SetOfMonads) \<Rightarrow> ObjectBlockString \<Rightarrow> ObjectBlockString" where
  "Blocks_each h k (Blocks_string bs ur) = Blocks_string (BlockString_each h k bs) ur"
| "Blocks_each h k (Blocks_unordered obs) = Blocks_unordered (ObjectBlockString_each h k obs)"
| "BlockString_each h k (BlockString_bs2 b2) = BlockString_bs2 (BlockString2_each h k b2)"
| "BlockString_each h k (BlockString_or b2 bs) = BlockString_or (BlockString2_each h k b2) (BlockString_each h k bs)"
| "BlockString2_each h k (BlockString2_bs1 n b1) = BlockString2_bs1 n (BlockString1_each h k b1)"
| "BlockString2_each h k (BlockString2_seq n b1 b2) = BlockString2_seq n (BlockString1_each h k b1) (BlockString2_each h k b2)"
| "BlockString1_each h k (BlockString1_bs0 b0) = BlockString1_bs0 (BlockString0_each h k b0)"
| "BlockString1_each h k (BlockString1_star b0 mse som) = BlockString1_star (BlockString0_each h k b0) mse (k som)"
| "BlockString0_each h k (BlockString0_block b) = BlockString0_block (Block_each h k b)"
| "BlockString0_each h k (BlockString0_string bs) = BlockString0_string (BlockString_each h k bs)"
| "Block_each h k (kOptGapBlock g) = kOptGapBlock (GapBlock_each h k g)"
| "Block_each h k (kGapBlock g) = kGapBlock (GapBlock_each h k g)"
| "Block_each h k (kPowerBlock p) = kPowerBlock p"
| "Block_each h k (kObjectBlock ob) = kObjectBlock (ObjectBlock_each h k ob)"
| "Block_each h k (kObjectBlockNOTEXIST ob) = kObjectBlockNOTEXIST (ObjectBlock_each h k ob)"
| "GapBlock_each h k (GapBlock g opt_blocks) = GapBlock g (map_option (Blocks_each h k) opt_blocks)"
| "ObjectBlock_each h k (ObjectBlock ob opt_blocks) = ObjectBlock (h ob) (map_option (Blocks_each h k) opt_blocks)"
| "ObjectBlockString_each h k (ObjectBlockString_one ob) = ObjectBlockString_one (ObjectBlock_each h k ob)"
| "ObjectBlockString_each h k (ObjectBlockString_more obs ob) =
     ObjectBlockString_more (ObjectBlockString_each h k obs) (ObjectBlock_each h k ob)"

text \<open>What the pointers to the nodes of the query see, before and after.\<close>

definition object_of :: "QueryNode list \<Rightarrow> int \<Rightarrow> ObjectBlockInfo option" where
  "object_of v nn = (case getNodeFromNodeNumber v nn of Inr (kQNKObjectBlock ob) \<Rightarrow> Some ob | _ \<Rightarrow> None)"

definition retrievals_of :: "QueryNode list \<Rightarrow> Retrievals" where
  "retrievals_of v = \<lparr>rt_object = (\<lambda>nn. case object_of v nn of None \<Rightarrow> [] | Some ob \<Rightarrow> ob_object ob),
     rt_Feature_retrieval_vec = (\<lambda>nn. case object_of v nn of None \<Rightarrow> [] | Some ob \<Rightarrow> ob_Feature_retrieval_vec ob)\<rparr>"

definition with_retrievals :: "Retrievals \<Rightarrow> ObjectBlockInfo \<Rightarrow> ObjectBlockInfo" where
  "with_retrievals rt ob = (let nn = obb_node_number (ob_base ob)
     in ob\<lparr>ob_object := rt_object rt nn, ob_Feature_retrieval_vec := rt_Feature_retrieval_vec rt nn\<rparr>)"

definition Topograph_symbol :: "Blocks \<Rightarrow> SymbolDB \<Rightarrow> ORDMap \<Rightarrow> (Blocks \<times> bool) res" where
  "Topograph_symbol t db m =
     bind_res (Blocks_symbol t db m) (\<lambda>(t1, m1, bResult).
       if bResult
       then let v = Blocks_nodes t1
            in bind_res (Blocks_symbolObjectReferences t1 m1 v no_references) (\<lambda>(t2, rs, bResult2).
                 if \<not> bResult2 then Inr (t2, bResult2)
                 else bind_res (Blocks_symbolObjectReferences2 t2 m1 v (rs_ORD_children rs) (retrievals_of v)) (\<lambda>(t3, rt).
                   Inr (Blocks_each (with_retrievals rt) (\<lambda>s. s) t3, bResult2)))
       else Inr (t1, bResult))"

declare BS2_parents.simps [simp del] BS2_parent_in.simps [simp del]

end
