(* ===== verification/References_Props.thy ===== *)
theory References_Props
  imports References Checked_Props
begin

text \<open>
  Which references a query may use, and where their values are found: the scopes of names, the strings
  that a block is nested in, and that the visits of the tree compute them from the numbers and
  parents that weeding has set.
\<close>

section \<open>Names, uses and scopes\<close>

definition reference_of :: "FeatureComparison \<Rightarrow> ObjectReferenceUsage option" where
  "reference_of fc = (case fc_value fc of Some (kValObjectReferenceUsage oru) \<Rightarrow> Some oru | _ \<Rightarrow> None)"

definition references_of :: "FeatureComparison list \<Rightarrow> ObjectReferenceUsage list" where
  "references_of fcs = List.map_filter reference_of fcs"

definition ob_references :: "ObjectBlockInfo \<Rightarrow> ObjectReferenceUsage list" where
  "ob_references ob = references_of (ob_comparisons ob)"

definition ob_names :: "ObjectBlockInfo \<Rightarrow> string list" where
  "ob_names ob = (if ob_object_reference_lower ob = [] then [] else [ob_object_reference_lower ob])"

definition head_name :: "ObjectBlockInfo option \<Rightarrow> string set" where
  "head_name h = (case h of None \<Rightarrow> {} | Some ob \<Rightarrow> {ob_object_reference_lower ob})"

text \<open>The names that a query declares, in the order of the visit, and the uses of names.\<close>

definition declared_names :: "part list \<Rightarrow> string list" where
  "declared_names ps = concat (map (\<lambda>q. case q of P_object b ob \<Rightarrow> ob_names ob | _ \<Rightarrow> []) ps)"

definition used_references :: "part list \<Rightarrow> ObjectReferenceUsage list" where
  "used_references ps = concat (map (\<lambda>q. case q of P_object b ob \<Rightarrow> ob_references ob | _ \<Rightarrow> []) ps)"

lemma names_simps [simp]:
  "declared_names [] = []" "declared_names (ps @ qs) = declared_names ps @ declared_names qs"
  "declared_names (P_string n # ps) = declared_names ps" "declared_names (P_gap g # ps) = declared_names ps"
  "declared_names (P_object b ob # ps) = ob_names ob @ declared_names ps"
  "used_references [] = []" "used_references (ps @ qs) = used_references ps @ used_references qs"
  "used_references (P_string n # ps) = used_references ps" "used_references (P_gap g # ps) = used_references ps"
  "used_references (P_object b ob # ps) = ob_references ob @ used_references ps"
  by (simp_all add: declared_names_def used_references_def)

text \<open>
  What is in scope behind a part of a query, besides what was before it: an alternative, a star, a
  \<^verbatim>\<open>NOTEXIST\<close> block and an unordered group keep their names to themselves, except that the last
  alternative of a string does not.
\<close>

primrec Blocks_exports :: "Blocks \<Rightarrow> string set"
and BlockString_exports :: "BlockString \<Rightarrow> string set"
and BlockString2_exports :: "BlockString2 \<Rightarrow> string set"
and BlockString1_exports :: "BlockString1 \<Rightarrow> string set"
and BlockString0_exports :: "BlockString0 \<Rightarrow> string set"
and Block_exports :: "Block \<Rightarrow> string set"
and GapBlock_exports :: "GapBlock \<Rightarrow> string set"
and ObjectBlock_exports :: "ObjectBlock \<Rightarrow> string set"
and ObjectBlockString_exports :: "ObjectBlockString \<Rightarrow> string set" where
  "Blocks_exports (Blocks_string bs ur) = BlockString_exports bs"
| "Blocks_exports (Blocks_unordered obs) = {}"
| "BlockString_exports (BlockString_bs2 b2) = BlockString2_exports b2"
| "BlockString_exports (BlockString_or b2 bs) = BlockString_exports bs"
| "BlockString2_exports (BlockString2_bs1 n b1) = BlockString1_exports b1"
| "BlockString2_exports (BlockString2_seq n b1 b2) = BlockString1_exports b1 \<union> BlockString2_exports b2"
| "BlockString1_exports (BlockString1_bs0 b0) = BlockString0_exports b0"
| "BlockString1_exports (BlockString1_star b0 mse som) = {}"
| "BlockString0_exports (BlockString0_block b) = Block_exports b"
| "BlockString0_exports (BlockString0_string bs) = BlockString_exports bs"
| "Block_exports (kOptGapBlock g) = GapBlock_exports g"
| "Block_exports (kGapBlock g) = GapBlock_exports g"
| "Block_exports (kPowerBlock p) = {}"
| "Block_exports (kObjectBlock ob) = ObjectBlock_exports ob"
| "Block_exports (kObjectBlockNOTEXIST ob) = {}"
| "GapBlock_exports (GapBlock g opt_blocks) = (case map_option Blocks_exports opt_blocks of None \<Rightarrow> {} | Some e \<Rightarrow> e)"
| "ObjectBlock_exports (ObjectBlock ob opt_blocks) =
     set (ob_names ob) \<union> (case map_option Blocks_exports opt_blocks of None \<Rightarrow> {} | Some e \<Rightarrow> e)"
| "ObjectBlockString_exports (ObjectBlockString_one ob) = {}"
| "ObjectBlockString_exports (ObjectBlockString_more obs ob) = {}"

text \<open>
  The uses of names, each with the names in scope (\<open>S\<close>), and the names of the blocks that the strings it
  is nested in start with (\<open>H\<close>). A block of an unordered group starts no string.
\<close>

type_synonym use = "ObjectReferenceUsage \<times> string set \<times> string set"

definition inner_uses :: "(string set \<Rightarrow> string set \<Rightarrow> use list) option \<Rightarrow> string set \<Rightarrow> string set \<Rightarrow> use list" where
  "inner_uses inner S H = (case inner of None \<Rightarrow> [] | Some f \<Rightarrow> f S H)"

primrec Blocks_uses :: "Blocks \<Rightarrow> string set \<Rightarrow> string set \<Rightarrow> use list"
and BlockString_uses :: "BlockString \<Rightarrow> string set \<Rightarrow> string set \<Rightarrow> use list"
and BlockString2_uses :: "BlockString2 \<Rightarrow> string set \<Rightarrow> string set \<Rightarrow> use list"
and BlockString1_uses :: "BlockString1 \<Rightarrow> string set \<Rightarrow> string set \<Rightarrow> use list"
and BlockString0_uses :: "BlockString0 \<Rightarrow> string set \<Rightarrow> string set \<Rightarrow> use list"
and Block_uses :: "Block \<Rightarrow> string set \<Rightarrow> string set \<Rightarrow> use list"
and GapBlock_uses :: "GapBlock \<Rightarrow> string set \<Rightarrow> string set \<Rightarrow> use list"
and ObjectBlock_uses :: "ObjectBlock \<Rightarrow> string set \<Rightarrow> string set \<Rightarrow> use list"
and ObjectBlockString_uses :: "ObjectBlockString \<Rightarrow> string set \<Rightarrow> string set \<Rightarrow> use list" where
  "Blocks_uses (Blocks_string bs ur) = BlockString_uses bs"
| "Blocks_uses (Blocks_unordered obs) = ObjectBlockString_uses obs"
| "BlockString_uses (BlockString_bs2 b2) = BlockString2_uses b2"
| "BlockString_uses (BlockString_or b2 bs) = (\<lambda>S H. BlockString2_uses b2 S H @ BlockString_uses bs S H)"
| "BlockString2_uses (BlockString2_bs1 n b1) = (\<lambda>S H. BlockString1_uses b1 S (H \<union> head_name (getImmediateObjectBlock b1)))"
| "BlockString2_uses (BlockString2_seq n b1 b2) = (\<lambda>S H.
     BlockString1_uses b1 S (H \<union> head_name (getImmediateObjectBlock b1)) @ BlockString2_uses b2 (S \<union> BlockString1_exports b1) H)"
| "BlockString1_uses (BlockString1_bs0 b0) = BlockString0_uses b0"
| "BlockString1_uses (BlockString1_star b0 mse som) = BlockString0_uses b0"
| "BlockString0_uses (BlockString0_block b) = Block_uses b"
| "BlockString0_uses (BlockString0_string bs) = BlockString_uses bs"
| "Block_uses (kOptGapBlock g) = GapBlock_uses g"
| "Block_uses (kGapBlock g) = GapBlock_uses g"
| "Block_uses (kPowerBlock p) = (\<lambda>S H. [])"
| "Block_uses (kObjectBlock ob) = ObjectBlock_uses ob"
| "Block_uses (kObjectBlockNOTEXIST ob) = ObjectBlock_uses ob"
| "GapBlock_uses (GapBlock g opt_blocks) = inner_uses (map_option Blocks_uses opt_blocks)"
| "ObjectBlock_uses (ObjectBlock ob opt_blocks) = (\<lambda>S H. let S1 = S \<union> set (ob_names ob)
     in map (\<lambda>r. (r, S1, H)) (ob_references ob) @ inner_uses (map_option Blocks_uses opt_blocks) S1 H)"
| "ObjectBlockString_uses (ObjectBlockString_one ob) = ObjectBlock_uses ob"
| "ObjectBlockString_uses (ObjectBlockString_more obs ob) = (\<lambda>S H. ObjectBlockString_uses obs S H @ ObjectBlock_uses ob S H)"

text \<open>The names inside each string, by its number.\<close>

primrec Blocks_children :: "Blocks \<Rightarrow> (int \<times> string) set"
and BlockString_children :: "BlockString \<Rightarrow> (int \<times> string) set"
and BlockString2_children :: "BlockString2 \<Rightarrow> (int \<times> string) set"
and BlockString1_children :: "BlockString1 \<Rightarrow> (int \<times> string) set"
and BlockString0_children :: "BlockString0 \<Rightarrow> (int \<times> string) set"
and Block_children :: "Block \<Rightarrow> (int \<times> string) set"
and GapBlock_children :: "GapBlock \<Rightarrow> (int \<times> string) set"
and ObjectBlock_children :: "ObjectBlock \<Rightarrow> (int \<times> string) set"
and ObjectBlockString_children :: "ObjectBlockString \<Rightarrow> (int \<times> string) set" where
  "Blocks_children (Blocks_string bs ur) = BlockString_children bs"
| "Blocks_children (Blocks_unordered obs) = ObjectBlockString_children obs"
| "BlockString_children (BlockString_bs2 b2) = BlockString2_children b2"
| "BlockString_children (BlockString_or b2 bs) = BlockString2_children b2 \<union> BlockString_children bs"
| "BlockString2_children (BlockString2_bs1 n b1) =
     {bs2_node_number n} \<times> set (declared_names (BlockString1_parts b1)) \<union> BlockString1_children b1"
| "BlockString2_children (BlockString2_seq n b1 b2) =
     {bs2_node_number n} \<times> set (declared_names (BlockString1_parts b1)) \<union> BlockString1_children b1 \<union> BlockString2_children b2"
| "BlockString1_children (BlockString1_bs0 b0) = BlockString0_children b0"
| "BlockString1_children (BlockString1_star b0 mse som) = BlockString0_children b0"
| "BlockString0_children (BlockString0_block b) = Block_children b"
| "BlockString0_children (BlockString0_string bs) = BlockString_children bs"
| "Block_children (kOptGapBlock g) = GapBlock_children g"
| "Block_children (kGapBlock g) = GapBlock_children g"
| "Block_children (kPowerBlock p) = {}"
| "Block_children (kObjectBlock ob) = ObjectBlock_children ob"
| "Block_children (kObjectBlockNOTEXIST ob) = ObjectBlock_children ob"
| "GapBlock_children (GapBlock g opt_blocks) = (case map_option Blocks_children opt_blocks of None \<Rightarrow> {} | Some e \<Rightarrow> e)"
| "ObjectBlock_children (ObjectBlock ob opt_blocks) = (case map_option Blocks_children opt_blocks of None \<Rightarrow> {} | Some e \<Rightarrow> e)"
| "ObjectBlockString_children (ObjectBlockString_one ob) = ObjectBlock_children ob"
| "ObjectBlockString_children (ObjectBlockString_more obs ob) = ObjectBlockString_children obs \<union> ObjectBlock_children ob"

text \<open>The uses are those of the parts, in the same order.\<close>

lemma inner_uses_simps [simp]: "inner_uses None S H = []" "inner_uses (Some f) S H = f S H"
  by (simp_all add: inner_uses_def)

lemma uses_parts:
  "map fst (Blocks_uses bl S H) = used_references (Blocks_parts bl)"
  "map fst (BlockString_uses bs S H) = used_references (BlockString_parts bs)"
  "map fst (BlockString2_uses b2 S H) = used_references (BlockString2_parts b2)"
  "map fst (BlockString1_uses b1 S H) = used_references (BlockString1_parts b1)"
  "map fst (BlockString0_uses b0 S H) = used_references (BlockString0_parts b0)"
  "map fst (Block_uses bk S H) = used_references (Block_parts bk)"
  "map fst (GapBlock_uses gb S H) = used_references (GapBlock_parts gb)"
  "map fst (ObjectBlock_uses ob S H) = used_references (ObjectBlock_parts ob b)"
  "map fst (ObjectBlockString_uses obs S H) = used_references (ObjectBlockString_parts obs)"
proof (induction bl and bs and b2 and b1 and b0 and bk and gb and ob and obs
    arbitrary: S H and S H and S H and S H and S H and S H and S H and b S H and S H)
  case (GapBlock g opt)
  then show ?case by (cases opt) auto
next
  case (ObjectBlock j opt)
  then show ?case by (cases opt) (auto simp: Let_def comp_def)
qed simp_all

section \<open>Parents\<close>

definition inner_parented :: "(int \<Rightarrow> bool) option \<Rightarrow> int \<Rightarrow> bool" where
  "inner_parented inner p \<longleftrightarrow> (case inner of None \<Rightarrow> True | Some f \<Rightarrow> f p)"

lemma inner_parented_simps [simp]: "inner_parented None p" "inner_parented (Some f) p = f p"
  by (simp_all add: inner_parented_def)

definition ob_parented :: "ObjectBlockInfo \<Rightarrow> int \<Rightarrow> bool" where
  "ob_parented ob p \<longleftrightarrow> ob_block_string2_parent ob = p \<and>
     (\<forall>c. ob_feature_constraints ob = Some c \<longrightarrow> ffc_block_string2_parent c = p)"

primrec Blocks_parented :: "Blocks \<Rightarrow> int \<Rightarrow> bool"
and BlockString_parented :: "BlockString \<Rightarrow> int \<Rightarrow> bool"
and BlockString2_parented :: "BlockString2 \<Rightarrow> int \<Rightarrow> bool"
and BlockString1_parented :: "BlockString1 \<Rightarrow> int \<Rightarrow> bool"
and BlockString0_parented :: "BlockString0 \<Rightarrow> int \<Rightarrow> bool"
and Block_parented :: "Block \<Rightarrow> int \<Rightarrow> bool"
and GapBlock_parented :: "GapBlock \<Rightarrow> int \<Rightarrow> bool"
and ObjectBlock_parented :: "ObjectBlock \<Rightarrow> int \<Rightarrow> bool"
and ObjectBlockString_parented :: "ObjectBlockString \<Rightarrow> int \<Rightarrow> bool" where
  "Blocks_parented (Blocks_string bs ur) = BlockString_parented bs"
| "Blocks_parented (Blocks_unordered obs) = ObjectBlockString_parented obs"
| "BlockString_parented (BlockString_bs2 b2) = BlockString2_parented b2"
| "BlockString_parented (BlockString_or b2 bs) = (\<lambda>p. BlockString2_parented b2 p \<and> BlockString_parented bs p)"
| "BlockString2_parented (BlockString2_bs1 n b1) = (\<lambda>p. bs2_parent n = p \<and> p < bs2_node_number n \<and>
     BlockString1_parented b1 (bs2_node_number n))"
| "BlockString2_parented (BlockString2_seq n b1 b2) = (\<lambda>p. bs2_parent n = p \<and> p < bs2_node_number n \<and>
     BlockString1_parented b1 (bs2_node_number n) \<and> BlockString2_parented b2 p)"
| "BlockString1_parented (BlockString1_bs0 b0) = BlockString0_parented b0"
| "BlockString1_parented (BlockString1_star b0 mse som) = BlockString0_parented b0"
| "BlockString0_parented (BlockString0_block b) = Block_parented b"
| "BlockString0_parented (BlockString0_string bs) = BlockString_parented bs"
| "Block_parented (kOptGapBlock g) = GapBlock_parented g"
| "Block_parented (kGapBlock g) = GapBlock_parented g"
| "Block_parented (kPowerBlock pw) = (\<lambda>p. True)"
| "Block_parented (kObjectBlock ob) = ObjectBlock_parented ob"
| "Block_parented (kObjectBlockNOTEXIST ob) = ObjectBlock_parented ob"
| "GapBlock_parented (GapBlock g opt_blocks) = inner_parented (map_option Blocks_parented opt_blocks)"
| "ObjectBlock_parented (ObjectBlock ob opt_blocks) = (\<lambda>p. ob_parented ob p \<and> inner_parented (map_option Blocks_parented opt_blocks) p)"
| "ObjectBlockString_parented (ObjectBlockString_one ob) = ObjectBlock_parented ob"
| "ObjectBlockString_parented (ObjectBlockString_more obs ob) = (\<lambda>p. ObjectBlockString_parented obs p \<and> ObjectBlock_parented ob p)"

text \<open>Weeding sets the parents, and a string has a larger number than the string it is nested in.\<close>

definition parents_set :: "('a \<Rightarrow> int \<Rightarrow> bool) \<Rightarrow> int \<Rightarrow> WeedState \<Rightarrow> 'a \<times> WeedState \<Rightarrow> bool" where
  "parents_set parented p st r \<longleftrightarrow> (case r of (x', st') \<Rightarrow>
     ws_bResult st' \<longrightarrow> p < ws_nodes st \<longrightarrow> parented x' p \<and> ws_nodes st \<le> ws_nodes st')"

lemma parents_set_pair [simp]:
  "parents_set parented p st (x', st') \<longleftrightarrow> (ws_bResult st' \<longrightarrow> p < ws_nodes st \<longrightarrow> parented x' p \<and> ws_nodes st \<le> ws_nodes st')"
  by (simp add: parents_set_def)

lemma parents_constraints:
  assumes "weedFeatureConstraints c ob st = Inr (ob', st')" "ob_block_string2_parent ob = p"
    "\<And>x. ob_feature_constraints ob = Some x \<Longrightarrow> True"
  shows "ob_parented ob' p" "ws_nodes st \<le> ws_nodes st'"
  using assms by (auto simp: weedFeatureConstraints_def getNextNodeNumber_def Let_def ob_parented_def bind_res_Inr_iff
      split: option.splits)

lemma parents_ObjectBlock:
  assumes "\<And>f st b' st'. inner = Some f \<Longrightarrow> f p st = Inr (b', st') \<Longrightarrow> parents_set Blocks_parented p st (b', st')"
    "inner = None \<longleftrightarrow> opt = None" "ObjectBlock_weed_info c i opt inner f l only p st = Inr (ob', st')"
  shows "parents_set ObjectBlock_parented p st (ob', st')"
proof -
  from assms(3) obtain ob1 st1 ob2 st2 opt1 st3 where s: "ObjectBlock_mark i f l only p st = (ob1, st1)"
    "if ws_bResult st1 then weedFeatureConstraints c ob1 st1 = Inr (ob2, st2) else ob2 = ob1 \<and> st2 = st1"
    "if ws_bResult st2 then weed_inner opt inner p st2 = Inr (opt1, st3) else opt1 = opt \<and> st3 = st2"
    "ob' = ObjectBlock ob2 opt1" "st' = (if \<not> ob_bIsNOTEXIST ob2 then met st3 else st3)"
    by (rule ObjectBlock_weed_steps)
  have 1: "ob_block_string2_parent ob1 = p" "ws_nodes st1 = ws_nodes st + 1"
    using s(1) by (auto simp: ObjectBlock_mark_def getNextNodeNumber_def Let_def)
  show ?thesis
  proof (cases "ws_bResult st3 \<and> p < ws_nodes st")
    case True
    then have r: "ws_bResult st2" "ws_bResult st1" using s(2,3) by (auto split: if_splits)
    then have c: "weedFeatureConstraints c ob1 st1 = Inr (ob2, st2)" and i: "weed_inner opt inner p st2 = Inr (opt1, st3)"
      using s(2,3) by auto
    note p = parents_constraints[OF c 1(1)]
    have "inner_parented (map_option Blocks_parented opt1) p \<and> ws_nodes st2 \<le> ws_nodes st3"
    proof (cases inner)
      case None
      then show ?thesis using i assms(2) by (simp add: weed_inner_Inr)
    next
      case (Some g)
      then obtain b where b: "g p st2 = Inr (b, st3)" "opt1 = Some b" using i by (auto simp: weed_inner_Inr)
      from assms(1)[OF Some b(1)] True p(2) 1(2) b(2) show ?thesis by simp
    qed
    then show ?thesis using p 1 s(4,5) by simp
  next
    case False
    then show ?thesis using s(4,5) by (auto split: if_splits)
  qed
qed

lemma weed_parents:
  "Blocks_weed bl c p st = Inr (bl', st') \<Longrightarrow> parents_set Blocks_parented p st (bl', st')"
  "BlockString_weed bs c pl st = Inr (bs', st') \<Longrightarrow> parents_set BlockString_parented (pl_parent pl) st (bs', st')"
  "BlockString2_weed b2 c pl st = Inr (b2', st') \<Longrightarrow> parents_set BlockString2_parented (pl_parent pl) st (b2', st')"
  "BlockString1_weed b1 c pl st = Inr (b1', st') \<Longrightarrow> parents_set BlockString1_parented (pl_parent pl) st (b1', st')"
  "BlockString0_weed b0 c pl st = Inr (b0', st') \<Longrightarrow> parents_set BlockString0_parented (pl_parent pl) st (b0', st')"
  "Block_weed bk c pl st = Inr (bk', st') \<Longrightarrow> parents_set Block_parented (pl_parent pl) st (bk', st')"
  "GapBlock_weed gb c p st = Inr (gb', st') \<Longrightarrow> parents_set GapBlock_parented p st (gb', st')"
  "ObjectBlock_weed ob c f l only p st = Inr (ob', st') \<Longrightarrow> parents_set ObjectBlock_parented p st (ob', st')"
  "ObjectBlockString_weed obs c p st = Inr (obs', st') \<Longrightarrow> parents_set ObjectBlockString_parented p st (obs', st')"
proof (induction bl and bs and b2 and b1 and b0 and bk and gb and ob and obs
    arbitrary: p st bl' st' and pl st bs' st' and pl st b2' st' and pl st b1' st' and pl st b0' st' and pl st bk' st'
      and p st gb' st' and f l only p st ob' st' and p st obs' st')
  case (Blocks_string bs ur)
  from Blocks_string.prems obtain bs1 st1 where 1: "BlockString_weed bs c \<lparr>pl_is_first = True, pl_is_last = True, pl_bPrevIsGap = False,
      pl_bPrevIsPower = False, pl_only = BlockString_hasOnlyNOTEXIST bs, pl_parent = p\<rparr> (st\<lparr>ws_bHasMetNonNOTEXIST := False\<rparr>) = Inr (bs1, st1)"
    and e: "bl' = Blocks_string bs1 ur" "ws_bResult st' \<longrightarrow> ws_bResult st1" "ws_nodes st' = ws_nodes st1"
    by (auto simp: bind_res_Inr_iff split: if_splits)
  from Blocks_string.IH[OF 1] e show ?case by simp
next
  case (Blocks_unordered obs)
  from Blocks_unordered.prems obtain obs1 st1 where 1: "ObjectBlockString_weed obs c p (st\<lparr>ws_bHasMetNonNOTEXIST := False\<rparr>) = Inr (obs1, st1)"
    and e: "bl' = Blocks_unordered obs1" "ws_bResult st' = ws_bResult st1" "ws_nodes st' = ws_nodes st1"
    by (auto simp: bind_res_Inr_iff)
  from Blocks_unordered.IH[OF 1] e show ?case by simp
next
  case (BlockString_bs2 b2)
  then show ?case by (fastforce simp: map_weed_Inr Let_def split: if_splits)
next
  case (BlockString_or b2 bs)
  let ?pl = "pl\<lparr>pl_is_first := True, pl_is_last := True, pl_bPrevIsGap := False, pl_bPrevIsPower := False\<rparr>"
  let ?st = "reject (BlockString2_firstBlockIsPower b2) st"
  show ?case
  proof (cases "ws_bResult ?st")
    case True
    with BlockString_or.prems obtain b2' st2 where 2: "BlockString2_weed b2 c ?pl ?st = Inr (b2', st2)"
      and r: "(if ws_bResult st2 then map_weed (BlockString_or b2') (BlockString_weed bs c ?pl st2) else Inr (BlockString_or b2' bs, st2))
        = Inr (bs', st')" by (auto simp: Let_def bind_res_Inr_iff)
    show ?thesis
    proof (cases "ws_bResult st2")
      case t: True
      with r obtain x where "BlockString_weed bs c ?pl st2 = Inr (x, st')" "bs' = BlockString_or b2' x" by (auto simp: map_weed_Inr)
      with BlockString_or.IH(2)[OF this(1)] BlockString_or.IH(1)[OF 2] t show ?thesis by auto
    next
      case False
      with r show ?thesis by simp
    qed
  next
    case False
    with BlockString_or.prems show ?thesis by (auto simp: Let_def)
  qed
next
  case (BlockString2_bs1 n b1)
  let ?pl = "pl\<lparr>pl_parent := ws_nodes st\<rparr>" and ?st = "st\<lparr>ws_nodes := ws_nodes st + 1\<rparr>"
  from BlockString2_bs1.prems obtain b1' st2 where 1: "BlockString1_weed b1 c ?pl ?st = Inr (b1', st2)"
    and e: "b2' = BlockString2_bs1 (n\<lparr>bs2_node_number := ws_nodes st, bs2_parent := pl_parent pl\<rparr>) b1'"
      "ws_bResult st' \<longrightarrow> ws_bResult st2" "ws_nodes st' = ws_nodes st2"
    by (auto simp: bind_res_Inr_iff getNextNodeNumber_def)
  from BlockString2_bs1.IH[OF 1] e show ?case by auto
next
  case (BlockString2_seq n b1 b2)
  let ?st = "reject (pl_bPrevIsPower pl \<and> bs1_is_power b1) (reject (pl_bPrevIsGap pl \<and> bs1_is_gap b1) (st\<lparr>ws_nodes := ws_nodes st + 1\<rparr>))"
  let ?pl = "pl\<lparr>pl_is_last := False, pl_parent := ws_nodes st\<rparr>" and ?n = "n\<lparr>bs2_node_number := ws_nodes st, bs2_parent := pl_parent pl\<rparr>"
  let ?pl2 = "pl\<lparr>pl_is_first := False, pl_bPrevIsGap := bs1_is_gap b1, pl_bPrevIsPower := bs1_is_power b1\<rparr>"
  show ?case
  proof (cases "ws_bResult ?st")
    case True
    with BlockString2_seq.prems obtain b1' st4 where 1: "BlockString1_weed b1 c ?pl ?st = Inr (b1', st4)"
      and r: "(if \<not> ws_bResult st4 then Inr (BlockString2_seq ?n b1' b2, st4)
        else map_weed (BlockString2_seq ?n b1') (BlockString2_weed b2 c ?pl2 st4)) = Inr (b2', st')"
      by (auto simp: Let_def bind_res_Inr_iff getNextNodeNumber_def)
    show ?thesis
    proof (cases "ws_bResult st4")
      case t: True
      with r obtain x where "BlockString2_weed b2 c ?pl2 st4 = Inr (x, st')" "b2' = BlockString2_seq ?n b1' x" by (auto simp: map_weed_Inr)
      with BlockString2_seq.IH(2)[OF this(1)] BlockString2_seq.IH(1)[OF 1] t show ?thesis by auto
    next
      case False
      with r show ?thesis by simp
    qed
  next
    case False
    with BlockString2_seq.prems show ?thesis by (auto simp: Let_def getNextNodeNumber_def)
  qed
next
  case (BlockString1_bs0 b0)
  then show ?case by (fastforce simp: map_weed_Inr)
next
  case (BlockString1_star b0 mse som)
  from BlockString1_star.prems obtain b0' st1 where 1: "BlockString0_weed b0 c pl st = Inr (b0', st1)"
    and e: "b1' = BlockString1_star b0' mse som" "ws_bResult st' \<longrightarrow> ws_bResult st1" "ws_nodes st' = ws_nodes st1"
    by (auto simp: bind_res_Inr_iff Let_def split: if_splits)
  from BlockString1_star.IH[OF 1] e show ?case by simp
next
  case (BlockString0_block b)
  then show ?case by (fastforce simp: map_weed_Inr Let_def split: if_splits)
next
  case (BlockString0_string bs)
  then show ?case by (fastforce simp: map_weed_Inr)
next
  case (kOptGapBlock g)
  then show ?case by (fastforce simp: bind_res_Inr_iff)
next
  case (kGapBlock g)
  then show ?case by (fastforce simp: bind_res_Inr_iff)
next
  case (kPowerBlock pw)
  then show ?case by (auto simp: Power_block_weed_def)
next
  case (kObjectBlock ob)
  then show ?case by (fastforce simp: map_weed_Inr)
next
  case (kObjectBlockNOTEXIST ob)
  then show ?case by (fastforce simp: map_weed_Inr)
next
  case (GapBlock g opt)
  then show ?case by (cases opt) (fastforce simp: map_weed_Inr weed_inner_Inr)+
next
  case (ObjectBlock j opt)
  show ?case
  proof (rule parents_ObjectBlock)
    show "ObjectBlock_weed_info c j opt (map_option (\<lambda>f. f c) (map_option Blocks_weed opt)) f l only p st = Inr (ob', st')"
      using ObjectBlock.prems by simp
  qed (use ObjectBlock.IH in auto)
next
  case (ObjectBlockString_one ob)
  then show ?case by (fastforce simp: map_weed_Inr split: if_splits)
next
  case (ObjectBlockString_more obs ob)
  from ObjectBlockString_more.prems obtain obs1 st1 where 1: "ObjectBlockString_weed obs c p st = Inr (obs1, st1)"
    and r: "(if \<not> ws_bResult st1 then Inr (ObjectBlockString_more obs1 ob, st1)
        else map_weed (ObjectBlockString_more obs1) (ObjectBlock_weed ob c False False False p st1)) = Inr (obs', st')"
    by (auto simp: bind_res_Inr_iff)
  show ?case
  proof (cases "ws_bResult st1")
    case True
    with r obtain x where "ObjectBlock_weed ob c False False False p st1 = Inr (x, st')" "obs' = ObjectBlockString_more obs1 x"
      by (auto simp: map_weed_Inr)
    with ObjectBlockString_more.IH(2)[OF this(1)] ObjectBlockString_more.IH(1)[OF 1] True show ?thesis by auto
  next
    case False
    with r show ?thesis by simp
  qed
qed

section \<open>What is left alone\<close>

text \<open>Constraints with their comparisons changed.\<close>

primrec FFeatures_each :: "(FeatureComparison \<Rightarrow> FeatureComparison) \<Rightarrow> FFeatures \<Rightarrow> FFeatures"
and FTerm_each :: "(FeatureComparison \<Rightarrow> FeatureComparison) \<Rightarrow> FTerm \<Rightarrow> FTerm"
and FFactor_each :: "(FeatureComparison \<Rightarrow> FeatureComparison) \<Rightarrow> FFactor \<Rightarrow> FFactor" where
  "FFeatures_each g (FFeatures_fterm t) = FFeatures_fterm (FTerm_each g t)"
| "FFeatures_each g (FFeatures_or f t) = FFeatures_or (FFeatures_each g f) (FTerm_each g t)"
| "FTerm_each g (FTerm_ffactor f) = FTerm_ffactor (FFactor_each g f)"
| "FTerm_each g (FTerm_and t f) = FTerm_and (FTerm_each g t) (FFactor_each g f)"
| "FFactor_each g (FFactor_not f) = FFactor_not (FFactor_each g f)"
| "FFactor_each g (FFactor_paren f) = FFactor_paren (FFeatures_each g f)"
| "FFactor_each g (FFactor_comparison fc) = FFactor_comparison (g fc)"

lemma each_comparisons:
  "ff_comparisons (FFeatures_each g f) = map g (ff_comparisons f)"
  "ft_comparisons (FTerm_each g t) = map g (ft_comparisons t)"
  "fa_comparisons (FFactor_each g a) = map g (fa_comparisons a)"
  by (induction f and t and a) simp_all

lemma each_parts:
  "Blocks_parts (Blocks_each h k bl) = map (answer_part h) (Blocks_parts bl)"
  "BlockString_parts (BlockString_each h k bs) = map (answer_part h) (BlockString_parts bs)"
  "BlockString2_parts (BlockString2_each h k b2) = map (answer_part h) (BlockString2_parts b2)"
  "BlockString1_parts (BlockString1_each h k b1) = map (answer_part h) (BlockString1_parts b1)"
  "BlockString0_parts (BlockString0_each h k b0) = map (answer_part h) (BlockString0_parts b0)"
  "Block_parts (Block_each h k bk) = map (answer_part h) (Block_parts bk)"
  "GapBlock_parts (GapBlock_each h k gb) = map (answer_part h) (GapBlock_parts gb)"
  "ObjectBlock_parts (ObjectBlock_each h k ob) b = map (answer_part h) (ObjectBlock_parts ob b)"
  "ObjectBlockString_parts (ObjectBlockString_each h k obs) = map (answer_part h) (ObjectBlockString_parts obs)"
proof (induction bl and bs and b2 and b1 and b0 and bk and gb and ob and obs
    arbitrary: and and and and and and and b and)
  case (GapBlock g opt)
  then show ?case by (cases opt) auto
next
  case (ObjectBlock j opt)
  then show ?case by (cases opt) auto
qed simp_all

definition keeps_names :: "(ObjectBlockInfo \<Rightarrow> ObjectBlockInfo) \<Rightarrow> bool" where
  "keeps_names h \<longleftrightarrow> (\<forall>ob. ob_object_reference_lower (h ob) = ob_object_reference_lower ob)"

lemma keeps_names_simps:
  assumes "keeps_names h"
  shows "ob_object_reference_lower (h ob) = ob_object_reference_lower ob" "ob_names (h ob) = ob_names ob"
  using assms by (simp_all add: keeps_names_def ob_names_def)

lemma each_head_name:
  assumes "keeps_names h"
  shows "head_name (getImmediateObjectBlock (BlockString1_each h k b1)) = head_name (getImmediateObjectBlock b1)"
proof -
  have i: "ob_info (ObjectBlock_each h k ob) = h (ob_info ob)" for ob by (cases ob) simp
  have e: "getBlockString0 (BlockString1_each h k b1) = BlockString0_each h k (getBlockString0 b1)" by (cases b1) simp_all
  show ?thesis
  proof (cases "getBlockString0 b1")
    case (BlockString0_block b)
    then show ?thesis using assms by (cases b) (simp_all add: e i head_name_def keeps_names_def)
  qed (simp add: e head_name_def)
qed

lemma each_exports:
  assumes h: "keeps_names h"
  shows "Blocks_exports (Blocks_each h k bl) = Blocks_exports bl"
    "BlockString_exports (BlockString_each h k bs) = BlockString_exports bs"
    "BlockString2_exports (BlockString2_each h k b2) = BlockString2_exports b2"
    "BlockString1_exports (BlockString1_each h k b1) = BlockString1_exports b1"
    "BlockString0_exports (BlockString0_each h k b0) = BlockString0_exports b0"
    "Block_exports (Block_each h k bk) = Block_exports bk"
    "GapBlock_exports (GapBlock_each h k gb) = GapBlock_exports gb"
    "ObjectBlock_exports (ObjectBlock_each h k ob) = ObjectBlock_exports ob"
    "ObjectBlockString_exports (ObjectBlockString_each h k obs) = ObjectBlockString_exports obs"
proof (induction bl and bs and b2 and b1 and b0 and bk and gb and ob and obs)
  case (GapBlock g opt)
  then show ?case by (cases opt) auto
next
  case (ObjectBlock j opt)
  then show ?case by (cases opt) (auto simp: keeps_names_simps[OF h])
qed simp_all

text \<open>A change that leaves the references of the comparisons alone leaves the uses alone.\<close>

definition keeps_uses :: "(ObjectBlockInfo \<Rightarrow> ObjectBlockInfo) \<Rightarrow> bool" where
  "keeps_uses h \<longleftrightarrow> keeps_names h \<and> (\<forall>ob. ob_references (h ob) = ob_references ob)"

lemma each_uses:
  assumes h: "keeps_uses h"
  shows "Blocks_uses (Blocks_each h k bl) = Blocks_uses bl"
    "BlockString_uses (BlockString_each h k bs) = BlockString_uses bs"
    "BlockString2_uses (BlockString2_each h k b2) = BlockString2_uses b2"
    "BlockString1_uses (BlockString1_each h k b1) = BlockString1_uses b1"
    "BlockString0_uses (BlockString0_each h k b0) = BlockString0_uses b0"
    "Block_uses (Block_each h k bk) = Block_uses bk"
    "GapBlock_uses (GapBlock_each h k gb) = GapBlock_uses gb"
    "ObjectBlock_uses (ObjectBlock_each h k ob) = ObjectBlock_uses ob"
    "ObjectBlockString_uses (ObjectBlockString_each h k obs) = ObjectBlockString_uses obs"
proof -
  have n: "keeps_names h" and r: "ob_references (h ob) = ob_references ob" for ob using h by (auto simp: keeps_uses_def)
  show "Blocks_uses (Blocks_each h k bl) = Blocks_uses bl"
    "BlockString_uses (BlockString_each h k bs) = BlockString_uses bs"
    "BlockString2_uses (BlockString2_each h k b2) = BlockString2_uses b2"
    "BlockString1_uses (BlockString1_each h k b1) = BlockString1_uses b1"
    "BlockString0_uses (BlockString0_each h k b0) = BlockString0_uses b0"
    "Block_uses (Block_each h k bk) = Block_uses bk"
    "GapBlock_uses (GapBlock_each h k gb) = GapBlock_uses gb"
    "ObjectBlock_uses (ObjectBlock_each h k ob) = ObjectBlock_uses ob"
    "ObjectBlockString_uses (ObjectBlockString_each h k obs) = ObjectBlockString_uses obs"
  proof (induction bl and bs and b2 and b1 and b0 and bk and gb and ob and obs)
    case (BlockString2_bs1 i b1)
    then show ?case by (simp add: each_head_name[OF n] del: getImmediateObjectBlock.simps)
  next
    case (BlockString2_seq i b1 b2)
    then show ?case by (simp add: each_head_name[OF n] each_exports[OF n] del: getImmediateObjectBlock.simps)
  next
    case (GapBlock g opt)
    then show ?case by (cases opt) auto
  next
    case (ObjectBlock j opt)
    then show ?case by (cases opt) (auto simp: keeps_names_simps[OF n] r)
  qed simp_all
qed

text \<open>A change that leaves the numbers and parents alone.\<close>

definition keeps_places :: "(ObjectBlockInfo \<Rightarrow> ObjectBlockInfo) \<Rightarrow> bool" where
  "keeps_places h \<longleftrightarrow> (\<forall>ob b p. part_numbers (P_object b (h ob)) = part_numbers (P_object b ob) \<and> ob_parented (h ob) p = ob_parented ob p)"

lemma each_parented:
  assumes h: "keeps_places h"
  shows "Blocks_parented (Blocks_each h k bl) = Blocks_parented bl"
    "BlockString_parented (BlockString_each h k bs) = BlockString_parented bs"
    "BlockString2_parented (BlockString2_each h k b2) = BlockString2_parented b2"
    "BlockString1_parented (BlockString1_each h k b1) = BlockString1_parented b1"
    "BlockString0_parented (BlockString0_each h k b0) = BlockString0_parented b0"
    "Block_parented (Block_each h k bk) = Block_parented bk"
    "GapBlock_parented (GapBlock_each h k gb) = GapBlock_parented gb"
    "ObjectBlock_parented (ObjectBlock_each h k ob) = ObjectBlock_parented ob"
    "ObjectBlockString_parented (ObjectBlockString_each h k obs) = ObjectBlockString_parented obs"
proof (induction bl and bs and b2 and b1 and b0 and bk and gb and ob and obs)
  case (GapBlock g opt)
  then show ?case by (cases opt) auto
next
  case (ObjectBlock j opt)
  then show ?case using h by (cases opt) (auto simp: keeps_places_def)
qed simp_all

section \<open>The nodes\<close>

definition node_nn :: "QueryNode \<Rightarrow> int" where
  "node_nn q = (case q of kQNKBlockString2 n h \<Rightarrow> bs2_node_number n | kQNKObjectBlock ob \<Rightarrow> ob_nn ob | kQNKFFeatures c \<Rightarrow> ffc_node_number c)"

lemma node_nn_simps [simp]:
  "node_nn (kQNKBlockString2 n h) = bs2_node_number n" "node_nn (kQNKObjectBlock ob) = ob_nn ob"
  "node_nn (kQNKFFeatures c) = ffc_node_number c"
  by (simp_all add: node_nn_def)

lemma option_nodes_simps [simp]: "option_nodes None = []" "option_nodes (Some l) = l"
  by (simp_all add: option_nodes_def)

lemma ob_nodes_numbers: "map node_nn (ob_nodes ob) = part_numbers (P_object b ob)"
  by (simp add: ob_nodes_def part_numbers_def ob_nn_def split: option.splits)

lemma string_numbers [simp]: "part_numbers (P_string n) = [bs2_node_number n]" "part_numbers (P_gap g) = []"
  by (simp_all add: part_numbers_def)

lemma nodes_numbers:
  "map node_nn (Blocks_nodes bl) = concat (map part_numbers (Blocks_parts bl))"
  "map node_nn (BlockString_nodes bs) = concat (map part_numbers (BlockString_parts bs))"
  "map node_nn (BlockString2_nodes b2) = concat (map part_numbers (BlockString2_parts b2))"
  "map node_nn (BlockString1_nodes b1) = concat (map part_numbers (BlockString1_parts b1))"
  "map node_nn (BlockString0_nodes b0) = concat (map part_numbers (BlockString0_parts b0))"
  "map node_nn (Block_nodes bk) = concat (map part_numbers (Block_parts bk))"
  "map node_nn (GapBlock_nodes gb) = concat (map part_numbers (GapBlock_parts gb))"
  "map node_nn (ObjectBlock_nodes ob) = concat (map part_numbers (ObjectBlock_parts ob b))"
  "map node_nn (ObjectBlockString_nodes obs) = concat (map part_numbers (ObjectBlockString_parts obs))"
proof (induction bl and bs and b2 and b1 and b0 and bk and gb and ob and obs
    arbitrary: and and and and and and and b and)
  case (GapBlock g opt)
  then show ?case by (cases opt) auto
next
  case (ObjectBlock j opt)
  then show ?case by (cases opt) (auto simp: ob_nodes_numbers)
qed simp_all

text \<open>Each node is at the place of its number.\<close>

definition indexed :: "QueryNode list \<Rightarrow> bool" where
  "indexed v \<longleftrightarrow> map node_nn v = [0..int (length v) - 1]"

lemma indexed_node:
  assumes "indexed v" "q \<in> set v"
  shows "getNodeFromNodeNumber v (node_nn q) = Inr q" "0 \<le> node_nn q" "node_nn q < int (length v)"
proof -
  obtain i where i: "i < length v" "q = v ! i" using assms(2) by (auto simp: in_set_conv_nth)
  have "node_nn (v ! i) = [0..int (length v) - 1] ! i" using assms(1) i(1) by (metis indexed_def nth_map)
  also have "\<dots> = int i" using i(1) by (simp add: nth_upto)
  finally have n: "node_nn q = int i" using i(2) by simp
  then show "getNodeFromNodeNumber v (node_nn q) = Inr q" "0 \<le> node_nn q" "node_nn q < int (length v)"
    using i by (simp_all add: getNodeFromNodeNumber_def)
qed

section \<open>The loops up the strings\<close>

definition lowered :: "string \<Rightarrow> bool" where
  "lowered s \<longleftrightarrow> str_tolower s = s"

text \<open>
  What the loops find from a string on: the names that it and the strings around it start with, and
  the numbers of these strings.
\<close>

definition walks :: "QueryNode list \<Rightarrow> int \<Rightarrow> string set \<Rightarrow> int set \<Rightarrow> nat \<Rightarrow> bool" where
  "walks v p H P n \<longleftrightarrow> (\<forall>k\<ge>n. \<forall>ORD. lowered ORD \<longrightarrow>
     determineSolutionType_loop k v ORD p = Inr (ORD \<in> H) \<and>
     (\<forall>ch. addORDChildren k v ORD p ch = Inr (\<lambda>i. if i \<in> P then insert ORD (ch i) else ch i)))"

definition surroundings :: "QueryNode list \<Rightarrow> int \<Rightarrow> string set \<Rightarrow> int set \<Rightarrow> bool" where
  "surroundings v p H P \<longleftrightarrow> (\<exists>n. walks v p H P n \<and> int n \<le> p + 1 \<and> p < int (length v))"

lemma surroundings_top: "surroundings v (-1) {} {}"
  by (auto simp: surroundings_def walks_def determineSolutionType_loop.simps addORDChildren.simps intro!: exI[of _ 0])

lemma hasImmediateORDChild_lowered:
  "lowered ORD \<Longrightarrow> (\<forall>s\<in>head_name h. lowered s) \<Longrightarrow> hasImmediateORDChild h ORD = (ORD \<in> head_name h)"
  by (auto simp: hasImmediateORDChild_def head_name_def lowered_def strcmp_nocase_0 split: option.splits)

lemma surroundings_string:
  assumes "surroundings v p H P" "indexed v" "kQNKBlockString2 i h \<in> set v" "bs2_parent i = p" "p < bs2_node_number i"
    "\<forall>s\<in>head_name h. lowered s"
  shows "surroundings v (bs2_node_number i) (H \<union> head_name h) (insert (bs2_node_number i) P)"
proof -
  obtain n where n: "walks v p H P n" "int n \<le> p + 1" using assms(1) by (auto simp: surroundings_def)
  have q: "getNodeFromNodeNumber v (bs2_node_number i) = Inr (kQNKBlockString2 i h)" "0 \<le> bs2_node_number i"
    "bs2_node_number i < int (length v)" using indexed_node[OF assms(2,3)] by simp_all
  have "walks v (bs2_node_number i) (H \<union> head_name h) (insert (bs2_node_number i) P) (Suc n)"
    unfolding walks_def
  proof (intro allI impI)
    fix k ORD assume "k \<ge> Suc n" and l: "lowered ORD"
    then obtain j where j: "k = Suc j" "j \<ge> n" by (cases k) auto
    from n(1) j(2) l have w: "determineSolutionType_loop j v ORD p = Inr (ORD \<in> H)"
      "addORDChildren j v ORD p ch = Inr (\<lambda>i. if i \<in> P then insert ORD (ch i) else ch i)" for ch
      by (auto simp: walks_def)
    show "determineSolutionType_loop k v ORD (bs2_node_number i) = Inr (ORD \<in> H \<union> head_name h) \<and>
      (\<forall>ch. addORDChildren k v ORD (bs2_node_number i) ch =
        Inr (\<lambda>ia. if ia \<in> insert (bs2_node_number i) P then insert ORD (ch ia) else ch ia))"
      using q w l assms(4) hasImmediateORDChild_lowered[OF l assms(6)]
      by (auto simp: j(1) determineSolutionType_loop.simps[of "Suc j"] addORDChildren.simps[of "Suc j"] asBlockString2_def
          addORDChild_def lowered_def fun_eq_iff)
  qed
  moreover have "int (Suc n) \<le> bs2_node_number i + 1" using n(2) assms(5) by simp
  ultimately show ?thesis using q(3) by (auto simp: surroundings_def)
qed

lemma surroundings_loops:
  assumes "surroundings v p H P" "lowered ORD"
  shows "determineSolutionType v ORD p = Inr (ORD \<in> H)"
    "addORDChildren (length v) v ORD p ch = Inr (\<lambda>i. if i \<in> P then insert ORD (ch i) else ch i)"
proof -
  obtain n where "walks v p H P n" "int n \<le> p + 1" "p < int (length v)" using assms(1) by (auto simp: surroundings_def)
  moreover from this have "n \<le> length v" by simp
  ultimately show "determineSolutionType v ORD p = Inr (ORD \<in> H)"
    "addORDChildren (length v) v ORD p ch = Inr (\<lambda>i. if i \<in> P then insert ORD (ch i) else ch i)"
    using assms(2) by (auto simp: walks_def determineSolutionType_def)
qed

section \<open>What the visit of the references returns\<close>

definition resolve :: "ORDMap \<Rightarrow> use \<Rightarrow> ObjectReferenceUsage" where
  "resolve m u = (case u of (r, S, H) \<Rightarrow>
     r\<lparr>oru_ORDIsParent := (oru_object_reference r \<in> H), oru_ControllingObjectBlock := ord_node m (oru_object_reference r)\<rparr>)"

definition in_scope :: "use \<Rightarrow> bool" where
  "in_scope u \<longleftrightarrow> (case u of (r, S, H) \<Rightarrow> oru_object_reference r \<in> S)"

definition known :: "ORDMap \<Rightarrow> QueryNode list \<Rightarrow> ObjectReferenceUsage \<Rightarrow> bool" where
  "known m v r \<longleftrightarrow> lowered (oru_object_reference r) \<and> (\<exists>q. getNodeFromNodeNumber v (ord_node m (oru_object_reference r)) = Inr q)"

text \<open>What the visit may change in an object block.\<close>

definition strip_reference :: "ObjectReferenceUsage \<Rightarrow> ObjectReferenceUsage" where
  "strip_reference r = r\<lparr>oru_ORDIsParent := False, oru_ControllingObjectBlock := 0\<rparr>"

definition strip_comparison :: "FeatureComparison \<Rightarrow> FeatureComparison" where
  "strip_comparison fc = fc\<lparr>fc_value := (case fc_value fc of Some (kValObjectReferenceUsage r) \<Rightarrow>
     Some (kValObjectReferenceUsage (strip_reference r)) | x \<Rightarrow> x)\<rparr>"

definition strip_constraint :: "FeatureConstraint \<Rightarrow> FeatureConstraint" where
  "strip_constraint c = c\<lparr>ffc_ffeatures := FFeatures_each strip_comparison (ffc_ffeatures c), ffc_hasNonParentORUs := False\<rparr>"

definition strip_ob :: "ObjectBlockInfo \<Rightarrow> ObjectBlockInfo" where
  "strip_ob ob = ob\<lparr>ob_feature_constraints := map_option strip_constraint (ob_feature_constraints ob)\<rparr>"

lemma references_of_simps [simp]:
  "references_of [] = []" "references_of (xs @ ys) = references_of xs @ references_of ys"
  "references_of [fc] = (case reference_of fc of None \<Rightarrow> [] | Some r \<Rightarrow> [r])"
  by (simp_all add: references_of_def List.map_filter_def split: option.splits)

text \<open>
  The contract for the constraints of a block: the names are in scope or not; if they all are, each
  reference is resolved, and the constraint knows whether one needs the straw.
\<close>

definition ffc_visited :: "('a \<Rightarrow> 'a) \<Rightarrow> ('a \<Rightarrow> FeatureComparison list) \<Rightarrow> ORDMap \<Rightarrow> string set \<Rightarrow> string set \<Rightarrow>
  'a \<Rightarrow> FeatureConstraint \<Rightarrow> 'a \<times> FeatureConstraint \<times> bool \<Rightarrow> bool" where
  "ffc_visited erase comps m S H x c r \<longleftrightarrow> (case r of (x', c', ok) \<Rightarrow>
     ok = (\<forall>r\<in>set (references_of (comps x)). oru_object_reference r \<in> S) \<and> erase x' = erase x \<and>
     c'\<lparr>ffc_hasNonParentORUs := False\<rparr> = c\<lparr>ffc_hasNonParentORUs := False\<rparr> \<and>
     (ok \<longrightarrow> references_of (comps x') = map (\<lambda>r. resolve m (r, S, H)) (references_of (comps x)) \<and>
       ffc_hasNonParentORUs c' = (ffc_hasNonParentORUs c \<or> (\<exists>r\<in>set (references_of (comps x)). oru_object_reference r \<notin> H))))"

lemma ffc_visited_triple:
  "ffc_visited erase comps m S H x c (x', c', ok) \<longleftrightarrow>
     ok = (\<forall>r\<in>set (references_of (comps x)). oru_object_reference r \<in> S) \<and> erase x' = erase x \<and>
     c'\<lparr>ffc_hasNonParentORUs := False\<rparr> = c\<lparr>ffc_hasNonParentORUs := False\<rparr> \<and>
     (ok \<longrightarrow> references_of (comps x') = map (\<lambda>r. resolve m (r, S, H)) (references_of (comps x)) \<and>
       ffc_hasNonParentORUs c' = (ffc_hasNonParentORUs c \<or> (\<exists>r\<in>set (references_of (comps x)). oru_object_reference r \<notin> H)))"
  by (simp add: ffc_visited_def)

lemma same_but_flag:
  "c'\<lparr>ffc_hasNonParentORUs := False\<rparr> = c\<lparr>ffc_hasNonParentORUs := False\<rparr> \<Longrightarrow>
     ffc_block_string2_parent c' = ffc_block_string2_parent (c :: FeatureConstraint)"
  by (cases c; cases c') simp

lemma ffc_visited_parent:
  "ffc_visited erase comps m S H x c (x', c', ok) \<Longrightarrow> ffc_block_string2_parent c' = ffc_block_string2_parent c"
  unfolding ffc_visited_triple by (intro same_but_flag) (elim conjE)

lemma strip_none: "reference_of fc = None \<Longrightarrow> strip_comparison fc = fc"
  by (auto simp: reference_of_def strip_comparison_def split: option.splits Value.splits)

lemma FeatureComparison_visited:
  assumes "surroundings v (ffc_block_string2_parent c) H P" "\<forall>r\<in>set (references_of [fc]). known m v r"
  shows "\<exists>fc' c' ok. FeatureComparison_symbolObjectReferences fc m v S c = Inr (fc', c', ok) \<and>
     ffc_visited strip_comparison (\<lambda>fc. [fc]) m S H fc c (fc', c', ok)"
proof (cases "reference_of fc")
  case None
  then have "FeatureComparison_symbolObjectReferences fc m v S c = Inr (fc, c, True)"
    by (auto simp: reference_of_def FeatureComparison_symbolObjectReferences_def split: option.splits Value.splits)
  then show ?thesis using None strip_none[OF None] by (intro exI[of _ fc] exI[of _ c] exI[of _ True]) (simp add: ffc_visited_triple)
next
  case (Some r)
  then have f: "fc_value fc = Some (kValObjectReferenceUsage r)"
    by (auto simp: reference_of_def split: option.splits Value.splits)
  have k: "lowered (oru_object_reference r)" "\<exists>q. getNodeFromNodeNumber v (ord_node m (oru_object_reference r)) = Inr q"
    using assms(2) Some by (simp_all add: known_def)
  note l = surroundings_loops(1)[OF assms(1) k(1)]
  show ?thesis using f l k(2) Some
    by (cases "oru_object_reference r \<in> S") (auto simp: FeatureComparison_symbolObjectReferences_def ffc_visited_triple reference_of_def resolve_def addNonParentORU_def
        strip_comparison_def strip_reference_def Let_def)
qed

lemma map_changed_simps [simp]: "map_changed f (Inr (x, s)) = Inr (f x, s)" "map_changed f (Inl e) = Inl e"
  by (simp_all add: map_changed_def)

lemma FFeatures_visited:
  "surroundings v (ffc_block_string2_parent c) H P \<Longrightarrow> \<forall>r\<in>set (references_of (ff_comparisons f)). known m v r \<Longrightarrow>
     \<exists>f' c' ok. FFeatures_symbolObjectReferences f m v S c = Inr (f', c', ok) \<and>
       ffc_visited (FFeatures_each strip_comparison) ff_comparisons m S H f c (f', c', ok)"
  "surroundings v (ffc_block_string2_parent c) H P \<Longrightarrow> \<forall>r\<in>set (references_of (ft_comparisons t)). known m v r \<Longrightarrow>
     \<exists>t' c' ok. FTerm_symbolObjectReferences t m v S c = Inr (t', c', ok) \<and>
       ffc_visited (FTerm_each strip_comparison) ft_comparisons m S H t c (t', c', ok)"
  "surroundings v (ffc_block_string2_parent c) H P \<Longrightarrow> \<forall>r\<in>set (references_of (fa_comparisons a)). known m v r \<Longrightarrow>
     \<exists>a' c' ok. FFactor_symbolObjectReferences a m v S c = Inr (a', c', ok) \<and>
       ffc_visited (FFactor_each strip_comparison) fa_comparisons m S H a c (a', c', ok)"
proof (induction f and t and a arbitrary: c and c and c)
  case (FFeatures_or f t)
  obtain f' c1 ok where 1: "FFeatures_symbolObjectReferences f m v S c = Inr (f', c1, ok)"
    "ffc_visited (FFeatures_each strip_comparison) ff_comparisons m S H f c (f', c1, ok)"
    using FFeatures_or.IH(1)[of c] FFeatures_or.prems by auto
  show ?case
  proof (cases ok)
    case True
    have "ffc_block_string2_parent c1 = ffc_block_string2_parent c" using 1(2) by (rule ffc_visited_parent)
    then obtain t' c2 ok2 where "FTerm_symbolObjectReferences t m v S c1 = Inr (t', c2, ok2)"
      "ffc_visited (FTerm_each strip_comparison) ft_comparisons m S H t c1 (t', c2, ok2)"
      using FFeatures_or.IH(2)[of c1] FFeatures_or.prems by auto
    with 1 True show ?thesis by (auto simp: ffc_visited_triple)
  next
    case False
    with 1 show ?thesis by (auto simp: ffc_visited_triple)
  qed
next
  case (FTerm_and t a)
  obtain t' c1 ok where 1: "FTerm_symbolObjectReferences t m v S c = Inr (t', c1, ok)"
    "ffc_visited (FTerm_each strip_comparison) ft_comparisons m S H t c (t', c1, ok)"
    using FTerm_and.IH(1)[of c] FTerm_and.prems by auto
  show ?case
  proof (cases ok)
    case True
    have "ffc_block_string2_parent c1 = ffc_block_string2_parent c" using 1(2) by (rule ffc_visited_parent)
    then obtain a' c2 ok2 where "FFactor_symbolObjectReferences a m v S c1 = Inr (a', c2, ok2)"
      "ffc_visited (FFactor_each strip_comparison) fa_comparisons m S H a c1 (a', c2, ok2)"
      using FTerm_and.IH(2)[of c1] FTerm_and.prems by auto
    with 1 True show ?thesis by (auto simp: ffc_visited_triple)
  next
    case False
    with 1 show ?thesis by (auto simp: ffc_visited_triple)
  qed
next
  case (FFactor_comparison fc)
  then show ?case using FeatureComparison_visited[of v c H P fc m S] by (auto simp: ffc_visited_triple)
qed (fastforce simp: ffc_visited_triple)+

section \<open>The visit of a query\<close>

text \<open>As parsed and weeded: names are in lower case, and no constraint needs the straw yet, or has strings to search.\<close>

definition fresh_references :: "part list \<Rightarrow> bool" where
  "fresh_references ps \<longleftrightarrow> (\<forall>q\<in>set ps. case q of P_object b ob \<Rightarrow> lowered (ob_object_reference_lower ob) \<and>
     (\<forall>c. ob_feature_constraints ob = Some c \<longrightarrow> \<not> ffc_hasNonParentORUs c \<and> ffc_BlockString2List c = []) | _ \<Rightarrow> True)"

definition references_flagged :: "part list \<Rightarrow> bool" where
  "references_flagged ps \<longleftrightarrow> (\<forall>q\<in>set ps. case q of P_object b ob \<Rightarrow> (\<forall>c. ob_feature_constraints ob = Some c \<longrightarrow>
     ffc_hasNonParentORUs c = (\<exists>r\<in>set (ob_references ob). \<not> oru_ORDIsParent r)) | _ \<Rightarrow> True)"

lemma fresh_simps [simp]:
  "fresh_references []" "fresh_references (ps @ qs) = (fresh_references ps \<and> fresh_references qs)"
  "fresh_references (P_string n # ps) = fresh_references ps" "fresh_references (P_gap g # ps) = fresh_references ps"
  "fresh_references (P_object b ob # ps) = ((lowered (ob_object_reference_lower ob) \<and>
     (\<forall>c. ob_feature_constraints ob = Some c \<longrightarrow> \<not> ffc_hasNonParentORUs c \<and> ffc_BlockString2List c = [])) \<and> fresh_references ps)"
  "references_flagged []" "references_flagged (ps @ qs) = (references_flagged ps \<and> references_flagged qs)"
  "references_flagged (P_string n # ps) = references_flagged ps" "references_flagged (P_gap g # ps) = references_flagged ps"
  "references_flagged (P_object b ob # ps) = ((\<forall>c. ob_feature_constraints ob = Some c \<longrightarrow>
     ffc_hasNonParentORUs c = (\<exists>r\<in>set (ob_references ob). \<not> oru_ORDIsParent r)) \<and> references_flagged ps)"
  by (auto simp: fresh_references_def references_flagged_def)

definition all_known :: "ORDMap \<Rightarrow> QueryNode list \<Rightarrow> part list \<Rightarrow> bool" where
  "all_known m v ps \<longleftrightarrow> (\<forall>r\<in>set (used_references ps). known m v r)"

lemma all_known_simps [simp]:
  "all_known m v []" "all_known m v (ps @ qs) = (all_known m v ps \<and> all_known m v qs)"
  "all_known m v (P_string n # ps) = all_known m v ps" "all_known m v (P_gap g # ps) = all_known m v ps"
  "all_known m v (P_object b ob # ps) = ((\<forall>r\<in>set (ob_references ob). known m v r) \<and> all_known m v ps)"
  by (auto simp: all_known_def)

lemma immediate_lowered:
  "fresh_references (BlockString1_parts b1) \<Longrightarrow> \<forall>s\<in>head_name (getImmediateObjectBlock b1). lowered s"
proof -
  assume f: "fresh_references (BlockString1_parts b1)"
  have "BlockString1_parts b1 = BlockString0_parts (getBlockString0 b1)" by (cases b1) simp_all
  with f have g: "fresh_references (BlockString0_parts (getBlockString0 b1))" by simp
  have o: "fresh_references (ObjectBlock_parts ob b) \<Longrightarrow> lowered (ob_object_reference_lower (ob_info ob))" for ob b
    by (cases ob) simp
  show ?thesis
  proof (cases "getBlockString0 b1")
    case (BlockString0_block b)
    with g show ?thesis by (cases b) (auto simp: head_name_def dest: o)
  qed (simp add: head_name_def)
qed

definition inside :: "(int \<Rightarrow> string set) \<Rightarrow> int set \<Rightarrow> part list \<Rightarrow> (int \<times> string) set \<Rightarrow> int \<Rightarrow> string set" where
  "inside ch P ps kids = (\<lambda>i. ch i \<union> {s. i \<in> P \<and> s \<in> set (declared_names ps) \<or> (i, s) \<in> kids})"

definition visited :: "('a \<Rightarrow> 'a) \<Rightarrow> ('a \<Rightarrow> part list) \<Rightarrow> ('a \<Rightarrow> string set) \<Rightarrow> ('a \<Rightarrow> string set \<Rightarrow> string set \<Rightarrow> use list) \<Rightarrow>
  ('a \<Rightarrow> (int \<times> string) set) \<Rightarrow> ORDMap \<Rightarrow> string set \<Rightarrow> int set \<Rightarrow> 'a \<Rightarrow> References \<Rightarrow> 'a \<times> References \<times> bool \<Rightarrow> bool" where
  "visited erase parts exports uses kids m H P x rs r \<longleftrightarrow> (case r of (x', rs', ok) \<Rightarrow>
     ok = (\<forall>u\<in>set (uses x (rs_ORD_set rs) H). in_scope u) \<and> erase x' = erase x \<and>
     (ok \<longrightarrow> used_references (parts x') = map (resolve m) (uses x (rs_ORD_set rs) H) \<and> references_flagged (parts x') \<and>
       rs_ORD_set rs' = rs_ORD_set rs \<union> exports x \<and>
       rs_ORD_children rs' = inside (rs_ORD_children rs) P (parts x) (kids x)))"

lemma visited_triple:
  "visited erase parts exports uses kids m H P x rs (x', rs', ok) \<longleftrightarrow>
     ok = (\<forall>u\<in>set (uses x (rs_ORD_set rs) H). in_scope u) \<and> erase x' = erase x \<and>
     (ok \<longrightarrow> used_references (parts x') = map (resolve m) (uses x (rs_ORD_set rs) H) \<and> references_flagged (parts x') \<and>
       rs_ORD_set rs' = rs_ORD_set rs \<union> exports x \<and>
       rs_ORD_children rs' = inside (rs_ORD_children rs) P (parts x) (kids x))"
  by (simp add: visited_def)

lemma inside_inside [simp]: "inside (inside ch P ps kids) P qs kids' = inside ch P (ps @ qs) (kids \<union> kids')"
  by (auto simp: inside_def fun_eq_iff)

lemma inside_string [simp]:
  "inside ch (insert nn P) ps kids = inside ch P ps ({nn} \<times> set (declared_names ps) \<union> kids)"
  "inside ch P (P_string n # ps) kids = inside ch P ps kids"
  by (auto simp: inside_def fun_eq_iff)

lemma inside_nothing [simp]: "inside ch P [] {} = ch"
  by (simp add: inside_def)

text \<open>An object block, by the contract of the blocks inside it.\<close>

lemma declare_reference_ok:
  assumes "surroundings v p H P" "lowered (ob_object_reference_lower ob)" "ob_block_string2_parent ob = p"
  shows "\<exists>rs'. declare_reference v ob rs = Inr rs' \<and> rs_ORD_set rs' = rs_ORD_set rs \<union> set (ob_names ob) \<and>
     rs_ORD_children rs' = inside (rs_ORD_children rs) P [P_object b ob] {}"
  using surroundings_loops(2)[OF assms(1,2)] assms(3)
  by (auto simp: declare_reference_def Let_def ob_names_def inside_def fun_eq_iff)

lemma constraint_references_ok:
  assumes "surroundings v p H P" "ob_parented ob p" "\<forall>r\<in>set (ob_references ob). known m v r"
    "\<forall>c. ob_feature_constraints ob = Some c \<longrightarrow> \<not> ffc_hasNonParentORUs c"
  shows "\<exists>ob' ok. constraint_references m v S ob = Inr (ob', ok) \<and>
     ok = (\<forall>r\<in>set (ob_references ob). oru_object_reference r \<in> S) \<and> strip_ob ob' = strip_ob ob \<and>
     (ok \<longrightarrow> ob_references ob' = map (\<lambda>r. resolve m (r, S, H)) (ob_references ob) \<and>
       (\<forall>c. ob_feature_constraints ob' = Some c \<longrightarrow> ffc_hasNonParentORUs c = (\<exists>r\<in>set (ob_references ob'). \<not> oru_ORDIsParent r)))"
proof (cases "ob_feature_constraints ob")
  case None
  then show ?thesis by (simp add: constraint_references_def ob_references_def ob_comparisons_def) blast
next
  case (Some c)
  have r: "ob_references ob = references_of (ff_comparisons (ffc_ffeatures c))"
    using Some by (simp add: ob_references_def ob_comparisons_def)
  have s: "surroundings v (ffc_block_string2_parent c) H P" using assms(1,2) Some by (simp add: ob_parented_def)
  obtain f c1 ok where 1: "FFeatures_symbolObjectReferences (ffc_ffeatures c) m v S c = Inr (f, c1, ok)"
    "ffc_visited (FFeatures_each strip_comparison) ff_comparisons m S H (ffc_ffeatures c) c (f, c1, ok)"
    using FFeatures_visited(1)[OF s, of "ffc_ffeatures c" m S] assms(3) by (auto simp: r)
  let ?ob = "ob\<lparr>ob_feature_constraints := Some (c1\<lparr>ffc_ffeatures := f\<rparr>)\<rparr>"
  have e: "constraint_references m v S ob = Inr (?ob, ok)" using 1(1) Some by (simp add: constraint_references_def)
  have r': "ob_references ?ob = references_of (ff_comparisons f)" by (simp add: ob_references_def ob_comparisons_def)
  have "c1\<lparr>ffc_hasNonParentORUs := False\<rparr> = c\<lparr>ffc_hasNonParentORUs := False\<rparr>"
    "FFeatures_each strip_comparison f = FFeatures_each strip_comparison (ffc_ffeatures c)"
    using 1(2) by (simp_all add: ffc_visited_triple)
  then have "strip_constraint (c1\<lparr>ffc_ffeatures := f\<rparr>) = strip_constraint c"
    by (cases c; cases c1) (simp add: strip_constraint_def)
  then have st: "strip_ob ?ob = strip_ob ob" using Some by (simp add: strip_ob_def)
  have h: "\<not> ffc_hasNonParentORUs c" using assms(4) Some by simp
  show ?thesis
  proof (intro exI[of _ ?ob] exI[of _ ok] conjI e st impI)
    show "ok = (\<forall>r\<in>set (ob_references ob). oru_object_reference r \<in> S)" using 1(2) by (simp add: ffc_visited_triple r)
    assume ok
    then have "references_of (ff_comparisons f) = map (\<lambda>r. resolve m (r, S, H)) (ob_references ob)"
      "ffc_hasNonParentORUs c1 = (\<exists>r\<in>set (ob_references ob). oru_object_reference r \<notin> H)"
      using 1(2) h by (simp_all add: ffc_visited_triple r)
    then show "ob_references ?ob = map (\<lambda>r. resolve m (r, S, H)) (ob_references ob)"
      "\<forall>c. ob_feature_constraints ?ob = Some c \<longrightarrow> ffc_hasNonParentORUs c = (\<exists>r\<in>set (ob_references ?ob). \<not> oru_ORDIsParent r)"
      by (simp_all add: r' resolve_def)
  qed
qed

definition inner_visited :: "ORDMap \<Rightarrow> QueryNode list \<Rightarrow> Blocks option \<Rightarrow> bool" where
  "inner_visited m v opt \<longleftrightarrow> (\<forall>bl. opt = Some bl \<longrightarrow> (\<forall>rs p H P. surroundings v p H P \<longrightarrow> Blocks_parented bl p \<longrightarrow>
     set (Blocks_nodes bl) \<subseteq> set v \<longrightarrow> fresh_references (Blocks_parts bl) \<longrightarrow> all_known m v (Blocks_parts bl) \<longrightarrow>
     (\<exists>bl' rs' ok. Blocks_symbolObjectReferences bl m v rs = Inr (bl', rs', ok) \<and>
       visited (Blocks_each strip_ob (\<lambda>s. s)) Blocks_parts Blocks_exports Blocks_uses Blocks_children m H P bl rs (bl', rs', ok))))"

definition option_exports :: "Blocks option \<Rightarrow> string set" where
  "option_exports opt = (case map_option Blocks_exports opt of None \<Rightarrow> {} | Some e \<Rightarrow> e)"

definition option_children :: "Blocks option \<Rightarrow> (int \<times> string) set" where
  "option_children opt = (case map_option Blocks_children opt of None \<Rightarrow> {} | Some e \<Rightarrow> e)"

lemma inner_references_ok:
  assumes "inner_visited m v opt" "surroundings v p H P" "inner_parented (map_option Blocks_parented opt) p"
    "set (option_nodes (map_option Blocks_nodes opt)) \<subseteq> set v" "fresh_references (option_parts (map_option Blocks_parts opt))"
    "all_known m v (option_parts (map_option Blocks_parts opt))"
  shows "\<exists>opt' rs' ok. inner_references opt (map_option (\<lambda>f. f m v) (map_option Blocks_symbolObjectReferences opt)) rs = Inr (opt', rs', ok) \<and>
     visited (map_option (Blocks_each strip_ob (\<lambda>s. s))) (\<lambda>x. option_parts (map_option Blocks_parts x)) option_exports
       (\<lambda>x. inner_uses (map_option Blocks_uses x)) option_children m H P opt rs (opt', rs', ok)"
proof (cases opt)
  case None
  then show ?thesis by (simp add: inner_references_def visited_triple option_exports_def option_children_def) blast
next
  case (Some bl)
  with assms obtain bl' rs' ok where "Blocks_symbolObjectReferences bl m v rs = Inr (bl', rs', ok)"
    "visited (Blocks_each strip_ob (\<lambda>s. s)) Blocks_parts Blocks_exports Blocks_uses Blocks_children m H P bl rs (bl', rs', ok)"
    unfolding inner_visited_def by fastforce
  with Some show ?thesis
    by (intro exI[of _ "Some bl'"] exI[of _ rs'] exI[of _ ok])
      (simp add: inner_references_def visited_triple option_exports_def option_children_def)
qed

lemma ObjectBlock_visited:
  assumes "inner_visited m v opt" "surroundings v p H P" "ObjectBlock_parented (ObjectBlock ob opt) p"
    "set (ObjectBlock_nodes (ObjectBlock ob opt)) \<subseteq> set v" "fresh_references (ObjectBlock_parts (ObjectBlock ob opt) b)"
    "all_known m v (ObjectBlock_parts (ObjectBlock ob opt) b)"
  shows "\<exists>ob' rs' ok. ObjectBlock_symbolObjectReferences (ObjectBlock ob opt) m v rs = Inr (ob', rs', ok) \<and>
     visited (ObjectBlock_each strip_ob (\<lambda>s. s)) (\<lambda>x. ObjectBlock_parts x b) ObjectBlock_exports ObjectBlock_uses ObjectBlock_children
       m H P (ObjectBlock ob opt) rs (ob', rs', ok)"
proof -
  let ?S = "rs_ORD_set rs \<union> set (ob_names ob)"
  have p: "ob_parented ob p" "ob_block_string2_parent ob = p" using assms(3) by (simp_all add: ob_parented_def)
  have n: "lowered (ob_object_reference_lower ob)" "\<forall>c. ob_feature_constraints ob = Some c \<longrightarrow> \<not> ffc_hasNonParentORUs c"
    using assms(5) by simp_all
  have k: "\<forall>r\<in>set (ob_references ob). known m v r" using assms(6) by simp
  obtain rs1 where 1: "declare_reference v ob rs = Inr rs1" "rs_ORD_set rs1 = ?S"
    "rs_ORD_children rs1 = inside (rs_ORD_children rs) P [P_object b ob] {}"
    using declare_reference_ok[OF assms(2) n(1) p(2), of rs] by (auto simp: inside_def)
  obtain ob1 ok1 where 2: "constraint_references m v ?S ob = Inr (ob1, ok1)"
    "ok1 = (\<forall>r\<in>set (ob_references ob). oru_object_reference r \<in> ?S)" "strip_ob ob1 = strip_ob ob"
    "ok1 \<Longrightarrow> ob_references ob1 = map (\<lambda>r. resolve m (r, ?S, H)) (ob_references ob)"
    "ok1 \<Longrightarrow> \<forall>c. ob_feature_constraints ob1 = Some c \<longrightarrow> ffc_hasNonParentORUs c = (\<exists>r\<in>set (ob_references ob1). \<not> oru_ORDIsParent r)"
    using constraint_references_ok[OF assms(2) p(1) k n(2), of ?S] by blast
  have 3: "inner_parented (map_option Blocks_parented opt) p" "set (option_nodes (map_option Blocks_nodes opt)) \<subseteq> set v"
    "fresh_references (option_parts (map_option Blocks_parts opt))" "all_known m v (option_parts (map_option Blocks_parts opt))"
    using assms(3-6) by simp_all
  obtain opt' rs2 ok2 where 4:
    "inner_references opt (map_option (\<lambda>f. f m v) (map_option Blocks_symbolObjectReferences opt)) rs1 = Inr (opt', rs2, ok2)"
    "visited (map_option (Blocks_each strip_ob (\<lambda>s. s))) (\<lambda>x. option_parts (map_option Blocks_parts x)) option_exports
       (\<lambda>x. inner_uses (map_option Blocks_uses x)) option_children m H P opt rs1 (opt', rs2, ok2)"
    using inner_references_ok[OF assms(1,2) 3, of rs1] by blast
  have u: "ObjectBlock_uses (ObjectBlock ob opt) (rs_ORD_set rs) H =
      map (\<lambda>r. (r, ?S, H)) (ob_references ob) @ inner_uses (map_option Blocks_uses opt) ?S H" by (simp add: Let_def)
  have scope: "(\<forall>u\<in>set (ObjectBlock_uses (ObjectBlock ob opt) (rs_ORD_set rs) H). in_scope u) =
      (ok1 \<and> (\<forall>u\<in>set (inner_uses (map_option Blocks_uses opt) ?S H). in_scope u))"
    unfolding u by (simp add: ball_Un 2(2) in_scope_def)
  show ?thesis
  proof (cases ok1)
    case False
    then have "ObjectBlock_symbolObjectReferences (ObjectBlock ob opt) m v rs = Inr (ObjectBlock ob1 opt, rs1, False)"
      using 1 2(1) by (simp add: ObjectBlock_references_info_def)
    moreover have "visited (ObjectBlock_each strip_ob (\<lambda>s. s)) (\<lambda>x. ObjectBlock_parts x b) ObjectBlock_exports ObjectBlock_uses
        ObjectBlock_children m H P (ObjectBlock ob opt) rs (ObjectBlock ob1 opt, rs1, False)"
      unfolding visited_triple scope using False 2(3) by simp
    ultimately show ?thesis by blast
  next
    case True
    then have "ObjectBlock_symbolObjectReferences (ObjectBlock ob opt) m v rs = Inr (ObjectBlock ob1 opt', rs2, ok2)"
      using 1 2(1) 4(1) by (simp add: ObjectBlock_references_info_def)
    moreover have "visited (ObjectBlock_each strip_ob (\<lambda>s. s)) (\<lambda>x. ObjectBlock_parts x b) ObjectBlock_exports ObjectBlock_uses
        ObjectBlock_children m H P (ObjectBlock ob opt) rs (ObjectBlock ob1 opt', rs2, ok2)"
      unfolding visited_triple scope
    proof (intro conjI impI)
      note v = 4(2)[unfolded visited_triple 1(2)]
      show "ok2 = (ok1 \<and> (\<forall>u\<in>set (inner_uses (map_option Blocks_uses opt) ?S H). in_scope u))" using v True by simp
      show "ObjectBlock_each strip_ob (\<lambda>s. s) (ObjectBlock ob1 opt') = ObjectBlock_each strip_ob (\<lambda>s. s) (ObjectBlock ob opt)"
        using v 2(3) by simp
      assume ok2
      with v have w: "used_references (option_parts (map_option Blocks_parts opt')) =
          map (resolve m) (inner_uses (map_option Blocks_uses opt) ?S H)"
        "references_flagged (option_parts (map_option Blocks_parts opt'))" "rs_ORD_set rs2 = ?S \<union> option_exports opt"
        "rs_ORD_children rs2 = inside (rs_ORD_children rs1) P (option_parts (map_option Blocks_parts opt)) (option_children opt)"
        by simp_all
      show "used_references (ObjectBlock_parts (ObjectBlock ob1 opt') b) =
          map (resolve m) (ObjectBlock_uses (ObjectBlock ob opt) (rs_ORD_set rs) H)"
        unfolding u using 2(4)[OF True] w(1) by simp
      show "references_flagged (ObjectBlock_parts (ObjectBlock ob1 opt') b)" using 2(5)[OF True] w(2) by simp
      show "rs_ORD_set rs2 = rs_ORD_set rs \<union> ObjectBlock_exports (ObjectBlock ob opt)"
        using w(3) by (simp add: option_exports_def Un_assoc)
      show "rs_ORD_children rs2 = inside (rs_ORD_children rs) P (ObjectBlock_parts (ObjectBlock ob opt) b)
          (ObjectBlock_children (ObjectBlock ob opt))"
        using w(4) 1(3) by (simp add: option_children_def)
    qed
    ultimately show ?thesis by blast
  qed
qed

lemma barrier_visited:
  assumes "visited e pt ex us kd m H P x rs (x', rs', ok)"
  shows "barrier (rs_ORD_set rs) (Inr (x', rs', ok)) = Inr (x', rs'\<lparr>rs_ORD_set := rs_ORD_set rs\<rparr>, ok)"
    "visited e pt (\<lambda>_. {}) us kd m H P x rs (x', rs'\<lparr>rs_ORD_set := rs_ORD_set rs\<rparr>, ok)"
  using assms by (simp_all add: visited_triple barrier_def)

lemmas visit_simps = map_changed_simps visited_triple barrier_def

lemma references_visited:
  "surroundings v p H P \<Longrightarrow> Blocks_parented bl p \<Longrightarrow> set (Blocks_nodes bl) \<subseteq> set v \<Longrightarrow>
     fresh_references (Blocks_parts bl) \<Longrightarrow> all_known m v (Blocks_parts bl) \<Longrightarrow> indexed v \<Longrightarrow>
     \<exists>bl' rs' ok. Blocks_symbolObjectReferences bl m v rs = Inr (bl', rs', ok) \<and>
       visited (Blocks_each strip_ob (\<lambda>s. s)) Blocks_parts Blocks_exports Blocks_uses Blocks_children m H P bl rs (bl', rs', ok)"
  "surroundings v p H P \<Longrightarrow> BlockString_parented bs p \<Longrightarrow> set (BlockString_nodes bs) \<subseteq> set v \<Longrightarrow>
     fresh_references (BlockString_parts bs) \<Longrightarrow> all_known m v (BlockString_parts bs) \<Longrightarrow> indexed v \<Longrightarrow>
     \<exists>bs' rs' ok. BlockString_symbolObjectReferences bs m v rs = Inr (bs', rs', ok) \<and>
       visited (BlockString_each strip_ob (\<lambda>s. s)) BlockString_parts BlockString_exports BlockString_uses BlockString_children
         m H P bs rs (bs', rs', ok)"
  "surroundings v p H P \<Longrightarrow> BlockString2_parented b2 p \<Longrightarrow> set (BlockString2_nodes b2) \<subseteq> set v \<Longrightarrow>
     fresh_references (BlockString2_parts b2) \<Longrightarrow> all_known m v (BlockString2_parts b2) \<Longrightarrow> indexed v \<Longrightarrow>
     \<exists>b2' rs' ok. BlockString2_symbolObjectReferences b2 m v rs = Inr (b2', rs', ok) \<and>
       visited (BlockString2_each strip_ob (\<lambda>s. s)) BlockString2_parts BlockString2_exports BlockString2_uses BlockString2_children
         m H P b2 rs (b2', rs', ok)"
  "surroundings v p H P \<Longrightarrow> BlockString1_parented b1 p \<Longrightarrow> set (BlockString1_nodes b1) \<subseteq> set v \<Longrightarrow>
     fresh_references (BlockString1_parts b1) \<Longrightarrow> all_known m v (BlockString1_parts b1) \<Longrightarrow> indexed v \<Longrightarrow>
     \<exists>b1' rs' ok. BlockString1_symbolObjectReferences b1 m v rs = Inr (b1', rs', ok) \<and>
       visited (BlockString1_each strip_ob (\<lambda>s. s)) BlockString1_parts BlockString1_exports BlockString1_uses BlockString1_children
         m H P b1 rs (b1', rs', ok)"
  "surroundings v p H P \<Longrightarrow> BlockString0_parented b0 p \<Longrightarrow> set (BlockString0_nodes b0) \<subseteq> set v \<Longrightarrow>
     fresh_references (BlockString0_parts b0) \<Longrightarrow> all_known m v (BlockString0_parts b0) \<Longrightarrow> indexed v \<Longrightarrow>
     \<exists>b0' rs' ok. BlockString0_symbolObjectReferences b0 m v rs = Inr (b0', rs', ok) \<and>
       visited (BlockString0_each strip_ob (\<lambda>s. s)) BlockString0_parts BlockString0_exports BlockString0_uses BlockString0_children
         m H P b0 rs (b0', rs', ok)"
  "surroundings v p H P \<Longrightarrow> Block_parented bk p \<Longrightarrow> set (Block_nodes bk) \<subseteq> set v \<Longrightarrow>
     fresh_references (Block_parts bk) \<Longrightarrow> all_known m v (Block_parts bk) \<Longrightarrow> indexed v \<Longrightarrow>
     \<exists>bk' rs' ok. Block_symbolObjectReferences bk m v rs = Inr (bk', rs', ok) \<and>
       visited (Block_each strip_ob (\<lambda>s. s)) Block_parts Block_exports Block_uses Block_children m H P bk rs (bk', rs', ok)"
  "surroundings v p H P \<Longrightarrow> GapBlock_parented gb p \<Longrightarrow> set (GapBlock_nodes gb) \<subseteq> set v \<Longrightarrow>
     fresh_references (GapBlock_parts gb) \<Longrightarrow> all_known m v (GapBlock_parts gb) \<Longrightarrow> indexed v \<Longrightarrow>
     \<exists>gb' rs' ok. GapBlock_symbolObjectReferences gb m v rs = Inr (gb', rs', ok) \<and>
       visited (GapBlock_each strip_ob (\<lambda>s. s)) GapBlock_parts GapBlock_exports GapBlock_uses GapBlock_children m H P gb rs (gb', rs', ok)"
  "surroundings v p H P \<Longrightarrow> ObjectBlock_parented ob p \<Longrightarrow> set (ObjectBlock_nodes ob) \<subseteq> set v \<Longrightarrow>
     fresh_references (ObjectBlock_parts ob b) \<Longrightarrow> all_known m v (ObjectBlock_parts ob b) \<Longrightarrow> indexed v \<Longrightarrow>
     \<exists>ob' rs' ok. ObjectBlock_symbolObjectReferences ob m v rs = Inr (ob', rs', ok) \<and>
       visited (ObjectBlock_each strip_ob (\<lambda>s. s)) (\<lambda>x. ObjectBlock_parts x b) ObjectBlock_exports ObjectBlock_uses ObjectBlock_children
         m H P ob rs (ob', rs', ok)"
  "surroundings v p H P \<Longrightarrow> ObjectBlockString_parented obs p \<Longrightarrow> set (ObjectBlockString_nodes obs) \<subseteq> set v \<Longrightarrow>
     fresh_references (ObjectBlockString_parts obs) \<Longrightarrow> all_known m v (ObjectBlockString_parts obs) \<Longrightarrow> indexed v \<Longrightarrow>
     \<exists>obs' rs' ok. ObjectBlockString_symbolObjectReferences obs m v rs = Inr (obs', rs', ok) \<and>
       visited (ObjectBlockString_each strip_ob (\<lambda>s. s)) ObjectBlockString_parts ObjectBlockString_exports ObjectBlockString_uses
         ObjectBlockString_children m H P obs rs (obs', rs', ok)"
proof (induction bl and bs and b2 and b1 and b0 and bk and gb and ob and obs
    arbitrary: p H P rs and p H P rs and p H P rs and p H P rs and p H P rs and p H P rs and p H P rs and b p H P rs and p H P rs)
  case (Blocks_string bs ur)
  obtain x rs1 ok where "BlockString_symbolObjectReferences bs m v rs = Inr (x, rs1, ok)"
    "visited (BlockString_each strip_ob (\<lambda>s. s)) BlockString_parts BlockString_exports BlockString_uses BlockString_children m H P bs rs (x, rs1, ok)"
    using Blocks_string.IH[of p H P rs] Blocks_string.prems by auto
  then show ?case
    by (intro exI[of _ "Blocks_string x ur"] exI[of _ rs1] exI[of _ ok]) (simp add: visit_simps)
next
  case (Blocks_unordered obs)
  obtain x rs1 ok where "ObjectBlockString_symbolObjectReferences obs m v rs = Inr (x, rs1, ok)"
    "visited (ObjectBlockString_each strip_ob (\<lambda>s. s)) ObjectBlockString_parts ObjectBlockString_exports ObjectBlockString_uses ObjectBlockString_children m H P obs rs (x, rs1, ok)"
    using Blocks_unordered.IH[of p H P rs] Blocks_unordered.prems by auto
  moreover have "ObjectBlockString_exports obs = {}" by (cases obs) simp_all
  ultimately show ?case
    by (intro exI[of _ "Blocks_unordered x"] exI[of _ rs1] exI[of _ ok]) (simp add: visit_simps)
next
  case (BlockString_bs2 b2)
  obtain x rs1 ok where "BlockString2_symbolObjectReferences b2 m v rs = Inr (x, rs1, ok)"
    "visited (BlockString2_each strip_ob (\<lambda>s. s)) BlockString2_parts BlockString2_exports BlockString2_uses BlockString2_children m H P b2 rs (x, rs1, ok)"
    using BlockString_bs2.IH[of p H P rs] BlockString_bs2.prems by auto
  then show ?case
    by (intro exI[of _ "BlockString_bs2 x"] exI[of _ rs1] exI[of _ ok]) (simp add: visit_simps)
next
  case (BlockString_or b2 bs)
  obtain b2' rs1 ok1 where 1: "BlockString2_symbolObjectReferences b2 m v rs = Inr (b2', rs1, ok1)"
    "visited (BlockString2_each strip_ob (\<lambda>s. s)) BlockString2_parts BlockString2_exports BlockString2_uses BlockString2_children
         m H P b2 rs (b2', rs1, ok1)"
    using BlockString_or.IH(1)[of p H P rs] BlockString_or.prems by auto
  show ?case
  proof (cases ok1)
    case False
    with 1 show ?thesis
      by (intro exI[of _ "BlockString_or b2' bs"] exI[of _ "rs1\<lparr>rs_ORD_set := rs_ORD_set rs\<rparr>"] exI[of _ False])
        (simp add: visit_simps ball_Un)
  next
    case True
    let ?S = "rs_ORD_set rs1 - {ORD \<in> rs_ORD_set rs1. ORD \<notin> rs_ORD_set rs}"
    have s: "?S = rs_ORD_set rs" using 1(2) True by (auto simp: visited_triple)
    obtain bs' rs2 ok2 where 2: "BlockString_symbolObjectReferences bs m v (rs1\<lparr>rs_ORD_set := ?S\<rparr>) = Inr (bs', rs2, ok2)"
      "visited (BlockString_each strip_ob (\<lambda>s. s)) BlockString_parts BlockString_exports BlockString_uses BlockString_children
         m H P bs (rs1\<lparr>rs_ORD_set := ?S\<rparr>) (bs', rs2, ok2)"
      using BlockString_or.IH(2)[of p H P "rs1\<lparr>rs_ORD_set := ?S\<rparr>"] BlockString_or.prems by auto
    show ?thesis
    proof (cases ok2)
      case f: False
      have "BlockString_symbolObjectReferences (BlockString_or b2 bs) m v rs =
          Inr (BlockString_or b2' bs', rs2\<lparr>rs_ORD_set := rs_ORD_set rs\<rparr>, False)"
        using 1(1) 2(1) True f by (simp add: Let_def)
      moreover have "visited (BlockString_each strip_ob (\<lambda>s. s)) BlockString_parts BlockString_exports BlockString_uses BlockString_children
         m H P (BlockString_or b2 bs) rs (BlockString_or b2' bs', rs2\<lparr>rs_ORD_set := rs_ORD_set rs\<rparr>, False)"
        using 1(2) 2(2)[unfolded s] f True by (simp add: visited_triple ball_Un)
      ultimately show ?thesis by blast
    next
      case t: True
      have "BlockString_symbolObjectReferences (BlockString_or b2 bs) m v rs = Inr (BlockString_or b2' bs', rs2, True)"
        using 1(1) 2(1) True t by (simp add: Let_def)
      moreover have "visited (BlockString_each strip_ob (\<lambda>s. s)) BlockString_parts BlockString_exports BlockString_uses BlockString_children
         m H P (BlockString_or b2 bs) rs (BlockString_or b2' bs', rs2, True)"
        using 1(2) 2(2)[unfolded s] True t by (simp add: visited_triple ball_Un)
      ultimately show ?thesis by blast
    qed
  qed
next
  case (BlockString2_bs1 n b1)
  let ?h = "getImmediateObjectBlock b1"
  have s: "surroundings v (bs2_node_number n) (H \<union> head_name ?h) (insert (bs2_node_number n) P)"
    using BlockString2_bs1.prems immediate_lowered[of b1] surroundings_string[of v p H P n ?h] by simp
  obtain b1' rs1 ok where 1: "BlockString1_symbolObjectReferences b1 m v rs = Inr (b1', rs1, ok)"
    "visited (BlockString1_each strip_ob (\<lambda>s. s)) BlockString1_parts BlockString1_exports BlockString1_uses BlockString1_children
         m (H \<union> head_name ?h) (insert (bs2_node_number n) P) b1 rs (b1', rs1, ok)"
    using BlockString2_bs1.IH[OF s, of rs] BlockString2_bs1.prems by auto
  then show ?case
    by (intro exI[of _ "BlockString2_bs1 n b1'"] exI[of _ rs1] exI[of _ ok])
      (simp add: visit_simps del: getImmediateObjectBlock.simps)
next
  case (BlockString2_seq n b1 b2)
  let ?h = "getImmediateObjectBlock b1"
  have s: "surroundings v (bs2_node_number n) (H \<union> head_name ?h) (insert (bs2_node_number n) P)"
    using BlockString2_seq.prems immediate_lowered[of b1] surroundings_string[of v p H P n ?h] by simp
  obtain b1' rs1 ok1 where 1: "BlockString1_symbolObjectReferences b1 m v rs = Inr (b1', rs1, ok1)"
    "visited (BlockString1_each strip_ob (\<lambda>s. s)) BlockString1_parts BlockString1_exports BlockString1_uses BlockString1_children
         m (H \<union> head_name ?h) (insert (bs2_node_number n) P) b1 rs (b1', rs1, ok1)"
    using BlockString2_seq.IH(1)[OF s, of rs] BlockString2_seq.prems by auto
  show ?case
  proof (cases ok1)
    case False
    with 1 show ?thesis
      by (intro exI[of _ "BlockString2_seq n b1' b2"] exI[of _ rs1] exI[of _ False])
        (simp add: visit_simps ball_Un del: getImmediateObjectBlock.simps)
  next
    case True
    obtain b2' rs2 ok2 where 2: "BlockString2_symbolObjectReferences b2 m v rs1 = Inr (b2', rs2, ok2)"
      "visited (BlockString2_each strip_ob (\<lambda>s. s)) BlockString2_parts BlockString2_exports BlockString2_uses BlockString2_children
         m H P b2 rs1 (b2', rs2, ok2)"
      using BlockString2_seq.IH(2)[of p H P rs1] BlockString2_seq.prems by auto
    have "inside (inside ch (insert (bs2_node_number n) P) ps k) P qs k' =
        inside ch P (P_string n # ps @ qs) ({bs2_node_number n} \<times> set (declared_names ps) \<union> k \<union> k')" for ch ps qs k k'
      by (auto simp: inside_def fun_eq_iff)
    with 1 2 True show ?thesis
      by (intro exI[of _ "BlockString2_seq n b1' b2'"] exI[of _ rs2] exI[of _ ok2])
        (simp add: visit_simps ball_Un Un_assoc del: getImmediateObjectBlock.simps)
  qed
next
  case (BlockString1_bs0 b0)
  obtain x rs1 ok where "BlockString0_symbolObjectReferences b0 m v rs = Inr (x, rs1, ok)"
    "visited (BlockString0_each strip_ob (\<lambda>s. s)) BlockString0_parts BlockString0_exports BlockString0_uses BlockString0_children m H P b0 rs (x, rs1, ok)"
    using BlockString1_bs0.IH[of p H P rs] BlockString1_bs0.prems by auto
  then show ?case
    by (intro exI[of _ "BlockString1_bs0 x"] exI[of _ rs1] exI[of _ ok]) (simp add: visit_simps)
next
  case (BlockString1_star b0 mse som)
  obtain x rs1 ok where "BlockString0_symbolObjectReferences b0 m v rs = Inr (x, rs1, ok)"
    "visited (BlockString0_each strip_ob (\<lambda>s. s)) BlockString0_parts BlockString0_exports BlockString0_uses BlockString0_children m H P b0 rs (x, rs1, ok)"
    using BlockString1_star.IH[of p H P rs] BlockString1_star.prems by auto
  then show ?case
    by (intro exI[of _ "BlockString1_star x mse som"] exI[of _ "(rs1\<lparr>rs_ORD_set := rs_ORD_set rs\<rparr>)"] exI[of _ ok]) (simp add: visit_simps)
next
  case (BlockString0_block b)
  obtain x rs1 ok where "Block_symbolObjectReferences b m v rs = Inr (x, rs1, ok)"
    "visited (Block_each strip_ob (\<lambda>s. s)) Block_parts Block_exports Block_uses Block_children m H P b rs (x, rs1, ok)"
    using BlockString0_block.IH[of p H P rs] BlockString0_block.prems by auto
  then show ?case
    by (intro exI[of _ "BlockString0_block x"] exI[of _ rs1] exI[of _ ok]) (simp add: visit_simps)
next
  case (BlockString0_string bs)
  obtain x rs1 ok where "BlockString_symbolObjectReferences bs m v rs = Inr (x, rs1, ok)"
    "visited (BlockString_each strip_ob (\<lambda>s. s)) BlockString_parts BlockString_exports BlockString_uses BlockString_children m H P bs rs (x, rs1, ok)"
    using BlockString0_string.IH[of p H P rs] BlockString0_string.prems by auto
  then show ?case
    by (intro exI[of _ "BlockString0_string x"] exI[of _ rs1] exI[of _ ok]) (simp add: visit_simps)
next
  case (kOptGapBlock g)
  obtain x rs1 ok where "GapBlock_symbolObjectReferences g m v rs = Inr (x, rs1, ok)"
    "visited (GapBlock_each strip_ob (\<lambda>s. s)) GapBlock_parts GapBlock_exports GapBlock_uses GapBlock_children m H P g rs (x, rs1, ok)"
    using kOptGapBlock.IH[of p H P rs] kOptGapBlock.prems by auto
  then show ?case
    by (intro exI[of _ "kOptGapBlock x"] exI[of _ rs1] exI[of _ ok]) (simp add: visit_simps)
next
  case (kGapBlock g)
  obtain x rs1 ok where "GapBlock_symbolObjectReferences g m v rs = Inr (x, rs1, ok)"
    "visited (GapBlock_each strip_ob (\<lambda>s. s)) GapBlock_parts GapBlock_exports GapBlock_uses GapBlock_children m H P g rs (x, rs1, ok)"
    using kGapBlock.IH[of p H P rs] kGapBlock.prems by auto
  then show ?case
    by (intro exI[of _ "kGapBlock x"] exI[of _ rs1] exI[of _ ok]) (simp add: visit_simps)
next
  case (kPowerBlock pw)
  then show ?case by (simp add: visit_simps) blast
next
  case (kObjectBlock ob)
  obtain x rs1 ok where "ObjectBlock_symbolObjectReferences ob m v rs = Inr (x, rs1, ok)"
    "visited (ObjectBlock_each strip_ob (\<lambda>s. s)) (\<lambda>x. ObjectBlock_parts x False) ObjectBlock_exports ObjectBlock_uses ObjectBlock_children m H P ob rs (x, rs1, ok)"
    using kObjectBlock.IH[of p H P False rs] kObjectBlock.prems by auto
  then show ?case
    by (intro exI[of _ "kObjectBlock x"] exI[of _ rs1] exI[of _ ok]) (simp add: visit_simps)
next
  case (kObjectBlockNOTEXIST ob)
  obtain x rs1 ok where "ObjectBlock_symbolObjectReferences ob m v rs = Inr (x, rs1, ok)"
    "visited (ObjectBlock_each strip_ob (\<lambda>s. s)) (\<lambda>x. ObjectBlock_parts x True) ObjectBlock_exports ObjectBlock_uses ObjectBlock_children m H P ob rs (x, rs1, ok)"
    using kObjectBlockNOTEXIST.IH[of p H P True rs] kObjectBlockNOTEXIST.prems by auto
  then show ?case
    by (intro exI[of _ "kObjectBlockNOTEXIST x"] exI[of _ "(rs1\<lparr>rs_ORD_set := rs_ORD_set rs\<rparr>)"] exI[of _ ok]) (simp add: visit_simps)
next
  case (GapBlock g opt)
  have "inner_visited m v opt" using GapBlock.IH GapBlock.prems(6) by (auto simp: inner_visited_def)
  from inner_references_ok[OF this GapBlock.prems(1), of rs] GapBlock.prems
  obtain opt' rs' ok where
    "inner_references opt (map_option (\<lambda>f. f m v) (map_option Blocks_symbolObjectReferences opt)) rs = Inr (opt', rs', ok)"
    "visited (map_option (Blocks_each strip_ob (\<lambda>s. s))) (\<lambda>x. option_parts (map_option Blocks_parts x)) option_exports
       (\<lambda>x. inner_uses (map_option Blocks_uses x)) option_children m H P opt rs (opt', rs', ok)" by auto
  then show ?case
    by (intro exI[of _ "GapBlock g opt'"] exI[of _ rs'] exI[of _ ok])
      (simp add: visit_simps option_exports_def option_children_def inside_def)
next
  case (ObjectBlock j opt)
  have "inner_visited m v opt" using ObjectBlock.IH ObjectBlock.prems(6) by (auto simp: inner_visited_def)
  from ObjectBlock_visited[OF this ObjectBlock.prems(1-5)] show ?case .
next
  case (ObjectBlockString_one ob)
  obtain x rs1 ok where "ObjectBlock_symbolObjectReferences ob m v rs = Inr (x, rs1, ok)"
    "visited (ObjectBlock_each strip_ob (\<lambda>s. s)) (\<lambda>x. ObjectBlock_parts x False) ObjectBlock_exports ObjectBlock_uses ObjectBlock_children m H P ob rs (x, rs1, ok)"
    using ObjectBlockString_one.IH[of p H P False rs] ObjectBlockString_one.prems by auto
  then show ?case
    by (intro exI[of _ "ObjectBlockString_one x"] exI[of _ "(rs1\<lparr>rs_ORD_set := rs_ORD_set rs\<rparr>)"] exI[of _ ok]) (simp add: visit_simps)
next
  case (ObjectBlockString_more obs ob)
  obtain obs' rs1 ok1 where 1: "ObjectBlockString_symbolObjectReferences obs m v rs = Inr (obs', rs1, ok1)"
    "visited (ObjectBlockString_each strip_ob (\<lambda>s. s)) ObjectBlockString_parts ObjectBlockString_exports ObjectBlockString_uses
         ObjectBlockString_children m H P obs rs (obs', rs1, ok1)"
    using ObjectBlockString_more.IH(1)[of p H P rs] ObjectBlockString_more.prems by auto
  have e: "ObjectBlockString_exports obs = {}" by (cases obs) simp_all
  show ?case
  proof (cases ok1)
    case False
    with 1 show ?thesis
      by (intro exI[of _ "ObjectBlockString_more obs' ob"] exI[of _ rs1] exI[of _ False]) (simp add: visit_simps ball_Un)
  next
    case True
    obtain x rs2 ok2 where "ObjectBlock_symbolObjectReferences ob m v rs1 = Inr (x, rs2, ok2)"
      "visited (ObjectBlock_each strip_ob (\<lambda>s. s)) (\<lambda>x. ObjectBlock_parts x False) ObjectBlock_exports ObjectBlock_uses ObjectBlock_children
         m H P ob rs1 (x, rs2, ok2)"
      using ObjectBlockString_more.IH(2)[of p H P False rs1] ObjectBlockString_more.prems by auto
    with 1 e True show ?thesis
      by (intro exI[of _ "ObjectBlockString_more obs' x"] exI[of _ "rs2\<lparr>rs_ORD_set := rs_ORD_set rs1\<rparr>"] exI[of _ ok2])
        (simp add: visit_simps ball_Un)
  qed
qed

end
