(* ===== verification/Names_Props.thy ===== *)
theory Names_Props
  imports References_Props
begin

text \<open>
  Names: a query declares each name once and before it is used, and checked queries have their
  references resolved: weeding, the visit of the names and the visit of the references together.
\<close>

section \<open>What the visit of the names returns\<close>

definition ob_declare :: "ORDMap \<Rightarrow> ObjectBlockInfo \<Rightarrow> ORDMap" where
  "ob_declare m ob = (if ob_object_reference_lower ob = [] then m else m(ob_object_reference_lower ob \<mapsto> ob_nn ob))"

fun declare_names :: "ORDMap \<Rightarrow> part list \<Rightarrow> ORDMap" where
  "declare_names m [] = m"
| "declare_names m (P_object b ob # ps) = declare_names (ob_declare m ob) ps"
| "declare_names m (P_string n # ps) = declare_names m ps"
| "declare_names m (P_gap g # ps) = declare_names m ps"

definition ob_accepted :: "SymbolDB \<Rightarrow> ORDMap \<Rightarrow> ObjectBlockInfo \<Rightarrow> bool" where
  "ob_accepted db m ob \<longleftrightarrow> db_block db ob \<and> (\<forall>s\<in>set (ob_names ob). m s = None) \<and> symbol_constraints db (ob_declare m ob) ob \<and>
     db_monad_set db (ob_MSRC ob) (obb_object_type_id (ob_base ob))"

fun names_accepted :: "SymbolDB \<Rightarrow> ORDMap \<Rightarrow> part list \<Rightarrow> bool" where
  "names_accepted db m [] = True"
| "names_accepted db m (P_object b ob # ps) = (ob_accepted db m ob \<and> names_accepted db (ob_declare m ob) ps)"
| "names_accepted db m (P_string n # ps) = names_accepted db m ps"
| "names_accepted db m (P_gap g # ps) = names_accepted db m ps"

lemma names_append [simp]:
  "declare_names m (ps @ qs) = declare_names (declare_names m ps) qs"
  "names_accepted db m (ps @ qs) = (names_accepted db m ps \<and> names_accepted db (declare_names m ps) qs)"
  by (induction db m ps rule: names_accepted.induct) auto

text \<open>What the visit may change: the places of features, the tables of the blocks, and the sets of the stars.\<close>

definition unplace_comparison :: "FeatureComparison \<Rightarrow> FeatureComparison" where
  "unplace_comparison fc = fc\<lparr>fc_feature_index := 0\<rparr>"

definition unplace_ob :: "ObjectBlockInfo \<Rightarrow> ObjectBlockInfo" where
  "unplace_ob ob = ob\<lparr>ob_object := [], ob_feature_constraints :=
     map_option (\<lambda>c. c\<lparr>ffc_ffeatures := FFeatures_each unplace_comparison (ffc_ffeatures c)\<rparr>) (ob_feature_constraints ob)\<rparr>"

abbreviation Blocks_unplace :: "Blocks \<Rightarrow> Blocks" where
  "Blocks_unplace \<equiv> Blocks_each unplace_ob (\<lambda>_. SetOfMonads_empty)"

text \<open>The ranges of the stars.\<close>

definition inner_stars :: "(MQLMonadSetElement \<Rightarrow> bool) \<Rightarrow> ((MQLMonadSetElement \<Rightarrow> bool) \<Rightarrow> bool) option \<Rightarrow> bool" where
  "inner_stars R inner \<longleftrightarrow> (case inner of None \<Rightarrow> True | Some f \<Rightarrow> f R)"

lemma inner_stars_simps [simp]: "inner_stars R None" "inner_stars R (Some f) = f R"
  by (simp_all add: inner_stars_def)

primrec Blocks_stars :: "Blocks \<Rightarrow> (MQLMonadSetElement \<Rightarrow> bool) \<Rightarrow> bool"
and BlockString_stars :: "BlockString \<Rightarrow> (MQLMonadSetElement \<Rightarrow> bool) \<Rightarrow> bool"
and BlockString2_stars :: "BlockString2 \<Rightarrow> (MQLMonadSetElement \<Rightarrow> bool) \<Rightarrow> bool"
and BlockString1_stars :: "BlockString1 \<Rightarrow> (MQLMonadSetElement \<Rightarrow> bool) \<Rightarrow> bool"
and BlockString0_stars :: "BlockString0 \<Rightarrow> (MQLMonadSetElement \<Rightarrow> bool) \<Rightarrow> bool"
and Block_stars :: "Block \<Rightarrow> (MQLMonadSetElement \<Rightarrow> bool) \<Rightarrow> bool"
and GapBlock_stars :: "GapBlock \<Rightarrow> (MQLMonadSetElement \<Rightarrow> bool) \<Rightarrow> bool"
and ObjectBlock_stars :: "ObjectBlock \<Rightarrow> (MQLMonadSetElement \<Rightarrow> bool) \<Rightarrow> bool"
and ObjectBlockString_stars :: "ObjectBlockString \<Rightarrow> (MQLMonadSetElement \<Rightarrow> bool) \<Rightarrow> bool" where
  "Blocks_stars (Blocks_string bs ur) = BlockString_stars bs"
| "Blocks_stars (Blocks_unordered obs) = ObjectBlockString_stars obs"
| "BlockString_stars (BlockString_bs2 b2) = BlockString2_stars b2"
| "BlockString_stars (BlockString_or b2 bs) = (\<lambda>R. BlockString2_stars b2 R \<and> BlockString_stars bs R)"
| "BlockString2_stars (BlockString2_bs1 n b1) = BlockString1_stars b1"
| "BlockString2_stars (BlockString2_seq n b1 b2) = (\<lambda>R. BlockString1_stars b1 R \<and> BlockString2_stars b2 R)"
| "BlockString1_stars (BlockString1_bs0 b0) = BlockString0_stars b0"
| "BlockString1_stars (BlockString1_star b0 mse som) = (\<lambda>R. R mse \<and> BlockString0_stars b0 R)"
| "BlockString0_stars (BlockString0_block b) = Block_stars b"
| "BlockString0_stars (BlockString0_string bs) = BlockString_stars bs"
| "Block_stars (kOptGapBlock g) = GapBlock_stars g"
| "Block_stars (kGapBlock g) = GapBlock_stars g"
| "Block_stars (kPowerBlock p) = (\<lambda>R. True)"
| "Block_stars (kObjectBlock ob) = ObjectBlock_stars ob"
| "Block_stars (kObjectBlockNOTEXIST ob) = ObjectBlock_stars ob"
| "GapBlock_stars (GapBlock g opt_blocks) = (\<lambda>R. inner_stars R (map_option Blocks_stars opt_blocks))"
| "ObjectBlock_stars (ObjectBlock ob opt_blocks) = (\<lambda>R. inner_stars R (map_option Blocks_stars opt_blocks))"
| "ObjectBlockString_stars (ObjectBlockString_one ob) = ObjectBlock_stars ob"
| "ObjectBlockString_stars (ObjectBlockString_more obs ob) = (\<lambda>R. ObjectBlockString_stars obs R \<and> ObjectBlock_stars ob R)"

definition range_ok :: "MQLMonadSetElement \<Rightarrow> bool" where
  "range_ok mse \<longleftrightarrow> (\<forall>(a, b)\<in>set mse. 0 \<le> a \<and> a \<le> b \<and> b \<le> MAX_MONAD)"

definition bounds_ok_range :: "MQLMonadSetElement \<Rightarrow> bool" where
  "bounds_ok_range mse \<longleftrightarrow> (\<forall>(a, b)\<in>set mse. 0 \<le> a \<and> b \<le> MAX_MONAD)"

lemma erase_stars:
  "Blocks_stars (Blocks_erase bl) = Blocks_stars bl" "BlockString_stars (BlockString_erase bs) = BlockString_stars bs"
  "BlockString2_stars (BlockString2_erase b2) = BlockString2_stars b2"
  "BlockString1_stars (BlockString1_erase b1) = BlockString1_stars b1"
  "BlockString0_stars (BlockString0_erase b0) = BlockString0_stars b0"
  "Block_stars (Block_erase bk) = Block_stars bk" "GapBlock_stars (GapBlock_erase gb) = GapBlock_stars gb"
  "ObjectBlock_stars (ObjectBlock_erase ob) = ObjectBlock_stars ob"
  "ObjectBlockString_stars (ObjectBlockString_erase obs) = ObjectBlockString_stars obs"
proof (induction bl and bs and b2 and b1 and b0 and bk and gb and ob and obs)
  case (GapBlock g opt)
  then show ?case by (cases opt) auto
next
  case (ObjectBlock j opt)
  then show ?case by (cases opt) auto
qed simp_all

lemma placed_stars:
  "Blocks_placed bl \<Longrightarrow> Blocks_stars bl bounds_ok_range \<Longrightarrow> Blocks_stars bl range_ok"
  "BlockString_placed bs f l \<Longrightarrow> BlockString_stars bs bounds_ok_range \<Longrightarrow> BlockString_stars bs range_ok"
  "BlockString2_placed b2 f l g p \<Longrightarrow> BlockString2_stars b2 bounds_ok_range \<Longrightarrow> BlockString2_stars b2 range_ok"
  "BlockString1_placed b1 f l g p \<Longrightarrow> BlockString1_stars b1 bounds_ok_range \<Longrightarrow> BlockString1_stars b1 range_ok"
  "BlockString0_placed b0 f l g p \<Longrightarrow> BlockString0_stars b0 bounds_ok_range \<Longrightarrow> BlockString0_stars b0 range_ok"
  "Block_placed bk f l \<Longrightarrow> Block_stars bk bounds_ok_range \<Longrightarrow> Block_stars bk range_ok"
  "GapBlock_placed gb \<Longrightarrow> GapBlock_stars gb bounds_ok_range \<Longrightarrow> GapBlock_stars gb range_ok"
  "ObjectBlock_placed ob f l \<Longrightarrow> ObjectBlock_stars ob bounds_ok_range \<Longrightarrow> ObjectBlock_stars ob range_ok"
  "ObjectBlockString_placed obs \<Longrightarrow> ObjectBlockString_stars obs bounds_ok_range \<Longrightarrow> ObjectBlockString_stars obs range_ok"
proof (induction bl and bs and b2 and b1 and b0 and bk and gb and ob and obs
    arbitrary: and f l and f l g p and f l g p and f l g p and f l and and f l and)
  case (BlockString1_star b0 mse som)
  then show ?case by (auto simp: range_ok_def bounds_ok_range_def)
next
  case (GapBlock g opt)
  then show ?case by (cases opt) auto
next
  case (ObjectBlock j opt)
  then show ?case by (cases opt) auto
qed auto

section \<open>The visit of the names\<close>

definition named :: "('a \<Rightarrow> 'a) \<Rightarrow> ('a \<Rightarrow> part list) \<Rightarrow> SymbolDB \<Rightarrow> 'a \<Rightarrow> ORDMap \<Rightarrow> 'a \<times> ORDMap \<times> bool \<Rightarrow> bool" where
  "named unplace parts db x m r \<longleftrightarrow> (case r of (x', m', ok) \<Rightarrow> ok = names_accepted db m (parts x) \<and> unplace x' = unplace x \<and>
     (ok \<longrightarrow> m' = declare_names m (parts x)))"

lemma named_triple:
  "named unplace parts db x m (x', m', ok) \<longleftrightarrow> ok = names_accepted db m (parts x) \<and> unplace x' = unplace x \<and>
     (ok \<longrightarrow> m' = declare_names m (parts x))"
  by (simp add: named_def)

lemma FeatureComparison_placed:
  "\<exists>fc' names'. FeatureComparison_symbolAddFeatures fc names = Inr (fc', names') \<and> unplace_comparison fc' = unplace_comparison fc"
proof -
  obtain i where "getFeatureIndex 0 (MQLObject_addFeature names (fc_feature_name fc)) (fc_feature_name fc) = Inr (0 + i)"
    using getFeatureIndex_found[OF addFeature_extends(2)[of names "fc_feature_name fc"], of 0] by auto
  then show ?thesis by (simp add: FeatureComparison_symbolAddFeatures_def Let_def unplace_comparison_def)
qed

lemma FFeatures_placed:
  "\<exists>f' names'. FFeatures_symbolAddFeatures f names = Inr (f', names') \<and> FFeatures_each unplace_comparison f' = FFeatures_each unplace_comparison f"
  "\<exists>t' names'. FTerm_symbolAddFeatures t names = Inr (t', names') \<and> FTerm_each unplace_comparison t' = FTerm_each unplace_comparison t"
  "\<exists>a' names'. FFactor_symbolAddFeatures a names = Inr (a', names') \<and> FFactor_each unplace_comparison a' = FFactor_each unplace_comparison a"
proof (induction f and t and a arbitrary: names and names and names)
  case (FFeatures_or f t)
  obtain f' n1 where "FFeatures_symbolAddFeatures f names = Inr (f', n1)"
    "FFeatures_each unplace_comparison f' = FFeatures_each unplace_comparison f" using FFeatures_or.IH(1) by blast
  moreover obtain t' n2 where "FTerm_symbolAddFeatures t n1 = Inr (t', n2)"
    "FTerm_each unplace_comparison t' = FTerm_each unplace_comparison t" using FFeatures_or.IH(2) by blast
  ultimately show ?case by simp
next
  case (FTerm_and t a)
  obtain t' n1 where "FTerm_symbolAddFeatures t names = Inr (t', n1)"
    "FTerm_each unplace_comparison t' = FTerm_each unplace_comparison t" using FTerm_and.IH(1) by blast
  moreover obtain a' n2 where "FFactor_symbolAddFeatures a n1 = Inr (a', n2)"
    "FFactor_each unplace_comparison a' = FFactor_each unplace_comparison a" using FTerm_and.IH(2) by blast
  ultimately show ?case by simp
next
  case (FFactor_comparison fc)
  obtain fc' n1 where "FeatureComparison_symbolAddFeatures fc names = Inr (fc', n1)" "unplace_comparison fc' = unplace_comparison fc"
    using FeatureComparison_placed by blast
  then show ?case by simp
next
  case (FFeatures_fterm t)
  obtain t' n1 where "FTerm_symbolAddFeatures t names = Inr (t', n1)"
    "FTerm_each unplace_comparison t' = FTerm_each unplace_comparison t" using FFeatures_fterm.IH by blast
  then show ?case by simp
next
  case (FTerm_ffactor a)
  obtain a' n1 where "FFactor_symbolAddFeatures a names = Inr (a', n1)"
    "FFactor_each unplace_comparison a' = FFactor_each unplace_comparison a" using FTerm_ffactor.IH by blast
  then show ?case by simp
next
  case (FFactor_not a)
  obtain a' n1 where "FFactor_symbolAddFeatures a names = Inr (a', n1)"
    "FFactor_each unplace_comparison a' = FFactor_each unplace_comparison a" using FFactor_not.IH by blast
  then show ?case by simp
next
  case (FFactor_paren f)
  obtain f' n1 where "FFeatures_symbolAddFeatures f names = Inr (f', n1)"
    "FFeatures_each unplace_comparison f' = FFeatures_each unplace_comparison f" using FFactor_paren.IH by blast
  then show ?case by simp
qed

lemma symbol_features_ok:
  "\<exists>ob'. symbol_features ob = Inr ob' \<and> unplace_ob ob' = unplace_ob ob \<and> ob_MSRC ob' = ob_MSRC ob \<and> ob_base ob' = ob_base ob"
proof (cases "ob_feature_constraints ob")
  case (Some c)
  obtain f' n1 where "FFeatures_symbolAddFeatures (ffc_ffeatures c) (ob_object ob) = Inr (f', n1)"
    "FFeatures_each unplace_comparison f' = FFeatures_each unplace_comparison (ffc_ffeatures c)" using FFeatures_placed(1) by blast
  with Some show ?thesis by (simp add: symbol_features_def unplace_ob_def)
qed (simp add: symbol_features_def)

definition inner_named :: "SymbolDB \<Rightarrow> Blocks option \<Rightarrow> bool" where
  "inner_named db opt \<longleftrightarrow> (\<forall>bl m. opt = Some bl \<longrightarrow> (\<exists>bl' m' ok. Blocks_symbol bl db m = Inr (bl', m', ok) \<and>
     named Blocks_unplace Blocks_parts db bl m (bl', m', ok)))"

lemma inner_symbol_ok:
  assumes "inner_named db opt"
  shows "\<exists>opt' m' ok. inner_symbol opt (map_option (\<lambda>f. f db) (map_option Blocks_symbol opt)) m = Inr (opt', m', ok) \<and>
     named (map_option Blocks_unplace) (\<lambda>x. option_parts (map_option Blocks_parts x)) db opt m (opt', m', ok)"
proof (cases opt)
  case None
  then show ?thesis by (simp add: inner_symbol_def named_triple) blast
next
  case (Some bl)
  with assms obtain bl' m' ok where "Blocks_symbol bl db m = Inr (bl', m', ok)" "named Blocks_unplace Blocks_parts db bl m (bl', m', ok)"
    unfolding inner_named_def by blast
  with Some show ?thesis
    by (intro exI[of _ "Some bl'"] exI[of _ m'] exI[of _ ok]) (simp add: inner_symbol_def named_triple)
qed

lemma ObjectBlock_named:
  assumes "inner_named db opt"
  shows "\<exists>ob' m' ok. ObjectBlock_symbol (ObjectBlock ob opt) db m = Inr (ob', m', ok) \<and>
     named (ObjectBlock_each unplace_ob (\<lambda>_. SetOfMonads_empty)) (\<lambda>x. ObjectBlock_parts x b) db (ObjectBlock ob opt) m (ob', m', ok)"
proof -
  let ?f = "map_option (\<lambda>f. f db) (map_option Blocks_symbol opt)" and ?m = "ob_declare m ob" and ?ref = "ob_object_reference_lower ob"
  have new: "(\<forall>s\<in>set (ob_names ob). m s = None) = (\<not> (?ref \<noteq> [] \<and> m ?ref \<noteq> None))" by (auto simp: ob_names_def)
  obtain ob1 where 1: "symbol_features ob = Inr ob1" "unplace_ob ob1 = unplace_ob ob" "ob_MSRC ob1 = ob_MSRC ob" "ob_base ob1 = ob_base ob"
    using symbol_features_ok by blast
  obtain opt' m' ok where 2: "inner_symbol opt ?f ?m = Inr (opt', m', ok)"
    "named (map_option Blocks_unplace) (\<lambda>x. option_parts (map_option Blocks_parts x)) db opt ?m (opt', m', ok)"
    using inner_symbol_ok[OF assms, of ?m] by blast
  have code: "ObjectBlock_symbol (ObjectBlock ob opt) db m =
      (if \<not> db_block db ob \<or> ?ref \<noteq> [] \<and> m ?ref \<noteq> None then Inr (ObjectBlock ob opt, m, False)
       else if \<not> symbol_constraints db ?m ob then Inr (ObjectBlock ob opt, ?m, False)
       else if \<not> db_monad_set db (ob_MSRC ob) (obb_object_type_id (ob_base ob)) then Inr (ObjectBlock ob1 opt, ?m, False)
       else Inr (ObjectBlock ob1 opt', m', ok))"
    using 1(1,3,4) 2(1)
    by (cases "?ref = []"; cases "m ?ref") (simp_all add: ObjectBlock_symbol_info_def Let_def ob_declare_def ob_nn_def)
  show ?thesis
  proof (cases "ob_accepted db m ob")
    case True
    then have "ObjectBlock_symbol (ObjectBlock ob opt) db m = Inr (ObjectBlock ob1 opt', m', ok)"
      unfolding code by (auto simp: ob_accepted_def new)
    with 2(2) True 1(2) show ?thesis
      by (intro exI[of _ "ObjectBlock ob1 opt'"] exI[of _ m'] exI[of _ ok]) (simp add: named_triple)
  next
    case False
    have "\<exists>ob' m'. ObjectBlock_symbol (ObjectBlock ob opt) db m = Inr (ObjectBlock ob' opt, m', False) \<and> unplace_ob ob' = unplace_ob ob"
      using False unfolding code ob_accepted_def new by (auto simp: 1(2))
    then obtain ob' m' where "ObjectBlock_symbol (ObjectBlock ob opt) db m = Inr (ObjectBlock ob' opt, m', False)"
      "unplace_ob ob' = unplace_ob ob" by blast
    with False show ?thesis
      by (intro exI[of _ "ObjectBlock ob' opt"] exI[of _ m'] exI[of _ False]) (simp add: named_triple)
  qed
qed

lemma names_visited:
  "Blocks_stars bl range_ok \<Longrightarrow> \<exists>x m' ok. Blocks_symbol bl db m = Inr (x, m', ok) \<and>
     named (Blocks_each unplace_ob (\<lambda>_. SetOfMonads_empty)) Blocks_parts db bl m (x, m', ok)"
  "BlockString_stars bs range_ok \<Longrightarrow> \<exists>x m' ok. BlockString_symbol bs db m = Inr (x, m', ok) \<and>
     named (BlockString_each unplace_ob (\<lambda>_. SetOfMonads_empty)) BlockString_parts db bs m (x, m', ok)"
  "BlockString2_stars b2 range_ok \<Longrightarrow> \<exists>x m' ok. BlockString2_symbol b2 db m = Inr (x, m', ok) \<and>
     named (BlockString2_each unplace_ob (\<lambda>_. SetOfMonads_empty)) BlockString2_parts db b2 m (x, m', ok)"
  "BlockString1_stars b1 range_ok \<Longrightarrow> \<exists>x m' ok. BlockString1_symbol b1 db m = Inr (x, m', ok) \<and>
     named (BlockString1_each unplace_ob (\<lambda>_. SetOfMonads_empty)) BlockString1_parts db b1 m (x, m', ok)"
  "BlockString0_stars b0 range_ok \<Longrightarrow> \<exists>x m' ok. BlockString0_symbol b0 db m = Inr (x, m', ok) \<and>
     named (BlockString0_each unplace_ob (\<lambda>_. SetOfMonads_empty)) BlockString0_parts db b0 m (x, m', ok)"
  "Block_stars bk range_ok \<Longrightarrow> \<exists>x m' ok. Block_symbol bk db m = Inr (x, m', ok) \<and>
     named (Block_each unplace_ob (\<lambda>_. SetOfMonads_empty)) Block_parts db bk m (x, m', ok)"
  "GapBlock_stars gb range_ok \<Longrightarrow> \<exists>x m' ok. GapBlock_symbol gb db m = Inr (x, m', ok) \<and>
     named (GapBlock_each unplace_ob (\<lambda>_. SetOfMonads_empty)) GapBlock_parts db gb m (x, m', ok)"
  "ObjectBlock_stars ob range_ok \<Longrightarrow> \<exists>x m' ok. ObjectBlock_symbol ob db m = Inr (x, m', ok) \<and>
     named (ObjectBlock_each unplace_ob (\<lambda>_. SetOfMonads_empty)) (\<lambda>x. ObjectBlock_parts x b) db ob m (x, m', ok)"
  "ObjectBlockString_stars obs range_ok \<Longrightarrow> \<exists>x m' ok. ObjectBlockString_symbol obs db m = Inr (x, m', ok) \<and>
     named (ObjectBlockString_each unplace_ob (\<lambda>_. SetOfMonads_empty)) ObjectBlockString_parts db obs m (x, m', ok)"
proof (induction bl and bs and b2 and b1 and b0 and bk and gb and ob and obs
    arbitrary: m and m and m and m and m and m and m and b m and m)
  case (Blocks_string bs ur)
  obtain x m' ok where "BlockString_symbol bs db m = Inr (x, m', ok)"
    "named (BlockString_each unplace_ob (\<lambda>_. SetOfMonads_empty)) BlockString_parts db bs m (x, m', ok)"
    using Blocks_string.IH[of m] Blocks_string.prems by auto
  then show ?case
    by (intro exI[of _ "Blocks_string x ur"] exI[of _ m'] exI[of _ ok]) (simp add: named_triple)
next
  case (Blocks_unordered obs)
  obtain x m' ok where "ObjectBlockString_symbol obs db m = Inr (x, m', ok)"
    "named (ObjectBlockString_each unplace_ob (\<lambda>_. SetOfMonads_empty)) ObjectBlockString_parts db obs m (x, m', ok)"
    using Blocks_unordered.IH[of m] Blocks_unordered.prems by auto
  then show ?case
    by (intro exI[of _ "Blocks_unordered x"] exI[of _ m'] exI[of _ ok]) (simp add: named_triple)
next
  case (BlockString_bs2 b2)
  obtain x m' ok where "BlockString2_symbol b2 db m = Inr (x, m', ok)"
    "named (BlockString2_each unplace_ob (\<lambda>_. SetOfMonads_empty)) BlockString2_parts db b2 m (x, m', ok)"
    using BlockString_bs2.IH[of m] BlockString_bs2.prems by auto
  then show ?case
    by (intro exI[of _ "BlockString_bs2 x"] exI[of _ m'] exI[of _ ok]) (simp add: named_triple)
next
  case (BlockString_or b2 bs)
  obtain x m1 ok1 where 1: "BlockString2_symbol b2 db m = Inr (x, m1, ok1)"
    "named (BlockString2_each unplace_ob (\<lambda>_. SetOfMonads_empty)) BlockString2_parts db b2 m (x, m1, ok1)"
    using BlockString_or.IH(1)[of m] BlockString_or.prems by auto
  show ?case
  proof (cases ok1)
    case False
    with 1 show ?thesis
      by (intro exI[of _ "BlockString_or x bs"] exI[of _ m1] exI[of _ False]) (simp add: named_triple)
  next
    case True
    obtain y m2 ok2 where "BlockString_symbol bs db m1 = Inr (y, m2, ok2)"
      "named (BlockString_each unplace_ob (\<lambda>_. SetOfMonads_empty)) BlockString_parts db bs m1 (y, m2, ok2)"
      using BlockString_or.IH(2)[of m1] BlockString_or.prems by auto
    with 1 True show ?thesis
      by (intro exI[of _ "BlockString_or x y"] exI[of _ m2] exI[of _ ok2]) (simp add: named_triple)
  qed
next
  case (BlockString2_bs1 n b1)
  obtain x m' ok where "BlockString1_symbol b1 db m = Inr (x, m', ok)"
    "named (BlockString1_each unplace_ob (\<lambda>_. SetOfMonads_empty)) BlockString1_parts db b1 m (x, m', ok)"
    using BlockString2_bs1.IH[of m] BlockString2_bs1.prems by auto
  then show ?case
    by (intro exI[of _ "BlockString2_bs1 n x"] exI[of _ m'] exI[of _ ok]) (simp add: named_triple)
next
  case (BlockString2_seq n b1 b2)
  obtain x m1 ok1 where 1: "BlockString1_symbol b1 db m = Inr (x, m1, ok1)"
    "named (BlockString1_each unplace_ob (\<lambda>_. SetOfMonads_empty)) BlockString1_parts db b1 m (x, m1, ok1)"
    using BlockString2_seq.IH(1)[of m] BlockString2_seq.prems by auto
  show ?case
  proof (cases ok1)
    case False
    with 1 show ?thesis
      by (intro exI[of _ "BlockString2_seq n x b2"] exI[of _ m1] exI[of _ False]) (simp add: named_triple)
  next
    case True
    obtain y m2 ok2 where "BlockString2_symbol b2 db m1 = Inr (y, m2, ok2)"
      "named (BlockString2_each unplace_ob (\<lambda>_. SetOfMonads_empty)) BlockString2_parts db b2 m1 (y, m2, ok2)"
      using BlockString2_seq.IH(2)[of m1] BlockString2_seq.prems by auto
    with 1 True show ?thesis
      by (intro exI[of _ "BlockString2_seq n x y"] exI[of _ m2] exI[of _ ok2]) (simp add: named_triple)
  qed
next
  case (BlockString1_bs0 b0)
  obtain x m' ok where "BlockString0_symbol b0 db m = Inr (x, m', ok)"
    "named (BlockString0_each unplace_ob (\<lambda>_. SetOfMonads_empty)) BlockString0_parts db b0 m (x, m', ok)"
    using BlockString1_bs0.IH[of m] BlockString1_bs0.prems by auto
  then show ?case
    by (intro exI[of _ "BlockString1_bs0 x"] exI[of _ m'] exI[of _ ok]) (simp add: named_triple)
next
  case (BlockString1_star b0 mse som)
  have "\<forall>(a, b)\<in>set mse. 0 \<le> a \<and> a \<le> b \<and> b \<le> MAX_MONAD" using BlockString1_star.prems by (simp add: range_ok_def)
  from monadsBuildSet_ok[OF this som_wf_empty] obtain som1 where "monadsBuildSet mse SetOfMonads_empty = Inr som1"
    by (auto simp: returns_iff)
  moreover obtain x m' ok where "BlockString0_symbol b0 db m = Inr (x, m', ok)"
    "named (BlockString0_each unplace_ob (\<lambda>_. SetOfMonads_empty)) BlockString0_parts db b0 m (x, m', ok)"
    using BlockString1_star.IH[of m] BlockString1_star.prems by auto
  ultimately show ?case
    by (intro exI[of _ "BlockString1_star x mse som1"] exI[of _ m'] exI[of _ ok]) (simp add: named_triple)
next
  case (BlockString0_block b)
  obtain x m' ok where "Block_symbol b db m = Inr (x, m', ok)"
    "named (Block_each unplace_ob (\<lambda>_. SetOfMonads_empty)) Block_parts db b m (x, m', ok)"
    using BlockString0_block.IH[of m] BlockString0_block.prems by auto
  then show ?case
    by (intro exI[of _ "BlockString0_block x"] exI[of _ m'] exI[of _ ok]) (simp add: named_triple)
next
  case (BlockString0_string bs)
  obtain x m' ok where "BlockString_symbol bs db m = Inr (x, m', ok)"
    "named (BlockString_each unplace_ob (\<lambda>_. SetOfMonads_empty)) BlockString_parts db bs m (x, m', ok)"
    using BlockString0_string.IH[of m] BlockString0_string.prems by auto
  then show ?case
    by (intro exI[of _ "BlockString0_string x"] exI[of _ m'] exI[of _ ok]) (simp add: named_triple)
next
  case (kOptGapBlock g)
  obtain x m' ok where "GapBlock_symbol g db m = Inr (x, m', ok)"
    "named (GapBlock_each unplace_ob (\<lambda>_. SetOfMonads_empty)) GapBlock_parts db g m (x, m', ok)"
    using kOptGapBlock.IH[of m] kOptGapBlock.prems by auto
  then show ?case
    by (intro exI[of _ "kOptGapBlock x"] exI[of _ m'] exI[of _ ok]) (simp add: named_triple)
next
  case (kGapBlock g)
  obtain x m' ok where "GapBlock_symbol g db m = Inr (x, m', ok)"
    "named (GapBlock_each unplace_ob (\<lambda>_. SetOfMonads_empty)) GapBlock_parts db g m (x, m', ok)"
    using kGapBlock.IH[of m] kGapBlock.prems by auto
  then show ?case
    by (intro exI[of _ "kGapBlock x"] exI[of _ m'] exI[of _ ok]) (simp add: named_triple)
next
  case (kPowerBlock p)
  then show ?case by (simp add: named_triple) blast
next
  case (kObjectBlock ob)
  obtain x m' ok where "ObjectBlock_symbol ob db m = Inr (x, m', ok)"
    "named (ObjectBlock_each unplace_ob (\<lambda>_. SetOfMonads_empty)) (\<lambda>x. ObjectBlock_parts x False) db ob m (x, m', ok)"
    using kObjectBlock.IH[of m False] kObjectBlock.prems by auto
  then show ?case
    by (intro exI[of _ "kObjectBlock x"] exI[of _ m'] exI[of _ ok]) (simp add: named_triple)
next
  case (kObjectBlockNOTEXIST ob)
  obtain x m' ok where "ObjectBlock_symbol ob db m = Inr (x, m', ok)"
    "named (ObjectBlock_each unplace_ob (\<lambda>_. SetOfMonads_empty)) (\<lambda>x. ObjectBlock_parts x True) db ob m (x, m', ok)"
    using kObjectBlockNOTEXIST.IH[of m True] kObjectBlockNOTEXIST.prems by auto
  then show ?case
    by (intro exI[of _ "kObjectBlockNOTEXIST x"] exI[of _ m'] exI[of _ ok]) (simp add: named_triple)
next
  case (GapBlock g opt)
  have "inner_named db opt" using GapBlock by (auto simp: inner_named_def)
  from inner_symbol_ok[OF this, of m] obtain opt' m' ok where
    "inner_symbol opt (map_option (\<lambda>f. f db) (map_option Blocks_symbol opt)) m = Inr (opt', m', ok)"
    "named (map_option Blocks_unplace) (\<lambda>x. option_parts (map_option Blocks_parts x)) db opt m (opt', m', ok)" by blast
  then show ?case
    by (intro exI[of _ "GapBlock g opt'"] exI[of _ m'] exI[of _ ok]) (simp add: named_triple)
next
  case (ObjectBlock j opt)
  have "inner_named db opt" using ObjectBlock by (auto simp: inner_named_def)
  from ObjectBlock_named[OF this] show ?case .
next
  case (ObjectBlockString_one ob)
  obtain x m' ok where "ObjectBlock_symbol ob db m = Inr (x, m', ok)"
    "named (ObjectBlock_each unplace_ob (\<lambda>_. SetOfMonads_empty)) (\<lambda>x. ObjectBlock_parts x False) db ob m (x, m', ok)"
    using ObjectBlockString_one.IH[of m False] ObjectBlockString_one.prems by auto
  then show ?case
    by (intro exI[of _ "ObjectBlockString_one x"] exI[of _ m'] exI[of _ ok]) (simp add: named_triple)
next
  case (ObjectBlockString_more obs ob)
  obtain x m1 ok1 where 1: "ObjectBlockString_symbol obs db m = Inr (x, m1, ok1)"
    "named (ObjectBlockString_each unplace_ob (\<lambda>_. SetOfMonads_empty)) ObjectBlockString_parts db obs m (x, m1, ok1)"
    using ObjectBlockString_more.IH(1)[of m] ObjectBlockString_more.prems by auto
  show ?case
  proof (cases ok1)
    case False
    with 1 show ?thesis
      by (intro exI[of _ "ObjectBlockString_more x ob"] exI[of _ m1] exI[of _ False]) (simp add: named_triple)
  next
    case True
    obtain y m2 ok2 where "ObjectBlock_symbol ob db m1 = Inr (y, m2, ok2)"
      "named (ObjectBlock_each unplace_ob (\<lambda>_. SetOfMonads_empty)) (\<lambda>x. ObjectBlock_parts x False) db ob m1 (y, m2, ok2)"
      using ObjectBlockString_more.IH(2)[of m1 False] ObjectBlockString_more.prems by auto
    with 1 True show ?thesis
      by (intro exI[of _ "ObjectBlockString_more x y"] exI[of _ m2] exI[of _ ok2]) (simp add: named_triple)
  qed
qed

section \<open>Once, and before it is used\<close>

definition answers_yes :: "SymbolDB \<Rightarrow> bool" where
  "answers_yes db \<longleftrightarrow> (\<forall>ob fc r nn c ty. db_block db ob \<and> db_feature db fc \<and> db_constants db fc \<and> db_reference db r nn \<and> db_monad_set db c ty)"

definition declared_before :: "part list \<Rightarrow> bool" where
  "declared_before ps \<longleftrightarrow> (\<forall>i<length ps. \<forall>r\<in>set (used_references [ps ! i]).
     oru_object_reference r \<in> set (declared_names (take (Suc i) ps)))"

fun before_from :: "string set \<Rightarrow> part list \<Rightarrow> bool" where
  "before_from D [] = True"
| "before_from D (P_object b ob # ps) =
     ((\<forall>r\<in>set (ob_references ob). oru_object_reference r \<in> D \<union> set (ob_names ob)) \<and> before_from (D \<union> set (ob_names ob)) ps)"
| "before_from D (P_string n # ps) = before_from D ps"
| "before_from D (P_gap g # ps) = before_from D ps"

lemma declared_Cons: "declared_names (q # ps) = declared_names [q] @ declared_names ps"
  by (simp add: declared_names_def)

lemma before_from_iff:
  "before_from D ps \<longleftrightarrow> (\<forall>i<length ps. \<forall>r\<in>set (used_references [ps ! i]).
     oru_object_reference r \<in> D \<union> set (declared_names (take (Suc i) ps)))"
proof (induction D ps rule: before_from.induct)
  case (2 D b ob ps)
  then show ?case by (simp add: All_less_Suc2 declared_Cons[of "P_object b ob"] Un_assoc)
next
  case (3 D n ps)
  then show ?case by (simp add: All_less_Suc2 declared_Cons[of "P_string n"])
next
  case (4 D g ps)
  then show ?case by (simp add: All_less_Suc2 declared_Cons[of "P_gap g"])
qed simp

lemma FeatureComparison_symbol_names:
  "FeatureComparison_symbol db m fc \<Longrightarrow> \<forall>r\<in>set (references_of [fc]). m (oru_object_reference r) \<noteq> None"
  "answers_yes db \<Longrightarrow> FeatureComparison_symbol db m fc = (\<forall>r\<in>set (references_of [fc]). m (oru_object_reference r) \<noteq> None)"
  by (auto simp: FeatureComparison_symbol_def ObjectReferenceUsage_symbol_def reference_of_def answers_yes_def
      split: option.splits Value.splits if_splits)

lemma FFeatures_symbol_names:
  "FFeatures_symbol f db m \<Longrightarrow> \<forall>r\<in>set (references_of (ff_comparisons f)). m (oru_object_reference r) \<noteq> None"
  "FTerm_symbol t db m \<Longrightarrow> \<forall>r\<in>set (references_of (ft_comparisons t)). m (oru_object_reference r) \<noteq> None"
  "FFactor_symbol a db m \<Longrightarrow> \<forall>r\<in>set (references_of (fa_comparisons a)). m (oru_object_reference r) \<noteq> None"
  by (induction f and t and a) (auto simp: ball_Un dest: FeatureComparison_symbol_names(1) split: if_splits)

lemma FFeatures_symbol_yes:
  assumes "answers_yes db"
  shows "FFeatures_symbol f db m = (\<forall>r\<in>set (references_of (ff_comparisons f)). m (oru_object_reference r) \<noteq> None)"
    "FTerm_symbol t db m = (\<forall>r\<in>set (references_of (ft_comparisons t)). m (oru_object_reference r) \<noteq> None)"
    "FFactor_symbol a db m = (\<forall>r\<in>set (references_of (fa_comparisons a)). m (oru_object_reference r) \<noteq> None)"
  by (induction f and t and a) (simp_all add: ball_Un FeatureComparison_symbol_names(2)[OF assms] del: references_of_simps(3))

lemma symbol_constraints_names:
  "symbol_constraints db m ob \<Longrightarrow> \<forall>r\<in>set (ob_references ob). m (oru_object_reference r) \<noteq> None"
  "answers_yes db \<Longrightarrow> symbol_constraints db m ob = (\<forall>r\<in>set (ob_references ob). m (oru_object_reference r) \<noteq> None)"
  using FFeatures_symbol_names(1) FFeatures_symbol_yes(1)
  by (auto simp: symbol_constraints_def ob_references_def ob_comparisons_def split: option.splits)

lemma ob_declare_dom: "dom (ob_declare m ob) = dom m \<union> set (ob_names ob)"
  by (auto simp: ob_declare_def ob_names_def)

lemma declare_names_dom: "dom (declare_names m ps) = dom m \<union> set (declared_names ps)"
  by (induction m ps rule: declare_names.induct) (auto simp: ob_declare_dom)

lemma names_accepted_names:
  assumes "names_accepted db m ps"
  shows "distinct (declared_names ps)" "dom m \<inter> set (declared_names ps) = {}" "before_from (dom m) ps"
proof -
  have "distinct (declared_names ps) \<and> dom m \<inter> set (declared_names ps) = {} \<and> before_from (dom m) ps"
    using assms
  proof (induction db m ps rule: names_accepted.induct)
    case (2 db m b ob ps)
    have new: "\<forall>s\<in>set (ob_names ob). s \<notin> dom m" and c: "symbol_constraints db (ob_declare m ob) ob"
      using "2.prems" by (auto simp: ob_accepted_def)
    have "distinct (ob_names ob)" by (simp add: ob_names_def)
    moreover have "\<forall>r\<in>set (ob_references ob). oru_object_reference r \<in> dom (ob_declare m ob)"
      using symbol_constraints_names(1)[OF c] by auto
    ultimately show ?case using 2 new by (auto simp: ob_declare_dom)
  qed simp_all
  then show "distinct (declared_names ps)" "dom m \<inter> set (declared_names ps) = {}" "before_from (dom m) ps" by auto
qed

lemma names_accepted_yes:
  assumes "answers_yes db"
  shows "names_accepted db m ps \<longleftrightarrow>
     distinct (declared_names ps) \<and> dom m \<inter> set (declared_names ps) = {} \<and> before_from (dom m) ps"
  using assms
proof (induction db m ps rule: names_accepted.induct)
  case (2 db m b ob ps)
  have "distinct (ob_names ob)" by (simp add: ob_names_def)
  moreover have "ob_accepted db m ob \<longleftrightarrow> (\<forall>s\<in>set (ob_names ob). s \<notin> dom m) \<and>
      (\<forall>r\<in>set (ob_references ob). oru_object_reference r \<in> dom m \<union> set (ob_names ob))"
    using symbol_constraints_names(2)[OF "2.prems", of "ob_declare m ob" ob] "2.prems"
    by (auto simp: ob_accepted_def answers_yes_def ob_declare_dom[symmetric] domIff)
  ultimately show ?case using 2 by (auto simp: ob_declare_dom)
qed simp_all

lemma used_declared:
  assumes "names_accepted db m ps" "r \<in> set (used_references ps)"
  shows "oru_object_reference r \<in> dom (declare_names m ps)"
proof -
  have "before_from D ps \<Longrightarrow> oru_object_reference r \<in> D \<union> set (declared_names ps)" for D
    using assms(2) by (induction D ps rule: before_from.induct) auto
  from this[OF names_accepted_names(3)[OF assms(1)]] show ?thesis by (simp add: declare_names_dom)
qed

text \<open>Each name stands for the number of its block.\<close>

lemma declare_names_range:
  "declare_names m ps s = Some nn \<Longrightarrow> m s = Some nn \<or> (\<exists>b ob. P_object b ob \<in> set ps \<and> ob_nn ob = nn)"
  by (induction m ps rule: declare_names.induct) (auto simp: ob_declare_def split: if_splits)

lemma declare_names_keep: "s \<notin> set (declared_names ps) \<Longrightarrow> declare_names m ps s = m s"
  by (induction m ps rule: declare_names.induct) (auto simp: ob_declare_def ob_names_def)

lemma declare_names_number:
  "distinct (declared_names ps) \<Longrightarrow> P_object b ob \<in> set ps \<Longrightarrow> ob_object_reference_lower ob \<noteq> [] \<Longrightarrow>
     declare_names m ps (ob_object_reference_lower ob) = Some (ob_nn ob)"
  by (induction m ps rule: declare_names.induct) (auto simp: ob_declare_def ob_names_def declare_names_keep)

section \<open>What weeding and the visit of the names keep\<close>

lemma unplace_keeps: "keeps_names unplace_ob" "keeps_uses unplace_ob" "keeps_places unplace_ob"
proof -
  have r: "reference_of (unplace_comparison fc) = reference_of fc" for fc by (simp add: reference_of_def unplace_comparison_def)
  show n: "keeps_names unplace_ob" by (simp add: keeps_names_def unplace_ob_def)
  have "references_of (map unplace_comparison fcs) = references_of fcs" for fcs
    by (induction fcs) (simp_all add: references_of_def List.map_filter_def r)
  then show "keeps_uses unplace_ob" using n
    by (auto simp: keeps_uses_def ob_references_def ob_comparisons_def unplace_ob_def each_comparisons split: option.splits)
  show "keeps_places unplace_ob"
    by (auto simp: keeps_places_def part_numbers_def ob_parented_def unplace_ob_def split: option.splits)
qed

lemma erase_ob_names [simp]: "ob_names (erase_ob ob) = ob_names ob" "ob_references (erase_ob ob) = ob_references ob"
  by (auto simp: ob_names_def ob_references_def ob_comparisons_def erase_ob_def erase_constraint_def split: option.splits)

lemma erase_head_name:
  "head_name (getImmediateObjectBlock (BlockString1_erase b1)) = head_name (getImmediateObjectBlock b1)"
proof -
  have i: "ob_info (ObjectBlock_erase ob) = erase_ob (ob_info ob)" for ob by (cases ob) simp
  have n: "ob_object_reference_lower (erase_ob ob) = ob_object_reference_lower ob" for ob by (simp add: erase_ob_def)
  have e: "getBlockString0 (BlockString1_erase b1) = BlockString0_erase (getBlockString0 b1)" by (cases b1) simp_all
  show ?thesis
  proof (cases "getBlockString0 b1")
    case (BlockString0_block b)
    then show ?thesis by (cases b) (simp_all add: e i n head_name_def)
  qed (simp add: e head_name_def)
qed

lemma erase_uses:
  "Blocks_exports (Blocks_erase bl) = Blocks_exports bl \<and> Blocks_uses (Blocks_erase bl) = Blocks_uses bl"
  "BlockString_exports (BlockString_erase bs) = BlockString_exports bs \<and> BlockString_uses (BlockString_erase bs) = BlockString_uses bs"
  "BlockString2_exports (BlockString2_erase b2) = BlockString2_exports b2 \<and> BlockString2_uses (BlockString2_erase b2) = BlockString2_uses b2"
  "BlockString1_exports (BlockString1_erase b1) = BlockString1_exports b1 \<and> BlockString1_uses (BlockString1_erase b1) = BlockString1_uses b1"
  "BlockString0_exports (BlockString0_erase b0) = BlockString0_exports b0 \<and> BlockString0_uses (BlockString0_erase b0) = BlockString0_uses b0"
  "Block_exports (Block_erase bk) = Block_exports bk \<and> Block_uses (Block_erase bk) = Block_uses bk"
  "GapBlock_exports (GapBlock_erase gb) = GapBlock_exports gb \<and> GapBlock_uses (GapBlock_erase gb) = GapBlock_uses gb"
  "ObjectBlock_exports (ObjectBlock_erase ob) = ObjectBlock_exports ob \<and> ObjectBlock_uses (ObjectBlock_erase ob) = ObjectBlock_uses ob"
  "ObjectBlockString_exports (ObjectBlockString_erase obs) = ObjectBlockString_exports obs \<and>
   ObjectBlockString_uses (ObjectBlockString_erase obs) = ObjectBlockString_uses obs"
proof (induction bl and bs and b2 and b1 and b0 and bk and gb and ob and obs)
  case (BlockString2_bs1 i b1)
  then show ?case by (simp add: erase_head_name del: getImmediateObjectBlock.simps)
next
  case (BlockString2_seq i b1 b2)
  then show ?case by (simp add: erase_head_name del: getImmediateObjectBlock.simps)
next
  case (GapBlock g opt)
  then show ?case by (cases opt) auto
next
  case (ObjectBlock j opt)
  then show ?case by (cases opt) (auto simp: Let_def)
qed simp_all

section \<open>Weeded queries\<close>

lemma keeps_parts:
  assumes "map f (Blocks_parts t1) = map f (Blocks_parts t)" "\<And>q. declared_names [f q] = declared_names [q]"
    "\<And>q. used_references [f q] = used_references [q]" "\<And>q. fresh_references [f q] = fresh_references [q]"
  shows "declared_names (Blocks_parts t1) = declared_names (Blocks_parts t)"
    "used_references (Blocks_parts t1) = used_references (Blocks_parts t)"
    "declared_before (Blocks_parts t1) = declared_before (Blocks_parts t)"
    "fresh_references (Blocks_parts t1) = fresh_references (Blocks_parts t)"
proof -
  let ?p = "Blocks_parts t1" and ?q = "Blocks_parts t"
  have c: "declared_names ps = concat (map (\<lambda>q. declared_names [q]) ps)" "used_references ps = concat (map (\<lambda>q. used_references [q]) ps)"
    "fresh_references ps = (\<forall>q\<in>set ps. fresh_references [q])" for ps
    by (simp_all add: declared_names_def used_references_def fresh_references_def)
  have m: "map (\<lambda>q. declared_names [q]) ps = map (\<lambda>q. declared_names [q]) (map f ps)"
    "map (\<lambda>q. used_references [q]) ps = map (\<lambda>q. used_references [q]) (map f ps)"
    "map (\<lambda>q. fresh_references [q]) ps = map (\<lambda>q. fresh_references [q]) (map f ps)" for ps
    using assms(2-4) by simp_all
  have d: "map (\<lambda>q. declared_names [q]) ?p = map (\<lambda>q. declared_names [q]) ?q" by (subst (1 2) m(1)) (simp only: assms(1))
  have u: "map (\<lambda>q. used_references [q]) ?p = map (\<lambda>q. used_references [q]) ?q" by (subst (1 2) m(2)) (simp only: assms(1))
  have r: "map (\<lambda>q. fresh_references [q]) ?p = map (\<lambda>q. fresh_references [q]) ?q" by (subst (1 2) m(3)) (simp only: assms(1))
  show "declared_names ?p = declared_names ?q" "used_references ?p = used_references ?q" by (simp_all add: c(1,2)[of ?p] c(1,2)[of ?q] d u)
  have l: "length ?p = length ?q" by (metis assms(1) length_map)
  have "declared_names (take k ?p) = declared_names (take k ?q)" for k
    by (simp only: c(1)[of "take k ?p"] c(1)[of "take k ?q"] take_map[symmetric] d)
  moreover have "used_references [?p ! i] = used_references [?q ! i]" if "i < length ?q" for i
    using arg_cong[OF u, of "\<lambda>xs. xs ! i"] that l by simp
  ultimately show "declared_before ?p = declared_before ?q" by (simp add: declared_before_def l)
  show "fresh_references ?p = fresh_references ?q"
    using arg_cong[OF r, of "\<lambda>xs. \<forall>x\<in>set xs. x"] by (simp add: c(3)[of ?p] c(3)[of ?q])
qed

lemma erase_part_names:
  "declared_names [erase_part q] = declared_names [q]" "used_references [erase_part q] = used_references [q]"
  "fresh_references [erase_part q] = fresh_references [q]"
proof -
  have "fresh_references [P_object b (erase_ob ob)] = fresh_references [P_object b ob]" for b ob
    by (cases "ob_feature_constraints ob") (simp_all add: erase_ob_def erase_constraint_def)
  then show "declared_names [erase_part q] = declared_names [q]" "used_references [erase_part q] = used_references [q]"
    "fresh_references [erase_part q] = fresh_references [q]" by (cases q; simp)+
qed

lemma unplace_part_names:
  "declared_names [answer_part unplace_ob q] = declared_names [q]" "used_references [answer_part unplace_ob q] = used_references [q]"
  "fresh_references [answer_part unplace_ob q] = fresh_references [q]"
proof -
  have "fresh_references [P_object b (unplace_ob ob)] = fresh_references [P_object b ob]" for b ob
    by (cases "ob_feature_constraints ob") (simp_all add: unplace_ob_def)
  moreover have "ob_references (unplace_ob ob) = ob_references ob" for ob using unplace_keeps(2) by (simp add: keeps_uses_def)
  ultimately show "declared_names [answer_part unplace_ob q] = declared_names [q]"
    "used_references [answer_part unplace_ob q] = used_references [q]"
    "fresh_references [answer_part unplace_ob q] = fresh_references [q]"
    by (cases q; simp add: keeps_names_simps[OF unplace_keeps(1)])+
qed

lemma erased_same:
  assumes "Blocks_erase t1 = Blocks_erase t"
  shows "declared_names (Blocks_parts t1) = declared_names (Blocks_parts t)"
    "used_references (Blocks_parts t1) = used_references (Blocks_parts t)"
    "declared_before (Blocks_parts t1) = declared_before (Blocks_parts t)"
    "fresh_references (Blocks_parts t1) = fresh_references (Blocks_parts t)" "Blocks_uses t1 = Blocks_uses t"
    "Blocks_stars t1 = Blocks_stars t" "Blocks_placed t1 = Blocks_placed t"
proof -
  have "map erase_part (Blocks_parts t1) = map erase_part (Blocks_parts t)" using assms by (metis erase_parts(1))
  note keeps_parts[OF this erase_part_names]
  then show "declared_names (Blocks_parts t1) = declared_names (Blocks_parts t)"
    "used_references (Blocks_parts t1) = used_references (Blocks_parts t)"
    "declared_before (Blocks_parts t1) = declared_before (Blocks_parts t)"
    "fresh_references (Blocks_parts t1) = fresh_references (Blocks_parts t)" by blast+
  show "Blocks_uses t1 = Blocks_uses t" using erase_uses(1)[of t1] erase_uses(1)[of t] assms by simp
  show "Blocks_stars t1 = Blocks_stars t" using erase_stars(1)[of t1] erase_stars(1)[of t] assms by simp
  show "Blocks_placed t1 = Blocks_placed t" using assms erase_placed(1) by metis
qed

lemma unplaced_same:
  assumes "Blocks_unplace t2 = Blocks_unplace t1"
  shows "declared_names (Blocks_parts t2) = declared_names (Blocks_parts t1)"
    "used_references (Blocks_parts t2) = used_references (Blocks_parts t1)"
    "fresh_references (Blocks_parts t2) = fresh_references (Blocks_parts t1)" "Blocks_uses t2 = Blocks_uses t1"
    "Blocks_parented t2 = Blocks_parented t1"
    "map part_numbers (Blocks_parts t2) = map part_numbers (Blocks_parts t1)"
    "declare_names m (Blocks_parts t2) = declare_names m (Blocks_parts t1)"
proof -
  have p: "map (answer_part unplace_ob) (Blocks_parts t2) = map (answer_part unplace_ob) (Blocks_parts t1)"
    using assms by (metis each_parts(1))
  note keeps_parts[OF this unplace_part_names]
  then show "declared_names (Blocks_parts t2) = declared_names (Blocks_parts t1)"
    "used_references (Blocks_parts t2) = used_references (Blocks_parts t1)"
    "fresh_references (Blocks_parts t2) = fresh_references (Blocks_parts t1)" by blast+
  show "Blocks_uses t2 = Blocks_uses t1" using each_uses(1)[OF unplace_keeps(2)] assms by metis
  show "Blocks_parented t2 = Blocks_parented t1" using each_parented(1)[OF unplace_keeps(3)] assms by metis
  have n: "part_numbers (answer_part unplace_ob q) = part_numbers q" for q
    using unplace_keeps(3) by (cases q) (simp_all add: keeps_places_def)
  have "map part_numbers ps = map part_numbers (map (answer_part unplace_ob) ps)" for ps by (simp add: n)
  then show "map part_numbers (Blocks_parts t2) = map part_numbers (Blocks_parts t1)" using p by metis
  have nn: "ob_nn (unplace_ob ob) = ob_nn ob" for ob by (simp add: ob_nn_def unplace_ob_def)
  have "ob_declare m (unplace_ob ob) = ob_declare m ob" for m ob
    by (simp add: ob_declare_def nn keeps_names_simps[OF unplace_keeps(1)])
  then have "declare_names m ps = declare_names m (map (answer_part unplace_ob) ps)" for m ps
    by (induction m ps rule: declare_names.induct) simp_all
  then show "declare_names m (Blocks_parts t2) = declare_names m (Blocks_parts t1)" using p by metis
qed

lemma weeded_names:
  assumes "Topograph_weed t c weed_start = Inr (t1, st1)" "ws_bResult st1" "parsed (Blocks_parts t)"
  shows "Blocks_erase t1 = Blocks_erase t" "Blocks_placed t1" "Blocks_parented t1 (-1)" "indexed (Blocks_nodes t1)"
proof -
  have w: "weeds Blocks_erase Blocks_parts Blocks_flagged t (Blocks_placed t \<and> patterns_ok c (Blocks_parts t)) weed_start (t1, st1)"
    using weed_contract(1)[OF assms(3), of weed_start c "-1"] assms(1) by (auto simp: Topograph_weed_def weed_start_def)
  then show e: "Blocks_erase t1 = Blocks_erase t" by (simp add: weeds_pair)
  have "Blocks_placed t" using w assms(2) by (simp add: weeds_pair)
  then show "Blocks_placed t1" by (simp only: erased_same(7)[OF e])
  have "parents_set Blocks_parented (-1) weed_start (t1, st1)" using weed_parents(1) assms(1) by (simp add: Topograph_weed_def)
  with assms(2) show "Blocks_parented t1 (-1)" by (simp add: weed_start_def)
  have n: "concat (map part_numbers (Blocks_parts t1)) = [0..ws_nodes st1 - 1]" "0 \<le> ws_nodes st1"
    using w assms(2) by (auto simp: weeds_pair numbered_def weed_start_def)
  then have m: "map node_nn (Blocks_nodes t1) = [0..ws_nodes st1 - 1]" by (simp add: nodes_numbers)
  have "length (Blocks_nodes t1) = nat (ws_nodes st1)" using arg_cong[OF m, of length] n(2) by simp
  with m n(2) show "indexed (Blocks_nodes t1)" by (simp add: indexed_def)
qed

text \<open>What is known of a query that weeding and the visit of the names have accepted.\<close>

lemma named_query:
  assumes "Topograph_weed t c weed_start = Inr (t1, st1)" "ws_bResult st1" "parsed (Blocks_parts t)"
    "fresh_references (Blocks_parts t)" "\<forall>r\<in>set (used_references (Blocks_parts t)). lowered (oru_object_reference r)"
    "Blocks_stars t bounds_ok_range" "Blocks_symbol t1 db Map.empty = Inr (t2, m, True)"
  shows "indexed (Blocks_nodes t2)" "Blocks_parented t2 (-1)" "fresh_references (Blocks_parts t2)" "Blocks_uses t2 = Blocks_uses t"
    "all_known m (Blocks_nodes t2) (Blocks_parts t2)"
    "\<And>r. r \<in> set (used_references (Blocks_parts t2)) \<Longrightarrow> \<exists>b ob. P_object b ob \<in> set (Blocks_parts t2) \<and>
       ob_nn ob = ord_node m (oru_object_reference r) \<and> ob_object_reference_lower ob = oru_object_reference r"
    "\<And>b ob. P_object b ob \<in> set (Blocks_parts t2) \<Longrightarrow> ob_object_reference_lower ob \<noteq> [] \<Longrightarrow> m (ob_object_reference_lower ob) = Some (ob_nn ob)"
    "\<And>r. r \<in> set (used_references (Blocks_parts t2)) \<Longrightarrow> oru_object_reference r \<noteq> []" "Blocks_unplace t2 = Blocks_unplace t1"
proof -
  note w = weeded_names[OF assms(1-3)] note e = erased_same[OF w(1)]
  have "Blocks_stars t1 range_ok" using placed_stars(1)[OF w(2)] assms(6) e(6) by simp
  from names_visited(1)[OF this, of db Map.empty] assms(7) have 1: "names_accepted db Map.empty (Blocks_parts t1)"
    "Blocks_unplace t2 = Blocks_unplace t1" "m = declare_names Map.empty (Blocks_parts t1)" by (auto simp: named_triple)
  note u = unplaced_same[OF 1(2)]
  let ?v = "Blocks_nodes t2"
  have m: "m = declare_names Map.empty (Blocks_parts t2)" by (simp add: 1(3) u(7))
  have d: "distinct (declared_names (Blocks_parts t2))" using names_accepted_names(1)[OF 1(1)] by (simp add: u(1))
  have nodes: "map node_nn ?v = map node_nn (Blocks_nodes t1)" by (simp add: nodes_numbers u(6))
  then have "length ?v = length (Blocks_nodes t1)" by (metis length_map)
  with nodes w(4) show ix: "indexed ?v" by (simp add: indexed_def)
  show "Blocks_parented t2 (-1)" "fresh_references (Blocks_parts t2)" using w(3) u(3,5) e(4) assms(4) by simp_all
  show "Blocks_uses t2 = Blocks_uses t" by (simp only: u(4) e(5))
  show "Blocks_unplace t2 = Blocks_unplace t1" by (rule 1(2))
  show number: "m (ob_object_reference_lower ob) = Some (ob_nn ob)"
    if "P_object b ob \<in> set (Blocks_parts t2)" "ob_object_reference_lower ob \<noteq> []" for b ob
    using declare_names_number[OF d that, of Map.empty] by (simp only: m)
  have declared: "oru_object_reference r \<in> set (declared_names (Blocks_parts t2))" if "r \<in> set (used_references (Blocks_parts t2))" for r
  proof -
    have "r \<in> set (used_references (Blocks_parts t1))" using that u(2) by simp
    from used_declared[OF 1(1) this] have "oru_object_reference r \<in> dom m" by (simp only: 1(3))
    then show ?thesis by (simp add: m declare_names_dom)
  qed
  show "oru_object_reference r \<noteq> []" if "r \<in> set (used_references (Blocks_parts t2))" for r
    using declared[OF that] by (auto simp: declared_names_def ob_names_def split: part.splits if_splits)
  show decl: "\<exists>b ob. P_object b ob \<in> set (Blocks_parts t2) \<and> ob_nn ob = ord_node m (oru_object_reference r) \<and>
      ob_object_reference_lower ob = oru_object_reference r" if "r \<in> set (used_references (Blocks_parts t2))" for r
  proof -
    note declared[OF that]
    then obtain b ob where o: "P_object b ob \<in> set (Blocks_parts t2)" "oru_object_reference r \<in> set (ob_names ob)"
      by (auto simp: declared_names_def split: part.splits)
    then have n: "ob_object_reference_lower ob = oru_object_reference r" "ob_object_reference_lower ob \<noteq> []"
      by (auto simp: ob_names_def split: if_splits)
    from number[OF o(1) n(2)] have "m (oru_object_reference r) = Some (ob_nn ob)" by (simp add: n(1))
    with o(1) n(1) show ?thesis by (auto simp: ord_node_def)
  qed
  have "known m ?v r" if "r \<in> set (used_references (Blocks_parts t2))" for r
  proof -
    have "r \<in> set (used_references (Blocks_parts t))" using that by (simp only: u(2) e(2))
    then have "lowered (oru_object_reference r)" using assms(5) by blast
    moreover from decl[OF that] obtain b ob where o: "P_object b ob \<in> set (Blocks_parts t2)" "ob_nn ob = ord_node m (oru_object_reference r)"
      by blast
    then have "ob_nn ob \<in> set (concat (map part_numbers (Blocks_parts t2)))" by (force simp: part_numbers_def ob_nn_def)
    then obtain q where "q \<in> set ?v" "node_nn q = ob_nn ob" by (auto simp: nodes_numbers(1)[symmetric] simp del: set_concat)
    ultimately show ?thesis using indexed_node(1)[OF ix] o(2) by (force simp: known_def)
  qed
  then show "all_known m ?v (Blocks_parts t2)" by (simp add: all_known_def)
qed

section \<open>The properties of names and references\<close>

text \<open>C9: Names are declared once and before they are used. On a weeded query whose stars have monads for
  bounds, the visit of the names always returns and changes only the places of features, the tables of
  the blocks, and the sets of the stars. It accepts only if no two blocks declare the same name and every
  reference is to a name declared before it, in the order of the text, or by its own block; then each name
  stands for the number of the block that declares it. If the database knows all that is asked of it, it
  accepts all such queries.\<close>

theorem names_declared_once_before_use:
  assumes "Topograph_weed t c weed_start = Inr (t1, st1)" "ws_bResult st1" "parsed (Blocks_parts t)" "Blocks_stars t bounds_ok_range"
  shows "\<exists>t2 m ok. Blocks_symbol t1 db Map.empty = Inr (t2, m, ok) \<and> Blocks_unplace t2 = Blocks_unplace t1 \<and>
    (ok \<longrightarrow> distinct (declared_names (Blocks_parts t)) \<and> declared_before (Blocks_parts t) \<and>
      dom m = set (declared_names (Blocks_parts t)) \<and>
      (\<forall>b ob. P_object b ob \<in> set (Blocks_parts t2) \<longrightarrow> ob_object_reference_lower ob \<noteq> [] \<longrightarrow>
        m (ob_object_reference_lower ob) = Some (obb_node_number (ob_base ob)))) \<and>
    (answers_yes db \<longrightarrow> distinct (declared_names (Blocks_parts t)) \<longrightarrow> declared_before (Blocks_parts t) \<longrightarrow> ok)"
proof -
  note w = weeded_names[OF assms(1-3)] note e = erased_same[OF w(1)]
  have "Blocks_stars t1 range_ok" using placed_stars(1)[OF w(2)] assms(4) e(6) by simp
  from names_visited(1)[OF this, of db Map.empty] obtain t2 m ok where 1: "Blocks_symbol t1 db Map.empty = Inr (t2, m, ok)"
    "ok = names_accepted db Map.empty (Blocks_parts t1)" "Blocks_unplace t2 = Blocks_unplace t1"
    "ok \<Longrightarrow> m = declare_names Map.empty (Blocks_parts t1)" by (auto simp: named_triple)
  have "before_from (dom Map.empty) (Blocks_parts t1) = declared_before (Blocks_parts t1)"
    by (simp add: before_from_iff declared_before_def)
  then have before: "before_from (dom Map.empty) (Blocks_parts t1) = declared_before (Blocks_parts t)" by (simp only: e(3))
  have "distinct (declared_names (Blocks_parts t)) \<and> declared_before (Blocks_parts t) \<and> dom m = set (declared_names (Blocks_parts t)) \<and>
      (\<forall>b ob. P_object b ob \<in> set (Blocks_parts t2) \<longrightarrow> ob_object_reference_lower ob \<noteq> [] \<longrightarrow>
        m (ob_object_reference_lower ob) = Some (ob_nn ob))" if ok
  proof -
    have a: "names_accepted db Map.empty (Blocks_parts t1)" using that 1(2) by simp
    have m: "m = declare_names Map.empty (Blocks_parts t2)" using 1(4)[OF that] unplaced_same(7)[OF 1(3)] by simp
    have d: "distinct (declared_names (Blocks_parts t2))"
      using names_accepted_names(1)[OF a] unplaced_same(1)[OF 1(3)] by simp
    have dm: "dom m = set (declared_names (Blocks_parts t))" by (simp add: 1(4)[OF that] declare_names_dom e(1))
    have nm: "\<forall>b ob. P_object b ob \<in> set (Blocks_parts t2) \<longrightarrow> ob_object_reference_lower ob \<noteq> [] \<longrightarrow>
        m (ob_object_reference_lower ob) = Some (ob_nn ob)" using declare_names_number[OF d] by (simp add: m)
    show ?thesis using names_accepted_names(1,3)[OF a] before e(1) dm nm by simp
  qed
  moreover have "ok" if "answers_yes db" "distinct (declared_names (Blocks_parts t))" "declared_before (Blocks_parts t)"
    using names_accepted_yes[OF that(1), of Map.empty] that(2,3) before e(1) 1(2) by simp
  ultimately show ?thesis using 1(1,3) by (auto simp: ob_nn_def)
qed

text \<open>A query with two names: \<open>[word as a [word as b surface = a.surface]] [word surface = b.surface]\<close>.\<close>

definition demo_use :: "string \<Rightarrow> ObjectReferenceUsage" where
  "demo_use s = \<lparr>oru_ORDIsParent = False, oru_ControllingObjectBlock = 0, oru_FeatureIndexInMQLObject = 0, oru_MatchedObjectIndex = 0,
     oru_FeatureIndexInMatchedObject = 0, oru_OutputFeatureTypeId = 0, oru_object_reference = s, oru_feature_name = ''surface''\<rparr>"

definition demo_refers :: "string \<Rightarrow> FeatureConstraint" where
  "demo_refers s = (demo_constraint 0)\<lparr>ffc_ffeatures := FFeatures_fterm (FTerm_ffactor (FFactor_comparison
      \<lparr>fc_feature_index = 0, fc_comparison_op = kEqual, fc_value = Some (kValObjectReferenceUsage (demo_use s)), fc_in_enum_list = None,
       fc_in_integer_list = None, fc_pcre = [], fc_output_type = 0, fc_feature_name = ''surface''\<rparr>))\<rparr>"

definition demo_named :: "string \<Rightarrow> FeatureConstraint option \<Rightarrow> ObjectBlockInfo" where
  "demo_named s k = (demo_ob 0 0)\<lparr>ob_object_reference_lower := s, ob_feature_constraints := k\<rparr>"

definition demo_names :: Blocks where
  "demo_names = two_blocks 0 (demo_named ''a'' None) (Some (one_block (demo_named ''b'' (Some (demo_refers ''a''))) None))
     (demo_named [] (Some (demo_refers ''b''))) None"

definition yes_db :: SymbolDB where
  "yes_db = \<lparr>db_block = (\<lambda>_. True), db_feature = (\<lambda>_. True), db_constants = (\<lambda>_. True), db_reference = (\<lambda>_ _. True),
     db_monad_set = (\<lambda>_ _. True)\<rparr>"

lemma demo_named_simps:
  "ob_comparisons (demo_named s None) = []" "ob_object_reference_lower (demo_named s k) = s"
  "ob_references (demo_named s None) = []" "ob_references (demo_named s (Some (demo_refers r))) = [demo_use r]"
  "ob_bIsNOTEXIST (demo_named s k) = False" "ob_first_last (demo_named s k) = kNoFirstLast"
  "oru_object_reference (demo_use r) = r" "ob_names (demo_named s k) = (if s = [] then [] else [s])"
  "ob_feature_constraints (demo_named s k) = k" "\<not> ffc_hasNonParentORUs (demo_refers r)" "ffc_BlockString2List (demo_refers r) = []"
  by (simp_all add: demo_named_def ob_comparisons_def demo_ob_def ob_references_def demo_refers_def demo_constraint_def reference_of_def
      demo_use_def ob_names_def)

lemma demo_refers_ok:
  "\<forall>fc\<in>set (ob_comparisons (demo_named s (Some (demo_refers r)))). has_value fc \<and> pattern_ok c fc"
  by (simp add: ob_comparisons_def demo_named_def demo_refers_def has_value_def pattern_ok_def tilde_def)

lemma demo_names_parts:
  "map (\<lambda>q. case q of P_object b ob \<Rightarrow> Some (b, ob) | _ \<Rightarrow> None) (Blocks_parts demo_names) =
     [None, Some (False, demo_named ''a'' None), None, Some (False, demo_named ''b'' (Some (demo_refers ''a''))), None,
      Some (False, demo_named [] (Some (demo_refers ''b'')))]"
  "parsed (Blocks_parts demo_names)" "patterns_ok c (Blocks_parts demo_names)" "Blocks_placed demo_names"
  "Blocks_stars demo_names bounds_ok_range"
  "declared_names (Blocks_parts demo_names) = [''a'', ''b'']" "used_references (Blocks_parts demo_names) = [demo_use ''a'', demo_use ''b'']"
  "before_from {} (Blocks_parts demo_names)"
  "Blocks_uses demo_names {} {} = [(demo_use ''a'', {''a'', ''b''}, {''a'', ''b''}), (demo_use ''b'', {''a'', ''b''}, {[]})]"
  using demo_refers_ok
  by (auto simp: demo_names_def two_blocks_def one_block_def object_block_string_def demo_named_simps first_last_allowed_def
      bs1_is_power_def bs1_is_gap_def head_name_def Let_def insert_commute)

lemma demo_names_weeds:
  obtains t1 st1 where "Topograph_weed demo_names (\<lambda>_. True) weed_start = Inr (t1, st1)" "ws_bResult st1"
  using weed_contract(1)[OF demo_names_parts(2), of weed_start "\<lambda>_. True" "-1"] demo_names_parts(3,4)
  by (auto simp: Topograph_weed_def weeds_pair weed_start_def)

lemma demo_names_before: "declared_before (Blocks_parts demo_names)" "distinct (declared_names (Blocks_parts demo_names))" "answers_yes yes_db"
  using demo_names_parts(8) by (simp_all add: declared_before_def before_from_iff demo_names_parts(6) answers_yes_def yes_db_def)

lemma demo_names_accepted:
  assumes w: "Topograph_weed demo_names (\<lambda>_. True) weed_start = Inr (t1, st1)" "ws_bResult st1"
  obtains t2 m where "Blocks_symbol t1 yes_db Map.empty = Inr (t2, m, True)"
  using names_visited(1)[of t1 yes_db Map.empty] weeded_names[OF w demo_names_parts(2)] demo_names_parts(5)
    names_accepted_yes[OF demo_names_before(3), of Map.empty "Blocks_parts t1"] demo_names_before(1,2)
    erased_same[OF weeded_names(1)[OF w demo_names_parts(2)]] placed_stars(1)[of t1]
  by (auto simp: named_triple before_from_iff declared_before_def)

lemma demo_names_fresh:
  "fresh_references (Blocks_parts demo_names)" "\<forall>r\<in>set (used_references (Blocks_parts demo_names)). lowered (oru_object_reference r)"
proof -
  have "lowered ''a''" "lowered ''b''" "lowered []" by (code_simp)+
  then show "fresh_references (Blocks_parts demo_names)" "\<forall>r\<in>set (used_references (Blocks_parts demo_names)). lowered (oru_object_reference r)"
    by (simp_all add: demo_names_def two_blocks_def one_block_def object_block_string_def demo_named_simps)
qed

theorem names_declared_once_before_use_witness:
  "\<exists>t1 st1 t2 m. Topograph_weed demo_names (\<lambda>_. True) weed_start = Inr (t1, st1) \<and> Blocks_symbol t1 yes_db Map.empty = Inr (t2, m, True) \<and>
     dom m = {''a'', ''b''}"
proof -
  obtain t1 st1 where w: "Topograph_weed demo_names (\<lambda>_. True) weed_start = Inr (t1, st1)" "ws_bResult st1" by (rule demo_names_weeds)
  from names_declared_once_before_use[OF w demo_names_parts(2,5), of yes_db] demo_names_before w show ?thesis
    by (auto simp: demo_names_parts(6))
qed

text \<open>C10: References are found. Take a query as the grammar makes it that weeding accepts and whose names the
  visit before has accepted. The visit of the references always returns, its loops up the strings end, and
  it changes nothing but what it is there to set. It accepts iff every reference is in scope: no alternative, star,
  \<^verbatim>\<open>NOTEXIST\<close> block or unordered group is between it and its name, but for the last alternative of a string.
  If it accepts, every reference knows the number of its block, and is to be found in the table of that block
  iff the block starts a string that the reference is nested in; the constraints know whether they need the straw;
  and every string knows exactly the names inside it.\<close>

theorem references_resolved:
  assumes "Topograph_weed t c weed_start = Inr (t1, st1)" "ws_bResult st1" "parsed (Blocks_parts t)"
    "fresh_references (Blocks_parts t)" "\<forall>r\<in>set (used_references (Blocks_parts t)). lowered (oru_object_reference r)"
    "Blocks_stars t bounds_ok_range" "Blocks_symbol t1 db Map.empty = Inr (t2, m, True)"
  shows "\<exists>t3 rs ok. Blocks_symbolObjectReferences t2 m (Blocks_nodes t2) no_references = Inr (t3, rs, ok) \<and>
    ok = (\<forall>u\<in>set (Blocks_uses t {} {}). in_scope u) \<and> Blocks_each strip_ob (\<lambda>s. s) t3 = Blocks_each strip_ob (\<lambda>s. s) t2 \<and>
    (ok \<longrightarrow> used_references (Blocks_parts t3) = map (resolve m) (Blocks_uses t {} {}) \<and> references_flagged (Blocks_parts t3) \<and>
      (\<forall>nn. rs_ORD_children rs nn = {s. (nn, s) \<in> Blocks_children t2}))"
proof -
  note q = named_query[OF assms]
  from references_visited(1)[OF surroundings_top q(2) subset_refl q(3) q(5) q(1), of no_references]
  obtain t3 rs ok where "Blocks_symbolObjectReferences t2 m (Blocks_nodes t2) no_references = Inr (t3, rs, ok)"
    "visited (Blocks_each strip_ob (\<lambda>s. s)) Blocks_parts Blocks_exports Blocks_uses Blocks_children m {} {} t2 no_references (t3, rs, ok)"
    by blast
  then show ?thesis unfolding visited_triple by (auto simp: no_references_def q(4) inside_def)
qed

theorem references_resolved_witness:
  "\<exists>t1 st1 t2 m t3 rs. Topograph_weed demo_names (\<lambda>_. True) weed_start = Inr (t1, st1) \<and>
     Blocks_symbol t1 yes_db Map.empty = Inr (t2, m, True) \<and>
     Blocks_symbolObjectReferences t2 m (Blocks_nodes t2) no_references = Inr (t3, rs, True) \<and>
     map oru_ORDIsParent (used_references (Blocks_parts t3)) = [True, False]"
proof -
  obtain t1 st1 where w: "Topograph_weed demo_names (\<lambda>_. True) weed_start = Inr (t1, st1)" "ws_bResult st1" by (rule demo_names_weeds)
  obtain t2 m where s: "Blocks_symbol t1 yes_db Map.empty = Inr (t2, m, True)" by (rule demo_names_accepted[OF w])
  show ?thesis
    using references_resolved[OF w demo_names_parts(2) demo_names_fresh demo_names_parts(5) s] w(1) s
    by (auto simp: demo_names_parts(9) in_scope_def resolve_def demo_use_def)
qed

end
