(* ===== verification/Located_Props.thy ===== *)
theory Located_Props
  imports Names_Props
begin

text \<open>
  Where the engine finds the values of references: each reference of a checked query has the places of its
  feature in the table and among the retrieved features of its block, and the constraints of a block
  have the strings that the straw is searched for.
\<close>

section \<open>What is loaded\<close>

definition extends :: "Retrievals \<Rightarrow> Retrievals \<Rightarrow> bool" where
  "extends rt rt' \<longleftrightarrow> (\<forall>nn. (\<exists>xs. rt_object rt' nn = rt_object rt nn @ xs) \<and>
     (\<exists>ys. rt_Feature_retrieval_vec rt' nn = rt_Feature_retrieval_vec rt nn @ ys))"

lemma extends_refl [simp]: "extends rt rt"
  by (simp add: extends_def)

lemma extends_trans: "extends rt rt1 \<Longrightarrow> extends rt1 rt2 \<Longrightarrow> extends rt rt2"
  unfolding extends_def by (metis append.assoc)

definition is_at :: "string list \<Rightarrow> int \<Rightarrow> string \<Rightarrow> bool" where
  "is_at names i name \<longleftrightarrow> 0 \<le> i \<and> nat i < length names \<and> strcmp_nocase (names ! nat i) name = 0"

lemma is_at_append [simp]: "is_at names i name \<Longrightarrow> is_at (names @ xs) i name"
  by (simp add: is_at_def nth_append)

definition located :: "ORDMap \<Rightarrow> Retrievals \<Rightarrow> ObjectReferenceUsage \<Rightarrow> bool" where
  "located m rt r \<longleftrightarrow> (let nn = ord_node m (oru_object_reference r) in
     (oru_ORDIsParent r \<longrightarrow> is_at (rt_object rt nn) (oru_FeatureIndexInMQLObject r) (oru_feature_name r)) \<and>
     is_at (map ft_name (rt_Feature_retrieval_vec rt nn)) (oru_FeatureIndexInMatchedObject r) (oru_feature_name r))"

lemma located_extends: "located m rt r \<Longrightarrow> extends rt rt' \<Longrightarrow> located m rt' r"
proof -
  assume l: "located m rt r" and e: "extends rt rt'"
  let ?nn = "ord_node m (oru_object_reference r)"
  from e obtain xs ys where "rt_object rt' ?nn = rt_object rt ?nn @ xs"
    "rt_Feature_retrieval_vec rt' ?nn = rt_Feature_retrieval_vec rt ?nn @ ys" unfolding extends_def by blast
  with l show ?thesis by (simp add: located_def Let_def)
qed

lemma retrieval_index_at:
  "retrieval_index fs name = Some i \<Longrightarrow> is_at (map ft_name fs) (int i) name"
proof (induction fs arbitrary: i)
  case (Cons f fs)
  show ?case
  proof (cases "strcmp_nocase (ft_name f) name = 0")
    case False
    with Cons.prems obtain j where "retrieval_index fs name = Some j" "i = Suc j" by auto
    with Cons.IH[of j] show ?thesis by (auto simp: is_at_def nat_add_distrib)
  qed (use Cons.prems in \<open>auto simp: is_at_def\<close>)
qed simp

lemma MQLObject_add_ok: "extends rt (MQLObject_add nn name rt)"
  "\<exists>i. getFeatureIndex 0 (rt_object (MQLObject_add nn name rt) nn) name = Inr i \<and>
     is_at (rt_object (MQLObject_add nn name rt) nn) (int i) name"
proof -
  show "extends rt (MQLObject_add nn name rt)"
    using addFeature_extends(1)[of "rt_object rt nn" name] by (auto simp: extends_def MQLObject_add_def)
  show "\<exists>i. getFeatureIndex 0 (rt_object (MQLObject_add nn name rt) nn) name = Inr i \<and>
     is_at (rt_object (MQLObject_add nn name rt) nn) (int i) name"
    using getFeatureIndex_found[OF addFeature_extends(2)[of "rt_object rt nn" name], of 0]
    by (auto simp: MQLObject_add_def is_at_def)
qed

lemma addFeatureToBeRetrieved_ok:
  assumes "addFeatureToBeRetrieved nn name rt = (i, rt')"
  shows "extends rt rt'" "is_at (map ft_name (rt_Feature_retrieval_vec rt' nn)) (int i) name"
proof -
  let ?vec = "rt_Feature_retrieval_vec rt nn"
  let ?rt = "rt\<lparr>rt_Feature_retrieval_vec := (rt_Feature_retrieval_vec rt)(nn := ?vec @ [new_Feature name])\<rparr>"
  have "extends rt rt' \<and> is_at (map ft_name (rt_Feature_retrieval_vec rt' nn)) (int i) name"
  proof (cases "retrieval_index ?vec name")
    case None
    with assms have r: "i = length ?vec" "rt' = MQLObject_add nn name ?rt" by (auto simp: addFeatureToBeRetrieved_def Let_def)
    have "extends rt ?rt" by (auto simp: extends_def)
    then have "extends rt rt'" using MQLObject_add_ok(1) r(2) extends_trans by blast
    moreover have "is_at (map ft_name (?vec @ [new_Feature name])) (int i) name" by (simp add: r(1) is_at_def new_Feature_def nth_append)
    ultimately show ?thesis by (simp add: r(2) MQLObject_add_def)
  next
    case (Some j)
    with assms retrieval_index_at[OF Some] show ?thesis by (auto simp: addFeatureToBeRetrieved_def)
  qed
  then show "extends rt rt'" "is_at (map ft_name (rt_Feature_retrieval_vec rt' nn)) (int i) name" by blast+
qed

text \<open>A reference without its places.\<close>

definition unplaced :: "ObjectReferenceUsage \<Rightarrow> ObjectReferenceUsage" where
  "unplaced r = r\<lparr>oru_FeatureIndexInMQLObject := 0, oru_MatchedObjectIndex := 0, oru_FeatureIndexInMatchedObject := 0\<rparr>"

lemma unplaced_same_fields:
  assumes "unplaced r' = unplaced r"
  shows "oru_object_reference r' = oru_object_reference r" "oru_ORDIsParent r' = oru_ORDIsParent r"
    "oru_ControllingObjectBlock r' = oru_ControllingObjectBlock r" "oru_feature_name r' = oru_feature_name r"
  using assms by (cases r; cases r'; simp add: unplaced_def)+

definition object_known :: "ORDMap \<Rightarrow> QueryNode list \<Rightarrow> ObjectReferenceUsage \<Rightarrow> bool" where
  "object_known m v r \<longleftrightarrow> (\<exists>ob. getNodeFromNodeNumber v (ord_node m (oru_object_reference r)) = Inr (kQNKObjectBlock ob))"

definition loaded :: "(string \<rightharpoonup> nat) \<Rightarrow> ORDMap \<Rightarrow> Retrievals \<Rightarrow> ObjectReferenceUsage \<Rightarrow> ObjectReferenceUsage \<Rightarrow> bool" where
  "loaded pm m rt r r' \<longleftrightarrow> unplaced r' = unplaced r \<and> located m rt r' \<and>
     oru_MatchedObjectIndex r' = oru_MatchedObjectIndex (told_place pm r)"

lemma loaded_extends: "loaded pm m rt r r' \<Longrightarrow> extends rt rt' \<Longrightarrow> loaded pm m rt' r r'"
  using located_extends by (auto simp: loaded_def)

lemma told_place_fields [simp]:
  "unplaced (told_place pm r) = unplaced r" "oru_object_reference (told_place pm r) = oru_object_reference r"
  "oru_ORDIsParent (told_place pm r) = oru_ORDIsParent r" "oru_feature_name (told_place pm r) = oru_feature_name r"
  by (auto simp: told_place_def unplaced_def split: option.splits)

lemma reference_loaded:
  assumes "object_known m v r"
  shows "\<exists>r' rt'. ObjectReferenceUsage_symbolObjectReferences2 m v (told_place pm r) rt = Inr (r', rt') \<and>
     extends rt rt' \<and> loaded pm m rt' r r'"
proof -
  let ?nn = "ord_node m (oru_object_reference r)" and ?name = "oru_feature_name r"
  obtain ob where q: "getNodeFromNodeNumber v ?nn = Inr (kQNKObjectBlock ob)" using assms by (auto simp: object_known_def)
  show ?thesis
  proof (cases "oru_ORDIsParent r")
    case True
    let ?rt = "MQLObject_add ?nn ?name rt"
    obtain i where i: "getFeatureIndex 0 (rt_object ?rt ?nn) ?name = Inr i" "is_at (rt_object ?rt ?nn) (int i) ?name"
      using MQLObject_add_ok(2) by blast
    obtain j rt' where j: "addFeatureToBeRetrieved ?nn ?name ?rt = (j, rt')" by fastforce
    note a = addFeatureToBeRetrieved_ok[OF j]
    have "extends rt rt'" using MQLObject_add_ok(1) a(1) extends_trans by blast
    moreover have "is_at (rt_object rt' ?nn) (int i) ?name"
    proof -
      from a(1) obtain xs where "rt_object rt' ?nn = rt_object ?rt ?nn @ xs" unfolding extends_def by blast
      with i(2) show ?thesis by simp
    qed
    ultimately show ?thesis using q True i(1) j a(2)
      by (simp add: ObjectReferenceUsage_symbolObjectReferences2_def asObjectBlock_def Let_def loaded_def located_def)
        (simp add: unplaced_def told_place_def)
  next
    case False
    obtain j rt' where j: "addFeatureToBeRetrieved ?nn ?name rt = (j, rt')" by fastforce
    note a = addFeatureToBeRetrieved_ok[OF j]
    have "unplaced (told_place pm r\<lparr>oru_FeatureIndexInMatchedObject := int j\<rparr>) = unplaced r"
      using told_place_fields(1)[of pm r] by (simp add: unplaced_def)
    then show ?thesis using q False j a
      by (simp add: ObjectReferenceUsage_symbolObjectReferences2_def asObjectBlock_def Let_def loaded_def located_def)
  qed
qed

definition all_loaded :: "(string \<rightharpoonup> nat) \<Rightarrow> ORDMap \<Rightarrow> Retrievals \<Rightarrow> FeatureComparison list \<Rightarrow> FeatureComparison list \<Rightarrow> bool" where
  "all_loaded pm m rt fcs fcs' \<longleftrightarrow> list_all2 (loaded pm m rt) (references_of fcs) (references_of fcs')"

lemma all_loaded_append:
  "all_loaded pm m rt1 xs xs' \<Longrightarrow> extends rt1 rt2 \<Longrightarrow> all_loaded pm m rt2 ys ys' \<Longrightarrow> all_loaded pm m rt2 (xs @ ys) (xs' @ ys')"
  unfolding all_loaded_def by (auto intro!: list_all2_appendI elim!: list_all2_mono intro: loaded_extends)

definition unplaced_comparison :: "FeatureComparison \<Rightarrow> FeatureComparison" where
  "unplaced_comparison fc = fc\<lparr>fc_value := (case fc_value fc of Some (kValObjectReferenceUsage r) \<Rightarrow>
     Some (kValObjectReferenceUsage (unplaced r)) | x \<Rightarrow> x)\<rparr>"

lemma comparison_loaded:
  assumes "\<forall>r\<in>set (references_of [fc]). object_known m v r"
  shows "\<exists>fc' rt'. FeatureComparison_symbolObjectReferences2 fc m v pm rt = Inr (fc', rt') \<and> extends rt rt' \<and>
     all_loaded pm m rt' [fc] [fc'] \<and> unplaced_comparison fc' = unplaced_comparison fc"
proof (cases "reference_of fc")
  case None
  then have "FeatureComparison_symbolObjectReferences2 fc m v pm rt = Inr (fc, rt)"
    by (auto simp: reference_of_def FeatureComparison_symbolObjectReferences2_def split: option.splits Value.splits)
  then show ?thesis using None by (intro exI[of _ fc] exI[of _ rt]) (simp add: all_loaded_def)
next
  case (Some r)
  then have f: "fc_value fc = Some (kValObjectReferenceUsage r)"
    by (auto simp: reference_of_def split: option.splits Value.splits)
  have "object_known m v r" using assms Some by simp
  from reference_loaded[OF this, of pm rt] obtain r' rt' where r:
    "ObjectReferenceUsage_symbolObjectReferences2 m v (told_place pm r) rt = Inr (r', rt')" "extends rt rt'" "loaded pm m rt' r r'"
    by blast
  let ?fc = "fc\<lparr>fc_value := Some (kValObjectReferenceUsage r')\<rparr>"
  have "reference_of ?fc = Some r'" by (simp add: reference_of_def)
  then show ?thesis using r f Some
    by (intro exI[of _ ?fc] exI[of _ rt']) (simp add: FeatureComparison_symbolObjectReferences2_def all_loaded_def unplaced_comparison_def
        loaded_def)
qed

lemma FFeatures_loaded:
  "\<forall>r\<in>set (references_of (ff_comparisons f)). object_known m v r \<Longrightarrow>
     \<exists>f' rt'. FFeatures_symbolObjectReferences2 f m v pm rt = Inr (f', rt') \<and> extends rt rt' \<and>
       all_loaded pm m rt' (ff_comparisons f) (ff_comparisons f') \<and>
       FFeatures_each unplaced_comparison f' = FFeatures_each unplaced_comparison f"
  "\<forall>r\<in>set (references_of (ft_comparisons t)). object_known m v r \<Longrightarrow>
     \<exists>t' rt'. FTerm_symbolObjectReferences2 t m v pm rt = Inr (t', rt') \<and> extends rt rt' \<and>
       all_loaded pm m rt' (ft_comparisons t) (ft_comparisons t') \<and>
       FTerm_each unplaced_comparison t' = FTerm_each unplaced_comparison t"
  "\<forall>r\<in>set (references_of (fa_comparisons a)). object_known m v r \<Longrightarrow>
     \<exists>a' rt'. FFactor_symbolObjectReferences2 a m v pm rt = Inr (a', rt') \<and> extends rt rt' \<and>
       all_loaded pm m rt' (fa_comparisons a) (fa_comparisons a') \<and>
       FFactor_each unplaced_comparison a' = FFactor_each unplaced_comparison a"
proof (induction f and t and a arbitrary: rt and rt and rt)
  case (FFeatures_fterm t)
  obtain x rt1 where "FTerm_symbolObjectReferences2 t m v pm rt = Inr (x, rt1)" "extends rt rt1"
    "all_loaded pm m rt1 (ft_comparisons t) (ft_comparisons x)" "FTerm_each unplaced_comparison x = FTerm_each unplaced_comparison t" using FFeatures_fterm.IH[of rt] FFeatures_fterm.prems by auto
  then show ?case by (intro exI[of _ "FFeatures_fterm x"] exI[of _ rt1]) simp
next
  case (FFeatures_or f t)
  obtain x rt1 where 1: "FFeatures_symbolObjectReferences2 f m v pm rt = Inr (x, rt1)" "extends rt rt1"
    "all_loaded pm m rt1 (ff_comparisons f) (ff_comparisons x)" "FFeatures_each unplaced_comparison x = FFeatures_each unplaced_comparison f" using FFeatures_or.IH(1)[of rt] FFeatures_or.prems by auto
  obtain y rt2 where 2: "FTerm_symbolObjectReferences2 t m v pm rt1 = Inr (y, rt2)" "extends rt1 rt2"
    "all_loaded pm m rt2 (ft_comparisons t) (ft_comparisons y)" "FTerm_each unplaced_comparison y = FTerm_each unplaced_comparison t" using FFeatures_or.IH(2)[of rt1] FFeatures_or.prems by auto
  show ?case using 1(1,4) 2(1,4) extends_trans[OF 1(2) 2(2)] all_loaded_append[OF 1(3) 2(2) 2(3)]
    by (intro exI[of _ "FFeatures_or x y"] exI[of _ rt2]) simp
next
  case (FTerm_ffactor a)
  obtain x rt1 where "FFactor_symbolObjectReferences2 a m v pm rt = Inr (x, rt1)" "extends rt rt1"
    "all_loaded pm m rt1 (fa_comparisons a) (fa_comparisons x)" "FFactor_each unplaced_comparison x = FFactor_each unplaced_comparison a" using FTerm_ffactor.IH[of rt] FTerm_ffactor.prems by auto
  then show ?case by (intro exI[of _ "FTerm_ffactor x"] exI[of _ rt1]) simp
next
  case (FTerm_and t a)
  obtain x rt1 where 1: "FTerm_symbolObjectReferences2 t m v pm rt = Inr (x, rt1)" "extends rt rt1"
    "all_loaded pm m rt1 (ft_comparisons t) (ft_comparisons x)" "FTerm_each unplaced_comparison x = FTerm_each unplaced_comparison t" using FTerm_and.IH(1)[of rt] FTerm_and.prems by auto
  obtain y rt2 where 2: "FFactor_symbolObjectReferences2 a m v pm rt1 = Inr (y, rt2)" "extends rt1 rt2"
    "all_loaded pm m rt2 (fa_comparisons a) (fa_comparisons y)" "FFactor_each unplaced_comparison y = FFactor_each unplaced_comparison a" using FTerm_and.IH(2)[of rt1] FTerm_and.prems by auto
  show ?case using 1(1,4) 2(1,4) extends_trans[OF 1(2) 2(2)] all_loaded_append[OF 1(3) 2(2) 2(3)]
    by (intro exI[of _ "FTerm_and x y"] exI[of _ rt2]) simp
next
  case (FFactor_not a)
  obtain x rt1 where "FFactor_symbolObjectReferences2 a m v pm rt = Inr (x, rt1)" "extends rt rt1"
    "all_loaded pm m rt1 (fa_comparisons a) (fa_comparisons x)" "FFactor_each unplaced_comparison x = FFactor_each unplaced_comparison a" using FFactor_not.IH[of rt] FFactor_not.prems by auto
  then show ?case by (intro exI[of _ "FFactor_not x"] exI[of _ rt1]) simp
next
  case (FFactor_paren f)
  obtain x rt1 where "FFeatures_symbolObjectReferences2 f m v pm rt = Inr (x, rt1)" "extends rt rt1"
    "all_loaded pm m rt1 (ff_comparisons f) (ff_comparisons x)" "FFeatures_each unplaced_comparison x = FFeatures_each unplaced_comparison f" using FFactor_paren.IH[of rt] FFactor_paren.prems by auto
  then show ?case by (intro exI[of _ "FFactor_paren x"] exI[of _ rt1]) simp
next
  case (FFactor_comparison fc)
  obtain x rt1 where "FeatureComparison_symbolObjectReferences2 fc m v pm rt = Inr (x, rt1)" "extends rt rt1"
    "all_loaded pm m rt1 [fc] [x]" "unplaced_comparison x = unplaced_comparison fc" using comparison_loaded[of fc m v pm rt] FFactor_comparison.prems by auto
  then show ?case by (intro exI[of _ "FFactor_comparison x"] exI[of _ rt1]) simp
qed

section \<open>The strings that are searched\<close>

text \<open>A string, and the string around it.\<close>

definition is_string :: "QueryNode list \<Rightarrow> int \<Rightarrow> bool" where
  "is_string v a \<longleftrightarrow> (\<exists>n h. kQNKBlockString2 n h \<in> set v \<and> bs2_node_number n = a)"

inductive nested :: "QueryNode list \<Rightarrow> int \<Rightarrow> int \<Rightarrow> bool" for v :: "QueryNode list" where
  nestedI: "kQNKBlockString2 n h \<in> set v \<Longrightarrow> bs2_parent n \<noteq> -1 \<Longrightarrow> nested v (bs2_node_number n) (bs2_parent n)"

inductive_cases nestedE: "nested v a b"

text \<open>The strings around something that is in the string \<open>p\<close>: \<open>p\<close> itself and the ones it is nested in.\<close>

definition around :: "QueryNode list \<Rightarrow> int \<Rightarrow> int set" where
  "around v p = (if p = -1 then {} else {b. (nested v)\<^sup>*\<^sup>* p b})"

text \<open>Nodes in order: numbers as places, and strings nested in strings before them.\<close>

definition ordered :: "QueryNode list \<Rightarrow> bool" where
  "ordered v \<longleftrightarrow> indexed v \<and> (\<forall>n h. kQNKBlockString2 n h \<in> set v \<longrightarrow>
     bs2_parent n < bs2_node_number n \<and> (bs2_parent n = -1 \<or> is_string v (bs2_parent n)))"

lemma string_unique:
  assumes "indexed v" "kQNKBlockString2 n h \<in> set v" "kQNKBlockString2 n' h' \<in> set v" "bs2_node_number n = bs2_node_number n'"
  shows "n = n'"
  using indexed_node(1)[OF assms(1,2)] indexed_node(1)[OF assms(1,3)] assms(4) by simp

lemma around_string:
  assumes "ordered v" "kQNKBlockString2 n h \<in> set v"
  shows "around v (bs2_node_number n) = insert (bs2_node_number n) (around v (bs2_parent n))"
proof -
  have ix: "indexed v" using assms(1) by (simp add: ordered_def)
  have nn: "bs2_node_number n \<noteq> -1" using indexed_node(2)[OF ix assms(2)] by simp
  have step: "nested v (bs2_node_number n) b \<longleftrightarrow> b = bs2_parent n \<and> bs2_parent n \<noteq> -1" for b
    using string_unique[OF ix _ assms(2)] nestedI[OF assms(2)] by (auto elim!: nestedE)
  have star: "(nested v)\<^sup>*\<^sup>* a b \<longleftrightarrow> a = b \<or> (\<exists>c. nested v a c \<and> (nested v)\<^sup>*\<^sup>* c b)" for a b
    by (blast elim: converse_rtranclpE intro: converse_rtranclp_into_rtranclp rtranclp.rtrancl_refl)
  have "(nested v)\<^sup>*\<^sup>* (bs2_node_number n) b \<longleftrightarrow> b = bs2_node_number n \<or> b \<in> around v (bs2_parent n)" for b
    by (subst star) (auto simp: around_def step)
  then show ?thesis unfolding around_def[of v "bs2_node_number n"] using nn by (simp add: set_eq_iff)
qed

text \<open>The loops up the strings find them.\<close>

lemma string_loops:
  assumes "ordered v" "p = -1 \<or> is_string v p" "int k \<ge> p + 1"
  shows "(\<exists>l. BS2_parents k v p = Inr l \<and> set l = around v p) \<and> BS2_parent_in k v S p = Inr (around v p \<inter> set S \<noteq> {})"
  using assms(2,3)
proof (induction k arbitrary: p)
  case 0
  have "p = -1"
  proof (rule ccontr)
    assume "p \<noteq> -1"
    with "0.prems"(1) obtain n h where "kQNKBlockString2 n h \<in> set v" "bs2_node_number n = p" by (auto simp: is_string_def)
    with indexed_node(2)[of v "kQNKBlockString2 n h"] assms(1) "0.prems"(2) show False by (auto simp: ordered_def)
  qed
  then show ?case by (simp add: BS2_parents.simps BS2_parent_in.simps around_def)
next
  case (Suc k)
  show ?case
  proof (cases "p = -1")
    case True
    then show ?thesis by (simp add: BS2_parents.simps BS2_parent_in.simps around_def)
  next
    case False
    then obtain n h where q: "kQNKBlockString2 n h \<in> set v" "bs2_node_number n = p" using Suc.prems(1) by (auto simp: is_string_def)
    have g: "getNodeFromNodeNumber v p = Inr (kQNKBlockString2 n h)"
      using indexed_node(1)[of v "kQNKBlockString2 n h"] assms(1) q by (simp add: ordered_def)
    have up: "bs2_parent n < p" "bs2_parent n = -1 \<or> is_string v (bs2_parent n)" using assms(1) q by (auto simp: ordered_def)
    have a: "around v p = insert p (around v (bs2_parent n))" using around_string[OF assms(1) q(1)] q(2) by simp
    have IH: "\<exists>l. BS2_parents k v (bs2_parent n) = Inr l \<and> set l = around v (bs2_parent n)"
      "BS2_parent_in k v S (bs2_parent n) = Inr (around v (bs2_parent n) \<inter> set S \<noteq> {})"
      using Suc.IH[OF up(2)] up(1) Suc.prems(2) by auto
    from IH(1) obtain l where "BS2_parents k v (bs2_parent n) = Inr l" "set l = around v (bs2_parent n)" by blast
    then have "BS2_parents (Suc k) v p = Inr (p # l) \<and> set (p # l) = around v p"
      using g False a by (simp add: BS2_parents.simps[of "Suc k"] asBlockString2_def)
    moreover have "BS2_parent_in (Suc k) v S p = Inr (around v p \<inter> set S \<noteq> {})"
      using g False IH(2) a by (cases "p \<in> set S") (simp_all add: BS2_parent_in.simps[of "Suc k"] asBlockString2_def)
    ultimately show ?thesis by blast
  qed
qed

definition within :: "QueryNode list \<Rightarrow> int \<Rightarrow> bool" where
  "within v p \<longleftrightarrow> p = -1 \<or> is_string v p"

lemma string_loops_length:
  assumes "ordered v" "within v p"
  shows "\<exists>l. BS2_parents (length v) v p = Inr l \<and> set l = around v p"
    "BS2_parent_in (length v) v S p = Inr (around v p \<inter> set S \<noteq> {})"
proof -
  have "int (length v) \<ge> p + 1"
  proof (cases "p = -1")
    case False
    then obtain n h where "kQNKBlockString2 n h \<in> set v" "bs2_node_number n = p"
      using assms(2) by (auto simp: within_def is_string_def)
    with indexed_node(3)[of v "kQNKBlockString2 n h"] assms(1) show ?thesis by (auto simp: ordered_def)
  qed simp
  from string_loops[OF assms(1) assms(2)[unfolded within_def] this, of S]
  show "\<exists>l. BS2_parents (length v) v p = Inr l \<and> set l = around v p"
    "BS2_parent_in (length v) v S p = Inr (around v p \<inter> set S \<noteq> {})" by blast+
qed

text \<open>The strings with a name inside, by the visit before.\<close>

definition holds :: "QueryNode list \<Rightarrow> (int \<Rightarrow> string set) \<Rightarrow> string list \<Rightarrow> int \<Rightarrow> bool" where
  "holds v children ORDs nn \<longleftrightarrow> is_string v nn \<and> (\<exists>ORD\<in>set ORDs. hasORDChild children nn ORD)"

lemma indexed_enumerate:
  assumes "indexed v"
  shows "(i, q) \<in> set (enumerate 0 v) \<longleftrightarrow> q \<in> set v \<and> int i = node_nn q"
proof -
  have "node_nn (v ! j) = int j" if "j < length v" for j
  proof -
    have "node_nn (v ! j) = [0..int (length v) - 1] ! j" using assms that by (metis indexed_def nth_map)
    then show ?thesis using that by (simp add: nth_upto)
  qed
  then show ?thesis by (simp add: in_set_enumerate_eq) (auto simp: in_set_conv_nth)
qed

lemma BS2_with_child_set:
  assumes "indexed v"
  shows "set (BS2_with_child v children ORD) = {nn. is_string v nn \<and> hasORDChild children nn ORD}"
proof (intro set_eqI iffI)
  fix nn assume "nn \<in> set (BS2_with_child v children ORD)"
  then obtain i n h where "(i, kQNKBlockString2 n h) \<in> set (enumerate 0 v)" "nn = int i" "hasORDChild children (bs2_node_number n) ORD"
    by (auto simp: BS2_with_child_def split: QueryNode.splits)
  then show "nn \<in> {nn. is_string v nn \<and> hasORDChild children nn ORD}"
    using indexed_enumerate[OF assms] by (auto simp: is_string_def)
next
  fix nn assume "nn \<in> {nn. is_string v nn \<and> hasORDChild children nn ORD}"
  then obtain n h where q: "kQNKBlockString2 n h \<in> set v" "bs2_node_number n = nn" "hasORDChild children nn ORD"
    by (auto simp: is_string_def)
  have "0 \<le> nn" using indexed_node(2)[OF assms q(1)] q(2) by simp
  then have "(nat nn, kQNKBlockString2 n h) \<in> set (enumerate 0 v)" using indexed_enumerate[OF assms] q by simp
  with q \<open>0 \<le> nn\<close> show "nn \<in> set (BS2_with_child v children ORD)"
    by (auto simp: BS2_with_child_def image_iff intro!: exI[of _ "nat (bs2_node_number n)"] exI[of _ "kQNKBlockString2 n h"])
qed

lemma sift_outermost_ok:
  assumes "ordered v" "\<forall>nn\<in>set nns. is_string v nn"
  shows "\<exists>l. sift_outermost v S nns = Inr l \<and>
     set l = {nn \<in> set nns. \<exists>n h. kQNKBlockString2 n h \<in> set v \<and> bs2_node_number n = nn \<and> around v (bs2_parent n) \<inter> set S = {}}"
  using assms(2)
proof (induction nns)
  case (Cons nn nns)
  obtain l where l: "sift_outermost v S nns = Inr l"
    "set l = {nn \<in> set nns. \<exists>n h. kQNKBlockString2 n h \<in> set v \<and> bs2_node_number n = nn \<and> around v (bs2_parent n) \<inter> set S = {}}"
    using Cons.IH Cons.prems by (metis (no_types, lifting) list.set_intros(2))
  obtain n h where q: "kQNKBlockString2 n h \<in> set v" "bs2_node_number n = nn" using Cons.prems by (auto simp: is_string_def)
  have ix: "indexed v" using assms(1) by (simp add: ordered_def)
  have g: "getNodeFromNodeNumber v nn = Inr (kQNKBlockString2 n h)" using indexed_node(1)[OF ix q(1)] q(2) by simp
  have up: "within v (bs2_parent n)" using assms(1) q by (auto simp: ordered_def within_def)
  have "n' = n" if "kQNKBlockString2 n' h' \<in> set v" "bs2_node_number n' = nn" for n' h'
    using string_unique[OF ix that(1) q(1)] that(2) q(2) by simp
  then have u: "(\<exists>n' h'. kQNKBlockString2 n' h' \<in> set v \<and> bs2_node_number n' = nn \<and> around v (bs2_parent n') \<inter> set S = {}) =
      (around v (bs2_parent n) \<inter> set S = {})" using q by blast
  have "sift_outermost v S (nn # nns) = Inr (if around v (bs2_parent n) \<inter> set S \<noteq> {} then l else nn # l)"
    using g l(1) string_loops_length(2)[OF assms(1) up] by (simp add: asBlockString2_def)
  moreover have "set (if around v (bs2_parent n) \<inter> set S \<noteq> {} then l else nn # l) = {nn' \<in> set (nn # nns).
      \<exists>n h. kQNKBlockString2 n h \<in> set v \<and> bs2_node_number n = nn' \<and> around v (bs2_parent n) \<inter> set S = {}}"
  proof (cases "around v (bs2_parent n) \<inter> set S = {}")
    case True
    then have "set (if around v (bs2_parent n) \<inter> set S \<noteq> {} then l else nn # l) = insert nn (set l)" by simp
    then show ?thesis unfolding l(2) using u True by auto
  next
    case False
    then have "set (if around v (bs2_parent n) \<inter> set S \<noteq> {} then l else nn # l) = set l" by simp
    then show ?thesis unfolding l(2) using u False by auto
  qed
  ultimately show ?case by blast
qed simp

text \<open>
  The strings to be searched: they hold a name that is used, are not around the constraints, and
  none of the strings around them is such a string.
\<close>

definition searched :: "QueryNode list \<Rightarrow> (int \<Rightarrow> string set) \<Rightarrow> string list \<Rightarrow> int \<Rightarrow> int set" where
  "searched v children ORDs p = {nn. holds v children ORDs nn \<and> nn \<notin> around v p \<and>
     (\<forall>b\<in>around v nn - {nn}. holds v children ORDs b \<longrightarrow> b \<in> around v p)}"

lemma around_below:
  assumes "ordered v" "within v p" "b \<in> around v p"
  shows "b \<le> p"
proof -
  have "(nested v)\<^sup>*\<^sup>* a c \<Longrightarrow> c \<le> a" for a c
    by (induction rule: rtranclp_induct) (use assms(1) in \<open>auto simp: ordered_def elim!: nestedE dest: order_trans less_imp_le\<close>)
  with assms(3) show ?thesis by (auto simp: around_def split: if_splits)
qed

lemma BS2_list_ok:
  assumes "ordered v" "within v p"
  shows "\<exists>l. BS2_list v children ORDs p = Inr l \<and> set l = searched v children ORDs p"
proof -
  have ix: "indexed v" using assms(1) by (simp add: ordered_def)
  let ?tmp = "concat (map (BS2_with_child v children) ORDs)"
  obtain ps where ps: "BS2_parents (length v) v p = Inr ps" "set ps = around v p" using string_loops_length(1)[OF assms] by blast
  let ?tmp2 = "filter (\<lambda>nn. nn \<notin> set ps) ?tmp"
  have t: "set ?tmp = {nn. holds v children ORDs nn}" by (auto simp: BS2_with_child_set[OF ix] holds_def)
  have s: "\<forall>nn\<in>set ?tmp2. is_string v nn" using t by (auto simp: holds_def)
  from sift_outermost_ok[OF assms(1) s, of ?tmp2] obtain l where l: "sift_outermost v ?tmp2 ?tmp2 = Inr l"
    "set l = {nn \<in> set ?tmp2. \<exists>n h. kQNKBlockString2 n h \<in> set v \<and> bs2_node_number n = nn \<and> around v (bs2_parent n) \<inter> set ?tmp2 = {}}"
    by blast
  have m: "set ?tmp2 = {nn. holds v children ORDs nn \<and> nn \<notin> around v p}" using t ps(2) by auto
  have "around v nn - {nn} = around v (bs2_parent n)" if q: "kQNKBlockString2 n h \<in> set v" "bs2_node_number n = nn" for n h nn
  proof -
    have "within v (bs2_parent n)" "bs2_parent n < nn" using assms(1) q by (auto simp: ordered_def within_def)
    with around_below[OF assms(1), of "bs2_parent n" nn] have "nn \<notin> around v (bs2_parent n)" by auto
    then show ?thesis using around_string[OF assms(1) q(1)] q(2) by simp
  qed
  then have "set l = searched v children ORDs p" unfolding l(2) m searched_def holds_def is_string_def by blast
  then show ?thesis using l(1) ps(1) by (simp add: BS2_list_def)
qed

text \<open>Each reference to be found in the straw is told the place of its block.\<close>

definition places_ok :: "ORDMap \<Rightarrow> Places \<Rightarrow> bool" where
  "places_ok m ps \<longleftrightarrow> (\<forall>ORD i. snd ps ORD = Some i \<longrightarrow> i < length (fst ps) \<and> fst ps ! i = ord_node m ORD)"

lemma getMatchedObjectIndex_ok:
  "getMatchedObjectIndex vec nn = (i, vec') \<Longrightarrow> i < length vec' \<and> vec' ! i = nn \<and> (\<exists>xs. vec' = vec @ xs)"
  by (induction vec nn arbitrary: i vec' rule: getMatchedObjectIndex.induct) (auto split: if_splits prod.splits)

lemma setMatchedObjectIndex_ok:
  assumes "places_ok m ps"
  shows "places_ok m (setMatchedObjectIndex m ORD ps)"
    "dom (snd (setMatchedObjectIndex m ORD ps)) = insert ORD (dom (snd ps))"
proof -
  obtain i vec where g: "getMatchedObjectIndex (fst ps) (ord_node m ORD) = (i, vec)" by fastforce
  from getMatchedObjectIndex_ok[OF g] obtain xs where v: "i < length vec" "vec ! i = ord_node m ORD" "vec = fst ps @ xs" by blast
  have "j < length vec \<and> vec ! j = ord_node m s" if "snd ps s = Some j" for s j
  proof -
    have "j < length (fst ps)" "fst ps ! j = ord_node m s" using assms that by (simp_all add: places_ok_def)
    then show ?thesis by (simp add: v(3) nth_append)
  qed
  then show "places_ok m (setMatchedObjectIndex m ORD ps)"
    using g v(1,2) by (auto simp: places_ok_def setMatchedObjectIndex_def Let_def)
  show "dom (snd (setMatchedObjectIndex m ORD ps)) = insert ORD (dom (snd ps))" using g by (simp add: setMatchedObjectIndex_def)
qed

lemma matched_places_ok:
  assumes "places_ok m ps"
  shows "places_ok m (matched_places m children ORDs nns ps)"
    "dom (snd (matched_places m children ORDs nns ps)) = dom (snd ps) \<union> {ORD \<in> set ORDs. \<exists>nn\<in>set nns. hasORDChild children nn ORD}"
proof -
  let ?f = "\<lambda>nn p ORD. if hasORDChild children nn ORD then setMatchedObjectIndex m ORD p else p"
  have inner: "places_ok m (foldl (?f nn) p ORDs) \<and>
      dom (snd (foldl (?f nn) p ORDs)) = dom (snd p) \<union> {ORD \<in> set ORDs. hasORDChild children nn ORD}" if "places_ok m p" for nn p
    using that by (induction ORDs arbitrary: p) (auto simp: setMatchedObjectIndex_ok)
  have "places_ok m (matched_places m children ORDs nns ps) \<and> dom (snd (matched_places m children ORDs nns ps)) =
      dom (snd ps) \<union> {ORD \<in> set ORDs. \<exists>nn\<in>set nns. hasORDChild children nn ORD}"
    using assms
  proof (induction nns arbitrary: ps)
    case (Cons nn nns)
    let ?p = "foldl (?f nn) ps ORDs"
    have "matched_places m children ORDs (nn # nns) ps = matched_places m children ORDs nns ?p" by (simp add: matched_places_def)
    then show ?case using Cons.IH[of ?p] inner[OF Cons.prems, of nn] by auto
  qed (simp add: matched_places_def)
  then show "places_ok m (matched_places m children ORDs nns ps)"
    "dom (snd (matched_places m children ORDs nns ps)) = dom (snd ps) \<union> {ORD \<in> set ORDs. \<exists>nn\<in>set nns. hasORDChild children nn ORD}"
    by blast+
qed

section \<open>Constraints\<close>

definition unplaced_constraint :: "FeatureConstraint \<Rightarrow> FeatureConstraint" where
  "unplaced_constraint c = c\<lparr>ffc_ffeatures := FFeatures_each unplaced_comparison (ffc_ffeatures c), ffc_BlockString2List := [], ffc_OBBs := []\<rparr>"

definition unplaced_ob :: "ObjectBlockInfo \<Rightarrow> ObjectBlockInfo" where
  "unplaced_ob ob = ob\<lparr>ob_feature_constraints := map_option unplaced_constraint (ob_feature_constraints ob)\<rparr>"

definition ffc_references :: "FeatureConstraint \<Rightarrow> ObjectReferenceUsage list" where
  "ffc_references c = references_of (ff_comparisons (ffc_ffeatures c))"

definition straw_names :: "FeatureConstraint \<Rightarrow> string list" where
  "straw_names c = map oru_object_reference (filter (\<lambda>r. \<not> oru_ORDIsParent r) (ffc_references c))"

definition constraint_located :: "ORDMap \<Rightarrow> QueryNode list \<Rightarrow> (int \<Rightarrow> string set) \<Rightarrow> Retrievals \<Rightarrow> FeatureConstraint \<Rightarrow> bool" where
  "constraint_located m v children rt c \<longleftrightarrow> (\<forall>r\<in>set (ffc_references c). located m rt r \<and>
       (\<not> oru_ORDIsParent r \<longrightarrow> (\<exists>nn\<in>set (ffc_BlockString2List c). hasORDChild children nn (oru_object_reference r)) \<longrightarrow>
         0 \<le> oru_MatchedObjectIndex r \<and> nat (oru_MatchedObjectIndex r) < length (ffc_OBBs c) \<and>
         ffc_OBBs c ! nat (oru_MatchedObjectIndex r) = ord_node m (oru_object_reference r))) \<and>
     set (ffc_BlockString2List c) = searched v children (straw_names c) (ffc_block_string2_parent c)"

lemma constraint_located_extends:
  "constraint_located m v ch rt c \<Longrightarrow> extends rt rt' \<Longrightarrow> constraint_located m v ch rt' c"
  unfolding constraint_located_def using located_extends by blast

lemma NonParentORU_vector:
  "FFeatures_NonParentORU_vector f = filter (\<lambda>r. \<not> oru_ORDIsParent r) (references_of (ff_comparisons f))"
  "FTerm_NonParentORU_vector t = filter (\<lambda>r. \<not> oru_ORDIsParent r) (references_of (ft_comparisons t))"
  "FFactor_NonParentORU_vector a = filter (\<lambda>r. \<not> oru_ORDIsParent r) (references_of (fa_comparisons a))"
proof (induction f and t and a)
  case (FFactor_comparison fc)
  then show ?case by (simp add: reference_of_def split: option.splits Value.splits)
qed simp_all

lemma all_loaded_names:
  assumes "list_all2 (loaded pm m rt) rs rs'"
  shows "map oru_object_reference (filter (\<lambda>r. \<not> oru_ORDIsParent r) rs') = map oru_object_reference (filter (\<lambda>r. \<not> oru_ORDIsParent r) rs)"
  using assms by (induction rule: list_all2_induct) (auto simp: loaded_def dest: unplaced_same_fields)

lemma constraint_references2_ok:
  assumes "ordered v" "within v (ffc_block_string2_parent c)" "\<forall>r\<in>set (ffc_references c). object_known m v r"
    "ffc_BlockString2List c = []"
  shows "\<exists>c' rt'. constraint_references2 m v ch c rt = Inr (c', rt') \<and> extends rt rt' \<and> constraint_located m v ch rt' c' \<and>
     unplaced_constraint c' = unplaced_constraint c"
proof -
  let ?ns = "straw_names c"
  have ns: "map oru_object_reference (FFeatures_NonParentORU_vector (ffc_ffeatures c)) = ?ns"
    by (simp add: NonParentORU_vector straw_names_def ffc_references_def)
  obtain l where l: "BS2_list v ch ?ns (ffc_block_string2_parent c) = Inr l"
    "set l = searched v ch ?ns (ffc_block_string2_parent c)" using BS2_list_ok[OF assms(1,2)] by blast
  obtain vec pm where p: "matched_places m ch ?ns l (ffc_OBBs c, Map.empty) = (vec, pm)" by fastforce
  have "places_ok m (ffc_OBBs c, Map.empty)" by (simp add: places_ok_def)
  from matched_places_ok[OF this, of ch ?ns l] p have po: "places_ok m (vec, pm)"
    and dom: "dom pm = {ORD \<in> set ?ns. \<exists>nn\<in>set l. hasORDChild ch nn ORD}" by simp_all
  obtain f rt' where f: "FFeatures_symbolObjectReferences2 (ffc_ffeatures c) m v pm rt = Inr (f, rt')" "extends rt rt'"
    "list_all2 (loaded pm m rt') (ffc_references c) (references_of (ff_comparisons f))"
    "FFeatures_each unplaced_comparison f = FFeatures_each unplaced_comparison (ffc_ffeatures c)"
    using FFeatures_loaded(1)[of "ffc_ffeatures c" m v pm rt] assms(3) by (auto simp: all_loaded_def ffc_references_def)
  let ?c = "c\<lparr>ffc_ffeatures := f, ffc_BlockString2List := l, ffc_OBBs := vec\<rparr>"
  have r: "constraint_references2 m v ch c rt = Inr (?c, rt')"
    using l(1) p f(1) assms(4) by (simp add: constraint_references2_def ns Let_def)
  have rs: "ffc_references ?c = references_of (ff_comparisons f)" by (simp add: ffc_references_def)
  have "straw_names ?c = ?ns" unfolding straw_names_def rs using all_loaded_names[OF f(3)] .
  moreover have "located m rt' r' \<and> (\<not> oru_ORDIsParent r' \<longrightarrow> (\<exists>nn\<in>set l. hasORDChild ch nn (oru_object_reference r')) \<longrightarrow>
      0 \<le> oru_MatchedObjectIndex r' \<and> nat (oru_MatchedObjectIndex r') < length vec \<and>
      vec ! nat (oru_MatchedObjectIndex r') = ord_node m (oru_object_reference r'))" if mem: "r' \<in> set (ffc_references ?c)" for r'
  proof -
    from f(3) mem obtain r where r: "r \<in> set (ffc_references c)" "loaded pm m rt' r r'"
      unfolding rs by (auto simp: list_all2_conv_all_nth in_set_conv_nth) blast
    have "unplaced r' = unplaced r" using r(2) by (simp add: loaded_def)
    note same = unplaced_same_fields(1,2)[OF this]
    have "0 \<le> oru_MatchedObjectIndex r' \<and> nat (oru_MatchedObjectIndex r') < length vec \<and>
        vec ! nat (oru_MatchedObjectIndex r') = ord_node m (oru_object_reference r)"
      if "\<not> oru_ORDIsParent r" "\<exists>nn\<in>set l. hasORDChild ch nn (oru_object_reference r)"
    proof -
      have "oru_object_reference r \<in> set ?ns" using r(1) that(1) by (auto simp: straw_names_def)
      with dom that(2) have "oru_object_reference r \<in> dom pm" by simp
      then obtain i where i: "pm (oru_object_reference r) = Some i" by auto
      then have "oru_MatchedObjectIndex r' = int i" using r(2) that(1) by (simp add: loaded_def told_place_def)
      then show ?thesis using po i by (simp add: places_ok_def)
    qed
    then show ?thesis using r(2) by (simp add: loaded_def same)
  qed
  ultimately have "constraint_located m v ch rt' ?c" using l(2) by (simp add: constraint_located_def)
  moreover have "unplaced_constraint ?c = unplaced_constraint c" using f(4) by (simp add: unplaced_constraint_def)
  ultimately show ?thesis using r f(2) by blast
qed

section \<open>The last visit of a query\<close>

definition located_parts :: "ORDMap \<Rightarrow> QueryNode list \<Rightarrow> (int \<Rightarrow> string set) \<Rightarrow> Retrievals \<Rightarrow> part list \<Rightarrow> bool" where
  "located_parts m v ch rt ps \<longleftrightarrow> (\<forall>q\<in>set ps. case q of
     P_object b ob \<Rightarrow> \<forall>c. ob_feature_constraints ob = Some c \<longrightarrow> constraint_located m v ch rt c | _ \<Rightarrow> True)"

text \<open>What the visit needs: each constraint is in a string of the query, has no strings to search yet, and refers to blocks.\<close>

definition locatable :: "ORDMap \<Rightarrow> QueryNode list \<Rightarrow> part list \<Rightarrow> bool" where
  "locatable m v ps \<longleftrightarrow> (\<forall>q\<in>set ps. case q of
     P_object b ob \<Rightarrow> \<forall>c. ob_feature_constraints ob = Some c \<longrightarrow> within v (ffc_block_string2_parent c) \<and>
       (\<forall>r\<in>set (ffc_references c). object_known m v r) \<and> ffc_BlockString2List c = [] | _ \<Rightarrow> True)"

lemma located_simps [simp]:
  "located_parts m v ch rt []" "located_parts m v ch rt (ps @ qs) = (located_parts m v ch rt ps \<and> located_parts m v ch rt qs)"
  "located_parts m v ch rt (P_string n # ps) = located_parts m v ch rt ps"
  "located_parts m v ch rt (P_gap g # ps) = located_parts m v ch rt ps"
  "located_parts m v ch rt (P_object b ob # ps) =
     ((\<forall>c. ob_feature_constraints ob = Some c \<longrightarrow> constraint_located m v ch rt c) \<and> located_parts m v ch rt ps)"
  "locatable m v []" "locatable m v (ps @ qs) = (locatable m v ps \<and> locatable m v qs)"
  "locatable m v (P_string n # ps) = locatable m v ps" "locatable m v (P_gap g # ps) = locatable m v ps"
  "locatable m v (P_object b ob # ps) = ((\<forall>c. ob_feature_constraints ob = Some c \<longrightarrow> within v (ffc_block_string2_parent c) \<and>
       (\<forall>r\<in>set (ffc_references c). object_known m v r) \<and> ffc_BlockString2List c = []) \<and> locatable m v ps)"
  by (auto simp: located_parts_def locatable_def)

lemma located_parts_extends: "located_parts m v ch rt ps \<Longrightarrow> extends rt rt' \<Longrightarrow> located_parts m v ch rt' ps"
  unfolding located_parts_def using constraint_located_extends by (fastforce split: part.splits)

definition finds :: "('a \<Rightarrow> 'a) \<Rightarrow> ('a \<Rightarrow> part list) \<Rightarrow> ORDMap \<Rightarrow> QueryNode list \<Rightarrow> (int \<Rightarrow> string set) \<Rightarrow> 'a \<Rightarrow> Retrievals \<Rightarrow>
  'a \<times> Retrievals \<Rightarrow> bool" where
  "finds erase parts m v ch x rt r \<longleftrightarrow> (case r of (x', rt') \<Rightarrow>
     erase x' = erase x \<and> extends rt rt' \<and> located_parts m v ch rt' (parts x'))"

lemma finds_pair:
  "finds erase parts m v ch x rt (x', rt') \<longleftrightarrow> erase x' = erase x \<and> extends rt rt' \<and> located_parts m v ch rt' (parts x')"
  by (simp add: finds_def)

definition inner_finds :: "ORDMap \<Rightarrow> QueryNode list \<Rightarrow> (int \<Rightarrow> string set) \<Rightarrow> Blocks option \<Rightarrow> bool" where
  "inner_finds m v ch opt \<longleftrightarrow> (\<forall>bl rt. opt = Some bl \<longrightarrow> locatable m v (Blocks_parts bl) \<longrightarrow>
     (\<exists>bl' rt'. Blocks_symbolObjectReferences2 bl m v ch rt = Inr (bl', rt') \<and>
       finds (Blocks_each unplaced_ob (\<lambda>s. s)) Blocks_parts m v ch bl rt (bl', rt')))"

lemma inner_references2_ok:
  assumes "inner_finds m v ch opt" "locatable m v (option_parts (map_option Blocks_parts opt))"
  shows "\<exists>opt' rt'. inner_references2 opt (map_option (\<lambda>f. f m v ch) (map_option Blocks_symbolObjectReferences2 opt)) rt = Inr (opt', rt') \<and>
     finds (map_option (Blocks_each unplaced_ob (\<lambda>s. s))) (\<lambda>x. option_parts (map_option Blocks_parts x)) m v ch opt rt (opt', rt')"
proof (cases opt)
  case None
  then show ?thesis by (intro exI[of _ None] exI[of _ rt]) (simp add: inner_references2_def finds_pair)
next
  case (Some bl)
  with assms obtain bl' rt' where "Blocks_symbolObjectReferences2 bl m v ch rt = Inr (bl', rt')"
    "finds (Blocks_each unplaced_ob (\<lambda>s. s)) Blocks_parts m v ch bl rt (bl', rt')"
    unfolding inner_finds_def by fastforce
  with Some show ?thesis
    by (intro exI[of _ "Some bl'"] exI[of _ rt']) (simp add: inner_references2_def finds_pair)
qed

lemma ObjectBlock_finds:
  assumes "ordered v" "inner_finds m v ch opt" "locatable m v (ObjectBlock_parts (ObjectBlock ob opt) b)"
  shows "\<exists>ob' rt'. ObjectBlock_symbolObjectReferences2 (ObjectBlock ob opt) m v ch rt = Inr (ob', rt') \<and>
     finds (ObjectBlock_each unplaced_ob (\<lambda>s. s)) (\<lambda>x. ObjectBlock_parts x b) m v ch (ObjectBlock ob opt) rt (ob', rt')"
proof -
  let ?c = "case ob_feature_constraints ob of None \<Rightarrow> Inr (ob, rt)
      | Some c \<Rightarrow> map_changed (\<lambda>c1. ob\<lparr>ob_feature_constraints := Some c1\<rparr>) (constraint_references2 m v ch c rt)"
  have "\<exists>ob1 rt1. ?c = Inr (ob1, rt1) \<and> extends rt rt1 \<and> unplaced_ob ob1 = unplaced_ob ob \<and>
      (\<forall>c. ob_feature_constraints ob1 = Some c \<longrightarrow> constraint_located m v ch rt1 c)"
  proof (cases "ob_feature_constraints ob")
    case None
    then show ?thesis by (intro exI[of _ ob] exI[of _ rt]) simp
  next
    case (Some c)
    have "within v (ffc_block_string2_parent c)" "\<forall>r\<in>set (ffc_references c). object_known m v r" "ffc_BlockString2List c = []"
      using assms(3) Some by simp_all
    from constraint_references2_ok[OF assms(1) this, of ch rt] obtain c' rt' where
      "constraint_references2 m v ch c rt = Inr (c', rt')" "extends rt rt'" "constraint_located m v ch rt' c'"
      "unplaced_constraint c' = unplaced_constraint c" by blast
    then show ?thesis using Some
      by (intro exI[of _ "ob\<lparr>ob_feature_constraints := Some c'\<rparr>"] exI[of _ rt']) (simp add: unplaced_ob_def)
  qed
  then obtain ob1 rt1 where 1: "?c = Inr (ob1, rt1)" "extends rt rt1" "unplaced_ob ob1 = unplaced_ob ob"
    "\<forall>c. ob_feature_constraints ob1 = Some c \<longrightarrow> constraint_located m v ch rt1 c" by blast
  have "locatable m v (option_parts (map_option Blocks_parts opt))" using assms(3) by simp
  from inner_references2_ok[OF assms(2) this, of rt1] obtain opt' rt2 where 2:
    "inner_references2 opt (map_option (\<lambda>f. f m v ch) (map_option Blocks_symbolObjectReferences2 opt)) rt1 = Inr (opt', rt2)"
    "finds (map_option (Blocks_each unplaced_ob (\<lambda>s. s))) (\<lambda>x. option_parts (map_option Blocks_parts x)) m v ch opt rt1 (opt', rt2)"
    by blast
  have e: "extends rt1 rt2" using 2(2) by (simp add: finds_pair)
  have l: "\<forall>c. ob_feature_constraints ob1 = Some c \<longrightarrow> constraint_located m v ch rt2 c"
    using 1(4) constraint_located_extends[OF _ e] by blast
  have r: "ObjectBlock_symbolObjectReferences2 (ObjectBlock ob opt) m v ch rt = Inr (ObjectBlock ob1 opt', rt2)"
    using 1(1) 2(1) by (simp add: ObjectBlock_references2_info_def)
  show ?thesis using r l 2(2) 1(3) extends_trans[OF 1(2) e]
    by (intro exI[of _ "ObjectBlock ob1 opt'"] exI[of _ rt2]) (simp add: finds_pair)
qed

lemma references_found:
  assumes o: "ordered v"
  shows
  "locatable m v (Blocks_parts bl) \<Longrightarrow> \<exists>x rt'. Blocks_symbolObjectReferences2 bl m v ch rt = Inr (x, rt') \<and>
     finds (Blocks_each unplaced_ob (\<lambda>s. s)) Blocks_parts m v ch bl rt (x, rt')"
  "locatable m v (BlockString_parts bs) \<Longrightarrow> \<exists>x rt'. BlockString_symbolObjectReferences2 bs m v ch rt = Inr (x, rt') \<and>
     finds (BlockString_each unplaced_ob (\<lambda>s. s)) BlockString_parts m v ch bs rt (x, rt')"
  "locatable m v (BlockString2_parts b2) \<Longrightarrow> \<exists>x rt'. BlockString2_symbolObjectReferences2 b2 m v ch rt = Inr (x, rt') \<and>
     finds (BlockString2_each unplaced_ob (\<lambda>s. s)) BlockString2_parts m v ch b2 rt (x, rt')"
  "locatable m v (BlockString1_parts b1) \<Longrightarrow> \<exists>x rt'. BlockString1_symbolObjectReferences2 b1 m v ch rt = Inr (x, rt') \<and>
     finds (BlockString1_each unplaced_ob (\<lambda>s. s)) BlockString1_parts m v ch b1 rt (x, rt')"
  "locatable m v (BlockString0_parts b0) \<Longrightarrow> \<exists>x rt'. BlockString0_symbolObjectReferences2 b0 m v ch rt = Inr (x, rt') \<and>
     finds (BlockString0_each unplaced_ob (\<lambda>s. s)) BlockString0_parts m v ch b0 rt (x, rt')"
  "locatable m v (Block_parts bk) \<Longrightarrow> \<exists>x rt'. Block_symbolObjectReferences2 bk m v ch rt = Inr (x, rt') \<and>
     finds (Block_each unplaced_ob (\<lambda>s. s)) Block_parts m v ch bk rt (x, rt')"
  "locatable m v (GapBlock_parts gb) \<Longrightarrow> \<exists>x rt'. GapBlock_symbolObjectReferences2 gb m v ch rt = Inr (x, rt') \<and>
     finds (GapBlock_each unplaced_ob (\<lambda>s. s)) GapBlock_parts m v ch gb rt (x, rt')"
  "locatable m v (ObjectBlock_parts ob b) \<Longrightarrow> \<exists>x rt'. ObjectBlock_symbolObjectReferences2 ob m v ch rt = Inr (x, rt') \<and>
     finds (ObjectBlock_each unplaced_ob (\<lambda>s. s)) (\<lambda>x. ObjectBlock_parts x b) m v ch ob rt (x, rt')"
  "locatable m v (ObjectBlockString_parts obs) \<Longrightarrow> \<exists>x rt'. ObjectBlockString_symbolObjectReferences2 obs m v ch rt = Inr (x, rt') \<and>
     finds (ObjectBlockString_each unplaced_ob (\<lambda>s. s)) ObjectBlockString_parts m v ch obs rt (x, rt')"
proof (induction bl and bs and b2 and b1 and b0 and bk and gb and ob and obs
    arbitrary: rt and rt and rt and rt and rt and rt and rt and b rt and rt)
  case (Blocks_string bs ur)
  obtain x rt' where "BlockString_symbolObjectReferences2 bs m v ch rt = Inr (x, rt')"
    "finds (BlockString_each unplaced_ob (\<lambda>s. s)) BlockString_parts m v ch bs rt (x, rt')"
    using Blocks_string.IH[of rt] Blocks_string.prems by auto
  then show ?case
    by (intro exI[of _ "Blocks_string x ur"] exI[of _ rt']) (simp add: finds_pair)
next
  case (Blocks_unordered obs)
  obtain x rt' where "ObjectBlockString_symbolObjectReferences2 obs m v ch rt = Inr (x, rt')"
    "finds (ObjectBlockString_each unplaced_ob (\<lambda>s. s)) ObjectBlockString_parts m v ch obs rt (x, rt')"
    using Blocks_unordered.IH[of rt] Blocks_unordered.prems by auto
  then show ?case
    by (intro exI[of _ "Blocks_unordered x"] exI[of _ rt']) (simp add: finds_pair)
next
  case (BlockString_bs2 b2)
  obtain x rt' where "BlockString2_symbolObjectReferences2 b2 m v ch rt = Inr (x, rt')"
    "finds (BlockString2_each unplaced_ob (\<lambda>s. s)) BlockString2_parts m v ch b2 rt (x, rt')"
    using BlockString_bs2.IH[of rt] BlockString_bs2.prems by auto
  then show ?case
    by (intro exI[of _ "BlockString_bs2 x"] exI[of _ rt']) (simp add: finds_pair)
next
  case (BlockString_or b2 bs)
  obtain x rt1 where 1: "BlockString2_symbolObjectReferences2 b2 m v ch rt = Inr (x, rt1)"
    "finds (BlockString2_each unplaced_ob (\<lambda>s. s)) BlockString2_parts m v ch b2 rt (x, rt1)"
    using BlockString_or.IH(1)[of rt] BlockString_or.prems by auto
  obtain y rt2 where 2: "BlockString_symbolObjectReferences2 bs m v ch rt1 = Inr (y, rt2)"
    "finds (BlockString_each unplaced_ob (\<lambda>s. s)) BlockString_parts m v ch bs rt1 (y, rt2)"
    using BlockString_or.IH(2)[of rt1] BlockString_or.prems by auto
  have e: "extends rt rt1" "extends rt1 rt2" using 1(2) 2(2) by (simp_all add: finds_pair)
  have "located_parts m v ch rt2 (BlockString2_parts x)" using 1(2) located_parts_extends[OF _ e(2)] by (simp add: finds_pair)
  with 1 2 extends_trans[OF e] show ?case
    by (intro exI[of _ "BlockString_or x y"] exI[of _ rt2]) (simp add: finds_pair)
next
  case (BlockString2_bs1 n b1)
  obtain x rt' where "BlockString1_symbolObjectReferences2 b1 m v ch rt = Inr (x, rt')"
    "finds (BlockString1_each unplaced_ob (\<lambda>s. s)) BlockString1_parts m v ch b1 rt (x, rt')"
    using BlockString2_bs1.IH[of rt] BlockString2_bs1.prems by auto
  then show ?case
    by (intro exI[of _ "BlockString2_bs1 n x"] exI[of _ rt']) (simp add: finds_pair)
next
  case (BlockString2_seq n b1 b2)
  obtain x rt1 where 1: "BlockString1_symbolObjectReferences2 b1 m v ch rt = Inr (x, rt1)"
    "finds (BlockString1_each unplaced_ob (\<lambda>s. s)) BlockString1_parts m v ch b1 rt (x, rt1)"
    using BlockString2_seq.IH(1)[of rt] BlockString2_seq.prems by auto
  obtain y rt2 where 2: "BlockString2_symbolObjectReferences2 b2 m v ch rt1 = Inr (y, rt2)"
    "finds (BlockString2_each unplaced_ob (\<lambda>s. s)) BlockString2_parts m v ch b2 rt1 (y, rt2)"
    using BlockString2_seq.IH(2)[of rt1] BlockString2_seq.prems by auto
  have e: "extends rt rt1" "extends rt1 rt2" using 1(2) 2(2) by (simp_all add: finds_pair)
  have "located_parts m v ch rt2 (BlockString1_parts x)" using 1(2) located_parts_extends[OF _ e(2)] by (simp add: finds_pair)
  with 1 2 extends_trans[OF e] show ?case
    by (intro exI[of _ "BlockString2_seq n x y"] exI[of _ rt2]) (simp add: finds_pair)
next
  case (BlockString1_bs0 b0)
  obtain x rt' where "BlockString0_symbolObjectReferences2 b0 m v ch rt = Inr (x, rt')"
    "finds (BlockString0_each unplaced_ob (\<lambda>s. s)) BlockString0_parts m v ch b0 rt (x, rt')"
    using BlockString1_bs0.IH[of rt] BlockString1_bs0.prems by auto
  then show ?case
    by (intro exI[of _ "BlockString1_bs0 x"] exI[of _ rt']) (simp add: finds_pair)
next
  case (BlockString1_star b0 mse som)
  obtain x rt' where "BlockString0_symbolObjectReferences2 b0 m v ch rt = Inr (x, rt')"
    "finds (BlockString0_each unplaced_ob (\<lambda>s. s)) BlockString0_parts m v ch b0 rt (x, rt')"
    using BlockString1_star.IH[of rt] BlockString1_star.prems by auto
  then show ?case
    by (intro exI[of _ "BlockString1_star x mse som"] exI[of _ rt']) (simp add: finds_pair)
next
  case (BlockString0_block b)
  obtain x rt' where "Block_symbolObjectReferences2 b m v ch rt = Inr (x, rt')"
    "finds (Block_each unplaced_ob (\<lambda>s. s)) Block_parts m v ch b rt (x, rt')"
    using BlockString0_block.IH[of rt] BlockString0_block.prems by auto
  then show ?case
    by (intro exI[of _ "BlockString0_block x"] exI[of _ rt']) (simp add: finds_pair)
next
  case (BlockString0_string bs)
  obtain x rt' where "BlockString_symbolObjectReferences2 bs m v ch rt = Inr (x, rt')"
    "finds (BlockString_each unplaced_ob (\<lambda>s. s)) BlockString_parts m v ch bs rt (x, rt')"
    using BlockString0_string.IH[of rt] BlockString0_string.prems by auto
  then show ?case
    by (intro exI[of _ "BlockString0_string x"] exI[of _ rt']) (simp add: finds_pair)
next
  case (kOptGapBlock g)
  obtain x rt' where "GapBlock_symbolObjectReferences2 g m v ch rt = Inr (x, rt')"
    "finds (GapBlock_each unplaced_ob (\<lambda>s. s)) GapBlock_parts m v ch g rt (x, rt')"
    using kOptGapBlock.IH[of rt] kOptGapBlock.prems by auto
  then show ?case
    by (intro exI[of _ "kOptGapBlock x"] exI[of _ rt']) (simp add: finds_pair)
next
  case (kGapBlock g)
  obtain x rt' where "GapBlock_symbolObjectReferences2 g m v ch rt = Inr (x, rt')"
    "finds (GapBlock_each unplaced_ob (\<lambda>s. s)) GapBlock_parts m v ch g rt (x, rt')"
    using kGapBlock.IH[of rt] kGapBlock.prems by auto
  then show ?case
    by (intro exI[of _ "kGapBlock x"] exI[of _ rt']) (simp add: finds_pair)
next
  case (kPowerBlock p)
  then show ?case by (intro exI[of _ "kPowerBlock p"] exI[of _ rt]) (simp add: finds_pair)
next
  case (kObjectBlock ob)
  obtain x rt' where "ObjectBlock_symbolObjectReferences2 ob m v ch rt = Inr (x, rt')"
    "finds (ObjectBlock_each unplaced_ob (\<lambda>s. s)) (\<lambda>x. ObjectBlock_parts x False) m v ch ob rt (x, rt')"
    using kObjectBlock.IH[of False rt] kObjectBlock.prems by auto
  then show ?case
    by (intro exI[of _ "kObjectBlock x"] exI[of _ rt']) (simp add: finds_pair)
next
  case (kObjectBlockNOTEXIST ob)
  obtain x rt' where "ObjectBlock_symbolObjectReferences2 ob m v ch rt = Inr (x, rt')"
    "finds (ObjectBlock_each unplaced_ob (\<lambda>s. s)) (\<lambda>x. ObjectBlock_parts x True) m v ch ob rt (x, rt')"
    using kObjectBlockNOTEXIST.IH[of True rt] kObjectBlockNOTEXIST.prems by auto
  then show ?case
    by (intro exI[of _ "kObjectBlockNOTEXIST x"] exI[of _ rt']) (simp add: finds_pair)
next
  case (GapBlock g opt)
  have "inner_finds m v ch opt" using GapBlock.IH by (auto simp: inner_finds_def)
  moreover have "locatable m v (option_parts (map_option Blocks_parts opt))" using GapBlock.prems by simp
  ultimately obtain opt' rt' where
    "inner_references2 opt (map_option (\<lambda>f. f m v ch) (map_option Blocks_symbolObjectReferences2 opt)) rt = Inr (opt', rt')"
    "finds (map_option (Blocks_each unplaced_ob (\<lambda>s. s))) (\<lambda>x. option_parts (map_option Blocks_parts x)) m v ch opt rt (opt', rt')"
    using inner_references2_ok by blast
  then show ?case
    by (intro exI[of _ "GapBlock g opt'"] exI[of _ rt']) (simp add: finds_pair)
next
  case (ObjectBlock j opt)
  have "inner_finds m v ch opt" using ObjectBlock.IH by (auto simp: inner_finds_def)
  from ObjectBlock_finds[OF o this ObjectBlock.prems] show ?case .
next
  case (ObjectBlockString_one ob)
  obtain x rt' where "ObjectBlock_symbolObjectReferences2 ob m v ch rt = Inr (x, rt')"
    "finds (ObjectBlock_each unplaced_ob (\<lambda>s. s)) (\<lambda>x. ObjectBlock_parts x False) m v ch ob rt (x, rt')"
    using ObjectBlockString_one.IH[of False rt] ObjectBlockString_one.prems by auto
  then show ?case
    by (intro exI[of _ "ObjectBlockString_one x"] exI[of _ rt']) (simp add: finds_pair)
next
  case (ObjectBlockString_more obs ob)
  obtain x rt1 where 1: "ObjectBlockString_symbolObjectReferences2 obs m v ch rt = Inr (x, rt1)"
    "finds (ObjectBlockString_each unplaced_ob (\<lambda>s. s)) ObjectBlockString_parts m v ch obs rt (x, rt1)"
    using ObjectBlockString_more.IH(1)[of rt] ObjectBlockString_more.prems by auto
  obtain y rt2 where 2: "ObjectBlock_symbolObjectReferences2 ob m v ch rt1 = Inr (y, rt2)"
    "finds (ObjectBlock_each unplaced_ob (\<lambda>s. s)) (\<lambda>x. ObjectBlock_parts x False) m v ch ob rt1 (y, rt2)"
    using ObjectBlockString_more.IH(2)[of False rt1] ObjectBlockString_more.prems by auto
  have e: "extends rt rt1" "extends rt1 rt2" using 1(2) 2(2) by (simp_all add: finds_pair)
  have "located_parts m v ch rt2 (ObjectBlockString_parts x)" using 1(2) located_parts_extends[OF _ e(2)] by (simp add: finds_pair)
  with 1 2 extends_trans[OF e] show ?case
    by (intro exI[of _ "ObjectBlockString_more x y"] exI[of _ rt2]) (simp add: finds_pair)
qed

section \<open>From the visit of the names to the end\<close>

text \<open>The strings and object blocks of a query are its nodes.\<close>

lemma parts_nodes:
  "P_string n \<in> set (Blocks_parts bl) \<longleftrightarrow> (\<exists>h. kQNKBlockString2 n h \<in> set (Blocks_nodes bl))"
  "P_string n \<in> set (BlockString_parts bs) \<longleftrightarrow> (\<exists>h. kQNKBlockString2 n h \<in> set (BlockString_nodes bs))"
  "P_string n \<in> set (BlockString2_parts b2) \<longleftrightarrow> (\<exists>h. kQNKBlockString2 n h \<in> set (BlockString2_nodes b2))"
  "P_string n \<in> set (BlockString1_parts b1) \<longleftrightarrow> (\<exists>h. kQNKBlockString2 n h \<in> set (BlockString1_nodes b1))"
  "P_string n \<in> set (BlockString0_parts b0) \<longleftrightarrow> (\<exists>h. kQNKBlockString2 n h \<in> set (BlockString0_nodes b0))"
  "P_string n \<in> set (Block_parts bk) \<longleftrightarrow> (\<exists>h. kQNKBlockString2 n h \<in> set (Block_nodes bk))"
  "P_string n \<in> set (GapBlock_parts gb) \<longleftrightarrow> (\<exists>h. kQNKBlockString2 n h \<in> set (GapBlock_nodes gb))"
  "P_string n \<in> set (ObjectBlock_parts ob b) \<longleftrightarrow> (\<exists>h. kQNKBlockString2 n h \<in> set (ObjectBlock_nodes ob))"
  "P_string n \<in> set (ObjectBlockString_parts obs) \<longleftrightarrow> (\<exists>h. kQNKBlockString2 n h \<in> set (ObjectBlockString_nodes obs))"
proof (induction bl and bs and b2 and b1 and b0 and bk and gb and ob and obs
    arbitrary: and and and and and and and b and)
  case (GapBlock g opt)
  then show ?case by (cases opt) auto
next
  case (ObjectBlock j opt)
  then show ?case by (cases opt) (auto simp: ob_nodes_def split: option.splits)
qed auto

lemma objects_nodes:
  "P_object b i \<in> set (Blocks_parts bl) \<Longrightarrow> kQNKObjectBlock i \<in> set (Blocks_nodes bl)"
  "P_object b i \<in> set (BlockString_parts bs) \<Longrightarrow> kQNKObjectBlock i \<in> set (BlockString_nodes bs)"
  "P_object b i \<in> set (BlockString2_parts b2) \<Longrightarrow> kQNKObjectBlock i \<in> set (BlockString2_nodes b2)"
  "P_object b i \<in> set (BlockString1_parts b1) \<Longrightarrow> kQNKObjectBlock i \<in> set (BlockString1_nodes b1)"
  "P_object b i \<in> set (BlockString0_parts b0) \<Longrightarrow> kQNKObjectBlock i \<in> set (BlockString0_nodes b0)"
  "P_object b i \<in> set (Block_parts bk) \<Longrightarrow> kQNKObjectBlock i \<in> set (Block_nodes bk)"
  "P_object b i \<in> set (GapBlock_parts gb) \<Longrightarrow> kQNKObjectBlock i \<in> set (GapBlock_nodes gb)"
  "P_object b i \<in> set (ObjectBlock_parts ob d) \<Longrightarrow> kQNKObjectBlock i \<in> set (ObjectBlock_nodes ob)"
  "P_object b i \<in> set (ObjectBlockString_parts obs) \<Longrightarrow> kQNKObjectBlock i \<in> set (ObjectBlockString_nodes obs)"
proof (induction bl and bs and b2 and b1 and b0 and bk and gb and ob and obs
    arbitrary: and and and and and and and d and)
  case (GapBlock g opt)
  then show ?case by (cases opt) auto
next
  case (ObjectBlock j opt)
  then show ?case by (cases opt) (auto simp: ob_nodes_def)
qed auto

text \<open>A query with parents has its strings in order, and its constraints in strings of the query.\<close>

definition in_order :: "QueryNode list \<Rightarrow> part list \<Rightarrow> bool" where
  "in_order v ps \<longleftrightarrow> (\<forall>q\<in>set ps. case q of
     P_string n \<Rightarrow> bs2_parent n < bs2_node_number n \<and> within v (bs2_parent n)
   | P_object b ob \<Rightarrow> \<forall>c. ob_feature_constraints ob = Some c \<longrightarrow> within v (ffc_block_string2_parent c)
   | P_gap g \<Rightarrow> True)"

lemma in_order_simps [simp]:
  "in_order v []" "in_order v (ps @ qs) = (in_order v ps \<and> in_order v qs)" "in_order v (P_gap g # ps) = in_order v ps"
  "in_order v (P_string n # ps) = ((bs2_parent n < bs2_node_number n \<and> within v (bs2_parent n)) \<and> in_order v ps)"
  "in_order v (P_object b ob # ps) =
     ((\<forall>c. ob_feature_constraints ob = Some c \<longrightarrow> within v (ffc_block_string2_parent c)) \<and> in_order v ps)"
  by (auto simp: in_order_def)

lemma string_within: "kQNKBlockString2 n h \<in> set v \<Longrightarrow> within v (bs2_node_number n)"
  by (auto simp: within_def is_string_def)

lemma parented_in_order:
  "Blocks_parented bl p \<Longrightarrow> within v p \<Longrightarrow> set (Blocks_nodes bl) \<subseteq> set v \<Longrightarrow> in_order v (Blocks_parts bl)"
  "BlockString_parented bs p \<Longrightarrow> within v p \<Longrightarrow> set (BlockString_nodes bs) \<subseteq> set v \<Longrightarrow> in_order v (BlockString_parts bs)"
  "BlockString2_parented b2 p \<Longrightarrow> within v p \<Longrightarrow> set (BlockString2_nodes b2) \<subseteq> set v \<Longrightarrow> in_order v (BlockString2_parts b2)"
  "BlockString1_parented b1 p \<Longrightarrow> within v p \<Longrightarrow> set (BlockString1_nodes b1) \<subseteq> set v \<Longrightarrow> in_order v (BlockString1_parts b1)"
  "BlockString0_parented b0 p \<Longrightarrow> within v p \<Longrightarrow> set (BlockString0_nodes b0) \<subseteq> set v \<Longrightarrow> in_order v (BlockString0_parts b0)"
  "Block_parented bk p \<Longrightarrow> within v p \<Longrightarrow> set (Block_nodes bk) \<subseteq> set v \<Longrightarrow> in_order v (Block_parts bk)"
  "GapBlock_parented gb p \<Longrightarrow> within v p \<Longrightarrow> set (GapBlock_nodes gb) \<subseteq> set v \<Longrightarrow> in_order v (GapBlock_parts gb)"
  "ObjectBlock_parented ob p \<Longrightarrow> within v p \<Longrightarrow> set (ObjectBlock_nodes ob) \<subseteq> set v \<Longrightarrow> in_order v (ObjectBlock_parts ob b)"
  "ObjectBlockString_parented obs p \<Longrightarrow> within v p \<Longrightarrow> set (ObjectBlockString_nodes obs) \<subseteq> set v \<Longrightarrow>
     in_order v (ObjectBlockString_parts obs)"
proof (induction bl and bs and b2 and b1 and b0 and bk and gb and ob and obs
    arbitrary: p and p and p and p and p and p and p and b p and p)
  case (BlockString2_bs1 n b1)
  then show ?case using string_within[of n "getImmediateObjectBlock b1" v] BlockString2_bs1.IH[of "bs2_node_number n"]
    by (simp del: getImmediateObjectBlock.simps)
next
  case (BlockString2_seq n b1 b2)
  then show ?case using string_within[of n "getImmediateObjectBlock b1" v] BlockString2_seq.IH(1)[of "bs2_node_number n"]
      BlockString2_seq.IH(2)[of p] by (simp del: getImmediateObjectBlock.simps)
next
  case (GapBlock g opt)
  then show ?case by (cases opt) auto
next
  case (ObjectBlock j opt)
  then show ?case by (cases opt) (auto simp: ob_parented_def)
qed auto

lemma parented_ordered:
  assumes "Blocks_parented t (-1)" "indexed (Blocks_nodes t)"
  shows "ordered (Blocks_nodes t)" "in_order (Blocks_nodes t) (Blocks_parts t)"
proof -
  show i: "in_order (Blocks_nodes t) (Blocks_parts t)"
    using parented_in_order(1)[OF assms(1) _ subset_refl] by (simp add: within_def)
  have "bs2_parent n < bs2_node_number n \<and> (bs2_parent n = -1 \<or> is_string (Blocks_nodes t) (bs2_parent n))"
    if "kQNKBlockString2 n h \<in> set (Blocks_nodes t)" for n h
  proof -
    from that have "P_string n \<in> set (Blocks_parts t)" using parts_nodes(1) by blast
    with i show ?thesis by (fastforce simp: in_order_def within_def)
  qed
  with assms(2) show "ordered (Blocks_nodes t)" by (auto simp: ordered_def)
qed

text \<open>The strings to be searched depend only on the strings of a query.\<close>

lemma searched_strings:
  assumes "\<And>n. (\<exists>h. kQNKBlockString2 n h \<in> set v) \<longleftrightarrow> (\<exists>h. kQNKBlockString2 n h \<in> set v')"
  shows "searched v ch ORDs p = searched v' ch ORDs p"
proof -
  have e: "nested w a b \<longleftrightarrow> (\<exists>n. (\<exists>h. kQNKBlockString2 n h \<in> set w) \<and> bs2_parent n \<noteq> -1 \<and> a = bs2_node_number n \<and> b = bs2_parent n)"
    for w a b by (auto elim!: nestedE intro: nestedI)
  have n: "nested v = nested v'" by (intro ext) (simp only: e assms)
  have f: "is_string w a \<longleftrightarrow> (\<exists>n. (\<exists>h. kQNKBlockString2 n h \<in> set w) \<and> bs2_node_number n = a)" for w a
    by (auto simp: is_string_def)
  have "is_string v = is_string v'" by (intro ext) (simp only: f assms)
  then show ?thesis by (simp add: searched_def holds_def around_def n)
qed

lemma each_strings:
  "(\<exists>h. kQNKBlockString2 n h \<in> set (Blocks_nodes (Blocks_each f k t))) \<longleftrightarrow> (\<exists>h. kQNKBlockString2 n h \<in> set (Blocks_nodes t))"
proof -
  have "P_string n \<in> set (map (answer_part f) ps) \<longleftrightarrow> P_string n \<in> set ps" for ps
  proof -
    have "answer_part f q = P_string n \<longleftrightarrow> q = P_string n" for q by (cases q) simp_all
    then show ?thesis by (induction ps) (simp_all add: eq_commute[of "P_string n"])
  qed
  then show ?thesis unfolding parts_nodes(1)[symmetric] by (simp add: each_parts)
qed

lemma each_declared:
  assumes "keeps_names f"
  shows "declared_names (map (answer_part f) ps) = declared_names ps"
proof -
  have "declared_names [answer_part f q] = declared_names [q]" for q by (cases q) (simp_all add: keeps_names_simps[OF assms])
  then show ?thesis by (induction ps) (simp, metis declared_Cons list.simps(9))
qed

lemma each_children:
  assumes h: "keeps_names f"
  shows "Blocks_children (Blocks_each f k bl) = Blocks_children bl"
    "BlockString_children (BlockString_each f k bs) = BlockString_children bs"
    "BlockString2_children (BlockString2_each f k b2) = BlockString2_children b2"
    "BlockString1_children (BlockString1_each f k b1) = BlockString1_children b1"
    "BlockString0_children (BlockString0_each f k b0) = BlockString0_children b0"
    "Block_children (Block_each f k bk) = Block_children bk"
    "GapBlock_children (GapBlock_each f k gb) = GapBlock_children gb"
    "ObjectBlock_children (ObjectBlock_each f k ob) = ObjectBlock_children ob"
    "ObjectBlockString_children (ObjectBlockString_each f k obs) = ObjectBlockString_children obs"
proof (induction bl and bs and b2 and b1 and b0 and bk and gb and ob and obs)
  case (GapBlock g opt)
  then show ?case by (cases opt) auto
next
  case (ObjectBlock j opt)
  then show ?case by (cases opt) auto
qed (simp_all add: each_parts each_declared[OF h])

text \<open>A change of the object blocks, and what stays the same.\<close>

lemma each_objects:
  assumes "Blocks_each f k t' = Blocks_each f k t" "P_object b ob' \<in> set (Blocks_parts t')"
  obtains ob where "P_object b ob \<in> set (Blocks_parts t)" "f ob' = f ob"
proof -
  have "map (answer_part f) (Blocks_parts t') = map (answer_part f) (Blocks_parts t)" using assms(1) by (metis each_parts(1))
  moreover have "P_object b (f ob') \<in> set (map (answer_part f) (Blocks_parts t'))"
    using imageI[OF assms(2), of "answer_part f"] by simp
  ultimately have "P_object b (f ob') \<in> set (map (answer_part f) (Blocks_parts t))" by simp
  then obtain q where q: "q \<in> set (Blocks_parts t)" "answer_part f q = P_object b (f ob')" by auto
  from q(2) obtain ob where "q = P_object b ob" by (cases q) auto
  with q that show thesis by auto
qed

definition keeps_fields :: "(ObjectBlockInfo \<Rightarrow> ObjectBlockInfo) \<Rightarrow> bool" where
  "keeps_fields f \<longleftrightarrow> keeps_names f \<and> (\<forall>ob. ob_nn (f ob) = ob_nn ob)"

lemma fields_kept: "keeps_fields strip_ob" "keeps_fields unplaced_ob" "keeps_fields (with_retrievals rt)"
  by (simp_all add: keeps_fields_def keeps_names_def ob_nn_def strip_ob_def unplaced_ob_def with_retrievals_def Let_def)

lemma objects_kept:
  assumes "keeps_fields f" "Blocks_each f k t' = Blocks_each f k t" "P_object b ob \<in> set (Blocks_parts t)"
  obtains ob' where "P_object b ob' \<in> set (Blocks_parts t')" "ob_nn ob' = ob_nn ob"
    "ob_object_reference_lower ob' = ob_object_reference_lower ob"
proof -
  obtain ob' where "P_object b ob' \<in> set (Blocks_parts t')" "f ob = f ob'"
    using each_objects[OF assms(2)[symmetric] assms(3)] by blast
  with that assms(1) show thesis unfolding keeps_fields_def keeps_names_def by metis
qed

lemma unplaced_references:
  assumes "unplaced_constraint c' = unplaced_constraint c"
  shows "map unplaced (ffc_references c') = map unplaced (ffc_references c)" "ffc_block_string2_parent c' = ffc_block_string2_parent c"
proof -
  have "reference_of (unplaced_comparison fc) = map_option unplaced (reference_of fc)" for fc
    by (auto simp: reference_of_def unplaced_comparison_def split: option.splits Value.splits)
  then have r: "references_of (map unplaced_comparison fcs) = map unplaced (references_of fcs)" for fcs
    by (induction fcs) (auto simp: references_of_def List.map_filter_def split: option.splits)
  have m: "map unplaced (ffc_references x) = references_of (ff_comparisons (ffc_ffeatures (unplaced_constraint x)))" for x
    by (simp add: ffc_references_def unplaced_constraint_def each_comparisons r)
  show "map unplaced (ffc_references c') = map unplaced (ffc_references c)" by (simp only: m assms)
  show "ffc_block_string2_parent c' = ffc_block_string2_parent c"
    using arg_cong[OF assms, of ffc_block_string2_parent] by (simp add: unplaced_constraint_def)
qed

section \<open>The property of found references\<close>

text \<open>
  The block that a reference is to: it has the number and the name, the value's place in its table if the
  reference is from inside the block, and the value's place among its retrieved features.
\<close>

definition finds_block :: "part list \<Rightarrow> ObjectReferenceUsage \<Rightarrow> bool" where
  "finds_block ps r \<longleftrightarrow> (\<exists>b ob. P_object b ob \<in> set ps \<and> ob_nn ob = oru_ControllingObjectBlock r \<and>
     ob_object_reference_lower ob = oru_object_reference r \<and>
     (oru_ORDIsParent r \<longrightarrow> is_at (ob_object ob) (oru_FeatureIndexInMQLObject r) (oru_feature_name r)) \<and>
     is_at (map ft_name (ob_Feature_retrieval_vec ob)) (oru_FeatureIndexInMatchedObject r) (oru_feature_name r))"

text \<open>The strings of a query that hold a name.\<close>

definition names_inside :: "Blocks \<Rightarrow> int \<Rightarrow> string set" where
  "names_inside t nn = {s. (nn, s) \<in> Blocks_children t}"

definition finds_straw :: "Blocks \<Rightarrow> FeatureConstraint \<Rightarrow> bool" where
  "finds_straw t c \<longleftrightarrow>
     set (ffc_BlockString2List c) = searched (Blocks_nodes t) (names_inside t) (straw_names c) (ffc_block_string2_parent c) \<and>
     (\<forall>r\<in>set (ffc_references c). \<not> oru_ORDIsParent r \<longrightarrow>
       (\<exists>nn\<in>set (ffc_BlockString2List c). oru_object_reference r \<in> names_inside t nn) \<longrightarrow>
       0 \<le> oru_MatchedObjectIndex r \<and> nat (oru_MatchedObjectIndex r) < length (ffc_OBBs c) \<and>
       ffc_OBBs c ! nat (oru_MatchedObjectIndex r) = oru_ControllingObjectBlock r)"

lemma same_children:
  assumes "Blocks_each f k t' = Blocks_each f k t" "keeps_names f"
  shows "names_inside t' = names_inside t"
  using each_children(1)[OF assms(2)] assms(1) by (metis names_inside_def ext)

lemma same_strings:
  assumes "Blocks_each f k t' = Blocks_each f k t"
  shows "(\<exists>h. kQNKBlockString2 n h \<in> set (Blocks_nodes t')) \<longleftrightarrow> (\<exists>h. kQNKBlockString2 n h \<in> set (Blocks_nodes t))"
  using each_strings[of n f k t'] each_strings[of n f k t] assms by simp

lemma used_in_constraint:
  "r \<in> set (used_references ps) \<longleftrightarrow> (\<exists>b ob c. P_object b ob \<in> set ps \<and> ob_feature_constraints ob = Some c \<and> r \<in> set (ffc_references c))"
proof -
  have "r \<in> set (ob_references ob) \<longleftrightarrow> (\<exists>c. ob_feature_constraints ob = Some c \<and> r \<in> set (ffc_references c))" for ob
    by (cases "ob_feature_constraints ob") (simp_all add: ob_references_def ob_comparisons_def ffc_references_def)
  moreover have "r \<in> set (used_references ps) \<longleftrightarrow> (\<exists>b ob. P_object b ob \<in> set ps \<and> r \<in> set (ob_references ob))"
    by (force simp: used_references_def split: part.splits)
  ultimately show ?thesis by blast
qed

lemma unplaced_ob_same:
  assumes "unplaced_ob ob = unplaced_ob ob'"
  shows "map unplaced (ob_references ob) = map unplaced (ob_references ob')"
    "map_option ffc_hasNonParentORUs (ob_feature_constraints ob) = map_option ffc_hasNonParentORUs (ob_feature_constraints ob')"
proof -
  have c: "map_option unplaced_constraint (ob_feature_constraints ob) = map_option unplaced_constraint (ob_feature_constraints ob')"
    using arg_cong[OF assms, of ob_feature_constraints] by (simp add: unplaced_ob_def)
  show "map unplaced (ob_references ob) = map unplaced (ob_references ob')"
  proof (cases "ob_feature_constraints ob")
    case None
    with c show ?thesis by (simp add: ob_references_def ob_comparisons_def)
  next
    case (Some x)
    with c obtain y where y: "ob_feature_constraints ob' = Some y" "unplaced_constraint x = unplaced_constraint y"
      by (cases "ob_feature_constraints ob'") auto
    from unplaced_references(1)[OF y(2)] Some y(1) show ?thesis
      by (simp add: ob_references_def ob_comparisons_def ffc_references_def)
  qed
  have f: "ffc_hasNonParentORUs (unplaced_constraint x) = ffc_hasNonParentORUs x" for x by (simp add: unplaced_constraint_def)
  then have "map_option ffc_hasNonParentORUs p = map_option ffc_hasNonParentORUs (map_option unplaced_constraint p)" for p
    by (cases p) simp_all
  then show "map_option ffc_hasNonParentORUs (ob_feature_constraints ob) = map_option ffc_hasNonParentORUs (ob_feature_constraints ob')"
    using c by metis
qed

lemma unplaced_used:
  assumes "Blocks_each unplaced_ob k t' = Blocks_each unplaced_ob k t"
  shows "map unplaced (used_references (Blocks_parts t')) = map unplaced (used_references (Blocks_parts t))"
proof -
  note ob = unplaced_ob_same(1)
  have e: "map (answer_part unplaced_ob) (Blocks_parts t') = map (answer_part unplaced_ob) (Blocks_parts t)"
    using assms by (metis each_parts(1))
  have one: "map unplaced (used_references [p]) = map unplaced (used_references [q])"
    if "answer_part unplaced_ob p = answer_part unplaced_ob q" for p q
  proof (cases p)
    case (P_object b x)
    with that obtain y where "q = P_object b y" "unplaced_ob x = unplaced_ob y" by (cases q) simp_all
    with ob[of x y] P_object show ?thesis by simp
  qed (use that in \<open>cases q; simp\<close>)+
  have "map unplaced (used_references ps) = map unplaced (used_references qs)"
    if "map (answer_part unplaced_ob) ps = map (answer_part unplaced_ob) qs" for ps qs
    using that
  proof (induction ps arbitrary: qs)
    case (Cons p ps)
    then obtain q qs' where q: "qs = q # qs'" "answer_part unplaced_ob p = answer_part unplaced_ob q"
      "map (answer_part unplaced_ob) ps = map (answer_part unplaced_ob) qs'" by (cases qs) simp_all
    have "used_references (x # xs) = used_references [x] @ used_references xs" for x xs
      by (simp add: used_references_def)
    then show ?case using Cons.IH[OF q(3)] one[OF q(2)] unfolding q(1) by (metis map_append)
  qed simp
  from this[OF e] show ?thesis .
qed

lemma retrievals_keep: "ob_feature_constraints (with_retrievals rt ob) = ob_feature_constraints ob"
  by (simp add: with_retrievals_def Let_def)

lemma written_parts:
  "P_object b ob' \<in> set (Blocks_parts (Blocks_each f k t)) \<longleftrightarrow> (\<exists>ob. P_object b ob \<in> set (Blocks_parts t) \<and> ob' = f ob)"
proof -
  have "answer_part f q = P_object b ob' \<longleftrightarrow> (\<exists>ob. q = P_object b ob \<and> ob' = f ob)" for q by (cases q) auto
  then show ?thesis unfolding each_parts(1) set_map image_iff by (metis (no_types, lifting))
qed

text \<open>The visit of the references makes a query ready for the last visit.\<close>

lemma visited_locatable:
  assumes "indexed (Blocks_nodes t2)" "Blocks_parented t2 (-1)" "fresh_references (Blocks_parts t2)"
    "Blocks_each strip_ob k t3 = Blocks_each strip_ob k t2"
    "\<And>r. r \<in> set (used_references (Blocks_parts t3)) \<Longrightarrow>
      \<exists>b ob. P_object b ob \<in> set (Blocks_parts t2) \<and> ob_nn ob = ord_node m (oru_object_reference r)"
  shows "locatable m (Blocks_nodes t2) (Blocks_parts t3)"
proof -
  let ?v = "Blocks_nodes t2"
  have "within ?v (ffc_block_string2_parent c) \<and> (\<forall>r\<in>set (ffc_references c). object_known m ?v r) \<and> ffc_BlockString2List c = []"
    if p: "P_object b ob \<in> set (Blocks_parts t3)" and c: "ob_feature_constraints ob = Some c" for b ob c
  proof -
    obtain ob2 where o: "P_object b ob2 \<in> set (Blocks_parts t2)" "strip_ob ob = strip_ob ob2" by (rule each_objects[OF assms(4) p])
    from arg_cong[OF o(2), of ob_feature_constraints] c obtain c2 where c2: "ob_feature_constraints ob2 = Some c2"
      "strip_constraint c = strip_constraint c2" by (cases "ob_feature_constraints ob2") (auto simp: strip_ob_def)
    have s: "ffc_block_string2_parent c = ffc_block_string2_parent c2" "ffc_BlockString2List c = ffc_BlockString2List c2"
      using arg_cong[OF c2(2), of ffc_block_string2_parent] arg_cong[OF c2(2), of ffc_BlockString2List]
      by (simp_all add: strip_constraint_def)
    have "within ?v (ffc_block_string2_parent c2)"
      using parented_ordered(2)[OF assms(2,1)] o(1) c2(1) by (fastforce simp: in_order_def)
    moreover have "ffc_BlockString2List c2 = []" using assms(3) o(1) c2(1) by (fastforce simp: fresh_references_def)
    moreover have "object_known m ?v r" if "r \<in> set (ffc_references c)" for r
    proof -
      have "r \<in> set (used_references (Blocks_parts t3))" using p c that used_in_constraint by blast
      from assms(5)[OF this] obtain b' ob' where b: "P_object b' ob' \<in> set (Blocks_parts t2)" "ob_nn ob' = ord_node m (oru_object_reference r)"
        by blast
      from indexed_node(1)[OF assms(1) objects_nodes(1)[OF b(1)]] b(2) show ?thesis by (auto simp: object_known_def)
    qed
    ultimately show ?thesis using s by auto
  qed
  then show ?thesis by (auto simp: locatable_def split: part.splits)
qed

lemma names_returned:
  assumes "Topograph_weed t c weed_start = Inr (t1, st1)" "ws_bResult st1" "parsed (Blocks_parts t)" "Blocks_stars t bounds_ok_range"
  shows "\<exists>t2 m ok. Blocks_symbol t1 db Map.empty = Inr (t2, m, ok)"
proof -
  note w = weeded_names[OF assms(1-3)]
  have "Blocks_stars t1 range_ok" using placed_stars(1)[OF w(2)] assms(4) erased_same(6)[OF w(1)] by simp
  from names_visited(1)[OF this, of db Map.empty] show ?thesis by blast
qed

lemma written_used: "used_references (Blocks_parts (Blocks_each (with_retrievals rt) k t)) = used_references (Blocks_parts t)"
proof -
  have "keeps_uses (with_retrievals rt)"
    using fields_kept(3)[of rt] by (simp add: keeps_uses_def keeps_fields_def ob_references_def ob_comparisons_def retrievals_keep)
  from each_uses(1)[OF this, of k t] uses_parts(1)[of "Blocks_each (with_retrievals rt) k t" "{}" "{}"] uses_parts(1)[of t "{}" "{}"]
  show ?thesis by simp
qed

lemma resolved_names:
  assumes "map unplaced rs = map unplaced (map (resolve m) us)"
  shows "map (\<lambda>r. (oru_object_reference r, oru_ORDIsParent r)) rs =
    map (\<lambda>(r, S, H). (oru_object_reference r, oru_object_reference r \<in> H)) us"
  using assms
proof (induction rs arbitrary: us)
  case (Cons r rs)
  then obtain r0 S H vs where u: "us = (r0, S, H) # vs" "unplaced r = unplaced (resolve m (r0, S, H))"
    "map unplaced rs = map unplaced (map (resolve m) vs)" by (cases us) auto
  from unplaced_same_fields(1,2)[OF u(2)] Cons.IH[OF u(3)] u(1) show ?case by (simp add: resolve_def)
qed simp

lemma found_block:
  assumes "r \<in> set (used_references (Blocks_parts (Blocks_each (with_retrievals rt) k t4)))"
    "map unplaced (used_references (Blocks_parts (Blocks_each (with_retrievals rt) k t4))) = map unplaced (map (resolve m) us)"
    "\<And>u. u \<in> set us \<Longrightarrow> \<exists>b ob. P_object b ob \<in> set (Blocks_parts t2) \<and> ob_nn ob = ord_node m (oru_object_reference (fst u)) \<and>
       ob_object_reference_lower ob = oru_object_reference (fst u)"
    "Blocks_each strip_ob k3 t3 = Blocks_each strip_ob k3 t2" "Blocks_each unplaced_ob k4 t4 = Blocks_each unplaced_ob k4 t3"
    "located_parts m v ch rt (Blocks_parts t4)" "\<forall>u\<in>set us. lowered (oru_object_reference (fst u))"
  shows "finds_block (Blocks_parts (Blocks_each (with_retrievals rt) k t4)) r \<and>
    oru_ControllingObjectBlock r = ord_node m (oru_object_reference r) \<and> lowered (oru_object_reference r)"
proof -
  have "unplaced r \<in> set (map unplaced (map (resolve m) us))" using imageI[OF assms(1), of unplaced] by (simp only: set_map assms(2)[symmetric])
  then obtain u where u: "u \<in> set us" "unplaced r = unplaced (resolve m u)" by auto
  obtain r0 S H where p: "u = (r0, S, H)" by (cases u)
  have n: "oru_object_reference r = oru_object_reference r0" "oru_ControllingObjectBlock r = ord_node m (oru_object_reference r)"
    using unplaced_same_fields(1,3)[OF u(2)] by (simp_all add: p resolve_def)
  from assms(3)[OF u(1)] obtain b ob2 where o2: "P_object b ob2 \<in> set (Blocks_parts t2)"
    "ob_nn ob2 = ord_node m (oru_object_reference r)" "ob_object_reference_lower ob2 = oru_object_reference r"
    by (auto simp: p n(1))
  obtain ob3 where o3: "P_object b ob3 \<in> set (Blocks_parts t3)" "ob_nn ob3 = ob_nn ob2"
    "ob_object_reference_lower ob3 = ob_object_reference_lower ob2" by (rule objects_kept[OF fields_kept(1) assms(4) o2(1)])
  obtain ob4 where o4: "P_object b ob4 \<in> set (Blocks_parts t4)" "ob_nn ob4 = ob_nn ob3"
    "ob_object_reference_lower ob4 = ob_object_reference_lower ob3" by (rule objects_kept[OF fields_kept(2) assms(5) o3(1)])
  let ?ob = "with_retrievals rt ob4"
  have nn: "ob_nn ob4 = ord_node m (oru_object_reference r)" using o4(2) o3(2) o2(2) by simp
  have w: "ob_object ?ob = rt_object rt (ob_nn ob4)" "ob_Feature_retrieval_vec ?ob = rt_Feature_retrieval_vec rt (ob_nn ob4)"
    "ob_nn ?ob = ob_nn ob4" "ob_object_reference_lower ?ob = ob_object_reference_lower ob4"
    by (simp_all add: with_retrievals_def Let_def ob_nn_def)
  have "r \<in> set (used_references (Blocks_parts t4))" using assms(1) by (simp only: written_used)
  then obtain b' ob' c where c: "P_object b' ob' \<in> set (Blocks_parts t4)" "ob_feature_constraints ob' = Some c" "r \<in> set (ffc_references c)"
    using used_in_constraint by blast
  then have "constraint_located m v ch rt c" using assms(6) by (fastforce simp: located_parts_def)
  then have l: "located m rt r" using c(3) by (simp add: constraint_located_def)
  have "P_object b ?ob \<in> set (Blocks_parts (Blocks_each (with_retrievals rt) k t4))" using o4(1) written_parts by blast
  moreover have "ob_nn ?ob = oru_ControllingObjectBlock r" "ob_object_reference_lower ?ob = oru_object_reference r"
    using w(3,4) nn n(2) o4(3) o3(3) o2(3) by simp_all
  moreover have "oru_ORDIsParent r \<longrightarrow> is_at (ob_object ?ob) (oru_FeatureIndexInMQLObject r) (oru_feature_name r)"
    "is_at (map ft_name (ob_Feature_retrieval_vec ?ob)) (oru_FeatureIndexInMatchedObject r) (oru_feature_name r)"
    using l by (simp_all add: located_def Let_def w(1,2) nn)
  ultimately show ?thesis using n assms(7) u(1) by (auto simp: finds_block_def p)
qed

lemma found_straw:
  assumes "searched (Blocks_nodes t) = searched v" "constraint_located m v (names_inside t) rt c"
    "\<And>r. r \<in> set (ffc_references c) \<Longrightarrow>
       oru_ControllingObjectBlock r = ord_node m (oru_object_reference r) \<and> lowered (oru_object_reference r)"
  shows "finds_straw t c"
proof -
  have "hasORDChild (names_inside t) nn (oru_object_reference r) \<longleftrightarrow> oru_object_reference r \<in> names_inside t nn"
    if "r \<in> set (ffc_references c)" for r nn using assms(3)[OF that] by (simp add: hasORDChild_def lowered_def)
  then show ?thesis using assms unfolding finds_straw_def constraint_located_def by simp
qed


text \<open>The second and the third visit of an accepted query.\<close>

lemma values_placed:
  assumes "Topograph_weed t c weed_start = Inr (t1, st1)" "ws_bResult st1" "parsed (Blocks_parts t)"
    "fresh_references (Blocks_parts t)" "\<forall>r\<in>set (used_references (Blocks_parts t)). lowered (oru_object_reference r)"
    "Blocks_stars t bounds_ok_range" "Blocks_symbol t1 db Map.empty = Inr (t2, m, True)"
    "Blocks_symbolObjectReferences t2 m (Blocks_nodes t2) no_references = Inr (t3, rs, True)"
  obtains t4 rt where "Blocks_each strip_ob (\<lambda>s. s) t3 = Blocks_each strip_ob (\<lambda>s. s) t2"
    "used_references (Blocks_parts t3) = map (resolve m) (Blocks_uses t {} {})" "references_flagged (Blocks_parts t3)"
    "Blocks_symbolObjectReferences2 t3 m (Blocks_nodes t2) (rs_ORD_children rs) (retrievals_of (Blocks_nodes t2)) = Inr (t4, rt)"
    "Blocks_each unplaced_ob (\<lambda>s. s) t4 = Blocks_each unplaced_ob (\<lambda>s. s) t3"
    "located_parts m (Blocks_nodes t2) (names_inside t2) rt (Blocks_parts t4)"
    "\<And>u. u \<in> set (Blocks_uses t {} {}) \<Longrightarrow> \<exists>b ob. P_object b ob \<in> set (Blocks_parts t2) \<and>
       ob_nn ob = ord_node m (oru_object_reference (fst u)) \<and> ob_object_reference_lower ob = oru_object_reference (fst u)"
proof -
  note q = named_query[OF assms(1-7)]
  let ?v = "Blocks_nodes t2" and ?u = "Blocks_uses t {} {}"
  from references_visited(1)[OF surroundings_top q(2) subset_refl q(3) q(5) q(1), of no_references] assms(8)
  have 3: "visited (Blocks_each strip_ob (\<lambda>s. s)) Blocks_parts Blocks_exports Blocks_uses Blocks_children m {} {} t2 no_references (t3, rs, True)"
    by auto
  have e3: "Blocks_each strip_ob (\<lambda>s. s) t3 = Blocks_each strip_ob (\<lambda>s. s) t2" and fl: "references_flagged (Blocks_parts t3)"
    and u3: "used_references (Blocks_parts t3) = map (resolve m) ?u" and ch: "rs_ORD_children rs = names_inside t2"
    using 3 q(4) unfolding visited_triple by (auto simp: no_references_def inside_def names_inside_def)
  have decl: "\<exists>b ob. P_object b ob \<in> set (Blocks_parts t2) \<and> ob_nn ob = ord_node m (oru_object_reference (fst u)) \<and>
      ob_object_reference_lower ob = oru_object_reference (fst u)" if "u \<in> set ?u" for u
    using q(6)[of "fst u"] that uses_parts(1)[of t2 "{}" "{}"] q(4) by (metis imageI set_map)
  have l: "locatable m ?v (Blocks_parts t3)"
  proof (rule visited_locatable[OF q(1-3) e3])
    fix r assume "r \<in> set (used_references (Blocks_parts t3))"
    then obtain u where "u \<in> set ?u" "r = resolve m u" by (auto simp: u3)
    with decl[of u] show "\<exists>b ob. P_object b ob \<in> set (Blocks_parts t2) \<and> ob_nn ob = ord_node m (oru_object_reference r)"
      by (auto simp: resolve_def split: prod.splits)
  qed
  obtain t4 rt where 4: "Blocks_symbolObjectReferences2 t3 m ?v (rs_ORD_children rs) (retrievals_of ?v) = Inr (t4, rt)"
    "Blocks_each unplaced_ob (\<lambda>s. s) t4 = Blocks_each unplaced_ob (\<lambda>s. s) t3"
    "located_parts m ?v (names_inside t2) rt (Blocks_parts t4)"
    using references_found(1)[OF parented_ordered(1)[OF q(2,1)] l, of "rs_ORD_children rs" "retrievals_of ?v"]
    by (auto simp: finds_pair ch)
  show thesis by (rule that[OF e3 u3 fl 4 decl])
qed

text \<open>C11: The values of references are found. Take a query as the grammar makes it that weeding accepts. The phase of the names,
  all three visits of it, always returns, and it accepts iff its first visit does and every reference is in scope.
  If it accepts, every reference has the number of the block that declares its name,
  and the places of its feature in that block's table, if it is nested in a string that starts with the
  block, and among its retrieved features; the constraints of a block search for the others in the outermost strings that hold one of their names and are not around them; and each reference
  whose name is in such a string has the place of its block in the solutions.\<close>

theorem references_point_to_features:
  assumes "Topograph_weed t c weed_start = Inr (t1, st1)" "ws_bResult st1" "parsed (Blocks_parts t)"
    "fresh_references (Blocks_parts t)" "\<forall>r\<in>set (used_references (Blocks_parts t)). lowered (oru_object_reference r)"
    "Blocks_stars t bounds_ok_range"
  shows "\<exists>t' ok. Topograph_symbol t1 db Map.empty = Inr (t', ok) \<and>
    ok = ((\<exists>t2 m. Blocks_symbol t1 db Map.empty = Inr (t2, m, True)) \<and> (\<forall>u\<in>set (Blocks_uses t {} {}). in_scope u)) \<and> (ok \<longrightarrow>
    map (\<lambda>r. (oru_object_reference r, oru_ORDIsParent r)) (used_references (Blocks_parts t')) =
      map (\<lambda>(r, S, H). (oru_object_reference r, oru_object_reference r \<in> H)) (Blocks_uses t {} {}) \<and>
    (\<forall>r\<in>set (used_references (Blocks_parts t')). finds_block (Blocks_parts t') r) \<and>
    (\<forall>b ob k. P_object b ob \<in> set (Blocks_parts t') \<longrightarrow> ob_feature_constraints ob = Some k \<longrightarrow> finds_straw t' k))"
proof -
  obtain t2 m ok0 where 2: "Blocks_symbol t1 db Map.empty = Inr (t2, m, ok0)"
    using names_returned[OF assms(1-3,6)] by blast
  show ?thesis
  proof (cases ok0)
    case False
    with 2 show ?thesis by (intro exI[of _ t2] exI[of _ False]) (simp add: Topograph_symbol_def)
  next
    case True
    with 2 have s2: "Blocks_symbol t1 db Map.empty = Inr (t2, m, True)" by simp
    note q = named_query[OF assms(1-6) s2]
    let ?v = "Blocks_nodes t2" and ?u = "Blocks_uses t {} {}"
    from references_visited(1)[OF surroundings_top q(2) subset_refl q(3) q(5) q(1), of no_references]
    obtain t3 rs ok where 3: "Blocks_symbolObjectReferences t2 m ?v no_references = Inr (t3, rs, ok)"
      "visited (Blocks_each strip_ob (\<lambda>s. s)) Blocks_parts Blocks_exports Blocks_uses Blocks_children m {} {} t2 no_references (t3, rs, ok)"
      by blast
    have scope: "ok = (\<forall>u\<in>set ?u. in_scope u)"
      using 3(2) q(4) unfolding visited_triple by (simp add: no_references_def inside_def)
    show ?thesis
    proof (cases ok)
      case False
      with 2 True 3(1) scope show ?thesis by (intro exI[of _ t3] exI[of _ False]) (simp add: Topograph_symbol_def)
    next
      case t: True
      from 3(1) t have s3: "Blocks_symbolObjectReferences t2 m ?v no_references = Inr (t3, rs, True)" by simp
      obtain t4 rt where e3: "Blocks_each strip_ob (\<lambda>s. s) t3 = Blocks_each strip_ob (\<lambda>s. s) t2"
        and u3: "used_references (Blocks_parts t3) = map (resolve m) ?u"
        and 4: "Blocks_symbolObjectReferences2 t3 m ?v (rs_ORD_children rs) (retrievals_of ?v) = Inr (t4, rt)"
          "Blocks_each unplaced_ob (\<lambda>s. s) t4 = Blocks_each unplaced_ob (\<lambda>s. s) t3"
          "located_parts m ?v (names_inside t2) rt (Blocks_parts t4)"
        and decl: "\<And>u. u \<in> set ?u \<Longrightarrow> \<exists>b ob. P_object b ob \<in> set (Blocks_parts t2) \<and>
          ob_nn ob = ord_node m (oru_object_reference (fst u)) \<and> ob_object_reference_lower ob = oru_object_reference (fst u)"
        by (rule values_placed[OF assms(1-6) s2 s3]) (rule that; assumption)
      let ?t = "Blocks_each (with_retrievals rt) (\<lambda>s. s) t4"
      have r: "Topograph_symbol t1 db Map.empty = Inr (?t, True)" using 2 True 3(1) t 4(1) by (simp add: Topograph_symbol_def)
      have u4: "map unplaced (used_references (Blocks_parts ?t)) = map unplaced (map (resolve m) ?u)"
        using unplaced_used[OF 4(2)] by (simp add: u3 written_used)
      have inside: "names_inside ?t = names_inside t2"
      proof -
        have "names_inside ?t = names_inside t4"
          using each_children(1)[of "with_retrievals rt" "\<lambda>s. s" t4] fields_kept(3)[of rt]
          by (simp add: keeps_fields_def names_inside_def fun_eq_iff)
        also have "\<dots> = names_inside t3" using same_children[OF 4(2)] fields_kept(2) by (simp add: keeps_fields_def)
        also have "\<dots> = names_inside t2" using same_children[OF e3] fields_kept(1) by (simp add: keeps_fields_def)
        finally show ?thesis .
      qed
      have found: "finds_block (Blocks_parts ?t) r \<and> oru_ControllingObjectBlock r = ord_node m (oru_object_reference r) \<and>
          lowered (oru_object_reference r)" if "r \<in> set (used_references (Blocks_parts ?t))" for r
        by (rule found_block[OF that u4 decl e3 4(2,3)]) (use assms(5) in \<open>simp_all flip: uses_parts(1)[of t "{}" "{}"]\<close>)
      have "finds_straw ?t k" if h: "P_object b ob \<in> set (Blocks_parts ?t)" "ob_feature_constraints ob = Some k" for b ob k
      proof (rule found_straw)
        show "searched (Blocks_nodes ?t) = searched ?v"
          by (intro ext searched_strings) (simp add: each_strings same_strings[OF 4(2)] same_strings[OF e3])
        obtain ob4 where o: "P_object b ob4 \<in> set (Blocks_parts t4)" "ob = with_retrievals rt ob4" 
          using h(1) written_parts by blast
        from h(2) have "ob_feature_constraints ob4 = Some k" by (simp add: o(2) retrievals_keep)
        from bspec[OF 4(3)[unfolded located_parts_def] o(1)] this show "constraint_located m ?v (names_inside ?t) rt k"
          unfolding inside by simp
        fix r assume "r \<in> set (ffc_references k)"
        then have "r \<in> set (used_references (Blocks_parts ?t))" using h used_in_constraint by blast
        with found show "oru_ControllingObjectBlock r = ord_node m (oru_object_reference r) \<and> lowered (oru_object_reference r)" by blast
      qed
      then show ?thesis using r scope t s2 found resolved_names[OF u4] by blast
    qed
  qed
qed

theorem references_point_to_features_witness:
  "\<exists>t1 st1 t'. Topograph_weed demo_names (\<lambda>_. True) weed_start = Inr (t1, st1) \<and> Topograph_symbol t1 yes_db Map.empty = Inr (t', True) \<and>
     map oru_ORDIsParent (used_references (Blocks_parts t')) = [True, False] \<and>
     (\<forall>r\<in>set (used_references (Blocks_parts t')). finds_block (Blocks_parts t') r)"
proof -
  obtain t1 st1 where w: "Topograph_weed demo_names (\<lambda>_. True) weed_start = Inr (t1, st1)" "ws_bResult st1" by (rule demo_names_weeds)
  obtain t2 m where s: "Blocks_symbol t1 yes_db Map.empty = Inr (t2, m, True)" by (rule demo_names_accepted[OF w])
  have sc: "\<forall>u\<in>set (Blocks_uses demo_names {} {}). in_scope u" by (simp add: demo_names_parts(9) in_scope_def demo_use_def)
  from references_point_to_features[OF w demo_names_parts(2) demo_names_fresh demo_names_parts(5), of yes_db]
  obtain t' ok where r: "Topograph_symbol t1 yes_db Map.empty = Inr (t', ok)"
    "ok = ((\<exists>t2 m. Blocks_symbol t1 yes_db Map.empty = Inr (t2, m, True)) \<and> (\<forall>u\<in>set (Blocks_uses demo_names {} {}). in_scope u))"
    "ok \<longrightarrow> map (\<lambda>r. (oru_object_reference r, oru_ORDIsParent r)) (used_references (Blocks_parts t')) =
      map (\<lambda>(r, S, H). (oru_object_reference r, oru_object_reference r \<in> H)) (Blocks_uses demo_names {} {}) \<and>
    (\<forall>r\<in>set (used_references (Blocks_parts t')). finds_block (Blocks_parts t') r)"
    by (elim exE conjE) (rule that, assumption, assumption, rule impI, drule (1) mp, elim conjE, intro conjI, assumption+)
  have ok: "ok" unfolding r(2) using s sc by blast
  with r(1) have y: "Topograph_symbol t1 yes_db Map.empty = Inr (t', True)" by simp
  have "map oru_ORDIsParent (used_references (Blocks_parts t')) =
      map snd (map (\<lambda>r. (oru_object_reference r, oru_ORDIsParent r)) (used_references (Blocks_parts t')))" by simp
  also have "\<dots> = [True, False]" using mp[OF r(3) ok] by (simp only:) (simp add: demo_names_parts(9) demo_use_def)
  finally have p: "map oru_ORDIsParent (used_references (Blocks_parts t')) = [True, False]" .
  show ?thesis
    by (rule exI[of _ t1], rule exI[of _ st1], rule exI[of _ t'], intro conjI, rule w(1), rule y, rule p, rule mp[OF r(3) ok, THEN conjunct2])
qed

end
