(* ===== verification/Phases_Props.thy ===== *)
theory Phases_Props
  imports Located_Props
begin

text \<open>
  All phases of a query together: weeding, the names, the answers of the database, type-checking, the
  copies of the blocks, and the engine. What the engine needs of references and stars is what the phase
  of the names establishes; it is carried through the phases that follow.
\<close>

section \<open>References to blocks around them\<close>

text \<open>
  Every reference of a block is to the block itself or to one around it (\<open>E\<close> has their numbers), no
  constraint needs the straw, and the stars have their sets.
\<close>

definition ob_fit :: "int set \<Rightarrow> ObjectBlockInfo \<Rightarrow> bool" where
  "ob_fit E ob \<longleftrightarrow> (\<forall>k. ob_feature_constraints ob = Some k \<longrightarrow> \<not> ffc_hasNonParentORUs k) \<and>
     (\<forall>r\<in>set (ob_references ob). oru_ORDIsParent r \<and> oru_ControllingObjectBlock r \<in> E)"

primrec Blocks_fit :: "Blocks \<Rightarrow> int set \<Rightarrow> bool"
and BlockString_fit :: "BlockString \<Rightarrow> int set \<Rightarrow> bool"
and BlockString2_fit :: "BlockString2 \<Rightarrow> int set \<Rightarrow> bool"
and BlockString1_fit :: "BlockString1 \<Rightarrow> int set \<Rightarrow> bool"
and BlockString0_fit :: "BlockString0 \<Rightarrow> int set \<Rightarrow> bool"
and Block_fit :: "Block \<Rightarrow> int set \<Rightarrow> bool"
and GapBlock_fit :: "GapBlock \<Rightarrow> int set \<Rightarrow> bool"
and ObjectBlock_fit :: "ObjectBlock \<Rightarrow> int set \<Rightarrow> bool"
and ObjectBlockString_fit :: "ObjectBlockString \<Rightarrow> int set \<Rightarrow> bool" where
  "Blocks_fit (Blocks_string bs ur) E = BlockString_fit bs E"
| "Blocks_fit (Blocks_unordered obs) E = ObjectBlockString_fit obs E"
| "BlockString_fit (BlockString_bs2 b2) E = BlockString2_fit b2 E"
| "BlockString_fit (BlockString_or b2 bs) E = (BlockString2_fit b2 E \<and> BlockString_fit bs E)"
| "BlockString2_fit (BlockString2_bs1 n b1) E = BlockString1_fit b1 E"
| "BlockString2_fit (BlockString2_seq n b1 b2) E = (BlockString1_fit b1 E \<and> BlockString2_fit b2 E)"
| "BlockString1_fit (BlockString1_bs0 b0) E = BlockString0_fit b0 E"
| "BlockString1_fit (BlockString1_star b0 mse som) E = (BlockString0_fit b0 E \<and> monadsBuildSet mse SetOfMonads_empty = Inr som)"
| "BlockString0_fit (BlockString0_block b) E = Block_fit b E"
| "BlockString0_fit (BlockString0_string bs) E = BlockString_fit bs E"
| "Block_fit (kOptGapBlock g) E = GapBlock_fit g E"
| "Block_fit (kGapBlock g) E = GapBlock_fit g E"
| "Block_fit (kPowerBlock p) E = True"
| "Block_fit (kObjectBlock ob) E = ObjectBlock_fit ob E"
| "Block_fit (kObjectBlockNOTEXIST ob) E = ObjectBlock_fit ob E"
| "GapBlock_fit (GapBlock g opt_blocks) E = pred_option (\<lambda>f. f E) (map_option Blocks_fit opt_blocks)"
| "ObjectBlock_fit (ObjectBlock ob opt_blocks) E = (ob_fit (insert (ob_nn ob) E) ob \<and>
     pred_option (\<lambda>f. f (insert (ob_nn ob) E)) (map_option Blocks_fit opt_blocks))"
| "ObjectBlockString_fit (ObjectBlockString_one ob) E = ObjectBlock_fit ob E"
| "ObjectBlockString_fit (ObjectBlockString_more obs ob) E = (ObjectBlockString_fit obs E \<and> ObjectBlock_fit ob E)"

text \<open>The stars alone.\<close>

primrec Blocks_built :: "Blocks \<Rightarrow> bool"
and BlockString_built :: "BlockString \<Rightarrow> bool"
and BlockString2_built :: "BlockString2 \<Rightarrow> bool"
and BlockString1_built :: "BlockString1 \<Rightarrow> bool"
and BlockString0_built :: "BlockString0 \<Rightarrow> bool"
and Block_built :: "Block \<Rightarrow> bool"
and GapBlock_built :: "GapBlock \<Rightarrow> bool"
and ObjectBlock_built :: "ObjectBlock \<Rightarrow> bool"
and ObjectBlockString_built :: "ObjectBlockString \<Rightarrow> bool" where
  "Blocks_built (Blocks_string bs ur) = BlockString_built bs"
| "Blocks_built (Blocks_unordered obs) = ObjectBlockString_built obs"
| "BlockString_built (BlockString_bs2 b2) = BlockString2_built b2"
| "BlockString_built (BlockString_or b2 bs) = (BlockString2_built b2 \<and> BlockString_built bs)"
| "BlockString2_built (BlockString2_bs1 n b1) = BlockString1_built b1"
| "BlockString2_built (BlockString2_seq n b1 b2) = (BlockString1_built b1 \<and> BlockString2_built b2)"
| "BlockString1_built (BlockString1_bs0 b0) = BlockString0_built b0"
| "BlockString1_built (BlockString1_star b0 mse som) = (BlockString0_built b0 \<and> monadsBuildSet mse SetOfMonads_empty = Inr som)"
| "BlockString0_built (BlockString0_block b) = Block_built b"
| "BlockString0_built (BlockString0_string bs) = BlockString_built bs"
| "Block_built (kOptGapBlock g) = GapBlock_built g"
| "Block_built (kGapBlock g) = GapBlock_built g"
| "Block_built (kPowerBlock p) = True"
| "Block_built (kObjectBlock ob) = ObjectBlock_built ob"
| "Block_built (kObjectBlockNOTEXIST ob) = ObjectBlock_built ob"
| "GapBlock_built (GapBlock g opt_blocks) = pred_option (\<lambda>x. x) (map_option Blocks_built opt_blocks)"
| "ObjectBlock_built (ObjectBlock ob opt_blocks) = pred_option (\<lambda>x. x) (map_option Blocks_built opt_blocks)"
| "ObjectBlockString_built (ObjectBlockString_one ob) = ObjectBlock_built ob"
| "ObjectBlockString_built (ObjectBlockString_more obs ob) = (ObjectBlockString_built obs \<and> ObjectBlock_built ob)"

lemma each_built:
  "Blocks_built (Blocks_each h (\<lambda>s. s) bl) = Blocks_built bl"
  "BlockString_built (BlockString_each h (\<lambda>s. s) bs) = BlockString_built bs"
  "BlockString2_built (BlockString2_each h (\<lambda>s. s) b2) = BlockString2_built b2"
  "BlockString1_built (BlockString1_each h (\<lambda>s. s) b1) = BlockString1_built b1"
  "BlockString0_built (BlockString0_each h (\<lambda>s. s) b0) = BlockString0_built b0"
  "Block_built (Block_each h (\<lambda>s. s) bk) = Block_built bk"
  "GapBlock_built (GapBlock_each h (\<lambda>s. s) gb) = GapBlock_built gb"
  "ObjectBlock_built (ObjectBlock_each h (\<lambda>s. s) ob) = ObjectBlock_built ob"
  "ObjectBlockString_built (ObjectBlockString_each h (\<lambda>s. s) obs) = ObjectBlockString_built obs"
proof (induction bl and bs and b2 and b1 and b0 and bk and gb and ob and obs)
  case (GapBlock g opt)
  then show ?case by (cases opt) auto
next
  case (ObjectBlock j opt)
  then show ?case by (cases opt) auto
qed simp_all

text \<open>The visit of the names builds the sets of the stars.\<close>

lemma map_changed_ok: "map_changed f r = Inr (x', m', ok) \<longleftrightarrow> (\<exists>y. r = Inr (y, m', ok) \<and> x' = f y)"
  by (auto simp: map_changed_def bind_res_Inr_iff)

lemma symbols_then:
  "bind_res r (\<lambda>(x, m1, ok). if \<not> ok then Inr (h x, m1, ok) else k x m1) = Inr (x', m', True) \<longleftrightarrow>
     (\<exists>y m1. r = Inr (y, m1, True) \<and> k y m1 = Inr (x', m', True))"
  by (auto simp: bind_res_Inr_iff split: if_splits)

lemma inner_symbol_built:
  assumes "inner_symbol opt (map_option (\<lambda>f. f db) (map_option Blocks_symbol opt)) m = Inr (opt', m', True)"
    "\<And>x m x' m'. opt = Some x \<Longrightarrow> Blocks_symbol x db m = Inr (x', m', True) \<Longrightarrow> Blocks_built x'"
  shows "pred_option (\<lambda>x. x) (map_option Blocks_built opt')"
  using assms by (cases opt) (auto simp: inner_symbol_def map_changed_ok)

lemma symbol_built:
  "Blocks_symbol bl db m = Inr (bl', m', True) \<Longrightarrow> Blocks_built bl'"
  "BlockString_symbol bs db m = Inr (bs', m', True) \<Longrightarrow> BlockString_built bs'"
  "BlockString2_symbol b2 db m = Inr (b2', m', True) \<Longrightarrow> BlockString2_built b2'"
  "BlockString1_symbol b1 db m = Inr (b1', m', True) \<Longrightarrow> BlockString1_built b1'"
  "BlockString0_symbol b0 db m = Inr (b0', m', True) \<Longrightarrow> BlockString0_built b0'"
  "Block_symbol bk db m = Inr (bk', m', True) \<Longrightarrow> Block_built bk'"
  "GapBlock_symbol gb db m = Inr (gb', m', True) \<Longrightarrow> GapBlock_built gb'"
  "ObjectBlock_symbol ob db m = Inr (ob', m', True) \<Longrightarrow> ObjectBlock_built ob'"
  "ObjectBlockString_symbol obs db m = Inr (obs', m', True) \<Longrightarrow> ObjectBlockString_built obs'"
proof (induction bl and bs and b2 and b1 and b0 and bk and gb and ob and obs
    arbitrary: m bl' m' and m bs' m' and m b2' m' and m b1' m' and m b0' m' and m bk' m' and m gb' m' and m ob' m' and m obs' m')
  case (BlockString1_star b0 mse som)
  then show ?case by (auto simp: bind_res_Inr_iff map_changed_ok)
next
  case (GapBlock g opt)
  obtain opt' where o: "gb' = GapBlock g opt'"
    "inner_symbol opt (map_option (\<lambda>f. f db) (map_option Blocks_symbol opt)) m = Inr (opt', m', True)"
    using GapBlock.prems by (auto simp: map_changed_ok)
  from inner_symbol_built[OF o(2) GapBlock.IH] show ?case by (simp add: o(1))
next
  case (ObjectBlock j opt)
  obtain j' opt' m1 where o: "ob' = ObjectBlock j' opt'"
    "inner_symbol opt (map_option (\<lambda>f. f db) (map_option Blocks_symbol opt)) m1 = Inr (opt', m', True)"
    using ObjectBlock.prems by (auto simp: ObjectBlock_symbol_info_def Let_def bind_res_Inr_iff map_changed_ok split: if_splits)
  from inner_symbol_built[OF o(2) ObjectBlock.IH] show ?case by (simp add: o(1))
qed (auto simp: map_changed_ok symbols_then simp del: ObjectBlock_symbol.simps GapBlock_symbol.simps)

section \<open>From the names to the blocks around\<close>

text \<open>What the visits of the names leave in the blocks, if no reference needs the straw.\<close>

definition named_right :: "ORDMap \<Rightarrow> part list \<Rightarrow> bool" where
  "named_right m ps \<longleftrightarrow> (\<forall>b ob. P_object b ob \<in> set ps \<longrightarrow>
     (ob_object_reference_lower ob \<noteq> [] \<longrightarrow> ord_node m (ob_object_reference_lower ob) = ob_nn ob) \<and>
     (\<forall>k. ob_feature_constraints ob = Some k \<longrightarrow> \<not> ffc_hasNonParentORUs k) \<and>
     (\<forall>r\<in>set (ob_references ob). oru_object_reference r \<noteq> [] \<and> oru_ORDIsParent r \<and>
        oru_ControllingObjectBlock r = ord_node m (oru_object_reference r)))"

lemma named_right_simps [simp]:
  "named_right m []" "named_right m (ps @ qs) = (named_right m ps \<and> named_right m qs)"
  "named_right m (P_string n # ps) = named_right m ps" "named_right m (P_gap g # ps) = named_right m ps"
  "named_right m (P_object b ob # ps) = (((ob_object_reference_lower ob \<noteq> [] \<longrightarrow> ord_node m (ob_object_reference_lower ob) = ob_nn ob) \<and>
     (\<forall>k. ob_feature_constraints ob = Some k \<longrightarrow> \<not> ffc_hasNonParentORUs k) \<and>
     (\<forall>r\<in>set (ob_references ob). oru_object_reference r \<noteq> [] \<and> oru_ORDIsParent r \<and>
        oru_ControllingObjectBlock r = ord_node m (oru_object_reference r))) \<and> named_right m ps)"
  by (fastforce simp: named_right_def)+

definition parents_only :: "use list \<Rightarrow> bool" where
  "parents_only us \<longleftrightarrow> (\<forall>(r, S, H)\<in>set us. oru_object_reference r \<in> H)"

lemma parents_only_simps [simp]:
  "parents_only []" "parents_only (us @ vs) = (parents_only us \<and> parents_only vs)"
  "parents_only (map (\<lambda>r. (r, S, H)) rs) = (\<forall>r\<in>set rs. oru_object_reference r \<in> H)"
  by (simp_all add: parents_only_def ball_Un)

definition heads_in :: "ORDMap \<Rightarrow> string set \<Rightarrow> int set \<Rightarrow> bool" where
  "heads_in m H E \<longleftrightarrow> (\<forall>s\<in>H. s \<noteq> [] \<longrightarrow> ord_node m s \<in> E)"

definition head_number :: "ObjectBlockInfo option \<Rightarrow> int set" where
  "head_number p = (case p of None \<Rightarrow> {} | Some ob \<Rightarrow> {ob_nn ob})"

lemma heads_mono: "heads_in m H E \<Longrightarrow> E \<subseteq> F \<Longrightarrow> heads_in m H F"
  by (auto simp: heads_in_def)

lemma head_right:
  assumes "named_right m (BlockString1_parts b1)" "heads_in m H E"
  shows "heads_in m (H \<union> head_name (getImmediateObjectBlock b1)) (E \<union> head_number (getImmediateObjectBlock b1))"
proof -
  have "s \<noteq> [] \<longrightarrow> ord_node m s \<in> head_number (getImmediateObjectBlock b1)" if "s \<in> head_name (getImmediateObjectBlock b1)" for s
  proof -
    from that obtain ob where o: "getImmediateObjectBlock b1 = Some ob" "s = ob_object_reference_lower ob"
      by (auto simp: head_name_def split: option.splits)
    have i: "P_object b (ob_info x) \<in> set (ObjectBlock_parts x b)" for x b by (cases x) simp
    have p: "BlockString1_parts b1 = BlockString0_parts (getBlockString0 b1)" by (cases b1) simp_all
    have "\<exists>b. P_object b ob \<in> set (BlockString1_parts b1)" using o(1) i by (auto simp: p split: BlockString0.splits Block.splits)
    with assms(1) o show ?thesis by (auto simp: named_right_def head_number_def)
  qed
  with assms(2) show ?thesis by (auto simp: heads_in_def)
qed

lemma own_and_around: "heads_in m H (insert n E) \<Longrightarrow> \<forall>r\<in>set (ob_references ob). oru_object_reference r \<in> H \<Longrightarrow>
    named_right m [P_object b ob] \<Longrightarrow> ob_fit (insert n E) ob"
  by (auto simp: ob_fit_def heads_in_def)

lemma names_fit:
  "parents_only (Blocks_uses bl S H) \<Longrightarrow> named_right m (Blocks_parts bl) \<Longrightarrow> Blocks_built bl \<Longrightarrow> heads_in m H E \<Longrightarrow> Blocks_fit bl E"
  "parents_only (BlockString_uses bs S H) \<Longrightarrow> named_right m (BlockString_parts bs) \<Longrightarrow> BlockString_built bs \<Longrightarrow> heads_in m H E \<Longrightarrow>
     BlockString_fit bs E"
  "parents_only (BlockString2_uses b2 S H) \<Longrightarrow> named_right m (BlockString2_parts b2) \<Longrightarrow> BlockString2_built b2 \<Longrightarrow>
     heads_in m H E \<Longrightarrow> BlockString2_fit b2 E"
  "parents_only (BlockString1_uses b1 S H) \<Longrightarrow> named_right m (BlockString1_parts b1) \<Longrightarrow> BlockString1_built b1 \<Longrightarrow>
     heads_in m H (E \<union> head_number (getImmediateObjectBlock b1)) \<Longrightarrow> BlockString1_fit b1 E"
  "parents_only (BlockString0_uses b0 S H) \<Longrightarrow> named_right m (BlockString0_parts b0) \<Longrightarrow> BlockString0_built b0 \<Longrightarrow>
     heads_in m H (E \<union> head_number (getImmediateObjectBlock (BlockString1_bs0 b0))) \<Longrightarrow> BlockString0_fit b0 E"
  "parents_only (Block_uses bk S H) \<Longrightarrow> named_right m (Block_parts bk) \<Longrightarrow> Block_built bk \<Longrightarrow>
     heads_in m H (E \<union> head_number (getImmediateObjectBlock (BlockString1_bs0 (BlockString0_block bk)))) \<Longrightarrow> Block_fit bk E"
  "parents_only (GapBlock_uses gb S H) \<Longrightarrow> named_right m (GapBlock_parts gb) \<Longrightarrow> GapBlock_built gb \<Longrightarrow> heads_in m H E \<Longrightarrow> GapBlock_fit gb E"
  "parents_only (ObjectBlock_uses ob S H) \<Longrightarrow> named_right m (ObjectBlock_parts ob b) \<Longrightarrow> ObjectBlock_built ob \<Longrightarrow>
     heads_in m H (insert (ob_nn (ob_info ob)) E) \<Longrightarrow> ObjectBlock_fit ob E"
  "parents_only (ObjectBlockString_uses obs S H) \<Longrightarrow> named_right m (ObjectBlockString_parts obs) \<Longrightarrow> ObjectBlockString_built obs \<Longrightarrow>
     heads_in m H E \<Longrightarrow> ObjectBlockString_fit obs E"
proof (induction bl and bs and b2 and b1 and b0 and bk and gb and ob and obs
    arbitrary: S H E and S H E and S H E and S H E and S H E and S H E and S H E and S H E b and S H E)
  case (BlockString2_bs1 n b1)
  then have "named_right m (BlockString1_parts b1)" by simp
  from head_right[OF this BlockString2_bs1.prems(4)] BlockString2_bs1 show ?case by (simp del: getImmediateObjectBlock.simps)
next
  case (BlockString2_seq n b1 b2)
  then have "named_right m (BlockString1_parts b1)" by simp
  from head_right[OF this BlockString2_seq.prems(4)] BlockString2_seq.IH(1) BlockString2_seq.IH(2)[OF _ _ _ BlockString2_seq.prems(4)]
    BlockString2_seq.prems show ?case by (simp del: getImmediateObjectBlock.simps) blast
next
  case (GapBlock g opt)
  then show ?case by (cases opt) auto
next
  case (ObjectBlock j opt)
  have "ob_fit (insert (ob_nn j) E) j"
    by (rule own_and_around[of m H _ _ _ b]) (use ObjectBlock.prems in \<open>simp_all add: Let_def\<close>)
  moreover have "Blocks_fit x (insert (ob_nn j) E)" if "opt = Some x" for x
    by (rule ObjectBlock.IH[where S = "S \<union> set (ob_names j)" and H = H]) (use ObjectBlock.prems that in \<open>simp_all add: Let_def\<close>)
  ultimately show ?case by (cases opt) simp_all
next
  case (kObjectBlock ob)
  show ?case using kObjectBlock.IH[of S H False E] kObjectBlock.prems by (simp add: head_number_def)
next
  case (kObjectBlockNOTEXIST ob)
  show ?case using kObjectBlockNOTEXIST.IH[of S H True E] kObjectBlockNOTEXIST.prems by (simp add: head_number_def)
next
  case (BlockString_or b2 bs)
  show ?case using BlockString_or.IH(1)[of S H E] BlockString_or.IH(2)[of S H E] BlockString_or.prems by simp
next
  case (ObjectBlockString_one ob)
  show ?case using ObjectBlockString_one.IH[of S H False E] ObjectBlockString_one.prems by (auto intro: heads_mono)
next
  case (ObjectBlockString_more obs ob)
  show ?case using ObjectBlockString_more.IH(1)[of S H E] ObjectBlockString_more.IH(2)[of S H False E] ObjectBlockString_more.prems
    by (auto intro: heads_mono)
qed (simp_all add: head_number_def)

section \<open>Through the other phases\<close>

text \<open>What the database answers after the visits of the names leaves the resolved references alone.\<close>

definition answers_types :: "(ObjectBlockInfo \<Rightarrow> ObjectBlockInfo) \<Rightarrow> bool" where
  "answers_types h \<longleftrightarrow> answers_only h \<and> (\<forall>ob.
     map (\<lambda>r. (oru_ControllingObjectBlock r, oru_ORDIsParent r)) (ob_references (h ob)) =
       map (\<lambda>r. (oru_ControllingObjectBlock r, oru_ORDIsParent r)) (ob_references ob) \<and>
     map_option ffc_hasNonParentORUs (ob_feature_constraints (h ob)) = map_option ffc_hasNonParentORUs (ob_feature_constraints ob))"

lemma answered_ob_fit:
  assumes "answers_types h"
  shows "ob_fit E (h ob) = ob_fit E ob" "ob_nn (h ob) = ob_nn ob"
proof -
  let ?f = "\<lambda>r. (oru_ControllingObjectBlock r, oru_ORDIsParent r)"
  have "map ?f (ob_references (h ob)) = map ?f (ob_references ob)" using assms unfolding answers_types_def by blast
  from arg_cong[OF this, of set] have i: "?f ` set (ob_references (h ob)) = ?f ` set (ob_references ob)" by (simp only: set_map)
  have bb: "(\<forall>r\<in>set xs. P (?f r)) = (\<forall>y\<in>?f ` set xs. P y)" for P xs by (simp only: ball_simps)
  have r: "(\<forall>r\<in>set (ob_references (h ob)). P (?f r)) = (\<forall>r\<in>set (ob_references ob). P (?f r))" for P
    unfolding bb i ..
  have f: "map_option ffc_hasNonParentORUs (ob_feature_constraints (h ob)) = map_option ffc_hasNonParentORUs (ob_feature_constraints ob)"
    using assms by (simp add: answers_types_def)
  then have "(\<forall>k. ob_feature_constraints (h ob) = Some k \<longrightarrow> \<not> ffc_hasNonParentORUs k) =
      (\<forall>k. ob_feature_constraints ob = Some k \<longrightarrow> \<not> ffc_hasNonParentORUs k)"
    by (cases "ob_feature_constraints (h ob)"; cases "ob_feature_constraints ob") simp_all
  with r[of "\<lambda>(n, p). p \<and> n \<in> E"] show "ob_fit E (h ob) = ob_fit E ob" by (simp add: ob_fit_def)
  show "ob_nn (h ob) = ob_nn ob" using assms by (simp add: answers_types_def answers_only_def)
qed

lemma answer_fit:
  assumes h: "answers_types h"
  shows "Blocks_fit (Blocks_answer h bl) E = Blocks_fit bl E"
    "BlockString_fit (BlockString_answer h bs) E = BlockString_fit bs E"
    "BlockString2_fit (BlockString2_answer h b2) E = BlockString2_fit b2 E"
    "BlockString1_fit (BlockString1_answer h b1) E = BlockString1_fit b1 E"
    "BlockString0_fit (BlockString0_answer h b0) E = BlockString0_fit b0 E"
    "Block_fit (Block_answer h bk) E = Block_fit bk E"
    "GapBlock_fit (GapBlock_answer h gb) E = GapBlock_fit gb E"
    "ObjectBlock_fit (ObjectBlock_answer h ob) E = ObjectBlock_fit ob E"
    "ObjectBlockString_fit (ObjectBlockString_answer h obs) E = ObjectBlockString_fit obs E"
proof (induction bl and bs and b2 and b1 and b0 and bk and gb and ob and obs
    arbitrary: E and E and E and E and E and E and E and E and E)
  case (GapBlock g opt)
  then show ?case by (cases opt) auto
next
  case (ObjectBlock j opt)
  then show ?case by (cases opt) (auto simp: answered_ob_fit[OF h])
qed simp_all

lemma typed_ob_fit: "object_typed (b, ob) (b', ob') \<Longrightarrow> ob_fit E ob' = ob_fit E ob \<and> ob_nn ob' = ob_nn ob"
  by (auto simp: object_typed_def ob_fit_def ob_references_def ob_comparisons_unaffected ob_nn_unaffected)

lemma insert_gap_fit: "BlockString2_fit (insert_gap rng n b1 b2) E \<longleftrightarrow> BlockString1_fit b1 E \<and> BlockString2_fit b2 E"
  by (simp add: insert_gap_def Let_def inserted_gap_def)

lemma type_fit:
  "Blocks_type bl column rng True = Inr (bl', True, True) \<Longrightarrow> Blocks_fit bl E \<Longrightarrow> Blocks_fit bl' E"
  "BlockString_type bs column rng True = Inr (bs', True, True) \<Longrightarrow> BlockString_fit bs E \<Longrightarrow> BlockString_fit bs' E"
  "BlockString2_type b2 column rng True = Inr (b2', True, True) \<Longrightarrow> BlockString2_fit b2 E \<Longrightarrow> BlockString2_fit b2' E"
  "BlockString1_type b1 column rng True = Inr (b1', True, True) \<Longrightarrow> BlockString1_fit b1 E \<Longrightarrow> BlockString1_fit b1' E"
  "BlockString0_type b0 column rng True = Inr (b0', True, True) \<Longrightarrow> BlockString0_fit b0 E \<Longrightarrow> BlockString0_fit b0' E"
  "Block_type bk column rng True = Inr (bk', True, True) \<Longrightarrow> Block_fit bk E \<Longrightarrow> Block_fit bk' E"
  "GapBlock_type gb column True = Inr (gb', True, True) \<Longrightarrow> GapBlock_fit gb E \<Longrightarrow> GapBlock_fit gb' E"
  "ObjectBlock_type ob column True = Inr (ob', True, True) \<Longrightarrow> ObjectBlock_fit ob E \<Longrightarrow> ObjectBlock_fit ob' E"
  "ObjectBlockString_type obs column True = Inr (obs', True, True) \<Longrightarrow> ObjectBlockString_fit obs E \<Longrightarrow> ObjectBlockString_fit obs' E"
proof (induction bl and bs and b2 and b1 and b0 and bk and gb and ob and obs
    arbitrary: rng bl' E and rng bs' E and rng b2' E and rng b1' E and rng b0' E and rng bk' E and gb' E and ob' E and obs' E)
  case (BlockString2_bs1 n b1)
  then show ?case unfolding BlockString2_type_ok by auto
next
  case (BlockString2_seq n b1 b2)
  then show ?case unfolding BlockString2_type_ok by (auto simp: insert_gap_fit)
next
  case (GapBlock g opt)
  obtain opt1 where o: "gb' = GapBlock g opt1"
    "inner_type opt (map_option (\<lambda>f. f column) (map_option Blocks_type opt)) kORTSingleRange True = Inr (opt1, True, True)"
    using GapBlock_type_ok[OF GapBlock.prems(1)] by blast
  show ?case using inner_type_ok[OF o(2)] GapBlock.IH GapBlock.prems(2) by (cases opt; cases opt1) (auto simp: o(1))
next
  case (ObjectBlock j opt)
  obtain j' opt1 where o: "ob' = ObjectBlock j' opt1" "object_typed (False, j) (False, j')"
    "inner_type opt (map_option (\<lambda>f. f column) (map_option Blocks_type opt)) (ob_objectRangeType j) True = Inr (opt1, True, True)"
    using ObjectBlock_type_ok[OF ObjectBlock.prems(1), of False] by blast
  from inner_type_ok[OF o(3)] ObjectBlock.IH ObjectBlock.prems(2) typed_ob_fit[OF o(2)] show ?case
    by (cases opt; cases opt1) (auto simp: o(1))
qed (auto simp: typed_map_ok typed_end_ok typed_then_ok simp del: ObjectBlock_type.simps GapBlock_type.simps)

lemma addOBB_fit:
  "Blocks_fit (fst (Blocks_addOBBToVec bl v)) E = Blocks_fit bl E"
  "BlockString_fit (fst (BlockString_addOBBToVec bs v)) E = BlockString_fit bs E"
  "BlockString2_fit (fst (BlockString2_addOBBToVec b2 v)) E = BlockString2_fit b2 E"
  "BlockString1_fit (fst (BlockString1_addOBBToVec b1 v)) E = BlockString1_fit b1 E"
  "BlockString0_fit (fst (BlockString0_addOBBToVec b0 v)) E = BlockString0_fit b0 E"
  "Block_fit (fst (Block_addOBBToVec bk v)) E = Block_fit bk E"
  "GapBlock_fit (fst (GapBlock_addOBBToVec gb v)) E = GapBlock_fit gb E"
  "ObjectBlock_fit (fst (ObjectBlock_addOBBToVec ob v)) E = ObjectBlock_fit ob E"
  "ObjectBlockString_fit (fst (ObjectBlockString_addOBBToVec obs v)) E = ObjectBlockString_fit obs E"
proof (induction bl and bs and b2 and b1 and b0 and bk and gb and ob and obs
    arbitrary: v E and v E and v E and v E and v E and v E and v E and v E and v E)
  case (GapBlock g opt)
  then show ?case by (cases opt) (auto simp: inner_OBB_def Let_def case_prod_unfold)
next
  case (ObjectBlock j opt)
  have "ob_fit F (j\<lparr>ob_pOBB := p\<rparr>) = ob_fit F j" for F p by (simp add: ob_fit_def ob_references_def ob_comparisons_unaffected)
  with ObjectBlock.IH show ?case by (cases opt) (simp_all add: inner_OBB_def Let_def case_prod_unfold ob_nn_unaffected)
qed (simp_all add: Let_def case_prod_unfold)

section \<open>Loaded queries are well-formed\<close>

text \<open>
  What the checks do not look at, block by block: the data that the database gave for it, and for the
  features its constraints refer to, is of the kinds that the types say; limits of power blocks and bounds of stars are
  in range; and what the reference semantics leaves out is not there.
\<close>

definition ob_loaded :: "schema \<Rightarrow> MQLExecEnv \<Rightarrow> ObjectBlockInfo \<Rightarrow> bool" where
  "ob_loaded K ee ob \<longleftrightarrow>
     (let nn = ob_nn ob
      in length (ee_MQLObject ee nn) = length (K nn) \<and> length (ob_object ob) = length (K nn) \<and>
         (\<exists>i. ob_inst ob = Some i \<and> inst_ok ee (K nn) i) \<and> msrc_operation (ob_MSRC ob) \<noteq> kMSROOverlap \<and>
         (\<forall>fc\<in>set (ob_comparisons ob). fc_parsed fc \<and> fc_symbols fc \<and> \<not> type_gap fc \<and> \<not> som_in_list fc \<and>
            0 \<le> fc_feature_index fc \<and> nat (fc_feature_index fc) < length (K nn) \<and>
            type_kind (fc_output_type fc) = Some (K nn ! nat (fc_feature_index fc))) \<and>
         (\<forall>r\<in>set (ob_references ob). let ks = K (oru_ControllingObjectBlock r); i = oru_FeatureIndexInMQLObject r
            in 0 \<le> i \<and> nat i < length ks \<and> type_kind (oru_OutputFeatureTypeId r) = Some (ks ! nat i)))"

primrec Blocks_loaded :: "Blocks \<Rightarrow> schema \<Rightarrow> MQLExecEnv \<Rightarrow> bool"
and BlockString_loaded :: "BlockString \<Rightarrow> schema \<Rightarrow> MQLExecEnv \<Rightarrow> bool"
and BlockString2_loaded :: "BlockString2 \<Rightarrow> schema \<Rightarrow> MQLExecEnv \<Rightarrow> bool"
and BlockString1_loaded :: "BlockString1 \<Rightarrow> schema \<Rightarrow> MQLExecEnv \<Rightarrow> bool"
and BlockString0_loaded :: "BlockString0 \<Rightarrow> schema \<Rightarrow> MQLExecEnv \<Rightarrow> bool"
and Block_loaded :: "Block \<Rightarrow> schema \<Rightarrow> MQLExecEnv \<Rightarrow> bool"
and GapBlock_loaded :: "GapBlock \<Rightarrow> schema \<Rightarrow> MQLExecEnv \<Rightarrow> bool"
and ObjectBlock_loaded :: "ObjectBlock \<Rightarrow> schema \<Rightarrow> MQLExecEnv \<Rightarrow> bool"
and ObjectBlockString_loaded :: "ObjectBlockString \<Rightarrow> schema \<Rightarrow> MQLExecEnv \<Rightarrow> bool" where
  "Blocks_loaded (Blocks_string bs ur) K ee = (ur = None \<and> BlockString_loaded bs K ee)"
| "Blocks_loaded (Blocks_unordered obs) K ee = ObjectBlockString_loaded obs K ee"
| "BlockString_loaded (BlockString_bs2 b2) K ee = BlockString2_loaded b2 K ee"
| "BlockString_loaded (BlockString_or b2 bs) K ee = (BlockString2_loaded b2 K ee \<and> BlockString_loaded bs K ee)"
| "BlockString2_loaded (BlockString2_bs1 n b1) K ee = BlockString1_loaded b1 K ee"
| "BlockString2_loaded (BlockString2_seq n b1 b2) K ee = (BlockString1_loaded b1 K ee \<and> BlockString2_loaded b2 K ee)"
| "BlockString1_loaded (BlockString1_bs0 b0) K ee = BlockString0_loaded b0 K ee"
| "BlockString1_loaded (BlockString1_star b0 mse som) K ee =
     (BlockString0_loaded b0 K ee \<and> mse \<noteq> [] \<and> (\<forall>(a, b)\<in>set mse. 0 \<le> a \<and> b \<le> MAX_MONAD))"
| "BlockString0_loaded (BlockString0_block b) K ee = Block_loaded b K ee"
| "BlockString0_loaded (BlockString0_string bs) K ee = BlockString_loaded bs K ee"
| "Block_loaded (kOptGapBlock g) K ee = GapBlock_loaded g K ee"
| "Block_loaded (kGapBlock g) K ee = GapBlock_loaded g K ee"
| "Block_loaded (kPowerBlock p) K ee = power_ok p"
| "Block_loaded (kObjectBlock ob) K ee = ObjectBlock_loaded ob K ee"
| "Block_loaded (kObjectBlockNOTEXIST ob) K ee = ObjectBlock_loaded ob K ee"
| "GapBlock_loaded (GapBlock g opt_blocks) K ee = pred_option (\<lambda>f. f K ee) (map_option Blocks_loaded opt_blocks)"
| "ObjectBlock_loaded (ObjectBlock ob opt_blocks) K ee =
     (ob_loaded K ee ob \<and> pred_option (\<lambda>f. f K ee) (map_option Blocks_loaded opt_blocks))"
| "ObjectBlockString_loaded (ObjectBlockString_one ob) K ee = ObjectBlock_loaded ob K ee"
| "ObjectBlockString_loaded (ObjectBlockString_more obs ob) K ee = (ObjectBlockString_loaded obs K ee \<and> ObjectBlock_loaded ob K ee)"

definition knows :: "schema \<Rightarrow> tyenv \<Rightarrow> int set \<Rightarrow> bool" where
  "knows K \<Gamma> E \<longleftrightarrow> (\<forall>nn\<in>E. \<Gamma> nn = Some (K nn))"

lemma knows_insert: "knows K \<Gamma> E \<Longrightarrow> knows K (\<Gamma>(nn \<mapsto> K nn)) (insert nn E)"
  by (simp add: knows_def)

lemma fit_answered_ob:
  assumes "ob_loaded K ee ob" "ob_fit (insert (ob_nn ob) E) ob" "knows K \<Gamma> E"
  shows "ob_answered K ee \<Gamma> ob"
proof -
  let ?G = "\<Gamma>(ob_nn ob \<mapsto> K (ob_nn ob))"
  note k = knows_insert[OF assms(3), of "ob_nn ob"]
  have "value_kind ?G (kValObjectReferenceUsage r) = type_kind (oru_OutputFeatureTypeId r)" if "r \<in> set (ob_references ob)" for r
  proof -
    have "oru_ORDIsParent r" "oru_ControllingObjectBlock r \<in> insert (ob_nn ob) E" using assms(2) that by (simp_all add: ob_fit_def)
    moreover from this k have "?G (oru_ControllingObjectBlock r) = Some (K (oru_ControllingObjectBlock r))" unfolding knows_def by blast
    ultimately show ?thesis using assms(1) that by (simp add: ob_loaded_def Let_def del: fun_upd_apply)
  qed
  moreover have "r \<in> set (ob_references ob)" if "fc \<in> set (ob_comparisons ob)" "fc_value fc = Some (kValObjectReferenceUsage r)" for fc r
    using that by (force simp: ob_references_def references_of_def List.map_filter_def reference_of_def)
  ultimately have "fc_scoped ?G (ob_nn ob) fc" if "fc \<in> set (ob_comparisons ob)" for fc
    using assms(1) that by (auto simp: fc_scoped_def ob_loaded_def Let_def simp del: value_kind.simps split: option.splits Value.splits)
  with assms(1,2) show ?thesis by (simp add: ob_answered_def ob_loaded_def ob_fit_def Let_def)
qed

lemma fit_answered:
  "Blocks_loaded bl K ee \<Longrightarrow> Blocks_fit bl E \<Longrightarrow> knows K \<Gamma> E \<Longrightarrow> Blocks_answered bl K ee \<Gamma>"
  "BlockString_loaded bs K ee \<Longrightarrow> BlockString_fit bs E \<Longrightarrow> knows K \<Gamma> E \<Longrightarrow> BlockString_answered bs K ee \<Gamma>"
  "BlockString2_loaded b2 K ee \<Longrightarrow> BlockString2_fit b2 E \<Longrightarrow> knows K \<Gamma> E \<Longrightarrow> BlockString2_answered b2 K ee \<Gamma>"
  "BlockString1_loaded b1 K ee \<Longrightarrow> BlockString1_fit b1 E \<Longrightarrow> knows K \<Gamma> E \<Longrightarrow> BlockString1_answered b1 K ee \<Gamma>"
  "BlockString0_loaded b0 K ee \<Longrightarrow> BlockString0_fit b0 E \<Longrightarrow> knows K \<Gamma> E \<Longrightarrow> BlockString0_answered b0 K ee \<Gamma>"
  "Block_loaded bk K ee \<Longrightarrow> Block_fit bk E \<Longrightarrow> knows K \<Gamma> E \<Longrightarrow> Block_answered bk K ee \<Gamma>"
  "GapBlock_loaded gb K ee \<Longrightarrow> GapBlock_fit gb E \<Longrightarrow> knows K \<Gamma> E \<Longrightarrow> GapBlock_answered gb K ee \<Gamma>"
  "ObjectBlock_loaded ob K ee \<Longrightarrow> ObjectBlock_fit ob E \<Longrightarrow> knows K \<Gamma> E \<Longrightarrow> ObjectBlock_answered ob K ee \<Gamma>"
  "ObjectBlockString_loaded obs K ee \<Longrightarrow> ObjectBlockString_fit obs E \<Longrightarrow> knows K \<Gamma> E \<Longrightarrow> ObjectBlockString_answered obs K ee \<Gamma>"
proof (induction bl and bs and b2 and b1 and b0 and bk and gb and ob and obs
    arbitrary: E \<Gamma> and E \<Gamma> and E \<Gamma> and E \<Gamma> and E \<Gamma> and E \<Gamma> and E \<Gamma> and E \<Gamma> and E \<Gamma>)
  case (GapBlock g opt)
  then show ?case by (cases opt) auto
next
  case (ObjectBlock j opt)
  then show ?case using knows_insert[of K \<Gamma> E "ob_nn j"] fit_answered_ob[of K ee j E \<Gamma>] by (cases opt) (auto simp del: fun_upd_apply)
qed auto

section \<open>Weeding, seen after the names\<close>

text \<open>What a visit may change without changing what weeding has looked at.\<close>

definition keeps_weeding :: "(ObjectBlockInfo \<Rightarrow> ObjectBlockInfo) \<Rightarrow> bool" where
  "keeps_weeding h \<longleftrightarrow> (\<forall>ob. ob_nn (h ob) = ob_nn ob \<and> ob_bIsNOTEXIST (h ob) = ob_bIsNOTEXIST ob \<and>
     ob_first_last (h ob) = ob_first_last ob \<and> ob_object_reference_lower (h ob) = ob_object_reference_lower ob \<and>
     (\<forall>c. (\<forall>fc\<in>set (ob_comparisons (h ob)). pattern_ok c fc) = (\<forall>fc\<in>set (ob_comparisons ob). pattern_ok c fc)))"

lemma each_info [simp]: "ob_info (ObjectBlock_each h k ob) = h (ob_info ob)"
  by (cases ob) simp

lemma each_shape [simp]:
  "isGapOrOptGapBlock (Block_each h k b) = isGapOrOptGapBlock b" "isPowerBlock (Block_each h k b) = isPowerBlock b"
  by (cases b; simp)+

lemma each_string_shape [simp]:
  "bs1_is_gap (BlockString1_each h k b1) = bs1_is_gap b1" "bs1_is_power (BlockString1_each h k b1) = bs1_is_power b1"
proof -
  have "block_is isGapOrOptGapBlock (BlockString0_each h k b0) = block_is isGapOrOptGapBlock b0"
    "block_is isPowerBlock (BlockString0_each h k b0) = block_is isPowerBlock b0" for b0
    by (cases b0; simp)+
  then show "bs1_is_gap (BlockString1_each h k b1) = bs1_is_gap b1" "bs1_is_power (BlockString1_each h k b1) = bs1_is_power b1"
    by (cases b1; simp add: bs1_is_gap_def bs1_is_power_def)+
qed

lemma each_first_power:
  "(bl :: Blocks) = bl"
  "BlockString_firstBlockIsPower (BlockString_each h k bs) = BlockString_firstBlockIsPower bs"
  "BlockString2_firstBlockIsPower (BlockString2_each h k b2) = BlockString2_firstBlockIsPower b2"
  "BlockString1_firstBlockIsPower (BlockString1_each h k b1) = BlockString1_firstBlockIsPower b1"
  "BlockString0_firstBlockIsPower (BlockString0_each h k b0) = BlockString0_firstBlockIsPower b0"
  "(bk :: Block) = bk" "(gb :: GapBlock) = gb" "(ob :: ObjectBlock) = ob" "(obs :: ObjectBlockString) = obs"
proof (induction bl and bs and b2 and b1 and b0 and bk and gb and ob and obs)
  case (BlockString0_block b)
  then show ?case by (cases b) auto
qed simp_all

lemma each_star_allowed: "keeps_names h \<Longrightarrow> star_allowed (BlockString0_each h k b0) = star_allowed b0"
proof (cases b0)
  case (BlockString0_block b)
  then show "keeps_names h \<Longrightarrow> ?thesis"
    by (cases b) (simp_all add: star_allowed_info keeps_names_def del: star_allowed.simps(2))
qed simp

lemma each_placed:
  assumes h: "keeps_weeding h"
  shows "Blocks_placed (Blocks_each h k bl) = Blocks_placed bl"
    "BlockString_placed (BlockString_each h k bs) f l = BlockString_placed bs f l"
    "BlockString2_placed (BlockString2_each h k b2) f l g p = BlockString2_placed b2 f l g p"
    "BlockString1_placed (BlockString1_each h k b1) f l g p = BlockString1_placed b1 f l g p"
    "BlockString0_placed (BlockString0_each h k b0) f l g p = BlockString0_placed b0 f l g p"
    "Block_placed (Block_each h k bk) f l = Block_placed bk f l"
    "GapBlock_placed (GapBlock_each h k gb) = GapBlock_placed gb"
    "ObjectBlock_placed (ObjectBlock_each h k ob) f l = ObjectBlock_placed ob f l"
    "ObjectBlockString_placed (ObjectBlockString_each h k obs) = ObjectBlockString_placed obs"
proof -
  have n: "keeps_names h" using h by (simp add: keeps_weeding_def keeps_names_def)
  show "Blocks_placed (Blocks_each h k bl) = Blocks_placed bl"
    "BlockString_placed (BlockString_each h k bs) f l = BlockString_placed bs f l"
    "BlockString2_placed (BlockString2_each h k b2) f l g p = BlockString2_placed b2 f l g p"
    "BlockString1_placed (BlockString1_each h k b1) f l g p = BlockString1_placed b1 f l g p"
    "BlockString0_placed (BlockString0_each h k b0) f l g p = BlockString0_placed b0 f l g p"
    "Block_placed (Block_each h k bk) f l = Block_placed bk f l"
    "GapBlock_placed (GapBlock_each h k gb) = GapBlock_placed gb"
    "ObjectBlock_placed (ObjectBlock_each h k ob) f l = ObjectBlock_placed ob f l"
    "ObjectBlockString_placed (ObjectBlockString_each h k obs) = ObjectBlockString_placed obs"
  proof (induction bl and bs and b2 and b1 and b0 and bk and gb and ob and obs
      arbitrary: and f l and f l g p and f l g p and f l g p and f l and and f l and)
    case (GapBlock g opt)
    then show ?case by (cases opt) auto
  next
    case (ObjectBlock j opt)
    then show ?case using h by (cases opt) (auto simp: keeps_weeding_def)
  qed (simp_all add: each_first_power each_star_allowed[OF n])
qed

lemma each_weed_state:
  assumes "keeps_weeding h"
  shows "weed_state c (Blocks_each h k t) = weed_state c t"
proof -
  have o: "objects (map (answer_part h) ps) = map (apsnd h) (objects ps)" for ps
    by (induction ps) (auto simp: objects_def answer_part_def split: part.splits)
  have n: "object_numbers (map (answer_part h) ps) = object_numbers ps" for ps
    using assms by (simp add: object_numbers_def o case_prod_unfold keeps_weeding_def)
  have "(\<forall>(b, ob)\<in>set (map (apsnd h) xs). ob_bIsNOTEXIST ob = b \<and> (\<forall>fc\<in>set (ob_comparisons ob). pattern_ok c fc)) =
      (\<forall>(b, ob)\<in>set xs. ob_bIsNOTEXIST ob = b \<and> (\<forall>fc\<in>set (ob_comparisons ob). pattern_ok c fc))" for xs
    using assms by (simp add: case_prod_unfold keeps_weeding_def)
  then show ?thesis unfolding weed_state_def each_parts(1) o n each_placed(1)[OF assms] by simp
qed

lemma weeding_kept: "keeps_weeding unplace_ob" "keeps_weeding strip_ob" "keeps_weeding unplaced_ob" "keeps_weeding (with_retrievals rt)"
proof -
  have "pattern_ok c (unplace_comparison fc) = pattern_ok c fc" "pattern_ok c (strip_comparison fc) = pattern_ok c fc"
    "pattern_ok c (unplaced_comparison fc) = pattern_ok c fc" for c fc
    by (auto simp: pattern_ok_def tilde_def unplace_comparison_def strip_comparison_def unplaced_comparison_def split: option.splits Value.splits)
  then have "(\<forall>fc\<in>set (ob_comparisons (unplace_ob ob)). pattern_ok c fc) = (\<forall>fc\<in>set (ob_comparisons ob). pattern_ok c fc)"
    "(\<forall>fc\<in>set (ob_comparisons (strip_ob ob)). pattern_ok c fc) = (\<forall>fc\<in>set (ob_comparisons ob). pattern_ok c fc)"
    "(\<forall>fc\<in>set (ob_comparisons (unplaced_ob ob)). pattern_ok c fc) = (\<forall>fc\<in>set (ob_comparisons ob). pattern_ok c fc)" for c ob
    by (cases "ob_feature_constraints ob";
        simp add: ob_comparisons_def unplace_ob_def strip_ob_def strip_constraint_def unplaced_ob_def unplaced_constraint_def each_comparisons)+
  moreover have "ob_comparisons (with_retrievals rt ob) = ob_comparisons ob" for ob by (simp add: ob_comparisons_def retrievals_keep)
  ultimately show "keeps_weeding unplace_ob" "keeps_weeding strip_ob" "keeps_weeding unplaced_ob" "keeps_weeding (with_retrievals rt)"
    unfolding keeps_weeding_def by (simp_all add: ob_nn_def) (simp_all add: unplace_ob_def strip_ob_def unplaced_ob_def with_retrievals_def Let_def)
qed

text \<open>The uses by name, through a visit that changes only where the values are.\<close>

definition use_name :: "use \<Rightarrow> string \<times> string set \<times> string set" where
  "use_name u = (case u of (r, S, H) \<Rightarrow> (oru_object_reference r, S, H))"

definition keeps_use_names :: "(ObjectBlockInfo \<Rightarrow> ObjectBlockInfo) \<Rightarrow> bool" where
  "keeps_use_names h \<longleftrightarrow> keeps_names h \<and>
     (\<forall>ob. map oru_object_reference (ob_references (h ob)) = map oru_object_reference (ob_references ob))"

lemma use_name_map: "map use_name (map (\<lambda>r. (r, S, H)) rs) = map (\<lambda>s. (s, S, H)) (map oru_object_reference rs)"
  by (simp add: use_name_def)

lemma each_use_names:
  assumes h: "keeps_use_names h"
  shows "map use_name (Blocks_uses (Blocks_each h k bl) S H) = map use_name (Blocks_uses bl S H)"
    "map use_name (BlockString_uses (BlockString_each h k bs) S H) = map use_name (BlockString_uses bs S H)"
    "map use_name (BlockString2_uses (BlockString2_each h k b2) S H) = map use_name (BlockString2_uses b2 S H)"
    "map use_name (BlockString1_uses (BlockString1_each h k b1) S H) = map use_name (BlockString1_uses b1 S H)"
    "map use_name (BlockString0_uses (BlockString0_each h k b0) S H) = map use_name (BlockString0_uses b0 S H)"
    "map use_name (Block_uses (Block_each h k bk) S H) = map use_name (Block_uses bk S H)"
    "map use_name (GapBlock_uses (GapBlock_each h k gb) S H) = map use_name (GapBlock_uses gb S H)"
    "map use_name (ObjectBlock_uses (ObjectBlock_each h k ob) S H) = map use_name (ObjectBlock_uses ob S H)"
    "map use_name (ObjectBlockString_uses (ObjectBlockString_each h k obs) S H) = map use_name (ObjectBlockString_uses obs S H)"
proof -
  have n: "keeps_names h" and r: "map oru_object_reference (ob_references (h ob)) = map oru_object_reference (ob_references ob)" for ob
    using h by (auto simp: keeps_use_names_def)
  show "map use_name (Blocks_uses (Blocks_each h k bl) S H) = map use_name (Blocks_uses bl S H)"
    "map use_name (BlockString_uses (BlockString_each h k bs) S H) = map use_name (BlockString_uses bs S H)"
    "map use_name (BlockString2_uses (BlockString2_each h k b2) S H) = map use_name (BlockString2_uses b2 S H)"
    "map use_name (BlockString1_uses (BlockString1_each h k b1) S H) = map use_name (BlockString1_uses b1 S H)"
    "map use_name (BlockString0_uses (BlockString0_each h k b0) S H) = map use_name (BlockString0_uses b0 S H)"
    "map use_name (Block_uses (Block_each h k bk) S H) = map use_name (Block_uses bk S H)"
    "map use_name (GapBlock_uses (GapBlock_each h k gb) S H) = map use_name (GapBlock_uses gb S H)"
    "map use_name (ObjectBlock_uses (ObjectBlock_each h k ob) S H) = map use_name (ObjectBlock_uses ob S H)"
    "map use_name (ObjectBlockString_uses (ObjectBlockString_each h k obs) S H) = map use_name (ObjectBlockString_uses obs S H)"
  proof (induction bl and bs and b2 and b1 and b0 and bk and gb and ob and obs
      arbitrary: S H and S H and S H and S H and S H and S H and S H and S H and S H)
    case (BlockString2_bs1 i b1)
    then show ?case by (simp add: each_head_name[OF n] del: getImmediateObjectBlock.simps)
  next
    case (BlockString2_seq i b1 b2)
    then show ?case by (simp add: each_head_name[OF n] each_exports[OF n] del: getImmediateObjectBlock.simps)
  next
    case (GapBlock g opt)
    then show ?case by (cases opt) auto
  next
    case (ObjectBlock j opt)
    have "map use_name (map (\<lambda>x. (x, S', H)) (ob_references (h j))) = map use_name (map (\<lambda>x. (x, S', H)) (ob_references j))" for S'
      unfolding use_name_map r ..
    with ObjectBlock.IH show ?case by (cases opt) (simp_all add: Let_def keeps_names_simps[OF n] del: map_map)
  qed simp_all
qed

lemma names_same_uses:
  "keeps_use_names strip_ob" "keeps_use_names unplaced_ob" "keeps_use_names (with_retrievals rt)"
proof -
  have "oru_object_reference (strip_reference r) = oru_object_reference r" "oru_object_reference (unplaced r) = oru_object_reference r" for r
    by (simp_all add: strip_reference_def unplaced_def)
  then have c: "map oru_object_reference (references_of [strip_comparison fc]) = map oru_object_reference (references_of [fc])"
    "map oru_object_reference (references_of [unplaced_comparison fc]) = map oru_object_reference (references_of [fc])" for fc
    by (auto simp: reference_of_def strip_comparison_def unplaced_comparison_def split: option.splits Value.splits)
  have r: "references_of (fc # fcs) = references_of [fc] @ references_of fcs" for fc fcs
    using references_of_simps(2)[of "[fc]" fcs] by simp
  have l: "map oru_object_reference (references_of (map g fcs)) = map oru_object_reference (references_of fcs)"
    if g: "\<And>fc. map oru_object_reference (references_of [g fc]) = map oru_object_reference (references_of [fc])" for g fcs
  proof (induction fcs)
    case (Cons fc fcs)
    show ?case unfolding list.map r[of "g fc" "map g fcs"] r[of fc fcs] map_append g Cons.IH ..
  qed simp
  have "map oru_object_reference (ob_references (strip_ob ob)) = map oru_object_reference (ob_references ob)"
    "map oru_object_reference (ob_references (unplaced_ob ob)) = map oru_object_reference (ob_references ob)" for ob
    by (cases "ob_feature_constraints ob"; simp add: ob_references_def ob_comparisons_def strip_ob_def strip_constraint_def
        unplaced_ob_def unplaced_constraint_def each_comparisons l[OF c(1)] l[OF c(2)])+
  moreover have "ob_references (with_retrievals rt ob) = ob_references ob" for ob
    by (simp add: ob_references_def ob_comparisons_def retrievals_keep)
  ultimately show "keeps_use_names strip_ob" "keeps_use_names unplaced_ob" "keeps_use_names (with_retrievals rt)"
    using fields_kept by (simp_all add: keeps_use_names_def keeps_fields_def)
qed

lemma parents_only_names: "parents_only us \<longleftrightarrow> (\<forall>(s, S, H)\<in>set (map use_name us). s \<in> H)"
  by (auto simp: parents_only_def use_name_def)

section \<open>The phase of the names, seen from the others\<close>

text \<open>An accepted query whose references are all to blocks around them.\<close>

lemma names_accepted_fit:
  assumes "Topograph_weed t c weed_start = Inr (t1, st1)" "ws_bResult st1" "parsed (Blocks_parts t)"
    "fresh_references (Blocks_parts t)" "\<forall>r\<in>set (used_references (Blocks_parts t)). lowered (oru_object_reference r)"
    "Blocks_stars t bounds_ok_range" "Topograph_symbol t1 db Map.empty = Inr (t', True)" "parents_only (Blocks_uses t {} {})"
  shows "weed_state c t' \<and> Blocks_fit t' {}"
proof -
  obtain t2 m ok0 where "Blocks_symbol t1 db Map.empty = Inr (t2, m, ok0)" using names_returned[OF assms(1-3,6)] by blast
  with assms(7) have 2: "Blocks_symbol t1 db Map.empty = Inr (t2, m, True)"
    by (cases ok0) (simp_all add: Topograph_symbol_def)
  note q = named_query[OF assms(1-6) 2]
  obtain t3 rs where 3: "Blocks_symbolObjectReferences t2 m (Blocks_nodes t2) no_references = Inr (t3, rs, True)"
    using assms(7) by (auto simp: Topograph_symbol_def 2 Let_def bind_res_Inr_iff split: if_splits)
  obtain t4 rt where e3: "Blocks_each strip_ob (\<lambda>s. s) t3 = Blocks_each strip_ob (\<lambda>s. s) t2"
    and u3: "used_references (Blocks_parts t3) = map (resolve m) (Blocks_uses t {} {})" and f3: "references_flagged (Blocks_parts t3)"
    and 4: "Blocks_symbolObjectReferences2 t3 m (Blocks_nodes t2) (rs_ORD_children rs) (retrievals_of (Blocks_nodes t2)) = Inr (t4, rt)"
    and e4: "Blocks_each unplaced_ob (\<lambda>s. s) t4 = Blocks_each unplaced_ob (\<lambda>s. s) t3"
    by (rule values_placed[OF assms(1-6) 2 3]) (rule that; assumption)
  have t': "t' = Blocks_each (with_retrievals rt) (\<lambda>s. s) t4" using assms(7) by (simp add: Topograph_symbol_def 2 3 4 Let_def)
  have parent: "oru_ORDIsParent (resolve m u)" if "u \<in> set (Blocks_uses t {} {})" for u
    using assms(8) that by (auto simp: parents_only_def resolve_def split: prod.splits)
  have "weed_state c t1 = weed_state c t'"
    unfolding t' each_weed_state[OF weeding_kept(4)]
    using each_weed_state[OF weeding_kept(1)] each_weed_state[OF weeding_kept(2)] each_weed_state[OF weeding_kept(3)] q(9) e3 e4 by metis
  then have w: "weed_state c t'" using weeded[OF assms(3,1,2)] by simp
  have built: "Blocks_built t'"
    unfolding t' each_built(1) using symbol_built(1)[OF 2] each_built(1) e3 e4 by metis
  have "map use_name (Blocks_uses t' {} {}) = map use_name (Blocks_uses t2 {} {})"
    unfolding t' each_use_names(1)[OF names_same_uses(3)]
    using each_use_names(1)[OF names_same_uses(1)] each_use_names(1)[OF names_same_uses(2)] e3 e4 by metis
  then have uses: "parents_only (Blocks_uses t' {} {})" using assms(8) by (simp only: parents_only_names q(4))
  have right: "named_right m (Blocks_parts t')"
    unfolding named_right_def
  proof (intro allI impI conjI ballI)
    fix b ob assume "P_object b ob \<in> set (Blocks_parts t')"
    then obtain ob4 where o4: "P_object b ob4 \<in> set (Blocks_parts t4)" "ob = with_retrievals rt ob4" unfolding t' using written_parts by blast
    obtain ob3 where o3: "P_object b ob3 \<in> set (Blocks_parts t3)" "unplaced_ob ob4 = unplaced_ob ob3" by (rule each_objects[OF e4 o4(1)])
    obtain ob2 where o2: "P_object b ob2 \<in> set (Blocks_parts t2)" "strip_ob ob3 = strip_ob ob2" by (rule each_objects[OF e3 o3(1)])
    have nn: "ob_nn ob = ob_nn ob2" "ob_object_reference_lower ob = ob_object_reference_lower ob2"
      using fields_kept o2(2) o3(2) o4(2) unfolding keeps_fields_def keeps_names_def by metis+
    show "ord_node m (ob_object_reference_lower ob) = ob_nn ob" if "ob_object_reference_lower ob \<noteq> []"
      using q(7)[OF o2(1)] that by (simp add: nn ord_node_def)
    have "ob_references ob = ob_references ob4" by (simp add: o4(2) ob_references_def ob_comparisons_def retrievals_keep)
    then have refs: "map unplaced (ob_references ob) = map unplaced (ob_references ob3)" using unplaced_ob_same(1)[OF o3(2)] by simp
    have r3: "\<exists>u. u \<in> set (Blocks_uses t {} {}) \<and> r = resolve m u" if "r \<in> set (ob_references ob3)" for r
    proof -
      have "r \<in> set (used_references (Blocks_parts t3))" using o3(1) that by (force simp: used_references_def)
      then show ?thesis by (auto simp: u3)
    qed
    show "\<not> ffc_hasNonParentORUs k" if "ob_feature_constraints ob = Some k" for k
    proof -
      have "ob_feature_constraints ob4 = Some k" using that by (simp add: o4(2) retrievals_keep)
      with unplaced_ob_same(2)[OF o3(2)] obtain k3 where k3: "ob_feature_constraints ob3 = Some k3" "ffc_hasNonParentORUs k3 = ffc_hasNonParentORUs k"
        by (cases "ob_feature_constraints ob3") auto
      then have "ffc_hasNonParentORUs k3 = (\<exists>r\<in>set (ob_references ob3). \<not> oru_ORDIsParent r)"
        using f3 o3(1) by (force simp: references_flagged_def)
      with r3 parent k3(2) show ?thesis by blast
    qed
    fix r assume "r \<in> set (ob_references ob)"
    then have "unplaced r \<in> set (map unplaced (ob_references ob3))" unfolding refs[symmetric] by simp
    then obtain r' where r': "r' \<in> set (ob_references ob3)" "unplaced r = unplaced r'" by auto
    obtain u where u: "u \<in> set (Blocks_uses t {} {})" "r' = resolve m u" using r3[OF r'(1)] by blast
    note s = unplaced_same_fields[OF r'(2)]
    obtain r0 S H where p: "u = (r0, S, H)" by (cases u)
    have "r0 \<in> set (used_references (Blocks_parts t2))"
      using imageI[OF u(1), of fst] uses_parts(1)[of t2 "{}" "{}"] by (simp add: p q(4) flip: set_map)
    then show "oru_object_reference r \<noteq> []" using q(8) s(1) by (simp add: u(2) p resolve_def)
    show "oru_ORDIsParent r" using parent[OF u(1)] s(2) by (simp add: u(2))
    show "oru_ControllingObjectBlock r = ord_node m (oru_object_reference r)" using s(1,3) by (simp add: u(2) p resolve_def)
  qed
  have "Blocks_fit t' {}" by (rule names_fit(1)[OF uses right built]) (simp add: heads_in_def)
  with w show ?thesis by blast
qed

section \<open>From the parser to the sheaf, through every check\<close>

text \<open>C17: Queries run, through all phases, for queries and runs of the following kind. The query is as the grammar
  makes it, with names in lower case, bounds of stars that are monads, and references only to blocks around
  them. It has no \<^verbatim>\<open>USING RANGE\<close> and no object block with the overlap relation: the checks accept both, and the
  engine then uses a list it has deleted or hits an assertion, or can throw. The run has no callback. The data loaded
  for each block and for the features its references name (\<open>Blocks_loaded\<close>) is of the kinds that the types say,
  the comparisons are as the grammar makes them and outside the gaps of the check, a star has a bound, and
  limits of power blocks are in range. The substrate is within the database's monads. Then: if weeding accepts the query, the
  phase of the names accepts it, the database answers on the types, and type-checking accepts the answers, the
  engine returns, with exactly the sheaf that the checked query denotes. That every reference finds a block which is being
  matched, that no constraint asks for a straw, and that stars have their sets, is what the checks establish.\<close>

theorem queries_run:
  assumes "Topograph_weed t c weed_start = Inr (t1, st1)" "ws_bResult st1" "parsed (Blocks_parts t)"
    "fresh_references (Blocks_parts t)" "\<forall>r\<in>set (used_references (Blocks_parts t)). lowered (oru_object_reference r)"
    "Blocks_stars t bounds_ok_range" "parents_only (Blocks_uses t {} {})" "Topograph_symbol t1 db Map.empty = Inr (t2, True)"
    "answers_types h" "Topograph_type (Blocks_answer h t2) column rng = Inr (t3, True, True)" "t4 = fst (Blocks_addOBBToVec t3 [])"
    "Blocks_loaded t4 K e" "extent_ok e U Su" "limit_ok mr" "ee_bContinueExecution e" "ee_pCallback e = None"
  shows "\<exists>ee. R_topograph e U Su mr t4 = Inr (Sheaf (Blocks_sem t4 e U Su mr), ee) \<and> sheaf_wf (Sheaf (Blocks_sem t4 e U Su mr))"
proof -
  have n: "weed_state c t2" "Blocks_fit t2 {}" using names_accepted_fit[OF assms(1-6,8,7)] by simp_all
  have a: "answers_only h" using assms(9) by (simp add: answers_types_def)
  have "Blocks_fit t4 {}"
    unfolding assms(11) addOBB_fit(1)
    by (rule type_fit(1)[OF assms(10)[unfolded Topograph_type_def]]) (simp add: answer_fit(1)[OF assms(9)] n(2))
  then have "Blocks_answered t4 K e Map.empty" using fit_answered(1)[OF assms(12), of "{}" Map.empty] by (simp add: knows_def)
  from checked_runs[OF n(1) a assms(10,11) this assms(13-16)] show ?thesis .
qed

text \<open>The query \<^verbatim>\<open>[word as w [word surface = w.surface]]\<close>: as parsed, weeded, resolved, typed, and run.\<close>

definition demo_nested :: Blocks where
  "demo_nested = one_block (demo_named ''w'' None) (Some (one_block (demo_named [] (Some (demo_refers ''w''))) None))"

definition demo_tree :: "ObjectBlockInfo \<Rightarrow> ObjectBlockInfo \<Rightarrow> Blocks" where
  "demo_tree outer inner = Blocks_string (BlockString_bs2 (BlockString2_bs1 (bs2_info 0) (object_block_string outer (Some
     (Blocks_string (BlockString_bs2 (BlockString2_bs1 ((bs2_info 2)\<lparr>bs2_parent := 0\<rparr>) (object_block_string inner None))) None))))) None"

definition demo_outer :: "Feature list \<Rightarrow> ObjectBlockBase \<Rightarrow> ObjectBlockInfo" where
  "demo_outer fs copy = (demo_named ''w'' None)\<lparr>ob_base := demo_base 1, ob_bIsAfterNonNOTEXIST := True,
     ob_Feature_retrieval_vec := fs, ob_pOBB := Some copy\<rparr>"

definition demo_inner :: "ObjectReferenceUsage \<Rightarrow> ObjectBlockBase \<Rightarrow> ObjectBlockInfo" where
  "demo_inner r copy = (demo_ob 3 0)\<lparr>ob_bIsAfterNonNOTEXIST := True, ob_block_string2_parent := 2, ob_pOBB := Some copy,
     ob_feature_constraints := Some ((demo_constraint 0)\<lparr>ffc_ffeatures := FFeatures_fterm (FTerm_ffactor (FFactor_comparison
       \<lparr>fc_feature_index = 0, fc_comparison_op = kEqual, fc_value = Some (kValObjectReferenceUsage r), fc_in_enum_list = None,
        fc_in_integer_list = None, fc_pcre = [], fc_output_type = 0, fc_feature_name = ''surface''\<rparr>)),
       ffc_node_number := 4, ffc_block_string2_parent := 2\<rparr>)\<rparr>"

definition demo_resolved :: ObjectReferenceUsage where
  "demo_resolved = (demo_use ''w'')\<lparr>oru_ORDIsParent := True, oru_ControllingObjectBlock := 1\<rparr>"

definition demo_place :: Feature where
  "demo_place = \<lparr>ft_feature_index_inst = 0, ft_list_index = 0, ft_name = ''surface''\<rparr>"

abbreviation demo_nested_weeded :: Blocks where
  "demo_nested_weeded \<equiv> demo_tree (demo_outer [] (demo_base 0)) (demo_inner (demo_use ''w'') (demo_base 0))"

abbreviation demo_nested_found :: Blocks where
  "demo_nested_found \<equiv> demo_tree (demo_outer [] (demo_base 0)) (demo_inner demo_resolved (demo_base 0))"

abbreviation demo_nested_accepted :: Blocks where
  "demo_nested_accepted \<equiv> demo_tree (demo_outer [new_Feature ''surface''] (demo_base 0)) (demo_inner demo_resolved (demo_base 0))"

abbreviation demo_nested_checked :: Blocks where
  "demo_nested_checked \<equiv> demo_tree (demo_outer [demo_place] (demo_base 0)) (demo_inner demo_resolved (demo_base 0))"

lemmas demo_tree_defs = demo_tree_def demo_outer_def demo_inner_def demo_named_def demo_refers_def demo_ob_def demo_base_def
  demo_constraint_def bs2_info_def object_block_string_def one_block_def

lemma demo_nested_weeds:
  "\<exists>st1. Topograph_weed demo_nested (\<lambda>_. True) weed_start = Inr (demo_nested_weeded, st1) \<and>
     ws_bResult st1"
  by (simp add: Topograph_weed_def demo_nested_def weed_start_def ObjectBlock_weed_info_def ObjectBlock_mark_def
      getNextNodeNumber_def map_weed_def Let_def met_def reject_def bs1_is_power_def bs1_is_gap_def
      first_last_allowed_def weedFeatureConstraints_def FeatureComparison_weed_def weed_inner_def demo_tree_defs)

lemma demo_nested_parts:
  "parsed (Blocks_parts demo_nested)" "fresh_references (Blocks_parts demo_nested)"
  "\<forall>r\<in>set (used_references (Blocks_parts demo_nested)). lowered (oru_object_reference r)"
  "Blocks_stars demo_nested bounds_ok_range" "parents_only (Blocks_uses demo_nested {} {})"
proof -
  have "lowered ''w''" "lowered []" by (code_simp)+
  then show "parsed (Blocks_parts demo_nested)" "fresh_references (Blocks_parts demo_nested)"
    "\<forall>r\<in>set (used_references (Blocks_parts demo_nested)). lowered (oru_object_reference r)"
    "Blocks_stars demo_nested bounds_ok_range" "parents_only (Blocks_uses demo_nested {} {})"
    using demo_refers_ok by (simp_all add: demo_nested_def one_block_def object_block_string_def demo_named_simps head_name_def Let_def parents_only_def)
qed

lemma demo_nested_symbol: "Blocks_symbol (demo_tree (demo_outer [] c) (demo_inner (demo_use ''w'') c)) yes_db Map.empty =
    Inr (demo_tree (demo_outer [] c) (demo_inner (demo_use ''w'') c), [''w'' \<mapsto> 1], True)"
  by (simp add: demo_tree_defs ObjectBlock_symbol_info_def Let_def yes_db_def symbol_constraints_def symbol_features_def inner_symbol_def
      FeatureComparison_symbol_def ObjectReferenceUsage_symbol_def demo_use_def FeatureComparison_symbolAddFeatures_def
      MQLObject_addFeature_def)


abbreviation demo_nested_vector :: "QueryNode list" where
  "demo_nested_vector \<equiv> Blocks_nodes demo_nested_weeded"

lemma demo_nested_nodes: "demo_nested_vector = [kQNKBlockString2 (bs2_info 0) (Some (demo_outer [] (demo_base 0))), kQNKObjectBlock (demo_outer [] (demo_base 0)),
   kQNKBlockString2 ((bs2_info 2)\<lparr>bs2_parent := 0\<rparr>) (Some (demo_inner (demo_use ''w'') (demo_base 0))),
   kQNKObjectBlock (demo_inner (demo_use ''w'') (demo_base 0)), kQNKFFeatures (the (ob_feature_constraints (demo_inner (demo_use ''w'') (demo_base 0))))]"
  by (simp add: demo_tree_defs ob_nodes_def)

lemma demo_nested_texts: "str_tolower ''w'' = ''w''" "strcmp_nocase ''w'' ''w'' = 0" "strcmp_nocase ''w'' [] \<noteq> 0" "strcmp_nocase ''surface'' ''surface'' = 0"
  by code_simp+

lemma demo_nested_fields: "ob_object_reference_lower (demo_outer fs c) = ''w''" "ob_object_reference_lower (demo_inner r c) = []"
  "ob_block_string2_parent (demo_outer fs c) = 0" "ob_feature_constraints (demo_outer fs c) = None"
  "ob_nn (demo_outer fs c) = 1" "ob_nn (demo_inner r c) = 3" "ob_object (demo_outer fs c) = [''surface'']"
  "ob_object (demo_inner r c) = [''surface'']" "ob_Feature_retrieval_vec (demo_outer fs c) = fs" "ob_Feature_retrieval_vec (demo_inner r c) = []"
  by (simp_all add: demo_outer_def demo_inner_def demo_named_def demo_ob_def ob_nn_def demo_base_def)

lemma demo_nested_references: "\<exists>rs. Blocks_symbolObjectReferences demo_nested_weeded [''w'' \<mapsto> 1] demo_nested_vector no_references =
    Inr (demo_nested_found, rs, True)"
  unfolding demo_nested_nodes
  by (simp add: demo_tree_def object_block_string_def ObjectBlock_references_info_def declare_reference_def demo_nested_fields addORDChildren.simps no_references_def
     getNodeFromNodeNumber_def asBlockString2_def bs2_info_def constraint_references_def inner_references_def)
   (simp add: demo_inner_def FeatureComparison_symbolObjectReferences_def demo_use_def demo_ob_def demo_constraint_def determineSolutionType_def
     determineSolutionType_loop.simps getNodeFromNodeNumber_def asBlockString2_def bs2_info_def hasImmediateORDChild_def demo_nested_texts demo_nested_fields ord_node_def
     demo_resolved_def Let_def inner_references_def)


lemma demo_nested_values: "\<exists>rt. Blocks_symbolObjectReferences2 demo_nested_found [''w'' \<mapsto> 1] demo_nested_vector ch
      (retrievals_of demo_nested_vector) = Inr (demo_nested_found, rt) \<and>
    rt_object rt 1 = [''surface''] \<and> rt_object rt 3 = [''surface''] \<and> rt_Feature_retrieval_vec rt 1 = [new_Feature ''surface''] \<and>
    rt_Feature_retrieval_vec rt 3 = []"
  unfolding demo_nested_nodes
  by (simp add: demo_tree_def object_block_string_def ObjectBlock_references2_info_def demo_nested_fields inner_references2_def)
   (simp add: demo_inner_def constraint_references2_def FeatureComparison_symbolObjectReferences2_def ObjectReferenceUsage_symbolObjectReferences2_def
     demo_resolved_def demo_use_def demo_ob_def demo_constraint_def BS2_list_def BS2_parents.simps matched_places_def told_place_def asObjectBlock_def
     getNodeFromNodeNumber_def asBlockString2_def bs2_info_def demo_nested_texts demo_nested_fields ord_node_def MQLObject_add_def MQLObject_addFeature_def addFeatureToBeRetrieved_def
     retrievals_of_def object_of_def inner_references2_def Let_def)


lemma demo_nested_names: "Topograph_symbol demo_nested_weeded yes_db Map.empty =
    Inr (demo_nested_accepted, True)"
proof -
  obtain rs where 2: "Blocks_symbolObjectReferences demo_nested_weeded [''w'' \<mapsto> 1] demo_nested_vector no_references =
    Inr (demo_nested_found, rs, True)" using demo_nested_references by blast
  obtain rt where 3: "Blocks_symbolObjectReferences2 demo_nested_found [''w'' \<mapsto> 1] demo_nested_vector
      (rs_ORD_children rs) (retrievals_of demo_nested_vector) = Inr (demo_nested_found, rt)"
    "rt_object rt 1 = [''surface'']" "rt_object rt 3 = [''surface'']" "rt_Feature_retrieval_vec rt 1 = [new_Feature ''surface'']"
    "rt_Feature_retrieval_vec rt 3 = []" using demo_nested_values by blast
  have "with_retrievals rt (demo_outer [] (demo_base 0)) = demo_outer [new_Feature ''surface''] (demo_base 0)"
    "with_retrievals rt (demo_inner demo_resolved (demo_base 0)) = demo_inner demo_resolved (demo_base 0)"
    using 3(2-5) by (simp_all add: with_retrievals_def Let_def demo_outer_def demo_inner_def demo_named_def demo_ob_def demo_base_def)
  then have "Blocks_each (with_retrievals rt) (\<lambda>s. s) demo_nested_found =
      demo_nested_accepted"
    by (simp add: demo_tree_def object_block_string_def)
  then show ?thesis by (simp add: Topograph_symbol_def demo_nested_symbol 2 3(1) Let_def)
qed

lemma demo_nested_answer: "Blocks_answer (\<lambda>ob. ob) (demo_tree a b) = demo_tree a b" "answers_types (\<lambda>ob. ob)"
  by (simp_all add: demo_tree_def object_block_string_def answers_types_def demo_answer_id(2))

lemma demo_nested_typed: "Topograph_type demo_nested_accepted (\<lambda>_. True) kORTSingleRange =
    Inr (demo_nested_checked, True, True)"
proof -
  have "FFeatures_type (ffc_ffeatures (the (ob_feature_constraints (demo_inner demo_resolved c)))) = Inr (True, True)" for c
    by (simp add: demo_inner_def demo_resolved_def demo_use_def FeatureComparison_type_cases type_value_def type_reference_def type_reference_same_def type_defs)
  then have c: "constraints_type (demo_inner demo_resolved c) True = Inr (True, True)" for c by (simp add: constraints_type_def demo_inner_def)
  have m: "MonadSetRelationClause_type (ob_MSRC (demo_inner r c))" "MonadSetRelationClause_type (ob_MSRC (demo_outer fs c))" for r c fs
    by (simp_all add: MonadSetRelationClause_type_def demo_inner_def demo_outer_def demo_named_def demo_ob_def)
  have i: "ObjectBlock_type (ObjectBlock (demo_inner demo_resolved (demo_base 0)) None) (\<lambda>_. True) True =
      Inr (ObjectBlock (demo_inner demo_resolved (demo_base 0)) None, True, True)"
    using c m(1) by (simp add: ObjectBlock_type_info_def inner_type_def demo_nested_fields)
  let ?inner = "Blocks_string (BlockString_bs2 (BlockString2_bs1 ((bs2_info 2)\<lparr>bs2_parent := 0\<rparr>)
      (object_block_string (demo_inner demo_resolved (demo_base 0)) None))) None"
  let ?outer = "demo_outer [new_Feature ''surface''] (demo_base 0)"
  have n: "Blocks_type ?inner (\<lambda>_. True) kORTSingleRange True = Inr (?inner, True, True)"
    by (simp add: object_block_string_def typed_map_def typed_end_def i del: ObjectBlock_type.simps)
  have f: "symbolAddFeatures 0 [new_Feature ''surface''] [''surface''] = Inr ([demo_place], [''surface''])"
    by (simp add: new_Feature_def demo_place_def symbolAddToObject_def MQLObject_addFeature_def demo_nested_texts)
  have k: "constraints_type ?outer True = Inr (True, True)" "ob_objectRangeType ?outer = kORTSingleRange"
    "?outer\<lparr>ob_Feature_retrieval_vec := [demo_place], ob_object := [''surface'']\<rparr> = demo_outer [demo_place] (demo_base 0)"
    by (simp_all add: constraints_type_def demo_nested_fields) (simp_all add: demo_outer_def demo_named_def demo_ob_def)
  have o: "ObjectBlock_type (ObjectBlock ?outer (Some ?inner)) (\<lambda>_. True) True = Inr (ObjectBlock (demo_outer [demo_place] (demo_base 0)) (Some ?inner), True, True)"
    using m(2)[of "[new_Feature ''surface'']" "demo_base 0"] k
    by (simp add: ObjectBlock_type_info_def inner_type_def demo_nested_fields n f del: Blocks_type.simps symbolAddFeatures.simps)
  show ?thesis
    unfolding Topograph_type_def demo_tree_def
    by (simp add: object_block_string_def[of "demo_outer fs c" for fs c] typed_map_def typed_end_def o del: ObjectBlock_type.simps)
qed


definition demo_ran :: Blocks where
  "demo_ran = demo_tree (demo_outer [demo_place] (ObjectBlock_OBB (demo_outer [demo_place] (demo_base 0)))) (demo_inner demo_resolved (demo_base 3))"

lemma demo_nested_copies: "fst (Blocks_addOBBToVec demo_nested_checked []) = demo_ran"
proof -
  have "ObjectBlock_OBB (demo_inner r c) = demo_base 3" for r c
    by (simp add: ObjectBlock_OBB_def demo_inner_def demo_ob_def demo_base_def)
  moreover have "(demo_outer fs c)\<lparr>ob_pOBB := Some d\<rparr> = demo_outer fs d" "(demo_inner r c)\<lparr>ob_pOBB := Some d\<rparr> = demo_inner r d" for fs r c d
    by (simp_all add: demo_outer_def demo_inner_def)
  ultimately show ?thesis by (simp add: demo_ran_def demo_tree_def object_block_string_def inner_OBB_def Let_def case_prod_unfold)
qed

lemma demo_nested_loaded: "Blocks_loaded demo_ran demo_kinds (demo_env None)"
proof -
  have i: "\<exists>i. ob_inst (demo_ob 0 0) = Some i \<and> inst_ok (demo_env None) [K_int] i"
    using demo_ob_ok[of None 0 0] by (simp add: ob_ok_def Let_def demo_kinds_def)
  have "ob_inst (demo_outer fs c) = ob_inst (demo_ob 0 0)" "ob_inst (demo_inner r c) = ob_inst (demo_ob 0 0)"
    "msrc_operation (ob_MSRC (demo_outer fs c)) = kMSROPartOf" "msrc_operation (ob_MSRC (demo_inner r c)) = kMSROPartOf" for fs r c
    by (simp_all add: demo_outer_def demo_inner_def demo_named_def demo_ob_def)
  moreover have "ob_comparisons (demo_outer fs c) = []" "ob_references (demo_outer fs c) = []" for fs c
    by (simp_all add: ob_comparisons_def ob_references_def demo_nested_fields)
  moreover have "ob_references (demo_inner demo_resolved c) = [demo_resolved]" for c
    by (simp add: ob_references_def ob_comparisons_def demo_inner_def reference_of_def)
  moreover have "type_kind (oru_OutputFeatureTypeId demo_resolved) = Some K_int" "oru_FeatureIndexInMQLObject demo_resolved = 0"
    by (simp_all add: demo_resolved_def demo_use_def type_defs)
  moreover have "\<forall>fc\<in>set (ob_comparisons (demo_inner demo_resolved c)). fc_parsed fc \<and> fc_symbols fc \<and> \<not> type_gap fc \<and> \<not> som_in_list fc \<and>
      fc_feature_index fc = 0 \<and> type_kind (fc_output_type fc) = Some K_int" for c
    by (simp add: demo_inner_def demo_resolved_def demo_use_def ob_comparisons_def fc_parsed_def fc_list_def fc_symbols_def
        type_valid_def type_defs STRIP_ENUM_ID_OF_LOWER_BITS_def type_gap_def som_in_list_def)
  ultimately show ?thesis using i
    by (simp add: demo_ran_def demo_tree_def object_block_string_def ob_loaded_def demo_nested_fields Let_def demo_kinds_def) (simp add: demo_env_def)
qed

theorem queries_run_witness:
  "\<exists>ee. R_topograph (demo_env None) (solid 1 3) (solid 1 3) MAX_MONAD demo_ran =
     Inr (Sheaf (Blocks_sem demo_ran (demo_env None) (solid 1 3) (solid 1 3) MAX_MONAD), ee)"
proof -
  obtain st1 where w: "Topograph_weed demo_nested (\<lambda>_. True) weed_start =
      Inr (demo_nested_weeded, st1)" "ws_bResult st1"
    using demo_nested_weeds by blast
  have t: "Topograph_type (Blocks_answer (\<lambda>ob. ob) demo_nested_accepted)
      (\<lambda>_. True) kORTSingleRange = Inr (demo_nested_checked, True, True)"
    unfolding demo_nested_answer(1) by (rule demo_nested_typed)
  show ?thesis
    using queries_run[OF w demo_nested_parts demo_nested_names demo_nested_answer(2) t demo_nested_copies[symmetric] demo_nested_loaded demo_query_ok(2) limit_ok_MAX demo_query_ok(3,4)] by blast
qed

end
