(* ===== verification/Spec2Isabelle.thy ===== *)
theory Spec2Isabelle
  imports MonadSets_Props MonadStrings_Props Llist Containers_Props StringNumbers_Props StringText_Props EMdFValue_Props Inst_Props
    Sheaf_Props Topograph_Props Weed_Props FeatureTypes_Props Checked_Props Phases_Props
begin

text \<open>
  Emdros is a database engine for analysed text. Its model of a text (EMdF) has \<^emph>\<open>monads\<close>, the
  integers from 1 that number the smallest units, and \<^emph>\<open>objects\<close>, sets of monads with features; its
  query language (MQL) asks for patterns of objects, nested and next to each other. This development
  models the C++ code that does the work between the text of a query and the database: sets of
  monads, feature values, the containers under them, the objects loaded for a query, the checks of a
  query's syntax tree, the engine that matches it, and the sheaf it returns.

  \<^bold>\<open>Conventions.\<close> An exception is a value of the type \<open>error\<close>, a fallible function returns
  \<open>error + 'a\<close>, written \<open>'a res\<close>, and \<open>NullDeref\<close> stands for what C++ leaves undefined (a null or
  dangling pointer, an index out of range, a member of a union that is not the one stored). Where such
  a read lets the code go on to an answer, without a pointer that is followed, it is \<open>UndefinedValue\<close>. Objects that the code
  changes in place are returned changed; lists with nodes that are shared have a heap. Integers
  are integers with the 32-bit range written out where the code can leave it. \<^verbatim>\<open>Emdros_Prelude\<close> has
  these types, the loops over lists that may fail, and the constants of \<^verbatim>\<open>include/emdf.h\<close>.

  \<^bold>\<open>Sets of monads\<close> (\<^verbatim>\<open>EMdF/monads.cpp\<close>, \<^verbatim>\<open>include/monads.h\<close>). \<^verbatim>\<open>MonadSetElement\<close> has a stretch of
  monads, \<^verbatim>\<open>SetOfMonads\<close> and \<^verbatim>\<open>FastSetOfMonads\<close> the two classes of sets and their iterators, with
  every operation. \<^verbatim>\<open>Stretches\<close> has the invariant of both, ordered stretches with a gap between any
  two, and \<^verbatim>\<open>MonadSetSpec\<close> the contract of a set of monads as a locale, which \<^verbatim>\<open>SetOfMonads_Props\<close>
  and \<^verbatim>\<open>FastSetOfMonads_Props\<close> interpret on the two classes. \<^verbatim>\<open>MonadSets_Main\<close> and
  \<^verbatim>\<open>MonadSets_Props\<close> state that set expressions evaluate to the sets they denote in both classes, and
  what insertion, removal, comparison, look-up and iteration do. \<^verbatim>\<open>MonadStrings\<close> and
  \<^verbatim>\<open>MonadStrings_Props\<close> have the texts and compact encodings of a set and their round trips.

  \<^bold>\<open>Containers\<close> (\<^verbatim>\<open>include/llist.h\<close>, \<^verbatim>\<open>emdf_hash.h\<close>, \<^verbatim>\<open>smart_vector.h\<close>, \<^verbatim>\<open>bpa.h\<close>,
  \<^verbatim>\<open>EMdF/emdf_primes.cpp\<close>). \<^verbatim>\<open>LVlist\<close> and \<^verbatim>\<open>LVlist_Props\<close> treat the linked list as nodes in a heap:
  each operation performs its operation on the sequence, on empty lists and past the end too, frees what
  it takes out, and changes only the neighbouring node. \<^verbatim>\<open>Llist\<close>
  has the other list class, which can delete the objects it points to. \<^verbatim>\<open>Containers\<close> and \<^verbatim>\<open>Containers_Props\<close>
  have the hash table, the vector without duplicates, the chunked array and the search for primes.

  \<^bold>\<open>Texts and values\<close> (\<^verbatim>\<open>EMdF/string_func.cpp\<close>, \<^verbatim>\<open>EMdF/emdf_value.cpp\<close>, \<^verbatim>\<open>include/string_list.h\<close>).
  \<^verbatim>\<open>Decimal\<close>, \<^verbatim>\<open>StringFunc\<close>, \<^verbatim>\<open>StringNumbers_Props\<close> and \<^verbatim>\<open>StringText_Props\<close> have conversions of
  numbers (their signed arithmetic wraps around in the model where C++ leaves an overflow undefined), comparison without regard to case, UTF-8, escapes, splitting and replacing; \<^verbatim>\<open>EMdFValue\<close>
  and its properties the values of features, their comparison and the kinds for which it is defined.

  \<^bold>\<open>Objects of a query\<close> (\<^verbatim>\<open>EMdF/inst.cpp\<close>, \<^verbatim>\<open>EMdF/inst_object.cpp\<close>). \<^verbatim>\<open>Inst\<close> has an object in
  memory and the skip list that holds the objects loaded for a block, with its random levels as an
  input; \<^verbatim>\<open>Inst_Props\<close> refines it to an ordered list for every choice of levels. \<^verbatim>\<open>StdMap\<close> is what
  the sources use of \<open>std::map\<close>.

  \<^bold>\<open>Sheaves\<close> (\<^verbatim>\<open>MQL/mql_sheaf.cpp\<close>). \<^verbatim>\<open>Sheaf\<close> has matched objects, straws, lists of straws, sheaves
  and flat sheaves; \<^verbatim>\<open>Sheaf_Props\<close> shows that copies are copies, that the operations on lists of
  straws are list operations, and that each traversal is a fold over the matched objects in preorder.

  \<^bold>\<open>The engine\<close> (\<^verbatim>\<open>MQL/mql_R.cpp\<close>, \<^verbatim>\<open>MQL/mql_query.cpp\<close>). \<^verbatim>\<open>FeatureConstraints\<close> decides the
  constraints of object blocks, \<^verbatim>\<open>Topograph\<close> has the syntax tree of a query and the iterators over
  starting monads, and \<^verbatim>\<open>TopographR\<close> the functions \<^verbatim>\<open>R_*\<close>, composed as in \<^verbatim>\<open>mql_R.cpp\<close>: a topograph
  goes from starting monad to starting monad, a string of blocks matches block after block, an object
  block runs through the objects that start there and matches the blocks inside, a star repeats, a
  power block leaves room. \<^verbatim>\<open>TopographSem\<close> states what a query means, with sets of monads and lists
  of straws only, and what makes a query well-formed. \<^verbatim>\<open>FeatureConstraints_Props\<close>,
  \<^verbatim>\<open>StartMonads_Props\<close>, \<^verbatim>\<open>TopographStrings_Props\<close>, \<^verbatim>\<open>TopographBlocks_Props\<close>, \<^verbatim>\<open>TopographMain_Props\<close>
  and \<^verbatim>\<open>TopographCallback_Props\<close> lead to \<^verbatim>\<open>Topograph_Props\<close>: on well-formed queries the engine
  returns, with the sheaf of the semantics; with a callback it comes to its end, and what the callback is told is stated for strings of blocks and
  for unordered groups; well-typed
  constraints never fail.

  \<^bold>\<open>The checks\<close> (\<^verbatim>\<open>MQL/mql_query.cpp\<close>). Before a query is run, its tree goes through phases, each
  a method of every kind of node. \<^verbatim>\<open>Weed\<close> has the first, which rejects blocks where they may not
  stand, numbers the nodes and sets flags. \<^verbatim>\<open>References\<close> has the second, three visits of the tree: names
  are declared and used (\<^verbatim>\<open>symbol\<close>), uses are in scope or not and know their blocks
  (\<^verbatim>\<open>symbolObjectReferences\<close>), and values get their places (\<^verbatim>\<open>symbolObjectReferences2\<close>).
  \<^verbatim>\<open>FeatureTypes\<close> has the last, which compares types, puts in gaps and gives features their places,
  and the copies of blocks that matched objects refer to.
  \<^verbatim>\<open>Weed_Props\<close> characterises what is accepted, \<^verbatim>\<open>FeatureTypes_Props\<close> shows that accepted
  comparisons run, but for a list of gaps, and which query with gaps and features in place type-checking
  makes of an accepted one (\<open>Blocks_gapped\<close>), and \<^verbatim>\<open>Checked_Props\<close> composes weeding and type-checking
  with the engine: a query that passes the checks runs, if the database's answers fit and it has none
  of what the semantics leaves out (see the end of this text).
  \<^verbatim>\<open>References_Props\<close> has what the visits of the names see and change, \<^verbatim>\<open>Names_Props\<close> that weeding leaves a
  tree they can walk, and which names and uses they accept, and \<^verbatim>\<open>Located_Props\<close> that every use of an
  accepted query finds its block, its feature and its place in the solutions. \<^verbatim>\<open>Phases_Props\<close> composes all
  phases with the engine: for references to blocks around them, what the engine requires of references and
  stars is derived from the phase of the names, and only what is loaded is assumed, block by block.

  \<^bold>\<open>Loops and fuel.\<close> Structural loops are recursive functions. The others carry fuel that is shown to
  be enough: walks of linked lists by the length of the list and of the heap; the levels of the skip
  list by its number of nodes; the iterators over starting monads (\<open>smi_fuel\<close>) by the monads left,
  the gaps of a set (\<open>som_steps\<close>) by its stretches; the walks up the strings around a block by the number
  of nodes, as a string has a smaller number than those inside it; a star by its greatest number; running out
  of fuel is an error value, and the properties say that the functions return.

  \<^bold>\<open>Parameters.\<close> The database is a parameter wherever it is asked: the objects of a block
  (\<open>ee_getInst\<close>, or the Inst in the tree), whether a column type is known, the answers on names (\<open>SymbolDB\<close>). So
  are the matcher of regular expressions and whether a pattern compiles (PCRE), the callback, and the
  random numbers of the skip list.

  \<^bold>\<open>Not modelled.\<close> The database classes, back ends, caches and importers build texts of SQL or MQL
  and call other programs; the parser and lexers are generated by tools from files that are no C++;
  statements other than a query check names and call the database; aggregate queries and the constraints
  handed to the database (\<^verbatim>\<open>emdf_ffeatures\<close>) decide what to load from it; printing, logging, XML and JSON are output; SQLite, PCRE, zlib, LZMA and
  MD5 are other people's code. Of the modelled parts, pretty-printing, the texts of messages,
  aliasing of copies that the code never changes, the vector of blocks that a sheaf owns (with the
  assertion in \<open>Sheaf::copyOther\<close> that it is not set), and the freeing of memory at the end of an
  object's life are left out, and the semantics of the engine is not given for \<^verbatim>\<open>USING RANGE\<close>,
  whose code frees what it uses, for the overlap relation, and for references to objects that are
  no parents, though the functions that treat them are part of the model.
\<close>

end
